(* ===== verification/JS_Values.thy ===== *)
theory JS_Values
  imports Complex_Main "HOL-Library.AList"
begin

section \<open>JavaScript values: the prelude of the development\<close>

text \<open>
  The part of the JavaScript language and its standard library that the modelled sources
  use: numbers with \<open>NaN\<close> and the infinities, dynamically typed values, property access
  with optional chaining, object spread, truthiness, \<open>||\<close> and \<open>??\<close>, \<open>String(x)\<close>,
  \<open>Number(x)\<close>, and the string methods of the sources.

  Conventions:
  \<^item> A finite number is the exact rational it denotes. The sources compare numbers, clamp
    them, add milliseconds and sum decibel values; rounding of 64-bit floats is not modelled.
  \<^item> A string is the list of its UTF-8 code units. Literals with characters outside ASCII are
    written with their bytes.
  \<^item> An object is the association list of its own properties in insertion order. A key that is
    present with value \<open>undefined\<close> is different from an absent key under spread, as in the
    language. Identity of objects, where a source compares it, is modelled by the component
    with an explicit reference number.
\<close>

named_theorems js_simps \<open>evaluation of JavaScript operations on constructors\<close>

subsection \<open>Numbers\<close>

datatype jsnum = NaN | PosInf | NegInf | Fin rat

instantiation jsnum :: "{zero, one, plus, uminus, minus, times, ord}"
begin

definition zero_jsnum :: jsnum where "zero_jsnum = Fin 0"

definition one_jsnum :: jsnum where "one_jsnum = Fin 1"

fun plus_jsnum :: "jsnum \<Rightarrow> jsnum \<Rightarrow> jsnum" where
  "plus_jsnum (Fin a) (Fin b) = Fin (a + b)"
| "plus_jsnum NaN b = NaN"
| "plus_jsnum a NaN = NaN"
| "plus_jsnum PosInf NegInf = NaN"
| "plus_jsnum NegInf PosInf = NaN"
| "plus_jsnum PosInf b = PosInf"
| "plus_jsnum NegInf b = NegInf"
| "plus_jsnum a PosInf = PosInf"
| "plus_jsnum a NegInf = NegInf"

fun uminus_jsnum :: "jsnum \<Rightarrow> jsnum" where
  "uminus_jsnum (Fin a) = Fin (- a)"
| "uminus_jsnum NaN = NaN"
| "uminus_jsnum PosInf = NegInf"
| "uminus_jsnum NegInf = PosInf"

definition minus_jsnum :: "jsnum \<Rightarrow> jsnum \<Rightarrow> jsnum" where
  "minus_jsnum a b = a + (- b)"

definition inf_times :: "bool \<Rightarrow> rat \<Rightarrow> jsnum" where
  "inf_times pos b = (if b = 0 then NaN else if (0 < b) = pos then PosInf else NegInf)"

fun times_jsnum :: "jsnum \<Rightarrow> jsnum \<Rightarrow> jsnum" where
  "times_jsnum (Fin a) (Fin b) = Fin (a * b)"
| "times_jsnum NaN b = NaN"
| "times_jsnum a NaN = NaN"
| "times_jsnum PosInf (Fin b) = inf_times True b"
| "times_jsnum NegInf (Fin b) = inf_times False b"
| "times_jsnum (Fin a) PosInf = inf_times True a"
| "times_jsnum (Fin a) NegInf = inf_times False a"
| "times_jsnum PosInf b = b"
| "times_jsnum NegInf b = - b"

fun less_jsnum :: "jsnum \<Rightarrow> jsnum \<Rightarrow> bool" where
  "less_jsnum (Fin a) (Fin b) = (a < b)"
| "less_jsnum NaN b = False"
| "less_jsnum a NaN = False"
| "less_jsnum NegInf b = (b \<noteq> NegInf)"
| "less_jsnum a PosInf = (a \<noteq> PosInf)"
| "less_jsnum a b = False"

definition less_eq_jsnum :: "jsnum \<Rightarrow> jsnum \<Rightarrow> bool" where
  "less_eq_jsnum a b = (a < b \<or> (a = b \<and> a \<noteq> NaN))"

instance ..

end

lemmas jsnum_arith [simp] = zero_jsnum_def one_jsnum_def minus_jsnum_def less_eq_jsnum_def
  inf_times_def

lemma NaN_not_less [simp]: "\<not> a < (NaN :: jsnum)" "\<not> NaN < (a :: jsnum)"
  by (cases a; simp)+

lemma Fin_le [simp]: "Fin a \<le> Fin b \<longleftrightarrow> a \<le> b"
  by auto

text \<open>\<open>Number.isFinite\<close> on a number, strict equality of numbers, \<open>Math.min\<close>, \<open>Math.max\<close> and
  \<open>Math.round\<close>.\<close>

fun is_fin :: "jsnum \<Rightarrow> bool" where
  "is_fin (Fin r) = True"
| "is_fin n = False"

lemma is_fin_iff: "is_fin n \<longleftrightarrow> (\<exists>r. n = Fin r)"
  by (cases n) auto

definition num_eq :: "jsnum \<Rightarrow> jsnum \<Rightarrow> bool" where
  "num_eq a b = (a = b \<and> a \<noteq> NaN)"

definition js_max :: "jsnum \<Rightarrow> jsnum \<Rightarrow> jsnum" where
  "js_max a b = (if a = NaN \<or> b = NaN then NaN else if a < b then b else a)"

definition js_min :: "jsnum \<Rightarrow> jsnum \<Rightarrow> jsnum" where
  "js_min a b = (if a = NaN \<or> b = NaN then NaN else if b < a then b else a)"

lemma js_max_Fin [simp]: "js_max (Fin a) (Fin b) = Fin (max a b)"
  by (auto simp: js_max_def max_def)

lemma js_min_Fin [simp]: "js_min (Fin a) (Fin b) = Fin (min a b)"
  by (auto simp: js_min_def min_def)

text \<open>Division by a finite constant other than 0.\<close>

definition div_const :: "jsnum \<Rightarrow> rat \<Rightarrow> jsnum" where
  "div_const a c = a * Fin (1 / c)"

fun js_round :: "jsnum \<Rightarrow> jsnum" where
  "js_round (Fin r) = Fin (of_int \<lfloor>r + 1 / 2\<rfloor>)"
| "js_round n = n"

lemma js_round_int [simp]: "js_round (Fin (of_int k)) = Fin (of_int k)"
proof -
  have "\<lfloor>(of_int k :: rat) + 1 / 2\<rfloor> = k"
    by (simp add: floor_eq_iff)
  then show ?thesis by simp
qed

text \<open>\<open>Number.isInteger\<close>.\<close>

fun is_integer :: "jsnum \<Rightarrow> bool" where
  "is_integer (Fin r) = (of_int \<lfloor>r\<rfloor> = r)"
| "is_integer n = False"

subsection \<open>Strings\<close>

definition starts_with :: "string \<Rightarrow> string \<Rightarrow> bool" where
  "starts_with s p = (take (length p) s = p)"

definition ends_with :: "string \<Rightarrow> string \<Rightarrow> bool" where
  "ends_with s p = starts_with (rev s) (rev p)"

fun contains_str :: "string \<Rightarrow> string \<Rightarrow> bool" where
  "contains_str [] p = (p = [])"
| "contains_str (c # s) p = (starts_with (c # s) p \<or> contains_str s p)"

fun split_on :: "char \<Rightarrow> string \<Rightarrow> string list" where
  "split_on sep [] = [[]]"
| "split_on sep (c # s) =
     (if c = sep then [] # split_on sep s
      else case split_on sep s of [] \<Rightarrow> [[c]] | w # ws \<Rightarrow> (c # w) # ws)"

fun join_with :: "string \<Rightarrow> string list \<Rightarrow> string" where
  "join_with sep [] = []"
| "join_with sep [w] = w"
| "join_with sep (w # v # ws) = w @ sep @ join_with sep (v # ws)"

lemma split_on_not_Nil [simp]: "split_on sep s \<noteq> []"
  by (induction s) (auto split: list.splits)

lemma join_split: "join_with [sep] (split_on sep s) = s"
proof (induction s)
  case Nil
  then show ?case by simp
next
  case (Cons c s)
  obtain w ws where eq: "split_on sep s = w # ws"
    by (cases "split_on sep s") auto
  have "join_with [sep] ((c # w) # ws) = c # join_with [sep] (w # ws)"
    by (cases ws) auto
  with Cons eq show ?case by simp
qed

lemma starts_with_append [simp]: "starts_with (p @ s) p"
  by (simp add: starts_with_def)

lemma starts_with_iff: "starts_with s p \<longleftrightarrow> (\<exists>t. s = p @ t)"
  by (metis append_take_drop_id starts_with_def starts_with_append)

definition is_space :: "char \<Rightarrow> bool" where
  "is_space c = (c \<in> {CHR '' '', CHR 0x09, CHR 0x0A, CHR 0x0B, CHR 0x0C, CHR 0x0D})"

definition trim_start :: "string \<Rightarrow> string" where
  "trim_start s = dropWhile is_space s"

definition trim_end :: "string \<Rightarrow> string" where
  "trim_end s = rev (dropWhile is_space (rev s))"

definition trim :: "string \<Rightarrow> string" where
  "trim s = trim_end (trim_start s)"

definition upper_char :: "char \<Rightarrow> char" where
  "upper_char c = (let n = of_char c :: nat in if 97 \<le> n \<and> n \<le> 122 then char_of (n - 32) else c)"

definition lower_char :: "char \<Rightarrow> char" where
  "lower_char c = (let n = of_char c :: nat in if 65 \<le> n \<and> n \<le> 90 then char_of (n + 32) else c)"

definition lower_case :: "string \<Rightarrow> string" where
  "lower_case s = List.map lower_char s"

text \<open>\<open>word.charAt(0).toUpperCase() + word.slice(1)\<close>.\<close>

fun capitalize :: "string \<Rightarrow> string" where
  "capitalize [] = []"
| "capitalize (c # s) = upper_char c # s"

subsection \<open>Number formatting and parsing\<close>

definition digit_char :: "nat \<Rightarrow> char" where
  "digit_char d = ''0123456789'' ! d"

fun nat_str :: "nat \<Rightarrow> string" where
  "nat_str n = (if n < 10 then [digit_char n] else nat_str (n div 10) @ [digit_char (n mod 10)])"

declare nat_str.simps [simp del]

definition int_str :: "int \<Rightarrow> string" where
  "int_str k = (if k < 0 then ''-'' @ nat_str (nat (- k)) else nat_str (nat k))"

text \<open>Decimal expansion of the fraction \<open>r\<close> in \<open>[0, 1)\<close>, at most \<open>fuel\<close> digits; every decimal
  literal of at most that many digits is written back as it is.\<close>

fun frac_digits :: "nat \<Rightarrow> rat \<Rightarrow> string" where
  "frac_digits 0 r = []"
| "frac_digits (Suc fuel) r =
     (if r = 0 then []
      else digit_char (nat \<lfloor>10 * r\<rfloor>) # frac_digits fuel (10 * r - of_int \<lfloor>10 * r\<rfloor>))"

definition rat_str :: "rat \<Rightarrow> string" where
  "rat_str r =
     (let a = \<bar>r\<bar>; k = \<lfloor>a\<rfloor>; f = a - of_int k
      in (if r < 0 then ''-'' else []) @ int_str k
         @ (if f = 0 then [] else ''.'' @ frac_digits 17 f))"

fun num_str :: "jsnum \<Rightarrow> string" where
  "num_str NaN = ''NaN''"
| "num_str PosInf = ''Infinity''"
| "num_str NegInf = ''-Infinity''"
| "num_str (Fin r) = rat_str r"

definition digit_val :: "char \<Rightarrow> nat option" where
  "digit_val c = (let n = of_char c :: nat in if 48 \<le> n \<and> n \<le> 57 then Some (n - 48) else None)"

text \<open>The longest prefix of decimal digits, with its value and the number of digits.\<close>

fun take_digits :: "string \<Rightarrow> nat \<Rightarrow> nat \<Rightarrow> nat \<times> nat \<times> string" where
  "take_digits [] acc n = (acc, n, [])"
| "take_digits (c # s) acc n =
     (case digit_val c of None \<Rightarrow> (acc, n, c # s) | Some d \<Rightarrow> take_digits s (10 * acc + d) (Suc n))"

text \<open>An optional exponent after the mantissa; \<open>None\<close> when the rest is not one.\<close>

definition parse_exponent :: "string \<Rightarrow> int option" where
  "parse_exponent s =
     (case s of
        [] \<Rightarrow> Some 0
      | c # rest \<Rightarrow>
          if c \<noteq> CHR ''e'' \<and> c \<noteq> CHR ''E'' then None
          else
            (let neg = starts_with rest ''-'';
                 body = (if starts_with rest ''-'' \<or> starts_with rest ''+'' then tl rest else rest)
             in case take_digits body 0 0 of
                  (e, n, []) \<Rightarrow> if n = 0 then None else Some (if neg then - int e else int e)
                | _ \<Rightarrow> None))"

definition pow10 :: "int \<Rightarrow> rat" where
  "pow10 e = (if 0 \<le> e then 10 ^ nat e else 1 / 10 ^ nat (- e))"

definition parse_unsigned :: "string \<Rightarrow> jsnum" where
  "parse_unsigned s =
     (if s = ''Infinity'' then PosInf
      else case take_digits s 0 0 of (ip, ni, rest) \<Rightarrow>
        (case (if starts_with rest ''.'' then take_digits (tl rest) ip 0 else (ip, 0, rest)) of
           (m, nf, rest') \<Rightarrow>
             if ni = 0 \<and> nf = 0 then NaN
             else case parse_exponent rest' of
                    None \<Rightarrow> NaN
                  | Some e \<Rightarrow> Fin (of_nat m * pow10 (e - int nf))))"

text \<open>\<open>Number(s)\<close> on a string: white space around the literal is dropped, the empty string is 0.
  The prefixed forms \<open>0x\<close>, \<open>0o\<close>, \<open>0b\<close> give \<open>NaN\<close> here; no modelled source meets them.\<close>

definition parse_number :: "string \<Rightarrow> jsnum" where
  "parse_number s0 =
     (let s = trim s0 in
      if s = [] then Fin 0
      else if starts_with s ''-'' then - parse_unsigned (tl s)
      else if starts_with s ''+'' then parse_unsigned (tl s)
      else parse_unsigned s)"

subsection \<open>Values\<close>

datatype jsval =
    JUndef
  | JNull
  | JBool bool
  | JNum jsnum
  | JStr string
  | JArr "jsval list"
  | JObj "(string \<times> jsval) list"

type_synonym jsprops = "(string \<times> jsval) list"

fun truthy :: "jsval \<Rightarrow> bool" where
  "truthy JUndef = False"
| "truthy JNull = False"
| "truthy (JBool b) = b"
| "truthy (JNum n) = (n \<noteq> NaN \<and> n \<noteq> Fin 0)"
| "truthy (JStr s) = (s \<noteq> [])"
| "truthy (JArr xs) = True"
| "truthy (JObj ps) = True"

definition js_or :: "jsval \<Rightarrow> jsval \<Rightarrow> jsval" where
  "js_or a b = (if truthy a then a else b)"

definition js_and :: "jsval \<Rightarrow> jsval \<Rightarrow> jsval" where
  "js_and a b = (if truthy a then b else a)"

definition nullish :: "jsval \<Rightarrow> bool" where
  "nullish v = (v = JUndef \<or> v = JNull)"

definition js_coalesce :: "jsval \<Rightarrow> jsval \<Rightarrow> jsval" where
  "js_coalesce a b = (if nullish a then b else a)"

text \<open>\<open>a === b\<close> where at least one side is primitive; the sources compare no two objects with
  it except where the component models object identity.\<close>

definition js_seq :: "jsval \<Rightarrow> jsval \<Rightarrow> bool" where
  "js_seq a b = (a = b \<and> a \<noteq> JNum NaN)"

fun is_obj :: "jsval \<Rightarrow> bool" where
  "is_obj (JObj ps) = True"
| "is_obj v = False"

fun is_arr :: "jsval \<Rightarrow> bool" where
  "is_arr (JArr xs) = True"
| "is_arr v = False"

fun is_num :: "jsval \<Rightarrow> bool" where
  "is_num (JNum n) = True"
| "is_num v = False"

fun is_str :: "jsval \<Rightarrow> bool" where
  "is_str (JStr s) = True"
| "is_str v = False"

text \<open>\<open>v && typeof v === 'object'\<close>.\<close>

definition truthy_object :: "jsval \<Rightarrow> bool" where
  "truthy_object v = (is_obj v \<or> is_arr v)"

fun arr_items :: "jsval \<Rightarrow> jsval list" where
  "arr_items (JArr xs) = xs"
| "arr_items v = []"

subsection \<open>Objects\<close>

text \<open>Own enumerable properties, in order; arrays enumerate their indices.\<close>

fun own_props :: "jsval \<Rightarrow> jsprops" where
  "own_props (JObj ps) = ps"
| "own_props (JArr xs) = List.map (\<lambda>(i, v). (nat_str i, v)) (List.enumerate 0 xs)"
| "own_props v = []"

definition own_keys :: "jsval \<Rightarrow> string list" where
  "own_keys v = List.map fst (own_props v)"

text \<open>\<open>v?.k\<close>: a missing property and a property of \<open>null\<close> or \<open>undefined\<close> read as \<open>undefined\<close>.
  A plain access \<open>v.k\<close> is the same function wherever the source has established that \<open>v\<close> is an
  object.\<close>

definition jget :: "jsval \<Rightarrow> string \<Rightarrow> jsval" where
  "jget v k = (case map_of (own_props v) k of None \<Rightarrow> JUndef | Some w \<Rightarrow> w)"

definition has_key :: "jsval \<Rightarrow> string \<Rightarrow> bool" where
  "has_key v k = (map_of (own_props v) k \<noteq> None)"

definition jput :: "string \<Rightarrow> jsval \<Rightarrow> jsval \<Rightarrow> jsval" where
  "jput k w v = JObj (AList.update k w (own_props v))"

definition jdel :: "string \<Rightarrow> jsval \<Rightarrow> jsval" where
  "jdel k v = JObj (AList.delete k (own_props v))"

text \<open>\<open>{...a, ...b}\<close>: the own properties of \<open>a\<close>, then those of \<open>b\<close> assigned one after the other.\<close>

definition assign_from :: "jsprops \<Rightarrow> jsprops \<Rightarrow> jsprops" where
  "assign_from b a = fold (\<lambda>k. AList.update k (the (map_of b k))) (List.map fst b) a"

definition spread :: "jsval \<Rightarrow> jsval \<Rightarrow> jsval" where
  "spread a b = JObj (assign_from (own_props b) (own_props a))"

text \<open>\<open>{...a}\<close> of an object, an array or a nullish value; the code spreads no string.\<close>

definition clone :: "jsval \<Rightarrow> jsval" where
  "clone a = JObj (own_props a)"

lemma own_props_JObj_results [simp]:
  "own_props (jput k w v) = AList.update k w (own_props v)"
  "own_props (jdel k v) = AList.delete k (own_props v)"
  "own_props (spread a b) = assign_from (own_props b) (own_props a)"
  "own_props (clone a) = own_props a"
  by (simp_all add: jput_def jdel_def spread_def clone_def)

lemma truthy_results [simp]:
  "truthy (jput k w v)" "truthy (jdel k v)" "truthy (spread a b)" "truthy (clone a)"
  by (simp_all add: jput_def jdel_def spread_def clone_def)

lemma jget_jput: "jget (jput k w v) k' = (if k = k' then w else jget v k')"
  by (auto simp: jget_def AList.update_conv')

lemma jget_jput_same [simp]: "jget (jput k w v) k = w"
  by (simp add: jget_jput)

lemma jget_jput_other [simp]: "k \<noteq> k' \<Longrightarrow> jget (jput k w v) k' = jget v k'"
  by (simp add: jget_jput)

lemma jget_jdel: "jget (jdel k v) k' = (if k = k' then JUndef else jget v k')"
  by (auto simp: jget_def AList.delete_conv')

lemma jget_jdel_same [simp]: "jget (jdel k v) k = JUndef"
  by (simp add: jget_jdel)

lemma jget_jdel_other [simp]: "k \<noteq> k' \<Longrightarrow> jget (jdel k v) k' = jget v k'"
  by (simp add: jget_jdel)

lemma jget_clone [simp]: "jget (clone a) k = jget a k"
  by (simp add: jget_def)

lemma map_of_fold_update:
  "map_of (fold (\<lambda>k. AList.update k (f k)) ks a) k =
     (if k \<in> set ks then Some (f k) else map_of a k)"
proof (induction ks arbitrary: a)
  case Nil
  then show ?case by simp
next
  case (Cons x xs)
  then show ?case by (auto simp: AList.update_conv')
qed

lemma map_of_assign_from: "map_of (assign_from b a) k = (map_of a ++ map_of b) k"
proof (cases "map_of b k")
  case None
  then have "k \<notin> set (List.map fst b)"
    by (simp add: map_of_eq_None_iff)
  with None show ?thesis
    by (simp add: assign_from_def map_of_fold_update map_add_def)
next
  case (Some w)
  then have "k \<in> set (List.map fst b)"
    by (auto dest: map_of_SomeD intro: rev_image_eqI)
  with Some show ?thesis
    by (simp add: assign_from_def map_of_fold_update map_add_def)
qed

lemma has_key_spread [simp]: "has_key (spread a b) k \<longleftrightarrow> has_key a k \<or> has_key b k"
  by (auto simp: has_key_def map_of_assign_from map_add_def split: option.splits)

lemma jget_spread: "jget (spread a b) k = (if has_key b k then jget b k else jget a k)"
  by (auto simp: jget_def has_key_def map_of_assign_from map_add_def split: option.splits)

lemma has_key_jput [simp]: "has_key (jput k w v) k' \<longleftrightarrow> k = k' \<or> has_key v k'"
  by (auto simp: has_key_def AList.update_conv')

lemma has_key_jdel [simp]: "has_key (jdel k v) k' \<longleftrightarrow> k \<noteq> k' \<and> has_key v k'"
  by (auto simp: has_key_def AList.delete_conv')

lemma has_key_clone [simp]: "has_key (clone a) k = has_key a k"
  by (simp add: has_key_def)

lemma jget_absent: "\<not> has_key v k \<Longrightarrow> jget v k = JUndef"
  by (auto simp: jget_def has_key_def)

lemma jget_primitive [simp]:
  "jget JUndef k = JUndef" "jget JNull k = JUndef" "jget (JBool b) k = JUndef"
  "jget (JNum n) k = JUndef" "jget (JStr s) k = JUndef"
  by (simp_all add: jget_def)

lemma jget_JObj: "jget (JObj ps) k = (case map_of ps k of None \<Rightarrow> JUndef | Some w \<Rightarrow> w)"
  by (simp add: jget_def)

lemma has_key_JObj: "has_key (JObj ps) k \<longleftrightarrow> k \<in> fst ` set ps"
  by (simp add: has_key_def map_of_eq_None_iff)

lemmas [js_simps] = jget_JObj has_key_JObj js_or_def js_and_def js_coalesce_def nullish_def
  js_seq_def truthy_object_def

text \<open>A chain \<open>v?.a?.b?.c\<close>.\<close>

definition jpath :: "jsval \<Rightarrow> string list \<Rightarrow> jsval" where
  "jpath v ks = foldl jget v ks"

lemma jpath_simps [simp]: "jpath v [] = v" "jpath v (k # ks) = jpath (jget v k) ks"
  by (simp_all add: jpath_def)

text \<open>The property map an object denotes: spread is map addition and \<open>jput\<close> is map update.\<close>

definition prop_map :: "jsval \<Rightarrow> string \<rightharpoonup> jsval" where
  "prop_map v = map_of (own_props v)"

lemma prop_map_spread: "prop_map (spread a b) = prop_map a ++ prop_map b"
  by (rule ext) (simp add: prop_map_def map_of_assign_from)

lemma prop_map_jput: "prop_map (jput k w v) = (prop_map v)(k \<mapsto> w)"
  by (simp add: prop_map_def AList.update_conv')

lemma prop_map_jdel: "prop_map (jdel k v) = (prop_map v)(k := None)"
  by (simp add: prop_map_def AList.delete_conv')

subsection \<open>Conversions\<close>

fun to_str :: "jsval \<Rightarrow> string" where
  "to_str JUndef = ''undefined''"
| "to_str JNull = ''null''"
| "to_str (JBool b) = (if b then ''true'' else ''false'')"
| "to_str (JNum n) = num_str n"
| "to_str (JStr s) = s"
| "to_str (JArr xs) =
     join_with '','' (List.map (\<lambda>v. if v = JUndef \<or> v = JNull then [] else to_str v) xs)"
| "to_str (JObj ps) = ''[object Object]''"

fun to_num :: "jsval \<Rightarrow> jsnum" where
  "to_num JUndef = NaN"
| "to_num JNull = Fin 0"
| "to_num (JBool b) = (if b then Fin 1 else Fin 0)"
| "to_num (JNum n) = n"
| "to_num (JStr s) = parse_number s"
| "to_num (JArr xs) = parse_number (to_str (JArr xs))"
| "to_num (JObj ps) = NaN"

text \<open>\<open>String(v || '')\<close>.\<close>

definition str_or_empty :: "jsval \<Rightarrow> string" where
  "str_or_empty v = to_str (js_or v (JStr []))"

lemma str_or_empty_simps [simp]:
  "str_or_empty JUndef = []" "str_or_empty JNull = []" "str_or_empty (JStr s) = s"
  by (simp_all add: str_or_empty_def js_or_def)

text \<open>\<open>new TypeError\<close> of reading property \<open>k\<close> of \<open>null\<close> or \<open>undefined\<close>.\<close>

definition null_read_error :: "jsval \<Rightarrow> string \<Rightarrow> string" where
  "null_read_error v k = ''Cannot read properties of '' @ to_str v @ '' (reading '' @ [CHR 0x27] @ k
     @ [CHR 0x27] @ '')''"

text \<open>The UTF-8 bytes of the middle dot and of the horizontal ellipsis.\<close>

definition mid_dot :: string where
  "mid_dot = [CHR 0xC2, CHR 0xB7]"

definition ellipsis :: string where
  "ellipsis = [CHR 0xE2, CHR 0x80, CHR 0xA6]"

definition em_dash :: string where
  "em_dash = [CHR 0xE2, CHR 0x80, CHR 0x94]"

end
