(* ===== verification/Interfaces.thy ===== *)
theory Interfaces
  imports JS_Values
begin

section \<open>Interfaces shared by the components\<close>

text \<open>
  The contracts that recur in the frontend, each a locale whose consequences are proved once
  and which the components interpret on their own definitions:
  \<^item> \<open>token_guard\<close>: a counter that only grows and is advanced to claim a token. Request ids,
    job generations, poll generations, refresh serials and connection serials are all of this
    kind; a continuation that holds an older token finds it stale for ever.
  \<^item> \<open>inductive_invariant\<close>: a predicate that holds at the start and is kept by every step.
  \<^item> \<open>clamping\<close>: a numeric function that limits its argument to an interval.
  \<^item> \<open>first_match\<close>: a decision that takes the first rule whose condition holds (a function).

  The contract of an interval poll with a generation, \<open>provider_poller\<close>, needs the page state and
  is declared in \<open>Footer_Polls\<close>.
\<close>

subsection \<open>Runs and reachable states\<close>

definition run_events :: "('e \<Rightarrow> 's \<Rightarrow> 's) \<Rightarrow> 'e list \<Rightarrow> 's \<Rightarrow> 's" where
  "run_events step es s = fold step es s"

lemma run_events_simps [simp]:
  "run_events step [] s = s"
  "run_events step (e # es) s = run_events step es (step e s)"
  by (simp_all add: run_events_def)

inductive reachable :: "('s \<Rightarrow> bool) \<Rightarrow> ('s \<Rightarrow> 's \<Rightarrow> bool) \<Rightarrow> 's \<Rightarrow> bool"
  for I :: "'s \<Rightarrow> bool" and R :: "'s \<Rightarrow> 's \<Rightarrow> bool" where
  reachable_start: "I s \<Longrightarrow> reachable I R s"
| reachable_step: "reachable I R s \<Longrightarrow> R s t \<Longrightarrow> reachable I R t"

lemma reachable_run_events:
  assumes "\<And>e s. R s (step e s)"
  shows "reachable I R s \<Longrightarrow> reachable I R (run_events step es s)"
  by (induction es arbitrary: s) (auto intro: reachable_step assms)

locale inductive_invariant =
  fixes I :: "'s \<Rightarrow> bool" and R :: "'s \<Rightarrow> 's \<Rightarrow> bool" and P :: "'s \<Rightarrow> bool"
  assumes inv_start: "I s \<Longrightarrow> P s"
    and inv_step: "P s \<Longrightarrow> R s t \<Longrightarrow> P t"
begin

lemma always: "reachable I R s \<Longrightarrow> P s"
  by (induction rule: reachable.induct) (auto intro: inv_start inv_step)

lemma kept_along: "R\<^sup>*\<^sup>* s t \<Longrightarrow> P s \<Longrightarrow> P t"
  by (induction rule: rtranclp_induct) (auto intro: inv_step)

end

subsection \<open>Claimed tokens\<close>

locale token_guard =
  fixes token :: "'s \<Rightarrow> nat" and step :: "'e \<Rightarrow> 's \<Rightarrow> 's"
  assumes token_mono: "token s \<le> token (step e s)"
begin

lemma token_run_mono: "token s \<le> token (run_events step es s)"
  by (induction es arbitrary: s) (auto intro: order_trans [OF token_mono])

lemma stale_for_ever: "n < token s \<Longrightarrow> n < token (run_events step es s)"
  using token_run_mono [of s es] by simp

lemma superseded:
  assumes "token s < token (step e s)"
  shows "token (run_events step es (step e s)) \<noteq> token s"
  using stale_for_ever [OF assms, of es] by simp

lemma same_token_unchanged:
  assumes "token (run_events step (es @ es') s) = token s"
  shows "token (run_events step es s) = token s"
proof -
  have "token (run_events step es s) \<le> token (run_events step es' (run_events step es s))"
    by (rule token_run_mono)
  also have "\<dots> = token s"
    using assms by (simp add: run_events_def)
  finally show ?thesis
    using token_run_mono [of s es] by simp
qed

end

subsection \<open>Clamping\<close>

locale clamping =
  fixes lo hi :: rat and clamp :: "rat \<Rightarrow> rat"
  assumes lo_le_hi: "lo \<le> hi"
    and clamp_eq: "clamp x = min hi (max lo x)"
begin

lemma clamp_range: "lo \<le> clamp x" "clamp x \<le> hi"
  using lo_le_hi by (auto simp: clamp_eq)

lemma clamp_id: "lo \<le> x \<Longrightarrow> x \<le> hi \<Longrightarrow> clamp x = x"
  by (simp add: clamp_eq)

lemma clamp_idem: "clamp (clamp x) = clamp x"
  by (rule clamp_id) (rule clamp_range)+

lemma clamp_mono: "x \<le> y \<Longrightarrow> clamp x \<le> clamp y"
  by (auto simp: clamp_eq)

lemma clamp_fixed_iff: "clamp x = x \<longleftrightarrow> lo \<le> x \<and> x \<le> hi"
  using clamp_range [of x] clamp_id [of x] by metis

end

subsection \<open>Decision by the first matching rule\<close>

fun first_match :: "(bool \<times> 'a) list \<Rightarrow> 'a \<Rightarrow> 'a" where
  "first_match [] d = d"
| "first_match ((c, a) # rules) d = (if c then a else first_match rules d)"

lemma first_match_in: "first_match rules d \<in> insert d (snd ` set rules)"
proof (induction rules)
  case Nil
  show ?case by simp
next
  case (Cons r rules)
  obtain c a where r: "r = (c, a)" by (cases r)
  from Cons show ?case by (cases c) (simp_all add: r, blast)
qed

end
