(* ===== verification/Player_State.thy ===== *)
theory Player_State
  imports Interfaces
begin

section \<open>The state of the playback frontend\<close>

text \<open>
  The state shared by static/playback_core.js, static/streaming_runtime.js and the WebSocket
  handlers of static/app.js: the module variables (one field per \<open>let\<close>), the window globals,
  and the part of the app state they read and write. The environment adds the clock
  (\<open>Date.now()\<close>), the running timers, the requests in flight and the effects requested so far
  (toasts, network requests, painting), in order.

  Object identity matters for \<open>state.playback\<close> and for the provider caches: several handlers
  compare the object they read before an \<open>await\<close> with the one they find after it. These fields
  are pairs of a reference number and the object; every assignment of a new object takes a
  fresh number, an assignment to a property keeps it. Reference 0 stands for
  \<open>null\<close>/\<open>undefined\<close>.
\<close>

type_synonym objref = "nat \<times> jsval"

datatype footer_source = FLocal | FSpotify | FQobuz

record single_start =
  startRequestId :: nat
  startTrackId :: jsval
  expiresAt :: nat

record optimistic =
  optRequestId :: nat
  optTrack :: jsval

text \<open>The volume variables of playback_core.js.\<close>

record volume_ctl =
  volumeTimer :: "nat option"
  volumeRequestInFlight :: bool
  pendingVolume :: "jsnum option"
  volumeGestureActive :: bool
  optimisticVolume :: "jsnum option"
  lastConfirmedVolume :: jsval
  volumeSyncGraceUntil :: nat

text \<open>The poll variables of streaming_runtime.js, once per provider.\<close>

record poll_ctl =
  pollTimer :: "nat option"
  pollGeneration :: nat
  pollTimerGeneration :: "nat option"

datatype timer =
    TVolume
  | TFreeze
  | TMetadata
  | TPeak
  | TSamplerate
  | TBurst
  | TPosition
  | TSpotifyPoll nat
  | TQobuzPoll nat
  | TSpotifyRefresh
  | TSpotifySeekCommit

text \<open>A request in flight carries the local variables its continuation reads.\<close>

datatype request =
    RToggle nat bool bool bool jsval
  | RPrevious
  | RNext
  | RClearQueue
  | RPlayRadio nat jsval
  | RPlayLocal nat jsval
  | RPlayRefs nat
  | RCoverPlay
  | RVolume jsnum
  | RMetadata nat jsval
  | RStatusLoad nat
  | RPositionPoll nat
  | RStop
  | RSpotifyPoll nat
  | RQobuzPoll nat
  | RSpotifyCommand nat bool
  | RSpotifyRecover nat bool
  | RSpotifySeek
  | RSpotifyFetch
  | RSpotifyBurst
  | RQobuzCommand string jsval
  | RQobuzSeek
  | RQobuzFetch
  | RSpotifyInit
  | RSeek
  | RSamplerate "nat option"
  | RResync nat nat nat nat

text \<open>How a request settles: a network error (a rejected \<open>fetch\<close>) with its message, or a
  response with its status and its JSON body (\<open>None\<close> when the body does not parse).\<close>

datatype response = NetError string | Http nat "jsval option"

fun resp_ok :: "response \<Rightarrow> bool" where
  "resp_ok (NetError m) = False"
| "resp_ok (Http st body) = (200 \<le> st \<and> st \<le> 299)"

text \<open>\<open>await resp.json().catch(() => ({}))\<close>.\<close>

fun json_or_empty :: "response \<Rightarrow> jsval" where
  "json_or_empty (Http st (Some v)) = v"
| "json_or_empty r = JObj []"

datatype effect =
    Toast string string
  | Fetch string string jsval
  | Paint
  | PaintStreaming jsval
  | RenderLibraryModes
  | Cue jsval string
  | RenderSpotifyTab jsval
  | RefreshEnabledFlags

record player =
  playback :: objref
  libraryTracks :: "jsval list"
  libraryLoop :: bool
  libraryShuffle :: bool
  stations :: "jsval list"
  footerSource :: footer_source
  spotifyLast :: objref
  qobuzLast :: objref
  visibleTab :: string
  streamingSeeking :: bool
  playbackActionInFlight :: bool
  pendingPlaybackRequestId :: nat
  pendingFooterStart :: "single_start option"
  pendingOptimistic :: "optimistic option"
  lastRadioTrack :: jsval
  pauseActionRequestId :: nat
  volctl :: volume_ctl
  libraryModeSyncArmed :: bool
  lastLibraryContext :: "(bool \<times> bool) option"
  metadataPollTimer :: "nat option"
  sampleratePollTimer :: "nat option"
  peakStatusPollTimer :: "nat option"
  burstPollTimers :: "nat list"
  positionPollTimer :: "nat option"
  footerFreezeUntil :: nat
  footerFreezeTimer :: "nat option"
  spotifyTakeoverUntil :: nat
  localFooterHoldUntil :: nat
  spotifyInstalledKnown :: "bool option"
  spotifyCommandInFlight :: bool
  spotifySeekCommitTimer :: "nat option"
  spotifyLastRenderedTrackKey :: string
  spotifyPoll :: poll_ctl
  qobuzPoll :: poll_ctl
  lastNativeTrackKey :: "string option"
  lastPlayingQueueKeys :: "(string \<times> string) list"
  lastSamplerateSignature :: jsval
  samplerateStatus :: jsval
  wsReconnectSyncGeneration :: nat
  nonAppSourceMode :: bool
  pageHidden :: bool
  clock :: nat
  nextRef :: nat
  nextTimer :: nat
  timers :: "(nat \<times> timer) list"
  inflight :: "request list"
  effects :: "effect list"

subsection \<open>Access helpers\<close>

abbreviation pb :: "player \<Rightarrow> jsval" where "pb s \<equiv> snd (playback s)"

abbreviation spotify_data :: "player \<Rightarrow> jsval" where "spotify_data s \<equiv> snd (spotifyLast s)"

abbreviation qobuz_data :: "player \<Rightarrow> jsval" where "qobuz_data s \<equiv> snd (qobuzLast s)"

definition emit :: "effect \<Rightarrow> player \<Rightarrow> player" where
  "emit e s = s\<lparr>effects := effects s @ [e]\<rparr>"

text \<open>\<open>deps.getState().playback.k = v\<close>: the object keeps its identity.\<close>

definition pb_put :: "string \<Rightarrow> jsval \<Rightarrow> player \<Rightarrow> player" where
  "pb_put k v s = s\<lparr>playback := (fst (playback s), jput k v (pb s))\<rparr>"

text \<open>\<open>deps.getState().playback = v\<close> with a new object.\<close>

definition pb_assign :: "jsval \<Rightarrow> player \<Rightarrow> player" where
  "pb_assign v s = s\<lparr>playback := (nextRef s, v), nextRef := Suc (nextRef s)\<rparr>"

definition spotify_assign :: "jsval \<Rightarrow> player \<Rightarrow> player" where
  "spotify_assign v s = s\<lparr>spotifyLast := (nextRef s, v), nextRef := Suc (nextRef s)\<rparr>"

definition qobuz_assign :: "jsval \<Rightarrow> player \<Rightarrow> player" where
  "qobuz_assign v s = s\<lparr>qobuzLast := (nextRef s, v), nextRef := Suc (nextRef s)\<rparr>"

text \<open>\<open>setTimeout\<close>/\<open>setInterval\<close> return a fresh handle; clearing an unknown handle or \<open>null\<close> does
  nothing.\<close>

definition set_timer :: "timer \<Rightarrow> player \<Rightarrow> nat \<times> player" where
  "set_timer k s =
     (nextTimer s, s\<lparr>nextTimer := Suc (nextTimer s), timers := timers s @ [(nextTimer s, k)]\<rparr>)"

definition clear_timer :: "nat option \<Rightarrow> player \<Rightarrow> player" where
  "clear_timer h s = s\<lparr>timers := filter (\<lambda>(i, k). Some i \<noteq> h) (timers s)\<rparr>"

definition send :: "request \<Rightarrow> effect \<Rightarrow> player \<Rightarrow> player" where
  "send r e s = s\<lparr>inflight := inflight s @ [r], effects := effects s @ [e]\<rparr>"

definition new_volume_ctl :: volume_ctl where
  "new_volume_ctl = \<lparr>volumeTimer = None, volumeRequestInFlight = False, pendingVolume = None,
     volumeGestureActive = False, optimisticVolume = None, lastConfirmedVolume = JNull,
     volumeSyncGraceUntil = 0\<rparr>"

definition new_poll_ctl :: poll_ctl where
  "new_poll_ctl = \<lparr>pollTimer = None, pollGeneration = 0, pollTimerGeneration = None\<rparr>"

text \<open>The playback object of the page before the first push (static/app.js).\<close>

definition init_peak_warning :: jsval where
  "init_peak_warning = JObj [(''available'', JBool False), (''detected'', JBool False),
     (''hold_ms'', JNum 0), (''threshold'', JNum 1), (''vu_db'', JNull), (''vu_db_l'', JNull),
     (''vu_db_r'', JNull), (''detected_l'', JBool False), (''detected_r'', JBool False),
     (''hold_ms_l'', JNum 0), (''hold_ms_r'', JNum 0), (''last_over_at_l'', JNull),
     (''last_over_at_r'', JNull), (''vu_fresh'', JBool False), (''vu_age_ms'', JNull),
     (''target'', JNull), (''last_over_at'', JNull), (''last_error'', JNull),
     (''channels'', JNull)]"

definition init_playback :: jsval where
  "init_playback = JObj [(''state'', JStr ''stopped''), (''current_track'', JNull),
     (''current_file'', JNull), (''position'', JNum 0), (''duration'', JNum 0),
     (''volume'', JNum (Fin 100)), (''ended'', JBool False), (''error'', JNull),
     (''live_title'', JNull), (''radio_metadata'', JNull),
     (''output_peak_warning'', init_peak_warning)]"

definition init_player :: player where
  "init_player = \<lparr>playback = (1, init_playback), libraryTracks = [], libraryLoop = False,
     libraryShuffle = False, stations = [], footerSource = FLocal, spotifyLast = (0, JUndef),
     qobuzLast = (0, JNull), visibleTab = ''radio'', streamingSeeking = False,
     playbackActionInFlight = False, pendingPlaybackRequestId = 0, pendingFooterStart = None,
     pendingOptimistic = None, lastRadioTrack = JNull, pauseActionRequestId = 0,
     volctl = new_volume_ctl, libraryModeSyncArmed = False, lastLibraryContext = None,
     metadataPollTimer = None, sampleratePollTimer = None, peakStatusPollTimer = None,
     burstPollTimers = [], positionPollTimer = None, footerFreezeUntil = 0,
     footerFreezeTimer = None, spotifyTakeoverUntil = 0, localFooterHoldUntil = 0,
     spotifyInstalledKnown = None, spotifyCommandInFlight = False,
     spotifySeekCommitTimer = None, spotifyLastRenderedTrackKey = [],
     spotifyPoll = new_poll_ctl, qobuzPoll = new_poll_ctl, lastNativeTrackKey = None,
     lastPlayingQueueKeys = [], lastSamplerateSignature = JNull, samplerateStatus = JObj [],
     wsReconnectSyncGeneration = 0, nonAppSourceMode = False,
     pageHidden = False, clock = 0, nextRef = 2, nextTimer = 1, timers = [], inflight = [],
     effects = []\<rparr>"

end
