(* ===== verification/Remote_Volume.thy ===== *)
theory Remote_Volume
  imports Player_State
begin

section \<open>Volumes from the backend\<close>

text \<open>
  The part of the volume protocol of static/playback_core.js that every push and every
  provider repaint goes through: the confirmed baseline and the acceptance of a remote volume
  while the user may be changing it. Sending is in the theory Volume.
\<close>

definition VOLUME_SYNC_GRACE_MS :: nat where "VOLUME_SYNC_GRACE_MS = 700"

definition upd_vol :: "(volume_ctl \<Rightarrow> volume_ctl) \<Rightarrow> player \<Rightarrow> player" where
  "upd_vol f s = s\<lparr>volctl := f (volctl s)\<rparr>"

definition ensureVolumeBaseline :: "player \<Rightarrow> player" where
  "ensureVolumeBaseline s =
     (if lastConfirmedVolume (volctl s) \<noteq> JNull then s
      else upd_vol (\<lambda>v. v\<lparr>lastConfirmedVolume := jget (pb s) ''volume''\<rparr>) s)"

definition applyRemoteVolume :: "jsnum \<Rightarrow> player \<Rightarrow> player" where
  "applyRemoteVolume remoteVolume s0 =
     (let s = ensureVolumeBaseline s0;
          v = volctl s;
          matchesOptimistic = (case optimisticVolume v of None \<Rightarrow> False | Some w \<Rightarrow> num_eq remoteVolume w);
          shouldHoldRemoteVolume = (volumeGestureActive v \<or> volumeRequestInFlight v
             \<or> pendingVolume v \<noteq> None \<or> clock s < volumeSyncGraceUntil v)
      in if shouldHoldRemoteVolume \<and> \<not> matchesOptimistic then s
         else
           (let s1 = upd_vol (\<lambda>v. v\<lparr>lastConfirmedVolume := JNum remoteVolume\<rparr>) s;
                s2 = pb_put ''volume'' (JNum remoteVolume) s1
            in if matchesOptimistic \<and> \<not> volumeGestureActive v \<and> \<not> volumeRequestInFlight v
                  \<and> pendingVolume v = None
               then upd_vol (\<lambda>v. v\<lparr>optimisticVolume := None\<rparr>) s2 else s2))"

end
