(* ===== verification/Footer.thy ===== *)
theory Footer
  imports Remote_Volume
begin

section \<open>Footer ownership and provider polls\<close>

text \<open>
  The single owner of the footer-ownership decisions, static/playback_core.js: which source
  (the native player, Spotify or Qobuz) the shared footer shows, with its takeover, hold and
  lock windows, and the interval polls of static/streaming_runtime.js and
  static/playback_core.js that follow the decision. \<open>updatePlaybackUI\<close> of
  static/playback_ui.js is modelled up to painting: the ownership decision, the polls it
  starts and stops, and which of the two renderers it calls.

  A predicate of the source that clears an expired start lock on the way returns its result
  with the new state; the lemmas of the subsection on the lock split it into a pure predicate
  and the clearing.
\<close>

subsection \<open>Interval polls\<close>

definition bumpSpotifyPollGeneration :: "player \<Rightarrow> player" where
  "bumpSpotifyPollGeneration s =
     s\<lparr>spotifyPoll := (spotifyPoll s)\<lparr>pollGeneration := pollGeneration (spotifyPoll s) + 1\<rparr>\<rparr>"

definition bumpQobuzPollGeneration :: "player \<Rightarrow> player" where
  "bumpQobuzPollGeneration s =
     s\<lparr>qobuzPoll := (qobuzPoll s)\<lparr>pollGeneration := pollGeneration (qobuzPoll s) + 1\<rparr>\<rparr>"

definition stopSpotifyPoll :: "player \<Rightarrow> player" where
  "stopSpotifyPoll s =
     (let s1 = (if pollTimer (spotifyPoll s) \<noteq> None
                then (clear_timer (pollTimer (spotifyPoll s)) s)
                       \<lparr>spotifyPoll := (spotifyPoll s)\<lparr>pollTimer := None\<rparr>\<rparr>
                else s)
      in s1\<lparr>spotifyPoll := (spotifyPoll s1)\<lparr>pollTimerGeneration := None\<rparr>\<rparr>)"

definition stopQobuzPoll :: "player \<Rightarrow> player" where
  "stopQobuzPoll s =
     (let s1 = (if pollTimer (qobuzPoll s) \<noteq> None
                then (clear_timer (pollTimer (qobuzPoll s)) s)
                       \<lparr>qobuzPoll := (qobuzPoll s)\<lparr>pollTimer := None\<rparr>\<rparr>
                else s)
      in s1\<lparr>qobuzPoll := (qobuzPoll s1)\<lparr>pollTimerGeneration := None\<rparr>\<rparr>)"

definition spotifyIsInstalled :: "jsval \<Rightarrow> bool" where
  "spotifyIsInstalled data = (jget data ''installed'' = JBool True)"

definition qobuzIsInstalled :: "jsval \<Rightarrow> bool" where
  "qobuzIsInstalled data = (jget data ''installed'' = JBool True)"

definition shouldPollSpotify :: "player \<Rightarrow> bool" where
  "shouldPollSpotify s =
     (spotifyIsInstalled (spotify_data s) \<and> (visibleTab s = ''spotify'' \<or> footerSource s = FSpotify))"

text \<open>The backend's published owner of the playback; local, radio and TIDAL share the native
  footer.\<close>

definition getBackendFooterOwner :: "jsval \<Rightarrow> footer_source option" where
  "getBackendFooterOwner playbackv =
     (let owner = js_or (jget playbackv ''playback_owner'') JNull in
      if owner = JStr ''local'' \<or> owner = JStr ''radio'' \<or> owner = JStr ''tidal'' then Some FLocal
      else if owner = JStr ''spotify'' then Some FSpotify
      else if owner = JStr ''qobuz'' then Some FQobuz
      else None)"

definition shouldPollQobuz :: "player \<Rightarrow> bool" where
  "shouldPollQobuz s =
     (qobuzIsInstalled (qobuz_data s)
      \<and> (visibleTab s = ''qobuz'' \<or> footerSource s = FQobuz
         \<or> getBackendFooterOwner (pb s) = Some FQobuz))"

text \<open>A running interval whose generation was advanced elsewhere is restarted; one with the
  current generation is kept.\<close>

definition startSpotifyPoll :: "player \<Rightarrow> player" where
  "startSpotifyPoll s =
     (if \<not> shouldPollSpotify s then s
      else if pollTimer (spotifyPoll s) \<noteq> None
              \<and> pollTimerGeneration (spotifyPoll s) = Some (pollGeneration (spotifyPoll s)) then s
      else
        (let s1 = (if pollTimer (spotifyPoll s) \<noteq> None then stopSpotifyPoll s else s);
             gen = pollGeneration (spotifyPoll s1) + 1
         in case set_timer (TSpotifyPoll gen) s1 of
              (h, s2) \<Rightarrow> s2\<lparr>spotifyPoll := \<lparr>pollTimer = Some h, pollGeneration = gen,
                                        pollTimerGeneration = Some gen\<rparr>\<rparr>))"

definition startQobuzPoll :: "player \<Rightarrow> player" where
  "startQobuzPoll s =
     (if \<not> shouldPollQobuz s then s
      else if pollTimer (qobuzPoll s) \<noteq> None
              \<and> pollTimerGeneration (qobuzPoll s) = Some (pollGeneration (qobuzPoll s)) then s
      else
        (let s1 = (if pollTimer (qobuzPoll s) \<noteq> None then stopQobuzPoll s else s);
             gen = pollGeneration (qobuzPoll s1) + 1
         in case set_timer (TQobuzPoll gen) s1 of
              (h, s2) \<Rightarrow> s2\<lparr>qobuzPoll := \<lparr>pollTimer = Some h, pollGeneration = gen,
                                      pollTimerGeneration = Some gen\<rparr>\<rparr>))"

definition isStreamingFooterSource :: "footer_source \<Rightarrow> bool" where
  "isStreamingFooterSource source = (source = FSpotify \<or> source = FQobuz)"

definition streamingFooterData :: "player \<Rightarrow> jsval" where
  "streamingFooterData s =
     (if footerSource s = FSpotify then spotify_data s
      else if footerSource s = FQobuz then qobuz_data s
      else JNull)"

definition stopPlaybackPositionPoll :: "player \<Rightarrow> player" where
  "stopPlaybackPositionPoll s =
     (if positionPollTimer s \<noteq> None
      then (clear_timer (positionPollTimer s) s)\<lparr>positionPollTimer := None\<rparr> else s)"

definition startPlaybackPositionPoll :: "player \<Rightarrow> player" where
  "startPlaybackPositionPoll s =
     (if isStreamingFooterSource (footerSource s) then s
      else if positionPollTimer s \<noteq> None then s
      else case set_timer TPosition s of (h, s1) \<Rightarrow> s1\<lparr>positionPollTimer := Some h\<rparr>)"

subsection \<open>Ownership predicates\<close>

text \<open>\<open>track && (track.source === a || track.source === b || ...)\<close>.\<close>

definition track_from :: "string list \<Rightarrow> jsval \<Rightarrow> bool" where
  "track_from sources track =
     (truthy track \<and> jget track ''source'' \<in> set (List.map JStr sources))"

definition footerSingleTrackStartLockActive :: "jsval \<Rightarrow> player \<Rightarrow> bool \<times> player" where
  "footerSingleTrackStartLockActive playbackv s =
     (case pendingFooterStart s of
        None \<Rightarrow> (False, s)
      | Some pending \<Rightarrow>
          if expiresAt pending \<noteq> 0 \<and> expiresAt pending < clock s
          then (False, s\<lparr>pendingFooterStart := None\<rparr>)
          else (track_from [''local''] (jget playbackv ''current_track'')
                  \<and> js_seq (jget (jget playbackv ''current_track'') ''id'') (startTrackId pending), s))"

definition footerSingleTrackStartLockSatisfied :: "jsval \<Rightarrow> player \<Rightarrow> bool" where
  "footerSingleTrackStartLockSatisfied playbackv s =
     (case pendingFooterStart s of
        None \<Rightarrow> False
      | Some pending \<Rightarrow>
          track_from [''local''] (jget playbackv ''current_track'')
          \<and> js_seq (jget (jget playbackv ''current_track'') ''id'') (startTrackId pending)
          \<and> (truthy (jget playbackv ''playing'') \<or> truthy (jget playbackv ''paused'')
             \<or> truthy (jget playbackv ''current_file'')))"

definition clearPendingFooterSingleTrackStart :: "nat option \<Rightarrow> player \<Rightarrow> player" where
  "clearPendingFooterSingleTrackStart requestId s =
     (case pendingFooterStart s of
        None \<Rightarrow> s
      | Some pending \<Rightarrow>
          if requestId \<noteq> None \<and> Some (startRequestId pending) \<noteq> requestId then s
          else s\<lparr>pendingFooterStart := None\<rparr>)"

definition clearPendingOptimisticTrack :: "nat option \<Rightarrow> player \<Rightarrow> player" where
  "clearPendingOptimisticTrack requestId s =
     (case pendingOptimistic s of
        None \<Rightarrow> s
      | Some pending \<Rightarrow>
          if requestId \<noteq> None \<and> Some (optRequestId pending) \<noteq> requestId then s
          else s\<lparr>pendingOptimistic := None\<rparr>)"

definition activeLocalPlaybackBlocksSpotifyOwnership :: "jsval \<Rightarrow> bool" where
  "activeLocalPlaybackBlocksSpotifyOwnership playbackv =
     (if \<not> track_from [''local'', ''radio'', ''tidal''] (jget playbackv ''current_track'') then False
      else truthy (jget playbackv ''playing'') \<and> \<not> truthy (jget playbackv ''ended''))"

definition provider_status :: "string \<Rightarrow> jsval \<Rightarrow> bool" where
  "provider_status status data =
     (truthy data \<and> truthy (jget data ''available'') \<and> jget data ''status'' = JStr status)"

definition spotifyPlayingOwnsFooter :: "jsval \<Rightarrow> player \<Rightarrow> bool \<times> player" where
  "spotifyPlayingOwnsFooter data s =
     (case footerSingleTrackStartLockActive (pb s) s of
        (locked, s1) \<Rightarrow>
          if locked then (False, s1)
          else if activeLocalPlaybackBlocksSpotifyOwnership (pb s1) then (False, s1)
          else (provider_status ''Playing'' data, s1))"

definition spotifyPausedHasFooterContext :: "jsval \<Rightarrow> bool" where
  "spotifyPausedHasFooterContext data = provider_status ''Paused'' data"

definition qobuzPlayingOwnsFooter :: "jsval \<Rightarrow> player \<Rightarrow> bool \<times> player" where
  "qobuzPlayingOwnsFooter data s =
     (case footerSingleTrackStartLockActive (pb s) s of
        (locked, s1) \<Rightarrow>
          if locked then (False, s1)
          else if activeLocalPlaybackBlocksSpotifyOwnership (pb s1) then (False, s1)
          else (provider_status ''Playing'' data, s1))"

definition localPlaybackHasFooterContext :: "jsval \<Rightarrow> player \<Rightarrow> bool \<times> player" where
  "localPlaybackHasFooterContext playbackv s =
     (if \<not> track_from [''radio'', ''local'', ''tidal''] (jget playbackv ''current_track'') then (False, s)
      else case spotifyPlayingOwnsFooter (spotify_data s) s of
        (owns, s1) \<Rightarrow>
          if owns then (False, s1)
          else if truthy (jget playbackv ''paused'') \<and> footerSource s1 = FSpotify
                  \<and> spotifyPausedHasFooterContext (spotify_data s1) then (False, s1)
          else (truthy (jget playbackv ''playing'') \<or> truthy (jget playbackv ''paused''), s1))"

definition localEndedPlaybackHasFooterContext :: "jsval \<Rightarrow> player \<Rightarrow> bool \<times> player" where
  "localEndedPlaybackHasFooterContext playbackv s =
     (if \<not> track_from [''local'', ''tidal''] (jget playbackv ''current_track'') then (False, s)
      else case spotifyPlayingOwnsFooter (spotify_data s) s of
        (owns, s1) \<Rightarrow>
          if owns then (False, s1)
          else (truthy (jget playbackv ''ended'') \<and> \<not> truthy (jget playbackv ''playing'')
                \<and> \<not> truthy (jget playbackv ''paused''), s1))"

definition localFooterHoldHasContext :: "jsval \<Rightarrow> player \<Rightarrow> bool" where
  "localFooterHoldHasContext playbackv s =
     (if \<not> track_from [''radio'', ''local'', ''tidal''] (jget playbackv ''current_track'') then False
      else clock s < localFooterHoldUntil s)"

definition footerContentFreezeActive :: "player \<Rightarrow> bool" where
  "footerContentFreezeActive s = (clock s < footerFreezeUntil s)"

subsection \<open>The decisions\<close>

definition setFooterSource :: "footer_source \<Rightarrow> player \<Rightarrow> player" where
  "setFooterSource nextSource s =
     (let s1 = s\<lparr>footerSource := nextSource\<rparr>
      in if nextSource = FSpotify then stopPlaybackPositionPoll s1 else s1)"

definition reconcileFooterSource :: "player \<Rightarrow> player" where
  "reconcileFooterSource s =
     (if nonAppSourceMode s then setFooterSource FLocal s
      else case getBackendFooterOwner (pb s) of
        Some owner \<Rightarrow> setFooterSource owner s
      | None \<Rightarrow>
         (case spotifyPlayingOwnsFooter (spotify_data s) s of (spotifyOwns, s1) \<Rightarrow>
          if spotifyOwns then setFooterSource FSpotify s1
          else case qobuzPlayingOwnsFooter (qobuz_data s1) s1 of (qobuzOwns, s2) \<Rightarrow>
          if qobuzOwns then setFooterSource FQobuz s2
          else if clock s2 < spotifyTakeoverUntil s2 then setFooterSource FSpotify s2
          else case localPlaybackHasFooterContext (pb s2) s2 of (localContext, s3) \<Rightarrow>
          if localContext then setFooterSource FLocal s3
          else if localFooterHoldHasContext (pb s3) s3 then setFooterSource FLocal s3
          else case localEndedPlaybackHasFooterContext (pb s3) s3 of (endedContext, s4) \<Rightarrow>
          if endedContext then setFooterSource FLocal s4
          else if spotifyPausedHasFooterContext (spotify_data s4) then setFooterSource FSpotify s4
          else setFooterSource FLocal s4))"

definition getEffectivePlaybackControlSource :: "player \<Rightarrow> footer_source \<times> player" where
  "getEffectivePlaybackControlSource s =
     (case getBackendFooterOwner (pb s) of
        Some owner \<Rightarrow> (owner, s)
      | None \<Rightarrow>
         (case spotifyPlayingOwnsFooter (spotify_data s) s of (spotifyOwns, s1) \<Rightarrow>
          if spotifyOwns then (FSpotify, s1)
          else case localPlaybackHasFooterContext (pb s1) s1 of (localContext, s2) \<Rightarrow>
          if localContext then (FLocal, s2)
          else case localEndedPlaybackHasFooterContext (pb s2) s2 of (endedContext, s3) \<Rightarrow>
          if endedContext then (FLocal, s3)
          else if spotifyPausedHasFooterContext (spotify_data s3) then (FSpotify, s3)
          else (if isStreamingFooterSource (footerSource s3) then footerSource s3 else FLocal, s3)))"

text \<open>\<open>if (!shouldPollSpotify()) { bumpSpotifyPollGeneration(); stopSpotifyPoll(); }\<close>.\<close>

definition drop_spotify_poll :: "player \<Rightarrow> player" where
  "drop_spotify_poll s =
     (if \<not> shouldPollSpotify s then stopSpotifyPoll (bumpSpotifyPollGeneration s) else s)"

text \<open>\<open>if (data && data.status === 'Playing') data = {...data, status: 'Paused'}\<close>.\<close>

definition downgrade_spotify :: "player \<Rightarrow> player" where
  "downgrade_spotify s =
     (if truthy (spotify_data s) \<and> jget (spotify_data s) ''status'' = JStr ''Playing''
      then spotify_assign (jput ''status'' (JStr ''Paused'') (spotify_data s)) s else s)"

definition syncFooterOwnershipFromPlayback :: "jsval \<Rightarrow> player \<Rightarrow> player" where
  "syncFooterOwnershipFromPlayback playbackv s =
     (case getBackendFooterOwner playbackv of
        Some FLocal \<Rightarrow> drop_spotify_poll (setFooterSource FLocal (s\<lparr>spotifyTakeoverUntil := 0\<rparr>))
      | Some FSpotify \<Rightarrow> setFooterSource FSpotify s
      | Some FQobuz \<Rightarrow> setFooterSource FQobuz s
      | None \<Rightarrow>
         (case spotifyPlayingOwnsFooter (spotify_data s) s of (spotifyOwns, s1) \<Rightarrow>
          if spotifyOwns then setFooterSource FSpotify s1
          else case qobuzPlayingOwnsFooter (qobuz_data s1) s1 of (qobuzOwns, s2) \<Rightarrow>
          if qobuzOwns then setFooterSource FQobuz s2
          else case localPlaybackHasFooterContext playbackv s2 of (localContext, s3) \<Rightarrow>
          if localContext then
            drop_spotify_poll (setFooterSource FLocal
              (downgrade_spotify (s3\<lparr>spotifyTakeoverUntil := 0\<rparr>)))
          else case localEndedPlaybackHasFooterContext playbackv s3 of (endedContext, s4) \<Rightarrow>
          if endedContext then
            drop_spotify_poll (setFooterSource FLocal (s4\<lparr>spotifyTakeoverUntil := 0\<rparr>))
          else drop_spotify_poll (reconcileFooterSource s4)))"

definition armSpotifyTakeover :: "nat \<Rightarrow> player \<Rightarrow> player" where
  "armSpotifyTakeover ms s =
     s\<lparr>spotifyTakeoverUntil := clock s + ms, footerSource := FSpotify\<rparr>"

definition armLocalFooterHold :: "nat \<Rightarrow> player \<Rightarrow> player" where
  "armLocalFooterHold ms s = s\<lparr>localFooterHoldUntil := clock s + ms\<rparr>"

definition armFooterContentFreeze :: "nat \<Rightarrow> player \<Rightarrow> player" where
  "armFooterContentFreeze ms s =
     (let s1 = s\<lparr>footerFreezeUntil := clock s + ms\<rparr>;
          s2 = clear_timer (footerFreezeTimer s1) s1
      in case set_timer TFreeze s2 of (h, s3) \<Rightarrow> s3\<lparr>footerFreezeTimer := Some h\<rparr>)"

text \<open>\<open>if (shouldPoll...()) start...Poll(); else { bump...PollGeneration(); stop...Poll(); }\<close>.\<close>

definition follow_spotify_poll :: "player \<Rightarrow> player" where
  "follow_spotify_poll s =
     (if shouldPollSpotify s then startSpotifyPoll s
      else stopSpotifyPoll (bumpSpotifyPollGeneration s))"

definition follow_qobuz_poll :: "player \<Rightarrow> player" where
  "follow_qobuz_poll s =
     (if shouldPollQobuz s then startQobuzPoll s
      else stopQobuzPoll (bumpQobuzPollGeneration s))"

text \<open>The repaint of the footer for a streaming owner (static/playback_ui.js); a numeric volume of
  the provider state goes through the volume protocol.\<close>

definition updateFooterForStreamingOwner :: "jsval \<Rightarrow> player \<Rightarrow> player" where
  "updateFooterForStreamingOwner data s =
     (if \<not> isStreamingFooterSource (footerSource s) then s
      else if footerContentFreezeActive s then s
      else
        (let s1 = emit (PaintStreaming data) s
         in case jget data ''volume'' of JNum v \<Rightarrow> applyRemoteVolume v s1 | _ \<Rightarrow> s1))"

text \<open>\<open>updatePlaybackUI\<close> without the painting itself; \<open>renderQueueUI\<close>, called on the native path,
  consults the start lock and thereby drops an expired one.\<close>

definition updatePlaybackUI :: "player \<Rightarrow> player" where
  "updatePlaybackUI s =
     (let playing = truthy (jget (pb s) ''playing'');
          freezeActive = footerContentFreezeActive s;
          s3 = follow_qobuz_poll (follow_spotify_poll (reconcileFooterSource s))
      in if isStreamingFooterSource (footerSource s3) then
           (let s4 = stopPlaybackPositionPoll s3
            in if \<not> freezeActive \<and> truthy (streamingFooterData s4)
               then updateFooterForStreamingOwner (streamingFooterData s4) s4 else s4)
         else
           (let s4 = snd (footerSingleTrackStartLockActive (pb s3) (emit Paint s3))
            in if playing \<and> \<not> isStreamingFooterSource (footerSource s4)
               then startPlaybackPositionPoll s4 else stopPlaybackPositionPoll s4))"

end
