(* ===== verification/Footer_Props.thy ===== *)
theory Footer_Props
  imports Footer
begin

section \<open>Footer ownership: lemmas\<close>

text \<open>
  The start lock split into a pure predicate and the clearing of an expired lock, the
  ownership decision as a first-match rule list (\<open>footer_rules\<close>), its idempotence, and what
  every operation of the footer leaves unchanged.
\<close>

named_theorems footer_simps \<open>footer predicates split into a pure part and the lock expiry\<close>

subsection \<open>The start lock\<close>

definition lock_expired :: "player \<Rightarrow> bool" where
  "lock_expired s = (case pendingFooterStart s of None \<Rightarrow> False
     | Some p \<Rightarrow> expiresAt p \<noteq> 0 \<and> expiresAt p < clock s)"

definition expire_lock :: "player \<Rightarrow> player" where
  "expire_lock s = (if lock_expired s then s\<lparr>pendingFooterStart := None\<rparr> else s)"

definition lock_holds :: "player \<Rightarrow> bool" where
  "lock_holds s = (case pendingFooterStart s of None \<Rightarrow> False
     | Some p \<Rightarrow> \<not> (expiresAt p \<noteq> 0 \<and> expiresAt p < clock s)
         \<and> track_from [''local''] (jget (pb s) ''current_track'')
         \<and> js_seq (jget (jget (pb s) ''current_track'') ''id'') (startTrackId p))"

lemma lockActive_eq [footer_simps]:
  "footerSingleTrackStartLockActive (pb s) s = (lock_holds s, expire_lock s)"
  by (auto simp: footerSingleTrackStartLockActive_def lock_holds_def expire_lock_def
      lock_expired_def split: option.splits)

lemma expire_lock_frame [simp]:
  "playback (expire_lock s) = playback s"
  "spotifyLast (expire_lock s) = spotifyLast s"
  "qobuzLast (expire_lock s) = qobuzLast s"
  "footerSource (expire_lock s) = footerSource s"
  "clock (expire_lock s) = clock s"
  "spotifyTakeoverUntil (expire_lock s) = spotifyTakeoverUntil s"
  "localFooterHoldUntil (expire_lock s) = localFooterHoldUntil s"
  "nonAppSourceMode (expire_lock s) = nonAppSourceMode s"
  "positionPollTimer (expire_lock s) = positionPollTimer s"
  "timers (expire_lock s) = timers s"
  "nextTimer (expire_lock s) = nextTimer s"
  "visibleTab (expire_lock s) = visibleTab s"
  "spotifyPoll (expire_lock s) = spotifyPoll s"
  "qobuzPoll (expire_lock s) = qobuzPoll s"
  "inflight (expire_lock s) = inflight s"
  "playbackActionInFlight (expire_lock s) = playbackActionInFlight s"
  "pendingPlaybackRequestId (expire_lock s) = pendingPlaybackRequestId s"
  "pauseActionRequestId (expire_lock s) = pauseActionRequestId s"
  "volctl (expire_lock s) = volctl s"
  "nextRef (expire_lock s) = nextRef s"
  "effects (expire_lock s) = effects s"
  by (simp_all add: expire_lock_def)

lemma lock_expired_expire [simp]: "\<not> lock_expired (expire_lock s)"
  by (auto simp: expire_lock_def lock_expired_def)

lemma expire_expire [simp]: "expire_lock (expire_lock s) = expire_lock s"
  by (simp add: expire_lock_def [of "expire_lock s"])

lemma lock_holds_expire [simp]: "lock_holds (expire_lock s) = lock_holds s"
  by (auto simp: expire_lock_def lock_holds_def lock_expired_def split: option.splits)

text \<open>The provider predicate both streaming owners share.\<close>

definition provider_owns :: "jsval \<Rightarrow> player \<Rightarrow> bool" where
  "provider_owns data s =
     (\<not> lock_holds s \<and> \<not> activeLocalPlaybackBlocksSpotifyOwnership (pb s)
      \<and> provider_status ''Playing'' data)"

lemma provider_owns_expire [simp]: "provider_owns data (expire_lock s) = provider_owns data s"
  by (simp add: provider_owns_def)

lemma playingOwns_eq [footer_simps]:
  "spotifyPlayingOwnsFooter data s = (provider_owns data s, expire_lock s)"
  "qobuzPlayingOwnsFooter data s = (provider_owns data s, expire_lock s)"
  by (auto simp: spotifyPlayingOwnsFooter_def qobuzPlayingOwnsFooter_def lockActive_eq
      provider_owns_def)

definition native_track :: "jsval \<Rightarrow> bool" where
  "native_track playbackv = track_from [''radio'', ''local'', ''tidal''] (jget playbackv ''current_track'')"

definition local_context :: "jsval \<Rightarrow> player \<Rightarrow> bool" where
  "local_context playbackv s =
     (native_track playbackv \<and> \<not> provider_owns (spotify_data s) s
      \<and> \<not> (truthy (jget playbackv ''paused'') \<and> footerSource s = FSpotify
           \<and> spotifyPausedHasFooterContext (spotify_data s))
      \<and> (truthy (jget playbackv ''playing'') \<or> truthy (jget playbackv ''paused'')))"

definition ended_context :: "jsval \<Rightarrow> player \<Rightarrow> bool" where
  "ended_context playbackv s =
     (track_from [''local'', ''tidal''] (jget playbackv ''current_track'')
      \<and> \<not> provider_owns (spotify_data s) s
      \<and> truthy (jget playbackv ''ended'') \<and> \<not> truthy (jget playbackv ''playing'')
      \<and> \<not> truthy (jget playbackv ''paused''))"

lemma local_context_expire [simp]: "local_context v (expire_lock s) = local_context v s"
  by (simp add: local_context_def)

lemma ended_context_expire [simp]: "ended_context v (expire_lock s) = ended_context v s"
  by (simp add: ended_context_def)

lemma localContext_eq [footer_simps]:
  "localPlaybackHasFooterContext v s =
     (local_context v s, if native_track v then expire_lock s else s)"
  by (auto simp: localPlaybackHasFooterContext_def local_context_def native_track_def
      playingOwns_eq)

lemma endedContext_eq [footer_simps]:
  "localEndedPlaybackHasFooterContext v s =
     (ended_context v s,
      if track_from [''local'', ''tidal''] (jget v ''current_track'') then expire_lock s else s)"
  by (auto simp: localEndedPlaybackHasFooterContext_def ended_context_def playingOwns_eq)

lemma hold_expire [simp]: "localFooterHoldHasContext v (expire_lock s) = localFooterHoldHasContext v s"
  by (simp add: localFooterHoldHasContext_def)

lemma if_expire [simp]:
  "(if b then expire_lock (expire_lock s) else expire_lock s) = expire_lock s"
  by simp

subsection \<open>The decision as a rule list\<close>

definition streaming_rules :: "player \<Rightarrow> (bool \<times> footer_source) list" where
  "streaming_rules s =
     [(provider_owns (spotify_data s) s, FSpotify),
      (provider_owns (qobuz_data s) s, FQobuz),
      (clock s < spotifyTakeoverUntil s, FSpotify),
      (local_context (pb s) s, FLocal),
      (localFooterHoldHasContext (pb s) s, FLocal),
      (ended_context (pb s) s, FLocal),
      (spotifyPausedHasFooterContext (spotify_data s), FSpotify)]"

definition footer_rules :: "player \<Rightarrow> (bool \<times> footer_source) list" where
  "footer_rules s =
     (nonAppSourceMode s, FLocal)
     # (case getBackendFooterOwner (pb s) of
          Some owner \<Rightarrow> [(True, owner)] | None \<Rightarrow> streaming_rules s)"

definition footer_decision :: "player \<Rightarrow> footer_source" where
  "footer_decision s = first_match (footer_rules s) FLocal"

text \<open>Whether the decision looks at the start lock at all.\<close>

definition decision_state :: "player \<Rightarrow> player" where
  "decision_state s =
     (if nonAppSourceMode s \<or> getBackendFooterOwner (pb s) \<noteq> None then s else expire_lock s)"

lemma reconcile_eq:
  "reconcileFooterSource s = setFooterSource (footer_decision s) (decision_state s)"
  by (simp add: reconcileFooterSource_def footer_decision_def footer_rules_def streaming_rules_def
      decision_state_def footer_simps split: option.split)

lemma setFooterSource_source [simp]: "footerSource (setFooterSource f s) = f"
  by (simp add: setFooterSource_def stopPlaybackPositionPoll_def clear_timer_def Let_def)

lemma reconcile_source: "footerSource (reconcileFooterSource s) = footer_decision s"
  by (simp add: reconcile_eq)

subsection \<open>What the operations leave unchanged\<close>

lemma setFooterSource_frame [simp]:
  "playback (setFooterSource f s) = playback s"
  "spotifyLast (setFooterSource f s) = spotifyLast s"
  "qobuzLast (setFooterSource f s) = qobuzLast s"
  "clock (setFooterSource f s) = clock s"
  "spotifyTakeoverUntil (setFooterSource f s) = spotifyTakeoverUntil s"
  "localFooterHoldUntil (setFooterSource f s) = localFooterHoldUntil s"
  "nonAppSourceMode (setFooterSource f s) = nonAppSourceMode s"
  "visibleTab (setFooterSource f s) = visibleTab s"
  "spotifyPoll (setFooterSource f s) = spotifyPoll s"
  "qobuzPoll (setFooterSource f s) = qobuzPoll s"
  "pendingFooterStart (setFooterSource f s) = pendingFooterStart s"
  "inflight (setFooterSource f s) = inflight s"
  "playbackActionInFlight (setFooterSource f s) = playbackActionInFlight s"
  "pendingPlaybackRequestId (setFooterSource f s) = pendingPlaybackRequestId s"
  "pauseActionRequestId (setFooterSource f s) = pauseActionRequestId s"
  "volctl (setFooterSource f s) = volctl s"
  "nextRef (setFooterSource f s) = nextRef s"
  "effects (setFooterSource f s) = effects s"
  by (simp_all add: setFooterSource_def stopPlaybackPositionPoll_def clear_timer_def Let_def)

lemma setFooterSource_lock [simp]:
  "lock_holds (setFooterSource f s) = lock_holds s"
  "lock_expired (setFooterSource f s) = lock_expired s"
  by (simp_all add: lock_holds_def lock_expired_def cong: option.case_cong)

lemma setFooterSource_provider [simp]:
  "provider_owns d (setFooterSource f s) = provider_owns d s"
  by (simp add: provider_owns_def)

lemma setFooterSource_hold [simp]:
  "localFooterHoldHasContext v (setFooterSource f s) = localFooterHoldHasContext v s"
  by (simp add: localFooterHoldHasContext_def)

lemma ended_context_set [simp]: "ended_context v (setFooterSource f s) = ended_context v s"
  by (simp add: ended_context_def)

lemma local_context_set:
  "local_context v (setFooterSource f s) =
     (native_track v \<and> \<not> provider_owns (spotify_data s) s
      \<and> \<not> (truthy (jget v ''paused'') \<and> f = FSpotify
           \<and> spotifyPausedHasFooterContext (spotify_data s))
      \<and> (truthy (jget v ''playing'') \<or> truthy (jget v ''paused'')))"
  by (simp add: local_context_def)

text \<open>Deciding again after the decision was applied gives the same source: the one rule that
  reads the current source, the sticky paused Spotify context, agrees with it.\<close>

lemma footer_decision_set:
  "footer_decision (setFooterSource (footer_decision s) s) = footer_decision s"
proof (cases "nonAppSourceMode s \<or> getBackendFooterOwner (pb s) \<noteq> None")
  case True
  then show ?thesis
    by (auto simp: footer_decision_def footer_rules_def)
next
  case False
  then have plain: "footer_decision t = first_match (streaming_rules t) FLocal"
    if "nonAppSourceMode t = nonAppSourceMode s" "playback t = playback s" for t
    using that by (simp add: footer_decision_def footer_rules_def)
  define f where "f = footer_decision s"
  have f: "f = first_match (streaming_rules s) FLocal"
    by (simp add: f_def plain)
  have "first_match (streaming_rules (setFooterSource f s)) FLocal = f"
    using f by (auto simp: streaming_rules_def local_context_set local_context_def split: if_splits)
  then show ?thesis
    by (simp add: plain flip: f_def)
qed

lemma footer_decision_decision_state [simp]: "footer_decision (decision_state s) = footer_decision s"
  by (simp add: decision_state_def footer_decision_def footer_rules_def streaming_rules_def)

lemma decision_state_frame [simp]:
  "playback (decision_state s) = playback s"
  "spotifyLast (decision_state s) = spotifyLast s"
  "qobuzLast (decision_state s) = qobuzLast s"
  "clock (decision_state s) = clock s"
  "spotifyTakeoverUntil (decision_state s) = spotifyTakeoverUntil s"
  "nonAppSourceMode (decision_state s) = nonAppSourceMode s"
  "visibleTab (decision_state s) = visibleTab s"
  "spotifyPoll (decision_state s) = spotifyPoll s"
  "qobuzPoll (decision_state s) = qobuzPoll s"
  "positionPollTimer (decision_state s) = positionPollTimer s"
  "timers (decision_state s) = timers s"
  "nextTimer (decision_state s) = nextTimer s"
  "inflight (decision_state s) = inflight s"
  "effects (decision_state s) = effects s"
  "volctl (decision_state s) = volctl s"
  "playbackActionInFlight (decision_state s) = playbackActionInFlight s"
  "pendingPlaybackRequestId (decision_state s) = pendingPlaybackRequestId s"
  "pauseActionRequestId (decision_state s) = pauseActionRequestId s"
  "nextRef (decision_state s) = nextRef s"
  by (simp_all add: decision_state_def)

lemma setFooterSource_twice [simp]: "setFooterSource f (setFooterSource f s) = setFooterSource f s"
  by (simp add: setFooterSource_def stopPlaybackPositionPoll_def clear_timer_def Let_def)

lemma decision_state_set: "decision_state (setFooterSource f s) = setFooterSource f (decision_state s)"
proof -
  have "expire_lock (setFooterSource f s) = setFooterSource f (expire_lock s)"
    unfolding expire_lock_def setFooterSource_lock
    by (simp add: setFooterSource_def stopPlaybackPositionPoll_def clear_timer_def Let_def)
  then show ?thesis
    by (simp add: decision_state_def)
qed

lemma decision_state_idem [simp]: "decision_state (decision_state s) = decision_state s"
  by (simp add: decision_state_def)

lemma reconcile_idem: "reconcileFooterSource (reconcileFooterSource s) = reconcileFooterSource s"
proof -
  have "footer_decision (setFooterSource (footer_decision s) (decision_state s)) = footer_decision s"
    using footer_decision_set [of "decision_state s"] by simp
  then show ?thesis
    by (simp add: reconcile_eq decision_state_set)
qed

end
