(* ===== verification/Footer_Polls.thy ===== *)
theory Footer_Polls
  imports Footer_Props
begin

section \<open>Polls follow the footer\<close>

text \<open>
  Every timer variable of the modelled modules that owns its timer is a slot: it holds the
  handle of the one running timer of its kind or of no running timer (\<open>_spotifySeekCommitTimer\<close>
  is none: two overlapping seeks leave a one-shot refresh behind). \<open>timers_inv\<close> states this for all slots at
  once; it excludes leaked intervals (running but held by no variable) and stolen handles
  (a variable whose clearing would stop somebody else's timer). The provider polls are
  interpretations of one interface, \<open>provider_poller\<close>.
\<close>

subsection \<open>Timer slots\<close>

type_synonym slot = "nat option \<times> (timer \<Rightarrow> bool)"

definition slot_ok :: "(nat \<times> timer) list \<Rightarrow> nat \<Rightarrow> slot \<Rightarrow> bool" where
  "slot_ok ts n sl =
     ((\<forall>(h, k) \<in> set ts. snd sl k \<longleftrightarrow> fst sl = Some h) \<and> (\<forall>h. fst sl = Some h \<longrightarrow> h < n))"

definition handles_ok :: "(nat \<times> timer) list \<Rightarrow> nat \<Rightarrow> bool" where
  "handles_ok ts n = (distinct (map fst ts) \<and> (\<forall>(h, k) \<in> set ts. h < n))"

definition drop_handle :: "nat option \<Rightarrow> (nat \<times> timer) list \<Rightarrow> (nat \<times> timer) list" where
  "drop_handle h ts = filter (\<lambda>(i, k). Some i \<noteq> h) ts"

lemma clear_timer_nf: "clear_timer h s = s\<lparr>timers := drop_handle h (timers s)\<rparr>"
  by (simp add: clear_timer_def drop_handle_def)

lemma drop_handle_None [simp]: "drop_handle None ts = ts"
  by (simp add: drop_handle_def)

lemma set_drop_handle: "(i, k) \<in> set (drop_handle h ts) \<longleftrightarrow> (i, k) \<in> set ts \<and> Some i \<noteq> h"
  by (auto simp: drop_handle_def)

lemma handles_ok_drop: "handles_ok ts n \<Longrightarrow> handles_ok (drop_handle h ts) n"
  by (auto simp: handles_ok_def drop_handle_def distinct_map inj_on_def)

lemma handles_ok_add: "handles_ok ts n \<Longrightarrow> handles_ok (ts @ [(n, k)]) (Suc n)"
  by (auto simp: handles_ok_def less_Suc_eq)

lemma slot_ok_drop: "slot_ok ts n sl \<Longrightarrow> slot_ok (drop_handle h ts) n sl"
  by (auto simp: slot_ok_def set_drop_handle)

lemma slot_ok_release:
  "slot_ok ts n (v, mine) \<Longrightarrow> slot_ok (drop_handle v ts) n (None, mine)"
  by (auto simp: slot_ok_def set_drop_handle)

lemma slot_ok_other: "slot_ok ts n sl \<Longrightarrow> \<not> snd sl k \<Longrightarrow> slot_ok (ts @ [(n, k)]) (Suc n) sl"
  by (auto simp: slot_ok_def less_Suc_eq)

lemma slot_ok_take:
  "slot_ok ts n (None, mine) \<Longrightarrow> mine k \<Longrightarrow> handles_ok ts n
   \<Longrightarrow> slot_ok (ts @ [(n, k)]) (Suc n) (Some n, mine)"
  by (auto simp: slot_ok_def handles_ok_def)

text \<open>The variables of one-shot timers may hold dead handles and need not know every such timer;
  what they hold is never the handle of another kind.\<close>

definition loose :: "timer \<Rightarrow> bool" where
  "loose k = (k \<in> {TSpotifyRefresh, TSpotifySeekCommit, TBurst})"

definition loose_ok :: "(nat \<times> timer) list \<Rightarrow> nat \<Rightarrow> nat set \<Rightarrow> bool" where
  "loose_ok ts n hs = (\<forall>h \<in> hs. h < n \<and> (\<forall>k. (h, k) \<in> set ts \<longrightarrow> loose k))"

definition loose_handles :: "player \<Rightarrow> nat set" where
  "loose_handles s = set (burstPollTimers s) \<union> set_option (spotifySeekCommitTimer s)"

lemma loose_ok_drop [simp]: "loose_ok ts n hs \<Longrightarrow> loose_ok (drop_handle h ts) n hs"
  by (auto simp: loose_ok_def set_drop_handle)

lemma loose_ok_add [simp]: "loose_ok ts n hs \<Longrightarrow> loose_ok (ts @ [(n, k)]) (Suc n) hs"
  by (auto simp: loose_ok_def)

lemma loose_ok_subset: "loose_ok ts n hs \<Longrightarrow> hs' \<subseteq> hs \<Longrightarrow> loose_ok ts n hs'"
  by (auto simp: loose_ok_def)

fun is_spotify_poll :: "timer \<Rightarrow> bool" where
  "is_spotify_poll (TSpotifyPoll g) = True"
| "is_spotify_poll k = False"

fun is_qobuz_poll :: "timer \<Rightarrow> bool" where
  "is_qobuz_poll (TQobuzPoll g) = True"
| "is_qobuz_poll k = False"

definition slots :: "player \<Rightarrow> slot list" where
  "slots s =
     [(pollTimer (spotifyPoll s), is_spotify_poll),
      (pollTimer (qobuzPoll s), is_qobuz_poll),
      (positionPollTimer s, (=) TPosition),
      (footerFreezeTimer s, (=) TFreeze),
      (volumeTimer (volctl s), (=) TVolume),
      (metadataPollTimer s, (=) TMetadata),
      (peakStatusPollTimer s, (=) TPeak),
      (sampleratePollTimer s, (=) TSamplerate)]"

definition timers_inv :: "player \<Rightarrow> bool" where
  "timers_inv s =
     (handles_ok (timers s) (nextTimer s)
      \<and> loose_ok (timers s) (nextTimer s) (loose_handles s)
      \<and> (\<forall>sl \<in> set (slots s). slot_ok (timers s) (nextTimer s) sl))"

text \<open>The running provider interval carries the generation its variable names.\<close>

definition poll_inv :: "poll_ctl \<Rightarrow> (nat \<Rightarrow> timer) \<Rightarrow> (nat \<times> timer) list \<Rightarrow> bool" where
  "poll_inv c kind ts =
     ((pollTimer c = None \<longleftrightarrow> pollTimerGeneration c = None)
      \<and> (\<forall>h. pollTimer c = Some h \<longrightarrow> (\<exists>g. pollTimerGeneration c = Some g \<and> (h, kind g) \<in> set ts))
      \<and> (\<forall>g. pollTimerGeneration c = Some g \<longrightarrow> g \<le> pollGeneration c))"

definition alive :: "nat option \<Rightarrow> timer \<Rightarrow> (nat \<times> timer) list \<Rightarrow> bool" where
  "alive v k ts = (\<forall>h. v = Some h \<longrightarrow> (h, k) \<in> set ts)"

definition polls_inv :: "player \<Rightarrow> bool" where
  "polls_inv s = (timers_inv s \<and> poll_inv (spotifyPoll s) TSpotifyPoll (timers s)
                  \<and> poll_inv (qobuzPoll s) TQobuzPoll (timers s)
                  \<and> alive (positionPollTimer s) TPosition (timers s))"

lemma init_polls_inv: "polls_inv init_player"
  by (simp add: polls_inv_def timers_inv_def slots_def slot_ok_def handles_ok_def poll_inv_def
      init_player_def new_poll_ctl_def new_volume_ctl_def alive_def loose_ok_def loose_handles_def)

lemma alive_None [simp]: "alive None k ts"
  by (simp add: alive_def)

lemma alive_take [simp]: "alive (Some n) k (ts @ [(n, k)])"
  by (simp add: alive_def)

lemma alive_more: "alive v k ts \<Longrightarrow> set ts \<subseteq> set ts' \<Longrightarrow> alive v k ts'"
  by (auto simp: alive_def)

lemma alive_append [simp]: "alive v k ts \<Longrightarrow> alive v k (ts @ us)"
  by (auto simp: alive_def)

lemma alive_drop_other: "alive v k ts \<Longrightarrow> slot_ok ts n (w, mine) \<Longrightarrow> \<not> mine k \<Longrightarrow> alive v k (drop_handle w ts)"
  by (fastforce simp: alive_def slot_ok_def set_drop_handle)

subsection \<open>Normal forms of the poll operations\<close>

definition stopped :: "poll_ctl \<Rightarrow> poll_ctl" where
  "stopped c = c\<lparr>pollTimer := None, pollTimerGeneration := None\<rparr>"

definition running :: "nat \<Rightarrow> poll_ctl \<Rightarrow> poll_ctl" where
  "running h c = \<lparr>pollTimer = Some h, pollGeneration = Suc (pollGeneration c),
     pollTimerGeneration = Some (Suc (pollGeneration c))\<rparr>"

definition poll_current :: "poll_ctl \<Rightarrow> bool" where
  "poll_current c = (pollTimer c \<noteq> None \<and> pollTimerGeneration c = Some (pollGeneration c))"

lemma stopSpotify_nf:
  "stopSpotifyPoll s = s\<lparr>spotifyPoll := stopped (spotifyPoll s),
     timers := drop_handle (pollTimer (spotifyPoll s)) (timers s)\<rparr>"
  by (cases "pollTimer (spotifyPoll s)")
     (simp_all add: stopSpotifyPoll_def Let_def clear_timer_nf stopped_def)

lemma stopQobuz_nf:
  "stopQobuzPoll s = s\<lparr>qobuzPoll := stopped (qobuzPoll s),
     timers := drop_handle (pollTimer (qobuzPoll s)) (timers s)\<rparr>"
  by (cases "pollTimer (qobuzPoll s)")
     (simp_all add: stopQobuzPoll_def Let_def clear_timer_nf stopped_def)

lemma startSpotify_nf:
  "startSpotifyPoll s =
     (if \<not> shouldPollSpotify s \<or> poll_current (spotifyPoll s) then s
      else s\<lparr>spotifyPoll := running (nextTimer s) (spotifyPoll s), nextTimer := Suc (nextTimer s),
          timers := drop_handle (pollTimer (spotifyPoll s)) (timers s)
                    @ [(nextTimer s, TSpotifyPoll (Suc (pollGeneration (spotifyPoll s))))]\<rparr>)"
  by (cases "pollTimer (spotifyPoll s)")
     (simp_all add: startSpotifyPoll_def Let_def stopSpotify_nf set_timer_def poll_current_def
       running_def stopped_def)

lemma startQobuz_nf:
  "startQobuzPoll s =
     (if \<not> shouldPollQobuz s \<or> poll_current (qobuzPoll s) then s
      else s\<lparr>qobuzPoll := running (nextTimer s) (qobuzPoll s), nextTimer := Suc (nextTimer s),
          timers := drop_handle (pollTimer (qobuzPoll s)) (timers s)
                    @ [(nextTimer s, TQobuzPoll (Suc (pollGeneration (qobuzPoll s))))]\<rparr>)"
  by (cases "pollTimer (qobuzPoll s)")
     (simp_all add: startQobuzPoll_def Let_def stopQobuz_nf set_timer_def poll_current_def
       running_def stopped_def)

lemma stopPosition_nf:
  "stopPlaybackPositionPoll s = s\<lparr>positionPollTimer := None,
     timers := drop_handle (positionPollTimer s) (timers s)\<rparr>"
  by (cases "positionPollTimer s") (simp_all add: stopPlaybackPositionPoll_def clear_timer_nf)

lemma startPosition_nf:
  "startPlaybackPositionPoll s =
     (if isStreamingFooterSource (footerSource s) \<or> positionPollTimer s \<noteq> None then s
      else s\<lparr>positionPollTimer := Some (nextTimer s), nextTimer := Suc (nextTimer s),
             timers := timers s @ [(nextTimer s, TPosition)]\<rparr>)"
  by (auto simp: startPlaybackPositionPoll_def set_timer_def)

lemma setFooterSource_nf:
  "setFooterSource f s =
     (if f = FSpotify
      then s\<lparr>footerSource := f, positionPollTimer := None,
             timers := drop_handle (positionPollTimer s) (timers s)\<rparr>
      else s\<lparr>footerSource := f\<rparr>)"
  by (simp add: setFooterSource_def stopPosition_nf Let_def)

lemmas poll_nfs = stopSpotify_nf stopQobuz_nf startSpotify_nf startQobuz_nf stopPosition_nf
  startPosition_nf setFooterSource_nf bumpSpotifyPollGeneration_def bumpQobuzPollGeneration_def

subsection \<open>The invariant is kept\<close>

lemmas slot_rules = slot_ok_drop slot_ok_release slot_ok_other slot_ok_take handles_ok_drop
  handles_ok_add

lemma poll_inv_stopped [simp]: "poll_inv (stopped c) kind ts"
  by (simp add: poll_inv_def stopped_def)

lemma poll_inv_running: "poll_inv (running n c) kind (ts @ [(n, kind (Suc (pollGeneration c)))])"
  by (simp add: poll_inv_def running_def)

lemma poll_inv_bump:
  "poll_inv c kind ts \<Longrightarrow> poll_inv (c\<lparr>pollGeneration := Suc (pollGeneration c)\<rparr>) kind ts"
  by (auto simp: poll_inv_def intro: le_SucI)

lemma poll_inv_more: "poll_inv c kind ts \<Longrightarrow> set ts \<subseteq> set ts' \<Longrightarrow> poll_inv c kind ts'"
  by (fastforce simp: poll_inv_def)

text \<open>Clearing the timer of another slot keeps the running interval.\<close>

lemma poll_inv_drop_other:
  assumes "poll_inv c kind ts" "slot_ok ts n (v, mine)" "\<And>g. \<not> mine (kind g)"
  shows "poll_inv c kind (drop_handle v ts)"
  using assms by (fastforce simp: poll_inv_def slot_ok_def set_drop_handle)

lemmas polls_inv_unfold = polls_inv_def timers_inv_def slots_def loose_handles_def

lemma polls_inv_stopSpotify: "polls_inv s \<Longrightarrow> polls_inv (stopSpotifyPoll s)"
  by (auto simp: polls_inv_unfold stopSpotify_nf stopped_def slot_rules
      intro: slot_ok_release poll_inv_drop_other alive_drop_other poll_inv_stopped [unfolded stopped_def])

lemma polls_inv_stopQobuz: "polls_inv s \<Longrightarrow> polls_inv (stopQobuzPoll s)"
  by (auto simp: polls_inv_unfold stopQobuz_nf stopped_def slot_rules
      intro: slot_ok_release poll_inv_drop_other alive_drop_other poll_inv_stopped [unfolded stopped_def])

lemma polls_inv_stopPosition: "polls_inv s \<Longrightarrow> polls_inv (stopPlaybackPositionPoll s)"
  by (auto simp: polls_inv_unfold stopPosition_nf slot_rules
      intro: slot_ok_release poll_inv_drop_other alive_drop_other)

lemma polls_inv_bumpSpotify: "polls_inv s \<Longrightarrow> polls_inv (bumpSpotifyPollGeneration s)"
  by (simp add: polls_inv_unfold bumpSpotifyPollGeneration_def poll_inv_bump)

lemma polls_inv_bumpQobuz: "polls_inv s \<Longrightarrow> polls_inv (bumpQobuzPollGeneration s)"
  by (simp add: polls_inv_unfold bumpQobuzPollGeneration_def poll_inv_bump)

text \<open>Arming a provider interval after the previous one was stopped.\<close>

lemma polls_inv_runSpotify:
  assumes "polls_inv s"
  shows "polls_inv (s\<lparr>spotifyPoll := running (nextTimer s) (spotifyPoll s),
      nextTimer := Suc (nextTimer s),
      timers := drop_handle (pollTimer (spotifyPoll s)) (timers s)
                @ [(nextTimer s, TSpotifyPoll (Suc (pollGeneration (spotifyPoll s))))]\<rparr>)"
  using polls_inv_stopSpotify [OF assms]
  by (auto simp: polls_inv_unfold stopSpotify_nf stopped_def
      poll_inv_running slot_ok_other handles_ok_add
      intro: slot_ok_take [where mine = is_spotify_poll] poll_inv_more
      simp: running_def poll_inv_running [unfolded running_def])

lemma polls_inv_runQobuz:
  assumes "polls_inv s"
  shows "polls_inv (s\<lparr>qobuzPoll := running (nextTimer s) (qobuzPoll s),
      nextTimer := Suc (nextTimer s),
      timers := drop_handle (pollTimer (qobuzPoll s)) (timers s)
                @ [(nextTimer s, TQobuzPoll (Suc (pollGeneration (qobuzPoll s))))]\<rparr>)"
  using polls_inv_stopQobuz [OF assms]
  by (auto simp: polls_inv_unfold stopQobuz_nf stopped_def
      poll_inv_running slot_ok_other handles_ok_add
      intro: slot_ok_take [where mine = is_qobuz_poll] poll_inv_more
      simp: running_def poll_inv_running [unfolded running_def])

lemma polls_inv_startSpotify: "polls_inv s \<Longrightarrow> polls_inv (startSpotifyPoll s)"
  by (simp add: startSpotify_nf polls_inv_runSpotify)

lemma polls_inv_startQobuz: "polls_inv s \<Longrightarrow> polls_inv (startQobuzPoll s)"
  by (simp add: startQobuz_nf polls_inv_runQobuz)

lemma polls_inv_startPosition: "polls_inv s \<Longrightarrow> polls_inv (startPlaybackPositionPoll s)"
  by (auto simp: polls_inv_unfold startPosition_nf slot_ok_other handles_ok_add
      intro: slot_ok_take poll_inv_more)

text \<open>Updates that touch no timer and no slot.\<close>

definition timer_view ::
  "player \<Rightarrow> (nat \<times> timer) list \<times> nat \<times> slot list \<times> nat set \<times> poll_ctl \<times> poll_ctl" where
  "timer_view s =
     (timers s, nextTimer s, slots s, loose_handles s, spotifyPoll s, qobuzPoll s)"

lemma polls_inv_view: "timer_view s = timer_view t \<Longrightarrow> polls_inv s = polls_inv t"
  by (simp add: timer_view_def polls_inv_def timers_inv_def slots_def)

lemma polls_inv_setFooterSource: "polls_inv s \<Longrightarrow> polls_inv (setFooterSource f s)"
proof -
  assume "polls_inv s"
  then have "polls_inv (s\<lparr>footerSource := f\<rparr>)"
    by (subst polls_inv_view [of _ s]) (simp_all add: timer_view_def slots_def loose_handles_def)
  then show ?thesis
    by (cases "f = FSpotify") (simp_all add: setFooterSource_def Let_def polls_inv_stopPosition)
qed

lemma polls_inv_expire: "polls_inv (expire_lock s) = polls_inv s"
  by (rule polls_inv_view) (simp add: expire_lock_def timer_view_def slots_def loose_handles_def)

lemma polls_inv_reconcile: "polls_inv s \<Longrightarrow> polls_inv (reconcileFooterSource s)"
  by (simp add: reconcile_eq decision_state_def polls_inv_setFooterSource polls_inv_expire)

lemma polls_inv_emit [simp]: "polls_inv (emit e s) = polls_inv s"
  by (rule polls_inv_view) (simp add: emit_def timer_view_def slots_def loose_handles_def)

lemmas polls_inv_ops = polls_inv_stopSpotify polls_inv_stopQobuz polls_inv_stopPosition
  polls_inv_bumpSpotify polls_inv_bumpQobuz polls_inv_startSpotify polls_inv_startQobuz
  polls_inv_startPosition polls_inv_setFooterSource polls_inv_reconcile

lemma polls_inv_upd_vol [simp]:
  "(\<And>v. volumeTimer (f v) = volumeTimer v) \<Longrightarrow> polls_inv (upd_vol f s) = polls_inv s"
  by (rule polls_inv_view) (simp add: upd_vol_def timer_view_def slots_def loose_handles_def)

lemma polls_inv_pb_put [simp]: "polls_inv (pb_put k v s) = polls_inv s"
  by (rule polls_inv_view) (simp add: pb_put_def timer_view_def slots_def loose_handles_def)

lemma polls_inv_remote_volume [simp]: "polls_inv (applyRemoteVolume v s) = polls_inv s"
  by (simp add: applyRemoteVolume_def ensureVolumeBaseline_def Let_def)

lemma polls_inv_footer_owner [simp]: "polls_inv (updateFooterForStreamingOwner d s) = polls_inv s"
  by (simp add: updateFooterForStreamingOwner_def Let_def split: jsval.splits)

lemma lockActive_snd: "snd (footerSingleTrackStartLockActive v s) = expire_lock s"
  by (simp add: footerSingleTrackStartLockActive_def expire_lock_def lock_expired_def split: option.splits)

lemma polls_inv_updatePlaybackUI: "polls_inv s \<Longrightarrow> polls_inv (updatePlaybackUI s)"
  by (simp add: updatePlaybackUI_def Let_def polls_inv_ops follow_spotify_poll_def
      follow_qobuz_poll_def lockActive_snd polls_inv_expire)

text \<open>After every refresh of the user interface the running intervals are those the ownership
  asks for, with the current generations.\<close>

lemma poll_current_running [simp]: "poll_current (running h c)"
  by (simp add: poll_current_def running_def)

lemma start_current:
  "shouldPollSpotify s \<Longrightarrow> poll_current (spotifyPoll (startSpotifyPoll s))"
  "shouldPollQobuz s \<Longrightarrow> poll_current (qobuzPoll (startQobuzPoll s))"
  by (simp_all add: startSpotify_nf startQobuz_nf)

lemma should_poll_cong:
  "spotifyLast s = spotifyLast t \<Longrightarrow> visibleTab s = visibleTab t \<Longrightarrow> footerSource s = footerSource t
   \<Longrightarrow> shouldPollSpotify s = shouldPollSpotify t"
  "qobuzLast s = qobuzLast t \<Longrightarrow> visibleTab s = visibleTab t \<Longrightarrow> footerSource s = footerSource t
   \<Longrightarrow> playback s = playback t \<Longrightarrow> shouldPollQobuz s = shouldPollQobuz t"
  by (simp_all add: shouldPollSpotify_def shouldPollQobuz_def)

lemma poll_frames [simp]:
  "spotifyLast (startSpotifyPoll s) = spotifyLast s" "spotifyLast (stopSpotifyPoll s) = spotifyLast s"
  "spotifyLast (startQobuzPoll s) = spotifyLast s" "spotifyLast (stopQobuzPoll s) = spotifyLast s"
  "qobuzLast (startSpotifyPoll s) = qobuzLast s" "qobuzLast (stopSpotifyPoll s) = qobuzLast s"
  "qobuzLast (startQobuzPoll s) = qobuzLast s" "qobuzLast (stopQobuzPoll s) = qobuzLast s"
  "playback (startSpotifyPoll s) = playback s" "playback (stopSpotifyPoll s) = playback s"
  "playback (startQobuzPoll s) = playback s" "playback (stopQobuzPoll s) = playback s"
  "visibleTab (startSpotifyPoll s) = visibleTab s" "visibleTab (stopSpotifyPoll s) = visibleTab s"
  "visibleTab (startQobuzPoll s) = visibleTab s" "visibleTab (stopQobuzPoll s) = visibleTab s"
  "footerSource (startSpotifyPoll s) = footerSource s" "footerSource (stopSpotifyPoll s) = footerSource s"
  "footerSource (startQobuzPoll s) = footerSource s" "footerSource (stopQobuzPoll s) = footerSource s"
  "spotifyPoll (startQobuzPoll s) = spotifyPoll s" "spotifyPoll (stopQobuzPoll s) = spotifyPoll s"
  "qobuzPoll (startSpotifyPoll s) = qobuzPoll s" "qobuzPoll (stopSpotifyPoll s) = qobuzPoll s"
  "nonAppSourceMode (startSpotifyPoll s) = nonAppSourceMode s"
  "nonAppSourceMode (stopSpotifyPoll s) = nonAppSourceMode s"
  "nonAppSourceMode (startQobuzPoll s) = nonAppSourceMode s"
  "nonAppSourceMode (stopQobuzPoll s) = nonAppSourceMode s"
  by (simp_all add: poll_nfs)

subsection \<open>The interface of a provider poll\<close>

locale provider_poller =
  fixes should :: "player \<Rightarrow> bool"
    and start stop bump :: "player \<Rightarrow> player"
    and ctl :: "player \<Rightarrow> poll_ctl"
    and kind :: "nat \<Rightarrow> timer"
  assumes start_arms: "should s \<Longrightarrow> poll_current (ctl (start s))"
    and stop_disarms: "pollTimer (ctl (stop s)) = None"
    and bump_gen: "pollGeneration (ctl (bump s)) = Suc (pollGeneration (ctl s))"
    and bump_timers: "timers (bump s) = timers s"
    and start_inv: "polls_inv s \<Longrightarrow> polls_inv (start s)"
    and stop_inv: "polls_inv s \<Longrightarrow> polls_inv (stop s)"
    and bump_inv: "polls_inv s \<Longrightarrow> polls_inv (bump s)"
    and mine: "polls_inv s \<Longrightarrow> (h, kind g) \<in> set (timers s)
       \<Longrightarrow> pollTimer (ctl s) = Some h \<and> pollTimerGeneration (ctl s) = Some g"
    and running_gen: "polls_inv s \<Longrightarrow> pollTimer (ctl s) = Some h
       \<Longrightarrow> pollTimerGeneration (ctl s) \<noteq> None"
    and held: "polls_inv s \<Longrightarrow> pollTimer (ctl s) = Some h \<Longrightarrow> pollTimerGeneration (ctl s) = Some g
       \<Longrightarrow> (h, kind g) \<in> set (timers s) \<and> g \<le> pollGeneration (ctl s)"
begin

lemma at_most_one:
  assumes "polls_inv s" "(h, kind g) \<in> set (timers s)" "(h', kind g') \<in> set (timers s)"
  shows "h = h' \<and> g = g'"
  using mine [OF assms(1,2)] mine [OF assms(1,3)] by simp

lemma stopped_none: "polls_inv s \<Longrightarrow> (h, kind g) \<notin> set (timers (stop s))"
  using mine [OF stop_inv, of s h g] stop_disarms [of s] by fastforce

lemma started_current:
  assumes "polls_inv s" "should s"
  shows "\<exists>h. (h, kind (pollGeneration (ctl (start s)))) \<in> set (timers (start s))"
proof -
  obtain h where "pollTimer (ctl (start s)) = Some h"
    and "pollTimerGeneration (ctl (start s)) = Some (pollGeneration (ctl (start s)))"
    using start_arms [OF assms(2)] by (auto simp: poll_current_def)
  then show ?thesis
    using held [OF start_inv [OF assms(1)]] by blast
qed

lemma running_iff: "polls_inv s \<Longrightarrow> (\<exists>h g. (h, kind g) \<in> set (timers s)) \<longleftrightarrow> pollTimer (ctl s) \<noteq> None"
proof (cases "pollTimer (ctl s)")
  case None
  then show "polls_inv s \<Longrightarrow> ?thesis"
    using mine [of s] by auto
next
  case (Some h)
  show ?thesis if inv: "polls_inv s"
  proof -
    obtain g where "pollTimerGeneration (ctl s) = Some g"
      using running_gen [OF inv Some] by blast
    then have "(h, kind g) \<in> set (timers s)"
      using held [OF inv Some] by blast
    with Some show ?thesis by auto
  qed
qed

text \<open>An interval that was running when the generation was advanced is stale: its callback
  compares its own generation with the current one and delivers nothing.\<close>

lemma bumped_stale:
  assumes "polls_inv s" "(h, kind g) \<in> set (timers (bump s))"
  shows "g < pollGeneration (ctl (bump s))"
proof -
  have run: "(h, kind g) \<in> set (timers s)"
    using assms(2) by (simp add: bump_timers)
  have "g \<le> pollGeneration (ctl s)"
    using mine [OF assms(1) run] held [OF assms(1)] by blast
  then show ?thesis
    by (simp add: bump_gen)
qed

text \<open>The step every refresh makes: run the poll exactly when it is asked for.\<close>

lemma follow:
  assumes "polls_inv s"
  shows "(\<exists>h g. (h, kind g) \<in> set (timers (if should s then start s else stop (bump s)))) \<longleftrightarrow> should s"
  using started_current [OF assms] stopped_none [OF bump_inv [OF assms]] by auto

end

lemma polls_inv_slotD:
  assumes "polls_inv s" "(v, owns) \<in> set (slots s)" "(h, k) \<in> set (timers s)"
  shows "owns k \<longleftrightarrow> v = Some h"
  using assms by (fastforce simp: polls_inv_def timers_inv_def slot_ok_def)

lemma stop_bump_frames:
  "pollTimer (spotifyPoll (stopSpotifyPoll s)) = None"
  "pollTimer (qobuzPoll (stopQobuzPoll s)) = None"
  "pollGeneration (spotifyPoll (bumpSpotifyPollGeneration s)) = Suc (pollGeneration (spotifyPoll s))"
  "pollGeneration (qobuzPoll (bumpQobuzPollGeneration s)) = Suc (pollGeneration (qobuzPoll s))"
  "timers (bumpSpotifyPollGeneration s) = timers s"
  "timers (bumpQobuzPollGeneration s) = timers s"
  by (simp_all add: poll_nfs stopped_def)

lemma poll_gen_known:
  "polls_inv s \<Longrightarrow> pollTimer (spotifyPoll s) = Some h \<Longrightarrow> pollTimerGeneration (spotifyPoll s) \<noteq> None"
  "polls_inv s \<Longrightarrow> pollTimer (qobuzPoll s) = Some h \<Longrightarrow> pollTimerGeneration (qobuzPoll s) \<noteq> None"
  by (auto simp: polls_inv_def poll_inv_def)

lemma poll_held:
  "polls_inv s \<Longrightarrow> pollTimer (spotifyPoll s) = Some h \<Longrightarrow> pollTimerGeneration (spotifyPoll s) = Some g
   \<Longrightarrow> (h, TSpotifyPoll g) \<in> set (timers s) \<and> g \<le> pollGeneration (spotifyPoll s)"
  "polls_inv s \<Longrightarrow> pollTimer (qobuzPoll s) = Some h \<Longrightarrow> pollTimerGeneration (qobuzPoll s) = Some g
   \<Longrightarrow> (h, TQobuzPoll g) \<in> set (timers s) \<and> g \<le> pollGeneration (qobuzPoll s)"
  by (simp_all add: polls_inv_def poll_inv_def)

interpretation spotify_poller: provider_poller shouldPollSpotify startSpotifyPoll stopSpotifyPoll
  bumpSpotifyPollGeneration spotifyPoll TSpotifyPoll
proof unfold_locales
  fix s h g
  assume inv: "polls_inv s" and tm: "(h, TSpotifyPoll g) \<in> set (timers s)"
  have h: "pollTimer (spotifyPoll s) = Some h"
    using polls_inv_slotD [OF inv _ tm, of "pollTimer (spotifyPoll s)" is_spotify_poll]
    by (simp add: slots_def)
  obtain g' where "pollTimerGeneration (spotifyPoll s) = Some g'" "(h, TSpotifyPoll g') \<in> set (timers s)"
    using inv h by (auto simp: polls_inv_def poll_inv_def)
  moreover have "distinct (map fst (timers s))"
    using inv by (simp add: polls_inv_def timers_inv_def handles_ok_def)
  ultimately show "pollTimer (spotifyPoll s) = Some h \<and> pollTimerGeneration (spotifyPoll s) = Some g"
    using h tm eq_key_imp_eq_value [of "timers s" h "TSpotifyPoll g" "TSpotifyPoll g'"] by simp
qed (simp_all add: start_current polls_inv_ops stop_bump_frames poll_held poll_gen_known)

interpretation qobuz_poller: provider_poller shouldPollQobuz startQobuzPoll stopQobuzPoll
  bumpQobuzPollGeneration qobuzPoll TQobuzPoll
proof unfold_locales
  fix s h g
  assume inv: "polls_inv s" and tm: "(h, TQobuzPoll g) \<in> set (timers s)"
  have h: "pollTimer (qobuzPoll s) = Some h"
    using polls_inv_slotD [OF inv _ tm, of "pollTimer (qobuzPoll s)" is_qobuz_poll]
    by (simp add: slots_def)
  obtain g' where "pollTimerGeneration (qobuzPoll s) = Some g'" "(h, TQobuzPoll g') \<in> set (timers s)"
    using inv h by (auto simp: polls_inv_def poll_inv_def)
  moreover have "distinct (map fst (timers s))"
    using inv by (simp add: polls_inv_def timers_inv_def handles_ok_def)
  ultimately show "pollTimer (qobuzPoll s) = Some h \<and> pollTimerGeneration (qobuzPoll s) = Some g"
    using h tm eq_key_imp_eq_value [of "timers s" h "TQobuzPoll g" "TQobuzPoll g'"] by simp
qed (simp_all add: start_current polls_inv_ops stop_bump_frames poll_held poll_gen_known)

lemma position_running_iff:
  assumes "polls_inv s"
  shows "(\<exists>h. (h, TPosition) \<in> set (timers s)) \<longleftrightarrow> positionPollTimer s \<noteq> None"
proof -
  have "positionPollTimer s = Some h" if "(h, TPosition) \<in> set (timers s)" for h
    using polls_inv_slotD [OF assms _ that, of "positionPollTimer s" "(=) TPosition"]
    by (simp add: slots_def)
  moreover have "(h, TPosition) \<in> set (timers s)" if "positionPollTimer s = Some h" for h
    using assms that by (simp add: polls_inv_def alive_def)
  ultimately show ?thesis by (metis not_None_eq option.distinct(1))
qed

end
