(* ===== verification/Footer_Claims.thy ===== *)
theory Footer_Claims
  imports Footer_Polls
begin

section \<open>Footer ownership: the properties\<close>

text \<open>
  What the ownership decision of static/playback_core.js guarantees to the rest of the
  frontend, and the concrete states the witnesses use.
\<close>

subsection \<open>Concrete states\<close>

definition ex_radio_track :: jsval where
  "ex_radio_track = JObj [(''id'', JStr ''radio_groove''), (''source'', JStr ''radio''),
     (''url'', JStr ''http://ice/groove''), (''title'', JStr ''Groove'')]"

definition ex_local_track :: jsval where
  "ex_local_track = JObj [(''id'', JStr ''t1''), (''source'', JStr ''local''),
     (''title'', JStr ''One'')]"

definition ex_playing :: "jsval \<Rightarrow> jsval" where
  "ex_playing track = JObj [(''current_track'', track), (''playing'', JBool True),
     (''paused'', JBool False), (''ended'', JBool False)]"

definition ex_spotify :: "string \<Rightarrow> jsval" where
  "ex_spotify status = JObj [(''available'', JBool True), (''installed'', JBool True),
     (''status'', JStr status), (''title'', JStr ''Song'')]"

definition ex_state :: "jsval \<Rightarrow> jsval \<Rightarrow> player" where
  "ex_state playbackv spot = init_player\<lparr>playback := (1, playbackv), spotifyLast := (2, spot),
     nextRef := 3\<rparr>"

lemmas ex_defs = ex_radio_track_def ex_local_track_def ex_playing_def ex_spotify_def ex_state_def
  init_player_def new_volume_ctl_def new_poll_ctl_def

lemmas predicate_defs = getBackendFooterOwner_def track_from_def provider_owns_def lock_holds_def
  activeLocalPlaybackBlocksSpotifyOwnership_def provider_status_def local_context_def
  ended_context_def native_track_def localFooterHoldHasContext_def
  spotifyPausedHasFooterContext_def

subsection \<open>Helper lemmas\<close>

lemma drop_spotify_poll_frame [simp]:
  "footerSource (drop_spotify_poll s) = footerSource s"
  "playback (drop_spotify_poll s) = playback s"
  "spotifyLast (drop_spotify_poll s) = spotifyLast s"
  "qobuzLast (drop_spotify_poll s) = qobuzLast s"
  "nonAppSourceMode (drop_spotify_poll s) = nonAppSourceMode s"
  "pendingFooterStart (drop_spotify_poll s) = pendingFooterStart s"
  "clock (drop_spotify_poll s) = clock s"
  "spotifyTakeoverUntil (drop_spotify_poll s) = spotifyTakeoverUntil s"
  "localFooterHoldUntil (drop_spotify_poll s) = localFooterHoldUntil s"
  by (simp_all add: drop_spotify_poll_def poll_nfs)

lemma footer_decision_cong:
  assumes "playback s = playback t" "spotifyLast s = spotifyLast t" "qobuzLast s = qobuzLast t"
    "nonAppSourceMode s = nonAppSourceMode t" "pendingFooterStart s = pendingFooterStart t"
    "clock s = clock t" "spotifyTakeoverUntil s = spotifyTakeoverUntil t"
    "localFooterHoldUntil s = localFooterHoldUntil t" "footerSource s = footerSource t"
  shows "footer_decision s = footer_decision t"
proof -
  have "provider_owns d s = provider_owns d t" for d
    using assms by (simp add: provider_owns_def lock_holds_def cong: option.case_cong)
  then have "streaming_rules s = streaming_rules t"
    using assms by (simp add: streaming_rules_def
        local_context_def ended_context_def localFooterHoldHasContext_def)
  then have "footer_rules s = footer_rules t"
    using assms by (cases "getBackendFooterOwner (pb t)") (simp_all add: footer_rules_def)
  then show ?thesis
    by (simp add: footer_decision_def)
qed

lemma footer_decision_drop [simp]: "footer_decision (drop_spotify_poll s) = footer_decision s"
  by (rule footer_decision_cong) simp_all

lemma reconcile_frame [simp]:
  "playback (reconcileFooterSource s) = playback s"
  "spotifyLast (reconcileFooterSource s) = spotifyLast s"
  "qobuzLast (reconcileFooterSource s) = qobuzLast s"
  "visibleTab (reconcileFooterSource s) = visibleTab s"
  "nonAppSourceMode (reconcileFooterSource s) = nonAppSourceMode s"
  by (simp_all add: reconcile_eq)

lemma emit_frame [simp]:
  "footerSource (emit e s) = footerSource s" "playback (emit e s) = playback s"
  "spotifyLast (emit e s) = spotifyLast s" "qobuzLast (emit e s) = qobuzLast s"
  "visibleTab (emit e s) = visibleTab s" "timers (emit e s) = timers s"
  "positionPollTimer (emit e s) = positionPollTimer s"
  by (simp_all add: emit_def)

lemma bump_frames [simp]:
  "footerSource (bumpSpotifyPollGeneration s) = footerSource s"
  "footerSource (bumpQobuzPollGeneration s) = footerSource s"
  "playback (bumpSpotifyPollGeneration s) = playback s"
  "playback (bumpQobuzPollGeneration s) = playback s"
  "spotifyLast (bumpSpotifyPollGeneration s) = spotifyLast s"
  "spotifyLast (bumpQobuzPollGeneration s) = spotifyLast s"
  "qobuzLast (bumpSpotifyPollGeneration s) = qobuzLast s"
  "qobuzLast (bumpQobuzPollGeneration s) = qobuzLast s"
  "visibleTab (bumpSpotifyPollGeneration s) = visibleTab s"
  "visibleTab (bumpQobuzPollGeneration s) = visibleTab s"
  by (simp_all add: poll_nfs)

lemma position_frames [simp]:
  "footerSource (startPlaybackPositionPoll s) = footerSource s"
  "footerSource (stopPlaybackPositionPoll s) = footerSource s"
  "playback (startPlaybackPositionPoll s) = playback s"
  "playback (stopPlaybackPositionPoll s) = playback s"
  "spotifyLast (startPlaybackPositionPoll s) = spotifyLast s"
  "spotifyLast (stopPlaybackPositionPoll s) = spotifyLast s"
  "qobuzLast (startPlaybackPositionPoll s) = qobuzLast s"
  "qobuzLast (stopPlaybackPositionPoll s) = qobuzLast s"
  "visibleTab (startPlaybackPositionPoll s) = visibleTab s"
  "visibleTab (stopPlaybackPositionPoll s) = visibleTab s"
  by (simp_all add: poll_nfs)

lemma follow_frames [simp]:
  "footerSource (follow_spotify_poll s) = footerSource s"
  "footerSource (follow_qobuz_poll s) = footerSource s"
  "playback (follow_spotify_poll s) = playback s"
  "playback (follow_qobuz_poll s) = playback s"
  "spotifyLast (follow_spotify_poll s) = spotifyLast s"
  "spotifyLast (follow_qobuz_poll s) = spotifyLast s"
  "qobuzLast (follow_spotify_poll s) = qobuzLast s"
  "qobuzLast (follow_qobuz_poll s) = qobuzLast s"
  "visibleTab (follow_spotify_poll s) = visibleTab s"
  "visibleTab (follow_qobuz_poll s) = visibleTab s"
  "spotifyPoll (follow_qobuz_poll s) = spotifyPoll s"
  by (simp_all add: follow_spotify_poll_def follow_qobuz_poll_def)
     (simp_all add: poll_nfs)

lemma follow_armed:
  "pollTimer (spotifyPoll (follow_spotify_poll s)) \<noteq> None \<longleftrightarrow> shouldPollSpotify s"
  "pollTimer (qobuzPoll (follow_qobuz_poll s)) \<noteq> None \<longleftrightarrow> shouldPollQobuz s"
  using start_current [of s]
  by (auto simp: follow_spotify_poll_def follow_qobuz_poll_def poll_current_def stop_bump_frames)

text \<open>A remote volume touches the volume variables and the \<open>volume\<close> of the playback object only.\<close>

lemma upd_vol_frame [simp]:
  "footerSource (upd_vol f s) = footerSource s" "playback (upd_vol f s) = playback s"
  "spotifyLast (upd_vol f s) = spotifyLast s" "qobuzLast (upd_vol f s) = qobuzLast s"
  "visibleTab (upd_vol f s) = visibleTab s" "positionPollTimer (upd_vol f s) = positionPollTimer s"
  "spotifyPoll (upd_vol f s) = spotifyPoll s" "qobuzPoll (upd_vol f s) = qobuzPoll s"
  "timers (upd_vol f s) = timers s"
  by (simp_all add: upd_vol_def)

lemma pb_put_frame [simp]:
  "footerSource (pb_put k v s) = footerSource s" "pb (pb_put k v s) = jput k v (pb s)"
  "spotifyLast (pb_put k v s) = spotifyLast s" "qobuzLast (pb_put k v s) = qobuzLast s"
  "visibleTab (pb_put k v s) = visibleTab s" "positionPollTimer (pb_put k v s) = positionPollTimer s"
  "spotifyPoll (pb_put k v s) = spotifyPoll s" "qobuzPoll (pb_put k v s) = qobuzPoll s"
  "timers (pb_put k v s) = timers s" "fst (playback (pb_put k v s)) = fst (playback s)"
  by (simp_all add: pb_put_def)

lemma remote_volume_frame [simp]:
  "footerSource (applyRemoteVolume v s) = footerSource s"
  "spotifyLast (applyRemoteVolume v s) = spotifyLast s"
  "qobuzLast (applyRemoteVolume v s) = qobuzLast s"
  "visibleTab (applyRemoteVolume v s) = visibleTab s"
  "positionPollTimer (applyRemoteVolume v s) = positionPollTimer s"
  "spotifyPoll (applyRemoteVolume v s) = spotifyPoll s"
  "qobuzPoll (applyRemoteVolume v s) = qobuzPoll s"
  "fst (playback (applyRemoteVolume v s)) = fst (playback s)"
  by (simp_all add: applyRemoteVolume_def ensureVolumeBaseline_def Let_def)

lemma remote_volume_pb [simp]:
  "k \<noteq> ''volume'' \<Longrightarrow> jget (pb (applyRemoteVolume v s)) k = jget (pb s) k"
  by (simp add: applyRemoteVolume_def ensureVolumeBaseline_def Let_def)

lemma footer_owner_frame [simp]:
  "footerSource (updateFooterForStreamingOwner d s) = footerSource s"
  "spotifyLast (updateFooterForStreamingOwner d s) = spotifyLast s"
  "qobuzLast (updateFooterForStreamingOwner d s) = qobuzLast s"
  "visibleTab (updateFooterForStreamingOwner d s) = visibleTab s"
  "positionPollTimer (updateFooterForStreamingOwner d s) = positionPollTimer s"
  "spotifyPoll (updateFooterForStreamingOwner d s) = spotifyPoll s"
  "qobuzPoll (updateFooterForStreamingOwner d s) = qobuzPoll s"
  "k \<noteq> ''volume'' \<Longrightarrow> jget (pb (updateFooterForStreamingOwner d s)) k = jget (pb s) k"
  by (simp_all add: updateFooterForStreamingOwner_def Let_def emit_def split: jsval.splits)

lemma updateUI_frame [simp]:
  "footerSource (updatePlaybackUI s) = footer_decision s"
  "spotifyLast (updatePlaybackUI s) = spotifyLast s"
  "qobuzLast (updatePlaybackUI s) = qobuzLast s"
  "visibleTab (updatePlaybackUI s) = visibleTab s"
  "k \<noteq> ''volume'' \<Longrightarrow> jget (pb (updatePlaybackUI s)) k = jget (pb s) k"
  by (simp_all add: updatePlaybackUI_def Let_def reconcile_source lockActive_snd)

lemma footer_decision_backend:
  "\<not> nonAppSourceMode s \<Longrightarrow> getBackendFooterOwner (pb s) = Some owner \<Longrightarrow> footer_decision s = owner"
  by (simp add: footer_decision_def footer_rules_def)

lemma sync_backend:
  "getBackendFooterOwner v = Some owner \<Longrightarrow> footerSource (syncFooterOwnershipFromPlayback v s) = owner"
  by (cases owner) (simp_all add: syncFooterOwnershipFromPlayback_def)

subsection \<open>A sync leaves nothing to reconcile\<close>

definition clear_takeover :: "player \<Rightarrow> player" where
  "clear_takeover s = s\<lparr>spotifyTakeoverUntil := 0\<rparr>"

lemma sync_native_eq:
  assumes "getBackendFooterOwner (pb s) = None"
  shows "syncFooterOwnershipFromPlayback (pb s) s =
    (if provider_owns (spotify_data s) s then setFooterSource FSpotify (expire_lock s)
     else if provider_owns (qobuz_data s) s then setFooterSource FQobuz (expire_lock s)
     else if local_context (pb s) s then
       drop_spotify_poll (setFooterSource FLocal (downgrade_spotify (clear_takeover (expire_lock s))))
     else if ended_context (pb s) s then
       drop_spotify_poll (setFooterSource FLocal (clear_takeover (expire_lock s)))
     else drop_spotify_poll (reconcileFooterSource (expire_lock s)))"
  using assms by (simp add: syncFooterOwnershipFromPlayback_def footer_simps clear_takeover_def)

lemma clear_takeover_frame [simp]:
  "playback (clear_takeover s) = playback s" "spotifyLast (clear_takeover s) = spotifyLast s"
  "qobuzLast (clear_takeover s) = qobuzLast s" "clock (clear_takeover s) = clock s"
  "nonAppSourceMode (clear_takeover s) = nonAppSourceMode s"
  "pendingFooterStart (clear_takeover s) = pendingFooterStart s"
  "spotifyTakeoverUntil (clear_takeover s) = 0"
  by (simp_all add: clear_takeover_def)

lemma downgrade_frame [simp]:
  "playback (downgrade_spotify s) = playback s" "qobuzLast (downgrade_spotify s) = qobuzLast s"
  "clock (downgrade_spotify s) = clock s"
  "nonAppSourceMode (downgrade_spotify s) = nonAppSourceMode s"
  "pendingFooterStart (downgrade_spotify s) = pendingFooterStart s"
  "spotifyTakeoverUntil (downgrade_spotify s) = spotifyTakeoverUntil s"
  by (simp_all add: downgrade_spotify_def spotify_assign_def)

lemma downgraded_not_playing: "\<not> provider_status ''Playing'' (spotify_data (downgrade_spotify s))"
  by (auto simp: downgrade_spotify_def spotify_assign_def provider_status_def)

lemma provider_owns_same:
  "playback s = playback t \<Longrightarrow> clock s = clock t \<Longrightarrow> pendingFooterStart s = pendingFooterStart t
   \<Longrightarrow> provider_owns d s = provider_owns d t"
  by (simp add: provider_owns_def lock_holds_def cong: option.case_cong)

lemma sync_then_reconcile:
  assumes "\<not> nonAppSourceMode s" "getBackendFooterOwner (pb s) = None"
  shows "footer_decision (syncFooterOwnershipFromPlayback (pb s) s)
       = footerSource (syncFooterOwnershipFromPlayback (pb s) s)"
proof -
  let ?e = "expire_lock s"
  have dec: "footer_decision t = first_match (streaming_rules t) FLocal"
    if "nonAppSourceMode t = nonAppSourceMode s" "playback t = playback s" for t
    using that assms by (simp add: footer_decision_def footer_rules_def)
  have own: "provider_owns d (downgrade_spotify (clear_takeover ?e)) = provider_owns d s"
    "provider_owns d (clear_takeover ?e) = provider_owns d s" for d
    using provider_owns_same [of "downgrade_spotify (clear_takeover ?e)" ?e d]
      provider_owns_same [of "clear_takeover ?e" ?e d] by simp_all
  have downgraded: "\<not> provider_owns (spotify_data (downgrade_spotify t)) u" for t u
    using downgraded_not_playing by (simp add: provider_owns_def)
  consider "provider_owns (spotify_data s) s" | "\<not> provider_owns (spotify_data s) s" "provider_owns (qobuz_data s) s"
    | (loc) "\<not> provider_owns (spotify_data s) s" "\<not> provider_owns (qobuz_data s) s" "local_context (pb s) s"
    | (ended) "\<not> provider_owns (spotify_data s) s" "\<not> provider_owns (qobuz_data s) s"
       "\<not> local_context (pb s) s" "ended_context (pb s) s"
    | (rest) "\<not> provider_owns (spotify_data s) s" "\<not> provider_owns (qobuz_data s) s"
       "\<not> local_context (pb s) s" "\<not> ended_context (pb s) s"
    by blast
  then show ?thesis
  proof cases
    case loc
    then have "footer_decision (setFooterSource FLocal (downgrade_spotify (clear_takeover ?e))) = FLocal"
      by (subst dec) (auto simp: streaming_rules_def own downgraded local_context_set local_context_def)
    with loc show ?thesis
      by (simp add: sync_native_eq [OF assms(2)])
  next
    case ended
    then have "footer_decision (setFooterSource FLocal (clear_takeover ?e)) = FLocal"
      by (subst dec) (auto simp: streaming_rules_def own ended_context_def)
    with ended show ?thesis
      by (simp add: sync_native_eq [OF assms(2)])
  next
    case rest
    have "decision_state ?e = ?e"
      by (simp add: decision_state_def)
    with rest show ?thesis
      by (simp add: sync_native_eq [OF assms(2)] reconcile_eq footer_decision_set)
  qed (simp_all add: sync_native_eq [OF assms(2)] dec streaming_rules_def)
qed

subsection \<open>Claims\<close>

text \<open>Reconciling the footer is deciding by a priority list: a line-source mode, then the
  owner published by the backend, then a playing Spotify or Qobuz session (unless a local start
  or live native playback blocks it), the Spotify takeover window, live native playback, the
  local hold window, an ended native track, a paused Spotify session, and the native footer
  otherwise. Apart from the decision it only drops an expired start lock and, when Spotify wins,
  the native position poll.\<close>

theorem reconcile_is_first_match:
  "reconcileFooterSource s =
     setFooterSource (first_match (footer_rules s) FLocal) (decision_state s)"
  by (simp add: reconcile_eq footer_decision_def)

text \<open>Reconciling twice changes nothing more: the decision is stable under its own effect,
  so repeated refreshes cannot make the footer flicker between two sources.\<close>

theorem reconcile_stable:
  "reconcileFooterSource (reconcileFooterSource s) = reconcileFooterSource s"
  by (rule reconcile_idem)

text \<open>The backend is authoritative: outside the line-source modes, whenever the playback
  object names an owner, the footer after a reconcile, after a sync and after a refresh of the
  user interface shows that owner, and the transport buttons control it, whatever the provider
  caches, windows and locks say.\<close>

theorem backend_owner_wins:
  assumes "\<not> nonAppSourceMode s" "getBackendFooterOwner (pb s) = Some owner"
  shows "footerSource (reconcileFooterSource s) = owner
    \<and> footerSource (syncFooterOwnershipFromPlayback (pb s) s) = owner
    \<and> footerSource (updatePlaybackUI s) = owner
    \<and> fst (getEffectivePlaybackControlSource s) = owner"
  using assms by (simp add: reconcile_source footer_decision_backend sync_backend
      getEffectivePlaybackControlSource_def)

lemma backend_owner_wins_witness:
  "footerSource (updatePlaybackUI (ex_state (jput ''playback_owner'' (JStr ''qobuz'')
     (ex_playing ex_local_track)) (ex_spotify ''Playing''))) = FQobuz"
  using backend_owner_wins [of "ex_state (jput ''playback_owner'' (JStr ''qobuz'')
     (ex_playing ex_local_track)) (ex_spotify ''Playing'')" FQobuz]
  by (simp add: ex_defs getBackendFooterOwner_def js_or_def)

text \<open>Syncing the footer from the merged playback state leaves nothing for the next
  reconcile to change (outside the line-source modes): the two decision procedures of the module,
  which order their rules differently, agree after the windows a sync closes.\<close>

theorem sync_agrees_with_reconcile:
  assumes "\<not> nonAppSourceMode s"
  shows "footerSource (reconcileFooterSource (syncFooterOwnershipFromPlayback (pb s) s))
       = footerSource (syncFooterOwnershipFromPlayback (pb s) s)"
proof (cases "getBackendFooterOwner (pb s)")
  case None
  then show ?thesis
    using sync_then_reconcile [OF assms] by (simp add: reconcile_source)
next
  case (Some owner)
  then have "footer_decision (syncFooterOwnershipFromPlayback (pb s) s) = owner"
    using assms by (cases owner)
      (simp_all add: syncFooterOwnershipFromPlayback_def footer_decision_backend)
  with Some show ?thesis
    by (simp add: reconcile_source sync_backend)
qed

lemma sync_agrees_with_reconcile_witness:
  "footerSource (reconcileFooterSource (syncFooterOwnershipFromPlayback (ex_playing ex_radio_track)
     (ex_state (ex_playing ex_radio_track) (ex_spotify ''Playing'')))) = FLocal"
proof -
  let ?s = "ex_state (ex_playing ex_radio_track) (ex_spotify ''Playing'')"
  have "footerSource (syncFooterOwnershipFromPlayback (pb ?s) ?s) = FLocal"
    by (subst sync_native_eq)
       (simp_all add: ex_defs predicate_defs js_simps)
  then show ?thesis
    using sync_agrees_with_reconcile [of ?s] by (simp add: ex_defs)
qed

text \<open>Live native playback keeps the footer: while a local, radio or TIDAL track plays and
  no backend owner is known, a provider cache that still reports a playing session cannot take
  the footer, unless the user armed the Spotify takeover window.\<close>

theorem live_native_playback_keeps_footer:
  assumes "native_track (pb s)" "truthy (jget (pb s) ''playing'')" "\<not> truthy (jget (pb s) ''ended'')"
    "\<not> truthy (jget (pb s) ''paused'')" "getBackendFooterOwner (pb s) = None"
    "spotifyTakeoverUntil s \<le> clock s"
  shows "footerSource (reconcileFooterSource s) = FLocal"
proof -
  have "activeLocalPlaybackBlocksSpotifyOwnership (pb s)"
    using assms by (auto simp: activeLocalPlaybackBlocksSpotifyOwnership_def native_track_def
        track_from_def)
  then show ?thesis
    using assms by (simp add: reconcile_source footer_decision_def footer_rules_def
        streaming_rules_def provider_owns_def local_context_def)
qed

lemma live_native_playback_keeps_footer_witness:
  "footerSource (reconcileFooterSource
     (ex_state (ex_playing ex_local_track) (ex_spotify ''Playing''))) = FLocal"
  by (rule live_native_playback_keeps_footer) (simp_all add: ex_defs predicate_defs js_simps)

text \<open>C24: After every refresh of the user interface exactly the polls the ownership asks for are
  running: a Spotify interval iff Spotify is installed and visible or owning the footer, a Qobuz
  interval iff Qobuz should be polled, the native position interval iff native playback runs on
  a native footer, and never two intervals of one kind.\<close>

theorem refresh_runs_exactly_the_wanted_polls:
  assumes "polls_inv s"
  defines "t \<equiv> updatePlaybackUI s"
  shows "polls_inv t
    \<and> ((\<exists>h g. (h, TSpotifyPoll g) \<in> set (timers t)) \<longleftrightarrow> shouldPollSpotify t)
    \<and> ((\<exists>h g. (h, TQobuzPoll g) \<in> set (timers t)) \<longleftrightarrow> shouldPollQobuz t)
    \<and> ((\<exists>h. (h, TPosition) \<in> set (timers t)) \<longleftrightarrow>
         footerSource t = FLocal \<and> truthy (jget (pb t) ''playing''))"
proof -
  define s2 where "s2 = follow_spotify_poll (reconcileFooterSource s)"
  define s3 where "s3 = follow_qobuz_poll s2"
  define painted where "painted = expire_lock (emit Paint s3)"
  have t: "t = (if isStreamingFooterSource (footerSource s3)
      then (if \<not> footerContentFreezeActive s \<and> truthy (streamingFooterData (stopPlaybackPositionPoll s3))
            then updateFooterForStreamingOwner (streamingFooterData (stopPlaybackPositionPoll s3))
                   (stopPlaybackPositionPoll s3) else stopPlaybackPositionPoll s3)
      else if truthy (jget (pb s) ''playing'')
      then startPlaybackPositionPoll painted else stopPlaybackPositionPoll painted)"
    by (simp add: t_def updatePlaybackUI_def Let_def s2_def s3_def painted_def lockActive_snd)
  have invt: "polls_inv t"
    using assms by (simp add: polls_inv_updatePlaybackUI)
  have "spotifyPoll t = spotifyPoll s2" "qobuzPoll t = qobuzPoll s3"
    by (simp_all add: t s3_def painted_def emit_def poll_nfs)
  moreover have "pollTimer (spotifyPoll s2) \<noteq> None \<longleftrightarrow> shouldPollSpotify t"
    "pollTimer (qobuzPoll s3) \<noteq> None \<longleftrightarrow> shouldPollQobuz t"
    unfolding s2_def s3_def follow_armed
    by (simp_all add: shouldPollSpotify_def shouldPollQobuz_def getBackendFooterOwner_def t_def
        reconcile_source)
  moreover have "positionPollTimer t \<noteq> None \<longleftrightarrow> footerSource t = FLocal \<and> truthy (jget (pb t) ''playing'')"
    by (cases "footerSource s3")
       (simp_all add: t startPosition_nf stopPosition_nf isStreamingFooterSource_def s2_def s3_def painted_def)
  ultimately show ?thesis
    using invt spotify_poller.running_iff [OF invt] qobuz_poller.running_iff [OF invt]
      position_running_iff [OF invt] by simp
qed

lemma refresh_runs_exactly_the_wanted_polls_witness:
  "\<exists>h. (h, TPosition) \<in> set (timers (updatePlaybackUI (pb_assign (ex_playing ex_local_track) init_player)))"
proof -
  let ?s = "pb_assign (ex_playing ex_local_track) init_player"
  have "polls_inv ?s"
    using init_polls_inv polls_inv_view [of ?s init_player]
    by (simp add: timer_view_def slots_def loose_handles_def pb_assign_def)
  moreover have "footer_decision ?s = FLocal"
    by (simp add: footer_decision_def footer_rules_def streaming_rules_def predicate_defs ex_defs
        pb_assign_def js_simps)
  ultimately show ?thesis
    using refresh_runs_exactly_the_wanted_polls [of ?s]
    by (simp add: pb_assign_def ex_playing_def js_simps)
qed

end
