(* ===== verification/Player_Frame.thy ===== *)
theory Player_Frame
  imports Footer_Claims
begin

section \<open>Quiet operations\<close>

text \<open>
  Most operations of the frontend repaint, change the footer, restart polls or replace provider
  caches. \<open>quiet s t\<close> says that going from \<open>s\<close> to \<open>t\<close> did nothing else: at most reads in the background were sent, the
  transport lock, the request ids and the sending half of the volume protocol are untouched, generations and object references only grow, and the timer invariant is kept.
  The relation is reflexive and transitive; one introduction rule per operation lets the later
  theories discharge the frame of a whole handler by automation.
\<close>

definition vtimers :: "player \<Rightarrow> (nat \<times> timer) list" where
  "vtimers s = filter (\<lambda>(h, k). k = TVolume) (timers s)"

definition send_view :: "volume_ctl \<Rightarrow> nat option \<times> bool \<times> jsnum option" where
  "send_view v = (volumeTimer v, volumeRequestInFlight v, pendingVolume v)"

definition refs_ok :: "player \<Rightarrow> bool" where
  "refs_ok s = (fst (playback s) < nextRef s \<and> fst (spotifyLast s) < nextRef s
                \<and> fst (qobuzLast s) < nextRef s)"

text \<open>A read in the background: nothing in the frontend waits for it.\<close>

fun background :: "request \<Rightarrow> bool" where
  "background (RVolume v) = False"
| "background (RToggle n a b c d) = False"
| "background RPrevious = False"
| "background RNext = False"
| "background RClearQueue = False"
| "background (RPlayRadio n d) = False"
| "background (RPlayLocal n d) = False"
| "background (RPlayRefs n) = False"
| "background (RSpotifyCommand n b) = False"
| "background (RSpotifyRecover n b) = False"
| "background r = True"

definition more_reads :: "request list \<Rightarrow> request list \<Rightarrow> bool" where
  "more_reads rs rs' = (\<exists>us. rs' = rs @ us \<and> (\<forall>r \<in> set us. background r))"

lemma more_reads_refl [simp]: "more_reads rs rs"
  by (simp add: more_reads_def)

lemma more_reads_trans: "more_reads rs us \<Longrightarrow> more_reads us vs \<Longrightarrow> more_reads rs vs"
  by (fastforce simp: more_reads_def)

lemma more_reads_snoc [simp]: "more_reads rs (rs @ [r]) = background r"
  by (simp add: more_reads_def)

definition quiet :: "player \<Rightarrow> player \<Rightarrow> bool" where
  "quiet s t =
     ((polls_inv s \<longrightarrow> polls_inv t \<and> vtimers t = vtimers s)
      \<and> (refs_ok s \<longrightarrow> refs_ok t \<and> fst (playback s) \<le> fst (playback t))
      \<and> more_reads (inflight s) (inflight t)
      \<and> send_view (volctl t) = send_view (volctl s)
      \<and> playbackActionInFlight t = playbackActionInFlight s
      \<and> pendingPlaybackRequestId t = pendingPlaybackRequestId s
      \<and> pauseActionRequestId t = pauseActionRequestId s
      \<and> spotifyCommandInFlight t = spotifyCommandInFlight s
      \<and> wsReconnectSyncGeneration t = wsReconnectSyncGeneration s
      \<and> clock t = clock s \<and> pageHidden t = pageHidden s
      \<and> pollGeneration (spotifyPoll s) \<le> pollGeneration (spotifyPoll t)
      \<and> pollGeneration (qobuzPoll s) \<le> pollGeneration (qobuzPoll t)
      \<and> nextRef s \<le> nextRef t)"

lemma quiet_refl [simp]: "quiet s s"
  by (simp add: quiet_def)

lemma quiet_trans: "quiet s t \<Longrightarrow> quiet t u \<Longrightarrow> quiet s u"
  unfolding quiet_def by (auto intro: more_reads_trans)

named_theorems quiet_intros \<open>every operation that keeps the frame\<close>

text \<open>Updates of fields outside the frame.\<close>

lemma quiet_fields [quiet_intros]:
  assumes "quiet s t"
  shows "quiet s (t\<lparr>libraryTracks := a\<rparr>)" "quiet s (t\<lparr>libraryLoop := b\<rparr>)"
    "quiet s (t\<lparr>libraryShuffle := b\<rparr>)" "quiet s (t\<lparr>stations := a\<rparr>)"
    "quiet s (t\<lparr>footerSource := f\<rparr>)" "quiet s (t\<lparr>visibleTab := v\<rparr>)"
    "quiet s (t\<lparr>streamingSeeking := b\<rparr>)" "quiet s (t\<lparr>pendingFooterStart := p\<rparr>)"
    "quiet s (t\<lparr>pendingOptimistic := q\<rparr>)" "quiet s (t\<lparr>lastRadioTrack := j\<rparr>)"
    "quiet s (t\<lparr>libraryModeSyncArmed := b\<rparr>)" "quiet s (t\<lparr>lastLibraryContext := c\<rparr>)"
    "quiet s (t\<lparr>footerFreezeUntil := n\<rparr>)" "quiet s (t\<lparr>spotifyTakeoverUntil := n\<rparr>)"
    "quiet s (t\<lparr>localFooterHoldUntil := n\<rparr>)" "quiet s (t\<lparr>spotifyInstalledKnown := k\<rparr>)"
    "quiet s (t\<lparr>spotifyLastRenderedTrackKey := v\<rparr>)" "quiet s (t\<lparr>lastNativeTrackKey := m\<rparr>)"
    "quiet s (t\<lparr>lastPlayingQueueKeys := ks\<rparr>)" "quiet s (t\<lparr>lastSamplerateSignature := j\<rparr>)"
    "quiet s (t\<lparr>samplerateStatus := j\<rparr>)" "quiet s (t\<lparr>nonAppSourceMode := b\<rparr>)"
    "quiet s (t\<lparr>effects := es\<rparr>)"
  by (rule quiet_trans [OF assms];
      simp add: quiet_def refs_ok_def vtimers_def polls_inv_def timers_inv_def slots_def loose_handles_def)+

lemma quiet_send [quiet_intros]: "quiet s t \<Longrightarrow> background r \<Longrightarrow> quiet s (send r e t)"
  by (erule quiet_trans)
     (simp add: quiet_def refs_ok_def vtimers_def polls_inv_def timers_inv_def slots_def loose_handles_def send_def)

lemma quiet_emit [quiet_intros]: "quiet s t \<Longrightarrow> quiet s (emit e t)"
  by (simp add: emit_def quiet_fields)

lemma quiet_assigns [quiet_intros]:
  assumes "quiet s t"
  shows "quiet s (pb_put k v t)" "quiet s (pb_assign v t)" "quiet s (spotify_assign v t)"
    "quiet s (qobuz_assign v t)"
  by (rule quiet_trans [OF assms];
      simp add: quiet_def refs_ok_def vtimers_def polls_inv_def timers_inv_def slots_def loose_handles_def
        pb_put_def pb_assign_def spotify_assign_def qobuz_assign_def)+

lemma quiet_upd_vol:
  assumes "quiet s t" "\<And>v. send_view (f v) = send_view v"
  shows "quiet s (upd_vol f t)"
proof (rule quiet_trans [OF assms(1)])
  have "volumeTimer (f (volctl t)) = volumeTimer (volctl t)"
    using assms(2) by (simp add: send_view_def)
  then have "polls_inv (upd_vol f t) = polls_inv t"
    by (intro polls_inv_view) (simp add: upd_vol_def timer_view_def slots_def loose_handles_def)
  then show "quiet t (upd_vol f t)"
    by (simp add: quiet_def refs_ok_def vtimers_def upd_vol_def assms(2))
qed

lemma quiet_baseline [quiet_intros]: "quiet s t \<Longrightarrow> quiet s (ensureVolumeBaseline t)"
  by (simp add: ensureVolumeBaseline_def quiet_upd_vol send_view_def)

lemma quiet_remote_volume [quiet_intros]: "quiet s t \<Longrightarrow> quiet s (applyRemoteVolume v t)"
  by (simp add: applyRemoteVolume_def Let_def quiet_upd_vol quiet_intros send_view_def)

subsection \<open>Timers of other kinds\<close>

lemma slot_drop_vtimers:
  assumes "polls_inv t" "(v, owns) \<in> set (slots t)" "\<not> owns TVolume"
  shows "filter (\<lambda>(h, k). k = TVolume) (drop_handle v (timers t)) = vtimers t"
proof -
  have "k \<noteq> TVolume" if "(h, k) \<in> set (timers t)" "v = Some h" for h k
    using polls_inv_slotD [OF assms(1,2) that(1)] that(2) assms(3) by auto
  then have "filter (\<lambda>(h, k). k = TVolume \<and> Some h \<noteq> v) (timers t) = vtimers t"
    unfolding vtimers_def by (intro filter_cong) auto
  then show ?thesis
    by (simp add: drop_handle_def case_prod_unfold conj_commute)
qed

lemma spotify_slot: "(pollTimer (spotifyPoll t), is_spotify_poll) \<in> set (slots t)"
  and qobuz_slot: "(pollTimer (qobuzPoll t), is_qobuz_poll) \<in> set (slots t)"
  and position_slot: "(positionPollTimer t, (=) TPosition) \<in> set (slots t)"
  and freeze_slot: "(footerFreezeTimer t, (=) TFreeze) \<in> set (slots t)"
  and volume_slot: "(volumeTimer (volctl t), (=) TVolume) \<in> set (slots t)"
  and metadata_slot: "(metadataPollTimer t, (=) TMetadata) \<in> set (slots t)"
  and peak_slot: "(peakStatusPollTimer t, (=) TPeak) \<in> set (slots t)"
  and samplerate_slot: "(sampleratePollTimer t, (=) TSamplerate) \<in> set (slots t)"
  by (simp_all add: slots_def)

lemmas slot_members = spotify_slot qobuz_slot position_slot freeze_slot volume_slot
  metadata_slot peak_slot samplerate_slot

lemmas drop_vtimers = slot_drop_vtimers [OF _ spotify_slot] slot_drop_vtimers [OF _ qobuz_slot]
  slot_drop_vtimers [OF _ position_slot] slot_drop_vtimers [OF _ freeze_slot]
  slot_drop_vtimers [OF _ metadata_slot] slot_drop_vtimers [OF _ peak_slot]
  slot_drop_vtimers [OF _ samplerate_slot]

lemma poll_vtimers:
  assumes "polls_inv t"
  shows "vtimers (stopSpotifyPoll t) = vtimers t" "vtimers (stopQobuzPoll t) = vtimers t"
    "vtimers (stopPlaybackPositionPoll t) = vtimers t" "vtimers (startSpotifyPoll t) = vtimers t"
    "vtimers (startQobuzPoll t) = vtimers t" "vtimers (startPlaybackPositionPoll t) = vtimers t"
    "vtimers (setFooterSource f t) = vtimers t"
  using drop_vtimers(1-3) [OF assms] by (simp_all add: vtimers_def poll_nfs)

lemma poll_generations:
  "pollGeneration (spotifyPoll t) \<le> pollGeneration (spotifyPoll (startSpotifyPoll t))"
  "pollGeneration (qobuzPoll t) \<le> pollGeneration (qobuzPoll (startQobuzPoll t))"
  by (simp_all add: startSpotify_nf startQobuz_nf running_def)

lemma quiet_stops:
  "quiet t (stopSpotifyPoll t)" "quiet t (stopQobuzPoll t)" "quiet t (stopPlaybackPositionPoll t)"
  by (simp_all add: quiet_def polls_inv_ops poll_vtimers)
     (simp_all add: stopSpotify_nf stopQobuz_nf stopPosition_nf stopped_def refs_ok_def)

lemma quiet_start_spotify: "quiet t (startSpotifyPoll t)"
  by (simp add: quiet_def polls_inv_ops poll_vtimers poll_generations)
     (simp add: startSpotify_nf refs_ok_def)

lemma quiet_start_qobuz: "quiet t (startQobuzPoll t)"
  by (simp add: quiet_def polls_inv_ops poll_vtimers poll_generations)
     (simp add: startQobuz_nf refs_ok_def)

lemma quiet_start_position: "quiet t (startPlaybackPositionPoll t)"
  by (simp add: quiet_def polls_inv_ops poll_vtimers)
     (simp add: startPosition_nf refs_ok_def)

lemma quiet_bumps: "quiet t (bumpSpotifyPollGeneration t)" "quiet t (bumpQobuzPollGeneration t)"
  by (simp_all add: quiet_def polls_inv_ops)
     (simp_all add: bumpSpotifyPollGeneration_def bumpQobuzPollGeneration_def vtimers_def refs_ok_def)

lemma quiet_set_source: "quiet t (setFooterSource f t)"
  by (simp add: quiet_def polls_inv_ops poll_vtimers)
     (simp add: setFooterSource_nf refs_ok_def)

lemmas quiet_poll_ops = quiet_stops quiet_start_spotify quiet_start_qobuz quiet_start_position
  quiet_bumps quiet_set_source

lemma quiet_polls [quiet_intros]:
  "quiet s t \<Longrightarrow> quiet s (stopSpotifyPoll t)" "quiet s t \<Longrightarrow> quiet s (stopQobuzPoll t)"
  "quiet s t \<Longrightarrow> quiet s (stopPlaybackPositionPoll t)" "quiet s t \<Longrightarrow> quiet s (startSpotifyPoll t)"
  "quiet s t \<Longrightarrow> quiet s (startQobuzPoll t)" "quiet s t \<Longrightarrow> quiet s (startPlaybackPositionPoll t)"
  "quiet s t \<Longrightarrow> quiet s (bumpSpotifyPollGeneration t)"
  "quiet s t \<Longrightarrow> quiet s (bumpQobuzPollGeneration t)" "quiet s t \<Longrightarrow> quiet s (setFooterSource f t)"
  by (auto intro: quiet_trans quiet_poll_ops)

lemma quiet_expire [quiet_intros]: "quiet s t \<Longrightarrow> quiet s (expire_lock t)"
  by (simp add: expire_lock_def quiet_fields)

lemma quiet_reconcile [quiet_intros]: "quiet s t \<Longrightarrow> quiet s (reconcileFooterSource t)"
  by (simp add: reconcile_eq decision_state_def quiet_intros)

lemma quiet_lock [quiet_intros]:
  "quiet s t \<Longrightarrow> quiet s (snd (footerSingleTrackStartLockActive v t))"
  by (simp add: lockActive_snd quiet_expire)

lemma quiet_follow [quiet_intros]:
  "quiet s t \<Longrightarrow> quiet s (follow_spotify_poll t)" "quiet s t \<Longrightarrow> quiet s (follow_qobuz_poll t)"
  "quiet s t \<Longrightarrow> quiet s (drop_spotify_poll t)"
  by (simp_all add: follow_spotify_poll_def follow_qobuz_poll_def drop_spotify_poll_def quiet_intros)

lemma quiet_footer_owner [quiet_intros]:
  "quiet s t \<Longrightarrow> quiet s (updateFooterForStreamingOwner d t)"
  by (simp add: updateFooterForStreamingOwner_def Let_def quiet_intros split: jsval.splits)

lemma quiet_updateUI [quiet_intros]: "quiet s t \<Longrightarrow> quiet s (updatePlaybackUI t)"
  by (simp add: updatePlaybackUI_def Let_def quiet_intros)

lemma quiet_clears [quiet_intros]:
  "quiet s t \<Longrightarrow> quiet s (clearPendingFooterSingleTrackStart r t)"
  "quiet s t \<Longrightarrow> quiet s (clearPendingOptimisticTrack r t)"
  by (simp_all add: clearPendingFooterSingleTrackStart_def clearPendingOptimisticTrack_def
      quiet_intros split: option.splits)

lemma quiet_downgrade [quiet_intros]: "quiet s t \<Longrightarrow> quiet s (downgrade_spotify t)"
  by (simp add: downgrade_spotify_def quiet_intros)

lemma quiet_owns:
  "quiet s t \<Longrightarrow> quiet s (snd (localPlaybackHasFooterContext v t))"
  "quiet s t \<Longrightarrow> quiet s (snd (localEndedPlaybackHasFooterContext v t))"
  by (simp_all add: footer_simps quiet_intros)

lemma quiet_sync [quiet_intros]:
  assumes "quiet s t"
  shows "quiet s (syncFooterOwnershipFromPlayback v t)"
proof (cases "getBackendFooterOwner v")
  case None
  then show ?thesis
    using assms by (simp add: syncFooterOwnershipFromPlayback_def footer_simps quiet_intros)
next
  case (Some owner)
  then show ?thesis
    using assms by (cases owner) (simp_all add: syncFooterOwnershipFromPlayback_def quiet_intros)
qed

lemma quiet_windows [quiet_intros]:
  "quiet s t \<Longrightarrow> quiet s (armSpotifyTakeover ms t)"
  "quiet s t \<Longrightarrow> quiet s (armLocalFooterHold ms t)"
  by (simp_all add: armSpotifyTakeover_def armLocalFooterHold_def quiet_intros)

lemma quiet_control_source [quiet_intros]:
  "quiet s t \<Longrightarrow> quiet s (snd (getEffectivePlaybackControlSource t))"
  by (simp add: getEffectivePlaybackControlSource_def footer_simps quiet_intros split: option.splits)

end
