(* ===== verification/Cues.thy ===== *)
theory Cues
  imports Player_Frame
begin

section \<open>Now-playing cues\<close>

text \<open>
  The decisions of static/playback_ui.js whether an observed track is a new start that the user
  is told about: one session key for the native player and one per streaming provider. Every
  response, poll and push goes through these functions, so they decide how often a start is
  announced.
\<close>

definition js_join :: "string \<Rightarrow> jsval list \<Rightarrow> string" where
  "js_join sep vs = join_with sep (List.map (\<lambda>v. if nullish v then [] else to_str v) vs)"

definition truthy_or_empty :: "jsval \<Rightarrow> jsval" where
  "truthy_or_empty v = js_or v (JStr [])"

definition showNowPlayingCue :: "jsval \<Rightarrow> string \<Rightarrow> player \<Rightarrow> player" where
  "showNowPlayingCue track message s = (if truthy track then emit (Cue track message) s else s)"

subsection \<open>Streaming providers\<close>

definition streamingCueTrack :: "jsval \<Rightarrow> string \<Rightarrow> jsval" where
  "streamingCueTrack data source =
     (if \<not> truthy_object data then JNull
      else
        (let artworkUrl = truthy_or_empty (js_or (jget data ''artwork_url'') (jget data ''artUrl''))
         in JObj [(''title'', truthy_or_empty (jget data ''title'')),
              (''artist'', truthy_or_empty (jget data ''artist'')),
              (''album'', truthy_or_empty (jget data ''album'')),
              (''source'', JStr source),
              (''artwork_available'', JBool (truthy artworkUrl)),
              (''artwork_url'', artworkUrl),
              (''artwork_source'', JStr (if truthy artworkUrl then source else ''none''))]))"

definition streamingCueTrackId :: "jsval \<Rightarrow> string" where
  "streamingCueTrackId data =
     (if \<not> truthy_object data then []
      else str_or_empty (js_or (js_or (jget data ''trackId'') (jget data ''trackid''))
                               (jget data ''id'')))"

definition streamingCueKey :: "jsval \<Rightarrow> string" where
  "streamingCueKey data =
     (if \<not> truthy_object data then []
      else js_join ''|'' [JStr (streamingCueTrackId data), truthy_or_empty (jget data ''title''),
             truthy_or_empty (jget data ''artist''), truthy_or_empty (jget data ''album'')])"

definition queue_started_message :: "jsnum \<Rightarrow> string" where
  "queue_started_message queueCount =
     (if Fin 1 < queueCount
      then ''Queue started '' @ mid_dot @ '' '' @ num_str queueCount @ '' tracks''
      else ''Now playing'')"

definition showStreamingQueueStarted :: "string \<Rightarrow> jsval \<Rightarrow> player \<Rightarrow> player" where
  "showStreamingQueueStarted source data s =
     (let track = streamingCueTrack data source in
      if \<not> truthy track
         \<or> (\<not> truthy (jget track ''title'') \<and> \<not> truthy (jget track ''artist'')
            \<and> \<not> truthy (jget track ''album'')) then s
      else showNowPlayingCue track
             (queue_started_message (to_num (js_or (jget data ''queue_len'') (JNum 0)))) s)"

definition lastPlayingQueueKey :: "string \<Rightarrow> player \<Rightarrow> string" where
  "lastPlayingQueueKey source s =
     (case map_of (lastPlayingQueueKeys s) source of None \<Rightarrow> [] | Some k \<Rightarrow> k)"

definition provider_cue_key :: "string \<Rightarrow> jsval \<Rightarrow> string" where
  "provider_cue_key source data = source @ ''|'' @ streamingCueKey data"

definition recordPlayingQueueKey :: "string \<Rightarrow> jsval \<Rightarrow> player \<Rightarrow> player" where
  "recordPlayingQueueKey source data s =
     (if \<not> truthy_object data then s
      else s\<lparr>lastPlayingQueueKeys :=
             AList.update source (provider_cue_key source data) (lastPlayingQueueKeys s)\<rparr>)"

definition maybeShowStreamingQueueCue :: "string \<Rightarrow> jsval \<Rightarrow> jsval \<Rightarrow> player \<Rightarrow> bool \<times> player" where
  "maybeShowStreamingQueueCue source prev data s =
     (if \<not> truthy_object data then (False, s)
      else
        (let previous = (if truthy_object prev \<and> truthy (jget prev ''status'') then prev else JNull)
         in if lastPlayingQueueKey source s = [] \<or> \<not> truthy previous
            then (False, recordPlayingQueueKey source data s)
            else if jget data ''status'' \<noteq> JStr ''Playing'' then (False, s)
            else if provider_cue_key source data = lastPlayingQueueKey source s
                    \<and> jget previous ''status'' \<noteq> JStr ''Stopped'' then (False, s)
            else (True, recordPlayingQueueKey source data (showStreamingQueueStarted source data s))))"

subsection \<open>The native player\<close>

definition nativeTrackCueKey :: "jsval \<Rightarrow> string" where
  "nativeTrackCueKey track =
     (if \<not> truthy_object track then []
      else
        (let source = truthy_or_empty (jget track ''source'');
             tid = truthy_or_empty (js_or (jget track ''id'') (jget track ''url''))
         in if truthy tid then to_str source @ ''|'' @ to_str tid
            else js_join ''|'' [source, truthy_or_empty (jget track ''title''),
                   truthy_or_empty (jget track ''artist'')]))"

definition restart_after_stop :: "jsval \<Rightarrow> bool" where
  "restart_after_stop previousPlayback =
     (truthy previousPlayback
      \<and> (jget previousPlayback ''ended'' = JBool True \<or> jget previousPlayback ''stopped'' = JBool True))"

definition maybeShowNativeTrackCue :: "jsval \<Rightarrow> string \<Rightarrow> jsval \<Rightarrow> player \<Rightarrow> bool \<times> player" where
  "maybeShowNativeTrackCue track message previousPlayback s =
     (let key = nativeTrackCueKey track in
      if key = [] then (False, s)
      else if Some key = lastNativeTrackKey s \<and> \<not> restart_after_stop previousPlayback then (False, s)
      else (True, showNowPlayingCue track message (s\<lparr>lastNativeTrackKey := Some key\<rparr>)))"

definition seedNativeTrackCueKey :: "jsval \<Rightarrow> player \<Rightarrow> player" where
  "seedNativeTrackCueKey track s = s\<lparr>lastNativeTrackKey := Some (nativeTrackCueKey track)\<rparr>"

definition maybeCueNativePlaybackTrack :: "jsval \<Rightarrow> jsval \<Rightarrow> player \<Rightarrow> bool \<times> player" where
  "maybeCueNativePlaybackTrack data previousPlayback s =
     (let track = jget data ''current_track'' in
      if \<not> truthy_object track then (False, s)
      else if jget track ''source'' \<notin> {JStr ''local'', JStr ''radio'', JStr ''tidal''} then (False, s)
      else if \<not> truthy (jget data ''playing'') \<or> truthy (jget data ''ended'') then (False, s)
      else maybeShowNativeTrackCue track ''Now playing'' previousPlayback s)"

subsection \<open>Frames\<close>

lemma quiet_cues [quiet_intros]:
  assumes "quiet s t"
  shows "quiet s (showNowPlayingCue d m t)" "quiet s (showStreamingQueueStarted p d t)"
    "quiet s (recordPlayingQueueKey p d t)" "quiet s (snd (maybeShowStreamingQueueCue p d d' t))"
    "quiet s (snd (maybeShowNativeTrackCue d m d' t))" "quiet s (seedNativeTrackCueKey d t)"
    "quiet s (snd (maybeCueNativePlaybackTrack d d' t))"
proof -
  show cue: "quiet s (showNowPlayingCue d m t)" for d m
    using assms by (simp add: showNowPlayingCue_def quiet_intros)
  show started: "quiet s (showStreamingQueueStarted p d t)" for p d
    using assms cue by (simp add: showStreamingQueueStarted_def Let_def)
  show "quiet s (recordPlayingQueueKey p d t)" for p d
    using assms by (simp add: recordPlayingQueueKey_def quiet_intros)
  then show "quiet s (snd (maybeShowStreamingQueueCue p d d' t))"
    using assms started
    by (simp add: maybeShowStreamingQueueCue_def Let_def recordPlayingQueueKey_def quiet_fields)
  show nat: "quiet s (snd (maybeShowNativeTrackCue d m d' t))" for d m
    using assms
    by (simp add: maybeShowNativeTrackCue_def Let_def showNowPlayingCue_def quiet_intros)
  show "quiet s (seedNativeTrackCueKey d t)"
    using assms by (simp add: seedNativeTrackCueKey_def quiet_intros)
  show "quiet s (snd (maybeCueNativePlaybackTrack d d' t))"
    using assms nat by (simp add: maybeCueNativePlaybackTrack_def Let_def)
qed

subsection \<open>One cue per start\<close>

text \<open>Successive snapshots of a provider; each is compared with the one before it.\<close>

fun observe :: "string \<Rightarrow> jsval \<Rightarrow> jsval list \<Rightarrow> player \<Rightarrow> player" where
  "observe source prev [] s = s"
| "observe source prev (d # ds) s =
     observe source d ds (snd (maybeShowStreamingQueueCue source prev d s))"

definition has_status :: "string set \<Rightarrow> jsval \<Rightarrow> bool" where
  "has_status sts d = (truthy_object d \<and> (\<exists>st \<in> sts. jget d ''status'' = JStr st))"

definition has_title :: "jsval \<Rightarrow> bool" where
  "has_title d = (truthy (jget d ''title'') \<or> truthy (jget d ''artist'') \<or> truthy (jget d ''album''))"

lemma truthy_of_object: "truthy_object d \<Longrightarrow> truthy d"
  by (cases d) (simp_all add: truthy_object_def)

lemma provider_cue_key_not_Nil [simp]: "provider_cue_key p d \<noteq> []"
  by (simp add: provider_cue_key_def)

lemma truthy_truthy_or_empty [simp]: "truthy (truthy_or_empty v) = truthy v"
  by (simp add: truthy_or_empty_def js_or_def)

lemma lastPlayingQueueKey_record [simp]:
  "truthy_object d \<Longrightarrow> lastPlayingQueueKey p (recordPlayingQueueKey p d s) = provider_cue_key p d"
  by (simp add: lastPlayingQueueKey_def recordPlayingQueueKey_def AList.update_conv')

lemma record_effects [simp]: "effects (recordPlayingQueueKey p d s) = effects s"
  by (simp add: recordPlayingQueueKey_def)

text \<open>While the session track is known, a snapshot that is not Playing changes nothing, and one
  of the session track changes nothing unless playback had stopped.\<close>

lemma cue_paused:
  assumes "lastPlayingQueueKey p s \<noteq> []" "truthy_object prev" "truthy (jget prev ''status'')"
    "truthy_object d" "jget d ''status'' \<noteq> JStr ''Playing''"
  shows "maybeShowStreamingQueueCue p prev d s = (False, s)"
  using assms by (simp add: maybeShowStreamingQueueCue_def Let_def truthy_of_object)

lemma cue_same:
  assumes "lastPlayingQueueKey p s = provider_cue_key p d" "truthy_object prev"
    "truthy (jget prev ''status'')" "truthy_object d" "jget prev ''status'' \<noteq> JStr ''Stopped''"
  shows "maybeShowStreamingQueueCue p prev d s = (False, s)"
  using assms by (simp add: maybeShowStreamingQueueCue_def Let_def truthy_of_object)

lemma cue_new:
  assumes "lastPlayingQueueKey p s \<notin> {[], provider_cue_key p d}" "truthy_object prev"
    "truthy (jget prev ''status'')" "truthy_object d" "jget d ''status'' = JStr ''Playing''" "has_title d"
  shows "maybeShowStreamingQueueCue p prev d s = (True, recordPlayingQueueKey p d
     (emit (Cue (streamingCueTrack d p)
        (queue_started_message (to_num (js_or (jget d ''queue_len'') (JNum 0))))) s))"
proof -
  have "truthy (streamingCueTrack d p)" "has_title (streamingCueTrack d p)"
    using assms by (simp_all add: streamingCueTrack_def Let_def has_title_def js_simps)
  then show ?thesis
    using assms by (auto simp: maybeShowStreamingQueueCue_def Let_def truthy_of_object
        showStreamingQueueStarted_def showNowPlayingCue_def has_title_def)
qed

lemma observe_paused:
  assumes "lastPlayingQueueKey p s \<noteq> []" "has_status {''Paused'', ''Playing''} prev"
    "\<forall>d \<in> set ds. has_status {''Paused''} d"
  shows "observe p prev (ds @ es) s = observe p (last (prev # ds)) es s"
  using assms
proof (induction ds arbitrary: prev)
  case (Cons d ds)
  then have "maybeShowStreamingQueueCue p prev d s = (False, s)"
    by (intro cue_paused) (auto simp: has_status_def)
  moreover have "has_status {''Paused'', ''Playing''} d"
    using Cons.prems by (auto simp: has_status_def)
  ultimately show ?case
    using Cons by simp
qed simp

lemma observe_same:
  assumes "lastPlayingQueueKey p s = k" "has_status {''Paused'', ''Playing''} prev"
    "\<forall>d \<in> set ds. has_status {''Paused'', ''Playing''} d \<and> provider_cue_key p d = k"
  shows "observe p prev ds s = s"
  using assms
proof (induction ds arbitrary: prev)
  case (Cons d ds)
  then have "maybeShowStreamingQueueCue p prev d s = (False, s)"
    by (intro cue_same) (auto simp: has_status_def)
  with Cons show ?case by simp
qed simp

text \<open>A track started at a streaming provider is announced exactly once: from a known session
  track, any number of paused snapshots (also of the next track), the playing edge of a new
  track, and any number of later playing or paused snapshots of it give one cue, for that
  track.\<close>

theorem provider_start_cued_once:
  assumes "lastPlayingQueueKey p s \<notin> {[], provider_cue_key p d}"
    "has_status {''Paused'', ''Playing''} prev" "\<forall>x \<in> set paused. has_status {''Paused''} x"
    "has_status {''Playing''} d" "has_title d"
    "\<forall>x \<in> set later. has_status {''Paused'', ''Playing''} x \<and> provider_cue_key p x = provider_cue_key p d"
  shows "effects (observe p prev (paused @ d # later) s) = effects s @
    [Cue (streamingCueTrack d p) (queue_started_message (to_num (js_or (jget d ''queue_len'') (JNum 0))))]"
proof -
  define before where "before = last (prev # paused)"
  let ?prev = before
  let ?t = "snd (maybeShowStreamingQueueCue p before d s)"
  have prev: "has_status {''Paused'', ''Playing''} ?prev"
    using assms(2,3) by (cases paused rule: rev_cases) (auto simp: has_status_def before_def)
  have t: "?t = recordPlayingQueueKey p d (emit (Cue (streamingCueTrack d p)
      (queue_started_message (to_num (js_or (jget d ''queue_len'') (JNum 0))))) s)"
    using cue_new [OF assms(1), of ?prev] prev assms(4,5) by (auto simp: has_status_def)
  have "observe p prev (paused @ d # later) s = observe p d later ?t"
    using observe_paused [OF _ assms(2,3), where es = "d # later"] assms(1) by (simp add: before_def)
  also have "\<dots> = ?t"
    unfolding t using assms(4,6)
    by (intro observe_same [where k = "provider_cue_key p d"]) (auto simp: has_status_def)
  finally show ?thesis
    by (simp only: t record_effects emit_def) simp
qed

definition ex_qobuz :: "string \<Rightarrow> string \<Rightarrow> jsval" where
  "ex_qobuz status title = JObj [(''available'', JBool True), (''status'', JStr status),
     (''title'', JStr title), (''queue_len'', JNum (Fin 3))]"

lemma provider_start_cued_once_witness:
  "effects (observe ''qobuz'' (ex_qobuz ''Paused'' ''A'')
     [ex_qobuz ''Paused'' ''B'', ex_qobuz ''Playing'' ''B'', ex_qobuz ''Playing'' ''B'']
     (recordPlayingQueueKey ''qobuz'' (ex_qobuz ''Paused'' ''A'') init_player))
   = [Cue (streamingCueTrack (ex_qobuz ''Playing'' ''B'') ''qobuz'') (queue_started_message (Fin 3))]"
  using provider_start_cued_once [of "''qobuz''" "recordPlayingQueueKey ''qobuz'' (ex_qobuz ''Paused'' ''A'') init_player"
      "ex_qobuz ''Playing'' ''B''" "ex_qobuz ''Paused'' ''A''" "[ex_qobuz ''Paused'' ''B'']"
      "[ex_qobuz ''Playing'' ''B'']"]
  by (simp add: ex_qobuz_def has_status_def has_title_def js_simps init_player_def
      lastPlayingQueueKey_def recordPlayingQueueKey_def provider_cue_key_def streamingCueKey_def
      streamingCueTrackId_def js_join_def truthy_or_empty_def)

text \<open>The native player announces a start once: after a track was announced or adopted, any
  number of playback frames of the same track (without an end in between) stays silent and
  leaves the cue state as it is.\<close>

theorem native_frames_stay_silent:
  assumes "lastNativeTrackKey s = Some (nativeTrackCueKey track)"
    "\<forall>(d, prev) \<in> set frames. nativeTrackCueKey (jget d ''current_track'') = nativeTrackCueKey track
       \<and> \<not> restart_after_stop prev"
  shows "fold (\<lambda>(d, prev) s. snd (maybeCueNativePlaybackTrack d prev s)) frames s = s"
  using assms
proof (induction frames)
  case (Cons f frames)
  obtain d prev where f: "f = (d, prev)" by (cases f)
  have "snd (maybeCueNativePlaybackTrack d prev s) = s"
    using Cons.prems f
    by (auto simp: maybeCueNativePlaybackTrack_def maybeShowNativeTrackCue_def Let_def)
  with Cons f show ?case by simp
qed simp

lemma native_frames_stay_silent_witness:
  "fold (\<lambda>(d, prev) s. snd (maybeCueNativePlaybackTrack d prev s))
     [(ex_playing ex_local_track, JObj []), (ex_playing ex_local_track, ex_playing ex_local_track)]
     (seedNativeTrackCueKey ex_local_track init_player)
   = seedNativeTrackCueKey ex_local_track init_player"
  by (rule native_frames_stay_silent [where track = ex_local_track])
     (simp_all add: seedNativeTrackCueKey_def ex_playing_def restart_after_stop_def js_simps)

end
