(* ===== verification/Playback_Merge.thy ===== *)
theory Playback_Merge
  imports Cues
begin

section \<open>Merging playback states\<close>

text \<open>
  static/playback_core.js: how a playback state of the backend (a push, a poll, the answer to a
  command, the snapshot of a reconnect) is merged into the page's playback object, the last
  radio track, the optimistic single-track queue, and the library modes that follow the merged
  state. The refresh signature is modelled by the array the source serialises; two serialised
  texts are equal iff the arrays are.
\<close>

definition rememberLastRadioTrack :: "jsval \<Rightarrow> player \<Rightarrow> player" where
  "rememberLastRadioTrack track s =
     (if \<not> truthy track \<or> jget track ''source'' \<noteq> JStr ''radio'' \<or> \<not> truthy (jget track ''url'') then s
      else s\<lparr>lastRadioTrack := clone track\<rparr>)"

definition getLastRadioTrack :: "player \<Rightarrow> jsval" where
  "getLastRadioTrack s = (if truthy (lastRadioTrack s) then clone (lastRadioTrack s) else JNull)"

text \<open>\<open>typeof v._seq === 'number' ? v._seq : null\<close>.\<close>

definition seq_of :: "jsval \<Rightarrow> jsnum option" where
  "seq_of v = (case jget v ''_seq'' of JNum n \<Rightarrow> Some n | _ \<Rightarrow> None)"

definition stale_seq :: "jsnum option \<Rightarrow> jsnum option \<Rightarrow> bool" where
  "stale_seq incoming current =
     (case (incoming, current) of (Some i, Some c) \<Rightarrow> i < c | _ \<Rightarrow> False)"

text \<open>While paused, the progress of the radio metadata of the same track is frozen.\<close>

definition freeze_radio_progress :: "jsval \<Rightarrow> jsval \<Rightarrow> jsval" where
  "freeze_radio_progress previousRadioMetadata nextPlayback =
     (let radio = jget nextPlayback ''radio_metadata'' in
      if truthy (jget nextPlayback ''paused'') \<and> truthy radio \<and> truthy previousRadioMetadata
         \<and> js_seq (jget radio ''track_id'') (jget previousRadioMetadata ''track_id'')
      then jput ''radio_metadata''
             (jput ''progress_seconds'' (jget previousRadioMetadata ''progress_seconds'') (clone radio))
             nextPlayback
      else nextPlayback)"

definition mergePlaybackState :: "bool \<Rightarrow> jsval \<Rightarrow> player \<Rightarrow> bool \<times> player" where
  "mergePlaybackState snapshot data s =
     (if \<not> truthy data then (False, s)
      else
        (let incomingSeq = seq_of data; currentSeq = seq_of (pb s)
         in if \<not> snapshot \<and> stale_seq incomingSeq currentSeq then (False, s)
            else
              (let next1 = clone data;
                   next2 = (if snapshot
                            then jput ''_seq'' (case incomingSeq of None \<Rightarrow> JNull | Some n \<Rightarrow> JNum n) next1
                            else next1);
                   next3 = freeze_radio_progress (jget (pb s) ''radio_metadata'') next2;
                   remoteVolume = jget next3 ''volume'';
                   next4 = (if is_num remoteVolume then jdel ''volume'' next3 else next3);
                   s1 = pb_assign (spread (pb s) next4) s;
                   s2 = rememberLastRadioTrack (jget (pb s1) ''current_track'') s1
               in (True, case remoteVolume of JNum v \<Rightarrow> applyRemoteVolume v s2 | _ \<Rightarrow> s2))))"

definition buildOptimisticSingleTrackQueue :: "jsval \<Rightarrow> player \<Rightarrow> jsval" where
  "buildOptimisticSingleTrackQueue track s =
     JObj [(''active'', JBool False), (''index'', JNum 0), (''count'', JNum 1),
       (''mode'', js_or (jget (jget (pb s) ''queue'') ''mode'') (JStr ''app_replace'')),
       (''tracks'', JArr (if truthy track then [track] else [])),
       (''loop'', JBool (libraryLoop s)), (''shuffle'', JBool False)]"

subsection \<open>Library modes\<close>

definition getLibraryPlaybackContext :: "jsval \<Rightarrow> (bool \<times> bool) option" where
  "getLibraryPlaybackContext playbackv =
     (let currentTrack = jget playbackv ''current_track'';
          queue = js_or (jget playbackv ''queue'') (JObj [])
      in if \<not> truthy currentTrack \<or> jget currentTrack ''source'' \<noteq> JStr ''local'' then None
         else Some (truthy (jget queue ''shuffle''), truthy (jget queue ''loop'')))"

definition syncLibraryStateFromPlaybackContext :: "bool \<Rightarrow> player \<Rightarrow> player" where
  "syncLibraryStateFromPlaybackContext force s0 =
     (let context = getLibraryPlaybackContext (pb s0);
          signature = (case context of None \<Rightarrow> (False, False) | Some c \<Rightarrow> c);
          changed = (Some signature \<noteq> lastLibraryContext s0);
          s = s0\<lparr>lastLibraryContext := Some signature\<rparr>
      in if \<not> force \<and> \<not> changed then s
         else if playbackActionInFlight s then s
         else case context of
           None \<Rightarrow>
             (if libraryShuffle s \<or> libraryLoop s
              then emit RenderLibraryModes (s\<lparr>libraryShuffle := False, libraryLoop := False\<rparr>) else s)
         | Some (shuffle, loop) \<Rightarrow>
             emit RenderLibraryModes (s\<lparr>libraryShuffle := shuffle, libraryLoop := loop\<rparr>))"

subsection \<open>The refresh signature\<close>

definition or_null :: "jsval \<Rightarrow> jsval" where
  "or_null v = js_or v JNull"

definition playbackRefreshSignature :: "jsval \<Rightarrow> jsval" where
  "playbackRefreshSignature playbackv =
     (let track = jget playbackv ''current_track'';
          radio = jget playbackv ''radio_metadata'';
          peak = jget playbackv ''output_peak_warning''
      in JArr [or_null (jget playbackv ''playback_owner''),
           JBool (truthy (jget playbackv ''playing'')), JBool (truthy (jget playbackv ''paused'')),
           JBool (truthy (jget playbackv ''ended'')),
           (if truthy track
            then JArr [or_null (jget track ''id''), or_null (jget track ''source''),
                   or_null (jget track ''url''), or_null (jget track ''title''),
                   or_null (jget track ''artist'')]
            else JNull),
           or_null (jget playbackv ''live_title''),
           (if truthy radio
            then JArr [or_null (jget radio ''track_id''), or_null (jget radio ''title''),
                   or_null (jget radio ''artist''), or_null (jget radio ''album''),
                   or_null (jget radio ''cover_url''), JBool (truthy (jget radio ''stale''))]
            else JNull),
           (if truthy peak
            then JArr [JBool (truthy (jget peak ''available'')), JBool (truthy (jget peak ''vu_fresh'')),
                   (case jget peak ''vu_db'' of JNum (Fin r) \<Rightarrow> JNum (Fin r) | _ \<Rightarrow> JNull)]
            else JNull)])"

subsection \<open>Frames\<close>

lemma quiet_merge_helpers [quiet_intros]:
  "quiet s t \<Longrightarrow> quiet s (rememberLastRadioTrack v t)"
  "quiet s t \<Longrightarrow> quiet s (syncLibraryStateFromPlaybackContext b t)"
  by (simp_all add: rememberLastRadioTrack_def syncLibraryStateFromPlaybackContext_def Let_def
      quiet_intros split: option.splits)

lemma quiet_merge [quiet_intros]:
  assumes "quiet s t"
  shows "quiet s (snd (mergePlaybackState b d t))"
  using assms by (simp add: mergePlaybackState_def Let_def quiet_intros split: jsval.splits)

subsection \<open>What a merge does\<close>

lemma remember_frame [simp]:
  "playback (rememberLastRadioTrack v s) = playback s" "volctl (rememberLastRadioTrack v s) = volctl s"
  "clock (rememberLastRadioTrack v s) = clock s" "nextRef (rememberLastRadioTrack v s) = nextRef s"
  by (simp_all add: rememberLastRadioTrack_def)

lemma merge_rejects:
  "\<not> truthy d \<or> (\<not> b \<and> stale_seq (seq_of d) (seq_of (pb s))) \<Longrightarrow> mergePlaybackState b d s = (False, s)"
  by (auto simp: mergePlaybackState_def Let_def)

lemma merge_accepts:
  "truthy d \<Longrightarrow> b \<or> \<not> stale_seq (seq_of d) (seq_of (pb s)) \<Longrightarrow> fst (mergePlaybackState b d s)"
  by (auto simp: mergePlaybackState_def Let_def)

lemma merge_accepted_iff:
  "fst (mergePlaybackState b d s) \<longleftrightarrow> truthy d \<and> (b \<or> \<not> stale_seq (seq_of d) (seq_of (pb s)))"
  by (metis fst_conv merge_accepts merge_rejects)

lemma freeze_other: "k \<noteq> ''radio_metadata'' \<Longrightarrow> jget (freeze_radio_progress p d) k = jget d k"
  by (simp add: freeze_radio_progress_def Let_def)

lemma freeze_has_key: "k \<noteq> ''radio_metadata'' \<Longrightarrow> has_key (freeze_radio_progress p d) k = has_key d k"
  by (auto simp: freeze_radio_progress_def Let_def)

lemma case_num_remote: "k \<noteq> ''volume'' \<Longrightarrow>
  jget (pb (case x of JNum v \<Rightarrow> applyRemoteVolume v s | _ \<Rightarrow> s)) k = jget (pb s) k"
  by (cases x) simp_all

lemma pb_assign_pb [simp]: "pb (pb_assign v s) = v"
  by (simp add: pb_assign_def)

text \<open>Every field but the volume, the sequence of a snapshot and the frozen radio metadata is
  taken from the incoming state when it is there and kept otherwise.\<close>

lemma merge_field:
  assumes "fst (mergePlaybackState b d s)" "k \<notin> {''volume'', ''_seq'', ''radio_metadata''}"
  shows "jget (pb (snd (mergePlaybackState b d s))) k = (if has_key d k then jget d k else jget (pb s) k)"
  using assms
  by (auto simp: merge_accepted_iff)
     (auto simp: mergePlaybackState_def Let_def case_num_remote jget_spread freeze_other freeze_has_key)

lemma merge_seq:
  assumes "fst (mergePlaybackState b d s)"
  shows "seq_of (pb (snd (mergePlaybackState b d s))) =
    (if b then seq_of d else if has_key d ''_seq'' then seq_of d else seq_of (pb s))"
proof -
  have "jget (pb (snd (mergePlaybackState b d s))) ''_seq'' =
    (if b then (case seq_of d of None \<Rightarrow> JNull | Some n \<Rightarrow> JNum n)
     else if has_key d ''_seq'' then jget d ''_seq'' else jget (pb s) ''_seq'')"
    using assms
    by (auto simp: merge_accepted_iff)
       (auto simp: mergePlaybackState_def Let_def case_num_remote jget_spread freeze_other freeze_has_key)
  then show ?thesis
    by (auto simp: seq_of_def split: jsval.splits)
qed

lemma merge_ref:
  assumes "fst (mergePlaybackState b d s)"
  shows "fst (playback (snd (mergePlaybackState b d s))) = nextRef s"
  using assms by (auto simp: merge_accepted_iff)
    (auto simp: mergePlaybackState_def Let_def pb_assign_def split: jsval.splits)

subsection \<open>Pushes converge\<close>

definition push :: "jsval \<Rightarrow> player \<Rightarrow> player" where
  "push d s = snd (mergePlaybackState False d s)"

definition numbered :: "jsval \<Rightarrow> rat \<Rightarrow> bool" where
  "numbered d n = (truthy d \<and> seq_of d = Some (Fin n))"

lemma numbered_has_seq: "numbered d n \<Longrightarrow> has_key d ''_seq''"
  by (cases "has_key d ''_seq''") (auto simp: numbered_def seq_of_def jget_absent)

lemma push_stale: "numbered d n \<Longrightarrow> seq_of (pb s) = Some (Fin m) \<Longrightarrow> n < m \<Longrightarrow> push d s = s"
  by (simp add: push_def merge_rejects numbered_def stale_seq_def)

lemma push_fresh:
  assumes "numbered d n" "seq_of (pb s) = None \<or> (\<exists>m. seq_of (pb s) = Some (Fin m) \<and> m \<le> n)"
  shows "seq_of (pb (push d s)) = Some (Fin n)"
    and "k \<notin> {''volume'', ''_seq'', ''radio_metadata''} \<Longrightarrow> has_key d k
      \<Longrightarrow> jget (pb (push d s)) k = jget d k"
proof -
  have "fst (mergePlaybackState False d s)"
    using assms by (auto simp: merge_accepted_iff numbered_def stale_seq_def)
  then show "seq_of (pb (push d s)) = Some (Fin n)"
    and "k \<notin> {''volume'', ''_seq'', ''radio_metadata''} \<Longrightarrow> has_key d k
      \<Longrightarrow> jget (pb (push d s)) k = jget d k"
    using assms(1) by (simp_all add: push_def merge_seq numbered_has_seq merge_field)
       (simp add: numbered_def)
qed

lemma push_older_keeps:
  assumes "seq_of (pb s) = Some (Fin m)" "\<forall>d \<in> set ds. \<exists>n < m. numbered d n"
  shows "fold push ds s = s"
  using assms
proof (induction ds)
  case (Cons d ds)
  then have "push d s = s"
    using push_stale by auto
  with Cons show ?case by simp
qed simp

lemma push_seq_below:
  assumes "seq_of (pb s) = None \<or> (\<exists>m < n. seq_of (pb s) = Some (Fin m))"
    "\<forall>d \<in> set ds. \<exists>m < n. numbered d m"
  shows "seq_of (pb (fold push ds s)) = None \<or> (\<exists>m < n. seq_of (pb (fold push ds s)) = Some (Fin m))"
  using assms
proof (induction ds arbitrary: s)
  case (Cons d ds)
  obtain m where m: "m < n" "numbered d m"
    using Cons.prems by auto
  have "seq_of (pb (push d s)) = None \<or> (\<exists>m < n. seq_of (pb (push d s)) = Some (Fin m))"
  proof (cases "seq_of (pb s) = None \<or> (\<exists>m'. seq_of (pb s) = Some (Fin m') \<and> m' \<le> m)")
    case True
    then show ?thesis
      using push_fresh(1) [OF m(2)] m(1) by simp
  next
    case False
    then obtain m' where "seq_of (pb s) = Some (Fin m')" "m < m'"
      using Cons.prems(1) by fastforce
    then have "push d s = s"
      using push_stale [OF m(2)] by blast
    with Cons.prems(1) show ?thesis by simp
  qed
  then show ?case
    using Cons by simp
qed simp

text \<open>C22: Pushes converge whatever the order of delivery: of any sequence of numbered playback
  states, every field the newest one carries is the field of the page at the end (volume and
  radio progress, which follow their own rules, apart), no matter which older states arrive
  before it or after it.\<close>

theorem pushes_converge:
  assumes "numbered d n" "\<forall>x \<in> set before \<union> set after. \<exists>m < n. numbered x m"
    "seq_of (pb s) = None \<or> (\<exists>m < n. seq_of (pb s) = Some (Fin m))"
    "has_key d k" "k \<notin> {''volume'', ''_seq'', ''radio_metadata''}"
  shows "jget (pb (fold push (before @ d # after) s)) k = jget d k"
proof -
  let ?s = "fold push before s"
  have "seq_of (pb ?s) = None \<or> (\<exists>m. seq_of (pb ?s) = Some (Fin m) \<and> m \<le> n)"
    using push_seq_below [OF assms(3)] assms(2) by (meson UnCI less_imp_le)
  note fresh = push_fresh [OF assms(1) this]
  have "fold push after (push d ?s) = push d ?s"
    using assms(2) by (intro push_older_keeps [OF fresh(1)]) auto
  then show ?thesis
    using fresh(2) assms(4,5) by simp
qed

definition ex_push :: "rat \<Rightarrow> string \<Rightarrow> jsval" where
  "ex_push n st = JObj [(''_seq'', JNum (Fin n)), (''state'', JStr st)]"

lemma pushes_converge_witness:
  "jget (pb (fold push [ex_push 3 ''a'', ex_push 7 ''b'', ex_push 5 ''c''] init_player)) ''state''
   = JStr ''b''"
  using pushes_converge [of "ex_push 7 ''b''" 7 "[ex_push 3 ''a'']" "[ex_push 5 ''c'']" init_player "''state''"]
  by (simp add: ex_push_def numbered_def seq_of_def js_simps init_player_def init_playback_def)

text \<open>A snapshot replaces the ordering baseline: after the snapshot of a restarted process a
  push is accepted exactly when it is not older than that snapshot, however large the numbers of
  the previous process were.\<close>

theorem snapshot_replaces_baseline:
  assumes "truthy d"
  shows "fst (mergePlaybackState False p (snd (mergePlaybackState True d s)))
    \<longleftrightarrow> truthy p \<and> \<not> stale_seq (seq_of p) (seq_of d)"
  using assms by (simp add: merge_accepted_iff merge_seq)

lemma snapshot_replaces_baseline_witness:
  "fst (mergePlaybackState False (ex_push 1 ''a'')
     (snd (mergePlaybackState True (ex_push 0 ''b'') (push (ex_push 900 ''old'') init_player))))"
  using snapshot_replaces_baseline [of "ex_push 0 ''b''" "ex_push 1 ''a''"]
  by (simp add: ex_push_def seq_of_def stale_seq_def js_simps)

lemma applyRemoteVolume_held:
  assumes "volumeGestureActive (volctl s) \<or> volumeRequestInFlight (volctl s)
      \<or> pendingVolume (volctl s) \<noteq> None \<or> clock s < volumeSyncGraceUntil (volctl s)"
    "optimisticVolume (volctl s) \<noteq> Some v"
  shows "applyRemoteVolume v s = ensureVolumeBaseline s"
  using assms by (auto simp: applyRemoteVolume_def Let_def ensureVolumeBaseline_def upd_vol_def
      num_eq_def split: option.splits)

text \<open>The user's hand on the volume wins: while a gesture, a queued value or a volume request
  is pending, or within the grace time after one, no merged playback state changes the volume the
  page shows, unless it confirms the value the user set.\<close>

theorem merge_respects_volume_gesture:
  assumes "volumeGestureActive (volctl s) \<or> volumeRequestInFlight (volctl s)
      \<or> pendingVolume (volctl s) \<noteq> None \<or> clock s < volumeSyncGraceUntil (volctl s)"
    "\<And>v. jget d ''volume'' = JNum v \<Longrightarrow> optimisticVolume (volctl s) \<noteq> Some v"
    "is_num (jget d ''volume'')"
  shows "jget (pb (snd (mergePlaybackState b d s))) ''volume'' = jget (pb s) ''volume''"
proof (cases "fst (mergePlaybackState b d s)")
  case True
  obtain v where v: "jget d ''volume'' = JNum v"
    using assms(3) by (cases "jget d ''volume''") auto
  have held: "applyRemoteVolume v t = ensureVolumeBaseline t"
    if "volctl t = volctl s" "clock t = clock s" for t
    using assms(1) assms(2) [OF v] that by (intro applyRemoteVolume_held) auto
  have "playback (ensureVolumeBaseline t) = playback t" for t
    by (simp add: ensureVolumeBaseline_def)
  with True v show ?thesis
    by (auto simp: merge_accepted_iff)
       (auto simp: mergePlaybackState_def Let_def held freeze_other jget_spread pb_assign_def)
next
  case False
  then show ?thesis
    by (metis merge_accepted_iff merge_rejects snd_conv)
qed

definition ex_gesture :: player where
  "ex_gesture = upd_vol (\<lambda>v. v\<lparr>volumeGestureActive := True, optimisticVolume := Some (Fin 30)\<rparr>)
     (pb_put ''volume'' (JNum (Fin 30)) init_player)"

lemma merge_respects_volume_gesture_witness:
  "jget (pb (snd (mergePlaybackState False (JObj [(''volume'', JNum (Fin 80))]) ex_gesture))) ''volume''
   = JNum (Fin 30)"
  using merge_respects_volume_gesture [of ex_gesture "JObj [(''volume'', JNum (Fin 80))]" False]
  by (simp add: ex_gesture_def upd_vol_def js_simps)

end
