(* ===== verification/Streaming_Runtime.thy ===== *)
theory Streaming_Runtime
  imports Playback_Merge
begin

section \<open>The streaming runtime\<close>

text \<open>
  static/streaming_runtime.js: the provider states of Spotify and Qobuz, how an incoming state
  is merged and taken over by the footer, the transport commands, and the poll callbacks. An
  operation with an \<open>await\<close> is two definitions: the part up to the request, and the continuation
  (\<open>..._settled\<close>) that receives the response.
\<close>

subsection \<open>Fetched states\<close>

definition spotify_unavailable :: jsval where
  "spotify_unavailable = JObj [(''available'', JBool False), (''installed'', JBool False),
     (''source'', JStr ''spotify''), (''capabilities'', JObj []), (''status'', JStr ''Stopped''),
     (''artist'', JStr []), (''title'', JStr []), (''album'', JStr []), (''trackId'', JStr []),
     (''artUrl'', JStr []), (''shuffle'', JBool False), (''loop'', JStr ''none''),
     (''position'', JNum 0), (''duration'', JNum 0)]"

definition qobuz_unavailable :: jsval where
  "qobuz_unavailable = JObj [(''available'', JBool False), (''installed'', JBool False),
     (''source'', JStr ''qobuz''), (''capabilities'', JObj []), (''status'', JStr ''Stopped''),
     (''artist'', JStr []), (''title'', JStr []), (''album'', JStr [])]"

text \<open>The value \<open>fetchSpotifyStatus\<close> and \<open>fetchQobuzStatus\<close> resolve to; they never reject.\<close>

definition fetchSpotifyStatus :: "response \<Rightarrow> jsval" where
  "fetchSpotifyStatus resp =
     (case resp of
        NetError m \<Rightarrow> spotify_unavailable
      | Http st body \<Rightarrow>
          if \<not> resp_ok resp then spotify_unavailable
          else case body of None \<Rightarrow> spotify_unavailable | Some v \<Rightarrow> v)"

definition fetchQobuzStatus :: "response \<Rightarrow> jsval" where
  "fetchQobuzStatus resp =
     (case resp of
        NetError m \<Rightarrow> qobuz_unavailable
      | Http st body \<Rightarrow>
          if \<not> resp_ok resp then qobuz_unavailable
          else case body of None \<Rightarrow> qobuz_unavailable | Some v \<Rightarrow> v)"

subsection \<open>Merging Spotify states\<close>

definition spotifyTrackKey :: "jsval \<Rightarrow> string" where
  "spotifyTrackKey data =
     js_join ''|''
       [truthy_or_empty (js_or (jget data ''trackId'') (jget data ''trackid'')),
        truthy_or_empty (jget data ''title''), truthy_or_empty (jget data ''artist''),
        truthy_or_empty (jget data ''album''), truthy_or_empty (jget data ''artUrl''),
        JNum (js_round (to_num (js_or (jget data ''duration'') (JNum 0)) * Fin 1000))]"

definition object_or_empty :: "jsval \<Rightarrow> jsval" where
  "object_or_empty v = (if truthy_object v then v else JObj [])"

definition spotify_track_id :: "jsval \<Rightarrow> jsval" where
  "spotify_track_id v = truthy_or_empty (js_or (jget v ''trackId'') (jget v ''trackid''))"

definition stable_fields :: "string list" where
  "stable_fields = [''artist'', ''title'', ''album'', ''trackId'', ''trackid'', ''artUrl'',
     ''artwork_url'', ''artwork_available'', ''artwork_source'', ''duration'', ''stream_info'']"

definition missing_value :: "jsval \<Rightarrow> bool" where
  "missing_value v = (v = JUndef \<or> v = JNull \<or> v = JStr [])"

definition keep_stable_field :: "jsval \<Rightarrow> jsval \<Rightarrow> string \<Rightarrow> jsval \<Rightarrow> jsval" where
  "keep_stable_field previous incoming field merged =
     (if missing_value (jget incoming field) \<and> jget previous field \<noteq> JUndef
      then jput field (jget previous field) merged else merged)"

definition blank_metadata :: jsval where
  "blank_metadata = JObj [(''title'', JStr []), (''artist'', JStr []), (''album'', JStr []),
     (''artUrl'', JStr []), (''artwork_url'', JStr []), (''artwork_available'', JBool False),
     (''artwork_source'', JStr ''none'')]"

definition same_spotify_track :: "jsval \<Rightarrow> jsval \<Rightarrow> bool" where
  "same_spotify_track previous incoming =
     (\<not> truthy (spotify_track_id incoming) \<or> \<not> truthy (spotify_track_id previous)
      \<or> js_seq (spotify_track_id incoming) (spotify_track_id previous))"

definition merge_spotify :: "jsval \<Rightarrow> jsval \<Rightarrow> jsval" where
  "merge_spotify previous incoming =
     (if own_keys previous = [] then clone incoming
      else if jget incoming ''available'' = JBool False \<and> jget previous ''available'' = JBool True
              \<and> jget previous ''status'' \<noteq> JStr ''Stopped'' then clone previous
      else if jget incoming ''status'' = JStr ''Stopped'' \<and> \<not> truthy (jget incoming ''title'')
              \<and> \<not> truthy (jget incoming ''artist'') \<and> \<not> truthy (jget incoming ''album'')
              \<and> \<not> truthy (jget incoming ''artUrl'') then spread incoming blank_metadata
      else if \<not> same_spotify_track previous incoming then clone incoming
      else
        (let merged = spread previous incoming;
             merged1 = (if jget incoming ''spotifyd_standby'' \<noteq> JBool True
                        then jdel ''spotifyd_standby'' merged else merged)
         in fold (keep_stable_field previous incoming) stable_fields merged1))"

definition mergeSpotifyState :: "jsval \<Rightarrow> player \<Rightarrow> jsval" where
  "mergeSpotifyState data s =
     merge_spotify (object_or_empty (spotify_data s)) (object_or_empty data)"

subsection \<open>Incoming provider states\<close>

text \<open>The argument is the object with its identity: the merged state already stored, or the
  answer of a command.\<close>

definition syncSpotifySourceOwnership :: "objref \<Rightarrow> player \<Rightarrow> player" where
  "syncSpotifySourceOwnership data s =
     (if \<not> truthy (snd data) \<or> \<not> truthy (jget (snd data) ''available'') then s
      else reconcileFooterSource (s\<lparr>spotifyLast := data\<rparr>))"

definition shouldAdoptSpotifyUpdate :: "jsval \<Rightarrow> player \<Rightarrow> bool \<times> player" where
  "shouldAdoptSpotifyUpdate data s =
     (if \<not> truthy data \<or> \<not> truthy (jget data ''available'') then (False, s)
      else if jget data ''status'' = JStr ''Playing'' then (True, s)
      else (let s1 = reconcileFooterSource s in (footerSource s1 = FSpotify, s1)))"

definition syncSpotifyTabAvailability :: "bool \<Rightarrow> player \<Rightarrow> player" where
  "syncSpotifyTabAvailability available s =
     (if spotifyInstalledKnown s = Some available then s
      else emit RefreshEnabledFlags (s\<lparr>spotifyInstalledKnown := Some available\<rparr>))"

definition updateGlobalControlsForSource :: "player \<Rightarrow> player" where
  "updateGlobalControlsForSource s =
     (if footerSource s \<noteq> FSpotify then s
      else if truthy (spotify_data s) then updateFooterForStreamingOwner (spotify_data s) s else s)"

definition renderSpotify :: "jsval \<Rightarrow> player \<Rightarrow> player" where
  "renderSpotify data s = updateGlobalControlsForSource (emit (RenderSpotifyTab data) s)"

definition handleIncomingQobuzState :: "bool \<Rightarrow> jsval \<Rightarrow> player \<Rightarrow> player" where
  "handleIncomingQobuzState renderFooter data s =
     (if \<not> truthy data then s
      else
        (let previousQobuzData = (if truthy_object (qobuz_data s) then clone (qobuz_data s) else JNull);
             normalized = (if has_key data ''source_volume'' then clone data
                           else jdel ''volume'' (clone data));
             s1 = reconcileFooterSource (qobuz_assign normalized s);
             s2 = (if renderFooter \<and> footerSource s1 = FQobuz
                   then updateFooterForStreamingOwner normalized s1 else s1)
         in snd (maybeShowStreamingQueueCue ''qobuz'' previousQobuzData normalized s2)))"

definition handleIncomingSpotifyState :: "bool \<Rightarrow> bool \<Rightarrow> jsval \<Rightarrow> player \<Rightarrow> player" where
  "handleIncomingSpotifyState renderTab renderFooter data s =
     (if \<not> truthy data then s
      else
        (let previousData = js_or (spotify_data s) (JObj []);
             mergedData = mergeSpotifyState data s;
             installed = (jget mergedData ''installed'' = JBool True);
             s1 = syncSpotifyTabAvailability installed s;
             s2 = (if \<not> installed then stopSpotifyPoll s1 else s1);
             trackChanged = (spotifyTrackKey previousData \<noteq> spotifyTrackKey mergedData);
             s3 = spotify_assign mergedData s2
         in case shouldAdoptSpotifyUpdate mergedData s3 of (adopt, s4) \<Rightarrow>
           (let s5 = (if adopt then syncSpotifySourceOwnership (spotifyLast s4) s4 else s4);
                s6 = reconcileFooterSource s5;
                s7 = (if trackChanged
                      then s6\<lparr>spotifyLastRenderedTrackKey := spotifyTrackKey mergedData\<rparr> else s6);
                s8 = (if renderFooter \<and> footerSource s7 = FSpotify
                      then updateFooterForStreamingOwner mergedData s7 else s7);
                s9 = (if renderTab \<and> visibleTab s8 = ''spotify'' then renderSpotify mergedData s8 else s8)
            in snd (maybeShowStreamingQueueCue ''spotify'' previousData mergedData s9))))"

subsection \<open>Transport commands\<close>

text \<open>\<open>apiPostJson\<close>: the parsed body (\<open>null\<close> when it does not parse) or an error.\<close>

definition api_json :: "response \<Rightarrow> jsval option" where
  "api_json resp =
     (case resp of
        NetError m \<Rightarrow> None
      | Http st body \<Rightarrow>
          if resp_ok resp then Some (case body of None \<Rightarrow> JNull | Some v \<Rightarrow> v) else None)"

definition forceSpotifyRefreshBurst :: "player \<Rightarrow> player" where
  "forceSpotifyRefreshBurst s =
     fold (\<lambda>delay s. snd (set_timer TSpotifyRefresh s)) [250::nat, 700, 1400] s"

definition spotify_burst_settled :: "response \<Rightarrow> player \<Rightarrow> player" where
  "spotify_burst_settled resp s =
     (let s1 = reconcileFooterSource
                 (handleIncomingSpotifyState True True (fetchSpotifyStatus resp) s)
      in if footerSource s1 = FSpotify then startSpotifyPoll s1 else s1)"

definition qobuzCommand :: "string \<Rightarrow> player \<Rightarrow> player" where
  "qobuzCommand action s =
     (let prev = (if truthy_object (qobuz_data s) then clone (qobuz_data s) else JNull)
      in send (RQobuzCommand action prev) (Fetch ''POST'' (''/api/streaming/qobuz/'' @ action) (JObj [])) s)"

definition qobuz_command_settled :: "string \<Rightarrow> jsval \<Rightarrow> response \<Rightarrow> player \<Rightarrow> player" where
  "qobuz_command_settled action prev resp s =
     (case api_json resp of
        None \<Rightarrow> emit (Toast ''Qobuz transport failed'' ''error'') s
      | Some data \<Rightarrow>
          (let s1 = reconcileFooterSource (qobuz_assign data s);
               s2 = (if footerSource s1 = FQobuz then updateFooterForStreamingOwner data s1 else s1)
           in if action = ''play'' \<or> action = ''toggle''
              then snd (maybeShowStreamingQueueCue ''qobuz'' prev data s2) else s2))"

definition qobuzSeek :: "jsnum \<Rightarrow> player \<Rightarrow> player" where
  "qobuzSeek positionSec s =
     send RQobuzSeek (Fetch ''POST'' ''/api/streaming/qobuz/seek'' (JObj [(''position'', JNum positionSec)])) s"

definition qobuz_seek_settled :: "response \<Rightarrow> player \<Rightarrow> player" where
  "qobuz_seek_settled resp s =
     (case api_json resp of
        None \<Rightarrow> s
      | Some data \<Rightarrow>
          if truthy data then
            (let s1 = qobuz_assign data s
             in if footerSource s1 = FQobuz then updateFooterForStreamingOwner data s1 else s1)
          else s)"

definition interactive_takeover :: "string \<Rightarrow> bool" where
  "interactive_takeover action = (action \<in> {''play'', ''toggle'', ''next'', ''previous''})"

definition SPOTIFY_TAKEOVER_MS :: nat where "SPOTIFY_TAKEOVER_MS = 4000"

definition spotifyCommand :: "string \<Rightarrow> player \<Rightarrow> player" where
  "spotifyCommand action s =
     (if spotifyCommandInFlight s then s
      else
        (let interactiveTakeover = interactive_takeover action;
             s1 = (if interactiveTakeover then armSpotifyTakeover SPOTIFY_TAKEOVER_MS s else s);
             gen = pollGeneration (spotifyPoll s1);
             s2 = s1\<lparr>spotifyCommandInFlight := True\<rparr>
         in send (RSpotifyCommand gen interactiveTakeover)
              (Fetch ''POST'' (''/api/spotify/'' @ action) (JObj [])) s2))"

text \<open>The part both arms share once a state is there; the body runs only while the poll generation
  is the one the command started with.\<close>

definition spotify_command_state :: "nat \<Rightarrow> bool \<Rightarrow> jsval \<Rightarrow> player \<Rightarrow> player" where
  "spotify_command_state gen interactiveTakeover data s =
     (if gen \<noteq> pollGeneration (spotifyPoll s) then s
      else
        (let s1 = handleIncomingSpotifyState True True data s;
             s2 = (if jget (js_or data (JObj [])) ''status'' = JStr ''Playing''
                   then startSpotifyPoll (syncSpotifySourceOwnership (nextRef s1, data)
                          (s1\<lparr>nextRef := Suc (nextRef s1)\<rparr>)) else s1)
         in if interactiveTakeover then forceSpotifyRefreshBurst s2 else s2))"

definition spotify_command_settled :: "nat \<Rightarrow> bool \<Rightarrow> response \<Rightarrow> player \<Rightarrow> player" where
  "spotify_command_settled gen interactiveTakeover resp s =
     (case api_json resp of
        Some data \<Rightarrow>
          (spotify_command_state gen interactiveTakeover data s)\<lparr>spotifyCommandInFlight := False\<rparr>
      | None \<Rightarrow>
          send (RSpotifyRecover gen interactiveTakeover) (Fetch ''GET'' ''/api/spotify/status'' JUndef) s)"

definition spotify_recover_settled :: "nat \<Rightarrow> bool \<Rightarrow> response \<Rightarrow> player \<Rightarrow> player" where
  "spotify_recover_settled gen interactiveTakeover resp s =
     (spotify_command_state gen interactiveTakeover (fetchSpotifyStatus resp) s)
       \<lparr>spotifyCommandInFlight := False\<rparr>"

definition spotifySeek :: "jsnum \<Rightarrow> player \<Rightarrow> player" where
  "spotifySeek positionSec s =
     (let s1 = (if spotifySeekCommitTimer s \<noteq> None
                then (clear_timer (spotifySeekCommitTimer s) s)\<lparr>spotifySeekCommitTimer := None\<rparr> else s)
      in send RSpotifySeek (Fetch ''POST'' ''/api/spotify/seek'' (JObj [(''position'', JNum positionSec)])) s1)"

definition spotify_seek_settled :: "response \<Rightarrow> player \<Rightarrow> player" where
  "spotify_seek_settled resp s =
     (let s1 = (case api_json resp of
                  None \<Rightarrow> s
                | Some data \<Rightarrow> if truthy data then handleIncomingSpotifyState True True data s else s)
      in case set_timer TSpotifySeekCommit s1 of (h, s2) \<Rightarrow> s2\<lparr>spotifySeekCommitTimer := Some h\<rparr>)"

subsection \<open>Poll callbacks\<close>

definition fetch_spotify :: "request \<Rightarrow> player \<Rightarrow> player" where
  "fetch_spotify r s = send r (Fetch ''GET'' ''/api/spotify/status'' JUndef) s"

definition fetch_qobuz :: "request \<Rightarrow> player \<Rightarrow> player" where
  "fetch_qobuz r s = send r (Fetch ''GET'' ''/api/streaming/qobuz/status'' JUndef) s"

definition spotify_poll_tick :: "nat \<Rightarrow> player \<Rightarrow> player" where
  "spotify_poll_tick gen s =
     (if pageHidden s then s
      else if \<not> shouldPollSpotify s then stopSpotifyPoll (bumpSpotifyPollGeneration s)
      else if gen \<noteq> pollGeneration (spotifyPoll s) then s
      else fetch_spotify (RSpotifyPoll gen) s)"

definition spotify_poll_settled :: "nat \<Rightarrow> response \<Rightarrow> player \<Rightarrow> player" where
  "spotify_poll_settled gen resp s =
     (if gen \<noteq> pollGeneration (spotifyPoll s) then s
      else handleIncomingSpotifyState True True (fetchSpotifyStatus resp) s)"

definition qobuz_poll_tick :: "nat \<Rightarrow> player \<Rightarrow> player" where
  "qobuz_poll_tick gen s =
     (if pageHidden s then s
      else if \<not> shouldPollQobuz s then stopQobuzPoll (bumpQobuzPollGeneration s)
      else if gen \<noteq> pollGeneration (qobuzPoll s) then s
      else fetch_qobuz (RQobuzPoll gen) s)"

definition qobuz_poll_settled :: "nat \<Rightarrow> response \<Rightarrow> player \<Rightarrow> player" where
  "qobuz_poll_settled gen resp s =
     (if gen \<noteq> pollGeneration (qobuzPoll s) then s
      else handleIncomingQobuzState True (fetchQobuzStatus resp) s)"

definition initSpotify :: "player \<Rightarrow> player" where
  "initSpotify s = fetch_spotify RSpotifyInit s"

definition spotify_init_settled :: "response \<Rightarrow> player \<Rightarrow> player" where
  "spotify_init_settled resp s =
     (let s1 = handleIncomingSpotifyState True True (fetchSpotifyStatus resp) s
      in if shouldPollSpotify s1 then startSpotifyPoll s1 else stopSpotifyPoll s1)"

text \<open>The state part of \<open>switchTab\<close> (static/app.js).\<close>

definition switchTab :: "string \<Rightarrow> player \<Rightarrow> player" where
  "switchTab tabId s0 =
     (let s = s0\<lparr>visibleTab := tabId\<rparr>;
          s1 = (if tabId = ''spotify'' then
                  fetch_spotify RSpotifyFetch (startSpotifyPoll
                    (if truthy (spotify_data s) then renderSpotify (spotify_data s) s else s))
                else if footerSource s \<noteq> FSpotify then stopSpotifyPoll s else s)
      in if tabId = ''qobuz'' then fetch_qobuz RQobuzFetch (startQobuzPoll s1)
         else if footerSource s1 \<noteq> FQobuz \<and> visibleTab s1 \<noteq> ''qobuz''
                 \<and> getBackendFooterOwner (pb s1) \<noteq> Some FQobuz then stopQobuzPoll s1
         else s1)"

end
