(* ===== verification/Streaming_Props.thy ===== *)
theory Streaming_Props
  imports Streaming_Runtime
begin

section \<open>Properties of the streaming runtime\<close>

subsection \<open>Frames\<close>

lemma quiet_spotify_ref [quiet_intros]:
  assumes "quiet s t" "fst d < nextRef t"
  shows "quiet s (t\<lparr>spotifyLast := d\<rparr>)"
  by (rule quiet_trans [OF assms(1)])
     (simp add: quiet_def refs_ok_def vtimers_def polls_inv_def timers_inv_def slots_def loose_handles_def
       assms(2))

lemma nextRef_reconcile [simp]: "nextRef (reconcileFooterSource s) = nextRef s"
  by (simp add: reconcile_eq)

lemma spotifyLast_reconcile_fst [simp]: "spotifyLast (reconcileFooterSource s) = spotifyLast s"
  by simp

lemma quiet_shouldAdopt [quiet_intros]:
  "quiet s t \<Longrightarrow> quiet s (snd (shouldAdoptSpotifyUpdate d t))"
  by (simp add: shouldAdoptSpotifyUpdate_def Let_def quiet_intros)

lemma shouldAdopt_frame [simp]:
  "nextRef (snd (shouldAdoptSpotifyUpdate d t)) = nextRef t"
  "spotifyLast (snd (shouldAdoptSpotifyUpdate d t)) = spotifyLast t"
  by (simp_all add: shouldAdoptSpotifyUpdate_def Let_def)

lemma quiet_syncOwnership [quiet_intros]:
  "quiet s t \<Longrightarrow> fst d < nextRef t \<Longrightarrow> quiet s (syncSpotifySourceOwnership d t)"
  by (simp add: syncSpotifySourceOwnership_def quiet_intros)

lemma quiet_nextRef [quiet_intros]: "quiet s t \<Longrightarrow> quiet s (t\<lparr>nextRef := Suc (nextRef t)\<rparr>)"
  by (erule quiet_trans)
     (simp add: quiet_def refs_ok_def vtimers_def polls_inv_def timers_inv_def slots_def loose_handles_def)

lemma quiet_streaming_helpers [quiet_intros]:
  "quiet s t \<Longrightarrow> quiet s (syncSpotifyTabAvailability b t)"
  "quiet s t \<Longrightarrow> quiet s (updateGlobalControlsForSource t)"
  "quiet s t \<Longrightarrow> quiet s (renderSpotify d t)"
  by (simp_all add: syncSpotifyTabAvailability_def updateGlobalControlsForSource_def
      renderSpotify_def quiet_intros)

lemma quiet_incoming_qobuz [quiet_intros]:
  "quiet s t \<Longrightarrow> quiet s (handleIncomingQobuzState b d t)"
  by (simp add: handleIncomingQobuzState_def Let_def quiet_intros)

lemma spotify_assign_frame [simp]:
  "fst (spotifyLast (spotify_assign v s)) < nextRef (spotify_assign v s)"
  "spotify_data (spotify_assign v s) = v"
  by (simp_all add: spotify_assign_def)

text \<open>The stages of \<open>handleIncomingSpotifyState\<close>: taking the merged state over, then painting.\<close>

definition take_spotify :: "jsval \<Rightarrow> player \<Rightarrow> player" where
  "take_spotify merged s =
     (case shouldAdoptSpotifyUpdate merged s of (adopt, s4) \<Rightarrow>
        reconcileFooterSource (if adopt then syncSpotifySourceOwnership (spotifyLast s4) s4 else s4))"

definition paint_spotify :: "bool \<Rightarrow> bool \<Rightarrow> bool \<Rightarrow> jsval \<Rightarrow> jsval \<Rightarrow> player \<Rightarrow> player" where
  "paint_spotify renderTab renderFooter trackChanged previousData mergedData s6 =
     (let s7 = (if trackChanged
                then s6\<lparr>spotifyLastRenderedTrackKey := spotifyTrackKey mergedData\<rparr> else s6);
          s8 = (if renderFooter \<and> footerSource s7 = FSpotify
                then updateFooterForStreamingOwner mergedData s7 else s7);
          s9 = (if renderTab \<and> visibleTab s8 = ''spotify'' then renderSpotify mergedData s8 else s8)
      in snd (maybeShowStreamingQueueCue ''spotify'' previousData mergedData s9))"

definition note_installed :: "jsval \<Rightarrow> player \<Rightarrow> player" where
  "note_installed merged s =
     (let installed = (jget merged ''installed'' = JBool True);
          s1 = syncSpotifyTabAvailability installed s
      in if \<not> installed then stopSpotifyPoll s1 else s1)"

lemma handleIncomingSpotify_stages:
  "handleIncomingSpotifyState renderTab renderFooter data s =
     (if \<not> truthy data then s
      else
        (let previousData = js_or (spotify_data s) (JObj []); mergedData = mergeSpotifyState data s
         in paint_spotify renderTab renderFooter
              (spotifyTrackKey previousData \<noteq> spotifyTrackKey mergedData) previousData mergedData
              (take_spotify mergedData (spotify_assign mergedData (note_installed mergedData s)))))"
  by (simp add: handleIncomingSpotifyState_def paint_spotify_def take_spotify_def note_installed_def
      Let_def case_prod_unfold)

lemma quiet_take_spotify:
  assumes "quiet s t" "fst (spotifyLast t) < nextRef t"
  shows "quiet s (take_spotify d t)"
  using assms by (simp add: take_spotify_def case_prod_unfold quiet_intros)

lemma quiet_paint_spotify: "quiet s t \<Longrightarrow> quiet s (paint_spotify a b c d e t)"
  by (simp add: paint_spotify_def Let_def quiet_intros)

lemma quiet_incoming_spotify [quiet_intros]:
  "quiet s t \<Longrightarrow> quiet s (handleIncomingSpotifyState a b d t)"
  by (simp add: handleIncomingSpotify_stages Let_def quiet_intros quiet_paint_spotify
      quiet_take_spotify note_installed_def)

text \<open>A fresh one-shot timer of a kind no variable holds.\<close>

lemma polls_inv_loose_timer:
  assumes "polls_inv t" "loose k"
  shows "polls_inv (snd (set_timer k t))"
proof -
  have slots: "slots (snd (set_timer k t)) = slots t" "loose_handles (snd (set_timer k t)) = loose_handles t"
    by (simp_all add: set_timer_def slots_def loose_handles_def)
  have "slot_ok (timers t @ [(nextTimer t, k)]) (Suc (nextTimer t)) sl" if "sl \<in> set (slots t)" for sl
    using assms that by (intro slot_ok_other) (auto simp: polls_inv_def timers_inv_def slots_def loose_def)
  with assms(1) show ?thesis
    using poll_inv_more [of _ _ "timers t" "timers t @ [(nextTimer t, k)]"]
    unfolding polls_inv_def timers_inv_def slots
    by (simp add: set_timer_def handles_ok_add subset_iff)
qed

lemma quiet_loose_timer [quiet_intros]:
  assumes "quiet s t" "loose k"
  shows "quiet s (snd (set_timer k t))"
  by (rule quiet_trans [OF assms(1)])
     (use polls_inv_loose_timer [of t k] assms(2)
      in \<open>auto simp: quiet_def set_timer_def vtimers_def refs_ok_def loose_def\<close>)

text \<open>Holding loose timers in a variable, and clearing what such a variable holds.\<close>

lemma quiet_loose_vars:
  assumes "quiet s t" "loose_ok (timers t) (nextTimer t) (set ns \<union> set_option h)"
  shows "quiet s (t\<lparr>burstPollTimers := ns, spotifySeekCommitTimer := h\<rparr>)"
  by (rule quiet_trans [OF assms(1)])
     (use assms(2) in \<open>simp add: quiet_def refs_ok_def vtimers_def polls_inv_def timers_inv_def
        slots_def loose_handles_def\<close>)

lemma poll_inv_drop_loose:
  "poll_inv c kind ts \<Longrightarrow> (\<And>g. \<not> loose (kind g)) \<Longrightarrow> (\<And>k. (h, k) \<in> set ts \<Longrightarrow> loose k)
   \<Longrightarrow> poll_inv c kind (drop_handle (Some h) ts)"
  by (fastforce simp: poll_inv_def set_drop_handle)

lemma polls_inv_drop_loose:
  assumes "polls_inv t" "\<And>k. (h, k) \<in> set (timers t) \<Longrightarrow> loose k"
  shows "polls_inv (clear_timer (Some h) t)" "vtimers (clear_timer (Some h) t) = vtimers t"
proof -
  have "slots (clear_timer (Some h) t) = slots t" "loose_handles (clear_timer (Some h) t) = loose_handles t"
    by (simp_all add: clear_timer_def slots_def loose_handles_def)
  moreover have "poll_inv (spotifyPoll t) TSpotifyPoll (drop_handle (Some h) (timers t))"
    "poll_inv (qobuzPoll t) TQobuzPoll (drop_handle (Some h) (timers t))"
    using assms by (auto simp: polls_inv_def loose_def intro!: poll_inv_drop_loose)
  moreover have "alive (positionPollTimer t) TPosition (drop_handle (Some h) (timers t))"
    using assms(1) assms(2) [of TPosition]
    by (auto simp: polls_inv_def alive_def set_drop_handle loose_def)
  ultimately show "polls_inv (clear_timer (Some h) t)"
    using assms(1)
    by (simp add: polls_inv_def timers_inv_def) (simp add: clear_timer_nf handles_ok_drop slot_ok_drop)
  have "i \<noteq> h" if "(i, TVolume) \<in> set (timers t)" for i
    using assms(2) [of TVolume] that by (auto simp: loose_def)
  then have "filter (\<lambda>(i, k). k = TVolume \<and> Some i \<noteq> Some h) (timers t) = vtimers t"
    unfolding vtimers_def by (intro filter_cong) auto
  then show "vtimers (clear_timer (Some h) t) = vtimers t"
    by (simp add: vtimers_def clear_timer_def case_prod_unfold conj_commute)
qed

lemma loose_handlesD: "polls_inv t \<Longrightarrow> h \<in> loose_handles t \<Longrightarrow> (h, k) \<in> set (timers t) \<Longrightarrow> loose k"
  by (auto simp: polls_inv_def timers_inv_def loose_ok_def)

text \<open>The commands that go on from a state with the frame of the first one.\<close>

lemma quiet_drop_loose: "h \<in> loose_handles t \<Longrightarrow> quiet t (clear_timer (Some h) t)"
  using polls_inv_drop_loose [of t h] loose_handlesD [of t h]
  by (simp add: quiet_def) (simp add: clear_timer_def refs_ok_def)

lemma loose_handles_clear [simp]: "loose_handles (clear_timer h t) = loose_handles t"
  by (simp add: clear_timer_def loose_handles_def)

lemma quiet_spotify_burst [quiet_intros]:
  "quiet s t \<Longrightarrow> quiet s (forceSpotifyRefreshBurst t)"
  "quiet s t \<Longrightarrow> quiet s (spotify_burst_settled r t)"
  by (simp_all add: forceSpotifyRefreshBurst_def spotify_burst_settled_def Let_def quiet_intros loose_def)

lemma quiet_spotify_command_state [quiet_intros]:
  "quiet s t \<Longrightarrow> quiet s (spotify_command_state g b d t)"
proof -
  assume q: "quiet s t"
  have "quiet s (syncSpotifySourceOwnership (nextRef u, d) (u\<lparr>nextRef := Suc (nextRef u)\<rparr>))"
    if "quiet s u" for u
    using that by (simp add: quiet_intros)
  then show ?thesis
    using q by (simp add: spotify_command_state_def Let_def quiet_intros)
qed

lemma loose_ok_take:
  "handles_ok ts n \<Longrightarrow> loose_ok ts n hs \<Longrightarrow> loose k \<Longrightarrow> loose_ok (ts @ [(n, k)]) (Suc n) (insert n hs)"
  by (auto simp: loose_ok_def handles_ok_def less_Suc_eq)

lemma quiet_arm_loose:
  assumes "quiet s t" "loose k" "set ns \<union> set_option h \<subseteq> insert (nextTimer t) (loose_handles t)"
  shows "quiet s (snd (set_timer k t)\<lparr>burstPollTimers := ns, spotifySeekCommitTimer := h\<rparr>)"
proof (rule quiet_trans [OF assms(1)])
  let ?u = "snd (set_timer k t)\<lparr>burstPollTimers := ns, spotifySeekCommitTimer := h\<rparr>"
  have "polls_inv ?u" if inv: "polls_inv t"
  proof -
    have "loose_ok (timers t @ [(nextTimer t, k)]) (Suc (nextTimer t)) (set ns \<union> set_option h)"
      by (rule loose_ok_subset [OF loose_ok_take assms(3)])
         (use inv assms(2) in \<open>simp_all add: polls_inv_def timers_inv_def\<close>)
    then have "loose_ok (timers ?u) (nextTimer ?u) (loose_handles ?u)"
      by (simp add: set_timer_def loose_handles_def)
    moreover have "slots ?u = slots (snd (set_timer k t))" "timers ?u = timers (snd (set_timer k t))"
      "nextTimer ?u = nextTimer (snd (set_timer k t))" "spotifyPoll ?u = spotifyPoll (snd (set_timer k t))"
      "qobuzPoll ?u = qobuzPoll (snd (set_timer k t))"
      "positionPollTimer ?u = positionPollTimer (snd (set_timer k t))"
      by (simp_all add: slots_def)
    ultimately show ?thesis
      using polls_inv_loose_timer [OF inv assms(2)] unfolding polls_inv_def timers_inv_def by metis
  qed
  then show "quiet t ?u"
    using assms(2) by (auto simp: quiet_def set_timer_def vtimers_def refs_ok_def loose_def)
qed

lemma quiet_seek_timer:
  assumes "quiet s t"
  shows "quiet s (snd (set_timer TSpotifySeekCommit t)
    \<lparr>spotifySeekCommitTimer := Some (fst (set_timer TSpotifySeekCommit t))\<rparr>)"
  using quiet_arm_loose [OF assms, of TSpotifySeekCommit "burstPollTimers t" "Some (nextTimer t)"]
  by (simp add: loose_def loose_handles_def set_timer_def subset_insertI2)

lemma quiet_settlements [quiet_intros]:
  assumes "quiet s t"
  shows "quiet s (qobuz_command_settled a p r t)" "quiet s (qobuz_seek_settled r t)"
    "quiet s (spotify_seek_settled r t)" "quiet s (spotify_poll_settled g r t)"
    "quiet s (qobuz_poll_settled g r t)" "quiet s (spotify_init_settled r t)"
proof -
  show "quiet s (qobuz_command_settled a p r t)"
    using assms by (simp add: qobuz_command_settled_def Let_def quiet_intros split: option.splits)
  show "quiet s (qobuz_seek_settled r t)"
    using assms by (simp add: qobuz_seek_settled_def Let_def quiet_intros split: option.splits)
  show "quiet s (spotify_seek_settled r t)"
    using assms by (simp add: spotify_seek_settled_def Let_def case_prod_unfold quiet_intros
        quiet_seek_timer split: option.splits)
  show "quiet s (spotify_poll_settled g r t)"
    using assms by (simp add: spotify_poll_settled_def quiet_intros)
  show "quiet s (qobuz_poll_settled g r t)"
    using assms by (simp add: qobuz_poll_settled_def quiet_intros)
  show "quiet s (spotify_init_settled r t)"
    using assms by (simp add: spotify_init_settled_def Let_def quiet_intros)
qed

subsection \<open>Merged Spotify states\<close>

lemma jget_keep_stable:
  "jget (keep_stable_field p i f m) k =
     (if k = f \<and> missing_value (jget i f) \<and> jget p f \<noteq> JUndef then jget p f else jget m k)"
  by (auto simp: keep_stable_field_def)

lemma jget_keep_stables:
  "jget (fold (keep_stable_field p i) fs m) k =
     (if k \<in> set fs \<and> missing_value (jget i k) \<and> jget p k \<noteq> JUndef then jget p k else jget m k)"
  by (induction fs arbitrary: m) (auto simp: jget_keep_stable)

text \<open>The case of the same track, with both records present.\<close>

definition updates_track :: "jsval \<Rightarrow> jsval \<Rightarrow> bool" where
  "updates_track previous incoming =
     (own_keys previous \<noteq> [] \<and> same_spotify_track previous incoming
      \<and> \<not> (jget incoming ''available'' = JBool False \<and> jget previous ''available'' = JBool True
           \<and> jget previous ''status'' \<noteq> JStr ''Stopped'')
      \<and> \<not> (jget incoming ''status'' = JStr ''Stopped'' \<and> \<not> truthy (jget incoming ''title'')
           \<and> \<not> truthy (jget incoming ''artist'') \<and> \<not> truthy (jget incoming ''album'')
           \<and> \<not> truthy (jget incoming ''artUrl'')))"

lemma merge_same_track:
  assumes "updates_track p i"
  shows "jget (merge_spotify p i) k =
    (if k \<in> set stable_fields \<and> missing_value (jget i k) \<and> jget p k \<noteq> JUndef then jget p k
     else if k = ''spotifyd_standby'' \<and> jget i k \<noteq> JBool True then JUndef
     else if has_key i k then jget i k else jget p k)"
proof -
  have "merge_spotify p i = fold (keep_stable_field p i) stable_fields
      (if jget i ''spotifyd_standby'' \<noteq> JBool True then jdel ''spotifyd_standby'' (spread p i)
       else spread p i)"
    using assms unfolding updates_track_def merge_spotify_def Let_def
    by (elim conjE) (simp only: if_not_P not_not if_False)
  then show ?thesis
    by (auto simp: jget_keep_stables jget_spread jget_jdel)
qed

text \<open>An incomplete Spotify read does not lose the track: while the track stays the same,
  every stable metadata field of the merged state is the incoming one when it is given and the
  known one otherwise, while status, position and every other transport field follow the incoming
  state and the standby flag never lingers into playback.\<close>

theorem spotify_merge_keeps_metadata:
  assumes "updates_track (object_or_empty (spotify_data s)) (object_or_empty d)"
  shows "(\<forall>k. k \<in> set stable_fields \<longrightarrow> jget (spotify_data s) k \<noteq> JUndef \<longrightarrow>
      jget (mergeSpotifyState d s) k =
        (if missing_value (jget (object_or_empty d) k) then jget (object_or_empty (spotify_data s)) k
         else jget (object_or_empty d) k))
    \<and> (\<forall>k. k \<notin> set stable_fields \<union> {''spotifyd_standby''} \<longrightarrow> has_key (object_or_empty d) k \<longrightarrow>
      jget (mergeSpotifyState d s) k = jget (object_or_empty d) k)
    \<and> (jget (mergeSpotifyState d s) ''spotifyd_standby'' = JBool True \<longleftrightarrow>
      jget (object_or_empty d) ''spotifyd_standby'' = JBool True)"
proof -
  have key: "has_key v k" if "jget v k \<noteq> JUndef" for v k
    using that jget_absent by blast
  have obj: "jget (object_or_empty (spotify_data s)) k \<noteq> JUndef" if "jget (spotify_data s) k \<noteq> JUndef" for k
    using that by (cases "spotify_data s") (auto simp: object_or_empty_def truthy_object_def)
  have standby: "''spotifyd_standby'' \<notin> set stable_fields"
    by (simp add: stable_fields_def)
  have given: "has_key v k" if "\<not> missing_value (jget v k)" for v k
    using that key [of v k] by (auto simp: missing_value_def)
  note eq = merge_same_track [OF assms]
  show ?thesis
    unfolding mergeSpotifyState_def eq
    using obj standby given key by (auto simp: stable_fields_def)
qed

definition ex_song :: jsval where
  "ex_song = JObj [(''available'', JBool True), (''status'', JStr ''Playing''),
     (''title'', JStr ''Song''), (''artist'', JStr ''Band''), (''trackId'', JStr ''t'')]"

lemma spotify_merge_keeps_metadata_witness:
  "jget (mergeSpotifyState (JObj [(''available'', JBool True), (''status'', JStr ''Paused''),
       (''title'', JStr [])]) (spotify_assign ex_song init_player)) ''title'' = JStr ''Song''"
  using spotify_merge_keeps_metadata [of "spotify_assign ex_song init_player"
      "JObj [(''available'', JBool True), (''status'', JStr ''Paused''), (''title'', JStr [])]"]
  by (simp add: updates_track_def object_or_empty_def ex_song_def js_simps own_keys_def
      same_spotify_track_def spotify_track_id_def truthy_or_empty_def missing_value_def stable_fields_def)

subsection \<open>Raw Qobuz volumes\<close>

lemma cue_frame [simp]:
  "playback (snd (maybeShowStreamingQueueCue p a b s)) = playback s"
  "volctl (snd (maybeShowStreamingQueueCue p a b s)) = volctl s"
  "qobuzLast (snd (maybeShowStreamingQueueCue p a b s)) = qobuzLast s"
  "footerSource (snd (maybeShowStreamingQueueCue p a b s)) = footerSource s"
  by (simp_all add: maybeShowStreamingQueueCue_def recordPlayingQueueKey_def Let_def
      showStreamingQueueStarted_def showNowPlayingCue_def emit_def)

lemma footer_owner_no_volume:
  "jget d ''volume'' = JUndef \<Longrightarrow>
   playback (updateFooterForStreamingOwner d s) = playback s
   \<and> volctl (updateFooterForStreamingOwner d s) = volctl s"
  by (simp add: updateFooterForStreamingOwner_def Let_def emit_def)

lemma volctl_reconcile [simp]: "volctl (reconcileFooterSource s) = volctl s"
  by (simp add: reconcile_eq)

lemma qobuz_assign_frame [simp]:
  "playback (qobuz_assign v s) = playback s" "volctl (qobuz_assign v s) = volctl s"
  "qobuz_data (qobuz_assign v s) = v"
  by (simp_all add: qobuz_assign_def)

text \<open>The raw engine volume of a Qobuz status never reaches the master volume: a state
  without a source volume leaves the volume of the page and the volume protocol as they are, and
  the cache it leaves behind carries no volume a later repaint could apply.\<close>

theorem raw_qobuz_volume_is_dropped:
  fixes d :: jsval and s :: player and b :: bool
  assumes "truthy d" "\<not> has_key d ''source_volume''"
  defines "t \<equiv> handleIncomingQobuzState b d s"
  shows "playback t = playback s \<and> volctl t = volctl s \<and> jget (qobuz_data t) ''volume'' = JUndef
    \<and> (\<forall>k. k \<noteq> ''volume'' \<longrightarrow> jget (qobuz_data t) k = jget d k)"
  using assms(1,2)
  by (auto simp: t_def handleIncomingQobuzState_def Let_def footer_owner_no_volume)

lemma raw_qobuz_volume_is_dropped_witness:
  "jget (pb (handleIncomingQobuzState True (JObj [(''available'', JBool True),
     (''status'', JStr ''Playing''), (''volume'', JNum (Fin 100))])
     (pb_put ''volume'' (JNum (Fin 20)) init_player))) ''volume'' = JNum (Fin 20)"
  using raw_qobuz_volume_is_dropped [of "JObj [(''available'', JBool True),
     (''status'', JStr ''Playing''), (''volume'', JNum (Fin 100))]" True
     "pb_put ''volume'' (JNum (Fin 20)) init_player"]
  by (simp add: js_simps)

end
