(* ===== verification/Volume.thy ===== *)
theory Volume
  imports Footer_Claims
begin

section \<open>The volume protocol\<close>

text \<open>
  Volume of static/playback_core.js: the slider curve, the debounced and serialised sending of
  volume changes (\<open>queueVolumeSend\<close>, the loop of \<open>sendVolume\<close> around its \<open>await\<close>), and the
  acceptance of volumes pushed by the backend. The loop of \<open>sendVolume\<close> is \<open>volume_loop\<close> up to
  its next request; \<open>volume_settled\<close> is the rest of the loop body when that request settles.
\<close>

definition VOLUME_SEND_DEBOUNCE_MS :: nat where "VOLUME_SEND_DEBOUNCE_MS = 120"

subsection \<open>The slider curve\<close>

definition clampVolumeValue :: "jsnum \<Rightarrow> jsnum" where
  "clampVolumeValue v = js_max 0 (js_min (Fin 100) v)"

text \<open>The curve exponent \<open>VOLUME_CURVE_GAMMA\<close> is 1, so \<open>Math.pow(x, gamma)\<close> is \<open>x\<close>.\<close>

definition volume_curve :: "jsnum \<Rightarrow> jsnum" where
  "volume_curve x = x"

definition sliderVolumeToActualVolume :: "jsnum \<Rightarrow> jsnum" where
  "sliderVolumeToActualVolume sliderValue =
     (let normalized = div_const (clampVolumeValue sliderValue) 100
      in js_round (volume_curve normalized * Fin 100))"

definition actualVolumeToSliderValue :: "jsnum \<Rightarrow> jsnum" where
  "actualVolumeToSliderValue actualVolume =
     (let normalized = div_const (clampVolumeValue actualVolume) 100
      in if normalized \<le> 0 then 0 else js_round (volume_curve normalized * Fin 100))"

subsection \<open>Sending\<close>

text \<open>After the loop: \<open>volumeRequestInFlight = false; updatePlaybackUI()\<close>.\<close>

definition volume_done :: "player \<Rightarrow> player" where
  "volume_done s = updatePlaybackUI (upd_vol (\<lambda>v. v\<lparr>volumeRequestInFlight := False\<rparr>) s)"

function volume_loop :: "player \<Rightarrow> player" where
  "volume_loop s =
     (case pendingVolume (volctl s) of
        None \<Rightarrow> volume_done s
      | Some nextVolume \<Rightarrow>
          let s1 = upd_vol (\<lambda>v. v\<lparr>pendingVolume := None\<rparr>) s in
          if js_seq (JNum nextVolume) (lastConfirmedVolume (volctl s1))
          then volume_loop (upd_vol (\<lambda>v. v\<lparr>optimisticVolume := None\<rparr>) s1)
          else send (RVolume nextVolume)
                 (Fetch ''POST'' ''/api/volume'' (JObj [(''volume'', JNum nextVolume)])) s1)"
  by pat_completeness auto
termination
  by (relation "measure (\<lambda>s. case pendingVolume (volctl s) of None \<Rightarrow> 0 | Some v \<Rightarrow> 1)")
     (auto simp: upd_vol_def)

declare volume_loop.simps [simp del]

definition sendVolume :: "player \<Rightarrow> player" where
  "sendVolume s0 =
     (let s = ensureVolumeBaseline s0 in
      if volumeRequestInFlight (volctl s) \<or> pendingVolume (volctl s) = None then s
      else volume_loop (upd_vol (\<lambda>v. v\<lparr>volumeRequestInFlight := True\<rparr>) s))"

definition volume_failed :: "string \<Rightarrow> player \<Rightarrow> player" where
  "volume_failed message s =
     (let s1 = upd_vol (\<lambda>v. v\<lparr>pendingVolume := None, volumeGestureActive := False,
                             optimisticVolume := None\<rparr>) s;
          s2 = emit (Toast (if message = [] then ''Failed to set volume'' else message) ''error'') s1
      in volume_done s2)"

definition volume_settled :: "jsnum \<Rightarrow> response \<Rightarrow> player \<Rightarrow> player" where
  "volume_settled nextVolume resp s =
     (case resp of
        NetError m \<Rightarrow> volume_failed m s
      | Http st body \<Rightarrow>
          let data = json_or_empty resp in
          if \<not> resp_ok resp then
            (if nullish data then volume_failed (null_read_error data ''detail'') s
             else volume_failed (to_str (js_or (jget data ''detail'') (JStr ''Volume change failed''))) s)
          else if nullish data then volume_failed (null_read_error data ''volume'') s
          else
            (let confirmed = (case jget data ''volume'' of JNum n \<Rightarrow> n | _ \<Rightarrow> nextVolume);
                 s1 = upd_vol (\<lambda>v. v\<lparr>lastConfirmedVolume := JNum confirmed\<rparr>) s;
                 s2 = pb_put ''volume'' (JNum confirmed) s1;
                 s3 = upd_vol (\<lambda>v. v\<lparr>volumeSyncGraceUntil := clock s2 + VOLUME_SYNC_GRACE_MS\<rparr>) s2;
                 s4 = (if \<not> volumeGestureActive (volctl s3) \<and> pendingVolume (volctl s3) = None
                       then upd_vol (\<lambda>v. v\<lparr>optimisticVolume := None\<rparr>) s3 else s3)
             in volume_loop s4))"

definition queueVolumeSend :: "jsnum \<Rightarrow> bool \<Rightarrow> player \<Rightarrow> player" where
  "queueVolumeSend volume immediate s =
     (let s1 = upd_vol (\<lambda>v. v\<lparr>pendingVolume := Some volume\<rparr>) s;
          s2 = clear_timer (volumeTimer (volctl s1)) s1
      in if immediate then sendVolume s2
         else case set_timer TVolume s2 of
                (h, s3) \<Rightarrow> upd_vol (\<lambda>v. v\<lparr>volumeTimer := Some h\<rparr>) s3)"

definition setLocalVolume :: "jsnum \<Rightarrow> player \<Rightarrow> player" where
  "setLocalVolume sliderValue s =
     pb_put ''volume'' (JNum (sliderVolumeToActualVolume (clampVolumeValue sliderValue))) s"

text \<open>The slider's \<open>input\<close> event; the argument is the parsed slider value.\<close>

definition handleVolumeChange :: "jsnum \<Rightarrow> player \<Rightarrow> player" where
  "handleVolumeChange sliderValue s =
     (let actualVolume = sliderVolumeToActualVolume sliderValue;
          s1 = upd_vol (\<lambda>v. v\<lparr>volumeGestureActive := True, optimisticVolume := Some actualVolume,
                 volumeSyncGraceUntil := clock s + VOLUME_SYNC_GRACE_MS\<rparr>) s
      in queueVolumeSend actualVolume False (setLocalVolume sliderValue s1))"

text \<open>The slider's \<open>change\<close> event (static/playback_ui.js): the gesture ends, the value goes out at
  once.\<close>

definition volumeSliderCommitted :: "jsnum \<Rightarrow> player \<Rightarrow> player" where
  "volumeSliderCommitted sliderValue s =
     queueVolumeSend (sliderVolumeToActualVolume sliderValue) True
       (upd_vol (\<lambda>v. v\<lparr>volumeGestureActive := False\<rparr>) s)"

end
