(* ===== verification/Playback_Actions.thy ===== *)
theory Playback_Actions
  imports Streaming_Props Volume
begin

section \<open>Playback actions\<close>

text \<open>
  The commands and reads of static/playback_core.js, each split at its \<open>await\<close>: the part up to
  the request and the continuation (\<open>..._settled\<close>) that receives the response; the buttons'
  \<open>disabled\<close> state and the slider value are arguments. \<open>formatTransitionErrorDetail\<close> is the error
  formatter of static/api.js.
\<close>

subsection \<open>Error messages\<close>

definition formatTransitionErrorDetail :: "jsval \<Rightarrow> string \<Rightarrow> string" where
  "formatTransitionErrorDetail detail fallback =
     (case detail of
        JStr d \<Rightarrow> if trim d \<noteq> [] then trim d else fallback
      | _ \<Rightarrow>
          if truthy_object detail then
            (let message = (case jget detail ''message'' of JStr m \<Rightarrow> trim m | _ \<Rightarrow> []);
                 stage = (case jget detail ''stage'' of JStr st \<Rightarrow> trim st | _ \<Rightarrow> [])
             in if message = [] then fallback
                else if stage \<noteq> [] \<and> \<not> contains_str (lower_case message) (lower_case stage)
                then message @ '' (stage: '' @ stage @ '')''
                else message)
          else fallback)"

text \<open>The message of the error thrown for a refused command; a \<open>null\<close> body fails on reading
  \<open>data.detail\<close> itself.\<close>

definition command_error :: "jsval \<Rightarrow> string \<Rightarrow> string" where
  "command_error data fallback =
     (if nullish data then null_read_error data ''detail''
      else formatTransitionErrorDetail (jget data ''detail'') fallback)"

definition or_default :: "string \<Rightarrow> string \<Rightarrow> string" where
  "or_default message fallback = (if message = [] then fallback else message)"

subsection \<open>Windows and samplerate bursts\<close>

definition FOOTER_SINGLE_TRACK_START_LOCK_MS :: nat where "FOOTER_SINGLE_TRACK_START_LOCK_MS = 5000"

definition LOCAL_HOLD_MS :: nat where "LOCAL_HOLD_MS = 1200"

definition FREEZE_MS :: nat where "FREEZE_MS = 900"

definition SAMPLERATE_BURST_POLL_DELAYS_MS :: "nat list" where
  "SAMPLERATE_BURST_POLL_DELAYS_MS = [0, 120, 280, 520, 900, 1400, 2200, 3200]"

definition triggerSamplerateBurstPolling :: "player \<Rightarrow> player" where
  "triggerSamplerateBurstPolling s =
     (let s1 = fold (\<lambda>h. clear_timer (Some h)) (burstPollTimers s) s;
          s2 = s1\<lparr>burstPollTimers := []\<rparr>
      in fold (\<lambda>delayMs s. case set_timer TBurst s of
                 (h, s') \<Rightarrow> s'\<lparr>burstPollTimers := burstPollTimers s' @ [h]\<rparr>)
           SAMPLERATE_BURST_POLL_DELAYS_MS s2)"

definition fetchSamplerateStatus :: "nat option \<Rightarrow> player \<Rightarrow> player" where
  "fetchSamplerateStatus burst s =
     (if pageHidden s then
        (case burst of None \<Rightarrow> s
         | Some h \<Rightarrow> s\<lparr>burstPollTimers := filter (\<lambda>i. i \<noteq> h) (burstPollTimers s)\<rparr>)
      else send (RSamplerate burst) (Fetch ''GET'' ''/api/audio/samplerate'' JUndef) s)"

definition samplerate_settled :: "nat option \<Rightarrow> response \<Rightarrow> player \<Rightarrow> player" where
  "samplerate_settled burst resp s =
     (let failed = spread (samplerateStatus s) (JObj [(''available'', JBool False), (''active_rate'', JNull)]);
          next = (case resp of
                    NetError m \<Rightarrow> failed
                  | Http st body \<Rightarrow>
                      if \<not> resp_ok resp then failed
                      else case body of None \<Rightarrow> failed | Some data \<Rightarrow> spread (samplerateStatus s) data);
          s1 = s\<lparr>samplerateStatus := next\<rparr>
      in case burst of None \<Rightarrow> s1
         | Some h \<Rightarrow> s1\<lparr>burstPollTimers := filter (\<lambda>i. i \<noteq> h) (burstPollTimers s1)\<rparr>)"

subsection \<open>Status reads\<close>

definition fetchMetadata :: "player \<Rightarrow> player" where
  "fetchMetadata s =
     (if pageHidden s then s
      else send (RMetadata (fst (playback s)) (playbackRefreshSignature (pb s)))
             (Fetch ''GET'' ''/api/status'' JUndef) s)"

text \<open>The response of \<open>/api/status\<close>: \<open>None\<close> when the read fails.\<close>

definition status_body :: "response \<Rightarrow> jsval option" where
  "status_body resp = (case resp of NetError m \<Rightarrow> None | Http st body \<Rightarrow> if resp_ok resp then body else None)"

definition icy_title :: "jsval \<Rightarrow> jsval" where
  "icy_title meta = truthy_or_empty (js_or (jget meta ''icy-title'') (jget meta ''title''))"

text \<open>The live title; \<open>None\<close> when \<open>trim\<close> is not a method of the value, which ends the read.\<close>

definition take_live_title :: "jsval \<Rightarrow> player \<Rightarrow> player option" where
  "take_live_title data s =
     (let meta = jget data ''metadata'' in
      if \<not> truthy meta \<or> own_keys meta = [] then Some s
      else case icy_title meta of
        JStr raw \<Rightarrow>
          (let title = trim raw; track = jget (pb s) ''current_track''
           in Some (if title \<noteq> [] \<and> truthy track \<and> jget track ''source'' = JStr ''radio''
                    then pb_put ''live_title'' (JStr title) s else s))
      | _ \<Rightarrow> None)"

definition metadata_settled :: "nat \<Rightarrow> jsval \<Rightarrow> response \<Rightarrow> player \<Rightarrow> player" where
  "metadata_settled requestPlayback before resp s =
     (case status_body resp of
        None \<Rightarrow> s
      | Some data \<Rightarrow>
          if requestPlayback \<noteq> fst (playback s) then s
          else case mergePlaybackState False data s of (merged, s1) \<Rightarrow>
            if \<not> merged then s1
            else case take_live_title data s1 of
                None \<Rightarrow> s1
              | Some s2 \<Rightarrow>
                  if playbackRefreshSignature (pb s2) = before then s2
                  else updatePlaybackUI (syncFooterOwnershipFromPlayback (pb s2) s2))"

definition fetchPlaybackStatus :: "player \<Rightarrow> player" where
  "fetchPlaybackStatus s =
     send (RStatusLoad (fst (playback s))) (Fetch ''GET'' ''/api/status'' JUndef) s"

definition status_load_settled :: "nat \<Rightarrow> response \<Rightarrow> player \<Rightarrow> player" where
  "status_load_settled requestPlayback resp s =
     (case status_body resp of
        None \<Rightarrow> s
      | Some data \<Rightarrow>
          if requestPlayback \<noteq> fst (playback s) then s
          else case mergePlaybackState False data s of (merged, s1) \<Rightarrow>
            if \<not> merged then s1
            else updatePlaybackUI (syncLibraryStateFromPlaybackContext True
                   (syncFooterOwnershipFromPlayback (pb s1) s1)))"

definition position_poll_tick :: "player \<Rightarrow> player" where
  "position_poll_tick s =
     (if pageHidden s then s
      else if isStreamingFooterSource (footerSource s) then stopPlaybackPositionPoll s
      else send (RPositionPoll (fst (playback s))) (Fetch ''GET'' ''/api/status'' JUndef) s)"

definition position_poll_settled :: "nat \<Rightarrow> response \<Rightarrow> player \<Rightarrow> player" where
  "position_poll_settled requestPlayback resp s =
     (case status_body resp of
        None \<Rightarrow> s
      | Some data \<Rightarrow>
          if requestPlayback \<noteq> fst (playback s) then s
          else case mergePlaybackState False data s of (merged, s1) \<Rightarrow>
            if \<not> merged then s1
            else
              (let s2 = updatePlaybackUI (syncFooterOwnershipFromPlayback (pb s1) s1)
               in if isStreamingFooterSource (footerSource s2) then stopPlaybackPositionPoll s2 else s2))"

subsection \<open>Pause and resume\<close>

definition togglePlayback :: "player \<Rightarrow> player" where
  "togglePlayback s =
     (if playbackActionInFlight s then s
      else
        (let previousPlaying = truthy (jget (pb s) ''playing'');
             previousPaused = truthy (jget (pb s) ''paused'');
             previousEnded = truthy (jget (pb s) ''ended'');
             currentTrack = jget (pb s) ''current_track'';
             previousTrack = (if truthy currentTrack then clone currentTrack else JNull);
             replayRadioTrack = (if \<not> truthy currentTrack then getLastRadioTrack s else JNull);
             canTogglePause = (truthy currentTrack \<and> truthy (jget (pb s) ''current_file'') \<and> \<not> previousEnded)
         in if \<not> canTogglePause \<and> \<not> truthy replayRadioTrack \<and> \<not> truthy currentTrack then s
            else
              (let s1 = (if \<not> canTogglePause \<and> truthy replayRadioTrack
                         then pb_put ''current_track'' replayRadioTrack s else s);
                   requestId = pauseActionRequestId s1 + 1;
                   s2 = s1\<lparr>pauseActionRequestId := requestId, playbackActionInFlight := True\<rparr>;
                   s3 = (if canTogglePause
                         then pb_put ''paused'' (JBool previousPlaying)
                                (pb_put ''playing'' (JBool previousPaused) s2)
                         else pb_put ''ended'' (JBool False) (pb_put ''paused'' (JBool False)
                                (pb_put ''playing'' (JBool True) s2)));
                   s4 = updatePlaybackUI (bumpSpotifyPollGeneration (s3\<lparr>footerSource := FLocal\<rparr>))
               in send (RToggle requestId previousPlaying previousPaused previousEnded previousTrack)
                    (Fetch ''POST'' ''/api/playback/toggle'' JUndef) s4)))"

definition toggle_failed :: "nat \<Rightarrow> bool \<Rightarrow> bool \<Rightarrow> bool \<Rightarrow> jsval \<Rightarrow> string \<Rightarrow> player \<Rightarrow> player" where
  "toggle_failed requestId previousPlaying previousPaused previousEnded previousTrack message s =
     (if requestId \<noteq> pauseActionRequestId s then s
      else
        (let s1 = pb_put ''current_track'' previousTrack (pb_put ''ended'' (JBool previousEnded)
                    (pb_put ''paused'' (JBool previousPaused) (pb_put ''playing'' (JBool previousPlaying) s)));
             s2 = updatePlaybackUI (s1\<lparr>playbackActionInFlight := False\<rparr>)
         in emit (Toast (or_default message ''Failed to toggle playback'') ''error'') s2))"

definition toggle_settled :: "nat \<Rightarrow> bool \<Rightarrow> bool \<Rightarrow> bool \<Rightarrow> jsval \<Rightarrow> response \<Rightarrow> player \<Rightarrow> player" where
  "toggle_settled requestId previousPlaying previousPaused previousEnded previousTrack resp s =
     (let fail = toggle_failed requestId previousPlaying previousPaused previousEnded previousTrack;
          data = json_or_empty resp
      in case resp of
           NetError m \<Rightarrow> fail m s
         | Http st body \<Rightarrow>
             if \<not> resp_ok resp then fail (command_error data ''Playback toggle failed'') s
             else if requestId \<noteq> pauseActionRequestId s then s
             else
               (let s1 = s\<lparr>playbackActionInFlight := False\<rparr> in
                if nullish data then fail (null_read_error data ''playback'') s1
                else
                  (let s2 = (if truthy (jget data ''playback'')
                             then snd (mergePlaybackState False (jget data ''playback'') s1)
                             else pb_put ''paused'' (JBool (jget data ''status'' = JStr ''paused''))
                                    (pb_put ''playing'' (JBool (jget data ''status'' = JStr ''playing'')) s1));
                       s3 = updatePlaybackUI s2
                   in if truthy (jget (pb s3) ''playing'')
                         \<and> jget (jget (pb s3) ''current_track'') ''source'' = JStr ''radio''
                      then fetchMetadata s3 else s3)))"

subsection \<open>Queue commands\<close>

definition armPlaybackAction :: "player \<Rightarrow> player" where
  "armPlaybackAction s = updatePlaybackUI (armFooterContentFreeze FREEZE_MS (s\<lparr>playbackActionInFlight := True\<rparr>))"

text \<open>The \<open>finally\<close> arm of the queue commands.\<close>

definition finish_queue_command :: "player \<Rightarrow> player" where
  "finish_queue_command s = updatePlaybackUI (s\<lparr>playbackActionInFlight := False\<rparr>)"

definition previousInQueue :: "bool \<Rightarrow> player \<Rightarrow> player" where
  "previousInQueue enabled s =
     (if playbackActionInFlight s \<or> \<not> enabled then s
      else send RPrevious (Fetch ''POST'' ''/api/playback/previous'' JUndef) (armPlaybackAction s))"

definition nextInQueue :: "bool \<Rightarrow> player \<Rightarrow> player" where
  "nextInQueue enabled s =
     (if playbackActionInFlight s \<or> \<not> enabled then s
      else send RNext (Fetch ''POST'' ''/api/playback/next'' JUndef) (armPlaybackAction s))"

definition queue_step_failed :: "string \<Rightarrow> string \<Rightarrow> player \<Rightarrow> player" where
  "queue_step_failed message fallback s = emit (Toast (or_default message fallback) ''error'') s"

definition queue_step_settled :: "string \<Rightarrow> string \<Rightarrow> response \<Rightarrow> player \<Rightarrow> player" where
  "queue_step_settled refused failed resp s =
     (let data = json_or_empty resp in
      finish_queue_command
        (case resp of
           NetError m \<Rightarrow> queue_step_failed m failed s
         | Http st body \<Rightarrow>
             if \<not> resp_ok resp then queue_step_failed (command_error data refused) failed s
             else if nullish data then queue_step_failed (null_read_error data ''playback'') failed s
             else triggerSamplerateBurstPolling (updatePlaybackUI
                    (if truthy (jget data ''playback'')
                     then snd (mergePlaybackState False (jget data ''playback'') s) else s))))"

definition previous_settled :: "response \<Rightarrow> player \<Rightarrow> player" where
  "previous_settled = queue_step_settled ''Previous failed'' ''Failed to jump to previous track''"

definition next_settled :: "response \<Rightarrow> player \<Rightarrow> player" where
  "next_settled = queue_step_settled ''Next failed'' ''Failed to jump to next track''"

definition clearQueue :: "bool \<Rightarrow> player \<Rightarrow> player" where
  "clearQueue enabled s =
     (if playbackActionInFlight s \<or> \<not> enabled then s
      else send RClearQueue (Fetch ''POST'' ''/api/playback/clear-queue'' JUndef)
             (updatePlaybackUI (s\<lparr>playbackActionInFlight := True, libraryModeSyncArmed := True\<rparr>)))"

definition clear_queue_settled :: "response \<Rightarrow> player \<Rightarrow> player" where
  "clear_queue_settled resp s =
     (let data = json_or_empty resp; fail = (\<lambda>m. queue_step_failed m ''Failed to clear queue'' s)
      in finish_queue_command
        (case resp of
           NetError m \<Rightarrow> fail m
         | Http st body \<Rightarrow>
             if \<not> resp_ok resp then
               (if nullish data then fail (null_read_error data ''detail'')
                else fail (to_str (js_or (jget data ''detail'') (JStr ''Clear queue failed''))))
             else if nullish data then fail (null_read_error data ''playback'')
             else
               (let s1 = (if truthy (jget data ''playback'')
                          then snd (mergePlaybackState False (jget data ''playback'') s) else s);
                    s2 = s1\<lparr>libraryShuffle := False, libraryLoop := False,
                            lastLibraryContext := Some (False, False)\<rparr>
                in emit (Toast ''Queue cleared'' ''info'') (emit RenderLibraryModes s2))))"

end
