(* ===== verification/Play_Actions.thy ===== *)
theory Play_Actions
  imports Playback_Actions
begin

section \<open>Starting playback\<close>

text \<open>
  The three ways static/playback_core.js starts native playback (a radio station, a local
  track with or without a queue, a list of references), their shared commit path, the cover
  queue, seeking and stopping, the transport dispatch, and the resync after a reconnect. A
  station and a track are found by their id; \<open>None\<close> is the early return with a toast.
\<close>

definition find_by_id :: "jsval \<Rightarrow> jsval list \<Rightarrow> jsval option" where
  "find_by_id i xs = List.find (\<lambda>x. js_seq (jget x ''id'') i) xs"

definition supersedePendingPlayback :: "player \<Rightarrow> player" where
  "supersedePendingPlayback s =
     (let s1 = (if playbackActionInFlight s
                then s\<lparr>pendingPlaybackRequestId := pendingPlaybackRequestId s + 1,
                       playbackActionInFlight := False\<rparr> else s)
      in clearPendingFooterSingleTrackStart None (clearPendingOptimisticTrack None s1))"

definition applyNativePlayResponse :: "jsval \<Rightarrow> player \<Rightarrow> player" where
  "applyNativePlayResponse data s =
     (let s1 = (if truthy data \<and> truthy (jget data ''playback'')
                then snd (mergePlaybackState False (jget data ''playback'') s) else s);
          s2 = downgrade_spotify (s1\<lparr>spotifyTakeoverUntil := 0\<rparr>);
          s3 = syncFooterOwnershipFromPlayback (pb s2) s2
      in updatePlaybackUI (drop_spotify_poll s3))"

text \<open>\<open>const requestId = ++pendingPlaybackRequestId; playbackActionInFlight = true\<close>.\<close>

definition claim_play :: "player \<Rightarrow> nat \<times> player" where
  "claim_play s =
     (let requestId = pendingPlaybackRequestId s + 1
      in (requestId, s\<lparr>pendingPlaybackRequestId := requestId, playbackActionInFlight := True\<rparr>))"

definition native_queue_message :: "jsval \<Rightarrow> string" where
  "native_queue_message queueCount =
     (if Fin 1 < to_num queueCount
      then ''Queue started '' @ mid_dot @ '' '' @ to_str queueCount @ '' tracks''
      else ''Now playing'')"

definition response_queue_count :: "jsval \<Rightarrow> jsval" where
  "response_queue_count data = js_or (jpath data [''playback'', ''queue'', ''count'']) (JNum 0)"

subsection \<open>Radio\<close>

definition optimistic_radio_track :: "jsval \<Rightarrow> jsval" where
  "optimistic_radio_track station =
     JObj [(''id'', JStr (''radio_'' @ to_str (jget station ''id''))),
       (''title'', jget station ''title''),
       (''artist'', js_or (jget station ''artist'') (JStr ''SomaFM'')),
       (''source'', JStr ''radio''), (''url'', jget station ''stream_url'')]"

definition playRadio :: "jsval \<Rightarrow> player \<Rightarrow> player" where
  "playRadio stationId s0 =
     (let s = s0\<lparr>pendingFooterStart := None\<rparr> in
      case find_by_id stationId (stations s) of
        None \<Rightarrow> emit (Toast ''Station not found'' ''error'') s
      | Some station \<Rightarrow>
          (case claim_play (supersedePendingPlayback s) of (requestId, s1) \<Rightarrow>
            (let s2 = armFooterContentFreeze FREEZE_MS (armLocalFooterHold LOCAL_HOLD_MS s1);
                 track = optimistic_radio_track station;
                 s3 = pb_put ''current_track'' track (rememberLastRadioTrack track s2);
                 s4 = s3\<lparr>pendingOptimistic := Some \<lparr>optRequestId = requestId, optTrack = track\<rparr>\<rparr>;
                 s5 = pb_put ''paused'' (JBool False) (pb_put ''playing'' (JBool True)
                        (pb_put ''radio_metadata'' JNull (pb_put ''live_title'' JNull s4)));
                 s6 = downgrade_spotify (s5\<lparr>spotifyTakeoverUntil := 0\<rparr>);
                 s7 = updatePlaybackUI (bumpSpotifyPollGeneration (s6\<lparr>footerSource := FLocal\<rparr>))
             in send (RPlayRadio requestId station)
                  (Fetch ''POST'' ''/api/play'' (JObj [(''source'', JStr ''radio''),
                     (''track_id'', jget station ''id''), (''url'', jget station ''stream_url'')])) s7)))"

definition station_image :: "jsval \<Rightarrow> jsval" where
  "station_image station =
     js_or (jget station ''image'') (js_or (jget station ''image_url'') (jget station ''custom_image_url''))"

definition started_radio_track :: "jsval \<Rightarrow> jsval" where
  "started_radio_track station =
     JObj [(''id'', JStr (''radio_'' @ to_str (jget station ''id''))),
       (''title'', jget station ''title''),
       (''artist'', js_or (jget station ''artist'') (JStr ''Radio'')),
       (''source'', JStr ''radio''),
       (''artwork_available'', JBool (truthy (station_image station))),
       (''artwork_url'', js_or (station_image station) (JStr [])),
       (''artwork_source'', JStr (if truthy (station_image station) then ''radio'' else ''none''))]"

text \<open>The common part of the \<open>catch\<close> arms of \<open>playRadio\<close> and \<open>playLocal\<close>.\<close>

definition play_failed :: "player \<Rightarrow> player" where
  "play_failed s =
     emit (Toast ''Failed to start playback'' ''error'')
       (updatePlaybackUI (pb_put ''paused'' (JBool False) (pb_put ''playing'' (JBool False) s)))"

definition play_radio_settled :: "nat \<Rightarrow> jsval \<Rightarrow> response \<Rightarrow> player \<Rightarrow> player" where
  "play_radio_settled requestId station resp s =
     (if requestId \<noteq> pendingPlaybackRequestId s then s
      else
        (let data = json_or_empty resp;
             s1 = clearPendingOptimisticTrack (Some requestId) (s\<lparr>playbackActionInFlight := False\<rparr>)
         in if \<not> resp_ok resp then play_failed s1
            else
              (let s2 = triggerSamplerateBurstPolling (fetchMetadata (applyNativePlayResponse data s1));
                   playedTrack = js_or (jpath data [''playback'', ''current_track'']) (started_radio_track station)
               in snd (maybeShowNativeTrackCue playedTrack ''Now playing'' JNull s2))))"

subsection \<open>Local tracks\<close>

fun index_of :: "jsval \<Rightarrow> jsval list \<Rightarrow> nat option" where
  "index_of v [] = None"
| "index_of v (x # xs) = (if js_seq x v then Some 0 else map_option Suc (index_of v xs))"

definition uses_queue :: "jsval \<Rightarrow> jsval \<Rightarrow> bool" where
  "uses_queue trackId queueTrackIds =
     (is_arr queueTrackIds \<and> 1 < length (arr_items queueTrackIds)
      \<and> trackId \<in> set (arr_items queueTrackIds))"

definition optimistic_queue :: "jsval \<Rightarrow> jsval \<Rightarrow> player \<Rightarrow> jsval" where
  "optimistic_queue track queueTrackIds s =
     JObj [(''active'', JBool True),
       (''index'', JNum (Fin (case index_of (jget track ''id'') (arr_items queueTrackIds) of
                               None \<Rightarrow> 0 | Some i \<Rightarrow> of_nat i))),
       (''count'', JNum (Fin (of_nat (length (arr_items queueTrackIds))))),
       (''mode'', js_or (jget (jget (pb s) ''queue'') ''mode'') (JStr ''app_replace'')),
       (''tracks'', JArr (filter truthy (List.map (\<lambda>i. case find_by_id i (libraryTracks s) of
                                                  None \<Rightarrow> JUndef | Some t \<Rightarrow> t) (arr_items queueTrackIds)))),
       (''loop'', JBool (libraryLoop s)), (''shuffle'', JBool (libraryShuffle s))]"

definition playLocal :: "jsval \<Rightarrow> jsval \<Rightarrow> player \<Rightarrow> player" where
  "playLocal trackId queueTrackIds s =
     (case find_by_id trackId (libraryTracks s) of
        None \<Rightarrow> emit (Toast ''Track not found'' ''error'') s
      | Some track \<Rightarrow>
          (case claim_play (supersedePendingPlayback s) of (requestId, s1) \<Rightarrow>
            (let shouldUseQueue = uses_queue trackId queueTrackIds;
                 lock = (if shouldUseQueue then None
                         else Some \<lparr>startRequestId = requestId, startTrackId = jget track ''id'',
                                    expiresAt = clock s1 + FOOTER_SINGLE_TRACK_START_LOCK_MS\<rparr>);
                 s2 = armFooterContentFreeze FREEZE_MS (armLocalFooterHold LOCAL_HOLD_MS
                        (s1\<lparr>pendingFooterStart := lock\<rparr>));
                 s3 = pb_put ''current_track'' track (s2\<lparr>libraryModeSyncArmed := True\<rparr>);
                 s4 = s3\<lparr>pendingOptimistic := Some \<lparr>optRequestId = requestId, optTrack = track\<rparr>\<rparr>;
                 s5 = pb_put ''paused'' (JBool False) (pb_put ''playing'' (JBool True)
                        (pb_put ''live_title'' JNull s4));
                 s6 = pb_put ''queue'' (if shouldUseQueue then optimistic_queue track queueTrackIds s5
                                       else buildOptimisticSingleTrackQueue track s5) s5;
                 s7 = downgrade_spotify (s6\<lparr>spotifyTakeoverUntil := 0\<rparr>);
                 s8 = updatePlaybackUI (bumpSpotifyPollGeneration (s7\<lparr>footerSource := FLocal\<rparr>))
             in send (RPlayLocal requestId track)
                  (Fetch ''POST'' ''/api/play'' (JObj [(''source'', JStr ''local''),
                     (''track_id'', jget track ''id''),
                     (''queue_track_ids'', if shouldUseQueue then queueTrackIds else JUndef),
                     (''shuffle'', JBool (libraryShuffle s8)), (''loop'', JBool (libraryLoop s8))])) s8)))"

definition play_local_failed :: "nat \<Rightarrow> player \<Rightarrow> player" where
  "play_local_failed requestId s =
     play_failed ((clearPendingFooterSingleTrackStart (Some requestId)
        (clearPendingOptimisticTrack (Some requestId) (s\<lparr>playbackActionInFlight := False\<rparr>)))
          \<lparr>libraryModeSyncArmed := False\<rparr>)"

text \<open>A \<open>null\<close> body of a successful answer fails on reading \<open>data.playback\<close>, after the commit.\<close>

definition play_local_settled :: "nat \<Rightarrow> jsval \<Rightarrow> response \<Rightarrow> player \<Rightarrow> player" where
  "play_local_settled requestId track resp s =
     (if requestId \<noteq> pendingPlaybackRequestId s then s
      else if \<not> resp_ok resp then play_local_failed requestId s
      else
        (let data = json_or_empty resp;
             s1 = applyNativePlayResponse data
                    (clearPendingOptimisticTrack (Some requestId) (s\<lparr>playbackActionInFlight := False\<rparr>))
         in if nullish data then play_local_failed requestId s1
            else
              (let s2 = (if truthy (jget data ''playback'')
                         then syncLibraryStateFromPlaybackContext True s1 else s1);
                   s3 = triggerSamplerateBurstPolling s2;
                   playedTrack = js_or (jpath data [''playback'', ''current_track'']) track
               in snd (maybeShowNativeTrackCue playedTrack
                         (native_queue_message (response_queue_count data)) JNull s3))))"

subsection \<open>Mixed queues\<close>

definition TIDAL_REF_PREFIX :: string where "TIDAL_REF_PREFIX = ''tidal:''"

text \<open>The counts of the summary are numbers.\<close>

definition mixedQueueSkipNote :: "jsval \<Rightarrow> string" where
  "mixedQueueSkipNote summary =
     (let skipped = js_or (if truthy summary then jget summary ''skipped'' else summary) (JObj []);
          count = (\<lambda>k. to_num (js_or (jget skipped k) (JNum 0)));
          unavailable = count ''unavailable'' + count ''missing'';
          reasons = (if truthy (jget skipped ''tidal_not_connected'') then [''TIDAL is not connected''] else [])
                    @ (if truthy (JNum unavailable) then [num_str unavailable @ '' not available''] else [])
      in if reasons = [] then []
         else ''Starting '' @ to_str (jget summary ''queued'') @ ''/'' @ to_str (jget summary ''requested'')
              @ '' tracks '' @ em_dash @ '' '' @ join_with '', '' reasons)"

definition playLibraryRefs :: "jsval \<Rightarrow> jsval \<Rightarrow> player \<Rightarrow> player" where
  "playLibraryRefs startRef refs s =
     (let queueRefs = filter truthy (arr_items refs) in
      if queueRefs = [] then s
      else
        (let start = (if startRef \<in> set queueRefs then startRef else hd queueRefs);
             startsOnTidal = starts_with (to_str start) TIDAL_REF_PREFIX
         in case claim_play (supersedePendingPlayback s) of (requestId, s1) \<Rightarrow>
              send (RPlayRefs requestId)
                (Fetch ''POST'' ''/api/play'' (JObj
                   [(''source'', JStr (if startsOnTidal then ''tidal'' else ''local'')),
                    (''track_id'', if startsOnTidal
                                  then JStr (drop (length TIDAL_REF_PREFIX) (to_str start)) else start),
                    (''queue_refs'', JArr queueRefs),
                    (''shuffle'', JBool (libraryShuffle s1)), (''loop'', JBool (libraryLoop s1))])) s1))"

definition play_refs_failed :: "string \<Rightarrow> player \<Rightarrow> player" where
  "play_refs_failed message s =
     emit (Toast (or_default message ''Failed to start playback'') ''error'')
       (s\<lparr>playbackActionInFlight := False\<rparr>)"

definition play_refs_settled :: "nat \<Rightarrow> response \<Rightarrow> player \<Rightarrow> player" where
  "play_refs_settled requestId resp s =
     (if requestId \<noteq> pendingPlaybackRequestId s then s
      else
        (let data = json_or_empty resp in
         case resp of
           NetError m \<Rightarrow> play_refs_failed m s
         | Http st body \<Rightarrow>
             if \<not> resp_ok resp then
               (if st = 401 then play_refs_failed ''Connect TIDAL to play these tracks'' s
                else play_refs_failed (command_error data ''Play command failed'') s)
             else
               (let s1 = applyNativePlayResponse data (s\<lparr>playbackActionInFlight := False\<rparr>) in
                if nullish data then play_refs_failed (null_read_error data ''playback'') s1
                else
                  (let s2 = (if truthy (jget data ''playback'')
                             then syncLibraryStateFromPlaybackContext True s1 else s1);
                       s3 = triggerSamplerateBurstPolling s2;
                       playedTrack = js_or (jpath data [''playback'', ''current_track'']) (jget data ''track'');
                       s4 = (if truthy playedTrack
                             then snd (maybeShowNativeTrackCue playedTrack
                                         (native_queue_message (response_queue_count data)) JNull s3)
                             else s3);
                       note = mixedQueueSkipNote (jget data ''queue_summary'')
                   in if note \<noteq> [] then emit (Toast note ''info'') s4 else s4))))"

subsection \<open>The cover queue, seek and stop\<close>

text \<open>Whether a queue index may be played and with which payload (static/playback_ui.js).\<close>

definition coverQueuePlayTarget :: "jsval \<Rightarrow> jsnum \<Rightarrow> jsval" where
  "coverQueuePlayTarget playbackv index =
     (let queue = js_or (jget playbackv ''queue'') (JObj []);
          tracks = arr_items (jget queue ''tracks'')
      in case index of
           Fin r \<Rightarrow>
             if \<not> is_integer index \<or> r < 0 \<or> of_nat (length tracks) \<le> r then JNull
             else if jget queue ''index'' = JNum index then JNull
             else
               (let track = tracks ! nat \<lfloor>r\<rfloor>;
                    modes = [(''shuffle'', JBool (truthy (jget queue ''shuffle''))),
                             (''loop'', JBool (truthy (jget queue ''loop'')))]
                in if \<not> truthy track \<or> \<not> truthy (jget track ''id'') then JNull
                   else if \<exists>item \<in> set tracks. truthy item \<and> jget item ''source'' = JStr ''tidal'' then
                     JObj ([(''source'', JStr (if jget track ''source'' = JStr ''tidal'' then ''tidal'' else ''local'')),
                        (''track_id'', jget track ''id''),
                        (''queue_refs'', JArr (List.map (\<lambda>item. JStr
                           ((if jget item ''source'' = JStr ''tidal'' then TIDAL_REF_PREFIX else [])
                            @ to_str (jget item ''id''))) tracks))] @ modes)
                   else
                     JObj ([(''source'', JStr ''local''), (''track_id'', jget track ''id''),
                        (''queue_track_ids'', JArr (List.map (\<lambda>item. jget item ''id'') tracks))] @ modes))
         | _ \<Rightarrow> JNull)"

definition playCoverQueueIndex :: "jsnum \<Rightarrow> player \<Rightarrow> player" where
  "playCoverQueueIndex index s =
     (let payload = coverQueuePlayTarget (pb s) index in
      if \<not> truthy payload then s else send RCoverPlay (Fetch ''POST'' ''/api/play'' payload) s)"

definition cover_play_settled :: "response \<Rightarrow> player \<Rightarrow> player" where
  "cover_play_settled resp s =
     (let data = json_or_empty resp;
          fail = emit (Toast ''Failed to play track'' ''error'') s
      in if \<not> resp_ok resp \<or> nullish data then fail
         else updatePlaybackUI
                (if truthy (jget data ''playback'')
                 then syncLibraryStateFromPlaybackContext True
                        (snd (mergePlaybackState False (jget data ''playback'') s)) else s))"

definition doSeek :: "jsnum \<Rightarrow> player \<Rightarrow> player" where
  "doSeek seconds s =
     send RSeek (Fetch ''POST'' ''/api/playback/seek'' (JObj [(''position'', JNum seconds)])) s"

definition stopPlayback :: "player \<Rightarrow> player" where
  "stopPlayback s = send RStop (Fetch ''POST'' ''/api/stop'' JUndef) s"

definition stop_settled :: "response \<Rightarrow> player \<Rightarrow> player" where
  "stop_settled resp s =
     (if resp_ok resp then s else emit (Toast ''Failed to stop playback'' ''error'') s)"

subsection \<open>The transport dispatch\<close>

definition globalTogglePlayback :: "player \<Rightarrow> player" where
  "globalTogglePlayback s =
     (case getEffectivePlaybackControlSource s of (source, s1) \<Rightarrow>
        if source = FSpotify then spotifyCommand ''toggle'' s1
        else if source = FQobuz then qobuzCommand ''toggle'' s1
        else togglePlayback s1)"

definition globalPrevious :: "bool \<Rightarrow> player \<Rightarrow> player" where
  "globalPrevious enabled s =
     (case getEffectivePlaybackControlSource s of (source, s1) \<Rightarrow>
        if source = FSpotify then spotifyCommand ''previous'' s1
        else if source = FQobuz then qobuzCommand ''previous'' s1
        else previousInQueue enabled s1)"

definition globalNext :: "bool \<Rightarrow> player \<Rightarrow> player" where
  "globalNext enabled s =
     (case getEffectivePlaybackControlSource s of (source, s1) \<Rightarrow>
        if source = FSpotify then spotifyCommand ''next'' s1
        else if source = FQobuz then qobuzCommand ''next'' s1
        else nextInQueue enabled s1)"

definition globalSeekChange :: "player \<Rightarrow> player" where
  "globalSeekChange s =
     (if isStreamingFooterSource (footerSource s) \<and> truthy (streamingFooterData s)
         \<and> truthy (jget (streamingFooterData s) ''duration'')
      then s\<lparr>streamingSeeking := True\<rparr> else s)"

text \<open>The argument is the parsed value of the seek slider, 0 to 1000.\<close>

definition globalSeekEnd :: "jsnum \<Rightarrow> player \<Rightarrow> player" where
  "globalSeekEnd sliderValue s =
     (if isStreamingFooterSource (footerSource s) then
        (let s1 = s\<lparr>streamingSeeking := False\<rparr>; streamingData = streamingFooterData s1
         in if truthy streamingData \<and> truthy (jget streamingData ''duration'') then
              (let posSec = div_const sliderValue 1000 * to_num (jget streamingData ''duration'')
               in if footerSource s1 = FQobuz then qobuzSeek posSec s1 else spotifySeek posSec s1)
            else s1)
      else s)"

subsection \<open>Resync after a reconnect\<close>

definition resyncPlaybackAfterReconnect :: "player \<Rightarrow> player" where
  "resyncPlaybackAfterReconnect s =
     (let generation = wsReconnectSyncGeneration s + 1;
          s1 = s\<lparr>wsReconnectSyncGeneration := generation\<rparr>;
          s2 = emit (Fetch ''GET'' ''/api/status'' JUndef) s1;
          s3 = emit (Fetch ''GET'' ''/api/spotify/status'' JUndef) s2
      in send (RResync generation (fst (playback s)) (fst (spotifyLast s)) (fst (qobuzLast s)))
           (Fetch ''GET'' ''/api/streaming/qobuz/status'' JUndef) s3)"

text \<open>\<open>Promise.all\<close> resolves once the three reads have; a failed status read resolves to \<open>null\<close>.\<close>

definition resync_settled :: "nat \<Rightarrow> nat \<Rightarrow> nat \<Rightarrow> nat \<Rightarrow> response \<Rightarrow> response \<Rightarrow> response \<Rightarrow> player \<Rightarrow> player" where
  "resync_settled generation requestPlayback requestSpotify requestQobuz resp1 resp2 resp3 s =
     (let playbackv = (case status_body resp1 of None \<Rightarrow> JNull | Some v \<Rightarrow> v);
          spotify = fetchSpotifyStatus resp2; qobuz = fetchQobuzStatus resp3
      in if generation \<noteq> wsReconnectSyncGeneration s then s
         else
           (let s1 = (if truthy playbackv \<and> requestPlayback = fst (playback s) then
                        syncLibraryStateFromPlaybackContext True
                          (syncFooterOwnershipFromPlayback playbackv
                            (seedNativeTrackCueKey (jget playbackv ''current_track'')
                              (snd (mergePlaybackState True playbackv s)))) else s);
                s2 = (if truthy spotify \<and> requestSpotify = fst (spotifyLast s1)
                      then handleIncomingSpotifyState True True spotify s1 else s1);
                s3 = (if truthy qobuz \<and> requestQobuz = fst (qobuzLast s2)
                      then handleIncomingQobuzState True qobuz s2 else s2);
                s4 = updatePlaybackUI (reconcileFooterSource s3);
                s5 = (if shouldPollSpotify s4 then startSpotifyPoll s4 else stopSpotifyPoll s4)
            in if shouldPollQobuz s5 then startQobuzPoll s5 else stopQobuzPoll s5))"

subsection \<open>Interval polls of the native player\<close>

definition startMetadataPolling :: "player \<Rightarrow> player" where
  "startMetadataPolling s =
     (if metadataPollTimer s \<noteq> None then s
      else case set_timer TMetadata s of (h, s1) \<Rightarrow> s1\<lparr>metadataPollTimer := Some h\<rparr>)"

definition stopMetadataPolling :: "player \<Rightarrow> player" where
  "stopMetadataPolling s =
     (if metadataPollTimer s = None then s
      else (clear_timer (metadataPollTimer s) s)\<lparr>metadataPollTimer := None\<rparr>)"

definition startPeakStatusPolling :: "player \<Rightarrow> player" where
  "startPeakStatusPolling s =
     (if peakStatusPollTimer s \<noteq> None then s
      else case set_timer TPeak s of (h, s1) \<Rightarrow> s1\<lparr>peakStatusPollTimer := Some h\<rparr>)"

definition stopPeakStatusPolling :: "player \<Rightarrow> player" where
  "stopPeakStatusPolling s =
     (if peakStatusPollTimer s = None then s
      else (clear_timer (peakStatusPollTimer s) s)\<lparr>peakStatusPollTimer := None\<rparr>)"

definition startSampleratePolling :: "player \<Rightarrow> player" where
  "startSampleratePolling s =
     (if sampleratePollTimer s \<noteq> None then s
      else case set_timer TSamplerate s of (h, s1) \<Rightarrow> s1\<lparr>sampleratePollTimer := Some h\<rparr>)"

definition stopSampleratePolling :: "player \<Rightarrow> player" where
  "stopSampleratePolling s =
     (if sampleratePollTimer s = None then s
      else (clear_timer (sampleratePollTimer s) s)\<lparr>sampleratePollTimer := None\<rparr>)"

end
