(* ===== verification/Player_Quiet.thy ===== *)
theory Player_Quiet
  imports Play_Actions
begin

section \<open>The frames of the playback actions\<close>

text \<open>
  Which of the actions are quiet: all the reads and their continuations, the commit of a play
  response, the freeze window and the samplerate bursts.
\<close>

text \<open>Clearing the timer of a variable and arming a new one in its place.\<close>

lemma quiet_arm_freeze [quiet_intros]:
  assumes "quiet s t"
  shows "quiet s (armFooterContentFreeze ms t)"
proof (rule quiet_trans [OF assms])
  let ?ts = "drop_handle (footerFreezeTimer t) (timers t)"
  have nf: "armFooterContentFreeze ms t = t\<lparr>footerFreezeUntil := clock t + ms,
      timers := ?ts @ [(nextTimer t, TFreeze)], nextTimer := Suc (nextTimer t),
      footerFreezeTimer := Some (nextTimer t)\<rparr>"
    by (simp add: armFooterContentFreeze_def Let_def clear_timer_nf set_timer_def)
  have "polls_inv (armFooterContentFreeze ms t)" if inv: "polls_inv t"
  proof -
    have ok: "handles_ok (timers t) (nextTimer t)"
      and sl: "\<And>sl. sl \<in> set (slots t) \<Longrightarrow> slot_ok (timers t) (nextTimer t) sl"
      using inv by (auto simp: polls_inv_def timers_inv_def)
    have released: "slot_ok ?ts (nextTimer t) (None, (=) TFreeze)"
      by (rule slot_ok_release [OF sl [OF freeze_slot]])
    have freeze: "slot_ok (?ts @ [(nextTimer t, TFreeze)]) (Suc (nextTimer t)) (Some (nextTimer t), (=) TFreeze)"
      by (rule slot_ok_take [OF released]) (simp_all add: ok handles_ok_drop)
    have others: "slot_ok (?ts @ [(nextTimer t, TFreeze)]) (Suc (nextTimer t)) x"
      if "x \<in> set (slots t)" "\<not> snd x TFreeze" for x
      by (rule slot_ok_other [OF slot_ok_drop [OF sl [OF that(1)]] that(2)])
    have polls: "poll_inv (spotifyPoll t) TSpotifyPoll ?ts" "poll_inv (qobuzPoll t) TQobuzPoll ?ts"
      "alive (positionPollTimer t) TPosition ?ts"
      using inv sl [OF freeze_slot]
      by (auto simp: polls_inv_def intro: poll_inv_drop_other alive_drop_other)
    have more: "set ?ts \<subseteq> set (?ts @ [(nextTimer t, TFreeze)])"
      by auto
    have loose: "loose_ok (?ts @ [(nextTimer t, TFreeze)]) (Suc (nextTimer t)) (loose_handles t)"
      using inv by (simp add: polls_inv_def timers_inv_def)
    show ?thesis
      unfolding nf
      using freeze others [OF spotify_slot] others [OF qobuz_slot] others [OF position_slot]
        others [OF volume_slot] others [OF metadata_slot] others [OF peak_slot]
        others [OF samplerate_slot] loose ok poll_inv_more [OF polls(1) more]
        poll_inv_more [OF polls(2) more] alive_more [OF polls(3) more]
      by (simp add: polls_inv_unfold handles_ok_add handles_ok_drop)
  qed
  moreover have "vtimers (armFooterContentFreeze ms t) = vtimers t" if "polls_inv t"
    using drop_vtimers(4) [OF that] by (simp add: nf vtimers_def)
  ultimately show "quiet t (armFooterContentFreeze ms t)"
    by (simp add: quiet_def) (simp add: nf refs_ok_def)
qed

lemma quiet_forget:
  "set ns \<subseteq> loose_handles t \<Longrightarrow> quiet t (t\<lparr>burstPollTimers := ns\<rparr>)"
  by (simp add: quiet_def refs_ok_def vtimers_def polls_inv_def timers_inv_def slots_def)
     (fastforce simp: loose_handles_def intro: loose_ok_subset)

lemma quiet_forget_seek: "quiet t (t\<lparr>spotifySeekCommitTimer := None\<rparr>)"
  by (simp add: quiet_def refs_ok_def vtimers_def polls_inv_def timers_inv_def slots_def)
     (fastforce simp: loose_handles_def intro: loose_ok_subset)

lemma quiet_fold_clear:
  "set hs \<subseteq> loose_handles t \<Longrightarrow> quiet t (fold (\<lambda>h. clear_timer (Some h)) hs t)
   \<and> loose_handles (fold (\<lambda>h. clear_timer (Some h)) hs t) = loose_handles t"
proof (induction hs arbitrary: t)
  case (Cons h hs)
  then show ?case
    using quiet_trans [OF quiet_drop_loose [of h t]] Cons.IH [of "clear_timer (Some h) t"] by simp
qed simp

definition arm_burst :: "player \<Rightarrow> player" where
  "arm_burst s = (case set_timer TBurst s of
     (h, s') \<Rightarrow> s'\<lparr>burstPollTimers := burstPollTimers s' @ [h]\<rparr>)"

lemma quiet_arm_burst: "quiet t (arm_burst t)"
  using quiet_arm_loose [OF quiet_refl, of TBurst "burstPollTimers t @ [nextTimer t]" "spotifySeekCommitTimer t" t]
  by (simp add: arm_burst_def set_timer_def loose_def loose_handles_def subset_insertI2)

lemma quiet_arm_bursts: "quiet s t \<Longrightarrow> quiet s (fold (\<lambda>d. arm_burst) ds t)"
proof (induction ds arbitrary: t)
  case (Cons d ds)
  then show ?case
    using quiet_trans [OF Cons.prems quiet_arm_burst] by simp
qed simp

lemma quiet_burst [quiet_intros]:
  assumes "quiet s t"
  shows "quiet s (triggerSamplerateBurstPolling t)"
proof (rule quiet_trans [OF assms])
  let ?c = "fold (\<lambda>h. clear_timer (Some h)) (burstPollTimers t) t"
  have c: "quiet t ?c" "loose_handles ?c = loose_handles t"
    using quiet_fold_clear [of "burstPollTimers t" t] by (auto simp: loose_handles_def)
  then have "quiet t (?c\<lparr>burstPollTimers := []\<rparr>)"
    using quiet_trans [OF c(1) quiet_forget [of "[]" ?c]] by simp
  moreover have "triggerSamplerateBurstPolling t =
      fold (\<lambda>d. arm_burst) SAMPLERATE_BURST_POLL_DELAYS_MS (?c\<lparr>burstPollTimers := []\<rparr>)"
    by (simp add: triggerSamplerateBurstPolling_def Let_def arm_burst_def [abs_def])
  ultimately show "quiet t (triggerSamplerateBurstPolling t)"
    using quiet_arm_bursts by simp
qed

lemma quiet_drop_burst:
  "quiet s t \<Longrightarrow> quiet s (t\<lparr>burstPollTimers := filter (\<lambda>i. i \<noteq> h) (burstPollTimers t)\<rparr>)"
  by (erule quiet_trans, rule quiet_forget) (auto simp: loose_handles_def)

lemma quiet_reads [quiet_intros]:
  assumes "quiet s t"
  shows "quiet s (fetchSamplerateStatus b t)" "quiet s (samplerate_settled b r t)"
    "quiet s (fetchMetadata t)" "quiet s (fetchPlaybackStatus t)" "quiet s (position_poll_tick t)"
proof -
  show "quiet s (fetchSamplerateStatus b t)"
    using assms by (simp add: fetchSamplerateStatus_def quiet_drop_burst quiet_intros split: option.splits)
  show "quiet s (samplerate_settled b r t)"
    using assms quiet_drop_burst [OF quiet_fields(21) [OF assms]]
    by (simp add: samplerate_settled_def Let_def quiet_intros split: option.splits)
  show "quiet s (fetchMetadata t)" "quiet s (fetchPlaybackStatus t)" "quiet s (position_poll_tick t)"
    using assms by (simp_all add: fetchMetadata_def fetchPlaybackStatus_def position_poll_tick_def quiet_intros)
qed

lemma quiet_live_title:
  "quiet s t \<Longrightarrow> take_live_title d t = Some u \<Longrightarrow> quiet s u"
  by (auto simp: take_live_title_def Let_def quiet_intros split: if_splits jsval.splits)

lemma quiet_merged:
  "quiet s t \<Longrightarrow> mergePlaybackState b d t = (m, u) \<Longrightarrow> quiet s u"
  using quiet_merge [of s t b d] by simp

lemma quiet_read_settlements [quiet_intros]:
  assumes "quiet s t"
  shows "quiet s (metadata_settled n b r t)" "quiet s (status_load_settled n r t)"
    "quiet s (position_poll_settled n r t)" "quiet s (cover_play_settled r t)"
    "quiet s (stop_settled r t)"
proof -
  show "quiet s (metadata_settled n b r t)"
    using assms quiet_merged [OF assms] quiet_live_title [OF quiet_merged [OF assms]]
    by (auto simp: metadata_settled_def quiet_intros split: option.splits prod.splits)
  show "quiet s (status_load_settled n r t)"
    using assms quiet_merged [OF assms]
    by (auto simp: status_load_settled_def quiet_intros split: option.splits prod.splits)
  show "quiet s (position_poll_settled n r t)"
    using assms quiet_merged [OF assms]
    by (auto simp: position_poll_settled_def Let_def quiet_intros split: option.splits prod.splits)
  show "quiet s (cover_play_settled r t)" "quiet s (stop_settled r t)"
    using assms by (simp_all add: cover_play_settled_def stop_settled_def Let_def quiet_intros)
qed

lemma quiet_background_commands [quiet_intros]:
  assumes "quiet s t"
  shows "quiet s (playCoverQueueIndex i t)" "quiet s (doSeek n t)" "quiet s (stopPlayback t)"
    "quiet s (qobuzCommand a t)" "quiet s (qobuzSeek n t)" "quiet s (globalSeekChange t)"
    "quiet s (initSpotify t)" "quiet s (switchTab tab t)"
    "quiet s (spotify_poll_tick g t)" "quiet s (qobuz_poll_tick g t)"
  using assms
  by (simp_all add: playCoverQueueIndex_def doSeek_def stopPlayback_def qobuzCommand_def qobuzSeek_def
      globalSeekChange_def initSpotify_def fetch_spotify_def fetch_qobuz_def switchTab_def
      spotify_poll_tick_def qobuz_poll_tick_def Let_def quiet_intros)

lemma quiet_spotify_seek [quiet_intros]:
  assumes "quiet s t"
  shows "quiet s (spotifySeek n t)"
proof (cases "spotifySeekCommitTimer t")
  case None
  then show ?thesis
    using assms by (simp add: spotifySeek_def quiet_intros)
next
  case (Some h)
  let ?c = "clear_timer (Some h) t"
  have "quiet t ?c"
    using Some by (intro quiet_drop_loose) (simp add: loose_handles_def)
  then have "quiet s (?c\<lparr>spotifySeekCommitTimer := None\<rparr>)"
    using assms quiet_trans quiet_forget_seek by blast
  with Some show ?thesis
    by (simp add: spotifySeek_def quiet_intros)
qed

lemma quiet_seek_end [quiet_intros]: "quiet s t \<Longrightarrow> quiet s (globalSeekEnd n t)"
  by (simp add: globalSeekEnd_def Let_def quiet_intros)

lemma quiet_commit [quiet_intros]: "quiet s t \<Longrightarrow> quiet s (applyNativePlayResponse d t)"
  by (simp add: applyNativePlayResponse_def Let_def quiet_intros)

lemma quiet_play_failed [quiet_intros]: "quiet s t \<Longrightarrow> quiet s (play_failed t)"
  by (simp add: play_failed_def quiet_intros)

subsection \<open>Interval switches\<close>

lemmas switch_defs = startMetadataPolling_def stopMetadataPolling_def startPeakStatusPolling_def
  stopPeakStatusPolling_def startSampleratePolling_def stopSampleratePolling_def

lemma polls_inv_switch_on:
  assumes "polls_inv s"
  shows "polls_inv (startMetadataPolling s)" "polls_inv (startPeakStatusPolling s)"
    "polls_inv (startSampleratePolling s)"
  using assms
  by (auto simp: switch_defs set_timer_def polls_inv_unfold slot_ok_other handles_ok_add
      intro: slot_ok_take poll_inv_more)

lemma polls_inv_switch_off:
  assumes "polls_inv s"
  shows "polls_inv (stopMetadataPolling s)" "polls_inv (stopPeakStatusPolling s)"
    "polls_inv (stopSampleratePolling s)"
  using assms
  by (auto simp: switch_defs clear_timer_nf polls_inv_unfold slot_rules
      intro: slot_ok_release poll_inv_drop_other alive_drop_other)

lemma switch_vtimers:
  assumes "polls_inv s"
  shows "vtimers (startMetadataPolling s) = vtimers s" "vtimers (stopMetadataPolling s) = vtimers s"
    "vtimers (startPeakStatusPolling s) = vtimers s" "vtimers (stopPeakStatusPolling s) = vtimers s"
    "vtimers (startSampleratePolling s) = vtimers s" "vtimers (stopSampleratePolling s) = vtimers s"
  using drop_vtimers(5-7) [OF assms]
  by (simp_all add: switch_defs vtimers_def set_timer_def clear_timer_nf)

lemma quiet_switches:
  "quiet s (startMetadataPolling s)" "quiet s (stopMetadataPolling s)"
  "quiet s (startPeakStatusPolling s)" "quiet s (stopPeakStatusPolling s)"
  "quiet s (startSampleratePolling s)" "quiet s (stopSampleratePolling s)"
  by (simp_all add: quiet_def polls_inv_switch_on polls_inv_switch_off switch_vtimers)
     (simp_all add: switch_defs set_timer_def clear_timer_nf refs_ok_def)

lemma quiet_switch_ops [quiet_intros]:
  assumes "quiet s t"
  shows "quiet s (startMetadataPolling t)" "quiet s (stopMetadataPolling t)"
    "quiet s (startPeakStatusPolling t)" "quiet s (stopPeakStatusPolling t)"
    "quiet s (startSampleratePolling t)" "quiet s (stopSampleratePolling t)"
  by (rule quiet_trans [OF assms], rule quiet_switches)+

end
