(* ===== verification/Player_Machine.thy ===== *)
theory Player_Machine
  imports Player_Quiet
begin

section \<open>The event machine of the player frontend\<close>

text \<open>
  The page as an event-driven program: the user acts, a timer fires, a request settles, a message
  arrives on the WebSocket, the clock moves. \<open>step\<close> runs the handler the sources register for the
  event; handlers run to completion, as in the language, and every interleaving of settlements,
  timers and pushes is a list of events. \<open>handle_push\<close> is \<open>handleWebSocketMessage\<close> of
  static/app.js for the message types that reach the playback state.
\<close>

subsection \<open>Pushes\<close>

definition samplerate_signature :: "jsval \<Rightarrow> jsval" where
  "samplerate_signature data =
     JObj [(''trackId'', or_null (jpath data [''current_track'', ''id''])),
       (''source'', or_null (jpath data [''current_track'', ''source''])),
       (''file'', or_null (jget data ''current_file'')),
       (''playing'', JBool (truthy (jget data ''playing''))),
       (''paused'', JBool (truthy (jget data ''paused''))),
       (''ended'', JBool (truthy (jget data ''ended'')))]"

text \<open>A missing argument (\<open>undefined\<close>) stands for the current playback state.\<close>

definition sync_from :: "jsval \<Rightarrow> player \<Rightarrow> player" where
  "sync_from data s = syncFooterOwnershipFromPlayback (if data = JUndef then pb s else data) s"

text \<open>The merge, the cue and the ownership of a playback push.\<close>

definition ws_playback_commit :: "jsval \<Rightarrow> player \<Rightarrow> player" where
  "ws_playback_commit data s =
     (let previousNativePlayback = clone (pb s);
          s1 = snd (mergePlaybackState False data s);
          s2 = snd (maybeCueNativePlaybackTrack data previousNativePlayback s1);
          clearLock = footerSingleTrackStartLockSatisfied (pb s2) s2;
          s3 = sync_from data s2;
          s4 = (if clearLock then clearPendingFooterSingleTrackStart None s3 else s3)
      in syncLibraryStateFromPlaybackContext False s4)"

definition ws_playback :: "jsval \<Rightarrow> player \<Rightarrow> player" where
  "ws_playback data s =
     (let nextSignature = samplerate_signature data;
          previousSignature = lastSamplerateSignature s;
          s5 = ws_playback_commit data s;
          s6 = updatePlaybackUI (s5\<lparr>playbackActionInFlight := False\<rparr>);
          s7 = (if jpath data [''current_track'', ''source''] = JStr ''local''
                   \<and> nextSignature \<noteq> previousSignature
                then triggerSamplerateBurstPolling s6 else s6)
      in s7\<lparr>lastSamplerateSignature := nextSignature\<rparr>)"

text \<open>\<open>data && data.available && (data.status === 'Playing' || ... || data.title)\<close>.\<close>

definition provider_active :: "jsval \<Rightarrow> bool" where
  "provider_active data =
     (truthy data \<and> truthy (jget data ''available'')
      \<and> (jget data ''status'' \<in> {JStr ''Playing'', JStr ''Paused''} \<or> truthy (jget data ''title'')))"

definition ws_spotify :: "jsval \<Rightarrow> player \<Rightarrow> player" where
  "ws_spotify data s =
     (let s1 = handleIncomingSpotifyState True True data s in
      if provider_active data then
        (let s2 = reconcileFooterSource s1
         in if footerSource s2 = FSpotify then startSpotifyPoll s2 else s2)
      else s1)"

definition ws_qobuz :: "jsval \<Rightarrow> player \<Rightarrow> player" where
  "ws_qobuz data s =
     (let s1 = handleIncomingQobuzState True data s in
      if provider_active data then
        (let s2 = reconcileFooterSource s1
         in if footerSource s2 = FQobuz then startQobuzPoll s2 else s2)
      else s1)"

definition ws_init_player :: "jsval \<Rightarrow> player \<Rightarrow> player" where
  "ws_init_player pstate s =
     (let s1 = seedNativeTrackCueKey (jget pstate ''current_track'')
                 (snd (mergePlaybackState True pstate s))
      in updatePlaybackUI (syncLibraryStateFromPlaybackContext True (sync_from pstate s1)))"

definition ws_init_page :: "jsval \<Rightarrow> player \<Rightarrow> player" where
  "ws_init_page data s =
     (let s1 = (if truthy (jget data ''player'')
                then ws_init_player (jpath data [''player'', ''state'']) s else s);
          s2 = (if truthy (jget data ''library'') then s1\<lparr>libraryTracks := []\<rparr> else s1)
      in if truthy (jget data ''stations'')
         then s2\<lparr>stations := arr_items (jget data ''stations'')\<rparr> else s2)"

definition ws_init_providers :: "jsval \<Rightarrow> player \<Rightarrow> player" where
  "ws_init_providers data s =
     (let s1 = (if truthy (jget data ''spotify'')
                then handleIncomingSpotifyState True True (jget data ''spotify'') s else s)
      in if truthy (jget data ''qobuz'')
         then handleIncomingQobuzState True (jget data ''qobuz'') s1 else s1)"

text \<open>The module object of the radio tab exports no \<open>setCatalogStations\<close>, so a message with a
  catalog ends in an exception there, as one with a player but no state does on reading its track;
  the exception is caught by the socket handler and drops the rest of the message.\<close>

definition ws_init :: "jsval \<Rightarrow> player \<Rightarrow> player" where
  "ws_init data s =
     (if nullish data
         \<or> (truthy (jget data ''player'') \<and> nullish (jpath data [''player'', ''state''])) then s
      else if truthy (jget data ''catalog'') then ws_init_page data s
      else resyncPlaybackAfterReconnect (ws_init_providers data (ws_init_page data s)))"

definition handle_push :: "string \<Rightarrow> jsval \<Rightarrow> player \<Rightarrow> player" where
  "handle_push type data s =
     (if type = ''init'' then ws_init data s
      else if type = ''playback'' then ws_playback data s
      else if type = ''spotify'' then ws_spotify data s
      else if type = ''qobuz'' then ws_qobuz data s
      else if type = ''playback_peak_warning''
      then pb_put ''output_peak_warning'' (js_or data (jget (pb s) ''output_peak_warning'')) s
      else s)"

subsection \<open>Timers and settlements\<close>

definition one_shot :: "timer \<Rightarrow> bool" where
  "one_shot k = (k \<in> {TVolume, TFreeze, TBurst, TSpotifyRefresh, TSpotifySeekCommit})"

fun fire :: "timer \<Rightarrow> nat \<Rightarrow> player \<Rightarrow> player" where
  "fire TVolume h s = sendVolume s"
| "fire TFreeze h s = updatePlaybackUI (s\<lparr>footerFreezeTimer := None\<rparr>)"
| "fire TMetadata h s = fetchMetadata s"
| "fire TPeak h s = fetchMetadata s"
| "fire TSamplerate h s = fetchSamplerateStatus None s"
| "fire TBurst h s = fetchSamplerateStatus (Some h) s"
| "fire TPosition h s = position_poll_tick s"
| "fire (TSpotifyPoll g) h s = spotify_poll_tick g s"
| "fire (TQobuzPoll g) h s = qobuz_poll_tick g s"
| "fire TSpotifyRefresh h s = fetch_spotify RSpotifyBurst s"
| "fire TSpotifySeekCommit h s = fetch_spotify RSpotifyFetch s"

definition timer_fires :: "nat \<Rightarrow> player \<Rightarrow> player" where
  "timer_fires h s =
     (case map_of (timers s) h of
        None \<Rightarrow> s
      | Some k \<Rightarrow> fire k h (if one_shot k then clear_timer (Some h) s else s))"

text \<open>The continuation of a request; only the resync waits for three responses.\<close>

fun settle :: "request \<Rightarrow> response \<Rightarrow> response \<Rightarrow> response \<Rightarrow> player \<Rightarrow> player" where
  "settle (RToggle n a b c d) r r2 r3 s = toggle_settled n a b c d r s"
| "settle RPrevious r r2 r3 s = previous_settled r s"
| "settle RNext r r2 r3 s = next_settled r s"
| "settle RClearQueue r r2 r3 s = clear_queue_settled r s"
| "settle (RPlayRadio n d) r r2 r3 s = play_radio_settled n d r s"
| "settle (RPlayLocal n d) r r2 r3 s = play_local_settled n d r s"
| "settle (RPlayRefs n) r r2 r3 s = play_refs_settled n r s"
| "settle RCoverPlay r r2 r3 s = cover_play_settled r s"
| "settle (RVolume v) r r2 r3 s = volume_settled v r s"
| "settle (RMetadata n b) r r2 r3 s = metadata_settled n b r s"
| "settle (RStatusLoad n) r r2 r3 s = status_load_settled n r s"
| "settle (RPositionPoll n) r r2 r3 s = position_poll_settled n r s"
| "settle RStop r r2 r3 s = stop_settled r s"
| "settle (RSpotifyPoll g) r r2 r3 s = spotify_poll_settled g r s"
| "settle (RQobuzPoll g) r r2 r3 s = qobuz_poll_settled g r s"
| "settle (RSpotifyCommand g i) r r2 r3 s = spotify_command_settled g i r s"
| "settle (RSpotifyRecover g i) r r2 r3 s = spotify_recover_settled g i r s"
| "settle RSpotifySeek r r2 r3 s = spotify_seek_settled r s"
| "settle RSpotifyFetch r r2 r3 s = handleIncomingSpotifyState True True (fetchSpotifyStatus r) s"
| "settle RSpotifyBurst r r2 r3 s = spotify_burst_settled r s"
| "settle (RQobuzCommand a p) r r2 r3 s = qobuz_command_settled a p r s"
| "settle RQobuzSeek r r2 r3 s = qobuz_seek_settled r s"
| "settle RQobuzFetch r r2 r3 s = handleIncomingQobuzState True (fetchQobuzStatus r) s"
| "settle RSpotifyInit r r2 r3 s = spotify_init_settled r s"
| "settle RSeek r r2 r3 s = s"
| "settle (RSamplerate b) r r2 r3 s = samplerate_settled b r s"
| "settle (RResync g p a b) r r2 r3 s = resync_settled g p a b r r2 r3 s"

definition remove_nth :: "nat \<Rightarrow> 'a list \<Rightarrow> 'a list" where
  "remove_nth i xs = take i xs @ drop (Suc i) xs"

definition request_settles :: "nat \<Rightarrow> response \<Rightarrow> response \<Rightarrow> response \<Rightarrow> player \<Rightarrow> player" where
  "request_settles i r r2 r3 s =
     (if i < length (inflight s)
      then settle (inflight s ! i) r r2 r3 (s\<lparr>inflight := remove_nth i (inflight s)\<rparr>) else s)"

subsection \<open>Events\<close>

datatype event =
    Tick nat
  | PageHidden bool
  | SourceMode bool
  | LibraryLoaded "jsval list"
  | Fires nat
  | Settles nat response response response
  | Push string jsval
  | PlayRadio jsval
  | PlayLocal jsval jsval
  | PlayRefs jsval jsval
  | TogglePressed
  | PreviousPressed bool
  | NextPressed bool
  | ClearQueuePressed bool
  | VolumeDragged jsnum
  | VolumeCommitted jsnum
  | SeekDragged
  | SeekReleased jsnum
  | CoverRow jsnum
  | StopPressed
  | SeekTo jsnum
  | SpotifyAction string
  | QobuzAction string
  | TabOpened string
  | PageLoaded
  | MetadataPolling bool
  | PeakPolling bool
  | SampleratePolling bool
  | Resync

fun step :: "event \<Rightarrow> player \<Rightarrow> player" where
  "step (Tick ms) s = s\<lparr>clock := clock s + ms\<rparr>"
| "step (PageHidden b) s = s\<lparr>pageHidden := b\<rparr>"
| "step (SourceMode b) s = s\<lparr>nonAppSourceMode := b\<rparr>"
| "step (LibraryLoaded ts) s = s\<lparr>libraryTracks := ts\<rparr>"
| "step (Fires h) s = timer_fires h s"
| "step (Settles i r r2 r3) s = request_settles i r r2 r3 s"
| "step (Push type data) s = handle_push type data s"
| "step (PlayRadio i) s = playRadio i s"
| "step (PlayLocal i q) s = playLocal i q s"
| "step (PlayRefs st rs) s = playLibraryRefs st rs s"
| "step TogglePressed s = globalTogglePlayback s"
| "step (PreviousPressed b) s = globalPrevious b s"
| "step (NextPressed b) s = globalNext b s"
| "step (ClearQueuePressed b) s = clearQueue b s"
| "step (VolumeDragged v) s = handleVolumeChange v s"
| "step (VolumeCommitted v) s = volumeSliderCommitted v s"
| "step SeekDragged s = globalSeekChange s"
| "step (SeekReleased v) s = globalSeekEnd v s"
| "step (CoverRow i) s = playCoverQueueIndex i s"
| "step StopPressed s = stopPlayback s"
| "step (SeekTo n) s = doSeek n s"
| "step (SpotifyAction a) s = spotifyCommand a s"
| "step (QobuzAction a) s = qobuzCommand a s"
| "step (TabOpened t) s = switchTab t s"
| "step PageLoaded s = fetchPlaybackStatus (initSpotify s)"
| "step (MetadataPolling b) s = (if b then startMetadataPolling s else stopMetadataPolling s)"
| "step (PeakPolling b) s = (if b then startPeakStatusPolling s else stopPeakStatusPolling s)"
| "step (SampleratePolling b) s = (if b then startSampleratePolling s else stopSampleratePolling s)"
| "step Resync s = resyncPlaybackAfterReconnect s"

inductive player_step :: "player \<Rightarrow> player \<Rightarrow> bool" where
  player_step: "player_step s (step e s)"

inductive_cases player_stepE: "player_step s t"

end
