(* ===== verification/Player_Inv.thy ===== *)
theory Player_Inv
  imports Player_Machine
begin

section \<open>Invariants of the player machine\<close>

text \<open>
  Every reachable state of the machine keeps: the timer and poll invariant; fresh object
  references; at most one volume request in flight, and no volume the user set without a request
  or a timer that will send it; a Spotify transport lock that some request in flight will
  release; and a transport lock that some request in flight will release.
\<close>

fun is_volume :: "request \<Rightarrow> bool" where
  "is_volume (RVolume v) = True"
| "is_volume r = False"

fun is_spotify_command :: "request \<Rightarrow> bool" where
  "is_spotify_command (RSpotifyCommand g b) = True"
| "is_spotify_command (RSpotifyRecover g b) = True"
| "is_spotify_command r = False"

definition vol_inv :: "player \<Rightarrow> bool" where
  "vol_inv s =
     (length (filter is_volume (inflight s)) = (if volumeRequestInFlight (volctl s) then 1 else 0)
      \<and> (pendingVolume (volctl s) \<noteq> None \<longrightarrow> volumeRequestInFlight (volctl s) \<or> vtimers s \<noteq> []))"

definition spotify_inv :: "player \<Rightarrow> bool" where
  "spotify_inv s = (spotifyCommandInFlight s \<longrightarrow> (\<exists>r \<in> set (inflight s). is_spotify_command r))"

text \<open>A request whose settlement releases the transport lock, whatever the response is.\<close>

fun releases :: "request \<Rightarrow> player \<Rightarrow> bool" where
  "releases (RToggle n a b c d) s = (n = pauseActionRequestId s)"
| "releases RPrevious s = True"
| "releases RNext s = True"
| "releases RClearQueue s = True"
| "releases (RPlayRadio n d) s = (n = pendingPlaybackRequestId s)"
| "releases (RPlayLocal n d) s = (n = pendingPlaybackRequestId s)"
| "releases (RPlayRefs n) s = (n = pendingPlaybackRequestId s)"
| "releases r s = False"

definition action_inv :: "player \<Rightarrow> bool" where
  "action_inv s = (playbackActionInFlight s \<longrightarrow> (\<exists>r \<in> set (inflight s). releases r s))"

definition base_inv :: "player \<Rightarrow> bool" where
  "base_inv s = (polls_inv s \<and> refs_ok s \<and> vol_inv s \<and> spotify_inv s)"

definition player_inv :: "player \<Rightarrow> bool" where
  "player_inv s = (base_inv s \<and> action_inv s)"

subsection \<open>Quiet operations keep everything\<close>

lemma background_not [simp]:
  "background r \<Longrightarrow> \<not> is_volume r" "background r \<Longrightarrow> \<not> releases r s"
  by (cases r; simp)+

lemma base_quiet:
  assumes "quiet s t" "base_inv s"
  shows "base_inv t"
proof -
  obtain us where us: "inflight t = inflight s @ us" "\<forall>r \<in> set us. background r"
    using assms(1) by (auto simp: quiet_def more_reads_def)
  then have "filter is_volume us = []"
    by (simp add: filter_empty_conv)
  then show ?thesis
    using assms us by (auto simp: base_inv_def quiet_def vol_inv_def spotify_inv_def send_view_def)
qed

lemma releases_cong:
  "pauseActionRequestId s = pauseActionRequestId t \<Longrightarrow> pendingPlaybackRequestId s = pendingPlaybackRequestId t
   \<Longrightarrow> releases r s = releases r t"
  by (cases r) simp_all

lemma action_quiet: "quiet s t \<Longrightarrow> action_inv s \<Longrightarrow> action_inv t"
  using releases_cong [of s t] by (auto simp: action_inv_def quiet_def more_reads_def)

lemma player_quiet: "quiet s t \<Longrightarrow> player_inv s \<Longrightarrow> player_inv t"
  by (simp add: player_inv_def base_quiet action_quiet)

lemma action_idle: "\<not> playbackActionInFlight s \<Longrightarrow> action_inv s"
  by (simp add: action_inv_def)

lemma quiet_idle: "quiet s t \<Longrightarrow> playbackActionInFlight t = playbackActionInFlight s"
  by (simp add: quiet_def)

subsection \<open>Updates of the transport lock\<close>

lemma base_view:
  assumes "timer_view s = timer_view t" "playback s = playback t" "spotifyLast s = spotifyLast t"
    "qobuzLast s = qobuzLast t" "nextRef s = nextRef t" "inflight s = inflight t" "volctl s = volctl t"
    "spotifyCommandInFlight s = spotifyCommandInFlight t"
  shows "base_inv s = base_inv t"
  using assms polls_inv_view [OF assms(1)]
  by (simp add: base_inv_def refs_ok_def vol_inv_def spotify_inv_def vtimers_def timer_view_def)

lemma base_flags [simp]:
  "base_inv (s\<lparr>playbackActionInFlight := b\<rparr>) = base_inv s"
  "base_inv (s\<lparr>pauseActionRequestId := n\<rparr>) = base_inv s"
  "base_inv (s\<lparr>pendingPlaybackRequestId := n\<rparr>) = base_inv s"
  "base_inv (s\<lparr>clock := n\<rparr>) = base_inv s" "base_inv (s\<lparr>pageHidden := b\<rparr>) = base_inv s"
  "base_inv (s\<lparr>wsReconnectSyncGeneration := n\<rparr>) = base_inv s"
  by (rule base_view; simp add: timer_view_def slots_def loose_handles_def)+

lemma base_send:
  "base_inv s \<Longrightarrow> \<not> is_volume r \<Longrightarrow> base_inv (send r e s)"
  using polls_inv_view [of "send r e s" s]
  by (auto simp: base_inv_def refs_ok_def vol_inv_def spotify_inv_def vtimers_def timer_view_def
      slots_def loose_handles_def send_def)

lemma send_frame [simp]:
  "playbackActionInFlight (send r e s) = playbackActionInFlight s"
  "pendingPlaybackRequestId (send r e s) = pendingPlaybackRequestId s"
  "pauseActionRequestId (send r e s) = pauseActionRequestId s"
  "inflight (send r e s) = inflight s @ [r]" "volctl (send r e s) = volctl s"
  "timers (send r e s) = timers s"
  by (simp_all add: send_def)

text \<open>An action that locks the transport ends with a request that will release it.\<close>

lemma action_sent: "releases r s \<Longrightarrow> action_inv (send r e s)"
  using releases_cong [of "send r e s" s r] by (auto simp: action_inv_def)

lemma quiet_ids:
  "quiet s t \<Longrightarrow> pauseActionRequestId t = pauseActionRequestId s"
  "quiet s t \<Longrightarrow> pendingPlaybackRequestId t = pendingPlaybackRequestId s"
  by (simp_all add: quiet_def)

lemma player_locked_send:
  assumes "quiet u t" "base_inv u" "releases r u" "\<not> is_volume r"
  shows "player_inv (send r e t)"
  using base_quiet [OF assms(1,2)] assms(3,4) releases_cong [of t u r] quiet_ids [OF assms(1)]
  by (simp add: player_inv_def base_send action_sent)

text \<open>A settlement that releases the lock and is quiet afterwards.\<close>

lemma player_released:
  assumes "quiet (u\<lparr>playbackActionInFlight := False\<rparr>) t" "base_inv u"
  shows "player_inv t"
  using base_quiet [OF assms(1)] quiet_idle [OF assms(1)] assms(2)
  by (simp add: player_inv_def action_idle)

subsection \<open>Commands of the native player\<close>

lemma player_toggle:
  assumes inv: "player_inv s"
  shows "player_inv (togglePlayback s)"
proof -
  have sent: "player_inv (send (RToggle (Suc (pauseActionRequestId s1)) a b c d) e t)"
    if "player_inv s1" "quiet (s1\<lparr>pauseActionRequestId := Suc (pauseActionRequestId s1),
          playbackActionInFlight := True\<rparr>) t" for s1 a b c d e t
    by (rule player_locked_send [OF that(2)]) (use that(1) in \<open>simp_all add: player_inv_def\<close>)
  have replay: "player_inv (pb_put k v s)" for k v
    using player_quiet [OF _ inv, of "pb_put k v s"] by (simp add: quiet_intros)
  show ?thesis
    using inv unfolding togglePlayback_def Let_def
    by (simp add: sent [OF inv] sent [OF replay] quiet_intros)
qed

lemma player_queue_step:
  assumes "player_inv s" "\<not> is_volume r" "releases r s"
  shows "player_inv (send r e (armPlaybackAction s))"
  by (rule player_locked_send [where u = "s\<lparr>playbackActionInFlight := True\<rparr>"])
     (use assms in \<open>simp_all add: armPlaybackAction_def quiet_intros player_inv_def
        releases_cong [of "s\<lparr>playbackActionInFlight := True\<rparr>" s]\<close>)

lemma player_queue_commands:
  assumes "player_inv s"
  shows "player_inv (previousInQueue b s)" "player_inv (nextInQueue b s)" "player_inv (clearQueue b s)"
proof -
  show "player_inv (previousInQueue b s)" "player_inv (nextInQueue b s)"
    using assms player_queue_step [OF assms] by (simp_all add: previousInQueue_def nextInQueue_def)
  have "player_inv (send RClearQueue e (updatePlaybackUI
      (s\<lparr>playbackActionInFlight := True, libraryModeSyncArmed := True\<rparr>)))" for e
    by (rule player_locked_send [where u = "s\<lparr>playbackActionInFlight := True\<rparr>"])
       (use assms in \<open>simp_all add: quiet_intros player_inv_def\<close>)
  then show "player_inv (clearQueue b s)"
    using assms by (simp add: clearQueue_def)
qed

text \<open>A play claims a fresh request id and locks the transport.\<close>

lemma base_supersede: "base_inv s \<Longrightarrow> base_inv (supersedePendingPlayback s)"
  unfolding supersedePendingPlayback_def Let_def
  by (rule base_quiet [where s = "if playbackActionInFlight s
      then s\<lparr>pendingPlaybackRequestId := pendingPlaybackRequestId s + 1, playbackActionInFlight := False\<rparr> else s"])
     (simp_all add: quiet_intros)

lemma player_claimed:
  assumes "base_inv s" "quiet (snd (claim_play (supersedePendingPlayback s))) t"
    "\<And>u. releases r u \<longleftrightarrow> fst (claim_play (supersedePendingPlayback s)) = pendingPlaybackRequestId u"
    "\<not> is_volume r"
  shows "player_inv (send r e t)"
  by (rule player_locked_send [OF assms(2)])
     (use assms base_supersede [OF assms(1)] in \<open>simp_all add: claim_play_def Let_def\<close>)

lemma player_play_radio:
  assumes "player_inv s"
  shows "player_inv (playRadio i s)"
proof -
  let ?s = "s\<lparr>pendingFooterStart := None\<rparr>"
  have s: "player_inv ?s" "base_inv ?s"
    using assms player_quiet [OF _ assms, of ?s] by (simp_all add: quiet_intros player_inv_def)
  show ?thesis
  proof (cases "find_by_id i (stations ?s)")
    case None
    then show ?thesis
      using player_quiet [OF _ s(1), of "emit (Toast ''Station not found'' ''error'') ?s"]
      by (simp add: playRadio_def Let_def quiet_intros)
  next
    case (Some station)
    then show ?thesis
      unfolding playRadio_def Let_def
      by (simp add: case_prod_unfold)
         (rule player_claimed [OF s(2)]; simp add: quiet_intros)
  qed
qed

lemma player_play_local:
  assumes "player_inv s"
  shows "player_inv (playLocal i q s)"
proof (cases "find_by_id i (libraryTracks s)")
  case None
  then show ?thesis
    using player_quiet [OF _ assms, of "emit (Toast ''Track not found'' ''error'') s"]
    by (simp add: playLocal_def quiet_intros)
next
  case (Some track)
  have "base_inv s"
    using assms by (simp add: player_inv_def)
  with Some show ?thesis
    unfolding playLocal_def Let_def
    by (simp add: case_prod_unfold) (intro impI conjI player_claimed; simp add: quiet_intros)
qed

lemma player_play_refs:
  assumes "player_inv s"
  shows "player_inv (playLibraryRefs st rs s)"
proof -
  have "base_inv s"
    using assms by (simp add: player_inv_def)
  then have "player_inv (send (RPlayRefs (fst (claim_play (supersedePendingPlayback s)))) e
      (snd (claim_play (supersedePendingPlayback s))))" for e
    by (rule player_claimed) (simp_all add: quiet_intros)
  then show ?thesis
    using assms by (simp add: playLibraryRefs_def Let_def case_prod_unfold)
qed

subsection \<open>Settlements of the native player\<close>

text \<open>The state after a transport request left the list: everything but the lock invariant.\<close>

lemma base_remove:
  assumes "base_inv s" "i < length (inflight s)" "\<not> is_volume (inflight s ! i)"
    "\<not> is_spotify_command (inflight s ! i)"
  shows "base_inv (s\<lparr>inflight := remove_nth i (inflight s)\<rparr>)"
proof -
  have split: "inflight s = take i (inflight s) @ inflight s ! i # drop (Suc i) (inflight s)"
    using assms(2) by (rule id_take_nth_drop)
  have "filter is_volume (remove_nth i (inflight s)) = filter is_volume (inflight s)"
    using assms(3) by (subst (2) split) (simp add: remove_nth_def)
  moreover have "\<exists>r \<in> set (remove_nth i (inflight s)). is_spotify_command r"
    if "r \<in> set (inflight s)" "is_spotify_command r" for r
    using that assms(4) split
    by (metis (no_types, lifting) Un_iff insert_iff list.simps(15) remove_nth_def set_append)
  moreover have "polls_inv (s\<lparr>inflight := remove_nth i (inflight s)\<rparr>) = polls_inv s"
    by (rule polls_inv_view) (simp add: timer_view_def slots_def loose_handles_def)
  ultimately show ?thesis
    using assms(1) by (auto simp: base_inv_def refs_ok_def vol_inv_def spotify_inv_def vtimers_def)
qed

lemma action_remove:
  assumes "action_inv s" "i < length (inflight s)" "\<not> releases (inflight s ! i) s"
  shows "action_inv (s\<lparr>inflight := remove_nth i (inflight s)\<rparr>)"
proof -
  have "inflight s = take i (inflight s) @ inflight s ! i # drop (Suc i) (inflight s)"
    using assms(2) by (rule id_take_nth_drop)
  then have "\<exists>r \<in> set (remove_nth i (inflight s)). releases r s" if "r \<in> set (inflight s)" "releases r s" for r
    using that assms(3)
    by (metis (no_types, lifting) Un_iff insert_iff list.simps(15) remove_nth_def set_append)
  then show ?thesis
    using assms(1) releases_cong [of "s\<lparr>inflight := remove_nth i (inflight s)\<rparr>" s]
    by (auto simp: action_inv_def)
qed

text \<open>What the settlement of a transport request does to the lock: a live one releases it, a
  stale one (a toggle or a play superseded by a newer one) leaves everything as it is.\<close>

definition released :: "player \<Rightarrow> bool" where
  "released s = (base_inv s \<and> \<not> playbackActionInFlight s)"

lemma released_player: "released s \<Longrightarrow> player_inv s"
  by (simp add: released_def player_inv_def action_idle)

lemma released_quiet: "quiet s t \<Longrightarrow> released s \<Longrightarrow> released t"
  by (simp add: released_def base_quiet quiet_idle)

lemma released_unlock: "base_inv s \<Longrightarrow> released (s\<lparr>playbackActionInFlight := False\<rparr>)"
  by (simp add: released_def)

lemma released_after: "base_inv s \<Longrightarrow> quiet (s\<lparr>playbackActionInFlight := False\<rparr>) t \<Longrightarrow> released t"
  by (rule released_quiet [OF _ released_unlock])

lemma base_after: "base_inv s \<Longrightarrow> quiet (s\<lparr>playbackActionInFlight := False\<rparr>) t \<Longrightarrow> base_inv t"
  using released_after released_def by blast

lemma toggle_failed_releases:
  assumes "base_inv s" "n = pauseActionRequestId s"
  shows "released (toggle_failed n a b c d m s)"
proof -
  let ?u = "pb_put ''current_track'' d (pb_put ''ended'' (JBool c)
      (pb_put ''paused'' (JBool b) (pb_put ''playing'' (JBool a) s)))"
  have "base_inv ?u"
    by (rule base_quiet [OF _ assms(1)]) (simp add: quiet_intros)
  then show ?thesis
    using released_after [of ?u] assms(2) by (simp add: toggle_failed_def Let_def quiet_intros)
qed

lemma toggle_stale: "n \<noteq> pauseActionRequestId s \<Longrightarrow> toggle_settled n a b c d r s = s"
  by (cases r) (simp_all add: toggle_settled_def toggle_failed_def Let_def)

lemma toggle_releases:
  assumes "base_inv s" "n = pauseActionRequestId s"
  shows "released (toggle_settled n a b c d r s)"
proof (cases r)
  case (NetError m)
  then show ?thesis
    using assms by (simp add: toggle_settled_def toggle_failed_releases)
next
  case (Http st body)
  let ?u = "s\<lparr>playbackActionInFlight := False\<rparr>"
  have u: "base_inv ?u" "n = pauseActionRequestId ?u"
    using assms by simp_all
  show ?thesis
    using assms(2) toggle_failed_releases [OF assms] toggle_failed_releases [OF u]
    unfolding toggle_settled_def Let_def Http
    by simp (intro conjI impI released_after [OF assms(1)]; simp add: quiet_intros)
qed

lemma queue_step_releases:
  assumes "base_inv s"
  shows "released (queue_step_settled rf fl r s)" "released (clear_queue_settled r s)"
proof -
  have finish: "released (finish_queue_command t)" if "quiet s t" for t
    using base_quiet [OF that assms] unfolding finish_queue_command_def
    by (rule released_after) (simp add: quiet_intros)
  show "released (queue_step_settled rf fl r s)"
    unfolding queue_step_settled_def Let_def
    by (rule finish) (simp add: queue_step_failed_def quiet_intros split: response.splits)
  show "released (clear_queue_settled r s)"
    unfolding clear_queue_settled_def Let_def
    by (rule finish) (simp add: queue_step_failed_def quiet_intros split: response.splits)
qed

lemma play_releases:
  assumes "base_inv s" "n = pendingPlaybackRequestId s"
  shows "released (play_radio_settled n d r s)" "released (play_local_settled n d r s)"
    "released (play_refs_settled n r s)"
proof -
  let ?u = "s\<lparr>playbackActionInFlight := False\<rparr>"
  show "released (play_radio_settled n d r s)"
    using assms(2) by (simp add: play_radio_settled_def Let_def)
      (intro conjI impI released_after [OF assms(1)]; simp add: quiet_intros)
  have local_failed: "released (play_local_failed n t)" if "base_inv t" for t
    unfolding play_local_failed_def by (rule released_after [OF that]) (simp add: quiet_intros)
  have committed: "base_inv (applyNativePlayResponse v (clearPendingOptimisticTrack m ?u))"
    "base_inv (applyNativePlayResponse v ?u)" for v m
    by (rule base_after [OF assms(1)]; simp add: quiet_intros)+
  show "released (play_local_settled n d r s)"
    using assms(2) local_failed [OF assms(1)] local_failed [OF committed(1)]
    by (simp add: play_local_settled_def Let_def)
       (intro conjI impI released_after [OF assms(1)]; simp add: quiet_intros)
  have refs_failed: "released (play_refs_failed m t)" if "base_inv t" for m t
    unfolding play_refs_failed_def by (rule released_after [OF that]) (simp add: quiet_intros)
  show "released (play_refs_settled n r s)"
    using assms(2) refs_failed [OF assms(1)] refs_failed [OF committed(2)]
    by (cases r; simp add: play_refs_settled_def Let_def)
       (intro conjI impI released_after [OF assms(1)]; simp add: quiet_intros)
qed

lemma play_stale:
  "n \<noteq> pendingPlaybackRequestId s \<Longrightarrow> play_radio_settled n d r s = s"
  "n \<noteq> pendingPlaybackRequestId s \<Longrightarrow> play_local_settled n d r s = s"
  "n \<noteq> pendingPlaybackRequestId s \<Longrightarrow> play_refs_settled n r s = s"
  by (simp_all add: play_radio_settled_def play_local_settled_def play_refs_settled_def)

subsection \<open>Volume\<close>

text \<open>Operations that leave the transport lock alone and drop no request.\<close>

definition same_lock :: "player \<Rightarrow> player \<Rightarrow> bool" where
  "same_lock s t =
     (playbackActionInFlight t = playbackActionInFlight s
      \<and> pauseActionRequestId t = pauseActionRequestId s
      \<and> pendingPlaybackRequestId t = pendingPlaybackRequestId s
      \<and> set (inflight s) \<subseteq> set (inflight t))"

lemma same_lock_refl [simp]: "same_lock s s"
  by (simp add: same_lock_def)

lemma same_lock_trans: "same_lock s t \<Longrightarrow> same_lock t u \<Longrightarrow> same_lock s u"
  by (auto simp: same_lock_def)

lemma same_lock_quiet: "quiet s t \<Longrightarrow> same_lock s t"
  by (auto simp: same_lock_def quiet_def more_reads_def)

lemma same_lock_action: "same_lock s t \<Longrightarrow> action_inv s \<Longrightarrow> action_inv t"
  using releases_cong [of s t] by (auto simp: action_inv_def same_lock_def)

lemma same_lock_steps:
  "same_lock s t \<Longrightarrow> same_lock s (upd_vol f t)" "same_lock s t \<Longrightarrow> same_lock s (send r e t)"
  "same_lock s t \<Longrightarrow> same_lock s (clear_timer h t)" "same_lock s t \<Longrightarrow> same_lock s (snd (set_timer k t))"
  "same_lock s t \<Longrightarrow> same_lock s (pb_put k' v t)" "same_lock s t \<Longrightarrow> same_lock s (ensureVolumeBaseline t)"
  "same_lock s t \<Longrightarrow> same_lock s (emit e t)" "same_lock s t \<Longrightarrow> same_lock s (updatePlaybackUI t)"
proof -
  show "same_lock s t \<Longrightarrow> same_lock s (updatePlaybackUI t)"
    by (erule same_lock_trans, rule same_lock_quiet) (simp add: quiet_intros)
qed (auto simp: same_lock_def upd_vol_def send_def clear_timer_def set_timer_def pb_put_def
    ensureVolumeBaseline_def emit_def)

lemma volume_loop_lock: "same_lock s (volume_loop s)"
proof (induction s rule: volume_loop.induct)
  case (1 s)
  show ?case
  proof (cases "pendingVolume (volctl s)")
    case None
    then show ?thesis
      by (simp add: volume_loop.simps [of s] volume_done_def same_lock_steps)
  next
    case (Some v)
    let ?s1 = "upd_vol (\<lambda>v. v\<lparr>pendingVolume := None\<rparr>) s"
    let ?s2 = "upd_vol (\<lambda>v. v\<lparr>optimisticVolume := None\<rparr>) ?s1"
    have "same_lock s ?s2" "same_lock s (send r e ?s1)" for r e
      by (simp_all add: same_lock_steps)
    moreover have "same_lock s (volume_loop ?s2)" if "js_seq (JNum v) (lastConfirmedVolume (volctl ?s1))"
      using 1 [OF Some refl that] \<open>same_lock s ?s2\<close> same_lock_trans by blast
    ultimately show ?thesis
      unfolding volume_loop.simps [of s] Let_def by (simp add: Some)
  qed
qed

lemma volume_locks:
  "same_lock s (sendVolume s)" "same_lock s (queueVolumeSend v b s)" "same_lock s (handleVolumeChange v s)"
  "same_lock s (volumeSliderCommitted v s)" "same_lock s (volume_settled v r s)"
proof -
  show snd: "same_lock s (sendVolume s)" for s
    using same_lock_trans [OF _ volume_loop_lock] by (simp add: sendVolume_def Let_def same_lock_steps)
  show queue: "same_lock s (queueVolumeSend v b s)" for s v b
    using same_lock_trans [OF _ snd]
    by (simp add: queueVolumeSend_def Let_def case_prod_unfold same_lock_steps)
  show "same_lock s (handleVolumeChange v s)" "same_lock s (volumeSliderCommitted v s)"
    using same_lock_trans [OF _ queue]
    by (simp_all add: handleVolumeChange_def volumeSliderCommitted_def setLocalVolume_def Let_def same_lock_steps)
  have fail: "same_lock s (volume_failed m s)" for m
    by (simp add: volume_failed_def volume_done_def Let_def same_lock_steps)
  show "same_lock s (volume_settled v r s)"
    using same_lock_trans [OF _ volume_loop_lock] fail
    by (simp add: volume_settled_def Let_def same_lock_steps split: response.splits)
qed

text \<open>Before the send loop: the flag says a request is in flight, but none is.\<close>

definition pre_loop :: "player \<Rightarrow> bool" where
  "pre_loop s = (polls_inv s \<and> refs_ok s \<and> spotify_inv s \<and> filter is_volume (inflight s) = [])"

lemma pre_loop_upd_vol [simp]:
  "(\<And>v. volumeTimer (f v) = volumeTimer v) \<Longrightarrow> pre_loop (upd_vol f s) = pre_loop s"
  by (simp add: pre_loop_def) (simp add: upd_vol_def refs_ok_def spotify_inv_def)

lemma pre_loop_more [simp]:
  "pre_loop (pb_put k v s) = pre_loop s" "pre_loop (emit e s) = pre_loop s"
  by (simp_all add: pre_loop_def) (simp_all add: pb_put_def emit_def refs_ok_def spotify_inv_def)

lemma volctl_upd_vol [simp]: "volctl (upd_vol f s) = f (volctl s)"
  by (simp add: upd_vol_def)

lemma inflight_upd_vol [simp]: "inflight (upd_vol f s) = inflight s"
  by (simp add: upd_vol_def)

lemma volctl_emit [simp]: "volctl (emit e s) = volctl s"
  by (simp add: emit_def)

lemma base_volume_done:
  assumes "pre_loop s" "pendingVolume (volctl s) = None"
  shows "base_inv (volume_done s)"
proof -
  have "base_inv (upd_vol (\<lambda>v. v\<lparr>volumeRequestInFlight := False\<rparr>) s)"
    using assms pre_loop_upd_vol [of "\<lambda>v. v\<lparr>volumeRequestInFlight := False\<rparr>" s]
    by (simp add: base_inv_def vol_inv_def pre_loop_def)
  then show ?thesis
    unfolding volume_done_def by (rule base_quiet [rotated]) (simp add: quiet_intros)
qed

lemma base_volume_loop:
  assumes "pre_loop s" "volumeRequestInFlight (volctl s)"
  shows "base_inv (volume_loop s)"
  using assms
proof (induction s rule: volume_loop.induct)
  case (1 s)
  show ?case
  proof (cases "pendingVolume (volctl s)")
    case None
    with "1.prems" show ?thesis
      by (simp add: volume_loop.simps [of s] base_volume_done)
  next
    case (Some v)
    let ?s = "upd_vol (\<lambda>v. v\<lparr>pendingVolume := None\<rparr>) s"
    have pre: "pre_loop ?s"
      using "1.prems" by simp
    have "base_inv (send (RVolume v) e ?s)" for e
      using pre "1.prems" polls_inv_view [of "send (RVolume v) e ?s" ?s]
      by (auto simp: base_inv_def pre_loop_def vol_inv_def refs_ok_def spotify_inv_def timer_view_def
          slots_def loose_handles_def send_def)
    with 1 Some show ?thesis
      by (simp add: volume_loop.simps [of s] Let_def)
  qed
qed

lemma pre_loop_base: "base_inv s \<Longrightarrow> \<not> volumeRequestInFlight (volctl s) \<Longrightarrow> pre_loop s"
  by (simp add: base_inv_def pre_loop_def vol_inv_def)

lemma base_send_volume:
  assumes "pre_loop s \<or> base_inv s" "volumeRequestInFlight (volctl s) \<longrightarrow> base_inv s"
  shows "base_inv (sendVolume s) \<or> (\<not> volumeRequestInFlight (volctl s) \<and> pendingVolume (volctl s) = None)"
proof -
  let ?s = "ensureVolumeBaseline s"
  have view: "volumeRequestInFlight (volctl ?s) = volumeRequestInFlight (volctl s)"
    "pendingVolume (volctl ?s) = pendingVolume (volctl s)" "pre_loop ?s = pre_loop s"
    by (simp_all add: ensureVolumeBaseline_def)
  show ?thesis
  proof (cases "volumeRequestInFlight (volctl s)")
    case True
    then have "base_inv ?s"
      using assms(2) base_quiet [OF quiet_baseline [OF quiet_refl]] by blast
    with True show ?thesis
      by (simp add: sendVolume_def view Let_def)
  next
    case False
    then have "pre_loop ?s"
      using assms(1) pre_loop_base view(3) by blast
    then have "base_inv (volume_loop (upd_vol (\<lambda>v. v\<lparr>volumeRequestInFlight := True\<rparr>) ?s))"
      by (intro base_volume_loop) simp_all
    with False show ?thesis
      unfolding sendVolume_def Let_def view by simp
  qed
qed

text \<open>Clearing the volume timer, and arming it again.\<close>

lemma polls_inv_drop_slot:
  assumes "polls_inv s" "(v, mine) \<in> set (slots s)" "mine TPosition = False"
    "\<And>g. \<not> mine (TSpotifyPoll g)" "\<And>g. \<not> mine (TQobuzPoll g)"
  shows "polls_inv (clear_timer v s)"
proof -
  have sl: "\<And>x. x \<in> set (slots s) \<Longrightarrow> slot_ok (timers s) (nextTimer s) x"
    using assms(1) by (auto simp: polls_inv_def timers_inv_def)
  have "poll_inv (spotifyPoll s) TSpotifyPoll (drop_handle v (timers s))"
    "poll_inv (qobuzPoll s) TQobuzPoll (drop_handle v (timers s))"
    "alive (positionPollTimer s) TPosition (drop_handle v (timers s))"
    using assms(1,3-5) sl [OF assms(2)]
    by (auto simp: polls_inv_def intro: poll_inv_drop_other alive_drop_other)
  moreover have "slots (clear_timer v s) = slots s" "loose_handles (clear_timer v s) = loose_handles s"
    by (simp_all add: clear_timer_def slots_def loose_handles_def)
  ultimately show ?thesis
    using assms(1)
    by (simp add: polls_inv_def timers_inv_def) (simp add: clear_timer_nf handles_ok_drop slot_ok_drop)
qed

lemma polls_inv_arm_volume:
  assumes "polls_inv s"
  shows "polls_inv (upd_vol (\<lambda>v. v\<lparr>volumeTimer := Some (nextTimer s)\<rparr>)
           (snd (set_timer TVolume (clear_timer (volumeTimer (volctl s)) s))))"
proof -
  let ?ts = "drop_handle (volumeTimer (volctl s)) (timers s)"
  let ?ts' = "?ts @ [(nextTimer s, TVolume)]"
  have c: "polls_inv (clear_timer (volumeTimer (volctl s)) s)"
    by (rule polls_inv_drop_slot [OF assms volume_slot]) simp_all
  have ok: "handles_ok ?ts (nextTimer s)"
    and sl: "\<And>sl. sl \<in> set (slots s) \<Longrightarrow> slot_ok ?ts (nextTimer s) sl"
    using assms by (auto simp: polls_inv_def timers_inv_def handles_ok_drop slot_ok_drop)
  have "slot_ok (timers s) (nextTimer s) (volumeTimer (volctl s), (=) TVolume)"
    using assms volume_slot by (auto simp: polls_inv_def timers_inv_def)
  then have volume: "slot_ok ?ts' (Suc (nextTimer s)) (Some (nextTimer s), (=) TVolume)"
    by (intro slot_ok_take slot_ok_release ok) simp_all
  have others: "slot_ok ?ts' (Suc (nextTimer s)) x" if "x \<in> set (slots s)" "\<not> snd x TVolume" for x
    by (rule slot_ok_other [OF sl [OF that(1)] that(2)])
  have more: "set ?ts \<subseteq> set ?ts'"
    by auto
  have c': "poll_inv (spotifyPoll s) TSpotifyPoll ?ts" "poll_inv (qobuzPoll s) TQobuzPoll ?ts"
    "alive (positionPollTimer s) TPosition ?ts" "loose_ok ?ts' (Suc (nextTimer s)) (loose_handles s)"
    using c assms by (simp_all add: polls_inv_def timers_inv_def clear_timer_nf)
  show ?thesis
    using volume others [OF spotify_slot] others [OF qobuz_slot] others [OF position_slot]
      others [OF freeze_slot] others [OF metadata_slot] others [OF peak_slot]
      others [OF samplerate_slot] c'(4) handles_ok_add [OF ok] poll_inv_more [OF c'(1) more]
      poll_inv_more [OF c'(2) more] alive_more [OF c'(3) more]
    by (simp add: polls_inv_unfold clear_timer_nf set_timer_def upd_vol_def)
qed

lemma clear_timer_frame [simp]:
  "inflight (clear_timer h s) = inflight s" "volctl (clear_timer h s) = volctl s"
  "refs_ok (clear_timer h s) = refs_ok s" "spotify_inv (clear_timer h s) = spotify_inv s"
  "nextTimer (clear_timer h s) = nextTimer s" "timers (clear_timer h s) = drop_handle h (timers s)"
  by (simp_all add: clear_timer_nf refs_ok_def spotify_inv_def)

lemma clear_volume_timer:
  assumes "base_inv s"
  shows "polls_inv (clear_timer (volumeTimer (volctl s)) s)"
    "pre_loop (clear_timer (volumeTimer (volctl s)) s) \<or> volumeRequestInFlight (volctl s)"
    "volumeRequestInFlight (volctl s) \<or> pendingVolume (volctl s) = None \<Longrightarrow>
       base_inv (clear_timer (volumeTimer (volctl s)) s)"
proof -
  show "polls_inv (clear_timer (volumeTimer (volctl s)) s)"
    using assms by (intro polls_inv_drop_slot [OF _ volume_slot]) (simp_all add: base_inv_def)
  then show "pre_loop (clear_timer (volumeTimer (volctl s)) s) \<or> volumeRequestInFlight (volctl s)"
    "volumeRequestInFlight (volctl s) \<or> pendingVolume (volctl s) = None \<Longrightarrow>
       base_inv (clear_timer (volumeTimer (volctl s)) s)"
    using assms by (auto simp: base_inv_def pre_loop_def vol_inv_def split: if_splits)
qed

lemma sendVolume_nothing:
  "pendingVolume (volctl s) = None \<Longrightarrow> sendVolume s = ensureVolumeBaseline s"
  by (simp add: sendVolume_def ensureVolumeBaseline_def Let_def)

lemma base_clear_and_send:
  assumes "base_inv s"
  shows "base_inv (sendVolume (clear_timer (volumeTimer (volctl s)) s))"
proof (cases "pendingVolume (volctl s) = None")
  case True
  then show ?thesis
    using clear_volume_timer(3) [OF assms] base_quiet [OF quiet_baseline [OF quiet_refl]]
    by (simp add: sendVolume_nothing)
next
  case False
  then show ?thesis
    using base_send_volume [of "clear_timer (volumeTimer (volctl s)) s"]
      clear_volume_timer(2,3) [OF assms] by auto
qed

lemma base_pending:
  assumes "base_inv s"
  shows "let t = upd_vol (\<lambda>v. v\<lparr>pendingVolume := Some n\<rparr>) s in
    polls_inv t \<and> refs_ok t \<and> spotify_inv t
    \<and> length (filter is_volume (inflight t)) = (if volumeRequestInFlight (volctl t) then 1 else 0)"
  using assms by (simp add: base_inv_def vol_inv_def)
    (simp add: upd_vol_def refs_ok_def spotify_inv_def)

lemma base_queue:
  assumes "base_inv s"
  shows "base_inv (queueVolumeSend n b s)"
proof -
  let ?t = "upd_vol (\<lambda>v. v\<lparr>pendingVolume := Some n\<rparr>) s"
  let ?c = "clear_timer (volumeTimer (volctl ?t)) ?t"
  have t: "polls_inv ?t" "refs_ok ?t" "spotify_inv ?t"
    "length (filter is_volume (inflight ?t)) = (if volumeRequestInFlight (volctl ?t) then 1 else 0)"
    using base_pending [OF assms, of n] by (auto simp: Let_def)
  have c: "polls_inv ?c"
    using polls_inv_drop_slot [OF t(1) volume_slot] by simp
  show ?thesis
  proof (cases b)
    case True
    have "base_inv ?c \<or> pre_loop ?c" "volumeRequestInFlight (volctl ?c) \<longrightarrow> base_inv ?c"
      using t c by (auto simp: base_inv_def pre_loop_def vol_inv_def split: if_splits)
    then have "base_inv (sendVolume ?c)"
      using base_send_volume [of ?c] by auto
    with True show ?thesis
      by (simp add: queueVolumeSend_def Let_def)
  next
    case False
    let ?u = "upd_vol (\<lambda>v. v\<lparr>volumeTimer := Some (nextTimer ?t)\<rparr>) (snd (set_timer TVolume ?c))"
    have "polls_inv ?u"
      by (rule polls_inv_arm_volume [OF t(1)])
    moreover have "vtimers ?u \<noteq> []" "refs_ok ?u = refs_ok ?t" "spotify_inv ?u = spotify_inv ?t"
      "inflight ?u = inflight ?t" "volumeRequestInFlight (volctl ?u) = volumeRequestInFlight (volctl ?t)"
      by (simp_all add: vtimers_def set_timer_def upd_vol_def refs_ok_def spotify_inv_def clear_timer_nf)
    ultimately have "base_inv ?u"
      using t(2-4) by (simp add: base_inv_def vol_inv_def)
    moreover have "queueVolumeSend n b s = ?u"
      using False by (simp add: queueVolumeSend_def Let_def case_prod_unfold) (simp add: set_timer_def)
    ultimately show ?thesis by simp
  qed
qed

lemma base_volume_changes:
  assumes "base_inv s"
  shows "base_inv (handleVolumeChange v s)" "base_inv (volumeSliderCommitted v s)"
proof -
  show "base_inv (handleVolumeChange v s)"
    unfolding handleVolumeChange_def Let_def
    by (intro base_queue base_quiet [OF _ assms])
       (simp add: setLocalVolume_def quiet_intros quiet_upd_vol send_view_def)
  show "base_inv (volumeSliderCommitted v s)"
    unfolding volumeSliderCommitted_def Let_def
    by (intro base_queue base_quiet [OF _ assms]) (simp add: quiet_upd_vol send_view_def)
qed

lemma pre_loop_remove_volume:
  assumes "base_inv s" "i < length (inflight s)" "is_volume (inflight s ! i)"
  shows "pre_loop (s\<lparr>inflight := remove_nth i (inflight s)\<rparr>)
    \<and> volumeRequestInFlight (volctl s)"
proof -
  have split: "inflight s = take i (inflight s) @ inflight s ! i # drop (Suc i) (inflight s)"
    using assms(2) by (rule id_take_nth_drop)
  have one: "length (filter is_volume (inflight s)) \<le> 1" "volumeRequestInFlight (volctl s)"
    if "length (filter is_volume (inflight s)) \<noteq> 0"
    using assms(1) that by (auto simp: base_inv_def vol_inv_def split: if_splits)
  have len: "length (filter is_volume (inflight s)) =
      Suc (length (filter is_volume (remove_nth i (inflight s))))"
    using assms(3) by (subst split) (simp add: remove_nth_def)
  then have none: "filter is_volume (remove_nth i (inflight s)) = []"
    using one by simp
  have "\<not> is_spotify_command (inflight s ! i)"
    using assms(3) by (cases "inflight s ! i") simp_all
  then have "\<exists>r \<in> set (remove_nth i (inflight s)). is_spotify_command r"
    if "r \<in> set (inflight s)" "is_spotify_command r" for r
    using that split
    by (metis (no_types, lifting) Un_iff insert_iff list.simps(15) remove_nth_def set_append)
  moreover have "polls_inv (s\<lparr>inflight := remove_nth i (inflight s)\<rparr>) = polls_inv s"
    by (rule polls_inv_view) (simp add: timer_view_def slots_def loose_handles_def)
  ultimately show ?thesis
    using assms(1) none one len by (auto simp: base_inv_def pre_loop_def refs_ok_def spotify_inv_def)
qed

lemma base_volume_settled:
  assumes "pre_loop s" "volumeRequestInFlight (volctl s)"
  shows "base_inv (volume_settled v r s)"
proof -
  have failed: "base_inv (volume_failed m s)" for m
    unfolding volume_failed_def Let_def
    by (rule base_volume_done) (simp_all add: assms)
  have flag: "volumeRequestInFlight (volctl (pb_put k x t)) = volumeRequestInFlight (volctl t)" for k x t
    by (simp add: pb_put_def)
  show ?thesis
    using failed unfolding volume_settled_def Let_def
    by (simp split: response.splits) (intro conjI impI allI base_volume_loop; simp add: assms flag)
qed

subsection \<open>The Spotify transport\<close>

lemma base_spotify_command:
  assumes "base_inv s"
  shows "base_inv (spotifyCommand a s)"
proof -
  have "base_inv (send (RSpotifyCommand g b) e (t\<lparr>spotifyCommandInFlight := True\<rparr>))" if "base_inv t" for g b e t
    using that polls_inv_view [of "send (RSpotifyCommand g b) e (t\<lparr>spotifyCommandInFlight := True\<rparr>)" t]
    by (simp add: base_inv_def vol_inv_def spotify_inv_def timer_view_def slots_def loose_handles_def
        refs_ok_def vtimers_def send_def)
  moreover have "base_inv (armSpotifyTakeover ms s)" for ms
    by (rule base_quiet [OF _ assms]) (simp add: quiet_intros)
  ultimately show ?thesis
    using assms by (simp add: spotifyCommand_def Let_def)
qed

lemma spotify_command_lock: "same_lock s (spotifyCommand a s)"
proof -
  have "same_lock s (send r e (t\<lparr>spotifyCommandInFlight := True\<rparr>))" if "same_lock s t" for r e t
    using that by (auto simp: same_lock_def send_def)
  moreover have "same_lock s (armSpotifyTakeover ms s)" for ms
    by (simp add: same_lock_def armSpotifyTakeover_def)
  ultimately show ?thesis
    by (simp add: spotifyCommand_def Let_def)
qed

text \<open>The state after a Spotify command left the list, without the clause on its lock.\<close>

definition pre_spotify :: "player \<Rightarrow> bool" where
  "pre_spotify s = (polls_inv s \<and> refs_ok s \<and> vol_inv s)"

lemma pre_spotify_quiet:
  assumes "quiet s t" "pre_spotify s"
  shows "pre_spotify t"
proof -
  obtain us where us: "inflight t = inflight s @ us" "\<forall>r \<in> set us. background r"
    using assms(1) by (auto simp: quiet_def more_reads_def)
  then have "filter is_volume us = []"
    by (simp add: filter_empty_conv)
  then show ?thesis
    using assms us by (auto simp: pre_spotify_def quiet_def vol_inv_def send_view_def)
qed

lemma pre_spotify_done: "pre_spotify s \<Longrightarrow> base_inv (s\<lparr>spotifyCommandInFlight := False\<rparr>)"
  using polls_inv_view [of "s\<lparr>spotifyCommandInFlight := False\<rparr>" s]
  by (simp add: base_inv_def pre_spotify_def vol_inv_def spotify_inv_def timer_view_def slots_def
      loose_handles_def refs_ok_def vtimers_def)

lemma pre_spotify_remove:
  assumes "base_inv s" "i < length (inflight s)" "is_spotify_command (inflight s ! i)"
  shows "pre_spotify (s\<lparr>inflight := remove_nth i (inflight s)\<rparr>)"
proof -
  have split: "inflight s = take i (inflight s) @ inflight s ! i # drop (Suc i) (inflight s)"
    using assms(2) by (rule id_take_nth_drop)
  have "\<not> is_volume (inflight s ! i)"
    using assms(3) by (cases "inflight s ! i") simp_all
  then have "filter is_volume (remove_nth i (inflight s)) = filter is_volume (inflight s)"
    by (subst (2) split) (simp add: remove_nth_def)
  moreover have "polls_inv (s\<lparr>inflight := remove_nth i (inflight s)\<rparr>) = polls_inv s"
    by (rule polls_inv_view) (simp add: timer_view_def slots_def loose_handles_def)
  ultimately show ?thesis
    using assms(1) by (auto simp: base_inv_def pre_spotify_def refs_ok_def vol_inv_def vtimers_def)
qed

lemma base_spotify_settled:
  assumes "pre_spotify s"
  shows "base_inv (spotify_command_settled g b r s)" "base_inv (spotify_recover_settled g b r s)"
proof -
  have state: "pre_spotify (spotify_command_state g b d s)" for d
    by (rule pre_spotify_quiet [OF _ assms]) (simp add: quiet_intros)
  then show "base_inv (spotify_recover_settled g b r s)"
    by (simp add: spotify_recover_settled_def pre_spotify_done)
  have "base_inv (send (RSpotifyRecover g b) e s)" for e
    using assms polls_inv_view [of "send (RSpotifyRecover g b) e s" s]
    by (simp add: base_inv_def pre_spotify_def vol_inv_def spotify_inv_def timer_view_def slots_def
        loose_handles_def refs_ok_def vtimers_def send_def)
  then show "base_inv (spotify_command_settled g b r s)"
    using state by (simp add: spotify_command_settled_def pre_spotify_done split: option.splits)
qed

lemma spotify_settled_lock:
  "same_lock s (spotify_command_settled g b r s)" "same_lock s (spotify_recover_settled g b r s)"
proof -
  have "same_lock s (spotify_command_state g b d s)" for d
    by (rule same_lock_quiet) (simp add: quiet_intros)
  then have "same_lock s ((spotify_command_state g b d s)\<lparr>spotifyCommandInFlight := False\<rparr>)" for d
    by (simp add: same_lock_def)
  then show "same_lock s (spotify_command_settled g b r s)" "same_lock s (spotify_recover_settled g b r s)"
    by (simp_all add: spotify_command_settled_def spotify_recover_settled_def same_lock_steps
        split: option.splits)
qed

end
