(* ===== verification/Player_Safety.thy ===== *)
theory Player_Safety
  imports Player_Inv
begin

section \<open>Safety of the player machine\<close>

text \<open>
  Every event keeps the invariant of Player_Inv, so it holds in every reachable state; and the
  properties the user sees: the transport is never locked for ever and the timers that are held by a
  variable never leak. What becomes of a volume is in Volume_Claims, superseded plays are in
  Player_Tokens.
\<close>

subsection \<open>Pushes\<close>

lemma quiet_sync_from [quiet_intros]: "quiet s t \<Longrightarrow> quiet s (sync_from d t)"
  by (simp add: sync_from_def quiet_intros)

lemma quiet_ws [quiet_intros]:
  "quiet s t \<Longrightarrow> quiet s (ws_spotify d t)" "quiet s t \<Longrightarrow> quiet s (ws_qobuz d t)"
  "quiet s t \<Longrightarrow> quiet s (ws_init_player d t)"
  by (simp_all add: ws_spotify_def ws_qobuz_def ws_init_player_def Let_def quiet_intros)

lemma player_resync:
  assumes "player_inv s"
  shows "player_inv (resyncPlaybackAfterReconnect s)"
proof -
  let ?u = "s\<lparr>wsReconnectSyncGeneration := wsReconnectSyncGeneration s + 1\<rparr>"
  have "same_lock s ?u"
    by (simp add: same_lock_def)
  then have "player_inv ?u"
    using assms same_lock_action by (auto simp: player_inv_def)
  then show ?thesis
    unfolding resyncPlaybackAfterReconnect_def Let_def
    by (rule player_quiet [rotated]) (simp add: quiet_intros)
qed

lemma quiet_ws_parts [quiet_intros]:
  "quiet s t \<Longrightarrow> quiet s (ws_init_page d t)" "quiet s t \<Longrightarrow> quiet s (ws_init_providers d t)"
  "quiet s t \<Longrightarrow> quiet s (ws_playback_commit d t)"
  by (simp_all add: ws_init_page_def ws_init_providers_def ws_playback_commit_def Let_def quiet_intros)

lemma player_ws_init:
  assumes "player_inv s"
  shows "player_inv (ws_init d s)"
proof -
  have "player_inv (ws_init_page d s)" "player_inv (ws_init_providers d (ws_init_page d s))"
    by (rule player_quiet [OF _ assms]; simp add: quiet_intros)+
  with assms show ?thesis
    by (simp add: ws_init_def player_resync)
qed

lemma player_ws_playback:
  assumes "player_inv s"
  shows "player_inv (ws_playback d s)"
proof -
  have "base_inv (ws_playback_commit d s)"
    by (rule base_quiet [of s]) (use assms in \<open>simp_all add: player_inv_def quiet_intros\<close>)
  then have "released (ws_playback d s)"
    unfolding ws_playback_def Let_def by (rule released_after) (simp add: quiet_intros)
  then show ?thesis
    by (rule released_player)
qed

lemma player_push:
  assumes "player_inv s"
  shows "player_inv (handle_push type d s)"
proof -
  have "player_inv (pb_put k v s)" for k v
    by (rule player_quiet [OF _ assms]) (simp add: quiet_intros)
  moreover have "player_inv (ws_spotify d s)" "player_inv (ws_qobuz d s)"
    by (rule player_quiet [OF _ assms]; simp add: quiet_intros)+
  ultimately show ?thesis
    using assms by (simp add: handle_push_def player_ws_init player_ws_playback)
qed

subsection \<open>Timers\<close>

lemma quiet_clear_loose:
  assumes "(h, k) \<in> set (timers s)" "loose k"
  shows "quiet s (clear_timer (Some h) s)"
proof -
  have only: "k' = k" if "polls_inv s" "(h, k') \<in> set (timers s)" for k'
    using that assms(1) by (auto simp: polls_inv_def timers_inv_def handles_ok_def
        dest: eq_key_imp_eq_value)
  have "polls_inv (clear_timer (Some h) s)" "vtimers (clear_timer (Some h) s) = vtimers s"
    if "polls_inv s"
    by (rule polls_inv_drop_loose [OF that]; use only [OF that] assms(2) in simp)+
  then show ?thesis
    by (simp add: quiet_def) (simp add: clear_timer_nf)
qed

lemma quiet_freeze_fired:
  assumes "(h, TFreeze) \<in> set (timers s)"
  shows "quiet s (updatePlaybackUI ((clear_timer (Some h) s)\<lparr>footerFreezeTimer := None\<rparr>))"
proof -
  let ?u = "(clear_timer (Some h) s)\<lparr>footerFreezeTimer := None\<rparr>"
  have "polls_inv ?u \<and> vtimers ?u = vtimers s" if inv: "polls_inv s"
  proof -
    have h: "footerFreezeTimer s = Some h"
      using polls_inv_slotD [OF inv freeze_slot assms] by simp
    have sl: "\<And>x. x \<in> set (slots s) \<Longrightarrow> slot_ok (timers s) (nextTimer s) x"
      using inv by (auto simp: polls_inv_def timers_inv_def)
    have c: "polls_inv (clear_timer (footerFreezeTimer s) s)"
      by (rule polls_inv_drop_slot [OF inv freeze_slot]) simp_all
    have "slot_ok (drop_handle (Some h) (timers s)) (nextTimer s) (None, (=) TFreeze)"
      using slot_ok_release [OF sl [OF freeze_slot]] h by simp
    moreover have "polls_inv ?u = polls_inv ((clear_timer (Some h) s)\<lparr>footerFreezeTimer := None\<rparr>)"
      by simp
    ultimately have "polls_inv ?u"
      using c h by (simp add: polls_inv_unfold clear_timer_nf)
    moreover have "vtimers ?u = vtimers s"
      using drop_vtimers(4) [OF inv] h by (simp add: vtimers_def clear_timer_nf)
    ultimately show ?thesis by simp
  qed
  then have "quiet s ?u"
    by (simp add: quiet_def) (simp add: clear_timer_nf refs_ok_def)
  then show ?thesis
    by (simp add: quiet_intros)
qed

lemma player_timer:
  assumes "player_inv s"
  shows "player_inv (timer_fires h s)"
proof (cases "map_of (timers s) h")
  case None
  with assms show ?thesis by (simp add: timer_fires_def)
next
  case (Some k)
  then have k: "(h, k) \<in> set (timers s)"
    by (rule map_of_SomeD)
  have q: "player_inv t" if "quiet s t" for t
    using player_quiet [OF that assms] .
  have reads: "player_inv (fetch_spotify r (clear_timer (Some h) s))" if "background r" "loose k" for r
    using q quiet_clear_loose [OF k that(2)] that(1) by (simp add: fetch_spotify_def quiet_intros)
  show ?thesis
  proof (cases k)
    case TVolume
    have "volumeTimer (volctl s) = Some h"
      using assms k TVolume polls_inv_slotD [OF _ volume_slot]
      by (auto simp: player_inv_def base_inv_def)
    then have base: "base_inv (sendVolume (clear_timer (Some h) s))"
      using base_clear_and_send [of s] assms by (simp add: player_inv_def)
    have "same_lock s (clear_timer (Some h) s)"
      by (simp add: same_lock_steps)
    then have "action_inv (sendVolume (clear_timer (Some h) s))"
      using same_lock_action [OF same_lock_trans [OF _ volume_locks(1)]] assms
      by (auto simp: player_inv_def)
    with base show ?thesis
      by (simp add: timer_fires_def Some TVolume one_shot_def player_inv_def)
  next
    case TFreeze
    then show ?thesis
      using q [OF quiet_freeze_fired] k by (simp add: timer_fires_def Some one_shot_def)
  next
    case TBurst
    then show ?thesis
      using q quiet_clear_loose [OF k] by (simp add: timer_fires_def Some one_shot_def loose_def quiet_intros)
  qed (use reads q in \<open>simp_all add: timer_fires_def Some one_shot_def loose_def quiet_intros\<close>)
qed

subsection \<open>Settlements\<close>

lemma quiet_resync_settled [quiet_intros]:
  assumes "quiet s t"
  shows "quiet s (resync_settled g p a b r1 r2 r3 t)"
proof -
  have ifs: "quiet s (if c then x else y)" if "quiet s x" "quiet s y" for c x y
    using that by simp
  show ?thesis
    unfolding resync_settled_def Let_def
    by (intro ifs quiet_intros assms)
qed

lemma quiet_settle:
  "background r \<Longrightarrow> quiet s (settle r r1 r2 r3 s)"
  by (cases r) (simp_all add: quiet_intros)

lemma is_volume_iff: "is_volume r \<longleftrightarrow> (\<exists>v. r = RVolume v)"
  by (cases r) simp_all

lemma is_spotify_command_iff:
  "is_spotify_command r \<longleftrightarrow> (\<exists>g b. r = RSpotifyCommand g b \<or> r = RSpotifyRecover g b)"
  by (cases r) simp_all

text \<open>The requests that hold the transport lock.\<close>

fun is_transport :: "request \<Rightarrow> bool" where
  "is_transport (RToggle n a b c d) = True"
| "is_transport RPrevious = True"
| "is_transport RNext = True"
| "is_transport RClearQueue = True"
| "is_transport (RPlayRadio n d) = True"
| "is_transport (RPlayLocal n d) = True"
| "is_transport (RPlayRefs n) = True"
| "is_transport r = False"

lemma request_kinds: "background r \<or> is_transport r \<or> is_volume r \<or> is_spotify_command r"
  by (cases r) simp_all

lemma transport_only:
  "is_transport r \<Longrightarrow> \<not> is_volume r \<and> \<not> is_spotify_command r"
  "is_volume r \<Longrightarrow> \<not> releases r s" "is_spotify_command r \<Longrightarrow> \<not> releases r s"
  by (cases r; simp)+

lemma transport_settles:
  assumes "is_transport r" "base_inv s"
  shows "releases r s \<Longrightarrow> released (settle r r1 r2 r3 s)"
    and "\<not> releases r s \<Longrightarrow> settle r r1 r2 r3 s = s"
proof -
  show "releases r s \<Longrightarrow> released (settle r r1 r2 r3 s)"
    using assms
    by (cases r; simp add: toggle_releases queue_step_releases play_releases previous_settled_def
        next_settled_def)
  show "\<not> releases r s \<Longrightarrow> settle r r1 r2 r3 s = s"
    using assms(1) by (cases r; simp add: toggle_stale play_stale)
qed

lemma releases_remove [simp]: "releases r (s\<lparr>inflight := rs\<rparr>) = releases r s"
  by (rule releases_cong) simp_all

lemma player_settles:
  assumes "player_inv s"
  shows "player_inv (request_settles i r1 r2 r3 s)"
proof (cases "i < length (inflight s)")
  case False
  with assms show ?thesis by (simp add: request_settles_def)
next
  case i: True
  let ?r = "inflight s ! i"
  let ?u = "s\<lparr>inflight := remove_nth i (inflight s)\<rparr>"
  have base: "base_inv s" and act: "action_inv s"
    using assms by (simp_all add: player_inv_def)
  have settled: "request_settles i r1 r2 r3 s = settle ?r r1 r2 r3 ?u"
    by (simp add: request_settles_def i)
  consider (read) "background ?r" | (transport) "is_transport ?r" | (volume) "is_volume ?r"
    | (spotify) "is_spotify_command ?r"
    using request_kinds by blast
  then show ?thesis
  proof cases
    case read
    have "\<not> is_spotify_command ?r"
      using read by (cases ?r) simp_all
    then have "player_inv ?u"
      using base_remove [OF base i] action_remove [OF act i] read by (simp add: player_inv_def)
    then show ?thesis
      unfolding settled by (rule player_quiet [OF quiet_settle [OF read]])
  next
    case transport
    note u = base_remove [OF base i] transport_only(1) [OF transport]
    show ?thesis
      unfolding settled
      using transport_settles [OF transport, of ?u] u action_remove [OF act i]
      by (cases "releases ?r s") (simp_all add: released_player, simp add: player_inv_def)
  next
    case volume
    obtain v where v: "?r = RVolume v"
      using volume by (auto simp: is_volume_iff)
    have "base_inv (volume_settled v r1 ?u)"
      using pre_loop_remove_volume [OF base i volume] by (intro base_volume_settled) simp_all
    moreover have "action_inv (volume_settled v r1 ?u)"
      using same_lock_action [OF volume_locks(5)] action_remove [OF act i] transport_only(2) [OF volume]
      by blast
    ultimately show ?thesis
      unfolding settled v by (simp add: player_inv_def)
  next
    case spotify
    obtain g b where "?r = RSpotifyCommand g b \<or> ?r = RSpotifyRecover g b"
      using spotify by (auto simp: is_spotify_command_iff)
    moreover have "pre_spotify ?u"
      by (rule pre_spotify_remove [OF base i spotify])
    moreover have "action_inv ?u"
      using action_remove [OF act i] transport_only(3) [OF spotify] by blast
    ultimately show ?thesis
      unfolding settled
      using base_spotify_settled [of ?u] same_lock_action [OF spotify_settled_lock(1)]
        same_lock_action [OF spotify_settled_lock(2)]
      by (auto simp: player_inv_def)
  qed
qed

subsection \<open>Every event keeps the invariant\<close>

lemma player_control_source:
  assumes "player_inv s"
  shows "player_inv (globalTogglePlayback s)" "player_inv (globalPrevious b s)" "player_inv (globalNext b s)"
proof -
  let ?t = "snd (getEffectivePlaybackControlSource s)"
  have t: "player_inv ?t"
    by (rule player_quiet [OF _ assms]) (simp add: quiet_intros)
  have sp: "player_inv (spotifyCommand a ?t)" for a
    using base_spotify_command [of ?t a] same_lock_action [OF spotify_command_lock, of ?t a] t
    by (simp add: player_inv_def)
  have qb: "player_inv (qobuzCommand a ?t)" for a
    by (rule player_quiet [OF _ t]) (simp add: quiet_intros)
  show "player_inv (globalTogglePlayback s)" "player_inv (globalPrevious b s)" "player_inv (globalNext b s)"
    using sp qb player_toggle [OF t] player_queue_commands [OF t]
    by (simp_all add: globalTogglePlayback_def globalPrevious_def globalNext_def case_prod_unfold)
qed

lemma player_fields:
  assumes "player_inv s"
  shows "player_inv (s\<lparr>clock := n\<rparr>)" "player_inv (s\<lparr>pageHidden := b\<rparr>)"
    "player_inv (s\<lparr>nonAppSourceMode := b\<rparr>)" "player_inv (s\<lparr>libraryTracks := ts\<rparr>)"
proof -
  have "same_lock s (s\<lparr>clock := n\<rparr>)" "same_lock s (s\<lparr>pageHidden := b\<rparr>)"
    by (simp_all add: same_lock_def)
  then show "player_inv (s\<lparr>clock := n\<rparr>)" "player_inv (s\<lparr>pageHidden := b\<rparr>)"
    using assms same_lock_action by (auto simp: player_inv_def)
  show "player_inv (s\<lparr>nonAppSourceMode := b\<rparr>)" "player_inv (s\<lparr>libraryTracks := ts\<rparr>)"
    by (rule player_quiet [OF _ assms]; simp add: quiet_intros)+
qed

lemma player_inv_step:
  assumes "player_inv s"
  shows "player_inv (step e s)"
proof -
  have q: "player_inv t" if "quiet s t" for t
    using player_quiet [OF that assms] .
  have volume: "player_inv (handleVolumeChange v s)" "player_inv (volumeSliderCommitted v s)" for v
    using assms base_volume_changes [of s v] same_lock_action [OF volume_locks(3)]
      same_lock_action [OF volume_locks(4)] by (auto simp: player_inv_def)
  have spotify: "player_inv (spotifyCommand a s)" for a
    using assms base_spotify_command [of s a] same_lock_action [OF spotify_command_lock]
    by (auto simp: player_inv_def)
  show ?thesis
    using assms volume spotify q
    by (cases e) (simp_all add: player_fields player_timer player_settles player_push player_play_radio
        player_play_local player_play_refs player_control_source player_queue_commands player_resync quiet_intros)
qed

lemma player_inv_init: "player_inv init_player"
  using init_polls_inv
  by (simp add: player_inv_def base_inv_def action_inv_def refs_ok_def vol_inv_def spotify_inv_def
      init_player_def new_volume_ctl_def)

interpretation player: inductive_invariant "\<lambda>s. s = init_player" player_step player_inv
  by unfold_locales (auto simp: player_inv_init intro: player_inv_step elim: player_stepE)

subsection \<open>What a play claims\<close>

lemma claimed_id: "pendingPlaybackRequestId s < fst (claim_play (supersedePendingPlayback s))"
proof -
  have "pendingPlaybackRequestId s \<le> pendingPlaybackRequestId (supersedePendingPlayback s)"
    by (simp add: supersedePendingPlayback_def clearPendingFooterSingleTrackStart_def
        clearPendingOptimisticTrack_def Let_def split: option.splits)
  then show ?thesis
    by (simp add: claim_play_def Let_def)
qed

lemma claim_frame:
  "playbackActionInFlight (snd (claim_play u))" "pendingPlaybackRequestId (snd (claim_play u)) = fst (claim_play u)"
  by (simp_all add: claim_play_def Let_def)

lemma play_local_shape:
  assumes "find_by_id i (libraryTracks s) = Some track"
  shows "\<exists>e t. playLocal i q s = send (RPlayLocal (fst (claim_play (supersedePendingPlayback s))) track) e t
    \<and> quiet (snd (claim_play (supersedePendingPlayback s))) t"
  using assms unfolding playLocal_def Let_def
  by (simp add: case_prod_unfold split del: if_split)
     (rule exI, rule exI, rule conjI, rule refl, simp add: quiet_intros)

lemma play_radio_shape:
  assumes "find_by_id i (stations s) = Some station"
  shows "\<exists>e t. playRadio i s = send (RPlayRadio (fst (claim_play (supersedePendingPlayback
      (s\<lparr>pendingFooterStart := None\<rparr>)))) station) e t
    \<and> quiet (snd (claim_play (supersedePendingPlayback (s\<lparr>pendingFooterStart := None\<rparr>)))) t"
  using assms unfolding playRadio_def Let_def
  by (simp add: case_prod_unfold)
     (rule exI, rule exI, rule conjI, rule refl, simp add: quiet_intros)

lemma play_local_claims:
  assumes "find_by_id i (libraryTracks s) = Some track"
  shows "playbackActionInFlight (playLocal i q s)"
    "pendingPlaybackRequestId s < pendingPlaybackRequestId (playLocal i q s)"
  using play_local_shape [OF assms, of q] claimed_id [of s] claim_frame [of "supersedePendingPlayback s"]
  by (auto simp: quiet_idle quiet_ids)

lemma play_radio_claims:
  assumes "find_by_id i (stations s) = Some station"
  shows "playbackActionInFlight (playRadio i s)"
    "pendingPlaybackRequestId s < pendingPlaybackRequestId (playRadio i s)"
  using play_radio_shape [OF assms] claimed_id [of "s\<lparr>pendingFooterStart := None\<rparr>"]
    claim_frame [of "supersedePendingPlayback (s\<lparr>pendingFooterStart := None\<rparr>)"]
  by (auto simp: quiet_idle quiet_ids)

text \<open>The reachable states of the page.\<close>

abbreviation page_reachable :: "player \<Rightarrow> bool" where
  "page_reachable \<equiv> reachable (\<lambda>s. s = init_player) player_step"

lemma page_run: "page_reachable s \<Longrightarrow> page_reachable (run_events step es s)"
  by (induction es arbitrary: s) (auto intro: reachable_step player_step)

lemma page_start: "page_reachable init_player"
  by (rule reachable_start) simp

subsection \<open>Claims\<close>

text \<open>C1: The transport buttons are never locked for ever: whenever the lock of the playback
  actions is held, some request in flight releases it when it settles, with any response, a
  network error included, whatever happened in between.\<close>

theorem transport_never_stuck:
  assumes "page_reachable s" "playbackActionInFlight s"
  shows "\<exists>i < length (inflight s). \<forall>r r2 r3.
    \<not> playbackActionInFlight (step (Settles i r r2 r3) s)"
proof -
  have inv: "player_inv s"
    by (rule player.always [OF assms(1)])
  then obtain i where i: "i < length (inflight s)" "releases (inflight s ! i) s"
    using assms(2) by (auto simp: player_inv_def action_inv_def in_set_conv_nth)
  have tr: "is_transport (inflight s ! i)"
    using i(2) by (cases "inflight s ! i") simp_all
  have "base_inv (s\<lparr>inflight := remove_nth i (inflight s)\<rparr>)"
    using inv base_remove [OF _ i(1)] transport_only(1) [OF tr] by (simp add: player_inv_def)
  then have "\<not> playbackActionInFlight (step (Settles i r r2 r3) s)" for r r2 r3
    using transport_settles(1) [OF tr, of "s\<lparr>inflight := remove_nth i (inflight s)\<rparr>"] i
    by (simp add: request_settles_def released_def)
  with i(1) show ?thesis by blast
qed

definition ex_library :: "jsval list" where
  "ex_library = [ex_local_track]"

lemma ex_library_find: "find_by_id (JStr ''t1'') ex_library = Some ex_local_track"
  by (simp add: find_by_id_def ex_library_def ex_local_track_def js_simps)

lemma transport_never_stuck_witness:
  "\<exists>i < length (inflight (step (PlayLocal (JStr ''t1'') JUndef) (step (LibraryLoaded ex_library) init_player))).
     \<forall>r r2 r3. \<not> playbackActionInFlight (step (Settles i r r2 r3)
       (step (PlayLocal (JStr ''t1'') JUndef) (step (LibraryLoaded ex_library) init_player)))"
proof (rule transport_never_stuck)
  let ?s = "step (LibraryLoaded ex_library) init_player"
  show "page_reachable (step (PlayLocal (JStr ''t1'') JUndef) ?s)"
    using page_run [OF page_start, of "[LibraryLoaded ex_library, PlayLocal (JStr ''t1'') JUndef]"] by simp
  show "playbackActionInFlight (step (PlayLocal (JStr ''t1'') JUndef) ?s)"
    using play_local_claims [of "JStr ''t1''" ?s ex_local_track JUndef] by (simp add: ex_library_find)
qed

text \<open>The Spotify transport is never locked for ever either: its lock is held only while a
  command or the recovery read after a failed command is in flight, and settling the recovery
  read always releases it.\<close>

theorem spotify_transport_never_stuck:
  assumes "page_reachable s" "spotifyCommandInFlight s"
  shows "(\<exists>g b. RSpotifyCommand g b \<in> set (inflight s) \<or> RSpotifyRecover g b \<in> set (inflight s))
    \<and> (\<forall>g b r t. \<not> spotifyCommandInFlight (spotify_recover_settled g b r t))
    \<and> (\<forall>g b r t. \<not> spotifyCommandInFlight (spotify_command_settled g b r t)
        \<or> (\<exists>e. spotify_command_settled g b r t = send (RSpotifyRecover g b) e t))"
proof -
  have "spotify_inv s"
    using player.always [OF assms(1)] by (simp add: player_inv_def base_inv_def)
  then show ?thesis
    using assms(2) by (auto simp: spotify_inv_def is_spotify_command_iff spotify_recover_settled_def
        spotify_command_settled_def split: option.splits)
qed

lemma spotify_transport_never_stuck_witness:
  "\<exists>g b. RSpotifyCommand g b \<in> set (inflight (step (SpotifyAction ''toggle'') init_player))
     \<or> RSpotifyRecover g b \<in> set (inflight (step (SpotifyAction ''toggle'') init_player))"
proof -
  let ?s = "step (SpotifyAction ''toggle'') init_player"
  have "page_reachable ?s"
    using page_run [OF page_start, of "[SpotifyAction ''toggle'']"] by simp
  moreover have "spotifyCommandInFlight ?s"
    by (simp add: spotifyCommand_def Let_def armSpotifyTakeover_def send_def init_player_def)
  ultimately show ?thesis
    using spotify_transport_never_stuck [of ?s] by blast
qed

text \<open>The one-shot timers of kind \<open>loose\<close> are not held that way: \<open>spotifySeek\<close> clears
  \<open>_spotifySeekCommitTimer\<close> before its request, so two seeks whose requests overlap leave two
  running timers, only the later of which the variable knows.\<close>

lemma overlapping_seeks_leave_two_timers:
  assumes "spotifySeekCommitTimer s = None"
    and "t = spotify_seek_settled (NetError m) (spotify_seek_settled (NetError m) (spotifySeek b (spotifySeek a s)))"
  shows "timers t = timers s @ [(nextTimer s, TSpotifySeekCommit), (Suc (nextTimer s), TSpotifySeekCommit)]
    \<and> spotifySeekCommitTimer t = Some (Suc (nextTimer s))"
  using assms by (simp add: spotify_seek_settled_def spotifySeek_def set_timer_def send_def api_json_def Let_def)

text \<open>C21: The polls and the delayed repaints never leak. In every reachable state the handles of all
  running timers differ, and each of the eight timers the page keeps in a variable of its own (the
  polls of Spotify and Qobuz, the position poll, the metadata, peak and samplerate polls, the end of
  the footer freeze and the debounce of the volume) runs at most once and is the one its variable
  holds, a provider poll with the generation its variable names; so clearing the variable stops it.
  The one-shot timers outside (the samplerate burst, the Spotify refreshes after a command and the
  refresh after a seek) are never held by one of these variables, so no clearing stops them by
  mistake.\<close>

theorem timers_never_leak:
  assumes "page_reachable s"
  shows "polls_inv s \<and> distinct (map fst (timers s))
    \<and> (\<forall>h h' g g'. (h, TSpotifyPoll g) \<in> set (timers s) \<longrightarrow> (h', TSpotifyPoll g') \<in> set (timers s)
        \<longrightarrow> h = h' \<and> g = g')
    \<and> (\<forall>h h' g g'. (h, TQobuzPoll g) \<in> set (timers s) \<longrightarrow> (h', TQobuzPoll g') \<in> set (timers s)
        \<longrightarrow> h = h' \<and> g = g')
    \<and> (\<forall>k h h'. k \<in> {TPosition, TFreeze, TVolume, TMetadata, TPeak, TSamplerate}
        \<longrightarrow> (h, k) \<in> set (timers s) \<longrightarrow> (h', k) \<in> set (timers s) \<longrightarrow> h = h')
    \<and> (\<forall>h g. (h, TSpotifyPoll g) \<in> set (timers s)
        \<longrightarrow> pollTimer (spotifyPoll s) = Some h \<and> pollTimerGeneration (spotifyPoll s) = Some g)
    \<and> (\<forall>h g. (h, TQobuzPoll g) \<in> set (timers s)
        \<longrightarrow> pollTimer (qobuzPoll s) = Some h \<and> pollTimerGeneration (qobuzPoll s) = Some g)
    \<and> (\<forall>(v, k) \<in> {(positionPollTimer s, TPosition), (footerFreezeTimer s, TFreeze),
          (volumeTimer (volctl s), TVolume), (metadataPollTimer s, TMetadata),
          (peakStatusPollTimer s, TPeak), (sampleratePollTimer s, TSamplerate)}.
        \<forall>h. (h, k) \<in> set (timers s) \<longrightarrow> v = Some h)
    \<and> (\<forall>h k. (h, k) \<in> set (timers s) \<and> k \<in> {TBurst, TSpotifyRefresh, TSpotifySeekCommit}
        \<longrightarrow> Some h \<notin> {pollTimer (spotifyPoll s), pollTimer (qobuzPoll s), positionPollTimer s,
          footerFreezeTimer s, volumeTimer (volctl s), metadataPollTimer s, peakStatusPollTimer s,
          sampleratePollTimer s})"
proof (intro conjI)
  have inv: "polls_inv s"
    using player.always [OF assms] by (simp add: player_inv_def base_inv_def)
  have one: "h = h'" if "(v, (=) k) \<in> set (slots s)" "(h, k) \<in> set (timers s)" "(h', k) \<in> set (timers s)" for v k h h'
    using polls_inv_slotD [OF inv that(1,2)] polls_inv_slotD [OF inv that(1,3)] by simp
  show "\<forall>k h h'. k \<in> {TPosition, TFreeze, TVolume, TMetadata, TPeak, TSamplerate}
      \<longrightarrow> (h, k) \<in> set (timers s) \<longrightarrow> (h', k) \<in> set (timers s) \<longrightarrow> h = h'"
    using one slot_members by fastforce
  show "\<forall>(v, k) \<in> {(positionPollTimer s, TPosition), (footerFreezeTimer s, TFreeze),
          (volumeTimer (volctl s), TVolume), (metadataPollTimer s, TMetadata),
          (peakStatusPollTimer s, TPeak), (sampleratePollTimer s, TSamplerate)}.
        \<forall>h. (h, k) \<in> set (timers s) \<longrightarrow> v = Some h"
    using polls_inv_slotD [OF inv] slot_members by fastforce
  have "v \<noteq> Some h" if "(v, mine) \<in> set (slots s)" "(h, k) \<in> set (timers s)" "\<not> mine k" for v mine h k
    using polls_inv_slotD [OF inv that(1,2)] that(3) by simp
  then show "\<forall>h k. (h, k) \<in> set (timers s) \<and> k \<in> {TBurst, TSpotifyRefresh, TSpotifySeekCommit}
        \<longrightarrow> Some h \<notin> {pollTimer (spotifyPoll s), pollTimer (qobuzPoll s), positionPollTimer s,
          footerFreezeTimer s, volumeTimer (volctl s), metadataPollTimer s, peakStatusPollTimer s,
          sampleratePollTimer s}"
    using slot_members by fastforce
  show "polls_inv s" by (rule inv)
  show "distinct (map fst (timers s))"
    using inv by (simp add: polls_inv_def timers_inv_def handles_ok_def)
qed (use assms player.always spotify_poller.at_most_one spotify_poller.mine qobuz_poller.at_most_one
      qobuz_poller.mine in \<open>simp add: player_inv_def base_inv_def; blast\<close>)+

lemma timers_never_leak_witness:
  "polls_inv (run_events step [TabOpened ''spotify'', VolumeDragged (Fin 10), TogglePressed] init_player)"
  using timers_never_leak [OF page_run [OF page_start]] by blast

end
