(* ===== verification/Player_Tokens.thy ===== *)
theory Player_Tokens
  imports Player_Safety
begin

section \<open>Request ids and generations of the player\<close>

text \<open>
  The counters a continuation compares itself with only grow, whatever event is handled, so a
  continuation that was superseded stays superseded. Each counter is an interpretation of
  \<open>token_guard\<close>.
\<close>

definition grows :: "player \<Rightarrow> player \<Rightarrow> bool" where
  "grows s t =
     (pendingPlaybackRequestId s \<le> pendingPlaybackRequestId t
      \<and> pauseActionRequestId s \<le> pauseActionRequestId t
      \<and> wsReconnectSyncGeneration s \<le> wsReconnectSyncGeneration t
      \<and> pollGeneration (spotifyPoll s) \<le> pollGeneration (spotifyPoll t)
      \<and> pollGeneration (qobuzPoll s) \<le> pollGeneration (qobuzPoll t)
      \<and> nextRef s \<le> nextRef t)"

lemma grows_refl [simp]: "grows s s"
  by (simp add: grows_def)

lemma grows_trans: "grows s t \<Longrightarrow> grows t u \<Longrightarrow> grows s u"
  by (auto simp: grows_def)

lemma grows_quiet: "quiet s t \<Longrightarrow> grows s t"
  by (simp add: quiet_def grows_def)

lemma grows_then: "grows s t \<Longrightarrow> quiet t u \<Longrightarrow> grows s u"
  using grows_trans grows_quiet by blast

lemma grows_fields:
  "grows s (s\<lparr>playbackActionInFlight := b\<rparr>)" "grows s (s\<lparr>spotifyCommandInFlight := b\<rparr>)"
  "grows s (s\<lparr>clock := n\<rparr>)" "grows s (s\<lparr>pageHidden := b\<rparr>)" "grows s (s\<lparr>inflight := rs\<rparr>)"
  "grows s (send r e s)" "grows s (upd_vol f s)" "grows s (clear_timer h s)"
  "grows s (snd (set_timer k s))"
  "grows s (s\<lparr>wsReconnectSyncGeneration := wsReconnectSyncGeneration s + 1\<rparr>)"
  "grows s (s\<lparr>pauseActionRequestId := Suc (pauseActionRequestId s), playbackActionInFlight := b\<rparr>)"
  by (simp_all add: grows_def send_def upd_vol_def clear_timer_def set_timer_def)

lemma grows_ops:
  assumes "grows s t"
  shows "grows s (emit e t)" "grows s (pb_put k v t)" "grows s (updatePlaybackUI t)"
    "grows s (bumpSpotifyPollGeneration t)" "grows s (snd (mergePlaybackState b v t))"
    "grows s (fetchMetadata t)" "grows s (triggerSamplerateBurstPolling t)"
    "grows s (applyNativePlayResponse v t)" "grows s (syncLibraryStateFromPlaybackContext b t)"
    "grows s (clearPendingOptimisticTrack m t)" "grows s (clearPendingFooterSingleTrackStart m t)"
    "grows s (armFooterContentFreeze ms t)" "grows s (snd (maybeShowNativeTrackCue v w v' t))"
    "grows s (play_failed t)" "grows s (ensureVolumeBaseline t)" "grows s (spotify_command_state g b v t)"
    "grows s (armSpotifyTakeover ms t)" "grows s (ws_playback_commit v t)"
    "grows s (t\<lparr>footerSource := f\<rparr>)" "grows s (t\<lparr>libraryModeSyncArmed := b\<rparr>)"
    "grows s (t\<lparr>libraryShuffle := b\<rparr>)" "grows s (t\<lparr>libraryLoop := b\<rparr>)"
    "grows s (t\<lparr>lastLibraryContext := c\<rparr>)" "grows s (t\<lparr>lastSamplerateSignature := v\<rparr>)"
    "grows s (t\<lparr>pendingFooterStart := l\<rparr>)"
  by (rule grows_then [OF assms], simp add: quiet_intros)+

lemma grows_updates:
  assumes "grows s t"
  shows "grows s (t\<lparr>playbackActionInFlight := b\<rparr>)" "grows s (t\<lparr>spotifyCommandInFlight := b\<rparr>)"
    "grows s (send r e t)" "grows s (upd_vol f t)" "grows s (clear_timer h t)"
    "grows s (snd (set_timer k t))" "grows s (t\<lparr>inflight := rs\<rparr>)"
    "grows s (t\<lparr>pauseActionRequestId := Suc (pauseActionRequestId t)\<rparr>)"
    "grows s (t\<lparr>pendingPlaybackRequestId := Suc (pendingPlaybackRequestId t)\<rparr>)"
    "grows s (t\<lparr>wsReconnectSyncGeneration := Suc (wsReconnectSyncGeneration t)\<rparr>)"
  using assms by (simp_all add: grows_def send_def upd_vol_def clear_timer_def set_timer_def)

lemmas grows_intros = grows_ops grows_updates

subsection \<open>Handlers\<close>

lemma grows_toggle: "grows s (togglePlayback s)"
proof -
  have "pauseActionRequestId (pb_put k v s) = pauseActionRequestId s" for k v
    by (simp add: pb_put_def)
  then have "grows s ((pb_put k v s)\<lparr>pauseActionRequestId := Suc (pauseActionRequestId s),
      playbackActionInFlight := True\<rparr>)" for k v
    by (simp add: grows_def) (simp add: pb_put_def)
  moreover have "grows s (s\<lparr>pauseActionRequestId := Suc (pauseActionRequestId s),
      playbackActionInFlight := True\<rparr>)"
    by (simp add: grows_def)
  ultimately show ?thesis
    unfolding togglePlayback_def Let_def
    by (simp add: grows_intros \<open>\<And>k v. pauseActionRequestId (pb_put k v s) = pauseActionRequestId s\<close>)
qed

lemma grows_toggle_failed: "grows t s \<Longrightarrow> grows t (toggle_failed n a b c d m s)"
  by (simp add: toggle_failed_def Let_def grows_intros)

lemma grows_toggle_settled: "grows s (toggle_settled n a b c d r s)"
  by (cases r) (simp_all add: toggle_settled_def Let_def grows_intros grows_toggle_failed)

lemma grows_queue:
  "grows s (previousInQueue b s)" "grows s (nextInQueue b s)" "grows s (clearQueue b s)"
  "grows s (queue_step_settled rf fl r s)" "grows s (clear_queue_settled r s)"
  by (simp_all add: previousInQueue_def nextInQueue_def clearQueue_def armPlaybackAction_def
      queue_step_settled_def clear_queue_settled_def finish_queue_command_def queue_step_failed_def
      Let_def grows_intros split: response.splits)

lemma grows_supersede: "grows s (supersedePendingPlayback s)"
  by (simp add: supersedePendingPlayback_def Let_def grows_intros grows_def
      clearPendingFooterSingleTrackStart_def clearPendingOptimisticTrack_def split: option.splits)

lemma grows_claim: "grows s t \<Longrightarrow> grows s (snd (claim_play t))"
  by (simp add: claim_play_def Let_def grows_def)

lemma grows_plays: "grows s (playRadio i s)" "grows s (playLocal i q s)" "grows s (playLibraryRefs st rs s)"
proof -
  have c: "grows s (snd (claim_play (supersedePendingPlayback s)))"
    by (rule grows_claim [OF grows_supersede])
  have c': "grows s (snd (claim_play (supersedePendingPlayback (s\<lparr>pendingFooterStart := None\<rparr>))))"
    using grows_trans [OF grows_ops(25) [OF grows_refl] grows_claim [OF grows_supersede]] .
  show "grows s (playRadio i s)"
  proof (cases "find_by_id i (stations s)")
    case (Some x)
    then show ?thesis
      using play_radio_shape [of i s x] grows_then [OF c'] by (auto simp: grows_intros)
  qed (simp add: playRadio_def Let_def grows_intros)
  show "grows s (playLocal i q s)"
  proof (cases "find_by_id i (libraryTracks s)")
    case (Some x)
    then show ?thesis
      using play_local_shape [of i s x q] grows_then [OF c] by (auto simp: grows_intros)
  qed (simp add: playLocal_def grows_intros)
  show "grows s (playLibraryRefs st rs s)"
    using c by (simp add: playLibraryRefs_def Let_def case_prod_unfold grows_intros)
qed

lemma grows_play_settled:
  "grows s (play_radio_settled n d r s)" "grows s (play_local_settled n d r s)"
  "grows s (play_refs_settled n r s)"
  by (simp_all add: play_radio_settled_def play_local_settled_def play_local_failed_def
      play_refs_settled_def play_refs_failed_def Let_def grows_intros split: response.splits)

lemma grows_volume_loop: "grows s (volume_loop s)"
proof (induction s rule: volume_loop.induct)
  case (1 s)
  show ?case
  proof (cases "pendingVolume (volctl s)")
    case None
    then show ?thesis
      by (simp add: volume_loop.simps [of s] volume_done_def grows_intros)
  next
    case (Some v)
    let ?s1 = "upd_vol (\<lambda>v. v\<lparr>pendingVolume := None\<rparr>) s"
    let ?s2 = "upd_vol (\<lambda>v. v\<lparr>optimisticVolume := None\<rparr>) ?s1"
    have "grows s ?s2" "grows s (send r e ?s1)" for r e
      by (simp_all add: grows_intros)
    moreover have "grows s (volume_loop ?s2)" if "js_seq (JNum v) (lastConfirmedVolume (volctl ?s1))"
      using 1 [OF Some refl that] \<open>grows s ?s2\<close> grows_trans by blast
    ultimately show ?thesis
      unfolding volume_loop.simps [of s] Let_def by (simp add: Some)
  qed
qed

lemma grows_volume:
  "grows s t \<Longrightarrow> grows s (sendVolume t)" "grows s t \<Longrightarrow> grows s (queueVolumeSend v b t)"
  "grows s (handleVolumeChange v s)" "grows s (volumeSliderCommitted v s)" "grows s (volume_settled v r s)"
proof -
  show snd: "grows s (sendVolume t)" if "grows s t" for s t
    using that grows_trans [OF _ grows_volume_loop] by (simp add: sendVolume_def Let_def grows_intros)
  show queue: "grows s (queueVolumeSend v b t)" if "grows s t" for s v b t
    using that snd by (simp add: queueVolumeSend_def Let_def case_prod_unfold grows_intros)
  show "grows s (handleVolumeChange v s)" "grows s (volumeSliderCommitted v s)"
    using queue by (simp_all add: handleVolumeChange_def volumeSliderCommitted_def setLocalVolume_def
        Let_def grows_intros)
  have fail: "grows s (volume_failed m s)" for m
    by (simp add: volume_failed_def volume_done_def Let_def grows_intros)
  show "grows s (volume_settled v r s)"
    using grows_trans [OF _ grows_volume_loop] fail
    by (simp add: volume_settled_def Let_def grows_intros split: response.splits)
qed

lemma grows_spotify:
  "grows s (spotifyCommand a s)" "grows s (spotify_command_settled g b r s)"
  "grows s (spotify_recover_settled g b r s)"
  by (simp_all add: spotifyCommand_def spotify_command_settled_def spotify_recover_settled_def Let_def
      grows_intros split: option.splits)

lemma grows_timer: "grows s (timer_fires h s)"
proof (cases "map_of (timers s) h")
  case (Some k)
  then have k: "(h, k) \<in> set (timers s)"
    by (rule map_of_SomeD)
  have loose: "quiet s (clear_timer (Some h) s)" if "loose k"
    by (rule quiet_clear_loose [OF k that])
  show ?thesis
  proof (cases k)
    case TVolume
    then show ?thesis
      by (simp add: timer_fires_def Some one_shot_def grows_volume grows_intros)
  next
    case TFreeze
    then show ?thesis
      using k grows_quiet [OF quiet_freeze_fired] by (simp add: timer_fires_def Some one_shot_def)
  qed (use loose in \<open>simp_all add: timer_fires_def Some one_shot_def loose_def fetch_spotify_def
        grows_quiet quiet_intros\<close>)
qed (simp add: timer_fires_def)

lemma grows_settle: "grows s (settle r r1 r2 r3 s)"
proof (cases "background r")
  case True
  then show ?thesis by (rule grows_quiet [OF quiet_settle])
next
  case False
  then show ?thesis
    by (cases r) (simp_all add: grows_toggle_settled grows_queue previous_settled_def next_settled_def
        grows_play_settled grows_volume grows_spotify)
qed

lemma grows_resync: "grows s t \<Longrightarrow> grows s (resyncPlaybackAfterReconnect t)"
  by (simp add: resyncPlaybackAfterReconnect_def Let_def grows_intros)

lemma grows_push: "grows s (handle_push type d s)"
proof -
  have "grows s (ws_playback d s)"
    unfolding ws_playback_def Let_def by (simp add: grows_intros)
  moreover have "grows s (ws_init_page d s)" "grows s (ws_init_providers d (ws_init_page d s))"
    "grows s (ws_spotify d s)" "grows s (ws_qobuz d s)"
    by (rule grows_quiet; simp add: quiet_intros)+
  ultimately show ?thesis
    by (simp add: handle_push_def ws_init_def grows_intros grows_resync)
qed

lemma grows_step: "grows s (step e s)"
proof -
  let ?t = "snd (getEffectivePlaybackControlSource s)"
  have t: "grows s ?t"
    by (rule grows_quiet) (simp add: quiet_intros)
  have "grows s (spotifyCommand a ?t)" "grows s (qobuzCommand a ?t)" "grows s (togglePlayback ?t)"
    "grows s (previousInQueue b ?t)" "grows s (nextInQueue b ?t)" for a b
    using grows_trans [OF t] grows_spotify(1) grows_toggle grows_queue grows_quiet
    by (simp_all add: quiet_intros)
  then have dispatch: "grows s (globalTogglePlayback s)" "grows s (globalPrevious b s)" "grows s (globalNext b s)" for b
    by (simp_all add: globalTogglePlayback_def globalPrevious_def globalNext_def case_prod_unfold)
  have q: "grows s u" if "quiet s u" for u
    using grows_quiet [OF that] .
  have settles: "grows s (request_settles i r1 r2 r3 s)" for i r1 r2 r3
    using grows_trans [OF grows_updates(7) [OF grows_refl] grows_settle]
    by (simp add: request_settles_def)
  show ?thesis
    using dispatch settles q
    by (cases e) (simp_all add: grows_fields grows_timer grows_push grows_plays grows_queue
        grows_volume grows_spotify grows_resync quiet_intros)
qed

subsection \<open>The counters as tokens\<close>

interpretation play_ids: token_guard pendingPlaybackRequestId step
  by unfold_locales (use grows_step in \<open>simp add: grows_def\<close>)

interpretation toggle_ids: token_guard pauseActionRequestId step
  by unfold_locales (use grows_step in \<open>simp add: grows_def\<close>)

interpretation resync_ids: token_guard wsReconnectSyncGeneration step
  by unfold_locales (use grows_step in \<open>simp add: grows_def\<close>)

interpretation spotify_poll_ids: token_guard "\<lambda>s. pollGeneration (spotifyPoll s)" step
  by unfold_locales (use grows_step in \<open>simp add: grows_def\<close>)

interpretation qobuz_poll_ids: token_guard "\<lambda>s. pollGeneration (qobuzPoll s)" step
  by unfold_locales (use grows_step in \<open>simp add: grows_def\<close>)

subsection \<open>Claims\<close>

text \<open>The play request of an id.\<close>

definition play_request :: "nat \<Rightarrow> request \<Rightarrow> bool" where
  "play_request n r = (\<exists>d. r = RPlayRadio n d \<or> r = RPlayLocal n d \<or> r = RPlayRefs n)"

text \<open>C3: A newer play wins: once a play of a known station or track was requested, the answer of
  any earlier play request, with whatever response and however late after whatever other events,
  commits nothing; its settlement only leaves the list of requests.\<close>

theorem superseded_play_commits_nothing:
  assumes "e = PlayRadio i \<and> find_by_id i (stations s) = Some x
      \<or> e = PlayLocal i q \<and> find_by_id i (libraryTracks s) = Some x"
    "play_request n r" "n \<le> pendingPlaybackRequestId s"
  shows "settle r r1 r2 r3 (run_events step es (step e s)) = run_events step es (step e s)"
proof -
  have "n < pendingPlaybackRequestId (step e s)"
    using assms play_local_claims(2) [of i s x q] play_radio_claims(2) [of i s x] by auto
  then have "n < pendingPlaybackRequestId (run_events step es (step e s))"
    by (rule play_ids.stale_for_ever)
  then show ?thesis
    using assms(2) play_stale [of n "run_events step es (step e s)"] by (auto simp: play_request_def)
qed

lemma superseded_play_commits_nothing_witness:
  "settle (RPlayLocal 0 ex_local_track) (Http 200 (Some (JObj []))) (NetError []) (NetError [])
     (run_events step [Tick 5, Fires 1] (step (PlayLocal (JStr ''t1'') JUndef)
        (step (LibraryLoaded ex_library) init_player)))
   = run_events step [Tick 5, Fires 1] (step (PlayLocal (JStr ''t1'') JUndef)
        (step (LibraryLoaded ex_library) init_player))"
  by (rule superseded_play_commits_nothing [where i = "JStr ''t1''" and q = JUndef and x = ex_local_track and n = 0])
     (simp_all add: ex_library_find play_request_def)

text \<open>An old poll delivers nothing: after the poll generation of a provider was advanced (the
  footer left it, its tab closed, a new interval took over), the response of a poll of an earlier
  generation changes nothing, and its interval callback sends nothing, for ever.\<close>

theorem stale_poll_delivers_nothing:
  fixes s :: player and es :: "event list" and gen gen' :: nat
  assumes "gen < pollGeneration (spotifyPoll s)" "gen' < pollGeneration (qobuzPoll s)"
  defines "t \<equiv> run_events step es s"
  shows "settle (RSpotifyPoll gen) r r2 r3 t = t \<and> settle (RQobuzPoll gen') r r2 r3 t = t
    \<and> inflight (spotify_poll_tick gen t) = inflight t \<and> inflight (qobuz_poll_tick gen' t) = inflight t"
proof -
  have "gen \<noteq> pollGeneration (spotifyPoll t)" "gen' \<noteq> pollGeneration (qobuzPoll t)"
    using spotify_poll_ids.stale_for_ever [OF assms(1), of es]
      qobuz_poll_ids.stale_for_ever [OF assms(2), of es] by (simp_all add: t_def)
  then show ?thesis
    by (simp add: spotify_poll_settled_def qobuz_poll_settled_def spotify_poll_tick_def
        qobuz_poll_tick_def poll_nfs)
qed

lemma stale_poll_delivers_nothing_witness:
  "settle (RSpotifyPoll 0) (Http 200 (Some ex_song)) (NetError []) (NetError [])
     (run_events step [PageHidden True, PageHidden False] (bumpQobuzPollGeneration (bumpSpotifyPollGeneration init_player)))
   = run_events step [PageHidden True, PageHidden False] (bumpQobuzPollGeneration (bumpSpotifyPollGeneration init_player))"
  using stale_poll_delivers_nothing [where gen = 0 and gen' = 0
      and s = "bumpQobuzPollGeneration (bumpSpotifyPollGeneration init_player)"
      and es = "[PageHidden True, PageHidden False]"]
  by (simp add: bumpQobuzPollGeneration_def bumpSpotifyPollGeneration_def)

end
