(* ===== verification/Volume_Claims.thy ===== *)
theory Volume_Claims
  imports Player_Tokens
begin

section \<open>What becomes of a volume the user set\<close>

text \<open>
  The volume that waits (\<open>pendingVolume\<close>) through every event of the page: only the slider, the timer of the
  debounce and the answer to a volume request touch it, and what each of them does with it.
\<close>

subsection \<open>Everything else keeps it\<close>

definition keeps_pending :: "player \<Rightarrow> player \<Rightarrow> bool" where
  "keeps_pending s t = (pendingVolume (volctl t) = pendingVolume (volctl s))"

lemma keeps_refl [simp]: "keeps_pending s s"
  by (simp add: keeps_pending_def)

lemma keeps_trans: "keeps_pending s t \<Longrightarrow> keeps_pending t u \<Longrightarrow> keeps_pending s u"
  by (simp add: keeps_pending_def)

lemma keeps_quiet: "quiet s t \<Longrightarrow> keeps_pending s t"
  by (simp add: quiet_def keeps_pending_def send_view_def)

lemma keeps_then: "keeps_pending s t \<Longrightarrow> quiet t u \<Longrightarrow> keeps_pending s u"
  using keeps_trans keeps_quiet by blast

lemma keeps_fields:
  "keeps_pending s (s\<lparr>clock := n\<rparr>)" "keeps_pending s (s\<lparr>pageHidden := b\<rparr>)" "keeps_pending s (s\<lparr>inflight := rs\<rparr>)"
  "keeps_pending s (clear_timer h s)"
  by (simp_all add: keeps_pending_def)

lemma keeps_ops:
  assumes "keeps_pending s t"
  shows "keeps_pending s (emit e t)" "keeps_pending s (pb_put k v t)" "keeps_pending s (updatePlaybackUI t)"
    "keeps_pending s (bumpSpotifyPollGeneration t)" "keeps_pending s (snd (mergePlaybackState b v t))"
    "keeps_pending s (fetchMetadata t)" "keeps_pending s (triggerSamplerateBurstPolling t)"
    "keeps_pending s (applyNativePlayResponse v t)" "keeps_pending s (syncLibraryStateFromPlaybackContext b t)"
    "keeps_pending s (clearPendingOptimisticTrack m t)" "keeps_pending s (clearPendingFooterSingleTrackStart m t)"
    "keeps_pending s (armFooterContentFreeze ms t)" "keeps_pending s (snd (maybeShowNativeTrackCue v w v' t))"
    "keeps_pending s (play_failed t)" "keeps_pending s (spotify_command_state g b v t)"
    "keeps_pending s (armSpotifyTakeover ms t)" "keeps_pending s (ws_playback_commit v t)"
    "keeps_pending s (t\<lparr>footerSource := f\<rparr>)" "keeps_pending s (t\<lparr>libraryModeSyncArmed := b\<rparr>)"
    "keeps_pending s (t\<lparr>libraryShuffle := b\<rparr>)" "keeps_pending s (t\<lparr>libraryLoop := b\<rparr>)"
    "keeps_pending s (t\<lparr>lastLibraryContext := c\<rparr>)" "keeps_pending s (t\<lparr>lastSamplerateSignature := v\<rparr>)"
    "keeps_pending s (t\<lparr>pendingFooterStart := l\<rparr>)"
  by (rule keeps_then [OF assms], simp add: quiet_intros)+

lemma keeps_updates:
  assumes "keeps_pending s t"
  shows "keeps_pending s (t\<lparr>playbackActionInFlight := b\<rparr>)" "keeps_pending s (t\<lparr>spotifyCommandInFlight := b\<rparr>)"
    "keeps_pending s (send r e t)" "keeps_pending s (clear_timer h t)" "keeps_pending s (t\<lparr>inflight := rs\<rparr>)"
    "keeps_pending s (t\<lparr>pauseActionRequestId := n\<rparr>)" "keeps_pending s (t\<lparr>pendingPlaybackRequestId := n\<rparr>)"
    "keeps_pending s (t\<lparr>wsReconnectSyncGeneration := n\<rparr>)"
  using assms by (simp_all add: keeps_pending_def)

lemmas keeps_intros = keeps_ops keeps_updates

lemma keeps_toggle: "keeps_pending s (togglePlayback s)"
  unfolding togglePlayback_def Let_def by (simp add: keeps_intros)

lemma keeps_toggle_failed: "keeps_pending t s \<Longrightarrow> keeps_pending t (toggle_failed n a b c d m s)"
  by (simp add: toggle_failed_def Let_def keeps_intros)

lemma keeps_toggle_settled: "keeps_pending s (toggle_settled n a b c d r s)"
  by (cases r) (simp_all add: toggle_settled_def Let_def keeps_intros keeps_toggle_failed)

lemma keeps_queue:
  "keeps_pending s (previousInQueue b s)" "keeps_pending s (nextInQueue b s)" "keeps_pending s (clearQueue b s)"
  "keeps_pending s (queue_step_settled rf fl r s)" "keeps_pending s (clear_queue_settled r s)"
  by (simp_all add: previousInQueue_def nextInQueue_def clearQueue_def armPlaybackAction_def
      queue_step_settled_def clear_queue_settled_def finish_queue_command_def queue_step_failed_def
      Let_def keeps_intros split: response.splits)

lemma keeps_claim: "keeps_pending s t \<Longrightarrow> keeps_pending s (snd (claim_play (supersedePendingPlayback t)))"
  by (simp add: claim_play_def supersedePendingPlayback_def Let_def keeps_intros)

lemma keeps_plays: "keeps_pending s (playRadio i s)" "keeps_pending s (playLocal i q s)" "keeps_pending s (playLibraryRefs st rs s)"
proof -
  have c: "keeps_pending s (snd (claim_play (supersedePendingPlayback s)))"
    "keeps_pending s (snd (claim_play (supersedePendingPlayback (s\<lparr>pendingFooterStart := None\<rparr>))))"
    by (simp_all add: keeps_claim keeps_intros)
  show "keeps_pending s (playRadio i s)"
  proof (cases "find_by_id i (stations s)")
    case (Some x)
    then show ?thesis using play_radio_shape [of i s x] keeps_then [OF c(2)] by (auto simp: keeps_intros)
  qed (simp add: playRadio_def Let_def keeps_intros)
  show "keeps_pending s (playLocal i q s)"
  proof (cases "find_by_id i (libraryTracks s)")
    case (Some x)
    then show ?thesis using play_local_shape [of i s x q] keeps_then [OF c(1)] by (auto simp: keeps_intros)
  qed (simp add: playLocal_def keeps_intros)
  show "keeps_pending s (playLibraryRefs st rs s)"
    using c(1) by (simp add: playLibraryRefs_def Let_def case_prod_unfold keeps_intros)
qed

lemma keeps_play_settled:
  "keeps_pending s (play_radio_settled n d r s)" "keeps_pending s (play_local_settled n d r s)"
  "keeps_pending s (play_refs_settled n r s)"
  by (simp_all add: play_radio_settled_def play_local_settled_def play_local_failed_def
      play_refs_settled_def play_refs_failed_def Let_def keeps_intros split: response.splits)

lemma keeps_spotify:
  "keeps_pending s t \<Longrightarrow> keeps_pending s (spotifyCommand a t)" "keeps_pending s (spotify_command_settled g b r s)"
  "keeps_pending s (spotify_recover_settled g b r s)"
  by (simp_all add: spotifyCommand_def spotify_command_settled_def spotify_recover_settled_def Let_def
      keeps_intros split: option.splits)

lemma keeps_timer:
  assumes "map_of (timers s) h \<noteq> Some TVolume"
  shows "keeps_pending s (timer_fires h s)"
proof (cases "map_of (timers s) h")
  case (Some k)
  then have k: "(h, k) \<in> set (timers s)" by (rule map_of_SomeD)
  have loose: "quiet s (clear_timer (Some h) s)" if "loose k" by (rule quiet_clear_loose [OF k that])
  show ?thesis
  proof (cases k)
    case TFreeze
    then show ?thesis using k keeps_quiet [OF quiet_freeze_fired] by (simp add: timer_fires_def Some one_shot_def)
  qed (use loose assms in \<open>simp_all add: timer_fires_def Some one_shot_def loose_def fetch_spotify_def
        keeps_quiet quiet_intros\<close>)
qed (simp add: timer_fires_def)

lemma keeps_settle: "\<not> is_volume r \<Longrightarrow> keeps_pending s (settle r r1 r2 r3 s)"
proof (cases "background r")
  case True
  then show ?thesis by (rule keeps_quiet [OF quiet_settle])
next
  case False
  assume "\<not> is_volume r"
  with False show ?thesis
    by (cases r) (simp_all add: keeps_toggle_settled keeps_queue previous_settled_def next_settled_def
        keeps_play_settled keeps_spotify)
qed

lemma keeps_resync: "keeps_pending s t \<Longrightarrow> keeps_pending s (resyncPlaybackAfterReconnect t)"
  by (simp add: resyncPlaybackAfterReconnect_def Let_def keeps_intros)

lemma keeps_push: "keeps_pending s (handle_push type d s)"
proof -
  have "keeps_pending s (ws_playback d s)"
    unfolding ws_playback_def Let_def by (simp add: keeps_intros)
  moreover have "keeps_pending s (ws_init_page d s)" "keeps_pending s (ws_init_providers d (ws_init_page d s))"
    "keeps_pending s (ws_spotify d s)" "keeps_pending s (ws_qobuz d s)"
    by (rule keeps_quiet; simp add: quiet_intros)+
  ultimately show ?thesis
    by (simp add: handle_push_def ws_init_def keeps_intros keeps_resync)
qed

text \<open>The events that are about the volume.\<close>

fun volume_event :: "event \<Rightarrow> player \<Rightarrow> bool" where
  "volume_event (VolumeDragged v) s = True"
| "volume_event (VolumeCommitted v) s = True"
| "volume_event (Fires h) s = (map_of (timers s) h = Some TVolume)"
| "volume_event (Settles i r r2 r3) s = (i < length (inflight s) \<and> is_volume (inflight s ! i))"
| "volume_event e s = False"

lemma other_events_keep: "\<not> volume_event e s \<Longrightarrow> keeps_pending s (step e s)"
proof -
  assume e: "\<not> volume_event e s"
  let ?t = "snd (getEffectivePlaybackControlSource s)"
  have t: "keeps_pending s ?t" by (rule keeps_quiet) (simp add: quiet_intros)
  have "keeps_pending s (spotifyCommand a ?t)" "keeps_pending s (qobuzCommand a ?t)" "keeps_pending s (togglePlayback ?t)"
    "keeps_pending s (previousInQueue b ?t)" "keeps_pending s (nextInQueue b ?t)" for a b
    using keeps_trans [OF t] keeps_spotify(1) [OF keeps_refl] keeps_toggle keeps_queue keeps_quiet by (simp_all add: quiet_intros)
  then have dispatch: "keeps_pending s (globalTogglePlayback s)" "keeps_pending s (globalPrevious b s)"
    "keeps_pending s (globalNext b s)" for b
    by (simp_all add: globalTogglePlayback_def globalPrevious_def globalNext_def case_prod_unfold)
  have q: "keeps_pending s u" if "quiet s u" for u using keeps_quiet [OF that] .
  have settles: "keeps_pending s (request_settles i r1 r2 r3 s)" if "\<not> volume_event (Settles i r1 r2 r3) s" for i r1 r2 r3
    using that keeps_trans [OF keeps_fields(3) keeps_settle] by (simp add: request_settles_def)
  show ?thesis
    using dispatch settles q e
    by (cases e) (simp_all add: keeps_fields keeps_timer keeps_push keeps_plays keeps_queue
        keeps_spotify keeps_resync quiet_intros)
qed

subsection \<open>What was reported stays reported\<close>

definition logs :: "player \<Rightarrow> player \<Rightarrow> bool" where
  "logs s t = (\<exists>es. effects t = effects s @ es)"

lemma logs_same: "effects t = effects s \<Longrightarrow> logs s t"
  by (simp add: logs_def)

lemma logs_trans: "logs s t \<Longrightarrow> logs t u \<Longrightarrow> logs s u"
  by (auto simp: logs_def)

lemma logs_lock:
  "effects (snd (footerSingleTrackStartLockActive v s)) = effects s"
  "effects (snd (spotifyPlayingOwnsFooter v s)) = effects s"
  "effects (snd (qobuzPlayingOwnsFooter v s)) = effects s"
  "effects (snd (localPlaybackHasFooterContext v s)) = effects s"
  "effects (snd (localEndedPlaybackHasFooterContext v s)) = effects s"
  by (simp_all add: footerSingleTrackStartLockActive_def spotifyPlayingOwnsFooter_def
      qobuzPlayingOwnsFooter_def localPlaybackHasFooterContext_def localEndedPlaybackHasFooterContext_def
      case_prod_unfold split: option.splits)

lemma logs_polls:
  "effects (setFooterSource f s) = effects s" "effects (stopPlaybackPositionPoll s) = effects s"
  "effects (startPlaybackPositionPoll s) = effects s" "effects (follow_spotify_poll s) = effects s"
  "effects (follow_qobuz_poll s) = effects s"
  by (simp_all add: poll_nfs follow_spotify_poll_def follow_qobuz_poll_def)

lemma logs_reconcile: "effects (reconcileFooterSource s) = effects s"
  by (simp add: reconcileFooterSource_def case_prod_unfold logs_lock logs_polls split: option.splits)

lemma logs_remote: "effects (applyRemoteVolume v s) = effects s"
  by (simp add: applyRemoteVolume_def ensureVolumeBaseline_def upd_vol_def pb_put_def Let_def split: option.splits)

lemma logs_updateUI: "logs s (updatePlaybackUI s)"
proof -
  have "logs s (updateFooterForStreamingOwner d t)" if "effects t = effects s" for d t
    using that by (simp add: updateFooterForStreamingOwner_def logs_def logs_remote emit_def Let_def split: jsval.splits)
  then show ?thesis
    by (simp add: updatePlaybackUI_def Let_def logs_lock logs_polls logs_reconcile logs_same)
       (simp add: logs_def logs_lock logs_polls logs_reconcile emit_def)
qed

subsection \<open>Handing a volume over\<close>

text \<open>An answer that took the volume: a status from 200 to 299 and a body with fields to read.\<close>

definition took_volume :: "response \<Rightarrow> bool" where
  "took_volume r = (case r of NetError m \<Rightarrow> False
     | Http st b \<Rightarrow> 200 \<le> st \<and> st \<le> 299 \<and> \<not> nullish (json_or_empty r))"

text \<open>The volume such an answer confirms: the one it names, otherwise the one that was sent.\<close>

definition confirmed_by :: "response \<Rightarrow> jsnum \<Rightarrow> jsnum" where
  "confirmed_by r n = (case jget (json_or_empty r) ''volume'' of JNum m \<Rightarrow> m | _ \<Rightarrow> n)"

lemma loop_hands_over:
  assumes "pendingVolume (volctl s) = Some v"
  shows "RVolume v \<in> set (inflight (volume_loop s)) \<or> js_seq (JNum v) (lastConfirmedVolume (volctl s))"
  by (subst volume_loop.simps) (simp add: assms Let_def upd_vol_def send_def)

lemma send_hands_over:
  assumes "pendingVolume (volctl s) = Some v" "\<not> volumeRequestInFlight (volctl s)"
  shows "RVolume v \<in> set (inflight (sendVolume s))
    \<or> js_seq (JNum v) (lastConfirmedVolume (volctl (ensureVolumeBaseline s)))"
proof -
  let ?b = "ensureVolumeBaseline s"
  have "pendingVolume (volctl ?b) = Some v" "\<not> volumeRequestInFlight (volctl ?b)"
    using assms by (simp_all add: ensureVolumeBaseline_def upd_vol_def)
  then show ?thesis
    using loop_hands_over [of "upd_vol (\<lambda>v. v\<lparr>volumeRequestInFlight := True\<rparr>) ?b" v]
    by (simp add: sendVolume_def Let_def upd_vol_def)
qed

lemma taken_hands_over:
  assumes "pendingVolume (volctl s) = Some v" "took_volume r"
  shows "RVolume v \<in> set (inflight (volume_settled n r s)) \<or> js_seq (JNum v) (JNum (confirmed_by r n))"
proof (cases r)
  case (Http st b)
  let ?c = "confirmed_by r n"
  let ?t = "upd_vol (\<lambda>v. v\<lparr>volumeSyncGraceUntil := clock s + VOLUME_SYNC_GRACE_MS\<rparr>)
      (pb_put ''volume'' (JNum ?c) (upd_vol (\<lambda>v. v\<lparr>lastConfirmedVolume := JNum ?c\<rparr>) s))"
  have "resp_ok r" "\<not> nullish (json_or_empty r)"
    using assms(2) by (simp_all add: took_volume_def Http)
  then have "volume_settled n r s = volume_loop ?t"
    using assms(1) by (simp add: volume_settled_def Http Let_def confirmed_by_def upd_vol_def pb_put_def)
  then show ?thesis
    using loop_hands_over [of ?t v] assms(1) by (simp add: upd_vol_def pb_put_def)
qed (use assms in \<open>simp add: took_volume_def\<close>)

lemma refused_is_told:
  assumes "\<not> took_volume r"
  shows "\<exists>m es. effects (volume_settled n r s) = effects s @ Toast m ''error'' # es"
proof -
  have failed: "\<exists>m es. effects (volume_failed d s) = effects s @ Toast m ''error'' # es" for d
  proof -
    let ?t = "upd_vol (\<lambda>v. v\<lparr>pendingVolume := None, volumeGestureActive := False, optimisticVolume := None\<rparr>) s"
    let ?m = "if d = [] then ''Failed to set volume'' else d"
    let ?u = "upd_vol (\<lambda>v. v\<lparr>volumeRequestInFlight := False\<rparr>) (emit (Toast ?m ''error'') ?t)"
    have "volume_failed d s = updatePlaybackUI ?u"
      by (simp add: volume_failed_def volume_done_def Let_def)
    moreover have "effects ?u = effects s @ [Toast ?m ''error'']"
      by (simp add: emit_def upd_vol_def)
    moreover obtain es where "effects (updatePlaybackUI ?u) = effects ?u @ es"
      using logs_updateUI [of ?u] by (auto simp: logs_def)
    ultimately have "effects (volume_failed d s) = effects s @ Toast ?m ''error'' # es"
      by simp
    then show ?thesis by blast
  qed
  show ?thesis
    using assms failed by (cases r) (auto simp: volume_settled_def took_volume_def Let_def)
qed

subsection \<open>Claims\<close>

text \<open>A volume request in flight and its answer.\<close>

lemma one_volume_request:
  assumes "page_reachable s"
  shows "length (filter is_volume (inflight s)) = (if volumeRequestInFlight (volctl s) then 1 else 0)"
  using player.always [OF assms] by (simp add: player_inv_def base_inv_def vol_inv_def)

lemma pending_is_watched:
  assumes "page_reachable s" "pendingVolume (volctl s) = Some v"
  shows "(\<exists>n. RVolume n \<in> set (inflight s)) \<or> (\<exists>h. volumeTimer (volctl s) = Some h \<and> (h, TVolume) \<in> set (timers s))"
proof (cases "volumeRequestInFlight (volctl s)")
  case True
  then have "filter is_volume (inflight s) \<noteq> []"
    using one_volume_request [OF assms(1)] by auto
  then show ?thesis by (auto simp: filter_empty_conv is_volume_iff)
next
  case False
  have inv: "player_inv s" by (rule player.always [OF assms(1)])
  then have "vtimers s \<noteq> []"
    using assms(2) False by (simp add: player_inv_def base_inv_def vol_inv_def)
  then obtain h where h: "(h, TVolume) \<in> set (timers s)" by (auto simp: vtimers_def filter_empty_conv)
  then have "volumeTimer (volctl s) = Some h"
    using inv polls_inv_slotD [OF _ volume_slot h] by (auto simp: player_inv_def base_inv_def)
  with h show ?thesis by blast
qed

lemma volume_answer:
  assumes "i < length (inflight s)" "inflight s ! i = RVolume n"
  shows "step (Settles i r r2 r3) s = volume_settled n r (s\<lparr>inflight := remove_nth i (inflight s)\<rparr>)"
  using assms by (simp add: request_settles_def)

lemma volume_debounced:
  assumes "map_of (timers s) h = Some TVolume"
  shows "step (Fires h) s = sendVolume (clear_timer (Some h) s)"
  using assms by (simp add: timer_fires_def one_shot_def)

lemma commit_hands_over:
  "pendingVolume (volctl (volumeSliderCommitted w s)) = Some (sliderVolumeToActualVolume w)
    \<or> RVolume (sliderVolumeToActualVolume w) \<in> set (inflight (volumeSliderCommitted w s))
    \<or> js_seq (JNum (sliderVolumeToActualVolume w)) (lastConfirmedVolume (volctl (ensureVolumeBaseline s)))"
proof -
  let ?w = "sliderVolumeToActualVolume w"
  let ?t = "upd_vol (\<lambda>v. v\<lparr>volumeGestureActive := False, pendingVolume := Some ?w\<rparr>) s"
  let ?c = "clear_timer (volumeTimer (volctl s)) ?t"
  have t: "volumeSliderCommitted w s = sendVolume ?c"
    by (simp add: volumeSliderCommitted_def queueVolumeSend_def Let_def upd_vol_def)
  have p: "pendingVolume (volctl ?c) = Some ?w"
    by (simp add: clear_timer_def upd_vol_def)
  have base: "lastConfirmedVolume (volctl (ensureVolumeBaseline ?c)) = lastConfirmedVolume (volctl (ensureVolumeBaseline s))"
    by (simp add: ensureVolumeBaseline_def clear_timer_def upd_vol_def)
  show ?thesis
  proof (cases "volumeRequestInFlight (volctl ?c)")
    case True
    then have "sendVolume ?c = ensureVolumeBaseline ?c"
      by (simp add: sendVolume_def Let_def ensureVolumeBaseline_def upd_vol_def)
    then have "pendingVolume (volctl (sendVolume ?c)) = Some ?w"
      using p by (simp add: ensureVolumeBaseline_def upd_vol_def)
    with t show ?thesis by simp
  next
    case False
    then show ?thesis using send_hands_over [OF p] t base by simp
  qed
qed

text \<open>C2: A volume the user set is not lost silently. While it waits, either a volume request is in
  flight or the debounce timer runs and is the one the page holds, and at most one volume request is
  in flight. No event that is not about the volume touches it. When the debounce timer fires while a
  request is in flight the volume goes on waiting; otherwise it is sent at once, unless it is what
  the backend last confirmed. When the request in flight is answered, an answer that took the earlier
  volume sends the waiting one next, unless the volume it confirms already is the waiting one; an
  answer that refused it, or a network error, drops the waiting one and says so in an error message.
  Moving the slider puts the new value in its place; releasing it sends the new value at once, or
  leaves it waiting behind the request in flight, unless the backend confirmed that value.\<close>

theorem volume_never_lost:
  assumes "page_reachable s" "pendingVolume (volctl s) = Some v"
  shows "length (filter is_volume (inflight s)) \<le> 1
    \<and> ((\<exists>n. RVolume n \<in> set (inflight s)) \<or> (\<exists>h. volumeTimer (volctl s) = Some h \<and> (h, TVolume) \<in> set (timers s)))
    \<and> (\<forall>e. \<not> volume_event e s \<longrightarrow> pendingVolume (volctl (step e s)) = Some v)
    \<and> (\<forall>h. map_of (timers s) h = Some TVolume \<longrightarrow>
        (if \<exists>n. RVolume n \<in> set (inflight s) then pendingVolume (volctl (step (Fires h) s)) = Some v
         else RVolume v \<in> set (inflight (step (Fires h) s))
           \<or> js_seq (JNum v) (lastConfirmedVolume (volctl (ensureVolumeBaseline s)))))
    \<and> (\<forall>i n r r2 r3. i < length (inflight s) \<and> inflight s ! i = RVolume n \<longrightarrow>
        (if took_volume r
         then RVolume v \<in> set (inflight (step (Settles i r r2 r3) s)) \<or> js_seq (JNum v) (JNum (confirmed_by r n))
         else \<exists>m es. effects (step (Settles i r r2 r3) s) = effects s @ Toast m ''error'' # es))
    \<and> (\<forall>w. pendingVolume (volctl (step (VolumeDragged w) s)) = Some (sliderVolumeToActualVolume w))
    \<and> (\<forall>w. pendingVolume (volctl (step (VolumeCommitted w) s)) = Some (sliderVolumeToActualVolume w)
      \<or> RVolume (sliderVolumeToActualVolume w) \<in> set (inflight (step (VolumeCommitted w) s))
      \<or> js_seq (JNum (sliderVolumeToActualVolume w)) (lastConfirmedVolume (volctl (ensureVolumeBaseline s))))"
proof (intro conjI)
  have "(\<exists>n. RVolume n \<in> set (inflight s)) = (filter is_volume (inflight s) \<noteq> [])"
    by (auto simp: filter_empty_conv is_volume_iff)
  then have flag: "(\<exists>n. RVolume n \<in> set (inflight s)) = volumeRequestInFlight (volctl s)"
    using one_volume_request [OF assms(1)] by (auto split: if_splits)
  show "length (filter is_volume (inflight s)) \<le> 1"
    using one_volume_request [OF assms(1)] by simp
  show "(\<exists>n. RVolume n \<in> set (inflight s)) \<or> (\<exists>h. volumeTimer (volctl s) = Some h \<and> (h, TVolume) \<in> set (timers s))"
    by (rule pending_is_watched [OF assms])
  show "\<forall>e. \<not> volume_event e s \<longrightarrow> pendingVolume (volctl (step e s)) = Some v"
    using other_events_keep assms(2) by (simp add: keeps_pending_def)
  show "\<forall>h. map_of (timers s) h = Some TVolume \<longrightarrow>
        (if \<exists>n. RVolume n \<in> set (inflight s) then pendingVolume (volctl (step (Fires h) s)) = Some v
         else RVolume v \<in> set (inflight (step (Fires h) s))
           \<or> js_seq (JNum v) (lastConfirmedVolume (volctl (ensureVolumeBaseline s))))"
  proof (intro allI impI)
    fix h assume h: "map_of (timers s) h = Some TVolume"
    let ?c = "clear_timer (Some h) s"
    have c: "volctl ?c = volctl s" "pb ?c = pb s" by (simp_all add: clear_timer_def)
    have base: "volctl (ensureVolumeBaseline ?c) = volctl (ensureVolumeBaseline s)"
      using c by (simp add: ensureVolumeBaseline_def upd_vol_def)
    have keeps: "pendingVolume (volctl (sendVolume ?c)) = pendingVolume (volctl s)" if "volumeRequestInFlight (volctl s)"
      using that c by (simp add: sendVolume_def Let_def ensureVolumeBaseline_def upd_vol_def)
    show "if \<exists>n. RVolume n \<in> set (inflight s) then pendingVolume (volctl (step (Fires h) s)) = Some v
         else RVolume v \<in> set (inflight (step (Fires h) s))
           \<or> js_seq (JNum v) (lastConfirmedVolume (volctl (ensureVolumeBaseline s)))"
      unfolding volume_debounced [OF h] flag
      using send_hands_over [of ?c v] keeps assms(2) c(1) base by simp
  qed
  have told: "\<exists>m es. effects (volume_settled n r (s\<lparr>inflight := rs\<rparr>)) = effects s @ Toast m ''error'' # es"
    if "\<not> took_volume r" for n r rs
    using refused_is_told [OF that, of n "s\<lparr>inflight := rs\<rparr>"] by simp
  show "\<forall>i n r r2 r3. i < length (inflight s) \<and> inflight s ! i = RVolume n \<longrightarrow>
        (if took_volume r
         then RVolume v \<in> set (inflight (step (Settles i r r2 r3) s)) \<or> js_seq (JNum v) (JNum (confirmed_by r n))
         else \<exists>m es. effects (step (Settles i r r2 r3) s) = effects s @ Toast m ''error'' # es)"
    using taken_hands_over told assms(2) by (auto simp: volume_answer simp del: step.simps)
  show "\<forall>w. pendingVolume (volctl (step (VolumeDragged w) s)) = Some (sliderVolumeToActualVolume w)"
    by (simp add: handleVolumeChange_def queueVolumeSend_def Let_def case_prod_unfold upd_vol_def
        set_timer_def clear_timer_def)
  show "\<forall>w. pendingVolume (volctl (step (VolumeCommitted w) s)) = Some (sliderVolumeToActualVolume w)
      \<or> RVolume (sliderVolumeToActualVolume w) \<in> set (inflight (step (VolumeCommitted w) s))
      \<or> js_seq (JNum (sliderVolumeToActualVolume w)) (lastConfirmedVolume (volctl (ensureVolumeBaseline s)))"
    using commit_hands_over by simp
qed

lemma volume_never_lost_witness:
  "\<exists>h. volumeTimer (volctl (step (VolumeDragged (Fin 40)) init_player)) = Some h
     \<and> (h, TVolume) \<in> set (timers (step (VolumeDragged (Fin 40)) init_player))"
proof -
  let ?s = "step (VolumeDragged (Fin 40)) init_player"
  have "page_reachable ?s"
    using page_run [OF page_start, of "[VolumeDragged (Fin 40)]"] by simp
  moreover have "pendingVolume (volctl ?s) = Some (sliderVolumeToActualVolume (Fin 40))" "inflight ?s = []"
    by (simp_all add: handleVolumeChange_def queueVolumeSend_def setLocalVolume_def Let_def
        case_prod_unfold set_timer_def upd_vol_def pb_put_def clear_timer_def init_player_def)
  ultimately show ?thesis
    using volume_never_lost [of ?s "sliderVolumeToActualVolume (Fin 40)"] by simp
qed

end
