(* ===== verification/Ws_Connection.thy ===== *)
theory Ws_Connection
  imports Player_Tokens
begin

section \<open>The WebSocket connection\<close>

text \<open>
  The connection loop of static/app.js (\<open>setupWebSocket\<close>, \<open>connectWebSocket\<close> with its closures,
  \<open>scheduleReconnect\<close>, \<open>scheduleOfflineIndicator\<close>, \<open>resyncAfterReconnect\<close>) around the page of
  Player_Machine. A socket is named by the serial of the call that created it; the local
  variables of that call (\<open>awaitingPong\<close>, \<open>watchdogTimer\<close>) are fields of the socket, and its
  callbacks take the serial. The browser decides whether \<open>new WebSocket\<close> and \<open>send\<close> throw, so
  both are arguments. Console output, the power button and the refreshes of the other panels are
  left out.
\<close>

subsection \<open>State\<close>

datatype ready_state = Connecting | Opened | Closing | Closed

record ws_socket =
  readyState :: ready_state
  awaitingPong :: bool
  watchdogTimer :: nat

datatype conn_timer = TConnectTimeout nat | THeartbeat nat | TReconnect nat | TOffline

datatype conn_effect = FreshnessCheck string | RecoverAutoSubJob

record conn =
  page :: player
  ws :: "nat option"
  wsConnectSerial :: nat
  sockets :: "nat \<rightharpoonup> ws_socket"
  reconnectTimer :: "nat option"
  reconnectAttempts :: nat
  offlineIndicatorTimer :: "nat option"
  wsConnected :: bool
  wsOutageSeen :: bool
  offlineHidden :: bool
  connTimers :: "(nat \<times> conn_timer) list"
  nextConnTimer :: nat
  connEffects :: "conn_effect list"

definition reconnectInterval :: nat where "reconnectInterval = 3000"
definition maxReconnectInterval :: nat where "maxReconnectInterval = 30000"

definition init_conn :: conn where
  "init_conn = \<lparr>page = init_player, ws = None, wsConnectSerial = 0, sockets = Map.empty,
     reconnectTimer = None, reconnectAttempts = 0, offlineIndicatorTimer = None,
     wsConnected = False, wsOutageSeen = False, offlineHidden = True, connTimers = [],
     nextConnTimer = 1, connEffects = []\<rparr>"

definition add_conn_timer :: "conn_timer \<Rightarrow> conn \<Rightarrow> conn" where
  "add_conn_timer k c = c\<lparr>connTimers := connTimers c @ [(nextConnTimer c, k)],
     nextConnTimer := Suc (nextConnTimer c)\<rparr>"

definition clear_conn_timer :: "nat option \<Rightarrow> conn \<Rightarrow> conn" where
  "clear_conn_timer h c = c\<lparr>connTimers := filter (\<lambda>(i, k). Some i \<noteq> h) (connTimers c)\<rparr>"

definition on_page :: "event list \<Rightarrow> conn \<Rightarrow> conn" where
  "on_page es c = c\<lparr>page := run_events step es (page c)\<rparr>"

definition upd_socket :: "nat \<Rightarrow> (ws_socket \<Rightarrow> ws_socket) \<Rightarrow> conn \<Rightarrow> conn" where
  "upd_socket n f c = c\<lparr>sockets := (sockets c)(n := map_option f (sockets c n))\<rparr>"

definition watchdog_of :: "nat \<Rightarrow> conn \<Rightarrow> nat option" where
  "watchdog_of n c = map_option watchdogTimer (sockets c n)"

definition isCurrent :: "nat \<Rightarrow> conn \<Rightarrow> bool" where
  "isCurrent serial c = (serial = wsConnectSerial c \<and> ws c = Some serial)"

subsection \<open>Connecting\<close>

definition scheduleOfflineIndicator :: "conn \<Rightarrow> conn" where
  "scheduleOfflineIndicator c =
     (if offlineIndicatorTimer c \<noteq> None then c
      else (add_conn_timer TOffline c)\<lparr>offlineIndicatorTimer := Some (nextConnTimer c)\<rparr>)"

definition reconnect_delay :: "nat \<Rightarrow> nat" where
  "reconnect_delay attempts = min (reconnectInterval * 2 ^ attempts) maxReconnectInterval"

definition scheduleReconnect :: "conn \<Rightarrow> conn" where
  "scheduleReconnect c =
     (if reconnectTimer c \<noteq> None then c
      else (add_conn_timer (TReconnect (reconnect_delay (reconnectAttempts c))) c)
             \<lparr>reconnectTimer := Some (nextConnTimer c),
              reconnectAttempts := reconnectAttempts c + 1\<rparr>)"

text \<open>\<open>ws && (ws.readyState === OPEN || ws.readyState === CONNECTING)\<close>.\<close>

definition has_live_socket :: "conn \<Rightarrow> bool" where
  "has_live_socket c =
     (case ws c of None \<Rightarrow> False
      | Some n \<Rightarrow> (case sockets c n of None \<Rightarrow> False
                    | Some k \<Rightarrow> readyState k \<in> {Opened, Connecting}))"

definition open_socket :: "nat \<Rightarrow> conn \<Rightarrow> conn" where
  "open_socket serial c =
     (add_conn_timer (TConnectTimeout serial) c)
       \<lparr>ws := Some serial,
        sockets := (sockets c)(serial \<mapsto> \<lparr>readyState = Connecting, awaitingPong = False,
                                           watchdogTimer = nextConnTimer c\<rparr>)\<rparr>"

definition connectWebSocket :: "bool \<Rightarrow> conn \<Rightarrow> conn" where
  "connectWebSocket constructed c =
     (if has_live_socket c then c
      else
        (let c1 = (clear_conn_timer (reconnectTimer c) c)\<lparr>reconnectTimer := None\<rparr>;
             serial = wsConnectSerial c1 + 1;
             c2 = c1\<lparr>wsConnectSerial := serial\<rparr>
         in if \<not> constructed
            then scheduleReconnect (on_page [MetadataPolling True] (scheduleOfflineIndicator c2))
            else open_socket serial c2))"

definition disconnect :: "nat \<Rightarrow> conn \<Rightarrow> conn" where
  "disconnect n c =
     (if \<not> isCurrent n c then c
      else
        (let c1 = clear_conn_timer (watchdog_of n c) c;
             c2 = c1\<lparr>ws := None, wsConnected := False, wsOutageSeen := True\<rparr>;
             c3 = scheduleOfflineIndicator c2;
             c4 = on_page [PeakPolling False, MetadataPolling True] c3
         in scheduleReconnect c4))"

text \<open>\<open>socket.close()\<close>.\<close>

definition close_socket :: "nat \<Rightarrow> conn \<Rightarrow> conn" where
  "close_socket n = upd_socket n (\<lambda>k. if readyState k = Closed then k else k\<lparr>readyState := Closing\<rparr>)"

definition closeUnresponsiveSocket :: "nat \<Rightarrow> conn \<Rightarrow> conn" where
  "closeUnresponsiveSocket n c =
     (if \<not> isCurrent n c then c else close_socket n (disconnect n c))"

definition watch_heartbeat :: "nat \<Rightarrow> conn \<Rightarrow> conn" where
  "watch_heartbeat n c =
     upd_socket n (\<lambda>k. k\<lparr>watchdogTimer := nextConnTimer c\<rparr>) (add_conn_timer (THeartbeat n) c)"

definition heartbeat :: "bool \<Rightarrow> nat \<Rightarrow> conn \<Rightarrow> conn" where
  "heartbeat sent n c =
     (if \<not> isCurrent n c then c
      else if \<exists>k. sockets c n = Some k \<and> awaitingPong k then closeUnresponsiveSocket n c
      else
        (let c1 = upd_socket n (\<lambda>k. k\<lparr>awaitingPong := True\<rparr>) c
         in if sent then watch_heartbeat n c1 else closeUnresponsiveSocket n c1))"

definition onopen :: "bool \<Rightarrow> nat \<Rightarrow> conn \<Rightarrow> conn" where
  "onopen measurementPanelOpen n c =
     (if \<not> isCurrent n c then c
      else
        (let c1 = watch_heartbeat n (clear_conn_timer (watchdog_of n c) c);
             c2 = c1\<lparr>wsConnected := True, reconnectAttempts := 0\<rparr>;
             c3 = (clear_conn_timer (offlineIndicatorTimer c2) c2)
                    \<lparr>offlineIndicatorTimer := None, offlineHidden := True\<rparr>;
             c4 = on_page [MetadataPolling False, PeakPolling True] c3;
             c5 = (if measurementPanelOpen
                   then c4\<lparr>connEffects := connEffects c4 @ [RecoverAutoSubJob]\<rparr> else c4)
         in if wsOutageSeen c5
            then c5\<lparr>wsOutageSeen := False, connEffects := connEffects c5 @ [FreshnessCheck ''reconnect'']\<rparr>
            else c5))"

text \<open>The argument is the parsed message, \<open>None\<close> when \<open>JSON.parse\<close> throws.\<close>

definition onmessage :: "nat \<Rightarrow> jsval option \<Rightarrow> conn \<Rightarrow> conn" where
  "onmessage n parsed c =
     (if \<not> isCurrent n c then c
      else case parsed of
        None \<Rightarrow> c
      | Some message \<Rightarrow>
          if jget message ''type'' = JStr ''pong''
          then upd_socket n (\<lambda>k. k\<lparr>awaitingPong := False\<rparr>) c
          else case jget message ''type'' of
                 JStr type \<Rightarrow> on_page [Push type (jget message ''data'')] c
               | _ \<Rightarrow> c)"

text \<open>The refreshes of \<open>resyncAfterReconnect\<close> are started in a microtask, after the handler.\<close>

definition visibility_changed :: "bool \<Rightarrow> bool \<Rightarrow> conn \<Rightarrow> conn" where
  "visibility_changed hidden constructed c =
     (let c1 = on_page [PageHidden hidden] c in
      if hidden then c1
      else
        (let c2 = connectWebSocket constructed c1;
             c3 = c2\<lparr>connEffects := connEffects c2 @ [FreshnessCheck ''visible'']\<rparr>
         in if wsConnected c1 then on_page [Resync] c3 else c3))"

definition setupWebSocket :: "bool \<Rightarrow> conn \<Rightarrow> conn" where
  "setupWebSocket constructed c = connectWebSocket constructed c"

subsection \<open>Events\<close>

fun conn_timer_fires :: "conn_timer \<Rightarrow> bool \<Rightarrow> conn \<Rightarrow> conn" where
  "conn_timer_fires (TConnectTimeout n) ok c = closeUnresponsiveSocket n c"
| "conn_timer_fires (THeartbeat n) ok c = heartbeat ok n c"
| "conn_timer_fires (TReconnect d) ok c = connectWebSocket ok (c\<lparr>reconnectTimer := None\<rparr>)"
| "conn_timer_fires TOffline ok c =
     (let c1 = c\<lparr>offlineIndicatorTimer := None\<rparr>
      in if wsConnected c1 then c1 else c1\<lparr>offlineHidden := False\<rparr>)"

text \<open>The browser moves the ready state before it calls the handler; a socket that left
  \<open>CONNECTING\<close> never opens again. A page event of any kind may come between two connection
  events.\<close>

datatype conn_event =
    PageEvent event
  | CameOnline bool
  | Visibility bool bool
  | SockOpens nat bool
  | SockCloses nat
  | SockClosed nat
  | SockError nat
  | SockMessage nat "jsval option"
  | ConnTimer nat bool

fun conn_step :: "conn_event \<Rightarrow> conn \<Rightarrow> conn" where
  "conn_step (PageEvent e) c = on_page [e] c"
| "conn_step (CameOnline ok) c = connectWebSocket ok c"
| "conn_step (Visibility hidden ok) c = visibility_changed hidden ok c"
| "conn_step (SockOpens n panel) c =
     (case sockets c n of None \<Rightarrow> c
      | Some k \<Rightarrow> if readyState k = Connecting
                  then onopen panel n (upd_socket n (\<lambda>k. k\<lparr>readyState := Opened\<rparr>) c) else c)"
| "conn_step (SockCloses n) c = close_socket n c"
| "conn_step (SockClosed n) c = disconnect n (upd_socket n (\<lambda>k. k\<lparr>readyState := Closed\<rparr>) c)"
| "conn_step (SockError n) c = closeUnresponsiveSocket n c"
| "conn_step (SockMessage n m) c = onmessage n m c"
| "conn_step (ConnTimer h ok) c =
     (case map_of (connTimers c) h of None \<Rightarrow> c
      | Some k \<Rightarrow> conn_timer_fires k ok (clear_conn_timer (Some h) c))"

inductive conn_steps :: "conn \<Rightarrow> conn \<Rightarrow> bool" where
  conn_steps: "conn_steps c (conn_step e c)"

inductive_cases conn_stepsE: "conn_steps c d"

end
