(* ===== verification/Ws_Safety.thy ===== *)
theory Ws_Safety
  imports Ws_Connection
begin

section \<open>Safety of the connection\<close>

text \<open>
  The invariant of the connection loop, in two parts. \<open>conn_core\<close> ties the timer variables to
  the running timers and the socket variable to the serial; it also holds between two statements
  of a handler. \<open>conn_live\<close> says why the page cannot sit offline with nothing scheduled: the
  current socket is watched by a running timer, and without one a reconnect is scheduled.
\<close>

subsection \<open>The invariant\<close>

definition watch_kind :: "nat \<Rightarrow> conn_timer \<Rightarrow> bool" where
  "watch_kind n k = (k = TConnectTimeout n \<or> k = THeartbeat n)"

definition watched :: "nat \<Rightarrow> conn \<Rightarrow> bool" where
  "watched n c = (\<exists>k j. sockets c n = Some k \<and> watch_kind n j \<and> (watchdogTimer k, j) \<in> set (connTimers c))"

definition handles_fresh :: "conn \<Rightarrow> bool" where
  "handles_fresh c =
     (distinct (map fst (connTimers c)) \<and> (\<forall>h k. (h, k) \<in> set (connTimers c) \<longrightarrow> h < nextConnTimer c))"

definition sockets_ok :: "conn \<Rightarrow> bool" where
  "sockets_ok c =
     ((\<forall>n k. sockets c n = Some k \<longrightarrow> n \<le> wsConnectSerial c \<and> watchdogTimer k < nextConnTimer c
         \<and> (\<forall>j. (watchdogTimer k, j) \<in> set (connTimers c) \<longrightarrow> watch_kind n j))
      \<and> (\<forall>n. ws c = Some n \<longrightarrow> (\<exists>k. sockets c n = Some k
           \<and> (n \<noteq> wsConnectSerial c \<longrightarrow> readyState k \<in> {Closing, Closed}))))"

definition reconnect_ok :: "conn \<Rightarrow> bool" where
  "reconnect_ok c =
     ((\<forall>h. reconnectTimer c = Some h \<longrightarrow> (\<exists>d. (h, TReconnect d) \<in> set (connTimers c)))
      \<and> (\<forall>h d. (h, TReconnect d) \<in> set (connTimers c) \<longrightarrow> reconnectTimer c = Some h
           \<and> reconnectInterval \<le> d \<and> d \<le> maxReconnectInterval))"

definition offline_ok :: "conn \<Rightarrow> bool" where
  "offline_ok c =
     ((\<forall>h. offlineIndicatorTimer c = Some h \<longrightarrow> (h, TOffline) \<in> set (connTimers c))
      \<and> (\<forall>h. (h, TOffline) \<in> set (connTimers c) \<longrightarrow> offlineIndicatorTimer c = Some h))"

definition shown_ok :: "conn \<Rightarrow> bool" where
  "shown_ok c = (wsConnected c \<longrightarrow> offlineHidden c)"

definition conn_core :: "conn \<Rightarrow> bool" where
  "conn_core c = (handles_fresh c \<and> sockets_ok c \<and> reconnect_ok c \<and> offline_ok c \<and> shown_ok c)"

definition conn_live :: "conn \<Rightarrow> bool" where
  "conn_live c =
     ((isCurrent (wsConnectSerial c) c \<longrightarrow> watched (wsConnectSerial c) c)
      \<and> (isCurrent (wsConnectSerial c) c \<or> reconnectTimer c \<noteq> None))"

definition conn_inv :: "conn \<Rightarrow> bool" where
  "conn_inv c = (conn_core c \<and> conn_live c)"

lemmas core_defs = conn_core_def handles_fresh_def sockets_ok_def reconnect_ok_def offline_ok_def
  shown_ok_def isCurrent_def

subsection \<open>Steps that keep the invariant\<close>

text \<open>The parts do not depend on the variables they do not name.\<close>

lemma core_parts [simp]:
  "handles_fresh (c\<lparr>reconnectTimer := h\<rparr>) = handles_fresh c"
  "handles_fresh (c\<lparr>offlineIndicatorTimer := h\<rparr>) = handles_fresh c"
  "handles_fresh (c\<lparr>reconnectAttempts := m\<rparr>) = handles_fresh c"
  "sockets_ok (c\<lparr>reconnectTimer := h\<rparr>) = sockets_ok c"
  "sockets_ok (c\<lparr>offlineIndicatorTimer := h\<rparr>) = sockets_ok c"
  "sockets_ok (c\<lparr>reconnectAttempts := m\<rparr>) = sockets_ok c"
  "reconnect_ok (c\<lparr>offlineIndicatorTimer := h\<rparr>) = reconnect_ok c"
  "reconnect_ok (c\<lparr>reconnectAttempts := m\<rparr>) = reconnect_ok c"
  "offline_ok (c\<lparr>reconnectTimer := h\<rparr>) = offline_ok c"
  "offline_ok (c\<lparr>reconnectAttempts := m\<rparr>) = offline_ok c"
  "shown_ok (c\<lparr>reconnectTimer := h\<rparr>) = shown_ok c"
  "shown_ok (c\<lparr>offlineIndicatorTimer := h\<rparr>) = shown_ok c"
  "shown_ok (c\<lparr>reconnectAttempts := m\<rparr>) = shown_ok c"
  by (simp_all add: core_defs)

lemma core_init: "conn_core init_conn"
  by (simp add: core_defs init_conn_def)

lemma on_page_fields [simp]:
  "conn_core (on_page es c) = conn_core c" "conn_live (on_page es c) = conn_live c"
  "isCurrent n (on_page es c) = isCurrent n c" "reconnectTimer (on_page es c) = reconnectTimer c"
  "watched n (on_page es c) = watched n c" "wsConnectSerial (on_page es c) = wsConnectSerial c"
  "ws (on_page es c) = ws c" "sockets (on_page es c) = sockets c"
  by (simp_all add: on_page_def core_defs conn_live_def watched_def)

lemma core_effects [simp]:
  "conn_core (c\<lparr>connEffects := es\<rparr>) = conn_core c" "conn_live (c\<lparr>connEffects := es\<rparr>) = conn_live c"
  "conn_core (c\<lparr>wsOutageSeen := b\<rparr>) = conn_core c" "conn_live (c\<lparr>wsOutageSeen := b\<rparr>) = conn_live c"
  "conn_core (c\<lparr>reconnectAttempts := m\<rparr>) = conn_core c" "conn_live (c\<lparr>reconnectAttempts := m\<rparr>) = conn_live c"
  by (simp_all add: core_defs conn_live_def watched_def)

lemma clear_conn_set:
  "(i, k) \<in> set (connTimers (clear_conn_timer h c)) \<longleftrightarrow> (i, k) \<in> set (connTimers c) \<and> Some i \<noteq> h"
  by (auto simp: clear_conn_timer_def)

lemma clear_conn_frame [simp]:
  "ws (clear_conn_timer h c) = ws c" "wsConnectSerial (clear_conn_timer h c) = wsConnectSerial c"
  "sockets (clear_conn_timer h c) = sockets c" "reconnectTimer (clear_conn_timer h c) = reconnectTimer c"
  "offlineIndicatorTimer (clear_conn_timer h c) = offlineIndicatorTimer c"
  "wsConnected (clear_conn_timer h c) = wsConnected c" "offlineHidden (clear_conn_timer h c) = offlineHidden c"
  "nextConnTimer (clear_conn_timer h c) = nextConnTimer c" "isCurrent n (clear_conn_timer h c) = isCurrent n c"
  "wsOutageSeen (clear_conn_timer h c) = wsOutageSeen c" "reconnectAttempts (clear_conn_timer h c) = reconnectAttempts c"
  by (simp_all add: clear_conn_timer_def isCurrent_def)

lemma fresh_clear: "handles_fresh c \<Longrightarrow> handles_fresh (clear_conn_timer h c)"
  by (auto simp: handles_fresh_def clear_conn_timer_def distinct_map inj_on_def)

lemma sockets_clear: "sockets_ok c \<Longrightarrow> sockets_ok (clear_conn_timer h c)"
  by (auto simp: sockets_ok_def clear_conn_set)

lemma timer_kind: "handles_fresh c \<Longrightarrow> (h, k) \<in> set (connTimers c) \<Longrightarrow> (h, k') \<in> set (connTimers c) \<Longrightarrow> k = k'"
  by (auto simp: handles_fresh_def dest: eq_key_imp_eq_value)

lemma reconnect_clear:
  assumes "reconnect_ok c" "\<And>d i. h = Some i \<Longrightarrow> (i, TReconnect d) \<notin> set (connTimers c)"
  shows "reconnect_ok (clear_conn_timer h c)"
  using assms unfolding reconnect_ok_def clear_conn_set clear_conn_frame by metis

lemma reconnect_forget:
  assumes "reconnect_ok c" "reconnectTimer c = Some h"
  shows "reconnect_ok ((clear_conn_timer (Some h) c)\<lparr>reconnectTimer := None\<rparr>)"
  using assms by (simp add: reconnect_ok_def clear_conn_set)

lemma offline_clear:
  assumes "offline_ok c" "\<And>i. h = Some i \<Longrightarrow> (i, TOffline) \<notin> set (connTimers c)"
  shows "offline_ok (clear_conn_timer h c)"
  using assms unfolding offline_ok_def clear_conn_set clear_conn_frame by metis

lemma offline_forget:
  assumes "offline_ok c" "offlineIndicatorTimer c = Some h"
  shows "offline_ok ((clear_conn_timer (Some h) c)\<lparr>offlineIndicatorTimer := None\<rparr>)"
  using assms by (simp add: offline_ok_def clear_conn_set)

lemma shown_clear [simp]: "shown_ok (clear_conn_timer h c) = shown_ok c"
  by (simp add: shown_ok_def)

text \<open>Clearing the watchdog of a socket touches no other variable's timer.\<close>

lemma core_clear_watchdog:
  assumes "conn_core c"
  shows "conn_core (clear_conn_timer (watchdog_of n c) c)"
proof -
  have "(h, TReconnect d) \<notin> set (connTimers c)" "(h, TOffline) \<notin> set (connTimers c)"
    if "watchdog_of n c = Some h" for h d
    using that assms by (auto simp: watchdog_of_def conn_core_def sockets_ok_def watch_kind_def)
  then show ?thesis
    using assms by (simp add: conn_core_def fresh_clear sockets_clear reconnect_clear offline_clear)
qed

lemma core_clear_reconnect:
  assumes "conn_core c" "reconnectTimer c = Some h"
  shows "conn_core ((clear_conn_timer (Some h) c)\<lparr>reconnectTimer := None\<rparr>)"
proof -
  obtain d where "(h, TReconnect d) \<in> set (connTimers c)"
    using assms by (auto simp: conn_core_def reconnect_ok_def)
  then have "(h, TOffline) \<notin> set (connTimers c)"
    using timer_kind assms(1) by (auto simp: conn_core_def)
  then show ?thesis
    using assms reconnect_forget [of c h] offline_clear [of c "Some h"]
    by (simp add: conn_core_def fresh_clear sockets_clear)
qed

lemma core_clear_offline:
  assumes "conn_core c" "offlineIndicatorTimer c = Some h"
  shows "conn_core ((clear_conn_timer (Some h) c)\<lparr>offlineIndicatorTimer := None\<rparr>)"
proof -
  have "(h, TOffline) \<in> set (connTimers c)"
    using assms by (auto simp: conn_core_def offline_ok_def)
  then have "(h, TReconnect d) \<notin> set (connTimers c)" for d
    using timer_kind assms(1) by (auto simp: conn_core_def)
  then show ?thesis
    using assms offline_forget [of c h] reconnect_clear [of c "Some h"]
    by (simp add: conn_core_def fresh_clear sockets_clear)
qed

lemma delay_bounds: "reconnectInterval \<le> reconnect_delay n" "reconnect_delay n \<le> maxReconnectInterval"
  by (simp_all add: reconnect_delay_def reconnectInterval_def maxReconnectInterval_def)

lemma fresh_not_running: "handles_fresh c \<Longrightarrow> (nextConnTimer c, k) \<notin> set (connTimers c)"
  by (auto simp: handles_fresh_def)

lemma add_timer_frame [simp]:
  "ws (add_conn_timer k c) = ws c" "wsConnectSerial (add_conn_timer k c) = wsConnectSerial c"
  "sockets (add_conn_timer k c) = sockets c" "reconnectTimer (add_conn_timer k c) = reconnectTimer c"
  "offlineIndicatorTimer (add_conn_timer k c) = offlineIndicatorTimer c"
  "wsConnected (add_conn_timer k c) = wsConnected c" "offlineHidden (add_conn_timer k c) = offlineHidden c"
  "nextConnTimer (add_conn_timer k c) = Suc (nextConnTimer c)"
  "connTimers (add_conn_timer k c) = connTimers c @ [(nextConnTimer c, k)]"
  by (simp_all add: add_conn_timer_def)

lemma add_timer_mem:
  "(i, j) \<in> set (connTimers (add_conn_timer k c)) \<longleftrightarrow> (i, j) \<in> set (connTimers c) \<or> i = nextConnTimer c \<and> j = k"
  by auto

lemma fresh_add: "handles_fresh c \<Longrightarrow> handles_fresh (add_conn_timer k c)"
  by (auto simp: handles_fresh_def less_Suc_eq)

lemma sockets_add: "sockets_ok c \<Longrightarrow> sockets_ok (add_conn_timer k c)"
  by (fastforce simp: sockets_ok_def less_Suc_eq)

lemma reconnect_add:
  "reconnect_ok c \<Longrightarrow> (\<And>d. k \<noteq> TReconnect d) \<Longrightarrow> reconnect_ok (add_conn_timer k c)"
  unfolding reconnect_ok_def add_timer_mem add_timer_frame(4) by metis

lemma reconnect_take:
  assumes "reconnect_ok c" "reconnectTimer c = None"
  shows "reconnect_ok ((add_conn_timer (TReconnect (reconnect_delay m)) c)\<lparr>reconnectTimer := Some (nextConnTimer c)\<rparr>)"
  using assms delay_bounds [of m] by (auto simp: reconnect_ok_def)

lemma offline_add: "offline_ok c \<Longrightarrow> k \<noteq> TOffline \<Longrightarrow> offline_ok (add_conn_timer k c)"
  unfolding offline_ok_def add_timer_mem add_timer_frame(5) by metis

lemma offline_take:
  assumes "offline_ok c" "offlineIndicatorTimer c = None"
  shows "offline_ok ((add_conn_timer TOffline c)\<lparr>offlineIndicatorTimer := Some (nextConnTimer c)\<rparr>)"
  using assms by (auto simp: offline_ok_def)

lemma shown_add [simp]: "shown_ok (add_conn_timer k c) = shown_ok c"
  by (simp add: shown_ok_def isCurrent_def)

lemma core_schedule_reconnect:
  assumes "conn_core c"
  shows "conn_core (scheduleReconnect c)" "reconnectTimer (scheduleReconnect c) \<noteq> None"
proof -
  show "conn_core (scheduleReconnect c)"
    using assms reconnect_take [of c "reconnectAttempts c"]
    by (simp add: scheduleReconnect_def conn_core_def fresh_add sockets_add offline_add)
  show "reconnectTimer (scheduleReconnect c) \<noteq> None"
    by (auto simp: scheduleReconnect_def)
qed

lemma core_schedule_offline:
  assumes "conn_core c"
  shows "conn_core (scheduleOfflineIndicator c)"
  using assms offline_take [of c]
  by (simp add: scheduleOfflineIndicator_def conn_core_def fresh_add sockets_add reconnect_add)

lemma schedule_frame [simp]:
  "ws (scheduleReconnect c) = ws c" "ws (scheduleOfflineIndicator c) = ws c"
  "wsConnectSerial (scheduleReconnect c) = wsConnectSerial c"
  "wsConnectSerial (scheduleOfflineIndicator c) = wsConnectSerial c"
  "isCurrent n (scheduleReconnect c) = isCurrent n c"
  "isCurrent n (scheduleOfflineIndicator c) = isCurrent n c"
  by (simp_all add: scheduleReconnect_def scheduleOfflineIndicator_def add_conn_timer_def isCurrent_def)

lemma upd_socket_parts:
  "handles_fresh (upd_socket n f c) = handles_fresh c"
  "reconnect_ok (upd_socket n f c) = reconnect_ok c" "offline_ok (upd_socket n f c) = offline_ok c"
  "shown_ok (upd_socket n f c) = shown_ok c"
  by (simp_all add: upd_socket_def handles_fresh_def reconnect_ok_def offline_ok_def shown_ok_def)

lemma core_upd_socket:
  assumes "conn_core c" "\<And>k. watchdogTimer (f k) = watchdogTimer k"
    "\<And>k. readyState k \<in> {Closing, Closed} \<Longrightarrow> readyState (f k) \<in> {Closing, Closed}"
  shows "conn_core (upd_socket n f c)"
proof -
  have "sockets_ok (upd_socket n f c)"
    using assms by (auto simp: conn_core_def sockets_ok_def upd_socket_def)
  then show ?thesis
    using assms(1) by (simp add: conn_core_def upd_socket_parts)
qed

lemma core_opened:
  assumes "conn_core c" "sockets c n = Some k" "readyState k = Connecting"
  shows "conn_core (upd_socket n (\<lambda>k. k\<lparr>readyState := Opened\<rparr>) c)"
proof -
  have "sockets_ok (upd_socket n (\<lambda>k. k\<lparr>readyState := Opened\<rparr>) c)"
    using assms by (fastforce simp: conn_core_def sockets_ok_def upd_socket_def)
  then show ?thesis
    using assms(1) by (simp add: conn_core_def upd_socket_parts)
qed

lemma live_upd_socket:
  assumes "\<And>k. watchdogTimer (f k) = watchdogTimer k"
  shows "conn_live (upd_socket n f c) = conn_live c" "isCurrent m (upd_socket n f c) = isCurrent m c"
    "watched m (upd_socket n f c) = watched m c"
  using assms by (auto simp: conn_live_def watched_def isCurrent_def upd_socket_def)

lemma core_watch:
  assumes "conn_core c"
  shows "conn_core (watch_heartbeat n c)" "sockets c n \<noteq> None \<Longrightarrow> watched n (watch_heartbeat n c)"
proof -
  let ?c = "watch_heartbeat n c"
  have "handles_fresh c"
    using assms by (simp add: conn_core_def)
  then have "sockets_ok ?c"
    using assms fresh_not_running [of c]
    by (fastforce simp: watch_heartbeat_def upd_socket_def conn_core_def sockets_ok_def watch_kind_def
        less_Suc_eq)
  moreover have "handles_fresh ?c = handles_fresh (add_conn_timer (THeartbeat n) c)"
    "reconnect_ok ?c = reconnect_ok (add_conn_timer (THeartbeat n) c)"
    "offline_ok ?c = offline_ok (add_conn_timer (THeartbeat n) c)"
    "shown_ok ?c = shown_ok (add_conn_timer (THeartbeat n) c)"
    by (simp_all add: watch_heartbeat_def upd_socket_def handles_fresh_def reconnect_ok_def offline_ok_def
        shown_ok_def isCurrent_def)
  ultimately show "conn_core ?c"
    using assms by (simp add: conn_core_def fresh_add reconnect_add offline_add)
  show "watched n ?c" if "sockets c n \<noteq> None"
    using that by (auto simp: watched_def watch_heartbeat_def upd_socket_def watch_kind_def)
qed


subsection \<open>The handlers\<close>

definition conn_ready :: "conn \<Rightarrow> bool" where
  "conn_ready c = (conn_core c \<and> reconnectTimer c \<noteq> None \<and> ws c = None)"

lemma ready_inv: "conn_ready c \<Longrightarrow> conn_inv c"
  by (simp add: conn_ready_def conn_inv_def conn_live_def isCurrent_def)

lemma ready_upd_socket:
  assumes "conn_ready c" "\<And>k. watchdogTimer (f k) = watchdogTimer k"
    "\<And>k. readyState k \<in> {Closing, Closed} \<Longrightarrow> readyState (f k) \<in> {Closing, Closed}"
  shows "conn_ready (upd_socket n f c)"
  using core_upd_socket [of c f n] assms by (simp add: conn_ready_def) (simp add: upd_socket_def)

text \<open>A disconnect of the current socket always ends with a reconnect scheduled.\<close>

lemma disconnect_ready:
  assumes "conn_core c" "isCurrent n c"
  shows "conn_ready (disconnect n c)"
proof -
  let ?d = "(clear_conn_timer (watchdog_of n c) c)\<lparr>ws := None, wsConnected := False, wsOutageSeen := True\<rparr>"
  have core: "conn_core (clear_conn_timer (watchdog_of n c) c)"
    by (rule core_clear_watchdog [OF assms(1)])
  have "handles_fresh ?d = handles_fresh (clear_conn_timer (watchdog_of n c) c)"
    "reconnect_ok ?d = reconnect_ok (clear_conn_timer (watchdog_of n c) c)"
    "offline_ok ?d = offline_ok (clear_conn_timer (watchdog_of n c) c)" "shown_ok ?d"
    "sockets_ok (clear_conn_timer (watchdog_of n c) c) \<Longrightarrow> sockets_ok ?d"
    by (simp_all add: handles_fresh_def reconnect_ok_def offline_ok_def shown_ok_def sockets_ok_def)
  then have "conn_core ?d"
    using core by (simp add: conn_core_def)
  then have "conn_core (scheduleOfflineIndicator ?d)"
    by (rule core_schedule_offline)
  then show ?thesis
    using assms(2) core_schedule_reconnect
    by (simp add: disconnect_def Let_def conn_ready_def)
qed

lemma close_ready:
  assumes "conn_core c" "isCurrent n c"
  shows "conn_ready (closeUnresponsiveSocket n c)"
  using disconnect_ready [OF assms] assms(2)
  by (auto simp: closeUnresponsiveSocket_def close_socket_def intro!: ready_upd_socket)

lemma inv_disconnect: "conn_inv c \<Longrightarrow> conn_inv (disconnect n c)"
  using disconnect_ready ready_inv by (cases "isCurrent n c") (auto simp: conn_inv_def disconnect_def)

lemma inv_close: "conn_inv c \<Longrightarrow> conn_inv (closeUnresponsiveSocket n c)"
  using close_ready ready_inv
  by (cases "isCurrent n c") (auto simp: conn_inv_def closeUnresponsiveSocket_def)

lemma inv_upd_socket:
  assumes "conn_inv c" "\<And>k. watchdogTimer (f k) = watchdogTimer k"
    "\<And>k. readyState k \<in> {Closing, Closed} \<Longrightarrow> readyState (f k) \<in> {Closing, Closed}"
  shows "conn_inv (upd_socket n f c)"
  using assms core_upd_socket [of c f n] live_upd_socket(1) [of f n c] by (simp add: conn_inv_def)

lemma current_socket: "conn_core c \<Longrightarrow> isCurrent n c \<Longrightarrow> sockets c n \<noteq> None"
  by (auto simp: conn_core_def sockets_ok_def isCurrent_def)

lemma inv_watch:
  assumes "conn_core c" "isCurrent n c"
  shows "conn_inv (watch_heartbeat n c)"
proof -
  have "isCurrent m (watch_heartbeat n c) = isCurrent m c" "wsConnectSerial (watch_heartbeat n c) = wsConnectSerial c" for m
    by (simp_all add: watch_heartbeat_def upd_socket_def isCurrent_def)
  then show ?thesis
    using core_watch [OF assms(1), of n] current_socket [OF assms] assms(2)
    by (auto simp: conn_inv_def conn_live_def isCurrent_def)
qed

lemma core_open_socket:
  assumes "conn_core c" "n = Suc (wsConnectSerial c)"
  shows "conn_core (open_socket n (c\<lparr>wsConnectSerial := n\<rparr>))"
    "watched n (open_socket n (c\<lparr>wsConnectSerial := n\<rparr>))"
proof -
  let ?c = "open_socket n (c\<lparr>wsConnectSerial := n\<rparr>)"
  have fresh: "handles_fresh c"
    using assms by (simp add: conn_core_def)
  have "sockets c m = Some k \<Longrightarrow> m \<le> wsConnectSerial c" for m k
    using assms by (auto simp: conn_core_def sockets_ok_def)
  then have "sockets_ok ?c"
    using assms fresh_not_running [OF fresh]
    by (fastforce simp: open_socket_def conn_core_def sockets_ok_def watch_kind_def less_Suc_eq
        add_conn_timer_def)
  moreover have "handles_fresh ?c = handles_fresh (add_conn_timer (TConnectTimeout n) c)"
    "reconnect_ok ?c = reconnect_ok (add_conn_timer (TConnectTimeout n) c)"
    "offline_ok ?c = offline_ok (add_conn_timer (TConnectTimeout n) c)"
    "shown_ok ?c = shown_ok (add_conn_timer (TConnectTimeout n) c)"
    by (simp_all add: open_socket_def handles_fresh_def reconnect_ok_def offline_ok_def shown_ok_def
        add_conn_timer_def)
  ultimately show "conn_core ?c"
    using assms by (simp add: conn_core_def fresh_add reconnect_add offline_add)
  show "watched n ?c"
    by (auto simp: watched_def open_socket_def watch_kind_def add_conn_timer_def)
qed

text \<open>A new connection: the previous socket, if any, is closing and belongs to an older serial.\<close>

lemma core_next_serial:
  assumes "conn_core c" "\<not> has_live_socket c"
  shows "conn_core (c\<lparr>wsConnectSerial := Suc (wsConnectSerial c)\<rparr>)"
proof -
  have "readyState k \<in> {Closing, Closed}" if "ws c = Some n" "sockets c n = Some k" for n k
    using that assms(2) by (cases "readyState k") (auto simp: has_live_socket_def)
  then have "sockets_ok (c\<lparr>wsConnectSerial := Suc (wsConnectSerial c)\<rparr>)"
    using assms(1) by (fastforce simp: conn_core_def sockets_ok_def)
  moreover have "handles_fresh (c\<lparr>wsConnectSerial := n\<rparr>) = handles_fresh c"
    "reconnect_ok (c\<lparr>wsConnectSerial := n\<rparr>) = reconnect_ok c"
    "offline_ok (c\<lparr>wsConnectSerial := n\<rparr>) = offline_ok c"
    "shown_ok (c\<lparr>wsConnectSerial := n\<rparr>) = shown_ok c" for n
    by (simp_all add: handles_fresh_def reconnect_ok_def offline_ok_def shown_ok_def)
  ultimately show ?thesis
    using assms(1) by (simp add: conn_core_def)
qed

lemma no_next_socket:
  assumes "conn_core c"
  shows "ws c \<noteq> Some (Suc (wsConnectSerial c))"
proof
  assume "ws c = Some (Suc (wsConnectSerial c))"
  then obtain k where "sockets c (Suc (wsConnectSerial c)) = Some k"
    using assms by (auto simp: conn_core_def sockets_ok_def)
  then have "Suc (wsConnectSerial c) \<le> wsConnectSerial c"
    using assms unfolding conn_core_def sockets_ok_def by blast
  then show False by simp
qed

lemma inv_connect:
  assumes "conn_core c" "has_live_socket c \<Longrightarrow> conn_live c"
  shows "conn_inv (connectWebSocket constructed c)"
proof (cases "has_live_socket c")
  case True
  with assms show ?thesis
    by (simp add: connectWebSocket_def conn_inv_def)
next
  case False
  let ?c = "(clear_conn_timer (reconnectTimer c) c)\<lparr>reconnectTimer := None\<rparr>"
  have idle: "(clear_conn_timer None c)\<lparr>reconnectTimer := None\<rparr> = c" if "reconnectTimer c = None"
    using that by (cases c) (simp add: clear_conn_timer_def)
  have core: "conn_core ?c"
    using assms(1) core_clear_reconnect [OF assms(1)] by (cases "reconnectTimer c") (simp_all add: idle)
  have dead: "\<not> has_live_socket ?c"
    using False by (simp add: has_live_socket_def cong: option.case_cong)
  let ?d = "scheduleReconnect (on_page [MetadataPolling True] (scheduleOfflineIndicator
    (?c\<lparr>wsConnectSerial := Suc (wsConnectSerial ?c)\<rparr>)))"
  have "conn_core ?d" "reconnectTimer ?d \<noteq> None"
    using core_schedule_reconnect core_schedule_offline [OF core_next_serial [OF core dead]] by simp_all
  moreover have "\<not> isCurrent (wsConnectSerial ?d) ?d"
    using no_next_socket [OF assms(1)] by (simp add: isCurrent_def)
  ultimately have "conn_inv ?d"
    by (simp add: conn_inv_def conn_live_def)
  moreover have "conn_inv (open_socket (Suc (wsConnectSerial ?c)) (?c\<lparr>wsConnectSerial := Suc (wsConnectSerial ?c)\<rparr>))"
    using core_open_socket [OF core refl]
    by (simp add: conn_inv_def conn_live_def) (simp add: open_socket_def isCurrent_def)
  ultimately show ?thesis
    using False by (simp add: connectWebSocket_def Let_def)
qed


lemma watched_clear:
  assumes "watched n c" "\<And>i j. h = Some i \<Longrightarrow> (i, j) \<in> set (connTimers c) \<Longrightarrow> \<not> watch_kind n j"
  shows "watched n (clear_conn_timer h c)"
proof -
  obtain s j where s: "sockets c n = Some s" "watch_kind n j" "(watchdogTimer s, j) \<in> set (connTimers c)"
    using assms(1) by (auto simp: watched_def)
  moreover have "h \<noteq> Some (watchdogTimer s)"
    using assms(2) s(2,3) by blast
  ultimately show ?thesis
    by (auto simp: watched_def clear_conn_set)
qed

lemma other_kinds:
  assumes "conn_core c" "(i, j) \<in> set (connTimers c)"
  shows "offlineIndicatorTimer c = Some i \<Longrightarrow> j = TOffline"
    and "reconnectTimer c = Some i \<Longrightarrow> \<exists>d. j = TReconnect d"
proof -
  show "j = TOffline" if "offlineIndicatorTimer c = Some i"
  proof -
    have "(i, TOffline) \<in> set (connTimers c)"
      using assms(1) that by (auto simp: conn_core_def offline_ok_def)
    then show ?thesis
      using timer_kind [of c i j] assms by (auto simp: conn_core_def)
  qed
  show "\<exists>d. j = TReconnect d" if "reconnectTimer c = Some i"
  proof -
    have "\<exists>d. (i, TReconnect d) \<in> set (connTimers c)"
      using assms(1) that unfolding conn_core_def reconnect_ok_def by metis
    then obtain d where "(i, TReconnect d) \<in> set (connTimers c)" ..
    then show ?thesis
      using timer_kind [of c i j] assms by (auto simp: conn_core_def)
  qed
qed

lemma watched_others:
  assumes "conn_core c" "watched n c"
  shows "watched n (clear_conn_timer (offlineIndicatorTimer c) c)"
    "watched n (clear_conn_timer (reconnectTimer c) c)"
proof -
  have "\<not> watch_kind n j" if "offlineIndicatorTimer c = Some i" "(i, j) \<in> set (connTimers c)" for i j
    using other_kinds(1) [OF assms(1) that(2,1)] by (simp add: watch_kind_def)
  then show "watched n (clear_conn_timer (offlineIndicatorTimer c) c)"
    by (rule watched_clear [OF assms(2)])
  have "\<not> watch_kind n j" if "reconnectTimer c = Some i" "(i, j) \<in> set (connTimers c)" for i j
    using other_kinds(2) [OF assms(1) that(2,1)] by (auto simp: watch_kind_def)
  then show "watched n (clear_conn_timer (reconnectTimer c) c)"
    by (rule watched_clear [OF assms(2)])
qed

text \<open>The indicator is hidden and its timer dropped: the watchdog is another timer.\<close>

lemma inv_shown:
  fixes c
  assumes "conn_inv c"
  defines "b \<equiv> c\<lparr>wsConnected := True, reconnectAttempts := 0\<rparr>"
  shows "conn_inv ((clear_conn_timer (offlineIndicatorTimer c) b)\<lparr>offlineIndicatorTimer := None, offlineHidden := True\<rparr>)"
    (is "conn_inv ?d")
proof -
  let ?e = "(clear_conn_timer (offlineIndicatorTimer c) c)\<lparr>offlineIndicatorTimer := None\<rparr>"
  have core: "conn_core c" and live: "conn_live c"
    using assms by (simp_all add: conn_inv_def)
  have idle: "?e = c" if "offlineIndicatorTimer c = None"
    using that by (cases c) (simp add: clear_conn_timer_def)
  have e: "conn_core ?e"
    using core core_clear_offline [OF core] idle by (cases "offlineIndicatorTimer c") simp_all
  have "handles_fresh ?d = handles_fresh ?e" "sockets_ok ?d = sockets_ok ?e"
    "reconnect_ok ?d = reconnect_ok ?e" "offline_ok ?d = offline_ok ?e" "shown_ok ?d"
    by (simp_all add: b_def clear_conn_timer_def handles_fresh_def sockets_ok_def reconnect_ok_def
        offline_ok_def shown_ok_def)
  then have "conn_core ?d"
    using e by (simp add: conn_core_def)
  moreover have "watched n ?d" if "watched n c" for n
    using watched_others(1) [OF core that] by (simp add: watched_def b_def clear_conn_timer_def)
  ultimately show ?thesis
    using live by (simp add: conn_inv_def conn_live_def b_def isCurrent_def)
qed

lemma inv_onopen:
  assumes "conn_inv c"
  shows "conn_inv (onopen panel n c)"
proof (cases "isCurrent n c")
  case False
  with assms show ?thesis by (simp add: onopen_def)
next
  case True
  let ?a = "watch_heartbeat n (clear_conn_timer (watchdog_of n c) c)"
  let ?b = "?a\<lparr>wsConnected := True, reconnectAttempts := 0\<rparr>"
  let ?d = "(clear_conn_timer (offlineIndicatorTimer ?b) ?b)\<lparr>offlineIndicatorTimer := None, offlineHidden := True\<rparr>"
  have a: "conn_inv ?a"
    using core_clear_watchdog assms True by (intro inv_watch) (simp_all add: conn_inv_def)
  have "conn_inv ?d"
    using inv_shown [OF a] by simp
  then have "conn_inv (on_page es ?d)" for es
    by (simp add: conn_inv_def)
  with True show ?thesis
    by (simp add: onopen_def Let_def conn_inv_def)
qed

lemma inv_heartbeat:
  assumes "conn_core c" "\<not> isCurrent n c \<Longrightarrow> conn_live c"
  shows "conn_inv (heartbeat sent n c)"
proof (cases "isCurrent n c")
  case False
  with assms show ?thesis by (simp add: heartbeat_def conn_inv_def)
next
  case True
  let ?c = "upd_socket n (\<lambda>k. k\<lparr>awaitingPong := True\<rparr>) c"
  have core: "conn_core ?c" and cur: "isCurrent n ?c"
    using core_upd_socket [OF assms(1)] live_upd_socket(2) True by simp_all
  show ?thesis
    using close_ready [OF assms(1) True] close_ready [OF core cur] inv_watch [OF core cur] True
    by (simp add: heartbeat_def Let_def ready_inv)
qed

lemma inv_message:
  assumes "conn_inv c"
  shows "conn_inv (onmessage n m c)"
proof -
  have "conn_inv (upd_socket n (\<lambda>k. k\<lparr>awaitingPong := False\<rparr>) c)"
    by (rule inv_upd_socket [OF assms]) simp_all
  moreover have "conn_inv (on_page es c)" for es
    using assms by (simp add: conn_inv_def)
  ultimately show ?thesis
    using assms by (simp add: onmessage_def split: option.split jsval.split)
qed


subsection \<open>Every event keeps the invariant\<close>

text \<open>A timer that fires leaves the list first; only its own variable is then out of date.\<close>

lemma core_fired_watch:
  assumes "conn_core c" "(h, k) \<in> set (connTimers c)" "watch_kind n k"
  shows "conn_core (clear_conn_timer (Some h) c)"
    "\<not> isCurrent n c \<Longrightarrow> conn_live c \<Longrightarrow> conn_live (clear_conn_timer (Some h) c)"
proof -
  have kinds: "k' = k" if "(h, k') \<in> set (connTimers c)" for k'
    using timer_kind [of c h k k'] assms(1,2) that by (auto simp: conn_core_def)
  have no: "(h, TReconnect d) \<notin> set (connTimers c)" "(h, TOffline) \<notin> set (connTimers c)" for d
    using kinds assms(3) by (auto simp: watch_kind_def)
  then show "conn_core (clear_conn_timer (Some h) c)"
    using assms(1) reconnect_clear [of c "Some h"] offline_clear [of c "Some h"]
    by (simp add: conn_core_def fresh_clear sockets_clear)
  show "conn_live (clear_conn_timer (Some h) c)" if "\<not> isCurrent n c" "conn_live c"
  proof -
    let ?m = "wsConnectSerial c"
    have "watched ?m (clear_conn_timer (Some h) c)" if cur: "isCurrent ?m c" and w: "watched ?m c"
    proof -
      have "n \<noteq> ?m" using cur \<open>\<not> isCurrent n c\<close> by auto
      obtain s j where s: "sockets c ?m = Some s" "watch_kind ?m j" "(watchdogTimer s, j) \<in> set (connTimers c)"
        using w by (auto simp: watched_def)
      have "watchdogTimer s \<noteq> h"
        using kinds [of j] s \<open>n \<noteq> ?m\<close> assms(3) by (auto simp: watch_kind_def)
      with s show ?thesis
        by (auto simp: watched_def clear_conn_set)
    qed
    then show ?thesis
      using that(2) by (auto simp: conn_live_def)
  qed
qed

lemma inv_timer:
  assumes "conn_inv c" "(h, k) \<in> set (connTimers c)"
  shows "conn_inv (conn_timer_fires k ok (clear_conn_timer (Some h) c))"
proof -
  have core: "conn_core c" and live: "conn_live c"
    using assms by (simp_all add: conn_inv_def)
  show ?thesis
  proof (cases k)
    case (TConnectTimeout n)
    note f = core_fired_watch [OF core assms(2), of n]
    show ?thesis
      using f live close_ready [of "clear_conn_timer (Some h) c" n] ready_inv
      by (cases "isCurrent n c")
         (simp_all add: TConnectTimeout watch_kind_def closeUnresponsiveSocket_def conn_inv_def)
  next
    case (THeartbeat n)
    then show ?thesis
      using core_fired_watch [OF core assms(2), of n] live
      by (auto simp: watch_kind_def intro!: inv_heartbeat)
  next
    case (TReconnect d)
    then have r: "reconnectTimer c = Some h"
      using core assms(2) by (auto simp: conn_core_def reconnect_ok_def)
    have "conn_live ((clear_conn_timer (Some h) c)\<lparr>reconnectTimer := None\<rparr>)"
      if l: "has_live_socket c"
    proof -
      obtain n s where s: "ws c = Some n" "sockets c n = Some s" "readyState s \<notin> {Closing, Closed}"
        using l by (auto simp: has_live_socket_def split: option.splits)
      then have "n = wsConnectSerial c"
        using core by (fastforce simp: conn_core_def sockets_ok_def)
      then have cur: "isCurrent (wsConnectSerial c) c"
        using s(1) by (simp add: isCurrent_def)
      then have "watched (wsConnectSerial c) (clear_conn_timer (Some h) c)"
        using live watched_others(2) [OF core] r by (simp add: conn_live_def)
      then show ?thesis
        using cur by (simp add: conn_live_def isCurrent_def watched_def)
    qed
    moreover have "has_live_socket ((clear_conn_timer (Some h) c)\<lparr>reconnectTimer := None\<rparr>) = has_live_socket c"
      by (simp add: has_live_socket_def cong: option.case_cong)
    ultimately show ?thesis
      using inv_connect [OF core_clear_reconnect [OF core r], of ok] by (simp add: TReconnect)
  next
    case TOffline
    then have r: "offlineIndicatorTimer c = Some h"
      using core assms(2) unfolding conn_core_def offline_ok_def by blast
    let ?d = "(clear_conn_timer (Some h) c)\<lparr>offlineIndicatorTimer := None\<rparr>"
    have "watched (wsConnectSerial c) ?d" if "watched (wsConnectSerial c) c"
      using watched_others(1) [OF core that] r by (simp add: watched_def)
    then have inv: "conn_inv ?d"
      using core_clear_offline [OF core r] live by (simp add: conn_inv_def conn_live_def isCurrent_def)
    have "conn_core (d\<lparr>offlineHidden := False\<rparr>) = conn_core d" "conn_live (d\<lparr>offlineHidden := False\<rparr>) = conn_live d"
      if "\<not> wsConnected d" for d
      using that by (simp_all add: conn_core_def handles_fresh_def sockets_ok_def reconnect_ok_def
          offline_ok_def shown_ok_def isCurrent_def conn_live_def watched_def)
    with inv show ?thesis
      by (simp add: TOffline Let_def conn_inv_def)
  qed
qed

lemma conn_inv_step:
  assumes "conn_inv c"
  shows "conn_inv (conn_step e c)"
proof -
  have core: "conn_core c" and live: "conn_live c"
    using assms by (simp_all add: conn_inv_def)
  have page: "conn_inv (on_page es d)" if "conn_inv d" for es d
    using that by (simp add: conn_inv_def)
  have eff: "conn_inv (d\<lparr>connEffects := es\<rparr>)" if "conn_inv d" for es d
    using that by (simp add: conn_inv_def)
  have connect: "conn_inv (connectWebSocket ok d)" if "conn_inv d" for ok d
    using that by (intro inv_connect) (simp_all add: conn_inv_def)
  have opened: "conn_inv (upd_socket n (\<lambda>k. k\<lparr>readyState := Opened\<rparr>) c)"
    if "sockets c n = Some k" "readyState k = Connecting" for n k
    using that core_opened [OF core that] live live_upd_socket(1) by (simp add: conn_inv_def)
  have closed: "conn_inv (upd_socket n (\<lambda>k. k\<lparr>readyState := Closed\<rparr>) c)" "conn_inv (close_socket n c)" for n
    unfolding close_socket_def by (rule inv_upd_socket [OF assms]; simp)+
  show ?thesis
  proof (cases e)
    case (Visibility hidden ok)
    then show ?thesis
      using assms by (simp add: visibility_changed_def Let_def page eff connect)
  next
    case (ConnTimer h ok)
    then show ?thesis
      using assms inv_timer [OF assms map_of_SomeD] by (simp split: option.split)
  qed (use assms in \<open>simp_all add: page connect opened closed inv_onopen inv_disconnect inv_close inv_message
        split: option.split\<close>)
qed

end
