(* ===== verification/Ws_Claims.thy ===== *)
theory Ws_Claims
  imports Ws_Safety
begin

section \<open>Claims about the connection\<close>

text \<open>
  The connection loop after \<open>setupWebSocket\<close>, with every interleaving of browser, server, timer
  and page events: its invariant and its serials as instances of the shared interfaces, and what
  follows for the page.
\<close>

abbreviation conn_reachable :: "conn \<Rightarrow> bool" where
  "conn_reachable \<equiv> reachable (\<lambda>c. \<exists>ok. c = setupWebSocket ok init_conn) conn_steps"

interpretation connection: inductive_invariant "\<lambda>c. \<exists>ok. c = setupWebSocket ok init_conn" conn_steps conn_inv
proof unfold_locales
  show "conn_inv c" if "\<exists>ok. c = setupWebSocket ok init_conn" for c
    using that core_init by (auto simp: setupWebSocket_def intro!: inv_connect)
       (simp add: has_live_socket_def init_conn_def)
  show "conn_inv d" if "conn_inv c" "conn_steps c d" for c d
    using that by (auto elim: conn_stepsE intro: conn_inv_step)
qed

subsection \<open>Serials\<close>

lemma serial_frame [simp]:
  "wsConnectSerial (upd_socket n f c) = wsConnectSerial c" "wsConnectSerial (disconnect n c) = wsConnectSerial c"
  "wsConnectSerial (close_socket n c) = wsConnectSerial c" "wsConnectSerial (closeUnresponsiveSocket n c) = wsConnectSerial c"
  "wsConnectSerial (watch_heartbeat n c) = wsConnectSerial c" "wsConnectSerial (heartbeat ok n c) = wsConnectSerial c"
  "wsConnectSerial (onopen p n c) = wsConnectSerial c"
  by (simp_all add: upd_socket_def disconnect_def close_socket_def closeUnresponsiveSocket_def
      watch_heartbeat_def heartbeat_def onopen_def Let_def)

lemma serial_message [simp]: "wsConnectSerial (onmessage n m c) = wsConnectSerial c"
  by (simp add: onmessage_def split: option.split jsval.split)

lemma serial_connect: "wsConnectSerial c \<le> wsConnectSerial (connectWebSocket ok c)"
  by (simp add: connectWebSocket_def open_socket_def Let_def)

lemma serial_visibility: "wsConnectSerial c \<le> wsConnectSerial (visibility_changed b ok c)"
  using serial_connect [of "on_page [PageHidden False] c" ok] by (simp add: visibility_changed_def Let_def)

lemma serial_timer: "wsConnectSerial c \<le> wsConnectSerial (conn_timer_fires k ok c)"
  using serial_connect [of "c\<lparr>reconnectTimer := None\<rparr>" ok] by (cases k) (simp_all add: Let_def)

lemma serial_step: "wsConnectSerial c \<le> wsConnectSerial (conn_step e c)"
proof (cases e)
  case (ConnTimer h ok)
  then show ?thesis
    using serial_timer [of "clear_conn_timer (Some h) c"] by (simp split: option.split)
qed (simp_all add: serial_connect serial_visibility split: option.split)

interpretation socket_serials: token_guard wsConnectSerial conn_step
  by unfold_locales (rule serial_step)

subsection \<open>The page inside the connection\<close>

text \<open>Each handler acts on the page by a list of page events.\<close>

definition moves :: "player \<Rightarrow> player \<Rightarrow> bool" where
  "moves p q = (\<exists>es. q = run_events step es p)"

lemma moves_refl [simp]: "moves p p"
  unfolding moves_def by (rule exI [of _ "[]"]) simp

lemma moves_run: "moves p q \<Longrightarrow> moves p (run_events step es q)"
  unfolding moves_def run_events_def by (metis comp_apply fold_append)

lemma page_frame [simp]:
  "page (add_conn_timer k c) = page c" "page (clear_conn_timer h c) = page c"
  "page (upd_socket n f c) = page c" "page (scheduleOfflineIndicator c) = page c"
  "page (scheduleReconnect c) = page c" "page (open_socket n c) = page c"
  "page (close_socket n c) = page c" "page (watch_heartbeat n c) = page c"
  "page (on_page es c) = run_events step es (page c)"
  by (simp_all add: add_conn_timer_def clear_conn_timer_def upd_socket_def scheduleOfflineIndicator_def
      scheduleReconnect_def open_socket_def close_socket_def watch_heartbeat_def on_page_def)

lemma moves_disconnect: "moves p (page c) \<Longrightarrow> moves p (page (disconnect n c))"
  using moves_run [of p "page c" "[PeakPolling False, MetadataPolling True]"]
  by (simp add: disconnect_def Let_def)

lemma moves_close: "moves p (page c) \<Longrightarrow> moves p (page (closeUnresponsiveSocket n c))"
  by (simp add: closeUnresponsiveSocket_def moves_disconnect)

lemma moves_connect: "moves p (page c) \<Longrightarrow> moves p (page (connectWebSocket ok c))"
  using moves_run [of p "page c" "[MetadataPolling True]"] by (simp add: connectWebSocket_def Let_def)

lemma moves_heartbeat: "moves p (page c) \<Longrightarrow> moves p (page (heartbeat ok n c))"
  by (simp add: heartbeat_def Let_def moves_close)

lemma moves_open: "moves p (page c) \<Longrightarrow> moves p (page (onopen b n c))"
  using moves_run [of p "page c" "[MetadataPolling False, PeakPolling True]"]
  by (simp add: onopen_def Let_def)

lemma moves_message: "moves p (page c) \<Longrightarrow> moves p (page (onmessage n m c))"
  using moves_run [of p "page c"] by (simp add: onmessage_def del: run_events_simps split: option.split jsval.split)

lemma moves_timer: "moves p (page c) \<Longrightarrow> moves p (page (conn_timer_fires k ok c))"
  by (cases k) (simp_all add: moves_close moves_heartbeat moves_connect Let_def)

lemma moves_visibility: "moves p (page c) \<Longrightarrow> moves p (page (visibility_changed b ok c))"
  by (simp add: visibility_changed_def Let_def moves_connect moves_run del: run_events_simps)

lemma moves_step: "moves (page c) (page (conn_step e c))"
  by (cases e) (simp_all add: moves_disconnect moves_close moves_connect moves_open moves_message
      moves_timer moves_visibility moves_run del: run_events_simps split: option.split)


subsection \<open>Runs of the connection\<close>

lemma conn_run: "conn_reachable c \<Longrightarrow> conn_reachable (run_events conn_step es c)"
  by (induction es arbitrary: c) (auto intro: reachable_step conn_steps)

lemma conn_start: "conn_reachable (setupWebSocket ok init_conn)"
  by (rule reachable_start) auto

lemma moves_reachable: "page_reachable p \<Longrightarrow> moves p q \<Longrightarrow> page_reachable q"
  by (auto simp: moves_def intro: page_run)

definition ex_conn :: conn where
  "ex_conn = setupWebSocket True init_conn"

lemma ex_conn_simps:
  "wsConnectSerial ex_conn = 1" "ws ex_conn = Some 1" "isCurrent 1 ex_conn"
  "sockets ex_conn 1 = Some \<lparr>readyState = Connecting, awaitingPong = False, watchdogTimer = 1\<rparr>"
  by (simp_all add: ex_conn_def setupWebSocket_def connectWebSocket_def has_live_socket_def open_socket_def
      isCurrent_def init_conn_def clear_conn_timer_def add_conn_timer_def)

lemma ex_conn_reachable: "conn_reachable ex_conn"
  unfolding ex_conn_def by (rule conn_start)

subsection \<open>Claims\<close>

text \<open>C4: The page never sits offline with nothing scheduled: in every reachable state of the
  connection either the current socket has a running watchdog of its own, or a reconnect timer is
  running whose delay lies between the two configured intervals.\<close>

theorem page_never_stays_offline:
  assumes "conn_reachable c"
  shows "(\<exists>k j. ws c = Some (wsConnectSerial c) \<and> sockets c (wsConnectSerial c) = Some k
      \<and> watch_kind (wsConnectSerial c) j \<and> (watchdogTimer k, j) \<in> set (connTimers c))
    \<or> (\<exists>h d. reconnectTimer c = Some h \<and> (h, TReconnect d) \<in> set (connTimers c)
      \<and> reconnectInterval \<le> d \<and> d \<le> maxReconnectInterval)"
proof -
  have core: "conn_core c" and live: "conn_live c"
    using connection.always [OF assms] by (simp_all add: conn_inv_def)
  show ?thesis
  proof (cases "isCurrent (wsConnectSerial c) c")
    case True
    then show ?thesis
      using live by (auto simp: conn_live_def watched_def isCurrent_def)
  next
    case False
    then obtain h where h: "reconnectTimer c = Some h"
      using live by (auto simp: conn_live_def)
    then have "\<exists>d. (h, TReconnect d) \<in> set (connTimers c)"
      using core unfolding conn_core_def reconnect_ok_def by metis
    then show ?thesis
      using h core unfolding conn_core_def reconnect_ok_def by metis
  qed
qed

lemma page_never_stays_offline_witness:
  "(\<exists>k j. ws ex_conn = Some 1 \<and> sockets ex_conn 1 = Some k \<and> watch_kind 1 j \<and> (watchdogTimer k, j) \<in> set (connTimers ex_conn))
    \<or> (\<exists>h d. reconnectTimer ex_conn = Some h \<and> (h, TReconnect d) \<in> set (connTimers ex_conn)
      \<and> reconnectInterval \<le> d \<and> d \<le> maxReconnectInterval)"
  using page_never_stays_offline [OF ex_conn_reachable] by (simp only: ex_conn_simps(1))

text \<open>A watchdog of the current socket fires.\<close>

lemma fired_lookup: "conn_core c \<Longrightarrow> (h, k) \<in> set (connTimers c) \<Longrightarrow> map_of (connTimers c) h = Some k"
  by (auto simp: conn_core_def handles_fresh_def)

lemma fired_ready:
  assumes "conn_core c" "isCurrent n c" "(h, j) \<in> set (connTimers c)" "watch_kind n j"
    "j = THeartbeat n \<Longrightarrow> \<exists>k. sockets c n = Some k \<and> awaitingPong k"
  shows "conn_ready (conn_step (ConnTimer h ok) c)"
proof -
  have "conn_ready (closeUnresponsiveSocket n (clear_conn_timer (Some h) c))"
    using core_fired_watch(1) [OF assms(1,3,4)] assms(2) by (intro close_ready) simp_all
  then show ?thesis
    using assms(2,4,5) fired_lookup [OF assms(1,3)] by (auto simp: watch_kind_def heartbeat_def)
qed

lemma pinged:
  assumes "conn_core c" "isCurrent n c" "sockets c n = Some k"
  defines "d \<equiv> watch_heartbeat n (upd_socket n (\<lambda>k. k\<lparr>awaitingPong := True\<rparr>) c)"
  shows "conn_core d" "isCurrent n d" "watchdog_of n d = Some (nextConnTimer c)"
    "(nextConnTimer c, THeartbeat n) \<in> set (connTimers d)" "\<exists>k. sockets d n = Some k \<and> awaitingPong k"
proof -
  have "conn_core (upd_socket n (\<lambda>k. k\<lparr>awaitingPong := True\<rparr>) c)"
    by (rule core_upd_socket [OF assms(1)]) simp_all
  then show "conn_core d"
    unfolding d_def by (rule core_watch)
  show "isCurrent n d" "watchdog_of n d = Some (nextConnTimer c)"
    "(nextConnTimer c, THeartbeat n) \<in> set (connTimers d)" "\<exists>k. sockets d n = Some k \<and> awaitingPong k"
    using assms(2,3) by (simp_all add: d_def watch_heartbeat_def upd_socket_def isCurrent_def watchdog_of_def)
qed

text \<open>C23: A dead server is noticed: when the current socket stays silent, its watchdog gives it up
  after at most two firings, whatever the sends do; the socket is then dropped and a reconnect is
  scheduled.\<close>

theorem dead_server_is_noticed:
  assumes "conn_reachable c" "isCurrent n c" "watchdog_of n c = Some h"
  shows "conn_ready (conn_step (ConnTimer h ok) c)
    \<or> (\<exists>i. watchdog_of n (conn_step (ConnTimer h ok) c) = Some i
        \<and> conn_ready (conn_step (ConnTimer i ok') (conn_step (ConnTimer h ok) c)))"
proof -
  have core: "conn_core c" and live: "conn_live c"
    using connection.always [OF assms(1)] by (simp_all add: conn_inv_def)
  have "watched n c"
    using live assms(2) by (simp add: conn_live_def isCurrent_def)
  then obtain k j where k: "sockets c n = Some k" "watch_kind n j" "(h, j) \<in> set (connTimers c)"
    using assms(3) by (auto simp: watched_def watchdog_of_def)
  show ?thesis
  proof (cases "j = THeartbeat n \<and> \<not> awaitingPong k")
    case False
    then show ?thesis
      using fired_ready [OF core assms(2) k(3,2), of ok] k(1) by auto
  next
    case True
    let ?c = "clear_conn_timer (Some h) c" and ?f = "\<lambda>k. k\<lparr>awaitingPong := True\<rparr>"
    have c: "conn_core ?c" "isCurrent n ?c" "sockets ?c n = Some k"
      using core_fired_watch(1) [OF core k(3,2)] assms(2) k(1) by simp_all
    have fired: "conn_step (ConnTimer h ok) c
        = (if ok then watch_heartbeat n (upd_socket n ?f ?c) else closeUnresponsiveSocket n (upd_socket n ?f ?c))"
      using True fired_lookup [OF core k(3)] c(2,3) by (simp add: heartbeat_def Let_def)
    show ?thesis
    proof (cases ok)
      case True
      note d = pinged [OF c]
      have "conn_ready (conn_step (ConnTimer (nextConnTimer ?c) ok')
          (watch_heartbeat n (upd_socket n ?f ?c)))"
        by (rule fired_ready [OF d(1,2,4) _ d(5)]) (simp add: watch_kind_def)
      then show ?thesis
        unfolding fired using d(3) True by (simp del: conn_step.simps)
    next
      case False
      have "conn_ready (closeUnresponsiveSocket n (upd_socket n ?f ?c))"
        using core_upd_socket [OF c(1)] c(2) live_upd_socket(2) by (intro close_ready) simp_all
      with False show ?thesis unfolding fired by (simp del: conn_step.simps)
    qed
  qed
qed

lemma dead_server_is_noticed_witness:
  "conn_ready (conn_step (ConnTimer 1 True) ex_conn)
    \<or> (\<exists>i. watchdog_of 1 (conn_step (ConnTimer 1 True) ex_conn) = Some i
        \<and> conn_ready (conn_step (ConnTimer i True) (conn_step (ConnTimer 1 True) ex_conn)))"
  by (rule dead_server_is_noticed [OF ex_conn_reachable ex_conn_simps(3)]) (simp add: watchdog_of_def ex_conn_simps del: One_nat_def)

text \<open>C5: A stale socket is deaf: once a newer connection was attempted, whatever still comes from
  an older socket, however late and whatever happened in between, changes at most the state of that
  socket itself: its opening, its closing, its errors and its messages reach neither the page nor the
  current socket nor the reconnection, and a watchdog it left behind does nothing but run out.\<close>

theorem stale_socket_is_deaf:
  fixes c :: conn and es :: "conn_event list" and n :: nat
  assumes "n < wsConnectSerial c"
  defines "d \<equiv> run_events conn_step es c"
  shows "(\<exists>f. conn_step (SockOpens n b) d = upd_socket n f d) \<and> (\<exists>f. conn_step (SockCloses n) d = upd_socket n f d)
    \<and> (\<exists>f. conn_step (SockClosed n) d = upd_socket n f d) \<and> conn_step (SockError n) d = d
    \<and> conn_step (SockMessage n m) d = d
    \<and> (\<forall>h k ok. map_of (connTimers d) h = Some k \<and> watch_kind n k
        \<longrightarrow> conn_step (ConnTimer h ok) d = clear_conn_timer (Some h) d)"
proof -
  have "n < wsConnectSerial d"
    using socket_serials.stale_for_ever [OF assms(1), of es] by (simp add: d_def)
  then have no: "\<not> isCurrent n d" "\<not> isCurrent n (upd_socket n f d)" "\<not> isCurrent n (clear_conn_timer h d)" for f h
    by (simp_all add: isCurrent_def upd_socket_def clear_conn_timer_def)
  have "upd_socket n id d = d"
    by (simp add: upd_socket_def option.map_id)
  then have "\<exists>f. d = upd_socket n f d"
    by metis
  with no show ?thesis
    by (auto simp: onopen_def close_socket_def disconnect_def closeUnresponsiveSocket_def onmessage_def
        heartbeat_def watch_kind_def split: option.split)
qed

lemma stale_socket_is_deaf_witness:
  "conn_step (SockMessage 0 (Some JNull)) (run_events conn_step [SockClosed 1, CameOnline True] ex_conn)
   = run_events conn_step [SockClosed 1, CameOnline True] ex_conn"
  using stale_socket_is_deaf [where c = ex_conn and n = 0 and es = "[SockClosed 1, CameOnline True]"]
    ex_conn_simps(1) by (simp del: One_nat_def)

text \<open>The connection only acts on the page by page events, in every interleaving with the
  timers, requests and clicks of the page itself, so every reachable state of the connected page
  is a reachable state of the page alone and keeps its invariant.\<close>

theorem connected_page_is_a_page:
  assumes "conn_reachable c"
  shows "page_reachable (page c) \<and> player_inv (page c)"
proof -
  have "page_reachable (page c)"
    using assms
  proof (induction rule: reachable.induct)
    case (reachable_start c)
    then obtain ok where c: "c = setupWebSocket ok init_conn" by blast
    have "page init_conn = init_player"
      by (simp add: init_conn_def)
    then show ?case
      using moves_reachable [OF page_start moves_connect [of init_player init_conn ok]]
      by (simp add: c setupWebSocket_def)
  next
    case (reachable_step c d)
    then show ?case
      by (auto elim!: conn_stepsE intro: moves_reachable moves_step)
  qed
  then show ?thesis
    using player.always by blast
qed

lemma connected_page_is_a_page_witness:
  "player_inv (page (run_events conn_step [SockOpens 1 True, SockMessage 1 None, ConnTimer 2 True] ex_conn))"
  using connected_page_is_a_page [OF conn_run [OF ex_conn_reachable]] by blast

lemma switched:
  "metadataPollTimer (startMetadataPolling s) \<noteq> None" "metadataPollTimer (stopMetadataPolling s) = None"
  "peakStatusPollTimer (startPeakStatusPolling s) \<noteq> None" "peakStatusPollTimer (stopPeakStatusPolling s) = None"
  "metadataPollTimer (startPeakStatusPolling s) = metadataPollTimer s"
  "metadataPollTimer (stopPeakStatusPolling s) = metadataPollTimer s"
  "peakStatusPollTimer (startMetadataPolling s) = peakStatusPollTimer s"
  "peakStatusPollTimer (stopMetadataPolling s) = peakStatusPollTimer s"
  by (auto simp: switch_defs set_timer_def clear_timer_def)

text \<open>The page polls its status the way the connection allows: when the current socket opens,
  the metadata poll stops, the peak poll runs, the offline indicator is hidden and the backoff
  starts over; when it is lost, the metadata poll runs, the peak poll stops and a reconnect is
  scheduled.\<close>

theorem polls_follow_connection:
  fixes c :: conn and b :: bool and n :: nat
  assumes "isCurrent n c" "sockets c n = Some k" "readyState k = Connecting"
  defines "up \<equiv> conn_step (SockOpens n b) c" and "down \<equiv> conn_step (SockClosed n) c"
  shows "(wsConnected up \<and> offlineHidden up \<and> reconnectAttempts up = 0 \<and> ws up = Some n
      \<and> metadataPollTimer (page up) = None \<and> peakStatusPollTimer (page up) \<noteq> None)
    \<and> (\<not> wsConnected down \<and> ws down = None \<and> reconnectTimer down \<noteq> None
      \<and> metadataPollTimer (page down) \<noteq> None \<and> peakStatusPollTimer (page down) = None)"
proof
  have ws: "ws c = Some n" and cur: "isCurrent n (upd_socket n f c)" for f
    using assms(1) by (simp_all add: isCurrent_def upd_socket_def)
  show "wsConnected up \<and> offlineHidden up \<and> reconnectAttempts up = 0 \<and> ws up = Some n
      \<and> metadataPollTimer (page up) = None \<and> peakStatusPollTimer (page up) \<noteq> None"
    using assms(2,3) cur ws
    by (simp add: up_def onopen_def Let_def switched del: not_None_eq)
       (simp add: on_page_def watch_heartbeat_def upd_socket_def clear_conn_timer_def add_conn_timer_def switched
         del: not_None_eq)
  show "\<not> wsConnected down \<and> ws down = None \<and> reconnectTimer down \<noteq> None
      \<and> metadataPollTimer (page down) \<noteq> None \<and> peakStatusPollTimer (page down) = None"
    using cur
    by (simp add: down_def disconnect_def Let_def switched del: not_None_eq)
       (simp add: scheduleReconnect_def scheduleOfflineIndicator_def on_page_def add_conn_timer_def del: not_None_eq)
qed

lemma polls_follow_connection_witness:
  "wsConnected (conn_step (SockOpens 1 True) ex_conn) \<and> ws (conn_step (SockClosed 1) ex_conn) = None"
  using polls_follow_connection [OF ex_conn_simps(3,4)] by simp

end
