(* ===== verification/Output_Roles.thy ===== *)
theory Output_Roles
  imports Interfaces
begin

section \<open>Output roles and bass crossovers\<close>

text \<open>
  The role helpers of static/output_state.js: labels of output roles, speaker groups, the
  effective subwoofer crossover of a side or group. A role is a string, a catalog object a JSON
  value; \<open>null\<close> and missing arguments are the values \<open>JNull\<close> and \<open>JUndef\<close>. Lookups in the
  constant tables see their own entries only.
\<close>

definition js_at :: "jsval \<Rightarrow> nat \<Rightarrow> jsval" where
  "js_at v i = (if i < length (arr_items v) then arr_items v ! i else JUndef)"

definition strs :: "jsval \<Rightarrow> string list" where
  "strs v = List.map to_str (arr_items v)"

definition str_or :: "jsval \<Rightarrow> string \<Rightarrow> jsval" where
  "str_or v d = js_or v (JStr d)"

definition num_or :: "jsval \<Rightarrow> jsval \<Rightarrow> jsval" where
  "num_or v d = js_or (JNum (to_num v)) d"

text \<open>UTF-8 bytes of the rightwards arrow.\<close>

definition arrow :: string where
  "arrow = [CHR 0xE2, CHR 0x86, CHR 0x92]"

subsection \<open>Markup\<close>

text \<open>\<open>esc\<close>: four replacements in sequence, the ampersand first.\<close>

definition replace_char :: "char \<Rightarrow> string \<Rightarrow> string \<Rightarrow> string" where
  "replace_char c r s = concat (List.map (\<lambda>d. if d = c then r else [d]) s)"

definition esc :: "jsval \<Rightarrow> string" where
  "esc value =
     replace_char (CHR 0x22) ''&quot;'' (replace_char (CHR ''>'') ''&gt;''
       (replace_char (CHR ''<'') ''&lt;'' (replace_char (CHR ''&'') ''&amp;''
         (to_str (js_coalesce value (JStr []))))))"

subsection \<open>Filter labels\<close>

definition FAMILY_LABELS :: jsval where
  "FAMILY_LABELS = JObj [(''linkwitz-riley'', JStr ''Linkwitz-Riley''),
     (''butterworth'', JStr ''Butterworth''), (''bessel'', JStr ''Bessel'')]"

definition FAMILY_PREFIXES :: jsval where
  "FAMILY_PREFIXES = JObj [(''linkwitz-riley'', JStr ''LR''), (''butterworth'', JStr ''BW''),
     (''bessel'', JStr ''BS'')]"

definition filterLabel :: "jsval \<Rightarrow> jsval \<Rightarrow> string" where
  "filterLabel family slope =
     to_str (js_or (jget FAMILY_PREFIXES (to_str family)) (JStr (str_or_empty family))) @ to_str slope"

subsection \<open>Subwoofer crossovers of static/output\_state.js\<close>

definition SUB_SIDES :: "string list" where "SUB_SIDES = [''left'', ''right'']"

definition normalizedCrossover :: "jsval \<Rightarrow> jsval \<Rightarrow> jsval" where
  "normalizedCrossover defn fallback =
     (let source = js_or defn (JObj []);
          family = (if truthy (jget FAMILY_LABELS (to_str (jget source ''family'')))
                    then jget source ''family''
                    else str_or (jget fallback ''family'') ''linkwitz-riley'')
      in JObj [(''family'', family),
           (''slope_db_oct'', num_or (jget source ''slope_db_oct'')
              (js_or (jget fallback ''slope_db_oct'') (JNum (Fin 24)))),
           (''frequency_hz'', num_or (jget source ''frequency_hz'')
              (js_or (jget fallback ''frequency_hz'') (JNum (Fin 80))))])"

definition shared_fallback :: "jsval \<Rightarrow> jsval" where
  "shared_fallback source = JObj [(''family'', jget source ''family''),
     (''slope_db_oct'', jget source ''slope_db_oct''), (''frequency_hz'', jget source ''frequency_hz'')]"

definition bassCrossoverForSide :: "jsval \<Rightarrow> string \<Rightarrow> bool \<Rightarrow> jsval" where
  "bassCrossoverForSide bass side stereo =
     (let source = js_or bass (JObj []);
          shared = normalizedCrossover JNull (shared_fallback source)
      in if \<not> stereo \<or> jget source ''sub_link'' \<noteq> JBool False \<or> side \<notin> set SUB_SIDES then shared
         else
           (let override = jget (js_or (jget source ''sub_filters'') (JObj [])) side
            in if truthy override then normalizedCrossover override shared else shared))"

definition surroundGroups :: "jsval \<Rightarrow> string list" where
  "surroundGroups topology =
     (let roles = strs (jget topology ''roles'');
          present = (\<lambda>group.
            if group = ''front'' then
              (\<exists>r \<in> set roles. starts_with r ''main_l'' \<or> starts_with r ''main_r''
                 \<or> starts_with r ''left_'' \<or> starts_with r ''right_'')
            else if group = ''center'' then (\<exists>r \<in> set roles. r = ''center'' \<or> starts_with r ''center_'')
            else if group = ''side'' then ''side_l'' \<in> set roles \<or> ''side_r'' \<in> set roles
            else ''rear_l'' \<in> set roles \<or> ''rear_r'' \<in> set roles)
      in filter present [''front'', ''center'', ''side'', ''rear''])"

definition bassCrossoverForGroup :: "jsval \<Rightarrow> string \<Rightarrow> jsval" where
  "bassCrossoverForGroup bass grp =
     (let source = js_or bass (JObj []);
          shared = normalizedCrossover JNull (shared_fallback source);
          sharedHighpass = (jget source ''main_highpass_enabled'' \<noteq> JBool False);
          override = (if jget source ''sub_link'' = JBool False
                      then jget (js_or (jget source ''sub_filters'') (JObj [])) grp else JNull)
      in if \<not> truthy override then jput ''highpass_enabled'' (JBool sharedHighpass) (clone shared)
         else jput ''highpass_enabled'' (JBool (jget override ''highpass_enabled'' \<noteq> JBool False))
                (clone (normalizedCrossover override shared)))"

subsection \<open>Labels\<close>

definition side_letter :: "string \<Rightarrow> string" where
  "side_letter side =
     (if side = ''left'' then ''L'' else if side = ''right'' then ''R''
      else if side = ''center'' then ''C'' else ''undefined'')"

definition is_numbered_sub :: "string \<Rightarrow> bool" where
  "is_numbered_sub part =
     (starts_with part ''sub'' \<and> drop 3 part \<noteq> [] \<and> list_all (\<lambda>c. digit_val c \<noteq> None) (drop 3 part))"

fun role_words :: "string list \<Rightarrow> string list" where
  "role_words [] = []"
| "role_words (part # rest) =
     (if part = ''low'' \<and> rest \<noteq> [] \<and> hd rest = ''mid'' then ''Low-Mid'' # role_words (tl rest)
      else if is_numbered_sub part then (''Sub '' @ drop 3 part) # role_words rest
      else if part = ''main'' then ''Main'' # role_words rest
      else capitalize part # role_words rest)"

definition way_words :: "string list \<Rightarrow> string" where
  "way_words ws = join_with ''-'' (List.map capitalize ws)"

text \<open>The second argument is the output mode, \<open>[]\<close> when it is not given.\<close>

definition roleLabel :: "string \<Rightarrow> string \<Rightarrow> string" where
  "roleLabel roleId mode =
     (if mode = ''surround'' \<and> roleId = ''main'' then ''Front L/R''
      else if mode = ''surround'' \<and> roleId = ''main_l'' then ''Front L''
      else if mode = ''surround'' \<and> roleId = ''main_r'' then ''Front R''
      else if roleId = ''global'' then ''Global''
      else if roleId = ''all'' then ''Ind. Banks''
      else if roleId \<in> {''main'', ''low'', ''low_mid'', ''mid'', ''high'', ''sub''}
      then way_words (split_on (CHR ''_'') roleId) @ '' L/R''
      else if roleId = ''off'' then ''Off''
      else if starts_with roleId ''left_'' \<or> starts_with roleId ''right_'' \<or> starts_with roleId ''center_''
      then (case split_on (CHR ''_'') roleId of
              [] \<Rightarrow> []
            | side # way \<Rightarrow> way_words way @ '' '' @ side_letter side)
      else
        (let raw = filter (\<lambda>w. w \<noteq> []) (split_on (CHR ''_'') roleId)
         in if raw = [] then roleId else join_with '' '' (role_words raw)))"

definition rolesForMode :: "string \<Rightarrow> jsval \<Rightarrow> jsval list" where
  "rolesForMode mode capabilities =
     (let roles = jget (jget capabilities ''roles'') mode
      in if is_arr roles then arr_items roles else [])"

definition modeLabel :: "string \<Rightarrow> string" where
  "modeLabel mode =
     (if mode = ''stereo'' then ''Stereo'' else if mode = ''stereo-sub'' then ''Stereo + Sub''
      else if mode = ''surround'' then ''Surround'' else mode)"

definition modeSelectorVisible :: "jsval \<Rightarrow> bool" where
  "modeSelectorVisible channelCount = (Fin 3 \<le> to_num channelCount)"

definition routingVisible :: "jsval \<Rightarrow> bool" where
  "routingVisible channelCount = (Fin 2 < to_num channelCount)"

definition modeHint :: "string \<Rightarrow> jsval \<Rightarrow> jsval \<Rightarrow> string" where
  "modeHint mode topology channelCount =
     (let subs = strs (jget topology ''sub_roles'');
          outputs = to_str (num_or channelCount (JNum 0))
      in if mode = ''stereo-sub'' \<and> subs = []
         then ''No subwoofer configured '' @ em_dash @ '' assign a Sub output below.''
         else if mode = ''surround''
         then ''Surround '' @ mid_dot @ '' '' @ outputs @ '' hardware outputs '' @ mid_dot @ '' LFE '' @ arrow @ '' ''
              @ (if subs \<noteq> [] then ''Sub 1'' @ (if ''sub2'' \<in> set subs then '' / Sub 2'' else []) else ''Front L/R'')
         else modeLabel mode @ '' '' @ mid_dot @ '' '' @ outputs @ '' hardware outputs'')"

definition subModeLabel :: "jsval \<Rightarrow> string" where
  "subModeLabel subMode =
     (if subMode = JStr ''stereo'' then ''Stereo subs''
      else if subMode = JStr ''dual-mono'' then ''Dual-mono subs''
      else if subMode = JStr ''mono'' then ''Mono sub'' else [])"

definition topologySummary :: "jsval \<Rightarrow> string" where
  "topologySummary topology =
     (let topo = js_or topology (JObj []);
          issues = filter truthy (arr_items (jget topo ''issues''));
          ways = jget topo ''way_count'';
          first = (if is_num ways \<and> 0 < to_num ways then to_str ways @ ''-Way''
                   else if jget topo ''mode'' = JStr ''surround'' then ''Surround'' else ''Stereo'');
          sub = subModeLabel (jget topo ''sub_mode'');
          bits = [first]
            @ (if truthy (jget topo ''center_way_count'')
               then [''Center '' @ to_str (jget topo ''center_way_count'') @ ''-Way''] else [])
            @ (if sub \<noteq> [] then [sub] else [])
      in join_with ('' '' @ mid_dot @ '' '') bits
         @ (case issues of [] \<Rightarrow> [] | i # is \<Rightarrow> '' '' @ em_dash @ '' '' @ to_str i))"

definition summedRoleIds :: "jsval \<Rightarrow> string list" where
  "summedRoleIds topology =
     (let topo = js_or topology (JObj []);
          subs = filter (\<lambda>r. r \<noteq> []) (strs (jget topo ''sub_roles''))
      in if subs = [] \<or> str_or_empty (jget topo ''sub_mode'') = ''stereo'' then [] else subs)"

definition isSubwooferBank :: "jsval \<Rightarrow> bool" where
  "isSubwooferBank bankId = starts_with (str_or_empty bankId) ''sub''"

end
