(* ===== verification/Crossover.thy ===== *)
theory Crossover
  imports Output_Roles
begin

section \<open>The crossover tile\<close>

text \<open>
  The pure helpers of static/crossover.js: way order, link mirroring, pairing, the effective
  high-pass of a way, applicable filters, starter values, clamps and the painted magnitude. The
  numbers of the painted response are real numbers here; all others are those of the prelude.
\<close>

definition WAY_ORDER :: "string list" where
  "WAY_ORDER = [''left_low'', ''left_low_mid'', ''left_mid'', ''left_high'',
     ''right_low'', ''right_low_mid'', ''right_mid'', ''right_high'',
     ''center_low'', ''center_low_mid'', ''center_mid'', ''center_high'']"

subsection \<open>Ways\<close>

definition orderedWays :: "jsval \<Rightarrow> string list" where
  "orderedWays ways =
     (let present = filter (\<lambda>r. r \<in> set WAY_ORDER) (own_keys (js_or ways (JObj [])))
      in filter (\<lambda>r. r \<in> set present) WAY_ORDER)"

definition isLowWayRole :: "string \<Rightarrow> bool" where
  "isLowWayRole role = (role = ''left_low'' \<or> role = ''right_low'' \<or> role = ''center_low'')"

definition mirrorRole :: "jsval \<Rightarrow> jsval" where
  "mirrorRole role =
     (case role of
        JStr r \<Rightarrow>
          if starts_with r ''left_'' then JStr (''right_'' @ drop 5 r)
          else if starts_with r ''right_'' then JStr (''left_'' @ drop 6 r)
          else JNull
      | _ \<Rightarrow> JNull)"

definition sideForRole :: "jsval \<Rightarrow> string" where
  "sideForRole role =
     (let name = str_or_empty role
      in if name = ''sub_l'' \<or> name = ''main_l'' \<or> starts_with name ''left_'' then ''left'' else ''right'')"

definition wayKey :: "jsval \<Rightarrow> string" where
  "wayKey role = join_with ''_'' (tl (split_on (CHR ''_'') (str_or_empty role)))"

definition wayLabel :: "jsval \<Rightarrow> string" where
  "wayLabel way = join_with ''-'' (List.map capitalize (split_on (CHR ''_'') (str_or_empty way)))"

text \<open>An entry of the linked view; the pairs are kept in the order of their first role, and
  an entry is found by its way.\<close>

record way_pair =
  pairWay :: string
  pairLeft :: "string option"
  pairRight :: "string option"

definition is_side_role :: "string \<Rightarrow> bool" where
  "is_side_role r = (starts_with r ''left_'' \<or> starts_with r ''right_'')"

definition fill_pair :: "string \<Rightarrow> way_pair \<Rightarrow> way_pair" where
  "fill_pair role pair =
     (if starts_with role ''left_'' \<and> pairLeft pair = None then pair\<lparr>pairLeft := Some role\<rparr>
      else if starts_with role ''right_'' \<and> pairRight pair = None then pair\<lparr>pairRight := Some role\<rparr>
      else pair)"

fun update_pair :: "string \<Rightarrow> (way_pair \<Rightarrow> way_pair) \<Rightarrow> way_pair list \<Rightarrow> way_pair list" where
  "update_pair way f [] = [f \<lparr>pairWay = way, pairLeft = None, pairRight = None\<rparr>]"
| "update_pair way f (p # ps) = (if pairWay p = way then f p # ps else p # update_pair way f ps)"

definition add_role :: "way_pair list \<Rightarrow> string \<Rightarrow> way_pair list" where
  "add_role pairs role =
     (let way = wayKey (JStr role)
      in if \<not> is_side_role role \<or> way = [] then pairs else update_pair way (fill_pair role) pairs)"

definition pairedWays :: "string list \<Rightarrow> way_pair list" where
  "pairedWays roles = foldl add_role [] roles"

subsection \<open>The subwoofer crossover of a way\<close>

definition isStereoSubPair :: "jsval \<Rightarrow> bool" where
  "isStereoSubPair subRoles = (JStr ''sub_l'' \<in> set (arr_items subRoles) \<and> JStr ''sub_r'' \<in> set (arr_items subRoles))"

definition sharedBassCrossover :: "jsval \<Rightarrow> jsval" where
  "sharedBassCrossover bass =
     (let source = js_or bass (JObj [])
      in JObj [(''family'', str_or (jget source ''family'') ''linkwitz-riley''),
           (''slope_db_oct'', num_or (jget source ''slope_db_oct'') (JNum (Fin 24))),
           (''frequency_hz'', num_or (jget source ''frequency_hz'') (JNum (Fin 80)))])"

definition bass_crossover_for_side :: "jsval \<Rightarrow> string \<Rightarrow> jsval" where
  "bass_crossover_for_side bass side =
     (let source = js_or bass (JObj []);
          shared = sharedBassCrossover bass
      in if jget source ''sub_link'' \<noteq> JBool False then shared
         else
           (let override = jget (js_or (jget source ''sub_filters'') (JObj [])) side
            in if \<not> truthy override then shared
               else JObj [(''family'', jget override ''family''),
                      (''slope_db_oct'', jget override ''slope_db_oct''),
                      (''frequency_hz'', jget override ''frequency_hz'')]))"

text \<open>The override of a surround group, and the crossover the high-pass runs.\<close>

definition highpass_override :: "jsval \<Rightarrow> jsval \<Rightarrow> string \<Rightarrow> jsval" where
  "highpass_override bass role mode =
     (let grp = (if starts_with (str_or_empty role) ''center_'' then ''center'' else ''front'')
      in if mode = ''surround'' \<and> jget bass ''sub_link'' = JBool False
         then jpath bass [''sub_filters'', grp] else JNull)"

definition highpass_crossover :: "jsval \<Rightarrow> jsval list \<Rightarrow> jsval \<Rightarrow> jsval \<Rightarrow> jsval" where
  "highpass_crossover bass subs role override =
     (if truthy override then override
      else if isStereoSubPair (JArr subs) then bass_crossover_for_side bass (sideForRole role)
      else sharedBassCrossover bass)"

definition highpass_enabled :: "jsval \<Rightarrow> jsval \<Rightarrow> bool" where
  "highpass_enabled bass override =
     (if truthy override then jget override ''highpass_enabled'' = JBool True
      else jget bass ''main_highpass_enabled'' = JBool True)"

definition bassHighpass :: "jsval \<Rightarrow> jsval \<Rightarrow> jsval \<Rightarrow> string \<Rightarrow> jsval" where
  "bassHighpass bass subRoles role mode =
     (let subs = filter truthy (arr_items subRoles);
          override = highpass_override bass role mode;
          crossover = highpass_crossover bass subs role override;
          frequency = js_round (to_num (jget crossover ''frequency_hz''))
      in if subs = [] \<or> \<not> truthy bass \<or> \<not> highpass_enabled bass override
            \<or> \<not> is_fin frequency \<or> frequency < Fin 40 \<or> Fin 200 < frequency then JNull
         else JObj [(''family'', jget crossover ''family''),
                (''slope_db_oct'', jget crossover ''slope_db_oct''),
                (''frequency_hz'', JNum frequency)])"

definition derivedHighpassForRole :: "string \<Rightarrow> jsval \<Rightarrow> jsval \<Rightarrow> string \<Rightarrow> jsval" where
  "derivedHighpassForRole role bass subRoles mode =
     (if \<not> isLowWayRole role then JNull else bassHighpass bass subRoles (JStr role) mode)"

text \<open>The context argument is \<open>None\<close> when the caller passes none.\<close>

definition applicableFilters :: "string \<Rightarrow> (jsval \<times> jsval \<times> string) option \<Rightarrow> string list" where
  "applicableFilters role context =
     (let way = wayKey (JStr role) in
      if way = ''low'' then
        (case context of
           None \<Rightarrow> [''lowpass'']
         | Some (bass, subRoles, mode) \<Rightarrow>
             if truthy (derivedHighpassForRole role bass subRoles mode)
             then [''highpass'', ''lowpass''] else [''lowpass''])
      else if way = ''high'' then [''highpass'']
      else [''highpass'', ''lowpass''])"

definition slopesForFamily :: "string \<Rightarrow> jsval \<Rightarrow> jsval list" where
  "slopesForFamily family capabilities =
     arr_items (jpath capabilities [''filter_families'', family])"

subsection \<open>Starter values\<close>

definition lr24 :: "rat \<Rightarrow> jsval" where
  "lr24 frequency_hz = JObj [(''family'', JStr ''linkwitz-riley''), (''slope_db_oct'', JNum (Fin 24)),
     (''frequency_hz'', JNum (Fin frequency_hz))]"

type_synonym starter_way = "string \<times> rat option \<times> rat option"

definition starter_entry :: "starter_way \<Rightarrow> jsval" where
  "starter_entry w =
     (case w of (way, highpass, lowpass) \<Rightarrow>
        JObj ((case highpass of None \<Rightarrow> [] | Some f \<Rightarrow> [(''highpass'', lr24 f)])
              @ (case lowpass of None \<Rightarrow> [] | Some f \<Rightarrow> [(''lowpass'', lr24 f)])))"

definition build_starters :: "string list \<Rightarrow> starter_way list \<Rightarrow> jsval" where
  "build_starters sides ways =
     JObj (concat (List.map (\<lambda>side. List.map (\<lambda>w. (side @ ''_'' @ fst w, starter_entry w)) ways) sides))"

definition starter_ways :: "nat \<Rightarrow> starter_way list option" where
  "starter_ways wayCount =
     (if wayCount = 2 then Some [(''low'', None, Some 2000), (''high'', Some 2000, None)]
      else if wayCount = 3
      then Some [(''low'', None, Some 300), (''mid'', Some 300, Some 2500), (''high'', Some 2500, None)]
      else if wayCount = 4
      then Some [(''low'', None, Some 200), (''low_mid'', Some 200, Some 800),
                 (''mid'', Some 800, Some 3000), (''high'', Some 3000, None)]
      else None)"

text \<open>\<open>Inl\<close> is the thrown message.\<close>

definition starterValues :: "nat \<Rightarrow> string list \<Rightarrow> string + jsval" where
  "starterValues wayCount speakers =
     (case starter_ways wayCount of
        None \<Rightarrow> Inl (''Starter values need a 2-way, 3-way or 4-way system, got '' @ nat_str wayCount)
      | Some ways \<Rightarrow> Inr (build_starters speakers ways))"

definition missingStarterRoles :: "jsval \<Rightarrow> jsval \<Rightarrow> string list" where
  "missingStarterRoles processing starters =
     filter (\<lambda>role.
       let current = js_or (jget (js_or processing (JObj [])) role) (JObj []);
           wanted = js_or (jget starters role) (JObj [])
       in (truthy (jget wanted ''highpass'') \<and> \<not> truthy (jget current ''highpass''))
          \<or> (truthy (jget wanted ''lowpass'') \<and> \<not> truthy (jget current ''lowpass'')))
       (own_keys (js_or starters (JObj [])))"

subsection \<open>Clamps\<close>

definition clamp_or :: "rat \<Rightarrow> rat \<Rightarrow> rat \<Rightarrow> jsval \<Rightarrow> jsnum" where
  "clamp_or lo hi d v =
     (let number = to_num v in if \<not> is_fin number then Fin d else js_min (Fin hi) (js_max (Fin lo) number))"

definition clampLevelDb :: "jsval \<Rightarrow> jsnum" where "clampLevelDb = clamp_or (- 80) 24 0"

definition clampAlignmentMs :: "jsval \<Rightarrow> jsnum" where "clampAlignmentMs = clamp_or (- 40) 40 0"

definition clampFrequencyHz :: "jsval \<Rightarrow> jsnum" where "clampFrequencyHz = clamp_or 20 20000 1000"

text \<open>The default speakers are both sides; a throw of \<open>starterValues\<close> ends in \<open>null\<close>.\<close>

definition starterFrequency :: "nat \<Rightarrow> string \<Rightarrow> string \<Rightarrow> jsnum option" where
  "starterFrequency wayCount role kind =
     (case starterValues wayCount (if starts_with role ''center_'' then [''center''] else [''left'', ''right'']) of
        Inl m \<Rightarrow> None
      | Inr starters \<Rightarrow>
          (let frequency = to_num (jpath starters [role, kind, ''frequency_hz''])
           in if is_fin frequency then Some (clampFrequencyHz (JNum frequency)) else None))"

subsection \<open>The painted response\<close>

text \<open>\<open>crossoverMagnitudeDb\<close> for a cutoff, a slope and a frequency that are positive numbers; the
  defaults of the source replace the others before it gets here.\<close>

definition filter_order :: "jsval \<Rightarrow> nat" where
  "filter_order slope =
     (case js_round (div_const (case num_or slope (JNum (Fin 24)) of JNum n \<Rightarrow> n | _ \<Rightarrow> NaN) 6) of
        Fin r \<Rightarrow> nat (max 1 \<lfloor>r\<rfloor>) | _ \<Rightarrow> 1)"

definition crossoverMagnitudeDb :: "string \<Rightarrow> jsval \<Rightarrow> real \<Rightarrow> real \<Rightarrow> string \<Rightarrow> real" where
  "crossoverMagnitudeDb family slope cutoff0 hz0 kind =
     (let cutoff = max 1 cutoff0; order = filter_order slope; hz = max (1 / 1000) hz0;
          ratio = max (1 / 1000000000) (if kind = ''highpass'' then cutoff / hz else hz / cutoff)
      in if family = ''butterworth'' \<or> family = ''bessel''
         then - 10 * log 10 (1 + ratio ^ (2 * order))
         else - 20 * log 10 (1 + ratio ^ order))"

end
