(* ===== verification/Crossover_Props.thy ===== *)
theory Crossover_Props
  imports Crossover "HOL-Library.Multiset"
begin

section \<open>Properties of the crossover tile\<close>

text \<open>
  What the linked view of the tile relies on: roles form pairs without loss, and mirroring is an
  involution.
\<close>

subsection \<open>Ways and sides\<close>

definition on_left :: "string \<Rightarrow> string" where "on_left w = ''left_'' @ w"

definition on_right :: "string \<Rightarrow> string" where "on_right w = ''right_'' @ w"

lemma side_roles [simp]:
  "starts_with (on_left w) ''left_''" "\<not> starts_with (on_right w) ''left_''"
  "starts_with (on_right w) ''right_''" "\<not> starts_with (on_left w) ''right_''"
  "wayKey (JStr (on_left w)) = w" "wayKey (JStr (on_right w)) = w"
  "is_side_role (on_left w)" "is_side_role (on_right w)" "on_left w \<noteq> on_right v" "on_right v \<noteq> on_left w"
  "on_left w = on_left v \<longleftrightarrow> w = v" "on_right w = on_right v \<longleftrightarrow> w = v"
  by (simp_all add: on_left_def on_right_def starts_with_def wayKey_def join_split is_side_role_def)

lemma side_role_iff: "is_side_role r \<longleftrightarrow> (\<exists>w. r = on_left w \<or> r = on_right w)"
  by (auto simp: is_side_role_def starts_with_iff on_left_def on_right_def)

lemma side_role_form:
  assumes "is_side_role r"
  obtains "r = on_left (wayKey (JStr r))" | "r = on_right (wayKey (JStr r))"
  using assms that by (auto simp: side_role_iff)

definition pair_members :: "way_pair \<Rightarrow> string multiset" where
  "pair_members p = mset (case pairLeft p of None \<Rightarrow> [] | Some r \<Rightarrow> [r])
                    + mset (case pairRight p of None \<Rightarrow> [] | Some r \<Rightarrow> [r])"

definition members :: "way_pair list \<Rightarrow> string multiset" where
  "members ps = (\<Sum>p\<in>#mset ps. pair_members p)"

lemma members_simps [simp]: "members [] = {#}" "members (p # ps) = pair_members p + members ps"
  by (simp_all add: members_def)

definition pair_ok :: "way_pair \<Rightarrow> bool" where
  "pair_ok p = ((\<forall>r. pairLeft p = Some r \<longrightarrow> r = on_left (pairWay p))
                \<and> (\<forall>r. pairRight p = Some r \<longrightarrow> r = on_right (pairWay p)))"

lemma fill_pair_left:
  "pairLeft p = None \<Longrightarrow> fill_pair (on_left w) p = p\<lparr>pairLeft := Some (on_left w)\<rparr>"
  by (simp add: fill_pair_def)

lemma fill_pair_right:
  "pairRight p = None \<Longrightarrow> fill_pair (on_right w) p = p\<lparr>pairRight := Some (on_right w)\<rparr>"
  by (simp add: fill_pair_def)

lemma fill_pair_way [simp]: "pairWay (fill_pair r p) = pairWay p"
  by (simp add: fill_pair_def)

text \<open>A new role finds its slot free.\<close>

lemma fill_free:
  assumes "pair_ok p" "r \<notin># pair_members p" "is_side_role r" "wayKey (JStr r) = pairWay p"
  shows "pair_members (fill_pair r p) = add_mset r (pair_members p)" "pair_ok (fill_pair r p)"
proof -
  have "(r = on_left (pairWay p) \<and> pairLeft p = None) \<or> (r = on_right (pairWay p) \<and> pairRight p = None)"
    using assms by (cases "pairLeft p"; cases "pairRight p"; elim side_role_form)
      (auto simp: pair_members_def pair_ok_def)
  then show "pair_members (fill_pair r p) = add_mset r (pair_members p)" "pair_ok (fill_pair r p)"
    using assms(1) by (auto simp: fill_pair_left fill_pair_right pair_members_def pair_ok_def)
qed

lemma update_free:
  assumes "\<forall>p \<in> set ps. pair_ok p" "r \<notin># members ps" "is_side_role r"
  shows "members (update_pair (wayKey (JStr r)) (fill_pair r) ps) = add_mset r (members ps)
    \<and> (\<forall>p \<in> set (update_pair (wayKey (JStr r)) (fill_pair r) ps). pair_ok p)"
  using assms
proof (induction ps)
  case Nil
  let ?p = "\<lparr>pairWay = wayKey (JStr r), pairLeft = None, pairRight = None\<rparr>"
  have "pair_ok ?p" "r \<notin># pair_members ?p" "pair_members ?p = {#}"
    by (simp_all add: pair_ok_def pair_members_def)
  then show ?case
    using fill_free [of ?p r] Nil by simp
next
  case (Cons p ps)
  have "r \<notin># pair_members p" "r \<notin># members ps"
    using Cons.prems(2) by simp_all
  then show ?case
    using Cons fill_free [of p r] by (cases "pairWay p = wayKey (JStr r)") simp_all
qed

text \<open>The roles of the linked view.\<close>

definition pairable :: "string \<Rightarrow> bool" where
  "pairable r = (is_side_role r \<and> wayKey (JStr r) \<noteq> [])"

lemma add_role_eq:
  "add_role ps r = (if pairable r then update_pair (wayKey (JStr r)) (fill_pair r) ps else ps)"
  by (simp add: add_role_def pairable_def Let_def)

lemma pairing_invariant:
  assumes "distinct roles"
  shows "members (pairedWays roles) = mset (filter pairable roles) \<and> (\<forall>p \<in> set (pairedWays roles). pair_ok p)"
  using assms unfolding pairedWays_def
proof (induction roles rule: rev_induct)
  case Nil
  show ?case by (simp add: members_def)
next
  case (snoc r rs)
  let ?ps = "foldl add_role [] rs"
  from snoc have ih: "members (foldl add_role [] rs) = mset (filter pairable rs)"
    "\<forall>p \<in> set (foldl add_role [] rs). pair_ok p" and new: "r \<notin># members (foldl add_role [] rs)"
    by auto
  show ?case
    using ih update_free [OF ih(2) new] by (simp add: add_role_eq [of ?ps r] pairable_def)
qed

lemma update_pair_set: "pairWay ` set (update_pair w (fill_pair r) ps) = insert w (pairWay ` set ps)"
  by (induction ps) auto

lemma update_pair_distinct:
  "distinct (List.map pairWay ps) \<Longrightarrow> distinct (List.map pairWay (update_pair w (fill_pair r) ps))"
proof (induction ps)
  case (Cons p ps)
  then show ?case
    using update_pair_set [of w r ps] by (cases "pairWay p = w") auto
qed simp

lemma paired_ways_distinct: "distinct (List.map pairWay (pairedWays roles))"
  unfolding pairedWays_def
proof (induction roles rule: rev_induct)
  case (snoc r rs)
  then show ?case
    by (simp add: add_role_eq [of "foldl add_role [] rs" r] update_pair_distinct)
qed simp

subsection \<open>Claims on ways\<close>

text \<open>The linked view loses and invents no way: for distinct roles the pairs hold exactly the
  roles of a left or right way, each once, one pair per way, and every pair holds the left and
  the right role of its own way only.\<close>

theorem pairing_keeps_every_role:
  assumes "distinct roles"
  shows "(\<Sum>p\<in>#mset (pairedWays roles). mset (case pairLeft p of None \<Rightarrow> [] | Some r \<Rightarrow> [r])
        + mset (case pairRight p of None \<Rightarrow> [] | Some r \<Rightarrow> [r]))
      = mset (filter (\<lambda>r. is_side_role r \<and> wayKey (JStr r) \<noteq> []) roles)
    \<and> distinct (List.map pairWay (pairedWays roles))
    \<and> (\<forall>p \<in> set (pairedWays roles). (\<forall>r. pairLeft p = Some r \<longrightarrow> r = on_left (pairWay p))
        \<and> (\<forall>r. pairRight p = Some r \<longrightarrow> r = on_right (pairWay p)))"
  using pairing_invariant [OF assms] paired_ways_distinct [of roles]
  by (simp add: members_def pair_members_def pair_ok_def pairable_def [abs_def])

lemma pairing_keeps_every_role_witness:
  "distinct (List.map pairWay (pairedWays [''left_low'', ''right_low'', ''left_high'', ''sub1'']))
   \<and> distinct [''left_low'', ''right_low'', ''left_high'', ''sub1'']"
  using pairing_keeps_every_role [of "[''left_low'', ''right_low'', ''left_high'', ''sub1'']"] by simp

text \<open>The left/right link is symmetric: mirroring a way role twice gives the role back, the
  mirror belongs to the same way of the other side, and any other role has no mirror.\<close>

theorem mirror_is_involution:
  "mirrorRole (JStr (on_left w)) = JStr (on_right w) \<and> mirrorRole (JStr (on_right w)) = JStr (on_left w)
    \<and> (if is_side_role r
       then (\<exists>m. mirrorRole (JStr r) = JStr m \<and> is_side_role m \<and> mirrorRole (JStr m) = JStr r
              \<and> wayKey (JStr m) = wayKey (JStr r) \<and> sideForRole (JStr m) \<noteq> sideForRole (JStr r))
       else mirrorRole (JStr r) = JNull)"
proof -
  have m: "mirrorRole (JStr (on_left w)) = JStr (on_right w)"
    "mirrorRole (JStr (on_right w)) = JStr (on_left w)" for w
    by (simp_all add: mirrorRole_def starts_with_def on_left_def on_right_def)
  have s: "sideForRole (JStr (on_left w)) = ''left''" "sideForRole (JStr (on_right w)) = ''right''" for w
    by (simp_all add: sideForRole_def starts_with_def on_left_def on_right_def)
  show ?thesis
  proof (cases "is_side_role r")
    case True
    then obtain v where "r = on_left v \<or> r = on_right v"
      by (auto simp: side_role_iff)
    then have "\<exists>m'. mirrorRole (JStr r) = JStr m' \<and> is_side_role m' \<and> mirrorRole (JStr m') = JStr r
        \<and> wayKey (JStr m') = wayKey (JStr r) \<and> sideForRole (JStr m') \<noteq> sideForRole (JStr r)"
      using m s by auto
    with True m show ?thesis by simp
  next
    case False
    with m show ?thesis by (simp add: mirrorRole_def is_side_role_def)
  qed
qed

end
