(* ===== verification/Crossover_Values.thy ===== *)
theory Crossover_Values
  imports Crossover_Props
begin

section \<open>Values of the crossover tile\<close>

text \<open>
  The numeric side: starter values, the clamps as instances of the shared interface, the painted
  response, the agreement of the two modules that resolve a subwoofer crossover, and escaped
  markup.
\<close>

subsection \<open>Starter values\<close>

lemma starter_keys:
  "own_keys (build_starters sides ways) = concat (List.map (\<lambda>s. List.map (\<lambda>w. s @ ''_'' @ fst w) ways) sides)"
  by (simp add: build_starters_def own_keys_def map_concat comp_def)

lemma missing_after_spread:
  assumes "st = JObj ps"
  shows "missingStarterRoles (spread p st) st = []"
proof -
  have "jget (spread p st) r = jget st r" if "r \<in> fst ` set ps" for r
    using that by (simp add: jget_spread assms has_key_JObj)
  moreover have "truthy (spread p st)" "truthy st"
    by (simp_all add: spread_def assms)
  ultimately show ?thesis
    by (auto simp: missingStarterRoles_def js_or_def filter_empty_conv Let_def own_keys_def assms)
qed

text \<open>The ways of a side, low to high: each ends where the next begins.\<close>

fun ways_meet :: "starter_way list \<Rightarrow> bool" where
  "ways_meet [] = True"
| "ways_meet [(w, hp, lp)] = (lp = None)"
| "ways_meet ((w, hp, lp) # (w', hp', lp') # ws) = (lp \<noteq> None \<and> lp = hp' \<and> ways_meet ((w', hp', lp') # ws))"

text \<open>Starter values are complete: a system of two, three or four ways gets an entry for every
  way of every speaker, the first way has no high-pass, every later way starts exactly where the
  previous one ends, and once the values are applied no role is reported as missing. Any other
  number of ways is an error.\<close>

theorem starters_are_complete:
  "(case starterValues n sides of
      Inl m \<Rightarrow> n \<notin> {2, 3, 4}
    | Inr st \<Rightarrow> n \<in> {2, 3, 4} \<and> (\<exists>w ws. starter_ways n = Some (w # ws) \<and> length (w # ws) = n
        \<and> fst (snd w) = None \<and> ways_meet (w # ws)
        \<and> own_keys st = concat (List.map (\<lambda>s. List.map (\<lambda>v. s @ ''_'' @ fst v) (w # ws)) sides))
        \<and> missingStarterRoles (spread processing st) st = [])"
proof -
  have "n = 2 \<or> n = 3 \<or> n = 4 \<or> starter_ways n = None"
    by (simp add: starter_ways_def)
  moreover have "missingStarterRoles (spread processing (build_starters sides ws)) (build_starters sides ws) = []" for ws
    by (rule missing_after_spread) (simp add: build_starters_def)
  moreover have "starter_ways n = None \<Longrightarrow> n \<notin> {2, 3, 4}"
    by (auto simp: starter_ways_def)
  ultimately show ?thesis
    by (elim disjE) (simp_all add: starterValues_def starter_ways_def starter_keys)
qed

subsection \<open>Clamps\<close>

lemma clamp_or_fin: "clamp_or lo hi d (JNum (Fin r)) = Fin (min hi (max lo r))"
  by (simp add: clamp_or_def Let_def)

fun the_fin :: "jsnum \<Rightarrow> rat" where
  "the_fin (Fin r) = r"
| "the_fin n = 0"

definition on_finite :: "(jsval \<Rightarrow> jsnum) \<Rightarrow> rat \<Rightarrow> rat" where
  "on_finite f r = the_fin (f (JNum (Fin r)))"

interpretation level: clamping "- 80" 24 "on_finite clampLevelDb"
  by unfold_locales (simp_all add: on_finite_def clampLevelDb_def clamp_or_fin)

interpretation alignment: clamping "- 40" 40 "on_finite clampAlignmentMs"
  by unfold_locales (simp_all add: on_finite_def clampAlignmentMs_def clamp_or_fin)

interpretation frequency: clamping 20 20000 "on_finite clampFrequencyHz"
  by unfold_locales (simp_all add: on_finite_def clampFrequencyHz_def clamp_or_fin)

lemma clamp_or_range:
  assumes "lo \<le> d" "d \<le> hi"
  shows "\<exists>r. clamp_or lo hi d v = Fin r \<and> lo \<le> r \<and> r \<le> hi"
proof (cases "to_num v")
  case (Fin r)
  then show ?thesis using assms by (auto simp: clamp_or_def Let_def)
qed (use assms in \<open>auto simp: clamp_or_def Let_def\<close>)

lemma clamps_are_finite:
  "\<exists>r. clampLevelDb v = Fin r \<and> clampLevelDb (JNum (Fin r)) = Fin (on_finite clampLevelDb r) \<and> - 80 \<le> r \<and> r \<le> 24"
  "\<exists>r. clampAlignmentMs v = Fin r \<and> clampAlignmentMs (JNum (Fin r)) = Fin (on_finite clampAlignmentMs r) \<and> - 40 \<le> r \<and> r \<le> 40"
  "\<exists>r. clampFrequencyHz v = Fin r \<and> clampFrequencyHz (JNum (Fin r)) = Fin (on_finite clampFrequencyHz r) \<and> 20 \<le> r \<and> r \<le> 20000"
  using clamp_or_range [of "- 80" 0 24 v] clamp_or_range [of "- 40" 0 40 v] clamp_or_range [of 20 1000 20000 v]
  by (auto simp: clampLevelDb_def clampAlignmentMs_def clampFrequencyHz_def clamp_or_fin on_finite_def)

text \<open>What the tile sends is always in range: for any input value, text and missing ones
  included, level, alignment and frequency become finite numbers within their limits, clamping a
  clamped value changes nothing, and a number already in range is kept.\<close>

theorem clamps_keep_range:
  "(\<exists>r. clampLevelDb v = Fin r \<and> - 80 \<le> r \<and> r \<le> 24 \<and> clampLevelDb (JNum (Fin r)) = Fin r)
   \<and> (\<exists>r. clampAlignmentMs v = Fin r \<and> - 40 \<le> r \<and> r \<le> 40 \<and> clampAlignmentMs (JNum (Fin r)) = Fin r)
   \<and> (\<exists>r. clampFrequencyHz v = Fin r \<and> 20 \<le> r \<and> r \<le> 20000 \<and> clampFrequencyHz (JNum (Fin r)) = Fin r)"
proof (intro conjI)
  show "\<exists>r. clampLevelDb v = Fin r \<and> - 80 \<le> r \<and> r \<le> 24 \<and> clampLevelDb (JNum (Fin r)) = Fin r"
    using clamps_are_finite(1) [of v] level.clamp_id by metis
  show "\<exists>r. clampAlignmentMs v = Fin r \<and> - 40 \<le> r \<and> r \<le> 40 \<and> clampAlignmentMs (JNum (Fin r)) = Fin r"
    using clamps_are_finite(2) [of v] alignment.clamp_id by metis
  show "\<exists>r. clampFrequencyHz v = Fin r \<and> 20 \<le> r \<and> r \<le> 20000 \<and> clampFrequencyHz (JNum (Fin r)) = Fin r"
    using clamps_are_finite(3) [of v] frequency.clamp_id by metis
qed

subsection \<open>The painted response\<close>

lemma magnitude_arg:
  fixes ratio :: real
  assumes "0 < ratio" "ratio \<le> ratio'"
  shows "log 10 (1 + ratio ^ k) \<le> log 10 (1 + ratio' ^ k)" "0 \<le> log 10 (1 + ratio ^ k)"
proof -
  have "ratio ^ k \<le> ratio' ^ k" "0 < ratio ^ k"
    using assms by (simp_all add: power_mono)
  then show "log 10 (1 + ratio ^ k) \<le> log 10 (1 + ratio' ^ k)" "0 \<le> log 10 (1 + ratio ^ k)"
    by (simp_all add: log_le_cancel_iff)
qed

text \<open>C36: The painted response is a filter response: it never amplifies, it falls along the stop
  band (with rising frequency for a low-pass, falling frequency for a high-pass), and at the
  cutoff it is down by half the power for Butterworth and Bessel and by half the amplitude for
  Linkwitz-Riley, whatever the slope.\<close>

theorem painted_response_falls:
  assumes "1 / 1000 \<le> f" "f \<le> g" "1 \<le> cutoff"
  shows "crossoverMagnitudeDb family slope cutoff f kind \<le> 0
    \<and> crossoverMagnitudeDb family slope cutoff g ''lowpass'' \<le> crossoverMagnitudeDb family slope cutoff f ''lowpass''
    \<and> crossoverMagnitudeDb family slope cutoff f ''highpass'' \<le> crossoverMagnitudeDb family slope cutoff g ''highpass''
    \<and> crossoverMagnitudeDb family slope cutoff cutoff kind
        = (if family = ''butterworth'' \<or> family = ''bessel'' then - 10 * log 10 2 else - 20 * log 10 2)"
proof (intro conjI)
  define lo :: "real \<Rightarrow> real" where "lo x = max (1 / 1000000000) (x / cutoff)" for x
  define hi :: "real \<Rightarrow> real" where "hi x = max (1 / 1000000000) (cutoff / x)" for x
  have pos: "0 < lo x" "0 < hi x" for x
    by (simp_all add: lo_def hi_def)
  have mono: "lo f \<le> lo g" "hi g \<le> hi f"
  proof -
    have "f / cutoff \<le> g / cutoff" "cutoff / g \<le> cutoff / f"
      using assms by (simp_all add: divide_right_mono frac_le)
    then show "lo f \<le> lo g" "hi g \<le> hi f"
      unfolding lo_def hi_def by (simp_all add: max.mono)
  qed
  have eq: "crossoverMagnitudeDb family slope cutoff x kind
      = (if family = ''butterworth'' \<or> family = ''bessel''
         then - 10 * log 10 (1 + (if kind = ''highpass'' then hi x else lo x) ^ (2 * filter_order slope))
         else - 20 * log 10 (1 + (if kind = ''highpass'' then hi x else lo x) ^ filter_order slope))"
    if "1 / 1000 \<le> x" for x kind
    using that assms by (simp add: crossoverMagnitudeDb_def Let_def lo_def hi_def max_def)
  have g: "1 / 1000 \<le> g" using assms by simp
  show "crossoverMagnitudeDb family slope cutoff f kind \<le> 0"
    using magnitude_arg(2) [OF pos(1) order_refl] magnitude_arg(2) [OF pos(2) order_refl]
    by (simp add: eq [OF assms(1)])
  show "crossoverMagnitudeDb family slope cutoff g ''lowpass'' \<le> crossoverMagnitudeDb family slope cutoff f ''lowpass''"
    using magnitude_arg(1) [OF pos(1) mono(1)] by (simp add: eq [OF assms(1)] eq [OF g])
  show "crossoverMagnitudeDb family slope cutoff f ''highpass'' \<le> crossoverMagnitudeDb family slope cutoff g ''highpass''"
    using magnitude_arg(1) [OF pos(2) mono(2)] by (simp add: eq [OF assms(1)] eq [OF g])
  have "lo cutoff = 1" "hi cutoff = 1" "1 / 1000 \<le> cutoff"
    using assms by (simp_all add: lo_def hi_def max_def)
  then show "crossoverMagnitudeDb family slope cutoff cutoff kind
        = (if family = ''butterworth'' \<or> family = ''bessel'' then - 10 * log 10 2 else - 20 * log 10 2)"
    by (simp add: eq)
qed

lemma painted_response_falls_witness:
  "crossoverMagnitudeDb ''bessel'' (JNum (Fin 24)) 2000 4000 ''lowpass''
     \<le> crossoverMagnitudeDb ''bessel'' (JNum (Fin 24)) 2000 1000 ''lowpass''"
  using painted_response_falls [of 1000 4000 2000 "''bessel''" "JNum (Fin 24)"] by simp


subsection \<open>Markup\<close>

definition esc_char :: "char \<Rightarrow> string" where
  "esc_char c =
     (if c = CHR ''&'' then ''&amp;'' else if c = CHR ''<'' then ''&lt;''
      else if c = CHR ''>'' then ''&gt;'' else if c = CHR 0x22 then ''&quot;'' else [c])"

lemma replace_char_append: "replace_char c r (s @ t) = replace_char c r s @ replace_char c r t"
  by (simp add: replace_char_def)

lemma replace_char_Cons: "replace_char c r (d # s) = (if d = c then r else [d]) @ replace_char c r s"
  by (simp add: replace_char_def)

lemma replace_char_Nil [simp]: "replace_char c r [] = []"
  by (simp add: replace_char_def)

text \<open>The four passes replace every character once, because the ampersand goes first.\<close>

lemma esc_eq: "esc v = concat (List.map esc_char (to_str (js_coalesce v (JStr []))))"
proof -
  have "replace_char (CHR 0x22) ''&quot;'' (replace_char (CHR ''>'') ''&gt;''
       (replace_char (CHR ''<'') ''&lt;'' (replace_char (CHR ''&'') ''&amp;'' s))) = concat (List.map esc_char s)" for s
    by (induction s) (simp_all add: replace_char_Cons replace_char_append esc_char_def)
  then show ?thesis by (simp add: esc_def)
qed

text \<open>The reader of the four entities.\<close>

fun unescape :: "nat \<Rightarrow> string \<Rightarrow> string" where
  "unescape 0 s = s"
| "unescape (Suc k) s =
     (if s = [] then []
      else if starts_with s ''&amp;'' then CHR ''&'' # unescape k (drop 5 s)
      else if starts_with s ''&lt;'' then CHR ''<'' # unescape k (drop 4 s)
      else if starts_with s ''&gt;'' then CHR ''>'' # unescape k (drop 4 s)
      else if starts_with s ''&quot;'' then CHR 0x22 # unescape k (drop 6 s)
      else hd s # unescape k (tl s))"

lemma unescape_char:
  "unescape (Suc k) (esc_char c @ s) = c # unescape k s"
  by (simp add: esc_char_def starts_with_def)

lemma unescape_concat:
  "length s \<le> k \<Longrightarrow> unescape k (concat (List.map esc_char s)) = s"
proof (induction s arbitrary: k)
  case Nil
  then show ?case by (cases k) simp_all
next
  case (Cons c s)
  then obtain j where "k = Suc j" "length s \<le> j"
    by (cases k) auto
  with Cons.IH show ?case
    by (simp only: list.simps concat.simps unescape_char)
qed

lemma esc_char_safe: "set (esc_char c) \<inter> {CHR ''<'', CHR ''>'', CHR 0x22} = {}"
  by (simp add: esc_char_def)

text \<open>Text put into markup is inert and complete: an escaped value contains no angle bracket
  and no double quote, so it can neither open a tag nor leave an attribute, and reading the
  entities gives the text back.\<close>

theorem esc_is_inert:
  "CHR ''<'' \<notin> set (esc v) \<and> CHR ''>'' \<notin> set (esc v) \<and> CHR 0x22 \<notin> set (esc v)
   \<and> unescape (length (to_str (js_coalesce v (JStr [])))) (esc v) = to_str (js_coalesce v (JStr []))"
  using esc_char_safe by (auto simp: esc_eq unescape_concat)

subsection \<open>One subwoofer crossover, two modules\<close>

definition numeric :: "jsval \<Rightarrow> bool" where
  "numeric v = (is_num v \<or> nullish v)"

definition filter_ok :: "jsval \<Rightarrow> bool" where
  "filter_ok v = (truthy (jget FAMILY_LABELS (to_str (jget v ''family'')))
     \<and> is_num (jget v ''slope_db_oct'') \<and> truthy (jget v ''slope_db_oct'')
     \<and> is_num (jget v ''frequency_hz'') \<and> truthy (jget v ''frequency_hz''))"

definition bass_ok :: "jsval \<Rightarrow> bool" where
  "bass_ok bass = (numeric (jget bass ''slope_db_oct'') \<and> numeric (jget bass ''frequency_hz'')
     \<and> (\<forall>side. truthy (jpath bass [''sub_filters'', side]) \<longrightarrow> filter_ok (jpath bass [''sub_filters'', side])))"

lemma num_or_num: "is_num v \<Longrightarrow> num_or v d = js_or v d"
  by (cases v) (simp_all add: num_or_def)

lemma numeric_num_or:
  assumes "numeric v" "truthy d"
  shows "num_or v d = js_or v d"
  using assms by (cases v) (simp_all add: numeric_def num_or_def js_or_def nullish_def)

lemma jget_js_or: "jget (js_or v (JObj [])) k = jget v k"
  by (cases v) (auto simp: js_or_def jget_JObj)

lemma num_or_undef [simp]: "num_or JUndef d = d"
  by (simp add: num_or_def js_or_def)

lemma shared_agree:
  assumes "bass_ok bass"
  shows "sharedBassCrossover bass = normalizedCrossover JNull (shared_fallback (js_or bass (JObj [])))"
proof -
  have "\<not> truthy (jget FAMILY_LABELS ''undefined'')"
    by (simp add: FAMILY_LABELS_def jget_JObj)
  then show ?thesis
    using assms
    by (simp add: sharedBassCrossover_def normalizedCrossover_def shared_fallback_def bass_ok_def Let_def
        jget_js_or numeric_num_or) (simp add: js_or_def jget_JObj)
qed

lemma filter_normal:
  assumes "filter_ok v"
  shows "normalizedCrossover v fb = JObj [(''family'', jget v ''family''),
     (''slope_db_oct'', jget v ''slope_db_oct''), (''frequency_hz'', jget v ''frequency_hz'')]"
  using assms
  by (simp add: filter_ok_def normalizedCrossover_def Let_def jget_js_or num_or_num) (simp add: js_or_def)

text \<open>C35: The output settings and the crossover tile resolve the same subwoofer crossover: for a
  stored bass section with numeric fields and complete side filters, both modules give the same
  filter for either side, linked or not, and a coupled or mono layout shares one filter.\<close>

theorem modules_agree_on_bass_crossover:
  assumes "bass_ok bass" "side \<in> set SUB_SIDES"
  shows "bass_crossover_for_side bass side = bassCrossoverForSide bass side True
    \<and> sharedBassCrossover bass = bassCrossoverForSide bass side False
    \<and> (jget bass ''sub_link'' \<noteq> JBool False \<longrightarrow> bass_crossover_for_side bass side = sharedBassCrossover bass)"
  using assms(2) shared_agree [OF assms(1)] filter_normal assms(1)
  by (auto simp: bass_crossover_for_side_def bassCrossoverForSide_def Let_def jget_js_or bass_ok_def)

lemma modules_agree_on_bass_crossover_witness:
  "bass_crossover_for_side (JObj [(''frequency_hz'', JNum (Fin 90)), (''sub_link'', JBool False)]) ''left''
   = bassCrossoverForSide (JObj [(''frequency_hz'', JNum (Fin 90)), (''sub_link'', JBool False)]) ''left'' True"
  using modules_agree_on_bass_crossover [of "JObj [(''frequency_hz'', JNum (Fin 90)), (''sub_link'', JBool False)]" "''left''"]
  by (simp add: bass_ok_def numeric_def SUB_SIDES_def jget_JObj nullish_def)

subsection \<open>The derived high-pass\<close>

lemma highpass_shape:
  assumes "bassHighpass bass subs role mode \<noteq> JNull"
  shows "filter truthy (arr_items subs) \<noteq> [] \<and> truthy bass
    \<and> (\<exists>n fam sl. is_fin (js_round n) \<and> \<not> js_round n < Fin 40 \<and> \<not> Fin 200 < js_round n
        \<and> bassHighpass bass subs role mode = JObj [(''family'', fam), (''slope_db_oct'', sl),
             (''frequency_hz'', JNum (js_round n))])"
  using assms unfolding bassHighpass_def Let_def by (simp split: if_splits) blast

lemma rounded_range:
  assumes "is_fin (js_round n)" "\<not> js_round n < Fin 40" "\<not> Fin 200 < js_round n"
  shows "\<exists>k. 40 \<le> k \<and> k \<le> 200 \<and> js_round n = Fin (of_int k)"
proof (cases n)
  case (Fin r)
  let ?k = "\<lfloor>r + 1 / 2\<rfloor>"
  have "(of_int 40 :: rat) \<le> of_int ?k" "(of_int ?k :: rat) \<le> of_int 200"
    using assms Fin by simp_all
  then have "40 \<le> ?k" "?k \<le> 200"
    unfolding of_int_le_iff .
  with Fin show ?thesis by auto
qed (use assms in simp_all)

text \<open>The high-pass shown for a way is one the engine accepts: it exists only with a routed
  subwoofer, its frequency is a whole number from 40 to 200 Hz, and the low way offers a high-pass
  control exactly when it exists.\<close>

theorem derived_highpass_in_range:
  "(bassHighpass bass subs role mode = JNull
    \<or> (\<exists>k. 40 \<le> k \<and> k \<le> 200 \<and> jget (bassHighpass bass subs role mode) ''frequency_hz'' = JNum (Fin (of_int k))
        \<and> filter truthy (arr_items subs) \<noteq> [] \<and> truthy bass))
   \<and> (wayKey (JStr low) = ''low'' \<longrightarrow> (''highpass'' \<in> set (applicableFilters low (Some (bass, subs, mode)))
        \<longleftrightarrow> isLowWayRole low \<and> bassHighpass bass subs (JStr low) mode \<noteq> JNull))"
proof -
  have range: "bassHighpass bass subs role mode = JNull
    \<or> (\<exists>k. 40 \<le> k \<and> k \<le> 200 \<and> jget (bassHighpass bass subs role mode) ''frequency_hz'' = JNum (Fin (of_int k))
        \<and> filter truthy (arr_items subs) \<noteq> [] \<and> truthy bass)" for role
  proof (cases "bassHighpass bass subs role mode = JNull")
    case False
    then obtain n fam sl where n: "is_fin (js_round n)" "\<not> js_round n < Fin 40" "\<not> Fin 200 < js_round n"
      "bassHighpass bass subs role mode = JObj [(''family'', fam), (''slope_db_oct'', sl), (''frequency_hz'', JNum (js_round n))]"
      and ok: "filter truthy (arr_items subs) \<noteq> []" "truthy bass"
      using highpass_shape [OF False] by blast
    obtain k where "40 \<le> k" "k \<le> 200" "js_round n = Fin (of_int k)"
      using rounded_range [OF n(1-3)] by blast
    with n(4) ok show ?thesis by (auto simp: jget_JObj)
  qed simp
  have obj: "bassHighpass bass subs role mode = JNull \<or> truthy (bassHighpass bass subs role mode)" for role
    by (simp add: bassHighpass_def Let_def)
  show ?thesis
    using range [of role] obj [of "JStr low"] by (auto simp: applicableFilters_def derivedHighpassForRole_def)
qed

end
