(* ===== verification/Output_Catalog.thy ===== *)
theory Output_Catalog
  imports Output_Roles
begin

section \<open>Banks, areas and presets of the output catalog\<close>

text \<open>
  The catalog helpers of static/output_state.js: the Easy view, bank options and binding, the
  measurement area of a bank and the speaker groups of the surround mode. The catalog is a JSON
  value; a thrown error is \<open>Inl\<close> with its message.
\<close>

definition SURROUND_GROUPS :: "string list" where
  "SURROUND_GROUPS = [''front'', ''center'', ''side'', ''rear'']"

definition group_name :: "string \<Rightarrow> string" where
  "group_name g =
     (if g = ''front'' then ''Front L/R'' else if g = ''center'' then ''Center''
      else if g = ''side'' then ''Side L/R'' else if g = ''rear'' then ''Rear L/R'' else ''undefined'')"

definition strip_lr :: "string \<Rightarrow> string" where
  "strip_lr s = (if ends_with s '' L/R'' then take (length s - 4) s else s)"

subsection \<open>The subwoofer tile\<close>

definition config_of :: "jsval \<Rightarrow> jsval" where
  "config_of catalog = jget (jget catalog ''modes'') (to_str (jget catalog ''active_mode''))"

definition num0 :: "jsval \<Rightarrow> jsnum" where
  "num0 v = to_num (js_or v (JNum (Fin 0)))"

text \<open>\<open>Math.max(0, ...roles.map(role => -(processing[role]?.alignment_ms || 0)))\<close>.\<close>

definition alignment_offset :: "jsval \<Rightarrow> string list \<Rightarrow> jsnum" where
  "alignment_offset processing roles =
     foldl js_max (Fin 0) (List.map (\<lambda>r. - num0 (jpath processing [r, ''alignment_ms''])) roles)"

definition routed_outputs :: "jsval \<Rightarrow> string" where
  "routed_outputs routing =
     join_with ('' '' @ mid_dot @ '' '')
       (List.map (\<lambda>(i, r). ''Out '' @ nat_str (i + 1) @ '' '' @ roleLabel r [])
         (filter (\<lambda>(i, r). r \<noteq> ''off'') (enumerate 0 (strs routing))))"

definition sub_view_mode :: "jsval \<Rightarrow> string" where
  "sub_view_mode subMode =
     (if subMode = JStr ''mono'' then ''subwoofer-2.1''
      else if subMode = JStr ''dual-mono'' then ''subwoofer-2.2''
      else if subMode = JStr ''stereo'' then ''subwoofer-2.2-stereo'' else ''stereo'')"

definition crossover_label :: "jsval \<Rightarrow> string" where
  "crossover_label shape = filterLabel (jget shape ''family'') (jget shape ''slope_db_oct'')"

definition group_shape :: "jsval \<Rightarrow> string \<Rightarrow> jsval" where
  "group_shape bass g =
     (let shape = bassCrossoverForGroup bass g
      in jput ''label'' (JStr (crossover_label shape))
           (spread (JObj [(''id'', JStr g), (''name'', JStr (group_name g))]) shape))"

definition crossover_view :: "jsval \<Rightarrow> jsval \<Rightarrow> bool \<Rightarrow> bool \<Rightarrow> jsval" where
  "crossover_view bass topology stereo surround =
     (let shared = bassCrossoverForSide bass ''left'' False;
          left = bassCrossoverForSide bass ''left'' stereo;
          right = bassCrossoverForSide bass ''right'' stereo
      in spread shared (JObj
           [(''label'', JStr (crossover_label shared)),
            (''link'', JBool (jget bass ''sub_link'' \<noteq> JBool False)),
            (''stereo'', JBool stereo), (''surround'', JBool surround),
            (''left'', left), (''right'', right),
            (''left_label'', JStr (crossover_label left)), (''right_label'', JStr (crossover_label right)),
            (''groups'', JArr (if surround then List.map (group_shape bass) (surroundGroups topology) else []))]))"

definition subwooferView :: "jsval \<Rightarrow> jsval" where
  "subwooferView catalog =
     (let config = config_of catalog;
          topology = js_or (jget config ''topology'') (JObj []);
          roles = js_or (jget topology ''sub_roles'') (JArr []);
          processing = js_or (jget config ''processing'') (JObj []);
          first = js_or (jget processing (to_str (js_at roles 0))) (JObj []);
          second = js_or (jget processing (to_str (js_at roles 1))) (JObj []);
          offset = alignment_offset processing (strs (jget topology ''roles''));
          bass = js_or (jget config ''bass_management'') (JObj []);
          stereo = (jget topology ''sub_mode'' = JStr ''stereo'');
          surround = (jget catalog ''active_mode'' = JStr ''surround'');
          shared = bassCrossoverForSide bass ''left'' False
      in JObj
           [(''mode'', JStr (sub_view_mode (jget topology ''sub_mode''))),
            (''roles'', roles),
            (''sub_mode'', str_or (jget topology ''sub_mode'') ''none''),
            (''subwoofer'', JObj
               [(''crossover_frequency_hz'', jget shared ''frequency_hz''),
                (''slope'', JStr (crossover_label shared)),
                (''family'', jget shared ''family''), (''slope_db_oct'', jget shared ''slope_db_oct''),
                (''main_highpass_enabled'', js_coalesce (jget bass ''main_highpass_enabled'') (JBool True)),
                (''sub_level_db'', js_or (jget first ''level_db'') (JNum (Fin 0))),
                (''sub_alignment_ms'', js_or (jget first ''alignment_ms'') (JNum (Fin 0))),
                (''sub_polarity'', str_or (jget first ''polarity'') ''normal'')]),
            (''subwoofers'', JObj [(''sub1'', first), (''sub2'', second)]),
            (''crossover'', crossover_view bass topology stereo surround),
            (''derived_main_delay_ms'', JNum offset),
            (''derived_sub1_delay_ms'', JNum (offset + num0 (jget first ''alignment_ms''))),
            (''derived_sub2_delay_ms'', JNum (offset + num0 (jget second ''alignment_ms''))),
            (''routing'', JObj [(''status'', JStr (routed_outputs
               (js_or (jpath catalog [''device'', ''routing'', to_str (jget catalog ''active_mode'')]) (JArr []))))])])"

subsection \<open>Speaker groups\<close>

record group_option =
  optionId :: string
  optionShort :: string
  optionLabel :: string
  optionMono :: bool

definition globalGroupOptions :: "jsval \<Rightarrow> group_option list" where
  "globalGroupOptions modeConfig =
     (let topology = jget modeConfig ''topology'' in
      if jget topology ''mode'' \<noteq> JStr ''surround'' then []
      else
        (let subs = (arr_items (js_or (jget topology ''sub_roles'') (JArr [])) \<noteq> [])
         in List.map (\<lambda>g. \<lparr>optionId = g, optionShort = strip_lr (group_name g),
                           optionLabel = group_name g @ (if subs then '' + Sub'' else []),
                           optionMono = (g = ''center'')\<rparr>) (surroundGroups topology)))"

definition resolveGlobalGroup :: "jsval \<Rightarrow> jsval \<Rightarrow> group_option option" where
  "resolveGlobalGroup modeConfig grp =
     (let options = globalGroupOptions modeConfig
      in case List.find (\<lambda>p. JStr (optionId p) = grp) options of
           Some p \<Rightarrow> Some p
         | None \<Rightarrow> (case options of [] \<Rightarrow> None | p # ps \<Rightarrow> Some p))"

definition globalGroupChoice :: "jsval \<Rightarrow> jsval \<Rightarrow> (group_option list \<times> string) option" where
  "globalGroupChoice catalog grp =
     (let mode = jget catalog ''active_mode'';
          modeConfig = (if truthy mode then config_of catalog else mode);
          selected = to_str (str_or (jget modeConfig ''selected_bank'') ''global'')
      in if mode \<noteq> JStr ''surround'' \<or> selected \<notin> {''global'', ''all''} then None
         else case resolveGlobalGroup modeConfig grp of
                None \<Rightarrow> None
              | Some p \<Rightarrow> Some (globalGroupOptions modeConfig, optionId p))"

definition groupSideLabels :: "group_option \<Rightarrow> string list \<Rightarrow> (string \<times> string) list" where
  "groupSideLabels groupOption sides =
     List.map (\<lambda>side. (side, optionShort groupOption @ '' ''
       @ (if side = ''left'' then ''L'' else if side = ''stereo'' then ''L+R''
          else if side = ''right'' then ''R'' else ''undefined''))) sides"

subsection \<open>Bank selection\<close>

definition bankSelectorVisible :: "jsval \<Rightarrow> bool" where
  "bankSelectorVisible modeConfig =
     (let roles = strs (jpath modeConfig [''topology'', ''roles''])
      in if jpath modeConfig [''topology'', ''mode''] = JStr ''surround'' then 0 < length roles
         else 0 < length roles
              \<and> \<not> (length roles = 2 \<and> ''main_l'' \<in> set roles \<and> ''main_r'' \<in> set roles))"

definition bank_label :: "jsval \<Rightarrow> string \<Rightarrow> string \<Rightarrow> string" where
  "bank_label bank i mode = to_str (js_or (jget bank ''label'') (JStr (roleLabel i mode)))"

definition bankOptions :: "jsval \<Rightarrow> (string \<times> string) list" where
  "bankOptions modeConfig =
     [(''global'', ''Global''), (''all'', ''Ind. Banks'')]
     @ List.map (\<lambda>(i, bank). (i, bank_label bank i []))
         (filter (\<lambda>(i, bank). i \<noteq> ''global'') (own_props (js_or (jget modeConfig ''banks'') (JObj []))))"

definition viewCatalog :: "jsval \<Rightarrow> bool \<Rightarrow> jsval" where
  "viewCatalog catalog expert =
     (if expert \<or> \<not> truthy (jget catalog ''modes'') then catalog
      else jput ''modes''
             (JObj (List.map (\<lambda>(mode, config). (mode, jput ''selected_bank'' (JStr ''global'') (clone config)))
                      (own_props (jget catalog ''modes''))))
             (clone catalog))"

definition bankBinding :: "jsval \<Rightarrow> jsval \<Rightarrow> string + jsval" where
  "bankBinding catalog grp =
     (if \<not> truthy catalog then Inr JNull
      else
        (let modeConfig = config_of catalog;
             bankId = str_or (jget modeConfig ''selected_bank'') ''global''
         in if bankId = JStr ''all'' then Inl ''Select a filter bank for import or measurement.''
            else
              (let groupOption = (if jget catalog ''active_mode'' = JStr ''surround'' \<and> bankId = JStr ''global''
                                  then resolveGlobalGroup modeConfig grp else None)
               in Inr (JObj ([(''bank_mode'', jget catalog ''active_mode''), (''bank_id'', bankId),
                              (''expected_revision'', jget catalog ''revision'')]
                             @ (case groupOption of None \<Rightarrow> []
                                | Some p \<Rightarrow> [(''bank_group'', JStr (optionId p))]))))))"

definition bankOwner :: "jsval \<Rightarrow> string + jsval" where
  "bankOwner catalog =
     (if \<not> truthy catalog then Inr JNull
      else
        (let bankId = str_or (jget (config_of catalog) ''selected_bank'') ''global''
         in if bankId = JStr ''all'' then Inl ''Ind. Banks owns no presets; select a concrete filterbank.''
            else Inr (JObj [(''bank_mode'', jget catalog ''active_mode''), (''bank_id'', bankId)])))"

subsection \<open>Measurement areas\<close>

record area =
  areaBank :: string
  areaLabel :: string
  areaMono :: bool
  areaAvailable :: bool
  areaSides :: "string list"
  areaNote :: string
  areaRepeat :: bool
  areaRepeatNote :: string
  areaPolarity :: bool
  areaGroup :: "string option"
  areaSideLabels :: "(string \<times> string) list option"
  areaImportable :: bool

definition aggregate_label :: "jsval \<Rightarrow> bool \<Rightarrow> string" where
  "aggregate_label modeConfig allBanks =
     (if allBanks
      then (let listened = jpath modeConfig [''all_banks'', ''active_side'']
            in ''Ind. Banks'' @ (if truthy listened then '' '' @ mid_dot @ '' '' @ to_str listened else []))
      else ''Global'')"

definition area_label :: "jsval \<Rightarrow> string \<Rightarrow> group_option option \<Rightarrow> string" where
  "area_label modeConfig selected groupOption =
     (let allBanks = (selected = ''all'')
      in case groupOption of
           Some p \<Rightarrow> aggregate_label modeConfig allBanks @ '' '' @ mid_dot @ '' '' @ optionLabel p
         | None \<Rightarrow> if allBanks then aggregate_label modeConfig True
                   else bank_label (jpath modeConfig [''banks'', selected]) selected [])"

definition measurementArea :: "jsval \<Rightarrow> jsval \<Rightarrow> jsval \<Rightarrow> area" where
  "measurementArea catalog bankId grp =
     (let mode = to_str (str_or (jget catalog ''active_mode'') ''stereo'');
          modeConfig = js_or (jpath catalog [''modes'', mode]) (JObj []);
          selected = to_str (js_or bankId (str_or (jget modeConfig ''selected_bank'') ''global''));
          bank = jpath modeConfig [''banks'', selected];
          groupedBank = (mode = ''surround'' \<and> (selected = ''global'' \<or> selected = ''all''));
          groupOption = (if groupedBank then resolveGlobalGroup modeConfig grp else None);
          allBanks = (selected = ''all'');
          routed = (strs (jpath modeConfig [''topology'', ''roles'']) \<noteq> []);
          label = area_label modeConfig selected groupOption;
          available = (\<not> (allBanks \<and> \<not> routed) \<and> \<not> (groupedBank \<and> groupOption = None));
          stereo = (case groupOption of Some p \<Rightarrow> \<not> optionMono p
                    | None \<Rightarrow> str_or (jget bank ''channel_mode'') ''stereo'' = JStr ''stereo'');
          sides = (if available \<and> stereo then [''left'', ''stereo'', ''right''] else []);
          repeat_supported = (available \<and> stereo \<and> \<not> isSubwooferBank (JStr selected));
          implicitStereo = (selected = ''global'' \<and> \<not> bankSelectorVisible modeConfig);
          polarity_supported = (available \<and> \<not> isSubwooferBank (JStr selected) \<and> \<not> allBanks
             \<and> (selected \<noteq> ''global'' \<or> implicitStereo) \<and> groupOption = None);
          repeat_note = (if \<not> available then ''Select a filter bank for measurement.''
             else if repeat_supported then []
             else if stereo then label @ '': use a single sweep or Auto Sub Optimize.''
             else label @ '' is a mono target. Use a single sweep.'');
          groupNote = (if groupOption \<noteq> None then ''Only selected speakers and subs play.''
             else if allBanks then ''Whole system as listened (every bank on its A/B side); not importable.''
             else [])
      in \<lparr>areaBank = selected, areaLabel = label, areaMono = \<not> stereo, areaAvailable = available,
           areaSides = sides,
           areaNote = (if \<not> available then repeat_note
              else if groupNote \<noteq> [] then groupNote
              else if selected = ''global'' then ''Whole system; all area banks active.''
              else ''Only '' @ label @ '' stays audible; every other output is muted for this sweep.''),
           areaRepeat = repeat_supported, areaRepeatNote = repeat_note, areaPolarity = polarity_supported,
           areaGroup = map_option optionId groupOption,
           areaSideLabels = (case groupOption of None \<Rightarrow> None
              | Some p \<Rightarrow> if sides \<noteq> [] then Some (groupSideLabels p sides) else None),
           areaImportable = \<not> allBanks\<rparr>)"

end
