(* ===== verification/Output_Presets.thy ===== *)
theory Output_Presets
  imports Output_Catalog
begin

section \<open>Presets, A/B slots and overviews\<close>

text \<open>
  The second half of the catalog helpers of static/output_state.js: the presets of a bank, the
  short text of a slot, the A/B state of the selected bank, the overviews of all banks, and the
  markup of the mode and routing selectors. Where the source uses \<open>JSON.stringify\<close> only to compare,
  the value itself is compared.
\<close>

subsection \<open>Presets\<close>

definition isBuiltinBankPreset :: "jsval \<Rightarrow> bool" where
  "isBuiltinBankPreset name = (str_or_empty name \<in> {''Direct'', ''Neutral''})"

definition presetsForBank :: "jsval \<Rightarrow> jsval \<Rightarrow> jsval \<Rightarrow> jsval list" where
  "presetsForBank presets bankId mode =
     (if \<not> truthy bankId \<or> bankId = JStr ''all'' then []
      else filter (\<lambda>entry.
        if isBuiltinBankPreset (jget entry ''name'')
        then jget entry ''name'' \<noteq> JStr ''Direct'' \<or> bankId = JStr ''global''
        else js_seq (jget entry ''bank'') bankId
             \<and> (bankId \<noteq> JStr ''global'' \<or> js_seq (jget entry ''mode'') mode)) (arr_items presets))"

definition isGroupSelection :: "jsval \<Rightarrow> bool" where
  "isGroupSelection slot = is_obj slot"

definition globalSlotLabel :: "jsval \<Rightarrow> string" where
  "globalSlotLabel slot =
     (if \<not> isGroupSelection slot then (case slot of JStr s \<Rightarrow> s | _ \<Rightarrow> [])
      else
        (let groups = filter (\<lambda>g. truthy (jget slot g) \<and> jget slot g \<noteq> JStr ''Neutral'') SURROUND_GROUPS;
             text = join_with '' + '' (List.map (\<lambda>g. strip_lr (group_name g)) groups)
         in if text = [] then ''Neutral'' else text))"

record group_slots =
  slotGroup :: string
  slotLabel :: string
  slotA :: jsval
  slotB :: jsval
  slotOptions :: "jsval list"

definition pick_slot :: "jsval \<Rightarrow> string \<Rightarrow> jsval" where
  "pick_slot slot g =
     (if slot = JStr ''Direct'' then JStr ''Direct''
      else if isGroupSelection slot then str_or (jget slot g) ''Neutral'' else JStr ''Neutral'')"

definition globalGroupSlots :: "jsval \<Rightarrow> jsval \<Rightarrow> group_slots list option" where
  "globalGroupSlots catalog presets =
     (let modeConfig = config_of catalog; bank = jpath modeConfig [''banks'', ''global'']
      in if jget catalog ''active_mode'' \<noteq> JStr ''surround''
            \<or> str_or (jget modeConfig ''selected_bank'') ''global'' \<noteq> JStr ''global''
            \<or> \<not> truthy bank then None
         else Some (List.map (\<lambda>g. \<lparr>slotGroup = g, slotLabel = strip_lr (group_name g),
                slotA = pick_slot (jget bank ''preset_a'') g, slotB = pick_slot (jget bank ''preset_b'') g,
                slotOptions = List.map (\<lambda>entry. jget entry ''name'')
                  (filter (\<lambda>entry. jget entry ''group'' = JStr g) (arr_items presets))\<rparr>)
              (surroundGroups (jget modeConfig ''topology''))))"

definition peqParams :: "string \<Rightarrow> jsval \<Rightarrow> jsval \<Rightarrow> jsval \<Rightarrow> jsval" where
  "peqParams channelMode leftBands rightBands eqMode =
     (if channelMode = ''mono''
      then JObj [(''channelMode'', JStr ''stereo-linked''), (''eqMode'', eqMode), (''bands'', leftBands)]
      else JObj [(''channelMode'', JStr ''dual''), (''eqMode'', eqMode), (''leftBands'', leftBands),
             (''rightBands'', rightBands)])"

subsection \<open>The A/B state\<close>

record compare_state =
  presetA :: string
  presetB :: string
  activeSide :: jsval
  activePreset :: string
  aggregate :: bool
  groupSlots :: bool
  canA :: jsval
  canB :: jsval

definition compareState :: "jsval \<Rightarrow> compare_state option" where
  "compareState catalog =
     (let config = config_of catalog;
          aggregate = (jget config ''selected_bank'' = JStr ''all'');
          bank = (if aggregate then jget config ''all_banks''
                  else jpath config [''banks'', to_str (jget config ''selected_bank'')])
      in if \<not> truthy config \<or> \<not> truthy bank then None
         else
           (let a = globalSlotLabel (jget bank ''preset_a''); b = globalSlotLabel (jget bank ''preset_b'')
            in Some \<lparr>presetA = a, presetB = b, activeSide = jget bank ''active_side'',
                 activePreset = globalSlotLabel (jget bank ''preset''), aggregate = aggregate,
                 groupSlots = (jget catalog ''active_mode'' = JStr ''surround''
                               \<and> jget config ''selected_bank'' = JStr ''global''),
                 canA = js_coalesce (jget bank ''can_a'') (JBool (a \<noteq> [])),
                 canB = js_coalesce (jget bank ''can_b'') (JBool (b \<noteq> []))\<rparr>))"

subsection \<open>Merged banks\<close>

text \<open>The label of a numbered bank: the part up to its last non-digit, which holds no line break
  before that character, and the trailing digits.\<close>

definition is_digit :: "char \<Rightarrow> bool" where
  "is_digit c = (digit_val c \<noteq> None)"

definition is_line_break :: "char \<Rightarrow> bool" where
  "is_line_break c = (c = CHR 0x0A \<or> c = CHR 0x0D)"

definition numbered_label :: "string \<Rightarrow> (string \<times> string) option" where
  "numbered_label label =
     (let digits = rev (takeWhile is_digit (rev label));
          prefix = rev (dropWhile is_digit (rev label))
      in if digits = [] \<or> prefix = [] \<or> list_ex is_line_break (butlast prefix) then None
         else Some (prefix, digits))"

record 'a bank_item =
  itemIds :: "string list"
  itemLabel :: string
  itemKey :: jsval
  itemData :: 'a

record 'a bank_entry =
  entryIds :: "string list"
  entryLabel :: string
  entryKey :: jsval
  entryFamily :: "string option"
  entryData :: 'a

definition merges :: "'a bank_item \<Rightarrow> 'a bank_entry \<Rightarrow> bool" where
  "merges item previous =
     (case numbered_label (itemLabel item) of
        None \<Rightarrow> False
      | Some (prefix, digits) \<Rightarrow>
          itemKey item \<noteq> JNull \<and> entryFamily previous = Some prefix \<and> js_seq (entryKey previous) (itemKey item))"

definition merge_into :: "'a bank_item \<Rightarrow> 'a bank_entry \<Rightarrow> 'a bank_entry" where
  "merge_into item previous =
     previous\<lparr>entryIds := entryIds previous @ itemIds item,
       entryLabel := entryLabel previous @ ''/''
         @ (case numbered_label (itemLabel item) of None \<Rightarrow> ''undefined'' | Some (prefix, digits) \<Rightarrow> digits)\<rparr>"

definition fresh_entry :: "'a bank_item \<Rightarrow> 'a bank_entry" where
  "fresh_entry item =
     \<lparr>entryIds = itemIds item, entryLabel = itemLabel item, entryKey = itemKey item,
      entryFamily = map_option fst (numbered_label (itemLabel item)), entryData = itemData item\<rparr>"

text \<open>The loop, with the entries so far in reverse.\<close>

fun merge_loop :: "'a bank_entry list \<Rightarrow> 'a bank_item list \<Rightarrow> 'a bank_entry list" where
  "merge_loop entries [] = rev entries"
| "merge_loop [] (item # items) = merge_loop [fresh_entry item] items"
| "merge_loop (previous # entries) (item # items) =
     (if merges item previous then merge_loop (merge_into item previous # entries) items
      else merge_loop (fresh_entry item # previous # entries) items)"

definition mergeNumberedBanks :: "'a bank_item list \<Rightarrow> 'a bank_entry list" where
  "mergeNumberedBanks items = merge_loop [] items"

text \<open>\<open>globalSlotLabel(bank.preset) || null\<close>.\<close>

definition overview_item :: "string \<Rightarrow> jsval \<Rightarrow> string \<Rightarrow> jsval bank_item" where
  "overview_item mode banks i =
     (let bank = js_or (jget banks i) (JObj []); preset = js_or (JStr (globalSlotLabel (jget bank ''preset''))) JNull
      in \<lparr>itemIds = [i], itemLabel = bank_label bank i mode, itemKey = preset, itemData = preset\<rparr>)"

definition activePresetOverview :: "jsval \<Rightarrow> jsval bank_entry list" where
  "activePresetOverview catalog =
     (let modeConfig = config_of catalog; banks = jget modeConfig ''banks''
      in if \<not> truthy banks \<or> \<not> bankSelectorVisible modeConfig then []
         else
           (let selected = to_str (str_or (jget modeConfig ''selected_bank'') ''global'');
                ids = filter (\<lambda>i. if selected = ''all'' then i = ''global'' else i \<noteq> selected) (own_keys banks);
                sorted = filter (\<lambda>i. i = ''global'') ids @ filter (\<lambda>i. i \<noteq> ''global'') ids
            in mergeNumberedBanks (List.map (overview_item (to_str (jget catalog ''active_mode'')) banks) sorted)))"

record compare_slots =
  bankA :: jsval
  bankB :: jsval
  bankCanB :: bool
  bankSide :: jsval

definition compare_item :: "string \<Rightarrow> jsval \<Rightarrow> string \<Rightarrow> compare_slots bank_item" where
  "compare_item mode banks i =
     (let bank = js_or (jget banks i) (JObj []);
          named = (\<lambda>v. if is_str v \<and> truthy v then v else JNull);
          a = named (jget bank ''preset_a''); b = named (jget bank ''preset_b'');
          can = truthy (js_coalesce (jget bank ''can_b'') b);
          side = (if jget bank ''active_side'' \<in> {JStr ''A'', JStr ''B''} then jget bank ''active_side'' else JNull);
          single = (truthy a \<and> (truthy b \<or> \<not> can))
      in \<lparr>itemIds = [i], itemLabel = bank_label bank i mode,
           itemKey = (if single then JArr [a, b, side] else JNull),
           itemData = \<lparr>bankA = a, bankB = b, bankCanB = can, bankSide = side\<rparr>\<rparr>)"

definition allBanksCompareOverview :: "jsval \<Rightarrow> compare_slots bank_entry list" where
  "allBanksCompareOverview catalog =
     (let banks = jget (config_of catalog) ''banks'' in
      if \<not> truthy banks then []
      else mergeNumberedBanks (List.map (compare_item (to_str (jget catalog ''active_mode'')) banks)
             (filter (\<lambda>i. i \<noteq> ''global'') (own_keys banks))))"

subsection \<open>Selectors\<close>

definition quote :: string where "quote = [CHR 0x22]"

definition option_html :: "string \<Rightarrow> bool \<Rightarrow> string \<Rightarrow> string" where
  "option_html value selected text =
     ''<option value='' @ quote @ value @ quote @ (if selected then '' selected'' else []) @ ''>'' @ text @ ''</option>''"

definition mode_options_html :: "jsval \<Rightarrow> string \<Rightarrow> string" where
  "mode_options_html catalog activeMode =
     concat (List.map (\<lambda>mode. option_html mode (mode = activeMode) (modeLabel mode))
       (strs (js_or (jpath catalog [''capabilities'', ''modes''])
                (JArr [JStr ''stereo'', JStr ''stereo-sub'', JStr ''surround'']))))"

definition routingOutputLabel :: "nat \<Rightarrow> jsval \<Rightarrow> string" where
  "routingOutputLabel index channelLabels =
     (let position = js_at channelLabels index
      in ''Out '' @ nat_str (index + 1)
         @ (if truthy position then '' '' @ mid_dot @ '' '' @ to_str position else []))"

definition routing_options_html :: "jsval \<Rightarrow> string \<Rightarrow> string \<Rightarrow> string" where
  "routing_options_html catalog mode current =
     concat (List.map (\<lambda>role. option_html (esc role) (role = JStr current) (esc (JStr (roleLabel (to_str role) mode))))
       (JStr ''off'' # rolesForMode mode (jget catalog ''capabilities'')))"

definition bank_options_html :: "jsval \<Rightarrow> string \<Rightarrow> string" where
  "bank_options_html catalog mode =
     (let modeConfig = jpath catalog [''modes'', mode]
      in concat (List.map (\<lambda>(i, label). option_html (esc (JStr i)) (JStr i = jget modeConfig ''selected_bank'')
                                      (esc (JStr label)))
           (bankOptions modeConfig)))"

end
