(* ===== verification/Output_Claims.thy ===== *)
theory Output_Claims
  imports Output_Presets
begin

section \<open>Properties of the output catalog helpers\<close>

text \<open>
  What the bank and preset helpers of static/output_state.js promise to their callers: the Easy
  view always has a bank to import into, the measurement area and the import binding speak of the
  same bank and speaker group, every stored preset is listed in exactly one bank, and the merged
  overviews are the maximal runs of numbered banks.
\<close>

subsection \<open>The Easy view\<close>

lemma map_of_map_value: "map_of (List.map (\<lambda>(k, v). (k, f v)) ps) x = map_option f (map_of ps x)"
  by (induction ps) auto

definition easy_modes :: "jsval \<Rightarrow> jsval" where
  "easy_modes modes =
     JObj (List.map (\<lambda>(mode, config). (mode, jput ''selected_bank'' (JStr ''global'') (clone config))) (own_props modes))"

lemma jget_easy_modes:
  "jget (easy_modes modes) m =
     (if has_key modes m then jput ''selected_bank'' (JStr ''global'') (clone (jget modes m)) else JUndef)"
  by (simp add: easy_modes_def jget_def has_key_def map_of_map_value split: option.split)

lemma easy_modes_idem: "easy_modes (easy_modes modes) = easy_modes modes"
  by (simp add: easy_modes_def jput_def clone_def AList.update_last comp_def split_def)

lemma viewCatalog_easy:
  "truthy (jget c ''modes'') \<Longrightarrow> viewCatalog c False = jput ''modes'' (easy_modes (jget c ''modes'')) (clone c)"
  by (simp add: viewCatalog_def easy_modes_def)

lemma untruthy_no_props: "\<not> truthy v \<Longrightarrow> jget v k = JUndef"
  by (cases v) simp_all

lemma easy_selected_bank:
  "str_or (jget (config_of (viewCatalog c False)) ''selected_bank'') ''global'' = JStr ''global''"
proof (cases "truthy (jget c ''modes'')")
  case True
  then show ?thesis
    by (simp add: config_of_def viewCatalog_easy jget_easy_modes str_or_def js_or_def)
next
  case False
  then show ?thesis
    by (simp add: config_of_def viewCatalog_def untruthy_no_props str_or_def js_or_def)
qed

lemma view_keeps_keys: "k \<noteq> ''modes'' \<Longrightarrow> jget (viewCatalog c e) k = jget c k"
  by (simp add: viewCatalog_def)

lemma view_truthy: "truthy c \<Longrightarrow> truthy (viewCatalog c e)"
  by (simp add: viewCatalog_def)

lemma easy_view_idem: "viewCatalog (viewCatalog c False) False = viewCatalog c False"
proof (cases "truthy (jget c ''modes'')")
  case True
  have "truthy (easy_modes v)" for v
    by (simp add: easy_modes_def)
  with True show ?thesis
    by (simp add: viewCatalog_easy easy_modes_idem) (simp add: jput_def clone_def AList.update_last)
qed (simp add: viewCatalog_def)

lemma easy_view_keeps_configs:
  "f \<noteq> ''selected_bank'' \<Longrightarrow> jpath (viewCatalog c False) [''modes'', m, f] = jpath c [''modes'', m, f]"
proof (cases "truthy (jget c ''modes'')")
  case True
  assume "f \<noteq> ''selected_bank''"
  with True show ?thesis by (simp add: viewCatalog_easy jget_easy_modes jget_absent)
qed (simp add: viewCatalog_def)

text \<open>In the Easy view an import always has a target: whatever bank the backend has selected,
  the view of a catalog binds to the Global bank of the active mode at the catalog's own revision,
  the two functions that refuse Ind. Banks never throw on it, viewing twice is viewing once, and
  the view changes nothing of the catalog but the selected bank of its modes.\<close>

theorem easy_view_always_binds:
  assumes "truthy c"
  shows "bankOwner (viewCatalog c False)
           = Inr (JObj [(''bank_mode'', jget c ''active_mode''), (''bank_id'', JStr ''global'')])
       \<and> (\<exists>b. bankBinding (viewCatalog c False) grp = Inr b \<and> jget b ''bank_id'' = JStr ''global''
             \<and> jget b ''bank_mode'' = jget c ''active_mode'' \<and> jget b ''expected_revision'' = jget c ''revision'')
       \<and> viewCatalog (viewCatalog c False) False = viewCatalog c False
       \<and> (\<forall>k. k \<noteq> ''modes'' \<longrightarrow> jget (viewCatalog c False) k = jget c k)
       \<and> (\<forall>m f. f \<noteq> ''selected_bank'' \<longrightarrow>
             jpath (viewCatalog c False) [''modes'', m, f] = jpath c [''modes'', m, f])"
proof (intro conjI)
  show "bankOwner (viewCatalog c False)
           = Inr (JObj [(''bank_mode'', jget c ''active_mode''), (''bank_id'', JStr ''global'')])"
    using assms by (simp add: bankOwner_def easy_selected_bank view_truthy view_keeps_keys)
  show "\<exists>b. bankBinding (viewCatalog c False) grp = Inr b \<and> jget b ''bank_id'' = JStr ''global''
           \<and> jget b ''bank_mode'' = jget c ''active_mode'' \<and> jget b ''expected_revision'' = jget c ''revision''"
    using assms
    by (simp add: bankBinding_def easy_selected_bank view_truthy view_keeps_keys Let_def jget_JObj)
  show "viewCatalog (viewCatalog c False) False = viewCatalog c False"
    by (rule easy_view_idem)
  show "\<forall>k. k \<noteq> ''modes'' \<longrightarrow> jget (viewCatalog c False) k = jget c k"
    by (simp add: view_keeps_keys)
  show "\<forall>m f. f \<noteq> ''selected_bank'' \<longrightarrow>
             jpath (viewCatalog c False) [''modes'', m, f] = jpath c [''modes'', m, f]"
    using easy_view_keeps_configs by blast
qed

definition ind_banks_catalog :: jsval where
  "ind_banks_catalog = JObj [(''revision'', JNum (Fin 7)), (''active_mode'', JStr ''stereo-sub''),
     (''modes'', JObj [(''stereo-sub'', JObj [(''selected_bank'', JStr ''all''),
        (''topology'', JObj [(''roles'', JArr [JStr ''main_l'', JStr ''main_r'', JStr ''sub1''])])])])]"

theorem easy_view_always_binds_witness:
  "bankOwner ind_banks_catalog = Inl ''Ind. Banks owns no presets; select a concrete filterbank.''
   \<and> bankOwner (viewCatalog ind_banks_catalog False)
       = Inr (JObj [(''bank_mode'', JStr ''stereo-sub''), (''bank_id'', JStr ''global'')])"
  using easy_view_always_binds [of ind_banks_catalog JNull]
  by (simp add: ind_banks_catalog_def bankOwner_def config_of_def jget_JObj str_or_def js_or_def)

subsection \<open>Area and binding\<close>

text \<open>The catalogs the server sends: an active mode, and a selected bank that is a name.\<close>

definition well_formed_catalog :: "jsval \<Rightarrow> bool" where
  "well_formed_catalog c =
     (truthy c \<and> (\<exists>m. jget c ''active_mode'' = JStr m \<and> m \<noteq> [])
      \<and> (\<exists>b. str_or (jget (config_of c) ''selected_bank'') ''global'' = JStr b))"

lemma jget_or_empty [simp]: "jget (js_or v (JObj [])) k = jget v k"
  by (cases v) (auto simp: js_or_def jget_JObj)

lemma resolve_or_empty [simp]: "resolveGlobalGroup (js_or v (JObj [])) g = resolveGlobalGroup v g"
  by (simp add: resolveGlobalGroup_def globalGroupOptions_def)

text \<open>The area a sweep measures is the area its result is imported into: the measurement area
  of a catalog is importable exactly when the binding of an import succeeds, and then both name the
  same bank and the same speaker group, or both name no group.\<close>

theorem import_goes_where_it_was_measured:
  assumes "well_formed_catalog c"
  shows "(case bankBinding c grp of
      Inl m \<Rightarrow> \<not> areaImportable (measurementArea c JNull grp)
    | Inr b \<Rightarrow> areaImportable (measurementArea c JNull grp)
        \<and> jget b ''bank_id'' = JStr (areaBank (measurementArea c JNull grp))
        \<and> jget b ''bank_mode'' = jget c ''active_mode''
        \<and> jget b ''expected_revision'' = jget c ''revision''
        \<and> jget b ''bank_group''
            = (case areaGroup (measurementArea c JNull grp) of None \<Rightarrow> JUndef | Some g \<Rightarrow> JStr g))"
proof -
  obtain m b where m: "jget c ''active_mode'' = JStr m" "m \<noteq> []"
    and b: "str_or (jget (config_of c) ''selected_bank'') ''global'' = JStr b" and c: "truthy c"
    using assms by (auto simp: well_formed_catalog_def)
  have mode: "to_str (str_or (jget c ''active_mode'') ''stereo'') = m"
    using m by (simp add: str_or_def js_or_def)
  have conf: "jpath c [''modes'', m] = config_of c"
    by (simp add: config_of_def m)
  have selected: "to_str (js_or JNull (str_or (jget (js_or (config_of c) (JObj [])) ''selected_bank'') ''global'')) = b"
    using b by (simp add: js_or_def [of JNull])
  have bank: "areaBank (measurementArea c JNull grp) = b"
    and importable: "areaImportable (measurementArea c JNull grp) = (b \<noteq> ''all'')"
    and "areaGroup (measurementArea c JNull grp) =
      map_option optionId (if m = ''surround'' \<and> (b = ''global'' \<or> b = ''all'')
       then resolveGlobalGroup (config_of c) grp else None)"
    by (simp_all only: measurementArea_def Let_def area.simps mode conf selected resolve_or_empty)
  then show ?thesis
    using m b c by (auto simp: bankBinding_def Let_def bank importable jget_JObj split: option.split)
qed

definition surround_catalog :: jsval where
  "surround_catalog = JObj [(''revision'', JNum (Fin 3)), (''active_mode'', JStr ''surround''),
     (''modes'', JObj [(''surround'', JObj [(''selected_bank'', JStr ''global''),
        (''topology'', JObj [(''mode'', JStr ''surround''),
           (''roles'', JArr [JStr ''main_l'', JStr ''main_r'', JStr ''center'', JStr ''rear_l'', JStr ''rear_r''])])])])]"

theorem import_goes_where_it_was_measured_witness:
  "bankBinding surround_catalog (JStr ''rear'')
     = Inr (JObj [(''bank_mode'', JStr ''surround''), (''bank_id'', JStr ''global''),
                  (''expected_revision'', JNum (Fin 3)), (''bank_group'', JStr ''rear'')])
   \<and> areaGroup (measurementArea surround_catalog JNull (JStr ''rear'')) = Some ''rear''"
proof -
  have wf: "well_formed_catalog surround_catalog"
    by (simp add: well_formed_catalog_def surround_catalog_def config_of_def jget_JObj str_or_def js_or_def)
  have b: "bankBinding surround_catalog (JStr ''rear'')
     = Inr (JObj [(''bank_mode'', JStr ''surround''), (''bank_id'', JStr ''global''),
                  (''expected_revision'', JNum (Fin 3)), (''bank_group'', JStr ''rear'')])"
    by (simp add: surround_catalog_def bankBinding_def config_of_def jget_JObj str_or_def js_or_def
        resolveGlobalGroup_def globalGroupOptions_def surroundGroups_def strs_def starts_with_def)
  show ?thesis
    using import_goes_where_it_was_measured [OF wf, of "JStr ''rear''"]
    by (simp add: b jget_JObj split: option.splits)
qed

subsection \<open>Presets of a bank\<close>

text \<open>Banks do not share presets: a stored preset is listed in exactly one bank of an output
  mode, its own, and under Global in its own mode only; of the two builtin presets Neutral is
  offered by every concrete bank and Direct by Global alone, and Ind. Banks lists nothing.\<close>

theorem presets_have_one_home:
  "presetsForBank presets (JStr ''all'') mode = []
   \<and> (\<not> isBuiltinBankPreset (jget entry ''name'')
        \<and> entry \<in> set (presetsForBank presets bank mode)
        \<and> entry \<in> set (presetsForBank presets bank' mode')
        \<longrightarrow> bank = bank' \<and> jget entry ''bank'' = bank \<and> (bank = JStr ''global'' \<longrightarrow> mode = mode'))
   \<and> (jget entry ''name'' = JStr ''Neutral'' \<and> entry \<in> set (arr_items presets) \<and> b \<noteq> [] \<and> b \<noteq> ''all''
        \<longrightarrow> entry \<in> set (presetsForBank presets (JStr b) mode))
   \<and> (jget entry ''name'' = JStr ''Direct'' \<and> entry \<in> set (presetsForBank presets bank mode)
        \<longrightarrow> bank = JStr ''global'')"
proof (intro conjI impI; (elim conjE)?)
  show "presetsForBank presets (JStr ''all'') mode = []"
    by (simp add: presetsForBank_def)
next
  assume "\<not> isBuiltinBankPreset (jget entry ''name'')"
    "entry \<in> set (presetsForBank presets bank mode)" "entry \<in> set (presetsForBank presets bank' mode')"
  then show "bank = bank'" "jget entry ''bank'' = bank" "bank = JStr ''global'' \<Longrightarrow> mode = mode'"
    by (auto simp: presetsForBank_def js_seq_def split: if_splits)
next
  assume "jget entry ''name'' = JStr ''Neutral''" "entry \<in> set (arr_items presets)" "b \<noteq> []" "b \<noteq> ''all''"
  then show "entry \<in> set (presetsForBank presets (JStr b) mode)"
    by (simp add: presetsForBank_def isBuiltinBankPreset_def)
next
  assume "jget entry ''name'' = JStr ''Direct''" "entry \<in> set (presetsForBank presets bank mode)"
  then show "bank = JStr ''global''"
    by (auto simp: presetsForBank_def isBuiltinBankPreset_def split: if_splits)
qed

definition two_presets :: jsval where
  "two_presets = JArr [JObj [(''name'', JStr ''Room''), (''bank'', JStr ''main'')],
     JObj [(''name'', JStr ''Room''), (''bank'', JStr ''global''), (''mode'', JStr ''stereo'')]]"

theorem presets_have_one_home_witness:
  "List.map (\<lambda>e. jget e ''bank'') (presetsForBank two_presets (JStr ''main'') (JStr ''stereo'')) = [JStr ''main'']
   \<and> JObj [(''name'', JStr ''Room''), (''bank'', JStr ''main'')]
       \<notin> set (presetsForBank two_presets (JStr ''global'') (JStr ''stereo''))"
proof -
  let ?e = "JObj [(''name'', JStr ''Room''), (''bank'', JStr ''main'')]"
  have main: "presetsForBank two_presets (JStr ''main'') (JStr ''stereo'') = [?e]"
    by (simp add: presetsForBank_def two_presets_def jget_JObj isBuiltinBankPreset_def js_seq_def)
  have "\<not> isBuiltinBankPreset (jget ?e ''name'')"
    by (simp add: jget_JObj isBuiltinBankPreset_def)
  with main show ?thesis
    using presets_have_one_home [of two_presets "JStr ''stereo''" ?e "JStr ''main''" "JStr ''global''" "JStr ''stereo''" "[]"]
    by (auto simp: jget_JObj)
qed

subsection \<open>Merged overviews\<close>

definition collapse :: "'a bank_item list \<Rightarrow> 'a bank_entry" where
  "collapse run = foldl (\<lambda>e i. merge_into i e) (fresh_entry (hd run)) (tl run)"

text \<open>A run: every later item continues the entry of the first one.\<close>

definition is_run :: "'a bank_item list \<Rightarrow> bool" where
  "is_run run = (run \<noteq> [] \<and> list_all (\<lambda>i. merges i (fresh_entry (hd run))) (tl run))"

definition separate :: "'a bank_item list \<Rightarrow> 'a bank_item list \<Rightarrow> bool" where
  "separate run next_run = (\<not> merges (hd next_run) (fresh_entry (hd run)))"

lemma merges_merge_into [simp]: "merges item (merge_into i e) = merges item e"
  by (simp add: merges_def merge_into_def split: option.split)

lemma merges_collapse: "run \<noteq> [] \<Longrightarrow> merges item (collapse run) = merges item (fresh_entry (hd run))"
proof -
  have "merges item (foldl (\<lambda>e i. merge_into i e) e is) = merges item e" for e and "is"
    by (induction "is" arbitrary: e) simp_all
  then show ?thesis by (simp add: collapse_def)
qed

lemma collapse_snoc: "run \<noteq> [] \<Longrightarrow> collapse (run @ [item]) = merge_into item (collapse run)"
  by (cases run) (simp_all add: collapse_def)

lemma is_run_snoc: "is_run run \<Longrightarrow> is_run (run @ [item]) \<longleftrightarrow> merges item (fresh_entry (hd run))"
  by (cases run) (auto simp: is_run_def)

lemma merge_loop_runs:
  assumes "list_all is_run runs" "successively separate runs"
  shows "\<exists>runs'. concat runs' = concat runs @ items \<and> list_all is_run runs' \<and> successively separate runs'
     \<and> merge_loop (rev (List.map collapse runs)) items = List.map collapse runs'"
  using assms
proof (induction items arbitrary: runs)
  case Nil
  then show ?case by (intro exI [of _ runs]) (simp add: rev_map)
next
  case (Cons item items)
  show ?case
  proof (cases runs rule: rev_cases)
    case Nil
    then show ?thesis
      using Cons.IH [of "[[item]]"] by (simp add: is_run_def collapse_def)
  next
    case (snoc front run)
    with Cons.prems have run: "is_run run" "run \<noteq> []"
      by (simp_all add: is_run_def)
    show ?thesis
    proof (cases "merges item (fresh_entry (hd run))")
      case True
      have "list_all is_run (front @ [run @ [item]])"
        using Cons.prems snoc True by (simp add: is_run_snoc [OF run(1)])
      moreover have "successively separate (front @ [run @ [item]])"
        using Cons.prems(2) run by (simp add: snoc successively_append_iff separate_def)
      ultimately show ?thesis
        using Cons.IH [of "front @ [run @ [item]]"] snoc run True
        by (simp add: merges_collapse collapse_snoc)
    next
      case False
      have "list_all is_run (runs @ [[item]])"
        using Cons.prems(1) by (simp add: is_run_def [of "[item]"])
      moreover have "successively separate (runs @ [[item]])"
        using Cons.prems(2) False by (simp add: snoc successively_append_iff separate_def)
      ultimately show ?thesis
        using Cons.IH [of "runs @ [[item]]"] snoc run False
        by (simp add: merges_collapse collapse_def [of "[item]"])
    qed
  qed
qed

text \<open>
  What the overview shall show, without the code's own notions: a numbered bank is a family name, which ends in a
  non-digit, followed by digits; two banks that follow each other join when they are numbered, of one family, and have
  the same key, which is a value.
\<close>

definition decimals :: "char set" where
  "decimals = set ''0123456789''"

definition bank_number :: "string \<Rightarrow> string \<Rightarrow> string \<Rightarrow> bool" where
  "bank_number label family number = (label = family @ number \<and> number \<noteq> [] \<and> set number \<subseteq> decimals
     \<and> family \<noteq> [] \<and> last family \<notin> decimals \<and> CHR 0x0A \<notin> set (butlast family) \<and> CHR 0x0D \<notin> set (butlast family))"

definition joins :: "'a bank_item \<Rightarrow> 'a bank_item \<Rightarrow> bool" where
  "joins a b = ((\<exists>family m n. bank_number (itemLabel a) family m \<and> bank_number (itemLabel b) family n)
     \<and> itemKey a = itemKey b \<and> itemKey b \<notin> {JNull, JNum NaN})"

text \<open>The entry of a run: all ids in their order, the label of the first bank and the numbers of the others behind it.\<close>

definition shows_run :: "'a bank_item list \<Rightarrow> 'a bank_entry \<Rightarrow> bool" where
  "shows_run run e = (entryIds e = concat (List.map itemIds run) \<and> entryKey e = itemKey (hd run) \<and> entryData e = itemData (hd run)
     \<and> (\<exists>numbers. list_all2 (\<lambda>i n. \<exists>family. bank_number (itemLabel i) family n) (tl run) numbers
          \<and> entryLabel e = itemLabel (hd run) @ concat (List.map (\<lambda>n. ''/'' @ n) numbers)))"

lemma digits_iff: "is_digit c \<longleftrightarrow> c \<in> decimals"
  by (cases c) (auto simp: decimals_def is_digit_def digit_val_def Let_def of_char_def)

lemma bank_number_iff: "bank_number label family number \<longleftrightarrow> numbered_label label = Some (family, number)"
proof
  assume b: "bank_number label family number"
  have "takeWhile is_digit (rev label) = rev number \<and> dropWhile is_digit (rev label) = rev family"
  proof -
    have all: "\<forall>x \<in> set (rev number). is_digit x" using b by (auto simp: bank_number_def digits_iff)
    obtain c rest where f: "rev family = c # rest" using b by (cases "rev family") (simp_all add: bank_number_def)
    then have "c = last family" by (metis hd_rev list.sel(1))
    then have "\<not> is_digit c" using b by (simp add: bank_number_def digits_iff)
    moreover have "rev label = rev number @ rev family" using b by (simp add: bank_number_def)
    ultimately show ?thesis using all by (simp add: f takeWhile_append2 dropWhile_append2 del: set_rev)
  qed
  then show "numbered_label label = Some (family, number)"
    using b by (auto simp: numbered_label_def bank_number_def is_line_break_def list_ex_iff Let_def)
next
  assume n: "numbered_label label = Some (family, number)"
  then have number: "number = rev (takeWhile is_digit (rev label))" and family: "family = rev (dropWhile is_digit (rev label))"
    by (auto simp: numbered_label_def Let_def split: if_splits)
  have ne: "number \<noteq> []" "family \<noteq> []" "\<not> list_ex is_line_break (butlast family)"
    using n by (auto simp: numbered_label_def Let_def split: if_splits)
  have "rev label = rev number @ rev family" by (simp add: number family)
  then have "label = family @ number" by (metis rev_append rev_rev_ident)
  moreover have "set number \<subseteq> decimals" unfolding number by (auto simp flip: digits_iff dest: set_takeWhileD)
  moreover have "last family \<notin> decimals"
    using hd_dropWhile [of is_digit "rev label"] ne(2) unfolding digits_iff [symmetric] by (simp add: family last_rev)
  ultimately show "bank_number label family number"
    using ne by (auto simp: bank_number_def is_line_break_def list_ex_iff)
qed

lemma merges_joins: "merges b (fresh_entry a) \<longleftrightarrow> joins a b"
  by (auto simp: merges_def fresh_entry_def joins_def bank_number_iff js_seq_def split: option.splits)

lemma joins_across: "joins a b \<Longrightarrow> joins a c \<Longrightarrow> joins b c" "joins a b \<Longrightarrow> joins b c \<Longrightarrow> joins a c"
  unfolding joins_def bank_number_iff by (metis option.inject prod.inject)+

lemma run_joins: "is_run run \<Longrightarrow> successively joins run"
proof (cases run)
  case (Cons h rest)
  assume "is_run run"
  then have all: "\<forall>i \<in> set rest. joins h i" by (simp add: Cons is_run_def list_all_iff merges_joins)
  have "joins x y" if "x \<in> set rest" "y \<in> set rest" for x y
    using all that joins_across(1) by blast
  then have "successively joins xs" if "set xs \<subseteq> set rest" for xs
    using that by (induction xs rule: induct_list012) auto
  then have "successively joins rest" by blast
  then show ?thesis using all by (cases rest) (simp_all add: Cons)
qed simp

lemma separate_apart: "is_run run \<Longrightarrow> separate run next_run \<Longrightarrow> \<not> joins (last run) (hd next_run)"
proof
  assume run: "is_run run" and apart: "separate run next_run" and j: "joins (last run) (hd next_run)"
  have "last run = hd run \<or> joins (hd run) (last run)"
    using run by (cases run) (auto simp: is_run_def list_all_iff merges_joins)
  then have "joins (hd run) (hd next_run)" using j joins_across(2) by metis
  then show False using apart by (simp add: separate_def merges_joins)
qed

lemma collapse_shows: "is_run run \<Longrightarrow> shows_run run (collapse run)"
proof (induction run rule: rev_induct)
  case (snoc item run)
  show ?case
  proof (cases "run = []")
    case True
    then show ?thesis by (simp add: shows_run_def collapse_def fresh_entry_def)
  next
    case False
    then have run: "is_run run" and m: "merges item (fresh_entry (hd run))"
      using snoc.prems is_run_snoc [of run item] by (auto simp: is_run_def)
    obtain numbers where n: "list_all2 (\<lambda>i n. \<exists>family. bank_number (itemLabel i) family n) (tl run) numbers"
      "entryLabel (collapse run) = itemLabel (hd run) @ concat (List.map (\<lambda>n. ''/'' @ n) numbers)"
      using snoc.IH [OF run] by (auto simp: shows_run_def)
    obtain family k where k: "numbered_label (itemLabel item) = Some (family, k)"
      using m by (auto simp: merges_def split: option.splits)
    have "\<exists>family. bank_number (itemLabel item) family k" using k by (auto simp: bank_number_iff)
    then have "list_all2 (\<lambda>i n. \<exists>family. bank_number (itemLabel i) family n) (tl (run @ [item])) (numbers @ [k])"
      using n(1) False by (simp add: list_all2_appendI)
    moreover have "entryLabel (collapse (run @ [item])) = itemLabel (hd run) @ concat (List.map (\<lambda>n. ''/'' @ n) (numbers @ [k]))"
      using False by (simp add: collapse_snoc merge_into_def k n(2))
    ultimately have "\<exists>ns. list_all2 (\<lambda>i n. \<exists>family. bank_number (itemLabel i) family n) (tl (run @ [item])) ns
        \<and> entryLabel (collapse (run @ [item])) = itemLabel (hd (run @ [item])) @ concat (List.map (\<lambda>n. ''/'' @ n) ns)"
      using False by (intro exI [of _ "numbers @ [k]"]) simp
    moreover have "entryIds (collapse (run @ [item])) = concat (List.map itemIds (run @ [item]))"
      "entryKey (collapse (run @ [item])) = itemKey (hd (run @ [item]))"
      "entryData (collapse (run @ [item])) = itemData (hd (run @ [item]))"
      using False snoc.IH [OF run] by (simp_all add: shows_run_def collapse_snoc merge_into_def)
    ultimately show ?thesis unfolding shows_run_def by blast
  qed
qed (simp add: is_run_def)

text \<open>C33: The overview merges numbered banks into maximal runs, and loses none. The banks are cut into consecutive
  nonempty runs: within a run neighbours join (numbered banks of one family, with the same key), across a cut they do
  not. The overview has one entry per run, in order: with all ids of its banks, the key and the data of the
  first, and its label followed by the numbers of the others behind slashes. So every id is shown once and in its place.\<close>

theorem merged_banks_are_maximal_runs:
  "\<exists>runs. concat runs = items \<and> [] \<notin> set runs \<and> list_all (successively joins) runs
     \<and> successively (\<lambda>run later. \<not> joins (last run) (hd later)) runs
     \<and> list_all2 shows_run runs (mergeNumberedBanks items)
     \<and> concat (List.map entryIds (mergeNumberedBanks items)) = concat (List.map itemIds items)"
proof -
  obtain runs where runs: "concat runs = items" "list_all is_run runs" "successively separate runs"
    "mergeNumberedBanks items = List.map collapse runs"
    using merge_loop_runs [of "[]" items] by (auto simp: mergeNumberedBanks_def)
  have "[] \<notin> set runs" using runs(2) by (auto simp: is_run_def list_all_iff)
  moreover have "list_all (successively joins) runs" using runs(2) run_joins by (auto simp: list_all_iff)
  moreover have "successively (\<lambda>run later. \<not> joins (last run) (hd later)) runs"
    using runs(2,3) separate_apart by (induction runs rule: induct_list012) auto
  moreover have "list_all2 shows_run runs (List.map collapse runs)"
    using runs(2) collapse_shows by (induction runs) auto
  moreover have "concat (List.map entryIds (mergeNumberedBanks items)) = concat (List.map itemIds items)"
  proof -
    have ids: "entryIds (collapse run) = concat (List.map itemIds run)" if "is_run run" for run
      using collapse_shows [OF that] by (simp add: shows_run_def)
    have "concat (List.map entryIds (List.map collapse xs)) = concat (List.map itemIds (concat xs))" if "list_all is_run xs" for xs
      using that by (induction xs) (simp_all add: ids)
    from this [OF runs(2)] show ?thesis by (simp only: runs(1,4))
  qed
  ultimately show ?thesis using runs(1,4) by metis
qed

definition numbered_items :: "nat bank_item list" where
  "numbered_items = List.map (\<lambda>(i, l, k). \<lparr>itemIds = [i], itemLabel = l, itemKey = k, itemData = 0\<rparr>)
     [(''s1'', ''Sub 1'', JStr ''A''), (''s2'', ''Sub 2'', JStr ''A''), (''s3'', ''Sub 3'', JStr ''B''), (''m'', ''Mains'', JStr ''B'')]"

lemma merged_banks_are_maximal_runs_witness:
  "List.map entryLabel (mergeNumberedBanks numbered_items) = [''Sub 1/2'', ''Sub 3'', ''Mains'']
   \<and> concat (List.map entryIds (mergeNumberedBanks numbered_items)) = [''s1'', ''s2'', ''s3'', ''m'']"
proof -
  have "List.map entryLabel (mergeNumberedBanks numbered_items) = [''Sub 1/2'', ''Sub 3'', ''Mains'']" by code_simp
  moreover have "concat (List.map itemIds numbered_items) = [''s1'', ''s2'', ''s3'', ''m'']" by (simp add: numbered_items_def)
  ultimately show ?thesis using merged_banks_are_maximal_runs [of numbered_items] by metis
qed

end
