(* ===== verification/Output_Control.thy ===== *)
theory Output_Control
  imports Output_Catalog
begin

section \<open>The output system controller\<close>

text \<open>
  Catalog reads and revisioned mutations: \<open>buildMutation\<close>, \<open>fetchCatalog\<close> and \<open>applyMutation\<close> of
  static/output_state.js and static/output_system_controller.js. The state holds the stored
  catalog, the busy flag, the Easy/Expert switch and every request in flight; a mutation is a call
  that waits in one of four stages, one per \<open>await\<close> of the source, and each stage is settled by the
  response to its request. Responses, their order and the moment they arrive are events. The
  fields \<open>sent\<close> and \<open>notices\<close> record the apply requests and the messages shown, newest first.
\<close>

definition OUTPUT_MODES :: "string list" where
  "OUTPUT_MODES = [''stereo'', ''stereo-sub'', ''surround'']"

definition MUTATION_KINDS :: "string list" where
  "MUTATION_KINDS = [''set_routing'', ''switch_mode'', ''select_bank'', ''set_bank_preset'',
     ''switch_all_banks'', ''set_crossover'', ''set_subwoofers'', ''set_processing'',
     ''set_level_calibration'', ''set_extras'', ''set_av_sync'']"

definition buildMutation :: "string \<Rightarrow> jsval \<Rightarrow> string + jsval" where
  "buildMutation kind args =
     (if kind \<notin> set MUTATION_KINDS then Inl (''Unknown mutation kind: '' @ kind)
      else Inr (spread (JObj [(''kind'', JStr kind)]) (js_or args (JObj []))))"

subsection \<open>Responses\<close>

text \<open>A failed request with its message, or a status with the body; a body that is no JSON is \<open>{}\<close>.\<close>

datatype server_response = NoAnswer string | Answer nat jsval

definition status_ok :: "nat \<Rightarrow> bool" where
  "status_ok status = (200 \<le> status \<and> status \<le> 299)"

text \<open>\<open>Number.isInteger(v) && v >= 0\<close>.\<close>

definition is_revision :: "jsval \<Rightarrow> bool" where
  "is_revision v = (case v of JNum n \<Rightarrow> is_integer n \<and> \<not> n < Fin 0 | _ \<Rightarrow> False)"

definition catalog_complete :: "jsval \<Rightarrow> bool" where
  "catalog_complete data =
     (is_revision (jget data ''revision'')
      \<and> (case jget data ''active_mode'' of JStr m \<Rightarrow> m \<in> set OUTPUT_MODES | _ \<Rightarrow> False)
      \<and> is_obj (config_of data))"

definition fetchCatalog :: "server_response \<Rightarrow> string + jsval" where
  "fetchCatalog resp =
     (case resp of
        NoAnswer m \<Rightarrow> Inl m
      | Answer status data \<Rightarrow>
          if \<not> status_ok status
          then Inl (to_str (js_or (js_and data (jget data ''detail'')) (JStr ''Output state catalog failed'')))
          else if \<not> catalog_complete data then Inl ''Output state catalog is incomplete''
          else Inr data)"

definition conflict_message :: "jsval \<Rightarrow> string \<Rightarrow> string" where
  "conflict_message data fallback = to_str (js_or (jpath data [''detail'', ''message'']) (JStr fallback))"

definition apply_error :: "nat \<Rightarrow> jsval \<Rightarrow> string" where
  "apply_error status data =
     (case js_and data (jget data ''detail'') of
        JStr d \<Rightarrow> d
      | _ \<Rightarrow> ''Output state apply failed ('' @ nat_str status @ '')'')"

subsection \<open>State\<close>

record call_options =
  successMessage :: string
  quiet :: bool

datatype stage =
    Attempt jsval jsval call_options
  | ConflictRead jsval jsval call_options
  | Retry jsval jsval call_options
  | Refetch jsval call_options

datatype notice = Toast string string | MutationError string

record apply_request =
  sentBy :: nat
  sentRevision :: jsval
  sentMutation :: jsval

record out_ctl =
  catalog :: jsval
  busy :: bool
  expert :: bool
  next_id :: nat
  reads :: "nat list"
  calls :: "(nat \<times> stage) list"
  sent :: "apply_request list"
  notices :: "notice list"

definition init_ctl :: "bool \<Rightarrow> out_ctl" where
  "init_ctl stored_expert = \<lparr>catalog = JNull, busy = False, expert = stored_expert, next_id = 0,
     reads = [], calls = [], sent = [], notices = []\<rparr>"

definition viewOf :: "jsval \<Rightarrow> out_ctl \<Rightarrow> jsval" where
  "viewOf cat s = viewCatalog cat (expert s)"

definition acceptCatalog :: "jsval \<Rightarrow> out_ctl \<Rightarrow> out_ctl" where
  "acceptCatalog cat s =
     (if \<not> truthy (catalog s)
         \<or> to_num (jget (catalog s) ''revision'') \<le> to_num (jget cat ''revision'')
      then s\<lparr>catalog := viewOf cat s\<rparr> else s)"

definition acceptRead :: "server_response \<Rightarrow> out_ctl \<Rightarrow> out_ctl" where
  "acceptRead resp s = (case fetchCatalog resp of Inl m \<Rightarrow> s | Inr cat \<Rightarrow> acceptCatalog cat s)"

subsection \<open>Reading the catalog\<close>

definition fetchOutputSystemCatalog :: "bool \<Rightarrow> out_ctl \<Rightarrow> out_ctl" where
  "fetchOutputSystemCatalog force s =
     (if truthy (catalog s) \<and> \<not> force then s
      else s\<lparr>reads := next_id s # reads s, next_id := next_id s + 1\<rparr>)"

definition read_settled :: "nat \<Rightarrow> server_response \<Rightarrow> out_ctl \<Rightarrow> out_ctl" where
  "read_settled i resp s =
     (if i \<notin> set (reads s) then s else acceptRead resp (s\<lparr>reads := remove1 i (reads s)\<rparr>))"

text \<open>The switch of static/output_bank_ui.js.\<close>

definition setExpertView :: "bool \<Rightarrow> out_ctl \<Rightarrow> out_ctl" where
  "setExpertView e s =
     (if expert s = e then s else fetchOutputSystemCatalog True (s\<lparr>expert := e\<rparr>))"

subsection \<open>Mutations\<close>

definition is_measured :: "jsval \<Rightarrow> bool" where
  "is_measured mutation = (jget mutation ''kind'' = JStr ''set_level_calibration'')"

definition notify :: "notice \<Rightarrow> out_ctl \<Rightarrow> out_ctl" where
  "notify n s = s\<lparr>notices := n # notices s\<rparr>"

text \<open>The \<open>finally\<close> block, and the \<open>catch\<close> block before it.\<close>

definition finish_call :: "nat \<Rightarrow> out_ctl \<Rightarrow> out_ctl" where
  "finish_call i s = s\<lparr>busy := False, calls := filter (\<lambda>c. fst c \<noteq> i) (calls s)\<rparr>"

definition fail_call :: "nat \<Rightarrow> string \<Rightarrow> out_ctl \<Rightarrow> out_ctl" where
  "fail_call i m s =
     (let message = (if m = [] then ''Output system update failed'' else m)
      in finish_call i (notify (Toast ''error'' message) (notify (MutationError (esc (JStr message))) s)))"

definition await_stage :: "nat \<Rightarrow> stage \<Rightarrow> out_ctl \<Rightarrow> out_ctl" where
  "await_stage i g s = s\<lparr>calls := (i, g) # filter (\<lambda>c. fst c \<noteq> i) (calls s)\<rparr>"

definition send_apply :: "nat \<Rightarrow> jsval \<Rightarrow> jsval \<Rightarrow> out_ctl \<Rightarrow> out_ctl" where
  "send_apply i revision mutation s =
     s\<lparr>sent := \<lparr>sentBy = i, sentRevision = revision, sentMutation = mutation\<rparr> # sent s\<rparr>"

text \<open>\<open>applyMutation\<close> up to its first request.\<close>

definition start_apply :: "nat \<Rightarrow> jsval \<Rightarrow> call_options \<Rightarrow> out_ctl \<Rightarrow> out_ctl" where
  "start_apply i mutation opts s =
     (if is_measured mutation \<and> \<not> is_revision (jget mutation ''state_revision'')
      then fail_call i ''Level Matching requires its original revision; measure again'' s
      else await_stage i (Attempt mutation (catalog s) opts)
             (send_apply i (if is_measured mutation then jget mutation ''state_revision''
                            else jget (catalog s) ''revision'') mutation s))"

definition applyOutputSystemMutation :: "string \<Rightarrow> jsval \<Rightarrow> call_options \<Rightarrow> out_ctl \<Rightarrow> out_ctl" where
  "applyOutputSystemMutation kind args opts s =
     (if \<not> truthy (catalog s) \<or> busy s then s
      else
        (let i = next_id s; s' = s\<lparr>busy := True, next_id := next_id s + 1\<rparr>
         in case buildMutation kind args of
              Inl m \<Rightarrow> fail_call i m s'
            | Inr mutation \<Rightarrow> start_apply i mutation opts s'))"

text \<open>\<open>acceptCatalog(catalog)\<close> after the apply, and the refetch it is followed by.\<close>

definition applied :: "nat \<Rightarrow> jsval \<Rightarrow> jsval \<Rightarrow> call_options \<Rightarrow> out_ctl \<Rightarrow> out_ctl" where
  "applied i data cat opts s = await_stage i (Refetch data opts) (acceptCatalog cat s)"

definition live_note :: "jsval \<Rightarrow> call_options \<Rightarrow> out_ctl \<Rightarrow> out_ctl" where
  "live_note data opts s =
     (if \<not> quiet opts \<and> truthy data \<and> jget data ''live_applied'' = JBool False
         \<and> truthy (jget data ''live_reason'') \<and> jget data ''live_reason'' \<noteq> JStr ''nothing-to-apply''
      then notify (Toast ''info'' (''Saved (revision '' @ to_str (jget data ''revision'') @ ''); live apply: ''
                    @ to_str (jget data ''live_reason''))) s
      else s)"

definition attempt_settled :: "nat \<Rightarrow> jsval \<Rightarrow> jsval \<Rightarrow> call_options \<Rightarrow> server_response \<Rightarrow> out_ctl \<Rightarrow> out_ctl" where
  "attempt_settled i mutation snapshot opts resp s =
     (case resp of
        NoAnswer m \<Rightarrow> fail_call i m s
      | Answer status data \<Rightarrow>
          if status_ok status then applied i data snapshot opts s
          else if status = 409 then await_stage i (ConflictRead mutation data opts) s
          else fail_call i (apply_error status data) s)"

definition conflict_read_settled :: "nat \<Rightarrow> jsval \<Rightarrow> jsval \<Rightarrow> call_options \<Rightarrow> server_response \<Rightarrow> out_ctl \<Rightarrow> out_ctl" where
  "conflict_read_settled i mutation data opts resp s =
     (case fetchCatalog resp of
        Inl m \<Rightarrow> fail_call i m s
      | Inr cat \<Rightarrow>
          (let s' = acceptCatalog cat s; fresh = catalog s'
           in if is_measured mutation \<or> \<not> truthy fresh
              then fail_call i (conflict_message data ''Output state changed; refreshed'') s'
              else await_stage i (Retry mutation fresh opts)
                     (send_apply i (jget fresh ''revision'') mutation s')))"

definition retry_settled :: "nat \<Rightarrow> jsval \<Rightarrow> call_options \<Rightarrow> server_response \<Rightarrow> out_ctl \<Rightarrow> out_ctl" where
  "retry_settled i fresh opts resp s =
     (case resp of
        NoAnswer m \<Rightarrow> fail_call i m s
      | Answer status data \<Rightarrow>
          if status_ok status then applied i data fresh opts s
          else fail_call i (conflict_message data ''Output state apply failed'') s)"

definition refetch_settled :: "nat \<Rightarrow> jsval \<Rightarrow> call_options \<Rightarrow> server_response \<Rightarrow> out_ctl \<Rightarrow> out_ctl" where
  "refetch_settled i data opts resp s =
     (let s1 = acceptRead resp s;
          s2 = (if successMessage opts = [] then s1 else notify (Toast ''success'' (successMessage opts)) s1)
      in finish_call i (live_note data opts s2))"

definition call_settled :: "nat \<Rightarrow> server_response \<Rightarrow> out_ctl \<Rightarrow> out_ctl" where
  "call_settled i resp s =
     (case map_of (calls s) i of
        None \<Rightarrow> s
      | Some (Attempt mutation snapshot opts) \<Rightarrow> attempt_settled i mutation snapshot opts resp s
      | Some (ConflictRead mutation data opts) \<Rightarrow> conflict_read_settled i mutation data opts resp s
      | Some (Retry mutation fresh opts) \<Rightarrow> retry_settled i fresh opts resp s
      | Some (Refetch data opts) \<Rightarrow> refetch_settled i data opts resp s)"

subsection \<open>Steps\<close>

datatype out_event =
    ReadCatalog bool
  | ReadSettled nat server_response
  | SetExpert bool
  | Mutate string jsval call_options
  | CallSettled nat server_response

fun out_step :: "out_event \<Rightarrow> out_ctl \<Rightarrow> out_ctl" where
  "out_step (ReadCatalog force) s = fetchOutputSystemCatalog force s"
| "out_step (ReadSettled i resp) s = read_settled i resp s"
| "out_step (SetExpert e) s = setExpertView e s"
| "out_step (Mutate kind args opts) s = applyOutputSystemMutation kind args opts s"
| "out_step (CallSettled i resp) s = call_settled i resp s"

end
