(* ===== verification/Output_Control_Props.thy ===== *)
theory Output_Control_Props
  imports Output_Control
begin

section \<open>Invariants of the output system controller\<close>

text \<open>
  The invariant of the reachable controller states, one lemma per handler: the stored catalog has
  a revision, the busy flag is set exactly while the one mutation call is in flight, and the apply
  requests of a call are those its stage allows.
\<close>

subsection \<open>Revisions\<close>

definition rev_of :: "jsval \<Rightarrow> jsnum" where
  "rev_of cat = to_num (jget cat ''revision'')"

definition catalog_ok :: "jsval \<Rightarrow> bool" where
  "catalog_ok cat = (truthy cat \<and> is_revision (jget cat ''revision''))"

lemma is_revision_iff: "is_revision v \<longleftrightarrow> (\<exists>r. v = JNum (Fin r) \<and> of_int \<lfloor>r\<rfloor> = r \<and> 0 \<le> r)"
proof (cases v)
  case (JNum n)
  then show ?thesis by (cases n) (auto simp: is_revision_def)
qed (simp_all add: is_revision_def)

lemma catalog_ok_rev: "catalog_ok cat \<Longrightarrow> \<exists>r. jget cat ''revision'' = JNum (Fin r) \<and> rev_of cat = Fin r"
  by (auto simp: catalog_ok_def is_revision_iff rev_of_def)

lemma rev_le_refl [simp]: "catalog_ok a \<Longrightarrow> rev_of a \<le> rev_of a"
  by (auto dest!: catalog_ok_rev)

lemma rev_le_trans:
  "catalog_ok a \<Longrightarrow> catalog_ok b \<Longrightarrow> catalog_ok c \<Longrightarrow> rev_of a \<le> rev_of b \<Longrightarrow> rev_of b \<le> rev_of c
   \<Longrightarrow> rev_of a \<le> rev_of c"
  by (auto dest!: catalog_ok_rev)

lemma rev_le_total:
  "catalog_ok a \<Longrightarrow> catalog_ok b \<Longrightarrow> \<not> rev_of a \<le> rev_of b \<Longrightarrow> rev_of b \<le> rev_of a"
  by (auto dest!: catalog_ok_rev)

declare less_eq_jsnum_def [simp del]

lemma rev_of_view [simp]: "rev_of (viewCatalog cat e) = rev_of cat"
  by (simp add: rev_of_def viewCatalog_def)

lemma catalog_ok_view [simp]: "catalog_ok (viewCatalog cat e) = catalog_ok cat"
  by (cases cat) (auto simp: catalog_ok_def viewCatalog_def)

lemma catalog_ok_truthy [simp]: "catalog_ok cat \<Longrightarrow> truthy cat"
  by (simp add: catalog_ok_def)

lemma fetched_ok: "fetchCatalog resp = Inr cat \<Longrightarrow> catalog_ok cat"
  by (cases cat) (auto simp: fetchCatalog_def catalog_complete_def catalog_ok_def is_revision_iff
      split: server_response.splits if_splits)

text \<open>A state in which a catalog, if there is one, has a revision.\<close>

definition stored_ok :: "out_ctl \<Rightarrow> bool" where
  "stored_ok s = (truthy (catalog s) \<longrightarrow> catalog_ok (catalog s))"

text \<open>The stored catalog of the second state is at least as new.\<close>

definition not_older :: "out_ctl \<Rightarrow> out_ctl \<Rightarrow> bool" where
  "not_older s t = (truthy (catalog s) \<longrightarrow> truthy (catalog t) \<and> rev_of (catalog s) \<le> rev_of (catalog t))"

lemma not_older_refl [simp]: "stored_ok s \<Longrightarrow> not_older s s"
  by (auto simp: not_older_def stored_ok_def)

lemma not_older_same: "stored_ok s \<Longrightarrow> catalog t = catalog s \<Longrightarrow> not_older s t"
  by (auto simp: not_older_def stored_ok_def)

lemma acceptCatalog_facts:
  assumes "stored_ok s" "catalog_ok cat"
  shows "catalog_ok (catalog (acceptCatalog cat s))" "rev_of cat \<le> rev_of (catalog (acceptCatalog cat s))"
    and "not_older s (acceptCatalog cat s)" "stored_ok (acceptCatalog cat s)"
  using assms rev_le_total [of "catalog s" cat]
  by (auto simp: acceptCatalog_def viewOf_def not_older_def stored_ok_def rev_of_def [symmetric])

lemma acceptRead_facts:
  assumes "stored_ok s"
  shows "not_older s (acceptRead resp s)" "stored_ok (acceptRead resp s)"
  using assms acceptCatalog_facts [OF assms fetched_ok]
  by (auto simp: acceptRead_def split: sum.split)

lemma acceptCatalog_other [simp]:
  "busy (acceptCatalog cat s) = busy s" "calls (acceptCatalog cat s) = calls s"
  "next_id (acceptCatalog cat s) = next_id s" "sent (acceptCatalog cat s) = sent s"
  "reads (acceptCatalog cat s) = reads s" "expert (acceptCatalog cat s) = expert s"
  by (simp_all add: acceptCatalog_def)

lemma acceptRead_other [simp]:
  "busy (acceptRead resp s) = busy s" "calls (acceptRead resp s) = calls s"
  "next_id (acceptRead resp s) = next_id s" "sent (acceptRead resp s) = sent s"
  "reads (acceptRead resp s) = reads s" "expert (acceptRead resp s) = expert s"
  by (simp_all add: acceptRead_def split: sum.split)

lemma call_ops [simp]:
  "catalog (await_stage i g s) = catalog s" "catalog (send_apply i r m s) = catalog s"
  "catalog (fail_call i e s) = catalog s" "catalog (finish_call i s) = catalog s"
  "catalog (notify n s) = catalog s" "catalog (live_note data opts s) = catalog s"
  "next_id (await_stage i g s) = next_id s" "next_id (send_apply i r m s) = next_id s"
  "next_id (fail_call i e s) = next_id s" "next_id (finish_call i s) = next_id s"
  "next_id (notify n s) = next_id s" "next_id (live_note data opts s) = next_id s"
  "busy (await_stage i g s) = busy s" "busy (send_apply i r m s) = busy s"
  "busy (fail_call i e s) = False" "busy (finish_call i s) = False"
  "busy (notify n s) = busy s" "busy (live_note data opts s) = busy s"
  "sent (await_stage i g s) = sent s" "sent (fail_call i e s) = sent s" "sent (finish_call i s) = sent s"
  "sent (notify n s) = sent s" "sent (live_note data opts s) = sent s"
  "sent (send_apply i r m s) = \<lparr>sentBy = i, sentRevision = r, sentMutation = m\<rparr> # sent s"
  "calls (send_apply i r m s) = calls s" "calls (notify n s) = calls s" "calls (live_note data opts s) = calls s"
  "calls (await_stage i g s) = (i, g) # filter (\<lambda>c. fst c \<noteq> i) (calls s)"
  "calls (fail_call i e s) = filter (\<lambda>c. fst c \<noteq> i) (calls s)"
  "calls (finish_call i s) = filter (\<lambda>c. fst c \<noteq> i) (calls s)"
  by (simp_all add: await_stage_def send_apply_def fail_call_def finish_call_def notify_def live_note_def Let_def)

subsection \<open>Apply requests\<close>

definition sent_by :: "nat \<Rightarrow> out_ctl \<Rightarrow> apply_request list" where
  "sent_by i s = filter (\<lambda>r. sentBy r = i) (sent s)"

text \<open>The first request of a call: a level calibration carries its own revision.\<close>

definition opens_call :: "apply_request \<Rightarrow> bool" where
  "opens_call r =
     (is_revision (sentRevision r)
      \<and> (is_measured (sentMutation r) \<longrightarrow> sentRevision r = jget (sentMutation r) ''state_revision''))"

text \<open>The second request of a call, after the first: the same mutation against a revision that is
  not older, and never a level calibration.\<close>

definition second_try :: "apply_request \<Rightarrow> apply_request \<Rightarrow> bool" where
  "second_try r1 r2 =
     (\<not> is_measured (sentMutation r1) \<and> sentMutation r2 = sentMutation r1
      \<and> is_revision (sentRevision r2) \<and> to_num (sentRevision r1) \<le> to_num (sentRevision r2))"

definition disciplined :: "apply_request list \<Rightarrow> bool" where
  "disciplined rs =
     (rs = [] \<or> (\<exists>r. rs = [r] \<and> opens_call r) \<or> (\<exists>r1 r2. rs = [r2, r1] \<and> opens_call r1 \<and> second_try r1 r2))"

text \<open>What a call in a stage has sent, given the stored catalog.\<close>

fun stage_ok :: "jsval \<Rightarrow> stage \<Rightarrow> apply_request list \<Rightarrow> bool" where
  "stage_ok cat (Attempt mutation snapshot opts) rs =
     (catalog_ok snapshot \<and> (\<exists>r. rs = [r] \<and> opens_call r \<and> sentMutation r = mutation
        \<and> (\<not> is_measured mutation \<longrightarrow> to_num (sentRevision r) \<le> rev_of cat)))"
| "stage_ok cat (ConflictRead mutation data opts) rs =
     (\<exists>r. rs = [r] \<and> opens_call r \<and> sentMutation r = mutation
        \<and> (\<not> is_measured mutation \<longrightarrow> to_num (sentRevision r) \<le> rev_of cat))"
| "stage_ok cat (Retry mutation fresh opts) rs = (catalog_ok fresh \<and> disciplined rs)"
| "stage_ok cat (Refetch data opts) rs = disciplined rs"

definition ctl_inv :: "out_ctl \<Rightarrow> bool" where
  "ctl_inv s =
     (stored_ok s \<and> busy s = (calls s \<noteq> [])
      \<and> (calls s = [] \<or> (\<exists>i g. calls s = [(i, g)] \<and> i < next_id s \<and> catalog_ok (catalog s)
                              \<and> stage_ok (catalog s) g (sent_by i s)))
      \<and> (\<forall>r \<in> set (sent s). sentBy r < next_id s) \<and> (\<forall>i. disciplined (sent_by i s)))"

lemma opens_call_fin: "opens_call r \<Longrightarrow> \<exists>q. sentRevision r = JNum (Fin q) \<and> to_num (sentRevision r) = Fin q"
  by (auto simp: opens_call_def is_revision_iff)

lemma below_newer:
  "opens_call r \<Longrightarrow> catalog_ok a \<Longrightarrow> catalog_ok b \<Longrightarrow> to_num (sentRevision r) \<le> rev_of a \<Longrightarrow> rev_of a \<le> rev_of b
   \<Longrightarrow> to_num (sentRevision r) \<le> rev_of b"
  by (auto dest!: catalog_ok_rev opens_call_fin simp: less_eq_jsnum_def)

lemma stage_ok_newer:
  assumes "stage_ok a g rs" "catalog_ok a" "catalog_ok b" "rev_of a \<le> rev_of b"
  shows "stage_ok b g rs"
  using assms below_newer [OF _ assms(2-3) _ assms(4)] by (cases g) auto

lemma disciplined_single: "opens_call r \<Longrightarrow> disciplined [r]"
  by (simp add: disciplined_def)

lemma stage_disciplined: "stage_ok cat g rs \<Longrightarrow> disciplined rs"
  by (cases g) (auto intro: disciplined_single)

lemma sent_by_ops [simp]:
  "sent_by i (acceptCatalog cat s) = sent_by i s" "sent_by i (acceptRead resp s) = sent_by i s"
  "sent_by i (await_stage j g s) = sent_by i s" "sent_by i (fail_call j e s) = sent_by i s"
  "sent_by i (finish_call j s) = sent_by i s" "sent_by i (notify n s) = sent_by i s"
  "sent_by i (live_note data opts s) = sent_by i s"
  "sent_by i (send_apply j r m s) =
     (if i = j then \<lparr>sentBy = j, sentRevision = r, sentMutation = m\<rparr> # sent_by i s else sent_by i s)"
  by (simp_all add: sent_by_def)

lemma sent_by_updates [simp]:
  "sent_by i (s\<lparr>busy := b\<rparr>) = sent_by i s" "sent_by i (s\<lparr>next_id := n\<rparr>) = sent_by i s"
  "sent_by i (s\<lparr>reads := rs\<rparr>) = sent_by i s" "sent_by i (s\<lparr>expert := e\<rparr>) = sent_by i s"
  by (simp_all add: sent_by_def)

lemma inv_irrelevant [simp]:
  "ctl_inv (s\<lparr>reads := rs\<rparr>) = ctl_inv s" "ctl_inv (s\<lparr>expert := e\<rparr>) = ctl_inv s"
  by (simp_all add: ctl_inv_def stored_ok_def)

lemma inv_init: "ctl_inv (init_ctl e)"
  by (simp add: ctl_inv_def init_ctl_def stored_ok_def sent_by_def disciplined_def)

text \<open>A catalog read changes the catalog only, and only to a newer one.\<close>

lemma inv_newer_catalog:
  assumes "ctl_inv s" "stored_ok t" "not_older s t"
    and "calls t = calls s" "busy t = busy s" "sent t = sent s" "next_id s \<le> next_id t"
  shows "ctl_inv t"
proof -
  have sb: "sent_by i t = sent_by i s" for i
    using assms(6) by (simp add: sent_by_def)
  have "catalog_ok (catalog t) \<and> stage_ok (catalog t) g rs"
    if "catalog_ok (catalog s)" "stage_ok (catalog s) g rs" for g rs
    using that assms(2,3) stage_ok_newer [of "catalog s" g rs "catalog t"]
    by (auto simp: stored_ok_def not_older_def)
  then show ?thesis
    using assms by (auto simp: ctl_inv_def sb intro: less_le_trans)
qed

lemma inv_acceptRead: "ctl_inv s \<Longrightarrow> ctl_inv (acceptRead resp s)"
  by (rule inv_newer_catalog) (auto simp: ctl_inv_def acceptRead_facts)

lemma inv_fail: "ctl_inv s \<Longrightarrow> calls s = [(i, g)] \<Longrightarrow> ctl_inv (fail_call i m s)"
  by (simp add: ctl_inv_def stored_ok_def)

subsection \<open>Every handler keeps the invariant\<close>

lemma inv_await:
  "ctl_inv s \<Longrightarrow> calls s = [(i, g0)] \<Longrightarrow> stage_ok (catalog s) g (sent_by i s) \<Longrightarrow> ctl_inv (await_stage i g s)"
  by (simp add: ctl_inv_def stored_ok_def)

lemma inv_next_id: "ctl_inv s \<Longrightarrow> ctl_inv (s\<lparr>next_id := Suc (next_id s)\<rparr>)"
  by (auto simp: ctl_inv_def stored_ok_def less_Suc_eq)

lemma inv_read: "ctl_inv s \<Longrightarrow> ctl_inv (fetchOutputSystemCatalog force s)"
  using inv_next_id [of "s\<lparr>reads := next_id s # reads s\<rparr>"]
  by (simp add: fetchOutputSystemCatalog_def)

lemma inv_read_settled: "ctl_inv s \<Longrightarrow> ctl_inv (read_settled i resp s)"
  by (simp add: read_settled_def inv_acceptRead)

lemma inv_setExpert: "ctl_inv s \<Longrightarrow> ctl_inv (setExpertView e s)"
  by (simp add: setExpertView_def inv_read)

lemma sent_by_fresh: "ctl_inv s \<Longrightarrow> sent_by (next_id s) s = []"
  by (auto simp: ctl_inv_def sent_by_def filter_empty_conv)

lemma inv_idle: "ctl_inv s \<Longrightarrow> \<not> busy s \<Longrightarrow> calls s = []"
  by (auto simp: ctl_inv_def)

lemma inv_send_first:
  assumes s: "ctl_inv s" "truthy (catalog s)" "\<not> busy s"
    and v: "is_revision v" "is_measured m \<Longrightarrow> v = jget m ''state_revision''"
      "\<not> is_measured m \<Longrightarrow> to_num v \<le> rev_of (catalog s)"
  shows "ctl_inv (await_stage (next_id s) (Attempt m (catalog s) opts)
           (send_apply (next_id s) v m (s\<lparr>busy := True, next_id := Suc (next_id s)\<rparr>)))"
proof -
  let ?r = "\<lparr>sentBy = next_id s, sentRevision = v, sentMutation = m\<rparr>"
  let ?t = "await_stage (next_id s) (Attempt m (catalog s) opts)
           (send_apply (next_id s) v m (s\<lparr>busy := True, next_id := Suc (next_id s)\<rparr>))"
  have r: "opens_call ?r"
    using v by (simp add: opens_call_def)
  have ok: "catalog_ok (catalog s)" and old: "disciplined (sent_by i s)" for i
    using s(1,2) by (simp_all add: ctl_inv_def stored_ok_def)
  have mine: "sent_by (next_id s) ?t = [?r]" and others: "i \<noteq> next_id s \<Longrightarrow> sent_by i ?t = sent_by i s" for i
    using sent_by_fresh [OF s(1)] by simp_all
  have "disciplined (sent_by i ?t)" for i
    using old [of i] others [of i] mine disciplined_single [OF r] by (cases "i = next_id s") metis+
  moreover have "stage_ok (catalog ?t) (Attempt m (catalog s) opts) (sent_by (next_id s) ?t)"
    unfolding mine using r v(3) ok by simp
  moreover have "\<forall>r \<in> set (sent ?t). sentBy r < next_id ?t"
    using s(1) by (auto simp: ctl_inv_def)
  ultimately show ?thesis
    using ok inv_idle [OF s(1,3)] unfolding ctl_inv_def stored_ok_def by simp
qed

lemma inv_fail_first: "ctl_inv s \<Longrightarrow> \<not> busy s \<Longrightarrow>
    ctl_inv (fail_call (next_id s) m (s\<lparr>busy := True, next_id := Suc (next_id s)\<rparr>))"
  by (frule (1) inv_idle) (simp add: ctl_inv_def stored_ok_def less_SucI)

lemma inv_start_apply:
  assumes "ctl_inv s" "truthy (catalog s)" "\<not> busy s"
  shows "ctl_inv (start_apply (next_id s) mutation opts (s\<lparr>busy := True, next_id := Suc (next_id s)\<rparr>))"
proof -
  have "catalog_ok (catalog s)"
    using assms by (simp add: ctl_inv_def stored_ok_def)
  then have "is_revision (jget (catalog s) ''revision'')" "rev_of (catalog s) \<le> rev_of (catalog s)"
    "to_num (jget (catalog s) ''revision'') = rev_of (catalog s)"
    using rev_le_refl by (auto simp: catalog_ok_def) (simp add: rev_of_def)
  with assms show ?thesis
    by (auto simp: start_apply_def intro!: inv_send_first inv_fail_first)
qed

lemma inv_mutate: "ctl_inv s \<Longrightarrow> ctl_inv (applyOutputSystemMutation kind args opts s)"
  by (auto simp: applyOutputSystemMutation_def Let_def split: sum.split
      intro!: inv_start_apply [simplified] inv_fail_first [simplified])

lemma inv_applied:
  assumes "ctl_inv s" "calls s = [(i, g)]" "catalog_ok cat"
  shows "ctl_inv (applied i data cat opts s)"
proof -
  have so: "stored_ok s" using assms(1) by (simp add: ctl_inv_def)
  have "ctl_inv (acceptCatalog cat s)"
    by (rule inv_newer_catalog [OF assms(1)]) (simp_all add: acceptCatalog_facts [OF so assms(3)])
  then show ?thesis
    using assms(2) unfolding applied_def
    by (intro inv_await [of _ _ g]) (auto simp: ctl_inv_def)
qed

lemma inv_attempt_settled:
  assumes "ctl_inv s" "calls s = [(i, Attempt mutation snapshot opts)]"
  shows "ctl_inv (attempt_settled i mutation snapshot opts resp s)"
proof -
  have st: "stage_ok (catalog s) (Attempt mutation snapshot opts) (sent_by i s)"
    using assms by (auto simp: ctl_inv_def)
  then have "ctl_inv (await_stage i (ConflictRead mutation data opts) s)" for data
    by (intro inv_await [OF assms]) simp
  then show ?thesis
    using st assms by (auto simp: attempt_settled_def intro!: inv_applied inv_fail split: server_response.split)
qed

lemma inv_retry_settled:
  assumes "ctl_inv s" "calls s = [(i, Retry mutation fresh opts)]"
  shows "ctl_inv (retry_settled i fresh opts resp s)"
  using assms by (auto simp: retry_settled_def ctl_inv_def [of s] intro!: inv_applied inv_fail split: server_response.split)

lemma inv_refetch_settled:
  assumes "ctl_inv s" "calls s = [(i, Refetch data opts)]"
  shows "ctl_inv (refetch_settled i data opts resp s)"
proof -
  have "ctl_inv (acceptRead resp s)" by (rule inv_acceptRead [OF assms(1)])
  with assms(2) show ?thesis
    by (simp add: refetch_settled_def Let_def ctl_inv_def stored_ok_def)
qed

lemma inv_conflict_read_settled:
  assumes "ctl_inv s" "calls s = [(i, ConflictRead mutation data opts)]"
  shows "ctl_inv (conflict_read_settled i mutation data opts resp s)"
proof (cases "fetchCatalog resp")
  case (Inl m)
  then show ?thesis using inv_fail [OF assms] by (simp add: conflict_read_settled_def)
next
  case (Inr cat)
  define t where "t = acceptCatalog cat s"
  have "t = acceptRead resp s" by (simp add: t_def acceptRead_def Inr)
  then have t: "ctl_inv t" "calls t = [(i, ConflictRead mutation data opts)]"
    using assms inv_acceptRead by simp_all
  then have ok: "catalog_ok (catalog t)" and st: "stage_ok (catalog t) (ConflictRead mutation data opts) (sent_by i t)"
    by (auto simp: ctl_inv_def)
  show ?thesis
  proof (cases "is_measured mutation")
    case True
    then show ?thesis
      using inv_fail [OF t] ok by (simp add: conflict_read_settled_def Inr t_def [symmetric] Let_def)
  next
    case False
    obtain r1 where r1: "sent_by i t = [r1]" "opens_call r1" "sentMutation r1 = mutation"
      "to_num (sentRevision r1) \<le> rev_of (catalog t)"
      using st False by auto
    let ?r2 = "\<lparr>sentBy = i, sentRevision = jget (catalog t) ''revision'', sentMutation = mutation\<rparr>"
    have "second_try r1 ?r2"
      using False r1 ok by (simp add: second_try_def catalog_ok_def rev_of_def)
    with r1 have "disciplined [?r2, r1]" by (simp add: disciplined_def)
    with t ok r1 False show ?thesis
      by (auto simp: conflict_read_settled_def Inr t_def [symmetric] Let_def ctl_inv_def stored_ok_def)
  qed
qed

lemma one_call: "ctl_inv s \<Longrightarrow> map_of (calls s) i = Some g \<Longrightarrow> calls s = [(i, g)]"
  by (auto simp: ctl_inv_def split: if_splits)

lemma inv_call_settled: "ctl_inv s \<Longrightarrow> ctl_inv (call_settled i resp s)"
  by (auto simp: call_settled_def dest: one_call split: option.split stage.split
      intro!: inv_attempt_settled inv_conflict_read_settled inv_retry_settled inv_refetch_settled)

lemma inv_out_step: "ctl_inv s \<Longrightarrow> ctl_inv (out_step e s)"
  by (cases e) (simp_all add: inv_read inv_read_settled inv_setExpert inv_mutate inv_call_settled)

definition out_start :: "out_ctl \<Rightarrow> bool" where
  "out_start s = (\<exists>e. s = init_ctl e)"

definition out_rel :: "out_ctl \<Rightarrow> out_ctl \<Rightarrow> bool" where
  "out_rel s t = (\<exists>e. t = out_step e s)"

interpretation controller: inductive_invariant out_start out_rel ctl_inv
  by unfold_locales (auto simp: out_start_def out_rel_def inv_init inv_out_step)

lemmas out_reachable_inv = controller.always

end
