(* ===== verification/Output_Control_Claims.thy ===== *)
theory Output_Control_Claims
  imports Output_Control_Props
begin

section \<open>Properties of the output system controller\<close>

text \<open>
  What the panels that share the controller rely on: the stored catalog never goes back, the busy
  flag is one mutation call that always ends, every apply request carries the revision it was
  decided on, and a call that was not applied is reported.
\<close>

subsection \<open>The stored catalog\<close>

lemma not_older_trans:
  "stored_ok s \<Longrightarrow> stored_ok t \<Longrightarrow> stored_ok u \<Longrightarrow> not_older s t \<Longrightarrow> not_older t u \<Longrightarrow> not_older s u"
  using rev_le_trans [of "catalog s" "catalog t" "catalog u"]
  by (auto simp: not_older_def stored_ok_def)

lemma inv_stored [simp]: "ctl_inv s \<Longrightarrow> stored_ok s"
  by (simp add: ctl_inv_def)

lemma stage_catalog_ok:
  "ctl_inv s \<Longrightarrow> map_of (calls s) i = Some (Attempt m snap opts) \<Longrightarrow> catalog_ok snap"
  "ctl_inv s \<Longrightarrow> map_of (calls s) i = Some (Retry m fresh opts) \<Longrightarrow> catalog_ok fresh"
  by (frule (1) one_call, auto simp: ctl_inv_def split: if_splits)+

lemma newer_call_settled:
  assumes "ctl_inv s"
  shows "not_older s (call_settled i resp s)"
proof -
  note so = inv_stored [OF assms]
  have accepted: "not_older s t" if "catalog t = catalog (acceptCatalog cat s)" "catalog_ok cat" for t cat
    using acceptCatalog_facts(3) [OF so that(2)] that(1) by (simp add: not_older_def)
  have read: "not_older s t" if "catalog t = catalog (acceptRead resp s)" for t
    using acceptRead_facts(1) [OF so] that by (simp add: not_older_def)
  show ?thesis
    using not_older_same [OF so] accepted read fetched_ok stage_catalog_ok [OF assms]
    by (auto simp: call_settled_def attempt_settled_def conflict_read_settled_def retry_settled_def
        refetch_settled_def applied_def Let_def split: option.split stage.split server_response.split sum.split)
qed

lemma newer_step: "ctl_inv s \<Longrightarrow> not_older s (out_step e s)"
proof (cases e)
  case (ReadSettled i resp)
  assume "ctl_inv s"
  then have "not_older (s\<lparr>reads := rs\<rparr>) (acceptRead resp (s\<lparr>reads := rs\<rparr>))" for rs
    by (intro acceptRead_facts) (simp add: stored_ok_def ctl_inv_def)
  with ReadSettled \<open>ctl_inv s\<close> show ?thesis
    by (simp add: read_settled_def not_older_def [of "s\<lparr>reads := _\<rparr>"]) (simp add: not_older_def)
qed (auto intro!: not_older_same newer_call_settled
    simp: fetchOutputSystemCatalog_def setExpertView_def applyOutputSystemMutation_def start_apply_def Let_def
    split: sum.split)

lemma newer_run: "ctl_inv s \<Longrightarrow> ctl_inv (run_events out_step es s) \<and> not_older s (run_events out_step es s)"
proof (induction es arbitrary: s)
  case Nil
  then show ?case by simp
next
  case (Cons e es)
  note step = inv_out_step [OF Cons.prems, of e]
  then show ?case
    using Cons.IH [OF step] Cons.prems newer_step [OF Cons.prems, of e]
      not_older_trans [of s "out_step e s" "run_events out_step es (out_step e s)"]
    by simp
qed

lemma reachable_run: "reachable out_start out_rel (run_events out_step es (init_ctl e))"
  by (rule reachable_run_events, auto simp: out_rel_def, rule reachable_start, auto simp: out_start_def)

text \<open>C25: The catalog the page shows never steps back: whatever reads and mutations are in flight
  and in whatever order their responses arrive, once a catalog is stored one always is, with a
  nonnegative integer revision that never decreases.\<close>

theorem catalog_never_steps_back:
  assumes "reachable out_start out_rel s" "truthy (catalog s)"
  shows "truthy (catalog (run_events out_step es s))
    \<and> is_revision (jget (catalog s) ''revision'')
    \<and> to_num (jget (catalog s) ''revision'') \<le> to_num (jget (catalog (run_events out_step es s)) ''revision'')"
proof -
  have inv: "ctl_inv s" using assms(1) by (rule out_reachable_inv)
  then have "is_revision (jget (catalog s) ''revision'')"
    using assms(2) by (simp add: ctl_inv_def stored_ok_def catalog_ok_def)
  with newer_run [OF inv, of es] assms(2) show ?thesis
    by (simp add: not_older_def rev_of_def)
qed

definition demo_catalog :: "rat \<Rightarrow> jsval" where
  "demo_catalog n = JObj [(''revision'', JNum (Fin n)), (''active_mode'', JStr ''stereo''),
     (''modes'', JObj [(''stereo'', JObj [(''selected_bank'', JStr ''global'')])])]"

definition demo_opts :: call_options where
  "demo_opts = \<lparr>successMessage = ''Saved'', quiet = False\<rparr>"

text \<open>Two reads whose responses arrive in the wrong order.\<close>

definition crossed_reads :: "out_event list" where
  "crossed_reads = [ReadCatalog True, ReadCatalog True, ReadSettled 1 (Answer 200 (demo_catalog 5))]"

lemmas out_eval = run_events_def init_ctl_def fetchOutputSystemCatalog_def read_settled_def acceptRead_def
  fetchCatalog_def status_ok_def catalog_complete_def is_revision_def config_of_def OUTPUT_MODES_def
  acceptCatalog_def viewOf_def less_eq_jsnum_def jget_JObj applyOutputSystemMutation_def buildMutation_def
  MUTATION_KINDS_def start_apply_def is_measured_def await_stage_def send_apply_def call_settled_def
  attempt_settled_def conflict_read_settled_def retry_settled_def refetch_settled_def applied_def
  finish_call_def fail_call_def notify_def live_note_def apply_error_def conflict_message_def
  demo_catalog_def demo_opts_def js_or_def Let_def

theorem catalog_never_steps_back_witness:
  "to_num (jget (catalog (run_events out_step crossed_reads (init_ctl True))) ''revision'') = Fin 5
   \<and> truthy (catalog (run_events out_step [ReadSettled 0 (Answer 200 (demo_catalog 4))]
       (run_events out_step crossed_reads (init_ctl True))))"
proof -
  have c: "catalog (run_events out_step crossed_reads (init_ctl True)) = demo_catalog 5"
    by (simp add: crossed_reads_def out_eval viewCatalog_def)
  then show ?thesis
    using catalog_never_steps_back [OF reachable_run [of crossed_reads True],
        of "[ReadSettled 0 (Answer 200 (demo_catalog 4))]"]
    by (simp add: demo_catalog_def jget_JObj)
qed

subsection \<open>The mutation in flight\<close>

text \<open>How many responses a call can still wait for.\<close>

fun stage_rank :: "stage \<Rightarrow> nat" where
  "stage_rank (Attempt mutation snapshot opts) = 4"
| "stage_rank (ConflictRead mutation data opts) = 3"
| "stage_rank (Retry mutation fresh opts) = 2"
| "stage_rank (Refetch data opts) = 1"

definition call_rank :: "nat \<Rightarrow> out_ctl \<Rightarrow> nat" where
  "call_rank i s = (case map_of (calls s) i of None \<Rightarrow> 0 | Some g \<Rightarrow> stage_rank g)"

lemma call_rank_0: "call_rank i s = 0 \<longleftrightarrow> i \<notin> fst ` set (calls s)"
proof (cases "map_of (calls s) i")
  case None
  then have "i \<notin> fst ` set (calls s)" by (simp only: map_of_eq_None_iff not_False_eq_True)
  with None show ?thesis by (simp add: call_rank_def)
next
  case (Some g)
  have "stage_rank g \<noteq> 0" by (cases g) simp_all
  moreover have "i \<in> fst ` set (calls s)"
    using map_of_SomeD [OF Some] by (rule image_eqI [rotated]) simp
  ultimately show ?thesis by (simp add: call_rank_def Some)
qed

lemma map_of_filter_other: "map_of (filter (\<lambda>c. fst c \<noteq> i) xs) j = (if j = i then None else map_of xs j)"
  by (induction xs) auto

lemma call_rank_ops [simp]:
  "call_rank j (acceptCatalog cat s) = call_rank j s" "call_rank j (acceptRead resp s) = call_rank j s"
  "call_rank j (send_apply i r m s) = call_rank j s" "call_rank j (notify n s) = call_rank j s"
  "call_rank j (live_note data opts s) = call_rank j s"
  "call_rank j (await_stage i g s) = (if j = i then stage_rank g else call_rank j s)"
  "call_rank j (fail_call i e s) = (if j = i then 0 else call_rank j s)"
  "call_rank j (finish_call i s) = (if j = i then 0 else call_rank j s)"
  by (auto simp: call_rank_def map_of_filter_other)

lemma rank_call_settled:
  "call_rank j (call_settled i resp s) \<le> (if j = i then call_rank j s - 1 else call_rank j s)"
  by (auto simp: call_settled_def attempt_settled_def conflict_read_settled_def retry_settled_def
      refetch_settled_def applied_def Let_def call_rank_def [of _ s]
      split: option.split stage.split server_response.split sum.split)

lemma rank_other_step:
  assumes "j < next_id s" "\<forall>i resp. e \<noteq> CallSettled i resp"
  shows "call_rank j (out_step e s) = call_rank j s"
proof (cases e)
  case (Mutate kind args opts)
  then show ?thesis
    using assms(1)
    by (auto simp: applyOutputSystemMutation_def start_apply_def Let_def split: sum.split)
       (simp_all add: call_rank_def)
qed (use assms(2) in \<open>auto simp: fetchOutputSystemCatalog_def read_settled_def setExpertView_def call_rank_def\<close>)

lemma next_id_mono: "next_id s \<le> next_id (out_step e s)"
  by (cases e)
     (auto simp: fetchOutputSystemCatalog_def read_settled_def setExpertView_def applyOutputSystemMutation_def
       start_apply_def call_settled_def attempt_settled_def conflict_read_settled_def retry_settled_def
       refetch_settled_def applied_def Let_def split: option.split stage.split server_response.split sum.split)

interpretation call_ids: token_guard next_id out_step
  by unfold_locales (rule next_id_mono)

definition settles :: "nat \<Rightarrow> out_event \<Rightarrow> bool" where
  "settles i e = (case e of CallSettled j resp \<Rightarrow> j = i | _ \<Rightarrow> False)"

lemma rank_step: "i < next_id s \<Longrightarrow> call_rank i (out_step e s) \<le> call_rank i s - (if settles i e then 1 else 0)"
proof (cases e)
  case (CallSettled j resp)
  then show ?thesis using rank_call_settled [of i j resp s] by (auto simp: settles_def split: if_splits)
qed (use rank_other_step [of i s e] in \<open>auto simp: settles_def\<close>)

lemma rank_run:
  "i < next_id s \<Longrightarrow> call_rank i (run_events out_step es s) \<le> call_rank i s - length (filter (settles i) es)"
proof (induction es arbitrary: s)
  case (Cons e es)
  then have "i < next_id (out_step e s)" using next_id_mono [of s e] by simp
  from Cons.IH [OF this] rank_step [OF Cons.prems, of e] show ?case
    by auto
qed simp

text \<open>C26: One mutation runs at a time and every mutation ends: in a reachable state the busy flag
  is set exactly while a call is in flight, there is at most one, and while it runs another mutation
  is refused without any effect. A call is over after at most four responses (the apply, the read
  after a conflict, the one retry and the final read), whatever they are and whatever happens in
  between, so the panels are never left disabled.\<close>

theorem every_mutation_ends:
  assumes "reachable out_start out_rel s"
  shows "busy s = (calls s \<noteq> []) \<and> length (calls s) \<le> 1
    \<and> (busy s \<longrightarrow> out_step (Mutate kind args opts) s = s)
    \<and> (i \<in> fst ` set (calls s) \<and> 4 \<le> length (filter (settles i) es)
        \<longrightarrow> i \<notin> fst ` set (calls (run_events out_step es s)))"
proof (intro conjI impI)
  have inv: "ctl_inv s" using assms by (rule out_reachable_inv)
  then show "busy s = (calls s \<noteq> [])" "length (calls s) \<le> 1"
    by (auto simp: ctl_inv_def)
  show "out_step (Mutate kind args opts) s = s" if "busy s"
    using that by (simp add: applyOutputSystemMutation_def)
  assume i: "i \<in> fst ` set (calls s) \<and> 4 \<le> length (filter (settles i) es)"
  then have "i < next_id s" using inv by (auto simp: ctl_inv_def)
  moreover have "call_rank i s \<le> 4"
  proof -
    have "stage_rank g \<le> 4" for g by (cases g) simp_all
    then show ?thesis by (simp add: call_rank_def split: option.split)
  qed
  ultimately have "call_rank i (run_events out_step es s) = 0"
    using rank_run [of i s es] i by simp
  then show "i \<notin> fst ` set (calls (run_events out_step es s))"
    by (simp add: call_rank_0)
qed

text \<open>A mutation that meets a conflict, reads the catalog and is retried.\<close>

definition conflicting_run :: "out_event list" where
  "conflicting_run = [ReadCatalog False, ReadSettled 0 (Answer 200 (demo_catalog 4)),
     Mutate ''switch_mode'' (JObj [(''mode'', JStr ''stereo'')]) demo_opts,
     CallSettled 1 (Answer 409 (JObj [])), CallSettled 1 (Answer 200 (demo_catalog 6))]"

definition switch_stereo :: jsval where
  "switch_stereo = JObj [(''kind'', JStr ''switch_mode''), (''mode'', JStr ''stereo'')]"

lemma conflicting_run_result:
  "run_events out_step conflicting_run (init_ctl True) =
     \<lparr>catalog = demo_catalog 6, busy = True, expert = True, next_id = 2, reads = [],
      calls = [(1, Retry switch_stereo (demo_catalog 6) demo_opts)],
      sent = [\<lparr>sentBy = 1, sentRevision = JNum (Fin 6), sentMutation = switch_stereo\<rparr>,
              \<lparr>sentBy = 1, sentRevision = JNum (Fin 4), sentMutation = switch_stereo\<rparr>],
      notices = []\<rparr>"
  by (simp add: conflicting_run_def out_eval viewCatalog_def switch_stereo_def spread_def assign_from_def esc_def)

theorem every_mutation_ends_witness:
  "busy (run_events out_step conflicting_run (init_ctl True))
   \<and> 1 \<notin> fst ` set (calls (run_events out_step
        (replicate 4 (CallSettled 1 (NoAnswer ''offline''))) (run_events out_step conflicting_run (init_ctl True))))"
  using every_mutation_ends [OF reachable_run [of conflicting_run True], of "[]" JNull demo_opts 1
      "replicate 4 (CallSettled 1 (NoAnswer ''offline''))"]
  by (simp add: conflicting_run_result settles_def)

subsection \<open>Apply requests\<close>

lemma sent_call_settled:
  assumes "ctl_inv s"
  shows "sent (call_settled i resp s) = sent s
    \<or> (\<exists>r. sent (call_settled i resp s) = r # sent s \<and> \<not> is_measured (sentMutation r)
         \<and> sentRevision r = jget (catalog (call_settled i resp s)) ''revision''
         \<and> (\<exists>m data opts. map_of (calls s) i = Some (ConflictRead m data opts)))"
  by (auto simp: call_settled_def attempt_settled_def conflict_read_settled_def retry_settled_def
      refetch_settled_def applied_def Let_def split: option.split stage.split server_response.split sum.split)

text \<open>C27: Apply requests carry the revision they were decided on: a step sends at most one, a level
  calibration with the revision it was measured at, every other mutation with the revision of the
  catalog stored when it is sent; and a call sends at most two, the second only for the same
  mutation, after a conflict and never for a level calibration, with a revision not older than the
  first.\<close>

theorem requests_carry_their_revision:
  assumes "reachable out_start out_rel s"
  shows "(sent (out_step e s) = sent s \<or> (\<exists>r. sent (out_step e s) = r # sent s
       \<and> sentRevision r = (if is_measured (sentMutation r) then jget (sentMutation r) ''state_revision''
                           else jget (catalog (out_step e s)) ''revision'')))
    \<and> (length (sent_by i s) \<le> 1
       \<or> (\<exists>r1 r2. sent_by i s = [r2, r1] \<and> sentMutation r2 = sentMutation r1
            \<and> \<not> is_measured (sentMutation r1)
            \<and> to_num (sentRevision r1) \<le> to_num (sentRevision r2)))"
proof (rule conjI)
  have inv: "ctl_inv s" using assms by (rule out_reachable_inv)
  then have "disciplined (sent_by i s)" by (simp add: ctl_inv_def)
  then show "length (sent_by i s) \<le> 1
       \<or> (\<exists>r1 r2. sent_by i s = [r2, r1] \<and> sentMutation r2 = sentMutation r1
            \<and> \<not> is_measured (sentMutation r1)
            \<and> to_num (sentRevision r1) \<le> to_num (sentRevision r2))"
    by (auto simp: disciplined_def second_try_def)
  show "sent (out_step e s) = sent s \<or> (\<exists>r. sent (out_step e s) = r # sent s
       \<and> sentRevision r = (if is_measured (sentMutation r) then jget (sentMutation r) ''state_revision''
                           else jget (catalog (out_step e s)) ''revision''))"
  proof (cases e)
    case (CallSettled j resp)
    then show ?thesis using sent_call_settled [OF inv, of j resp] by auto
  qed (auto simp: fetchOutputSystemCatalog_def read_settled_def setExpertView_def
      applyOutputSystemMutation_def start_apply_def Let_def split: sum.split)
qed

theorem requests_carry_their_revision_witness:
  "List.map sentRevision (sent_by 1 (run_events out_step conflicting_run (init_ctl True)))
     = [JNum (Fin 6), JNum (Fin 4)]
   \<and> \<not> is_measured switch_stereo"
proof -
  have s: "sent_by 1 (run_events out_step conflicting_run (init_ctl True))
      = sent (run_events out_step conflicting_run (init_ctl True))"
    by (simp add: sent_by_def conflicting_run_result)
  show ?thesis
    using requests_carry_their_revision [OF reachable_run [of conflicting_run True], of "ReadCatalog False" 1]
    unfolding s by (simp add: conflicting_run_result)
qed

subsection \<open>Failures\<close>

text \<open>The two messages of a failed call.\<close>

definition reported :: "string \<Rightarrow> notice list \<Rightarrow> notice list \<Rightarrow> bool" where
  "reported m old new = (m \<noteq> [] \<and> new = Toast ''error'' m # MutationError (esc (JStr m)) # old)"

lemma fail_reported: "\<exists>m. reported m (notices s) (notices (fail_call i e s))"
  by (simp add: reported_def fail_call_def Let_def finish_call_def notify_def)

lemma notices_ops [simp]:
  "notices (acceptCatalog cat s) = notices s" "notices (await_stage i g s) = notices s"
  "notices (send_apply i r m s) = notices s" "notices (acceptRead resp s) = notices s"
  by (simp_all add: acceptCatalog_def await_stage_def send_apply_def acceptRead_def split: sum.split)

text \<open>The server took the mutation of call \<open>i\<close>: among the events there is an answer to one of its apply requests with
  a status from 200 to 299, at a moment when the call waited for it.\<close>

definition took_mutation :: "bool \<Rightarrow> out_event list \<Rightarrow> nat \<Rightarrow> call_options \<Rightarrow> bool" where
  "took_mutation b es i opts = (\<exists>es1 st d es2 mutation cat. es = es1 @ CallSettled i (Answer st d) # es2 \<and> 200 \<le> st \<and> st \<le> 299
     \<and> map_of (calls (run_events out_step es1 (init_ctl b))) i \<in> {Some (Attempt mutation cat opts), Some (Retry mutation cat opts)})"

lemma took_before: "took_mutation b es i opts \<Longrightarrow> took_mutation b (es @ [e]) i opts"
  unfolding took_mutation_def by fastforce

lemma took_now:
  assumes "map_of (calls (run_events out_step es (init_ctl b))) i \<in> {Some (Attempt mutation cat opts), Some (Retry mutation cat opts)}"
    "200 \<le> st" "st \<le> 299"
  shows "took_mutation b (es @ [CallSettled i (Answer st d)]) i opts"
  unfolding took_mutation_def using assms by blast

lemma map_of_beside [simp]: "map_of (filter (\<lambda>c. fst c \<noteq> i) xs) j = (if j = i then None else map_of xs j)"
  by (induction xs) auto

lemma calls_ops [simp]:
  "map_of (calls (finish_call i s)) j = (if j = i then None else map_of (calls s) j)"
  "map_of (calls (fail_call i m s)) j = (if j = i then None else map_of (calls s) j)"
  "map_of (calls (await_stage i g s)) j = (if j = i then Some g else map_of (calls s) j)"
  "calls (send_apply i r mu s) = calls s" "calls (live_note d opts s) = calls s" "calls (notify n s) = calls s"
  by (simp_all add: finish_call_def fail_call_def await_stage_def send_apply_def live_note_def notify_def map_of_beside Let_def)

lemma becomes_final:
  assumes "map_of (calls (out_step e s)) i = Some (Refetch d opts)" "map_of (calls s) i \<noteq> Some (Refetch d opts)"
  shows "\<exists>st mutation cat. e = CallSettled i (Answer st d) \<and> 200 \<le> st \<and> st \<le> 299
    \<and> map_of (calls s) i \<in> {Some (Attempt mutation cat opts), Some (Retry mutation cat opts)}"
proof (cases e)
  case (CallSettled j resp)
  show ?thesis
  proof (cases "map_of (calls s) j")
    case (Some g)
    then show ?thesis using assms CallSettled
      by (cases g) (auto simp: call_settled_def attempt_settled_def conflict_read_settled_def retry_settled_def
          refetch_settled_def applied_def status_ok_def Let_def split: server_response.splits sum.splits if_splits)
  qed (use assms CallSettled in \<open>simp add: call_settled_def\<close>)
qed (use assms in \<open>auto simp: fetchOutputSystemCatalog_def read_settled_def setExpertView_def applyOutputSystemMutation_def
    start_apply_def Let_def split: if_splits sum.splits\<close>)

lemma becomes_shown:
  assumes "Toast ''success'' m \<in> set (notices (out_step e s))" "Toast ''success'' m \<notin> set (notices s)"
  shows "\<exists>i resp d opts. e = CallSettled i resp \<and> map_of (calls s) i = Some (Refetch d opts) \<and> successMessage opts = m"
proof (cases e)
  case (CallSettled j resp)
  have failed: "Toast ''success'' m \<in> set (notices (fail_call j x t)) \<longleftrightarrow> Toast ''success'' m \<in> set (notices t)" for x t
    by (simp add: fail_call_def finish_call_def notify_def Let_def)
  have final: "Toast ''success'' m \<in> set (notices (finish_call j (live_note d opts t))) \<longleftrightarrow> Toast ''success'' m \<in> set (notices t)" for d opts t
    by (simp add: live_note_def finish_call_def notify_def)
  show ?thesis
  proof (cases "map_of (calls s) j")
    case (Some g)
    then show ?thesis using assms CallSettled
      by (cases g) (auto simp: call_settled_def attempt_settled_def conflict_read_settled_def retry_settled_def
          refetch_settled_def applied_def failed final notify_def Let_def split: server_response.splits sum.splits if_splits)
  qed (use assms CallSettled in \<open>simp add: call_settled_def\<close>)
qed (use assms in \<open>auto simp: fetchOutputSystemCatalog_def read_settled_def setExpertView_def applyOutputSystemMutation_def
    start_apply_def fail_call_def finish_call_def notify_def Let_def split: if_splits sum.splits\<close>)

lemma success_is_earned:
  defines "run \<equiv> \<lambda>b es. run_events out_step es (init_ctl b)"
  shows "(map_of (calls (run b es)) i = Some (Refetch d opts) \<longrightarrow> took_mutation b es i opts)
    \<and> (Toast ''success'' m \<in> set (notices (run b es)) \<longrightarrow> (\<exists>j o'. took_mutation b es j o' \<and> successMessage o' = m))"
proof (induction es arbitrary: i d opts m rule: rev_induct)
  case Nil
  then show ?case by (simp add: run_def init_ctl_def)
next
  case (snoc e es)
  have step: "run b (es @ [e]) = out_step e (run b es)" by (simp add: run_def run_events_def)
  have final: "took_mutation b (es @ [e]) i opts" if "map_of (calls (run b (es @ [e]))) i = Some (Refetch d opts)" for i d opts
  proof (cases "map_of (calls (run b es)) i = Some (Refetch d opts)")
    case True
    then show ?thesis using snoc.IH took_before by blast
  next
    case False
    from becomes_final [OF that [unfolded step] False] show ?thesis
      using took_now [of es b i _ _ opts] unfolding run_def by blast
  qed
  have "\<exists>j o'. took_mutation b (es @ [e]) j o' \<and> successMessage o' = m"
    if "Toast ''success'' m \<in> set (notices (run b (es @ [e])))" for m
  proof (cases "Toast ''success'' m \<in> set (notices (run b es))")
    case True
    then show ?thesis using snoc.IH took_before by blast
  next
    case False
    from becomes_shown [OF that [unfolded step] False] show ?thesis using snoc.IH took_before by blast
  qed
  with final show ?case by blast
qed

text \<open>What the answer to an apply request does to its call.\<close>

lemma attempt_answered:
  assumes "map_of (calls s) i = Some (Attempt mutation cat opts)"
  shows "map_of (calls (call_settled i (Answer st d) s)) i
    = (if 200 \<le> st \<and> st \<le> 299 then Some (Refetch d opts) else if st = 409 then Some (ConflictRead mutation d opts) else None)"
  using assms by (auto simp: call_settled_def attempt_settled_def applied_def status_ok_def)

lemma retry_answered:
  assumes "map_of (calls s) i = Some (Retry mutation cat opts)"
  shows "map_of (calls (call_settled i (Answer st d) s)) i = (if 200 \<le> st \<and> st \<le> 299 then Some (Refetch d opts) else None)"
  using assms by (auto simp: call_settled_def retry_settled_def applied_def status_ok_def)

text \<open>C28: No failure is silent and no success is claimed that the server did not grant. An apply request is taken only
  when its answer has a status from 200 to 299; a first request refused with 409 is followed by a read, and any other
  answer ends the call. A response that does not end its call shows nothing; one that ends a call before its
  final read shows the error, with a nonempty text, as a message and escaped in the error line; and a mutation that is
  refused before it is sent is reported like a failed one. The final read of a taken mutation ends its call and
  shows its success message; and in every run from the start, whenever a success message was
  shown, the server had answered an apply request of a call with that message with a status from 200 to 299.\<close>

theorem failures_are_reported:
  assumes "s = run_events out_step es (init_ctl b)"
  shows "(map_of (calls s) i = Some (Attempt mutation cat opts) \<longrightarrow> map_of (calls (call_settled i (Answer st d) s)) i
       = (if 200 \<le> st \<and> st \<le> 299 then Some (Refetch d opts) else if st = 409 then Some (ConflictRead mutation d opts) else None))
    \<and> (map_of (calls s) i = Some (Retry mutation cat opts) \<longrightarrow> map_of (calls (call_settled i (Answer st d) s)) i
       = (if 200 \<le> st \<and> st \<le> 299 then Some (Refetch d opts) else None))
    \<and> (map_of (calls s) i = Some g \<and> stage_rank g \<noteq> 1 \<longrightarrow>
       (i \<in> fst ` set (calls (call_settled i resp s)) \<and> notices (call_settled i resp s) = notices s)
       \<or> (calls (call_settled i resp s) = [] \<and> (\<exists>m. reported m (notices s) (notices (call_settled i resp s)))))
    \<and> (truthy (catalog s) \<and> \<not> busy s \<longrightarrow>
       (let t = applyOutputSystemMutation kind args opts s
        in (calls t \<noteq> [] \<and> notices t = notices s) \<or> (\<exists>m. reported m (notices s) (notices t))))
    \<and> (map_of (calls s) i = Some (Refetch d opts) \<and> successMessage opts \<noteq> [] \<longrightarrow>
       calls (call_settled i resp s) = []
       \<and> Toast ''success'' (successMessage opts) \<in> set (notices (call_settled i resp s)))
    \<and> (\<forall>m. Toast ''success'' m \<in> set (notices s) \<longrightarrow> (\<exists>j o'. took_mutation b es j o' \<and> successMessage o' = m))"
proof (intro conjI impI allI; (elim conjE)?)
  have inv: "ctl_inv s" unfolding assms by (rule out_reachable_inv [OF reachable_run])
  {
    assume g: "map_of (calls s) i = Some g" "stage_rank g \<noteq> 1"
    note one = one_call [OF inv g(1)]
    have failed: "calls (fail_call i e t) = [] \<and> (\<exists>m. reported m (notices s) (notices (fail_call i e t)))"
      if "calls t = calls s" "notices t = notices s" for e t
      using fail_reported [of t i e] that one by simp
    show "(i \<in> fst ` set (calls (call_settled i resp s)) \<and> notices (call_settled i resp s) = notices s)
       \<or> (calls (call_settled i resp s) = [] \<and> (\<exists>m. reported m (notices s) (notices (call_settled i resp s))))"
      using g failed
      by (cases g) (simp_all add: call_settled_def attempt_settled_def conflict_read_settled_def
          retry_settled_def applied_def Let_def split: server_response.split sum.split)
  }
  {
    assume r: "map_of (calls s) i = Some (Refetch d opts)" "successMessage opts \<noteq> []"
    note one = one_call [OF inv r(1)]
    show "calls (call_settled i resp s) = []"
      using r one by (simp add: call_settled_def refetch_settled_def Let_def)
    show "Toast ''success'' (successMessage opts) \<in> set (notices (call_settled i resp s))"
      using r by (simp add: call_settled_def refetch_settled_def Let_def finish_call_def live_note_def notify_def)
  }
  {
    assume "truthy (catalog s)" "\<not> busy s"
    then show "let t = applyOutputSystemMutation kind args opts s
          in (calls t \<noteq> [] \<and> notices t = notices s) \<or> (\<exists>m. reported m (notices s) (notices t))"
      using fail_reported [of "s\<lparr>busy := True, next_id := Suc (next_id s)\<rparr>" "next_id s"]
      by (auto simp: applyOutputSystemMutation_def start_apply_def Let_def split: sum.split)
  }
qed (use success_is_earned [where b = b and es = es] in \<open>simp_all add: assms attempt_answered retry_answered\<close>)

theorem failures_are_reported_witness:
  "notices (call_settled 1 (Answer 500 (JObj [])) (run_events out_step conflicting_run (init_ctl True)))
     = [Toast ''error'' ''Output state apply failed'', MutationError ''Output state apply failed'']"
proof -
  let ?s = "run_events out_step conflicting_run (init_ctl True)"
  let ?t = "call_settled 1 (Answer 500 (JObj [])) ?s"
  have "calls ?t = []"
    by (simp add: conflicting_run_result call_settled_def retry_settled_def status_ok_def)
  moreover have "map_of (calls ?s) 1 = Some (Retry switch_stereo (demo_catalog 6) demo_opts)"
    by (simp add: conflicting_run_result)
  ultimately have "\<exists>m. reported m (notices ?s) (notices ?t)"
    using failures_are_reported [OF refl, where es = conflicting_run and b = True and i = 1 and g = "Retry switch_stereo (demo_catalog 6) demo_opts"
        and resp = "Answer 500 (JObj [])"] by force
  moreover have "Toast ''error'' ''Output state apply failed'' \<in> set (notices ?t)"
    by (simp add: conflicting_run_result call_settled_def retry_settled_def status_ok_def fail_call_def
        finish_call_def notify_def conflict_message_def jget_JObj js_or_def Let_def)
  moreover have "esc (JStr ''Output state apply failed'') = ''Output state apply failed''"
    by (simp add: esc_def replace_char_def js_coalesce_def nullish_def)
  ultimately show ?thesis
    by (auto simp: reported_def conflicting_run_result)
qed

end
