(* ===== verification/Av_Sync.thy ===== *)
theory Av_Sync
  imports Output_Control
begin

section \<open>The AV sync panel\<close>

text \<open>
  static/av_sync.js: the panel polls the electronic delay once a second while it is open, keeps what
  the user types until it is saved, and saves a target through the output state. The state holds the
  module variables, the fields of the panel, the live timers and the requests in flight; a call of
  \<open>refresh\<close> carries the continuation of the caller that awaits it. \<open>NoAnswer\<close> stands for a rejected
  request and for a body that is no JSON; the body of an accepted save is an object. The table of
  single delays (markup) is not modelled.
\<close>

subsection \<open>Texts\<close>

text \<open>\<open>value.toFixed(2)\<close> of an exact number.\<close>

definition to_fixed2 :: "rat \<Rightarrow> string" where
  "to_fixed2 r =
     (let n = nat \<lfloor>100 * \<bar>r\<bar> + 1 / 2\<rfloor>
      in (if r < 0 then ''-'' else []) @ nat_str (n div 100) @ ''.''
         @ [digit_char (n mod 100 div 10), digit_char (n mod 10)])"

definition ms :: "jsval \<Rightarrow> string" where
  "ms value = (case value of JNum (Fin r) \<Rightarrow> to_fixed2 r @ '' ms'' | _ \<Rightarrow> em_dash)"

definition en_dash :: string where "en_dash = [CHR 0xE2, CHR 0x80, CHR 0x93]"

definition mode_text :: "jsval \<Rightarrow> string" where
  "mode_text mode =
     (if mode = JStr ''stereo'' then ''Stereo'' else if mode = JStr ''stereo-sub'' then ''Stereo + Sub''
      else if mode = JStr ''surround'' then ''Surround'' else to_str mode)"

definition basis_text :: "jsval \<Rightarrow> string" where
  "basis_text origin =
     (if origin = JStr ''calibrated'' then ''Measured calibration basis stored.''
      else if origin = JStr ''adopted''
      then ''Existing alignment preserved; current DSP timing adopted. Recalibrate for a measured basis.''
      else if origin = JStr ''unavailable''
      then ''Calibration basis unavailable. Existing alignment is preserved without guessing its DSP timing.''
      else [])"

text \<open>\<open>Inl\<close> is the error of reading the target of missing settings.\<close>

definition warning_text :: "jsval \<Rightarrow> string + string" where
  "warning_text data =
     (let latency = js_or (jget data ''latency'') (JObj []); settings = jget data ''settings'';
          target = to_num (jget settings ''target_ms'')
      in if \<not> truthy (jget latency ''ready'')
         then Inr ''The target is stored, but live timing is unavailable.''
         else if truthy (jget latency ''balance_unavailable'')
         then Inr ''IR timing is unknown. Automatic speaker balancing is unavailable; the reported delay is not guaranteed.''
         else if truthy (jget latency ''balance_limited'')
         then Inr ''Speaker compensation exceeds the shared 500 ms delay capacity. Recalibrate or reduce DSP latency.''
         else if nullish settings then Inl (null_read_error settings ''target_ms'')
         else if target < to_num (jget latency ''minimum_ms'') - Fin (2 / 100)
         then Inr (''No additional delay applied '' @ en_dash @ '' target is below the minimum electronic delay.'')
         else if to_num (jget latency ''maximum_ms'') + Fin (2 / 100) < target
         then Inr ''Target exceeds the shared 500 ms delay capacity. The effective delay shows the achievable value.''
         else if list_ex (\<lambda>row. truthy (jget row ''mixed'')) (arr_items (jget latency ''outputs''))
         then Inr ''Mixed paths have different timing; one output delay cannot align every send.''
         else Inr [])"

definition NEEDS_RANGE :: string where
  "NEEDS_RANGE = ''Enter a target from 0 to 20000 ms.''"

definition MODE_CHANGED :: string where
  "MODE_CHANGED = ''Output mode changed. The target for this mode is shown.''"

definition SAVED_INACTIVE :: string where
  "SAVED_INACTIVE = ''Target saved. It will apply when this output mode is active.''"

subsection \<open>State\<close>

text \<open>What the caller of \<open>refresh\<close> does after it.\<close>

datatype av_after =
    NoMore
  | AfterSave jsval bool
  | AfterFailure string

datatype av_request =
    AvRead nat av_after
  | AvPost jsval
  | AvCatalog jsval bool

record av_panel =
  avTarget :: string
  avMode :: string
  avActual :: string
  avLimits :: string
  avBasis :: string
  avStatus :: string
  avSaveDisabled :: bool

record av_post =
  postRevision :: jsval
  postMode :: jsval
  postTarget :: jsnum

record av =
  opened :: bool
  dirty :: bool
  saving :: bool
  sequence :: nat
  timer :: "nat option"
  mode :: jsval
  revision :: jsval
  feedback :: string
  panel :: av_panel
  measuring :: bool
  fresh_id :: nat
  live :: "nat list"
  requests :: "(nat \<times> av_request) list"
  posts :: "av_post list"

definition init_av :: av where
  "init_av = \<lparr>opened = False, dirty = False, saving = False, sequence = 0, timer = None,
     mode = JStr [], revision = JNum (Fin (- 1)), feedback = [],
     panel = \<lparr>avTarget = [], avMode = [], avActual = [], avLimits = [], avBasis = [], avStatus = [],
       avSaveDisabled = False\<rparr>,
     measuring = False, fresh_id = 0, live = [], requests = [], posts = []\<rparr>"

definition status :: "string \<Rightarrow> av \<Rightarrow> av" where
  "status text s = s\<lparr>panel := (panel s)\<lparr>avStatus := text\<rparr>\<rparr>"

definition unsaved_revision :: "av \<Rightarrow> bool" where
  "unsaved_revision s = (to_num (revision s) < Fin 0)"

definition clear_av_timer :: "av \<Rightarrow> av" where
  "clear_av_timer s = s\<lparr>live := filter (\<lambda>i. Some i \<noteq> timer s) (live s)\<rparr>"

definition set_av_timer :: "av \<Rightarrow> av" where
  "set_av_timer s = s\<lparr>timer := Some (fresh_id s), live := fresh_id s # live s, fresh_id := fresh_id s + 1\<rparr>"

definition av_send :: "av_request \<Rightarrow> av \<Rightarrow> av" where
  "av_send r s = s\<lparr>requests := (fresh_id s, r) # requests s, fresh_id := fresh_id s + 1\<rparr>"

subsection \<open>Rendering\<close>

definition render_fields :: "jsval \<Rightarrow> av \<Rightarrow> av" where
  "render_fields data s =
     (let latency = js_or (jget data ''latency'') (JObj []); ready = truthy (jget latency ''ready'')
      in s\<lparr>panel := (panel s)\<lparr>
             avMode := mode_text (jget data ''active_mode''),
             avActual := (if ready then ms (jget latency ''actual_ms'') else ''Waiting for audio engine'' @ ellipsis),
             avLimits := (if ready then ''Available range: '' @ ms (jget latency ''minimum_ms'') @ '' '' @ en_dash @ '' ''
                            @ ms (jget latency ''maximum_ms'') else []),
             avBasis := basis_text (jpath data [''settings'', ''basis_origin''])\<rparr>\<rparr>)"

text \<open>\<open>Some\<close> is the error thrown, with the state in which it is.\<close>

definition render :: "jsval \<Rightarrow> av \<Rightarrow> string option \<times> av" where
  "render data s0 =
     (let s = render_fields data s0
      in case warning_text data of
           Inl m \<Rightarrow> (Some m, s)
         | Inr warning \<Rightarrow>
             (None, (status (if feedback s \<noteq> [] then feedback s else warning) s)
                \<lparr>panel := (panel (status (if feedback s \<noteq> [] then feedback s else warning) s))
                   \<lparr>avSaveDisabled := saving s \<or> unsaved_revision s \<or> measuring s\<rparr>\<rparr>))"

subsection \<open>Reading\<close>

text \<open>The last lines of \<open>save\<close>.\<close>

definition save_finally :: "av \<Rightarrow> av" where
  "save_finally s0 =
     (let s = s0\<lparr>saving := False\<rparr>
      in s\<lparr>panel := (panel s)\<lparr>avSaveDisabled := \<not> opened s \<or> unsaved_revision s \<or> measuring s\<rparr>\<rparr>)"

definition continue :: "av_after \<Rightarrow> av \<Rightarrow> av" where
  "continue k s =
     (case k of
        NoMore \<Rightarrow> s
      | AfterSave savedMode liveApplied \<Rightarrow>
          save_finally (if opened s \<and> js_seq (mode s) savedMode \<and> \<not> liveApplied then status SAVED_INACTIVE s else s)
      | AfterFailure m \<Rightarrow> save_finally (if opened s then status m s else s))"

definition refresh :: "av_after \<Rightarrow> av \<Rightarrow> av" where
  "refresh k s =
     (if \<not> opened s \<or> saving s then continue k s
      else av_send (AvRead (sequence s + 1) k) (s\<lparr>sequence := sequence s + 1\<rparr>))"

text \<open>The body of a current response, up to the error it throws.\<close>

definition read_accepted :: "jsval \<Rightarrow> av \<Rightarrow> string option \<times> av" where
  "read_accepted data s0 =
     (if nullish data then (Some (null_read_error data ''active_mode''), s0)
      else
        (let changedMode = (truthy (mode s0) \<and> \<not> js_seq (mode s0) (jget data ''active_mode''));
             s1 = (if changedMode then s0\<lparr>dirty := False, feedback := []\<rparr> else s0);
             s2 = s1\<lparr>mode := jget data ''active_mode'', revision := jget data ''revision''\<rparr>
         in if \<not> dirty s2 \<and> nullish (jget data ''settings'')
            then (Some (null_read_error (jget data ''settings'') ''target_ms''), s2)
            else
              (let s3 = (if dirty s2 then s2
                         else s2\<lparr>panel := (panel s2)\<lparr>avTarget := to_str (jpath data [''settings'', ''target_ms''])\<rparr>\<rparr>)
               in case render data s3 of
                    (Some m, s4) \<Rightarrow> (Some m, s4)
                  | (None, s4) \<Rightarrow> (None, if changedMode then status MODE_CHANGED s4 else s4))))"

definition error_text :: "jsval \<Rightarrow> string \<Rightarrow> string" where
  "error_text data fallback =
     to_str (js_or (jpath data [''detail'', ''message'']) (js_or (jget data ''detail'') (JStr fallback)))"

definition read_response :: "server_response \<Rightarrow> av \<Rightarrow> string option \<times> av" where
  "read_response resp s =
     (case resp of
        NoAnswer m \<Rightarrow> (Some m, s)
      | Answer st data \<Rightarrow>
          if \<not> status_ok st
          then (Some (if nullish data then null_read_error data ''detail''
                      else error_text data ''AV Sync is unavailable''), s)
          else read_accepted data s)"

definition read_done :: "nat \<Rightarrow> av_after \<Rightarrow> server_response \<Rightarrow> av \<Rightarrow> av" where
  "read_done n k resp s =
     (if n \<noteq> sequence s \<or> \<not> opened s then continue k s
      else
        (case read_response resp s of (err, s1) \<Rightarrow>
           let s2 = (case err of None \<Rightarrow> s1 | Some m \<Rightarrow> status m s1)
           in continue k (set_av_timer (clear_av_timer s2))))"

subsection \<open>Opening, closing and saving\<close>

definition open_panel :: "av \<Rightarrow> av" where
  "open_panel s0 =
     (let s = s0\<lparr>opened := True, dirty := False, mode := JStr [], revision := JNum (Fin (- 1)), feedback := []\<rparr>
      in refresh NoMore (s\<lparr>panel := (panel s)\<lparr>avSaveDisabled := True\<rparr>\<rparr>))"

definition close_panel :: "av \<Rightarrow> av" where
  "close_panel s = clear_av_timer (s\<lparr>opened := False, sequence := sequence s + 1\<rparr>)"

definition typed :: "string \<Rightarrow> av \<Rightarrow> av" where
  "typed text s = s\<lparr>panel := (panel s)\<lparr>avTarget := text\<rparr>, dirty := True, feedback := []\<rparr>"

definition valid_target :: "string \<Rightarrow> bool" where
  "valid_target raw =
     (let target = parse_number raw in raw \<noteq> [] \<and> is_fin target \<and> \<not> target < Fin 0 \<and> \<not> Fin 20000 < target)"

definition save :: "av \<Rightarrow> av" where
  "save s =
     (let raw = trim (avTarget (panel s))
      in if \<not> valid_target raw then status NEEDS_RANGE (s\<lparr>feedback := NEEDS_RANGE\<rparr>)
         else if saving s \<or> unsaved_revision s \<or> measuring s then s
         else av_send (AvPost (mode s))
           (s\<lparr>feedback := [], saving := True, sequence := sequence s + 1,
              panel := (panel s)\<lparr>avSaveDisabled := True\<rparr>,
              posts := \<lparr>postRevision = revision s, postMode = mode s, postTarget = parse_number raw\<rparr> # posts s\<rparr>))"

definition save_failed :: "string \<Rightarrow> av \<Rightarrow> av" where
  "save_failed m s = refresh (AfterFailure m) (s\<lparr>saving := False, feedback := m\<rparr>)"

definition post_done :: "jsval \<Rightarrow> server_response \<Rightarrow> av \<Rightarrow> av" where
  "post_done savedMode resp s =
     (case resp of
        NoAnswer m \<Rightarrow> save_failed m s
      | Answer st data \<Rightarrow>
          if \<not> status_ok st
          then save_failed (if nullish data then null_read_error data ''detail''
                            else error_text data ''AV Sync target could not be saved'') s
          else av_send (AvCatalog savedMode (truthy (jget data ''live_applied''))) (s\<lparr>dirty := False\<rparr>))"

text \<open>The catalog refresh the save awaits ends, with the message it is rejected with.\<close>

definition catalog_done :: "jsval \<Rightarrow> bool \<Rightarrow> string option \<Rightarrow> av \<Rightarrow> av" where
  "catalog_done savedMode liveApplied err s =
     (case err of
        None \<Rightarrow> refresh (AfterSave savedMode liveApplied) (s\<lparr>saving := False\<rparr>)
      | Some m \<Rightarrow> save_failed m s)"

subsection \<open>Steps\<close>

datatype av_event =
    OpenPanel
  | ClosePanel
  | Typed string
  | SaveClicked
  | TimerFires nat
  | Settled nat server_response
  | CatalogRefreshed nat "string option"
  | Measuring bool

definition take_request :: "nat \<Rightarrow> av \<Rightarrow> av" where
  "take_request i s = s\<lparr>requests := filter (\<lambda>r. fst r \<noteq> i) (requests s)\<rparr>"

text \<open>A click on a disabled button does nothing.\<close>

fun av_step :: "av_event \<Rightarrow> av \<Rightarrow> av" where
  "av_step OpenPanel s = open_panel s"
| "av_step ClosePanel s = close_panel s"
| "av_step (Typed text) s = typed text s"
| "av_step SaveClicked s = (if avSaveDisabled (panel s) then s else save s)"
| "av_step (TimerFires i) s =
     (if i \<in> set (live s) then refresh NoMore (s\<lparr>live := filter (\<lambda>j. j \<noteq> i) (live s)\<rparr>) else s)"
| "av_step (Settled i resp) s =
     (case map_of (requests s) i of
        Some (AvRead n k) \<Rightarrow> read_done n k resp (take_request i s)
      | Some (AvPost savedMode) \<Rightarrow> post_done savedMode resp (take_request i s)
      | _ \<Rightarrow> s)"
| "av_step (CatalogRefreshed i err) s =
     (case map_of (requests s) i of
        Some (AvCatalog savedMode liveApplied) \<Rightarrow> catalog_done savedMode liveApplied err (take_request i s)
      | _ \<Rightarrow> s)"
| "av_step (Measuring b) s = s\<lparr>measuring := b\<rparr>"

end
