(* ===== verification/Av_Sync_Claims.thy ===== *)
theory Av_Sync_Claims
  imports Av_Sync
begin

section \<open>Properties of the AV sync panel\<close>

text \<open>
  The invariant of the panel's timers and requests, and what follows from it: an open panel always
  has a next read, a closed one has none, the save lock is always released, what the user types is
  never overwritten by a poll, and only targets in range are sent.
\<close>

subsection \<open>The invariant\<close>

definition is_save :: "av_request \<Rightarrow> bool" where
  "is_save r = (case r of AvRead n k \<Rightarrow> False | _ \<Rightarrow> True)"

definition save_pending :: "av \<Rightarrow> bool" where
  "save_pending s = list_ex (\<lambda>r. is_save (snd r)) (requests s)"

definition current_read :: "av \<Rightarrow> bool" where
  "current_read s = list_ex (\<lambda>r. \<exists>k. snd r = AvRead (sequence s) k) (requests s)"

definition timers_ok :: "av \<Rightarrow> bool" where
  "timers_ok s = ((\<not> opened s \<longrightarrow> live s = []) \<and> (live s = [] \<or> (\<exists>i. live s = [i] \<and> timer s = Some i)))"

definition post_ok :: "av_post \<Rightarrow> bool" where
  "post_ok p = ((\<exists>r. postTarget p = Fin r \<and> 0 \<le> r \<and> r \<le> 20000) \<and> \<not> to_num (postRevision p) < Fin 0)"

definition av_inv :: "av \<Rightarrow> bool" where
  "av_inv s =
     (timers_ok s
      \<and> (opened s \<longrightarrow> live s \<noteq> [] \<or> current_read s \<or> save_pending s)
      \<and> (saving s \<longrightarrow> save_pending s)
      \<and> list_all post_ok (posts s))"

text \<open>The fields the invariant reads, unchanged by the display operations.\<close>

lemma display_frame [simp]:
  "opened (status t s) = opened s" "live (status t s) = live s" "timer (status t s) = timer s"
  "sequence (status t s) = sequence s" "saving (status t s) = saving s" "requests (status t s) = requests s"
  "posts (status t s) = posts s" "fresh_id (status t s) = fresh_id s" "dirty (status t s) = dirty s"
  "mode (status t s) = mode s" "avTarget (panel (status t s)) = avTarget (panel s)"
  by (simp_all add: status_def)

lemma fields_frame [simp]:
  "opened (render_fields d s) = opened s" "live (render_fields d s) = live s"
  "timer (render_fields d s) = timer s" "sequence (render_fields d s) = sequence s"
  "saving (render_fields d s) = saving s" "requests (render_fields d s) = requests s"
  "posts (render_fields d s) = posts s" "fresh_id (render_fields d s) = fresh_id s"
  "dirty (render_fields d s) = dirty s" "mode (render_fields d s) = mode s"
  "avTarget (panel (render_fields d s)) = avTarget (panel s)"
  by (simp_all add: render_fields_def Let_def)

lemma render_frame [simp]:
  "opened (snd (render d s)) = opened s" "live (snd (render d s)) = live s"
  "timer (snd (render d s)) = timer s" "sequence (snd (render d s)) = sequence s"
  "saving (snd (render d s)) = saving s" "requests (snd (render d s)) = requests s"
  "posts (snd (render d s)) = posts s" "fresh_id (snd (render d s)) = fresh_id s"
  "dirty (snd (render d s)) = dirty s" "mode (snd (render d s)) = mode s"
  "avTarget (panel (snd (render d s))) = avTarget (panel s)"
  by (simp_all add: render_def Let_def split: sum.split)

lemma snd_render_case:
  "snd (case render d s of (None, t) \<Rightarrow> (None, f t) | (Some m, t) \<Rightarrow> (Some m, t)) =
     (if fst (render d s) = None then f (snd (render d s)) else snd (render d s))"
  by (cases "render d s") (auto split: option.split)

lemma accepted_frame [simp]:
  "opened (snd (read_accepted d s)) = opened s" "live (snd (read_accepted d s)) = live s"
  "timer (snd (read_accepted d s)) = timer s" "sequence (snd (read_accepted d s)) = sequence s"
  "saving (snd (read_accepted d s)) = saving s" "requests (snd (read_accepted d s)) = requests s"
  "posts (snd (read_accepted d s)) = posts s" "fresh_id (snd (read_accepted d s)) = fresh_id s"
  by (simp_all add: read_accepted_def Let_def snd_render_case)

lemma response_frame [simp]:
  "opened (snd (read_response r s)) = opened s" "live (snd (read_response r s)) = live s"
  "timer (snd (read_response r s)) = timer s" "sequence (snd (read_response r s)) = sequence s"
  "saving (snd (read_response r s)) = saving s" "requests (snd (read_response r s)) = requests s"
  "posts (snd (read_response r s)) = posts s" "fresh_id (snd (read_response r s)) = fresh_id s"
  by (simp_all add: read_response_def split: server_response.split)

lemma continue_frame [simp]:
  "opened (continue k s) = opened s" "live (continue k s) = live s" "timer (continue k s) = timer s"
  "sequence (continue k s) = sequence s" "requests (continue k s) = requests s"
  "posts (continue k s) = posts s" "fresh_id (continue k s) = fresh_id s"
  "saving (continue k s) \<longrightarrow> saving s" "avTarget (panel (continue k s)) = avTarget (panel s)"
  by (simp_all add: continue_def save_finally_def Let_def split: av_after.split)

lemma inv_continue: "av_inv s \<Longrightarrow> av_inv (continue k s)"
  using continue_frame(8) [of k s]
  by (simp add: av_inv_def timers_ok_def current_read_def save_pending_def)

text \<open>A state without the request that is being settled.\<close>

definition av_base :: "av \<Rightarrow> bool" where
  "av_base s = (timers_ok s \<and> list_all post_ok (posts s))"

lemma inv_base: "av_inv s \<Longrightarrow> av_base s"
  by (simp add: av_inv_def av_base_def)

text \<open>A refresh gives back the invariant wherever the lock is held by a pending save only.\<close>

lemma inv_refresh:
  assumes "av_base s" "saving s \<Longrightarrow> save_pending s"
  shows "av_inv (refresh k s)"
proof (cases "\<not> opened s \<or> saving s")
  case True
  then have "av_inv s"
    using assms by (auto simp: av_inv_def av_base_def)
  then show ?thesis using True by (auto simp: refresh_def intro: inv_continue)
next
  case False
  then show ?thesis
    using assms(1) by (simp add: refresh_def av_send_def av_inv_def av_base_def timers_ok_def current_read_def save_pending_def)
qed

lemma inv_save_failed: "av_base s \<Longrightarrow> av_inv (save_failed m s)"
  unfolding save_failed_def by (rule inv_refresh) (simp_all add: av_base_def timers_ok_def)

lemma inv_catalog_done: "av_base s \<Longrightarrow> av_inv (catalog_done m l err s)"
  by (auto simp: catalog_done_def av_base_def timers_ok_def split: option.split intro!: inv_refresh inv_save_failed)

lemma inv_post_done:
  assumes "av_base s"
  shows "av_inv (post_done m resp s)"
proof -
  have "av_inv (av_send (AvCatalog m l) (s\<lparr>dirty := False\<rparr>))" for l
    using assms by (simp add: av_send_def av_inv_def av_base_def timers_ok_def save_pending_def is_save_def)
  then show ?thesis
    using assms by (auto simp: post_done_def intro: inv_save_failed split: server_response.split)
qed

lemma inv_read_done:
  assumes "av_base s" "saving s \<longrightarrow> save_pending s"
    and "n \<noteq> sequence s \<Longrightarrow> opened s \<longrightarrow> live s \<noteq> [] \<or> current_read s \<or> save_pending s"
  shows "av_inv (read_done n k resp s)"
proof (cases "n \<noteq> sequence s \<or> \<not> opened s")
  case True
  then have "av_inv s" using assms by (auto simp: av_inv_def av_base_def)
  with True show ?thesis by (auto simp: read_done_def intro: inv_continue)
next
  case False
  obtain err s1 where e: "read_response resp s = (err, s1)"
    by (cases "read_response resp s")
  have s1: "opened s1" "live s1 = live s" "timer s1 = timer s" "saving s1 = saving s"
    "requests s1 = requests s" "posts s1 = posts s"
    using False response_frame [of resp s] by (simp_all add: e)
  have "av_inv (set_av_timer (clear_av_timer t))"
    if "opened t" "live t = live s" "timer t = timer s" "saving t = saving s" "requests t = requests s" "posts t = posts s" for t
    using that assms(1,2)
    by (auto simp: av_inv_def av_base_def timers_ok_def set_av_timer_def clear_av_timer_def save_pending_def)
  then show ?thesis
    using False s1
    by (auto simp: read_done_def e Let_def split: option.split intro!: inv_continue)
qed

lemma take_request_frame [simp]:
  "opened (take_request i s) = opened s" "live (take_request i s) = live s"
  "timer (take_request i s) = timer s" "sequence (take_request i s) = sequence s"
  "saving (take_request i s) = saving s" "posts (take_request i s) = posts s"
  "mode (take_request i s) = mode s" "dirty (take_request i s) = dirty s" "panel (take_request i s) = panel s"
  by (simp_all add: take_request_def)

text \<open>Ids are fresh, so a settled request is the only one of its id.\<close>

definition ids_ok :: "av \<Rightarrow> bool" where
  "ids_ok s = (distinct (List.map fst (requests s)) \<and> (\<forall>r \<in> set (requests s). fst r < fresh_id s))"

lemma list_ex_filter_irrelevant:
  "(\<And>x. x \<in> set xs \<Longrightarrow> \<not> Q x \<Longrightarrow> \<not> P x) \<Longrightarrow> list_ex P (filter Q xs) = list_ex P xs"
  by (auto simp: list_ex_iff)

lemma taken_read:
  assumes "ids_ok s" "map_of (requests s) i = Some (AvRead n k)"
  shows "save_pending (take_request i s) = save_pending s"
    and "n \<noteq> sequence s \<Longrightarrow> current_read (take_request i s) = current_read s"
proof -
  have only: "snd r = AvRead n k" if "r \<in> set (requests s)" "fst r = i" for r
  proof -
    from that(1) have "(fst r, snd r) \<in> set (requests s)" by simp
    then have "map_of (requests s) (fst r) = Some (snd r)"
      using assms(1) by (intro map_of_is_SomeI) (simp_all add: ids_ok_def)
    with that(2) assms(2) show ?thesis by simp
  qed
  show "save_pending (take_request i s) = save_pending s"
    unfolding save_pending_def take_request_def
    using only by (simp, intro list_ex_filter_irrelevant) (simp add: is_save_def)
  show "n \<noteq> sequence s \<Longrightarrow> current_read (take_request i s) = current_read s"
    unfolding current_read_def take_request_def
    using only by (simp, intro list_ex_filter_irrelevant) simp
qed

lemma base_take: "av_inv s \<Longrightarrow> av_base (take_request i s)"
  by (simp add: av_inv_def av_base_def timers_ok_def)

lemma inv_settled:
  assumes "av_inv s" "ids_ok s"
  shows "av_inv (av_step (Settled i resp) s)"
proof (cases "map_of (requests s) i")
  case (Some r)
  then show ?thesis
  proof (cases r)
    case (AvRead n k)
    then have "av_inv (read_done n k resp (take_request i s))"
      using assms Some base_take [OF assms(1)] taken_read [OF assms(2), of i n k]
      by (intro inv_read_done) (auto simp: av_inv_def)
    with AvRead Some show ?thesis by simp
  qed (use assms Some base_take in \<open>auto intro: inv_post_done\<close>)
qed (use assms in simp)

lemma ids_request: "ids_ok s \<Longrightarrow> ids_ok (av_send r s)"
  by (auto simp: ids_ok_def av_send_def less_Suc_eq)

lemma ids_frame: "requests t = requests s \<Longrightarrow> fresh_id s \<le> fresh_id t \<Longrightarrow> ids_ok s \<Longrightarrow> ids_ok t"
  by (fastforce simp: ids_ok_def)

lemma ids_take: "ids_ok s \<Longrightarrow> ids_ok (take_request i s)"
  by (auto simp: ids_ok_def take_request_def distinct_map_filter)

lemma ids_continue: "ids_ok s \<Longrightarrow> ids_ok (continue k s)"
  by (rule ids_frame [of _ s]) simp_all

lemma ids_refresh: "ids_ok s \<Longrightarrow> ids_ok (refresh k s)"
  by (auto simp: refresh_def ids_continue intro!: ids_request intro: ids_frame [of _ s])

lemma ids_save_failed: "ids_ok s \<Longrightarrow> ids_ok (save_failed m s)"
  unfolding save_failed_def by (rule ids_refresh, rule ids_frame [of _ s]) simp_all

lemma ids_read_done: "ids_ok s \<Longrightarrow> ids_ok (read_done n k resp s)"
proof -
  assume s: "ids_ok s"
  obtain err s1 where e: "read_response resp s = (err, s1)"
    by (cases "read_response resp s")
  have "requests s1 = requests s" "fresh_id s1 = fresh_id s"
    using response_frame [of resp s] by (simp_all add: e)
  with s show ?thesis
    by (auto simp: read_done_def e Let_def set_av_timer_def clear_av_timer_def ids_continue
        split: option.split intro!: ids_continue intro: ids_frame [of _ s])
qed

lemma ids_step: "ids_ok s \<Longrightarrow> ids_ok (av_step e s)"
proof (cases e)
  case (Settled i resp)
  assume "ids_ok s"
  then have "ids_ok (take_request i s)" by (rule ids_take)
  moreover from this have "ids_ok (av_send r (take_request i s\<lparr>dirty := False\<rparr>))" for r
    by (intro ids_request) (auto intro: ids_frame [of _ "take_request i s"])
  ultimately show ?thesis
    using Settled \<open>ids_ok s\<close>
    by (auto simp: post_done_def split: option.split av_request.split server_response.split
        intro!: ids_read_done ids_save_failed)
next
  case (CatalogRefreshed i err)
  assume "ids_ok s"
  then have t: "ids_ok (take_request i s)" by (rule ids_take)
  moreover from this have "ids_ok (refresh k (take_request i s\<lparr>saving := False\<rparr>))" for k
    by (intro ids_refresh) (auto intro: ids_frame [of _ "take_request i s"])
  ultimately show ?thesis
    using CatalogRefreshed \<open>ids_ok s\<close>
    by (auto simp: catalog_done_def split: option.split av_request.split intro!: ids_save_failed)
next
  case SaveClicked
  assume s: "ids_ok s"
  have "ids_ok (av_send r t)" if "requests t = requests s" "fresh_id t = fresh_id s" for r t
    by (intro ids_request ids_frame [OF that(1) _ s]) (simp add: that)
  with s SaveClicked show ?thesis
    by (auto simp: save_def Let_def intro: ids_frame [OF _ _ s])
next
  case OpenPanel
  assume s: "ids_ok s"
  have "ids_ok (refresh k t)" if "requests t = requests s" "fresh_id t = fresh_id s" for k t
    by (intro ids_refresh ids_frame [OF that(1) _ s]) (simp add: that)
  with OpenPanel show ?thesis by (simp add: open_panel_def Let_def)
next
  case (TimerFires i)
  assume s: "ids_ok s"
  have "ids_ok (refresh k (s\<lparr>live := l\<rparr>))" for k l
    by (intro ids_refresh ids_frame [OF _ _ s]) simp_all
  with s TimerFires show ?thesis by simp
qed (auto simp: close_panel_def typed_def clear_av_timer_def ids_ok_def)

lemma inv_open: "av_inv s \<Longrightarrow> av_inv (open_panel s)"
  unfolding open_panel_def Let_def
  by (rule inv_refresh) (auto simp: av_inv_def av_base_def timers_ok_def save_pending_def)

lemma inv_av_close: "av_inv s \<Longrightarrow> av_inv (close_panel s)"
  by (auto simp: close_panel_def clear_av_timer_def av_inv_def timers_ok_def save_pending_def)

lemma inv_typed: "av_inv s \<Longrightarrow> av_inv (typed t s)"
  by (simp add: typed_def av_inv_def timers_ok_def save_pending_def current_read_def)

lemma post_ok_save: "valid_target raw \<Longrightarrow> \<not> unsaved_revision s \<Longrightarrow>
    post_ok \<lparr>postRevision = revision s, postMode = mode s, postTarget = parse_number raw\<rparr>"
  by (cases "parse_number raw") (auto simp: valid_target_def post_ok_def unsaved_revision_def Let_def)

lemma inv_post: "av_inv s \<Longrightarrow> post_ok p \<Longrightarrow>
    av_inv (av_send (AvPost m) (s\<lparr>feedback := f, saving := True, sequence := n, panel := q, posts := p # posts s\<rparr>))"
  by (simp add: av_send_def av_inv_def timers_ok_def save_pending_def is_save_def)

lemma inv_save:
  assumes "av_inv s"
  shows "av_inv (save s)"
proof -
  have "av_inv (status t (s\<lparr>feedback := f\<rparr>))" for t f
    using assms by (simp add: av_inv_def timers_ok_def save_pending_def current_read_def)
  then show ?thesis
    using assms unfolding save_def Let_def by (auto intro: inv_post post_ok_save)
qed

lemma inv_av_timer:
  assumes "av_inv s" "i \<in> set (live s)"
  shows "av_inv (refresh NoMore (s\<lparr>live := filter (\<lambda>j. j \<noteq> i) (live s)\<rparr>))"
  using assms by (intro inv_refresh) (auto simp: av_inv_def av_base_def timers_ok_def save_pending_def)

lemma inv_av_step: "av_inv s \<and> ids_ok s \<Longrightarrow> av_inv (av_step e s) \<and> ids_ok (av_step e s)"
proof (rule conjI)
  assume s: "av_inv s \<and> ids_ok s"
  then show "ids_ok (av_step e s)" by (simp add: ids_step)
  show "av_inv (av_step e s)"
  proof (cases e)
    case (Settled i resp)
    then show ?thesis using s inv_settled by simp
  next
    case (CatalogRefreshed i err)
    then show ?thesis
      using s base_take by (auto split: option.split av_request.split intro: inv_catalog_done)
  next
    case (Measuring b)
    with s show ?thesis by (simp add: av_inv_def timers_ok_def save_pending_def current_read_def)
  qed (use s in \<open>auto intro: inv_open inv_av_close inv_typed inv_save inv_av_timer\<close>)
qed

definition av_start :: "av \<Rightarrow> bool" where
  "av_start s = (s = init_av)"

definition av_rel :: "av \<Rightarrow> av \<Rightarrow> bool" where
  "av_rel s t = (\<exists>e. t = av_step e s)"

interpretation av: inductive_invariant av_start av_rel "\<lambda>s. av_inv s \<and> ids_ok s"
  by unfold_locales
     (auto simp: av_start_def av_rel_def inv_av_step, auto simp: init_av_def av_inv_def timers_ok_def ids_ok_def)

lemma av_reachable_run: "reachable av_start av_rel (run_events av_step es init_av)"
  by (rule reachable_run_events, auto simp: av_rel_def, rule reachable_start, auto simp: av_start_def)

subsection \<open>Polling and saving\<close>

text \<open>C29: An open panel never goes stale and a closed one is quiet: at every reachable moment an open
  panel has its timer armed, a current read in flight, or a save that ends in a read; a closed panel
  has no timer; there is never more than one; and the save lock is held only while a save request or
  the catalog refresh it awaits is in flight, so the button cannot stay locked.\<close>

theorem av_sync_keeps_polling:
  assumes "reachable av_start av_rel s"
  shows "(opened s \<longrightarrow> live s \<noteq> [] \<or> current_read s \<or> save_pending s)
    \<and> (\<not> opened s \<longrightarrow> live s = []) \<and> length (live s) \<le> 1
    \<and> (saving s \<longrightarrow> save_pending s)"
  using av.always [OF assms] by (auto simp: av_inv_def timers_ok_def)

definition av_answer :: "rat \<Rightarrow> server_response" where
  "av_answer target = Answer 200 (JObj [(''active_mode'', JStr ''stereo''), (''revision'', JNum (Fin 5)),
     (''settings'', JObj [(''target_ms'', JNum (Fin target))])])"

text \<open>A save whose closing read is still under way when the panel is closed, opened again and read.\<close>

definition reopened_run :: "av_event list" where
  "reopened_run = [OpenPanel, Settled 0 (av_answer 20), Typed ''35'', SaveClicked,
     Settled 2 (Answer 200 (JObj [(''live_applied'', JBool True)])), CatalogRefreshed 3 None,
     ClosePanel, OpenPanel, Settled 5 (av_answer 35)]"

theorem av_sync_keeps_polling_witness:
  "opened (run_events av_step reopened_run init_av) \<and> live (run_events av_step reopened_run init_av) = [6]
   \<and> \<not> saving (run_events av_step reopened_run init_av)"
proof -
  have "length (live (run_events av_step reopened_run init_av)) \<le> 1"
    using av_sync_keeps_polling [OF av_reachable_run [of reopened_run]] by blast
  moreover have "opened (run_events av_step reopened_run init_av)" "6 \<in> set (live (run_events av_step reopened_run init_av))"
    "\<not> saving (run_events av_step reopened_run init_av)"
    by code_simp+
  ultimately show ?thesis
    by (cases "live (run_events av_step reopened_run init_av)") auto
qed

text \<open>The read of a second opening arrives, the target is saved again, and then the closing read of
  the first save ends: it lifts the lock of the second save, and a third one goes out beside it
  with the same revision.\<close>

lemma a_late_read_lifts_the_save_lock:
  "length (filter (\<lambda>r. snd r = AvPost (JStr ''stereo''))
     (requests (run_events av_step (reopened_run @ [SaveClicked, Settled 4 (av_answer 35), SaveClicked]) init_av))) = 2"
  by code_simp

subsection \<open>What is shown and what is sent\<close>

lemma target_continue_status:
  "avTarget (panel (set_av_timer (clear_av_timer s))) = avTarget (panel s)"
  by (simp add: set_av_timer_def clear_av_timer_def)

lemma target_refresh [simp]: "avTarget (panel (refresh k s)) = avTarget (panel s)"
  by (simp add: refresh_def av_send_def)

lemma mode_continue [simp]: "mode (continue k s) = mode s" "mode (set_av_timer s) = mode s" "mode (clear_av_timer s) = mode s"
  by (simp_all add: continue_def save_finally_def Let_def set_av_timer_def clear_av_timer_def split: av_after.split)

lemma target_accepted:
  assumes "avTarget (panel (snd (read_accepted d s))) \<noteq> avTarget (panel s)"
  shows "\<not> dirty s \<or> truthy (mode s) \<and> mode (snd (read_accepted d s)) \<noteq> mode s"
  using assms by (auto simp: read_accepted_def Let_def snd_render_case js_seq_def split: if_splits)

lemma target_read_done:
  assumes "avTarget (panel (read_done n k resp s)) \<noteq> avTarget (panel s)"
  shows "n = sequence s \<and> opened s \<and> (\<not> dirty s \<or> truthy (mode s) \<and> mode (read_done n k resp s) \<noteq> mode s)"
proof -
  have now: "n = sequence s" "opened s"
    using assms by (auto simp: read_done_def split: if_splits)
  obtain err s1 where e: "read_response resp s = (err, s1)"
    by (cases "read_response resp s")
  have t: "avTarget (panel (read_done n k resp s)) = avTarget (panel s1)" "mode (read_done n k resp s) = mode s1"
    using now by (auto simp: read_done_def e Let_def target_continue_status split: option.split)
  then have "avTarget (panel s1) \<noteq> avTarget (panel s)" using assms by simp
  then have "\<not> dirty s \<or> truthy (mode s) \<and> mode s1 \<noteq> mode s"
    using e target_accepted [of _ s] by (auto simp: read_response_def split: server_response.splits if_splits) (metis snd_conv)+
  with now t show ?thesis by simp
qed

text \<open>A poll never overwrites what the user is typing: the target field changes only by typing or
  by the response of the current read of an open panel, and then the field was not edited since the
  last save, or the output mode has changed; a late response leaves it alone.\<close>

theorem typed_target_is_kept:
  assumes "avTarget (panel (av_step e s)) \<noteq> avTarget (panel s)" "\<And>text. e \<noteq> Typed text"
  shows "\<exists>i resp k. e = Settled i resp \<and> map_of (requests s) i = Some (AvRead (sequence s) k) \<and> opened s
     \<and> (\<not> dirty s \<or> truthy (mode s) \<and> mode (av_step e s) \<noteq> mode s)"
proof (cases e)
  case (Settled i resp)
  show ?thesis
  proof (cases "map_of (requests s) i")
    case (Some r)
    then show ?thesis
    proof (cases r)
      case (AvRead n k)
      then show ?thesis
        using Settled Some assms(1) target_read_done [of n k resp "take_request i s"] by auto
    qed (use Settled Some assms(1) in \<open>auto simp: post_done_def save_failed_def av_send_def split: server_response.splits if_splits\<close>)
  qed (use Settled assms(1) in simp)
qed (use assms in \<open>auto simp: open_panel_def close_panel_def clear_av_timer_def save_def av_send_def
    catalog_done_def save_failed_def Let_def status_def split: option.splits av_request.splits if_splits\<close>)

definition typing_run :: "av_event list" where
  "typing_run = [OpenPanel]"

theorem typed_target_is_kept_witness:
  "avTarget (panel (av_step (Settled 0 (av_answer 20)) (run_events av_step typing_run init_av))) = ''20''
   \<and> \<not> dirty (run_events av_step typing_run init_av)"
proof -
  have "avTarget (panel (av_step (Settled 0 (av_answer 20)) (run_events av_step typing_run init_av))) = ''20''"
    "avTarget (panel (run_events av_step typing_run init_av)) = []"
    "\<not> truthy (mode (run_events av_step typing_run init_av))"
    by code_simp+
  then show ?thesis
    using typed_target_is_kept [of "Settled 0 (av_answer 20)" "run_events av_step typing_run init_av"] by auto
qed

text \<open>Only a target the server accepts is sent: every save request carries a finite number of
  milliseconds from 0 to 20000 and a revision that has been read.\<close>

theorem saved_targets_are_valid:
  assumes "reachable av_start av_rel s" "p \<in> set (posts s)"
  shows "(\<exists>r. postTarget p = Fin r \<and> 0 \<le> r \<and> r \<le> 20000) \<and> \<not> to_num (postRevision p) < Fin 0"
proof -
  have "list_all post_ok (posts s)"
    using av.always [OF assms(1)] by (simp add: av_inv_def)
  then show ?thesis using assms(2) by (auto simp: list_all_iff post_ok_def)
qed

theorem saved_targets_are_valid_witness:
  "\<exists>p r. posts (run_events av_step reopened_run init_av) = [p] \<and> postTarget p = Fin r \<and> 0 \<le> r \<and> r \<le> 20000"
proof -
  let ?p = "\<lparr>postRevision = JNum (Fin 5), postMode = JStr ''stereo'', postTarget = Fin 35\<rparr>"
  have p: "posts (run_events av_step reopened_run init_av) = [?p]"
    by code_simp
  then show ?thesis
    using saved_targets_are_valid [OF av_reachable_run [of reopened_run], of ?p] by simp
qed

end
