(* ===== verification/Frontend_Freshness.thy ===== *)
theory Frontend_Freshness
  imports Interfaces "HOL-Library.List_Lexorder" "HOL-Library.Char_ord"
begin

section \<open>Keeping a long-running page current\<close>

text \<open>
  static/frontend_freshness.js: the signature of a page's versioned assets, the scan of the served
  shell for them, the checks and the reload of a stale page once nobody uses it. Strings are UTF-8
  bytes, so signatures are sorted by bytes; they are only compared for equality. The state of a page
  is a record that a reload starts anew, except for the session storage, which survives; the clock,
  the reload block of the app and the responses are events. The demo, which never starts the
  checks, is left out.
\<close>

subsection \<open>Signatures\<close>

definition stops_path :: "char \<Rightarrow> bool" where
  "stops_path c = (c = CHR ''?'' \<or> c = CHR ''#'')"

text \<open>\<open>VERSIONED_ASSET\<close>: the path runs to the first \<open>?\<close> or \<open>#\<close>.\<close>

definition has_extension :: "string \<Rightarrow> bool" where
  "has_extension path = ((ends_with path ''.js'' \<and> 3 < length path) \<or> (ends_with path ''.css'' \<and> 4 < length path))"

definition versioned_asset :: "string \<Rightarrow> bool" where
  "versioned_asset url =
     (starts_with url ''/static/''
      \<and> (let rest = drop 8 url
         in has_extension (takeWhile (\<lambda>c. \<not> stops_path c) rest)
            \<and> starts_with (dropWhile (\<lambda>c. \<not> stops_path c) rest) ''?v=''))"

definition signature :: "string list \<Rightarrow> string" where
  "signature urls = join_with [CHR 0x0A] (sort (remdups (filter versioned_asset urls)))"

subsection \<open>Assets of the served shell\<close>

definition is_word :: "char \<Rightarrow> bool" where
  "is_word c = (let n = of_char c :: nat in (48 \<le> n \<and> n \<le> 57) \<or> (65 \<le> n \<and> n \<le> 90) \<or> (97 \<le> n \<and> n \<le> 122) \<or> n = 95)"

text \<open>The value of an attribute at the head of the text, with the number of characters matched.\<close>

definition quoted :: "string \<Rightarrow> string option" where
  "quoted s = (let v = takeWhile (\<lambda>c. c \<noteq> CHR 0x22) s in if length v < length s then Some v else None)"

definition asset_value :: "string \<Rightarrow> string option" where
  "asset_value s =
     (case quoted s of
        None \<Rightarrow> None
      | Some v \<Rightarrow>
          if versioned_asset v \<and> CHR ''#'' \<notin> set v
             \<and> 3 < length (dropWhile (\<lambda>c. \<not> stops_path c) (drop 8 v)) then Some v else None)"

definition attribute_at :: "string \<Rightarrow> nat option" where
  "attribute_at s =
     (if starts_with s (''src='' @ [CHR 0x22]) then Some 5
      else if starts_with s (''href='' @ [CHR 0x22]) then Some 6 else None)"

definition match_at :: "bool \<Rightarrow> string \<Rightarrow> (string \<times> nat) option" where
  "match_at after_word s =
     (if after_word then None
      else case attribute_at s of
             None \<Rightarrow> None
           | Some n \<Rightarrow> (case asset_value (drop n s) of None \<Rightarrow> None | Some v \<Rightarrow> Some (v, n + length v + 1)))"

text \<open>\<open>matchAll\<close>: the first number is how much of the last match is still to be skipped.\<close>

fun scan :: "nat \<Rightarrow> bool \<Rightarrow> string \<Rightarrow> string list" where
  "scan k after_word [] = []"
| "scan (Suc k) after_word (c # s) = scan k (is_word c) s"
| "scan 0 after_word (c # s) =
     (case match_at after_word (c # s) of
        None \<Rightarrow> scan 0 (is_word c) s
      | Some (v, n) \<Rightarrow> v # scan (n - 1) (is_word c) s)"

definition markupAssets :: "string \<Rightarrow> string list" where
  "markupAssets markup = scan 0 False markup"

subsection \<open>State\<close>

definition CHECK_INTERVAL_MS :: rat where "CHECK_INTERVAL_MS = 15 * 60 * 1000"
definition MIN_CHECK_GAP_MS :: rat where "MIN_CHECK_GAP_MS = 60 * 1000"
definition IDLE_BEFORE_RELOAD_MS :: rat where "IDLE_BEFORE_RELOAD_MS = 60 * 1000"
definition RELOAD_RETRY_MS :: rat where "RELOAD_RETRY_MS = 30 * 1000"

datatype page_timer = ReloadTimer | CheckTimer

record page =
  started :: bool
  bootSignature :: string
  staleSignature :: string
  lastInputAt :: rat
  lastCheckAt :: "rat option"
  checkInFlight :: bool
  reloadTimer :: "nat option"
  next_timer :: nat
  armed :: "(nat \<times> page_timer \<times> rat) list"
  pending_check :: "bool option"
  clock :: rat
  blocked :: bool
  stored_for :: string
  storage_works :: bool
  reloads :: "string list"

text \<open>A fresh page: the second argument is the session storage.\<close>

definition fresh_page :: "rat \<Rightarrow> string \<Rightarrow> bool \<Rightarrow> string list \<Rightarrow> page" where
  "fresh_page t stored works past =
     \<lparr>started = False, bootSignature = [], staleSignature = [], lastInputAt = 0, lastCheckAt = None,
      checkInFlight = False, reloadTimer = None, next_timer = 0, armed = [], pending_check = None,
      clock = t, blocked = False, stored_for = stored, storage_works = works, reloads = past\<rparr>"

text \<open>An armed timer carries the time it is due.\<close>

definition arm :: "page_timer \<Rightarrow> rat \<Rightarrow> page \<Rightarrow> nat \<times> page" where
  "arm k delay s =
     (next_timer s, s\<lparr>next_timer := next_timer s + 1, armed := (next_timer s, k, clock s + delay) # armed s\<rparr>)"

definition disarm :: "nat option \<Rightarrow> page \<Rightarrow> page" where
  "disarm h s = s\<lparr>armed := filter (\<lambda>t. Some (fst t) \<noteq> h) (armed s)\<rparr>"

subsection \<open>Operations\<close>

definition noteInput :: "page \<Rightarrow> page" where
  "noteInput s = s\<lparr>lastInputAt := clock s\<rparr>"

definition reloadedFor :: "page \<Rightarrow> string" where
  "reloadedFor s = (if storage_works s then stored_for s else [])"

definition rememberReloadedFor :: "string \<Rightarrow> page \<Rightarrow> page" where
  "rememberReloadedFor v s = (if storage_works s then s\<lparr>stored_for := v\<rparr> else s)"

definition cancelReload :: "page \<Rightarrow> page" where
  "cancelReload s = (disarm (reloadTimer s) s)\<lparr>reloadTimer := None\<rparr>"

definition reloadWhenIdle :: "page \<Rightarrow> page" where
  "reloadWhenIdle s0 =
     (let s = cancelReload s0 in
      if staleSignature s = [] \<or> staleSignature s = reloadedFor s then s
      else if blocked s \<or> clock s - lastInputAt s < IDLE_BEFORE_RELOAD_MS
      then (case arm ReloadTimer RELOAD_RETRY_MS s of (h, s') \<Rightarrow> s'\<lparr>reloadTimer := Some h\<rparr>)
      else (let s' = rememberReloadedFor (staleSignature s) s in s'\<lparr>reloads := staleSignature s # reloads s'\<rparr>))"

definition schedulePeriodicCheck :: "page \<Rightarrow> page" where
  "schedulePeriodicCheck s = snd (arm CheckTimer CHECK_INTERVAL_MS s)"

text \<open>\<open>check\<close> up to its request; the flag says that the periodic timer awaits it.\<close>

definition check :: "bool \<Rightarrow> bool \<Rightarrow> page \<Rightarrow> page" where
  "check periodic reconnect s =
     (if \<not> started s \<or> checkInFlight s
         \<or> (\<not> reconnect \<and> (case lastCheckAt s of None \<Rightarrow> False | Some t \<Rightarrow> clock s - t < MIN_CHECK_GAP_MS))
      then (if periodic then schedulePeriodicCheck s else s)
      else s\<lparr>checkInFlight := True, lastCheckAt := Some (clock s), pending_check := Some periodic\<rparr>)"

text \<open>The response to a check: a failure, or a status with the text of the shell.\<close>

datatype shell_response = ShellError | Shell nat string

definition read_shell :: "shell_response \<Rightarrow> page \<Rightarrow> page" where
  "read_shell resp s =
     (case resp of
        ShellError \<Rightarrow> s
      | Shell st text \<Rightarrow>
          if \<not> (200 \<le> st \<and> st \<le> 299) then s
          else
            (let served = signature (markupAssets text)
             in if served = [] \<or> bootSignature s = [] \<or> served = bootSignature s
                then cancelReload (s\<lparr>staleSignature := []\<rparr>)
                else reloadWhenIdle (s\<lparr>staleSignature := served\<rparr>)))"

definition check_settled :: "shell_response \<Rightarrow> page \<Rightarrow> page" where
  "check_settled resp s =
     (case pending_check s of
        None \<Rightarrow> s
      | Some periodic \<Rightarrow>
          (let s' = (read_shell resp s)\<lparr>checkInFlight := False, pending_check := None\<rparr>
           in if periodic then schedulePeriodicCheck s' else s'))"

definition start :: "string list \<Rightarrow> page \<Rightarrow> page" where
  "start assets s =
     (if started s then s
      else schedulePeriodicCheck (s\<lparr>started := True, bootSignature := signature assets, lastInputAt := clock s\<rparr>))"

subsection \<open>Steps\<close>

text \<open>\<open>Reloaded\<close> is the load of the page that follows a reload, or one by the user.\<close>

datatype page_event =
    Start "string list"
  | Input
  | Check bool
  | ShellArrives shell_response
  | PageTimer nat
  | Passes nat
  | Blocked bool
  | Reloaded

definition fire_page_timer :: "nat \<Rightarrow> page \<Rightarrow> page" where
  "fire_page_timer h s =
     (case map_of (armed s) h of
        None \<Rightarrow> s
      | Some (k, due) \<Rightarrow>
          (let s' = s\<lparr>armed := filter (\<lambda>t. fst t \<noteq> h) (armed s)\<rparr>
           in if clock s < due then s else case k of ReloadTimer \<Rightarrow> reloadWhenIdle s' | CheckTimer \<Rightarrow> check True False s'))"

fun page_step :: "page_event \<Rightarrow> page \<Rightarrow> page" where
  "page_step (Start assets) s = start assets s"
| "page_step Input s = noteInput s"
| "page_step (Check reconnect) s = check False reconnect s"
| "page_step (ShellArrives resp) s = check_settled resp s"
| "page_step (PageTimer h) s = fire_page_timer h s"
| "page_step (Passes t) s = s\<lparr>clock := clock s + of_nat t\<rparr>"
| "page_step (Blocked b) s = s\<lparr>blocked := b\<rparr>"
| "page_step Reloaded s = fresh_page (clock s) (stored_for s) (storage_works s) (reloads s)"

end
