(* ===== verification/Freshness_Scan.thy ===== *)
theory Freshness_Scan
  imports Frontend_Freshness
begin

section \<open>What the page reads from a shell\<close>

text \<open>
  The scan of a served shell finds exactly the assets it lists, and signatures compare them as sets.
\<close>

subsection \<open>Shells and signatures\<close>

definition dquote :: char where "dquote = CHR 0x22"

text \<open>What the server lists: an asset with a version, free of quotes, fragments and line breaks.\<close>

definition clean_asset :: "string \<Rightarrow> bool" where
  "clean_asset a = (versioned_asset a \<and> dquote \<notin> set a \<and> CHR ''#'' \<notin> set a \<and> CHR 0x0A \<notin> set a
     \<and> 3 < length (dropWhile (\<lambda>c. \<not> stops_path c) (drop 8 a)))"

definition script_tag :: "string \<Rightarrow> string" where
  "script_tag a = ''<script src='' @ dquote # a @ dquote # ''></script>''"

lemma scan_skip: "scan (length u) after_word (u @ s) = scan 0 (if u = [] then after_word else is_word (last u)) s"
  by (induction u arbitrary: after_word) auto

lemma quoted_value: "dquote \<notin> set a \<Longrightarrow> quoted (a @ dquote # s) = Some a"
  by (auto simp: quoted_def dquote_def takeWhile_append Let_def)

lemma asset_value_clean: "clean_asset a \<Longrightarrow> asset_value (a @ dquote # s) = Some a"
  by (simp add: asset_value_def quoted_value clean_asset_def)

lemma match_tag:
  assumes "clean_asset a"
  shows "match_at False (''src='' @ dquote # a @ dquote # s) = Some (a, 5 + length a + 1)"
  using asset_value_clean [OF assms, of s]
  by (simp add: match_at_def attribute_at_def starts_with_def dquote_def)

lemma scan_value:
  "scan (5 + length a) True (''rc='' @ dquote # a @ dquote # s) = scan 0 False s"
  using scan_skip [of "''rc='' @ dquote # a @ [dquote]" True s]
  by (simp add: is_word_def dquote_def eval_nat_numeral)

lemma scan_tag:
  assumes "clean_asset a"
  shows "scan 0 False (script_tag a @ s) = a # scan 0 False s"
proof -
  have m: "match_at False (CHR ''s'' # ''rc='' @ dquote # a @ dquote # s) = Some (a, Suc (5 + length a))" for s
    using match_tag [OF assms, of s] by simp
  have "scan 0 False (CHR ''s'' # ''rc='' @ dquote # a @ dquote # s) = a # scan 0 False s" for s
    using m [of s] scan_value [of a s] by (simp add: is_word_def del: append_Cons append.simps)
  then show ?thesis
    by (simp add: script_tag_def match_at_def attribute_at_def starts_with_def is_word_def dquote_def)
qed

lemmas asset_eval = clean_asset_def versioned_asset_def has_extension_def ends_with_def starts_with_def
  stops_path_def dquote_def

definition shell_of :: "string list \<Rightarrow> string" where
  "shell_of assets = concat (List.map script_tag assets)"

lemma scan_shell: "list_all clean_asset assets \<Longrightarrow> markupAssets (shell_of assets) = assets"
  by (induction assets) (simp_all add: markupAssets_def shell_of_def scan_tag)

lemma split_on_word: "c \<notin> set w \<Longrightarrow> split_on c w = [w]"
  by (induction w) auto

lemma split_on_append: "c \<notin> set w \<Longrightarrow> split_on c (w @ c # s) = w # split_on c s"
  by (induction w) auto

lemma split_join: "ws \<noteq> [] \<Longrightarrow> list_all (\<lambda>w. c \<notin> set w) ws \<Longrightarrow> split_on c (join_with [c] ws) = ws"
  by (induction "[c]" ws rule: join_with.induct) (simp_all add: split_on_word split_on_append)

lemma clean_asset_word: "clean_asset a \<Longrightarrow> a \<noteq> [] \<and> CHR 0x0A \<notin> set a"
  by (auto simp: clean_asset_def versioned_asset_def starts_with_def)

lemma join_inj:
  assumes "list_all clean_asset vs" "list_all clean_asset ws" "join_with [CHR 0x0A] vs = join_with [CHR 0x0A] ws"
  shows "vs = ws"
proof -
  have nl: "list_all (\<lambda>w. CHR 0x0A \<notin> set w) us" if "list_all clean_asset us" for us
    using that clean_asset_word by (auto simp: list_all_iff)
  have empty: "us = []" if "list_all clean_asset us" "join_with [CHR 0x0A] us = []" for us
    using that clean_asset_word by (cases us rule: remdups_adj.cases) auto
  show ?thesis
  proof (cases "vs = [] \<or> ws = []")
    case True
    with empty assms show ?thesis by (metis join_with.simps(1))
  next
    case False
    with split_join [OF _ nl [OF assms(1)]] split_join [OF _ nl [OF assms(2)]] assms(3) show ?thesis by metis
  qed
qed

lemma signature_eq_iff:
  assumes "list_all clean_asset (filter versioned_asset xs)" "list_all clean_asset (filter versioned_asset ys)"
  shows "signature xs = signature ys \<longleftrightarrow> set (filter versioned_asset xs) = set (filter versioned_asset ys)"
proof
  have clean: "list_all clean_asset (sort (remdups (filter versioned_asset us)))"
    if "list_all clean_asset (filter versioned_asset us)" for us
    using that by (simp add: list_all_iff)
  assume "signature xs = signature ys"
  then have "sort (remdups (filter versioned_asset xs)) = sort (remdups (filter versioned_asset ys))"
    unfolding signature_def by (rule join_inj [OF clean [OF assms(1)] clean [OF assms(2)]])
  then show "set (filter versioned_asset xs) = set (filter versioned_asset ys)"
    by (metis set_remdups set_sort)
next
  assume "set (filter versioned_asset xs) = set (filter versioned_asset ys)"
  then have "sort (remdups (filter versioned_asset xs)) = sort (remdups (filter versioned_asset ys))"
    by (intro sorted_distinct_set_unique) simp_all
  then show "signature xs = signature ys" by (simp add: signature_def)
qed

text \<open>A page is stale exactly when the shell lists other versions: reading back the shell that
  lists a set of assets gives those assets, in order, and the signature read from it equals the
  signature the page booted with exactly when both list the same set of versioned assets, whatever
  their order, repetitions and unversioned neighbours.\<close>

theorem staleness_is_other_versions:
  assumes "list_all clean_asset assets" "list_all clean_asset (filter versioned_asset boot)"
  shows "markupAssets (shell_of assets) = assets
    \<and> (signature (markupAssets (shell_of assets)) = signature boot
       \<longleftrightarrow> set assets = set (filter versioned_asset boot))"
proof -
  have "filter versioned_asset assets = assets"
    using assms(1) by (auto simp: list_all_iff clean_asset_def intro: filter_True)
  then show ?thesis
    using signature_eq_iff [of assets boot] assms by (simp add: scan_shell)
qed

theorem staleness_is_other_versions_witness:
  "signature (markupAssets (shell_of [''/static/a.js?v=1'', ''/static/b.css?v=1'']))
     = signature [''/static/b.css?v=1'', ''/static/logo.png'', ''/static/a.js?v=1'', ''/static/a.js?v=1'']"
proof -
  let ?a = "''/static/a.js?v=1''" and ?b = "''/static/b.css?v=1''"
  have a: "clean_asset ?a" by (simp add: asset_eval)
  have b: "clean_asset ?b" by (simp add: asset_eval)
  have l: "\<not> versioned_asset ''/static/logo.png''" by (simp add: asset_eval)
  have f: "filter versioned_asset [?b, ''/static/logo.png'', ?a, ?a] = [?b, ?a, ?a]"
    using a b l by (simp only: filter.simps clean_asset_def if_True if_False)
  have "list_all clean_asset [?a, ?b]" "list_all clean_asset (filter versioned_asset [?b, ''/static/logo.png'', ?a, ?a])"
    unfolding f using a b by (simp_all only: list.pred_inject simp_thms)
  from staleness_is_other_versions [OF this, unfolded f, THEN conjunct2] show ?thesis
    by (simp only: list.set insert_commute insert_absorb2 simp_thms)
qed

end
