(* ===== verification/Freshness_Claims.thy ===== *)
theory Freshness_Claims
  imports Freshness_Scan
begin

section \<open>Properties of the page refresh\<close>

text \<open>
  A stale page is reloaded once nobody uses it, never twice for the same served version, and its
  checks go on for ever.
\<close>

subsection \<open>The invariant\<close>

definition check_timers :: "page \<Rightarrow> nat" where
  "check_timers s = length (filter (\<lambda>t. fst (snd t) = CheckTimer) (armed s))"

text \<open>The timers: ids are fresh and used once, and the only reload timer is the remembered one.\<close>

definition armed_ok :: "page \<Rightarrow> bool" where
  "armed_ok s =
     (distinct (List.map fst (armed s)) \<and> (\<forall>t \<in> set (armed s). fst t < next_timer s)
      \<and> (\<forall>t \<in> set (armed s). fst (snd t) = ReloadTimer \<longleftrightarrow> reloadTimer s = Some (fst t))
      \<and> (\<forall>h. reloadTimer s = Some h \<longrightarrow> h < next_timer s))"

definition chain_ok :: "page \<Rightarrow> bool" where
  "chain_ok s =
     ((checkInFlight s \<longleftrightarrow> pending_check s \<noteq> None)
      \<and> (started s \<longrightarrow> check_timers s + (if pending_check s = Some True then 1 else 0) = 1)
      \<and> (\<not> started s \<longrightarrow> armed s = [] \<and> pending_check s = None \<and> staleSignature s = []))"

definition stale_ok :: "page \<Rightarrow> bool" where
  "stale_ok s = (staleSignature s \<noteq> [] \<longrightarrow> bootSignature s \<noteq> [] \<and> staleSignature s \<noteq> bootSignature s)"

definition reloads_ok :: "page \<Rightarrow> bool" where
  "reloads_ok s = (storage_works s \<longrightarrow> distinct_adj (reloads s) \<and> (reloads s \<noteq> [] \<longrightarrow> stored_for s = hd (reloads s)))"

text \<open>A stale page that has not been reloaded for its version has its reload timer armed.\<close>

definition waits_for_idle :: "page \<Rightarrow> bool" where
  "waits_for_idle s =
     (storage_works s \<and> staleSignature s \<noteq> [] \<and> staleSignature s \<noteq> stored_for s
      \<longrightarrow> (\<exists>h d. reloadTimer s = Some h \<and> (h, ReloadTimer, d) \<in> set (armed s) \<and> d \<le> clock s + RELOAD_RETRY_MS))"

definition page_inv :: "page \<Rightarrow> bool" where
  "page_inv s = (armed_ok s \<and> chain_ok s \<and> stale_ok s \<and> reloads_ok s \<and> waits_for_idle s)"

text \<open>Without the reload timer: what a reload decision starts from.\<close>

definition page_base :: "page \<Rightarrow> bool" where
  "page_base s = (armed_ok s \<and> chain_ok s \<and> stale_ok s \<and> reloads_ok s)"

lemma frame_simps [simp]:
  "started (cancelReload s) = started s" "pending_check (cancelReload s) = pending_check s"
  "checkInFlight (cancelReload s) = checkInFlight s" "staleSignature (cancelReload s) = staleSignature s"
  "bootSignature (cancelReload s) = bootSignature s" "reloads (cancelReload s) = reloads s"
  "stored_for (cancelReload s) = stored_for s" "storage_works (cancelReload s) = storage_works s"
  "clock (cancelReload s) = clock s" "next_timer (cancelReload s) = next_timer s"
  "reloadTimer (cancelReload s) = None" "blocked (cancelReload s) = blocked s"
  "lastInputAt (cancelReload s) = lastInputAt s"
  "armed (cancelReload s) = filter (\<lambda>t. Some (fst t) \<noteq> reloadTimer s) (armed s)"
  by (simp_all add: cancelReload_def disarm_def)

lemma armed_kind:
  "armed_ok s \<Longrightarrow> t \<in> set (armed s) \<Longrightarrow> (fst (snd t) = ReloadTimer) = (reloadTimer s = Some (fst t))"
  by (simp add: armed_ok_def)

lemma check_timers_cancel:
  assumes "armed_ok s"
  shows "check_timers (cancelReload s) = check_timers s"
proof -
  have "Some (fst t) \<noteq> reloadTimer s \<and> fst (snd t) = CheckTimer \<longleftrightarrow> fst (snd t) = CheckTimer" if "t \<in> set (armed s)" for t
    using armed_kind [OF assms that] by (cases "fst (snd t)") auto
  then show ?thesis
    by (simp add: check_timers_def conj_commute cong: filter_cong)
qed

lemma armed_ok_cancel: "armed_ok s \<Longrightarrow> armed_ok (cancelReload s)"
proof -
  assume s: "armed_ok s"
  have "fst (snd t) \<noteq> ReloadTimer" if "t \<in> set (armed s)" "Some (fst t) \<noteq> reloadTimer s" for t
    using armed_kind [OF s that(1)] that(2) by metis
  then show ?thesis
    using s unfolding armed_ok_def by (auto simp: distinct_map_filter)
qed

lemma base_cancel: "page_base s \<Longrightarrow> page_base (cancelReload s)"
proof -
  assume s: "page_base s"
  then have a: "armed_ok s" by (simp add: page_base_def)
  have "chain_ok (cancelReload s)"
    using s check_timers_cancel [OF a] by (auto simp: page_base_def chain_ok_def)
  with armed_ok_cancel [OF a] show ?thesis
    using s by (simp add: page_base_def stale_ok_def reloads_ok_def)
qed

lemma armed_ok_reload:
  assumes "armed_ok s" "reloadTimer s = None"
  shows "armed_ok ((snd (arm ReloadTimer d s))\<lparr>reloadTimer := Some (fst (arm ReloadTimer d s))\<rparr>)"
proof -
  have "fst (snd t) \<noteq> ReloadTimer" "fst t < next_timer s" if "t \<in> set (armed s)" for t
    using armed_kind [OF assms(1) that] assms that by (auto simp: armed_ok_def)
  then have "\<forall>t \<in> set (armed s). fst (snd t) \<noteq> ReloadTimer \<and> fst t < next_timer s" by blast
  moreover have "distinct (List.map fst (armed s))" using assms(1) by (simp add: armed_ok_def)
  ultimately show ?thesis
    by (force simp: armed_ok_def arm_def)
qed

lemma base_arm_reload:
  assumes "page_base s" "reloadTimer s = None" "started s"
  shows "page_base ((snd (arm ReloadTimer d s))\<lparr>reloadTimer := Some (fst (arm ReloadTimer d s))\<rparr>)"
  using assms armed_ok_reload [of s d]
  by (simp add: page_base_def chain_ok_def check_timers_def stale_ok_def reloads_ok_def arm_def)

lemma inv_reloadWhenIdle:
  assumes "page_base s" "started s"
  shows "page_inv (reloadWhenIdle s)"
proof -
  let ?c = "cancelReload s"
  note c = base_cancel [OF assms(1)]
  note armed = base_arm_reload [OF c, of RELOAD_RETRY_MS]
  have remembered: "page_base ((rememberReloadedFor (staleSignature ?c) ?c)
      \<lparr>reloads := staleSignature ?c # reloads (rememberReloadedFor (staleSignature ?c) ?c)\<rparr>)"
    if "staleSignature ?c \<noteq> reloadedFor ?c"
    using c that
    by (auto simp: page_base_def armed_ok_def chain_ok_def check_timers_def stale_ok_def reloads_ok_def
        rememberReloadedFor_def reloadedFor_def neq_Nil_conv distinct_adj_Cons)
  show ?thesis
    using c armed remembered assms(2)
    by (auto simp: reloadWhenIdle_def Let_def page_inv_def page_base_def waits_for_idle_def reloadedFor_def
        rememberReloadedFor_def arm_def)
qed

lemma base_schedule:
  assumes "armed_ok s"
  shows "armed_ok (schedulePeriodicCheck s)" "check_timers (schedulePeriodicCheck s) = Suc (check_timers s)"
proof -
  have "reloadTimer s \<noteq> Some (next_timer s)"
    using assms by (auto simp: armed_ok_def)
  then show "armed_ok (schedulePeriodicCheck s)"
    using assms by (force simp: armed_ok_def schedulePeriodicCheck_def arm_def)
  show "check_timers (schedulePeriodicCheck s) = Suc (check_timers s)"
    by (simp add: check_timers_def schedulePeriodicCheck_def arm_def)
qed

lemma periodic_frame [simp]:
  "started (schedulePeriodicCheck s) = started s" "pending_check (schedulePeriodicCheck s) = pending_check s"
  "checkInFlight (schedulePeriodicCheck s) = checkInFlight s"
  "staleSignature (schedulePeriodicCheck s) = staleSignature s"
  "bootSignature (schedulePeriodicCheck s) = bootSignature s" "reloads (schedulePeriodicCheck s) = reloads s"
  "stored_for (schedulePeriodicCheck s) = stored_for s" "storage_works (schedulePeriodicCheck s) = storage_works s"
  "clock (schedulePeriodicCheck s) = clock s" "reloadTimer (schedulePeriodicCheck s) = reloadTimer s"
  "set (armed s) \<subseteq> set (armed (schedulePeriodicCheck s))"
  by (auto simp: schedulePeriodicCheck_def arm_def)

lemma waits_frame:
  assumes "waits_for_idle s" "staleSignature t = staleSignature s" "stored_for t = stored_for s"
    "storage_works t = storage_works s" "reloadTimer t = reloadTimer s" "clock s \<le> clock t"
    and "\<And>x. x \<in> set (armed s) \<Longrightarrow> fst (snd x) = ReloadTimer \<Longrightarrow> x \<in> set (armed t)"
  shows "waits_for_idle t"
  unfolding waits_for_idle_def
proof (intro impI, elim conjE)
  assume "storage_works t" "staleSignature t \<noteq> []" "staleSignature t \<noteq> stored_for t"
  then obtain h d where h: "reloadTimer s = Some h" "(h, ReloadTimer, d) \<in> set (armed s)" "d \<le> clock s + RELOAD_RETRY_MS"
    using assms(1-4) by (auto simp: waits_for_idle_def)
  then have "(h, ReloadTimer, d) \<in> set (armed t)" "d \<le> clock t + RELOAD_RETRY_MS"
    using assms(6,7) by auto
  with h(1) assms(5) show "\<exists>h d. reloadTimer t = Some h \<and> (h, ReloadTimer, d) \<in> set (armed t)
      \<and> d \<le> clock t + RELOAD_RETRY_MS" by auto
qed

lemma waits_schedule: "waits_for_idle s \<Longrightarrow> waits_for_idle (schedulePeriodicCheck s)"
  by (rule waits_frame [of s]) (simp_all add: schedulePeriodicCheck_def arm_def)

subsection \<open>Every step keeps the invariant\<close>

text \<open>A state whose periodic chain waits for its next link.\<close>

definition chain_broken :: "page \<Rightarrow> bool" where
  "chain_broken s =
     (armed_ok s \<and> stale_ok s \<and> reloads_ok s \<and> waits_for_idle s \<and> started s
      \<and> (checkInFlight s \<longleftrightarrow> pending_check s \<noteq> None) \<and> check_timers s = 0 \<and> pending_check s \<noteq> Some True)"

lemma inv_schedule: "chain_broken s \<Longrightarrow> page_inv (schedulePeriodicCheck s)"
  using base_schedule [of s] waits_schedule [of s]
  by (simp add: chain_broken_def page_inv_def chain_ok_def stale_ok_def reloads_ok_def)

lemma inv_check_called:
  assumes "page_inv s"
  shows "page_inv (check False reconnect s)"
proof -
  have "page_inv (s\<lparr>checkInFlight := True, lastCheckAt := t, pending_check := Some False\<rparr>)"
    if s: "started s" "\<not> checkInFlight s" for t
  proof -
    have "pending_check s = None" using assms s by (simp add: page_inv_def chain_ok_def)
    with assms s show ?thesis
    by (simp add: page_inv_def armed_ok_def chain_ok_def check_timers_def stale_ok_def reloads_ok_def waits_for_idle_def)
  qed
  with assms show ?thesis by (auto simp: check_def)
qed

lemma inv_check_periodic:
  assumes "chain_broken s"
  shows "page_inv (check True False s)"
proof -
  have "page_inv (s\<lparr>checkInFlight := True, lastCheckAt := t, pending_check := Some True\<rparr>)" if "\<not> checkInFlight s" for t
    using assms that
    by (simp add: chain_broken_def page_inv_def armed_ok_def chain_ok_def check_timers_def stale_ok_def
        reloads_ok_def waits_for_idle_def)
  then show ?thesis using inv_schedule [OF assms] by (simp add: check_def)
qed

text \<open>The timer that fires is taken out.\<close>

definition unarmed :: "nat \<Rightarrow> page \<Rightarrow> page" where
  "unarmed h s = s\<lparr>armed := filter (\<lambda>t. fst t \<noteq> h) (armed s)\<rparr>"

lemma unarmed_frame [simp]:
  "started (unarmed h s) = started s" "pending_check (unarmed h s) = pending_check s"
  "checkInFlight (unarmed h s) = checkInFlight s" "staleSignature (unarmed h s) = staleSignature s"
  "bootSignature (unarmed h s) = bootSignature s" "reloads (unarmed h s) = reloads s"
  "stored_for (unarmed h s) = stored_for s" "storage_works (unarmed h s) = storage_works s"
  "clock (unarmed h s) = clock s" "reloadTimer (unarmed h s) = reloadTimer s"
  "blocked (unarmed h s) = blocked s" "lastInputAt (unarmed h s) = lastInputAt s"
  by (simp_all add: unarmed_def)

lemma armed_ok_unarmed: "armed_ok s \<Longrightarrow> armed_ok (unarmed h s)"
  unfolding armed_ok_def unarmed_def by (auto simp: distinct_map_filter)

lemma filter_one:
  "distinct (List.map fst xs) \<Longrightarrow> (h, k, d) \<in> set xs \<Longrightarrow> P (h, k, d) \<Longrightarrow>
   length (filter P xs) = Suc (length (filter P (filter (\<lambda>t. fst t \<noteq> h) xs)))"
proof (induction xs)
  case (Cons x xs)
  show ?case
  proof (cases "x = (h, k, d)")
    case True
    with Cons.prems(1) have "h \<notin> fst ` set xs" by auto
    then have "filter (\<lambda>t. fst t \<noteq> h) xs = xs"
      by (intro filter_True) (metis image_eqI)
    with True Cons.prems(3) show ?thesis by simp
  next
    case False
    with Cons.prems have "(h, k, d) \<in> set xs" "fst x \<noteq> h" by (auto simp: rev_image_eqI)
    with Cons show ?thesis by simp
  qed
qed simp

lemma same_timer:
  assumes "armed_ok s" "map_of (armed s) h = Some (k, d)" "t \<in> set (armed s)" "fst t = h"
  shows "fst (snd t) = k"
proof -
  have "(h, snd t) = t" using assms(4) by auto
  then have "(h, snd t) \<in> set (armed s)" using assms(3) by simp
  then have "map_of (armed s) h = Some (snd t)"
    using assms(1) by (intro map_of_is_SomeI) (simp_all add: armed_ok_def)
  with assms(2) show ?thesis by simp
qed

lemma check_timers_unarmed:
  assumes "armed_ok s" "map_of (armed s) h = Some (k, d)"
  shows "check_timers s = check_timers (unarmed h s) + (if k = CheckTimer then 1 else 0)"
proof -
  have m: "(h, k, d) \<in> set (armed s)" using assms(2) by (rule map_of_SomeD)
  have dist: "distinct (List.map fst (armed s))" using assms(1) by (simp add: armed_ok_def)
  show ?thesis
  proof (cases k)
    case CheckTimer
    then show ?thesis
      using filter_one [OF dist m, of "\<lambda>t. fst (snd t) = CheckTimer"] by (simp add: check_timers_def unarmed_def)
  next
    case ReloadTimer
    have "fst t \<noteq> h \<and> fst (snd t) = CheckTimer \<longleftrightarrow> fst (snd t) = CheckTimer" if "t \<in> set (armed s)" for t
      using same_timer [OF assms that] ReloadTimer by auto
    then have "filter (\<lambda>t. fst (snd t) = CheckTimer) (filter (\<lambda>t. fst t \<noteq> h) (armed s))
        = filter (\<lambda>t. fst (snd t) = CheckTimer) (armed s)"
      by (simp cong: filter_cong)
    with ReloadTimer show ?thesis by (simp add: check_timers_def unarmed_def)
  qed
qed

lemma inv_fire_page_timer:
  assumes s: "page_inv s"
  shows "page_inv (fire_page_timer h s)"
proof (cases "map_of (armed s) h")
  case None
  with s show ?thesis by (simp add: fire_page_timer_def)
next
  case (Some t)
  obtain k d where t: "t = (k, d)" by (cases t)
  have a: "armed_ok s" and c: "chain_ok s" using s by (simp_all add: page_inv_def)
  note count = check_timers_unarmed [OF a Some [unfolded t]]
  have st: "started s" using c Some by (auto simp: chain_ok_def)
  note a' = armed_ok_unarmed [OF a, of h]
  have "page_inv (reloadWhenIdle (unarmed h s))" if "k = ReloadTimer"
    using s st count a' that
    by (intro inv_reloadWhenIdle) (auto simp: page_base_def page_inv_def chain_ok_def stale_ok_def reloads_ok_def)
  moreover have "page_inv (check True False (unarmed h s))" if k: "k = CheckTimer"
  proof (rule inv_check_periodic)
    have "waits_for_idle (unarmed h s)"
    proof (rule waits_frame [of s])
      fix x assume x: "x \<in> set (armed s)" "fst (snd x) = ReloadTimer"
      have "fst x \<noteq> h"
        using same_timer [OF a Some [unfolded t] x(1)] x(2) k by auto
      with x show "x \<in> set (armed (unarmed h s))" by (simp add: unarmed_def)
    qed (use s in \<open>simp_all add: page_inv_def\<close>)
    then show "chain_broken (unarmed h s)"
      using s st count a' k
      by (auto simp: chain_broken_def page_inv_def chain_ok_def stale_ok_def reloads_ok_def split: if_splits)
  qed
  ultimately show ?thesis
    using s by (cases k) (auto simp: fire_page_timer_def Some t unarmed_def [symmetric] Let_def)
qed

text \<open>The shell is read while the check is still marked as running.\<close>

lemma read_frame [simp]:
  "started (reloadWhenIdle s) = started s" "pending_check (reloadWhenIdle s) = pending_check s"
  "checkInFlight (reloadWhenIdle s) = checkInFlight s" "bootSignature (reloadWhenIdle s) = bootSignature s"
  "storage_works (reloadWhenIdle s) = storage_works s" "staleSignature (reloadWhenIdle s) = staleSignature s"
  by (simp_all add: reloadWhenIdle_def Let_def arm_def rememberReloadedFor_def)

lemma inv_read_shell:
  assumes s: "page_inv s" "started s"
  shows "page_inv (read_shell resp s)"
proof -
  have base: "page_base (s\<lparr>staleSignature := v\<rparr>)" if "v \<noteq> [] \<longrightarrow> bootSignature s \<noteq> [] \<and> v \<noteq> bootSignature s" for v
    using s that
    by (simp add: page_base_def page_inv_def armed_ok_def chain_ok_def check_timers_def stale_ok_def reloads_ok_def)
  have "page_inv (cancelReload (s\<lparr>staleSignature := []\<rparr>))"
    using base_cancel [OF base [of "[]"]] by (simp add: page_base_def page_inv_def waits_for_idle_def)
  moreover have "page_inv (reloadWhenIdle (s\<lparr>staleSignature := v\<rparr>))"
    if "v \<noteq> []" "bootSignature s \<noteq> []" "v \<noteq> bootSignature s" for v
    using inv_reloadWhenIdle [OF base [of v]] that s(2) by simp
  ultimately show ?thesis
    using s by (auto simp: read_shell_def Let_def split: shell_response.split)
qed

lemma read_shell_frame [simp]:
  "started (read_shell resp s) = started s" "pending_check (read_shell resp s) = pending_check s"
  "checkInFlight (read_shell resp s) = checkInFlight s" "storage_works (read_shell resp s) = storage_works s"
  by (auto simp: read_shell_def Let_def split: shell_response.split)

lemma inv_check_settled:
  assumes s: "page_inv s"
  shows "page_inv (check_settled resp s)"
proof (cases "pending_check s")
  case None
  with s show ?thesis by (simp add: check_settled_def)
next
  case (Some periodic)
  then have st: "started s" using s by (auto simp: page_inv_def chain_ok_def)
  define t where "t = (read_shell resp s)\<lparr>checkInFlight := False, pending_check := None\<rparr>"
  have r: "page_inv (read_shell resp s)" by (rule inv_read_shell [OF s st])
  have "page_inv t" if "\<not> periodic"
    using r st Some that
    by (simp add: t_def page_inv_def armed_ok_def chain_ok_def check_timers_def stale_ok_def reloads_ok_def waits_for_idle_def)
  moreover have "page_inv (schedulePeriodicCheck t)" if "periodic"
    using r st Some that
    by (intro inv_schedule)
       (simp add: chain_broken_def t_def page_inv_def armed_ok_def chain_ok_def check_timers_def stale_ok_def reloads_ok_def waits_for_idle_def)
  ultimately show ?thesis by (simp add: check_settled_def Some t_def [symmetric] Let_def)
qed

lemma inv_start:
  assumes s: "page_inv s"
  shows "page_inv (start assets s)"
proof (cases "started s")
  case False
  then have "chain_broken (s\<lparr>started := True, bootSignature := signature assets, lastInputAt := clock s\<rparr>)"
    using s by (simp add: chain_broken_def page_inv_def armed_ok_def chain_ok_def check_timers_def stale_ok_def
        reloads_ok_def waits_for_idle_def)
  with False show ?thesis by (simp add: start_def inv_schedule)
qed (use s in \<open>simp add: start_def\<close>)

lemma inv_passes: "page_inv s \<Longrightarrow> page_inv (s\<lparr>clock := clock s + of_nat n\<rparr>)"
  using waits_frame [of s "s\<lparr>clock := clock s + of_nat n\<rparr>"]
  by (simp add: page_inv_def armed_ok_def chain_ok_def check_timers_def stale_ok_def reloads_ok_def)

lemma inv_fresh: "reloads_ok s \<Longrightarrow> page_inv (fresh_page c (stored_for s) (storage_works s) (reloads s))"
  by (simp add: fresh_page_def page_inv_def armed_ok_def chain_ok_def stale_ok_def reloads_ok_def waits_for_idle_def)

lemma inv_page_step: "page_inv s \<Longrightarrow> page_inv (page_step e s)"
proof (cases e)
  case Input
  moreover assume "page_inv s"
  ultimately show ?thesis
    by (simp add: noteInput_def page_inv_def armed_ok_def chain_ok_def check_timers_def stale_ok_def reloads_ok_def waits_for_idle_def)
next
  case (Blocked b)
  moreover assume "page_inv s"
  ultimately show ?thesis
    by (simp add: page_inv_def armed_ok_def chain_ok_def check_timers_def stale_ok_def reloads_ok_def waits_for_idle_def)
next
  case Reloaded
  moreover assume "page_inv s"
  ultimately show ?thesis using inv_fresh [of s "clock s"] by (simp add: page_inv_def)
qed (simp_all add: inv_start inv_check_called inv_check_settled inv_fire_page_timer inv_passes)

definition fresh_start :: "page \<Rightarrow> bool" where
  "fresh_start s = (\<exists>t stored. s = fresh_page t stored True [])"

definition page_rel :: "page \<Rightarrow> page \<Rightarrow> bool" where
  "page_rel s t = (\<exists>e. t = page_step e s)"

interpretation page: inductive_invariant fresh_start page_rel "\<lambda>s. page_inv s \<and> storage_works s"
proof (unfold_locales, goal_cases)
  case (1 s)
  then show ?case
    by (auto simp: fresh_start_def fresh_page_def page_inv_def armed_ok_def chain_ok_def stale_ok_def reloads_ok_def
        waits_for_idle_def)
next
  case (2 s t)
  then obtain e where t: "t = page_step e s" by (auto simp: page_rel_def)
  have "storage_works (page_step e s) = storage_works s"
    by (cases e) (auto simp: start_def schedulePeriodicCheck_def arm_def noteInput_def check_def check_settled_def
        fire_page_timer_def fresh_page_def Let_def split: option.split page_timer.split)
  with 2 t show ?case by (simp add: inv_page_step)
qed

lemma page_reachable_run: "reachable fresh_start page_rel (run_events page_step es (fresh_page t stored True []))"
  by (rule reachable_run_events, auto simp: page_rel_def, rule reachable_start, auto simp: fresh_start_def)

subsection \<open>Reloads\<close>

text \<open>What one reload decision may do to the list of reloads.\<close>

definition fair_reload :: "page \<Rightarrow> page \<Rightarrow> bool" where
  "fair_reload s t =
     (reloads t = reloads s
      \<or> (reloads t = staleSignature t # reloads s \<and> staleSignature t \<noteq> [] \<and> staleSignature t \<noteq> stored_for s
         \<and> \<not> blocked s \<and> IDLE_BEFORE_RELOAD_MS \<le> clock s - lastInputAt s))"

lemma fair_reloadWhenIdle: "storage_works s \<Longrightarrow> fair_reload s (reloadWhenIdle s)"
  by (auto simp: fair_reload_def reloadWhenIdle_def Let_def arm_def rememberReloadedFor_def reloadedFor_def)

lemma fair_from:
  "fair_reload s' t \<Longrightarrow> reloads s' = reloads s \<Longrightarrow> stored_for s' = stored_for s \<Longrightarrow> blocked s' = blocked s
   \<Longrightarrow> clock s' = clock s \<Longrightarrow> lastInputAt s' = lastInputAt s \<Longrightarrow> fair_reload s t"
  by (simp add: fair_reload_def)

lemma fair_same: "reloads t = reloads s \<Longrightarrow> fair_reload s t"
  by (simp add: fair_reload_def)

lemma fair_read_shell: "storage_works s \<Longrightarrow> fair_reload s (read_shell resp s)"
proof (cases resp)
  case (Shell st body)
  moreover assume "storage_works s"
  then have "fair_reload s (reloadWhenIdle (s\<lparr>staleSignature := v\<rparr>))" for v
    by (intro fair_from [OF fair_reloadWhenIdle]) simp_all
  ultimately show ?thesis by (auto simp: read_shell_def Let_def intro: fair_same)
qed (simp add: read_shell_def fair_same)

lemma fair_step:
  assumes "storage_works s"
  shows "fair_reload s (page_step e s)"
proof (cases e)
  case (ShellArrives resp)
  have "fair_reload s ((read_shell resp s)\<lparr>checkInFlight := False, pending_check := None\<rparr>)"
    "fair_reload s (schedulePeriodicCheck ((read_shell resp s)\<lparr>checkInFlight := False, pending_check := None\<rparr>))"
    using fair_read_shell [OF assms, of resp] by (simp_all add: fair_reload_def)
  with ShellArrives show ?thesis by (auto simp: check_settled_def Let_def intro: fair_same split: option.split)
next
  case (PageTimer h)
  have "fair_reload s (reloadWhenIdle (unarmed h s))"
    using assms by (intro fair_from [OF fair_reloadWhenIdle]) simp_all
  with PageTimer show ?thesis
    by (auto simp: fire_page_timer_def unarmed_def [symmetric] Let_def check_def intro: fair_same split: option.split page_timer.split)
qed (auto simp: start_def noteInput_def check_def fresh_page_def intro!: fair_same)

text \<open>C30: The page reloads itself only when that helps and disturbs nobody: a step that reloads does so
  for a version of the shell that differs from the one the page booted with and from the one it
  last reloaded for, while the app blocks no reload and a minute after the last input; over the
  whole life of a tab with a working session storage no two reloads in a row are for the same
  version, so a reload that did not help is not repeated.\<close>

theorem reloads_help_and_disturb_nobody:
  assumes "reachable fresh_start page_rel s"
  shows "distinct_adj (reloads s)
    \<and> (reloads (page_step e s) \<noteq> reloads s \<longrightarrow>
        (\<exists>v. reloads (page_step e s) = v # reloads s \<and> v \<noteq> []
           \<and> bootSignature (page_step e s) \<noteq> [] \<and> v \<noteq> bootSignature (page_step e s)
           \<and> (reloads s = [] \<or> v \<noteq> hd (reloads s))
           \<and> \<not> blocked s \<and> IDLE_BEFORE_RELOAD_MS \<le> clock s - lastInputAt s))"
proof -
  have inv: "page_inv s" "storage_works s" using page.always [OF assms] by simp_all
  then have ok: "reloads_ok s" "stale_ok (page_step e s)"
    using inv_page_step [OF inv(1), of e] by (simp_all add: page_inv_def)
  with fair_step [OF inv(2), of e] inv(2) show ?thesis
    by (auto simp: fair_reload_def reloads_ok_def stale_ok_def)
qed

definition old_app :: string where "old_app = ''/static/app.js?v=1''"
definition new_app :: string where "new_app = ''/static/app.js?v=2''"

lemma signature_app: "signature [old_app] = old_app" "signature (markupAssets (shell_of [new_app])) = new_app"
proof -
  have c: "clean_asset old_app" "clean_asset new_app"
    by (simp_all add: asset_eval old_app_def new_app_def)
  then have "versioned_asset old_app" "versioned_asset new_app" by (simp_all add: clean_asset_def)
  then show "signature [old_app] = old_app" "signature (markupAssets (shell_of [new_app])) = new_app"
    using c by (simp_all add: signature_def scan_shell)
qed

lemma apps: "old_app \<noteq> new_app" "old_app \<noteq> []" "new_app \<noteq> []"
  by (simp_all add: old_app_def new_app_def)

lemmas page_eval = run_events_def fresh_page_def start_def schedulePeriodicCheck_def arm_def check_def
  check_settled_def read_shell_def reloadWhenIdle_def cancelReload_def disarm_def reloadedFor_def
  rememberReloadedFor_def Let_def signature_app apps apps [symmetric] IDLE_BEFORE_RELOAD_MS_def RELOAD_RETRY_MS_def CHECK_INTERVAL_MS_def

definition deploy_run :: "page_event list" where
  "deploy_run = [Start [old_app], Passes 60000, Check True]"

theorem reloads_help_and_disturb_nobody_witness:
  "reloads (page_step (ShellArrives (Shell 200 (shell_of [new_app])))
      (run_events page_step deploy_run (fresh_page 0 [] True []))) = [new_app]
   \<and> IDLE_BEFORE_RELOAD_MS \<le> clock (run_events page_step deploy_run (fresh_page 0 [] True []))"
proof -
  let ?s = "run_events page_step deploy_run (fresh_page 0 [] True [])"
  have r: "reloads (page_step (ShellArrives (Shell 200 (shell_of [new_app]))) ?s) = [new_app]"
    and "reloads ?s = []" and "lastInputAt ?s = 0"
    by (simp_all add: deploy_run_def page_eval)
  then show ?thesis
    using reloads_help_and_disturb_nobody [OF page_reachable_run [of deploy_run 0 "[]"],
        of "ShellArrives (Shell 200 (shell_of [new_app]))"]
    by simp
qed

text \<open>C31: A stale page never forgets to reload and never stops checking: with a working session
  storage, while the page knows of a newer version it has not reloaded for, its reload timer is
  armed and due within the retry time; and a started page has exactly one link of its periodic
  check alive, a timer or the check that timer awaits.\<close>

theorem stale_page_keeps_trying:
  assumes "reachable fresh_start page_rel s"
  shows "(staleSignature s \<noteq> [] \<and> staleSignature s \<noteq> reloadedFor s \<longrightarrow>
        (\<exists>h d. reloadTimer s = Some h \<and> (h, ReloadTimer, d) \<in> set (armed s) \<and> d \<le> clock s + RELOAD_RETRY_MS))
    \<and> (started s \<longrightarrow> check_timers s + (if pending_check s = Some True then 1 else 0) = 1)"
  using page.always [OF assms] by (simp add: page_inv_def waits_for_idle_def chain_ok_def reloadedFor_def)

definition busy_run :: "page_event list" where
  "busy_run = [Start [old_app], Check True, ShellArrives (Shell 200 (shell_of [new_app]))]"

theorem stale_page_keeps_trying_witness:
  "staleSignature (run_events page_step busy_run (fresh_page 0 [] True [])) = new_app
   \<and> (\<exists>h. reloadTimer (run_events page_step busy_run (fresh_page 0 [] True [])) = Some h)"
proof -
  let ?s = "run_events page_step busy_run (fresh_page 0 [] True [])"
  have "staleSignature ?s = new_app" "reloadedFor ?s = []"
    by (simp_all add: busy_run_def page_eval)
  then show ?thesis
    using stale_page_keeps_trying [OF page_reachable_run [of busy_run 0 "[]"]] apps(3) by auto
qed

end
