(* ===== verification/Measurement_Entry.thy ===== *)
theory Measurement_Entry
  imports Interfaces
begin

section \<open>Measurement entries\<close>

text \<open>
  The normal form in which static/measurement_ui.js keeps a measurement the server returns: its traces
  with their finite points, and defaults for everything a result may lack.
\<close>

subsection \<open>Traces\<close>

definition finite_value :: "jsval \<Rightarrow> bool" where
  "finite_value v = (\<not> nullish v \<and> is_fin (to_num v))"

definition good_point :: "jsval \<Rightarrow> bool" where
  "good_point p = (case p of JArr [x, y] \<Rightarrow> finite_value x \<and> finite_value y | _ \<Rightarrow> False)"

definition number_point :: "jsval \<Rightarrow> jsval" where
  "number_point p = JArr (List.map (\<lambda>v. JNum (to_num v)) (take 2 (arr_items p)))"

definition trace_points :: "jsval \<Rightarrow> jsval list" where
  "trace_points tr = List.map number_point (filter good_point (arr_items (jget tr ''points'')))"

definition TRACE_COLORS :: "string list" where
  "TRACE_COLORS = [''#6ee7b7'', ''#a78bfa'', ''#f59e0b'', ''#60a5fa'']"

definition text_or :: "jsval \<Rightarrow> string \<Rightarrow> string" where
  "text_or v d = to_str (js_or v (JStr d))"

definition normalizeMeasurementTrace :: "jsval \<Rightarrow> nat \<Rightarrow> jsval" where
  "normalizeMeasurementTrace tr i =
     (let offset = to_num (jget tr ''display_offset_db'')
      in JObj ([(''kind'', JStr (text_or (jget tr ''kind'') ''measured'')),
                (''label'', JStr (text_or (jget tr ''label'') (''Trace '' @ nat_str (i + 1)))),
                (''color'', JStr (text_or (jget tr ''color'') (TRACE_COLORS ! (i mod 4)))),
                (''role'', JStr (text_or (jget tr ''role'') [])),
                (''points'', JArr (trace_points tr))]
               @ (if is_fin offset then [(''display_offset_db'', JNum offset)] else [])))"

definition has_points :: "jsval \<Rightarrow> bool" where
  "has_points tr = (arr_items (jget tr ''points'') \<noteq> [])"

definition normalize_traces :: "jsval \<Rightarrow> jsval list" where
  "normalize_traces v =
     filter has_points (List.map (\<lambda>(i, tr). normalizeMeasurementTrace tr i) (List.enumerate 0 (arr_items v)))"

subsection \<open>Entries\<close>

definition obj_or_empty :: "jsval \<Rightarrow> jsval" where
  "obj_or_empty v = js_or v (JObj [])"

definition normalizeMeasurementEntry :: "jsval \<Rightarrow> nat \<Rightarrow> jsval" where
  "normalizeMeasurementEntry m i = JObj
     [(''id'', JStr (text_or (jget m ''id'') (''measurement-'' @ nat_str (i + 1)))),
      (''name'', JStr (text_or (jget m ''name'') (''Measurement '' @ nat_str (i + 1)))),
      (''created_at'', JStr (text_or (jget m ''created_at'') [])),
      (''channel'', JStr (text_or (jget m ''channel'') ''left'')),
      (''measurement_kind'', JStr (text_or (jget m ''measurement_kind'') [])),
      (''measurement_role'', JStr (text_or (jget m ''measurement_role'') [])),
      (''input_device'', obj_or_empty (jget m ''input_device'')),
      (''input_channels'', obj_or_empty (jget m ''input_channels'')),
      (''calibration'', obj_or_empty (jget m ''calibration'')),
      (''autosub_meta'', js_or (jget m ''autosub_meta'') JNull),
      (''speaker_align_take'', if truthy_object (jget m ''speaker_align_take'')
                               then clone (jget m ''speaker_align_take'') else JNull),
      (''summary'', obj_or_empty (jget m ''summary'')),
      (''review_summary'', obj_or_empty (jget m ''review_summary'')),
      (''analysis'', obj_or_empty (jget m ''analysis'')),
      (''audio_output_context'', obj_or_empty (jget m ''audio_output_context'')),
      (''measurement_target'', js_or (jget m ''measurement_target'') JNull),
      (''storage_path'', js_or (jget m ''storage_path'') (JStr [])),
      (''traces'', JArr (normalize_traces (jget m ''traces''))),
      (''review_traces'', JArr (normalize_traces (jget m ''review_traces'')))]"

text \<open>The visibility of the listed entries: what is known is kept, the rest is hidden.\<close>

definition normalizeMeasurementVisibility :: "jsval list \<Rightarrow> jsval \<Rightarrow> jsval" where
  "normalizeMeasurementVisibility ms previous =
     fold (\<lambda>m next. jput (to_str (jget m ''id''))
                      (case jget previous (to_str (jget m ''id'')) of JBool b \<Rightarrow> JBool b | _ \<Rightarrow> JBool False) next)
       ms (JObj [])"

subsection \<open>The normal form\<close>

lemma text_or_str [simp]: "text_or (JStr s) d = (if s = [] then d else s)"
  by (simp add: text_or_def js_or_def)

lemma obj_or_empty_idem [simp]: "obj_or_empty (obj_or_empty v) = obj_or_empty v"
  by (simp add: obj_or_empty_def js_or_def)

lemma js_or_idem: "js_or (js_or v d) d = js_or v d"
  by (simp add: js_or_def)

fun plain_point :: "jsval \<Rightarrow> bool" where
  "plain_point (JArr [JNum x, JNum y]) = (is_fin x \<and> is_fin y)"
| "plain_point v = False"

lemma number_point_plain: "good_point p \<Longrightarrow> plain_point (number_point p)"
  by (auto simp: good_point_def number_point_def finite_value_def split: jsval.splits list.splits)

lemma plain_point_good: "plain_point p \<Longrightarrow> good_point p \<and> number_point p = p"
  by (erule plain_point.elims) (simp_all add: number_point_def good_point_def finite_value_def nullish_def)

lemma trace_points_plain: "p \<in> set (trace_points tr) \<Longrightarrow> plain_point p"
  by (auto simp: trace_points_def number_point_plain)

lemma trace_points_id:
  assumes "\<forall>p \<in> set ps. plain_point p" "jget tr ''points'' = JArr ps"
  shows "trace_points tr = ps"
proof -
  have "filter good_point ps = ps" using assms plain_point_good by (simp add: filter_id_conv)
  moreover have "List.map number_point ps = ps"
    using assms plain_point_good by (simp add: map_idI)
  ultimately show ?thesis by (simp add: trace_points_def assms)
qed

text \<open>A field the code reads as text holds a string, or nothing.\<close>

definition texts :: "string list \<Rightarrow> jsval \<Rightarrow> bool" where
  "texts ks v = (\<forall>k \<in> set ks. is_str (jget v k) \<or> \<not> truthy (jget v k))"

lemma text_or_nonempty: "is_str v \<or> \<not> truthy v \<Longrightarrow> d \<noteq> [] \<Longrightarrow> text_or v d \<noteq> []"
  by (cases v) (auto simp: text_or_def js_or_def)

lemma jget_cons [simp]: "jget (JObj ((k, v) # ps)) k' = (if k' = k then v else jget (JObj ps) k')"
  by (simp add: jget_def)

lemma jget_nil [simp]: "jget (JObj []) k = JUndef"
  by (simp add: jget_def)

definition settled_trace :: "jsval \<Rightarrow> bool" where
  "settled_trace tr = (\<forall>i. normalizeMeasurementTrace tr i = tr)"

lemma normalized_trace_settled:
  assumes "texts [''kind'', ''label'', ''color''] tr"
  shows "settled_trace (normalizeMeasurementTrace tr i)"
proof -
  have ne: "text_or (jget tr ''kind'') ''measured'' \<noteq> []"
    "text_or (jget tr ''label'') (''Trace '' @ nat_str (i + 1)) \<noteq> []"
    "text_or (jget tr ''color'') (TRACE_COLORS ! (i mod 4)) \<noteq> []"
  proof -
    have "i mod 4 \<in> {0, 1, 2, 3}" by auto
    then have "TRACE_COLORS ! (i mod 4) \<noteq> []" by (auto simp: TRACE_COLORS_def)
    then show "text_or (jget tr ''color'') (TRACE_COLORS ! (i mod 4)) \<noteq> []"
      using assms by (simp add: texts_def text_or_nonempty)
  qed (use assms in \<open>simp_all add: texts_def text_or_nonempty\<close>)
  have points: "trace_points (normalizeMeasurementTrace tr i) = trace_points tr"
    by (rule trace_points_id) (simp_all add: trace_points_plain normalizeMeasurementTrace_def Let_def)
  have "normalizeMeasurementTrace (normalizeMeasurementTrace tr i) j = normalizeMeasurementTrace tr i" for j
    using ne points by (simp add: normalizeMeasurementTrace_def Let_def)
  then show ?thesis by (simp add: settled_trace_def)
qed

definition text_traces :: "jsval \<Rightarrow> bool" where
  "text_traces v = (\<forall>tr \<in> set (arr_items v). texts [''kind'', ''label'', ''color''] tr)"

lemma normalize_traces_set:
  "tr \<in> set (normalize_traces v) \<Longrightarrow> has_points tr \<and> (\<exists>i. \<exists>raw \<in> set (arr_items v). tr = normalizeMeasurementTrace raw i)"
  by (auto simp: normalize_traces_def in_set_enumerate_eq) (metis nth_mem)

lemma normalize_traces_idem:
  assumes "text_traces v"
  shows "normalize_traces (JArr (normalize_traces v)) = normalize_traces v"
proof -
  have settled: "settled_trace tr \<and> has_points tr" if "tr \<in> set (normalize_traces v)" for tr
    using normalize_traces_set [OF that] assms
    by (auto simp: text_traces_def normalized_trace_settled)
  have id: "List.map (\<lambda>(i, tr). normalizeMeasurementTrace tr i) (List.enumerate n ts) = ts"
    if "\<forall>tr \<in> set ts. settled_trace tr" for n ts
    using that by (induction ts arbitrary: n) (simp_all add: settled_trace_def)
  show ?thesis
    using settled by (simp add: normalize_traces_def [of "JArr ts" for ts] id filter_id_conv)
qed

definition ENTRY_TEXTS :: "string list" where
  "ENTRY_TEXTS = [''id'', ''name'', ''channel'']"

text \<open>A trace the graph can draw: at least one point, every point a pair of finite numbers.\<close>

definition drawable :: "jsval \<Rightarrow> bool" where
  "drawable tr = (arr_items (jget tr ''points'') \<noteq> [] \<and> (\<forall>p \<in> set (arr_items (jget tr ''points'')). plain_point p))"

lemma normalize_traces_drawable: "tr \<in> set (normalize_traces v) \<Longrightarrow> drawable tr"
  using normalize_traces_set [of tr v]
  by (auto simp: drawable_def has_points_def normalizeMeasurementTrace_def Let_def trace_points_plain)

text \<open>C34: What the server returns for a measurement is brought into one normal form: whatever it is,
  every trace of the normal form can be drawn (it has points, all of them pairs of finite numbers),
  the identifier, the name and the channel are text, and where the fields the code reads as text are
  text or missing, the identifier, name and channel are not empty and normalising again, at any
  position, changes nothing.\<close>

theorem entries_have_a_normal_form:
  "(\<forall>tr \<in> set (arr_items (jget (normalizeMeasurementEntry m i) ''traces''))
        \<union> set (arr_items (jget (normalizeMeasurementEntry m i) ''review_traces'')). drawable tr)
   \<and> (\<forall>k \<in> set ENTRY_TEXTS. is_str (jget (normalizeMeasurementEntry m i) k))
   \<and> (texts ENTRY_TEXTS m \<and> text_traces (jget m ''traces'') \<and> text_traces (jget m ''review_traces'')
      \<longrightarrow> (\<forall>k \<in> set ENTRY_TEXTS. jget (normalizeMeasurementEntry m i) k \<noteq> JStr [])
        \<and> normalizeMeasurementEntry (normalizeMeasurementEntry m i) j = normalizeMeasurementEntry m i)"
proof (intro conjI impI)
  show "\<forall>tr \<in> set (arr_items (jget (normalizeMeasurementEntry m i) ''traces''))
        \<union> set (arr_items (jget (normalizeMeasurementEntry m i) ''review_traces'')). drawable tr"
    by (auto simp: normalizeMeasurementEntry_def normalize_traces_drawable)
  show "\<forall>k \<in> set ENTRY_TEXTS. is_str (jget (normalizeMeasurementEntry m i) k)"
    by (simp add: ENTRY_TEXTS_def normalizeMeasurementEntry_def)
  assume a: "texts ENTRY_TEXTS m \<and> text_traces (jget m ''traces'') \<and> text_traces (jget m ''review_traces'')"
  then have ne: "text_or (jget m ''id'') (''measurement-'' @ nat_str (i + 1)) \<noteq> []"
    "text_or (jget m ''name'') (''Measurement '' @ nat_str (i + 1)) \<noteq> []"
    "text_or (jget m ''channel'') ''left'' \<noteq> []"
    by (simp_all add: texts_def ENTRY_TEXTS_def text_or_nonempty)
  then show "\<forall>k \<in> set ENTRY_TEXTS. jget (normalizeMeasurementEntry m i) k \<noteq> JStr []"
    by (simp add: ENTRY_TEXTS_def normalizeMeasurementEntry_def)
  show "normalizeMeasurementEntry (normalizeMeasurementEntry m i) j = normalizeMeasurementEntry m i"
    using a ne by (simp add: normalizeMeasurementEntry_def normalize_traces_idem js_or_idem)
      (simp add: js_or_def truthy_object_def clone_def)
qed

definition raw_sweep :: jsval where
  "raw_sweep = JObj [(''id'', JStr ''m1''), (''traces'', JArr [
     JObj [(''points'', JArr [])],
     JObj [(''label'', JStr ''Left''), (''points'', JArr [JArr [JStr ''20'', JNum (Fin 3)],
        JArr [JNum (Fin 30), JNull], JArr [JNum (Fin 40)]])]])]"

theorem entries_have_a_normal_form_witness:
  "arr_items (jget (normalizeMeasurementEntry raw_sweep 0) ''traces'') =
     [JObj [(''kind'', JStr ''measured''), (''label'', JStr ''Left''), (''color'', JStr ''#a78bfa''),
            (''role'', JStr []), (''points'', JArr [JArr [JNum (Fin 20), JNum (Fin 3)]])]]
   \<and> normalizeMeasurementEntry (normalizeMeasurementEntry raw_sweep 0) 7 = normalizeMeasurementEntry raw_sweep 0"
proof -
  have "texts ENTRY_TEXTS raw_sweep \<and> text_traces (jget raw_sweep ''traces'')
      \<and> text_traces (jget raw_sweep ''review_traces'')"
    by code_simp
  then have "normalizeMeasurementEntry (normalizeMeasurementEntry raw_sweep 0) 7 = normalizeMeasurementEntry raw_sweep 0"
    using entries_have_a_normal_form [of raw_sweep 0 7] by simp
  moreover have "arr_items (jget (normalizeMeasurementEntry raw_sweep 0) ''traces'') =
     [JObj [(''kind'', JStr ''measured''), (''label'', JStr ''Left''), (''color'', JStr ''#a78bfa''),
            (''role'', JStr []), (''points'', JArr [JArr [JNum (Fin 20), JNum (Fin 3)]])]]"
    by code_simp
  ultimately show ?thesis by simp
qed

end
