(* ===== verification/Measurement_Job.thy ===== *)
theory Measurement_Job
  imports Playback_Actions Measurement_Entry
begin

section \<open>The measurement job\<close>

text \<open>
  The lifecycle of a sweep: static/measurement_capture.js (the start of a single sweep and of an L/R
  repeat) and static/measurement_job.js (status, polling and cancellation), with the helpers of
  static/measurement_ui.js they read a job with and the button handlers of static/app.js. A start is
  one asynchronous call; the place where it waits is its stage, one per \<open>await\<close>, and the answer it
  waits for is the step that continues it. A cancellation is a call of its own unless a start made
  it. The other flows (Auto Sub, Speaker Align, the hybrid wizard) are the three flags the modules
  read; no step of this machine sets them. Rendering is assumed to return. The timing line of a result
  (\<open>getMeasurementTimingInfo\<close>) is an argument: a line, or the message it fails with. The fields of
  the request forms are left out.
\<close>

subsection \<open>Reading a job\<close>

definition CANCELLED_STATES :: "string list" where
  "CANCELLED_STATES = [''cancelled'', ''canceled'']"

definition FAILED_STATES :: "string list" where
  "FAILED_STATES = [''failed'', ''failure'', ''error'']"

definition SUCCESS_STATES :: "string list" where
  "SUCCESS_STATES = [''completed'', ''complete'', ''finished'', ''success'', ''ready'', ''done'', ''ok'']"

definition getMeasurementJobStatus :: "jsval \<Rightarrow> string" where
  "getMeasurementJobStatus job = lower_case (trim (str_or_empty (jget job ''status'')))"

definition normalizeMeasurementKind :: "jsval \<Rightarrow> string" where
  "normalizeMeasurementKind kind =
     (if kind = JStr ''lr-repeat'' \<or> kind = JStr ''lr_repeat'' then ''lr_repeat''
      else if kind = JStr ''auto_sub'' \<or> kind = JStr ''auto-sub'' \<or> kind = JStr ''autosub'' then ''auto_sub''
      else if kind = JStr ''single'' then ''single'' else if kind = JStr ''hybrid'' then ''hybrid'' else [])"

definition getMeasurementJobResultMeasurement :: "jsval \<Rightarrow> jsval" where
  "getMeasurementJobResultMeasurement job =
     (let result = jget job ''result'' in
      if truthy_object (jget result ''measurement'') then jget result ''measurement''
      else if truthy_object (jget job ''measurement'') then jget job ''measurement''
      else if truthy_object result \<and> (is_arr (jget result ''traces'') \<or> truthy (jget result ''summary'')
                                      \<or> truthy (jget result ''analysis'')) then result
      else JNull)"

text \<open>\<open>/\\b(CLIP|dBFS)\\b/.test(message)\<close>.\<close>

definition word_char :: "char \<Rightarrow> bool" where
  "word_char c = (let n = of_char c :: nat in (48 \<le> n \<and> n \<le> 57) \<or> (65 \<le> n \<and> n \<le> 90) \<or> (97 \<le> n \<and> n \<le> 122) \<or> n = 95)"

fun has_word :: "bool \<Rightarrow> string \<Rightarrow> string \<Rightarrow> bool" where
  "has_word after_word w [] = False"
| "has_word after_word w (c # s) =
     ((\<not> after_word \<and> starts_with (c # s) w
       \<and> (case drop (length w) (c # s) of [] \<Rightarrow> True | d # t \<Rightarrow> \<not> word_char d))
      \<or> has_word (word_char c) w s)"

text \<open>\<open>String(m).replace(/^Measurement failed\\.?:?\\s*/i, '').trim()\<close>.\<close>

definition drop_one :: "char \<Rightarrow> string \<Rightarrow> string" where
  "drop_one c s = (if starts_with s [c] then tl s else s)"

definition strip_failed :: "string \<Rightarrow> string" where
  "strip_failed m =
     trim (if starts_with (lower_case m) ''measurement failed''
           then trim_start (drop_one (CHR '':'') (drop_one (CHR ''.'') (drop 18 m))) else m)"

definition failureText :: "string \<Rightarrow> string \<Rightarrow> string" where
  "failureText label message =
     (let reason = strip_failed message
      in if reason \<noteq> [] then label @ '' failed: '' @ reason else label @ '' failed.'')"

definition measurementNumberOrNaN :: "jsval \<Rightarrow> jsnum" where
  "measurementNumberOrNaN v =
     (if nullish v \<or> (case v of JStr s \<Rightarrow> trim s = [] | _ \<Rightarrow> False) then NaN else to_num v)"

definition formatMeasurementInputLevelText :: "jsval \<Rightarrow> string" where
  "formatMeasurementInputLevelText inputLevel =
     (let peak = measurementNumberOrNaN (jget inputLevel ''peak_dbfs'') in
      if \<not> truthy_object inputLevel then []
      else if truthy (jget inputLevel ''clipped'') then ''CLIP''
      else if peak = NegInf then ''Peak < -90 dBFS''
      else if \<not> is_fin peak then []
      else if peak \<le> Fin (- 90) then ''Peak < -90 dBFS''
      else ''Peak '' @ num_str (js_round peak) @ '' dBFS'')"

definition getTypedMeasurementName :: "string \<Rightarrow> string \<Rightarrow> string" where
  "getTypedMeasurementName typed0 shown0 =
     (let typed = trim typed0; shown = trim shown0 in if typed \<noteq> [] \<and> typed = shown then typed else [])"

subsection \<open>State\<close>

datatype job_kind = Single | LrRepeat

text \<open>What a poll keeps: the job, the attempt, the failures in a row and the label of its messages.\<close>

record poll =
  pollJob :: string
  pollAttempt :: nat
  pollErrors :: nat
  pollLabel :: string

datatype job_outcome = Succeeded jsval | Failed jsval | Cancelled

text \<open>What a cancellation keeps: generation, job, label and the progress text it replaced.\<close>

record cancellation =
  cancelGen :: nat
  cancelJob :: string
  cancelLabel :: string
  cancelPrevious :: string

datatype start_stage =
    Flushing
  | Starting
  | CancelFirst cancellation
  | PollFetch poll
  | PollSleep poll
  | Snapshot poll job_outcome

datatype job_task =
    Start job_kind nat start_stage
  | Cancel cancellation

record meas =
  activeJobId :: string
  activeMeasurementKind :: string
  startInFlight :: bool
  cancelRequested :: bool
  repeatJobActive :: bool
  jobGeneration :: nat
  progressKind :: string
  progressText :: string
  statusText :: string
  autoSubInFlight :: bool
  speakerAlignInFlight :: bool
  hybridRunning :: bool
  pendingRepeatMeasurements :: "jsval list"
  autoSubMeasurements :: "jsval list"
  currentMeasurement :: jsval
  currentMeasurementName :: string
  currentMeasurementSaved :: bool
  typedMeasurementName :: string
  reviewVisibilityById :: jsval
  graphView :: string

record job_page =
  meas :: meas
  tasks :: "(nat \<times> job_task) list"
  task_id :: nat
  job_toasts :: "(string \<times> string) list"

definition init_meas :: meas where
  "init_meas = \<lparr>activeJobId = [], activeMeasurementKind = [], startInFlight = False, cancelRequested = False,
     repeatJobActive = False, jobGeneration = 0, progressKind = [], progressText = [], statusText = [],
     autoSubInFlight = False, speakerAlignInFlight = False, hybridRunning = False,
     pendingRepeatMeasurements = [], autoSubMeasurements = [], currentMeasurement = JNull,
     currentMeasurementName = [], currentMeasurementSaved = False, typedMeasurementName = [],
     reviewVisibilityById = JObj [], graphView = ''freq''\<rparr>"

definition init_job_page :: job_page where
  "init_job_page = \<lparr>meas = init_meas, tasks = [], task_id = 0, job_toasts = []\<rparr>"

definition on_meas :: "(meas \<Rightarrow> meas) \<Rightarrow> job_page \<Rightarrow> job_page" where
  "on_meas f s = s\<lparr>meas := f (meas s)\<rparr>"

definition job_toast :: "string \<Rightarrow> string \<Rightarrow> job_page \<Rightarrow> job_page" where
  "job_toast m kind s = s\<lparr>job_toasts := (m, kind) # job_toasts s\<rparr>"

text \<open>A call waits: its task keeps the id it was started under.\<close>

definition wait :: "nat \<Rightarrow> job_task \<Rightarrow> job_page \<Rightarrow> job_page" where
  "wait i t s = s\<lparr>tasks := (i, t) # filter (\<lambda>x. fst x \<noteq> i) (tasks s)\<rparr>"

definition job_done :: "nat \<Rightarrow> job_page \<Rightarrow> job_page" where
  "job_done i s = s\<lparr>tasks := filter (\<lambda>x. fst x \<noteq> i) (tasks s)\<rparr>"

subsection \<open>Status\<close>

definition cancelling :: string where "cancelling = ''Cancelling'' @ ellipsis"

definition setSweepProgress :: "string \<Rightarrow> meas \<Rightarrow> meas" where
  "setSweepProgress t m = m\<lparr>progressKind := ''sweep'', progressText := t\<rparr>"

definition clearSweepProgress :: "meas \<Rightarrow> meas" where
  "clearSweepProgress m =
     (if progressKind m = ''sweep'' then m\<lparr>progressKind := [], progressText := []\<rparr> else m)"

text \<open>\<open>setProgress\<close> of static/measurement_capture.js.\<close>

definition setProgress :: "string \<Rightarrow> meas \<Rightarrow> meas" where
  "setProgress t m = (if cancelRequested m then m else setSweepProgress t m)"

definition sweepLabel :: "meas \<Rightarrow> string" where
  "sweepLabel m =
     (if repeatJobActive m \<or> activeMeasurementKind m = ''lr_repeat'' then ''L/R repeat'' else ''Sweep'')"

definition finishSweep :: "string \<Rightarrow> meas \<Rightarrow> meas" where
  "finishSweep outcome m = clearSweepProgress (m\<lparr>statusText := outcome\<rparr>)"

definition getActiveMeasurementKind :: "meas \<Rightarrow> string" where
  "getActiveMeasurementKind m =
     (let normalized = normalizeMeasurementKind (JStr (activeMeasurementKind m))
      in if autoSubInFlight m then ''auto_sub'' else if speakerAlignInFlight m then ''speaker_align''
         else if hybridRunning m then ''hybrid''
         else if normalized \<noteq> [] \<and> activeJobId m \<noteq> [] then normalized
         else if repeatJobActive m \<and> activeJobId m \<noteq> [] then ''lr_repeat''
         else if activeJobId m \<noteq> [] then ''single'' else [])"

definition hasActiveMeasurementJob :: "meas \<Rightarrow> bool" where
  "hasActiveMeasurementJob m =
     (activeJobId m \<noteq> [] \<or> autoSubInFlight m \<or> speakerAlignInFlight m \<or> hybridRunning m)"

definition formatMeasurementJobStatusText :: "meas \<Rightarrow> jsval \<Rightarrow> string \<Rightarrow> string" where
  "formatMeasurementJobStatusText m job fallback =
     (let message = to_str (js_or (jget job ''message'') (JStr fallback));
          levelText = formatMeasurementInputLevelText (jget job ''input_level'');
          isLrRepeat = (jget job ''job_kind'' = JStr ''lr-repeat'' \<or> repeatJobActive m)
      in if \<not> isLrRepeat \<or> levelText = [] \<or> has_word False ''CLIP'' message \<or> has_word False ''dBFS'' message
         then message else message @ '' '' @ mid_dot @ '' '' @ levelText)"

text \<open>The five assignments every end of a run makes.\<close>

definition clear_job :: "meas \<Rightarrow> meas" where
  "clear_job m = m\<lparr>activeJobId := [], startInFlight := False, cancelRequested := False,
     activeMeasurementKind := [], repeatJobActive := False\<rparr>"

subsection \<open>The end of a start\<close>

definition kind_label :: "job_kind \<Rightarrow> string" where
  "kind_label k = (case k of Single \<Rightarrow> ''Sweep'' | LrRepeat \<Rightarrow> ''L/R repeat'')"

text \<open>The \<open>finally\<close> block, and the \<open>catch\<close> block before it.\<close>

definition settle_flags :: "meas \<Rightarrow> meas" where
  "settle_flags m0 =
     (let m = (clearSweepProgress m0)\<lparr>startInFlight := False\<rparr>
      in if activeJobId m = []
         then m\<lparr>activeMeasurementKind := [], repeatJobActive := False, cancelRequested := False\<rparr> else m)"

definition start_finally :: "nat \<Rightarrow> nat \<Rightarrow> job_page \<Rightarrow> job_page" where
  "start_finally gen i s =
     (if jobGeneration (meas s) \<noteq> gen then job_done i s else on_meas settle_flags (job_done i s))"

definition start_failed :: "job_kind \<Rightarrow> nat \<Rightarrow> nat \<Rightarrow> string \<Rightarrow> job_page \<Rightarrow> job_page" where
  "start_failed k gen i message s =
     (if jobGeneration (meas s) \<noteq> gen then job_done i s
      else start_finally gen i (job_toast (kind_label k @ '' failed'') ''error''
             (on_meas (\<lambda>m. m\<lparr>statusText := failureText (kind_label k) message\<rparr>) s)))"

subsection \<open>Polling\<close>

definition MAX_ATTEMPTS :: nat where "MAX_ATTEMPTS = 360"

definition MAX_CONSECUTIVE_ERRORS :: nat where "MAX_CONSECUTIVE_ERRORS = 40"

definition is_current :: "nat \<Rightarrow> string \<Rightarrow> meas \<Rightarrow> bool" where
  "is_current gen jobId m = (jobGeneration m = gen \<and> activeJobId m = jobId)"

text \<open>The head of the loop.\<close>

definition poll_enter :: "job_kind \<Rightarrow> nat \<Rightarrow> nat \<Rightarrow> poll \<Rightarrow> job_page \<Rightarrow> job_page" where
  "poll_enter k gen i p s =
     (if \<not> is_current gen (pollJob p) (meas s) then start_finally gen i s
      else if pollAttempt p < MAX_ATTEMPTS then wait i (Start k gen (PollFetch p)) s
      else start_failed k gen i ''timed out waiting for the result'' (on_meas clear_job s))"

definition pollMeasurementJob :: "job_kind \<Rightarrow> nat \<Rightarrow> nat \<Rightarrow> string \<Rightarrow> job_page \<Rightarrow> job_page" where
  "pollMeasurementJob k gen i jobId s =
     (if jobId = [] then start_finally gen i s
      else poll_enter k gen i \<lparr>pollJob = jobId, pollAttempt = 0, pollErrors = 0, pollLabel = sweepLabel (meas s)\<rparr> s)"

definition poll_interrupted :: "nat \<Rightarrow> nat \<Rightarrow> poll \<Rightarrow> string \<Rightarrow> job_page \<Rightarrow> job_page" where
  "poll_interrupted gen i p reason s =
     start_finally gen i (job_toast (pollLabel p @ '' interrupted'') ''error''
       (on_meas (\<lambda>m. clear_job (finishSweep (pollLabel p @ '' interrupted: '' @ reason) m)) s))"

definition poll_error :: "job_kind \<Rightarrow> nat \<Rightarrow> nat \<Rightarrow> poll \<Rightarrow> string \<Rightarrow> job_page \<Rightarrow> job_page" where
  "poll_error k gen i p reason s =
     (let q = p\<lparr>pollErrors := pollErrors p + 1\<rparr>
      in if MAX_CONSECUTIVE_ERRORS \<le> pollErrors q then poll_interrupted gen i p reason s
         else wait i (Start k gen (PollSleep q)) s)"

text \<open>A job that has been read.\<close>

definition show_progress :: "jsval \<Rightarrow> meas \<Rightarrow> meas" where
  "show_progress job m =
     (if progressText m = cancelling then m
      else setSweepProgress (formatMeasurementJobStatusText m job
             (if progressText m = [] then ''Running'' @ ellipsis else progressText m)) m)"

definition job_read :: "job_kind \<Rightarrow> nat \<Rightarrow> nat \<Rightarrow> poll \<Rightarrow> jsval \<Rightarrow> job_page \<Rightarrow> job_page" where
  "job_read k gen i p job s0 =
     (let jobStatus = getMeasurementJobStatus job; s = on_meas (show_progress job) s0 in
      if jobStatus \<in> set SUCCESS_STATES
      then wait i (Start k gen (Snapshot p (Succeeded job)))
             (on_meas (\<lambda>m. clear_job (finishSweep (pollLabel p @ '' finished.'') m)) s)
      else if jobStatus \<in> set FAILED_STATES
      then wait i (Start k gen (Snapshot p (Failed job))) (on_meas clear_job s)
      else if jobStatus \<in> set CANCELLED_STATES
      then wait i (Start k gen (Snapshot p Cancelled))
             (on_meas (\<lambda>m. finishSweep (pollLabel p @ '' cancelled.'') (clear_job m)) s)
      else wait i (Start k gen (PollSleep (p\<lparr>pollErrors := 0\<rparr>)))
             (on_meas (\<lambda>m. m\<lparr>activeJobId := to_str (js_or (jget job ''id'') (JStr (pollJob p)))\<rparr>) s))"

definition gone :: "nat \<Rightarrow> bool" where "gone st = (st = 404 \<or> st = 410)"

definition poll_settled :: "job_kind \<Rightarrow> nat \<Rightarrow> nat \<Rightarrow> poll \<Rightarrow> response \<Rightarrow> job_page \<Rightarrow> job_page" where
  "poll_settled k gen i p resp s =
     (if \<not> is_current gen (pollJob p) (meas s) then start_finally gen i s
      else case resp of
        NetError m \<Rightarrow> poll_error k gen i p (or_default m ''connection lost'') s
      | Http st body \<Rightarrow>
          (let data = json_or_empty resp in
           if \<not> resp_ok resp
           then (if gone st then poll_interrupted gen i p ''the run is no longer available.'' s
                 else if nullish data then start_failed k gen i (null_read_error data ''detail'') s
                 else poll_error k gen i p (formatTransitionErrorDetail (jget data ''detail'') ''connection lost'') s)
           else if nullish data then start_failed k gen i (null_read_error data ''job'') s
           else job_read k gen i p (js_or (jget data ''job'') (JObj [])) s))"

text \<open>\<open>await deps.sleep(800)\<close> is over.\<close>

definition poll_slept :: "job_kind \<Rightarrow> nat \<Rightarrow> nat \<Rightarrow> poll \<Rightarrow> job_page \<Rightarrow> job_page" where
  "poll_slept k gen i p s = poll_enter k gen i (p\<lparr>pollAttempt := pollAttempt p + 1\<rparr>) s"

text \<open>The debug snapshot at the end of a run is over, and the outcome is shown.\<close>

definition has_review :: "jsval \<Rightarrow> bool" where
  "has_review m = (case jget m ''review_traces'' of JArr ts \<Rightarrow> ts \<noteq> [] | _ \<Rightarrow> False)"

definition entry_id :: "jsval \<Rightarrow> string" where
  "entry_id m = to_str (jget m ''id'')"

definition show_review :: "jsval \<Rightarrow> meas \<Rightarrow> meas" where
  "show_review entry m =
     m\<lparr>reviewVisibilityById := jput (entry_id entry) (JBool (has_review entry)) (reviewVisibilityById m)\<rparr>"

definition repeat_measurements :: "jsval \<Rightarrow> jsval list" where
  "repeat_measurements job = arr_items (jpath job [''result'', ''measurements''])"

definition show_repeat :: "jsval \<Rightarrow> meas \<Rightarrow> meas" where
  "show_repeat job m0 =
     (let entries = List.map (\<lambda>(i, e). normalizeMeasurementEntry e i)
                      (List.enumerate 0 (repeat_measurements job));
          m = m0\<lparr>pendingRepeatMeasurements := entries, autoSubMeasurements := [],
                 currentMeasurement := (case entries of [] \<Rightarrow> JNull | e # _ \<Rightarrow> e),
                 currentMeasurementName := trim (str_or_empty (jpath job [''result'', ''base_name''])),
                 currentMeasurementSaved := False\<rparr>
      in (fold show_review entries m)\<lparr>graphView := ''freq'',
           statusText := ''L/R repeat finished. Review the L and R results and save them together.''\<rparr>)"

definition show_single :: "jsval \<Rightarrow> meas \<Rightarrow> meas" where
  "show_single result m =
     (let typedName = getTypedMeasurementName (typedMeasurementName m) (currentMeasurementName m);
          entry = normalizeMeasurementEntry result 0
      in (show_review entry (m\<lparr>currentMeasurement := entry, autoSubMeasurements := [],
            currentMeasurementName := or_default typedName (str_or_empty (jget entry ''name'')),
            currentMeasurementSaved := False\<rparr>))\<lparr>graphView := ''freq''\<rparr>)"

definition show_success :: "(jsval \<Rightarrow> string + string) \<Rightarrow> poll \<Rightarrow> jsval \<Rightarrow> job_page \<Rightarrow> job_page" where
  "show_success timing p job s =
     (let result = getMeasurementJobResultMeasurement job; label = pollLabel p in
      if repeat_measurements job \<noteq> []
      then job_toast ''L/R repeat finished'' ''success'' (on_meas (show_repeat job) s)
      else if truthy result
      then (let s1 = on_meas (show_single result) s in
            case timing (currentMeasurement (meas s1)) of
              Inl message \<Rightarrow> job_toast ''Result could not be shown'' ''error''
                (on_meas (\<lambda>m. m\<lparr>statusText :=
                   (if message \<noteq> [] then label @ '' finished, but the result could not be shown: '' @ message
                    else label @ '' finished, but the result could not be shown.'')\<rparr>) s1)
            | Inr line \<Rightarrow> job_toast (label @ '' finished'') ''success''
                (if line \<noteq> [] then on_meas (\<lambda>m. m\<lparr>statusText := label @ '' finished '' @ mid_dot @ '' '' @ line\<rparr>) s1
                 else s1))
      else job_toast ''No result data'' ''warning''
             (on_meas (\<lambda>m. m\<lparr>statusText := label @ '' finished, but no result data was returned.''\<rparr>) s))"

definition snapshot_done :: "(jsval \<Rightarrow> string + string) \<Rightarrow> job_kind \<Rightarrow> nat \<Rightarrow> nat \<Rightarrow> poll \<Rightarrow> job_outcome \<Rightarrow> job_page \<Rightarrow> job_page" where
  "snapshot_done timing k gen i p outcome s =
     (if jobGeneration (meas s) \<noteq> gen then start_finally gen i s
      else case outcome of
        Succeeded job \<Rightarrow> start_finally gen i (show_success timing p job s)
      | Failed job \<Rightarrow> start_failed k gen i
          (formatTransitionErrorDetail (jpath job [''error'', ''detail'']) (str_or_empty (jget job ''message''))) s
      | Cancelled \<Rightarrow> start_finally gen i (job_toast (pollLabel p @ '' cancelled'') ''success'' s))"

subsection \<open>Cancelling\<close>

definition cancellation_of :: "meas \<Rightarrow> cancellation" where
  "cancellation_of m = \<lparr>cancelGen = jobGeneration m, cancelJob = activeJobId m, cancelLabel = sweepLabel m,
     cancelPrevious = progressText m\<rparr>"

definition cancel_refused :: "cancellation \<Rightarrow> string \<Rightarrow> job_page \<Rightarrow> job_page" where
  "cancel_refused c message s =
     (if \<not> is_current (cancelGen c) (cancelJob c) (meas s) then s
      else job_toast ''Cancel failed'' ''error''
             (on_meas (\<lambda>m. (setSweepProgress (cancelPrevious c) m)\<lparr>statusText :=
                ''Could not cancel the '' @ lower_case (cancelLabel c) @ '': ''
                @ or_default message ''request failed''\<rparr>) s))"

definition cancel_ends :: "cancellation \<Rightarrow> string \<Rightarrow> job_page \<Rightarrow> job_page" where
  "cancel_ends c outcome s =
     (if \<not> is_current (cancelGen c) (cancelJob c) (meas s) then s
      else on_meas (\<lambda>m. clear_job (finishSweep (cancelLabel c @ outcome) m)) s)"

definition cancel_answered :: "cancellation \<Rightarrow> response \<Rightarrow> job_page \<Rightarrow> job_page" where
  "cancel_answered c resp s =
     (case resp of
        NetError m \<Rightarrow> cancel_refused c m s
      | Http st body \<Rightarrow>
          (let data = json_or_empty resp in
           if \<not> resp_ok resp
           then (if gone st then cancel_ends c '' interrupted: the run is no longer available.'' s
                 else if nullish data then cancel_refused c (null_read_error data ''detail'') s
                 else cancel_refused c (formatTransitionErrorDetail (jget data ''detail'') ''request rejected'') s)
           else if \<not> is_current (cancelGen c) (cancelJob c) (meas s) then s
           else if nullish data then cancel_refused c (null_read_error data ''job'') s
           else if getMeasurementJobStatus (js_or (jget data ''job'') (JObj [])) \<in> set CANCELLED_STATES
           then cancel_ends c '' cancelled.'' s else s))"

text \<open>\<open>cancelMeasurement\<close> up to its request, as a call of its own.\<close>

definition cancelMeasurement :: "job_page \<Rightarrow> job_page" where
  "cancelMeasurement s =
     (if activeJobId (meas s) = [] then s
      else wait (task_id s) (Cancel (cancellation_of (meas s)))
             (on_meas (setSweepProgress cancelling) (s\<lparr>task_id := task_id s + 1\<rparr>)))"

text \<open>The cancellations of the other flows are not part of this machine.\<close>

definition requestMeasurementCancellation :: "job_page \<Rightarrow> job_page" where
  "requestMeasurementCancellation s =
     (if getActiveMeasurementKind (meas s) \<in> {''hybrid'', ''auto_sub'', ''speaker_align''} then s
      else if activeJobId (meas s) \<noteq> [] then cancelMeasurement s
      else if startInFlight (meas s)
      then on_meas (\<lambda>m. setSweepProgress cancelling (m\<lparr>cancelRequested := True\<rparr>)) s
      else s)"

subsection \<open>Starting\<close>

text \<open>What the guards of a start read: the catalog's area, the input and the reason against a repeat.\<close>

record start_context =
  areaAvailable :: bool
  inputReady :: bool
  repeatBlockedReason :: string

definition NO_INPUT :: string where
  "NO_INPUT = ''No usable capture input. Select one in Setup.''"

definition no_input :: "job_page \<Rightarrow> job_page" where
  "no_input s = job_toast ''No capture input'' ''error'' (on_meas (\<lambda>m. m\<lparr>statusText := NO_INPUT\<rparr>) s)"

text \<open>\<open>startHostMeasurement\<close> and \<open>startLrRepeatMeasurement\<close> up to the flush of pending settings.\<close>

definition start_body :: "start_context \<Rightarrow> job_kind \<Rightarrow> nat \<Rightarrow> nat \<Rightarrow> job_page \<Rightarrow> job_page" where
  "start_body ctx k gen i s =
     (if \<not> areaAvailable ctx
      then start_finally gen i (job_toast ''Select a filter bank for measurement.'' ''warning'' s)
      else if \<not> inputReady ctx then start_finally gen i (no_input s)
      else wait i (Start k gen Flushing) s)"

definition claim_start :: "job_kind \<Rightarrow> meas \<Rightarrow> meas" where
  "claim_start k m0 =
     (let m = m0\<lparr>jobGeneration := jobGeneration m0 + 1, startInFlight := True, cancelRequested := False,
                 activeMeasurementKind := [], statusText := []\<rparr>
      in case k of
           Single \<Rightarrow> m\<lparr>repeatJobActive := False, activeJobId := [], currentMeasurementSaved := False\<rparr>
         | LrRepeat \<Rightarrow> m\<lparr>repeatJobActive := True\<rparr>)"

definition start_run :: "start_context \<Rightarrow> job_kind \<Rightarrow> job_page \<Rightarrow> job_page" where
  "start_run ctx k s =
     (let s1 = on_meas (claim_start k) (s\<lparr>task_id := task_id s + 1\<rparr>)
      in start_body ctx k (jobGeneration (meas s1)) (task_id s) s1)"

definition startMeasurement :: "start_context \<Rightarrow> job_page \<Rightarrow> job_page" where
  "startMeasurement ctx s =
     (if startInFlight (meas s) \<or> activeJobId (meas s) \<noteq> [] then s
      else if \<not> inputReady ctx then no_input s
      else start_run ctx Single s)"

definition startLrRepeat :: "start_context \<Rightarrow> job_page \<Rightarrow> job_page" where
  "startLrRepeat ctx s =
     (if startInFlight (meas s) \<or> activeJobId (meas s) \<noteq> [] then s
      else if repeatBlockedReason ctx \<noteq> []
      then job_toast ''L/R repeat unavailable'' ''warning''
             (on_meas (\<lambda>m. m\<lparr>statusText := repeatBlockedReason ctx\<rparr>) s)
      else if \<not> inputReady ctx then no_input s
      else start_run ctx LrRepeat s)"

definition before_request :: "job_kind \<Rightarrow> meas \<Rightarrow> meas" where
  "before_request k m0 =
     (let m = m0\<lparr>activeJobId := [], pendingRepeatMeasurements := []\<rparr> in
      setProgress (''Starting'' @ ellipsis)
        (case k of
           Single \<Rightarrow> m\<lparr>activeMeasurementKind := ''single'', currentMeasurementSaved := False\<rparr>
         | LrRepeat \<Rightarrow> m\<lparr>activeMeasurementKind := ''lr_repeat'', repeatJobActive := True\<rparr>))"

definition flush_done :: "job_kind \<Rightarrow> nat \<Rightarrow> nat \<Rightarrow> string option \<Rightarrow> job_page \<Rightarrow> job_page" where
  "flush_done k gen i failure s =
     (case failure of
        Some message \<Rightarrow> start_failed k gen i message s
      | None \<Rightarrow> wait i (Start k gen Starting) (on_meas (before_request k) s))"

definition after_cancel :: "job_kind \<Rightarrow> nat \<Rightarrow> nat \<Rightarrow> job_page \<Rightarrow> job_page" where
  "after_cancel k gen i s =
     (if activeJobId (meas s) = [] then start_finally gen i s
      else pollMeasurementJob k gen i (activeJobId (meas s)) s)"

definition kind_key :: "job_kind \<Rightarrow> string" where
  "kind_key k = (case k of Single \<Rightarrow> ''single'' | LrRepeat \<Rightarrow> ''lr-repeat'')"

definition take_job :: "job_kind \<Rightarrow> jsval \<Rightarrow> meas \<Rightarrow> meas" where
  "take_job k job m0 =
     (let m = m0\<lparr>activeJobId := str_or_empty (jget job ''id''),
                 activeMeasurementKind :=
                   or_default (normalizeMeasurementKind (js_or (jget job ''job_kind'') (JStr (kind_key k))))
                     (normalizeMeasurementKind (JStr (kind_key k)))\<rparr>
      in setProgress (formatMeasurementJobStatusText m job (''Preparing'' @ ellipsis)) m)"

definition job_started :: "job_kind \<Rightarrow> nat \<Rightarrow> nat \<Rightarrow> jsval \<Rightarrow> job_page \<Rightarrow> job_page" where
  "job_started k gen i job s0 =
     (let s = on_meas (take_job k job) s0 in
      if cancelRequested (meas s) \<and> activeJobId (meas s) \<noteq> []
      then wait i (Start k gen (CancelFirst (cancellation_of (meas s)))) (on_meas (setSweepProgress cancelling) s)
      else after_cancel k gen i s)"

definition start_settled :: "job_kind \<Rightarrow> nat \<Rightarrow> nat \<Rightarrow> response \<Rightarrow> job_page \<Rightarrow> job_page" where
  "start_settled k gen i resp s =
     (case resp of
        NetError m \<Rightarrow> start_failed k gen i m s
      | Http st body \<Rightarrow>
          (let data = json_or_empty resp in
           if \<not> resp_ok resp
           then start_failed k gen i
                  (if nullish data then null_read_error data ''detail''
                   else formatTransitionErrorDetail (jget data ''detail'') ''could not start'') s
           else if nullish data then start_failed k gen i (null_read_error data ''job'') s
           else job_started k gen i (js_or (jget data ''job'') (JObj [])) s))"

subsection \<open>Buttons\<close>

definition sweep_running :: "meas \<Rightarrow> bool" where
  "sweep_running m = (startInFlight m \<or> hasActiveMeasurementJob m)"

text \<open>The toggle button cancels a run and otherwise opens a menu; the start button of the menu.\<close>

definition sweep_toggle_clicked :: "job_page \<Rightarrow> job_page" where
  "sweep_toggle_clicked s = (if sweep_running (meas s) then requestMeasurementCancellation s else s)"

definition sweep_start_clicked :: "start_context \<Rightarrow> job_page \<Rightarrow> job_page" where
  "sweep_start_clicked ctx s = (if sweep_running (meas s) then s else startMeasurement ctx s)"

definition repeat_clicked :: "start_context \<Rightarrow> job_page \<Rightarrow> job_page" where
  "repeat_clicked ctx s =
     (if getActiveMeasurementKind (meas s) = ''lr_repeat'' then cancelMeasurement s else startLrRepeat ctx s)"

definition name_typed :: "string \<Rightarrow> job_page \<Rightarrow> job_page" where
  "name_typed n = on_meas (\<lambda>m. m\<lparr>currentMeasurementName := n, typedMeasurementName := n\<rparr>)"

subsection \<open>Steps\<close>

text \<open>What a waiting call gets: the answer to its request, or the end of its flush, sleep or snapshot.\<close>

datatype job_answer = Responded response | FlushEnded "string option" | Over

definition start_continues :: "(jsval \<Rightarrow> string + string) \<Rightarrow> job_kind \<Rightarrow> nat \<Rightarrow> nat \<Rightarrow> start_stage \<Rightarrow> job_answer \<Rightarrow> job_page \<Rightarrow> job_page" where
  "start_continues timing k gen i stage a s =
     (case (stage, a) of
        (Flushing, FlushEnded f) \<Rightarrow> flush_done k gen i f s
      | (Starting, Responded r) \<Rightarrow> start_settled k gen i r s
      | (CancelFirst c, Responded r) \<Rightarrow> after_cancel k gen i (cancel_answered c r s)
      | (PollFetch p, Responded r) \<Rightarrow> poll_settled k gen i p r s
      | (PollSleep p, Over) \<Rightarrow> poll_slept k gen i p s
      | (Snapshot p outcome, Over) \<Rightarrow> snapshot_done timing k gen i p outcome s
      | _ \<Rightarrow> s)"

definition task_answered :: "(jsval \<Rightarrow> string + string) \<Rightarrow> nat \<Rightarrow> job_answer \<Rightarrow> job_page \<Rightarrow> job_page" where
  "task_answered timing i a s =
     (case map_of (tasks s) i of
        None \<Rightarrow> s
      | Some (Start k gen stage) \<Rightarrow> start_continues timing k gen i stage a s
      | Some (Cancel c) \<Rightarrow> (case a of Responded r \<Rightarrow> cancel_answered c r (job_done i s) | _ \<Rightarrow> s))"

datatype job_event =
    SweepToggleClicked
  | SweepStartClicked start_context
  | RepeatClicked start_context
  | NameTyped string
  | Answered nat job_answer

fun job_step :: "(jsval \<Rightarrow> string + string) \<Rightarrow> job_event \<Rightarrow> job_page \<Rightarrow> job_page" where
  "job_step timing SweepToggleClicked s = sweep_toggle_clicked s"
| "job_step timing (SweepStartClicked ctx) s = sweep_start_clicked ctx s"
| "job_step timing (RepeatClicked ctx) s = repeat_clicked ctx s"
| "job_step timing (NameTyped n) s = name_typed n s"
| "job_step timing (Answered i a) s = task_answered timing i a s"

end
