(* ===== verification/Measurement_Safety.thy ===== *)
theory Measurement_Safety
  imports Measurement_Job
begin

section \<open>The invariant of the measurement job\<close>

text \<open>
  Every run of a sweep has a generation. The start call of the current generation, if it is still
  waiting, is the only one that may change the run's flags, and its stage says what they are; the
  calls of older generations are inert. The four lemmas of the second subsection say how a state may
  change without losing this, and the operations are instances of them.
\<close>

subsection \<open>The invariant\<close>

text \<open>The run of job \<open>j\<close> is on, or a cancellation has ended it.\<close>

definition follows :: "string \<Rightarrow> meas \<Rightarrow> bool" where
  "follows j m = (if startInFlight m then activeJobId m = j else activeJobId m = [])"

fun stage_fits :: "meas \<Rightarrow> start_stage \<Rightarrow> bool" where
  "stage_fits m (CancelFirst c) = follows (cancelJob c) m"
| "stage_fits m (PollFetch p) = follows (pollJob p) m"
| "stage_fits m (PollSleep p) = follows (pollJob p) m"
| "stage_fits m (Snapshot p q) = (\<not> startInFlight m)"
| "stage_fits m st = (startInFlight m \<and> activeJobId m = [])"

text \<open>A waiting poll has tries and errors left, and names its job.\<close>

definition poll_ok :: "poll \<Rightarrow> bool" where
  "poll_ok p = (pollJob p \<noteq> [] \<and> pollAttempt p < MAX_ATTEMPTS \<and> pollErrors p < MAX_CONSECUTIVE_ERRORS)"

fun stage_wf :: "nat \<Rightarrow> start_stage \<Rightarrow> bool" where
  "stage_wf g (CancelFirst c) = (cancelJob c \<noteq> [] \<and> cancelGen c = g)"
| "stage_wf g (PollFetch p) = poll_ok p"
| "stage_wf g (PollSleep p) = poll_ok p"
| "stage_wf g st = True"

definition unstarted :: "start_stage \<Rightarrow> bool" where
  "unstarted st = (st = Flushing \<or> st = Starting)"

definition no_other_flow :: "meas \<Rightarrow> bool" where
  "no_other_flow m = (\<not> autoSubInFlight m \<and> \<not> speakerAlignInFlight m \<and> \<not> hybridRunning m)"

definition at_rest :: "meas \<Rightarrow> bool" where
  "at_rest m = (activeJobId m = [] \<and> activeMeasurementKind m = [] \<and> \<not> repeatJobActive m \<and> \<not> cancelRequested m)"

definition sweep_shown :: "meas \<Rightarrow> bool" where
  "sweep_shown m = (startInFlight m \<or> progressKind m = ''sweep'')"

definition task_fine :: "job_page \<Rightarrow> job_task \<Rightarrow> bool" where
  "task_fine s t = (case t of
     Cancel c \<Rightarrow> cancelJob c \<noteq> []
   | Start k g st \<Rightarrow> stage_wf g st \<and> g \<le> jobGeneration (meas s)
       \<and> (unstarted st \<longrightarrow> g = jobGeneration (meas s))
       \<and> (g = jobGeneration (meas s) \<longrightarrow> stage_fits (meas s) st))"

definition job_inv :: "job_page \<Rightarrow> bool" where
  "job_inv s =
     (distinct (List.map fst (tasks s)) \<and> (\<forall>x \<in> set (tasks s). fst x < task_id s \<and> task_fine s (snd x))
      \<and> (\<forall>i j k l g a b. (i, Start k g a) \<in> set (tasks s) \<longrightarrow> (j, Start l g b) \<in> set (tasks s) \<longrightarrow> i = j)
      \<and> no_other_flow (meas s) \<and> (\<not> startInFlight (meas s) \<longrightarrow> at_rest (meas s))
      \<and> (sweep_shown (meas s) \<longrightarrow> (\<exists>i k st. (i, Start k (jobGeneration (meas s)) st) \<in> set (tasks s))))"

lemma job_invD:
  assumes "job_inv s"
  shows "distinct (List.map fst (tasks s))"
    and "(i, t) \<in> set (tasks s) \<Longrightarrow> i < task_id s"
    and "(i, t) \<in> set (tasks s) \<Longrightarrow> task_fine s t"
    and "(i, Start k g a) \<in> set (tasks s) \<Longrightarrow> (j, Start l g b) \<in> set (tasks s) \<Longrightarrow> i = j"
    and "no_other_flow (meas s)"
    and "\<not> startInFlight (meas s) \<Longrightarrow> at_rest (meas s)"
    and "sweep_shown (meas s) \<Longrightarrow> \<exists>i k st. (i, Start k (jobGeneration (meas s)) st) \<in> set (tasks s)"
  using assms by (fastforce simp: job_inv_def)+

lemma job_invI:
  assumes "distinct (List.map fst (tasks s))"
    and "\<And>i t. (i, t) \<in> set (tasks s) \<Longrightarrow> i < task_id s \<and> task_fine s t"
    and "\<And>i j k l g a b. (i, Start k g a) \<in> set (tasks s) \<Longrightarrow> (j, Start l g b) \<in> set (tasks s) \<Longrightarrow> i = j"
    and "no_other_flow (meas s)"
    and "\<not> startInFlight (meas s) \<Longrightarrow> at_rest (meas s)"
    and "sweep_shown (meas s) \<Longrightarrow> \<exists>i k st. (i, Start k (jobGeneration (meas s)) st) \<in> set (tasks s)"
  shows "job_inv s"
  using assms unfolding job_inv_def by auto

text \<open>The invariant looks at the measurement state and the calls only.\<close>

definition same_run :: "meas \<Rightarrow> meas \<Rightarrow> bool" where
  "same_run m m' = (jobGeneration m' = jobGeneration m \<and> (no_other_flow m \<longrightarrow> no_other_flow m'))"

lemma task_fine_same: "task_fine s u \<Longrightarrow> meas t = meas s \<Longrightarrow> task_fine t u"
  by (simp add: task_fine_def split: job_task.splits)

subsection \<open>How a state may change\<close>

lemma distinct_filter_fst: "distinct (List.map fst xs) \<Longrightarrow> distinct (List.map fst (filter P xs))"
  by (induction xs) auto

lemma inv_stay:
  assumes inv: "job_inv s" and i: "(i, Start k g st) \<in> set (tasks s)" and g: "g = jobGeneration (meas s)"
    and m: "same_run (meas s) (meas t)" "task_id t = task_id s"
    and tasks: "tasks t = (i, Start k g st') # filter (\<lambda>x. fst x \<noteq> i) (tasks s)"
    and st: "stage_fits (meas t) st'" "stage_wf g st'"
    and rest: "\<not> startInFlight (meas t) \<Longrightarrow> at_rest (meas t)"
  shows "job_inv t"
proof (rule job_invI)
  have other: "task_fine t u" if "(j, u) \<in> set (tasks s)" "j \<noteq> i" for j u
  proof (cases u)
    case (Start l h a)
    then have "h \<noteq> g" using job_invD(4) [OF inv i] that by blast
    then show ?thesis using job_invD(3) [OF inv that(1)] Start g m by (auto simp: task_fine_def same_run_def)
  next
    case (Cancel c)
    then show ?thesis using job_invD(3) [OF inv that(1)] by (simp add: task_fine_def)
  qed
  show "distinct (List.map fst (tasks t))"
    using job_invD(1) [OF inv] by (auto simp: tasks distinct_filter_fst)
  show "j < task_id t \<and> task_fine t u" if "(j, u) \<in> set (tasks t)" for j u
    using that job_invD(2) [OF inv] other m st g i
    by (auto simp: tasks same_run_def) (auto simp: task_fine_def)
  show "j = j'" if "(j, Start l h a) \<in> set (tasks t)" "(j', Start l' h b) \<in> set (tasks t)" for j j' l l' h a b
    using that job_invD(4) [OF inv] i by (auto simp: tasks)
  show "no_other_flow (meas t)" using job_invD(5) [OF inv] m by (simp add: same_run_def)
  show "\<exists>i k st. (i, Start k (jobGeneration (meas t)) st) \<in> set (tasks t)"
    using g m by (auto simp: tasks same_run_def)
qed (rule rest)

lemma inv_end:
  assumes inv: "job_inv s" and i: "(i, Start k g st) \<in> set (tasks s)" and g: "g = jobGeneration (meas s)"
    and m: "same_run (meas s) (meas t)" "task_id t = task_id s"
    and tasks: "tasks t = filter (\<lambda>x. fst x \<noteq> i) (tasks s)"
    and rest: "\<not> startInFlight (meas t)" "at_rest (meas t)" "progressKind (meas t) \<noteq> ''sweep''"
  shows "job_inv t"
proof (rule job_invI)
  have other: "task_fine t u" if "(j, u) \<in> set (tasks s)" "j \<noteq> i" for j u
  proof (cases u)
    case (Start l h a)
    then have "h \<noteq> g" using job_invD(4) [OF inv i] that by blast
    then show ?thesis using job_invD(3) [OF inv that(1)] Start g m by (auto simp: task_fine_def same_run_def)
  next
    case (Cancel c)
    then show ?thesis using job_invD(3) [OF inv that(1)] by (simp add: task_fine_def)
  qed
  show "j < task_id t \<and> task_fine t u" if "(j, u) \<in> set (tasks t)" for j u
    using that job_invD(2) [OF inv] other m by (auto simp: tasks)
  show "j = j'" if "(j, Start l h a) \<in> set (tasks t)" "(j', Start l' h b) \<in> set (tasks t)" for j j' l l' h a b
    using that job_invD(4) [OF inv] by (auto simp: tasks)
qed (use job_invD [OF inv] m rest in \<open>auto simp: tasks distinct_filter_fst same_run_def sweep_shown_def\<close>)

text \<open>A call of an older generation, or a cancellation, is over.\<close>

lemma inv_drop:
  assumes inv: "job_inv s"
    and i: "\<And>k g st. (i, Start k g st) \<in> set (tasks s) \<Longrightarrow> g \<noteq> jobGeneration (meas s)"
    and t: "meas t = meas s" "task_id t = task_id s" "tasks t = filter (\<lambda>x. fst x \<noteq> i) (tasks s)"
  shows "job_inv t"
proof (rule job_invI)
  show "j < task_id t \<and> task_fine t u" if "(j, u) \<in> set (tasks t)" for j u
  proof -
    have "(j, u) \<in> set (tasks s)" using that t by simp
    then show ?thesis using job_invD(2,3) [OF inv] t by (metis task_fine_same)
  qed
  show "j = j'" if "(j, Start l h a) \<in> set (tasks t)" "(j', Start l' h b) \<in> set (tasks t)" for j j' l l' h a b
    using that job_invD(4) [OF inv] t by auto
  show "\<exists>j k st. (j, Start k (jobGeneration (meas t)) st) \<in> set (tasks t)" if b: "sweep_shown (meas t)"
  proof -
    obtain j k st where "(j, Start k (jobGeneration (meas s)) st) \<in> set (tasks s)"
      using job_invD(7) [OF inv] b t(1) by fastforce
    moreover from this i have "j \<noteq> i" by blast
    ultimately show ?thesis using t by auto
  qed
qed (use job_invD [OF inv] t in \<open>auto simp: distinct_filter_fst\<close>)

lemma inv_meas:
  assumes inv: "job_inv s" and m: "same_run (meas s) (meas t)"
    and t: "tasks t = tasks s" "task_id t = task_id s"
    and st: "\<And>st. stage_fits (meas s) st \<Longrightarrow> stage_wf (jobGeneration (meas s)) st \<Longrightarrow> stage_fits (meas t) st"
    and rest: "\<not> startInFlight (meas t) \<Longrightarrow> at_rest (meas t)"
    and run: "sweep_shown (meas t) \<Longrightarrow> sweep_shown (meas s)"
  shows "job_inv t"
proof (rule job_invI)
  show "j < task_id t \<and> task_fine t u" if "(j, u) \<in> set (tasks t)" for j u
  proof -
    have u: "(j, u) \<in> set (tasks s)" using that t by simp
    then have "task_fine s u" by (rule job_invD(3) [OF inv])
    then have "task_fine t u"
      using m by (cases u) (auto simp: task_fine_def same_run_def intro!: st)
    then show ?thesis using job_invD(2) [OF inv u] t by simp
  qed
  show "j = j'" if "(j, Start l h a) \<in> set (tasks t)" "(j', Start l' h b) \<in> set (tasks t)" for j j' l l' h a b
    using that job_invD(4) [OF inv] t by auto
  show "\<exists>j k st. (j, Start k (jobGeneration (meas t)) st) \<in> set (tasks t)" if "sweep_shown (meas t)"
    using that run job_invD(7) [OF inv] t m by (auto simp: same_run_def)
qed (use job_invD [OF inv] m t rest in \<open>auto simp: same_run_def\<close>)

subsection \<open>Ends of a start\<close>

lemma job_page_simps [simp]:
  "meas (on_meas f s) = f (meas s)" "tasks (on_meas f s) = tasks s" "task_id (on_meas f s) = task_id s"
  "meas (job_toast a b s) = meas s" "tasks (job_toast a b s) = tasks s" "task_id (job_toast a b s) = task_id s"
  "meas (wait i t s) = meas s" "task_id (wait i t s) = task_id s"
  "meas (job_done i s) = meas s" "task_id (job_done i s) = task_id s"
  "tasks (job_done i s) = filter (\<lambda>x. fst x \<noteq> i) (tasks s)"
  "tasks (wait i t s) = (i, t) # filter (\<lambda>x. fst x \<noteq> i) (tasks s)"
  by (simp_all add: on_meas_def job_toast_def wait_def job_done_def)

lemma same_run_refl [simp]: "same_run m m"
  by (simp add: same_run_def)

lemmas meas_defs = clear_job_def finishSweep_def clearSweepProgress_def setSweepProgress_def setProgress_def
  settle_flags_def show_progress_def at_rest_def sweep_shown_def same_run_def no_other_flow_def

lemma settle_flags_rest:
  "same_run m (settle_flags m)" "\<not> startInFlight (settle_flags m)"
  "progressKind (settle_flags m) \<noteq> ''sweep''" "activeJobId m = [] \<Longrightarrow> at_rest (settle_flags m)"
  by (auto simp: meas_defs Let_def)

text \<open>The call that waits at \<open>st\<close> goes on in a state whose measurement is \<open>meas t\<close>.\<close>

definition continues :: "job_page \<Rightarrow> nat \<Rightarrow> job_kind \<Rightarrow> nat \<Rightarrow> job_page \<Rightarrow> bool" where
  "continues s i k g t =
     (job_inv s \<and> (\<exists>st. (i, Start k g st) \<in> set (tasks s)) \<and> tasks t = tasks s \<and> task_id t = task_id s
      \<and> same_run (meas s) (meas t) \<and> (g \<noteq> jobGeneration (meas s) \<longrightarrow> meas t = meas s))"

lemma continues_self: "job_inv s \<Longrightarrow> (i, Start k g st) \<in> set (tasks s) \<Longrightarrow> continues s i k g s"
  by (auto simp: continues_def)

lemma continues_stale:
  assumes "continues s i k g t" "g \<noteq> jobGeneration (meas t)"
  shows "job_inv (job_done i t)"
proof -
  obtain st where i: "(i, Start k g st) \<in> set (tasks s)" and inv: "job_inv s"
    using assms by (auto simp: continues_def)
  show ?thesis
  proof (rule inv_drop [OF inv])
    show "h \<noteq> jobGeneration (meas s)" if "(i, Start l h a) \<in> set (tasks s)" for l h a
    proof -
      have "Start l h a = Start k g st"
        using eq_key_imp_eq_value [OF job_invD(1) [OF inv] that i] .
      then show ?thesis using assms by (simp add: continues_def same_run_def)
    qed
  qed (use assms in \<open>auto simp: continues_def same_run_def\<close>)
qed

lemma start_finally_inv:
  assumes "continues s i k g t" "g = jobGeneration (meas t) \<Longrightarrow> activeJobId (meas t) = []"
  shows "job_inv (start_finally g i t)"
proof (cases "g = jobGeneration (meas t)")
  case True
  then obtain st where i: "(i, Start k g st) \<in> set (tasks s)" and inv: "job_inv s"
    using assms by (auto simp: continues_def)
  have "job_inv (on_meas settle_flags (job_done i t))"
    by (rule inv_end [OF inv i])
      (use assms True settle_flags_rest in \<open>auto simp: continues_def same_run_def\<close>)
  with True show ?thesis by (simp add: start_finally_def)
next
  case False
  then show ?thesis using continues_stale [OF assms(1)] by (simp add: start_finally_def)
qed

lemma continues_on:
  assumes "continues s i k g t" "same_run (meas t) (meas u)" "tasks u = tasks t" "task_id u = task_id t"
    "g = jobGeneration (meas t)"
  shows "continues s i k g u"
  using assms by (auto simp: continues_def same_run_def)

lemma start_failed_inv:
  assumes "continues s i k g t" "g = jobGeneration (meas t) \<Longrightarrow> activeJobId (meas t) = []"
  shows "job_inv (start_failed k' g i m t)"
proof (cases "g = jobGeneration (meas t)")
  case True
  let ?u = "job_toast (kind_label k' @ '' failed'') ''error''
    (on_meas (\<lambda>m'. m'\<lparr>statusText := failureText (kind_label k') m\<rparr>) t)"
  have "continues s i k g ?u"
    by (rule continues_on [OF assms(1) _ _ _ True]) (simp_all add: same_run_def no_other_flow_def)
  then have "job_inv (start_finally g i ?u)"
    by (rule start_finally_inv) (use assms(2) True in simp)
  then show ?thesis using True by (simp add: start_failed_def)
next
  case False
  then show ?thesis using continues_stale [OF assms(1)] by (simp add: start_failed_def)
qed

lemma continues_wait:
  assumes "continues s i k g t" "g = jobGeneration (meas t)"
    and "stage_fits (meas t) st'" "stage_wf g st'" "\<not> startInFlight (meas t) \<Longrightarrow> at_rest (meas t)"
  shows "job_inv (wait i (Start k g st') t)"
proof -
  obtain st where i: "(i, Start k g st) \<in> set (tasks s)" and inv: "job_inv s"
    using assms by (auto simp: continues_def)
  show ?thesis
    by (rule inv_stay [OF inv i, where st' = st']) (use assms in \<open>auto simp: continues_def same_run_def\<close>)
qed

subsection \<open>The stages of a start\<close>

lemma start_fine:
  assumes "job_inv s" "(i, Start k g st) \<in> set (tasks s)"
  shows "stage_wf g st" "unstarted st \<Longrightarrow> g = jobGeneration (meas s)"
    "g = jobGeneration (meas s) \<Longrightarrow> stage_fits (meas s) st"
  using job_invD(3) [OF assms] by (auto simp: task_fine_def)

definition rests :: "meas \<Rightarrow> bool" where
  "rests m = (\<not> startInFlight m \<longrightarrow> at_rest m)"

lemma job_inv_rests: "job_inv s \<Longrightarrow> rests (meas s)"
  by (simp add: job_inv_def rests_def)

lemma same_run_clear [simp]: "same_run m (clear_job m)"
  by (simp add: meas_defs)

lemma clear_job_simps [simp]:
  "\<not> startInFlight (clear_job m)" "activeJobId (clear_job m) = []" "at_rest (clear_job m)"
  "jobGeneration (clear_job m) = jobGeneration m"
  by (simp_all add: clear_job_def at_rest_def)

lemma flush_done_inv:
  assumes inv: "job_inv s" and i: "(i, Start k g Flushing) \<in> set (tasks s)"
  shows "job_inv (flush_done k g i failure s)"
proof -
  have g: "g = jobGeneration (meas s)" and st: "startInFlight (meas s)" "activeJobId (meas s) = []"
    using start_fine [OF inv i] by (auto simp: unstarted_def)
  have self: "continues s i k g s" by (rule continues_self [OF inv i])
  show ?thesis
  proof (cases failure)
    case None
    have frame: "same_run (meas s) (before_request k (meas s))" "startInFlight (before_request k (meas s))"
      "activeJobId (before_request k (meas s)) = []"
      using st by (simp_all add: before_request_def Let_def meas_defs split: job_kind.split)
    have "continues s i k g (on_meas (before_request k) s)"
      by (rule continues_on [OF self _ _ _ g]) (simp_all add: frame)
    then have "job_inv (wait i (Start k g Starting) (on_meas (before_request k) s))"
      by (rule continues_wait) (use frame g in \<open>simp_all add: same_run_def\<close>)
    with None show ?thesis by (simp add: flush_done_def)
  next
    case (Some m)
    then show ?thesis using start_failed_inv [OF self] st by (simp add: flush_done_def)
  qed
qed

lemma poll_enter_inv:
  assumes t: "continues s i k g t" and job: "pollJob p \<noteq> []" "pollErrors p < MAX_CONSECUTIVE_ERRORS"
    and ok: "g = jobGeneration (meas t) \<Longrightarrow> follows (pollJob p) (meas t) \<and> rests (meas t)"
  shows "job_inv (poll_enter k g i p t)"
proof -
  consider (off) "\<not> is_current g (pollJob p) (meas t)"
    | (on) "is_current g (pollJob p) (meas t)" "pollAttempt p < MAX_ATTEMPTS"
    | (late) "is_current g (pollJob p) (meas t)" "\<not> pollAttempt p < MAX_ATTEMPTS" by blast
  then show ?thesis
  proof cases
    case off
    then have "job_inv (start_finally g i t)"
      using ok by (intro start_finally_inv [OF t]) (auto simp: is_current_def follows_def split: if_splits)
    with off show ?thesis by (simp add: poll_enter_def)
  next
    case on
    then have "job_inv (wait i (Start k g (PollFetch p)) t)"
      using ok job by (intro continues_wait [OF t]) (auto simp: is_current_def rests_def poll_ok_def)
    with on show ?thesis by (simp add: poll_enter_def)
  next
    case late
    then have "continues s i k g (on_meas clear_job t)"
      by (intro continues_on [OF t]) (simp_all add: is_current_def)
    then have "job_inv (start_failed k g i ''timed out waiting for the result'' (on_meas clear_job t))"
      by (rule start_failed_inv) simp
    with late show ?thesis by (simp add: poll_enter_def)
  qed
qed

lemma poll_interrupted_inv:
  assumes t: "continues s i k g t" and g: "g = jobGeneration (meas t)"
  shows "job_inv (poll_interrupted g i p reason t)"
  unfolding poll_interrupted_def
  by (rule start_finally_inv [OF continues_on [OF t _ _ _ g]]) (simp_all add: meas_defs)

lemma poll_error_inv:
  assumes t: "continues s i k g t" and g: "g = jobGeneration (meas t)" and job: "poll_ok p"
    and ok: "follows (pollJob p) (meas t)" "rests (meas t)"
  shows "job_inv (poll_error k g i p reason t)"
proof (cases "MAX_CONSECUTIVE_ERRORS \<le> pollErrors p + 1")
  case True
  then show ?thesis using poll_interrupted_inv [OF t g] by (simp add: poll_error_def)
next
  case False
  then show ?thesis
    using continues_wait [OF t g, of "PollSleep (p\<lparr>pollErrors := pollErrors p + 1\<rparr>)"] ok job
    by (simp add: poll_error_def rests_def poll_ok_def)
qed

definition honest_job :: "poll \<Rightarrow> jsval \<Rightarrow> bool" where
  "honest_job p job = (to_str (js_or (jget job ''id'') (JStr (pollJob p))) = pollJob p)"

lemma show_progress_frame [simp]:
  "startInFlight (show_progress job m) = startInFlight m" "activeJobId (show_progress job m) = activeJobId m"
  "jobGeneration (show_progress job m) = jobGeneration m" "at_rest (show_progress job m) = at_rest m"
  "no_other_flow (show_progress job m) = no_other_flow m" "same_run m (show_progress job m)"
  by (simp_all add: meas_defs)

lemma finishSweep_frame [simp]:
  "startInFlight (finishSweep t m) = startInFlight m" "activeJobId (finishSweep t m) = activeJobId m"
  "jobGeneration (finishSweep t m) = jobGeneration m" "at_rest (finishSweep t m) = at_rest m"
  "no_other_flow (finishSweep t m) = no_other_flow m"
  by (simp_all add: meas_defs)

lemma clear_no_other_flow [simp]: "no_other_flow (clear_job m) = no_other_flow m"
  by (simp add: no_other_flow_def clear_job_def)

lemma job_read_inv:
  assumes t: "continues s i k g t" and cur: "is_current g (pollJob p) (meas t)" and job: "poll_ok p"
    and ok: "rests (meas t)" and st: "startInFlight (meas t)" and honest: "honest_job p job"
  shows "job_inv (job_read k g i p job t)"
proof -
  have g: "g = jobGeneration (meas t)" using cur by (simp add: is_current_def)
  have wait: "job_inv (wait i (Start k g stage) (on_meas f (on_meas (show_progress job) t)))"
    if "same_run (meas t) (f (show_progress job (meas t)))"
      "stage_fits (f (show_progress job (meas t))) stage" "stage_wf g stage"
      "rests (f (show_progress job (meas t)))" for f stage
  proof -
    have "continues s i k g (on_meas f (on_meas (show_progress job) t))"
      by (rule continues_on [OF t _ _ _ g]) (use that in simp_all)
    then show ?thesis
      by (rule continues_wait) (use that g in \<open>auto simp: same_run_def rests_def\<close>)
  qed
  have clear: "same_run (meas t) (clear_job (finishSweep x (show_progress job (meas t))))"
    "same_run (meas t) (finishSweep x (clear_job (show_progress job (meas t))))"
    "same_run (meas t) (clear_job (show_progress job (meas t)))" for x
    by (simp_all add: same_run_def)
  have go_on: "job_inv (wait i (Start k g (PollSleep (p\<lparr>pollErrors := 0\<rparr>)))
      (on_meas (\<lambda>m. m\<lparr>activeJobId := to_str (js_or (jget job ''id'') (JStr (pollJob p)))\<rparr>)
        (on_meas (show_progress job) t)))"
    by (rule wait) (use st honest job in \<open>simp_all add: same_run_def rests_def honest_job_def follows_def no_other_flow_def meas_defs
        poll_ok_def MAX_CONSECUTIVE_ERRORS_def\<close>)
  show ?thesis
    unfolding job_read_def Let_def using clear go_on
    by (auto intro!: wait simp: rests_def)
qed

end
