(* ===== verification/Measurement_Steps.thy ===== *)
theory Measurement_Steps
  imports Measurement_Safety
begin

section \<open>Every step of a measurement keeps its invariant\<close>

text \<open>
  The remaining operations, the step function, and the runs whose polls get answers of the documented
  kind: the job that was asked for, or none.
\<close>

subsection \<open>Polls\<close>

text \<open>The backend answers a poll with an object, and its job, if it has an id, is the one asked for.\<close>

definition honest_response :: "poll \<Rightarrow> response \<Rightarrow> bool" where
  "honest_response p resp =
     (\<not> nullish (json_or_empty resp) \<and> honest_job p (js_or (jget (json_or_empty resp) ''job'') (JObj [])))"

lemma follows_current:
  "follows j m \<Longrightarrow> is_current g j m \<Longrightarrow> j \<noteq> [] \<Longrightarrow> startInFlight m"
  by (auto simp: follows_def is_current_def split: if_splits)

lemma poll_settled_inv:
  assumes inv: "job_inv s" and i: "(i, Start k g (PollFetch p)) \<in> set (tasks s)" and honest: "honest_response p resp"
  shows "job_inv (poll_settled k g i p resp s)"
proof -
  have self: "continues s i k g s" by (rule continues_self [OF inv i])
  have job: "poll_ok p" using start_fine(1) [OF inv i] by simp
  have fol: "g = jobGeneration (meas s) \<Longrightarrow> follows (pollJob p) (meas s)"
    using start_fine(3) [OF inv i] by simp
  show ?thesis
  proof (cases "is_current g (pollJob p) (meas s)")
    case False
    then have "job_inv (start_finally g i s)"
      using fol by (intro start_finally_inv [OF self]) (auto simp: is_current_def follows_def split: if_splits)
    with False show ?thesis by (simp add: poll_settled_def)
  next
    case cur: True
    then have g: "g = jobGeneration (meas s)" by (simp add: is_current_def)
    have st: "startInFlight (meas s)" using follows_current [OF fol [OF g] cur] job by (simp add: poll_ok_def)
    note err = poll_error_inv [OF self g job fol [OF g] job_inv_rests [OF inv]]
    note int = poll_interrupted_inv [OF self g]
    note read = job_read_inv [OF self cur job job_inv_rests [OF inv] st]
    show ?thesis
      using cur honest err int read
      by (cases resp) (simp_all add: poll_settled_def honest_response_def Let_def)
  qed
qed

lemma poll_slept_inv:
  assumes inv: "job_inv s" and i: "(i, Start k g (PollSleep p)) \<in> set (tasks s)"
  shows "job_inv (poll_slept k g i p s)"
  unfolding poll_slept_def
  by (rule poll_enter_inv [OF continues_self [OF inv i]])
    (use start_fine [OF inv i] job_inv_rests [OF inv] in \<open>simp_all add: poll_ok_def\<close>)

subsection \<open>Results\<close>

lemma no_other_flow_updates [simp]:
  "no_other_flow (m\<lparr>statusText := a\<rparr>) = no_other_flow m"
  "no_other_flow (m\<lparr>pendingRepeatMeasurements := es\<rparr>) = no_other_flow m"
  "no_other_flow (m\<lparr>autoSubMeasurements := es\<rparr>) = no_other_flow m"
  "no_other_flow (m\<lparr>currentMeasurement := e\<rparr>) = no_other_flow m"
  "no_other_flow (m\<lparr>currentMeasurementName := a\<rparr>) = no_other_flow m"
  "no_other_flow (m\<lparr>currentMeasurementSaved := b\<rparr>) = no_other_flow m"
  "no_other_flow (m\<lparr>graphView := a\<rparr>) = no_other_flow m"
  by (simp_all add: no_other_flow_def)

lemma show_review_frame [simp]:
  "startInFlight (show_review e m) = startInFlight m" "activeJobId (show_review e m) = activeJobId m"
  "jobGeneration (show_review e m) = jobGeneration m" "no_other_flow (show_review e m) = no_other_flow m"
  by (simp_all add: show_review_def no_other_flow_def)

lemma show_reviews_frame [simp]:
  "startInFlight (fold show_review es m) = startInFlight m" "activeJobId (fold show_review es m) = activeJobId m"
  "jobGeneration (fold show_review es m) = jobGeneration m" "no_other_flow (fold show_review es m) = no_other_flow m"
  by (induction es arbitrary: m) simp_all

lemma show_results_frame [simp]:
  "activeJobId (show_repeat job m) = activeJobId m" "activeJobId (show_single r m) = activeJobId m"
  "same_run m (show_repeat job m)" "same_run m (show_single r m)"
  by (simp_all add: show_repeat_def show_single_def Let_def same_run_def)

lemma same_run_status [simp]: "same_run m (m'\<lparr>statusText := a\<rparr>) = same_run m m'"
  by (simp add: same_run_def)

lemma show_success_frame:
  "tasks (show_success timing p job s) = tasks s" "task_id (show_success timing p job s) = task_id s"
  "activeJobId (meas (show_success timing p job s)) = activeJobId (meas s)"
  "same_run (meas s) (meas (show_success timing p job s))"
  by (simp_all add: show_success_def Let_def split: sum.split)

lemma snapshot_done_inv:
  assumes inv: "job_inv s" and i: "(i, Start k g (Snapshot p q)) \<in> set (tasks s)"
  shows "job_inv (snapshot_done timing k g i p q s)"
proof (cases "g = jobGeneration (meas s)")
  case False
  then show ?thesis
    using start_finally_inv [OF continues_self [OF inv i]] by (simp add: snapshot_done_def)
next
  case g: True
  have self: "continues s i k g s" by (rule continues_self [OF inv i])
  have idle: "activeJobId (meas s) = []"
    using start_fine(3) [OF inv i g] job_invD(6) [OF inv] by (simp add: at_rest_def)
  have "job_inv (start_finally g i (show_success timing p job s))" for job
    by (rule start_finally_inv [OF continues_on [OF self _ _ _ g]]) (simp_all add: show_success_frame idle)
  moreover have "job_inv (start_finally g i (job_toast a b s))" for a b
    by (rule start_finally_inv [OF continues_on [OF self _ _ _ g]]) (simp_all add: idle)
  ultimately show ?thesis
    using start_failed_inv [OF self] idle by (simp add: snapshot_done_def g split: job_outcome.split)
qed

subsection \<open>Cancellations\<close>

lemma cancel_refused_inv:
  assumes inv: "job_inv s" and c: "cancelJob c \<noteq> []"
  shows "job_inv (cancel_refused c message s)"
proof (cases "is_current (cancelGen c) (cancelJob c) (meas s)")
  case True
  have frame: "stage_fits (m\<lparr>progressKind := a, progressText := b, statusText := x\<rparr>) st = stage_fits m st"
    for m a b x st by (cases st) (simp_all add: follows_def)
  have "startInFlight (meas s)"
    using True c job_invD(6) [OF inv] by (auto simp: is_current_def at_rest_def)
  then have "job_inv (job_toast ''Cancel failed'' ''error''
        (on_meas (\<lambda>m. (setSweepProgress (cancelPrevious c) m)\<lparr>statusText := t\<rparr>) s))" for t
    by (intro inv_meas [OF inv]) (simp_all add: frame meas_defs)
  with True show ?thesis by (simp add: cancel_refused_def)
qed (simp add: cancel_refused_def inv)

lemma cancel_ends_inv:
  assumes inv: "job_inv s" and c: "cancelJob c \<noteq> []"
  shows "job_inv (cancel_ends c outcome s)"
proof (cases "is_current (cancelGen c) (cancelJob c) (meas s)")
  case True
  then have "stage_fits (clear_job (finishSweep t (meas s))) st" if "stage_fits (meas s) st" "stage_wf g st" for t g st
    using that c by (cases st) (auto simp: follows_def is_current_def poll_ok_def split: if_splits)
  moreover have "sweep_shown (clear_job (finishSweep t m)) \<Longrightarrow> sweep_shown m" for t m
    by (auto simp: meas_defs split: if_splits)
  moreover have "same_run m (clear_job (finishSweep t m))" for t m by (simp add: same_run_def)
  ultimately have "job_inv (on_meas (\<lambda>m. clear_job (finishSweep t m)) s)" for t
    by (intro inv_meas [OF inv]) simp_all
  with True show ?thesis by (simp add: cancel_ends_def)
qed (simp add: cancel_ends_def inv)

lemma cancel_answered_inv:
  "job_inv s \<Longrightarrow> cancelJob c \<noteq> [] \<Longrightarrow> job_inv (cancel_answered c resp s)"
  by (simp add: cancel_answered_def cancel_refused_inv cancel_ends_inv Let_def split: response.split)

lemma cancel_answered_tasks:
  "tasks (cancel_answered c resp s) = tasks s" "task_id (cancel_answered c resp s) = task_id s"
  by (simp_all add: cancel_answered_def cancel_refused_def cancel_ends_def Let_def split: response.split)

text \<open>A cancellation ends the run it was asked for, or nothing.\<close>

lemma cancel_answered_run:
  "jobGeneration (meas (cancel_answered c resp s)) = jobGeneration (meas s)"
  by (simp add: cancel_answered_def cancel_refused_def cancel_ends_def Let_def meas_defs split: response.split)

lemma cancelMeasurement_inv:
  assumes inv: "job_inv s"
  shows "job_inv (cancelMeasurement s)"
proof (cases "activeJobId (meas s) = []")
  case False
  then have st: "startInFlight (meas s)" using job_invD(6) [OF inv] by (auto simp: at_rest_def)
  let ?t = "on_meas (setSweepProgress cancelling) s"
  let ?u = "wait (task_id s) (Cancel (cancellation_of (meas s)))
    (on_meas (setSweepProgress cancelling) (s\<lparr>task_id := task_id s + 1\<rparr>))"
  have frame: "stage_fits (setSweepProgress x m) st = stage_fits m st" for x m st
    by (cases st) (simp_all add: follows_def setSweepProgress_def)
  have t: "job_inv ?t"
    by (rule inv_meas [OF inv]) (use st in \<open>simp_all add: frame\<close>, simp_all add: meas_defs)
  have fresh: "filter (\<lambda>x. fst x \<noteq> task_id s) (tasks s) = tasks s"
    using job_invD(2) [OF inv] by (fastforce simp: filter_id_conv)
  have u: "meas ?u = meas ?t" "tasks ?u = (task_id s, Cancel (cancellation_of (meas s))) # tasks ?t"
    by (simp_all add: fresh)
  have "job_inv ?u"
  proof (rule job_invI)
    show "distinct (List.map fst (tasks ?u))"
      using job_invD(1,2) [OF inv] by (force simp: fresh)
    show "j < task_id ?u \<and> task_fine ?u v" if "(j, v) \<in> set (tasks ?u)" for j v
    proof (cases "(j, v) \<in> set (tasks s)")
      case True
      then have "j < task_id s" "task_fine ?t v" using job_invD(2,3) [OF t] by simp_all
      then show ?thesis using task_fine_same [of ?t v ?u] u(1) by simp
    next
      case no: False
      then show ?thesis using that False by (simp add: fresh task_fine_def cancellation_of_def)
    qed
    show "j = j'" if "(j, Start l h a) \<in> set (tasks ?u)" "(j', Start l' h b) \<in> set (tasks ?u)" for j j' l l' h a b
      using that job_invD(4) [OF inv] by (auto simp: fresh)
    show "\<exists>i k st. (i, Start k (jobGeneration (meas ?u)) st) \<in> set (tasks ?u)" if b: "sweep_shown (meas ?u)"
      using job_invD(7) [OF t] b u by auto
  qed (use job_invD [OF t] in simp_all)
  with False show ?thesis by (simp add: cancelMeasurement_def)
qed (simp add: cancelMeasurement_def inv)

lemma requestMeasurementCancellation_inv:
  assumes inv: "job_inv s"
  shows "job_inv (requestMeasurementCancellation s)"
proof -
  have frame: "stage_fits (setSweepProgress x (m\<lparr>cancelRequested := True\<rparr>)) st = stage_fits m st" for x m st
    by (cases st) (simp_all add: follows_def setSweepProgress_def)
  have "job_inv (on_meas (\<lambda>m. setSweepProgress cancelling (m\<lparr>cancelRequested := True\<rparr>)) s)"
    if st: "startInFlight (meas s)"
    by (rule inv_meas [OF inv]) (use st in \<open>simp_all add: frame\<close>, simp_all add: meas_defs)
  then show ?thesis
    using inv cancelMeasurement_inv [OF inv] by (simp add: requestMeasurementCancellation_def)
qed

subsection \<open>Starts\<close>

lemma after_cancel_inv:
  assumes t: "continues s i k g t" and rest: "g = jobGeneration (meas t) \<Longrightarrow> rests (meas t)"
  shows "job_inv (after_cancel k g i t)"
proof (cases "activeJobId (meas t) = []")
  case True
  then show ?thesis using start_finally_inv [OF t] by (simp add: after_cancel_def)
next
  case False
  then have "job_inv (poll_enter k g i \<lparr>pollJob = activeJobId (meas t), pollAttempt = 0, pollErrors = 0,
      pollLabel = sweepLabel (meas t)\<rparr> t)"
    using rest by (intro poll_enter_inv [OF t])
      (auto simp: follows_def rests_def at_rest_def MAX_CONSECUTIVE_ERRORS_def)
  with False show ?thesis by (simp add: after_cancel_def pollMeasurementJob_def)
qed

lemma take_job_frame:
  "startInFlight (take_job k job m) = startInFlight m" "same_run m (take_job k job m)"
  "jobGeneration (take_job k job m) = jobGeneration m"
  by (simp_all add: take_job_def Let_def meas_defs)

lemma job_started_inv:
  assumes inv: "job_inv s" and i: "(i, Start k g Starting) \<in> set (tasks s)"
  shows "job_inv (job_started k g i job s)"
proof -
  have g: "g = jobGeneration (meas s)" and st: "startInFlight (meas s)"
    using start_fine [OF inv i] by (auto simp: unstarted_def)
  let ?t = "on_meas (take_job k job) s" and ?m = "take_job k job (meas s)"
  have t: "continues s i k g ?t"
    by (rule continues_on [OF continues_self [OF inv i] _ _ _ g]) (simp_all add: take_job_frame)
  have "job_inv (after_cancel k g i ?t)"
    by (rule after_cancel_inv [OF t]) (simp add: rests_def take_job_frame st)
  moreover have "job_inv (wait i (Start k g (CancelFirst (cancellation_of ?m)))
      (on_meas (setSweepProgress cancelling) ?t))" if "activeJobId ?m \<noteq> []"
  proof -
    have run: "same_run ?m (setSweepProgress cancelling ?m)" by (simp add: meas_defs)
    have "continues s i k g (on_meas (setSweepProgress cancelling) ?t)"
      by (rule continues_on [OF t]) (use run g in \<open>simp_all add: take_job_frame\<close>)
    then show ?thesis
      by (rule continues_wait)
        (use that g st in \<open>simp_all add: take_job_frame follows_def cancellation_of_def setSweepProgress_def\<close>)
  qed
  ultimately show ?thesis by (simp add: job_started_def Let_def)
qed

lemma start_settled_inv:
  assumes inv: "job_inv s" and i: "(i, Start k g Starting) \<in> set (tasks s)"
  shows "job_inv (start_settled k g i resp s)"
proof -
  have "activeJobId (meas s) = []"
    using start_fine [OF inv i] by (auto simp: unstarted_def)
  then have "job_inv (start_failed k g i m s)" for m
    using start_failed_inv [OF continues_self [OF inv i]] by simp
  then show ?thesis
    using job_started_inv [OF inv i] by (simp add: start_settled_def Let_def split: response.split)
qed

text \<open>A new run makes every call that still waits one of an older generation.\<close>

lemma inv_new_run:
  assumes inv: "job_inv s" and idle: "\<not> startInFlight (meas s)"
    and m: "jobGeneration (meas t) = jobGeneration (meas s) + 1" "no_other_flow (meas t)" "rests (meas t)"
    and id: "task_id t = task_id s + 1"
    and tasks: "tasks t = (task_id s, Start k (jobGeneration (meas s) + 1) Flushing) # tasks s
        \<and> startInFlight (meas t) \<and> activeJobId (meas t) = []
      \<or> tasks t = tasks s \<and> \<not> sweep_shown (meas t)"
  shows "job_inv t"
proof (rule job_invI)
  have old: "task_fine t u" if u: "(j, u) \<in> set (tasks s)" for j u
  proof (cases u)
    case (Start l h a)
    then have f: "stage_wf h a" "unstarted a \<Longrightarrow> h = jobGeneration (meas s)" "h \<le> jobGeneration (meas s)"
      "h = jobGeneration (meas s) \<Longrightarrow> stage_fits (meas s) a"
      using job_invD(3) [OF inv u] by (auto simp: task_fine_def)
    moreover have "\<not> unstarted a" using f idle by (auto simp: unstarted_def)
    ultimately show ?thesis using Start m by (simp add: task_fine_def)
  next
    case (Cancel c)
    then show ?thesis using job_invD(3) [OF inv u] by (simp add: task_fine_def)
  qed
  have new: "h \<le> jobGeneration (meas s)" if "(j, Start l h a) \<in> set (tasks s)" for j l h a
    using job_invD(3) [OF inv that] by (simp add: task_fine_def)
  have fresh: "task_id s \<notin> fst ` set (tasks s)"
    using job_invD(2) [OF inv] by fastforce
  show "distinct (List.map fst (tasks t))" using job_invD(1) [OF inv] tasks fresh by auto
  show "j < task_id t \<and> task_fine t u" if u: "(j, u) \<in> set (tasks t)" for j u
  proof (cases "(j, u) \<in> set (tasks s)")
    case True
    then show ?thesis using job_invD(2) [OF inv True] old id by simp
  next
    case False
    then show ?thesis using u tasks m id by (auto simp: task_fine_def)
  qed
  show "j = j'" if "(j, Start l h a) \<in> set (tasks t)" "(j', Start l' h b) \<in> set (tasks t)" for j j' l l' h a b
    using that job_invD(4) [OF inv] tasks new by fastforce
  show "\<exists>j k st. (j, Start k (jobGeneration (meas t)) st) \<in> set (tasks t)" if "sweep_shown (meas t)"
    using tasks m that by auto
qed (use m in \<open>simp_all add: rests_def\<close>)

lemma claim_start_frame:
  "jobGeneration (claim_start k m) = jobGeneration m + 1" "startInFlight (claim_start k m)"
  "no_other_flow (claim_start k m) = no_other_flow m" "activeJobId m = [] \<Longrightarrow> activeJobId (claim_start k m) = []"
  by (simp_all add: claim_start_def Let_def no_other_flow_def split: job_kind.split)

lemma settle_no_other_flow: "no_other_flow (settle_flags m) = no_other_flow m"
  by (simp add: meas_defs Let_def)

lemma start_run_inv:
  assumes inv: "job_inv s" and idle: "\<not> startInFlight (meas s)"
  shows "job_inv (start_run ctx k s)"
proof -
  have rest: "activeJobId (meas s) = []" and flow: "no_other_flow (meas s)"
    using idle job_invD(5,6) [OF inv] by (auto simp: at_rest_def)
  have fresh: "filter (\<lambda>x. fst x \<noteq> task_id s) (tasks s) = tasks s"
    using job_invD(2) [OF inv] by (fastforce simp: filter_id_conv)
  let ?m = "claim_start k (meas s)" and ?u = "on_meas (claim_start k) (s\<lparr>task_id := task_id s + 1\<rparr>)"
  have refused: "job_inv (start_finally (jobGeneration ?m) (task_id s) v)"
    if v: "tasks v = tasks s" "task_id v = task_id s + 1" "same_run ?m (meas v)" "activeJobId (meas v) = []" for v
  proof -
    have gen: "jobGeneration (meas v) = jobGeneration ?m" using v by (simp add: same_run_def)
    have frame: "jobGeneration (settle_flags (meas v)) = jobGeneration (meas v)"
      "no_other_flow (settle_flags (meas v))"
      using settle_flags_rest(1) [of "meas v"] v flow
      by (auto simp: same_run_def claim_start_frame settle_no_other_flow)
    have "job_inv (on_meas settle_flags (job_done (task_id s) v))"
      by (rule inv_new_run [OF inv idle])
        (use v frame gen settle_flags_rest [of "meas v"] in
          \<open>simp_all add: fresh claim_start_frame rests_def sweep_shown_def\<close>)
    then show ?thesis by (simp add: start_finally_def gen)
  qed
  have no: "job_inv (start_finally (jobGeneration ?m) (task_id s) (no_input ?u))"
    by (rule refused) (simp_all add: no_input_def claim_start_frame rest)
  have area: "job_inv (start_finally (jobGeneration ?m) (task_id s) (job_toast a b ?u))" for a b
    by (rule refused) (simp_all add: claim_start_frame rest)
  have on: "job_inv (wait (task_id s) (Start k (jobGeneration ?m) Flushing) ?u)"
    by (rule inv_new_run [OF inv idle, where k = k])
      (use rest flow in \<open>simp_all add: claim_start_frame fresh rests_def\<close>)
  show ?thesis using no area on by (simp add: start_run_def start_body_def Let_def)
qed

end
