(* ===== verification/Measurement_Claims.thy ===== *)
theory Measurement_Claims
  imports Measurement_Steps
begin

section \<open>What the measurement job promises\<close>

text \<open>
  The invariant of the reachable states, the generation as a claimed token, the number of answers a
  call can take, and the properties that follow: a run is never left without the call that ends it,
  superseded calls are inert, and every call ends.
\<close>

subsection \<open>Reachable states\<close>

definition honest_event :: "job_page \<Rightarrow> job_event \<Rightarrow> bool" where
  "honest_event s e =
     (case e of
        Answered i (Responded r) \<Rightarrow>
          (case map_of (tasks s) i of Some (Start k g (PollFetch p)) \<Rightarrow> honest_response p r | _ \<Rightarrow> True)
      | _ \<Rightarrow> True)"

definition job_start :: "job_page \<Rightarrow> bool" where
  "job_start s = (s = init_job_page)"

definition job_rel :: "(jsval \<Rightarrow> string + string) \<Rightarrow> job_page \<Rightarrow> job_page \<Rightarrow> bool" where
  "job_rel timing s t = (\<exists>e. honest_event s e \<and> t = job_step timing e s)"

lemma task_answered_inv:
  assumes inv: "job_inv s" and honest: "honest_event s (Answered i a)"
  shows "job_inv (task_answered timing i a s)"
proof (cases "map_of (tasks s) i")
  case None
  then show ?thesis using inv by (simp add: task_answered_def)
next
  case (Some t)
  then have i: "(i, t) \<in> set (tasks s)" by (rule map_of_SomeD)
  show ?thesis
  proof (cases t)
    case (Cancel c)
    then have c: "cancelJob c \<noteq> []" using job_invD(3) [OF inv i] by (simp add: task_fine_def)
    have "job_inv (job_done i s)"
      by (rule inv_drop [OF inv])
        (use eq_key_imp_eq_value [OF job_invD(1) [OF inv] i] Cancel in auto)
    with Some Cancel c inv show ?thesis
      by (simp add: task_answered_def cancel_answered_inv split: job_answer.split)
  next
    case (Start k g st)
    have after: "job_inv (after_cancel k g i (cancel_answered c r s))" if st: "st = CancelFirst c" for c r
    proof (rule after_cancel_inv)
      have c: "cancelJob c \<noteq> []" "cancelGen c = g"
        using start_fine(1) [OF inv i [unfolded Start]] st by simp_all
      have "meas (cancel_answered c r s) = meas s" if "g \<noteq> jobGeneration (meas s)"
        using that c by (auto simp: cancel_answered_def cancel_refused_def cancel_ends_def is_current_def Let_def
            split: response.split)
      moreover have "no_other_flow (meas (cancel_answered c r s))"
        using job_invD(5) [OF cancel_answered_inv [OF inv c(1)]] .
      ultimately show "continues s i k g (cancel_answered c r s)"
        using inv i Start by (auto simp: continues_def cancel_answered_tasks same_run_def cancel_answered_run)
      show "rests (meas (cancel_answered c r s))"
        by (rule job_inv_rests [OF cancel_answered_inv [OF inv c(1)]])
    qed
    show ?thesis
      using Some i inv honest Start after
      by (auto simp: task_answered_def start_continues_def honest_event_def
          intro: flush_done_inv start_settled_inv poll_settled_inv poll_slept_inv snapshot_done_inv
          split: start_stage.split job_answer.split)
  qed
qed

lemma job_step_inv:
  assumes inv: "job_inv s" and honest: "honest_event s e"
  shows "job_inv (job_step timing e s)"
proof -
  have status: "job_inv (on_meas (\<lambda>m. m\<lparr>statusText := a\<rparr>) s)" for a
  proof (rule inv_meas [OF inv])
    show "stage_fits (meas (on_meas (\<lambda>m. m\<lparr>statusText := a\<rparr>) s)) st" if "stage_fits (meas s) st" for st
      using that by (cases st) (simp_all add: follows_def)
  qed (use job_invD(6) [OF inv] in \<open>simp_all add: meas_defs\<close>)
  have toast: "job_inv (job_toast a b t)" if "job_inv t" for a b t
    by (rule inv_meas [OF that]) (use job_invD(6) [OF that] in simp_all)
  have name: "job_inv (name_typed n s)" for n
  proof (rule inv_meas [OF inv])
    show "stage_fits (meas (name_typed n s)) st" if "stage_fits (meas s) st" for st
      using that by (cases st) (simp_all add: follows_def name_typed_def)
  qed (use job_invD(6) [OF inv] in \<open>simp_all add: meas_defs name_typed_def\<close>)
  show ?thesis
  proof (cases e)
    case SweepToggleClicked
    then show ?thesis using inv by (simp add: sweep_toggle_clicked_def requestMeasurementCancellation_inv)
  next
    case (SweepStartClicked ctx)
    then show ?thesis using inv start_run_inv [OF inv] toast status
      by (simp add: sweep_start_clicked_def startMeasurement_def no_input_def)
  next
    case (RepeatClicked ctx)
    then show ?thesis using inv start_run_inv [OF inv] toast status cancelMeasurement_inv
      by (simp add: repeat_clicked_def startLrRepeat_def no_input_def)
  next
    case (NameTyped n)
    then show ?thesis using name by simp
  next
    case (Answered i a)
    then show ?thesis using task_answered_inv [OF inv] honest by simp
  qed
qed

interpretation sweeps: inductive_invariant job_start "job_rel timing" job_inv for timing
proof
  show "job_inv s" if "job_start s" for s
    using that by (simp add: job_start_def init_job_page_def init_meas_def job_inv_def meas_defs)
  show "job_inv t" if "job_inv s" "job_rel timing s t" for s t
    using that by (auto simp: job_rel_def intro: job_step_inv)
qed

subsection \<open>A run is never stuck\<close>

fun watched_job :: "start_stage \<Rightarrow> string" where
  "watched_job (CancelFirst c) = cancelJob c"
| "watched_job (PollFetch p) = pollJob p"
| "watched_job (PollSleep p) = pollJob p"
| "watched_job st = []"

text \<open>C6: A measurement never gets stuck. In every reachable state of a page whose polls are answered
  with the job they ask for (or with none, or not at all): while a sweep is shown as starting or
  running, one call of the current generation is still waiting, it watches exactly the active job,
  and it is not yet past the end of the run; a progress line is only shown while such a call waits;
  and when no sweep runs, the job, its kind, the repeat flag and the requested cancellation are all
  cleared, so the next start is not refused.\<close>

theorem measurement_never_stuck:
  assumes "reachable job_start (job_rel timing) s"
  shows "(startInFlight (meas s) \<or> activeJobId (meas s) \<noteq> [] \<longrightarrow>
      (\<exists>i k st. (i, Start k (jobGeneration (meas s)) st) \<in> set (tasks s)
          \<and> watched_job st = activeJobId (meas s) \<and> (\<forall>p q. st \<noteq> Snapshot p q)))
    \<and> (progressKind (meas s) = ''sweep'' \<longrightarrow> (\<exists>i k st. (i, Start k (jobGeneration (meas s)) st) \<in> set (tasks s)))
    \<and> (\<not> startInFlight (meas s) \<longrightarrow> activeJobId (meas s) = [] \<and> activeMeasurementKind (meas s) = []
        \<and> \<not> repeatJobActive (meas s) \<and> \<not> cancelRequested (meas s))"
proof (intro conjI impI)
  have inv: "job_inv s" using assms by (rule sweeps.always)
  show "\<exists>i k st. (i, Start k (jobGeneration (meas s)) st) \<in> set (tasks s)
      \<and> watched_job st = activeJobId (meas s) \<and> (\<forall>p q. st \<noteq> Snapshot p q)"
    if run: "startInFlight (meas s) \<or> activeJobId (meas s) \<noteq> []"
  proof -
    have on: "startInFlight (meas s)" using run job_invD(6) [OF inv] by (auto simp: at_rest_def)
    then obtain i k st where i: "(i, Start k (jobGeneration (meas s)) st) \<in> set (tasks s)"
      using job_invD(7) [OF inv] by (auto simp: sweep_shown_def)
    then have "stage_fits (meas s) st" using start_fine(3) [OF inv i] by simp
    then have "watched_job st = activeJobId (meas s) \<and> (\<forall>p q. st \<noteq> Snapshot p q)"
      using on by (cases st) (simp_all add: follows_def)
    with i show ?thesis by blast
  qed
  show "\<exists>i k st. (i, Start k (jobGeneration (meas s)) st) \<in> set (tasks s)"
    if "progressKind (meas s) = ''sweep''"
    using that job_invD(7) [OF inv] by (simp add: sweep_shown_def)
qed (use sweeps.always [OF assms] in \<open>auto simp: job_inv_def at_rest_def\<close>)

subsection \<open>A run to look at\<close>

fun honest_run :: "(jsval \<Rightarrow> string + string) \<Rightarrow> job_event list \<Rightarrow> job_page \<Rightarrow> bool" where
  "honest_run timing [] s = True"
| "honest_run timing (e # es) s = (honest_event s e \<and> honest_run timing es (job_step timing e s))"

lemma reachable_honest:
  "honest_run timing es s \<Longrightarrow> reachable job_start (job_rel timing) s
   \<Longrightarrow> reachable job_start (job_rel timing) (run_events (job_step timing) es s)"
proof (induction es arbitrary: s)
  case (Cons e es)
  have "job_rel timing s (job_step timing e s)" using Cons.prems by (auto simp: job_rel_def)
  then show ?case using Cons by (auto intro: reachable_step)
qed simp

definition no_timing :: "jsval \<Rightarrow> string + string" where
  "no_timing m = Inr []"

definition at_desk :: start_context where
  "at_desk = \<lparr>areaAvailable = True, inputReady = True, repeatBlockedReason = []\<rparr>"

definition job_body :: "string \<Rightarrow> jsval option" where
  "job_body st = Some (JObj [(''job'', JObj [(''id'', JStr ''j1''), (''status'', JStr st)])])"

text \<open>A sweep that was started, polled once and cancelled by the user; and a later one.\<close>

definition cancelled_sweep :: "job_event list" where
  "cancelled_sweep = [SweepStartClicked at_desk, Answered 0 (FlushEnded None),
     Answered 0 (Responded (Http 200 (job_body ''queued''))),
     Answered 0 (Responded (Http 200 (job_body ''running''))), SweepToggleClicked]"

definition second_sweep :: "job_event list" where
  "second_sweep = cancelled_sweep
     @ [Answered 1 (Responded (Http 200 (job_body ''cancelled''))), SweepStartClicked at_desk]"

abbreviation after_events :: "job_event list \<Rightarrow> job_page" where
  "after_events es \<equiv> run_events (job_step no_timing) es init_job_page"

lemma reachable_after: "honest_run no_timing es init_job_page \<Longrightarrow> reachable job_start (job_rel no_timing) (after_events es)"
  by (rule reachable_honest) (simp_all add: reachable_start job_start_def)

lemma honest_sweeps: "honest_run no_timing second_sweep init_job_page" "honest_run no_timing cancelled_sweep init_job_page"
  by code_simp+

theorem measurement_never_stuck_witness:
  "(\<exists>i k st. (i, Start k 1 st) \<in> set (tasks (after_events cancelled_sweep)) \<and> watched_job st = ''j1'')
   \<and> progressText (meas (after_events cancelled_sweep)) = cancelling"
proof -
  have m: "activeJobId (meas (after_events cancelled_sweep)) = ''j1''"
    "jobGeneration (meas (after_events cancelled_sweep)) = 1"
    "progressText (meas (after_events cancelled_sweep)) = cancelling"
    by code_simp+
  show ?thesis
    using measurement_never_stuck [OF reachable_after [OF honest_sweeps(2)]] m by auto
qed

subsection \<open>Superseded runs\<close>

lemma gen_frames [simp]:
  "jobGeneration (clearSweepProgress m) = jobGeneration m"
  "jobGeneration (setSweepProgress t m) = jobGeneration m"
  "jobGeneration (setProgress t m) = jobGeneration m"
  "jobGeneration (settle_flags m) = jobGeneration m"
  by (simp_all add: meas_defs Let_def)

lemma gen_ends [simp]:
  "jobGeneration (meas (start_finally g i s)) = jobGeneration (meas s)"
  "jobGeneration (meas (start_failed k g i m s)) = jobGeneration (meas s)"
  "jobGeneration (meas (poll_interrupted g i p m s)) = jobGeneration (meas s)"
  "jobGeneration (meas (poll_error k g i p m s)) = jobGeneration (meas s)"
  "jobGeneration (meas (poll_enter k g i p s)) = jobGeneration (meas s)"
  "jobGeneration (meas (after_cancel k g i s)) = jobGeneration (meas s)"
  "jobGeneration (meas (job_read k g i p job s)) = jobGeneration (meas s)"
  "jobGeneration (meas (cancel_answered c resp s)) = jobGeneration (meas s)"
  by (simp_all add: start_finally_def start_failed_def poll_interrupted_def poll_error_def poll_enter_def
      after_cancel_def pollMeasurementJob_def job_read_def cancel_answered_run Let_def)

lemma gen_success [simp]: "jobGeneration (meas (show_success timing p job s)) = jobGeneration (meas s)"
  using show_success_frame(4) [of s timing p job] by (simp add: same_run_def)

lemma gen_answer: "jobGeneration (meas (task_answered timing i a s)) = jobGeneration (meas s)"
  by (simp add: task_answered_def start_continues_def flush_done_def before_request_def start_settled_def
      job_started_def take_job_def poll_settled_def poll_slept_def snapshot_done_def Let_def
      split: option.split job_task.split start_stage.split job_answer.split response.split job_outcome.split
        job_kind.split)

lemma gen_step: "jobGeneration (meas s) \<le> jobGeneration (meas (job_step timing e s))"
proof -
  have start: "jobGeneration (meas (start_run ctx k s)) = jobGeneration (meas s) + 1" for ctx k
    by (simp add: start_run_def start_body_def Let_def claim_start_frame no_input_def)
  have cancel: "jobGeneration (meas (cancelMeasurement s)) = jobGeneration (meas s)"
    "jobGeneration (meas (requestMeasurementCancellation s)) = jobGeneration (meas s)"
    by (simp_all add: cancelMeasurement_def requestMeasurementCancellation_def)
  show ?thesis
    by (cases e) (simp_all add: sweep_toggle_clicked_def sweep_start_clicked_def startMeasurement_def
        repeat_clicked_def startLrRepeat_def no_input_def name_typed_def gen_answer start cancel)
qed

interpretation run_tokens: token_guard "\<lambda>s. jobGeneration (meas s)" "job_step timing" for timing
  by unfold_locales (rule gen_step)

definition superseded_call :: "job_page \<Rightarrow> job_task \<Rightarrow> bool" where
  "superseded_call s t = (case t of
     Start k g st \<Rightarrow> g \<noteq> jobGeneration (meas s)
   | Cancel c \<Rightarrow> \<not> is_current (cancelGen c) (cancelJob c) (meas s))"

lemma job_toasts_kept [simp]:
  "job_toasts (job_done i s) = job_toasts s" "job_toasts (wait i t s) = job_toasts s"
  by (simp_all add: job_done_def wait_def)

lemma not_current_inert:
  "\<not> is_current (cancelGen c) (cancelJob c) (meas s) \<Longrightarrow> cancel_answered c r s = s"
  by (simp add: cancel_answered_def cancel_refused_def cancel_ends_def Let_def split: response.split)

lemma superseded_ends:
  "jobGeneration (meas s) \<noteq> g \<Longrightarrow> start_finally g i s = job_done i s"
  "jobGeneration (meas s) \<noteq> g \<Longrightarrow> start_failed k g i m s = job_done i s"
  "jobGeneration (meas s) \<noteq> g \<Longrightarrow> poll_enter k g i p s = job_done i s"
  "jobGeneration (meas s) \<noteq> g \<Longrightarrow> poll_settled k g i p r s = job_done i s"
  "jobGeneration (meas s) \<noteq> g \<Longrightarrow> poll_slept k g i p s = job_done i s"
  "jobGeneration (meas s) \<noteq> g \<Longrightarrow> snapshot_done timing k g i p q s = job_done i s"
  "jobGeneration (meas s) \<noteq> g \<Longrightarrow> after_cancel k g i s = job_done i s"
  by (simp_all add: start_finally_def start_failed_def poll_enter_def poll_settled_def poll_slept_def
      snapshot_done_def after_cancel_def pollMeasurementJob_def is_current_def)

lemma superseded_answer:
  assumes inv: "job_inv s" and i: "map_of (tasks s) i = Some t" and stale: "superseded_call s t"
  shows "task_answered timing i a s \<in> {s, job_done i s}"
proof (cases t)
  case (Cancel c)
  then have "cancel_answered c r (job_done i s) = job_done i s" for r
    using stale by (intro not_current_inert) (simp add: superseded_call_def)
  with i Cancel show ?thesis by (simp add: task_answered_def split: job_answer.split)
next
  case (Start k g st)
  have g: "jobGeneration (meas s) \<noteq> g" using stale Start by (simp add: superseded_call_def)
  have "(i, Start k g st) \<in> set (tasks s)" using map_of_SomeD [OF i] Start by simp
  note fine = start_fine [OF inv this]
  have "\<not> unstarted st" using fine(2) g by auto
  moreover have "after_cancel k g i (cancel_answered c r s) = job_done i s" if "st = CancelFirst c" for c r
  proof -
    have "cancel_answered c r s = s"
      by (rule not_current_inert) (use fine(1) that g in \<open>simp add: is_current_def\<close>)
    then show ?thesis using superseded_ends(7) [OF g] by simp
  qed
  ultimately show ?thesis
    using i Start superseded_ends [OF g]
    by (simp add: task_answered_def start_continues_def unstarted_def split: start_stage.split job_answer.split)
qed

text \<open>C7: A superseded measurement is inert. In a reachable state an answer to a call of an older run,
  whatever its stage, or to a cancellation of a run that is over, changes neither the measurement
  state nor the messages; and a call of an older run never becomes current again, whatever happens
  later.\<close>

theorem superseded_runs_are_inert:
  assumes "reachable job_start (job_rel timing) s"
    and "map_of (tasks s) i = Some t" "superseded_call s t"
  shows "meas (job_step timing (Answered i a) s) = meas s
    \<and> job_toasts (job_step timing (Answered i a) s) = job_toasts s
    \<and> (\<forall>k g st es. t = Start k g st \<longrightarrow> g < jobGeneration (meas (run_events (job_step timing) es s)))"
proof -
  have inv: "job_inv s" using assms(1) by (rule sweeps.always)
  have "g < jobGeneration (meas s)" if "t = Start k g st" for k g st
    using job_invD(3) [OF inv map_of_SomeD [OF assms(2)]] assms(3) that
    by (simp add: task_fine_def superseded_call_def)
  then show ?thesis
    using superseded_answer [OF inv assms(2,3), of timing a] run_tokens.stale_for_ever by auto
qed

theorem superseded_runs_are_inert_witness:
  "map_of (tasks (after_events second_sweep)) 0
     = Some (Start Single 1 (PollSleep \<lparr>pollJob = ''j1'', pollAttempt = 0, pollErrors = 0, pollLabel = ''Sweep''\<rparr>))
   \<and> meas (job_step no_timing (Answered 0 Over) (after_events second_sweep)) = meas (after_events second_sweep)"
proof -
  have t: "map_of (tasks (after_events second_sweep)) 0
     = Some (Start Single 1 (PollSleep \<lparr>pollJob = ''j1'', pollAttempt = 0, pollErrors = 0, pollLabel = ''Sweep''\<rparr>))"
    by code_simp
  moreover have "superseded_call (after_events second_sweep)
      (Start Single 1 (PollSleep \<lparr>pollJob = ''j1'', pollAttempt = 0, pollErrors = 0, pollLabel = ''Sweep''\<rparr>))"
    by code_simp
  ultimately show ?thesis
    using superseded_runs_are_inert [OF reachable_after [OF honest_sweeps(1)] t] by blast
qed

subsection \<open>Every call ends\<close>

text \<open>How many answers a call can still take.\<close>

fun stage_answers :: "start_stage \<Rightarrow> nat" where
  "stage_answers Flushing = 2 * MAX_ATTEMPTS + 5"
| "stage_answers Starting = 2 * MAX_ATTEMPTS + 4"
| "stage_answers (CancelFirst c) = 2 * MAX_ATTEMPTS + 3"
| "stage_answers (PollFetch p) = 2 * (MAX_ATTEMPTS - pollAttempt p) + 2"
| "stage_answers (PollSleep p) = 2 * (MAX_ATTEMPTS - pollAttempt p) + 1"
| "stage_answers (Snapshot p q) = 1"

fun task_rank :: "job_task \<Rightarrow> nat" where
  "task_rank (Start k g st) = stage_answers st"
| "task_rank (Cancel c) = 1"

definition job_rank :: "nat \<Rightarrow> job_page \<Rightarrow> nat" where
  "job_rank i s = (case map_of (tasks s) i of None \<Rightarrow> 0 | Some t \<Rightarrow> task_rank t)"

text \<open>The answer is the one the call waits for.\<close>

definition awaits :: "job_task \<Rightarrow> job_answer \<Rightarrow> bool" where
  "awaits t a = (case t of
     Cancel c \<Rightarrow> (case a of Responded r \<Rightarrow> True | _ \<Rightarrow> False)
   | Start k g st \<Rightarrow> (case (st, a) of
       (Flushing, FlushEnded f) \<Rightarrow> True | (Starting, Responded r) \<Rightarrow> True | (CancelFirst c, Responded r) \<Rightarrow> True
     | (PollFetch p, Responded r) \<Rightarrow> True | (PollSleep p, Over) \<Rightarrow> True | (Snapshot p q, Over) \<Rightarrow> True | _ \<Rightarrow> False))"

definition answers :: "nat \<Rightarrow> job_event \<Rightarrow> job_page \<Rightarrow> bool" where
  "answers i e s = (case e of
     Answered j a \<Rightarrow> j = i \<and> (case map_of (tasks s) i of Some t \<Rightarrow> awaits t a | None \<Rightarrow> False) | _ \<Rightarrow> False)"

text \<open>The answers call \<open>i\<close> gets along a sequence of events.\<close>

fun answer_count :: "(jsval \<Rightarrow> string + string) \<Rightarrow> nat \<Rightarrow> job_event list \<Rightarrow> job_page \<Rightarrow> nat" where
  "answer_count timing i [] s = 0"
| "answer_count timing i (e # es) s =
     (if answers i e s then 1 else 0) + answer_count timing i es (job_step timing e s)"

text \<open>A step of call \<open>i\<close> that leaves it at most \<open>n\<close> answers.\<close>

definition others :: "nat \<Rightarrow> (nat \<times> job_task) list \<Rightarrow> (nat \<times> job_task) list" where
  "others i ts = filter (\<lambda>x. fst x \<noteq> i) ts"

definition moves_on :: "nat \<Rightarrow> nat \<Rightarrow> job_page \<Rightarrow> job_page \<Rightarrow> bool" where
  "moves_on i n s t = (task_id t = task_id s
     \<and> (tasks t = others i (tasks s) \<or> (\<exists>x. tasks t = (i, x) # others i (tasks s) \<and> task_rank x \<le> n)))"

lemma moves_onI:
  "task_id t = task_id s \<Longrightarrow> tasks t = others i (tasks s) \<Longrightarrow> moves_on i n s t"
  "task_id t = task_id s \<Longrightarrow> tasks t = (i, x) # others i (tasks s) \<Longrightarrow> task_rank x \<le> n \<Longrightarrow> moves_on i n s t"
  by (auto simp: moves_on_def)

lemma moves_on_le: "moves_on i n s t \<Longrightarrow> n \<le> n' \<Longrightarrow> moves_on i n' s t"
  by (fastforce simp: moves_on_def)

lemma moves_on_ends:
  "tasks t = tasks s \<Longrightarrow> task_id t = task_id s \<Longrightarrow> moves_on i n s (start_finally g i t)"
  "tasks t = tasks s \<Longrightarrow> task_id t = task_id s \<Longrightarrow> moves_on i n s (start_failed k g i m t)"
  "tasks t = tasks s \<Longrightarrow> task_id t = task_id s \<Longrightarrow> moves_on i n s (poll_interrupted g i p m t)"
  by (auto intro!: moves_onI simp: start_finally_def start_failed_def poll_interrupted_def others_def)

lemma moves_on_wait:
  "tasks t = tasks s \<Longrightarrow> task_id t = task_id s \<Longrightarrow> stage_answers st \<le> n \<Longrightarrow> moves_on i n s (wait i (Start k g st) t)"
  by (rule moves_onI(2) [where x = "Start k g st"]) (simp_all add: others_def)

lemma moves_on_poll:
  assumes t: "tasks t = tasks s" "task_id t = task_id s"
  shows "pollAttempt p < MAX_ATTEMPTS \<Longrightarrow> 2 * (MAX_ATTEMPTS - pollAttempt p) + 2 \<le> n \<Longrightarrow> moves_on i n s (poll_enter k g i p t)"
    and "\<not> pollAttempt p < MAX_ATTEMPTS \<Longrightarrow> moves_on i n s (poll_enter k g i p t)"
    and "2 * (MAX_ATTEMPTS - pollAttempt p) + 1 \<le> n \<Longrightarrow> moves_on i n s (poll_error k g i p m t)"
    and "2 * (MAX_ATTEMPTS - pollAttempt p) + 1 \<le> n \<Longrightarrow> moves_on i n s (job_read k g i p job t)"
  using t by (auto simp: poll_enter_def poll_error_def job_read_def Let_def intro!: moves_on_ends moves_on_wait)

lemma moves_on_after_cancel:
  assumes "tasks t = tasks s" "task_id t = task_id s"
  shows "moves_on i (2 * MAX_ATTEMPTS + 2) s (after_cancel k g i t)"
  using assms by (auto simp: after_cancel_def pollMeasurementJob_def MAX_ATTEMPTS_def
      intro!: moves_on_ends moves_on_poll(1))

lemma start_moves_on:
  assumes "awaits (Start k g st) a"
  shows "moves_on i (stage_answers st - 1) s (start_continues timing k g i st a s)"
proof (cases st)
  case Flushing
  then show ?thesis
    using assms by (auto simp: awaits_def start_continues_def flush_done_def
        intro!: moves_on_ends moves_on_wait split: job_answer.splits option.split)
next
  case Starting
  have "moves_on i (3 + 2 * MAX_ATTEMPTS) s (job_started k g i job s)" for job
    using moves_on_le [OF moves_on_after_cancel]
    by (auto simp: job_started_def Let_def intro!: moves_on_wait)
  then show ?thesis
    using Starting assms by (auto simp: awaits_def start_continues_def start_settled_def Let_def
        intro!: moves_on_ends split: job_answer.splits response.split)
next
  case (CancelFirst c)
  have "moves_on i (2 * MAX_ATTEMPTS + 2) s (after_cancel k g i (cancel_answered c r s))" for r
    by (rule moves_on_after_cancel) (simp_all add: cancel_answered_tasks)
  then show ?thesis
    using CancelFirst assms by (auto simp: awaits_def start_continues_def split: job_answer.splits)
next
  case (PollFetch p)
  then show ?thesis
    using assms by (auto simp: awaits_def start_continues_def poll_settled_def Let_def
        intro!: moves_on_ends moves_on_poll split: job_answer.splits response.split)
next
  case (PollSleep p)
  let ?q = "p\<lparr>pollAttempt := pollAttempt p + 1\<rparr>"
  have "moves_on i (2 * (MAX_ATTEMPTS - pollAttempt p)) s (poll_enter k g i ?q s)"
  proof (cases "pollAttempt ?q < MAX_ATTEMPTS")
    case True
    then show ?thesis by (intro moves_on_poll(1)) auto
  next
    case False
    then show ?thesis by (intro moves_on_poll(2)) simp_all
  qed
  then show ?thesis
    using PollSleep assms by (auto simp: awaits_def start_continues_def poll_slept_def split: job_answer.splits)
next
  case (Snapshot p q)
  then show ?thesis
    using assms by (auto simp: awaits_def start_continues_def snapshot_done_def show_success_frame
        intro!: moves_on_ends split: job_answer.splits job_outcome.split)
qed

lemma answer_moves_on:
  assumes i: "map_of (tasks s) i = Some t" and a: "awaits t a"
  shows "moves_on i (task_rank t - 1) s (task_answered timing i a s)"
proof (cases t)
  case (Start k g st)
  then show ?thesis using start_moves_on a i by (simp add: task_answered_def)
next
  case (Cancel c)
  then show ?thesis
    using a i by (auto simp: task_answered_def awaits_def cancel_answered_tasks others_def
        intro!: moves_onI(1) split: job_answer.splits)
qed

lemma not_awaited: "map_of (tasks s) i = Some t \<Longrightarrow> \<not> awaits t a \<Longrightarrow> task_answered timing i a s = s"
  by (auto simp: task_answered_def awaits_def start_continues_def
      split: job_task.splits start_stage.splits job_answer.splits)

lemma map_of_others [simp]: "map_of (others i ts) j = (if j = i then None else map_of ts j)"
  by (induction ts) (auto simp: others_def)

lemma rank_answered:
  assumes "answers i (Answered j a) s"
  shows "job_rank i (task_answered timing j a s) < job_rank i s"
proof -
  obtain t where t: "j = i" "map_of (tasks s) i = Some t" "awaits t a"
    using assms by (auto simp: answers_def split: option.splits)
  have "1 \<le> task_rank t"
  proof (cases t)
    case (Start k g st)
    then show ?thesis by (cases st) simp_all
  qed simp
  then show ?thesis
    using answer_moves_on [OF t(2,3), of timing] t by (auto simp: moves_on_def job_rank_def)
qed

lemma rank_unanswered:
  assumes "i < task_id s" "\<not> answers i e s"
  shows "job_rank i (job_step timing e s) = job_rank i s"
proof -
  have own: "job_rank i (task_answered timing i a s) = job_rank i s" if "e = Answered i a" for a
    using assms that not_awaited by (cases "map_of (tasks s) i") (auto simp: answers_def task_answered_def)
  have other: "map_of (tasks (task_answered timing j a s)) i = map_of (tasks s) i" if "j \<noteq> i" for j a
  proof (cases "map_of (tasks s) j")
    case (Some t)
    then show ?thesis
      using answer_moves_on [OF Some, of a timing] not_awaited [OF Some, of a timing] that
      by (cases "awaits t a") (auto simp: moves_on_def)
  qed (simp add: task_answered_def)
  have wait: "map_of (tasks (wait (task_id s) t u)) i = map_of (tasks u) i" for t u
    using assms(1) map_of_others [of "task_id s" "tasks u" i] by (simp add: others_def)
  have ended: "map_of (tasks (start_finally g (task_id s) u)) i = map_of (tasks u) i" for g u
    using assms(1) map_of_others [of "task_id s" "tasks u" i] by (simp add: others_def start_finally_def)
  have cancel: "map_of (tasks (cancelMeasurement s)) i = map_of (tasks s) i"
    "map_of (tasks (requestMeasurementCancellation s)) i = map_of (tasks s) i"
    using wait by (simp_all add: cancelMeasurement_def requestMeasurementCancellation_def)
  have start: "map_of (tasks (start_run ctx k s)) i = map_of (tasks s) i" for ctx k
    using wait ended by (simp add: start_run_def start_body_def Let_def no_input_def)
  have "job_rank i (task_answered timing j a s) = job_rank i s" if "e = Answered j a" for j a
    using own other [of j a] that by (cases "j = i") (simp_all add: job_rank_def)
  then show ?thesis
    by (cases e) (simp_all add: job_rank_def cancel start sweep_toggle_clicked_def sweep_start_clicked_def
        startMeasurement_def repeat_clicked_def startLrRepeat_def no_input_def name_typed_def)
qed

lemma task_id_mono: "task_id s \<le> task_id (job_step timing e s)"
proof -
  have start: "task_id s \<le> task_id (start_run ctx k s)" for ctx k
    by (simp add: start_run_def start_body_def start_finally_def Let_def no_input_def)
  have cancel: "task_id s \<le> task_id (cancelMeasurement s)"
    "task_id s \<le> task_id (requestMeasurementCancellation s)"
    by (simp_all add: cancelMeasurement_def requestMeasurementCancellation_def)
  have "task_id (task_answered timing i a s) = task_id s" for i a
  proof (cases "map_of (tasks s) i")
    case (Some t)
    then show ?thesis
      using answer_moves_on [OF Some, of a timing] not_awaited [OF Some, of a timing]
      by (cases "awaits t a") (auto simp: moves_on_def)
  qed (simp add: task_answered_def)
  then show ?thesis
    by (cases e) (simp_all add: start cancel sweep_toggle_clicked_def sweep_start_clicked_def
        startMeasurement_def repeat_clicked_def startLrRepeat_def no_input_def name_typed_def)
qed

lemma answer_count_rank:
  "i < task_id s \<Longrightarrow> answer_count timing i es s + job_rank i (run_events (job_step timing) es s) \<le> job_rank i s"
proof (induction es arbitrary: s)
  case (Cons e es)
  have "i < task_id (job_step timing e s)" using Cons.prems task_id_mono [of s timing e] by simp
  then have IH: "answer_count timing i es (job_step timing e s)
      + job_rank i (run_events (job_step timing) es (job_step timing e s)) \<le> job_rank i (job_step timing e s)"
    by (rule Cons.IH)
  show ?case
  proof (cases "answers i e s")
    case True
    then obtain a where "e = Answered i a" by (auto simp: answers_def split: job_event.splits)
    with True IH rank_answered [of i i a s timing] show ?thesis by simp
  next
    case False
    with IH rank_unanswered [OF Cons.prems False, of timing] show ?thesis by simp
  qed
qed simp

lemma task_rank_bounds: "1 \<le> task_rank t" "task_rank t \<le> 725"
proof -
  have "1 \<le> stage_answers st \<and> stage_answers st \<le> 725" for st
    by (cases st) (simp_all add: MAX_ATTEMPTS_def)
  then show "1 \<le> task_rank t" "task_rank t \<le> 725" by (cases t, simp_all)+
qed

text \<open>C8: Every measurement call ends. Whatever the answers are and whatever the user does in between,
  a call that waits in a reachable state takes at most 725 answers (the flush, the start, a
  cancellation, 360 polls with their pauses, the snapshot); a cancellation takes one; and a call that
  still waits always has an answer it accepts. After 40 polls in a row that fail a run is over, so a
  waiting poll never has more than 39 failures behind it.\<close>

theorem every_measurement_call_ends:
  assumes "reachable job_start (job_rel timing) s" and "map_of (tasks s) i = Some t"
  shows "answer_count timing i es s \<le> 725
    \<and> (\<forall>c. t = Cancel c \<longrightarrow> answer_count timing i es s \<le> 1)
    \<and> (answer_count timing i es s = task_rank t \<longrightarrow> i \<notin> fst ` set (tasks (run_events (job_step timing) es s)))
    \<and> (\<exists>a. awaits t a)
    \<and> (\<forall>k g p. t = Start k g (PollFetch p) \<longrightarrow> pollAttempt p < 360 \<and> pollErrors p < 40)"
proof (intro conjI allI impI)
  have inv: "job_inv s" using assms(1) by (rule sweeps.always)
  have i: "(i, t) \<in> set (tasks s)" using assms(2) by (rule map_of_SomeD)
  have count: "answer_count timing i es s + job_rank i (run_events (job_step timing) es s) \<le> task_rank t"
    using answer_count_rank [OF job_invD(2) [OF inv i], of timing es] assms(2) by (simp add: job_rank_def)
  then show "answer_count timing i es s \<le> 725" using task_rank_bounds(2) [of t] by simp
  show "answer_count timing i es s \<le> 1" if "t = Cancel c" for c using count that by simp
  show "i \<notin> fst ` set (tasks (run_events (job_step timing) es s))" if "answer_count timing i es s = task_rank t"
  proof -
    have none: "job_rank i (run_events (job_step timing) es s) = 0" using count that by simp
    have "job_rank i u \<noteq> 0" if "map_of (tasks u) i = Some v" for u v
      using that task_rank_bounds(1) [of v] by (simp add: job_rank_def)
    with none have "map_of (tasks (run_events (job_step timing) es s)) i = None"
      by (cases "map_of (tasks (run_events (job_step timing) es s)) i") auto
    then show ?thesis by (simp add: map_of_eq_None_iff)
  qed
  show "\<exists>a. awaits t a"
  proof (cases t)
    case (Start k g st)
    have "awaits t (FlushEnded None) \<or> awaits t (Responded (NetError [])) \<or> awaits t Over"
      by (cases st) (simp_all add: Start awaits_def)
    then show ?thesis by blast
  next
    case (Cancel c)
    then have "awaits t (Responded (NetError []))" by (simp add: awaits_def)
    then show ?thesis ..
  qed
  show "pollAttempt p < 360" "pollErrors p < 40" if "t = Start k g (PollFetch p)" for k g p
    using job_invD(3) [OF inv i] that
    by (simp_all add: task_fine_def poll_ok_def MAX_ATTEMPTS_def MAX_CONSECUTIVE_ERRORS_def)
qed

text \<open>Forty failing polls end the run.\<close>

fun failing_polls :: "nat \<Rightarrow> job_event list" where
  "failing_polls 0 = []"
| "failing_polls (Suc n) = Answered 0 (Responded (NetError ''offline'')) # Answered 0 Over # failing_polls n"

definition started_sweep :: "job_event list" where
  "started_sweep = [SweepStartClicked at_desk, Answered 0 (FlushEnded None),
     Answered 0 (Responded (Http 200 (job_body ''queued'')))]"

theorem every_measurement_call_ends_witness:
  "answer_count no_timing 0 (failing_polls 40) (after_events started_sweep) \<le> 725
   \<and> statusText (meas (after_events (started_sweep @ failing_polls 39))) = []
   \<and> statusText (meas (after_events (started_sweep @ failing_polls 40))) = ''Sweep interrupted: offline''
   \<and> tasks (after_events (started_sweep @ failing_polls 40)) = []"
proof -
  have "map_of (tasks (after_events started_sweep)) 0
     = Some (Start Single 1 (PollFetch \<lparr>pollJob = ''j1'', pollAttempt = 0, pollErrors = 0, pollLabel = ''Sweep''\<rparr>))"
    and "honest_run no_timing started_sweep init_job_page"
    and rest: "statusText (meas (after_events (started_sweep @ failing_polls 39))) = []"
      "statusText (meas (after_events (started_sweep @ failing_polls 40))) = ''Sweep interrupted: offline''"
      "tasks (after_events (started_sweep @ failing_polls 40)) = []"
    by code_simp+
  then show ?thesis
    using every_measurement_call_ends [OF reachable_after, of started_sweep 0] rest by blast
qed

text \<open>A cancellation that was asked for before the job was known remembers \<open>Cancelling\<close> as the text it
  replaced. When the backend refuses it, that text is put back, and the polls keep it: the status line
  says the run could not be cancelled and the progress line that it is being cancelled.\<close>

definition refused_early_cancel :: "job_event list" where
  "refused_early_cancel = [SweepStartClicked at_desk, Answered 0 (FlushEnded None), SweepToggleClicked,
     Answered 0 (Responded (Http 200 (job_body ''queued''))), Answered 0 (Responded (Http 500 None)),
     Answered 0 (Responded (Http 200 (job_body ''running'')))]"

lemma refused_early_cancel_keeps_its_progress:
  "progressText (meas (after_events refused_early_cancel)) = cancelling"
  "statusText (meas (after_events refused_early_cancel)) = ''Could not cancel the sweep: request rejected''"
  "activeJobId (meas (after_events refused_early_cancel)) = ''j1''"
  by code_simp+

end
