(* ===== verification/Hybrid_Scope.thy ===== *)
theory Hybrid_Scope
  imports Interfaces "HOL-Library.Multiset"
begin

section \<open>Advanced measurement: scopes and sequences\<close>

text \<open>
  What one Advanced run measures and in which order (static/hybrid_measurement.js): the scope of the
  measuring area, the sequence of captures of one scope, and the sequence of a series that measures
  several speaker groups at shared microphone positions. Steps carry the microphone position and
  whether the microphone has to be moved first.
\<close>

subsection \<open>Text helpers\<close>

definition drop_prefix :: "string \<Rightarrow> string \<Rightarrow> string" where
  "drop_prefix p s = (if starts_with s p then drop (length p) s else s)"

definition drop_suffix :: "string \<Rightarrow> string \<Rightarrow> string" where
  "drop_suffix p s = (if ends_with s p then take (length s - length p) s else s)"

definition global_prefix :: string where
  "global_prefix = ''Global '' @ mid_dot @ '' ''"

text \<open>The UTF-8 bytes of the en dash.\<close>

definition EN_DASH :: string where
  "EN_DASH = [CHR 0xE2, CHR 0x80, CHR 0x93]"

subsection \<open>Scopes\<close>

record group_scope =
  scopeId :: string
  scopeMode :: string
  scopeLabel :: string
  scopeChannels :: "string list"
  scopeDirect :: bool
  scopeIntegration :: bool
  scopeSpeaker :: string
  scopeUnit :: string
  scopeWholeSystem :: bool
  scopeIncludesSubs :: bool
  scopeGroup :: string
  scopeDiagramGroup :: string
  scopeGroupName :: string

text \<open>A run measures one scope, or a series of group scopes.\<close>

datatype hybrid_scope = GroupScope group_scope | SeriesScope "group_scope list"

definition MODE_LABELS :: "string \<rightharpoonup> string" where
  "MODE_LABELS = map_of [(''stereo'', ''Stereo''), (''subwoofer-2.1'', ''2.1''),
     (''subwoofer-2.2'', ''2.2 Mono''), (''subwoofer-2.2-stereo'', ''2.2 Stereo'')]"

definition SUB_MODE_NAMES :: "(jsval \<times> string) list" where
  "SUB_MODE_NAMES = [(JStr ''mono'', ''subwoofer-2.1''), (JStr ''dual-mono'', ''subwoofer-2.2''),
     (JStr ''stereo'', ''subwoofer-2.2-stereo'')]"

definition sub_mode_name :: "jsval \<Rightarrow> string" where
  "sub_mode_name topology =
     (case map_of SUB_MODE_NAMES (jget topology ''sub_mode'') of None \<Rightarrow> ''stereo'' | Some m \<Rightarrow> m)"

definition mode_label :: "string \<Rightarrow> string" where
  "mode_label m = (case MODE_LABELS m of None \<Rightarrow> [] | Some l \<Rightarrow> l)"

definition legacyScope :: "string \<Rightarrow> group_scope" where
  "legacyScope mode =
     (let normalized = (if MODE_LABELS mode \<noteq> None then mode else ''stereo'')
      in \<lparr>scopeId = normalized, scopeMode = normalized, scopeLabel = mode_label normalized,
          scopeChannels = [''left'', ''right''], scopeDirect = True, scopeIntegration = (normalized \<noteq> ''stereo''),
          scopeSpeaker = [], scopeUnit = ''speaker'', scopeWholeSystem = True, scopeIncludesSubs = True,
          scopeGroup = [], scopeDiagramGroup = [], scopeGroupName = []\<rparr>)"

definition diagram_group :: "string \<Rightarrow> string \<Rightarrow> string" where
  "diagram_group grp bankId =
     (if grp \<noteq> [] then grp
      else case map_of [(''main'', ''front''), (''center'', ''center''), (''side'', ''side''), (''rear'', ''rear'')] bankId of
        None \<Rightarrow> [] | Some g \<Rightarrow> g)"

definition buildScope :: "jsval \<Rightarrow> jsval \<Rightarrow> group_scope" where
  "buildScope area topology =
     (let mode = sub_mode_name topology;
          bankId = to_str (js_or (jget area ''bank_id'') (JStr ''global''));
          grp = str_or_empty (jget area ''group'');
          subwoofer = starts_with bankId ''sub'';
          channels = (if jget area ''channel_mode'' = JStr ''mono'' then [''stereo''] else [''left'', ''right'']);
          wholeSystem = (bankId = ''global'' \<and> \<not> truthy (jget area ''group''));
          label = drop_prefix global_prefix (str_or_empty (jget area ''label''));
          name = drop_suffix '' + Sub'' label
      in \<lparr>scopeId = join_with ''|'' [bankId, grp, join_with '','' channels, mode], scopeMode = mode,
          scopeLabel = (if wholeSystem then mode_label mode else label), scopeChannels = channels,
          scopeDirect = (\<not> subwoofer),
          scopeIntegration = (\<not> subwoofer \<and> length channels = 2 \<and> mode \<noteq> ''stereo''),
          scopeSpeaker = (if length channels = 1 then (if subwoofer then name else name @ '' speaker'') else []),
          scopeUnit = (if subwoofer then ''sub'' else ''speaker''), scopeWholeSystem = wholeSystem,
          scopeIncludesSubs = (subwoofer \<or> wholeSystem \<or> truthy (jget area ''group'')), scopeGroup = grp,
          scopeDiagramGroup = diagram_group grp bankId, scopeGroupName = name\<rparr>)"

text \<open>\<open>buildSeriesScope\<close>: the id of a series names the scopes it measures.\<close>

definition scope_id :: "hybrid_scope \<Rightarrow> string" where
  "scope_id sc = (case sc of
     GroupScope g \<Rightarrow> scopeId g
   | SeriesScope gs \<Rightarrow> join_with ''+'' (''series'' # List.map scopeId gs))"

definition scope_mode :: "hybrid_scope \<Rightarrow> string" where
  "scope_mode sc = (case sc of GroupScope g \<Rightarrow> scopeMode g
     | SeriesScope gs \<Rightarrow> (case gs of [] \<Rightarrow> ''stereo'' | g # _ \<Rightarrow> if scopeMode g = [] then ''stereo'' else scopeMode g))"

definition scope_label :: "hybrid_scope \<Rightarrow> string" where
  "scope_label sc = (case sc of GroupScope g \<Rightarrow> scopeLabel g | SeriesScope gs \<Rightarrow> ''All speakers'')"

subsection \<open>The sequence of one scope\<close>

record hybrid_step =
  stepId :: string
  stepRole :: string
  stepPosition :: string
  stepChannel :: string
  stepTitle :: string
  stepInstruction :: string
  stepActive :: string
  stepMove :: bool
  stepGroup :: string

definition mk_step :: "string \<Rightarrow> string \<Rightarrow> string \<Rightarrow> string \<Rightarrow> string \<Rightarrow> string \<Rightarrow> string \<Rightarrow> bool \<Rightarrow> hybrid_step" where
  "mk_step i role position channel title instruction active move =
     \<lparr>stepId = i, stepRole = role, stepPosition = position, stepChannel = channel, stepTitle = title,
      stepInstruction = instruction, stepActive = active, stepMove = move, stepGroup = []\<rparr>"

definition is_pair :: "group_scope \<Rightarrow> bool" where
  "is_pair sc = (length (scopeChannels sc) = 2)"

definition active_name :: "group_scope \<Rightarrow> string \<Rightarrow> string" where
  "active_name sc channel = (if is_pair sc then capitalize channel @ '' '' @ scopeUnit sc else scopeSpeaker sc)"

definition direct_step :: "group_scope \<Rightarrow> string \<Rightarrow> hybrid_step" where
  "direct_step sc channel =
     mk_step (''direct-'' @ channel) ''direct'' (''direct-'' @ channel) channel
       (if is_pair sc then ''Direct response '' @ mid_dot @ '' '' @ capitalize channel else ''Direct response'')
       (''Place the microphone about 1 m from the ''
          @ (if is_pair sc then channel else drop_suffix '' speaker'' (lower_case (scopeSpeaker sc)))
          @ '' speaker on its listening axis.'')
       (active_name sc channel) True"

definition AUTOMATIC :: string where
  "AUTOMATIC = '' Left and right will be measured automatically.''"

text \<open>The inner \<open>series\<close>: the captures of one position, left to right without moving the microphone.\<close>

definition channel_suffix :: "group_scope \<Rightarrow> bool \<Rightarrow> string \<Rightarrow> string" where
  "channel_suffix sc shortSuffix channel =
     (if \<not> is_pair sc then [] else if shortSuffix then (if channel = ''left'' then ''-l'' else ''-r'') else ''-'' @ channel)"

definition position_step :: "group_scope \<Rightarrow> string \<Rightarrow> string \<Rightarrow> string \<Rightarrow> string \<Rightarrow> bool \<Rightarrow> string \<Rightarrow> nat \<Rightarrow> string \<Rightarrow> hybrid_step" where
  "position_step sc position role title baseId shortSuffix instruction index channel =
     mk_step (baseId @ channel_suffix sc shortSuffix channel) role position channel title
       (if index = 0 then instruction @ (if is_pair sc then AUTOMATIC else []) else ''Keep the microphone here.'')
       (active_name sc channel) (index = 0)"

definition position_steps :: "group_scope \<Rightarrow> string \<Rightarrow> string \<Rightarrow> string \<Rightarrow> string \<Rightarrow> bool \<Rightarrow> string \<Rightarrow> hybrid_step list" where
  "position_steps sc position role title baseId shortSuffix instruction =
     List.map (\<lambda>(index, channel). position_step sc position role title baseId shortSuffix instruction index channel)
       (List.enumerate 0 (scopeChannels sc))"

definition integration_step :: hybrid_step where
  "integration_step = mk_step ''integration'' ''integration'' ''mlp'' ''stereo'' ''Subwoofer alignment check''
     ''Move the microphone back to the main listening position.'' ''L + R with subwoofer routing'' True"

definition buildSequence :: "group_scope \<Rightarrow> hybrid_step list" where
  "buildSequence sc =
     (if scopeDirect sc then List.map (direct_step sc) (scopeChannels sc) else [])
     @ position_steps sc ''mlp'' ''mlp'' ''Main listening position'' ''mlp'' False
         ''Move the microphone to ear height at the main listening position.''
     @ position_steps sc ''left'' ''secondary'' ''Left listening position'' ''area-left'' True
         (''Move the microphone 20'' @ EN_DASH @ ''30 cm left of the main listening position.'')
     @ position_steps sc ''right'' ''secondary'' ''Right listening position'' ''area-right'' True
         (''Move the microphone 20'' @ EN_DASH @ ''30 cm right of the main listening position.'')
     @ (if scopeIntegration sc then [integration_step] else [])"

subsection \<open>The sequence of a series\<close>

definition group_step :: "group_scope \<Rightarrow> hybrid_step \<Rightarrow> hybrid_step" where
  "group_step sc item = item\<lparr>stepId := scopeGroup sc @ '':'' @ stepId item, stepGroup := scopeGroup sc,
     stepActive := (if is_pair sc then scopeGroupName sc @ '' '' @ mid_dot @ '' '' @ stepActive item else stepActive item)\<rparr>"

definition grouped_steps :: "group_scope list \<Rightarrow> hybrid_step list" where
  "grouped_steps scopes = concat (List.map (\<lambda>sc. List.map (group_step sc) (buildSequence sc)) scopes)"

definition shared_step :: "nat \<Rightarrow> hybrid_step \<Rightarrow> hybrid_step" where
  "shared_step index item = item\<lparr>stepMove := (index = 0), stepInstruction :=
     (if index = 0 then drop_suffix AUTOMATIC (stepInstruction item) @ '' All speakers will be measured automatically.''
      else ''Keep the microphone here.'')\<rparr>"

definition at_position :: "string \<Rightarrow> hybrid_step \<Rightarrow> bool" where
  "at_position position item = (stepRole item \<noteq> ''direct'' \<and> stepPosition item = position)"

definition shared_steps :: "hybrid_step list \<Rightarrow> string \<Rightarrow> hybrid_step list" where
  "shared_steps steps position =
     List.map (\<lambda>(index, item). shared_step index item) (List.enumerate 0 (filter (at_position position) steps))"

definition LISTENING_POSITIONS :: "string list" where
  "LISTENING_POSITIONS = [''mlp'', ''left'', ''right'']"

definition buildSeriesSequence :: "group_scope list \<Rightarrow> hybrid_step list" where
  "buildSeriesSequence scopes =
     (let grouped = grouped_steps scopes
      in filter (\<lambda>item. stepRole item = ''direct'') grouped
         @ concat (List.map (shared_steps grouped) LISTENING_POSITIONS))"

definition sequence_of :: "hybrid_scope \<Rightarrow> hybrid_step list" where
  "sequence_of sc = (case sc of GroupScope g \<Rightarrow> buildSequence g | SeriesScope gs \<Rightarrow> buildSeriesSequence gs)"

text \<open>The scope one step of a run measures; \<open>None\<close> for an empty series, which has no steps.\<close>

definition scopeForStep :: "hybrid_scope \<Rightarrow> hybrid_step \<Rightarrow> group_scope option" where
  "scopeForStep sc st = (case sc of
     GroupScope g \<Rightarrow> Some g
   | SeriesScope gs \<Rightarrow>
       (case find (\<lambda>g. scopeGroup g = stepGroup st) gs of
          Some g \<Rightarrow> Some g
        | None \<Rightarrow> (case gs of [] \<Rightarrow> None | g # _ \<Rightarrow> Some g)))"

subsection \<open>Moving through a sequence\<close>

function series_end :: "hybrid_step list \<Rightarrow> string \<Rightarrow> nat \<Rightarrow> nat" where
  "series_end steps position i =
     (if i + 1 < length steps \<and> stepPosition (steps ! (i + 1)) = position \<and> \<not> stepMove (steps ! (i + 1))
      then series_end steps position (i + 1) else i)"
  by pat_completeness auto
termination by (relation "measure (\<lambda>(steps, position, i). length steps - i)") auto

declare series_end.simps [simp del]

definition getPositionSeriesEnd :: "hybrid_step list \<Rightarrow> nat \<Rightarrow> nat" where
  "getPositionSeriesEnd steps startIndex = series_end steps (stepPosition (steps ! startIndex)) startIndex"

fun back_to_move :: "hybrid_step list \<Rightarrow> nat \<Rightarrow> nat" where
  "back_to_move steps 0 = 0"
| "back_to_move steps (Suc i) =
     (if \<not> stepMove (steps ! Suc i) \<and> stepPosition (steps ! i) = stepPosition (steps ! Suc i)
      then back_to_move steps i else Suc i)"

definition getPreviousPositionIndex :: "hybrid_step list \<Rightarrow> nat \<Rightarrow> nat" where
  "getPreviousPositionIndex steps currentIndex = (if currentIndex = 0 then 0 else back_to_move steps (currentIndex - 1))"

end
