(* ===== verification/Hybrid_Claims.thy ===== *)
theory Hybrid_Claims
  imports Hybrid_Scope
begin

section \<open>What a measurement sequence promises\<close>

text \<open>
  A sequence is a row of blocks: a step that moves the microphone, followed by the steps taken at the
  same place. Running a block, going on and going back move along these blocks, and a series visits
  every listening position once with every group's captures in it.
\<close>

subsection \<open>Blocks\<close>

fun blocks_from :: "string option \<Rightarrow> hybrid_step list \<Rightarrow> bool" where
  "blocks_from p [] = True"
| "blocks_from p (s # ss) = ((stepMove s \<or> p = Some (stepPosition s)) \<and> blocks_from (Some (stepPosition s)) ss)"

definition in_blocks :: "hybrid_step list \<Rightarrow> bool" where
  "in_blocks ss = blocks_from None ss"

lemma blocks_weaken: "blocks_from None ss \<Longrightarrow> blocks_from p ss"
  by (cases ss) auto

lemma blocks_append: "blocks_from p xs \<Longrightarrow> in_blocks ys \<Longrightarrow> blocks_from p (xs @ ys)"
  by (induction xs arbitrary: p) (auto simp: in_blocks_def intro: blocks_weaken)

lemma in_blocks_append: "in_blocks xs \<Longrightarrow> in_blocks ys \<Longrightarrow> in_blocks (xs @ ys)"
  using blocks_append [of None xs ys] by (simp add: in_blocks_def)

lemma in_blocks_concat: "(\<And>xs. xs \<in> set xss \<Longrightarrow> in_blocks xs) \<Longrightarrow> in_blocks (concat xss)"
  by (induction xss) (simp add: in_blocks_def, simp add: in_blocks_append)

lemma in_blocks_moves: "(\<And>s. s \<in> set ss \<Longrightarrow> stepMove s) \<Longrightarrow> in_blocks ss"
proof -
  have "(\<And>s. s \<in> set ss \<Longrightarrow> stepMove s) \<Longrightarrow> blocks_from p ss" for p
    by (induction ss arbitrary: p) auto
  then show "(\<And>s. s \<in> set ss \<Longrightarrow> stepMove s) \<Longrightarrow> in_blocks ss" by (simp add: in_blocks_def)
qed

text \<open>One place: the first step moves there, the others stay.\<close>

lemma in_blocks_place:
  assumes "\<And>i x. stepPosition (f i x) = pos" "\<And>i x. stepMove (f i x) = (i = 0)"
  shows "in_blocks (List.map (\<lambda>(i, x). f i x) (List.enumerate 0 xs))"
proof -
  have "blocks_from (Some pos) (List.map (\<lambda>(i, x). f i x) (List.enumerate (Suc n) ys))" for n ys
    by (induction ys arbitrary: n) (simp_all add: assms)
  then show ?thesis by (cases xs) (simp_all add: in_blocks_def assms)
qed

lemma blocks_nth:
  assumes "in_blocks ss" "i < length ss" "\<not> stepMove (ss ! i)"
  shows "0 < i \<and> stepPosition (ss ! (i - 1)) = stepPosition (ss ! i)"
proof -
  have "blocks_from p ss \<Longrightarrow> i < length ss \<Longrightarrow> \<not> stepMove (ss ! i)
      \<Longrightarrow> (if i = 0 then p = Some (stepPosition (ss ! 0)) else stepPosition (ss ! (i - 1)) = stepPosition (ss ! i))"
    for p i ss
  proof (induction ss arbitrary: p i)
    case (Cons s ss)
    show ?case
    proof (cases i)
      case (Suc j)
      have "blocks_from (Some (stepPosition s)) ss" "j < length ss" "\<not> stepMove (ss ! j)"
        using Cons.prems Suc by auto
      from Cons.IH [OF this] show ?thesis using Suc by (cases j) auto
    qed (use Cons.prems in auto)
  qed simp
  from this [of None ss i] assms show ?thesis by (auto simp: in_blocks_def split: if_splits)
qed

lemma position_steps_blocks: "in_blocks (position_steps sc position role title baseId short instruction)"
  unfolding position_steps_def
  by (rule in_blocks_place [where pos = position]) (simp_all add: position_step_def mk_step_def)

lemma buildSequence_blocks: "in_blocks (buildSequence sc)"
proof -
  have "in_blocks (if scopeDirect sc then List.map (direct_step sc) (scopeChannels sc) else [])"
    by (rule in_blocks_moves) (auto simp: direct_step_def mk_step_def)
  moreover have "in_blocks (if scopeIntegration sc then [integration_step] else [])"
    by (simp add: in_blocks_def integration_step_def mk_step_def)
  ultimately show ?thesis
    unfolding buildSequence_def by (intro in_blocks_append position_steps_blocks)
qed

lemma group_step_frame [simp]:
  "stepRole (group_step sc s) = stepRole s" "stepPosition (group_step sc s) = stepPosition s"
  "stepChannel (group_step sc s) = stepChannel s" "stepMove (group_step sc s) = stepMove s"
  "stepGroup (group_step sc s) = scopeGroup sc" "stepId (group_step sc s) = scopeGroup sc @ '':'' @ stepId s"
  by (simp_all add: group_step_def)

lemma position_steps_role: "s \<in> set (position_steps sc position role title baseId short instruction) \<Longrightarrow> stepRole s = role"
  by (auto simp: position_steps_def position_step_def mk_step_def)

lemma direct_steps_move: "s \<in> set (buildSequence sc) \<Longrightarrow> stepRole s = ''direct'' \<Longrightarrow> stepMove s"
  unfolding buildSequence_def set_append Un_iff
  by (elim disjE) (auto dest: position_steps_role simp: direct_step_def integration_step_def mk_step_def
      split: if_splits)

lemma buildSeriesSequence_blocks: "in_blocks (buildSeriesSequence scopes)"
proof -
  have "in_blocks (shared_steps steps position)" for steps position
  proof -
    have "\<And>s. s \<in> set (filter (at_position position) steps) \<Longrightarrow> stepPosition s = position"
      by (simp add: at_position_def)
    then have place: "\<forall>s \<in> set (filter (at_position position) steps). stepPosition s = position" by blast
    have "blocks_from (Some position) (List.map (\<lambda>(i, x). shared_step i x) (List.enumerate (Suc n) ys))"
      if "\<forall>s \<in> set ys. stepPosition s = position" for n ys
      using that by (induction ys arbitrary: n) (simp_all add: shared_step_def)
    with place show ?thesis
      by (cases "filter (at_position position) steps") (simp_all add: shared_steps_def in_blocks_def shared_step_def)
  qed
  moreover have "in_blocks (filter (\<lambda>item. stepRole item = ''direct'') (grouped_steps scopes))"
    by (rule in_blocks_moves) (auto simp: grouped_steps_def direct_steps_move)
  ultimately show ?thesis
    by (auto simp: buildSeriesSequence_def Let_def intro!: in_blocks_append in_blocks_concat)
qed

lemma sequence_blocks: "in_blocks (sequence_of sc)"
  by (simp add: sequence_of_def buildSequence_blocks buildSeriesSequence_blocks split: hybrid_scope.split)

subsection \<open>Forwards and backwards\<close>

lemma series_end_props:
  "i < length ss \<Longrightarrow>
   i \<le> series_end ss pos i \<and> series_end ss pos i < length ss
   \<and> (\<forall>k. i < k \<and> k \<le> series_end ss pos i \<longrightarrow> stepPosition (ss ! k) = pos \<and> \<not> stepMove (ss ! k))
   \<and> (series_end ss pos i + 1 = length ss \<or> stepPosition (ss ! (series_end ss pos i + 1)) \<noteq> pos
      \<or> stepMove (ss ! (series_end ss pos i + 1)))"
proof (induction ss pos i rule: series_end.induct)
  case (1 steps position i)
  let ?more = "i + 1 < length steps \<and> stepPosition (steps ! (i + 1)) = position \<and> \<not> stepMove (steps ! (i + 1))"
  show ?case
  proof (cases ?more)
    case True
    have eq: "series_end steps position i = series_end steps position (i + 1)"
      using True by (simp add: series_end.simps [of steps position i])
    from True have "i + 1 < length steps" by simp
    note IH = 1(1) [OF True this]
    have "stepPosition (steps ! k) = position \<and> \<not> stepMove (steps ! k)"
      if "i < k" "k \<le> series_end steps position (i + 1)" for k
    proof (cases "k = i + 1")
      case False
      with that have "i + 1 < k" by simp
      then show ?thesis using IH that(2) by blast
    qed (use True in simp)
    with IH show ?thesis unfolding eq by simp
  next
    case False
    then have eq: "series_end steps position i = i" by (subst series_end.simps) (simp only: if_False)
    from False 1(2) show ?thesis unfolding eq by auto
  qed
qed

lemma back_to_move_skips:
  assumes "\<And>k. i < k \<Longrightarrow> k \<le> j \<Longrightarrow> \<not> stepMove (ss ! k) \<and> stepPosition (ss ! (k - 1)) = stepPosition (ss ! k)"
    and "stepMove (ss ! i)" "i \<le> j"
  shows "back_to_move ss j = i"
  using assms
proof (induction j)
  case (Suc j)
  show ?case
  proof (cases "i = Suc j")
    case False
    then have "\<not> stepMove (ss ! Suc j) \<and> stepPosition (ss ! j) = stepPosition (ss ! Suc j)"
      using Suc.prems(1) [of "Suc j"] Suc.prems(3) by simp
    moreover have "back_to_move ss j = i" using Suc False by simp
    ultimately show ?thesis by simp
  qed (use Suc.prems in simp)
qed simp

text \<open>The Advanced run goes through its sequence one microphone position at a time, and back: from
  any step that moves the microphone, the automatic series ends inside the sequence, takes only
  captures at that position without another move, and stops exactly where the next step moves the
  microphone or the sequence ends; and the back button pressed there returns to the step it started
  from. This holds for every single scope and every series.\<close>

theorem positions_forward_and_back:
  assumes "i < length (sequence_of sc)" "stepMove (sequence_of sc ! i)"
  defines "e \<equiv> getPositionSeriesEnd (sequence_of sc) i"
  shows "i \<le> e \<and> e < length (sequence_of sc)
    \<and> (\<forall>k. i < k \<and> k \<le> e \<longrightarrow> stepPosition (sequence_of sc ! k) = stepPosition (sequence_of sc ! i)
          \<and> \<not> stepMove (sequence_of sc ! k))
    \<and> (e + 1 = length (sequence_of sc) \<or> stepMove (sequence_of sc ! (e + 1)))
    \<and> getPreviousPositionIndex (sequence_of sc) (e + 1) = i"
proof -
  let ?ss = "sequence_of sc" and ?pos = "stepPosition (sequence_of sc ! i)"
  note props = series_end_props [OF assms(1), of ?pos, folded getPositionSeriesEnd_def, folded e_def]
  have same: "stepPosition (?ss ! k) = ?pos" if "i \<le> k" "k \<le> e" for k
    using props that by (cases "k = i") auto
  have stop: "e + 1 = length ?ss \<or> stepMove (?ss ! (e + 1))"
  proof (cases "e + 1 = length ?ss")
    case False
    then have e: "e + 1 < length ?ss" using props by simp
    have "stepPosition (?ss ! (e + 1)) = ?pos" if "\<not> stepMove (?ss ! (e + 1))"
      using blocks_nth [OF sequence_blocks e that] same [of e] props by simp
    then show ?thesis using props by blast
  qed simp
  have "back_to_move ?ss e = i"
  proof (rule back_to_move_skips)
    show "\<not> stepMove (?ss ! k) \<and> stepPosition (?ss ! (k - 1)) = stepPosition (?ss ! k)" if "i < k" "k \<le> e" for k
      using props that same [of k] same [of "k - 1"] by simp
    show "i \<le> e" using props by simp
  qed (rule assms(2))
  then have "getPreviousPositionIndex ?ss (e + 1) = i" by (simp add: getPreviousPositionIndex_def)
  with props stop show ?thesis by blast
qed

theorem positions_forward_and_back_witness:
  "getPositionSeriesEnd (sequence_of (GroupScope (legacyScope ''subwoofer-2.1''))) 2 = 3
   \<and> getPreviousPositionIndex (sequence_of (GroupScope (legacyScope ''subwoofer-2.1''))) 4 = 2
   \<and> stepMove (sequence_of (GroupScope (legacyScope ''subwoofer-2.1'')) ! 4)"
proof -
  have e: "getPositionSeriesEnd (sequence_of (GroupScope (legacyScope ''subwoofer-2.1''))) 2 = 3"
    "2 < length (sequence_of (GroupScope (legacyScope ''subwoofer-2.1'')))"
    "stepMove (sequence_of (GroupScope (legacyScope ''subwoofer-2.1'')) ! 2)"
    "3 + 1 < length (sequence_of (GroupScope (legacyScope ''subwoofer-2.1'')))"
    by code_simp+
  show ?thesis using positions_forward_and_back [OF e(2,3)] e(1,4) by simp
qed

subsection \<open>A series visits every position once\<close>

definition capture_key :: "hybrid_step \<Rightarrow> string \<times> string \<times> string \<times> string \<times> string" where
  "capture_key s = (stepId s, stepRole s, stepPosition s, stepChannel s, stepGroup s)"

lemma shared_step_key [simp]: "capture_key (shared_step i s) = capture_key s"
  by (simp add: shared_step_def capture_key_def)

lemma map_enumerate_snd: "List.map (\<lambda>(i, x). f x) (List.enumerate n xs) = List.map f xs"
  by (induction xs arbitrary: n) simp_all

lemma shared_steps_keys:
  "List.map capture_key (shared_steps steps pos) = List.map capture_key (filter (at_position pos) steps)"
proof -
  have "capture_key \<circ> (\<lambda>(i, x). shared_step i x) = (\<lambda>(i, x). capture_key x)" by auto
  then show ?thesis by (simp add: shared_steps_def map_enumerate_snd)
qed

lemma buildSequence_roles:
  "s \<in> set (buildSequence sc) \<Longrightarrow> stepRole s = ''direct'' \<or> stepPosition s \<in> set LISTENING_POSITIONS"
  unfolding buildSequence_def set_append Un_iff
  by (elim disjE) (auto simp: position_steps_def position_step_def direct_step_def integration_step_def mk_step_def
      LISTENING_POSITIONS_def split: if_splits)

lemma mset_by_position:
  assumes "\<And>s. s \<in> set steps \<Longrightarrow> stepRole s = ''direct'' \<or> stepPosition s \<in> set LISTENING_POSITIONS"
  shows "mset steps = mset (filter (\<lambda>s. stepRole s = ''direct'') steps)
    + mset (concat (List.map (\<lambda>p. filter (at_position p) steps) LISTENING_POSITIONS))"
  using assms by (induction steps) (auto simp: at_position_def LISTENING_POSITIONS_def)

lemma series_keys:
  "mset (List.map capture_key (buildSeriesSequence scopes)) = mset (List.map capture_key (grouped_steps scopes))"
proof -
  let ?ss = "grouped_steps scopes"
  have "mset ?ss = mset (filter (\<lambda>s. stepRole s = ''direct'') ?ss)
      + mset (concat (List.map (\<lambda>p. filter (at_position p) ?ss) LISTENING_POSITIONS))"
    by (rule mset_by_position) (auto simp: grouped_steps_def dest: buildSequence_roles)
  then have "image_mset capture_key (mset ?ss) = image_mset capture_key (mset (filter (\<lambda>s. stepRole s = ''direct'') ?ss))
      + image_mset capture_key (mset (concat (List.map (\<lambda>p. filter (at_position p) ?ss) LISTENING_POSITIONS)))"
    by (simp only: image_mset_union)
  moreover have "List.map capture_key (concat (List.map (shared_steps ?ss) LISTENING_POSITIONS))
      = List.map capture_key (concat (List.map (\<lambda>p. filter (at_position p) ?ss) LISTENING_POSITIONS))"
    by (simp add: map_concat comp_def shared_steps_keys)
  then have "mset (List.map capture_key (concat (List.map (shared_steps ?ss) LISTENING_POSITIONS)))
      = image_mset capture_key (mset (concat (List.map (\<lambda>p. filter (at_position p) ?ss) LISTENING_POSITIONS)))"
    by (simp only: mset_map)
  ultimately show ?thesis
    unfolding buildSeriesSequence_def Let_def map_append mset_append mset_map by simp
qed

definition usual_channels :: "group_scope \<Rightarrow> bool" where
  "usual_channels sc = (scopeChannels sc = [''stereo''] \<or> scopeChannels sc = [''left'', ''right''])"

lemma buildScope_channels: "usual_channels (buildScope area topology)"
  by (simp add: buildScope_def usual_channels_def Let_def)

lemma position_step_ids:
  "List.map stepId (position_steps sc position role title baseId short instruction)
   = List.map (\<lambda>c. baseId @ channel_suffix sc short c) (scopeChannels sc)"
proof -
  have "stepId \<circ> (\<lambda>(i, c). position_step sc position role title baseId short instruction i c)
      = (\<lambda>(i, c). baseId @ channel_suffix sc short c)"
    by (auto simp: position_step_def mk_step_def)
  then show ?thesis by (simp add: position_steps_def map_enumerate_snd)
qed

definition sequence_id_list :: "group_scope \<Rightarrow> string list" where
  "sequence_id_list sc =
     (if scopeDirect sc then List.map (\<lambda>c. ''direct-'' @ c) (scopeChannels sc) else [])
     @ List.map (\<lambda>c. ''mlp'' @ channel_suffix sc False c) (scopeChannels sc)
     @ List.map (\<lambda>c. ''area-left'' @ channel_suffix sc True c) (scopeChannels sc)
     @ List.map (\<lambda>c. ''area-right'' @ channel_suffix sc True c) (scopeChannels sc)
     @ (if scopeIntegration sc then [''integration''] else [])"

lemma sequence_ids_eq: "List.map stepId (buildSequence sc) = sequence_id_list sc"
proof -
  have "stepId \<circ> direct_step sc = (\<lambda>c. ''direct-'' @ c)" by (auto simp: direct_step_def mk_step_def)
  moreover have "stepId integration_step = ''integration''" by (simp add: integration_step_def mk_step_def)
  ultimately show ?thesis
    by (simp add: buildSequence_def sequence_id_list_def position_step_ids)
qed

lemma sequence_ids:
  assumes "usual_channels sc"
  shows "distinct (List.map stepId (buildSequence sc)) \<and> (\<forall>i \<in> set (List.map stepId (buildSequence sc)). CHR '':'' \<notin> set i)"
  unfolding sequence_ids_eq using assms unfolding usual_channels_def
  by (elim disjE) (simp_all add: sequence_id_list_def channel_suffix_def is_pair_def)

lemma append_mark_inj:
  assumes "c \<notin> set a" "c \<notin> set b" "g @ c # a = h @ c # b"
  shows "g = h \<and> a = b"
proof -
  have tail: "takeWhile (\<lambda>x. x \<noteq> c) (rev (k @ c # d)) = rev d" if c: "c \<notin> set d" for k d
  proof -
    have "takeWhile (\<lambda>x. x \<noteq> c) (rev d @ (c # rev k)) = rev d @ takeWhile (\<lambda>x. x \<noteq> c) (c # rev k)"
      by (rule takeWhile_append2) (use c in auto)
    then show ?thesis by simp
  qed
  have "rev a = takeWhile (\<lambda>x. x \<noteq> c) (rev (g @ c # a))" by (rule tail [OF assms(1), symmetric])
  also have "\<dots> = rev b" unfolding assms(3) by (rule tail [OF assms(2)])
  finally show ?thesis using assms(3) by simp
qed

lemma grouped_ids:
  assumes "distinct (List.map scopeGroup scopes)" "\<And>sc. sc \<in> set scopes \<Longrightarrow> usual_channels sc"
  shows "distinct (List.map stepId (grouped_steps scopes))"
  using assms
proof (induction scopes)
  case (Cons sc scopes)
  let ?ids = "\<lambda>sc. List.map stepId (List.map (group_step sc) (buildSequence sc))"
  have own: "distinct (?ids sc)"
    using sequence_ids [of sc] Cons.prems(2) [of sc]
    by (auto simp: distinct_map inj_on_def)
  have apart: "i \<notin> set (List.map stepId (grouped_steps scopes))" if i: "i \<in> set (?ids sc)" for i
  proof
    assume "i \<in> set (List.map stepId (grouped_steps scopes))"
    then obtain sc' s' where s': "sc' \<in> set scopes" "s' \<in> set (buildSequence sc')" "i = scopeGroup sc' @ '':'' @ stepId s'"
      by (auto simp: grouped_steps_def)
    obtain s where s: "s \<in> set (buildSequence sc)" "i = scopeGroup sc @ '':'' @ stepId s" using i by auto
    have "CHR '':'' \<notin> set (stepId s)" "CHR '':'' \<notin> set (stepId s')"
      using sequence_ids [of sc] sequence_ids [of sc'] Cons.prems(2) s s' by auto
    then have "scopeGroup sc = scopeGroup sc'"
      using append_mark_inj [of "CHR '':''" "stepId s" "stepId s'"] s s' by auto
    with Cons.prems(1) s'(1) show False by auto
  qed
  have "distinct (List.map stepId (grouped_steps scopes))" using Cons by simp
  with own apart show ?case
    unfolding grouped_steps_def by auto
qed (simp add: grouped_steps_def)

lemma series_ids:
  assumes "distinct (List.map scopeGroup scopes)" "\<And>sc. sc \<in> set scopes \<Longrightarrow> usual_channels sc"
  shows "distinct (List.map stepId (buildSeriesSequence scopes))"
proof -
  have "image_mset fst (mset (List.map capture_key (buildSeriesSequence scopes)))
      = image_mset fst (mset (List.map capture_key (grouped_steps scopes)))"
    by (simp only: series_keys)
  then have "mset (List.map stepId (buildSeriesSequence scopes)) = mset (List.map stepId (grouped_steps scopes))"
    by (simp add: capture_key_def comp_def flip: mset_map)
  then show ?thesis using grouped_ids [OF assms] by (metis mset_eq_imp_distinct_iff)
qed

lemma shared_moves:
  "List.map stepPosition (filter (\<lambda>s. stepMove s \<and> stepRole s \<noteq> ''direct'') (shared_steps steps pos))
   = (if filter (at_position pos) steps = [] then [] else [pos])"
proof -
  have stay: "filter (\<lambda>s. stepMove s \<and> stepRole s \<noteq> ''direct'') (List.map (\<lambda>(i, x). shared_step i x) (List.enumerate (Suc n) ys)) = []"
    for n ys by (induction ys arbitrary: n) (simp_all add: shared_step_def)
  have first: "at_position pos y" if "filter (at_position pos) steps = y # ys" for y ys
    using that by (metis filter_eq_ConsD)
  show ?thesis
  proof (cases "filter (at_position pos) steps")
    case (Cons y ys)
    with first [OF Cons] stay show ?thesis
      by (simp add: shared_steps_def at_position_def) (simp add: shared_step_def)
  qed (simp add: shared_steps_def)
qed

lemma listening_steps:
  assumes "usual_channels sc" "pos \<in> set LISTENING_POSITIONS"
  shows "\<exists>s \<in> set (buildSequence sc). at_position pos s"
  using assms unfolding usual_channels_def LISTENING_POSITIONS_def
  by (elim disjE) (auto simp: buildSequence_def position_steps_def position_step_def mk_step_def at_position_def)

text \<open>C40: A series measures every speaker group completely and moves the microphone to every listening
  position only once. For groups with different names, each a pair or a single channel, the series
  has exactly the captures of the groups' own sequences (identifier, role, position, channel and
  group), no identifier twice, and, after the direct responses at the speakers, the moves are to the
  main, the left and the right position, in this order and once each, with the integration checks
  taken at the main position.\<close>

theorem series_visits_each_position_once:
  assumes "scopes \<noteq> []" "distinct (List.map scopeGroup scopes)" "\<forall>sc \<in> set scopes. usual_channels sc"
  shows "mset (List.map capture_key (buildSeriesSequence scopes)) = mset (List.map capture_key (grouped_steps scopes))
    \<and> distinct (List.map stepId (buildSeriesSequence scopes))
    \<and> List.map stepPosition (filter (\<lambda>s. stepMove s \<and> stepRole s \<noteq> ''direct'') (buildSeriesSequence scopes))
        = LISTENING_POSITIONS"
proof (intro conjI)
  show "mset (List.map capture_key (buildSeriesSequence scopes)) = mset (List.map capture_key (grouped_steps scopes))"
    by (rule series_keys)
  show "distinct (List.map stepId (buildSeriesSequence scopes))"
    using assms by (intro series_ids) auto
  have some: "filter (at_position pos) (grouped_steps scopes) \<noteq> []" if pos: "pos \<in> set LISTENING_POSITIONS" for pos
  proof -
    obtain sc rest where sc: "scopes = sc # rest" using assms(1) by (cases scopes) auto
    then obtain s where "s \<in> set (buildSequence sc)" "at_position pos s"
      using listening_steps [OF _ pos] assms(3) by auto
    then have "group_step sc s \<in> set (grouped_steps scopes)" "at_position pos (group_step sc s)"
      by (auto simp: grouped_steps_def sc at_position_def)
    then show ?thesis by (auto simp: filter_empty_conv)
  qed
  have "List.map stepPosition (filter (\<lambda>s. stepMove s \<and> stepRole s \<noteq> ''direct'')
      (concat (List.map (shared_steps (grouped_steps scopes)) ps))) = ps" if "set ps \<subseteq> set LISTENING_POSITIONS" for ps
    using that by (induction ps) (simp_all add: shared_moves some)
  then show "List.map stepPosition (filter (\<lambda>s. stepMove s \<and> stepRole s \<noteq> ''direct'') (buildSeriesSequence scopes))
        = LISTENING_POSITIONS"
    unfolding buildSeriesSequence_def Let_def filter_append by (simp add: filter_False)
qed

definition front_area :: jsval where
  "front_area = JObj [(''bank_id'', JStr ''global''), (''group'', JStr ''front''),
     (''label'', JStr (global_prefix @ ''Front + Sub''))]"

definition center_area :: jsval where
  "center_area = JObj [(''bank_id'', JStr ''global''), (''group'', JStr ''center''), (''channel_mode'', JStr ''mono''),
     (''label'', JStr (global_prefix @ ''Center''))]"

definition front_and_center :: "group_scope list" where
  "front_and_center = List.map (\<lambda>area. buildScope area (JObj [(''sub_mode'', JStr ''mono'')])) [front_area, center_area]"

theorem series_visits_each_position_once_witness:
  "distinct (List.map stepId (buildSeriesSequence front_and_center))
   \<and> List.map stepId (filter (\<lambda>s. stepPosition s = ''mlp'') (buildSeriesSequence front_and_center))
       = [''front:mlp-left'', ''front:mlp-right'', ''front:integration'', ''center:mlp'']"
proof -
  have "front_and_center \<noteq> []" "distinct (List.map scopeGroup front_and_center)"
    "\<forall>sc \<in> set front_and_center. usual_channels sc"
    and ids: "List.map stepId (filter (\<lambda>s. stepPosition s = ''mlp'') (buildSeriesSequence front_and_center))
       = [''front:mlp-left'', ''front:mlp-right'', ''front:integration'', ''center:mlp'']"
    by code_simp+
  then show ?thesis using series_visits_each_position_once [of front_and_center] by blast
qed

end
