(* ===== verification/Hybrid_Wizard.thy ===== *)
theory Hybrid_Wizard
  imports Hybrid_Scope Measurement_Job
begin

section \<open>The Advanced measurement dialog\<close>

text \<open>
  The dialog of static/measurement_flows.js (lines 1017 to 1702): it walks through a sequence of
  captures, one sweep job per step, and builds a profile from them. A run is one asynchronous call
  (\<open>runHybridWizardSweep\<close> with \<open>runHybridWizardStep\<close> inlined); the place where it waits is its stage.
  Captures and their checks are those of static/hybrid_measurement.js. What turns captures into a
  profile (\<open>buildProfile\<close>, \<open>validateIntegration\<close>) is an argument of the machine, the record \<open>modeller\<close>;
  the functions of the source are in \<open>Hybrid_Model\<close>. What the live catalog offers at a click is the
  record \<open>live\<close>. Rendering is left out.
\<close>

subsection \<open>Captures\<close>

record capture =
  capStepId :: string
  capRole :: string
  capPosition :: string
  capChannel :: string
  capGroup :: string
  capMeasurement :: jsval

definition groupCaptures :: "capture list \<Rightarrow> string \<Rightarrow> capture list" where
  "groupCaptures cs grp = filter (\<lambda>c. capGroup c = grp) cs"

definition findCapture :: "capture list \<Rightarrow> string \<Rightarrow> string \<Rightarrow> string \<Rightarrow> jsval" where
  "findCapture cs role position channel =
     (case find (\<lambda>c. capRole c = role \<and> capPosition c = position \<and> capChannel c = channel) cs of
        None \<Rightarrow> JNull | Some c \<Rightarrow> js_or (capMeasurement c) JNull)"

definition isUsableDirectMeasurement :: "jsval \<Rightarrow> bool" where
  "isUsableDirectMeasurement m =
     (let direct = jpath m [''analysis'', ''direct_response'']
      in truthy (jget direct ''usable'') \<and> arr_items (jget direct ''points'') \<noteq> [])"

record direct_timing =
  timingMs :: jsnum
  captureMode :: string
  timingStatus :: string

definition getDirectTiming :: "jsval \<Rightarrow> direct_timing option" where
  "getDirectTiming m =
     (let analysis = js_or (jget m ''analysis'') (JObj []);
          reference = js_or (jget analysis ''reference_path'') (JObj []);
          impulse = js_or (jget analysis ''impulse_response'') (JObj []);
          timing = to_num (js_coalesce (jget reference ''acoustic_arrival_corrected_ms'') (jget impulse ''arrival_ms''));
          mode = str_or_empty (jget reference ''capture_mode'');
          status = str_or_empty (jget reference ''timing_status'')
      in if \<not> is_fin timing \<or> timing \<le> Fin 0 \<or> mode = [] then None
         else if contains_str status ''fallback'' \<or> contains_str status ''unstable'' then None
         else Some \<lparr>timingMs = timing, captureMode = mode, timingStatus = status\<rparr>)"

definition MAX_DELTA_MS :: rat where "MAX_DELTA_MS = 5 / 2"

definition num_abs :: "jsnum \<Rightarrow> jsnum" where
  "num_abs n = (case n of Fin r \<Rightarrow> Fin \<bar>r\<bar> | NegInf \<Rightarrow> PosInf | x \<Rightarrow> x)"

definition PAIRED_TIMING :: string where "PAIRED_TIMING = ''paired-direct-relative-timing''"

definition POSITION_UNKNOWN :: jsval where
  "POSITION_UNKNOWN = JObj [(''available'', JBool False), (''plausible'', JBool True), (''method'', JStr PAIRED_TIMING),
     (''reason'', JStr ''Comparable L/R timing is not available; no absolute distance is inferred.'')]"

definition position_result :: "jsnum \<Rightarrow> jsval" where
  "position_result deltaMs =
     (let plausible = (deltaMs \<le> Fin MAX_DELTA_MS)
      in JObj [(''available'', JBool True), (''plausible'', JBool plausible), (''deltaMs'', JNum deltaMs),
           (''maxDeltaMs'', JNum (Fin MAX_DELTA_MS)), (''equivalentPathDifferenceM'', JNum (deltaMs * Fin (343 / 1000))),
           (''method'', JStr PAIRED_TIMING),
           (''reason'', JStr (if plausible then ''L/R direct timing is consistent with comparable microphone distances.''
              else ''The L/R direct timing is inconsistent. Place the microphone about 1 m in front of each speaker on its listening axis and repeat the measurement.''))])"

definition validateDirectMicrophonePosition :: "jsval \<Rightarrow> capture list \<Rightarrow> string \<Rightarrow> jsval" where
  "validateDirectMicrophonePosition m cs channel =
     (let other = (if channel = ''left'' then ''right'' else ''left'')
      in case (getDirectTiming m, getDirectTiming (findCapture cs ''direct'' (''direct-'' @ other) other)) of
           (Some a, Some b) \<Rightarrow> if captureMode a \<noteq> captureMode b then POSITION_UNKNOWN
                              else position_result (num_abs (timingMs a - timingMs b))
         | _ \<Rightarrow> POSITION_UNKNOWN)"

definition with_position_check :: "jsval \<Rightarrow> jsval \<Rightarrow> jsval" where
  "with_position_check m check =
     (let analysis = jget m ''analysis''; direct = jget analysis ''direct_response''
      in jput ''analysis'' (jput ''direct_response'' (jput ''position_check'' check direct) analysis) m)"

subsection \<open>State\<close>

text \<open>
  What \<open>validateIntegration\<close> and \<open>buildProfile\<close> throw: only a failed integration check sets \<open>retryRole\<close>.
\<close>

datatype model_error = IntegrationFailed string | ModelFailed string

record hybrid_error =
  errMessage :: string
  retryIntegration :: bool
  retryGroup :: string

definition thrown :: "string \<Rightarrow> model_error \<Rightarrow> hybrid_error" where
  "thrown grp e = (case e of
     IntegrationFailed m \<Rightarrow> \<lparr>errMessage = m, retryIntegration = True, retryGroup = grp\<rparr>
   | ModelFailed m \<Rightarrow> \<lparr>errMessage = m, retryIntegration = False, retryGroup = grp\<rparr>)"

definition plain_error :: "string \<Rightarrow> hybrid_error" where
  "plain_error m = thrown [] (ModelFailed m)"

record 'p modeller =
  integrate :: "capture list \<Rightarrow> group_scope \<Rightarrow> model_error option"
  build :: "capture list \<Rightarrow> group_scope \<Rightarrow> model_error + 'p"

datatype 'p profile = SingleProfile 'p | SeriesProfile "(group_scope \<times> 'p) list"

text \<open>One job of a step: the step, the job and the generation its polls belong to.\<close>

record step_job =
  jobStep :: hybrid_step
  jobOf :: string
  jobGen :: nat

datatype run_stage =
    RunFlush
  | RunStart hybrid_step
  | RunCancelFirst step_job
  | RunPoll step_job nat
  | RunSleep step_job nat
  | RunPause

record 'p wizard =
  wizOpen :: bool
  wizRunning :: bool
  wizJobId :: string
  stepIndex :: nat
  wizScope :: "hybrid_scope option"
  wizSequence :: "hybrid_step list"
  captures :: "capture list"
  groupProfiles :: "(string \<times> 'p) list"
  wizStatus :: string
  wizPhase :: string
  wizCancelRequested :: bool
  quality :: "(string \<times> bool) option"
  wizProfile :: "'p profile option"
  wizPollErrors :: nat
  sharedJobId :: string
  sharedKind :: string
  sharedGeneration :: nat
  runStage :: "(nat \<times> run_stage) option"
  closers :: "bool list"
  adopted :: "'p profile list"

record live =
  liveScope :: group_scope
  liveGroups :: "group_scope list option"
  modeReady :: bool
  inputSelected :: bool
  areaImportable :: bool
  otherStartInFlight :: bool

definition init_wizard :: "'p wizard" where
  "init_wizard = \<lparr>wizOpen = False, wizRunning = False, wizJobId = [], stepIndex = 0, wizScope = None,
     wizSequence = [], captures = [], groupProfiles = [], wizStatus = [], wizPhase = [], wizCancelRequested = False,
     quality = None, wizProfile = None, wizPollErrors = 0, sharedJobId = [], sharedKind = [], sharedGeneration = 0,
     runStage = None, closers = [], adopted = []\<rparr>"

definition is_series :: "hybrid_scope option \<Rightarrow> bool" where
  "is_series sc = (case sc of Some (SeriesScope gs) \<Rightarrow> True | _ \<Rightarrow> False)"

definition isHybridSeries :: "'p wizard \<Rightarrow> bool" where
  "isHybridSeries w = is_series (wizScope w)"

definition getLiveHybridScopeId :: "live \<Rightarrow> bool \<Rightarrow> string" where
  "getLiveHybridScopeId lv series =
     (if \<not> series then scopeId (liveScope lv)
      else case liveGroups lv of None \<Rightarrow> [] | Some gs \<Rightarrow> scope_id (SeriesScope gs))"

text \<open>\<open>buildHybridWizardSequence\<close>: the scope whose sequence is run.\<close>

definition chosen_scope :: "live \<Rightarrow> bool \<Rightarrow> hybrid_scope" where
  "chosen_scope lv series =
     (case (if series then liveGroups lv else None) of
        Some gs \<Rightarrow> SeriesScope gs | None \<Rightarrow> GroupScope (liveScope lv))"

definition hybridReadyStatus :: "live \<Rightarrow> string" where
  "hybridReadyStatus lv = (if modeReady lv then ''Ready for the first measurement.''
     else ''Complete Measurement Setup before starting.'')"

subsection \<open>Opening, choosing, going back\<close>

definition load_scope :: "live \<Rightarrow> bool \<Rightarrow> 'p wizard \<Rightarrow> 'p wizard" where
  "load_scope lv series w = w\<lparr>wizScope := Some (chosen_scope lv series),
     wizSequence := sequence_of (chosen_scope lv series), stepIndex := 0, captures := [], groupProfiles := [],
     quality := None, wizProfile := None, wizStatus := hybridReadyStatus lv\<rparr>"

definition openHybridMeasurementWizard :: "live \<Rightarrow> 'p wizard \<Rightarrow> 'p wizard" where
  "openHybridMeasurementWizard lv w =
     (if \<not> wizRunning w \<and> \<not> areaImportable lv then w
      else if wizRunning w then w\<lparr>wizOpen := True\<rparr>
      else (load_scope lv False w)\<lparr>wizOpen := True, wizRunning := False, wizJobId := [], wizPhase := [],
             wizCancelRequested := False\<rparr>)"

definition isHybridScopeSelectable :: "live \<Rightarrow> 'p wizard \<Rightarrow> bool" where
  "isHybridScopeSelectable lv w =
     (\<not> wizRunning w \<and> wizProfile w = None \<and> stepIndex w = 0 \<and> captures w = [] \<and> \<not> otherStartInFlight lv)"

text \<open>The catalog given here is the one after \<open>selectMeasurementGroup\<close>.\<close>

definition selectHybridWizardScope :: "live \<Rightarrow> bool \<Rightarrow> 'p wizard \<Rightarrow> 'p wizard" where
  "selectHybridWizardScope lv series w =
     (if \<not> isHybridScopeSelectable lv w then w else load_scope lv series w)"

text \<open>The back button is disabled while a run or a result is shown.\<close>

definition back_clicked :: "'p wizard \<Rightarrow> 'p wizard" where
  "back_clicked w =
     (if wizRunning w \<or> stepIndex w = 0 \<or> wizProfile w \<noteq> None then w
      else w\<lparr>stepIndex := getPreviousPositionIndex (wizSequence w) (stepIndex w), quality := None,
             wizStatus := ''Previous microphone position selected. Existing results will be replaced when measured again.''\<rparr>)"

subsection \<open>Cancelling and closing\<close>

text \<open>A waiting cancel request; the flag says whether the dialog closes after it.\<close>

definition cancelHybridWizardMeasurement :: "bool \<Rightarrow> 'p wizard \<Rightarrow> 'p wizard" where
  "cancelHybridWizardMeasurement closing w =
     (let done = (if closing then w\<lparr>wizOpen := False\<rparr> else w) in
      if \<not> wizRunning w \<or> wizCancelRequested w then done
      else if wizJobId w \<noteq> []
      then w\<lparr>wizCancelRequested := True, wizPhase := ''cancelling'', wizStatus := ''Cancelling measurement'' @ ellipsis,
             closers := closing # closers w\<rparr>
      else done\<lparr>wizCancelRequested := True, wizPhase := ''cancelling'', wizStatus := ''Cancelling measurement'' @ ellipsis\<rparr>)"

definition cancel_request_over :: "nat \<Rightarrow> 'p wizard \<Rightarrow> 'p wizard" where
  "cancel_request_over n w =
     (if n < length (closers w)
      then w\<lparr>wizOpen := (wizOpen w \<and> \<not> closers w ! n),
             closers := take n (closers w) @ drop (n + 1) (closers w)\<rparr>
      else w)"

definition closeHybridMeasurementWizard :: "'p wizard \<Rightarrow> 'p wizard" where
  "closeHybridMeasurementWizard w =
     (if wizRunning w then cancelHybridWizardMeasurement True w
      else w\<lparr>wizOpen := False, wizRunning := False, wizJobId := [], sharedJobId := [], sharedKind := []\<rparr>)"

text \<open>The entries built from the profile become the pending result, and the dialog closes.\<close>

definition openHybridProfileInConvolver :: "'p wizard \<Rightarrow> 'p wizard" where
  "openHybridProfileInConvolver w =
     (case wizProfile w of None \<Rightarrow> w
      | Some p \<Rightarrow> closeHybridMeasurementWizard (w\<lparr>adopted := p # adopted w\<rparr>))"

subsection \<open>The end of a run\<close>

definition run_finally :: "'p wizard \<Rightarrow> 'p wizard" where
  "run_finally w = w\<lparr>wizRunning := False, wizPhase := [], wizCancelRequested := False, wizJobId := [],
     sharedJobId := [], sharedKind := [], runStage := None\<rparr>"

definition CANCELLED_STATUS :: string where
  "CANCELLED_STATUS = ''Measurement cancelled. The microphone position is ready to measure again.''"

fun find_index :: "('a \<Rightarrow> bool) \<Rightarrow> 'a list \<Rightarrow> nat option" where
  "find_index P [] = None"
| "find_index P (x # xs) = (if P x then Some 0 else map_option Suc (find_index P xs))"

definition retry_index :: "hybrid_error \<Rightarrow> 'p wizard \<Rightarrow> nat" where
  "retry_index err w =
     (if retryIntegration err
      then case find_index (\<lambda>s. stepRole s = ''integration'' \<and> stepGroup s = retryGroup err) (wizSequence w) of
             Some i \<Rightarrow> i | None \<Rightarrow> stepIndex w
      else stepIndex w)"

text \<open>The \<open>catch\<close> block, and the \<open>finally\<close> block after it.\<close>

definition run_failed :: "hybrid_error \<Rightarrow> 'p wizard \<Rightarrow> 'p wizard" where
  "run_failed err w = run_finally (w\<lparr>stepIndex := retry_index err w,
     wizStatus := (if wizCancelRequested w then CANCELLED_STATUS
                   else or_default (errMessage err) ''Advanced measurement failed.''),
     quality := (if wizCancelRequested w then None else Some (''error'', True))\<rparr>)"

definition run_threw :: "string \<Rightarrow> 'p wizard \<Rightarrow> 'p wizard" where
  "run_threw m w = run_failed (plain_error m) w"

fun series_parts :: "group_scope list \<Rightarrow> (string \<times> 'p) list \<Rightarrow> hybrid_error + (group_scope \<times> 'p) list" where
  "series_parts [] ps = Inr []"
| "series_parts (g # gs) ps =
     (case map_of ps (scopeGroup g) of
        None \<Rightarrow> Inl (plain_error (''Missing '' @ or_default (scopeGroupName g) (scopeGroup g) @ '' measurement profile''))
      | Some p \<Rightarrow> (case series_parts gs ps of Inl e \<Rightarrow> Inl e | Inr parts \<Rightarrow> Inr ((g, p) # parts)))"

text \<open>\<open>buildSeriesProfile\<close> or \<open>buildProfile\<close>.\<close>

definition single_profile :: "model_error + 'p \<Rightarrow> hybrid_error + 'p profile" where
  "single_profile r = (case r of Inl e \<Rightarrow> Inl (thrown [] e) | Inr p \<Rightarrow> Inr (SingleProfile p))"

definition finished_profile :: "'p modeller \<Rightarrow> 'p wizard \<Rightarrow> hybrid_error + 'p profile" where
  "finished_profile md w =
     (case wizScope w of
        Some (SeriesScope gs) \<Rightarrow>
          (case series_parts gs (groupProfiles w) of Inl e \<Rightarrow> Inl e | Inr parts \<Rightarrow> Inr (SeriesProfile parts))
      | Some (GroupScope g) \<Rightarrow> single_profile (build md (captures w) g)
      | None \<Rightarrow> single_profile (build md (captures w) (legacyScope ''stereo'')))"

text \<open>After the loop.\<close>

definition run_outcome :: "'p modeller \<Rightarrow> 'p wizard \<Rightarrow> 'p wizard" where
  "run_outcome md w =
     (if wizCancelRequested w then run_finally (w\<lparr>wizStatus := CANCELLED_STATUS, quality := None\<rparr>)
      else if length (wizSequence w) \<le> stepIndex w
      then (case finished_profile md w of
              Inl e \<Rightarrow> run_failed e w
            | Inr p \<Rightarrow> run_finally (w\<lparr>wizProfile := Some p,
                         wizStatus := ''All measurements were completed successfully.''\<rparr>))
      else if (case quality w of Some (level, retry) \<Rightarrow> \<not> retry | None \<Rightarrow> True)
      then run_finally (w\<lparr>wizStatus := ''Position measured successfully. Move the microphone as shown for the next measurement.''\<rparr>)
      else run_finally w)"


subsection \<open>One step of a run\<close>

definition hybridSpeakerName :: "string \<Rightarrow> string" where
  "hybridSpeakerName channel = (if channel = ''left'' then ''left speaker''
     else if channel = ''right'' then ''right speaker'' else ''left and right speakers'')"

text \<open>A run has a scope, and a scope with a step has a scope for it; the default is never used.\<close>

definition step_scope :: "'p wizard \<Rightarrow> hybrid_step \<Rightarrow> group_scope" where
  "step_scope w st =
     (case (case wizScope w of None \<Rightarrow> None | Some sc \<Rightarrow> scopeForStep sc st) of
        Some g \<Rightarrow> g | None \<Rightarrow> legacyScope ''stereo'')"

definition speakerLabel :: "'p wizard \<Rightarrow> hybrid_step \<Rightarrow> string" where
  "speakerLabel w st =
     (if length (scopeChannels (step_scope w st)) = 1 \<and> stepRole st \<noteq> ''integration''
      then lower_case (stepActive st) else hybridSpeakerName (stepChannel st))"

definition wait_run :: "nat \<Rightarrow> run_stage \<Rightarrow> 'p wizard \<Rightarrow> 'p wizard" where
  "wait_run e stage w = w\<lparr>runStage := Some (e, stage)\<rparr>"

definition begin_step :: "live \<Rightarrow> nat \<Rightarrow> hybrid_step \<Rightarrow> 'p wizard \<Rightarrow> 'p wizard" where
  "begin_step lv e st w0 =
     (let w = w0\<lparr>quality := None, wizPhase := ''measuring'', wizStatus := ''Measuring '' @ speakerLabel w0 st @ ellipsis\<rparr>
      in if inputSelected lv then wait_run e (RunStart st) w
         else run_threw ''Select a measurement input first'' w)"

text \<open>The head of the loop of a run.\<close>

definition loop_head :: "'p modeller \<Rightarrow> live \<Rightarrow> nat \<Rightarrow> 'p wizard \<Rightarrow> 'p wizard" where
  "loop_head md lv e w =
     (if stepIndex w \<le> e \<and> \<not> wizCancelRequested w then begin_step lv e (wizSequence w ! stepIndex w) w
      else run_outcome md w)"

text \<open>A group is complete with its last scheduled capture; a failing model restarts the group.\<close>

definition group_open :: "'p wizard \<Rightarrow> string \<Rightarrow> bool" where
  "group_open w grp = (\<exists>st \<in> set (drop (stepIndex w) (wizSequence w)). stepGroup st = grp)"

definition restart_group :: "string \<Rightarrow> model_error \<Rightarrow> 'p wizard \<Rightarrow> 'p wizard" where
  "restart_group grp e w = (case e of
     IntegrationFailed m \<Rightarrow> w
   | ModelFailed m \<Rightarrow> w\<lparr>stepIndex :=
       (case find_index (\<lambda>s. stepGroup s = grp) (wizSequence w) of Some i \<Rightarrow> i | None \<Rightarrow> 0)\<rparr>)"

definition buildFinishedHybridGroupProfile :: "'p modeller \<Rightarrow> 'p wizard \<Rightarrow> hybrid_error option \<times> 'p wizard" where
  "buildFinishedHybridGroupProfile md w =
     (let last_step = wizSequence w ! (stepIndex w - 1); grp = stepGroup last_step in
      if stepIndex w = 0 \<or> group_open w grp then (None, w)
      else case build md (groupCaptures (captures w) grp) (step_scope w last_step) of
             Inl e \<Rightarrow> (Some (thrown grp e), restart_group grp e w)
           | Inr p \<Rightarrow> (None, w\<lparr>groupProfiles := (grp, p) # groupProfiles w\<rparr>))"

definition prepare_next :: "'p modeller \<Rightarrow> nat \<Rightarrow> 'p wizard \<Rightarrow> 'p wizard" where
  "prepare_next md e w =
     (if stepIndex w \<le> e
      then wait_run e RunPause (w\<lparr>wizPhase := ''preparing'',
             wizStatus := ''Preparing '' @ stepChannel (wizSequence w ! stepIndex w) @ ellipsis\<rparr>)
      else run_outcome md w)"

text \<open>What a run does with the value of \<open>runHybridWizardStep\<close>.\<close>

definition step_done :: "'p modeller \<Rightarrow> nat \<Rightarrow> bool \<Rightarrow> 'p wizard \<Rightarrow> 'p wizard" where
  "step_done md e completed w0 =
     (let w = w0\<lparr>wizJobId := [], sharedJobId := []\<rparr> in
      if \<not> completed \<or> wizCancelRequested w then run_outcome md w
      else case (if isHybridSeries w then buildFinishedHybridGroupProfile md w else (None, w)) of
             (Some err, w1) \<Rightarrow> run_failed err w1
           | (None, w1) \<Rightarrow> prepare_next md e w1)"

definition isCurrentHybridPoll :: "step_job \<Rightarrow> 'p wizard \<Rightarrow> bool" where
  "isCurrentHybridPoll sj w =
     (sharedGeneration w = jobGen sj \<and> sharedKind w = ''hybrid'' \<and> sharedJobId w = jobOf sj)"

definition MAX_POLLS :: nat where "MAX_POLLS = 360"

definition MAX_POLL_ERRORS :: nat where "MAX_POLL_ERRORS = 5"

definition poll_head :: "'p modeller \<Rightarrow> nat \<Rightarrow> step_job \<Rightarrow> nat \<Rightarrow> 'p wizard \<Rightarrow> 'p wizard" where
  "poll_head md e sj attempt w =
     (if MAX_POLLS \<le> attempt then run_threw ''Measurement timed out.'' w
      else if \<not> isCurrentHybridPoll sj w then step_done md e False w
      else wait_run e (RunPoll sj attempt) w)"

subsection \<open>The answers of a step\<close>

definition NO_START :: string where "NO_START = ''Failed to start advanced measurement''"

definition NO_POLL :: string where "NO_POLL = ''Failed to fetch advanced measurement''"

definition job_taken :: "'p modeller \<Rightarrow> nat \<Rightarrow> hybrid_step \<Rightarrow> string \<Rightarrow> 'p wizard \<Rightarrow> 'p wizard" where
  "job_taken md e st jobId w0 =
     (let w = w0\<lparr>wizJobId := jobId, sharedJobId := jobId, sharedKind := ''hybrid''\<rparr>;
          sj = \<lparr>jobStep = st, jobOf = jobId, jobGen = sharedGeneration w\<rparr>
      in if wizCancelRequested w then wait_run e (RunCancelFirst sj) w else poll_head md e sj 0 w)"

definition start_answered :: "'p modeller \<Rightarrow> nat \<Rightarrow> hybrid_step \<Rightarrow> response \<Rightarrow> 'p wizard \<Rightarrow> 'p wizard" where
  "start_answered md e st resp w =
     (case resp of
        NetError m \<Rightarrow> run_threw m w
      | Http code body \<Rightarrow>
          (let data = json_or_empty resp in
           if \<not> resp_ok resp
           then run_threw (if nullish data then null_read_error data ''detail''
                           else formatTransitionErrorDetail (jget data ''detail'') NO_START) w
           else if nullish data then run_threw (null_read_error data ''job'') w
           else if str_or_empty (jpath data [''job'', ''id'']) = []
           then run_threw ''Advanced measurement did not return a job id'' w
           else job_taken md e st (str_or_empty (jpath data [''job'', ''id''])) w))"

text \<open>A failed poll; five in a row end the run. The count outlives the step.\<close>

definition poll_failed :: "nat \<Rightarrow> step_job \<Rightarrow> nat \<Rightarrow> bool \<Rightarrow> jsval \<Rightarrow> 'p wizard \<Rightarrow> 'p wizard" where
  "poll_failed e sj attempt lost payload w0 =
     (let w = (if lost then w0 else w0\<lparr>wizPollErrors := wizPollErrors w0 + 1\<rparr>) in
      if lost \<or> MAX_POLL_ERRORS \<le> wizPollErrors w
      then run_threw (if nullish payload then null_read_error payload ''detail''
                      else formatTransitionErrorDetail (jget payload ''detail'') NO_POLL) w
      else wait_run e (RunSleep sj attempt) w)"

definition show_poll :: "hybrid_step \<Rightarrow> jsval \<Rightarrow> 'p wizard \<Rightarrow> 'p wizard" where
  "show_poll st job w =
     (let processing = starts_with (lower_case (str_or_empty (jget job ''message''))) ''processing''
      in w\<lparr>wizPhase := (if processing then ''processing''
              else if wizCancelRequested w then ''cancelling'' else ''measuring''),
           wizStatus := (if wizCancelRequested w then ''Cancelling measurement'' @ ellipsis
              else if processing
              then ''Processing '' @ (if stepChannel st = ''stereo'' then ''measurement'' else stepChannel st) @ ellipsis
              else ''Measuring '' @ speakerLabel w st @ ellipsis)\<rparr>)"

definition NO_DIRECT :: string where
  "NO_DIRECT = ''The direct speaker response could not be measured reliably. Check that the microphone is about 1 m from the speaker and not close to a wall or other reflecting surface, then repeat the measurement.''"

text \<open>A capture that is not kept: the message to show.\<close>

definition direct_refused :: "'p wizard \<Rightarrow> hybrid_step \<Rightarrow> jsval \<Rightarrow> string option" where
  "direct_refused w st m =
     (let check = validateDirectMicrophonePosition m (groupCaptures (captures w) (stepGroup st)) (stepChannel st) in
      if stepRole st \<noteq> ''direct'' then None
      else if \<not> isUsableDirectMeasurement m
      then Some (to_str (js_or (jpath m [''analysis'', ''direct_response'', ''retry_reason'']) (JStr NO_DIRECT)))
      else if truthy (jget check ''available'') \<and> \<not> truthy (jget check ''plausible'')
      then Some (to_str (jget check ''reason''))
      else None)"

definition checked_entry :: "'p wizard \<Rightarrow> hybrid_step \<Rightarrow> jsval \<Rightarrow> jsval" where
  "checked_entry w st m =
     (if stepRole st \<noteq> ''direct'' then m
      else with_position_check m
             (validateDirectMicrophonePosition m (groupCaptures (captures w) (stepGroup st)) (stepChannel st)))"

definition capture_of :: "hybrid_step \<Rightarrow> jsval \<Rightarrow> capture" where
  "capture_of st m = \<lparr>capStepId = stepId st, capRole = stepRole st, capPosition = stepPosition st,
     capChannel = stepChannel st, capGroup = stepGroup st, capMeasurement = m\<rparr>"

definition keep_capture :: "hybrid_step \<Rightarrow> jsval \<Rightarrow> capture list \<Rightarrow> capture list" where
  "keep_capture st m cs = filter (\<lambda>c. capStepId c \<noteq> stepId st) cs @ [capture_of st m]"

definition capture_taken :: "'p modeller \<Rightarrow> nat \<Rightarrow> hybrid_step \<Rightarrow> jsval \<Rightarrow> 'p wizard \<Rightarrow> 'p wizard" where
  "capture_taken md e st m w0 =
     (let w = w0\<lparr>captures := keep_capture st (checked_entry w0 st m) (captures w0)\<rparr>;
          failure = (if stepRole st = ''integration'' \<and> isHybridSeries w
                     then integrate md (groupCaptures (captures w) (stepGroup st)) (step_scope w st) else None)
      in case failure of
           Some err \<Rightarrow> run_failed (thrown [] err) w
         | None \<Rightarrow> step_done md e True (w\<lparr>quality := Some (''ok'', False), stepIndex := stepIndex w + 1\<rparr>))"

definition step_succeeded :: "'p modeller \<Rightarrow> nat \<Rightarrow> hybrid_step \<Rightarrow> jsval \<Rightarrow> 'p wizard \<Rightarrow> 'p wizard" where
  "step_succeeded md e st m w =
     (if wizCancelRequested w then step_done md e False w
      else case direct_refused w st m of
             Some why \<Rightarrow> step_done md e False (w\<lparr>quality := Some (''error'', True), wizStatus := why\<rparr>)
           | None \<Rightarrow> capture_taken md e st m w)"

definition hybrid_job_read :: "'p modeller \<Rightarrow> nat \<Rightarrow> step_job \<Rightarrow> nat \<Rightarrow> jsval \<Rightarrow> 'p wizard \<Rightarrow> 'p wizard" where
  "hybrid_job_read md e sj attempt job w0 =
     (let w = show_poll (jobStep sj) job w0; jobStatus = getMeasurementJobStatus job in
      if jobStatus \<in> set SUCCESS_STATES
      then step_succeeded md e (jobStep sj)
             (normalizeMeasurementEntry (getMeasurementJobResultMeasurement job) 0) w
      else if jobStatus \<in> set FAILED_STATES
      then run_threw (formatTransitionErrorDetail (jpath job [''error'', ''detail''])
                        (text_or (jget job ''message'') ''Measurement failed'')) w
      else if jobStatus \<in> set CANCELLED_STATES then step_done md e False w
      else wait_run e (RunSleep sj attempt) w)"

definition poll_answered :: "'p modeller \<Rightarrow> nat \<Rightarrow> step_job \<Rightarrow> nat \<Rightarrow> response \<Rightarrow> 'p wizard \<Rightarrow> 'p wizard" where
  "poll_answered md e sj attempt resp w =
     (if \<not> isCurrentHybridPoll sj w then step_done md e False w
      else case resp of
        NetError m \<Rightarrow> poll_failed e sj attempt False (JObj []) w
      | Http code body \<Rightarrow>
          (let data = json_or_empty resp in
           if \<not> resp_ok resp then poll_failed e sj attempt (gone code) data w
           else if nullish data then run_threw (null_read_error data ''job'') (w\<lparr>wizPollErrors := 0\<rparr>)
           else hybrid_job_read md e sj attempt (js_or (jget data ''job'') (JObj [])) (w\<lparr>wizPollErrors := 0\<rparr>)))"

definition run_answered :: "'p modeller \<Rightarrow> live \<Rightarrow> job_answer \<Rightarrow> 'p wizard \<Rightarrow> 'p wizard" where
  "run_answered md lv a w =
     (case runStage w of
        None \<Rightarrow> w
      | Some (e, stage) \<Rightarrow>
          (case (stage, a) of
             (RunFlush, FlushEnded (Some m)) \<Rightarrow> run_threw m w
           | (RunFlush, FlushEnded None) \<Rightarrow> loop_head md lv e w
           | (RunStart st, Responded r) \<Rightarrow> start_answered md e st r w
           | (RunCancelFirst sj, Responded r) \<Rightarrow> poll_head md e sj 0 w
           | (RunPoll sj attempt, Responded r) \<Rightarrow> poll_answered md e sj attempt r w
           | (RunSleep sj attempt, Over) \<Rightarrow> poll_head md e sj (attempt + 1) w
           | (RunPause, Over) \<Rightarrow> loop_head md lv e w
           | _ \<Rightarrow> w))"

subsection \<open>Starting a run, and the events\<close>

definition AREA_CHANGED :: string where
  "AREA_CHANGED = ''Measuring area or output mode changed. Close and restart the wizard so measurements are not mixed.''"

definition runHybridWizardSweep :: "live \<Rightarrow> 'p wizard \<Rightarrow> 'p wizard" where
  "runHybridWizardSweep lv w =
     (if wizRunning w \<or> wizProfile w \<noteq> None \<or> length (wizSequence w) \<le> stepIndex w then w
      else if Some (getLiveHybridScopeId lv (isHybridSeries w)) \<noteq> map_option scope_id (wizScope w)
      then w\<lparr>wizStatus := AREA_CHANGED, quality := Some (''error'', False)\<rparr>
      else wait_run (getPositionSeriesEnd (wizSequence w) (stepIndex w)) RunFlush
             (w\<lparr>wizRunning := True, wizCancelRequested := False, quality := None, wizPhase := ''preparing'',
                wizStatus := ''Preparing measurement'' @ ellipsis\<rparr>))"

text \<open>The button cancels, opens the result or starts; it is disabled while the setup is incomplete.\<close>

definition primary_clicked :: "live \<Rightarrow> 'p wizard \<Rightarrow> 'p wizard" where
  "primary_clicked lv w =
     (if wizRunning w then cancelHybridWizardMeasurement False w
      else if wizProfile w \<noteq> None then openHybridProfileInConvolver w
      else if modeReady lv then runHybridWizardSweep lv w
      else w)"

definition backdrop_clicked :: "'p wizard \<Rightarrow> 'p wizard" where
  "backdrop_clicked w = (if wizRunning w then w else closeHybridMeasurementWizard w)"

text \<open>
  \<open>OtherFlow\<close> is any other measurement flow that takes over the shared job; \<open>CancelClicked\<close> is the
  cancellation of the measurement page.
\<close>

datatype wizard_event =
    OpenClicked live
  | CloseClicked
  | BackdropClicked
  | CancelClicked
  | PrimaryClicked live
  | ScopeClicked live bool
  | BackClicked
  | RunAnswered live job_answer
  | CancelOver nat
  | OtherFlow string string nat

fun wizard_step :: "'p modeller \<Rightarrow> wizard_event \<Rightarrow> 'p wizard \<Rightarrow> 'p wizard" where
  "wizard_step md (OpenClicked lv) w = openHybridMeasurementWizard lv w"
| "wizard_step md CloseClicked w = closeHybridMeasurementWizard w"
| "wizard_step md BackdropClicked w = backdrop_clicked w"
| "wizard_step md CancelClicked w = cancelHybridWizardMeasurement False w"
| "wizard_step md (PrimaryClicked lv) w = primary_clicked lv w"
| "wizard_step md (ScopeClicked lv series) w = selectHybridWizardScope lv series w"
| "wizard_step md BackClicked w = back_clicked w"
| "wizard_step md (RunAnswered lv a) w = run_answered md lv a w"
| "wizard_step md (CancelOver n) w = cancel_request_over n w"
| "wizard_step md (OtherFlow job kind gen) w =
     w\<lparr>sharedJobId := job, sharedKind := kind, sharedGeneration := gen\<rparr>"

end
