(* ===== verification/Hybrid_Runs.thy ===== *)
theory Hybrid_Runs
  imports Hybrid_Claims Hybrid_Wizard
begin

section \<open>Runs of the Advanced measurement\<close>

text \<open>
  What holds in every state of the dialog of \<open>Hybrid_Wizard\<close>, whatever the order of clicks and
  answers: the captures kept are those of the sequence, one for every step already passed; the
  profile of a finished group was built from the captures that are kept; and a run that waits, waits
  for the step it stands at.
\<close>

subsection \<open>Scopes a run can have\<close>

definition proper_scope :: "hybrid_scope \<Rightarrow> bool" where
  "proper_scope sc = (case sc of
     GroupScope g \<Rightarrow> usual_channels g
   | SeriesScope gs \<Rightarrow> gs \<noteq> [] \<and> distinct (List.map scopeGroup gs) \<and> list_all (\<lambda>g. usual_channels g \<and> scopeGroup g \<noteq> []) gs)"

text \<open>What the catalog offers: scopes of \<open>buildScope\<close>, and groups with names of their own.\<close>

definition proper_live :: "live \<Rightarrow> bool" where
  "proper_live lv = (proper_scope (GroupScope (liveScope lv))
     \<and> (case liveGroups lv of None \<Rightarrow> True | Some gs \<Rightarrow> proper_scope (SeriesScope gs)))"

definition proper_event :: "wizard_event \<Rightarrow> bool" where
  "proper_event ev = (case ev of OpenClicked lv \<Rightarrow> proper_live lv | ScopeClicked lv series \<Rightarrow> proper_live lv | _ \<Rightarrow> True)"

lemma chosen_scope_proper: "proper_live lv \<Longrightarrow> proper_scope (chosen_scope lv series)"
  by (auto simp: proper_live_def chosen_scope_def split: option.splits)

lemma proper_ids: "proper_scope sc \<Longrightarrow> distinct (List.map stepId (sequence_of sc))"
  by (auto simp: proper_scope_def sequence_of_def list_all_iff intro!: series_ids split: hybrid_scope.splits dest: sequence_ids)

lemma group_steps_exist:
  assumes "g \<in> set gs" "usual_channels g"
  shows "\<exists>s \<in> set (buildSeriesSequence gs). stepGroup s = scopeGroup g"
proof -
  obtain s where "s \<in> set (buildSequence g)"
    using assms(2) listening_steps [of g "''mlp''"] by (auto simp: LISTENING_POSITIONS_def)
  then have "capture_key (group_step g s) \<in> set (List.map capture_key (grouped_steps gs))"
    using assms(1) by (auto simp: grouped_steps_def)
  then have "capture_key (group_step g s) \<in> set (List.map capture_key (buildSeriesSequence gs))"
    by (metis series_keys mset_eq_setD)
  then show ?thesis by (auto simp: capture_key_def)
qed

lemma step_scope_series:
  assumes "distinct (List.map scopeGroup gs)" "g \<in> set gs" "scopeGroup g = stepGroup st"
  shows "scopeForStep (SeriesScope gs) st = Some g"
proof -
  obtain g' where g': "find (\<lambda>g. scopeGroup g = stepGroup st) gs = Some g'"
    using assms(2,3) by (cases "find (\<lambda>g. scopeGroup g = stepGroup st) gs") (auto simp: find_None_iff)
  then have "g' \<in> set gs" "scopeGroup g' = scopeGroup g"
    using assms(3) by (auto simp: find_Some_iff)
  then have "g' = g" using assms(1,2) by (auto simp: distinct_map dest: inj_onD)
  with g' show ?thesis by (simp add: scopeForStep_def)
qed

subsection \<open>Captures and group profiles\<close>

definition kept_key :: "capture \<Rightarrow> string \<times> string \<times> string \<times> string \<times> string" where
  "kept_key c = (capStepId c, capRole c, capPosition c, capChannel c, capGroup c)"

definition captures_ok :: "hybrid_step list \<Rightarrow> nat \<Rightarrow> capture list \<Rightarrow> bool" where
  "captures_ok sq i cs =
     (distinct (List.map capStepId cs) \<and> kept_key ` set cs \<subseteq> capture_key ` set sq
      \<and> capture_key ` set (take i sq) \<subseteq> kept_key ` set cs)"

text \<open>Every group without steps from \<open>i\<close> on, save those of \<open>X\<close>, has its profile.\<close>

definition groups_ok :: "'p modeller \<Rightarrow> string set \<Rightarrow> hybrid_scope option \<Rightarrow> hybrid_step list \<Rightarrow> nat \<Rightarrow> capture list
    \<Rightarrow> (string \<times> 'p) list \<Rightarrow> bool" where
  "groups_ok md X sc sq i cs ps =
     (\<forall>gs g. sc = Some (SeriesScope gs) \<and> g \<in> set gs \<and> scopeGroup g \<notin> X
         \<and> scopeGroup g \<notin> stepGroup ` set (drop i sq) \<longrightarrow>
       (\<exists>p. map_of ps (scopeGroup g) = Some p \<and> build md (groupCaptures cs (scopeGroup g)) g = Inr p))"

lemma kept_key_capture_of [simp]: "kept_key (capture_of st m) = capture_key st"
  by (simp add: kept_key_def capture_of_def capture_key_def)

lemma kept_id: "kept_key c = capture_key s \<Longrightarrow> capStepId c = stepId s \<and> capGroup c = stepGroup s"
  by (simp add: kept_key_def capture_key_def)

lemma captures_ok_back: "captures_ok sq j cs \<Longrightarrow> i \<le> j \<Longrightarrow> captures_ok sq i cs"
  unfolding captures_ok_def using set_take_subset_set_take [of i j sq] by blast

lemma captures_ok_empty: "captures_ok sq 0 []"
  by (simp add: captures_ok_def)

lemma captures_ok_kept:
  assumes ids: "distinct (List.map stepId sq)" and ok: "captures_ok sq i cs" and i: "i < length sq"
  shows "captures_ok sq (i + 1) (keep_capture (sq ! i) m cs)"
proof -
  have st: "sq ! i \<in> set sq" using i by simp
  have "capture_key s \<in> kept_key ` set (keep_capture (sq ! i) m cs)" if s: "s \<in> set (take (i + 1) sq)" for s
  proof (cases "stepId s = stepId (sq ! i)")
    case True
    have "s \<in> set sq" using s by (rule in_set_takeD)
    with True st ids have "s = sq ! i" by (auto simp: distinct_map dest: inj_onD)
    then show ?thesis by (simp add: keep_capture_def)
  next
    case False
    with s i have "s \<in> set (take i sq)" by (auto simp: take_Suc_conv_app_nth)
    then obtain c where "c \<in> set cs" "kept_key c = capture_key s"
      using ok unfolding captures_ok_def by (metis imageE imageI subset_iff)
    with False show ?thesis by (auto simp: keep_capture_def dest: kept_id intro!: rev_image_eqI [of c])
  qed
  moreover have "distinct (List.map capStepId (keep_capture (sq ! i) m cs))"
    using ok by (auto simp: captures_ok_def keep_capture_def capture_of_def distinct_map_filter)
  moreover have "kept_key ` set (keep_capture (sq ! i) m cs) \<subseteq> capture_key ` set sq"
    using ok st by (auto simp: captures_ok_def keep_capture_def)
  ultimately show ?thesis unfolding captures_ok_def by blast
qed

lemma other_group_captures:
  assumes ids: "distinct (List.map stepId sq)" and ok: "captures_ok sq i cs" and st: "st \<in> set sq" "stepGroup st \<noteq> grp"
  shows "groupCaptures (keep_capture st m cs) grp = groupCaptures cs grp"
proof -
  have "capStepId c \<noteq> stepId st" if c: "c \<in> set cs" "capGroup c = grp" for c
  proof
    assume same: "capStepId c = stepId st"
    obtain s where s: "s \<in> set sq" "kept_key c = capture_key s" using c(1) ok by (auto simp: captures_ok_def)
    then have "s = st" using same ids st(1) by (auto dest!: kept_id simp: distinct_map dest: inj_onD)
    with s(2) c(2) st(2) show False by (auto dest: kept_id)
  qed
  then have "filter (\<lambda>c. capGroup c = grp \<and> capStepId c \<noteq> stepId st) cs = filter (\<lambda>c. capGroup c = grp) cs"
    by (intro filter_cong) auto
  with st(2) show ?thesis by (simp add: groupCaptures_def keep_capture_def capture_of_def conj_commute)
qed

lemma groups_ok_back:
  "groups_ok md X sc sq j cs ps \<Longrightarrow> i \<le> j \<Longrightarrow> X \<subseteq> stepGroup ` set (drop i sq) \<Longrightarrow> groups_ok md {} sc sq i cs ps"
  unfolding groups_ok_def using set_drop_subset_set_drop [of i j sq] by blast

lemma groups_ok_kept:
  assumes ids: "distinct (List.map stepId sq)" and ok: "captures_ok sq i cs" and i: "i < length sq"
    and groups: "groups_ok md {} sc sq i cs ps"
  shows "groups_ok md {stepGroup (sq ! i)} sc sq (i + 1) (keep_capture (sq ! i) m cs) ps"
proof -
  have st: "sq ! i \<in> set sq" using i by simp
  have d: "set (drop i sq) = insert (sq ! i) (set (drop (i + 1) sq))" using i by (simp flip: Cons_nth_drop_Suc)
  show ?thesis
    unfolding groups_ok_def
  proof (intro allI impI, elim conjE)
    fix gs g
    assume g: "sc = Some (SeriesScope gs)" "g \<in> set gs" "scopeGroup g \<notin> {stepGroup (sq ! i)}"
      "scopeGroup g \<notin> stepGroup ` set (drop (i + 1) sq)"
    then have "stepGroup (sq ! i) \<noteq> scopeGroup g" "scopeGroup g \<notin> stepGroup ` set (drop i sq)"
      by (auto simp: d)
    with g groups show "\<exists>p. map_of ps (scopeGroup g) = Some p
        \<and> build md (groupCaptures (keep_capture (sq ! i) m cs) (scopeGroup g)) g = Inr p"
      unfolding groups_ok_def other_group_captures [OF ids ok st \<open>stepGroup (sq ! i) \<noteq> scopeGroup g\<close>] by blast
  qed
qed

lemma groups_ok_built:
  assumes "groups_ok md {grp} sc sq i cs ps"
    and "\<And>gs g. sc = Some (SeriesScope gs) \<Longrightarrow> g \<in> set gs \<Longrightarrow> scopeGroup g = grp
      \<Longrightarrow> build md (groupCaptures cs grp) g = Inr p"
  shows "groups_ok md {} sc sq i cs ((grp, p) # ps)"
  using assms unfolding groups_ok_def by (auto split: if_splits)

lemma groups_ok_start: "proper_scope sc \<Longrightarrow> groups_ok md {} (Some sc) (sequence_of sc) 0 [] []"
  using group_steps_exist unfolding groups_ok_def proper_scope_def sequence_of_def
  by (auto simp: list_all_iff image_iff split: hybrid_scope.splits) metis

end
