(* ===== verification/Hybrid_Machine.thy ===== *)
theory Hybrid_Machine
  imports Hybrid_Runs
begin

section \<open>The invariant of the Advanced measurement dialog\<close>

text \<open>
  The invariant of \<open>Hybrid_Wizard\<close> and that every event keeps it. The only law it needs of the code
  that builds profiles is that an integration error comes from a scope with an integration check.
\<close>

subsection \<open>The invariant\<close>

definition checks_own_integration :: "'p modeller \<Rightarrow> bool" where
  "checks_own_integration md = (\<forall>cs g m. build md cs g = Inl (IntegrationFailed m) \<longrightarrow> scopeIntegration g)"

definition profile_of :: "'p modeller \<Rightarrow> hybrid_scope \<Rightarrow> capture list \<Rightarrow> 'p profile \<Rightarrow> bool" where
  "profile_of md sc cs pr = (case (sc, pr) of
     (GroupScope g, SingleProfile p) \<Rightarrow> build md cs g = Inr p
   | (SeriesScope gs, SeriesProfile parts) \<Rightarrow> List.map fst parts = gs
       \<and> list_all (\<lambda>(g, p). build md (groupCaptures cs (scopeGroup g)) g = Inr p) parts
   | _ \<Rightarrow> False)"

definition work_ok :: "'p modeller \<Rightarrow> string set \<Rightarrow> hybrid_scope \<Rightarrow> 'p wizard \<Rightarrow> bool" where
  "work_ok md X sc w =
     (wizScope w = Some sc \<and> proper_scope sc \<and> wizSequence w = sequence_of sc
      \<and> stepIndex w \<le> length (sequence_of sc) \<and> captures_ok (sequence_of sc) (stepIndex w) (captures w)
      \<and> groups_ok md X (Some sc) (sequence_of sc) (stepIndex w) (captures w) (groupProfiles w))"

definition result_ok :: "'p modeller \<Rightarrow> hybrid_scope \<Rightarrow> 'p wizard \<Rightarrow> bool" where
  "result_ok md sc w = (\<forall>pr. wizProfile w = Some pr \<longrightarrow>
     stepIndex w = length (sequence_of sc) \<and> profile_of md sc (captures w) pr)"

definition blank :: "'p wizard \<Rightarrow> bool" where
  "blank w = (wizScope w = None \<and> wizSequence w = [] \<and> stepIndex w = 0 \<and> wizProfile w = None)"

fun stage_step :: "run_stage \<Rightarrow> hybrid_step option" where
  "stage_step RunFlush = None"
| "stage_step (RunStart st) = Some st"
| "stage_step (RunCancelFirst sj) = Some (jobStep sj)"
| "stage_step (RunPoll sj attempt) = Some (jobStep sj)"
| "stage_step (RunSleep sj attempt) = Some (jobStep sj)"
| "stage_step RunPause = None"

definition run_stage_ok :: "'p wizard \<Rightarrow> bool" where
  "run_stage_ok w = (case runStage w of
     None \<Rightarrow> \<not> wizRunning w
   | Some (e, stage) \<Rightarrow> wizRunning w \<and> wizProfile w = None \<and> stepIndex w \<le> e \<and> e < length (wizSequence w)
       \<and> (\<forall>st. stage_step stage = Some st \<longrightarrow> st = wizSequence w ! stepIndex w))"

definition wizard_inv :: "'p modeller \<Rightarrow> 'p wizard \<Rightarrow> bool" where
  "wizard_inv md w = ((blank w \<or> (\<exists>sc. work_ok md {} sc w \<and> result_ok md sc w)) \<and> run_stage_ok w)"

text \<open>Inside a handler of a run.\<close>

definition going :: "'p modeller \<Rightarrow> string set \<Rightarrow> hybrid_scope \<Rightarrow> 'p wizard \<Rightarrow> bool" where
  "going md X sc w = (work_ok md X sc w \<and> wizProfile w = None \<and> wizRunning w)"

lemmas going_defs = going_def work_ok_def

lemma going_intro:
  "wizard_inv md w \<Longrightarrow> runStage w = Some (e, stage) \<Longrightarrow>
   \<exists>sc. going md {} sc w \<and> stepIndex w \<le> e \<and> e < length (sequence_of sc)
     \<and> (\<forall>st. stage_step stage = Some st \<longrightarrow> st = sequence_of sc ! stepIndex w)"
  by (auto simp: wizard_inv_def run_stage_ok_def going_defs blank_def)

lemma going_stops:
  assumes "going md {} sc w"
  shows "wizard_inv md (run_finally w)"
  using assms by (auto simp: wizard_inv_def run_stage_ok_def going_defs result_ok_def run_finally_def)

lemma going_waits:
  assumes "going md {} sc w" "stepIndex w \<le> e" "e < length (sequence_of sc)"
    "\<And>st. stage_step stage = Some st \<Longrightarrow> st = sequence_of sc ! stepIndex w"
  shows "wizard_inv md (wait_run e stage w)"
  using assms by (auto simp: wizard_inv_def run_stage_ok_def going_defs result_ok_def wait_run_def)

lemma going_back:
  assumes "going md X sc w" "i \<le> stepIndex w" "X \<subseteq> stepGroup ` set (drop i (sequence_of sc))"
  shows "going md {} sc (w\<lparr>stepIndex := i\<rparr>)"
  using assms by (auto simp: going_defs intro: captures_ok_back groups_ok_back)

lemma going_no_series: "going md X (GroupScope g) w \<Longrightarrow> going md {} (GroupScope g) w"
  by (simp add: going_defs groups_ok_def)

lemma find_index_Some: "find_index P xs = Some i \<Longrightarrow> i < length xs \<and> P (xs ! i) \<and> (\<forall>j < i. \<not> P (xs ! j))"
proof (induction xs arbitrary: i)
  case (Cons x xs)
  show ?case
  proof (cases "P x")
    case False
    with Cons obtain k where "find_index P xs = Some k" "i = Suc k" by auto
    with Cons.IH False show ?thesis by (auto simp: less_Suc_eq_0_disj)
  qed (use Cons in auto)
qed simp

lemma find_index_None: "find_index P xs = None \<longleftrightarrow> (\<forall>x \<in> set xs. \<not> P x)"
  by (induction xs) auto

lemma find_index_least:
  assumes "i < length xs" "P (xs ! i)"
  shows "\<exists>k \<le> i. find_index P xs = Some k"
proof (cases "find_index P xs")
  case None
  with assms show ?thesis by (auto simp: find_index_None)
next
  case (Some k)
  with assms show ?thesis by (metis find_index_Some not_le_imp_less)
qed

subsection \<open>The ends of a run\<close>

text \<open>A failure keeps the work done, and goes back at most.\<close>

lemma going_fails:
  assumes "going md X sc w" "retry_index err w \<le> stepIndex w"
    "X \<subseteq> stepGroup ` set (drop (retry_index err w) (sequence_of sc))"
  shows "wizard_inv md (run_failed err w)"
proof -
  from going_back [OF assms] have "going md {} sc (w\<lparr>stepIndex := retry_index err w\<rparr>)" .
  then have "going md {} sc (w\<lparr>stepIndex := retry_index err w,
     wizStatus := (if wizCancelRequested w then CANCELLED_STATUS
                   else or_default (errMessage err) ''Advanced measurement failed.''),
     quality := (if wizCancelRequested w then None else Some (''error'', True))\<rparr>)"
    by (simp add: going_defs)
  then show ?thesis unfolding run_failed_def by (rule going_stops)
qed

lemma retry_plain [simp]: "retry_index (plain_error m) w = stepIndex w" "retry_index (thrown grp (ModelFailed m)) w = stepIndex w"
  by (simp_all add: retry_index_def plain_error_def thrown_def)

lemma going_throws: "going md {} sc w \<Longrightarrow> wizard_inv md (run_threw m w)"
  unfolding run_threw_def by (rule going_fails [where X = "{}"]) auto

lemma retry_index_end: "going md X sc w \<Longrightarrow> stepIndex w = length (sequence_of sc) \<Longrightarrow> retry_index err w \<le> stepIndex w"
  by (auto simp: going_defs retry_index_def dest!: find_index_Some split: option.split)

lemma series_parts_ok:
  assumes "\<And>g. g \<in> set gs \<Longrightarrow> \<exists>p. map_of ps (scopeGroup g) = Some p \<and> Q g p"
  shows "\<exists>parts. series_parts gs ps = Inr parts \<and> List.map fst parts = gs \<and> list_all (\<lambda>(g, p). Q g p) parts"
  using assms
proof (induction gs)
  case (Cons g gs)
  then obtain parts where "series_parts gs ps = Inr parts" "List.map fst parts = gs" "list_all (\<lambda>(g, p). Q g p) parts"
    by auto
  moreover obtain p where "map_of ps (scopeGroup g) = Some p" "Q g p" using Cons.prems [of g] by auto
  ultimately show ?case by simp
qed simp

lemma finished_profile_ok:
  assumes "going md {} sc w" "stepIndex w = length (sequence_of sc)" "finished_profile md w = Inr pr"
  shows "profile_of md sc (captures w) pr"
proof (cases sc)
  case (GroupScope g)
  with assms show ?thesis
    by (auto simp: finished_profile_def going_defs profile_of_def single_profile_def split: sum.splits)
next
  case (SeriesScope gs)
  from assms(1,2) have "groups_ok md {} (Some sc) (sequence_of sc) (stepIndex w) (captures w) (groupProfiles w)"
    by (simp add: going_defs)
  then have "\<exists>p. map_of (groupProfiles w) (scopeGroup g) = Some p
      \<and> build md (groupCaptures (captures w) (scopeGroup g)) g = Inr p" if "g \<in> set gs" for g
    using that assms(2) SeriesScope by (simp add: groups_ok_def)
  then obtain parts where "series_parts gs (groupProfiles w) = Inr parts" "List.map fst parts = gs"
    "list_all (\<lambda>(g, p). build md (groupCaptures (captures w) (scopeGroup g)) g = Inr p) parts"
    using series_parts_ok [of gs "groupProfiles w" "\<lambda>g p. build md (groupCaptures (captures w) (scopeGroup g)) g = Inr p"] by blast
  with assms SeriesScope show ?thesis by (auto simp: finished_profile_def going_defs profile_of_def)
qed

lemma going_out:
  assumes "going md {} sc w"
  shows "wizard_inv md (run_outcome md w)"
proof (cases "\<not> wizCancelRequested w \<and> length (wizSequence w) \<le> stepIndex w")
  case True
  with assms have at_end: "stepIndex w = length (sequence_of sc)" by (simp add: going_defs)
  show ?thesis
  proof (cases "finished_profile md w")
    case (Inl err)
    have "wizard_inv md (run_failed err w)"
      by (rule going_fails [OF assms]) (use retry_index_end [OF assms at_end] in auto)
    with True Inl show ?thesis by (simp add: run_outcome_def)
  next
    case (Inr pr)
    have "profile_of md sc (captures w) pr" by (rule finished_profile_ok [OF assms at_end Inr])
    with True Inr assms at_end show ?thesis
      by (auto simp: run_outcome_def wizard_inv_def run_stage_ok_def going_defs result_ok_def run_finally_def)
  qed
next
  case False
  have "going md {} sc (w\<lparr>wizStatus := t, quality := q\<rparr>)" "going md {} sc (w\<lparr>wizStatus := t\<rparr>)" for t q
    using assms by (simp_all add: going_defs)
  with False assms show ?thesis
    by (auto simp: run_outcome_def intro: going_stops)
qed

subsection \<open>A step that is done\<close>

lemma work_scope: "going md X sc w \<Longrightarrow> step_scope w st = (case scopeForStep sc st of Some g \<Rightarrow> g | None \<Rightarrow> legacyScope ''stereo'')"
  by (simp add: step_scope_def going_defs)

lemma integration_in_group:
  assumes "g \<in> set gs" "scopeIntegration g"
  shows "\<exists>s \<in> set (buildSeriesSequence gs). stepRole s = ''integration'' \<and> stepGroup s = scopeGroup g"
proof -
  have "group_step g integration_step \<in> set (grouped_steps gs)"
    using assms by (auto simp: grouped_steps_def buildSequence_def)
  then have "capture_key (group_step g integration_step) \<in> set (List.map capture_key (buildSeriesSequence gs))"
    by (metis series_keys mset_eq_setD image_eqI list.set_map)
  then show ?thesis by (auto simp: capture_key_def integration_step_def mk_step_def)
qed

lemma series_step_group:
  assumes "s \<in> set (buildSeriesSequence gs)"
  shows "\<exists>g \<in> set gs. stepGroup s = scopeGroup g"
proof -
  have "capture_key s \<in> set (List.map capture_key (grouped_steps gs))"
    using assms by (metis series_keys mset_eq_setD image_eqI list.set_map)
  then show ?thesis by (auto simp: grouped_steps_def capture_key_def)
qed

lemma nth_in_drop: "j < length xs \<Longrightarrow> i \<le> j \<Longrightarrow> xs ! j \<in> set (drop i xs)"
  by (auto simp: in_set_conv_nth intro!: exI [of _ "j - i"])

lemma closed_before:
  assumes "s \<in> set sq" "Q s" "\<And>s. s \<in> set (drop i sq) \<Longrightarrow> \<not> Q s"
  shows "\<exists>k < i. find_index Q sq = Some k"
proof -
  obtain j where j: "j < length sq" "sq ! j = s" using assms(1) by (auto simp: in_set_conv_nth)
  have "j < i"
  proof (rule ccontr)
    assume "\<not> j < i"
    then have "s \<in> set (drop i sq)" using j nth_in_drop [of j sq i] by simp
    then show False using assms(2,3) by blast
  qed
  with find_index_least [of j sq Q] j assms(2) show ?thesis by auto
qed

lemma group_finished:
  assumes md: "checks_own_integration md" and go: "going md {grp} (SeriesScope gs) w"
    and i: "stepIndex w \<noteq> 0" and grp: "grp = stepGroup (sequence_of (SeriesScope gs) ! (stepIndex w - 1))"
  shows "case buildFinishedHybridGroupProfile md w of
      (None, w1) \<Rightarrow> going md {} (SeriesScope gs) w1 \<and> stepIndex w1 = stepIndex w
    | (Some err, w1) \<Rightarrow> wizard_inv md (run_failed err w1)"
proof -
  let ?sq = "sequence_of (SeriesScope gs)" and ?last = "sequence_of (SeriesScope gs) ! (stepIndex w - 1)"
  have w: "wizSequence w = ?sq" "distinct (List.map scopeGroup gs)" and le: "stepIndex w \<le> length ?sq"
    using go by (auto simp: going_defs proper_scope_def)
  have last: "?last \<in> set ?sq" using le i by simp
  then obtain g where g: "g \<in> set gs" "scopeGroup g = grp"
    using series_step_group grp by (metis hybrid_scope.case(2) sequence_of_def)
  have sc: "step_scope w ?last = g'" if "g' \<in> set gs" "scopeGroup g' = grp" for g'
    using step_scope_series [OF w(2) that(1)] that(2) grp by (simp add: work_scope [OF go])
  show ?thesis
  proof (cases "group_open w grp")
    case True
    have "going md {} (SeriesScope gs) (w\<lparr>stepIndex := stepIndex w\<rparr>)"
      by (rule going_back [OF go order_refl]) (use True w in \<open>auto simp: group_open_def\<close>)
    with True show ?thesis by (simp add: buildFinishedHybridGroupProfile_def w grp)
  next
    case closed: False
    have before: "\<exists>k < stepIndex w. find_index Q ?sq = Some k"
      if "s \<in> set ?sq" "Q s" "\<And>s. Q s \<Longrightarrow> stepGroup s = grp" for s Q
      by (rule closed_before [where s = s and Q = Q, OF that(1) that(2)])
        (use that(3) closed w in \<open>auto simp: group_open_def\<close>)
    have reopens: "{grp} \<subseteq> stepGroup ` set (drop k ?sq)" if "k < length ?sq" "stepGroup (?sq ! k) = grp" for k
      using that nth_in_drop [of k ?sq k] by auto
    let ?b = "build md (groupCaptures (captures w) grp) g"
    have eq: "buildFinishedHybridGroupProfile md w = (case ?b of
        Inl e \<Rightarrow> (Some (thrown grp e), restart_group grp e w)
      | Inr p \<Rightarrow> (None, w\<lparr>groupProfiles := (grp, p) # groupProfiles w\<rparr>))"
      unfolding buildFinishedHybridGroupProfile_def w Let_def grp [symmetric] sc [OF g] using closed i by simp
    show ?thesis
    proof (cases ?b)
      case (Inr p)
      have "build md (groupCaptures (captures w) grp) g' = Inr p" if "g' \<in> set gs" "scopeGroup g' = grp" for g'
        using sc [OF that] sc [OF g] Inr by simp
      then have "going md {} (SeriesScope gs) (w\<lparr>groupProfiles := (grp, p) # groupProfiles w\<rparr>)"
        using go by (auto simp: going_defs intro!: groups_ok_built)
      then show ?thesis by (simp add: eq Inr)
    next
      case (Inl e)
      show ?thesis
      proof (cases e)
        case (ModelFailed m)
        obtain k where k: "k < stepIndex w" "find_index (\<lambda>s. stepGroup s = grp) ?sq = Some k"
          using before [OF last, of "\<lambda>s. stepGroup s = grp"] grp by auto
        then have "going md {} (SeriesScope gs) (w\<lparr>stepIndex := k\<rparr>)"
          using reopens [of k] find_index_Some [OF k(2)] by (intro going_back [OF go]) auto
        then have "wizard_inv md (run_failed (thrown grp e) (w\<lparr>stepIndex := k\<rparr>))"
          by (rule going_fails) (simp_all add: ModelFailed)
        then show ?thesis using k by (simp add: eq Inl ModelFailed restart_group_def w)
      next
        case (IntegrationFailed m)
        then have "scopeIntegration g" using Inl md by (auto simp: checks_own_integration_def)
        then obtain s where s: "s \<in> set ?sq" "stepRole s = ''integration'' \<and> stepGroup s = grp"
          using integration_in_group [OF g(1)] g(2) by (auto simp: sequence_of_def)
        obtain k where k: "k < stepIndex w" "find_index (\<lambda>s. stepRole s = ''integration'' \<and> stepGroup s = grp) ?sq = Some k"
          using before [OF s(1), of "\<lambda>s. stepRole s = ''integration'' \<and> stepGroup s = grp"] s(2) by auto
        have r: "retry_index (thrown grp e) w = k"
          using k by (simp add: retry_index_def thrown_def IntegrationFailed w)
        have "wizard_inv md (run_failed (thrown grp e) w)"
          using reopens [of k] find_index_Some [OF k(2)] k(1) by (intro going_fails [OF go]) (auto simp: r)
        then show ?thesis by (simp add: eq Inl IntegrationFailed restart_group_def)
      qed
    qed
  qed
qed


lemma going_prepares:
  assumes "going md {} sc w" "e < length (sequence_of sc)"
  shows "wizard_inv md (prepare_next md e w)"
proof (cases "stepIndex w \<le> e")
  case True
  have "going md {} sc (w\<lparr>wizPhase := p, wizStatus := t\<rparr>)" for p t using assms by (simp add: going_defs)
  then show ?thesis using True assms(2) by (auto simp: prepare_next_def intro!: going_waits)
next
  case False
  then show ?thesis using going_out [OF assms(1)] by (simp add: prepare_next_def)
qed

lemma going_cleared: "going md X sc w \<Longrightarrow> going md X sc (w\<lparr>wizJobId := j, sharedJobId := k\<rparr>)"
  by (simp add: going_defs)

lemma step_not_done: "going md {} sc w \<Longrightarrow> wizard_inv md (step_done md e False w)"
  by (simp add: step_done_def) (rule going_out, rule going_cleared)

lemma step_completed:
  assumes md: "checks_own_integration md" and go: "going md {grp} sc w" and e: "e < length (sequence_of sc)"
    and i: "stepIndex w \<noteq> 0" and grp: "grp = stepGroup (sequence_of sc ! (stepIndex w - 1))"
    and live: "\<not> wizCancelRequested w"
  shows "wizard_inv md (step_done md e True w)"
proof -
  let ?w = "w\<lparr>wizJobId := [], sharedJobId := []\<rparr>"
  have go': "going md {grp} sc ?w" by (rule going_cleared [OF go])
  have scope: "wizScope ?w = Some sc" using go by (simp add: going_defs)
  show ?thesis
  proof (cases sc)
    case (GroupScope g)
    have "going md {} sc ?w" using go' unfolding GroupScope by (rule going_no_series)
    then have "wizard_inv md (prepare_next md e ?w)" by (rule going_prepares [OF _ e])
    with live scope GroupScope show ?thesis by (simp add: step_done_def isHybridSeries_def is_series_def)
  next
    case (SeriesScope gs)
    have f: "case buildFinishedHybridGroupProfile md ?w of
        (None, w1) \<Rightarrow> going md {} (SeriesScope gs) w1 \<and> stepIndex w1 = stepIndex ?w
      | (Some err, w1) \<Rightarrow> wizard_inv md (run_failed err w1)"
      by (rule group_finished [OF md]) (use go' i grp SeriesScope in auto)
    have eq: "step_done md e True w = (case buildFinishedHybridGroupProfile md ?w of
        (Some err, w1) \<Rightarrow> run_failed err w1 | (None, w1) \<Rightarrow> prepare_next md e w1)"
      using live scope SeriesScope by (simp add: step_done_def isHybridSeries_def is_series_def)
    obtain r w1 where b: "buildFinishedHybridGroupProfile md ?w = (r, w1)" by (cases "buildFinishedHybridGroupProfile md ?w")
    show ?thesis
      using f e going_prepares [of md "SeriesScope gs" w1 e] SeriesScope unfolding eq b by (cases r) simp_all
  qed
qed

text \<open>A capture is taken at the step the run stands at.\<close>

lemma capture_taken_inv:
  assumes md: "checks_own_integration md" and go: "going md {} sc w"
    and i: "stepIndex w \<le> e" "e < length (sequence_of sc)" and live: "\<not> wizCancelRequested w"
  shows "wizard_inv md (capture_taken md e (sequence_of sc ! stepIndex w) m w)"
proof -
  let ?st = "sequence_of sc ! stepIndex w"
  let ?w = "w\<lparr>captures := keep_capture ?st (checked_entry w ?st m) (captures w)\<rparr>"
  let ?w' = "?w\<lparr>quality := Some (''ok'', False), stepIndex := stepIndex w + 1\<rparr>"
  have ids: "distinct (List.map stepId (sequence_of sc))" and lt: "stepIndex w < length (sequence_of sc)"
    using go i by (auto simp: going_defs intro: proper_ids)
  have go': "going md {stepGroup ?st} sc ?w'"
    using go lt captures_ok_kept [OF ids _ lt] groups_ok_kept [OF ids _ lt] by (auto simp: going_defs)
  have "going md {} sc (?w'\<lparr>stepIndex := stepIndex w\<rparr>)"
    using nth_in_drop [OF lt order_refl] by (intro going_back [OF go']) auto
  then have kept: "going md {} sc ?w" by (simp add: going_defs)
  show ?thesis
  proof (cases "stepRole ?st = ''integration'' \<and> isHybridSeries ?w \<and>
      integrate md (groupCaptures (captures ?w) (stepGroup ?st)) (step_scope ?w ?st) \<noteq> None")
    case True
    then obtain err where err: "integrate md (groupCaptures (captures ?w) (stepGroup ?st)) (step_scope ?w ?st) = Some err" by auto
    have ret: "retry_index (thrown [] err) ?w = stepIndex w"
    proof (cases err)
      case (IntegrationFailed why)
      from True obtain gs where gs: "sc = SeriesScope gs"
        using go by (auto simp: isHybridSeries_def is_series_def going_defs split: hybrid_scope.splits)
      have "stepGroup s \<noteq> []" if "s \<in> set (sequence_of sc)" for s
        using that series_step_group [of s gs] go by (auto simp: gs sequence_of_def going_defs proper_scope_def list_all_iff)
      then have "find_index (\<lambda>s. stepRole s = ''integration'' \<and> stepGroup s = []) (sequence_of sc) = None"
        by (auto simp: find_index_None)
      then show ?thesis using go by (simp add: IntegrationFailed retry_index_def thrown_def going_defs)
    qed simp
    have "wizard_inv md (run_failed (thrown [] err) ?w)" by (rule going_fails [OF kept]) (simp_all add: ret)
    with True err show ?thesis by (simp add: capture_taken_def)
  next
    case False
    have "wizard_inv md (step_done md e True ?w')"
      using go' i(2) live by (intro step_completed [OF md]) auto
    with False show ?thesis by (auto simp: capture_taken_def Let_def split: option.split)
  qed
qed


subsection \<open>The handlers of a run\<close>

lemma loop_head_inv:
  assumes go: "going md {} sc w" and e: "e < length (sequence_of sc)"
  shows "wizard_inv md (loop_head md lv e w)"
proof (cases "stepIndex w \<le> e \<and> \<not> wizCancelRequested w")
  case True
  have w: "wizSequence w = sequence_of sc" using go by (simp add: going_defs)
  have "going md {} sc (w\<lparr>quality := q, wizPhase := p, wizStatus := t\<rparr>)" for q p t
    using go by (simp add: going_defs)
  with True e show ?thesis
    by (auto simp: loop_head_def begin_step_def Let_def w intro!: going_waits going_throws)
next
  case False
  then show ?thesis using going_out [OF go] by (auto simp: loop_head_def)
qed

lemma poll_head_inv:
  assumes "going md {} sc w" "stepIndex w \<le> e" "e < length (sequence_of sc)" "jobStep sj = sequence_of sc ! stepIndex w"
  shows "wizard_inv md (poll_head md e sj attempt w)"
  using assms by (auto simp: poll_head_def intro!: going_waits going_throws step_not_done)

lemma start_answered_inv:
  assumes go: "going md {} sc w" and e: "stepIndex w \<le> e" "e < length (sequence_of sc)"
    and st: "st = sequence_of sc ! stepIndex w"
  shows "wizard_inv md (start_answered md e st r w)"
proof -
  have "wizard_inv md (job_taken md e st j w)" for j
  proof -
    let ?w = "w\<lparr>wizJobId := j, sharedJobId := j, sharedKind := ''hybrid''\<rparr>"
    have "going md {} sc ?w" "stepIndex ?w = stepIndex w" using go by (simp_all add: going_defs)
    with e st show ?thesis
      by (auto simp: job_taken_def Let_def intro!: going_waits poll_head_inv)
  qed
  then show ?thesis
    using going_throws [OF go] by (auto simp: start_answered_def Let_def split: response.split)
qed

lemma poll_failed_inv:
  assumes go: "going md {} sc w" and e: "stepIndex w \<le> e" "e < length (sequence_of sc)"
    and st: "jobStep sj = sequence_of sc ! stepIndex w"
  shows "wizard_inv md (poll_failed e sj attempt lost payload w)"
proof -
  have "going md {} sc (w\<lparr>wizPollErrors := n\<rparr>)" for n using go by (simp add: going_defs)
  with go e st show ?thesis by (auto simp: poll_failed_def Let_def intro!: going_waits going_throws)
qed

lemma going_shown: "going md X sc w \<Longrightarrow> going md X sc (show_poll st job w)"
  by (simp add: going_defs show_poll_def Let_def)

lemma show_poll_frame [simp]:
  "stepIndex (show_poll st job w) = stepIndex w" "wizCancelRequested (show_poll st job w) = wizCancelRequested w"
  by (simp_all add: show_poll_def Let_def)

lemma step_succeeded_inv:
  assumes md: "checks_own_integration md" and go: "going md {} sc w" and e: "stepIndex w \<le> e" "e < length (sequence_of sc)"
  shows "wizard_inv md (step_succeeded md e (sequence_of sc ! stepIndex w) m w)"
proof -
  have "going md {} sc (w\<lparr>quality := q, wizStatus := t\<rparr>)" for q t using go by (simp add: going_defs)
  then show ?thesis
    using capture_taken_inv [OF md go e] go by (auto simp: step_succeeded_def intro!: step_not_done split: option.split)
qed

lemma hybrid_job_read_inv:
  assumes md: "checks_own_integration md" and go: "going md {} sc w" and e: "stepIndex w \<le> e" "e < length (sequence_of sc)"
    and st: "jobStep sj = sequence_of sc ! stepIndex w"
  shows "wizard_inv md (hybrid_job_read md e sj attempt job w)"
proof -
  have go': "going md {} sc (show_poll (jobStep sj) job w)" by (rule going_shown [OF go])
  have "wizard_inv md (step_succeeded md e (jobStep sj) m (show_poll (jobStep sj) job w))" for m
    using step_succeeded_inv [OF md go', of e m] e by (simp add: st)
  then show ?thesis
    using going_throws [OF go'] step_not_done [OF go'] going_waits [OF go', of e "RunSleep sj attempt"] e st
    by (auto simp: hybrid_job_read_def Let_def)
qed

lemma poll_answered_inv:
  assumes md: "checks_own_integration md" and go: "going md {} sc w" and e: "stepIndex w \<le> e" "e < length (sequence_of sc)"
    and st: "jobStep sj = sequence_of sc ! stepIndex w"
  shows "wizard_inv md (poll_answered md e sj attempt r w)"
proof -
  have go': "going md {} sc (w\<lparr>wizPollErrors := 0\<rparr>)" using go by (simp add: going_defs)
  have "wizard_inv md (hybrid_job_read md e sj attempt job (w\<lparr>wizPollErrors := 0\<rparr>))" for job
    by (rule hybrid_job_read_inv [OF md go']) (use e st in auto)
  then show ?thesis
    using step_not_done [OF go] going_throws [OF go'] poll_failed_inv [OF go e st]
    by (auto simp: poll_answered_def Let_def split: response.split)
qed

lemma run_answered_inv:
  assumes md: "checks_own_integration md" and inv: "wizard_inv md w"
  shows "wizard_inv md (run_answered md lv a w)"
proof (cases "runStage w")
  case None
  with inv show ?thesis by (simp add: run_answered_def)
next
  case (Some es)
  obtain e stage where es: "es = (e, stage)" by (cases es)
  obtain sc where go: "going md {} sc w" and e: "stepIndex w \<le> e" "e < length (sequence_of sc)"
    and st: "\<And>st. stage_step stage = Some st \<Longrightarrow> st = sequence_of sc ! stepIndex w"
    using going_intro [OF inv Some [unfolded es]] by blast
  show ?thesis
    using inv going_throws [OF go] loop_head_inv [OF go e(2)] st
      start_answered_inv [OF go e] poll_head_inv [OF go e] poll_answered_inv [OF md go e]
    by (cases stage; cases a) (auto simp: run_answered_def Some es split: option.split)
qed

subsection \<open>Clicks\<close>

lemma back_to_move_le: "back_to_move ss j \<le> j"
  by (induction j) auto

lemma previous_le: "getPreviousPositionIndex ss i \<le> i"
  using back_to_move_le [of ss "i - 1"] by (auto simp: getPreviousPositionIndex_def)

lemma wizard_inv_frame:
  assumes "wizScope w' = wizScope w" "wizSequence w' = wizSequence w" "stepIndex w' = stepIndex w" "captures w' = captures w"
    "groupProfiles w' = groupProfiles w" "wizProfile w' = wizProfile w" "runStage w' = runStage w" "wizRunning w' = wizRunning w"
  shows "wizard_inv md w' = wizard_inv md w"
  unfolding wizard_inv_def run_stage_ok_def blank_def work_ok_def result_ok_def assms by (rule refl)

lemma wizard_inv_updates [simp]:
  "wizard_inv md (w\<lparr>wizOpen := v0\<rparr>) = wizard_inv md w"
  "wizard_inv md (w\<lparr>wizJobId := v1\<rparr>) = wizard_inv md w"
  "wizard_inv md (w\<lparr>wizStatus := v2\<rparr>) = wizard_inv md w"
  "wizard_inv md (w\<lparr>wizPhase := v3\<rparr>) = wizard_inv md w"
  "wizard_inv md (w\<lparr>wizCancelRequested := v4\<rparr>) = wizard_inv md w"
  "wizard_inv md (w\<lparr>quality := v5\<rparr>) = wizard_inv md w"
  "wizard_inv md (w\<lparr>wizPollErrors := v6\<rparr>) = wizard_inv md w"
  "wizard_inv md (w\<lparr>sharedJobId := v7\<rparr>) = wizard_inv md w"
  "wizard_inv md (w\<lparr>sharedKind := v8\<rparr>) = wizard_inv md w"
  "wizard_inv md (w\<lparr>sharedGeneration := v9\<rparr>) = wizard_inv md w"
  "wizard_inv md (w\<lparr>closers := v10\<rparr>) = wizard_inv md w"
  "wizard_inv md (w\<lparr>adopted := v11\<rparr>) = wizard_inv md w"
  by (rule wizard_inv_frame; simp)+

lemma wizard_inv_idle: "\<not> wizRunning w \<Longrightarrow> wizard_inv md (w\<lparr>wizRunning := False\<rparr>) = wizard_inv md w"
  by (rule wizard_inv_frame; simp)

lemma load_scope_inv:
  assumes "proper_live lv" "wizRunning w = False" "runStage w = None"
  shows "wizard_inv md (load_scope lv series w)"
  using assms chosen_scope_proper [of lv series]
  by (auto simp: wizard_inv_def run_stage_ok_def load_scope_def work_ok_def result_ok_def captures_ok_empty groups_ok_start)

lemma idle_stage: "wizard_inv md w \<Longrightarrow> (runStage w = None) = (\<not> wizRunning w)"
  by (auto simp: wizard_inv_def run_stage_ok_def split: option.splits)

lemma load_scope_running [simp]: "wizRunning (load_scope lv series w) = wizRunning w"
  by (simp add: load_scope_def)

lemma open_inv: "wizard_inv md w \<Longrightarrow> proper_live lv \<Longrightarrow> wizard_inv md (openHybridMeasurementWizard lv w)"
  using load_scope_inv [of lv w md False] idle_stage [of md w]
  by (auto simp: openHybridMeasurementWizard_def wizard_inv_idle)

lemma cancel_inv: "wizard_inv md w \<Longrightarrow> wizard_inv md (cancelHybridWizardMeasurement closing w)"
  by (simp add: cancelHybridWizardMeasurement_def Let_def)

lemma close_inv: "wizard_inv md w \<Longrightarrow> wizard_inv md (closeHybridMeasurementWizard w)"
  by (simp add: closeHybridMeasurementWizard_def cancel_inv wizard_inv_idle)

lemma back_inv: "wizard_inv md w \<Longrightarrow> wizard_inv md (back_clicked w)"
  using previous_le [of "wizSequence w" "stepIndex w"] idle_stage [of md w]
  by (auto simp: back_clicked_def wizard_inv_def run_stage_ok_def blank_def work_ok_def result_ok_def
      dest!: not_Some_eq [THEN iffD1] intro: captures_ok_back groups_ok_back order_trans)

lemma sweep_inv:
  assumes inv: "wizard_inv md w"
  shows "wizard_inv md (runHybridWizardSweep lv w)"
proof (cases "wizRunning w \<or> wizProfile w \<noteq> None \<or> length (wizSequence w) \<le> stepIndex w
    \<or> Some (getLiveHybridScopeId lv (isHybridSeries w)) \<noteq> map_option scope_id (wizScope w)")
  case True
  with inv show ?thesis by (auto simp: runHybridWizardSweep_def)
next
  case False
  then obtain sc where sc: "work_ok md {} sc w" using inv by (auto simp: wizard_inv_def blank_def)
  let ?w = "w\<lparr>wizRunning := True, wizCancelRequested := False, quality := None, wizPhase := ''preparing'',
                wizStatus := ''Preparing measurement'' @ ellipsis\<rparr>"
  have "going md {} sc ?w" "wizSequence w = sequence_of sc" using sc False by (simp_all add: going_defs)
  moreover have "stepIndex w \<le> getPositionSeriesEnd (wizSequence w) (stepIndex w)
      \<and> getPositionSeriesEnd (wizSequence w) (stepIndex w) < length (wizSequence w)"
    unfolding getPositionSeriesEnd_def using series_end_props [of "stepIndex w" "wizSequence w"] False by (meson not_le)
  ultimately have "wizard_inv md (wait_run (getPositionSeriesEnd (wizSequence w) (stepIndex w)) RunFlush ?w)"
    by (auto intro!: going_waits)
  with False show ?thesis by (simp add: runHybridWizardSweep_def)
qed

lemma adopt_inv: "wizard_inv md w \<Longrightarrow> wizard_inv md (openHybridProfileInConvolver w)"
  by (auto simp: openHybridProfileInConvolver_def close_inv split: option.split)

lemma init_inv: "wizard_inv md init_wizard"
  by (simp add: wizard_inv_def run_stage_ok_def blank_def init_wizard_def)

lemma wizard_step_inv:
  assumes "checks_own_integration md" "wizard_inv md w" "proper_event ev"
  shows "wizard_inv md (wizard_step md ev w)"
  using assms
  by (cases ev) (auto simp: proper_event_def primary_clicked_def backdrop_clicked_def selectHybridWizardScope_def
      isHybridScopeSelectable_def cancel_request_over_def idle_stage
      intro!: open_inv close_inv cancel_inv adopt_inv sweep_inv load_scope_inv back_inv run_answered_inv)

lemma wizard_inv_run:
  assumes "checks_own_integration md"
  shows "list_all proper_event es \<Longrightarrow> wizard_inv md w \<Longrightarrow> wizard_inv md (run_events (wizard_step md) es w)"
  using assms by (induction es arbitrary: w) (auto intro: wizard_step_inv)

end
