(* ===== verification/Hybrid_Wizard_Claims.thy ===== *)
theory Hybrid_Wizard_Claims
  imports Hybrid_Machine
begin

section \<open>What the Advanced measurement promises\<close>

text \<open>
  The properties of the dialog of \<open>Hybrid_Wizard\<close> in every state it can reach: its result is built
  from exactly the captures of its sequence, a run comes to an end and leaves the shared job state
  clean, and a cancelled run changes nothing.
\<close>

subsection \<open>The result\<close>

lemma keys_complete:
  assumes ids: "distinct (List.map stepId sq)" and ok: "captures_ok sq (length sq) cs"
  shows "mset (List.map kept_key cs) = mset (List.map capture_key sq)"
proof -
  have "distinct (List.map fst (List.map kept_key cs))" "distinct (List.map fst (List.map capture_key sq))"
    using ids ok by (simp_all add: captures_ok_def kept_key_def capture_key_def comp_def)
  then have "distinct (List.map kept_key cs)" "distinct (List.map capture_key sq)"
    by (blast dest: distinct_map [THEN iffD1])+
  moreover have "set (List.map kept_key cs) = set (List.map capture_key sq)"
    using ok by (auto simp: captures_ok_def)
  ultimately show ?thesis by (metis set_eq_iff_mset_eq_distinct)
qed

text \<open>C37: An Advanced measurement shows a result only when it is complete, and the result is made of
  what is shown as measured. Whatever clicks and answers came before, in any order (opening, choosing
  speakers, going back, repeating, cancelling, failures, other flows taking over): when the dialog has
  a profile, the captures it keeps are exactly those of its sequence, each step once with its role,
  position, channel and group; a single run's profile was built from these captures, and a series has
  for each of its groups, in order, the profile built from this group's captures. The groups offered
  have names of their own, and only scopes with an integration check fail with an integration error.\<close>

theorem advanced_result_is_complete:
  assumes "checks_own_integration md" "list_all proper_event es"
    and "w = run_events (wizard_step md) es init_wizard" "wizProfile w = Some pr"
  shows "\<exists>sc. wizScope w = Some sc
    \<and> mset (List.map kept_key (captures w)) = mset (List.map capture_key (sequence_of sc))
    \<and> profile_of md sc (captures w) pr"
proof -
  have "wizard_inv md w" unfolding assms(3) by (rule wizard_inv_run [OF assms(1,2) init_inv])
  with assms(4) obtain sc where "work_ok md {} sc w" "result_ok md sc w" by (auto simp: wizard_inv_def blank_def)
  then show ?thesis
    using assms(4) keys_complete [OF proper_ids [of sc], of "captures w"] by (auto simp: work_ok_def result_ok_def)
qed

definition sub_live :: live where
  "sub_live = \<lparr>liveScope = buildScope (JObj [(''bank_id'', JStr ''sub1''), (''channel_mode'', JStr ''mono''), (''label'', JStr ''Sub 1'')]) JNull,
     liveGroups = None, modeReady = True, inputSelected = True, areaImportable = True, otherStartInFlight = False\<rparr>"

definition count_model :: "nat modeller" where
  "count_model = \<lparr>integrate = (\<lambda>cs g. None), build = (\<lambda>cs g. Inr (length cs))\<rparr>"

definition sub_job :: "string \<Rightarrow> response" where
  "sub_job st = Http 200 (Some (JObj [(''job'', JObj [(''id'', JStr ''j''), (''status'', JStr st)])]))"

definition one_position :: "wizard_event list" where
  "one_position = PrimaryClicked sub_live # List.map (RunAnswered sub_live)
     [FlushEnded None, Responded (sub_job ''queued''), Responded (sub_job ''done'')]"

theorem advanced_result_is_complete_witness:
  "\<exists>sc. wizScope (run_events (wizard_step count_model) (OpenClicked sub_live # one_position @ one_position @ one_position) init_wizard) = Some sc
    \<and> profile_of count_model sc (captures (run_events (wizard_step count_model)
        (OpenClicked sub_live # one_position @ one_position @ one_position) init_wizard)) (SingleProfile 3)"
proof -
  let ?es = "OpenClicked sub_live # one_position @ one_position @ one_position"
  have "checks_own_integration count_model" by (simp add: checks_own_integration_def count_model_def)
  moreover have "list_all proper_event ?es" by code_simp
  moreover have "wizProfile (run_events (wizard_step count_model) ?es init_wizard) = Some (SingleProfile 3)" by code_simp
  ultimately show ?thesis using advanced_result_is_complete [of count_model ?es _ "SingleProfile 3"] by blast
qed

subsection \<open>Runs end\<close>

definition awaits_answer :: "'p wizard \<Rightarrow> job_answer \<Rightarrow> bool" where
  "awaits_answer w a = (case runStage w of None \<Rightarrow> False | Some (e, stage) \<Rightarrow>
     (case (stage, a) of
        (RunFlush, FlushEnded f) \<Rightarrow> True | (RunStart st, Responded r) \<Rightarrow> True | (RunCancelFirst sj, Responded r) \<Rightarrow> True
      | (RunPoll sj n, Responded r) \<Rightarrow> True | (RunSleep sj n, Over) \<Rightarrow> True | (RunPause, Over) \<Rightarrow> True | _ \<Rightarrow> False))"

fun answers_taken :: "'p modeller \<Rightarrow> wizard_event list \<Rightarrow> 'p wizard \<Rightarrow> nat" where
  "answers_taken md [] w = 0"
| "answers_taken md (ev # es) w =
     (case ev of RunAnswered lv a \<Rightarrow> (if awaits_answer w a then 1 else 0) | _ \<Rightarrow> 0)
     + answers_taken md es (wizard_step md ev w)"

text \<open>Still running before every event of the list, and after it.\<close>

fun keeps_running :: "'p modeller \<Rightarrow> wizard_event list \<Rightarrow> 'p wizard \<Rightarrow> bool" where
  "keeps_running md [] w = wizRunning w"
| "keeps_running md (ev # es) w = (wizRunning w \<and> keeps_running md es (wizard_step md ev w))"

definition left_clean :: "'p wizard \<Rightarrow> bool" where
  "left_clean w = (\<not> wizRunning w \<and> runStage w = None \<and> wizJobId w = [] \<and> sharedJobId w = [] \<and> sharedKind w = []
     \<and> wizPhase w = [] \<and> \<not> wizCancelRequested w)"

fun run_stage_rank :: "run_stage \<Rightarrow> nat" where
  "run_stage_rank RunFlush = 725"
| "run_stage_rank (RunStart st) = 724"
| "run_stage_rank (RunCancelFirst sj) = 723"
| "run_stage_rank (RunPoll sj n) = 2 * (MAX_POLLS - n) + 2"
| "run_stage_rank (RunSleep sj n) = 2 * (MAX_POLLS - n) + 1"
| "run_stage_rank RunPause = 725"

definition run_rank :: "'p wizard \<Rightarrow> nat" where
  "run_rank w = (case runStage w of None \<Rightarrow> 0 | Some (e, stage) \<Rightarrow> 726 * (e - stepIndex w) + run_stage_rank stage)"

definition lowers :: "nat \<Rightarrow> 'p wizard \<Rightarrow> bool" where
  "lowers r w = (left_clean w \<or> runStage w \<noteq> None \<and> run_rank w < r)"

lemma finally_clean [simp]: "left_clean (run_finally w)"
  by (simp add: left_clean_def run_finally_def)

lemma failed_clean [simp]: "left_clean (run_failed err w)" "left_clean (run_threw m w)"
  by (simp_all add: run_failed_def run_threw_def)

lemma outcome_clean [simp]: "left_clean (run_outcome md w)"
  by (simp add: run_outcome_def split: sum.split)

lemma clean_lowers [simp]: "left_clean w \<Longrightarrow> lowers r w"
  by (simp add: lowers_def)

lemma wait_lowers: "lowers r (wait_run e stage w) = (726 * (e - stepIndex w) + run_stage_rank stage < r \<or> left_clean (wait_run e stage w))"
  by (auto simp: lowers_def run_rank_def wait_run_def)

lemma loop_head_lowers: "726 * (e - stepIndex w) + 725 \<le> r \<Longrightarrow> lowers r (loop_head md lv e w)"
  by (auto simp: loop_head_def begin_step_def Let_def wait_lowers)

lemma step_done_False [simp]: "left_clean (step_done md e False w)"
  by (simp add: step_done_def)

lemma built_index: "buildFinishedHybridGroupProfile md w = (None, w1) \<Longrightarrow> stepIndex w1 = stepIndex w"
  by (auto simp: buildFinishedHybridGroupProfile_def Let_def split: if_splits sum.splits)

lemma prepare_lowers: "stepIndex w \<le> e \<longrightarrow> 726 * (e - stepIndex w) + 725 < r \<Longrightarrow> lowers r (prepare_next md e w)"
  by (auto simp: prepare_next_def wait_lowers)

lemma step_done_lowers:
  assumes "stepIndex w \<le> e \<longrightarrow> 726 * (e - stepIndex w) + 725 < r"
  shows "lowers r (step_done md e b w)"
  using assms by (auto simp: step_done_def Let_def intro!: prepare_lowers dest!: built_index split: prod.split option.split)

lemma poll_head_lowers: "n < MAX_POLLS \<longrightarrow> 726 * (e - stepIndex w) + 2 * (MAX_POLLS - n) + 2 < r \<Longrightarrow> lowers r (poll_head md e sj n w)"
  by (auto simp: poll_head_def wait_lowers)

lemma start_answered_lowers: "726 * (e - stepIndex w) + 724 \<le> r \<Longrightarrow> lowers r (start_answered md e st resp w)"
  by (auto simp: start_answered_def job_taken_def Let_def wait_lowers MAX_POLLS_def intro!: poll_head_lowers split: response.split)

lemma poll_failed_lowers: "726 * (e - stepIndex w) + 2 * (MAX_POLLS - n) + 1 < r \<Longrightarrow> lowers r (poll_failed e sj n lost payload w)"
  by (auto simp: poll_failed_def Let_def wait_lowers)

lemma capture_taken_lowers: "stepIndex w \<le> e \<Longrightarrow> 726 * (e - stepIndex w) \<le> r \<Longrightarrow> lowers r (capture_taken md e st m w)"
  by (auto simp: capture_taken_def Let_def intro!: step_done_lowers split: option.split)

lemma job_read_lowers:
  assumes "stepIndex w \<le> e" "726 * (e - stepIndex w) + 2 * (MAX_POLLS - n) + 1 < r"
  shows "lowers r (hybrid_job_read md e sj n job w)"
  using assms by (auto simp: hybrid_job_read_def step_succeeded_def Let_def wait_lowers intro!: capture_taken_lowers split: option.split)

lemma poll_answered_lowers:
  assumes "stepIndex w \<le> e" "726 * (e - stepIndex w) + 2 * (MAX_POLLS - n) + 1 < r"
  shows "lowers r (poll_answered md e sj n resp w)"
  using assms by (auto simp: poll_answered_def Let_def intro!: poll_failed_lowers job_read_lowers split: response.split)

lemma answer_lowers:
  assumes "wizard_inv md w" "awaits_answer w a"
  shows "lowers (run_rank w) (run_answered md lv a w)"
proof -
  obtain e stage where s: "runStage w = Some (e, stage)"
    using assms(2) by (auto simp: awaits_answer_def split: option.splits)
  then have "stepIndex w \<le> e" using assms(1) by (auto simp: wizard_inv_def run_stage_ok_def)
  with s assms(2) show ?thesis
    by (cases stage; cases a)
      (auto simp: awaits_answer_def run_answered_def run_rank_def MAX_POLLS_def split: option.split
        intro!: loop_head_lowers start_answered_lowers poll_head_lowers poll_answered_lowers)
qed


text \<open>Nothing but an answer moves a run.\<close>

lemma other_events_wait:
  assumes "wizRunning w"
  shows "case ev of RunAnswered lv a \<Rightarrow> \<not> awaits_answer w a \<longrightarrow> wizard_step md ev w = w
    | _ \<Rightarrow> wizRunning (wizard_step md ev w) \<and> runStage (wizard_step md ev w) = runStage w
        \<and> stepIndex (wizard_step md ev w) = stepIndex w"
proof (cases ev)
  case (RunAnswered lv a)
  show ?thesis
  proof (cases "runStage w")
    case (Some es)
    then show ?thesis
      by (cases es; cases "snd es"; cases a) (simp_all add: RunAnswered awaits_answer_def run_answered_def)
  qed (simp add: RunAnswered run_answered_def)
qed (use assms in \<open>simp_all add: openHybridMeasurementWizard_def closeHybridMeasurementWizard_def
    cancelHybridWizardMeasurement_def backdrop_clicked_def primary_clicked_def selectHybridWizardScope_def
    isHybridScopeSelectable_def back_clicked_def cancel_request_over_def Let_def\<close>)

lemma run_rank_frame: "runStage w' = runStage w \<Longrightarrow> stepIndex w' = stepIndex w \<Longrightarrow> run_rank w' = run_rank w"
  by (simp only: run_rank_def)

lemma running_step:
  assumes "wizard_inv md w" "wizRunning w" "wizRunning (wizard_step md ev w)"
  shows "run_rank (wizard_step md ev w) + (case ev of RunAnswered lv a \<Rightarrow> if awaits_answer w a then 1 else 0 | _ \<Rightarrow> 0)
    \<le> run_rank w"
proof (cases "\<exists>lv a. ev = RunAnswered lv a \<and> awaits_answer w a")
  case True
  then obtain lv a where ev: "ev = RunAnswered lv a" "awaits_answer w a" by blast
  have "lowers (run_rank w) (wizard_step md ev w)" using answer_lowers [OF assms(1) ev(2)] by (simp add: ev(1))
  then show ?thesis using assms(3) ev by (auto simp: lowers_def left_clean_def)
next
  case False
  then show ?thesis using other_events_wait [OF assms(2), where ev = ev and md = md] by (cases ev) (auto dest: run_rank_frame simp: run_rank_frame [of "w\<lparr>sharedJobId := j, sharedKind := k, sharedGeneration := g\<rparr>" w for j k g])
qed

lemma ends_clean:
  assumes md: "checks_own_integration md" and inv: "wizard_inv md w" and ev: "proper_event ev"
    and run: "wizRunning w" "\<not> wizRunning (wizard_step md ev w)"
  shows "left_clean (wizard_step md ev w)"
proof -
  obtain lv a where a: "ev = RunAnswered lv a" "awaits_answer w a"
    using other_events_wait [OF run(1), where ev = ev and md = md] run by (cases ev) auto
  have "runStage (wizard_step md ev w) = None" using idle_stage [OF wizard_step_inv [OF md inv ev]] run(2) by simp
  then show ?thesis using answer_lowers [OF inv a(2), of lv] by (simp add: a(1) lowers_def)
qed

lemma running_bound:
  assumes md: "checks_own_integration md"
  shows "wizard_inv md w \<Longrightarrow> list_all proper_event fs \<Longrightarrow> keeps_running md fs w \<Longrightarrow> answers_taken md fs w \<le> run_rank w"
proof (induction fs arbitrary: w)
  case (Cons ev fs)
  let ?w = "wizard_step md ev w"
  have "wizRunning ?w" using Cons.prems(3) by (cases fs) auto
  moreover have "answers_taken md fs ?w \<le> run_rank ?w"
    using Cons wizard_step_inv [OF md] by auto
  ultimately show ?case using running_step [OF Cons.prems(1), of ev] Cons.prems(3) by (auto split: wizard_event.splits)
qed simp

lemma run_stage_rank_bound: "run_stage_rank stage \<le> 725"
  by (cases stage) (auto simp: MAX_POLLS_def)

lemma run_rank_bound: "wizard_inv md w \<Longrightarrow> run_rank w \<le> 726 * length (wizSequence w)"
proof (cases "runStage w")
  case (Some es)
  assume "wizard_inv md w"
  obtain e stage where es: "es = (e, stage)" by (cases es)
  with Some \<open>wizard_inv md w\<close> have "e < length (wizSequence w)" by (auto simp: wizard_inv_def run_stage_ok_def)
  then show ?thesis using run_stage_rank_bound [of stage] by (simp add: run_rank_def Some es)
qed (simp add: run_rank_def)

lemma waits_for_something: "wizard_inv md w \<Longrightarrow> wizRunning w \<Longrightarrow> \<exists>a. awaits_answer w a"
proof (cases "runStage w")
  case (Some es)
  then show ?thesis by (cases es; cases "snd es") (auto simp: awaits_answer_def intro: exI [of _ Over] exI [of _ "FlushEnded None"] exI [of _ "Responded (NetError [])"])
qed (simp add: idle_stage)

text \<open>C38: A run of the Advanced measurement always comes to an end, and leaves nothing behind. In every
  reachable state with a run going, the run waits for an answer; it takes at most 726 answers per step of
  the sequence while it keeps running, whatever the server answers and whatever else is clicked; and the
  event that ends it leaves no job, no phase, no pending cancellation and the shared job of the page
  cleared.\<close>

theorem advanced_run_ends:
  assumes "checks_own_integration md" "list_all proper_event (es @ fs)"
    and "w = run_events (wizard_step md) es init_wizard" "keeps_running md fs w"
  shows "(\<exists>a. awaits_answer w a) \<and> answers_taken md fs w \<le> 726 * length (wizSequence w)
    \<and> (\<forall>ev. proper_event ev \<and> \<not> wizRunning (wizard_step md ev (run_events (wizard_step md) fs w))
         \<longrightarrow> left_clean (wizard_step md ev (run_events (wizard_step md) fs w)))"
proof -
  have inv: "wizard_inv md w" using assms(2) unfolding assms(3) by (intro wizard_inv_run [OF assms(1) _ init_inv]) simp
  then have inv': "wizard_inv md (run_events (wizard_step md) fs w)"
    using assms(2) by (intro wizard_inv_run [OF assms(1)]) simp_all
  have run: "wizRunning (run_events (wizard_step md) fs w)"
    using assms(4) by (induction fs arbitrary: w) auto
  have "wizRunning w" using assms(4) by (cases fs) auto
  with inv have "\<exists>a. awaits_answer w a" by (rule waits_for_something)
  moreover have "answers_taken md fs w \<le> run_rank w"
    using assms(2,4) by (intro running_bound [OF assms(1) inv]) simp_all
  ultimately show ?thesis
    using run_rank_bound [OF inv] ends_clean [OF assms(1) inv' _ run] by auto
qed

definition failing_run :: "wizard_event list" where
  "failing_run = RunAnswered sub_live (FlushEnded None) # RunAnswered sub_live (Responded (sub_job ''queued''))
     # concat (replicate 4 [RunAnswered sub_live (Responded (NetError [])), RunAnswered sub_live Over])"

theorem advanced_run_ends_witness:
  "answers_taken count_model failing_run (run_events (wizard_step count_model) [OpenClicked sub_live, PrimaryClicked sub_live] init_wizard) = 10
   \<and> left_clean (run_events (wizard_step count_model)
       ([OpenClicked sub_live, PrimaryClicked sub_live] @ failing_run @ [RunAnswered sub_live (Responded (NetError []))]) init_wizard)"
proof -
  let ?es = "[OpenClicked sub_live, PrimaryClicked sub_live]" and ?last = "RunAnswered sub_live (Responded (NetError []))"
  let ?w = "run_events (wizard_step count_model) ?es init_wizard"
  have md: "checks_own_integration count_model" by (simp add: checks_own_integration_def count_model_def)
  have "list_all proper_event (?es @ failing_run)" "keeps_running count_model failing_run ?w" "proper_event ?last"
    "\<not> wizRunning (wizard_step count_model ?last (run_events (wizard_step count_model) failing_run ?w))"
    and n: "answers_taken count_model failing_run ?w = 10"
    by code_simp+
  then have "left_clean (wizard_step count_model ?last (run_events (wizard_step count_model) failing_run ?w))"
    using advanced_run_ends [OF md _ refl] by blast
  with n show ?thesis by (simp add: run_events_def)
qed

subsection \<open>Cancelling\<close>

text \<open>What a cancelled run leaves as it was, and what it shows at its end.\<close>

definition same_work :: "'p wizard \<Rightarrow> 'p wizard \<Rightarrow> bool" where
  "same_work w w' = (captures w' = captures w \<and> stepIndex w' = stepIndex w \<and> groupProfiles w' = groupProfiles w
     \<and> wizProfile w' = wizProfile w \<and> wizSequence w' = wizSequence w)"

definition cancelled_end :: "'p wizard \<Rightarrow> 'p wizard \<Rightarrow> bool" where
  "cancelled_end w w' = (same_work w w'
     \<and> (if wizRunning w' then wizCancelRequested w' else wizStatus w' = CANCELLED_STATUS \<and> quality w' = None))"

lemma cancelled_threw: "wizCancelRequested w \<Longrightarrow> cancelled_end w (run_threw m w)"
  by (simp add: run_threw_def run_failed_def run_finally_def cancelled_end_def same_work_def)

lemma cancelled_out: "wizCancelRequested w \<Longrightarrow> cancelled_end w (run_outcome md w)"
  by (simp add: run_outcome_def run_finally_def cancelled_end_def same_work_def)

lemma cancelled_waits: "wizCancelRequested w \<Longrightarrow> wizRunning w \<Longrightarrow> cancelled_end w (wait_run e stage w)"
  by (simp add: wait_run_def cancelled_end_def same_work_def)

lemma cancelled_frame:
  assumes "same_work w v" "cancelled_end v w'"
  shows "cancelled_end w w'"
  using assms by (auto simp: cancelled_end_def same_work_def)

lemma cancelled_done: "wizCancelRequested w \<Longrightarrow> cancelled_end w (step_done md e b w)"
  by (auto simp: step_done_def same_work_def intro!: cancelled_out cancelled_frame [of w "w\<lparr>wizJobId := [], sharedJobId := []\<rparr>"])

lemma cancelled_head: "wizCancelRequested w \<Longrightarrow> wizRunning w \<Longrightarrow> cancelled_end w (poll_head md e sj n w)"
  by (simp add: poll_head_def cancelled_threw cancelled_done cancelled_waits)

lemma cancelled_loop: "wizCancelRequested w \<Longrightarrow> cancelled_end w (loop_head md lv e w)"
  by (simp add: loop_head_def cancelled_out)

lemma cancelled_start: 
  assumes "wizCancelRequested w" "wizRunning w"
  shows "cancelled_end w (start_answered md e st r w)"
proof -
  have "cancelled_end w (job_taken md e st j w)" for j
    using assms by (auto simp: job_taken_def Let_def wait_run_def cancelled_end_def same_work_def)
  then show ?thesis using assms by (auto simp: start_answered_def Let_def cancelled_threw split: response.split)
qed

lemma cancelled_poll_failed:
  assumes "wizCancelRequested w" "wizRunning w"
  shows "cancelled_end w (poll_failed e sj n lost payload w)"
proof -
  have "same_work w (w\<lparr>wizPollErrors := k\<rparr>)" for k by (simp add: same_work_def)
  then show ?thesis
    using assms by (auto simp: poll_failed_def Let_def cancelled_threw intro!: cancelled_waits cancelled_threw
        cancelled_frame [of w "w\<lparr>wizPollErrors := Suc (wizPollErrors w)\<rparr>"])
qed

lemma cancelled_read:
  assumes "wizCancelRequested w" "wizRunning w"
  shows "cancelled_end w (hybrid_job_read md e sj n job w)"
proof -
  let ?v = "show_poll (jobStep sj) job w"
  have v: "same_work w ?v" "wizCancelRequested ?v" "wizRunning ?v"
    using assms by (simp_all add: show_poll_def Let_def same_work_def)
  have "cancelled_end ?v (hybrid_job_read md e sj n job w)"
    using v by (simp add: hybrid_job_read_def step_succeeded_def Let_def cancelled_done cancelled_threw cancelled_waits
        del: show_poll_frame)
  with v(1) show ?thesis by (rule cancelled_frame)
qed

lemma cancelled_poll:
  assumes "wizCancelRequested w" "wizRunning w"
  shows "cancelled_end w (poll_answered md e sj n r w)"
proof -
  let ?v = "w\<lparr>wizPollErrors := 0\<rparr>"
  have v: "same_work w ?v" "wizCancelRequested ?v" "wizRunning ?v" using assms by (simp_all add: same_work_def)
  then have "cancelled_end w (hybrid_job_read md e sj n job ?v)" "cancelled_end w (run_threw m ?v)" for job m
    using cancelled_read [OF v(2,3)] cancelled_threw [OF v(2)] cancelled_frame [OF v(1)] by blast+
  then show ?thesis
    using assms by (auto simp: poll_answered_def Let_def cancelled_done cancelled_poll_failed split: response.split)
qed

lemma cancelled_step:
  assumes "wizCancelRequested w" "wizRunning w"
  shows "cancelled_end w (wizard_step md ev w)"
proof (cases ev)
  case (RunAnswered lv a)
  have same: "cancelled_end w w" using assms by (simp add: cancelled_end_def same_work_def)
  show ?thesis
  proof (cases "runStage w")
    case (Some es)
    then show ?thesis using same assms
      by (cases es; cases "snd es"; cases a) (auto simp: RunAnswered run_answered_def cancelled_threw cancelled_loop
          cancelled_start cancelled_head cancelled_poll split: option.split)
  qed (use same in \<open>simp add: RunAnswered run_answered_def\<close>)
qed (use assms in \<open>auto simp: openHybridMeasurementWizard_def closeHybridMeasurementWizard_def
    cancelHybridWizardMeasurement_def backdrop_clicked_def primary_clicked_def selectHybridWizardScope_def
    isHybridScopeSelectable_def back_clicked_def cancel_request_over_def Let_def cancelled_end_def same_work_def\<close>)

text \<open>C39: Cancelling an Advanced run never changes what has been measured. Once the cancellation has been
  requested, until the run has ended, no answer and no click changes the captures, the step the run
  stands at, the group profiles or the result, even when the server reports the sweep as finished or
  failed; and the run ends with the message that it was cancelled and no quality mark.\<close>

theorem cancelled_run_keeps_the_work:
  assumes "wizCancelRequested w" "wizRunning w"
    and "fs = [] \<or> keeps_running md (butlast fs) w"
  shows "cancelled_end w (run_events (wizard_step md) fs w)"
  using assms
proof (induction fs arbitrary: w)
  case Nil
  then show ?case by (simp add: cancelled_end_def same_work_def)
next
  case (Cons ev fs)
  let ?w = "wizard_step md ev w"
  have now: "cancelled_end w ?w" by (rule cancelled_step [OF Cons.prems(1,2)])
  show ?case
  proof (cases "fs = []")
    case False
    with Cons.prems(3) have "keeps_running md (butlast fs) ?w" "wizRunning ?w" by (cases "butlast fs"; auto)+
    with now Cons.IH [of ?w] have "cancelled_end ?w (run_events (wizard_step md) fs ?w)" by (auto simp: cancelled_end_def)
    with now show ?thesis by (auto simp: cancelled_end_def same_work_def)
  qed (use now in simp)
qed

definition cancelling_sub :: "nat wizard" where
  "cancelling_sub = run_events (wizard_step count_model)
     (OpenClicked sub_live # butlast one_position @ [PrimaryClicked sub_live]) init_wizard"

theorem cancelled_run_keeps_the_work_witness:
  "cancelled_end cancelling_sub
     (run_events (wizard_step count_model) [RunAnswered sub_live (Responded (sub_job ''done''))] cancelling_sub)
   \<and> captures (run_events (wizard_step count_model) [RunAnswered sub_live (Responded (sub_job ''done''))] cancelling_sub) = []"
proof -
  let ?e = "RunAnswered sub_live (Responded (sub_job ''done''))"
  have run: "wizRunning cancelling_sub" and req: "wizCancelRequested cancelling_sub" by code_simp+
  have "cancelled_end cancelling_sub (run_events (wizard_step count_model) [?e] cancelling_sub)"
    by (rule cancelled_run_keeps_the_work [OF req run]) (simp add: run)
  moreover have "captures (run_events (wizard_step count_model) [?e] cancelling_sub) = []" by code_simp
  ultimately show ?thesis by blast
qed

text \<open>
  A sweep that the server cancelled without a request of this page ends the run like a measured
  position.
\<close>

definition stopped_elsewhere :: "nat wizard" where
  "stopped_elsewhere = run_events (wizard_step count_model)
     (OpenClicked sub_live # butlast one_position @ [RunAnswered sub_live (Responded (sub_job ''cancelled''))]) init_wizard"

lemma foreign_cancel_reads_as_measured:
  "captures stopped_elsewhere = [] \<and> stepIndex stopped_elsewhere = 0
   \<and> wizStatus stopped_elsewhere = ''Position measured successfully. Move the microphone as shown for the next measurement.''"
  by code_simp

end
