(* ===== verification/Auto_Sub_Result.thy ===== *)
theory Auto_Sub_Result
  imports Measurement_Job
begin

section \<open>Auto Sub: progress and result texts\<close>

text \<open>
  The texts of an Auto Sub run (static/measurement_flows.js): the progress line of a job, the text of
  a failure, and the outcome line, its detail line and the toast of a result, for one subwoofer and
  for two. Numbers are exact; \<open>toFixed\<close> rounds half up.
\<close>

subsection \<open>Numbers\<close>

definition pad_digits :: "nat \<Rightarrow> nat \<Rightarrow> string" where
  "pad_digits d n = replicate (d - length (nat_str n)) (CHR ''0'') @ nat_str n"

text \<open>\<open>value.toFixed(d)\<close> with \<open>d > 0\<close>.\<close>

definition to_fixed :: "nat \<Rightarrow> rat \<Rightarrow> string" where
  "to_fixed d r =
     (let n = nat \<lfloor>10 ^ d * \<bar>r\<bar> + 1 / 2\<rfloor>
      in (if r < 0 then ''-'' else []) @ nat_str (n div 10 ^ d) @ ''.'' @ pad_digits d (n mod 10 ^ d))"

text \<open>\<open>Number.isFinite(v)\<close> and the value; \<open>finiteNumber\<close> converts first.\<close>

definition fin_num :: "jsval \<Rightarrow> rat option" where
  "fin_num v = (case v of JNum (Fin r) \<Rightarrow> Some r | _ \<Rightarrow> None)"

definition finiteNumber :: "jsval \<Rightarrow> rat option" where
  "finiteNumber v = (case to_num v of Fin r \<Rightarrow> Some r | _ \<Rightarrow> None)"

definition fixed_or :: "nat \<Rightarrow> string \<Rightarrow> rat option \<Rightarrow> string" where
  "fixed_or d missing v = (case v of None \<Rightarrow> missing | Some r \<Rightarrow> to_fixed d r)"

fun first_some :: "'a option list \<Rightarrow> 'a option" where
  "first_some [] = None"
| "first_some (Some x # vs) = Some x"
| "first_some (None # vs) = first_some vs"

definition obj_of :: "jsval \<Rightarrow> jsval" where "obj_of v = js_or v (JObj [])"

definition dot :: string where "dot = '' '' @ mid_dot @ '' ''"

definition nl :: string where "nl = [CHR 0x0A]"

subsection \<open>Progress and failure\<close>

definition AUTO_SUB_STAGE_LABELS :: "(string \<times> string) list" where
  "AUTO_SUB_STAGE_LABELS =
    [(''balance_check'', ''Level check''), (''main_reference'', ''Main reference''), (''coarse'', ''Coarse scan''),
     (''fine'', ''Fine scan''), (''sub1_coarse'', ''Optimizing Sub 1''), (''sub2_coarse'', ''Optimizing Sub 2''),
     (''left_sub'', ''Optimizing Sub 1''), (''right_sub'', ''Optimizing Sub 2''), (''left_fine'', ''Sub 1 fine scan''),
     (''right_fine'', ''Sub 2 fine scan''), (''left_tiebreak'', ''Sub 1 tie-break''), (''right_tiebreak'', ''Sub 2 tie-break''),
     (''combined_matrix'', ''Combined matrix''), (''polarity_check'', ''Polarity check''),
     (''left_polarity_check'', ''Sub 1 polarity check''), (''right_polarity_check'', ''Sub 2 polarity check''),
     (''polarity_fine'', ''Polarity fine-tune''), (''polarity_refine'', ''Polarity fine-tune''),
     (''left_polarity_fine'', ''Sub 1 polarity fine-tune''), (''right_polarity_fine'', ''Sub 2 polarity fine-tune''),
     (''gain_after'', ''Level match''), (''gain_correction_after'', ''Level match''), (''deep_bass_check'', ''Deep-bass check''),
     (''confirmation_recheck'', ''Final check''), (''final_commit_confirmation'', ''Final check'')]"

definition stage_label :: "string \<Rightarrow> string" where
  "stage_label key = (case map_of AUTO_SUB_STAGE_LABELS key of
     Some l \<Rightarrow> l | None \<Rightarrow> List.map (\<lambda>c. if c = CHR ''_'' then CHR '' '' else c) key)"

definition count_text :: "jsval \<Rightarrow> jsval \<Rightarrow> string \<Rightarrow> string" where
  "count_text current limit what = to_str current @ ''/'' @ to_str limit @ '' '' @ what"

definition autoSubProgressText :: "jsval \<Rightarrow> string" where
  "autoSubProgressText job =
     (let progress = obj_of (jget job ''progress'');
          label = stage_label (to_str (js_or (jget progress ''stage'') (js_or (jget job ''stage'') (JStr []))));
          candidateCur = jget progress ''candidate_current''; candidateTot = jget progress ''candidate_total'';
          sweepCur = js_coalesce (jget progress ''sweep_current'') (jget progress ''current'');
          sweepTot = js_coalesce (jget progress ''sweep_total'') (jget progress ''total'');
          sweeps = (if fin_num sweepCur \<noteq> None \<and> fin_num sweepTot \<noteq> None then count_text sweepCur sweepTot ''sweeps'' else []);
          counts = (if fin_num candidateCur \<noteq> None \<and> fin_num candidateTot \<noteq> None
                    then count_text candidateCur candidateTot ''candidates''
                         @ (if sweeps \<noteq> [] then '' ('' @ sweeps @ '')'' else [])
                    else sweeps);
          target = str_or_empty (jpath job [''target_curve'', ''label''])
      in if jget job ''status'' = JStr ''cancelling'' then cancelling
         else if counts = [] then (if label \<noteq> [] then label @ ellipsis else ''Preparing'' @ ellipsis)
         else or_default label ''Measuring'' @ '': '' @ counts
              @ (if target \<noteq> [] then dot @ ''Target: '' @ target else []))"

text \<open>\<open>String(message).replace(/^Auto Sub Optimize[^:]*failed:\\s*/i, '').trim()\<close>: the prefix ends at the
  first colon of the message.\<close>

definition strip_auto_sub :: "string \<Rightarrow> string" where
  "strip_auto_sub s =
     (let seg = takeWhile (\<lambda>c. c \<noteq> CHR '':'') s; pre = ''auto sub optimize''
      in if seg \<noteq> s \<and> starts_with (lower_case seg) pre \<and> ends_with (drop (length pre) (lower_case seg)) ''failed''
         then trim (drop (length seg + 1) s) else trim s)"

definition autoSubFailureText :: "string \<Rightarrow> string" where
  "autoSubFailureText message =
     (let reason = strip_auto_sub message in if reason \<noteq> [] then ''Auto Sub failed: '' @ reason else ''Auto Sub failed.'')"

subsection \<open>Results\<close>

record auto_sub_report =
  reportStatus :: string
  reportToast :: string
  reportKind :: string

definition with_detail :: "string \<Rightarrow> string list \<Rightarrow> string" where
  "with_detail outcome parts = (if parts = [] then outcome else outcome @ nl @ join_with dot parts)"

definition lr_text :: "rat option \<Rightarrow> rat option \<Rightarrow> string" where
  "lr_text l r = (case (l, r) of
     (Some l, Some r) \<Rightarrow> dot @ ''L '' @ to_fixed 1 l @ '' % / R '' @ to_fixed 1 r @ '' %'' | _ \<Rightarrow> [])"

definition isSubwoofer22Mode :: "jsval \<Rightarrow> bool" where
  "isSubwoofer22Mode mode = (mode = JStr ''subwoofer-2.2'' \<or> mode = JStr ''subwoofer-2.2-stereo'')"

definition is_two_sub :: "jsval \<Rightarrow> bool" where
  "is_two_sub result = (isSubwoofer22Mode (jget result ''mode'')
     \<or> fin_num (jget result ''applied_sub1_alignment_ms'') \<noteq> None
     \<or> fin_num (jget result ''applied_sub2_alignment_ms'') \<noteq> None)"

text \<open>Two subwoofers.\<close>

definition scorePctFromScore :: "jsval \<Rightarrow> rat option" where
  "scorePctFromScore v = map_option (\<lambda>x. x * 100) (finiteNumber v)"

definition side_score_pct :: "jsval \<Rightarrow> string \<Rightarrow> string \<Rightarrow> string \<Rightarrow> rat option" where
  "side_score_pct result winnerKey pctKey scoreKey = first_some
     [finiteNumber (jget (obj_of (jget result ''winner'')) winnerKey), finiteNumber (jget result pctKey),
      scorePctFromScore (jget result scoreKey)]"

definition overall_score_pct :: "jsval \<Rightarrow> rat option \<Rightarrow> rat option \<Rightarrow> rat option" where
  "overall_score_pct result left right =
     (let winner = obj_of (jget result ''winner'') in first_some
        [finiteNumber (jget winner ''overall_score_pct''), finiteNumber (jget result ''overall_score_pct''),
         scorePctFromScore (jget winner ''overall_score''), scorePctFromScore (jget result ''overall_score''),
         (case (left, right) of (Some l, Some r) \<Rightarrow> Some (3 / 5 * min l r + 2 / 5 * ((l + r) / 2)) | _ \<Rightarrow> None)])"

definition alignment_text :: "jsval \<Rightarrow> string \<Rightarrow> string \<Rightarrow> string" where
  "alignment_text result appliedKey originalKey =
     fixed_or 2 ''?'' (fin_num (jget result appliedKey)) @ '' ms (was ''
     @ fixed_or 2 ''?'' (fin_num (jget result originalKey)) @ '' ms)''"

definition scan_part :: "string \<Rightarrow> jsval \<Rightarrow> string list" where
  "scan_part label scan = (case fin_num (jget scan ''delay_ms'') of
     None \<Rightarrow> []
   | Some delay \<Rightarrow> [label @ '' scan '' @ to_fixed 2 delay @ '' ms''
       @ (case fin_num (jget scan ''score_pct'') of None \<Rightarrow> [] | Some pct \<Rightarrow> '' ('' @ to_fixed 1 pct @ '' %)'')])"

definition delays_part :: "jsval \<Rightarrow> string list" where
  "delays_part result =
     (case (fin_num (jget result ''derived_main_delay_ms''), fin_num (jget result ''derived_sub1_delay_ms''),
            fin_num (jget result ''derived_sub2_delay_ms'')) of
        (Some m, Some a, Some b) \<Rightarrow> [''Output delays: Main '' @ to_fixed 2 m @ '' ms / Sub 1 '' @ to_fixed 2 a
            @ '' ms / Sub 2 '' @ to_fixed 2 b @ '' ms'']
      | _ \<Rightarrow> [])"

definition two_sub_report :: "jsval \<Rightarrow> auto_sub_report" where
  "two_sub_report result =
     (let stereo = (jget result ''mode'' = JStr ''subwoofer-2.2-stereo'');
          modeLabel = (if stereo then ''2.2 Stereo Bass'' else ''2.2'');
          left = side_score_pct result ''score_L_pct'' ''left_score_pct'' ''left_score'';
          right = side_score_pct result ''score_R_pct'' ''right_score_pct'' ''right_score'';
          score = (if stereo then overall_score_pct result left right
                   else finiteNumber (jget (obj_of (jget result ''winner'')) ''score_pct''));
          scorePart = (if stereo then ''Overall '' else ''Combined '')
             @ (case score of None \<Rightarrow> ''unavailable'' | Some s \<Rightarrow> to_fixed 1 s @ '' %'') @ lr_text left right;
          parts = scan_part ''Sub 1'' (obj_of (js_or (jget result ''sub1_coarse_winner'') (jget result ''left_winner'')))
             @ scan_part ''Sub 2'' (obj_of (js_or (jget result ''sub2_coarse_winner'') (jget result ''right_winner'')))
             @ delays_part result
      in \<lparr>reportStatus = with_detail (''Auto Sub '' @ modeLabel @ '' applied: Sub 1 ''
              @ alignment_text result ''applied_sub1_alignment_ms'' ''original_sub1_alignment_ms'' @ dot @ ''Sub 2 ''
              @ alignment_text result ''applied_sub2_alignment_ms'' ''original_sub2_alignment_ms'' @ dot @ scorePart) parts,
          reportToast = ''Auto Sub '' @ modeLabel @ '' applied'', reportKind = ''success''\<rparr>)"

text \<open>One subwoofer: what was decided.\<close>

definition original_ms :: "jsval \<Rightarrow> rat option" where
  "original_ms result = fin_num (jget result ''original_alignment_ms'')"

definition applied_ms :: "jsval \<Rightarrow> rat option" where
  "applied_ms result = fin_num (jget result ''applied_alignment_ms'')"

definition suggested_ms :: "jsval \<Rightarrow> rat option" where
  "suggested_ms result = first_some [fin_num (jget result ''suggested_alignment_ms''), applied_ms result]"

definition ALIGNMENT_STEP :: rat where "ALIGNMENT_STEP = 5 / 1000"

text \<open>The distance of two alignments, when both are numbers.\<close>

definition apart :: "rat option \<Rightarrow> rat option \<Rightarrow> (rat \<Rightarrow> bool) \<Rightarrow> bool" where
  "apart a b P = (case (a, b) of (Some x, Some y) \<Rightarrow> P \<bar>x - y\<bar> | _ \<Rightarrow> False)"

definition gateIncumbentKept :: "jsval \<Rightarrow> bool" where
  "gateIncumbentKept result =
     (jpath result [''confirmation_gate'', ''action''] = JStr ''alignment_reverted_balance_kept''
      \<and> apart (applied_ms result) (original_ms result) (\<lambda>d. d < ALIGNMENT_STEP)
      \<and> apart (suggested_ms result) (original_ms result) (\<lambda>d. ALIGNMENT_STEP \<le> d))"

definition wasApplied :: "jsval \<Rightarrow> bool" where
  "wasApplied result = (jget result ''applied'' \<noteq> JBool False)"

definition applyDecision :: "jsval \<Rightarrow> string" where
  "applyDecision result = (case jget result ''apply_decision'' of JStr d \<Rightarrow> d | _ \<Rightarrow> [])"

definition incumbentKept :: "jsval \<Rightarrow> bool" where
  "incumbentKept result = (\<not> wasApplied result
     \<and> (applyDecision result = ''not_applied_incumbent_better''
        \<or> apart (suggested_ms result) (original_ms result) (\<lambda>d. d < ALIGNMENT_STEP))
     \<and> \<not> gateIncumbentKept result)"

definition isWeak :: "jsval \<Rightarrow> bool" where
  "isWeak result = (jget result ''confidence'' = JStr ''uncertain'')"

definition NOT_APPLIED_REASONS :: "(string \<times> string) list" where
  "NOT_APPLIED_REASONS =
    [(''reverted_to_original_state'', ''final check failed, original restored''),
     (''not_applied_close_margin_below_2pp'', ''advantage too small''), (''not_applied_close_gain_below_3pp'', ''advantage too small''),
     (''not_applied_uncertain_confidence'', ''uncertain confidence''), (''applied_fine_scan_winner'', ''fine-scan winner'')]"

definition notAppliedReason :: "jsval \<Rightarrow> string" where
  "notAppliedReason result =
     (if wasApplied result \<or> incumbentKept result \<or> gateIncumbentKept result then []
      else case map_of NOT_APPLIED_REASONS (applyDecision result) of None \<Rightarrow> [] | Some r \<Rightarrow> r)"

text \<open>The outcome line.\<close>

definition scoreText :: "jsval \<Rightarrow> string \<Rightarrow> string" where
  "scoreText entry fallback = ''Score '' @ fixed_or 1 fallback (fin_num (jget entry ''score_pct'')) @ '' %''
     @ lr_text (fin_num (jget entry ''score_L_pct'')) (fin_num (jget entry ''score_R_pct''))"

definition action_text :: "jsval \<Rightarrow> string" where
  "action_text result =
     (let original = fixed_or 2 ''?'' (original_ms result);
          reason = (if isWeak result \<and> applyDecision result = ''not_applied_uncertain_confidence'' then []
                    else notAppliedReason result)
      in if wasApplied result
         then ''applied '' @ fixed_or 2 ''?'' (applied_ms result) @ '' ms (was '' @ original @ '' ms)''
         else if incumbentKept result then ''kept the current alignment: '' @ original @ '' ms''
         else ''suggested '' @ fixed_or 2 ''?'' (suggested_ms result) @ '' ms (was '' @ original @ '' ms), not applied''
              @ (if reason \<noteq> [] then '': '' @ reason else []))"

definition one_sub_outcome :: "jsval \<Rightarrow> string" where
  "one_sub_outcome result =
     (let winner = obj_of (jget result ''winner''); fineW = jget result ''fine_winner'';
          pct = fixed_or 1 ''?'' (fin_num (jget winner ''score_pct''));
          gateWinner = (if fin_num (jget fineW ''score_pct'') \<noteq> None then fineW else winner);
          scorePart = (if fin_num (jget winner ''score_L_pct'') \<noteq> None \<and> fin_num (jget winner ''score_R_pct'') \<noteq> None
                       then scoreText winner pct else ''Score '' @ pct @ '' %'')
      in if gateIncumbentKept result
         then ''Auto Sub applied '' @ fixed_or 2 ''?'' (applied_ms result) @ '' ms (was '' @ fixed_or 2 ''?'' (original_ms result)
              @ '' ms). Suggested '' @ fixed_or 2 ''?'' (suggested_ms result) @ '' ms ('' @ scoreText gateWinner pct
              @ '') was rejected by the local-dip check.''
         else if isWeak result
         then ''Auto Sub result weak: '' @ action_text result @ dot @ scorePart @ ''. Check with a normal sweep.''
         else ''Auto Sub '' @ action_text result @ dot @ scorePart)"

definition delay_score :: "jsval \<Rightarrow> string" where
  "delay_score entry = fixed_or 2 ''?'' (fin_num (jget entry ''delay_ms'')) @ '' ms (''
     @ fixed_or 1 ''?'' (fin_num (jget entry ''score_pct'')) @ '' %)''"

definition one_sub_parts :: "jsval \<Rightarrow> string list" where
  "one_sub_parts result =
     (let conf = js_or (jget result ''confidence'') (JStr ''unknown''); fineScan = obj_of (jget result ''fine_scan'')
      in (if conf \<in> {JStr ''clear'', JStr ''close'', JStr ''uncertain''} then [''Confidence '' @ to_str conf] else [])
         @ (if truthy (jget fineScan ''triggered'') \<and> jget fineScan ''status'' = JStr ''completed''
            then (''Coarse '' @ delay_score (obj_of (jget result ''coarse_winner'')))
                 # (if truthy (jget result ''fine_winner'') then [''Fine '' @ delay_score (jget result ''fine_winner'')] else [])
            else if truthy (jget result ''runner_up'') then [''Runner-up '' @ delay_score (jget result ''runner_up'')] else []))"

definition one_sub_report :: "jsval \<Rightarrow> auto_sub_report" where
  "one_sub_report result =
     \<lparr>reportStatus = with_detail (one_sub_outcome result) (one_sub_parts result),
      reportToast = (if isWeak result then ''Auto Sub result weak'' else if wasApplied result then ''Auto Sub applied''
        else if incumbentKept result then ''Auto Sub kept the current alignment'' else ''Auto Sub result not applied''),
      reportKind = (if isWeak result then ''error'' else if wasApplied result then ''success'' else ''warning'')\<rparr>"

definition auto_sub_report_of :: "jsval \<Rightarrow> auto_sub_report" where
  "auto_sub_report_of result = (if is_two_sub result then two_sub_report result else one_sub_report result)"

text \<open>The measurements of a result that can be drawn, baseline first.\<close>

definition drawable_measurements :: "jsval \<Rightarrow> jsval list" where
  "drawable_measurements result = filter (\<lambda>m. truthy m \<and> arr_items (jget m ''traces'') \<noteq> [])
     [jget result ''baseline_measurement'', jget result ''confirmation_measurement'']"

subsection \<open>What is announced\<close>

text \<open>
  The side scores of a result with two subwoofers: a side the backend marks as not scored (\<open>null\<close>)
  reads as 0 percent, because \<open>Number(null)\<close> is 0 and the fallbacks are never reached.
\<close>

lemma unscored_side_reads_zero:
  assumes "jget (jget result ''winner'') ''score_R_pct'' = JNull" "truthy (jget result ''winner'')"
  shows "side_score_pct result ''score_R_pct'' ''right_score_pct'' ''right_score'' = Some 0"
  using assms by (simp add: side_score_pct_def obj_of_def js_or_def finiteNumber_def)

text \<open>A result with two subwoofers is announced as applied also when the backend restored the original state.\<close>

lemma restored_two_subs_read_as_applied:
  assumes "jget result ''mode'' = JStr ''subwoofer-2.2''" "jget result ''applied'' = JBool False"
  shows "reportToast (auto_sub_report_of result) = ''Auto Sub 2.2 applied'' \<and> reportKind (auto_sub_report_of result) = ''success''"
  using assms by (simp add: auto_sub_report_of_def is_two_sub_def isSubwoofer22Mode_def two_sub_report_def Let_def)

end
