(* ===== verification/Speaker_Align.thy ===== *)
theory Speaker_Align
  imports Auto_Sub_Result "HOL-Library.Multiset"
begin

section \<open>Speaker Align: requests, status texts and the timing view\<close>

text \<open>
  The helpers of static/speaker_align.js and the two functions of static/measurement_flows.js that
  call them with the page's settings: the request of a run, when the section is offered, the outcome
  sentence, the takes of a result, and the timing lanes of the impulse view. The HTML of the result
  table, the axis ticks and the hover text are left out.
\<close>

definition trimmed :: "jsval \<Rightarrow> string" where
  "trimmed v = (if nullish v then [] else trim (to_str v))"

definition numberOrNaN :: "jsval \<Rightarrow> jsnum" where
  "numberOrNaN v = (if nullish v \<or> v = JStr [] then NaN else to_num v)"

definition finite_of :: "jsval \<Rightarrow> rat option" where
  "finite_of v = (case numberOrNaN v of Fin r \<Rightarrow> Some r | _ \<Rightarrow> None)"

subsection \<open>The request\<close>

text \<open>What the page has selected; \<open>alignPosition\<close> is the id made of the side and the time.\<close>

record align_setup =
  alignInput :: jsval
  alignMic :: jsval
  alignReference :: jsval
  alignReferenceLeft :: jsval
  alignReferenceRight :: jsval
  alignSplit :: bool
  alignReferenceWarning :: bool
  alignPosition :: string

definition defaultReferenceId :: "jsval \<Rightarrow> jsval \<Rightarrow> string" where
  "defaultReferenceId inputId referenceChannel =
     (if trimmed referenceChannel = [] then ''fxroute_dsp_sink.monitor''
      else or_default (trimmed inputId) ''mic'' @ '':ch'' @ or_default (trimmed referenceChannel) ''2'' @ '':upstream'')"

definition buildSpeakerAlignPayload :: "string \<Rightarrow> jsval \<Rightarrow> jsval \<Rightarrow> jsval \<Rightarrow> jsval \<Rightarrow> jsval \<Rightarrow> string \<Rightarrow> string \<Rightarrow> string + jsval" where
  "buildSpeakerAlignPayload side inputId micChannel referenceChannel referenceLeft referenceRight referenceId position =
     (if trim side \<noteq> ''left'' \<and> trim side \<noteq> ''right'' then Inl ''Speaker Align side must be left or right''
      else if trimmed inputId = [] then Inl ''Speaker Align requires a capture input id''
      else if trim referenceId = [] then Inl ''Speaker Align requires an upstream reference identity''
      else if trim position = [] then Inl ''Speaker Align requires a microphone position identity''
      else Inr (JObj [(''side'', JStr (trim side)), (''input_id'', JStr (trimmed inputId)),
        (''mic_input_channel'', JStr (or_default (trimmed micChannel) ''1'')),
        (''reference_input_channel'', JStr (trimmed referenceChannel)),
        (''reference_input_channel_left'', JStr (trimmed referenceLeft)),
        (''reference_input_channel_right'', JStr (trimmed referenceRight)),
        (''reference_id'', JStr (trim referenceId)), (''microphone_position_id'', JStr (trim position)),
        (''dry_run'', JBool False)]))"

definition readSpeakerAlignPayload :: "align_setup \<Rightarrow> string \<Rightarrow> string + jsval" where
  "readSpeakerAlignPayload su side =
     (let channel = (if alignReferenceWarning su then JStr [] else js_or (alignReference su) (JStr []));
          left = (if alignSplit su then js_or (alignReferenceLeft su) (JStr []) else JStr []);
          right = (if alignSplit su then js_or (alignReferenceRight su) (JStr []) else JStr []);
          sideChannel = (if alignSplit su \<and> (truthy left \<or> truthy right)
                         then (if side = ''right'' then right else left) else channel)
      in buildSpeakerAlignPayload side (alignInput su) (js_or (alignMic su) (JStr ''1'')) channel left right
           (defaultReferenceId (alignInput su) sideChannel) (alignPosition su))"

subsection \<open>When it is offered\<close>

definition filter_on :: "jsval \<Rightarrow> string \<Rightarrow> bool" where
  "filter_on settings kind = (Fin 0 < to_num (jpath settings [kind, ''frequency_hz'']))"

definition way_configured :: "jsval \<Rightarrow> nat \<Rightarrow> nat \<Rightarrow> jsval \<Rightarrow> bool" where
  "way_configured modeConfig n index role =
     (let settings = jget (jget modeConfig ''processing'') (to_str role) in
      truthy settings \<and> (index = 0 \<or> filter_on settings ''highpass'') \<and> (index = n - 1 \<or> filter_on settings ''lowpass''))"

definition side_configured :: "jsval \<Rightarrow> string \<Rightarrow> bool" where
  "side_configured modeConfig key =
     (let topology = jget modeConfig ''topology''; roles = jget topology key in
      is_arr roles \<and> to_num (js_or (jget topology ''way_count'') (JNum (Fin 0))) = Fin (of_nat (length (arr_items roles)))
      \<and> list_all (\<lambda>(i, role). way_configured modeConfig (length (arr_items roles)) i role) (List.enumerate 0 (arr_items roles)))"

definition speakerAlignVisible :: "jsval \<Rightarrow> bool" where
  "speakerAlignVisible catalog =
     (let modeConfig = jget (jget catalog ''modes'') (to_str (jget catalog ''active_mode''));
          topology = jget modeConfig ''topology'' in
      truthy_object catalog \<and> jget catalog ''active_mode'' \<noteq> JStr ''surround''
      \<and> truthy (jget modeConfig ''crossover_enabled'') \<and> jget modeConfig ''selected_bank'' = JStr ''global''
      \<and> to_num (js_or (jget topology ''way_count'') (JNum (Fin 0))) \<in> {Fin 2, Fin 3, Fin 4}
      \<and> jget topology ''issues'' = JArr []
      \<and> side_configured modeConfig ''left_ways'' \<and> side_configured modeConfig ''right_ways'')"

subsection \<open>The outcome sentence\<close>

fun after_colon :: "string \<Rightarrow> string option" where
  "after_colon [] = None"
| "after_colon (c # s) = (if c = CHR '':'' \<and> starts_with s '' '' then Some (tl s) else after_colon s)"

definition plainReasons :: "jsval \<Rightarrow> string list" where
  "plainReasons l = List.map (\<lambda>t. case after_colon t of None \<Rightarrow> t | Some r \<Rightarrow> r)
     (filter (\<lambda>t. t \<noteq> []) (List.map trimmed (arr_items l)))"

definition speakerSideLabel :: "string \<Rightarrow> string" where
  "speakerSideLabel side = (if side = ''right'' then ''Right'' else ''Left'')"

definition strip_align_failed :: "string \<Rightarrow> string" where
  "strip_align_failed m =
     (if starts_with (lower_case m) ''speaker alignment failed:'' then trim (drop 25 m) else m)"

definition formatSpeakerAlignStatus :: "jsval \<Rightarrow> string" where
  "formatSpeakerAlignStatus record =
     (let side = trimmed (jget record ''side'');
          name = (if side = ''left'' \<or> side = ''right'' then ''Speaker Align '' @ speakerSideLabel side else ''Speaker Align'');
          status = or_default (trimmed (jget record ''status'')) ''unknown'';
          result = obj_of (jget record ''result'');
          warnings = plainReasons (jpath result [''check'', ''warnings'']);
          reasons = plainReasons (jpath result [''check'', ''reasons'']);
          note = (if warnings \<noteq> [] then '' Note: '' @ join_with ''; '' warnings @ ''.'' else []);
          failure = or_default (trimmed (jget record ''error'')) (strip_align_failed (trimmed (jget record ''message'')))
      in if status = ''committed'' then name @ '' verified and applied.'' @ note
         else if status = ''trial-done''
         then name @ (if jget result ''confirmed'' = JBool True then '' trial verified; nothing applied.''
                      else '' trial not verified; nothing changed.'') @ note
         else if status = ''unconfirmed''
         then name @ '' not verified'' @ (if reasons \<noteq> [] then '': '' @ join_with ''; '' reasons else [])
              @ ''. Previous delays kept.'' @ note
         else if status = ''failed'' then (if failure \<noteq> [] then name @ '' failed: '' @ failure else name @ '' failed.'')
         else if status = ''cancelled'' \<or> status = ''cancelling'' then name @ '' cancelled.''
         else or_default (trimmed (jget record ''message'')) (name @ '': '' @ status @ ''.''))"

definition speakerAlignProgressText :: "jsval \<Rightarrow> string" where
  "speakerAlignProgressText job =
     (let status = str_or_empty (jget job ''status'') in
      if status = ''cancelling'' then cancelling
      else if status = ''queued'' then ''Starting'' @ ellipsis
      else to_str (js_or (jget job ''message'') (JStr (''Running'' @ ellipsis))))"

subsection \<open>Takes and the timing view\<close>

definition takeMeasurements :: "jsval \<Rightarrow> jsval list" where
  "takeMeasurements result =
     filter (\<lambda>m. truthy_object m \<and> arr_items (jget m ''traces'') \<noteq> [])
       (List.map (jget (jget result ''measurements'')) [''before'', ''after''])"

definition alignWayKey :: "string \<Rightarrow> string" where
  "alignWayKey role = (if starts_with role ''left_'' then drop 5 role else if starts_with role ''right_'' then drop 6 role else role)"

definition WAY_LABELS :: "(string \<times> string) list" where
  "WAY_LABELS = [(''low'', ''Low''), (''low_mid'', ''Low-Mid''), (''mid'', ''Mid''), (''high'', ''High'')]"

definition alignWayLabel :: "string \<Rightarrow> string" where
  "alignWayLabel role = (case map_of WAY_LABELS (alignWayKey role) of None \<Rightarrow> ''Way'' | Some l \<Rightarrow> l)"

definition WAY_COLORS :: "(string \<times> string) list" where
  "WAY_COLORS = [(''low'', ''#60a5fa''), (''low_mid'', ''#a78bfa''), (''mid'', ''#f472b6''), (''high'', ''#f59e0b'')]"

definition alignWayColor :: "string \<Rightarrow> string" where
  "alignWayColor role = (case map_of WAY_COLORS (alignWayKey role) of None \<Rightarrow> ''#e5e7eb'' | Some l \<Rightarrow> l)"

definition finite_point :: "jsval \<Rightarrow> (rat \<times> rat) option" where
  "finite_point p = (case arr_items p of
     [x, y] \<Rightarrow> (case (finite_of x, finite_of y) of (Some a, Some b) \<Rightarrow> Some (a, b) | _ \<Rightarrow> None)
   | _ \<Rightarrow> None)"

definition finitePoints :: "jsval \<Rightarrow> (rat \<times> rat) list" where
  "finitePoints points = List.map_filter finite_point (arr_items points)"

record timeline_way =
  wayRole :: string
  wayName :: string
  wayTint :: string
  arrivalMs :: rat
  wayPoints :: "(rat \<times> rat) list"

record timeline =
  referenceRole :: string
  timelineWays :: "timeline_way list"
  fullBand :: "(rat \<times> rat) list"

definition timeline_way_of :: "jsval \<Rightarrow> string \<Rightarrow> timeline_way option" where
  "timeline_way_of line role = map_option (\<lambda>a. \<lparr>wayRole = role, wayName = alignWayLabel role, wayTint = alignWayColor role,
     arrivalMs = a, wayPoints = finitePoints (jget (jget line ''ways'') role)\<rparr>)
     (finite_of (jget (jget line ''arrival_ms'') role))"

definition takeTimeline :: "jsval \<Rightarrow> timeline option" where
  "takeTimeline m =
     (let line = jpath m [''analysis'', ''speaker_align_timeline''];
          ways = List.map_filter (timeline_way_of line) (own_keys (jget line ''ways''))
      in if \<not> truthy line \<or> jget line ''schema'' \<noteq> JStr ''fxroute.speaker-align-timeline.v1'' then None
         else if length ways < 2 \<or> \<not> list_ex (\<lambda>w. jget line ''reference_role'' = JStr (wayRole w)) ways then None
         else Some \<lparr>referenceRole = to_str (jget line ''reference_role''), timelineWays = ways,
                    fullBand = finitePoints (jget line ''full_band'')\<rparr>)"

record lane =
  laneTimeline :: timeline
  laneAfter :: bool
  laneLabel :: string
  laneColor :: string
  laneSide :: string
  laneCurrent :: bool
  spreadMs :: rat

definition list_min :: "rat \<Rightarrow> rat list \<Rightarrow> rat" where "list_min x xs = fold min xs x"

definition list_max :: "rat \<Rightarrow> rat list \<Rightarrow> rat" where "list_max x xs = fold max xs x"

definition arrivals :: "timeline \<Rightarrow> rat list" where
  "arrivals t = List.map arrivalMs (timelineWays t)"

definition lane_of :: "jsval \<Rightarrow> lane option" where
  "lane_of entry =
     (case takeTimeline entry of None \<Rightarrow> None
      | Some t \<Rightarrow>
          (let after = (jpath entry [''speaker_align_take'', ''take''] = JStr ''after'');
               side = (if jpath entry [''speaker_align_take'', ''side''] = JStr ''right'' then ''Right'' else ''Left'');
               current = truthy (jget entry ''current'')
           in Some \<lparr>laneTimeline = t, laneAfter = after,
                laneLabel = side @ dot @ (if after then ''After'' else ''Before'') @ (if current then [] else '' (saved)''),
                laneColor = str_or_empty (jget entry ''graphColor''), laneSide = side, laneCurrent = current,
                spreadMs = list_max (hd (arrivals t)) (tl (arrivals t)) - list_min (hd (arrivals t)) (tl (arrivals t))\<rparr>))"

text \<open>Within a pair, Before goes on top.\<close>

fun pair_lanes :: "lane list \<Rightarrow> lane list" where
  "pair_lanes (a # b # ls) =
     (if laneAfter a \<and> \<not> laneAfter b \<and> laneSide a = laneSide b \<and> laneCurrent a = laneCurrent b
      then b # a # pair_lanes ls else a # pair_lanes (b # ls))"
| "pair_lanes ls = ls"

record timing_view =
  viewLanes :: "lane list"
  minMs :: rat
  maxMs :: rat

definition view_of :: "lane list \<Rightarrow> timing_view" where
  "view_of lanes =
     (let all = concat (List.map (\<lambda>l. arrivals (laneTimeline l)) lanes);
          earliest = list_min 0 all; latest = list_max 0 all; span = latest - earliest
      in \<lparr>viewLanes = lanes, minMs = earliest - max 1 (span / 2), maxMs = latest + max 2 (span * 3 / 4)\<rparr>)"

definition timelineView :: "jsval list \<Rightarrow> timing_view option" where
  "timelineView entries =
     (let lanes = List.map_filter lane_of entries in if lanes = [] then None else Some (view_of (pair_lanes lanes)))"

definition irParts :: "jsval list \<Rightarrow> timing_view option \<times> jsval list" where
  "irParts entries = (timelineView entries, filter (\<lambda>e. takeTimeline e = None) entries)"

subsection \<open>The timing view shows every take\<close>

lemma list_min_le: "list_min x xs \<le> x \<and> (\<forall>y \<in> set xs. list_min x xs \<le> y)"
  unfolding list_min_def by (induction xs arbitrary: x) (force simp: min_def)+

lemma list_max_ge: "x \<le> list_max x xs \<and> (\<forall>y \<in> set xs. y \<le> list_max x xs)"
  unfolding list_max_def by (induction xs arbitrary: x) (force simp: max_def)+

lemma pair_lanes_mset: "mset (pair_lanes ls) = mset ls"
  by (induction ls rule: pair_lanes.induct) auto

lemma mset_map_filter: "mset (List.map_filter f xs) = image_mset (\<lambda>x. the (f x)) (filter_mset (\<lambda>x. f x \<noteq> None) (mset xs))"
  by (induction xs) (auto simp: List.map_filter_simps split: option.split)

lemma view_lanes [simp]: "viewLanes (view_of ls) = ls"
  by (simp add: view_of_def Let_def)

lemma view_bounds:
  assumes "l \<in> set ls" "a \<in> set (0 # arrivals (laneTimeline l))"
  shows "minMs (view_of ls) + 1 \<le> a \<and> a + 2 \<le> maxMs (view_of ls)"
proof -
  let ?all = "concat (List.map (\<lambda>l. arrivals (laneTimeline l)) ls)"
  have "a \<in> set (0 # ?all)" using assms by auto
  then have "list_min 0 ?all \<le> a" "a \<le> list_max 0 ?all"
    using list_min_le [of 0 ?all] list_max_ge [of 0 ?all] by auto
  moreover have "minMs (view_of ls) \<le> list_min 0 ?all - 1" "list_max 0 ?all + 2 \<le> maxMs (view_of ls)"
    by (simp_all add: view_of_def Let_def)
  ultimately show ?thesis by linarith
qed

text \<open>C32: The impulse view shows every entry in exactly one of its two parts, decided by the entry alone,
  and the timing part shows everything it has on one axis: its lanes are those of the entries that
  carry a timeline, each once, and on the common axis every arrival of every lane, and the reference
  zero, lies at least 1 ms from the left and 2 ms from the right end.\<close>

theorem timing_view_shows_every_take:
  "snd (irParts entries) = filter (\<lambda>e. lane_of e = None) entries
   \<and> (case fst (irParts entries) of
        None \<Rightarrow> snd (irParts entries) = entries
      | Some v \<Rightarrow> mset (viewLanes v) = image_mset (\<lambda>e. the (lane_of e)) (filter_mset (\<lambda>e. lane_of e \<noteq> None) (mset entries))
          \<and> (\<forall>l \<in> set (viewLanes v). \<forall>a \<in> set (0 # arrivals (laneTimeline l)). minMs v + 1 \<le> a \<and> a + 2 \<le> maxMs v))"
proof (intro conjI)
  have none: "(lane_of e = None) = (takeTimeline e = None)" for e
    by (simp add: lane_of_def Let_def split: option.split)
  then show parts: "snd (irParts entries) = filter (\<lambda>e. lane_of e = None) entries"
    by (simp add: irParts_def)
  let ?lanes = "List.map_filter lane_of entries"
  show "case fst (irParts entries) of
        None \<Rightarrow> snd (irParts entries) = entries
      | Some v \<Rightarrow> mset (viewLanes v) = image_mset (\<lambda>e. the (lane_of e)) (filter_mset (\<lambda>e. lane_of e \<noteq> None) (mset entries))
          \<and> (\<forall>l \<in> set (viewLanes v). \<forall>a \<in> set (0 # arrivals (laneTimeline l)). minMs v + 1 \<le> a \<and> a + 2 \<le> maxMs v)"
  proof (cases "?lanes = []")
    case True
    then have "\<forall>e \<in> set entries. lane_of e = None"
      by (induction entries) (auto simp: List.map_filter_simps split: option.splits)
    then have "snd (irParts entries) = entries" unfolding parts by (simp add: filter_id_conv)
    with True show ?thesis by (simp add: irParts_def timelineView_def)
  next
    case False
    have "\<forall>l \<in> set (pair_lanes ?lanes). \<forall>a \<in> set (0 # arrivals (laneTimeline l)).
        minMs (view_of (pair_lanes ?lanes)) + 1 \<le> a \<and> a + 2 \<le> maxMs (view_of (pair_lanes ?lanes))"
      using view_bounds by blast
    with False show ?thesis by (simp add: irParts_def timelineView_def mset_map_filter pair_lanes_mset)
  qed
qed

definition align_take :: "string \<Rightarrow> rat \<Rightarrow> jsval" where
  "align_take t late = JObj
     [(''speaker_align_take'', JObj [(''take'', JStr t), (''side'', JStr ''left'')]),
      (''analysis'', JObj [(''speaker_align_timeline'', JObj
         [(''schema'', JStr ''fxroute.speaker-align-timeline.v1''), (''reference_role'', JStr ''left_low''),
          (''arrival_ms'', JObj [(''left_low'', JNum (Fin 0)), (''left_high'', JNum (Fin late))]),
          (''ways'', JObj [(''left_low'', JArr []), (''left_high'', JArr [])])])])]"

definition before_and_after :: "jsval list" where
  "before_and_after = [align_take ''after'' (1 / 10), JObj [], align_take ''before'' (- 2)]"

theorem timing_view_shows_every_take_witness:
  "\<exists>v. fst (irParts before_and_after) = Some v \<and> List.map laneAfter (viewLanes v) = [False, True]
     \<and> snd (irParts before_and_after) = [JObj []] \<and> minMs v + 1 \<le> - 2"
proof -
  have some: "fst (irParts before_and_after) \<noteq> None" by code_simp
  then obtain v where v: "fst (irParts before_and_after) = Some v" by blast
  have lanes: "map_option (\<lambda>v. List.map laneAfter (viewLanes v)) (fst (irParts before_and_after)) = Some [False, True]"
    and late: "map_option (\<lambda>v. list_ex (\<lambda>l. - 2 \<in> set (arrivals (laneTimeline l))) (viewLanes v)) (fst (irParts before_and_after)) = Some True"
    and rest: "snd (irParts before_and_after) = [JObj []]"
    by code_simp+
  obtain l where "l \<in> set (viewLanes v)" "- 2 \<in> set (0 # arrivals (laneTimeline l))"
    using late v by (auto simp: list_ex_iff)
  then have "minMs v + 1 \<le> - 2"
    using timing_view_shows_every_take [of before_and_after] v by (metis (no_types, lifting) option.simps(5))
  with v lanes rest show ?thesis by auto
qed

end
