(* ===== verification/Align_Flows.thy ===== *)
theory Align_Flows
  imports Speaker_Align
begin

section \<open>Auto Sub and Speaker Align runs\<close>

text \<open>
  The runs of static/measurement_flows.js that hand a whole procedure to the backend and watch it:
  Auto Sub (also recovered after a reload or a reconnect) and Speaker Align. Both share the page's
  measurement state \<open>meas\<close> with the sweeps of \<open>Measurement_Job\<close>. Every asynchronous call that waits
  is a task; the place where it waits is its stage. Time is a millisecond clock that every answer
  advances. The fields of the request forms and the rendering are left out.
\<close>

subsection \<open>State\<close>

datatype flow = AutoSub | Align string

text \<open>What a watching loop keeps: the job, its generation, when it began, the failures in a row and the side.\<close>

record watch =
  watchJob :: string
  watchGen :: nat
  watchStarted :: nat
  watchErrors :: nat
  watchSide :: string

text \<open>A sleep carries the time before which it does not end.\<close>

datatype flow_stage =
    FlowFlush
  | FlowSnapshot
  | FlowStart
  | FlowCancelFirst string string
  | FlowSleep watch nat
  | FlowPoll watch
  | FlowAbandon watch string

text \<open>A run of this page, a recovered one (with its job and generation), the search for one, a cancellation.\<close>

datatype flow_task =
    OwnRun flow flow_stage
  | RecoveredRun string nat flow_stage
  | Discover nat
  | CancelRequest flow string string

record flow_page =
  fm :: meas
  autoSubJobId :: string
  autoSubCancelRequested :: bool
  autoSubResult :: jsval
  autoSubRecoveryPending :: bool
  lastAutoSubHandledJobId :: string
  speakerAlignJobId :: string
  speakerAlignCancelRequested :: bool
  speakerAlignResult :: jsval
  speakerAlignResults :: jsval
  flowTasks :: "(nat \<times> flow_task) list"
  flowNext :: nat
  flowClock :: nat
  flowToasts :: "(string \<times> string) list"

definition init_flows :: flow_page where
  "init_flows = \<lparr>fm = init_meas, autoSubJobId = [], autoSubCancelRequested = False, autoSubResult = JNull,
     autoSubRecoveryPending = False, lastAutoSubHandledJobId = [], speakerAlignJobId = [],
     speakerAlignCancelRequested = False, speakerAlignResult = JNull, speakerAlignResults = JNull,
     flowTasks = [], flowNext = 0, flowClock = 0, flowToasts = []\<rparr>"

definition on_fm :: "(meas \<Rightarrow> meas) \<Rightarrow> flow_page \<Rightarrow> flow_page" where
  "on_fm f s = s\<lparr>fm := f (fm s)\<rparr>"

definition status_line :: "string \<Rightarrow> flow_page \<Rightarrow> flow_page" where
  "status_line t = on_fm (\<lambda>m. m\<lparr>statusText := t\<rparr>)"

definition flow_toast :: "string \<Rightarrow> string \<Rightarrow> flow_page \<Rightarrow> flow_page" where
  "flow_toast t kind s = s\<lparr>flowToasts := (t, kind) # flowToasts s\<rparr>"

definition flow_wait :: "nat \<Rightarrow> flow_task \<Rightarrow> flow_page \<Rightarrow> flow_page" where
  "flow_wait i t s = s\<lparr>flowTasks := (i, t) # filter (\<lambda>x. fst x \<noteq> i) (flowTasks s)\<rparr>"

definition flow_done :: "nat \<Rightarrow> flow_page \<Rightarrow> flow_page" where
  "flow_done i s = s\<lparr>flowTasks := filter (\<lambda>x. fst x \<noteq> i) (flowTasks s)\<rparr>"

definition flow_spawn :: "flow_task \<Rightarrow> flow_page \<Rightarrow> flow_page" where
  "flow_spawn t s = flow_wait (flowNext s) t (s\<lparr>flowNext := flowNext s + 1\<rparr>)"

subsection \<open>Progress lines\<close>

definition flow_kind :: "flow \<Rightarrow> string" where
  "flow_kind f = (case f of AutoSub \<Rightarrow> ''auto_sub'' | Align side \<Rightarrow> ''speaker_align'')"

definition progressFor :: "string \<Rightarrow> meas \<Rightarrow> string" where
  "progressFor k m = (if progressKind m = k then progressText m else [])"

definition set_progress :: "string \<Rightarrow> string \<Rightarrow> meas \<Rightarrow> meas" where
  "set_progress k t m = m\<lparr>progressKind := k, progressText := t\<rparr>"

definition clear_progress :: "string \<Rightarrow> meas \<Rightarrow> meas" where
  "clear_progress k m = (if progressKind m = k then m\<lparr>progressKind := [], progressText := []\<rparr> else m)"

subsection \<open>The two flows side by side\<close>

text \<open>The fields that exist once per flow.\<close>

definition flow_job :: "flow \<Rightarrow> flow_page \<Rightarrow> string" where
  "flow_job f s = (case f of AutoSub \<Rightarrow> autoSubJobId s | Align side \<Rightarrow> speakerAlignJobId s)"

definition set_flow_job :: "flow \<Rightarrow> string \<Rightarrow> flow_page \<Rightarrow> flow_page" where
  "set_flow_job f j s = (case f of AutoSub \<Rightarrow> s\<lparr>autoSubJobId := j\<rparr> | Align side \<Rightarrow> s\<lparr>speakerAlignJobId := j\<rparr>)"

definition flow_cancelling :: "flow \<Rightarrow> flow_page \<Rightarrow> bool" where
  "flow_cancelling f s = (case f of AutoSub \<Rightarrow> autoSubCancelRequested s | Align side \<Rightarrow> speakerAlignCancelRequested s)"

definition set_flow_cancelling :: "flow \<Rightarrow> bool \<Rightarrow> flow_page \<Rightarrow> flow_page" where
  "set_flow_cancelling f b s =
     (case f of AutoSub \<Rightarrow> s\<lparr>autoSubCancelRequested := b\<rparr> | Align side \<Rightarrow> s\<lparr>speakerAlignCancelRequested := b\<rparr>)"

definition flow_in_flight :: "flow \<Rightarrow> meas \<Rightarrow> bool" where
  "flow_in_flight f m = (case f of AutoSub \<Rightarrow> autoSubInFlight m | Align side \<Rightarrow> speakerAlignInFlight m)"

definition set_in_flight :: "flow \<Rightarrow> bool \<Rightarrow> meas \<Rightarrow> meas" where
  "set_in_flight f b m = (case f of AutoSub \<Rightarrow> m\<lparr>autoSubInFlight := b\<rparr> | Align side \<Rightarrow> m\<lparr>speakerAlignInFlight := b\<rparr>)"

definition job_progress :: "flow \<Rightarrow> jsval \<Rightarrow> string" where
  "job_progress f job = (case f of AutoSub \<Rightarrow> autoSubProgressText job | Align side \<Rightarrow> speakerAlignProgressText job)"

definition flow_name :: "flow \<Rightarrow> string" where
  "flow_name f = (case f of AutoSub \<Rightarrow> ''Auto Sub'' | Align side \<Rightarrow> ''Speaker Align '' @ speakerSideLabel side)"

text \<open>\<open>isCurrentAutoSubPoll\<close> and \<open>isCurrentSpeakerAlignPoll\<close>.\<close>

definition flow_current :: "flow \<Rightarrow> string \<Rightarrow> nat \<Rightarrow> flow_page \<Rightarrow> bool" where
  "flow_current f job gen s =
     (jobGeneration (fm s) = gen \<and> flow_job f s = job
      \<and> (activeMeasurementKind (fm s) = flow_kind f \<or> (f \<noteq> AutoSub \<and> flow_in_flight f (fm s))))"

text \<open>The assignments every end of a run makes (the \<open>finally\<close> blocks).\<close>

definition flow_released :: "flow \<Rightarrow> flow_page \<Rightarrow> flow_page" where
  "flow_released f s = set_flow_cancelling f False (set_flow_job f []
     (on_fm (\<lambda>m. clear_progress (flow_kind f) ((set_in_flight f False m)\<lparr>activeMeasurementKind := []\<rparr>)) s))"

definition own_finally :: "flow \<Rightarrow> nat \<Rightarrow> flow_page \<Rightarrow> flow_page" where
  "own_finally f i s = flow_done i (flow_released f (on_fm (\<lambda>m. m\<lparr>startInFlight := False\<rparr>) s))"

definition recovered_finally :: "string \<Rightarrow> nat \<Rightarrow> nat \<Rightarrow> flow_page \<Rightarrow> flow_page" where
  "recovered_finally job gen i s =
     flow_done i ((if flow_current AutoSub job gen s then flow_released AutoSub s else s)\<lparr>autoSubRecoveryPending := False\<rparr>)"

text \<open>A task of a run and the end of it.\<close>

datatype runner = Own flow | Recovered string nat

definition runner_flow :: "runner \<Rightarrow> flow" where
  "runner_flow r = (case r of Own f \<Rightarrow> f | Recovered job gen \<Rightarrow> AutoSub)"

definition run_task :: "runner \<Rightarrow> flow_stage \<Rightarrow> flow_task" where
  "run_task r st = (case r of Own f \<Rightarrow> OwnRun f st | Recovered job gen \<Rightarrow> RecoveredRun job gen st)"

definition run_over :: "runner \<Rightarrow> nat \<Rightarrow> flow_page \<Rightarrow> flow_page" where
  "run_over r i s = (case r of Own f \<Rightarrow> own_finally f i s | Recovered job gen \<Rightarrow> recovered_finally job gen i s)"

text \<open>The \<open>catch\<close> block of a start.\<close>

definition start_threw :: "flow \<Rightarrow> nat \<Rightarrow> string \<Rightarrow> flow_page \<Rightarrow> flow_page" where
  "start_threw f i message s = own_finally f i
     (case f of
        AutoSub \<Rightarrow> flow_toast ''Auto Sub failed'' ''error'' (status_line (autoSubFailureText message) s)
      | Align side \<Rightarrow> flow_toast (flow_name f @ '' failed'') ''error''
          (status_line (flow_name f @ '' failed: '' @ or_default message ''unknown error'') s))"

subsection \<open>Results\<close>

definition handleAutoSubResult :: "jsval \<Rightarrow> flow_page \<Rightarrow> flow_page" where
  "handleAutoSubResult job s =
     (let result = jget job ''result'';
          dropped = on_fm (\<lambda>m. m\<lparr>autoSubMeasurements := []\<rparr>) s;
          found = drawable_measurements result; report = auto_sub_report_of result
      in if jget job ''status'' = JStr ''cancelled''
         then flow_toast ''Auto Sub cancelled'' ''success'' (status_line
                (if contains_str (lower_case (str_or_empty (jget job ''message''))) ''window was closed''
                 then ''Auto Sub cancelled: the measurement window was closed.'' else ''Auto Sub cancelled.'')
                (dropped\<lparr>autoSubResult := JNull\<rparr>))
         else if jget job ''status'' = JStr ''failed''
         then flow_toast ''Auto Sub failed'' ''error'' (status_line (autoSubFailureText (str_or_empty (jget job ''message'')))
                (dropped\<lparr>autoSubResult := JNull\<rparr>))
         else if \<not> truthy result
         then flow_toast ''Auto Sub: no result'' ''warning'' (status_line ''Auto Sub finished without a result.'' dropped)
         else flow_toast (reportToast report) (reportKind report) (on_fm (\<lambda>m. m
                \<lparr>autoSubMeasurements := (if found = [] then autoSubMeasurements m else found), currentMeasurementSaved := False,
                 currentMeasurementName := getTypedMeasurementName (typedMeasurementName m) (currentMeasurementName m),
                 statusText := reportStatus report\<rparr>) (s\<lparr>autoSubResult := result\<rparr>)))"

definition discardSpeakerAlignResults :: "flow_page \<Rightarrow> flow_page" where
  "discardSpeakerAlignResults s = s\<lparr>speakerAlignResult := JNull, speakerAlignResults := JNull\<rparr>"

definition adoptSpeakerAlignMeasurements :: "jsval \<Rightarrow> meas \<Rightarrow> meas" where
  "adoptSpeakerAlignMeasurements job m0 =
     (let pending = List.map (\<lambda>(i, e). normalizeMeasurementEntry e i) (List.enumerate 0 (takeMeasurements (jget job ''result'')))
      in if pending = [] then m0
         else (fold show_review pending (m0\<lparr>autoSubMeasurements := [], pendingRepeatMeasurements := pending,
                 currentMeasurement := hd pending,
                 currentMeasurementName := or_default (getTypedMeasurementName (typedMeasurementName m0) (currentMeasurementName m0))
                   (''Speaker Align '' @ speakerSideLabel (to_str (jget job ''side''))),
                 currentMeasurementSaved := False\<rparr>))\<lparr>graphView := ''ir''\<rparr>)"

definition handleSpeakerAlignResult :: "jsval \<Rightarrow> flow_page \<Rightarrow> flow_page" where
  "handleSpeakerAlignResult job s =
     (let name = ''Speaker Align '' @ speakerSideLabel (to_str (jget job ''side''));
          status = jget job ''status''; result = jget job ''result''; told = status_line (formatSpeakerAlignStatus job);
          confirmed = (jget result ''confirmed'' = JBool True)
      in if status = JStr ''cancelled'' \<or> status = JStr ''cancelling''
         then flow_toast (name @ '' cancelled'') ''success'' (discardSpeakerAlignResults (told s))
         else if status = JStr ''failed''
         then flow_toast (name @ '' failed'') ''error'' (discardSpeakerAlignResults (told s))
         else if \<not> truthy result
         then flow_toast (name @ '': no result'') ''warning'' (status_line (name @ '' finished without a result.'') s)
         else (if status = JStr ''committed'' then flow_toast (name @ '' applied'') ''success''
               else if status = JStr ''trial-done''
               then flow_toast (name @ (if confirmed then '' trial verified'' else '' trial not verified''))
                      (if confirmed then ''success'' else ''warning'')
               else flow_toast (name @ '' not verified'') ''warning'')
              (on_fm (adoptSpeakerAlignMeasurements job)
                (told (s\<lparr>speakerAlignResult := result,
                         speakerAlignResults := jput (to_str (jget job ''side'')) result (speakerAlignResults s)\<rparr>))))"

subsection \<open>Watching a job\<close>

definition SLEEP_MS :: nat where "SLEEP_MS = 500"

definition LONG_RUNNING_MS :: nat where "LONG_RUNNING_MS = 10 * 60 * 1000"

definition MAX_RUNNING_MS :: nat where "MAX_RUNNING_MS = 30 * 60 * 1000"

definition MAX_WATCH_ERRORS :: nat where "MAX_WATCH_ERRORS = 40"

definition TERMINAL :: "flow \<Rightarrow> string list" where
  "TERMINAL f = (case f of AutoSub \<Rightarrow> [''completed'', ''failed'', ''cancelled'']
     | Align side \<Rightarrow> [''committed'', ''trial-done'', ''unconfirmed'', ''failed'', ''cancelled''])"

definition RUNNING :: "flow \<Rightarrow> string list" where
  "RUNNING f = (case f of AutoSub \<Rightarrow> [''queued'', ''preparing'', ''running'']
     | Align side \<Rightarrow> [''queued'', ''acquiring'', ''confirming''])"

text \<open>The head of the loop.\<close>

definition watch_head :: "runner \<Rightarrow> nat \<Rightarrow> watch \<Rightarrow> flow_page \<Rightarrow> flow_page" where
  "watch_head r i w s =
     (if \<not> flow_current (runner_flow r) (watchJob w) (watchGen w) s then run_over r i s
      else flow_wait i (run_task r (FlowSleep w (flowClock s + SLEEP_MS))) s)"

definition watch_job :: "runner \<Rightarrow> nat \<Rightarrow> string \<Rightarrow> string \<Rightarrow> flow_page \<Rightarrow> flow_page" where
  "watch_job r i job side s = watch_head r i
     \<lparr>watchJob = job, watchGen = jobGeneration (fm s), watchStarted = flowClock s, watchErrors = 0, watchSide = side\<rparr> s"

text \<open>Giving up: an Auto Sub run says so, a Speaker Align run first asks the backend to stop.\<close>

definition give_up :: "runner \<Rightarrow> nat \<Rightarrow> watch \<Rightarrow> string \<Rightarrow> string \<Rightarrow> string \<Rightarrow> flow_page \<Rightarrow> flow_page" where
  "give_up r i w status toast reason s =
     (case runner_flow r of
        AutoSub \<Rightarrow> run_over r i (flow_toast toast ''error'' (status_line status s))
      | Align side \<Rightarrow> flow_wait i (run_task r (FlowAbandon w reason)) s)"

definition watch_slept :: "runner \<Rightarrow> nat \<Rightarrow> watch \<Rightarrow> flow_page \<Rightarrow> flow_page" where
  "watch_slept r i w s =
     (if MAX_RUNNING_MS \<le> flowClock s - watchStarted w
      then give_up r i w ''Auto Sub timed out waiting for the result.'' ''Auto Sub timed out'' ''timed out waiting for the result'' s
      else flow_wait i (run_task r (FlowPoll w)) s)"

definition watch_error :: "runner \<Rightarrow> nat \<Rightarrow> watch \<Rightarrow> string \<Rightarrow> flow_page \<Rightarrow> flow_page" where
  "watch_error r i w0 message s =
     (let w = w0\<lparr>watchErrors := watchErrors w0 + 1\<rparr>; reason = or_default message ''connection lost'' in
      if MAX_WATCH_ERRORS \<le> watchErrors w
      then give_up r i w (''Auto Sub interrupted: '' @ reason) ''Auto Sub interrupted'' reason s
      else watch_head r i w s)"

definition watch_gone :: "runner \<Rightarrow> nat \<Rightarrow> watch \<Rightarrow> flow_page \<Rightarrow> flow_page" where
  "watch_gone r i w s = run_over r i
     (case runner_flow r of
        AutoSub \<Rightarrow> flow_toast ''Auto Sub interrupted'' ''error''
          (status_line ''Auto Sub interrupted: the run is no longer available.'' s)
      | Align side \<Rightarrow> flow_toast ''Speaker Align interrupted'' ''error''
          (status_line (''Speaker Align '' @ speakerSideLabel (watchSide w) @ '' interrupted: the run is no longer available.'') s))"

definition show_running :: "flow \<Rightarrow> watch \<Rightarrow> jsval \<Rightarrow> flow_page \<Rightarrow> flow_page" where
  "show_running f w job s =
     (let k = flow_kind f;
          long = (LONG_RUNNING_MS \<le> flowClock s - watchStarted w \<and> jget job ''status'' \<in> JStr ` set (RUNNING f))
      in if progressFor k (fm s) = cancelling then s
         else on_fm (set_progress k ((if long then ''Still running'' @ dot else []) @ job_progress f job)) s)"

definition push_baseline :: "jsval \<Rightarrow> meas \<Rightarrow> meas" where
  "push_baseline job m =
     (if truthy (jget job ''baseline_measurement'') \<and> autoSubMeasurements m = []
      then m\<lparr>autoSubMeasurements := [jget job ''baseline_measurement''], currentMeasurementSaved := False\<rparr> else m)"

definition watch_read :: "runner \<Rightarrow> nat \<Rightarrow> watch \<Rightarrow> jsval \<Rightarrow> flow_page \<Rightarrow> flow_page" where
  "watch_read r i w0 job s0 =
     (let f = runner_flow r;
          w = w0\<lparr>watchErrors := 0, watchSide := (if f = AutoSub then watchSide w0
                   else to_str (js_or (jget job ''side'') (JStr (watchSide w0))))\<rparr>;
          s1 = show_running f w job s0; s = (if f = AutoSub then on_fm (push_baseline job) s1 else s1)
      in if jget job ''status'' \<in> JStr ` set (TERMINAL f)
         then run_over r i (if f = AutoSub then (handleAutoSubResult job s)\<lparr>lastAutoSubHandledJobId := watchJob w\<rparr>
                            else handleSpeakerAlignResult job s)
         else watch_head r i w s)"

definition watch_polled :: "runner \<Rightarrow> nat \<Rightarrow> watch \<Rightarrow> response \<Rightarrow> flow_page \<Rightarrow> flow_page" where
  "watch_polled r i w resp s =
     (if \<not> flow_current (runner_flow r) (watchJob w) (watchGen w) s then run_over r i s
      else case resp of
        NetError m \<Rightarrow> watch_error r i w m s
      | Http code body \<Rightarrow>
          (let data = json_or_empty resp in
           if \<not> resp_ok resp
           then (if gone code then watch_gone r i w s
                 else watch_error r i w (if nullish data then null_read_error data ''detail''
                        else formatTransitionErrorDetail (jget data ''detail'') ''connection lost'') s)
           else if nullish data then watch_error r i w (null_read_error data ''job'') s
           else watch_read r i w (js_or (jget data ''job'') (JObj [])) s))"

definition abandoned :: "runner \<Rightarrow> nat \<Rightarrow> watch \<Rightarrow> string \<Rightarrow> response \<Rightarrow> flow_page \<Rightarrow> flow_page" where
  "abandoned r i w reason resp s =
     (let name = ''Speaker Align '' @ speakerSideLabel (watchSide w) in
      run_over r i (flow_toast (name @ '' interrupted'') ''error'' (status_line
        (name @ '' interrupted: '' @ reason @ (if resp_ok resp then ''. The run was cancelled.'' else ''. Cancelling the run failed.''))
        (discardSpeakerAlignResults s))))"

subsection \<open>Cancelling\<close>

text \<open>Before the job is known a cancellation is only noted.\<close>

definition note_cancel :: "flow \<Rightarrow> flow_page \<Rightarrow> flow_page" where
  "note_cancel f s =
     (if flow_in_flight f (fm s)
      then set_flow_cancelling f True (on_fm (set_progress (flow_kind f) cancelling) s) else s)"

definition begin_cancel :: "flow \<Rightarrow> flow_page \<Rightarrow> flow_page" where
  "begin_cancel f s = on_fm (set_progress (flow_kind f) cancelling) s"

text \<open>\<open>cancelAutoSubOptimize\<close> and \<open>cancelSpeakerAlign\<close> as calls of their own.\<close>

definition cancel_flow :: "flow \<Rightarrow> flow_page \<Rightarrow> flow_page" where
  "cancel_flow f s =
     (if flow_job f s = [] then note_cancel f s
      else flow_spawn (CancelRequest f (flow_job f s) (progressFor (flow_kind f) (fm s))) (begin_cancel f s))"

definition cancel_failed :: "flow \<Rightarrow> string \<Rightarrow> string \<Rightarrow> flow_page \<Rightarrow> flow_page" where
  "cancel_failed f previous message s =
     flow_toast ''Cancel failed'' ''error'' (status_line
       (''Could not cancel '' @ (if f = AutoSub then ''Auto Sub'' else ''Speaker Align'') @ '': '' @ or_default message ''request failed'')
       (if flow_in_flight f (fm s) then on_fm (set_progress (flow_kind f) previous) s else s))"

definition cancel_settled :: "flow \<Rightarrow> string \<Rightarrow> response \<Rightarrow> flow_page \<Rightarrow> flow_page" where
  "cancel_settled f previous resp s =
     (case resp of
        NetError m \<Rightarrow> cancel_failed f previous m s
      | Http code body \<Rightarrow>
          (let data = json_or_empty resp in
           if resp_ok resp then s
           else cancel_failed f previous (if nullish data then null_read_error data ''detail''
                  else formatTransitionErrorDetail (jget data ''detail'') ''request rejected'') s))"

subsection \<open>Starting\<close>

definition flow_started :: "flow \<Rightarrow> nat \<Rightarrow> flow_page \<Rightarrow> flow_page" where
  "flow_started f i s =
     (if flow_job f s = [] then start_threw f i ''no job id returned'' s
      else watch_job (Own f) i (flow_job f s) (case f of AutoSub \<Rightarrow> [] | Align side \<Rightarrow> side) s)"

definition job_known :: "flow \<Rightarrow> nat \<Rightarrow> jsval \<Rightarrow> flow_page \<Rightarrow> flow_page" where
  "job_known f i job s0 =
     (let s1 = set_flow_job f (str_or_empty (jget job ''id'')) s0;
          s = (if flow_cancelling f s1 then s1 else on_fm (set_progress (flow_kind f) (job_progress f job)) s1)
      in if \<not> flow_cancelling f s then flow_started f i s
         else if flow_job f s = [] then flow_started f i (note_cancel f s)
         else flow_wait i (OwnRun f (FlowCancelFirst (flow_job f s) (progressFor (flow_kind f) (fm s)))) (begin_cancel f s))"

definition flow_start_settled :: "flow \<Rightarrow> nat \<Rightarrow> response \<Rightarrow> flow_page \<Rightarrow> flow_page" where
  "flow_start_settled f i resp s =
     (case resp of
        NetError m \<Rightarrow> start_threw f i m s
      | Http code body \<Rightarrow>
          (let data = json_or_empty resp in
           if \<not> resp_ok resp
           then start_threw f i (if nullish data then null_read_error data ''detail''
                  else formatTransitionErrorDetail (jget data ''detail'') ''could not start'') s
           else if nullish data then start_threw f i (null_read_error data ''job'') s
           else job_known f i (js_or (jget data ''job'') (JObj [])) s))"

definition NO_CAPTURE_INPUT_TEXT :: string where
  "NO_CAPTURE_INPUT_TEXT = ''No usable capture input. Select one in Setup.''"

definition no_capture :: "flow_page \<Rightarrow> flow_page" where
  "no_capture s = flow_toast ''No capture input'' ''error'' (status_line NO_CAPTURE_INPUT_TEXT s)"

text \<open>The start is claimed before the call waits for the first time.\<close>

definition claim_flow :: "flow \<Rightarrow> flow_page \<Rightarrow> flow_page" where
  "claim_flow f s =
     (let s1 = set_flow_job f [] (set_flow_cancelling f False (on_fm (\<lambda>m. set_progress (flow_kind f) (''Starting'' @ ellipsis)
                 ((set_in_flight f True m)\<lparr>startInFlight := True, activeMeasurementKind := flow_kind f, statusText := []\<rparr>)) s))
      in case f of
           AutoSub \<Rightarrow> on_fm (\<lambda>m. m\<lparr>autoSubMeasurements := []\<rparr>) (s1\<lparr>autoSubResult := JNull\<rparr>)
         | Align side \<Rightarrow> s1\<lparr>speakerAlignResult := JNull\<rparr>)"

definition startAutoSubOptimize :: "bool \<Rightarrow> flow_page \<Rightarrow> flow_page" where
  "startAutoSubOptimize ready s =
     (if autoSubInFlight (fm s) \<or> startInFlight (fm s) \<or> activeJobId (fm s) \<noteq> [] then s
      else if \<not> ready then no_capture s
      else flow_spawn (OwnRun AutoSub FlowFlush) (claim_flow AutoSub s))"

definition startSpeakerAlign :: "jsval \<Rightarrow> bool \<Rightarrow> align_setup \<Rightarrow> string \<Rightarrow> flow_page \<Rightarrow> flow_page" where
  "startSpeakerAlign catalog ready su side s =
     (if \<not> speakerAlignVisible catalog then s
      else if speakerAlignInFlight (fm s) \<or> startInFlight (fm s) \<or> activeJobId (fm s) \<noteq> [] \<or> autoSubInFlight (fm s) then s
      else if \<not> ready then no_capture s
      else case readSpeakerAlignPayload su side of
             Inl m \<Rightarrow> flow_toast (flow_name (Align side) @ '' failed'') ''error''
                        (status_line (flow_name (Align side) @ '' could not start: '' @ m) s)
           | Inr payload \<Rightarrow> flow_spawn (OwnRun (Align side) FlowSnapshot) (claim_flow (Align side) s))"

text \<open>The Auto Sub button: disabled while it can neither cancel nor start; whether a capture input is ready
  may have changed since it was rendered.\<close>

definition auto_sub_clicked :: "bool \<Rightarrow> flow_page \<Rightarrow> flow_page" where
  "auto_sub_clicked ready s =
     (if autoSubInFlight (fm s) then (if autoSubJobId s = [] then s else cancel_flow AutoSub s)
      else if startInFlight (fm s) \<or> hasActiveMeasurementJob (fm s) then s
      else startAutoSubOptimize ready s)"

subsection \<open>Recovering a run\<close>

definition recovery_blocked :: "flow_page \<Rightarrow> bool" where
  "recovery_blocked s = (autoSubInFlight (fm s) \<or> startInFlight (fm s) \<or> activeJobId (fm s) \<noteq> []
     \<or> speakerAlignInFlight (fm s) \<or> hybridRunning (fm s))"

definition recoverAutoSubJob :: "flow_page \<Rightarrow> flow_page" where
  "recoverAutoSubJob s =
     (if autoSubRecoveryPending s \<or> recovery_blocked s then s
      else flow_spawn (Discover (jobGeneration (fm s))) (s\<lparr>autoSubRecoveryPending := True\<rparr>))"

definition recovery_over :: "nat \<Rightarrow> flow_page \<Rightarrow> flow_page" where
  "recovery_over i s = flow_done i (s\<lparr>autoSubRecoveryPending := False\<rparr>)"

definition adopt_run :: "jsval \<Rightarrow> flow_page \<Rightarrow> flow_page" where
  "adopt_run job s = on_fm (\<lambda>m. set_progress ''auto_sub'' (autoSubProgressText job)
       (m\<lparr>autoSubInFlight := True, activeMeasurementKind := ''auto_sub'', autoSubMeasurements := [], statusText := []\<rparr>))
     (s\<lparr>autoSubJobId := to_str (jget job ''id''), autoSubCancelRequested := (jget job ''status'' = JStr ''cancelling''),
        autoSubResult := JNull\<rparr>)"

definition discovered :: "nat \<Rightarrow> nat \<Rightarrow> response \<Rightarrow> flow_page \<Rightarrow> flow_page" where
  "discovered gen i resp s =
     (let job = (case resp of Http code (Some data) \<Rightarrow> if resp_ok resp \<and> \<not> nullish data then jget data ''job'' else JNull | _ \<Rightarrow> JNull);
          id = to_str (jget job ''id''); r = Recovered id gen; t = adopt_run job s
      in if \<not> truthy (jget job ''id'') \<or> id = lastAutoSubHandledJobId s \<or> jobGeneration (fm s) \<noteq> gen \<or> recovery_blocked s
         then recovery_over i s
         else if jget job ''status'' \<in> JStr ` set (TERMINAL AutoSub)
         then run_over r i ((handleAutoSubResult job t)\<lparr>lastAutoSubHandledJobId := id\<rparr>)
         else watch_job r i id [] t)"

definition clearSpeakerAlignResult :: "flow_page \<Rightarrow> flow_page" where
  "clearSpeakerAlignResult s =
     (if speakerAlignInFlight (fm s) \<or> speakerAlignJobId s \<noteq> [] \<or> activeMeasurementKind (fm s) = ''speaker_align'' then s
      else discardSpeakerAlignResults s)"

subsection \<open>Steps\<close>

definition run_continues :: "runner \<Rightarrow> nat \<Rightarrow> flow_stage \<Rightarrow> job_answer \<Rightarrow> flow_page \<Rightarrow> flow_page" where
  "run_continues r i st a s =
     (let f = runner_flow r in case (st, a) of
        (FlowFlush, FlushEnded (Some m)) \<Rightarrow> start_threw f i m s
      | (FlowFlush, FlushEnded None) \<Rightarrow> flow_wait i (run_task r FlowSnapshot) s
      | (FlowSnapshot, Over) \<Rightarrow> flow_wait i (run_task r FlowStart) s
      | (FlowStart, Responded resp) \<Rightarrow> flow_start_settled f i resp s
      | (FlowCancelFirst job previous, Responded resp) \<Rightarrow> flow_started f i (cancel_settled f previous resp s)
      | (FlowSleep w wake, Over) \<Rightarrow> watch_slept r i w s
      | (FlowPoll w, Responded resp) \<Rightarrow> watch_polled r i w resp s
      | (FlowAbandon w reason, Responded resp) \<Rightarrow> abandoned r i w reason resp s
      | _ \<Rightarrow> s)"

definition flow_answered :: "nat \<Rightarrow> job_answer \<Rightarrow> flow_page \<Rightarrow> flow_page" where
  "flow_answered i a s =
     (case map_of (flowTasks s) i of
        None \<Rightarrow> s
      | Some (OwnRun f st) \<Rightarrow> run_continues (Own f) i st a s
      | Some (RecoveredRun job gen st) \<Rightarrow> run_continues (Recovered job gen) i st a s
      | Some (Discover gen) \<Rightarrow> (case a of Responded resp \<Rightarrow> discovered gen i resp s | _ \<Rightarrow> s)
      | Some (CancelRequest f job previous) \<Rightarrow>
          (case a of Responded resp \<Rightarrow> cancel_settled f previous resp (flow_done i s) | _ \<Rightarrow> s))"

text \<open>Closing the idle Advanced dialog resets the shared job of the page.\<close>

definition advanced_closed :: "flow_page \<Rightarrow> flow_page" where
  "advanced_closed s =
     (if hybridRunning (fm s) then s else on_fm (\<lambda>m. m\<lparr>activeJobId := [], activeMeasurementKind := []\<rparr>) s)"

datatype flow_event =
    AutoSubClicked bool
  | AlignClicked jsval bool align_setup string
  | AlignCancelClicked
  | CancelActive
  | RecoverAutoSub
  | PanelClosed
  | AdvancedClosed
  | FlowAnswered nat nat job_answer

fun flow_step :: "flow_event \<Rightarrow> flow_page \<Rightarrow> flow_page" where
  "flow_step (AutoSubClicked ready) s = auto_sub_clicked ready s"
| "flow_step (AlignClicked catalog ready su side) s = startSpeakerAlign catalog ready su side s"
| "flow_step AlignCancelClicked s = cancel_flow (Align []) s"
| "flow_step CancelActive s =
     (if getActiveMeasurementKind (fm s) = ''auto_sub'' then cancel_flow AutoSub s
      else if getActiveMeasurementKind (fm s) = ''speaker_align'' then cancel_flow (Align []) s else s)"
| "flow_step RecoverAutoSub s = recoverAutoSubJob s"
| "flow_step PanelClosed s = clearSpeakerAlignResult s"
| "flow_step AdvancedClosed s = advanced_closed s"
| "flow_step (FlowAnswered i ms a) s = flow_answered i a (s\<lparr>flowClock := flowClock s + ms\<rparr>)"

end
