(* ===== verification/Align_Inv.thy ===== *)
theory Align_Inv
  imports Align_Flows
begin

section \<open>One run at a time\<close>

text \<open>
  The invariant of \<open>Align_Flows\<close>: at most one run exists, its flags are held exactly as long as its
  task waits, and without a run everything is released.
\<close>

subsection \<open>Runs and the fields they own\<close>

fun as_run :: "nat \<times> flow_task \<Rightarrow> (nat \<times> runner \<times> flow_stage) option" where
  "as_run (i, OwnRun f st) = Some (i, Own f, st)"
| "as_run (i, RecoveredRun job gen st) = Some (i, Recovered job gen, st)"
| "as_run (i, t) = None"

definition runs :: "flow_page \<Rightarrow> (nat \<times> runner \<times> flow_stage) list" where
  "runs s = List.map_filter as_run (flowTasks s)"

definition meas_core :: "meas \<Rightarrow> bool \<times> bool \<times> bool \<times> string \<times> string \<times> nat" where
  "meas_core m = (autoSubInFlight m, speakerAlignInFlight m, startInFlight m, activeMeasurementKind m, progressKind m, jobGeneration m)"

definition flow_core :: "flow_page \<Rightarrow> (bool \<times> bool \<times> bool \<times> string \<times> string \<times> nat) \<times> string \<times> bool \<times> string \<times> bool" where
  "flow_core s = (meas_core (fm s), autoSubJobId s, autoSubCancelRequested s, speakerAlignJobId s, speakerAlignCancelRequested s)"

definition idle :: "flow_page \<Rightarrow> bool" where
  "idle s = (flow_core s = ((False, False, False, [], progressKind (fm s), jobGeneration (fm s)), [], False, [], False)
     \<and> progressKind (fm s) \<noteq> ''auto_sub'' \<and> progressKind (fm s) \<noteq> ''speaker_align'')"

definition other_flow :: "flow \<Rightarrow> flow" where
  "other_flow f = (case f of AutoSub \<Rightarrow> Align [] | Align side \<Rightarrow> AutoSub)"

fun flow_stage_fits :: "flow \<Rightarrow> flow_stage \<Rightarrow> flow_page \<Rightarrow> bool" where
  "flow_stage_fits f (FlowCancelFirst job previous) s = (flow_job f s = job \<and> job \<noteq> [])"
| "flow_stage_fits f (FlowSleep w wake) s = flow_current f (watchJob w) (watchGen w) s"
| "flow_stage_fits f (FlowPoll w) s = flow_current f (watchJob w) (watchGen w) s"
| "flow_stage_fits f (FlowAbandon w reason) s = flow_current f (watchJob w) (watchGen w) s"
| "flow_stage_fits f st s = (flow_job f s = [])"

definition holds :: "runner \<Rightarrow> flow_page \<Rightarrow> bool" where
  "holds r s = (let f = runner_flow r; o' = other_flow f in
     flow_in_flight f (fm s) \<and> \<not> flow_in_flight o' (fm s) \<and> activeMeasurementKind (fm s) = flow_kind f
     \<and> flow_job o' s = [] \<and> \<not> flow_cancelling o' s \<and> progressKind (fm s) \<noteq> flow_kind o'
     \<and> (case r of Own f \<Rightarrow> startInFlight (fm s)
         | Recovered job gen \<Rightarrow> \<not> startInFlight (fm s) \<and> flow_current AutoSub job gen s))"

text \<open>A recovered run only watches.\<close>

definition runner_stage :: "runner \<Rightarrow> flow_stage \<Rightarrow> bool" where
  "runner_stage r st = (case r of Own f \<Rightarrow> True
     | Recovered job gen \<Rightarrow> (case st of FlowSleep w wake \<Rightarrow> True | FlowPoll w \<Rightarrow> True | _ \<Rightarrow> False))"

lemma runner_stage_simps [simp]: "runner_stage (Own f) st" "runner_stage r (FlowSleep w wake)" "runner_stage r (FlowPoll w)"
  "runner_flow r = Align side \<Longrightarrow> runner_stage r st"
  by (cases r; simp add: runner_stage_def runner_flow_def)+

definition flow_inv :: "flow_page \<Rightarrow> bool" where
  "flow_inv s = (distinct (List.map fst (flowTasks s)) \<and> (\<forall>x \<in> set (flowTasks s). fst x < flowNext s)
     \<and> (case runs s of [] \<Rightarrow> idle s | [(i, r, st)] \<Rightarrow> holds r s \<and> flow_stage_fits (runner_flow r) st s \<and> runner_stage r st | _ \<Rightarrow> False))"

subsection \<open>Task lists\<close>

lemma runs_filter: "List.map_filter as_run (filter (\<lambda>x. fst x \<noteq> i) ts) = filter (\<lambda>x. fst x \<noteq> i) (List.map_filter as_run ts)"
proof (induction ts)
  case (Cons t ts)
  obtain j u where t: "t = (j, u)" by (cases t)
  show ?case using Cons by (cases u) (simp_all add: t List.map_filter_simps)
qed (simp add: List.map_filter_simps)

lemma as_run_task [simp]: "as_run (i, run_task r st) = Some (i, r, st)"
  by (cases r) (simp_all add: run_task_def)

lemma runs_wait [simp]: "runs (flow_wait i (run_task r st) s) = (i, r, st) # filter (\<lambda>x. fst x \<noteq> i) (runs s)"
  by (simp add: runs_def flow_wait_def List.map_filter_simps runs_filter)

lemma runs_done [simp]: "runs (flow_done i s) = filter (\<lambda>x. fst x \<noteq> i) (runs s)"
  by (simp add: runs_def flow_done_def runs_filter)

lemma runs_in_tasks: "(i, r, st) \<in> set (runs s) \<longleftrightarrow> (i, run_task r st) \<in> set (flowTasks s)"
proof -
  have "as_run (j, u) = Some (i, r, st) \<longleftrightarrow> j = i \<and> u = run_task r st" for j u
    by (cases u; cases r) (auto simp: run_task_def)
  then show ?thesis by (auto simp: runs_def List.map_filter_def image_iff) force
qed

definition tasks_ok :: "flow_page \<Rightarrow> bool" where
  "tasks_ok s = (distinct (List.map fst (flowTasks s)) \<and> (\<forall>x \<in> set (flowTasks s). fst x < flowNext s))"

lemma tasks_ok_wait: "tasks_ok s \<Longrightarrow> i < flowNext s \<Longrightarrow> tasks_ok (flow_wait i t s)"
  by (auto simp: tasks_ok_def flow_wait_def distinct_map_filter)

lemma tasks_ok_done: "tasks_ok s \<Longrightarrow> tasks_ok (flow_done i s)"
  by (auto simp: tasks_ok_def flow_done_def distinct_map_filter)

lemma flow_inv_alt: "flow_inv s = (tasks_ok s
     \<and> (case runs s of [] \<Rightarrow> idle s | [(i, r, st)] \<Rightarrow> holds r s \<and> flow_stage_fits (runner_flow r) st s \<and> runner_stage r st | _ \<Rightarrow> False))"
  by (auto simp: flow_inv_def tasks_ok_def)

subsection \<open>Steps that leave the owned fields alone\<close>

lemma fits_core: "flow_core s = flow_core s' \<Longrightarrow> flow_stage_fits f st s = flow_stage_fits f st s'"
  by (cases st; cases f) (auto simp: flow_core_def meas_core_def flow_current_def flow_job_def flow_in_flight_def flow_kind_def)

lemma holds_core: "flow_core s = flow_core s' \<Longrightarrow> holds r s = holds r s'"
  by (cases r) (auto simp: flow_core_def meas_core_def holds_def Let_def runner_flow_def other_flow_def flow_current_def
      flow_job_def flow_in_flight_def flow_kind_def flow_cancelling_def split: flow.split)

lemma idle_core: "flow_core s = flow_core s' \<Longrightarrow> idle s = idle s'"
  by (auto simp: idle_def flow_core_def meas_core_def)

text \<open>A step beside the runs: tasks and core stay.\<close>

definition same_flow :: "flow_page \<Rightarrow> flow_page \<Rightarrow> bool" where
  "same_flow s s' = (flow_core s' = flow_core s \<and> flowTasks s' = flowTasks s \<and> flowNext s' = flowNext s)"

lemma same_flow_refl [simp]: "same_flow s s"
  by (simp add: same_flow_def)

lemma same_flow_trans: "same_flow s s' \<Longrightarrow> same_flow s' s'' \<Longrightarrow> same_flow s s''"
  by (simp add: same_flow_def)

lemma same_status [simp]: "same_flow s (status_line t s)" "same_flow s (flow_toast t k s)"
  by (simp_all add: same_flow_def status_line_def flow_toast_def on_fm_def flow_core_def meas_core_def)

lemma same_flow_inv: "same_flow s s' \<Longrightarrow> flow_inv s' = flow_inv s"
  using fits_core [of s s'] holds_core [of s s'] idle_core [of s s']
  by (auto simp: same_flow_def flow_inv_def runs_def split: list.split)

lemma show_review_core: "meas_core (fold show_review es m) = meas_core m"
  by (induction es arbitrary: m) (simp_all add: show_review_def meas_core_def)

lemma adopt_core: "meas_core (adoptSpeakerAlignMeasurements job m) = meas_core m"
proof -
  have "meas_core (x\<lparr>graphView := g\<rparr>) = meas_core x" for x g by (simp add: meas_core_def)
  moreover have "meas_core (m\<lparr>autoSubMeasurements := a, pendingRepeatMeasurements := p, currentMeasurement := c,
      currentMeasurementName := n, currentMeasurementSaved := v\<rparr>) = meas_core m" for a p c n v
    by (simp add: meas_core_def)
  ultimately show ?thesis by (simp add: adoptSpeakerAlignMeasurements_def Let_def show_review_core)
qed

lemma same_auto_result [simp]: "same_flow s (handleAutoSubResult job s)"
  by (simp add: handleAutoSubResult_def Let_def same_flow_def flow_core_def meas_core_def on_fm_def status_line_def flow_toast_def)

lemma same_discard [simp]: "same_flow s (discardSpeakerAlignResults s)"
  by (simp add: discardSpeakerAlignResults_def same_flow_def flow_core_def)

lemma same_align_result [simp]: "same_flow s (handleSpeakerAlignResult job s)"
  by (simp add: handleSpeakerAlignResult_def Let_def same_flow_def flow_core_def on_fm_def status_line_def flow_toast_def
      discardSpeakerAlignResults_def adopt_core) (simp add: meas_core_def)


subsection \<open>Handlers\<close>

text \<open>The run of task \<open>i\<close> is being handled.\<close>

definition carried :: "nat \<Rightarrow> runner \<Rightarrow> flow_page \<Rightarrow> bool" where
  "carried i r s = (tasks_ok s \<and> i < flowNext s \<and> filter (\<lambda>x. fst x \<noteq> i) (runs s) = [] \<and> holds r s)"

lemma carried_same: "same_flow s s' \<Longrightarrow> carried i r s' = carried i r s"
  using holds_core [of s s' r] by (auto simp: carried_def same_flow_def tasks_ok_def runs_def)

lemma same_told: "same_flow s (flow_toast t k (status_line l s))"
  by (rule same_flow_trans [OF same_status(1) same_status(2)])

lemma carried_told [simp]: "carried i r (flow_toast t k (status_line l s)) = carried i r s"
  by (rule carried_same [OF same_told])

lemma carried_result [simp]:
  "carried i r ((handleAutoSubResult job s)\<lparr>lastAutoSubHandledJobId := j\<rparr>) = carried i r s"
  "carried i r (handleSpeakerAlignResult job s) = carried i r s"
  "carried i r (discardSpeakerAlignResults s) = carried i r s"
proof -
  have "same_flow s ((handleAutoSubResult job s)\<lparr>lastAutoSubHandledJobId := j\<rparr>)"
    using same_auto_result [of s job] by (simp add: same_flow_def flow_core_def)
  then show "carried i r ((handleAutoSubResult job s)\<lparr>lastAutoSubHandledJobId := j\<rparr>) = carried i r s" by (rule carried_same)
qed (rule carried_same, simp)+

lemma current_same: "same_flow s s' \<Longrightarrow> flow_current f j g s' = flow_current f j g s"
  by (cases f) (auto simp: same_flow_def flow_core_def meas_core_def flow_current_def flow_job_def flow_in_flight_def)

lemma wait_core [simp]: "flow_core (flow_wait i t s) = flow_core s" "flow_core (flow_done i s) = flow_core s"
  by (simp_all add: flow_wait_def flow_done_def flow_core_def)

lemma carried_waits:
  assumes "carried i r s" "flow_stage_fits (runner_flow r) st s" "runner_stage r st"
  shows "flow_inv (flow_wait i (run_task r st) s)"
  using assms holds_core [of "flow_wait i (run_task r st) s" s r] fits_core [of "flow_wait i (run_task r st) s" s "runner_flow r" st]
  by (simp add: flow_inv_alt carried_def tasks_ok_wait)

lemma released_idle:
  assumes "holds r s"
  shows "idle (flow_released (runner_flow r) (on_fm (\<lambda>m. m\<lparr>startInFlight := False\<rparr>) s))"
  using assms
  by (cases r; cases "runner_flow r")
    (auto simp: idle_def holds_def Let_def flow_released_def flow_core_def meas_core_def on_fm_def clear_progress_def
      set_flow_job_def set_flow_cancelling_def set_in_flight_def runner_flow_def other_flow_def flow_in_flight_def flow_job_def
      flow_cancelling_def flow_kind_def)

lemma carried_over:
  assumes "carried i r s"
  shows "flow_inv (run_over r i s)"
proof -
  have frame: "flowTasks (flow_released f x) = flowTasks x" "flowNext (flow_released f x) = flowNext x"
    "flowTasks (on_fm g x) = flowTasks x" "flowNext (on_fm g x) = flowNext x" for f g x
    by (cases f; simp add: flow_released_def set_flow_job_def set_flow_cancelling_def on_fm_def)+
  have inv: "flow_inv (flow_done i x)"
    if "idle x" "flowTasks x = flowTasks s" "flowNext x = flowNext s" for x
  proof -
    have "runs x = runs s" "tasks_ok x" using that assms by (simp_all add: runs_def tasks_ok_def carried_def)
    moreover have "idle (flow_done i x)" using that(1) idle_core [of "flow_done i x" x] by simp
    ultimately show ?thesis using assms by (simp add: flow_inv_alt carried_def tasks_ok_done)
  qed
  have idle: "idle (flow_released (runner_flow r) (on_fm (\<lambda>m. m\<lparr>startInFlight := False\<rparr>) s))"
    using assms by (intro released_idle) (simp add: carried_def)
  show ?thesis
  proof (cases r)
    case (Own f)
    with idle show ?thesis by (simp add: run_over_def own_finally_def runner_flow_def frame inv)
  next
    case (Recovered job gen)
    with assms have cur: "flow_current AutoSub job gen s" "\<not> startInFlight (fm s)"
      by (simp_all add: carried_def holds_def runner_flow_def Let_def)
    from cur(2) have "on_fm (\<lambda>m. m\<lparr>startInFlight := False\<rparr>) s = s" by (simp add: on_fm_def)
    with idle Recovered have "idle (flow_released AutoSub s)" by (simp add: runner_flow_def)
    then have "idle ((flow_released AutoSub s)\<lparr>autoSubRecoveryPending := False\<rparr>)" by (simp add: idle_def flow_core_def)
    with cur(1) Recovered show ?thesis by (simp add: run_over_def recovered_finally_def frame inv)
  qed
qed

lemma carried_progress: "carried i r s \<Longrightarrow> carried i r (on_fm (set_progress (flow_kind (runner_flow r)) t) s)"
  by (cases r; cases "runner_flow r") (auto simp: carried_def tasks_ok_def runs_def holds_def Let_def on_fm_def set_progress_def flow_in_flight_def
      other_flow_def flow_job_def flow_cancelling_def flow_kind_def runner_flow_def flow_current_def)

lemma current_progress [simp]: "flow_current f j g (on_fm (set_progress k t) s) = flow_current f j g s"
  by (cases f) (simp_all add: flow_current_def on_fm_def set_progress_def flow_job_def flow_in_flight_def)

lemma watch_head_inv: "carried i r s \<Longrightarrow> flow_inv (watch_head r i w s)"
  by (simp add: watch_head_def carried_over carried_waits)

lemma give_up_inv:
  assumes "carried i r s" "flow_current (runner_flow r) (watchJob w) (watchGen w) s"
  shows "flow_inv (give_up r i w status toast reason s)"
  using assms by (auto simp: give_up_def split: flow.split intro: carried_over carried_waits)

lemma watch_slept_inv:
  assumes "carried i r s" "flow_current (runner_flow r) (watchJob w) (watchGen w) s"
  shows "flow_inv (watch_slept r i w s)"
  using assms by (simp add: watch_slept_def give_up_inv carried_waits)

lemma watch_error_inv:
  assumes "carried i r s" "flow_current (runner_flow r) (watchJob w) (watchGen w) s"
  shows "flow_inv (watch_error r i w message s)"
  using assms by (simp add: watch_error_def Let_def give_up_inv watch_head_inv)

lemma watch_gone_inv: "carried i r s \<Longrightarrow> flow_inv (watch_gone r i w s)"
  by (auto simp: watch_gone_def intro!: carried_over split: flow.split)

lemma carried_shown: "carried i r s \<Longrightarrow> carried i r (show_running (runner_flow r) w job s)"
  by (simp add: show_running_def Let_def carried_progress)

lemma carried_baseline [simp]: "carried i r (on_fm (push_baseline job) s) = carried i r s"
  by (rule carried_same) (simp add: same_flow_def push_baseline_def on_fm_def flow_core_def meas_core_def)

lemma watch_read_inv:
  assumes "carried i r s"
  shows "flow_inv (watch_read r i w job s)"
proof (cases "runner_flow r = AutoSub")
  case True
  then have "carried i r (show_running AutoSub v job s)" for v using carried_shown [OF assms, of v job] by simp
  with True show ?thesis by (simp add: watch_read_def Let_def carried_over watch_head_inv)
next
  case False
  then show ?thesis using carried_shown [OF assms] by (simp add: watch_read_def Let_def carried_over watch_head_inv)
qed

lemma watch_polled_inv:
  assumes "carried i r s"
  shows "flow_inv (watch_polled r i w resp s)"
proof (cases "flow_current (runner_flow r) (watchJob w) (watchGen w) s")
  case True
  then show ?thesis
    using assms watch_error_inv [OF assms True] watch_gone_inv [OF assms] watch_read_inv [OF assms]
    by (auto simp: watch_polled_def Let_def split: response.split)
next
  case False
  then show ?thesis using carried_over [OF assms] by (simp add: watch_polled_def)
qed

lemma abandoned_inv: "carried i r s \<Longrightarrow> flow_inv (abandoned r i w reason resp s)"
  by (simp add: abandoned_def Let_def carried_over)

lemma start_threw_inv: "carried i (Own f) s \<Longrightarrow> flow_inv (start_threw f i message s)"
  using carried_over [of i "Own f"] by (cases f) (simp_all add: start_threw_def run_over_def)

subsection \<open>Starting and cancelling\<close>

lemma flow_job_kind [simp]: "flow_job (Align a) s = speakerAlignJobId s" "flow_job AutoSub s = autoSubJobId s"
  by (simp_all add: flow_job_def)

lemma own_flow [simp]: "runner_flow (Own f) = f" "runner_flow (Recovered job gen) = AutoSub"
  by (simp_all add: runner_flow_def)

text \<open>A field that only the run's own flow has.\<close>

lemma carried_own [simp]:
  "carried i (Own f) (set_flow_job f j s) = carried i (Own f) s"
  "carried i (Own f) (set_flow_cancelling f b s) = carried i (Own f) s"
  by (cases f; simp add: carried_def tasks_ok_def runs_def holds_def Let_def set_flow_job_def set_flow_cancelling_def
      other_flow_def flow_in_flight_def flow_cancelling_def)+

lemma holds_kind: "holds r s \<Longrightarrow> activeMeasurementKind (fm s) = flow_kind (runner_flow r)"
  by (simp add: holds_def Let_def)

lemma watch_job_inv: "carried i r s \<Longrightarrow> flow_inv (watch_job r i job side s)"
  by (simp add: watch_job_def watch_head_inv)

lemma flow_started_inv: "carried i (Own f) s \<Longrightarrow> flow_inv (flow_started f i s)"
  by (simp add: flow_started_def start_threw_inv watch_job_inv)

lemma note_cancel_carried: "carried i (Own f) s \<Longrightarrow> carried i (Own f) (note_cancel f s)"
  using carried_progress [of i "Own f" s cancelling] by (simp add: note_cancel_def)

lemma job_known_inv:
  assumes "carried i (Own f) s"
  shows "flow_inv (job_known f i job s)"
proof -
  let ?s1 = "set_flow_job f (str_or_empty (jget job ''id'')) s"
  let ?s = "if flow_cancelling f ?s1 then ?s1 else on_fm (set_progress (flow_kind f) (job_progress f job)) ?s1"
  have s: "carried i (Own f) ?s" using assms carried_progress [of i "Own f" ?s1] by simp
  have "carried i (Own f) (begin_cancel f ?s)" using carried_progress [OF s] by (simp add: begin_cancel_def)
  moreover have "flow_job f (begin_cancel f ?s) = flow_job f ?s" by (cases f) (simp_all add: begin_cancel_def on_fm_def)
  ultimately have "flow_inv (flow_wait i (run_task (Own f) (FlowCancelFirst (flow_job f ?s) p)) (begin_cancel f ?s))"
    if "flow_job f ?s \<noteq> []" for p
    using that by (intro carried_waits) simp_all
  then show ?thesis
    using flow_started_inv [OF s] flow_started_inv [OF note_cancel_carried [OF s]]
    unfolding job_known_def Let_def by (simp add: run_task_def del: if_split split: if_split_asm)
qed

lemma flow_start_settled_inv: "carried i (Own f) s \<Longrightarrow> flow_inv (flow_start_settled f i resp s)"
  by (auto simp: flow_start_settled_def Let_def start_threw_inv job_known_inv split: response.split)

text \<open>A failed cancellation touches the progress line of a run in flight only.\<close>

lemma same_kind:
  assumes "holds r s" "flow_in_flight f (fm s)"
  shows "flow_kind f = flow_kind (runner_flow r)"
  using assms by (cases "runner_flow r"; cases f) (auto simp: holds_def Let_def other_flow_def flow_in_flight_def flow_kind_def)

lemma carried_flight_progress:
  assumes "carried i r s" "flow_in_flight f (fm s)"
  shows "carried i r (on_fm (set_progress (flow_kind f) t) s)"
proof -
  have "flow_kind f = flow_kind (runner_flow r)" using assms by (intro same_kind) (auto simp: carried_def)
  then show ?thesis using carried_progress [OF assms(1)] by simp
qed

lemma cancel_settled_carried: "carried i r s \<Longrightarrow> carried i r (cancel_settled f p resp s)"
  by (auto simp: cancel_settled_def cancel_failed_def Let_def carried_flight_progress split: response.split)

lemma idle_flight: "idle s \<Longrightarrow> \<not> flow_in_flight f (fm s)"
  by (cases f) (auto simp: idle_def flow_core_def meas_core_def flow_in_flight_def)

text \<open>Seen from outside, the invariant is that of the run, if there is one.\<close>

lemma inv_cases:
  assumes "flow_inv s"
  obtains "runs s = []" "idle s" "tasks_ok s"
  | i r st where "runs s = [(i, r, st)]" "carried i r s" "flow_stage_fits (runner_flow r) st s" "tasks_ok s" "runner_stage r st"
proof (cases "runs s")
  case Nil
  with assms that(1) show ?thesis by (simp add: flow_inv_alt)
next
  case (Cons x xs)
  obtain i r st where x: "x = (i, r, st)" by (cases x)
  with assms Cons have one: "runs s = [(i, r, st)]" "holds r s" "flow_stage_fits (runner_flow r) st s" "tasks_ok s" "runner_stage r st"
    by (auto simp: flow_inv_alt split: list.splits)
  have "(i, run_task r st) \<in> set (flowTasks s)" using one(1) runs_in_tasks [of i r st s] by simp
  then have "i < flowNext s" using one(4) by (auto simp: tasks_ok_def)
  with one that(2) show ?thesis by (simp add: carried_def)
qed

lemma inv_of_run:
  assumes "runs s = [(i, r, st)]" "carried i r s" "flow_stage_fits (runner_flow r) st s" "runner_stage r st"
  shows "flow_inv s"
  using assms by (simp add: flow_inv_alt carried_def)


subsection \<open>Events\<close>

lemma fits_progress [simp]:
  "flow_stage_fits f st (on_fm (set_progress k t) s) = flow_stage_fits f st s"
  "flow_stage_fits f st (set_flow_cancelling f' b s) = flow_stage_fits f st s"
  by (cases st; cases f; cases f';
    simp add: flow_current_def on_fm_def set_progress_def set_flow_cancelling_def flow_in_flight_def)+

lemma runs_progress [simp]:
  "runs (on_fm g s) = runs s" "runs (set_flow_cancelling f b s) = runs s"
  by (simp add: runs_def on_fm_def) (cases f; simp add: runs_def set_flow_cancelling_def)

lemma carried_cancelling: "flow_kind f = flow_kind (runner_flow r) \<Longrightarrow> carried i r (set_flow_cancelling f b s) = carried i r s"
  by (cases f; cases "runner_flow r"; cases r) (auto simp: carried_def tasks_ok_def runs_def holds_def Let_def
      set_flow_cancelling_def other_flow_def flow_in_flight_def flow_cancelling_def flow_kind_def flow_current_def)

lemma fresh_runs: "tasks_ok s \<Longrightarrow> filter (\<lambda>x. fst x \<noteq> flowNext s) (runs s) = runs s"
  by (rule filter_True) (auto simp: tasks_ok_def runs_in_tasks dest!: bspec)

lemma inv_core:
  assumes "flow_inv s" "runs s' = runs s" "flow_core s' = flow_core s" "tasks_ok s'"
  shows "flow_inv s'"
  using assms(1)
proof (cases rule: inv_cases)
  case 1
  then show ?thesis using assms(2,4) idle_core [OF assms(3)] by (simp add: flow_inv_alt)
next
  case (2 i r st)
  then show ?thesis
    using assms(2,4) holds_core [OF assms(3), of r] fits_core [OF assms(3), of "runner_flow r" st] by (simp add: flow_inv_alt carried_def)
qed

lemma spawn_other:
  assumes "flow_inv s" "\<And>j. as_run (j, t) = None"
  shows "flow_inv (flow_spawn t s)"
proof -
  have ok: "tasks_ok s" using assms(1) by (simp add: flow_inv_alt)
  have "runs (flow_spawn t s) = filter (\<lambda>x. fst x \<noteq> flowNext s) (runs s)"
    by (simp add: flow_spawn_def flow_wait_def runs_def List.map_filter_simps runs_filter assms(2))
  then have "runs (flow_spawn t s) = runs s" using fresh_runs [OF ok] by simp
  moreover have core: "flow_core (flow_spawn t s) = flow_core s" by (simp add: flow_spawn_def) (simp add: flow_core_def)
  moreover have "tasks_ok (s\<lparr>flowNext := flowNext s + 1\<rparr>)" using ok by (auto simp: tasks_ok_def less_SucI)
  then have "tasks_ok (flow_spawn t s)" unfolding flow_spawn_def by (rule tasks_ok_wait) simp
  ultimately show ?thesis using inv_core [OF assms(1)] by simp
qed

lemma done_other_runs:
  assumes "flow_inv s" "map_of (flowTasks s) i = Some t" "\<And>j. as_run (j, t) = None"
  shows "runs (flow_done i s) = runs s"
proof -
  have "fst x \<noteq> i" if "x \<in> set (runs s)" for x
  proof
    assume i: "fst x = i"
    obtain r st where x: "x = (i, r, st)" using i by (cases x) auto
    with that have "(i, run_task r st) \<in> set (flowTasks s)" by (simp add: runs_in_tasks)
    then have "run_task r st = t" using assms(1,2) by (simp add: flow_inv_def map_of_is_SomeI)
    with assms(3) [of i] show False by (metis as_run_task option.distinct(1))
  qed
  then show ?thesis by simp
qed

lemma done_other:
  assumes "flow_inv s" "map_of (flowTasks s) i = Some t" "\<And>j. as_run (j, t) = None"
  shows "flow_inv (flow_done i s)"
  using inv_core [OF assms(1) done_other_runs [OF assms]] assms(1) by (simp add: flow_inv_alt tasks_ok_done)

lemma cancel_settled_inv:
  assumes "flow_inv s"
  shows "flow_inv (cancel_settled f p resp s)"
  using assms
proof (cases rule: inv_cases)
  case 1
  have "same_flow s (cancel_settled f p resp s)"
    using idle_flight [OF 1(2), of f] same_told by (simp add: cancel_settled_def cancel_failed_def Let_def split: response.split)
  then show ?thesis using assms by (simp add: same_flow_inv)
next
  case (2 i r st)
  have "runs (cancel_settled f p resp s) = runs s"
    by (simp add: cancel_settled_def cancel_failed_def Let_def status_line_def flow_toast_def runs_def on_fm_def split: response.split)
  moreover have "flow_stage_fits (runner_flow r) st (cancel_settled f p resp s)"
    using 2(3) fits_core [of "flow_toast a b (status_line c x)" x for a b c x, OF same_told [unfolded same_flow_def, THEN conjunct1]]
    by (simp add: cancel_settled_def cancel_failed_def Let_def split: response.split)
  ultimately show ?thesis using cancel_settled_carried [OF 2(2)] 2(1,5) inv_of_run by simp
qed

lemma cancel_flow_inv:
  assumes "flow_inv s"
  shows "flow_inv (cancel_flow f s)"
  using assms
proof (cases rule: inv_cases)
  case 1
  then have "flow_job f s = []" by (cases f) (simp_all add: idle_def flow_core_def)
  with 1(2) assms show ?thesis using idle_flight [OF 1(2), of f] by (simp add: cancel_flow_def note_cancel_def)
next
  case (2 i r st)
  have kind: "flow_kind f = flow_kind (runner_flow r)" if "flow_job f s \<noteq> [] \<or> flow_in_flight f (fm s)"
  proof (cases "flow_in_flight f (fm s)")
    case True
    with 2(2) show ?thesis by (intro same_kind) (simp_all add: carried_def)
  next
    case False
    with that 2(2) show ?thesis
      by (cases f; cases "runner_flow r") (auto simp: carried_def holds_def Let_def other_flow_def flow_kind_def)
  qed
  have prog: "flow_inv (on_fm (set_progress (flow_kind f) t) s)" "flow_inv (set_flow_cancelling f True (on_fm (set_progress (flow_kind f) t) s))"
    if "flow_kind f = flow_kind (runner_flow r)" for t
    using 2(1,3,5) carried_progress [OF 2(2), of t] that by (auto intro!: inv_of_run [of _ i r st] simp: carried_cancelling)
  show ?thesis
    using assms prog kind by (auto simp: cancel_flow_def note_cancel_def begin_cancel_def intro!: spawn_other)
qed

lemma claim_inv:
  assumes "flow_inv s" "\<not> autoSubInFlight (fm s)" "\<not> speakerAlignInFlight (fm s)" "flow_stage_fits f st (claim_flow f s)"
  shows "flow_inv (flow_spawn (OwnRun f st) (claim_flow f s))"
  using assms(1)
proof (cases rule: inv_cases)
  case 1
  let ?s = "(claim_flow f s)\<lparr>flowNext := flowNext (claim_flow f s) + 1\<rparr>"
  have "runs ?s = []" "tasks_ok ?s" "flowNext (claim_flow f s) = flowNext s"
    using 1(1,3) by (cases f; auto simp: claim_flow_def Let_def runs_def tasks_ok_def on_fm_def set_flow_job_def set_flow_cancelling_def less_SucI)+
  moreover have "holds (Own f) ?s"
    using 1(2) by (cases f) (simp_all add: holds_def Let_def claim_flow_def on_fm_def set_flow_job_def set_flow_cancelling_def
        set_progress_def set_in_flight_def flow_in_flight_def other_flow_def flow_kind_def flow_cancelling_def idle_def flow_core_def meas_core_def)
  ultimately have "carried (flowNext (claim_flow f s)) (Own f) ?s" by (simp add: carried_def)
  moreover have "flow_stage_fits f st ?s" using assms(4) fits_core [of ?s "claim_flow f s" f st] by (simp add: flow_core_def)
  ultimately show ?thesis using carried_waits [of _ "Own f" ?s st] by (simp add: flow_spawn_def run_task_def)
next
  case (2 i r st)
  then show ?thesis using assms(2,3)
    by (cases "runner_flow r") (auto simp: carried_def holds_def Let_def flow_in_flight_def)
qed

lemma claimed_job [simp]: "flow_job f (claim_flow f s) = []"
  by (cases f) (simp_all add: claim_flow_def Let_def on_fm_def set_flow_job_def)


lemma discovered_inv:
  assumes "flow_inv s" "map_of (flowTasks s) i = Some (Discover gen)"
  shows "flow_inv (discovered gen i resp s)"
proof -
  let ?job = "case resp of Http code (Some data) \<Rightarrow> if resp_ok resp \<and> \<not> nullish data then jget data ''job'' else JNull | _ \<Rightarrow> JNull"
  let ?id = "to_str (jget ?job ''id'')" and ?t = "adopt_run ?job s"
  have "flow_inv (flow_done i s)" by (rule done_other [OF assms]) simp
  moreover have "flow_core (recovery_over i s) = flow_core (flow_done i s)" "runs (recovery_over i s) = runs (flow_done i s)"
    "tasks_ok (recovery_over i s) = tasks_ok (flow_done i s)"
    by (simp_all add: recovery_over_def flow_core_def flow_done_def runs_def tasks_ok_def)
  ultimately have over: "flow_inv (recovery_over i s)" using inv_core [of "flow_done i s"] by (simp add: flow_inv_alt)
  show ?thesis
  proof (cases "recovery_blocked s \<or> jobGeneration (fm s) \<noteq> gen")
    case True
    then show ?thesis using over by (auto simp: discovered_def Let_def)
  next
    case False
    have "carried i (Recovered ?id gen) ?t"
      using assms(1)
    proof (cases rule: inv_cases)
      case 1
      have "i < flowNext s" using 1(3) assms(2) by (auto simp: tasks_ok_def dest!: map_of_SomeD)
      moreover have "runs ?t = []" "tasks_ok ?t" "flowNext ?t = flowNext s"
        using 1 by (simp_all add: adopt_run_def on_fm_def runs_def tasks_ok_def)
      moreover have "holds (Recovered ?id gen) ?t"
        using 1(2) False by (simp add: holds_def Let_def adopt_run_def on_fm_def set_progress_def flow_in_flight_def other_flow_def
            flow_kind_def flow_cancelling_def flow_current_def idle_def flow_core_def meas_core_def)
      ultimately show ?thesis by (simp add: carried_def)
    next
      case (2 j r st)
      then show ?thesis using False by (cases "runner_flow r") (auto simp: carried_def holds_def Let_def flow_in_flight_def recovery_blocked_def)
    qed
    then have "flow_inv (run_over (Recovered ?id gen) i ((handleAutoSubResult ?job ?t)\<lparr>lastAutoSubHandledJobId := ?id\<rparr>))"
      "flow_inv (watch_job (Recovered ?id gen) i ?id [] ?t)"
      by (simp_all add: carried_over watch_job_inv)
    with over show ?thesis unfolding discovered_def Let_def by (simp del: run_task_def)
  qed
qed

lemma clock_inv [simp]: "flow_inv (s\<lparr>flowClock := c\<rparr>) = flow_inv s"
  by (rule same_flow_inv) (simp add: same_flow_def flow_core_def)

lemma flow_run_answered_inv:
  assumes inv: "flow_inv s" and task: "map_of (flowTasks s) i = Some (run_task r st)"
  shows "flow_inv (run_continues r i st a s)"
  using inv
proof (cases rule: inv_cases)
  case 1
  then show ?thesis using task runs_in_tasks [of i r st s] map_of_SomeD [OF task] by simp
next
  case (2 j r' st')
  have "(i, r, st) \<in> set (runs s)" using map_of_SomeD [OF task] by (simp add: runs_in_tasks)
  with 2 have s: "carried i r s" "flow_stage_fits (runner_flow r) st s" "runner_stage r st" by simp_all
  show ?thesis
  proof (cases r)
    case (Own f)
    have c: "carried i (Own f) (cancel_settled f p resp s)" for p resp using s(1) Own by (simp add: cancel_settled_carried)
    show ?thesis
      using inv s start_threw_inv [of i f s] flow_start_settled_inv [of i f s] flow_started_inv [OF c]
        carried_waits [OF s(1), of FlowSnapshot] carried_waits [OF s(1), of FlowStart] watch_slept_inv [OF s(1)]
        watch_polled_inv [OF s(1)] abandoned_inv [OF s(1)]
      by (cases st; cases a) (auto simp: run_continues_def Own split: option.split)
  next
    case (Recovered job gen)
    then show ?thesis
      using inv s watch_slept_inv [OF s(1)] watch_polled_inv [OF s(1)]
      by (cases st; cases a) (auto simp: run_continues_def runner_stage_def)
  qed
qed


lemma flow_answered_inv:
  assumes "flow_inv s"
  shows "flow_inv (flow_answered i a s)"
proof (cases "map_of (flowTasks s) i")
  case (Some t)
  show ?thesis
  proof (cases t)
    case (OwnRun f st)
    then show ?thesis using flow_run_answered_inv [OF assms, of i "Own f" st a] Some by (simp add: flow_answered_def run_task_def)
  next
    case (RecoveredRun job gen st)
    then show ?thesis using flow_run_answered_inv [OF assms, of i "Recovered job gen" st a] Some by (simp add: flow_answered_def run_task_def)
  next
    case (Discover gen)
    then show ?thesis using discovered_inv [OF assms, of i gen] Some assms by (cases a) (simp_all add: flow_answered_def)
  next
    case (CancelRequest f job p)
    then have "flow_inv (flow_done i s)" by (intro done_other [OF assms Some]) simp
    then show ?thesis using CancelRequest Some assms by (cases a) (simp_all add: flow_answered_def cancel_settled_inv)
  qed
qed (simp add: flow_answered_def assms)

lemma start_auto_inv: "flow_inv s \<Longrightarrow> speakerAlignInFlight (fm s) \<longrightarrow> startInFlight (fm s) \<Longrightarrow> flow_inv (startAutoSubOptimize ready s)"
  using claim_inv [of s AutoSub FlowFlush] same_flow_inv [OF same_told] by (auto simp: startAutoSubOptimize_def no_capture_def)

lemma align_holds_start: "flow_inv s \<Longrightarrow> speakerAlignInFlight (fm s) \<longrightarrow> startInFlight (fm s)"
proof (erule inv_cases)
  assume "idle s"
  then show ?thesis by (simp add: idle_def flow_core_def meas_core_def)
next
  fix i r st assume "carried i r s"
  then show ?thesis by (cases r; cases "runner_flow r") (auto simp: carried_def holds_def Let_def flow_in_flight_def other_flow_def)
qed

lemma start_align_inv: "flow_inv s \<Longrightarrow> flow_inv (startSpeakerAlign catalog ready su side s)"
  using claim_inv [of s "Align side" FlowSnapshot] same_flow_inv [OF same_told]
  by (auto simp: startSpeakerAlign_def no_capture_def split: sum.split)

lemma flow_step_inv:
  assumes "flow_inv s" "ev \<noteq> AdvancedClosed"
  shows "flow_inv (flow_step ev s)"
proof (cases ev)
  case (AutoSubClicked ready)
  then show ?thesis
    using assms cancel_flow_inv [of s AutoSub] start_auto_inv [OF assms(1) align_holds_start [OF assms(1)]] by (simp add: auto_sub_clicked_def)
next
  case RecoverAutoSub
  have "flow_inv (s\<lparr>autoSubRecoveryPending := True\<rparr>)"
    using assms(1) same_flow_inv [of s "s\<lparr>autoSubRecoveryPending := True\<rparr>"] by (simp add: same_flow_def flow_core_def)
  then show ?thesis using assms RecoverAutoSub by (auto simp: recoverAutoSubJob_def intro: spawn_other)
next
  case PanelClosed
  then show ?thesis using assms same_flow_inv [OF same_discard] by (simp add: clearSpeakerAlignResult_def)
qed (use assms in \<open>simp_all add: cancel_flow_inv start_align_inv flow_answered_inv\<close>)

lemma init_flow_inv: "flow_inv init_flows"
  by (simp add: flow_inv_def init_flows_def runs_def List.map_filter_simps idle_def flow_core_def meas_core_def init_meas_def)

lemma flow_inv_run: "flow_inv s \<Longrightarrow> AdvancedClosed \<notin> set es \<Longrightarrow> flow_inv (run_events flow_step es s)"
proof (induction es arbitrary: s)
  case (Cons ev es)
  then show ?case using flow_step_inv [OF Cons.prems(1), of ev] by auto
qed simp

end
