(* ===== verification/Align_Marks.thy ===== *)
theory Align_Marks
  imports Align_Inv
begin

section \<open>The marks of a run, whatever is closed\<close>

text \<open>
  What of \<open>Align_Inv\<close> survives the closing of the idle Advanced dialog, which resets the active kind
  under a running procedure: the marks of the two procedures and of a start, which no kind decides.
  Every handler of a run either waits again or ends the run, and changes no mark before it does.
\<close>

definition run_marks :: "runner \<Rightarrow> flow_page \<Rightarrow> bool" where
  "run_marks r s = (flow_in_flight (runner_flow r) (fm s) \<and> \<not> flow_in_flight (other_flow (runner_flow r)) (fm s)
     \<and> startInFlight (fm s) = (\<exists>f. r = Own f))"

definition marks_inv :: "flow_page \<Rightarrow> bool" where
  "marks_inv s = (tasks_ok s \<and> (case runs s of [] \<Rightarrow> \<not> speakerAlignInFlight (fm s) \<and> \<not> startInFlight (fm s)
     | [(i, r, st)] \<Rightarrow> run_marks r s \<and> runner_stage r st | _ \<Rightarrow> False))"

definition same_marks :: "flow_page \<Rightarrow> flow_page \<Rightarrow> bool" where
  "same_marks s t = (autoSubInFlight (fm t) = autoSubInFlight (fm s) \<and> speakerAlignInFlight (fm t) = speakerAlignInFlight (fm s)
     \<and> startInFlight (fm t) = startInFlight (fm s) \<and> flowTasks t = flowTasks s \<and> flowNext t = flowNext s)"

lemma same_marks_refl [simp]: "same_marks s s"
  by (simp add: same_marks_def)

lemma same_marks_trans: "same_marks s t \<Longrightarrow> same_marks t u \<Longrightarrow> same_marks s u"
  by (simp add: same_marks_def)

lemma same_flow_marks: "same_flow s t \<Longrightarrow> same_marks s t"
  by (simp add: same_flow_def same_marks_def flow_core_def meas_core_def)

lemma marks_fields [simp]:
  "same_marks s (set_flow_job f j t) = same_marks s t" "same_marks s (set_flow_cancelling f b t) = same_marks s t"
  "same_marks s (on_fm (set_progress k x) t) = same_marks s t" "same_marks s (status_line x t) = same_marks s t"
  "same_marks s (flow_toast x k t) = same_marks s t" "same_marks s (t\<lparr>lastAutoSubHandledJobId := j\<rparr>) = same_marks s t"
  "same_marks s (t\<lparr>flowClock := c\<rparr>) = same_marks s t" "same_marks s (t\<lparr>autoSubRecoveryPending := b\<rparr>) = same_marks s t"
  "same_marks s (discardSpeakerAlignResults t) = same_marks s t" "same_marks s (on_fm (push_baseline job) t) = same_marks s t"
  by (cases f; simp add: same_marks_def set_flow_job_def set_flow_cancelling_def on_fm_def set_progress_def
      status_line_def flow_toast_def discardSpeakerAlignResults_def push_baseline_def)+

lemma marks_results:
  "same_marks s t \<Longrightarrow> same_marks s (handleAutoSubResult job t)" "same_marks s t \<Longrightarrow> same_marks s (handleSpeakerAlignResult job t)"
  using same_marks_trans same_flow_marks [OF same_auto_result] same_flow_marks [OF same_align_result] by blast+

lemma marks_shown: "same_marks s t \<Longrightarrow> same_marks s (show_running f w job t)"
  by (simp add: show_running_def Let_def)

lemma marks_cancelling:
  "same_marks s t \<Longrightarrow> same_marks s (note_cancel f t)" "same_marks s t \<Longrightarrow> same_marks s (begin_cancel f t)"
  "same_marks s t \<Longrightarrow> same_marks s (cancel_settled f p resp t)"
  by (auto simp: note_cancel_def begin_cancel_def cancel_settled_def cancel_failed_def Let_def split: response.split)

lemmas marks_steps = marks_results marks_shown marks_cancelling

subsection \<open>What a handler does with its run\<close>

definition takes_run :: "runner \<Rightarrow> nat \<Rightarrow> flow_page \<Rightarrow> flow_page \<Rightarrow> bool" where
  "takes_run r i s t = (\<exists>u. same_marks s u \<and> (t = run_over r i u \<or> (\<exists>st. runner_stage r st \<and> t = flow_wait i (run_task r st) u)))"

lemma moves_over: "same_marks s u \<Longrightarrow> takes_run r i s (run_over r i u)"
  and moves_wait: "same_marks s u \<Longrightarrow> runner_stage r st \<Longrightarrow> takes_run r i s (flow_wait i (run_task r st) u)"
  by (auto simp: takes_run_def)

lemmas takes_run_intros = moves_over moves_wait

lemma moves_finally: "same_marks s u \<Longrightarrow> takes_run (Own f) i s (own_finally f i u)"
  using moves_over [of s u "Own f" i] by (simp add: run_over_def)

lemma moves_own: "same_marks s u \<Longrightarrow> takes_run (Own f) i s (flow_wait i (OwnRun f st) u)"
  using moves_wait [of s u "Own f" st i] by (simp add: run_task_def)

lemma moves_head: "same_marks s u \<Longrightarrow> takes_run r i s (watch_head r i w u)"
  by (simp add: watch_head_def takes_run_intros)

lemma moves_job: "same_marks s u \<Longrightarrow> takes_run r i s (watch_job r i job side u)"
  by (simp add: watch_job_def moves_head)

lemma moves_give_up: "same_marks s u \<Longrightarrow> takes_run r i s (give_up r i w status toast reason u)"
  by (simp add: give_up_def takes_run_intros split: flow.split)

lemma moves_watching:
  assumes "same_marks s u"
  shows "takes_run r i s (watch_slept r i w u)" "takes_run r i s (watch_error r i w m u)" "takes_run r i s (watch_gone r i w u)"
    "takes_run r i s (watch_read r i w job u)" "takes_run r i s (abandoned r i w reason resp u)"
  using assms
  by (auto simp: watch_slept_def watch_error_def watch_gone_def watch_read_def abandoned_def Let_def marks_steps
      intro!: takes_run_intros moves_head moves_give_up split: flow.split)

lemma moves_polled: "same_marks s u \<Longrightarrow> takes_run r i s (watch_polled r i w resp u)"
  by (auto simp: watch_polled_def Let_def intro!: takes_run_intros moves_watching split: response.split)

lemma moves_start:
  assumes "same_marks s u"
  shows "takes_run (Own f) i s (start_threw f i m u)" "takes_run (Own f) i s (flow_started f i u)"
    "takes_run (Own f) i s (flow_start_settled f i resp u)"
proof -
  show threw: "takes_run (Own f) i s (start_threw f i m u)" for m
    using assms by (simp add: start_threw_def moves_finally split: flow.split)
  have started: "takes_run (Own f) i s (flow_started f i v)" if "same_marks s v" for v
    using that by (cases f) (auto simp: flow_started_def start_threw_def intro!: moves_finally moves_job)
  then show "takes_run (Own f) i s (flow_started f i u)" using assms .
  have "takes_run (Own f) i s (job_known f i job u)" for job
    unfolding job_known_def Let_def using assms by (simp add: started marks_steps moves_own)
  then show "takes_run (Own f) i s (flow_start_settled f i resp u)"
    using threw by (auto simp: flow_start_settled_def Let_def split: response.split)
qed

subsection \<open>The marks are kept\<close>

definition in_hand :: "nat \<Rightarrow> runner \<Rightarrow> flow_page \<Rightarrow> bool" where
  "in_hand i r s = (tasks_ok s \<and> i < flowNext s \<and> filter (\<lambda>x. fst x \<noteq> i) (runs s) = [] \<and> run_marks r s)"

lemma in_hand_same: "same_marks s t \<Longrightarrow> in_hand i r t = in_hand i r s"
  by (auto simp: in_hand_def same_marks_def tasks_ok_def runs_def run_marks_def flow_in_flight_def split: flow.splits)

lemma marks_same: "same_marks s t \<Longrightarrow> marks_inv t = marks_inv s"
  by (auto simp: marks_inv_def same_marks_def tasks_ok_def runs_def run_marks_def flow_in_flight_def split: flow.splits list.splits)

lemma released_marks:
  assumes "run_marks r s"
  shows "\<not> speakerAlignInFlight (fm (run_over r i s)) \<and> \<not> startInFlight (fm (run_over r i s))"
  using assms
  by (cases r; cases "runner_flow r") (auto simp: run_marks_def run_over_def own_finally_def recovered_finally_def flow_released_def
      set_flow_job_def set_flow_cancelling_def set_in_flight_def clear_progress_def on_fm_def flow_done_def flow_in_flight_def
      other_flow_def)

lemma over_tasks:
  "flowTasks (run_over r i s) = filter (\<lambda>x. fst x \<noteq> i) (flowTasks s)" "flowNext (run_over r i s) = flowNext s"
proof -
  have "flowTasks (flow_released f x) = flowTasks x" "flowNext (flow_released f x) = flowNext x"
    "flowTasks (on_fm g x) = flowTasks x" "flowNext (on_fm g x) = flowNext x" for f g x
    by (cases f; simp add: flow_released_def set_flow_job_def set_flow_cancelling_def on_fm_def)+
  then show "flowTasks (run_over r i s) = filter (\<lambda>x. fst x \<noteq> i) (flowTasks s)" "flowNext (run_over r i s) = flowNext s"
    by (cases r; simp add: run_over_def own_finally_def recovered_finally_def flow_done_def)+
qed

lemma in_hand_moves:
  assumes "in_hand i r s" "takes_run r i s t"
  shows "marks_inv t"
proof -
  obtain u where u: "same_marks s u" and t: "t = run_over r i u \<or> (\<exists>st. runner_stage r st \<and> t = flow_wait i (run_task r st) u)"
    using assms(2) by (auto simp: takes_run_def)
  have hand: "in_hand i r u" using assms(1) in_hand_same [OF u] by simp
  from t show ?thesis
  proof
    assume t: "t = run_over r i u"
    have "runs t = runs (flow_done i u)" "tasks_ok t = tasks_ok (flow_done i u)"
      by (simp_all only: t runs_def tasks_ok_def flow_done_def over_tasks) simp_all
    then show ?thesis
      using hand released_marks [of r u i] tasks_ok_done by (simp add: marks_inv_def in_hand_def t)
  next
    assume "\<exists>st. runner_stage r st \<and> t = flow_wait i (run_task r st) u"
    then obtain st where st: "runner_stage r st" and t: "t = flow_wait i (run_task r st) u" by blast
    have "run_marks r t = run_marks r u" by (simp add: t run_marks_def flow_wait_def)
    then show ?thesis using hand st by (simp add: marks_inv_def in_hand_def t tasks_ok_wait)
  qed
qed

lemma moves_continues:
  assumes "runner_stage r st"
  shows "run_continues r i st a s = s \<or> takes_run r i s (run_continues r i st a s)"
  using assms moves_start [OF marks_cancelling(3) [OF same_marks_refl]]
  by (cases r; cases st; cases a)
    (auto simp: run_continues_def runner_stage_def intro!: moves_start moves_watching moves_polled moves_own moves_wait
      marks_cancelling split: option.split)

lemma marks_cases:
  assumes "marks_inv s"
  obtains "runs s = []" "\<not> speakerAlignInFlight (fm s)" "\<not> startInFlight (fm s)" "tasks_ok s"
  | i r st where "runs s = [(i, r, st)]" "run_marks r s" "runner_stage r st" "tasks_ok s"
proof (cases "runs s")
  case Nil
  with assms that(1) show ?thesis by (simp add: marks_inv_def)
next
  case (Cons x xs)
  obtain i r st where x: "x = (i, r, st)" by (cases x)
  with assms Cons have "runs s = [(i, r, st)]" "run_marks r s" "runner_stage r st" "tasks_ok s"
    by (auto simp: marks_inv_def split: list.splits)
  with that(2) show ?thesis .
qed

lemma marks_run_answered:
  assumes "marks_inv s" "map_of (flowTasks s) i = Some (run_task r st)"
  shows "marks_inv (run_continues r i st a s)"
proof -
  have task: "(i, run_task r st) \<in> set (flowTasks s)" using assms(2) by (rule map_of_SomeD)
  then have "(i, r, st) \<in> set (runs s)" by (simp add: runs_in_tasks)
  then have one: "runs s = [(i, r, st)]" "run_marks r s" "runner_stage r st" "tasks_ok s"
    by (cases rule: marks_cases [OF assms(1)]; simp)+
  moreover have "i < flowNext s" using one(4) task by (auto simp: tasks_ok_def)
  ultimately have "in_hand i r s" by (simp add: in_hand_def)
  then show ?thesis using moves_continues [OF one(3), where i = i and a = a and s = s] in_hand_moves assms(1) by auto
qed

lemma marks_core:
  assumes "marks_inv s" "runs t = runs s" "tasks_ok t"
    "autoSubInFlight (fm t) = autoSubInFlight (fm s)" "speakerAlignInFlight (fm t) = speakerAlignInFlight (fm s)"
    "startInFlight (fm t) = startInFlight (fm s)"
  shows "marks_inv t"
  using assms by (auto simp: marks_inv_def run_marks_def flow_in_flight_def split: flow.splits list.splits)

lemma marks_spawn_other:
  assumes "marks_inv s" "\<And>j. as_run (j, t) = None"
  shows "marks_inv (flow_spawn t s)"
proof (rule marks_core [OF assms(1)])
  have ok: "tasks_ok s" using assms(1) by (simp add: marks_inv_def)
  have "runs (flow_spawn t s) = filter (\<lambda>x. fst x \<noteq> flowNext s) (runs s)"
    by (simp add: flow_spawn_def flow_wait_def runs_def List.map_filter_simps runs_filter assms(2))
  then show "runs (flow_spawn t s) = runs s" using fresh_runs [OF ok] by simp
  have "tasks_ok (s\<lparr>flowNext := flowNext s + 1\<rparr>)" using ok by (auto simp: tasks_ok_def less_SucI)
  then show "tasks_ok (flow_spawn t s)" unfolding flow_spawn_def by (rule tasks_ok_wait) simp
qed (simp_all add: flow_spawn_def flow_wait_def)

lemma marks_done_other:
  assumes "marks_inv s" "map_of (flowTasks s) i = Some t" "\<And>j. as_run (j, t) = None"
  shows "marks_inv (flow_done i s)" "runs (flow_done i s) = runs s"
proof -
  have ok: "tasks_ok s" using assms(1) by (simp add: marks_inv_def)
  have "fst x \<noteq> i" if "x \<in> set (runs s)" for x
  proof
    assume i: "fst x = i"
    obtain r st where x: "x = (i, r, st)" using i by (cases x) auto
    with that have "(i, run_task r st) \<in> set (flowTasks s)" by (simp add: runs_in_tasks)
    then have "run_task r st = t" using ok assms(2) by (simp add: tasks_ok_def map_of_is_SomeI)
    with assms(3) [of i] show False by (metis as_run_task option.distinct(1))
  qed
  then show r: "runs (flow_done i s) = runs s" by simp
  show "marks_inv (flow_done i s)"
    by (rule marks_core [OF assms(1) r tasks_ok_done [OF ok]]) (simp_all add: flow_done_def)
qed

lemma marks_claim:
  assumes "marks_inv s" "\<not> autoSubInFlight (fm s)" "\<not> startInFlight (fm s)"
  shows "marks_inv (flow_spawn (OwnRun f st) (claim_flow f s))"
proof -
  let ?s = "(claim_flow f s)\<lparr>flowNext := flowNext (claim_flow f s) + 1\<rparr>"
  have "\<not> run_marks r s" for r
    using assms(2,3) by (cases r) (simp_all add: run_marks_def flow_in_flight_def)
  then have none: "runs s = []" "\<not> speakerAlignInFlight (fm s)" "tasks_ok s"
    by (cases rule: marks_cases [OF assms(1)]; simp)+
  have "runs ?s = []" "tasks_ok ?s" "flowNext (claim_flow f s) = flowNext s"
    using none(1,3) by (cases f; auto simp: claim_flow_def Let_def runs_def tasks_ok_def on_fm_def set_flow_job_def set_flow_cancelling_def less_SucI)+
  moreover have "run_marks (Own f) ?s"
    using assms(2) none(2) by (cases f) (simp_all add: run_marks_def claim_flow_def Let_def on_fm_def set_flow_job_def
        set_flow_cancelling_def set_progress_def set_in_flight_def flow_in_flight_def other_flow_def)
  ultimately have "in_hand (flowNext (claim_flow f s)) (Own f) ?s" by (simp add: in_hand_def)
  from in_hand_moves [OF this moves_own [OF same_marks_refl]] show ?thesis by (simp add: flow_spawn_def)
qed

lemma marks_discovered:
  assumes "marks_inv s" "map_of (flowTasks s) i = Some (Discover gen)"
  shows "marks_inv (discovered gen i resp s)"
proof -
  let ?job = "case resp of Http code (Some data) \<Rightarrow> if resp_ok resp \<and> \<not> nullish data then jget data ''job'' else JNull | _ \<Rightarrow> JNull"
  let ?id = "to_str (jget ?job ''id'')" and ?t = "adopt_run ?job s"
  have over: "marks_inv (recovery_over i s)"
    using marks_core [OF marks_done_other(1) [OF assms], of "recovery_over i s"] marks_done_other(1) [OF assms]
    by (simp add: recovery_over_def flow_done_def runs_def tasks_ok_def marks_inv_def)
  show ?thesis
  proof (cases "recovery_blocked s")
    case True
    then show ?thesis using over by (auto simp: discovered_def Let_def)
  next
    case False
    then have "\<not> run_marks r s" for r
      by (cases r) (simp_all add: run_marks_def flow_in_flight_def recovery_blocked_def)
    then have none: "runs s = []" "tasks_ok s"
      by (cases rule: marks_cases [OF assms(1)]; simp)+
    have "i < flowNext s" using none(2) assms(2) by (auto simp: tasks_ok_def dest!: map_of_SomeD)
    then have "in_hand i (Recovered ?id gen) ?t"
      using none False by (simp add: in_hand_def run_marks_def adopt_run_def on_fm_def set_progress_def runs_def tasks_ok_def
          flow_in_flight_def other_flow_def recovery_blocked_def)
    note hand = in_hand_moves [OF this]
    have "marks_inv (run_over (Recovered ?id gen) i ((handleAutoSubResult ?job ?t)\<lparr>lastAutoSubHandledJobId := ?id\<rparr>))"
      "marks_inv (watch_job (Recovered ?id gen) i ?id [] ?t)"
      by (rule hand; simp add: moves_over moves_job marks_steps)+
    with over show ?thesis unfolding discovered_def Let_def by (simp del: run_task_def)
  qed
qed

lemma marks_answered:
  assumes "marks_inv s"
  shows "marks_inv (flow_answered i a s)"
proof (cases "map_of (flowTasks s) i")
  case (Some t)
  show ?thesis
  proof (cases t)
    case (OwnRun f st)
    then show ?thesis using marks_run_answered [OF assms, of i "Own f" st a] Some by (simp add: flow_answered_def run_task_def)
  next
    case (RecoveredRun job gen st)
    then show ?thesis using marks_run_answered [OF assms, of i "Recovered job gen" st a] Some by (simp add: flow_answered_def run_task_def)
  next
    case (Discover gen)
    then show ?thesis using marks_discovered [OF assms, of i gen] Some assms by (cases a) (simp_all add: flow_answered_def)
  next
    case (CancelRequest f job p)
    have "marks_inv (flow_done i s)" by (rule marks_done_other(1) [OF assms Some]) (simp add: CancelRequest)
    then have "marks_inv (cancel_settled f p resp (flow_done i s))" for resp
      using marks_same [OF marks_cancelling(3) [OF same_marks_refl]] by simp
    then show ?thesis using CancelRequest Some assms by (cases a) (simp_all add: flow_answered_def)
  qed
qed (simp add: flow_answered_def assms)

lemma marks_step:
  assumes "marks_inv s"
  shows "marks_inv (flow_step ev s)"
proof -
  have told: "marks_inv t" if "same_marks s t" for t
    using assms marks_same [OF that] by simp
  have start: "startInFlight (fm s)" if "speakerAlignInFlight (fm s)"
    using assms
  proof (cases rule: marks_cases)
    case (2 i r st)
    then show ?thesis using that by (cases r) (auto simp: run_marks_def flow_in_flight_def other_flow_def)
  qed (use that in simp)
  have cancel: "marks_inv (cancel_flow f s)" for f
    unfolding cancel_flow_def
    using told marks_spawn_other [OF told [OF marks_cancelling(2) [OF same_marks_refl]]] by (simp add: marks_cancelling)
  have auto: "marks_inv (startAutoSubOptimize ready s)" for ready
    using told assms marks_claim [OF assms] by (auto simp: startAutoSubOptimize_def no_capture_def)
  show ?thesis
  proof (cases ev)
    case (AlignClicked catalog ready su side)
    then show ?thesis
      using told assms marks_claim [OF assms] by (auto simp: startSpeakerAlign_def no_capture_def split: sum.split)
  next
    case RecoverAutoSub
    then show ?thesis
      using assms told [of "s\<lparr>autoSubRecoveryPending := True\<rparr>"] by (auto simp: recoverAutoSubJob_def intro: marks_spawn_other)
  next
    case AdvancedClosed
    have "same_marks s (on_fm (\<lambda>m. m\<lparr>activeJobId := [], activeMeasurementKind := []\<rparr>) s)"
      by (simp add: same_marks_def on_fm_def)
    then show ?thesis using assms told AdvancedClosed by (simp add: advanced_closed_def)
  next
    case (FlowAnswered i ms a)
    have "marks_inv (s\<lparr>flowClock := flowClock s + ms\<rparr>)" using told by simp
    then show ?thesis using FlowAnswered marks_answered by simp
  qed (use assms cancel auto told in \<open>simp_all add: auto_sub_clicked_def clearSpeakerAlignResult_def\<close>)
qed

lemma marks_run: "marks_inv s \<Longrightarrow> marks_inv (run_events flow_step es s)"
  by (induction es arbitrary: s) (simp_all add: marks_step)

lemma init_marks: "marks_inv init_flows"
  by (simp add: marks_inv_def tasks_ok_def init_flows_def runs_def List.map_filter_simps init_meas_def)

end
