(* ===== verification/Align_Claims.thy ===== *)
theory Align_Claims
  imports Align_Marks
begin

section \<open>What the Auto Sub and Speaker Align runs promise\<close>

text \<open>
  The properties of \<open>Align_Flows\<close>: one run at a time, whose marks do not outlive its call, an end for every
  run, and no Speaker Align job left running unasked. Closing the idle Advanced dialog is the one event
  that can leave the mark of Auto Sub behind; a lemma shows how.
\<close>

subsection \<open>Flags and calls\<close>

definition stage_awaits :: "flow_stage \<Rightarrow> job_answer \<Rightarrow> bool" where
  "stage_awaits st a = (case (st, a) of
     (FlowFlush, FlushEnded f) \<Rightarrow> True | (FlowSnapshot, Over) \<Rightarrow> True | (FlowStart, Responded r) \<Rightarrow> True
   | (FlowCancelFirst job p, Responded r) \<Rightarrow> True | (FlowSleep w wake, Over) \<Rightarrow> True | (FlowPoll w, Responded r) \<Rightarrow> True
   | (FlowAbandon w reason, Responded r) \<Rightarrow> True | _ \<Rightarrow> False)"

lemma stage_awaits_some: "\<exists>a. stage_awaits st a"
  by (cases st) (auto simp: stage_awaits_def intro: exI [of _ Over] exI [of _ "FlushEnded None"] exI [of _ "Responded (NetError [])"])

text \<open>C9: Auto Sub and Speaker Align never run at the same time. In every state reached by clicks,
  recoveries, answers and closings of the Advanced dialog in any order, never both are marked as in flight
  and there is at most one call; the procedure of that call is marked, the other is not, a start is marked
  exactly when the call was started on this page, and the call waits for an answer. The marks of Speaker
  Align and of a start never outlive their call. As long as the Advanced dialog was not closed meanwhile, the mark of Auto
  Sub does not either, and without a call everything a procedure locks is released: both marks, the start,
  both job ids, both pending cancellations, the active kind and the progress line. (Closing the dialog
  beside a recovered run breaks this last part, as the lemma closing_advanced_strands_auto_sub shows.)\<close>

theorem one_procedure_at_a_time:
  assumes "s = run_events flow_step es init_flows"
  shows "\<not> (autoSubInFlight (fm s) \<and> speakerAlignInFlight (fm s)) \<and> length (runs s) \<le> 1
    \<and> (\<forall>(i, r, st) \<in> set (runs s). flow_in_flight (runner_flow r) (fm s)
        \<and> \<not> flow_in_flight (other_flow (runner_flow r)) (fm s)
        \<and> startInFlight (fm s) = (\<exists>f. r = Own f) \<and> (\<exists>a. stage_awaits st a))
    \<and> (speakerAlignInFlight (fm s) \<or> startInFlight (fm s) \<longrightarrow> runs s \<noteq> [])
    \<and> (AdvancedClosed \<notin> set es \<longrightarrow> (autoSubInFlight (fm s) \<longrightarrow> runs s \<noteq> []) \<and> (runs s = [] \<longrightarrow> idle s))"
proof -
  have "marks_inv s" unfolding assms by (rule marks_run [OF init_marks])
  moreover have one: "\<not> (autoSubInFlight (fm s) \<and> speakerAlignInFlight (fm s))" if "run_marks r s" for r
    using that by (cases "runner_flow r") (auto simp: run_marks_def flow_in_flight_def other_flow_def)
  ultimately have marks: "\<not> (autoSubInFlight (fm s) \<and> speakerAlignInFlight (fm s)) \<and> length (runs s) \<le> 1
    \<and> (\<forall>(i, r, st) \<in> set (runs s). flow_in_flight (runner_flow r) (fm s)
        \<and> \<not> flow_in_flight (other_flow (runner_flow r)) (fm s)
        \<and> startInFlight (fm s) = (\<exists>f. r = Own f) \<and> (\<exists>a. stage_awaits st a))
    \<and> (speakerAlignInFlight (fm s) \<or> startInFlight (fm s) \<longrightarrow> runs s \<noteq> [])"
    using stage_awaits_some by (cases rule: marks_cases) (auto simp: run_marks_def)
  have "(autoSubInFlight (fm s) \<longrightarrow> runs s \<noteq> []) \<and> (runs s = [] \<longrightarrow> idle s)" if "AdvancedClosed \<notin> set es"
  proof -
    have "flow_inv s" unfolding assms by (rule flow_inv_run [OF init_flow_inv that])
    then show ?thesis by (cases rule: inv_cases) (auto simp: idle_def flow_core_def meas_core_def)
  qed
  with marks show ?thesis by blast
qed

lemmas flow_run_simps = flow_answered_def auto_sub_clicked_def startAutoSubOptimize_def recoverAutoSubJob_def recovery_blocked_def
  flow_spawn_def flow_wait_def flow_done_def claim_flow_def on_fm_def set_progress_def set_in_flight_def set_flow_job_def
  set_flow_cancelling_def flow_kind_def init_flows_def init_meas_def run_continues_def run_task_def flow_start_settled_def
  nullish_def job_known_def flow_started_def watch_job_def watch_head_def watch_slept_def
  watch_polled_def watch_read_def show_running_def progressFor_def discovered_def adopt_run_def advanced_closed_def
  runs_def List.map_filter_simps flow_job_def flow_cancelling_def flow_current_def flow_in_flight_def SLEEP_MS_def
  LONG_RUNNING_MS_def MAX_RUNNING_MS_def TERMINAL_def RUNNING_def push_baseline_def run_over_def own_finally_def
  recovered_finally_def flow_released_def clear_progress_def status_line_def flow_toast_def hasActiveMeasurementJob_def Let_def
  js_or_def jget_def or_default_def str_or_empty_def handleAutoSubResult_def
  cancel_flow_def begin_cancel_def

definition running_job :: "string \<Rightarrow> response" where
  "running_job st = Http 200 (Some (JObj [(''job'', JObj [(''id'', JStr ''a1''), (''status'', JStr st)])]))"

definition auto_sub_runs :: "flow_event list" where
  "auto_sub_runs = [AutoSubClicked True, RecoverAutoSub, FlowAnswered 0 5 (FlushEnded None), FlowAnswered 0 0 Over,
     FlowAnswered 0 9 (Responded (running_job ''running'')), FlowAnswered 0 500 Over]"

theorem one_procedure_at_a_time_witness:
  "autoSubInFlight (fm (run_events flow_step auto_sub_runs init_flows))
   \<and> length (runs (run_events flow_step auto_sub_runs init_flows)) = 1
   \<and> idle (run_events flow_step (auto_sub_runs @ [FlowAnswered 0 9 (Responded (running_job ''cancelled''))]) init_flows)"
proof -
  let ?es = "auto_sub_runs @ [FlowAnswered 0 9 (Responded (running_job ''cancelled''))]"
  have "AdvancedClosed \<notin> set auto_sub_runs" "AdvancedClosed \<notin> set ?es"
    and on: "autoSubInFlight (fm (run_events flow_step auto_sub_runs init_flows))"
    and off: "runs (run_events flow_step ?es init_flows) = []"
    by (simp_all add: auto_sub_runs_def running_job_def flow_run_simps)
  then show ?thesis
    using one_procedure_at_a_time [OF refl, of auto_sub_runs] one_procedure_at_a_time [OF refl, of ?es]
    by (cases "runs (run_events flow_step auto_sub_runs init_flows)") simp_all
qed

text \<open>
  A recovered Auto Sub run does not mark a start, so the Advanced dialog can be opened beside it; closing
  that dialog resets the active kind, the run stops watching and leaves its mark behind: no later click
  or recovery starts anything.
\<close>

definition recovered_then_closed :: "flow_event list" where
  "recovered_then_closed = [RecoverAutoSub, FlowAnswered 0 9 (Responded (running_job ''running'')), AdvancedClosed,
     FlowAnswered 0 500 Over, FlowAnswered 0 9 (Responded (running_job ''running''))]"

lemma closing_advanced_strands_auto_sub:
  "runs (run_events flow_step recovered_then_closed init_flows) = []
   \<and> autoSubInFlight (fm (run_events flow_step recovered_then_closed init_flows))
   \<and> runs (run_events flow_step (recovered_then_closed @ [RecoverAutoSub, AutoSubClicked True]) init_flows) = []"
  by (simp add: recovered_then_closed_def running_job_def flow_run_simps)

subsection \<open>Every run ends\<close>

definition sleeps_left :: "nat \<Rightarrow> nat" where
  "sleeps_left elapsed = (MAX_RUNNING_MS - elapsed) div SLEEP_MS"

fun flow_rank :: "nat \<Rightarrow> flow_stage \<Rightarrow> nat" where
  "flow_rank c FlowFlush = 7207"
| "flow_rank c FlowSnapshot = 7206"
| "flow_rank c FlowStart = 7205"
| "flow_rank c (FlowCancelFirst job p) = 7204"
| "flow_rank c (FlowSleep w wake) = 2 * sleeps_left (wake - SLEEP_MS - watchStarted w) + 3"
| "flow_rank c (FlowPoll w) = 2 * sleeps_left (c - watchStarted w) + 4"
| "flow_rank c (FlowAbandon w reason) = 1"

text \<open>A watching loop began in the past.\<close>

fun began :: "nat \<Rightarrow> flow_stage \<Rightarrow> bool" where
  "began c (FlowSleep w wake) = (watchStarted w + SLEEP_MS \<le> wake)"
| "began c (FlowPoll w) = (watchStarted w \<le> c)"
| "began c st = True"

definition run_bound :: "flow_page \<Rightarrow> nat" where
  "run_bound s = (case runs s of [] \<Rightarrow> 0 | (i, r, st) # xs \<Rightarrow> flow_rank (flowClock s) st)"

definition lowers_flow :: "nat \<Rightarrow> flow_page \<Rightarrow> bool" where
  "lowers_flow n s = (runs s = [] \<or> (\<exists>i r st. runs s = [(i, r, st)] \<and> flow_rank (flowClock s) st < n \<and> began (flowClock s) st))"

definition only :: "nat \<Rightarrow> flow_page \<Rightarrow> bool" where
  "only i s = (filter (\<lambda>x. fst x \<noteq> i) (runs s) = [])"

lemma wait_lowers_flow: "only i s \<Longrightarrow> flow_rank (flowClock s) st < n \<Longrightarrow> began (flowClock s) st
    \<Longrightarrow> lowers_flow n (flow_wait i (run_task r st) s)"
  by (simp add: lowers_flow_def only_def) (simp add: flow_wait_def)

lemma frame_runs [simp]:
  "runs (status_line t s) = runs s" "runs (flow_toast a b s) = runs s" "runs (set_flow_job f j s) = runs s"
  "runs (flow_released f s) = runs s" "runs (handleAutoSubResult job s) = runs s" "runs (handleSpeakerAlignResult job s) = runs s"
  "runs (discardSpeakerAlignResults s) = runs s" "runs (s\<lparr>lastAutoSubHandledJobId := k\<rparr>) = runs s"
  "runs (s\<lparr>autoSubRecoveryPending := p\<rparr>) = runs s" "runs (s\<lparr>flowClock := c\<rparr>) = runs s"
  by (cases f; simp add: runs_def status_line_def flow_toast_def on_fm_def set_flow_job_def flow_released_def
      set_flow_cancelling_def handleAutoSubResult_def handleSpeakerAlignResult_def discardSpeakerAlignResults_def Let_def)+

lemma frame_clock [simp]:
  "flowClock (on_fm g s) = flowClock s" "flowClock (status_line t s) = flowClock s" "flowClock (flow_toast a b s) = flowClock s"
  "flowClock (set_flow_job f j s) = flowClock s" "flowClock (set_flow_cancelling f x s) = flowClock s"
  by (cases f; simp add: on_fm_def status_line_def flow_toast_def set_flow_job_def set_flow_cancelling_def)+

lemma end_clock [simp]:
  "flowClock (flow_wait i t s) = flowClock s" "flowClock (flow_done i s) = flowClock s" "flowClock (flow_released f s) = flowClock s"
  "flowClock (handleAutoSubResult job s) = flowClock s" "flowClock (discardSpeakerAlignResults s) = flowClock s"
  "flowClock (recovery_over i s) = flowClock s"
  by (simp_all add: flow_wait_def flow_done_def flow_released_def handleAutoSubResult_def discardSpeakerAlignResults_def recovery_over_def Let_def)

lemma over_clock [simp]: "flowClock (run_over r i s) = flowClock s"
  by (cases r) (simp_all add: run_over_def own_finally_def recovered_finally_def)

lemma over_runs [simp]: "runs (run_over r i s) = filter (\<lambda>x. fst x \<noteq> i) (runs s)"
  by (cases r) (simp_all add: run_over_def own_finally_def recovered_finally_def)

lemma only_frame [simp]:
  "only i (on_fm g s) = only i s" "only i (status_line t s) = only i s" "only i (flow_toast a b s) = only i s"
  "only i (set_flow_job f j s) = only i s" "only i (set_flow_cancelling f x s) = only i s"
  "only i (handleAutoSubResult job s) = only i s" "only i (handleSpeakerAlignResult job s) = only i s"
  "only i (discardSpeakerAlignResults s) = only i s" "only i (s\<lparr>lastAutoSubHandledJobId := k\<rparr>) = only i s"
  by (simp_all add: only_def)

lemma over_lowers: "only i s \<Longrightarrow> lowers_flow n (run_over r i s)"
  by (cases r) (simp_all add: lowers_flow_def only_def run_over_def own_finally_def recovered_finally_def)

lemma head_lowers:
  assumes "only i s" "watchStarted w \<le> flowClock s" "2 * sleeps_left (flowClock s - watchStarted w) + 3 < n"
  shows "lowers_flow n (watch_head r i w s)"
  using assms by (auto simp: watch_head_def intro!: over_lowers wait_lowers_flow)

lemma give_up_lowers: "only i s \<Longrightarrow> 1 < n \<Longrightarrow> lowers_flow n (give_up r i w a b c s)"
  by (auto simp: give_up_def split: flow.split intro!: over_lowers wait_lowers_flow)

lemma sleeps_late: "e + SLEEP_MS \<le> e' \<Longrightarrow> e' < MAX_RUNNING_MS \<Longrightarrow> sleeps_left e' + 1 \<le> sleeps_left e"
proof -
  assume e: "e + SLEEP_MS \<le> e'" "e' < MAX_RUNNING_MS"
  then have "MAX_RUNNING_MS - e' + SLEEP_MS \<le> MAX_RUNNING_MS - e" by simp
  then have "(MAX_RUNNING_MS - e' + SLEEP_MS) div SLEEP_MS \<le> sleeps_left e" unfolding sleeps_left_def by (rule div_le_mono)
  then show ?thesis by (simp add: sleeps_left_def SLEEP_MS_def)
qed

lemma slept_lowers:
  assumes "only i s" "watchStarted w + SLEEP_MS \<le> wake" "wake \<le> flowClock s"
  shows "lowers_flow (2 * sleeps_left (wake - SLEEP_MS - watchStarted w) + 3) (watch_slept r i w s)"
proof (cases "MAX_RUNNING_MS \<le> flowClock s - watchStarted w")
  case True
  with assms(1) show ?thesis by (simp add: watch_slept_def give_up_lowers)
next
  case False
  moreover from assms have "wake - SLEEP_MS - watchStarted w + SLEEP_MS \<le> flowClock s - watchStarted w" by simp
  ultimately have "sleeps_left (flowClock s - watchStarted w) + 1 \<le> sleeps_left (wake - SLEEP_MS - watchStarted w)"
    by (intro sleeps_late) simp_all
  then have "lowers_flow (2 * sleeps_left (wake - SLEEP_MS - watchStarted w) + 3) (flow_wait i (run_task r (FlowPoll w)) s)"
    using assms by (intro wait_lowers_flow) simp_all
  with False show ?thesis by (simp add: watch_slept_def)
qed

lemma polled_lowers:
  assumes "only i s" "watchStarted w \<le> flowClock s"
  shows "lowers_flow (2 * sleeps_left (flowClock s - watchStarted w) + 4) (watch_polled r i w resp s)"
proof -
  have err: "lowers_flow (2 * sleeps_left (flowClock s - watchStarted w) + 4) (watch_error r i w m s)" for m
    using assms by (auto simp: watch_error_def Let_def intro!: give_up_lowers head_lowers)
  have gone: "lowers_flow n (watch_gone r i w s)" for n
    using assms by (auto simp: watch_gone_def intro!: over_lowers split: flow.split)
  have shown: "only i (show_running f v job s)" "flowClock (show_running f v job s) = flowClock s" for f v job
    using assms by (simp_all add: show_running_def Let_def)
  then have "lowers_flow (2 * sleeps_left (flowClock s - watchStarted w) + 4) (watch_read r i w job s)" for job
    using assms by (auto simp: watch_read_def Let_def intro!: over_lowers head_lowers)
  with err gone assms show ?thesis by (auto simp: watch_polled_def Let_def intro!: over_lowers split: response.split)
qed

lemma threw_lowers: "only i s \<Longrightarrow> lowers_flow n (start_threw f i m s)"
  using over_lowers [of i _ n "Own f"] by (cases f) (simp_all add: start_threw_def run_over_def)

lemma started_lowers: "only i s \<Longrightarrow> 7203 < n \<Longrightarrow> lowers_flow n (flow_started f i s)"
  by (auto simp: flow_started_def watch_job_def sleeps_left_def MAX_RUNNING_MS_def SLEEP_MS_def intro!: threw_lowers head_lowers)

lemma settled_lowers:
  assumes "only i s"
  shows "lowers_flow 7205 (flow_start_settled f i resp s)"
proof -
  have "lowers_flow 7205 (job_known f i job s)" for job
    using assms wait_lowers_flow [where r = "Own f"]
    by (auto simp: job_known_def Let_def begin_cancel_def note_cancel_def run_task_def intro!: started_lowers)
  with assms show ?thesis by (auto simp: flow_start_settled_def Let_def intro!: threw_lowers split: response.split)
qed


lemma cancel_settled_frame [simp]: "runs (cancel_settled f p resp s) = runs s" "flowClock (cancel_settled f p resp s) = flowClock s"
  by (simp_all add: cancel_settled_def cancel_failed_def Let_def split: response.split)

lemma continues_lowers:
  assumes "only i s" "stage_awaits st a" "began (flowClock s) st"
    and "\<And>w wake. st = FlowSleep w wake \<Longrightarrow> wake \<le> flowClock s"
  shows "lowers_flow (flow_rank (flowClock s) st) (run_continues r i st a s)"
proof -
  have "only i (cancel_settled f p resp s)" for f p resp using assms(1) by (simp add: only_def)
  then show ?thesis
    using assms slept_lowers [OF assms(1)] polled_lowers [OF assms(1)] settled_lowers [OF assms(1)]
    by (cases st; cases a) (auto simp: run_continues_def stage_awaits_def abandoned_def Let_def
        intro!: threw_lowers wait_lowers_flow started_lowers over_lowers split: option.split)
qed

text \<open>A sleep is not over before its time.\<close>

definition timely :: "flow_event \<Rightarrow> flow_page \<Rightarrow> bool" where
  "timely ev s = (\<forall>i ms a r w wake. ev = FlowAnswered i ms a \<and> (i, r, FlowSleep w wake) \<in> set (runs s) \<longrightarrow> wake \<le> flowClock s + ms)"

fun timely_run :: "flow_event list \<Rightarrow> flow_page \<Rightarrow> bool" where
  "timely_run [] s = True"
| "timely_run (ev # es) s = (timely ev s \<and> timely_run es (flow_step ev s))"

fun run_answers :: "nat \<Rightarrow> flow_event list \<Rightarrow> flow_page \<Rightarrow> nat" where
  "run_answers i [] s = 0"
| "run_answers i (ev # es) s =
     (case ev of FlowAnswered j ms a \<Rightarrow> if j = i \<and> (\<exists>r st. (i, r, st) \<in> set (runs s) \<and> stage_awaits st a) then 1 else 0 | _ \<Rightarrow> 0)
     + run_answers i es (flow_step ev s)"

fun stays_running :: "nat \<Rightarrow> flow_event list \<Rightarrow> flow_page \<Rightarrow> bool" where
  "stays_running i [] s = (i \<in> fst ` set (runs s))"
| "stays_running i (ev # es) s = (i \<in> fst ` set (runs s) \<and> stays_running i es (flow_step ev s))"

definition begun :: "flow_page \<Rightarrow> bool" where
  "begun s = (\<forall>x \<in> set (runs s). began (flowClock s) (snd (snd x)))"

lemma began_mono: "began c st \<Longrightarrow> c \<le> c' \<Longrightarrow> began c' st"
  by (cases st) auto

lemma rank_mono: "c \<le> c' \<Longrightarrow> flow_rank c' st \<le> flow_rank c st"
  by (cases st) (auto simp: sleeps_left_def intro!: div_le_mono)

text \<open>What another event does to the runs.\<close>

definition undisturbed :: "flow_page \<Rightarrow> flow_page \<Rightarrow> bool" where
  "undisturbed s s' = (flowClock s \<le> flowClock s'
     \<and> (runs s' = runs s \<or> (runs s = [] \<and> (\<exists>i r st. runs s' = [(i, r, st)] \<and> began (flowClock s') st))))"

lemma quiet_same: "runs s' = runs s \<Longrightarrow> flowClock s' = flowClock s \<Longrightarrow> undisturbed s s'"
  by (simp add: undisturbed_def)

lemma spawn_quiet: "tasks_ok s \<Longrightarrow> (\<And>j. as_run (j, t) = None) \<Longrightarrow> runs (flow_spawn t s) = runs s \<and> flowClock (flow_spawn t s) = flowClock s"
  using fresh_runs [of s] by (simp add: flow_spawn_def flow_wait_def runs_def List.map_filter_simps runs_filter)

lemma cancel_quiet:
  assumes "flow_inv s"
  shows "undisturbed s (cancel_flow f s)"
proof -
  have "tasks_ok (begin_cancel f s)" using assms by (simp add: flow_inv_alt begin_cancel_def tasks_ok_def on_fm_def)
  then show ?thesis
    using spawn_quiet [of "begin_cancel f s"] by (intro quiet_same) (simp_all add: cancel_flow_def note_cancel_def begin_cancel_def)
qed

lemma no_run: "flow_inv s \<Longrightarrow> \<not> autoSubInFlight (fm s) \<Longrightarrow> \<not> speakerAlignInFlight (fm s) \<Longrightarrow> runs s = []"
  by (erule inv_cases) (auto simp: carried_def holds_def Let_def flow_in_flight_def split: flow.splits)

lemma claimed_quiet:
  assumes "runs s = []" "began (flowClock s) st"
  shows "undisturbed s (flow_spawn (OwnRun f st) (claim_flow f s))"
proof -
  have "runs (claim_flow f s) = []" "flowClock (claim_flow f s) = flowClock s"
    using assms(1) by (cases f; simp add: claim_flow_def Let_def runs_def on_fm_def set_flow_job_def set_flow_cancelling_def)+
  with assms show ?thesis
    using runs_wait [of _ "Own f" st] by (simp add: undisturbed_def flow_spawn_def run_task_def) (simp add: flow_wait_def runs_def)
qed

lemma discovered_quiet:
  assumes "flow_inv s" "map_of (flowTasks s) i = Some (Discover gen)"
  shows "undisturbed s (discovered gen i resp s)"
proof (cases "recovery_blocked s")
  case True
  then have "discovered gen i resp s = recovery_over i s" by (simp add: discovered_def Let_def)
  moreover have "runs (flow_done i s) = runs s" by (rule done_other_runs [OF assms]) simp
  ultimately show ?thesis by (intro quiet_same) (simp_all add: recovery_over_def flow_done_def runs_def)
next
  case False
  then have none: "runs s = []" using no_run [OF assms(1)] by (simp add: recovery_blocked_def)
  have over: "runs (recovery_over i s) = []" using none by (simp add: recovery_over_def flow_done_def runs_def runs_filter)
  have adopted: "runs (adopt_run job s) = []" "flowClock (adopt_run job s) = flowClock s" for job
    using none by (simp_all add: adopt_run_def runs_def on_fm_def)
  have over': "undisturbed s (run_over (Recovered id gen) i (x\<lparr>lastAutoSubHandledJobId := k\<rparr>))"
    if "runs x = []" "flowClock x = flowClock s" for id x k
  proof -
    have "runs (run_over (Recovered id gen) i (x\<lparr>lastAutoSubHandledJobId := k\<rparr>)) = []"
      using that(1) by (simp add: run_over_def recovered_finally_def)
    then show ?thesis using that(2) none by (intro quiet_same) simp_all
  qed
  have watched: "undisturbed s (watch_job (Recovered id gen) i id [] (adopt_run job s))" for id job
    using adopted none by (simp add: watch_job_def watch_head_def undisturbed_def)
  show ?thesis
    unfolding discovered_def Let_def using over over' watched adopted none
    by (auto intro!: quiet_same)
qed

lemma start_quiet: "flow_inv s \<Longrightarrow> undisturbed s (startAutoSubOptimize ready s)"
  using no_run [of s] align_holds_start [of s] claimed_quiet [of s FlowFlush AutoSub]
  by (auto simp: startAutoSubOptimize_def no_capture_def intro: quiet_same)

lemma align_quiet: "flow_inv s \<Longrightarrow> undisturbed s (startSpeakerAlign catalog ready su side s)"
  using no_run [of s] claimed_quiet [of s FlowSnapshot "Align side"]
  by (auto simp: startSpeakerAlign_def no_capture_def intro: quiet_same split: sum.split)

lemma recover_quiet:
  assumes "flow_inv s"
  shows "undisturbed s (recoverAutoSubJob s)"
proof -
  have "tasks_ok (s\<lparr>autoSubRecoveryPending := True\<rparr>)" using assms by (simp add: flow_inv_alt tasks_ok_def)
  then show ?thesis
    using spawn_quiet [of "s\<lparr>autoSubRecoveryPending := True\<rparr>"] by (auto simp: recoverAutoSubJob_def intro: quiet_same)
qed

definition answers_run :: "flow_event \<Rightarrow> flow_page \<Rightarrow> bool" where
  "answers_run ev s = (\<exists>j ms a r st. ev = FlowAnswered j ms a \<and> (j, r, st) \<in> set (runs s) \<and> stage_awaits st a)"

lemma unawaited: "\<not> stage_awaits st a \<Longrightarrow> run_continues r i st a s = s"
  by (cases st; cases a) (simp_all add: stage_awaits_def run_continues_def)

lemma other_answer_quiet:
  assumes inv: "flow_inv s" and other: "\<not> (\<exists>r st. (i, r, st) \<in> set (runs s) \<and> stage_awaits st a)"
  shows "undisturbed s (flow_answered i a s)"
proof (cases "map_of (flowTasks s) i")
  case None
  then show ?thesis by (simp add: flow_answered_def quiet_same)
next
  case (Some t)
  have same: "undisturbed s s" by (simp add: quiet_same)
  have run: "\<not> stage_awaits st a" if "t = run_task r st" for r st
    using other map_of_SomeD [OF Some] that by (auto simp: runs_in_tasks)
  show ?thesis
  proof (cases t)
    case (OwnRun f st)
    then show ?thesis using run [of "Own f" st] same Some by (simp add: flow_answered_def run_task_def unawaited)
  next
    case (RecoveredRun job gen st)
    then show ?thesis using run [of "Recovered job gen" st] same Some by (simp add: flow_answered_def run_task_def unawaited)
  next
    case (Discover gen)
    then show ?thesis using discovered_quiet [OF inv, of i gen] Some same by (cases a) (simp_all add: flow_answered_def)
  next
    case (CancelRequest f job p)
    then have "runs (flow_done i s) = runs s" by (intro done_other_runs [OF inv Some]) simp
    then have "undisturbed s (cancel_settled f p resp (flow_done i s))" for resp by (intro quiet_same) simp_all
    then show ?thesis using CancelRequest Some same by (cases a) (simp_all add: flow_answered_def)
  qed
qed

lemma quiet_step:
  assumes "flow_inv s" "ev \<noteq> AdvancedClosed" "\<not> answers_run ev s"
  shows "undisturbed s (flow_step ev s)"
proof (cases ev)
  case (FlowAnswered i ms a)
  let ?s = "s\<lparr>flowClock := flowClock s + ms\<rparr>"
  have "undisturbed ?s (flow_answered i a ?s)"
    using assms(1,3) FlowAnswered by (intro other_answer_quiet) (auto simp: answers_run_def)
  then show ?thesis by (auto simp: FlowAnswered undisturbed_def)
next
  case PanelClosed
  then show ?thesis by (simp add: clearSpeakerAlignResult_def quiet_same)
qed (use assms in \<open>auto simp: quiet_same auto_sub_clicked_def cancel_quiet start_quiet align_quiet recover_quiet\<close>)

lemma quiet_begun: "undisturbed s s' \<Longrightarrow> begun s \<Longrightarrow> begun s'"
  by (auto simp: undisturbed_def begun_def intro: began_mono)

lemma quiet_bound:
  assumes "undisturbed s s'" "runs s \<noteq> []"
  shows "runs s' = runs s" "run_bound s' \<le> run_bound s"
proof -
  show r: "runs s' = runs s" using assms by (simp add: undisturbed_def)
  show "run_bound s' \<le> run_bound s"
    using assms(1) r by (auto simp: run_bound_def undisturbed_def rank_mono split: list.split)
qed

lemma flow_answer_lowers:
  assumes inv: "flow_inv s" and begun: "begun s" and ev: "answers_run ev s" "timely ev s"
  shows "lowers_flow (run_bound s) (flow_step ev s)"
proof -
  from ev(1) obtain i ms a r st where
    a: "ev = FlowAnswered i ms a" "(i, r, st) \<in> set (runs s)" "stage_awaits st a" by (auto simp: answers_run_def)
  let ?s = "s\<lparr>flowClock := flowClock s + ms\<rparr>"
  have one: "runs s = [(i, r, st)]" using inv a(2) by (cases rule: inv_cases) auto
  have task: "map_of (flowTasks s) i = Some (run_task r st)"
    using a(2) inv by (auto simp: runs_in_tasks flow_inv_def)
  have "began (flowClock s) st" using begun a(2) by (auto simp: begun_def)
  then have "began (flowClock ?s) st" by (rule began_mono) simp
  moreover have "wake \<le> flowClock ?s" if "st = FlowSleep w wake" for w wake
    using ev(2) a(1,2) that by (auto simp: timely_def)
  ultimately have "lowers_flow (flow_rank (flowClock ?s) st) (run_continues r i st a ?s)"
    using one a(3) by (intro continues_lowers) (simp_all add: only_def)
  moreover have "flow_rank (flowClock ?s) st \<le> run_bound s" using one by (simp add: run_bound_def rank_mono)
  moreover have "flow_step ev s = run_continues r i st a ?s"
    using a(1) task by (cases r) (simp_all add: flow_answered_def run_task_def)
  ultimately show ?thesis by (auto simp: lowers_flow_def)
qed

lemma lowered: "lowers_flow n s \<Longrightarrow> begun s \<and> (runs s \<noteq> [] \<longrightarrow> run_bound s < n)"
  by (auto simp: lowers_flow_def begun_def run_bound_def)

lemma begun_step: "flow_inv s \<Longrightarrow> begun s \<Longrightarrow> ev \<noteq> AdvancedClosed \<Longrightarrow> timely ev s \<Longrightarrow> begun (flow_step ev s)"
  using lowered [OF flow_answer_lowers] quiet_begun [OF quiet_step] by (cases "answers_run ev s") blast+

lemma answers_bounded:
  assumes "flow_inv s" "begun s" "AdvancedClosed \<notin> set es" "timely_run es s" "stays_running i es s"
  shows "run_answers i es s \<le> run_bound s"
  using assms
proof (induction es arbitrary: s)
  case (Cons ev es)
  from Cons.prems have ev: "ev \<noteq> AdvancedClosed" "timely ev s" and i: "i \<in> fst ` set (runs s)" by auto
  let ?s = "flow_step ev s"
  have rest: "run_answers i es ?s \<le> run_bound ?s"
    using Cons.prems flow_step_inv [OF Cons.prems(1) ev(1)] begun_step [OF Cons.prems(1,2) ev] by (intro Cons.IH) auto
  have "i \<in> fst ` set (runs ?s)" using Cons.prems(5) by (cases es) simp_all
  then have on: "runs ?s \<noteq> []" "runs s \<noteq> []" using i by auto
  show ?case
  proof (cases "answers_run ev s")
    case True
    then have "run_bound ?s < run_bound s" using lowered [OF flow_answer_lowers [OF Cons.prems(1,2) True ev(2)]] on(1) by simp
    then show ?thesis using rest by (auto split: flow_event.split)
  next
    case False
    then have "run_bound ?s \<le> run_bound s" using quiet_bound [OF quiet_step [OF Cons.prems(1) ev(1) False] on(2)] by simp
    moreover have "\<not> (\<exists>r st. (i, r, st) \<in> set (runs s) \<and> stage_awaits st a)" if "ev = FlowAnswered i ms a" for ms a
      using False that by (auto simp: answers_run_def)
    ultimately show ?thesis using rest by (auto split: flow_event.split)
  qed
qed simp

lemma begun_run: "flow_inv s \<Longrightarrow> begun s \<Longrightarrow> AdvancedClosed \<notin> set es \<Longrightarrow> timely_run es s \<Longrightarrow> begun (run_events flow_step es s)"
proof (induction es arbitrary: s)
  case (Cons ev es)
  then show ?case using flow_step_inv [OF Cons.prems(1), of ev] begun_step [OF Cons.prems(1,2), of ev] by auto
qed simp

lemma sleeps_left_le: "2 * sleeps_left e \<le> 7200"
  by (simp add: sleeps_left_def MAX_RUNNING_MS_def SLEEP_MS_def)

lemma rank_top: "flow_rank c st \<le> 7207"
proof (cases st)
  case (FlowSleep w wake)
  then show ?thesis using sleeps_left_le [of "wake - SLEEP_MS - watchStarted w"] by simp
next
  case (FlowPoll w)
  then show ?thesis using sleeps_left_le [of "c - watchStarted w"] by simp
qed simp_all

text \<open>C10: Every Auto Sub and Speaker Align run ends. Whatever the backend answers to the run's requests, and
  whatever else is clicked or recovered meanwhile, a run that exists has received at most 7207 answers since
  (a request that failed or was refused counts), and it still waits for one: the watching loop
  stops after 30 minutes of its own 500 millisecond sleeps, provided only that no sleep ends early and the
  idle Advanced dialog is not closed.\<close>

theorem every_run_ends:
  assumes "AdvancedClosed \<notin> set (es @ fs)" "s = run_events flow_step es init_flows"
    and "timely_run es init_flows" "timely_run fs s" "stays_running i fs s"
  shows "run_answers i fs s \<le> 7207
    \<and> (\<exists>r st a. (i, r, st) \<in> set (runs (run_events flow_step fs s)) \<and> stage_awaits st a)"
proof
  have start: "begun init_flows" by (simp add: begun_def init_flows_def runs_def List.map_filter_simps)
  have "flow_inv s" "begun s"
    using assms(1,3) flow_inv_run [OF init_flow_inv] begun_run [OF init_flow_inv start] by (simp_all add: assms(2))
  then have "run_answers i fs s \<le> run_bound s" using assms by (intro answers_bounded) simp_all
  also have "run_bound s \<le> 7207" by (auto simp: run_bound_def rank_top split: list.split)
  finally show "run_answers i fs s \<le> 7207" .
  have "i \<in> fst ` set (runs (run_events flow_step fs s))" using assms(5) by (induction fs arbitrary: s) simp_all
  then show "\<exists>r st a. (i, r, st) \<in> set (runs (run_events flow_step fs s)) \<and> stage_awaits st a"
    using stage_awaits_some by fastforce
qed

theorem every_run_ends_witness:
  "run_answers 0 (tl auto_sub_runs) (run_events flow_step [AutoSubClicked True] init_flows) = 4
   \<and> run_answers 0 (tl auto_sub_runs) (run_events flow_step [AutoSubClicked True] init_flows) \<le> 7207"
proof -
  have "run_answers 0 (tl auto_sub_runs) (run_events flow_step [AutoSubClicked True] init_flows) = 4"
    and "timely_run [AutoSubClicked True] init_flows"
    and "timely_run (tl auto_sub_runs) (run_events flow_step [AutoSubClicked True] init_flows)"
    and "stays_running 0 (tl auto_sub_runs) (run_events flow_step [AutoSubClicked True] init_flows)"
    and "AdvancedClosed \<notin> set ([AutoSubClicked True] @ tl auto_sub_runs)"
    by (simp_all add: auto_sub_runs_def running_job_def flow_run_simps timely_def stage_awaits_def)
  then show ?thesis using every_run_ends [of "[AutoSubClicked True]" "tl auto_sub_runs", OF _ refl] by simp
qed

subsection \<open>No job is left running\<close>

fun knows_job :: "flow_stage \<Rightarrow> bool" where
  "knows_job (FlowCancelFirst job p) = True"
| "knows_job (FlowSleep w wake) = True"
| "knows_job (FlowPoll w) = True"
| "knows_job st = False"

text \<open>What the backend says when it no longer runs the job.\<close>

definition says_over :: "flow \<Rightarrow> response \<Rightarrow> bool" where
  "says_over f resp = (case resp of NetError m \<Rightarrow> False
     | Http code body \<Rightarrow> if resp_ok resp then \<not> nullish (json_or_empty resp)
           \<and> jget (js_or (jget (json_or_empty resp) ''job'') (JObj [])) ''status'' \<in> JStr ` set (TERMINAL f)
         else gone code)"

lemma watch_on:
  assumes "flow_current (runner_flow r) (watchJob w) (watchGen w) s"
  shows "i \<in> fst ` set (runs (watch_head r i w s))"
  using assms by (simp add: watch_head_def)

lemma align_gives_up: "runner_flow r = Align side \<Longrightarrow> i \<in> fst ` set (runs (give_up r i w a b c s))"
  by (simp add: give_up_def)

lemma current_kept [simp]:
  "flow_current f j g (on_fm (push_baseline job) s) = flow_current f j g s"
  "flow_current f j g (show_running f' w job s) = flow_current f j g s"
  by (cases f; simp add: flow_current_def on_fm_def push_baseline_def flow_job_def flow_in_flight_def)
    (simp add: show_running_def Let_def)

lemma align_polled:
  assumes "runner_flow r = Align side" "flow_current (Align side) (watchJob w) (watchGen w) s"
    and "\<not> says_over (Align side) resp"
  shows "i \<in> fst ` set (runs (watch_polled r i w resp s))"
proof -
  have "i \<in> fst ` set (runs (watch_error r i w m s))" for m
    using assms watch_on [of r "w\<lparr>watchErrors := watchErrors w + 1\<rparr>" s i] by (simp add: watch_error_def Let_def align_gives_up)
  moreover have "i \<in> fst ` set (runs (watch_read r i w job s))" if "jget job ''status'' \<notin> JStr ` set (TERMINAL (Align side))" for job
    using assms(1,2) that by (simp add: watch_read_def Let_def watch_on)
  ultimately show ?thesis
    using assms by (auto simp: watch_polled_def says_over_def Let_def split: response.splits if_splits)
qed

lemma carried_kind: "carried i r s \<Longrightarrow> activeMeasurementKind (fm s) = flow_kind (runner_flow r)"
  by (simp add: carried_def holds_kind)

text \<open>C11: The page never leaves a Speaker Align job running unasked. Once the run knows its job, the only
  answers after which the run is over are the backend's: the job has ended (a terminal status), or it does
  not know it any more (404 or 410). Nothing else ends it - no failed or refused request, no malformed
  answer, no timeout, no click, no other run: when the run gives up, it still waits for its own
  cancel request.\<close>

theorem align_job_never_left_running:
  assumes "AdvancedClosed \<notin> set es" "s = run_events flow_step es init_flows" "ev \<noteq> AdvancedClosed"
    and "(i, Own (Align side), st) \<in> set (runs s)" "knows_job st" "i \<notin> fst ` set (runs (flow_step ev s))"
  shows "\<exists>ms resp. ev = FlowAnswered i ms (Responded resp) \<and> says_over (Align side) resp"
proof -
  have inv: "flow_inv s" unfolding assms(2) by (rule flow_inv_run [OF init_flow_inv assms(1)])
  have one: "runs s = [(i, Own (Align side), st)]" and fits: "flow_stage_fits (Align side) st s"
    and carried: "carried i (Own (Align side)) s"
    using inv assms(4) by (cases rule: inv_cases; force)+
  have "answers_run ev s"
  proof (rule ccontr)
    assume "\<not> answers_run ev s"
    then have "runs (flow_step ev s) = runs s" using quiet_bound [OF quiet_step [OF inv assms(3)]] one by simp
    then show False using assms(6) one by simp
  qed
  then obtain ms a where ev: "ev = FlowAnswered i ms a" "stage_awaits st a" using one by (auto simp: answers_run_def)
  let ?s = "s\<lparr>flowClock := flowClock s + ms\<rparr>"
  have task: "map_of (flowTasks s) i = Some (OwnRun (Align side) st)"
    using assms(4) inv by (auto simp: runs_in_tasks flow_inv_def run_task_def)
  then have goes: "flow_step ev s = run_continues (Own (Align side)) i st a ?s" by (simp add: ev(1) flow_answered_def)
  have cur: "flow_current f j g ?s = flow_current f j g s" for f j g
    by (simp add: flow_current_def flow_job_def split: flow.split)
  show ?thesis
  proof (cases st)
    case (FlowSleep w wake)
    then show ?thesis using assms(6) ev(2) goes
      by (cases a) (simp_all add: stage_awaits_def run_continues_def watch_slept_def align_gives_up split: if_splits)
  next
    case (FlowPoll w)
    then have "flow_current (Align side) (watchJob w) (watchGen w) ?s" using fits cur by simp
    then have "says_over (Align side) resp" if "i \<notin> fst ` set (runs (watch_polled (Own (Align side)) i w resp ?s))" for resp
      using that align_polled [of "Own (Align side)" side w ?s resp i] by (simp only: own_flow) blast
    then show ?thesis using FlowPoll assms(6) ev(2) goes by (cases a) (simp_all add: ev(1) stage_awaits_def run_continues_def)
  next
    case (FlowCancelFirst job p)
    let ?t = "\<lambda>resp. cancel_settled (Align side) p resp ?s"
    have "carried i (Own (Align side)) ?s" using carried carried_same [of s ?s] by (simp add: same_flow_def flow_core_def)
    then have "activeMeasurementKind (fm (?t resp)) = flow_kind (Align side)" for resp
      using cancel_settled_carried [THEN carried_kind] by simp
    moreover have "flow_job (Align side) (?t resp) = job" for resp
      using fits FlowCancelFirst
      by (simp add: cancel_settled_def cancel_failed_def Let_def flow_toast_def status_line_def on_fm_def split: response.split)
    ultimately have "i \<in> fst ` set (runs (flow_started (Align side) i (?t resp)))" for resp
      using fits FlowCancelFirst by (simp add: flow_started_def watch_job_def watch_head_def flow_current_def)
    then show ?thesis using FlowCancelFirst assms(6) ev(2) goes
      by (cases a) (simp_all add: stage_awaits_def run_continues_def Let_def)
  qed (use assms(5) in simp_all)
qed

definition two_way_catalog :: jsval where
  "two_way_catalog = JObj [(''active_mode'', JStr ''stereo''), (''modes'', JObj [(''stereo'', JObj
     [(''crossover_enabled'', JBool True), (''selected_bank'', JStr ''global''),
      (''topology'', JObj [(''way_count'', JNum (Fin 2)), (''issues'', JArr []),
         (''left_ways'', JArr [JStr ''woofer'', JStr ''tweeter'']), (''right_ways'', JArr [JStr ''woofer'', JStr ''tweeter''])]),
      (''processing'', JObj [(''woofer'', JObj [(''lowpass'', JObj [(''frequency_hz'', JNum (Fin 2000))])]),
         (''tweeter'', JObj [(''highpass'', JObj [(''frequency_hz'', JNum (Fin 2000))])])])])])]"

definition mic_setup :: align_setup where
  "mic_setup = \<lparr>alignInput = JStr ''umik'', alignMic = JStr ''1'', alignReference = JStr ''2'', alignReferenceLeft = JUndef,
     alignReferenceRight = JUndef, alignSplit = False, alignReferenceWarning = False, alignPosition = ''left-1''\<rparr>"

lemma two_way_visible: "speakerAlignVisible two_way_catalog"
  by code_simp

lemma mic_payload: "\<exists>p. readSpeakerAlignPayload mic_setup ''left'' = Inr p"
proof -
  have "(case readSpeakerAlignPayload mic_setup ''left'' of Inl m \<Rightarrow> False | Inr p \<Rightarrow> True)" by code_simp
  then show ?thesis by (cases "readSpeakerAlignPayload mic_setup ''left''") simp_all
qed

definition align_runs :: "flow_event list" where
  "align_runs = [AlignClicked two_way_catalog True mic_setup ''left'', FlowAnswered 0 0 Over,
     FlowAnswered 0 9 (Responded (running_job ''acquiring'')), FlowAnswered 0 500 Over]"

theorem align_job_never_left_running_witness:
  "runs (flow_step (FlowAnswered 0 9 (Responded (running_job ''committed''))) (run_events flow_step align_runs init_flows)) = []
   \<and> says_over (Align ''left'') (running_job ''committed'')"
proof -
  obtain p where p: "readSpeakerAlignPayload mic_setup ''left'' = Inr p" using mic_payload by blast
  define w where "w = \<lparr>watchJob = ''a1'', watchGen = 0, watchStarted = 9, watchErrors = 0, watchSide = ''left''\<rparr>"
  define q where "q = run_events flow_step align_runs init_flows"
  let ?ev = "FlowAnswered 0 9 (Responded (running_job ''committed''))"
  have tasks: "flowTasks q = [(0, OwnRun (Align ''left'') (FlowPoll w))]" and cur: "flow_current (Align ''left'') ''a1'' 0 q"
    by (simp_all add: q_def align_runs_def running_job_def startSpeakerAlign_def two_way_visible p w_def flow_run_simps)
  have at: "runs q = [(0, Own (Align ''left''), FlowPoll w)]" using tasks by (simp add: runs_def List.map_filter_simps)
  have "flow_current (Align ''left'') ''a1'' 0 (q\<lparr>flowClock := c\<rparr>)" for c
    using cur by (simp add: flow_current_def flow_job_def)
  moreover have "runs (show_running f v job x) = runs x" for f v job x by (simp add: show_running_def Let_def)
  ultimately have over: "runs (flow_step ?ev q) = []"
    using at by (simp add: flow_answered_def tasks run_continues_def watch_polled_def w_def running_job_def watch_read_def
        TERMINAL_def Let_def js_or_def jget_def nullish_def)
  have "AdvancedClosed \<notin> set align_runs" by (simp add: align_runs_def)
  then have "\<exists>ms resp. ?ev = FlowAnswered 0 ms (Responded resp) \<and> says_over (Align ''left'') resp"
    by (rule align_job_never_left_running [OF _ q_def, of _ 0 "''left''" "FlowPoll w"]) (simp_all del: flow_step.simps add: at over)
  then show ?thesis using over by (auto simp: q_def)
qed

end
