(* ===== verification/Spl_Calibration.thy ===== *)
theory Spl_Calibration
  imports Auto_Sub_Result
begin

section \<open>The SPL calibration panel\<close>

text \<open>
  static/measurement_spl_calibration.js: the panel plays calibration noise (after a countdown), or lets the
  backend measure it automatically, stops it, and stores the measured level. Stopping is one shared
  operation that later callers join; it interrupts a start in flight, waits for it and stops once more.
  A request is known by its number; timers of a request are the settlement \<open>TimedOut\<close>.
\<close>

subsection \<open>Requests\<close>

text \<open>What a request settles with on the wire; a body is a value or the parser's message.\<close>

datatype spl_wire = Rejected string | TimedOut | Body nat "string + jsval"

definition requestSplCalibration :: "spl_wire \<Rightarrow> string + bool \<times> jsval" where
  "requestSplCalibration w = (case w of
     Rejected m \<Rightarrow> Inl m
   | TimedOut \<Rightarrow> Inl ''SPL request timed out. Retry stop.''
   | Body st b \<Rightarrow> (let good = (200 \<le> st \<and> st \<le> 299) in case b of
         Inr v \<Rightarrow> Inr (good, v)
       | Inl e \<Rightarrow> if good then Inl e else Inr (False, JObj [])))"

text \<open>\<open>data.detail || fallback\<close> as the message of an error.\<close>

definition spl_refusal :: "jsval \<Rightarrow> string \<Rightarrow> string" where
  "spl_refusal data fallback =
     (if nullish data then null_read_error data ''detail'' else to_str (js_or (jget data ''detail'') (JStr fallback)))"

subsection \<open>State\<close>

text \<open>Who awaits a stop: the close button, a save (its controller, value and output) or the noise button.\<close>

datatype stop_caller = ByClose | BySave nat rat "string \<times> string" | ByNoise

text \<open>
  The stages of a stop: interrupting a start (with its settlement, once it is known), waiting for that
  start, the stop that counts (with the failure of the start), reading the state after a failure.
\<close>

datatype stop_phase =
    StopInterrupt nat nat "string option option"
  | StopAwaits nat
  | StopLast nat "string option"
  | StopCheck nat string

record stop_op =
  stopPhase :: stop_phase
  stopText :: string
  stopCaller :: stop_caller
  stopJoined :: "stop_caller list"

datatype spl_task =
    OpenRead nat
  | Countdown nat nat
  | AutoStart nat
  | NoiseStart nat
  | StartCheck nat string
  | Apply nat nat rat
  | EffectsRead nat nat

record spl_page =
  splNoiseActive :: bool
  splAutomaticAvailable :: bool
  splAutomaticRunning :: bool
  splStopFailed :: bool
  splRestorePending :: jsval
  splStartRequest :: "nat option"
  splStopRequest :: "stop_op option"
  splApplying :: bool
  splApplyController :: "nat option"
  splGeneration :: nat
  splModeText :: string
  splOutputProfile :: "(string \<times> string) option"
  splTasks :: "(nat \<times> spl_task) list"
  splNext :: nat
  splOpen :: bool
  noiseDisabled :: bool
  noiseText :: string
  saveDisabled :: bool
  splAction :: string
  splStatus :: string
  splMeasured :: string

definition init_spl :: spl_page where
  "init_spl = \<lparr>splNoiseActive = False, splAutomaticAvailable = False, splAutomaticRunning = False, splStopFailed = False,
     splRestorePending = JNull, splStartRequest = None, splStopRequest = None, splApplying = False, splApplyController = None,
     splGeneration = 0, splModeText = [], splOutputProfile = None, splTasks = [], splNext = 0, splOpen = False,
     noiseDisabled = False, noiseText = ''Start noise'', saveDisabled = False, splAction = [], splStatus = [], splMeasured = []\<rparr>"

definition spl_wait :: "spl_task \<Rightarrow> spl_page \<Rightarrow> spl_page" where
  "spl_wait t s = s\<lparr>splTasks := (splNext s, t) # splTasks s, splNext := splNext s + 1\<rparr>"

definition spl_done :: "nat \<Rightarrow> spl_page \<Rightarrow> spl_page" where
  "spl_done i s = s\<lparr>splTasks := filter (\<lambda>x. fst x \<noteq> i) (splTasks s)\<rparr>"

subsection \<open>Texts and buttons\<close>

definition setSplCalibrationActionLine :: "string \<Rightarrow> spl_page \<Rightarrow> spl_page" where
  "setSplCalibrationActionLine t s = s\<lparr>splAction := or_default t (splModeText s)\<rparr>"

definition setSplCalibrationStatus :: "string \<Rightarrow> spl_page \<Rightarrow> spl_page" where
  "setSplCalibrationStatus t s = s\<lparr>splStatus := t\<rparr>"

text \<open>\<open>Number(value).toFixed(1)\<close>.\<close>

definition one_decimal :: "jsval \<Rightarrow> string" where
  "one_decimal v = (case to_num v of Fin r \<Rightarrow> to_fixed 1 r | n \<Rightarrow> num_str n)"

definition formatSignedDb :: "jsval \<Rightarrow> string" where
  "formatSignedDb v = (if Fin 0 \<le> to_num v then ''+'' else []) @ one_decimal v @ '' dB''"

definition splCalibrationModeLabel :: "jsval \<Rightarrow> string" where
  "splCalibrationModeLabel data =
     (if truthy (jpath data [''automatic'', ''available''])
      then ''Automatic SPL measurement: '' @ to_str (jpath data [''automatic'', ''microphone_model'']) @ '' detected''
      else ''Manual SPL measurement'')"

definition resetSplCalibrationNoiseButton :: "spl_page \<Rightarrow> spl_page" where
  "resetSplCalibrationNoiseButton s = s
     \<lparr>noiseDisabled := (splStopRequest s \<noteq> None \<or> splApplying s),
      noiseText := (if splStopFailed s then ''Retry stop'' else if truthy (splRestorePending s) then ''Retry restore''
                    else if splNoiseActive s then ''Stop noise'' else ''Start noise'')\<rparr>"

definition splCalibrationRestorePendingLine :: "spl_page \<Rightarrow> string" where
  "splCalibrationRestorePendingLine s =
     (if jget (splRestorePending s) ''output_muted'' = JBool False then ''Audio not restored. Retry restore.''
      else ''Audio not restored. Output muted. Retry restore.'')"

definition rememberSplCalibrationOutput :: "jsval \<Rightarrow> spl_page \<Rightarrow> spl_page" where
  "rememberSplCalibrationOutput profile s = s\<lparr>splOutputProfile :=
     (if truthy (jget profile ''id'') then Some (to_str (jget profile ''id''), str_or_empty (jget profile ''label'')) else None)\<rparr>"

definition splCalibrationOutputName :: "spl_page \<Rightarrow> string" where
  "splCalibrationOutputName s = (case splOutputProfile s of
     Some (_, label) \<Rightarrow> if label \<noteq> [] then '' for '' @ label else [] | None \<Rightarrow> [])"

definition applySplCalibrationServerState :: "jsval \<Rightarrow> spl_page \<Rightarrow> spl_page" where
  "applySplCalibrationServerState data s =
     (let noise = truthy (jget data ''noise_active''); op = truthy (jget data ''operation_active'');
          restore = jget data ''restore_pending''
      in s\<lparr>splNoiseActive := noise, splStopFailed := (op \<and> \<not> noise),
           splRestorePending := (if \<not> op \<and> truthy restore then restore else JNull)\<rparr>)"

definition setSplCalibrationRestoreActionLine :: "spl_page \<Rightarrow> spl_page" where
  "setSplCalibrationRestoreActionLine s =
     setSplCalibrationActionLine (if truthy (splRestorePending s) then splCalibrationRestorePendingLine s else []) s"

subsection \<open>Saving\<close>

definition spl_save_finally :: "nat \<Rightarrow> spl_page \<Rightarrow> spl_page" where
  "spl_save_finally i s =
     (if splApplyController s = Some i
      then (resetSplCalibrationNoiseButton (s\<lparr>splApplyController := None, splApplying := False\<rparr>))\<lparr>saveDisabled := False\<rparr>
      else s)"

text \<open>An error of a save whose apply request has generation \<open>gen\<close>.\<close>

definition spl_save_failed :: "nat \<Rightarrow> nat option \<Rightarrow> string \<Rightarrow> spl_page \<Rightarrow> spl_page" where
  "spl_save_failed i gen m s = spl_save_finally i
     (if splApplyController s = Some i \<and> (gen = None \<or> gen = Some (splGeneration s)) then setSplCalibrationStatus m s else s)"

definition save_stopped :: "nat \<Rightarrow> rat \<Rightarrow> string \<times> string \<Rightarrow> string option \<Rightarrow> spl_page \<Rightarrow> spl_page" where
  "save_stopped i measured profile failure s =
     (case failure of
        Some m \<Rightarrow> spl_save_failed i None m s
      | None \<Rightarrow> if splApplyController s \<noteq> Some i then spl_save_finally i s
                else spl_wait (Apply i (splGeneration s) measured) s)"

definition save_applied :: "nat \<Rightarrow> nat \<Rightarrow> rat \<Rightarrow> string + bool \<times> jsval \<Rightarrow> spl_page \<Rightarrow> spl_page" where
  "save_applied i gen measured reply s =
     (case reply of
        Inl m \<Rightarrow> spl_save_failed i (Some gen) m s
      | Inr (good, data) \<Rightarrow>
          if gen \<noteq> splGeneration s then spl_save_finally i s
          else if \<not> good then spl_save_failed i (Some gen) (spl_refusal data ''Failed to apply SPL calibration'') s
          else (let s1 = setSplCalibrationActionLine [] (s\<lparr>splNoiseActive := False, noiseText := ''Start noise''\<rparr>);
                    offset = ''Saved'' @ splCalibrationOutputName s1 @ '': '' @ to_fixed 1 measured @ '' dB SPL measured'' @ dot
                      @ ''Loudness offset '' @ formatSignedDb (jget data ''required_adjustment_db'')
                in if nullish data then spl_save_failed i (Some gen) (null_read_error data ''required_adjustment_db'') s1
                   else spl_wait (EffectsRead i gen) (setSplCalibrationStatus
                     (if truthy (jget data ''calibrated'') then offset @ dot @ ''within 1 dB of target.''
                      else offset @ ''. Only affects playback with Loudness on.'') s1)))"

definition effects_read :: "nat \<Rightarrow> nat \<Rightarrow> string + bool \<times> jsval \<Rightarrow> spl_page \<Rightarrow> spl_page" where
  "effects_read i gen reply s = (case reply of Inl m \<Rightarrow> spl_save_failed i (Some gen) m s | Inr _ \<Rightarrow> spl_save_finally i s)"

subsection \<open>Stopping\<close>

text \<open>A caller of the stop continues.\<close>

definition caller_continues :: "string option \<Rightarrow> stop_caller \<Rightarrow> spl_page \<Rightarrow> spl_page" where
  "caller_continues failure caller s =
     (case caller of
        ByClose \<Rightarrow> (case failure of None \<Rightarrow> s\<lparr>splOpen := False\<rparr> | Some m \<Rightarrow> setSplCalibrationStatus m s)
      | ByNoise \<Rightarrow> (case failure of None \<Rightarrow> s | Some m \<Rightarrow> setSplCalibrationStatus m s)
      | BySave i measured profile \<Rightarrow> save_stopped i measured profile failure s)"

definition stop_sends :: "(nat \<Rightarrow> stop_phase) \<Rightarrow> stop_op \<Rightarrow> spl_page \<Rightarrow> spl_page" where
  "stop_sends phase op s = s\<lparr>splStopRequest := Some (op\<lparr>stopPhase := phase (splNext s)\<rparr>), splNext := splNext s + 1\<rparr>"

definition stopSplCalibrationOperation :: "string \<Rightarrow> stop_caller \<Rightarrow> spl_page \<Rightarrow> spl_page" where
  "stopSplCalibrationOperation txt caller s =
     (case splStopRequest s of
        Some op \<Rightarrow>
          (case stopPhase op of
             StopCheck i m \<Rightarrow> caller_continues (Some m) caller s
           | _ \<Rightarrow> s\<lparr>splStopRequest := Some (op\<lparr>stopJoined := stopJoined op @ [caller]\<rparr>)\<rparr>)
      | None \<Rightarrow> stop_sends
          (\<lambda>i. case splStartRequest s of Some k \<Rightarrow> StopInterrupt i k None | None \<Rightarrow> StopLast i None)
          \<lparr>stopPhase = StopAwaits 0, stopText = txt, stopCaller = caller, stopJoined = []\<rparr>
          (s\<lparr>splGeneration := splGeneration s + 1, splAutomaticRunning := False, noiseDisabled := True\<rparr>))"

definition stop_over :: "stop_op \<Rightarrow> string option \<Rightarrow> spl_page \<Rightarrow> spl_page" where
  "stop_over op failure s =
     caller_continues failure (stopCaller op) (resetSplCalibrationNoiseButton (s\<lparr>splStopRequest := None\<rparr>))"

definition spl_stop_settled :: "stop_op \<Rightarrow> string option \<Rightarrow> spl_page \<Rightarrow> spl_page" where
  "spl_stop_settled op failure s =
     (case failure of
        None \<Rightarrow>
          fold (caller_continues None) (stopJoined op) (stop_over op None
            ((if stopText op \<noteq> [] then setSplCalibrationStatus (stopText op) else id) (setSplCalibrationActionLine []
              (s\<lparr>splNoiseActive := False, splStopFailed := False, splRestorePending := JNull\<rparr>))))
      | Some m \<Rightarrow>
          fold (caller_continues (Some m)) (stopJoined op)
            (stop_sends (\<lambda>i. StopCheck i m) (op\<lparr>stopJoined := []\<rparr>) (s\<lparr>splStopFailed := True\<rparr>)))"

definition stop_checked :: "stop_op \<Rightarrow> string \<Rightarrow> string + bool \<times> jsval \<Rightarrow> spl_page \<Rightarrow> spl_page" where
  "stop_checked op m reply s0 =
     (let s = (case reply of Inr (True, data) \<Rightarrow>
                 if \<not> truthy (jget data ''operation_active'') \<and> truthy (jget data ''restore_pending'')
                 then applySplCalibrationServerState data s0 else s0 | _ \<Rightarrow> s0)
      in stop_over op (Some m)
           (if splStopFailed s then setSplCalibrationActionLine ''Cleanup pending. Retry stop.'' s
            else setSplCalibrationRestoreActionLine s))"

definition stop_answered :: "stop_op \<Rightarrow> string + bool \<times> jsval \<Rightarrow> spl_page \<Rightarrow> spl_page" where
  "stop_answered op reply s =
     (case stopPhase op of
        StopInterrupt i k None \<Rightarrow> s\<lparr>splStopRequest := Some (op\<lparr>stopPhase := StopAwaits k\<rparr>)\<rparr>
      | StopInterrupt i k (Some failure) \<Rightarrow> stop_sends (\<lambda>i. StopLast i failure) op s
      | StopAwaits k \<Rightarrow> s
      | StopLast i failure \<Rightarrow> spl_stop_settled op (case reply of Inl m \<Rightarrow> Some m
           | Inr (good, data) \<Rightarrow> if good then failure else Some (spl_refusal data ''Failed to stop SPL calibration'')) s
      | StopCheck i m \<Rightarrow> stop_checked op m reply s)"

text \<open>A start settles: its request is over, and a stop that waits for it goes on.\<close>

definition start_settled_stop :: "nat \<Rightarrow> string option \<Rightarrow> spl_page \<Rightarrow> spl_page" where
  "start_settled_stop k failure s0 =
     (let s = (if splStartRequest s0 = Some k then s0\<lparr>splStartRequest := None\<rparr> else s0) in
      case splStopRequest s of
        None \<Rightarrow> s
      | Some op \<Rightarrow>
          (case stopPhase op of
             StopInterrupt i j None \<Rightarrow>
               if j = k then s\<lparr>splStopRequest := Some (op\<lparr>stopPhase := StopInterrupt i j (Some failure)\<rparr>)\<rparr> else s
           | StopAwaits j \<Rightarrow> if j = k then stop_sends (\<lambda>i. StopLast i failure) op s else s
           | _ \<Rightarrow> s))"

subsection \<open>Opening and closing\<close>

definition openSplCalibration :: "spl_page \<Rightarrow> spl_page" where
  "openSplCalibration s = spl_wait (OpenRead (splGeneration s))
     (setSplCalibrationStatus [] (s\<lparr>splOutputProfile := None, splOpen := True\<rparr>))"

definition open_read :: "nat \<Rightarrow> string + bool \<times> jsval \<Rightarrow> spl_page \<Rightarrow> spl_page" where
  "open_read gen reply s =
     (if gen \<noteq> splGeneration s then s
      else case reply of
        Inl m \<Rightarrow> setSplCalibrationStatus m s
      | Inr (good, data) \<Rightarrow>
          if \<not> good then setSplCalibrationStatus (spl_refusal data ''Failed to load SPL calibration'') s
          else if nullish data then setSplCalibrationStatus (null_read_error data ''noise_active'') s
          else (let s1 = setSplCalibrationRestoreActionLine ((resetSplCalibrationNoiseButton
                      ((rememberSplCalibrationOutput (jget data ''output_profile'') (applySplCalibrationServerState data s))
                       \<lparr>splAutomaticAvailable := truthy (jpath data [''automatic'', ''available''])\<rparr>))
                      \<lparr>splModeText := splCalibrationModeLabel data\<rparr>);
                    detail = jget (splRestorePending s1) ''detail''
                in if truthy detail then setSplCalibrationStatus (to_str detail) s1 else s1))"

definition closeSplCalibration :: "spl_page \<Rightarrow> spl_page" where
  "closeSplCalibration s = stopSplCalibrationOperation [] ByClose
     (s\<lparr>splApplyController := None, splApplying := False, saveDisabled := False\<rparr>)"

subsection \<open>The noise button\<close>

definition count_label :: "nat \<Rightarrow> string" where
  "count_label n = ''Starting noise: '' @ nat_str n"

definition toggleSplCalibrationNoise :: "spl_page \<Rightarrow> spl_page" where
  "toggleSplCalibrationNoise s =
     (if splApplying s then s
      else if splStopRequest s \<noteq> None then stopSplCalibrationOperation [] ByNoise s
      else if splAutomaticRunning s then stopSplCalibrationOperation ''Automatic SPL measurement cancelled.'' ByNoise s
      else if splNoiseActive s \<or> splStopFailed s \<or> truthy (splRestorePending s)
      then stopSplCalibrationOperation
             (if truthy (splRestorePending s) then ''Audio restored.'' else ''Noise stopped. Volume restored.'') ByNoise s
      else spl_wait (Countdown (splGeneration s + 1) 3) (setSplCalibrationStatus []
             (s\<lparr>splGeneration := splGeneration s + 1, noiseDisabled := True, noiseText := count_label 3\<rparr>)))"

definition noise_starts :: "nat \<Rightarrow> spl_page \<Rightarrow> spl_page" where
  "noise_starts gen s =
     (let s1 = s\<lparr>splStartRequest := Some (splNext s)\<rparr> in
      if splAutomaticAvailable s
      then spl_wait (AutoStart gen) (setSplCalibrationActionLine (''Measuring SPL'' @ ellipsis)
             (s1\<lparr>splAutomaticRunning := True, noiseDisabled := False, noiseText := ''Cancel measurement''\<rparr>))
      else spl_wait (NoiseStart gen) s1)"

definition countdown_ticked :: "nat \<Rightarrow> nat \<Rightarrow> spl_page \<Rightarrow> spl_page" where
  "countdown_ticked gen n s =
     (if gen \<noteq> splGeneration s then s
      else if n \<le> 1 then noise_starts gen s
      else spl_wait (Countdown gen (n - 1)) (s\<lparr>noiseText := count_label (n - 1)\<rparr>))"

definition toggle_finally :: "nat \<Rightarrow> spl_page \<Rightarrow> spl_page" where
  "toggle_finally gen s =
     (if gen = splGeneration s then resetSplCalibrationNoiseButton (s\<lparr>splAutomaticRunning := False\<rparr>) else s)"

text \<open>A start that failed: the state of the backend decides.\<close>

definition spl_start_failed :: "nat \<Rightarrow> string \<Rightarrow> spl_page \<Rightarrow> spl_page" where
  "spl_start_failed gen m s = spl_wait (StartCheck gen m) (s\<lparr>splStopFailed := True\<rparr>)"

definition start_checked :: "nat \<Rightarrow> string \<Rightarrow> string + bool \<times> jsval \<Rightarrow> spl_page \<Rightarrow> spl_page" where
  "start_checked gen m reply s =
     (if gen \<noteq> splGeneration s then s
      else toggle_finally gen (setSplCalibrationStatus m (setSplCalibrationRestoreActionLine
        (case reply of Inr (True, data) \<Rightarrow> if nullish data then s else applySplCalibrationServerState data s | _ \<Rightarrow> s))))"

definition remember_if_named :: "jsval \<Rightarrow> spl_page \<Rightarrow> spl_page" where
  "remember_if_named data s =
     (if truthy (jpath data [''output_profile'', ''id'']) then rememberSplCalibrationOutput (jget data ''output_profile'') s else s)"

definition automatic_settled :: "nat \<Rightarrow> string + bool \<times> jsval \<Rightarrow> spl_page \<Rightarrow> spl_page" where
  "automatic_settled gen reply s =
     (if gen \<noteq> splGeneration s then s
      else case reply of
        Inl m \<Rightarrow> spl_start_failed gen m s
      | Inr (good, data) \<Rightarrow>
          if \<not> good then spl_start_failed gen (spl_refusal data ''Automatic UMIK SPL measurement failed'') s
          else if nullish data then spl_start_failed gen (null_read_error data ''output_profile'') s
          else (let measured = jget data ''measured_spl_db'';
                    s1 = setSplCalibrationActionLine [] ((remember_if_named data s)
                      \<lparr>splMeasured := one_decimal measured, splNoiseActive := False, noiseText := ''Start noise''\<rparr>)
                in toggle_finally gen (setSplCalibrationStatus
                     (to_str (jget data ''microphone_model'') @ '' measured '' @ one_decimal measured @ '' dB SPL'' @ dot
                      @ ''Loudness offset '' @ formatSignedDb (jget data ''required_adjustment_db'')
                      @ ''. Save / Apply to use it'' @ splCalibrationOutputName s1 @ ''.'') s1)))"

definition noise_settled :: "nat \<Rightarrow> string + bool \<times> jsval \<Rightarrow> spl_page \<Rightarrow> spl_page" where
  "noise_settled gen reply s =
     (if gen \<noteq> splGeneration s then s
      else case reply of
        Inl m \<Rightarrow> spl_start_failed gen m s
      | Inr (good, data) \<Rightarrow>
          if \<not> good then spl_start_failed gen (spl_refusal data ''Calibration noise failed'') s
          else if nullish data then spl_start_failed gen (null_read_error data ''output_profile'') s
          else toggle_finally gen (setSplCalibrationActionLine
                 ''Noise playing. Read the C/Slow meter after about 1 s, average over about 3 s.''
                 ((remember_if_named data s)\<lparr>splNoiseActive := True, noiseText := ''Stop noise''\<rparr>)))"

definition saveSplCalibration :: "spl_page \<Rightarrow> spl_page" where
  "saveSplCalibration s =
     (if splApplying s then s
      else case to_num (JStr (splMeasured s)) of
        Fin measured \<Rightarrow>
          (case splOutputProfile s of
             None \<Rightarrow> setSplCalibrationStatus ''The output could not be identified. Reopen SPL Calibration and measure again.'' s
           | Some profile \<Rightarrow> stopSplCalibrationOperation [] (BySave (splNext s) measured profile)
               ((resetSplCalibrationNoiseButton (s\<lparr>splApplying := True, splApplyController := Some (splNext s), splNext := splNext s + 1\<rparr>))
                \<lparr>saveDisabled := True\<rparr>))
      | _ \<Rightarrow> setSplCalibrationStatus ''Enter the measured C/Slow SPL value.'' s)"

subsection \<open>Events\<close>

text \<open>The panel's buttons exist while it is open; behind it the page is inert.\<close>

datatype spl_event =
    SplOpened
  | SplClosed
  | NoiseClicked
  | SaveClicked
  | MeasuredTyped string
  | SecondPassed nat
  | SplSettled nat spl_wire

definition stop_request :: "stop_phase \<Rightarrow> nat option" where
  "stop_request p = (case p of StopInterrupt i k f \<Rightarrow> Some i | StopAwaits k \<Rightarrow> None | StopLast i f \<Rightarrow> Some i | StopCheck i m \<Rightarrow> Some i)"

definition failure_of :: "string + bool \<times> jsval \<Rightarrow> string option" where
  "failure_of reply = (case reply of Inl m \<Rightarrow> Some m | Inr _ \<Rightarrow> None)"

definition task_settled :: "nat \<Rightarrow> spl_task \<Rightarrow> string + bool \<times> jsval \<Rightarrow> spl_page \<Rightarrow> spl_page" where
  "task_settled i t reply s =
     (case t of
        OpenRead gen \<Rightarrow> open_read gen reply (spl_done i s)
      | Countdown gen n \<Rightarrow> s
      | AutoStart gen \<Rightarrow> automatic_settled gen reply (start_settled_stop i (failure_of reply) (spl_done i s))
      | NoiseStart gen \<Rightarrow> noise_settled gen reply (start_settled_stop i (failure_of reply) (spl_done i s))
      | StartCheck gen m \<Rightarrow> start_checked gen m reply (spl_done i s)
      | Apply c gen measured \<Rightarrow> save_applied c gen measured reply (spl_done i s)
      | EffectsRead c gen \<Rightarrow> effects_read c gen reply (spl_done i s))"

definition spl_settled :: "nat \<Rightarrow> string + bool \<times> jsval \<Rightarrow> spl_page \<Rightarrow> spl_page" where
  "spl_settled i reply s =
     (case map_of (splTasks s) i of
        Some t \<Rightarrow> task_settled i t reply s
      | None \<Rightarrow> (case splStopRequest s of
            Some op \<Rightarrow> if stop_request (stopPhase op) = Some i then stop_answered op reply s else s
          | None \<Rightarrow> s))"

fun spl_step :: "spl_event \<Rightarrow> spl_page \<Rightarrow> spl_page" where
  "spl_step SplOpened s = (if splOpen s then s else openSplCalibration s)"
| "spl_step SplClosed s = (if splOpen s then closeSplCalibration s else s)"
| "spl_step NoiseClicked s = (if splOpen s \<and> \<not> noiseDisabled s then toggleSplCalibrationNoise s else s)"
| "spl_step SaveClicked s = (if splOpen s \<and> \<not> saveDisabled s then saveSplCalibration s else s)"
| "spl_step (MeasuredTyped t) s = s\<lparr>splMeasured := t\<rparr>"
| "spl_step (SecondPassed i) s = (case map_of (splTasks s) i of
     Some (Countdown gen n) \<Rightarrow> countdown_ticked gen n (spl_done i s) | _ \<Rightarrow> s)"
| "spl_step (SplSettled i w) s = spl_settled i (requestSplCalibration w) s"

end
