(* ===== verification/Spl_Safety.thy ===== *)
theory Spl_Safety
  imports Spl_Calibration
begin

section \<open>Calibration noise and the backend that plays it\<close>

text \<open>
  The panel of \<open>Spl_Calibration\<close> beside the part of the backend it must not lose track of: whether noise
  plays. The backend handles requests in flight in any order, or never; the invariant relates what
  plays to what the panel shows and awaits.
\<close>

subsection \<open>The backend\<close>

datatype spl_request = StartRequest bool | StopRequest | ReadRequest | OtherRequest

text \<open>\<open>StartRequest\<close> says whether the measurement is automatic.\<close>

definition request_of_task :: "spl_task \<Rightarrow> spl_request option" where
  "request_of_task t = (case t of
     OpenRead g \<Rightarrow> Some ReadRequest | StartCheck g m \<Rightarrow> Some ReadRequest | Countdown g n \<Rightarrow> None
   | AutoStart g \<Rightarrow> Some (StartRequest True) | NoiseStart g \<Rightarrow> Some (StartRequest False) | _ \<Rightarrow> Some OtherRequest)"

definition request_kind :: "nat \<Rightarrow> spl_page \<Rightarrow> spl_request option" where
  "request_kind i s =
     (case map_of (splTasks s) i of
        Some t \<Rightarrow> request_of_task t
      | None \<Rightarrow> (case splStopRequest s of None \<Rightarrow> None
          | Some op \<Rightarrow> if stop_request (stopPhase op) \<noteq> Some i then None
              else (case stopPhase op of StopCheck i m \<Rightarrow> Some ReadRequest | _ \<Rightarrow> Some StopRequest)))"

text \<open>
  What the backend did with a request: whether it played after a read, whether a stop succeeded.
\<close>

record spl_world =
  splPage :: spl_page
  playing :: bool
  served :: "(nat \<times> bool) list"

datatype world_event = OnPage spl_event | Served nat bool | NoiseEnds

definition serve :: "nat \<Rightarrow> bool \<Rightarrow> spl_world \<Rightarrow> spl_world" where
  "serve i b w =
     (if i \<in> fst ` set (served w) then w
      else case request_kind i (splPage w) of
        Some (StartRequest auto) \<Rightarrow> w\<lparr>playing := (playing w \<or> b), served := (i, b) # served w\<rparr>
      | Some StopRequest \<Rightarrow> w\<lparr>playing := (playing w \<and> \<not> b), served := (i, b) # served w\<rparr>
      | Some ReadRequest \<Rightarrow> w\<lparr>served := (i, playing w) # served w\<rparr>
      | _ \<Rightarrow> w)"

fun world_step :: "world_event \<Rightarrow> spl_world \<Rightarrow> spl_world" where
  "world_step (OnPage e) w = w\<lparr>splPage := spl_step e (splPage w)\<rparr>"
| "world_step (Served i b) w = serve i b w"
| "world_step NoiseEnds w = w\<lparr>playing := False\<rparr>"

definition init_world :: spl_world where
  "init_world = \<lparr>splPage = init_spl, playing = False, served = []\<rparr>"

text \<open>
  The backend answers a request with success only after it handled it: a stop when the noise is off, an
  automatic measurement when it is over, a read with the state it found. A request that has settled
  otherwise (refused, failed, timed out) is not handled later.
\<close>

definition reports_noise :: "jsval \<Rightarrow> bool" where
  "reports_noise data = (truthy (jget data ''noise_active'') \<or> truthy (jget data ''operation_active'')
     \<or> truthy (jget data ''restore_pending''))"

definition honest :: "world_event \<Rightarrow> spl_world \<Rightarrow> bool" where
  "honest e w = (case e of
     OnPage (SplSettled i wire) \<Rightarrow>
       (case requestSplCalibration wire of
          Inr (True, data) \<Rightarrow>
            (case request_kind i (splPage w) of
               Some StopRequest \<Rightarrow> (i, True) \<in> set (served w)
             | Some (StartRequest auto) \<Rightarrow> auto \<longrightarrow> \<not> playing w
             | Some ReadRequest \<Rightarrow> (\<exists>p. (i, p) \<in> set (served w) \<and> (p \<longrightarrow> reports_noise data))
             | _ \<Rightarrow> True)
        | _ \<Rightarrow> True)
   | _ \<Rightarrow> True)"

fun honest_world :: "world_event list \<Rightarrow> spl_world \<Rightarrow> bool" where
  "honest_world [] w = True"
| "honest_world (e # es) w = (honest e w \<and> honest_world es (world_step e w))"

subsection \<open>The invariant\<close>

fun gen_of :: "spl_task \<Rightarrow> nat" where
  "gen_of (OpenRead g) = g" | "gen_of (Countdown g n) = g" | "gen_of (AutoStart g) = g" | "gen_of (NoiseStart g) = g"
| "gen_of (StartCheck g m) = g" | "gen_of (Apply c g r) = g" | "gen_of (EffectsRead c g) = g"

fun is_start :: "spl_task \<Rightarrow> bool" where
  "is_start (AutoStart g) = True" | "is_start (NoiseStart g) = True" | "is_start t = False"

fun is_toggle :: "spl_task \<Rightarrow> bool" where
  "is_toggle (Countdown g n) = True" | "is_toggle (StartCheck g m) = True" | "is_toggle t = is_start t"

fun is_read :: "spl_task \<Rightarrow> bool" where
  "is_read (OpenRead g) = True" | "is_read (StartCheck g m) = True" | "is_read t = False"

fun spl_is_save :: "spl_task \<Rightarrow> bool" where
  "spl_is_save (Apply c g r) = True" | "spl_is_save (EffectsRead c g) = True" | "spl_is_save t = False"

text \<open>Numbers are fresh, generations passed.\<close>

definition spl_numbered :: "spl_page \<Rightarrow> (nat \<times> bool) list \<Rightarrow> bool" where
  "spl_numbered s sv = (distinct (List.map fst (splTasks s)) \<and> distinct (List.map fst sv)
     \<and> (\<forall>x \<in> set (splTasks s). fst x < splNext s \<and> gen_of (snd x) \<le> splGeneration s) \<and> (\<forall>x \<in> set sv. fst x < splNext s))"

definition stale_but :: "nat option \<Rightarrow> spl_page \<Rightarrow> bool" where
  "stale_but k s = (\<forall>x \<in> set (splTasks s). k \<noteq> Some (fst x) \<longrightarrow> gen_of (snd x) < splGeneration s)"

definition starts_are :: "nat option \<Rightarrow> spl_page \<Rightarrow> bool" where
  "starts_are k s = (\<forall>x \<in> set (splTasks s). is_start (snd x) \<longrightarrow> k = Some (fst x))"

definition shows_noise :: "spl_page \<Rightarrow> bool" where
  "shows_noise s = (splNoiseActive s \<or> splStopFailed s \<or> truthy (splRestorePending s))"

text \<open>A read found noise when it plays now.\<close>

definition read_fits :: "nat \<Rightarrow> bool \<Rightarrow> (nat \<times> bool) list \<Rightarrow> bool" where
  "read_fits i pl sv = (\<forall>p. (i, p) \<in> set sv \<and> pl \<longrightarrow> p)"

text \<open>A stop is in progress.\<close>

fun waiting_start :: "stop_phase \<Rightarrow> nat option" where
  "waiting_start (StopInterrupt i k None) = Some k" | "waiting_start (StopAwaits k) = Some k" | "waiting_start p = None"

definition stop_works :: "stop_op \<Rightarrow> spl_page \<Rightarrow> bool \<Rightarrow> (nat \<times> bool) list \<Rightarrow> bool" where
  "stop_works op s pl sv = (splStopRequest s = Some op \<and> splOpen s \<and> stale_but None s
     \<and> splStartRequest s = waiting_start (stopPhase op) \<and> starts_are (waiting_start (stopPhase op)) s
     \<and> (\<forall>k. waiting_start (stopPhase op) = Some k \<longrightarrow> (\<exists>t. (k, t) \<in> set (splTasks s) \<and> is_start t))
     \<and> (\<forall>i. stop_request (stopPhase op) = Some i \<longrightarrow> i < splNext s \<and> i \<notin> fst ` set (splTasks s))
     \<and> (\<forall>i f. stopPhase op = StopLast i f \<and> (i, True) \<in> set sv \<longrightarrow> \<not> pl)
     \<and> (\<forall>i m. stopPhase op = StopCheck i m \<longrightarrow> splStopFailed s)
     \<and> (splApplyController s \<noteq> None \<longrightarrow> splApplying s))"

text \<open>A click is being worked on: its task is the only one of its generation.\<close>

fun button_fits :: "spl_page \<Rightarrow> spl_task \<Rightarrow> bool" where
  "button_fits s (Countdown g n) = noiseDisabled s"
| "button_fits s (NoiseStart g) = noiseDisabled s"
| "button_fits s (AutoStart g) = splAutomaticRunning s"
| "button_fits s (StartCheck g m) = splStopFailed s"
| "button_fits s t = False"

definition click_works :: "nat \<Rightarrow> spl_task \<Rightarrow> spl_page \<Rightarrow> bool \<Rightarrow> (nat \<times> bool) list \<Rightarrow> bool" where
  "click_works i t s pl sv = (splStopRequest s = None \<and> splOpen s \<and> (i, t) \<in> set (splTasks s) \<and> is_toggle t
     \<and> gen_of t = splGeneration s \<and> stale_but (Some i) s
     \<and> splStartRequest s = (if is_start t then Some i else None) \<and> starts_are (if is_start t then Some i else None) s
     \<and> \<not> splApplying s \<and> splApplyController s = None \<and> button_fits s t
     \<and> (pl \<longrightarrow> is_start t \<or> shows_noise s) \<and> (is_read t \<longrightarrow> read_fits i pl sv))"

text \<open>Neither: only saves and reads are under way.\<close>

definition calm :: "spl_page \<Rightarrow> bool \<Rightarrow> (nat \<times> bool) list \<Rightarrow> bool" where
  "calm s pl sv = (splStopRequest s = None \<and> splStartRequest s = None \<and> starts_are None s
     \<and> (\<forall>x \<in> set (splTasks s). gen_of (snd x) = splGeneration s \<longrightarrow> \<not> is_toggle (snd x)
          \<and> (spl_is_save (snd x) \<longrightarrow> \<not> pl) \<and> (is_read (snd x) \<longrightarrow> read_fits (fst x) pl sv))
     \<and> (splApplyController s \<noteq> None \<longrightarrow> splApplying s))"

definition noticed :: "spl_page \<Rightarrow> bool" where
  "noticed s = (splOpen s \<and> (splStartRequest s \<noteq> None \<or> splStopRequest s \<noteq> None \<or> shows_noise s))"

definition fine :: "spl_page \<Rightarrow> bool \<Rightarrow> (nat \<times> bool) list \<Rightarrow> bool" where
  "fine s pl sv = (spl_numbered s sv \<and> (pl \<longrightarrow> noticed s)
     \<and> ((\<exists>op. stop_works op s pl sv) \<or> (\<exists>i t. click_works i t s pl sv) \<or> calm s pl sv))"

subsection \<open>Texts do not matter\<close>

definition spl_core where
  "spl_core s = (splTasks s, splNext s, splGeneration s, splStartRequest s, splStopRequest s, splApplying s, splApplyController s,
     splOpen s)"

definition spl_shown where
  "spl_shown s = (noiseDisabled s, splAutomaticRunning s, splStopFailed s, splNoiseActive s, splRestorePending s)"

lemma spl_core_parts:
  assumes "spl_core s' = spl_core s"
  shows "spl_numbered s' sv = spl_numbered s sv" "stale_but k s' = stale_but k s" "starts_are k s' = starts_are k s"
    "calm s' pl sv = calm s pl sv"
  using assms by (simp_all add: spl_core_def spl_numbered_def stale_but_def starts_are_def calm_def)

lemma stop_core: "spl_core s' = spl_core s \<Longrightarrow> spl_shown s' = spl_shown s \<Longrightarrow> stop_works op s' pl sv = stop_works op s pl sv"
  by (simp add: spl_core_def spl_shown_def stop_works_def stale_but_def starts_are_def)

lemma fine_core:
  assumes "spl_core s' = spl_core s" "spl_shown s' = spl_shown s"
  shows "fine s' pl sv = fine s pl sv"
proof -
  have "button_fits s' t = button_fits s t" for t using assms(2) by (cases t) (simp_all add: spl_shown_def)
  then have "click_works i t s' pl sv = click_works i t s pl sv" for i t
    using assms spl_core_parts(2,3) [OF assms(1)] by (simp add: click_works_def spl_core_def spl_shown_def shows_noise_def)
  moreover have "noticed s' = noticed s" using assms by (simp add: noticed_def shows_noise_def spl_core_def spl_shown_def)
  ultimately show ?thesis using spl_core_parts [OF assms(1)] stop_core [OF assms] by (simp add: fine_def)
qed

lemma texts_core [simp]:
  "spl_core (setSplCalibrationStatus t s) = spl_core s" "spl_core (setSplCalibrationActionLine t s) = spl_core s"
  "spl_core (rememberSplCalibrationOutput v s) = spl_core s" "spl_core (remember_if_named v s) = spl_core s"
  "spl_core (setSplCalibrationRestoreActionLine s) = spl_core s" "spl_core (resetSplCalibrationNoiseButton s) = spl_core s"
  "spl_core (applySplCalibrationServerState v s) = spl_core s"
  by (simp_all add: spl_core_def setSplCalibrationStatus_def setSplCalibrationActionLine_def rememberSplCalibrationOutput_def
      remember_if_named_def setSplCalibrationRestoreActionLine_def resetSplCalibrationNoiseButton_def applySplCalibrationServerState_def Let_def)

lemma core_stop: "spl_core s' = spl_core s \<Longrightarrow> spl_core (s'\<lparr>splStopRequest := r\<rparr>) = spl_core (s\<lparr>splStopRequest := r\<rparr>)"
  by (simp add: spl_core_def)

lemma texts_shown [simp]:
  "spl_shown (setSplCalibrationStatus t s) = spl_shown s" "spl_shown (setSplCalibrationActionLine t s) = spl_shown s"
  "spl_shown (rememberSplCalibrationOutput v s) = spl_shown s" "spl_shown (remember_if_named v s) = spl_shown s"
  "spl_shown (setSplCalibrationRestoreActionLine s) = spl_shown s"
  by (simp_all add: spl_shown_def setSplCalibrationStatus_def setSplCalibrationActionLine_def rememberSplCalibrationOutput_def
      remember_if_named_def setSplCalibrationRestoreActionLine_def)

lemma fine_texts [simp]:
  "fine (setSplCalibrationStatus t s) pl sv = fine s pl sv" "fine (setSplCalibrationActionLine t s) pl sv = fine s pl sv"
  "fine (rememberSplCalibrationOutput v s) pl sv = fine s pl sv" "fine (remember_if_named v s) pl sv = fine s pl sv"
  "fine (setSplCalibrationRestoreActionLine s) pl sv = fine s pl sv"
  by (rule fine_core; simp)+

lemma calm_fine: "spl_numbered s sv \<Longrightarrow> calm s pl sv \<Longrightarrow> (pl \<Longrightarrow> noticed s) \<Longrightarrow> fine s pl sv"
  by (simp add: fine_def)

lemma stop_fine:
  assumes "spl_numbered s sv" "stop_works op s pl sv"
  shows "fine s pl sv"
proof -
  have "noticed s" using assms(2) by (simp add: stop_works_def noticed_def)
  with assms show ?thesis unfolding fine_def by blast
qed

lemma click_fine:
  assumes "spl_numbered s sv" "click_works i t s pl sv"
  shows "fine s pl sv"
proof -
  have "pl \<Longrightarrow> noticed s" using assms(2) by (auto simp: click_works_def noticed_def)
  with assms show ?thesis unfolding fine_def by blast
qed

lemma fine_cases:
  assumes "fine s pl sv"
  obtains (stop) op where "spl_numbered s sv" "stop_works op s pl sv"
  | (click) i t where "spl_numbered s sv" "click_works i t s pl sv"
  | (calm) "spl_numbered s sv" "calm s pl sv" "pl \<longrightarrow> splOpen s \<and> shows_noise s"
  using assms by (auto simp: fine_def noticed_def calm_def)

subsection \<open>Tasks come and go\<close>

lemma fresh_served: "spl_numbered s sv \<Longrightarrow> (splNext s, p) \<notin> set sv"
  by (auto simp: spl_numbered_def)

lemma fresh_fits: "spl_numbered s sv \<Longrightarrow> read_fits (splNext s) pl sv"
  by (simp add: read_fits_def fresh_served)

lemma numbered_wait: "spl_numbered s sv \<Longrightarrow> gen_of t \<le> splGeneration s \<Longrightarrow> spl_numbered (spl_wait t s) sv"
  by (auto simp: spl_numbered_def spl_wait_def)

lemma numbered_done: "spl_numbered s sv \<Longrightarrow> spl_numbered (spl_done i s) sv"
  by (auto simp: spl_numbered_def spl_done_def distinct_map_filter)

lemma calm_wait:
  "spl_numbered s sv \<Longrightarrow> calm s pl sv \<Longrightarrow> \<not> is_toggle t \<Longrightarrow> (spl_is_save t \<Longrightarrow> \<not> pl) \<Longrightarrow> calm (spl_wait t s) pl sv"
  using fresh_fits [of s sv pl] by (cases t) (auto simp: calm_def spl_wait_def starts_are_def)

lemma calm_done: "calm s pl sv \<Longrightarrow> calm (spl_done i s) pl sv"
  by (auto simp: calm_def spl_done_def starts_are_def)

lemma calm_stale:
  "stale_but None s \<Longrightarrow> starts_are None s \<Longrightarrow> splStopRequest s = None \<Longrightarrow> splStartRequest s = None
    \<Longrightarrow> (splApplyController s \<noteq> None \<longrightarrow> splApplying s) \<Longrightarrow> calm s pl sv"
  by (auto simp: calm_def stale_but_def)

text \<open>What the page awaits besides the backend's own state.\<close>

lemma one_toggle:
  assumes "click_works i t s pl sv" "map_of (splTasks s) i = Some u" "spl_numbered s sv"
  shows "u = t"
proof -
  have "map_of (splTasks s) i = Some t" using assms(1,3) by (intro map_of_is_SomeI) (simp_all add: click_works_def spl_numbered_def)
  with assms(2) show ?thesis by simp
qed

lemma other_stale: "click_works i t s pl sv \<Longrightarrow> map_of (splTasks s) j = Some u \<Longrightarrow> j \<noteq> i \<Longrightarrow> gen_of u < splGeneration s"
  by (auto simp: click_works_def stale_but_def dest!: map_of_SomeD bspec)

lemma stop_stale: "stop_works op s pl sv \<Longrightarrow> map_of (splTasks s) j = Some u \<Longrightarrow> gen_of u < splGeneration s"
  by (auto simp: stop_works_def stale_but_def dest!: map_of_SomeD bspec)

subsection \<open>Callers of a stop\<close>

lemma save_finally_frame [simp]:
  "splTasks (spl_save_finally i s) = splTasks s" "splNext (spl_save_finally i s) = splNext s"
  "splGeneration (spl_save_finally i s) = splGeneration s" "splStartRequest (spl_save_finally i s) = splStartRequest s"
  "splStopRequest (spl_save_finally i s) = splStopRequest s" "splOpen (spl_save_finally i s) = splOpen s"
  "splNoiseActive (spl_save_finally i s) = splNoiseActive s" "splStopFailed (spl_save_finally i s) = splStopFailed s"
  "splRestorePending (spl_save_finally i s) = splRestorePending s"
  by (simp_all add: spl_save_finally_def resetSplCalibrationNoiseButton_def)

lemma save_finally_controller:
  "(splApplyController s \<noteq> None \<longrightarrow> splApplying s) \<Longrightarrow> splApplyController (spl_save_finally i s) \<noteq> None \<longrightarrow> splApplying (spl_save_finally i s)"
  by (simp add: spl_save_finally_def resetSplCalibrationNoiseButton_def)

lemma save_finally_fine:
  "spl_numbered (spl_save_finally i s) sv = spl_numbered s sv" "calm s pl sv \<Longrightarrow> calm (spl_save_finally i s) pl sv"
  "stop_works op s pl sv \<Longrightarrow> stop_works op (spl_save_finally i s) pl sv" "noticed (spl_save_finally i s) = noticed s"
  using save_finally_controller [of s i]
  by (simp_all add: spl_numbered_def calm_def starts_are_def stop_works_def stale_but_def noticed_def shows_noise_def)

lemma status_parts [simp]:
  "spl_numbered (setSplCalibrationStatus t s) sv = spl_numbered s sv" "calm (setSplCalibrationStatus t s) pl sv = calm s pl sv"
  "stop_works op (setSplCalibrationStatus t s) pl sv = stop_works op s pl sv" "noticed (setSplCalibrationStatus t s) = noticed s"
proof -
  have "spl_core (setSplCalibrationStatus t s) = spl_core s" by simp
  then show "spl_numbered (setSplCalibrationStatus t s) sv = spl_numbered s sv" "calm (setSplCalibrationStatus t s) pl sv = calm s pl sv"
    by (rule spl_core_parts)+
  show "stop_works op (setSplCalibrationStatus t s) pl sv = stop_works op s pl sv" by (rule stop_core) simp_all
qed (simp add: noticed_def shows_noise_def setSplCalibrationStatus_def)

lemma failed_caller_cases:
  obtains "caller_continues (Some m) c s = setSplCalibrationStatus m s"
  | i where "caller_continues (Some m) c s = spl_save_finally i (setSplCalibrationStatus m s)"
  | i where "caller_continues (Some m) c s = spl_save_finally i s"
  by (cases c; cases "splApplyController s = Some (case c of BySave i r q \<Rightarrow> i)")
    (simp_all add: caller_continues_def save_stopped_def spl_save_failed_def)

lemma failed_caller_fine:
  "spl_numbered (caller_continues (Some m) c s) sv = spl_numbered s sv"
  "calm s pl sv \<Longrightarrow> calm (caller_continues (Some m) c s) pl sv"
  "stop_works op s pl sv \<Longrightarrow> stop_works op (caller_continues (Some m) c s) pl sv"
  "noticed (caller_continues (Some m) c s) = noticed s"
  by (rule failed_caller_cases [of m c s]; simp add: save_finally_fine)+

lemma failed_callers_fine:
  "spl_numbered (fold (caller_continues (Some m)) cs s) sv = spl_numbered s sv"
  "stop_works op s pl sv \<Longrightarrow> stop_works op (fold (caller_continues (Some m)) cs s) pl sv"
  by (induction cs arbitrary: s) (simp_all add: failed_caller_fine)

lemma good_caller_fine:
  assumes "spl_numbered s sv" "calm s False sv"
  shows "spl_numbered (caller_continues None c s) sv \<and> calm (caller_continues None c s) False sv"
proof (cases c)
  case ByClose
  have "spl_numbered (s\<lparr>splOpen := False\<rparr>) sv" "calm (s\<lparr>splOpen := False\<rparr>) False sv"
    using assms by (simp_all add: spl_numbered_def calm_def starts_are_def)
  then show ?thesis using ByClose by (simp add: caller_continues_def)
next
  case (BySave i r q)
  then show ?thesis using assms by (simp add: caller_continues_def save_stopped_def save_finally_fine numbered_wait calm_wait)
qed (use assms in \<open>simp add: caller_continues_def\<close>)

lemma good_callers_fine:
  "spl_numbered s sv \<Longrightarrow> calm s False sv \<Longrightarrow> spl_numbered (fold (caller_continues None) cs s) sv \<and> calm (fold (caller_continues None) cs s) False sv"
proof (induction cs arbitrary: s)
  case (Cons c cs)
  then show ?case using good_caller_fine [OF Cons.prems] by simp
qed simp

subsection \<open>Stopping\<close>

text \<open>What a page needs for a new stop.\<close>

definition may_stop :: "spl_page \<Rightarrow> bool" where
  "may_stop s = (splStopRequest s = None \<and> splOpen s \<and> starts_are (splStartRequest s) s
     \<and> (\<forall>k. splStartRequest s = Some k \<longrightarrow> (\<exists>t. (k, t) \<in> set (splTasks s) \<and> is_start t))
     \<and> (splApplyController s \<noteq> None \<longrightarrow> splApplying s))"

lemma click_may_stop: "click_works i t s pl sv \<Longrightarrow> may_stop s"
  by (auto simp: click_works_def may_stop_def)

lemma calm_may_stop: "calm s pl sv \<Longrightarrow> splOpen s \<Longrightarrow> may_stop s"
  by (simp add: calm_def may_stop_def)

lemma new_stop_fine:
  assumes "may_stop s" "spl_numbered s sv"
  shows "fine (stopSplCalibrationOperation txt c s) pl sv"
proof -
  let ?phase = "\<lambda>i. case splStartRequest s of Some k \<Rightarrow> StopInterrupt i k None | None \<Rightarrow> StopLast i None"
  let ?s = "stopSplCalibrationOperation txt c s"
  let ?op = "\<lparr>stopPhase = ?phase (splNext s), stopText = txt, stopCaller = c, stopJoined = []\<rparr>"
  have s: "splTasks ?s = splTasks s" "splNext ?s = splNext s + 1" "splGeneration ?s = splGeneration s + 1" "splOpen ?s"
    "splStartRequest ?s = splStartRequest s" "splApplyController ?s = splApplyController s"
    "splApplying ?s = splApplying s"
    using assms(1) by (simp_all add: stopSplCalibrationOperation_def stop_sends_def may_stop_def)
  have op: "splStopRequest ?s = Some ?op"
  proof (cases "splStartRequest s")
    case None
    then show ?thesis using assms(1) by (simp add: stopSplCalibrationOperation_def stop_sends_def may_stop_def)
  next
    case (Some k)
    then show ?thesis using assms(1) by (simp add: stopSplCalibrationOperation_def stop_sends_def may_stop_def)
  qed
  have "stop_request (?phase i) = Some i" "waiting_start (?phase i) = splStartRequest s" for i
    by (simp_all add: stop_request_def split: option.split)
  moreover have "splNext s \<notin> fst ` set (splTasks s)" using assms(2) by (auto simp: spl_numbered_def)
  moreover have "\<forall>x \<in> set (splTasks s). gen_of (snd x) < splGeneration s + 1" using assms(2) by (auto simp: spl_numbered_def less_Suc_eq_le)
  moreover have "(splNext s, b) \<notin> set sv" for b using fresh_served [OF assms(2)] .
  moreover have "i = splNext s" if "?phase (splNext s) = StopLast i f" for i f using that by (simp split: option.splits)
  moreover have "?phase (splNext s) \<noteq> StopCheck i m" for i m by (simp split: option.split)
  ultimately have "stop_works ?op ?s pl sv"
    using assms(1) s op by (auto simp: stop_works_def may_stop_def stale_but_def starts_are_def)
  moreover have "spl_numbered ?s sv" using assms(2) s by (auto simp: spl_numbered_def less_SucI le_SucI)
  ultimately show ?thesis by (rule stop_fine [rotated])
qed

lemma stop_call_fine:
  assumes "fine s pl sv" "splOpen s"
  shows "fine (stopSplCalibrationOperation txt c s) pl sv"
  using assms(1)
proof (cases rule: fine_cases)
  case (stop op)
  then have op: "splStopRequest s = Some op" by (simp add: stop_works_def)
  show ?thesis
  proof (cases "\<exists>i m. stopPhase op = StopCheck i m")
    case True
    then obtain i m where "stopPhase op = StopCheck i m" by blast
    with op have "stopSplCalibrationOperation txt c s = caller_continues (Some m) c s" by (simp add: stopSplCalibrationOperation_def)
    then show ?thesis using stop by (auto simp: failed_caller_fine intro!: stop_fine [of _ _ op])
  next
    case False
    let ?op = "op\<lparr>stopJoined := stopJoined op @ [c]\<rparr>"
    from False op have s: "stopSplCalibrationOperation txt c s = s\<lparr>splStopRequest := Some ?op\<rparr>"
      by (cases "stopPhase op") (simp_all add: stopSplCalibrationOperation_def)
    have "stop_works ?op (s\<lparr>splStopRequest := Some ?op\<rparr>) pl sv" "spl_numbered (s\<lparr>splStopRequest := Some ?op\<rparr>) sv"
      using stop by (simp_all add: stop_works_def spl_numbered_def stale_but_def starts_are_def)
    then show ?thesis using s stop_fine by simp
  qed
next
  case (click i t)
  then show ?thesis by (intro new_stop_fine click_may_stop)
next
  case calm
  then show ?thesis using assms(2) by (intro new_stop_fine calm_may_stop)
qed

lemma stop_over_calm:
  assumes "stop_works op s pl sv" "waiting_start (stopPhase op) = None" "spl_numbered s sv"
  shows "calm (resetSplCalibrationNoiseButton (s\<lparr>splStopRequest := None\<rparr>)) pl' sv"
    "spl_numbered (resetSplCalibrationNoiseButton (s\<lparr>splStopRequest := None\<rparr>)) sv"
proof -
  let ?s = "s\<lparr>splStopRequest := None\<rparr>"
  have core: "spl_core (resetSplCalibrationNoiseButton ?s) = spl_core ?s" by simp
  have "calm ?s pl' sv" using assms(1,2) by (intro calm_stale) (simp_all add: stop_works_def stale_but_def starts_are_def)
  then show "calm (resetSplCalibrationNoiseButton ?s) pl' sv" using spl_core_parts(4) [OF core] by simp
  have "spl_numbered ?s sv" using assms(3) by (simp add: spl_numbered_def)
  then show "spl_numbered (resetSplCalibrationNoiseButton ?s) sv" using spl_core_parts(1) [OF core] by simp
qed

lemma stop_ends_fine:
  assumes "stop_works op s pl sv" "waiting_start (stopPhase op) = None" "spl_numbered s sv" "pl \<Longrightarrow> shows_noise s"
  shows "fine (stop_over op (Some m) s) pl sv"
proof -
  let ?s = "resetSplCalibrationNoiseButton (s\<lparr>splStopRequest := None\<rparr>)"
  have "noticed ?s = (splOpen s \<and> (splStartRequest s \<noteq> None \<or> shows_noise s))"
    by (simp add: noticed_def shows_noise_def resetSplCalibrationNoiseButton_def)
  moreover have "splOpen s" using assms(1) by (simp add: stop_works_def)
  ultimately have "pl \<Longrightarrow> noticed ?s" using assms(4) by simp
  then show ?thesis
    using stop_over_calm(1) [OF assms(1-3), of pl] stop_over_calm(2) [OF assms(1-3)] unfolding stop_over_def
    by (intro calm_fine) (simp_all add: failed_caller_fine)
qed

lemma stop_succeeds_fine:
  assumes "stop_works op s False sv" "waiting_start (stopPhase op) = None" "spl_numbered s sv"
  shows "fine (spl_stop_settled op None s) False sv"
proof -
  define s' where "s' = (if stopText op \<noteq> [] then setSplCalibrationStatus (stopText op) else id) (setSplCalibrationActionLine []
    (s\<lparr>splNoiseActive := False, splStopFailed := False, splRestorePending := JNull\<rparr>))"
  have core: "spl_core (resetSplCalibrationNoiseButton (s'\<lparr>splStopRequest := None\<rparr>))
      = spl_core (resetSplCalibrationNoiseButton (s\<lparr>splStopRequest := None\<rparr>))"
    by (simp add: s'_def) (simp add: spl_core_def setSplCalibrationStatus_def setSplCalibrationActionLine_def)
  have "spl_numbered (resetSplCalibrationNoiseButton (s'\<lparr>splStopRequest := None\<rparr>)) sv"
    "calm (resetSplCalibrationNoiseButton (s'\<lparr>splStopRequest := None\<rparr>)) False sv"
    using stop_over_calm(1) [OF assms, of False] stop_over_calm(2) [OF assms] spl_core_parts [OF core] by simp_all
  from good_caller_fine [OF this, of "stopCaller op"]
  have "spl_numbered (stop_over op None s') sv \<and> calm (stop_over op None s') False sv" by (simp add: stop_over_def)
  then have "spl_numbered (spl_stop_settled op None s) sv \<and> calm (spl_stop_settled op None s) False sv"
    unfolding spl_stop_settled_def s'_def by (simp add: good_callers_fine del: if_split)
  then show ?thesis by (simp add: calm_fine)
qed

lemma stop_sends_works:
  assumes "stop_works op s pl sv" "spl_numbered s sv" "waiting_start (phase (splNext s)) = None"
    "splStartRequest s = None" "starts_are None s" "stop_request (phase (splNext s)) = Some (splNext s)"
    "\<And>i f. phase (splNext s) = StopLast i f \<Longrightarrow> i = splNext s"
    "\<And>i m. phase (splNext s) = StopCheck i m \<Longrightarrow> splStopFailed s"
  shows "stop_works (op'\<lparr>stopPhase := phase (splNext s)\<rparr>) (stop_sends phase op' s) pl sv" "spl_numbered (stop_sends phase op' s) sv"
proof -
  have "splNext s \<notin> fst ` set (splTasks s)" "(splNext s, b) \<notin> set sv" for b
    using assms(2) fresh_served [OF assms(2)] by (auto simp: spl_numbered_def)
  then show "stop_works (op'\<lparr>stopPhase := phase (splNext s)\<rparr>) (stop_sends phase op' s) pl sv"
    using assms by (auto simp: stop_works_def stop_sends_def stale_but_def starts_are_def)
  show "spl_numbered (stop_sends phase op' s) sv" using assms(2) by (auto simp: spl_numbered_def stop_sends_def less_SucI)
qed

lemma stop_fails_fine:
  assumes "stop_works op s pl sv" "waiting_start (stopPhase op) = None" "spl_numbered s sv"
  shows "fine (spl_stop_settled op (Some m) s) pl sv"
proof -
  let ?s = "s\<lparr>splStopFailed := True\<rparr>"
  let ?t = "stop_sends (\<lambda>i. StopCheck i m) (op\<lparr>stopJoined := []\<rparr>) ?s"
  let ?op = "op\<lparr>stopJoined := [], stopPhase := StopCheck (splNext ?s) m\<rparr>"
  have "stop_works op ?s pl sv" "spl_numbered ?s sv" "splStartRequest ?s = None" "starts_are None ?s"
    using assms by (simp_all add: stop_works_def spl_numbered_def stale_but_def starts_are_def)
  then have "stop_works ?op ?t pl sv" "spl_numbered ?t sv"
    using stop_sends_works [of op ?s pl sv "\<lambda>i. StopCheck i m" "op\<lparr>stopJoined := []\<rparr>"] by (simp_all add: stop_request_def)
  then show ?thesis unfolding spl_stop_settled_def by (auto simp: failed_callers_fine intro!: stop_fine [of _ _ ?op])
qed

lemma stop_checked_fine:
  assumes "stop_works op s pl sv" "stopPhase op = StopCheck i m" "spl_numbered s sv"
  shows "fine (stop_checked op m reply s) pl sv"
proof -
  have failed: "splStopFailed s" using assms(1,2) by (simp add: stop_works_def)
  have other: "fine (stop_over op (Some m) (setSplCalibrationActionLine t s)) pl sv" for t
  proof (rule stop_ends_fine)
    show "stop_works op (setSplCalibrationActionLine t s) pl sv" using assms(1) stop_core [of "setSplCalibrationActionLine t s" s] by simp
    show "spl_numbered (setSplCalibrationActionLine t s) sv" using assms(3) spl_core_parts(1) [of "setSplCalibrationActionLine t s" s] by simp
    show "shows_noise (setSplCalibrationActionLine t s)" using failed by (simp add: shows_noise_def setSplCalibrationActionLine_def)
  qed (simp add: assms(2))
  have restored: "fine (stop_over op (Some m) (setSplCalibrationRestoreActionLine (applySplCalibrationServerState data s))) pl sv"
    if r: "\<not> truthy (jget data ''operation_active'')" "truthy (jget data ''restore_pending'')" for data
  proof -
    let ?s = "setSplCalibrationRestoreActionLine (applySplCalibrationServerState data s)"
    have core: "spl_core ?s = spl_core s" by simp
    have noise: "shows_noise ?s" using r
      by (simp add: shows_noise_def setSplCalibrationRestoreActionLine_def setSplCalibrationActionLine_def applySplCalibrationServerState_def Let_def)
    let ?u = "s\<lparr>splStopRequest := None\<rparr>"
    have core': "spl_core (resetSplCalibrationNoiseButton (?s\<lparr>splStopRequest := None\<rparr>)) = spl_core (resetSplCalibrationNoiseButton ?u)"
      using core_stop [OF core] by simp
    have "splOpen ?s" using core assms(1) by (simp add: spl_core_def stop_works_def)
    with noise have "noticed (resetSplCalibrationNoiseButton (?s\<lparr>splStopRequest := None\<rparr>))"
      by (simp add: noticed_def shows_noise_def resetSplCalibrationNoiseButton_def)
    then show ?thesis
      using stop_over_calm(1) [OF assms(1) _ assms(3), of pl] stop_over_calm(2) [OF assms(1) _ assms(3)] assms(2)
        spl_core_parts(1,4) [OF core'] unfolding stop_over_def
      by (intro calm_fine) (simp_all add: failed_caller_fine)
  qed
  have keeps: "splStopFailed (applySplCalibrationServerState data s) = False"
    if "\<not> truthy (jget data ''operation_active'')" for data
    using that by (simp add: applySplCalibrationServerState_def Let_def)
  show ?thesis
    using other restored failed keeps unfolding stop_checked_def Let_def
    by (auto split: sum.split bool.split)
qed

lemma stop_answered_fine:
  assumes "stop_works op s pl sv" "spl_numbered s sv" "stop_request (stopPhase op) = Some i"
    and "\<And>f data. stopPhase op = StopLast i f \<Longrightarrow> reply = Inr (True, data) \<Longrightarrow> (i, True) \<in> set sv"
  shows "fine (stop_answered op reply s) pl sv"
proof (cases "stopPhase op")
  case (StopInterrupt j k oc)
  show ?thesis
  proof (cases oc)
    case None
    then have "stop_works (op\<lparr>stopPhase := StopAwaits k\<rparr>) (stop_answered op reply s) pl sv" "spl_numbered (stop_answered op reply s) sv"
      using assms(1,2) StopInterrupt
      by (simp_all add: stop_answered_def stop_works_def spl_numbered_def stale_but_def starts_are_def stop_request_def)
    then show ?thesis by (intro stop_fine)
  next
    case (Some f)
    have "splStartRequest s = None" "starts_are None s" using assms(1) StopInterrupt Some by (simp_all add: stop_works_def)
    then show ?thesis
      using stop_sends_works [OF assms(1,2), of "\<lambda>i. StopLast i f" op] StopInterrupt Some
      by (auto simp: stop_answered_def stop_request_def intro!: stop_fine)
  qed
next
  case (StopAwaits k)
  then show ?thesis using assms(3) by (simp add: stop_request_def)
next
  case (StopLast j f)
  then have j: "j = i" "waiting_start (stopPhase op) = None" using assms(3) by (simp_all add: stop_request_def)
  have "fine (spl_stop_settled op None s) pl sv" if "reply = Inr (True, data)" for data
  proof -
    have "\<not> pl" using assms(1) assms(4) [of f data] StopLast j(1) that by (auto simp: stop_works_def)
    then show ?thesis using stop_succeeds_fine [of op s sv] assms(1,2) j(2) by simp
  qed
  moreover have "fine (spl_stop_settled op (Some m) s) pl sv" for m using stop_fails_fine assms(1,2) j(2) by simp
  ultimately show ?thesis using StopLast by (cases f) (auto simp: stop_answered_def split: sum.split)
next
  case (StopCheck j m)
  then show ?thesis using stop_checked_fine [OF assms(1) StopCheck assms(2)] by (simp add: stop_answered_def)
qed

subsection \<open>Answers to the other requests\<close>

lemma calm_shown:
  assumes "spl_core s' = spl_core s" "calm s pl sv" "spl_numbered s sv" "pl \<Longrightarrow> splOpen s \<and> shows_noise s'"
  shows "fine s' pl sv"
  using assms spl_core_parts [OF assms(1)] by (intro calm_fine) (auto simp: noticed_def spl_core_def)

lemma shown_frame [simp]:
  "shows_noise (setSplCalibrationStatus t s) = shows_noise s" "shows_noise (setSplCalibrationActionLine t s) = shows_noise s"
  "shows_noise (setSplCalibrationRestoreActionLine s) = shows_noise s" "shows_noise (resetSplCalibrationNoiseButton s) = shows_noise s"
  "shows_noise (rememberSplCalibrationOutput v s) = shows_noise s" "shows_noise (remember_if_named v s) = shows_noise s"
  by (simp_all add: shows_noise_def setSplCalibrationStatus_def setSplCalibrationActionLine_def setSplCalibrationRestoreActionLine_def
      resetSplCalibrationNoiseButton_def rememberSplCalibrationOutput_def remember_if_named_def)

lemma shows_reported: "reports_noise data \<Longrightarrow> shows_noise (applySplCalibrationServerState data s)"
  by (auto simp: reports_noise_def shows_noise_def applySplCalibrationServerState_def Let_def)

lemma done_frame [simp]:
  "splGeneration (spl_done i s) = splGeneration s" "splOpen (spl_done i s) = splOpen s" "shows_noise (spl_done i s) = shows_noise s"
  "splStartRequest (spl_done i s) = splStartRequest s" "splStopRequest (spl_done i s) = splStopRequest s"
  "button_fits (spl_done i s) t = button_fits s t" "splApplyController (spl_done i s) = splApplyController s"
  "splApplying (spl_done i s) = splApplying s" "splStopFailed (spl_done i s) = splStopFailed s" "splNext (spl_done i s) = splNext s"
  by (simp_all add: spl_done_def shows_noise_def) (cases t; simp)

lemma spl_done_parts:
  "stale_but k s \<Longrightarrow> stale_but k (spl_done i s)" "starts_are k s \<Longrightarrow> starts_are k (spl_done i s)"
  "(j, t) \<in> set (splTasks (spl_done i s)) \<longleftrightarrow> (j, t) \<in> set (splTasks s) \<and> j \<noteq> i"
  by (simp_all add: stale_but_def starts_are_def spl_done_def)

lemma stop_done_other:
  assumes "stop_works op s pl sv" "map_of (splTasks s) i = Some t" "\<not> is_start t" "spl_numbered s sv"
  shows "stop_works op (spl_done i s) pl sv"
proof -
  have "k \<noteq> i" if u: "(k, u) \<in> set (splTasks s)" "is_start u" for k u
  proof
    assume "k = i"
    then have "map_of (splTasks s) i = Some u" using u(1) assms(4) by (intro map_of_is_SomeI) (simp_all add: spl_numbered_def)
    then show False using assms(2,3) u(2) by simp
  qed
  then have "\<exists>u. (k, u) \<in> set (splTasks (spl_done i s)) \<and> is_start u" if "waiting_start (stopPhase op) = Some k" for k
    using assms(1) that unfolding stop_works_def spl_done_parts by blast
  moreover have sub: "fst ` set (splTasks (spl_done i s)) \<subseteq> fst ` set (splTasks s)" by (auto simp: spl_done_def)
  have "j \<notin> fst ` set (splTasks (spl_done i s))" if "stop_request (stopPhase op) = Some j" for j
  proof -
    have "j \<notin> fst ` set (splTasks s)" using assms(1) that by (simp add: stop_works_def)
    with sub show ?thesis by (rule contra_subsetD)
  qed
  ultimately show ?thesis
    using assms(1) spl_done_parts(1) [of None s i] spl_done_parts(2) [of "waiting_start (stopPhase op)" s i]
    by (simp add: stop_works_def)
qed

lemma click_done_other: "click_works k u s pl sv \<Longrightarrow> i \<noteq> k \<Longrightarrow> click_works k u (spl_done i s) pl sv"
  using spl_done_parts(1) [of "Some k" s i] spl_done_parts(2) [of "if is_start u then Some k else None" s i]
  by (simp add: click_works_def spl_done_parts(3))

lemma click_over:
  assumes "click_works i t s pl sv"
  shows "calm ((spl_done i s)\<lparr>splStartRequest := None\<rparr>) pl' sv"
proof (rule calm_stale)
  show "starts_are None ((spl_done i s)\<lparr>splStartRequest := None\<rparr>)"
    using assms by (cases "is_start t") (auto simp: click_works_def starts_are_def spl_done_def)
qed (use assms in \<open>auto simp: click_works_def stale_but_def spl_done_def\<close>)

lemma click_over_other: "click_works i t s pl sv \<Longrightarrow> \<not> is_start t \<Longrightarrow> calm (spl_done i s) pl' sv"
proof -
  assume c: "click_works i t s pl sv" "\<not> is_start t"
  have "x\<lparr>splStartRequest := None\<rparr> = x" if "splStartRequest x = None" for x :: spl_page using that by (cases x) simp
  from this [of "spl_done i s"] c have "(spl_done i s)\<lparr>splStartRequest := None\<rparr> = spl_done i s" by (simp add: click_works_def)
  then show "calm (spl_done i s) pl' sv" using click_over [OF c(1), of pl'] by simp
qed

text \<open>Answers of an earlier generation only finish their task.\<close>

lemma save_failed_stop:
  "stop_works op s pl sv \<Longrightarrow> spl_numbered s sv \<Longrightarrow> fine (spl_save_failed i g m s) pl sv"
  unfolding spl_save_failed_def by (rule stop_fine [where op = op]) (simp_all add: save_finally_fine)

lemma save_failed_calm:
  assumes "calm s pl sv" "spl_numbered s sv" "pl \<Longrightarrow> noticed s"
  shows "fine (spl_save_failed i g m s) pl sv"
  using assms by (auto simp: spl_save_failed_def save_finally_fine intro!: calm_fine)

lemma stale_save:
  assumes "gen \<noteq> splGeneration s"
  shows "save_applied c gen r reply s = spl_save_finally c s"
    "effects_read c gen reply s = spl_save_finally c s"
  using assms by (simp_all add: save_applied_def effects_read_def spl_save_failed_def split: sum.split)

lemma other_settled_stop:
  assumes "stop_works op s pl sv" "spl_numbered s sv" "map_of (splTasks s) i = Some t" "\<not> is_start t"
  shows "fine (task_settled i t reply s) pl sv"
proof -
  have stale: "gen_of t < splGeneration s" using stop_stale [OF assms(1,3)] .
  have "stop_works op (spl_done i s) pl sv" "spl_numbered (spl_done i s) sv"
    using stop_done_other [OF assms(1,3,4,2)] numbered_done [OF assms(2)] by simp_all
  then have ended: "fine (spl_done i s) pl sv" "fine (spl_save_finally c (spl_done i s)) pl sv" for c
    by (simp_all add: stop_fine [where op = op] save_finally_fine)
  have "fine s pl sv" using assms(1,2) by (auto intro: stop_fine)
  then show ?thesis
    using stale assms(4) ended by (cases t) (simp_all add: task_settled_def open_read_def start_checked_def stale_save)
qed

lemma other_settled_click:
  assumes "click_works k u s pl sv" "spl_numbered s sv" "map_of (splTasks s) i = Some t" "i \<noteq> k"
  shows "fine (task_settled i t reply s) pl sv"
proof -
  have stale: "gen_of t < splGeneration s" using other_stale [OF assms(1,3,4)] .
  have "\<not> is_start t"
    using assms(1,4) map_of_SomeD [OF assms(3)] by (auto simp: click_works_def starts_are_def dest!: bspec split: if_splits)
  have "click_works k u (spl_done i s) pl sv" "spl_numbered (spl_done i s) sv"
    using click_done_other [OF assms(1,4)] numbered_done [OF assms(2)] by simp_all
  then have ended: "fine (spl_done i s) pl sv" by (intro click_fine)
  moreover have "spl_save_finally c (spl_done i s) = spl_done i s" for c
    using assms(1) by (simp add: spl_save_finally_def click_works_def)
  moreover have "fine s pl sv" using assms(1,2) by (intro click_fine)
  ultimately show ?thesis
    using stale \<open>\<not> is_start t\<close> by (cases t) (simp_all add: task_settled_def open_read_def start_checked_def stale_save)
qed

text \<open>A start settles while a stop waits for it.\<close>

lemma waiting_cases:
  assumes "waiting_start p = Some k"
  obtains j where "p = StopInterrupt j k None" | "p = StopAwaits k"
  using assms by (cases p rule: waiting_start.cases) auto

lemma start_settled_stop_works:
  assumes "stop_works op s pl sv" "spl_numbered s sv" "map_of (splTasks s) i = Some t" "is_start t"
  shows "fine (start_settled_stop i f (spl_done i s)) pl sv" "splGeneration (start_settled_stop i f (spl_done i s)) = splGeneration s"
proof -
  have mem: "(i, t) \<in> set (splTasks s)" using map_of_SomeD [OF assms(3)] .
  have wait: "waiting_start (stopPhase op) = Some i" and start: "splStartRequest s = Some i" and stop: "splStopRequest s = Some op"
    using assms(1,4) mem by (auto simp: stop_works_def starts_are_def dest!: bspec)
  let ?s = "(spl_done i s)\<lparr>splStartRequest := None\<rparr>"
  have none: "starts_are None ?s"
    using assms(1) wait by (auto simp: stop_works_def starts_are_def spl_done_def)
  have num: "spl_numbered ?s sv" using numbered_done [OF assms(2), of i] by (simp add: spl_numbered_def)
  have sub: "fst ` set (splTasks (spl_done i s)) \<subseteq> fst ` set (splTasks s)" by (auto simp: spl_done_def)
  have stale: "stale_but None (spl_done i s)" using assms(1) by (simp add: stop_works_def spl_done_parts(1))
  from wait show "fine (start_settled_stop i f (spl_done i s)) pl sv"
  proof (cases rule: waiting_cases)
    case (1 j)
    let ?op = "op\<lparr>stopPhase := StopInterrupt j i (Some f)\<rparr>"
    have "j \<notin> fst ` set (splTasks s)" "j < splNext s" using assms(1) 1 by (simp_all add: stop_works_def stop_request_def)
    then have "stop_works ?op (?s\<lparr>splStopRequest := Some ?op\<rparr>) pl sv" "spl_numbered (?s\<lparr>splStopRequest := Some ?op\<rparr>) sv"
      using assms(1) stale none num contra_subsetD [OF sub]
      by (simp_all add: stop_works_def spl_numbered_def stop_request_def stale_but_def starts_are_def)
    then show ?thesis using 1 start stop by (simp add: start_settled_stop_def stop_fine)
  next
    case 2
    have "splNext s \<notin> fst ` set (splTasks s)" "(splNext s, b) \<notin> set sv" for b
      using assms(2) fresh_served [OF assms(2)] by (auto simp: spl_numbered_def)
    then have "stop_works (op\<lparr>stopPhase := StopLast (splNext s) f\<rparr>) (stop_sends (\<lambda>i. StopLast i f) op ?s) pl sv"
      "spl_numbered (stop_sends (\<lambda>i. StopLast i f) op ?s) sv"
      using assms(1) stale none num contra_subsetD [OF sub]
      by (simp_all add: stop_works_def stop_sends_def spl_numbered_def stop_request_def stale_but_def starts_are_def less_SucI)
    then show ?thesis using 2 start stop by (simp add: start_settled_stop_def stop_fine)
  qed
  show "splGeneration (start_settled_stop i f (spl_done i s)) = splGeneration s"
    using wait start stop by (cases rule: waiting_cases) (simp_all add: start_settled_stop_def stop_sends_def)
qed

lemma start_settled_in_stop:
  assumes "stop_works op s pl sv" "spl_numbered s sv" "map_of (splTasks s) i = Some t" "is_start t"
  shows "fine (task_settled i t reply s) pl sv"
  using start_settled_stop_works [OF assms, of "failure_of reply"] stop_stale [OF assms(1,3)] assms(4)
  by (cases t) (simp_all add: task_settled_def automatic_settled_def noise_settled_def)

text \<open>A click's own answers.\<close>

lemma click_open: "click_works i t s pl sv \<Longrightarrow> splOpen s \<and> splStopRequest s = None"
  by (simp add: click_works_def)

lemma start_settles_click:
  assumes "click_works i t s pl sv" "is_start t"
  shows "start_settled_stop i f (spl_done i s) = (spl_done i s)\<lparr>splStartRequest := None\<rparr>"
  using assms by (simp add: click_works_def start_settled_stop_def)

lemma click_over_numbered: "spl_numbered s sv \<Longrightarrow> spl_numbered ((spl_done i s)\<lparr>splStartRequest := None\<rparr>) sv"
  using numbered_done [of s sv i] by (simp add: spl_numbered_def)

lemma start_failed_fine:
  assumes "click_works i t s pl sv" "spl_numbered s sv"
  shows "fine (spl_start_failed (splGeneration s) m ((spl_done i s)\<lparr>splStartRequest := None\<rparr>)) pl sv"
proof -
  let ?s = "(spl_done i s)\<lparr>splStartRequest := None\<rparr>"
  have c: "calm ?s pl sv" "spl_numbered ?s sv" using click_over [OF assms(1)] click_over_numbered [OF assms(2)] by simp_all
  have stale: "\<forall>x \<in> set (splTasks (spl_done i s)). gen_of (snd x) < splGeneration s"
    using assms(1) by (auto simp: click_works_def stale_but_def spl_done_def)
  have fits: "read_fits (splNext s) pl sv" using fresh_fits [OF assms(2)] .
  let ?t = "spl_start_failed (splGeneration s) m ?s"
  have "click_works (splNext s) (StartCheck (splGeneration s) m) ?t pl sv"
    using assms(1) stale fits c(1)
    by (auto simp: click_works_def spl_start_failed_def spl_wait_def stale_but_def starts_are_def calm_def shows_noise_def)
  moreover have "spl_numbered (?s\<lparr>splStopFailed := True\<rparr>) sv" using c(2) by (simp add: spl_numbered_def)
  then have "spl_numbered ?t sv" unfolding spl_start_failed_def by (rule numbered_wait) simp
  ultimately show ?thesis by (intro click_fine)
qed

lemma finally_shown: "spl_core (toggle_finally g s) = spl_core s" "shows_noise (toggle_finally g s) = shows_noise s"
proof -
  have "spl_core (s\<lparr>splAutomaticRunning := False\<rparr>) = spl_core s" "shows_noise (s\<lparr>splAutomaticRunning := False\<rparr>) = shows_noise s"
    by (simp_all add: spl_core_def shows_noise_def)
  then show "spl_core (toggle_finally g s) = spl_core s" "shows_noise (toggle_finally g s) = shows_noise s"
    by (simp_all add: toggle_finally_def)
qed

lemma click_settled_fine:
  assumes click: "click_works i t s pl sv" and num: "spl_numbered s sv"
    and auto: "\<And>g data. t = AutoStart g \<Longrightarrow> reply = Inr (True, data) \<Longrightarrow> \<not> pl"
    and read: "\<And>data. is_read t \<Longrightarrow> reply = Inr (True, data) \<Longrightarrow> \<exists>p. (i, p) \<in> set sv \<and> (p \<longrightarrow> reports_noise data)"
  shows "fine (task_settled i t reply s) pl sv"
proof -
  let ?s = "(spl_done i s)\<lparr>splStartRequest := None\<rparr>"
  have c: "calm ?s pl sv" "spl_numbered ?s sv" "splOpen ?s" and gen: "gen_of t = splGeneration s"
    using click_over [OF click] click_over_numbered [OF num] click by (simp_all add: click_works_def)
  have failed: "fine (spl_start_failed (splGeneration s) m ?s) pl sv" for m using start_failed_fine [OF click num] .
  have ends: "fine (toggle_finally g x) pl sv" if "spl_core x = spl_core ?s" "pl \<Longrightarrow> shows_noise x" for g x
    using that c by (intro calm_shown [of _ ?s]) (simp_all add: finally_shown)
  show ?thesis
  proof (cases t)
    case (Countdown g n)
    then show ?thesis using click num by (simp add: task_settled_def click_fine)
  next
    case (AutoStart g)
    let ?u = "\<lambda>data. (remember_if_named data ?s)\<lparr>splMeasured := one_decimal (jget data ''measured_spl_db''),
        splNoiseActive := False, noiseText := ''Start noise''\<rparr>"
    have "spl_core (?u data) = spl_core ?s" for data
      using texts_core(4) [of data ?s] by (simp add: spl_core_def)
    then have "reply = Inr (True, data) \<Longrightarrow> fine (toggle_finally (splGeneration s) (setSplCalibrationStatus a
        (setSplCalibrationActionLine b (?u data)))) pl sv" for data a b
      using auto [OF AutoStart] by (intro ends) simp_all
    then show ?thesis
      using AutoStart gen failed start_settles_click [OF click]
      by (auto simp: task_settled_def automatic_settled_def Let_def split: sum.split)
  next
    case (NoiseStart g)
    let ?u = "\<lambda>data. (remember_if_named data ?s)\<lparr>splNoiseActive := True, noiseText := ''Stop noise''\<rparr>"
    have "spl_core (?u data) = spl_core ?s" "shows_noise (?u data)" for data
      using texts_core(4) [of data ?s] by (simp_all add: spl_core_def shows_noise_def)
    then have "fine (toggle_finally (splGeneration s) (setSplCalibrationActionLine b (?u data))) pl sv" for data b
      by (intro ends) simp_all
    then show ?thesis
      using NoiseStart gen failed start_settles_click [OF click]
      by (auto simp: task_settled_def noise_settled_def split: sum.split)
  next
    case (StartCheck g m)
    have start: "splStartRequest (spl_done i s) = None" using click StartCheck by (simp add: click_works_def)
    have same: "?s = spl_done i s"
      using start by (cases "spl_done i s") simp
    have noise: "pl \<Longrightarrow> shows_noise s" using click StartCheck by (simp add: click_works_def)
    let ?over = "\<lambda>x. toggle_finally g (setSplCalibrationStatus m (setSplCalibrationRestoreActionLine x))"
    have "fine (?over (spl_done i s)) pl sv" using noise same by (intro ends) simp_all
    moreover have "fine (?over (applySplCalibrationServerState data (spl_done i s))) pl sv" if answer: "reply = Inr (True, data)" for data
    proof (rule ends)
      assume pl
      have "is_read t" using StartCheck by simp
      then obtain p where p: "(i, p) \<in> set sv" "p \<longrightarrow> reports_noise data" using read [OF _ answer] by blast
      have "read_fits i pl sv" using click StartCheck by (simp add: click_works_def)
      then have p using p(1) \<open>pl\<close> unfolding read_fits_def by blast
      with p(2) show "shows_noise (setSplCalibrationStatus m (setSplCalibrationRestoreActionLine
          (applySplCalibrationServerState data (spl_done i s))))" by (simp add: shows_reported)
    qed (simp add: same)
    ultimately show ?thesis
      using StartCheck gen by (auto simp: task_settled_def start_checked_def split: sum.split bool.split)
  qed (use click in \<open>simp_all add: click_works_def\<close>)
qed

lemma calm_settled_fine:
  assumes calm: "calm s pl sv" and num: "spl_numbered s sv" and noise: "pl \<Longrightarrow> splOpen s \<and> shows_noise s"
    and task: "map_of (splTasks s) i = Some t"
    and read: "\<And>data. is_read t \<Longrightarrow> reply = Inr (True, data) \<Longrightarrow> \<exists>p. (i, p) \<in> set sv \<and> (p \<longrightarrow> reports_noise data)"
  shows "fine (task_settled i t reply s) pl sv"
proof -
  let ?s = "spl_done i s"
  have c: "calm ?s pl sv" "spl_numbered ?s sv" using calm_done [OF calm] numbered_done [OF num] .
  have mem: "(i, t) \<in> set (splTasks s)" using map_of_SomeD [OF task] .
  have t: "\<not> is_start t" "gen_of t = splGeneration s \<Longrightarrow> \<not> is_toggle t"
    "gen_of t = splGeneration s \<Longrightarrow> spl_is_save t \<Longrightarrow> \<not> pl" "gen_of t = splGeneration s \<Longrightarrow> is_read t \<Longrightarrow> read_fits i pl sv"
    using calm mem unfolding calm_def starts_are_def by (auto dest!: bspec)
  have fine: "fine x pl sv" if "spl_core x = spl_core ?s" "pl \<Longrightarrow> shows_noise x" for x
    using that noise c by (intro calm_shown [of _ ?s]) simp_all
  have saved: "fine (spl_save_finally c x) pl sv" "fine (spl_save_failed c g m x) pl sv"
    if "spl_core x = spl_core ?s" "pl \<Longrightarrow> shows_noise x" for c g m x
  proof -
    have x: "calm x pl sv" "spl_numbered x sv" "pl \<Longrightarrow> noticed x"
      using c that noise spl_core_parts [OF that(1)] by (simp_all add: noticed_def spl_core_def)
    then show "fine (spl_save_failed c g m x) pl sv" by (rule save_failed_calm)
    show "fine (spl_save_finally c x) pl sv" using x by (intro calm_fine) (simp_all add: save_finally_fine)
  qed
  have here: "fine ?s pl sv" "fine s pl sv" using noise calm num fine [of ?s] by (auto simp: noticed_def intro: calm_fine)
  show ?thesis
  proof (cases t)
    case (OpenRead g)
    let ?x = "\<lambda>data. setSplCalibrationRestoreActionLine ((resetSplCalibrationNoiseButton
        ((rememberSplCalibrationOutput (jget data ''output_profile'') (applySplCalibrationServerState data ?s))
         \<lparr>splAutomaticAvailable := truthy (jpath data [''automatic'', ''available''])\<rparr>))
        \<lparr>splModeText := splCalibrationModeLabel data\<rparr>)"
    have core: "spl_core (?x data) = spl_core ?s" "shows_noise (?x data) = shows_noise (applySplCalibrationServerState data ?s)" for data
    proof -
      have "spl_core (x\<lparr>splModeText := a\<rparr>) = spl_core x" "spl_core (x\<lparr>splAutomaticAvailable := b\<rparr>) = spl_core x"
        "shows_noise (x\<lparr>splModeText := a\<rparr>) = shows_noise x" "shows_noise (x\<lparr>splAutomaticAvailable := b\<rparr>) = shows_noise x" for a b x
        by (simp_all add: spl_core_def shows_noise_def)
      then show "spl_core (?x data) = spl_core ?s" "shows_noise (?x data) = shows_noise (applySplCalibrationServerState data ?s)" by simp_all
    qed
    have good: "fine (?x data) pl sv" if now: "gen_of t = splGeneration s" and answer: "reply = Inr (True, data)" for data
    proof (rule fine [OF core(1)])
      assume pl
      have r: "is_read t" using OpenRead by simp
      then obtain p where p: "(i, p) \<in> set sv" "p \<longrightarrow> reports_noise data" using read [OF _ answer] by blast
      have p using t(4) [OF now r] p(1) \<open>pl\<close> unfolding read_fits_def by blast
      with p(2) have "reports_noise data" by blast
      then show "shows_noise (?x data)" unfolding core(2) by (rule shows_reported)
    qed
    then show ?thesis using OpenRead here by (auto simp: task_settled_def open_read_def Let_def split: sum.split bool.split)
  next
    case (Apply k g r)
    show ?thesis
    proof (cases "g = splGeneration s")
      case False
      then show ?thesis using Apply saved [of ?s] noise by (simp add: task_settled_def stale_save)
    next
      case True
      with t(3) Apply have silent: "\<not> pl" by simp
      let ?x = "setSplCalibrationActionLine [] (?s\<lparr>splNoiseActive := False, noiseText := ''Start noise''\<rparr>)"
      have core: "spl_core ?x = spl_core ?s" by simp (simp add: spl_core_def)
      have "fine (spl_wait (EffectsRead k g) (setSplCalibrationStatus a ?x)) pl sv" for a
      proof -
        have core': "spl_core (setSplCalibrationStatus a ?x) = spl_core ?s" using core by simp
        have x: "calm (setSplCalibrationStatus a ?x) pl sv" "spl_numbered (setSplCalibrationStatus a ?x) sv"
          using c spl_core_parts [OF core'] by simp_all
        have "gen_of (EffectsRead k g) \<le> splGeneration (setSplCalibrationStatus a ?x)"
          using core' True by (simp add: spl_core_def)
        then show ?thesis using silent calm_wait [OF x(2,1), of "EffectsRead k g"] numbered_wait [OF x(2)]
          by (intro calm_fine) simp_all
      qed
      then show ?thesis using Apply True saved [of ?s] saved [OF core] silent
        by (auto simp: task_settled_def save_applied_def Let_def split: sum.split)
    qed
  next
    case (EffectsRead k g)
    then show ?thesis using saved [of ?s] noise by (simp add: task_settled_def effects_read_def split: sum.split)
  next
    case (Countdown g n)
    then show ?thesis using here by (simp add: task_settled_def)
  next
    case (StartCheck g m)
    then show ?thesis using t(2) here by (auto simp: task_settled_def start_checked_def)
  qed (use t(1) in simp_all)
qed

subsection \<open>Events\<close>

definition task_answer_honest :: "nat \<Rightarrow> spl_task \<Rightarrow> string + bool \<times> jsval \<Rightarrow> bool \<Rightarrow> (nat \<times> bool) list \<Rightarrow> bool" where
  "task_answer_honest i t reply pl sv =
     (\<forall>data. reply = Inr (True, data) \<longrightarrow>
        ((\<exists>g. t = AutoStart g) \<longrightarrow> \<not> pl) \<and> (is_read t \<longrightarrow> (\<exists>p. (i, p) \<in> set sv \<and> (p \<longrightarrow> reports_noise data))))"

lemma task_settled_fine:
  assumes "fine s pl sv" "map_of (splTasks s) i = Some t" "task_answer_honest i t reply pl sv"
  shows "fine (task_settled i t reply s) pl sv"
  using assms(1)
proof (cases rule: fine_cases)
  case (stop op)
  then show ?thesis using assms(2) start_settled_in_stop other_settled_stop by (cases "is_start t") blast+
next
  case (click k u)
  show ?thesis
  proof (cases "i = k")
    case True
    then have "t = u" using one_toggle click assms(2) by blast
    then show ?thesis using True click assms(3) by (intro click_settled_fine) (auto simp: task_answer_honest_def)
  next
    case False
    then show ?thesis using click assms(2) other_settled_click by blast
  qed
next
  case calm
  then show ?thesis using assms(2,3) by (intro calm_settled_fine) (auto simp: task_answer_honest_def)
qed

lemma open_fine:
  assumes "fine s pl sv" "\<not> splOpen s"
  shows "fine (openSplCalibration s) pl sv"
  using assms(1)
proof (cases rule: fine_cases)
  case calm
  let ?s = "setSplCalibrationStatus [] (s\<lparr>splOutputProfile := None, splOpen := True\<rparr>)"
  have "calm ?s pl sv" "spl_numbered ?s sv" using calm by (simp_all add: setSplCalibrationStatus_def calm_def starts_are_def spl_numbered_def)
  then have "calm (openSplCalibration s) pl sv" "spl_numbered (openSplCalibration s) sv"
    unfolding openSplCalibration_def by (auto intro!: calm_wait numbered_wait simp: setSplCalibrationStatus_def)
  then show ?thesis using calm(3) assms(2) by (intro calm_fine) simp_all
qed (use assms(2) in \<open>simp_all add: stop_works_def click_works_def\<close>)

lemma controller_gone:
  "spl_numbered (s\<lparr>splApplyController := None, splApplying := a, saveDisabled := b\<rparr>) sv = spl_numbered s sv"
  "calm s pl sv \<Longrightarrow> calm (s\<lparr>splApplyController := None, splApplying := a, saveDisabled := b\<rparr>) pl sv"
  "stop_works op s pl sv \<Longrightarrow> stop_works op (s\<lparr>splApplyController := None, splApplying := a, saveDisabled := b\<rparr>) pl sv"
  "click_works i t s pl sv \<Longrightarrow> click_works i t (s\<lparr>splApplyController := None, splApplying := False, saveDisabled := b\<rparr>) pl sv"
  by (simp_all add: spl_numbered_def calm_def starts_are_def stop_works_def stale_but_def)
    (cases t; simp add: click_works_def starts_are_def stale_but_def shows_noise_def)

lemma close_fine:
  assumes "fine s pl sv" "splOpen s"
  shows "fine (closeSplCalibration s) pl sv"
proof -
  let ?s = "s\<lparr>splApplyController := None, splApplying := False, saveDisabled := False\<rparr>"
  from assms(1) have "fine ?s pl sv"
  proof (cases rule: fine_cases)
    case (stop op)
    then show ?thesis by (intro stop_fine [where op = op]) (simp_all add: controller_gone)
  next
    case (click i t)
    then show ?thesis by (intro click_fine [where i = i and t = t]) (simp_all add: controller_gone)
  next
    case calm
    then show ?thesis by (intro calm_fine) (auto simp: controller_gone noticed_def shows_noise_def)
  qed
  then show ?thesis using assms(2) unfolding closeSplCalibration_def by (intro stop_call_fine) simp_all
qed

lemma save_fine:
  assumes "fine s pl sv" "splOpen s"
  shows "fine (saveSplCalibration s) pl sv"
proof -
  have texts: "fine (setSplCalibrationStatus t s) pl sv" for t using assms(1) by simp
  let ?s = "(resetSplCalibrationNoiseButton (s\<lparr>splApplying := True, splApplyController := Some (splNext s), splNext := splNext s + 1\<rparr>))
                \<lparr>saveDisabled := True\<rparr>"
  have parts: "splTasks ?s = splTasks s" "splNext ?s = splNext s + 1" "splGeneration ?s = splGeneration s" "splOpen ?s = splOpen s"
    "splStartRequest ?s = splStartRequest s" "splStopRequest ?s = splStopRequest s" "splApplying ?s" "splStopFailed ?s = splStopFailed s"
    by (simp_all add: resetSplCalibrationNoiseButton_def)
  have "fine (stopSplCalibrationOperation [] c ?s) pl sv" for c
    using assms(1)
  proof (cases rule: fine_cases)
    case (stop op)
    have "stop_works op ?s pl sv" "spl_numbered ?s sv"
      using stop parts by (auto simp: stop_works_def spl_numbered_def stale_but_def starts_are_def less_SucI)
    then show ?thesis using assms(2) parts(4) by (intro stop_call_fine stop_fine) simp_all
  next
    case (click i t)
    have "may_stop ?s" "spl_numbered ?s sv" using click_may_stop [OF click(2)] click(1) parts
      by (auto simp: may_stop_def spl_numbered_def starts_are_def less_SucI)
    then show ?thesis by (rule new_stop_fine)
  next
    case calm
    have "may_stop ?s" "spl_numbered ?s sv" using calm_may_stop [OF calm(2) assms(2)] calm(1) parts
      by (auto simp: may_stop_def spl_numbered_def starts_are_def less_SucI)
    then show ?thesis by (rule new_stop_fine)
  qed
  then show ?thesis using assms(1) texts unfolding saveSplCalibration_def by (auto split: jsnum.split option.split)
qed

lemma countdown_starts:
  assumes "calm s pl sv" "spl_numbered s sv" "\<not> pl" "splOpen s" "\<not> splApplying s"
    and "s' = s\<lparr>splGeneration := splGeneration s + 1, noiseDisabled := True, noiseText := a\<rparr>"
  shows "fine (spl_wait (Countdown (splGeneration s + 1) n) (setSplCalibrationStatus [] s')) pl sv"
proof -
  let ?t = "Countdown (splGeneration s + 1) n" and ?s = "setSplCalibrationStatus [] s'"
  have "\<forall>x \<in> set (splTasks s). gen_of (snd x) < splGeneration s + 1" using assms(2) by (auto simp: spl_numbered_def less_Suc_eq_le)
  then have "click_works (splNext s) ?t (spl_wait ?t ?s) pl sv"
    using assms by (auto simp: click_works_def calm_def spl_wait_def setSplCalibrationStatus_def stale_but_def starts_are_def)
  moreover have "spl_numbered ?s sv" using assms(2,6) by (auto simp: setSplCalibrationStatus_def spl_numbered_def le_SucI)
  then have "spl_numbered (spl_wait ?t ?s) sv" by (rule numbered_wait) (simp add: assms(6) setSplCalibrationStatus_def)
  ultimately show ?thesis by (intro click_fine)
qed

lemma toggle_fine:
  assumes "fine s pl sv" "splOpen s" "\<not> noiseDisabled s"
  shows "fine (toggleSplCalibrationNoise s) pl sv"
proof (cases "splApplying s \<or> splStopRequest s \<noteq> None \<or> splAutomaticRunning s \<or> shows_noise s")
  case True
  then show ?thesis using assms(1) stop_call_fine [OF assms(1,2)] by (auto simp: toggleSplCalibrationNoise_def shows_noise_def)
next
  case False
  then have t: "toggleSplCalibrationNoise s = spl_wait (Countdown (splGeneration s + 1) 3) (setSplCalibrationStatus []
             (s\<lparr>splGeneration := splGeneration s + 1, noiseDisabled := True, noiseText := count_label 3\<rparr>))"
    by (simp add: toggleSplCalibrationNoise_def shows_noise_def)
  from assms(1) show ?thesis
  proof (cases rule: fine_cases)
    case (click i u)
    then show ?thesis using False assms(3) by (cases u) (simp_all add: click_works_def shows_noise_def)
  next
    case calm
    then show ?thesis unfolding t using False assms(2) by (intro countdown_starts) simp_all
  qed (use False in \<open>simp add: stop_works_def\<close>)
qed

lemma noise_starts_fine:
  assumes "click_works i (Countdown g n) s pl sv" "spl_numbered s sv"
  shows "fine (noise_starts g (spl_done i s)) pl sv"
proof -
  let ?s = "spl_done i s"
  have g: "g = splGeneration s" using assms(1) by (simp add: click_works_def)
  have stale: "\<forall>x \<in> set (splTasks ?s). gen_of (snd x) < splGeneration s \<and> \<not> is_start (snd x)"
    using assms(1) by (auto simp: click_works_def stale_but_def starts_are_def spl_done_def)
  define u where "u = (if splAutomaticAvailable ?s then AutoStart g else NoiseStart g)"
  have u: "is_start u" "gen_of u = splGeneration s" by (simp_all add: u_def g)
  have frame: "splTasks (noise_starts g ?s) = (splNext s, u) # splTasks ?s" "splStartRequest (noise_starts g ?s) = Some (splNext s)"
    "splGeneration (noise_starts g ?s) = splGeneration s" "splNext (noise_starts g ?s) = splNext s + 1"
    "splOpen (noise_starts g ?s) = splOpen s" "splStopRequest (noise_starts g ?s) = splStopRequest s"
    "splApplying (noise_starts g ?s) = splApplying s" "splApplyController (noise_starts g ?s) = splApplyController s"
    by (simp_all add: noise_starts_def u_def spl_wait_def setSplCalibrationActionLine_def Let_def)
  have "noiseDisabled ?s = noiseDisabled s" by (simp add: spl_done_def)
  then have "button_fits (noise_starts g ?s) u"
    using assms(1) by (simp add: u_def noise_starts_def spl_wait_def setSplCalibrationActionLine_def Let_def click_works_def)
  then have "click_works (splNext s) u (noise_starts g ?s) pl sv"
    using assms(1) stale u frame by (cases u) (auto simp: click_works_def stale_but_def starts_are_def)
  moreover have "spl_numbered (noise_starts g ?s) sv"
    using numbered_done [OF assms(2), of i] frame u by (auto simp: spl_numbered_def less_SucI)
  ultimately show ?thesis by (intro click_fine)
qed

lemma tick_fine:
  assumes "fine s pl sv" "map_of (splTasks s) i = Some (Countdown g n)"
  shows "fine (countdown_ticked g n (spl_done i s)) pl sv"
  using assms(1)
proof (cases rule: fine_cases)
  case (stop op)
  have "stop_works op (spl_done i s) pl sv" "spl_numbered (spl_done i s) sv"
    using stop_done_other [OF stop(2) assms(2) _ stop(1)] numbered_done [OF stop(1)] by simp_all
  then show ?thesis using stop_stale [OF stop(2) assms(2)] by (simp add: countdown_ticked_def stop_fine [where op = op])
next
  case (click k u)
  show ?thesis
  proof (cases "i = k")
    case True
    have u: "u = Countdown g n" using one_toggle [OF click(2) _ click(1)] assms(2) True by simp
    have "fine (spl_wait (Countdown g m) ((spl_done i s)\<lparr>noiseText := a\<rparr>)) pl sv" for m a
    proof -
      let ?s = "(spl_done i s)\<lparr>noiseText := a\<rparr>"
      have num: "spl_numbered ?s sv" using numbered_done [OF click(1), of i] by (simp add: spl_numbered_def)
      have g: "g = splGeneration s" "noiseDisabled s" using click(2) u by (simp_all add: click_works_def)
      have "noiseDisabled (spl_done i s)" using g(2) by (simp add: spl_done_def)
      moreover have "\<forall>x \<in> set (splTasks (spl_done i s)). gen_of (snd x) < splGeneration s \<and> \<not> is_start (snd x)"
        using click(2) u True by (auto simp: click_works_def stale_but_def starts_are_def spl_done_def)
      ultimately have "click_works (splNext s) (Countdown g m) (spl_wait (Countdown g m) ?s) pl sv"
        using click(2) u g(1) by (auto simp: click_works_def spl_wait_def stale_but_def starts_are_def shows_noise_def spl_done_def)
      moreover have "spl_numbered (spl_wait (Countdown g m) ?s) sv" using num g(1) by (intro numbered_wait) simp_all
      ultimately show ?thesis by (intro click_fine)
    qed
    moreover have "fine (noise_starts g (spl_done i s)) pl sv"
      using noise_starts_fine [OF _ click(1)] click(2) u True by simp
    ultimately show ?thesis using click(2) u by (simp add: countdown_ticked_def click_works_def)
  next
    case False
    then have "fine (spl_done i s) pl sv" using click click_done_other [of k u s pl sv i] numbered_done
      by (intro click_fine [where i = k and t = u]) simp_all
    then show ?thesis using other_stale [OF click(2) assms(2) False] by (simp add: countdown_ticked_def)
  qed
next
  case calm
  have "g \<noteq> splGeneration s" using calm(2) map_of_SomeD [OF assms(2)] by (auto simp: calm_def dest!: bspec)
  moreover have "fine (spl_done i s) pl sv" using calm calm_done numbered_done by (intro calm_fine) (auto simp: noticed_def)
  ultimately show ?thesis by (simp add: countdown_ticked_def)
qed

subsection \<open>The page and the backend together\<close>

lemma served_start:
  assumes "fine s pl sv" "request_kind i s = Some (StartRequest auto)" "i \<notin> fst ` set sv"
  shows "fine s (pl \<or> b) ((i, b) # sv)"
proof -
  obtain t where t: "map_of (splTasks s) i = Some t" "is_start t"
    using assms(2) by (auto simp: request_kind_def request_of_task_def split: option.splits spl_task.splits if_splits stop_phase.splits)
  have mem: "(i, t) \<in> set (splTasks s)" using map_of_SomeD [OF t(1)] .
  from assms(1) show ?thesis
  proof (cases rule: fine_cases)
    case (stop op)
    have "waiting_start (stopPhase op) = Some i" using stop(2) mem t(2) by (auto simp: stop_works_def starts_are_def dest!: bspec)
    then have "stopPhase op \<noteq> StopLast j f" for j f by auto
    then have "stop_works op s (pl \<or> b) ((i, b) # sv)" using stop(2) by (simp add: stop_works_def)
    moreover have "spl_numbered s ((i, b) # sv)" using stop(1) mem assms(3) by (auto simp: spl_numbered_def)
    ultimately show ?thesis by (intro stop_fine)
  next
    case (click k u)
    have "is_start u \<and> k = i" using click(2) mem t(2) by (auto simp: click_works_def starts_are_def dest!: bspec split: if_splits)
    moreover from this have "\<not> is_read u" by (cases u) simp_all
    ultimately have "click_works k u s (pl \<or> b) ((i, b) # sv)" using click(2) by (simp add: click_works_def)
    moreover have "spl_numbered s ((i, b) # sv)" using click(1) mem assms(3) by (auto simp: spl_numbered_def)
    ultimately show ?thesis by (intro click_fine)
  next
    case calm
    then show ?thesis using mem t(2) by (auto simp: calm_def starts_are_def dest!: bspec)
  qed
qed

lemma silent_fine:
  assumes "fine s pl sv"
  shows "fine s False sv"
  using assms
proof (cases rule: fine_cases)
  case (stop op)
  then show ?thesis by (intro stop_fine [where op = op]) (simp_all add: stop_works_def)
next
  case (click i t)
  then show ?thesis by (intro click_fine [where i = i and t = t]) (simp_all add: click_works_def read_fits_def)
next
  case calm
  then show ?thesis by (intro calm_fine) (simp_all add: calm_def read_fits_def)
qed

lemma served_stop:
  assumes "fine s pl sv" "request_kind i s = Some StopRequest" "i \<notin> fst ` set sv"
  shows "fine s (pl \<and> \<not> b) ((i, b) # sv)"
proof -
  obtain op where op: "splStopRequest s = Some op" "stop_request (stopPhase op) = Some i"
    using assms(2) by (auto simp: request_kind_def request_of_task_def split: option.splits spl_task.splits if_splits)
  from assms(1) show ?thesis
  proof (cases rule: fine_cases)
    case (stop op')
    then have "op' = op" using op(1) by (simp add: stop_works_def)
    moreover have "i < splNext s" using stop(2) op(2) \<open>op' = op\<close> by (simp add: stop_works_def)
    then have "spl_numbered s ((i, b) # sv)" using stop(1) assms(3) by (auto simp: spl_numbered_def)
    moreover have "j = i" if "stopPhase op = StopLast j f" for j f using op(2) that by (simp add: stop_request_def)
    then have "stop_works op s (pl \<and> \<not> b) ((i, b) # sv)" using stop(2) \<open>op' = op\<close> by (auto simp: stop_works_def)
    ultimately show ?thesis by (intro stop_fine)
  qed (use op in \<open>simp_all add: click_works_def calm_def\<close>)
qed

lemma served_read:
  assumes "fine s pl sv" "request_kind i s = Some ReadRequest" "i \<notin> fst ` set sv"
  shows "fine s pl ((i, pl) # sv)"
proof -
  have fits: "read_fits j pl sv \<Longrightarrow> read_fits j pl ((i, pl) # sv)" for j by (auto simp: read_fits_def)
  have small: "i < splNext s" if "spl_numbered s sv" "\<And>op. splStopRequest s = Some op \<Longrightarrow> stop_works op s pl sv"
  proof (cases "map_of (splTasks s) i")
    case None
    then obtain op where "splStopRequest s = Some op" "stop_request (stopPhase op) = Some i"
      using assms(2) by (auto simp: request_kind_def split: option.splits if_splits)
    then show ?thesis using that(2) by (simp add: stop_works_def)
  next
    case (Some t)
    then show ?thesis using that(1) map_of_SomeD [OF Some] by (auto simp: spl_numbered_def)
  qed
  from assms(1) show ?thesis
  proof (cases rule: fine_cases)
    case (stop op)
    have "splStopRequest s = Some op" using stop(2) by (simp add: stop_works_def)
    then have "spl_numbered s ((i, pl) # sv)" using stop small assms(3) by (auto simp: spl_numbered_def)
    moreover have "\<not> (stopPhase op = StopLast i f)" for f
    proof
      assume last: "stopPhase op = StopLast i f"
      then have "i \<notin> fst ` set (splTasks s)" using stop(2) by (simp add: stop_works_def stop_request_def)
      then have "map_of (splTasks s) i = None" by (simp add: map_of_eq_None_iff)
      then show False using assms(2) last \<open>splStopRequest s = Some op\<close> by (simp add: request_kind_def stop_request_def)
    qed
    then have "stop_works op s pl ((i, pl) # sv)" using stop(2) by (auto simp: stop_works_def)
    ultimately show ?thesis by (intro stop_fine)
  next
    case (click k t)
    then have "click_works k t s pl ((i, pl) # sv)" using fits by (simp add: click_works_def)
    moreover have "spl_numbered s ((i, pl) # sv)" using click small assms(3) by (auto simp: spl_numbered_def click_works_def)
    ultimately show ?thesis by (intro click_fine)
  next
    case calm
    then have "calm s pl ((i, pl) # sv)" using fits by (simp add: calm_def)
    moreover have "spl_numbered s ((i, pl) # sv)" using calm small assms(3) by (auto simp: spl_numbered_def calm_def)
    ultimately show ?thesis using calm by (intro calm_fine) (simp_all add: noticed_def)
  qed
qed

lemma serve_fine:
  assumes "fine (splPage w) (playing w) (served w)"
  shows "fine (splPage (serve i b w)) (playing (serve i b w)) (served (serve i b w))"
  using assms served_start [OF assms, of i _ b] served_stop [OF assms, of i b] served_read [OF assms, of i]
  by (auto simp: serve_def split: option.split spl_request.split)

lemma settled_fine:
  assumes "fine s pl sv"
    and "\<And>t. map_of (splTasks s) i = Some t \<Longrightarrow> task_answer_honest i t reply pl sv"
    and "\<And>data. request_kind i s = Some StopRequest \<Longrightarrow> reply = Inr (True, data) \<Longrightarrow> (i, True) \<in> set sv"
  shows "fine (spl_settled i reply s) pl sv"
proof (cases "map_of (splTasks s) i")
  case (Some t)
  then show ?thesis using task_settled_fine [OF assms(1) Some assms(2)] by (simp add: spl_settled_def)
next
  case None
  show ?thesis
  proof (cases "\<exists>op. splStopRequest s = Some op \<and> stop_request (stopPhase op) = Some i")
    case True
    then obtain op where op: "splStopRequest s = Some op" "stop_request (stopPhase op) = Some i" by blast
    have "stop_works op s pl sv \<and> spl_numbered s sv"
      using assms(1) op(1) by (cases rule: fine_cases) (auto simp: stop_works_def click_works_def calm_def)
    moreover have "request_kind i s = Some StopRequest" if "stopPhase op = StopLast i f" for f
      using None op that by (simp add: request_kind_def)
    ultimately show ?thesis using None op assms(3) by (simp add: spl_settled_def stop_answered_fine)
  next
    case False
    then show ?thesis using None assms(1) by (auto simp: spl_settled_def split: option.split)
  qed
qed

lemma page_event_fine:
  assumes "fine (splPage w) (playing w) (served w)" "honest (OnPage e) w"
  shows "fine (spl_step e (splPage w)) (playing w) (served w)"
proof (cases e)
  case (SplSettled i wire)
  have "task_answer_honest i t (requestSplCalibration wire) (playing w) (served w)" if "map_of (splTasks (splPage w)) i = Some t" for t
    using assms(2) that unfolding task_answer_honest_def honest_def SplSettled
    by (cases t) (auto simp: request_kind_def request_of_task_def)
  moreover have "(i, True) \<in> set (served w)"
    if "request_kind i (splPage w) = Some StopRequest" "requestSplCalibration wire = Inr (True, data)" for data
    using assms(2) that by (simp add: honest_def SplSettled)
  ultimately show ?thesis using SplSettled assms(1) by (simp add: settled_fine)
next
  case (SecondPassed i)
  then show ?thesis using assms(1) tick_fine by (auto split: option.split spl_task.split)
next
  case (MeasuredTyped t)
  then show ?thesis using assms(1) fine_core [of "(splPage w)\<lparr>splMeasured := t\<rparr>" "splPage w"] by (simp add: spl_core_def spl_shown_def)
qed (use assms(1) in \<open>simp_all add: open_fine close_fine toggle_fine save_fine\<close>)

definition world_fine :: "spl_world \<Rightarrow> bool" where
  "world_fine w = fine (splPage w) (playing w) (served w)"

lemma world_step_fine: "world_fine w \<Longrightarrow> honest e w \<Longrightarrow> world_fine (world_step e w)"
  by (cases e) (simp_all add: world_fine_def page_event_fine serve_fine silent_fine)

lemma init_world_fine: "world_fine init_world"
  by (simp add: world_fine_def init_world_def fine_def spl_numbered_def calm_def starts_are_def init_spl_def)

lemma world_run_fine: "world_fine w \<Longrightarrow> honest_world es w \<Longrightarrow> world_fine (run_events world_step es w)"
proof (induction es arbitrary: w)
  case (Cons e es)
  then show ?case using world_step_fine [of w e] by simp
qed simp

end
