(* ===== verification/Draining.thy ===== *)
theory Draining
  imports Interfaces
begin

section \<open>Work that answers use up\<close>

text \<open>
  The contract of a component that waits for answers and timers: an event that answers something it awaits
  leaves it less work. Then answers alone come to an end, and what has nothing left to await is at rest.
\<close>

fun all_awaited :: "('e \<Rightarrow> 's \<Rightarrow> bool) \<Rightarrow> ('e \<Rightarrow> 's \<Rightarrow> 's) \<Rightarrow> 'e list \<Rightarrow> 's \<Rightarrow> bool" where
  "all_awaited awaits step [] s = True"
| "all_awaited awaits step (e # es) s = (awaits e s \<and> all_awaited awaits step es (step e s))"

locale draining =
  fixes work :: "'s \<Rightarrow> nat" and awaits :: "'e \<Rightarrow> 's \<Rightarrow> bool" and step :: "'e \<Rightarrow> 's \<Rightarrow> 's"
  assumes answer_works: "awaits e s \<Longrightarrow> work (step e s) < work s"
begin

lemma drains: "all_awaited awaits step es s \<Longrightarrow> length es + work (run_events step es s) \<le> work s"
proof (induction es arbitrary: s)
  case (Cons e es)
  then have a: "awaits e s" "all_awaited awaits step es (step e s)" by simp_all
  show ?case using answer_works [OF a(1)] Cons.IH [OF a(2)] by simp
qed simp

lemma comes_to_rest: "\<exists>es. all_awaited awaits step es s \<and> (\<forall>e. \<not> awaits e (run_events step es s))"
proof (induction "work s" arbitrary: s rule: less_induct)
  case less
  show ?case
  proof (cases "\<exists>e. awaits e s")
    case True
    then obtain e where e: "awaits e s" by blast
    from less [OF answer_works [OF e]] obtain es
      where "all_awaited awaits step es (step e s) \<and> (\<forall>x. \<not> awaits x (run_events step es (step e s)))" by blast
    with e show ?thesis by (intro exI [of _ "e # es"]) simp
  next
    case False
    then show ?thesis by (intro exI [of _ "[]"]) simp
  qed
qed

end

end
