(* ===== verification/Spl_Locks.thy ===== *)
theory Spl_Locks
  imports Spl_Safety Draining
begin

section \<open>The locks of the SPL calibration panel\<close>

text \<open>
  The panel locks its noise button and its save button while it works. The invariant: a lock belongs to a save, a
  stop or a click that some request or timer will still continue. The measure \<open>spl_work\<close>: every answer
  leaves less to wait for.
\<close>

subsection \<open>The invariant\<close>

definition current_toggle :: "spl_page \<Rightarrow> bool" where
  "current_toggle s = (\<exists>x \<in> set (splTasks s). is_toggle (snd x) \<and> gen_of (snd x) = splGeneration s)"

fun saves_as :: "nat \<Rightarrow> stop_caller \<Rightarrow> bool" where
  "saves_as i (BySave j r q) = (i = j)" | "saves_as i c = False"

fun applies_as :: "nat \<Rightarrow> spl_task \<Rightarrow> bool" where
  "applies_as i (Apply j g r) = (i = j)" | "applies_as i (EffectsRead j g) = (i = j)" | "applies_as i t = False"

definition applying_as :: "nat \<Rightarrow> (nat \<times> spl_task) list \<Rightarrow> bool" where
  "applying_as i ts = (\<exists>x \<in> set ts. applies_as i (snd x))"

definition spl_save_pending :: "nat \<Rightarrow> stop_caller list \<Rightarrow> spl_page \<Rightarrow> bool" where
  "spl_save_pending i cs s = (applying_as i (splTasks s) \<or> (\<exists>c \<in> set cs. saves_as i c)
     \<or> (\<exists>op. splStopRequest s = Some op \<and> (\<exists>c \<in> set (stopCaller op # stopJoined op). saves_as i c)))"

definition start_known :: "nat \<Rightarrow> spl_page \<Rightarrow> bool" where
  "start_known k s = (\<exists>t. (k, t) \<in> set (splTasks s) \<and> is_start t)"

definition awaited_start :: "nat \<Rightarrow> spl_page \<Rightarrow> bool" where
  "awaited_start k s = (splStartRequest s = Some k
     \<or> (\<exists>op. splStopRequest s = Some op \<and> waiting_start (stopPhase op) = Some k))"

definition tasks_fresh :: "spl_page \<Rightarrow> bool" where
  "tasks_fresh s = (distinct (List.map fst (splTasks s)) \<and> (\<forall>x \<in> set (splTasks s). fst x < splNext s))"

definition check_alone :: "spl_page \<Rightarrow> bool" where
  "check_alone s = (\<forall>op i m. splStopRequest s = Some op \<and> stopPhase op = StopCheck i m \<longrightarrow> stopJoined op = [])"

definition save_locks :: "spl_page \<Rightarrow> bool" where
  "save_locks s = ((splApplying s \<longleftrightarrow> splApplyController s \<noteq> None) \<and> (saveDisabled s \<longrightarrow> splApplyController s \<noteq> None))"

text \<open>The locks, while the callers \<open>cs\<close> of a stop that is over have yet to continue.\<close>

definition locks_fine :: "stop_caller list \<Rightarrow> spl_page \<Rightarrow> bool" where
  "locks_fine cs s = (tasks_fresh s \<and> check_alone s \<and> save_locks s
     \<and> (\<forall>i. splApplyController s = Some i \<longrightarrow> spl_save_pending i cs s) \<and> (\<forall>k. awaited_start k s \<longrightarrow> start_known k s))"

definition button_fine :: "spl_page \<Rightarrow> bool" where
  "button_fine s = (noiseDisabled s \<longrightarrow> splApplying s \<or> splStopRequest s \<noteq> None \<or> current_toggle s)"

subsection \<open>Texts and the button\<close>

definition lock_core where
  "lock_core s = (splTasks s, splNext s, splStopRequest s, splStartRequest s, splApplying s, splApplyController s,
     saveDisabled s)"

lemmas locks_defs = locks_fine_def tasks_fresh_def check_alone_def save_locks_def spl_save_pending_def awaited_start_def start_known_def

lemma locks_core: "lock_core s' = lock_core s \<Longrightarrow> locks_fine cs s' = locks_fine cs s"
  by (simp add: lock_core_def locks_defs)

lemma button_core:
  "lock_core s' = lock_core s \<Longrightarrow> noiseDisabled s' = noiseDisabled s \<Longrightarrow> splGeneration s' = splGeneration s \<Longrightarrow>
    button_fine s' = button_fine s"
  by (simp add: lock_core_def button_fine_def current_toggle_def)

lemmas text_defs = setSplCalibrationStatus_def setSplCalibrationActionLine_def rememberSplCalibrationOutput_def
  remember_if_named_def setSplCalibrationRestoreActionLine_def applySplCalibrationServerState_def Let_def

lemma texts_lock [simp]:
  "lock_core (setSplCalibrationStatus t s) = lock_core s" "lock_core (setSplCalibrationActionLine t s) = lock_core s"
  "lock_core (rememberSplCalibrationOutput v s) = lock_core s" "lock_core (remember_if_named v s) = lock_core s"
  "lock_core (setSplCalibrationRestoreActionLine s) = lock_core s" "lock_core (applySplCalibrationServerState v s) = lock_core s"
  "lock_core (resetSplCalibrationNoiseButton s) = lock_core s"
  by (simp_all add: lock_core_def text_defs resetSplCalibrationNoiseButton_def)

lemma texts_button [simp]:
  "noiseDisabled (setSplCalibrationStatus t s) = noiseDisabled s" "noiseDisabled (setSplCalibrationActionLine t s) = noiseDisabled s"
  "noiseDisabled (setSplCalibrationRestoreActionLine s) = noiseDisabled s"
  "splGeneration (setSplCalibrationStatus t s) = splGeneration s" "splGeneration (setSplCalibrationActionLine t s) = splGeneration s"
  "splGeneration (setSplCalibrationRestoreActionLine s) = splGeneration s"
  by (simp_all add: text_defs)

lemma reset_button: "button_fine (resetSplCalibrationNoiseButton s)"
  by (simp add: button_fine_def resetSplCalibrationNoiseButton_def)

lemma stop_button: "splStopRequest s = Some op \<Longrightarrow> button_fine s"
  by (simp add: button_fine_def)

subsection \<open>Tasks\<close>

lemma wait_fields [simp]:
  "splApplying (spl_wait t s) = splApplying s" "splApplyController (spl_wait t s) = splApplyController s"
  "saveDisabled (spl_wait t s) = saveDisabled s" "splStopRequest (spl_wait t s) = splStopRequest s"
  "noiseDisabled (spl_wait t s) = noiseDisabled s" "splGeneration (spl_wait t s) = splGeneration s"
  "splTasks (spl_wait t s) = (splNext s, t) # splTasks s" "splNext (spl_wait t s) = Suc (splNext s)"
  "splStartRequest (spl_wait t s) = splStartRequest s"
  by (simp_all add: spl_wait_def)

lemma fresh_task: "tasks_fresh s \<Longrightarrow> tasks_fresh (spl_wait t s)"
  unfolding tasks_fresh_def wait_fields by fastforce

lemma wait_parts:
  "check_alone (spl_wait t s) = check_alone s" "save_locks (spl_wait t s) = save_locks s"
  "awaited_start k (spl_wait t s) = awaited_start k s" "start_known k s \<Longrightarrow> start_known k (spl_wait t s)"
  by (simp_all add: check_alone_def save_locks_def awaited_start_def) (auto simp: start_known_def)

lemma wait_pending: "spl_save_pending i cs s \<Longrightarrow> spl_save_pending i cs (spl_wait t s)"
  unfolding spl_save_pending_def applying_as_def wait_fields by (elim disjE) simp_all

lemma wait_locks: "locks_fine cs s \<Longrightarrow> locks_fine cs (spl_wait t s)"
  unfolding locks_fine_def wait_parts(1-3) wait_fields(2)
  by (elim conjE, intro conjI allI impI) (simp_all add: fresh_task wait_parts(4) wait_pending)

lemma wait_button: "button_fine s \<Longrightarrow> button_fine (spl_wait t s)"
  by (auto simp: button_fine_def current_toggle_def)

lemma pending_drop: "spl_save_pending i (c # cs) s \<Longrightarrow> \<not> saves_as i c \<Longrightarrow> spl_save_pending i cs s"
  by (auto simp: spl_save_pending_def)

lemma drop_caller:
  assumes "locks_fine (c # cs) s" "\<And>i. splApplyController s = Some i \<Longrightarrow> \<not> saves_as i c"
  shows "locks_fine cs s"
  using assms pending_drop unfolding locks_fine_def by blast

lemma applying_waits: "applies_as i t \<Longrightarrow> spl_save_pending i cs (spl_wait t s)"
  unfolding spl_save_pending_def by (rule disjI1) (simp add: applying_as_def)

lemma wait_absorbs:
  assumes "locks_fine (BySave i r q # cs) s" "applies_as i t"
  shows "locks_fine cs (spl_wait t s)"
proof -
  have w: "locks_fine (BySave i r q # cs) (spl_wait t s)" using assms(1) by (rule wait_locks)
  have "spl_save_pending j cs (spl_wait t s)" if "splApplyController (spl_wait t s) = Some j" for j
  proof (cases "j = i")
    case True
    show ?thesis unfolding True using assms(2) by (rule applying_waits)
  next
    case False
    have "spl_save_pending j (BySave i r q # cs) (spl_wait t s)" using w that by (simp add: locks_fine_def)
    then show ?thesis by (rule pending_drop) (simp add: False)
  qed
  then show ?thesis using w by (simp add: locks_fine_def)
qed

subsection \<open>Saves\<close>

lemma save_finally_locks:
  assumes "locks_fine cs s" "button_fine s"
  shows "locks_fine cs (spl_save_finally i s)" "button_fine (spl_save_finally i s)" "splApplyController (spl_save_finally i s) \<noteq> Some i"
proof -
  let ?s = "s\<lparr>splApplyController := None, splApplying := False, saveDisabled := False\<rparr>"
  have e: "lock_core ((resetSplCalibrationNoiseButton (s\<lparr>splApplyController := None, splApplying := False\<rparr>))\<lparr>saveDisabled := False\<rparr>)
      = lock_core ?s"
    by (simp add: lock_core_def resetSplCalibrationNoiseButton_def)
  have "locks_fine cs ?s" using assms(1) by (simp add: locks_defs)
  then show "locks_fine cs (spl_save_finally i s)" using assms(1) locks_core [OF e, of cs] by (simp add: spl_save_finally_def)
  show "button_fine (spl_save_finally i s)"
    using assms(2) by (simp add: spl_save_finally_def button_fine_def resetSplCalibrationNoiseButton_def)
  show "splApplyController (spl_save_finally i s) \<noteq> Some i" by (simp add: spl_save_finally_def resetSplCalibrationNoiseButton_def)
qed

lemma status_locks:
  "locks_fine cs (setSplCalibrationStatus t s) = locks_fine cs s" "button_fine (setSplCalibrationStatus t s) = button_fine s"
  by (rule locks_core, simp) (rule button_core; simp)

lemma save_failed_locks:
  assumes "locks_fine cs s" "button_fine s"
  shows "locks_fine cs (spl_save_failed i g m s)" "button_fine (spl_save_failed i g m s)" "splApplyController (spl_save_failed i g m s) \<noteq> Some i"
  using save_finally_locks [of cs s i] save_finally_locks [of cs "setSplCalibrationStatus m s" i] assms
  by (simp_all add: spl_save_failed_def status_locks)

lemma save_over:
  assumes "locks_fine (BySave i r q # cs) s" "button_fine s"
  shows "locks_fine cs (spl_save_finally i s)" "locks_fine cs (spl_save_failed i g m s)"
  using drop_caller [OF save_finally_locks(1) [OF assms, of i]] drop_caller [OF save_failed_locks(1) [OF assms, of i g m]]
    save_finally_locks(3) [OF assms, of i] save_failed_locks(3) [OF assms, of i g m]
  by auto

subsection \<open>The callers of a stop\<close>

lemma caller_locks:
  assumes "locks_fine (c # cs) s" "button_fine s"
  shows "locks_fine cs (caller_continues failure c s) \<and> button_fine (caller_continues failure c s)"
proof (cases c)
  case ByClose
  have "locks_fine cs s" using ByClose by (intro drop_caller [OF assms(1)]) simp
  moreover have "lock_core (s\<lparr>splOpen := False\<rparr>) = lock_core s" by (simp add: lock_core_def)
  ultimately show ?thesis
    using ByClose assms(2) locks_core [of "s\<lparr>splOpen := False\<rparr>" s cs] button_core [of "s\<lparr>splOpen := False\<rparr>" s]
    by (simp add: caller_continues_def status_locks split: option.split)
next
  case ByNoise
  have "locks_fine cs s" using ByNoise by (intro drop_caller [OF assms(1)]) simp
  then show ?thesis using ByNoise assms(2) by (simp add: caller_continues_def status_locks split: option.split)
next
  case (BySave i r q)
  note own = assms(1) [unfolded BySave]
  show ?thesis
  proof (cases failure)
    case (Some m)
    then show ?thesis using BySave save_over(2) [OF own assms(2)] save_failed_locks(2) [OF assms]
      by (simp add: caller_continues_def save_stopped_def)
  next
    case None
    then show ?thesis
      using BySave save_over(1) [OF own assms(2)] save_finally_locks(2) [OF assms]
        wait_absorbs [OF own, of "Apply i (splGeneration s) r"] wait_button [OF assms(2)]
      by (simp add: caller_continues_def save_stopped_def)
  qed
qed

lemma callers_locks:
  "locks_fine cs s \<Longrightarrow> button_fine s \<Longrightarrow>
    locks_fine [] (fold (caller_continues failure) cs s) \<and> button_fine (fold (caller_continues failure) cs s)"
proof (induction cs arbitrary: s)
  case (Cons c cs)
  then show ?case using caller_locks [OF Cons.prems, of failure] by simp
qed simp

subsection \<open>The stop\<close>

lemma tick_parts:
  "check_alone (s\<lparr>splNext := n\<rparr>) = check_alone s" "save_locks (s\<lparr>splNext := n\<rparr>) = save_locks s"
  "spl_save_pending i cs (s\<lparr>splNext := n\<rparr>) = spl_save_pending i cs s" "awaited_start k (s\<lparr>splNext := n\<rparr>) = awaited_start k s"
  "start_known k (s\<lparr>splNext := n\<rparr>) = start_known k s" "splApplyController (s\<lparr>splNext := n\<rparr>) = splApplyController s"
  "tasks_fresh s \<Longrightarrow> tasks_fresh (s\<lparr>splNext := Suc (splNext s)\<rparr>)"
  by (simp_all add: tasks_fresh_def check_alone_def save_locks_def spl_save_pending_def awaited_start_def start_known_def less_SucI)

lemma tick_locks: "locks_fine cs s \<Longrightarrow> locks_fine cs (s\<lparr>splNext := Suc (splNext s)\<rparr>)"
  unfolding locks_fine_def tick_parts(1-6) using tick_parts(7) by blast

lemma sends_form: "stop_sends phase op s = (s\<lparr>splNext := Suc (splNext s)\<rparr>)\<lparr>splStopRequest := Some (op\<lparr>stopPhase := phase (splNext s)\<rparr>)\<rparr>"
  by (simp add: stop_sends_def)

text \<open>The operation takes over, or hands back, the callers it keeps.\<close>

lemma pending_stop:
  assumes "splStopRequest s = Some op"
  shows "spl_save_pending i (stopCaller op # stopJoined op @ cs) (s\<lparr>splStopRequest := None\<rparr>) = spl_save_pending i cs s"
  using assms by (auto simp: spl_save_pending_def)

lemma release_stop:
  assumes "locks_fine cs s" "splStopRequest s = Some op"
  shows "locks_fine (stopCaller op # stopJoined op @ cs) (s\<lparr>splStopRequest := None\<rparr>)"
proof -
  have "tasks_fresh (s\<lparr>splStopRequest := None\<rparr>)" "check_alone (s\<lparr>splStopRequest := None\<rparr>)" "save_locks (s\<lparr>splStopRequest := None\<rparr>)"
    using assms(1) by (auto simp: locks_fine_def tasks_fresh_def check_alone_def save_locks_def)
  moreover have "start_known k (s\<lparr>splStopRequest := None\<rparr>)" if "awaited_start k (s\<lparr>splStopRequest := None\<rparr>)" for k
  proof -
    have "awaited_start k s" using that by (simp add: awaited_start_def)
    then show ?thesis using assms(1) by (simp add: locks_fine_def start_known_def)
  qed
  ultimately show ?thesis using assms(1) unfolding locks_fine_def pending_stop [OF assms(2)] by simp
qed

lemma keep_stop:
  assumes "locks_fine cs s" "stopCaller op # stopJoined op @ cs' = cs" "splStopRequest s = None"
    "waiting_start (stopPhase op) = None \<or> (\<exists>k. waiting_start (stopPhase op) = Some k \<and> start_known k s)"
    "\<And>i m. stopPhase op = StopCheck i m \<Longrightarrow> stopJoined op = []"
  shows "locks_fine cs' (s\<lparr>splStopRequest := Some op\<rparr>)"
proof -
  let ?s = "s\<lparr>splStopRequest := Some op\<rparr>"
  have "tasks_fresh ?s" "check_alone ?s" "save_locks ?s"
    using assms(1,5) by (auto simp: locks_fine_def tasks_fresh_def check_alone_def save_locks_def)
  moreover have "spl_save_pending i cs' ?s" if "splApplyController ?s = Some i" for i
  proof -
    have "spl_save_pending i cs s" using assms(1) that by (simp add: locks_fine_def)
    then show ?thesis using pending_stop [of ?s op i cs'] assms(2,3) by (simp add: spl_save_pending_def)
  qed
  moreover have "start_known k ?s" if "awaited_start k ?s" for k
  proof -
    have "awaited_start k s \<or> start_known k s" using that assms(4) by (auto simp: awaited_start_def)
    then show ?thesis using assms(1) by (auto simp: locks_fine_def start_known_def)
  qed
  ultimately show ?thesis by (simp add: locks_fine_def)
qed

lemma phase_waits:
  assumes "locks_fine cs s" "splStopRequest s = Some op"
  shows "waiting_start (stopPhase op) = None \<or> (\<exists>k. waiting_start (stopPhase op) = Some k \<and> start_known k (s\<lparr>splStopRequest := None\<rparr>))"
proof (cases "waiting_start (stopPhase op)")
  case (Some k)
  then have "awaited_start k s" using assms(2) by (simp add: awaited_start_def)
  then show ?thesis using assms(1) Some by (simp add: locks_fine_def start_known_def)
qed simp

lemma drop_stop: "(s\<lparr>splStopRequest := None\<rparr>)\<lparr>splStopRequest := r\<rparr> = s\<lparr>splStopRequest := r\<rparr>"
  by simp

text \<open>A stop in progress moves on, or takes in another caller.\<close>

lemma stop_moves:
  assumes "locks_fine cs s" "splStopRequest s = Some op" "stopCaller op' = stopCaller op" "stopJoined op' @ cs' = stopJoined op @ cs"
    "waiting_start (stopPhase op') = None \<or> waiting_start (stopPhase op') = waiting_start (stopPhase op)"
    "\<And>i m. stopPhase op' = StopCheck i m \<Longrightarrow> stopJoined op' = []"
  shows "locks_fine cs' (s\<lparr>splStopRequest := Some op'\<rparr>)"
proof -
  let ?s = "s\<lparr>splStopRequest := None\<rparr>"
  have "locks_fine cs' (?s\<lparr>splStopRequest := Some op'\<rparr>)"
    using assms(3-6) phase_waits [OF assms(1,2)] by (intro keep_stop [OF release_stop [OF assms(1,2)]]) auto
  then show ?thesis by simp
qed

lemma stop_sends_locks:
  assumes "locks_fine cs s" "splStopRequest s = Some op" "stopCaller op' = stopCaller op" "stopJoined op' @ cs' = stopJoined op @ cs"
    "waiting_start (phase (splNext s)) = None" "\<And>i m. phase (splNext s) = StopCheck i m \<Longrightarrow> stopJoined op' = []"
  shows "locks_fine cs' (stop_sends phase op' s)"
  unfolding sends_form
  by (rule stop_moves [OF tick_locks [OF assms(1)]]) (use assms(2-6) in auto)

lemma stop_call_locks:
  assumes "locks_fine (c # cs) s"
  shows "locks_fine cs (stopSplCalibrationOperation txt c s) \<and> button_fine (stopSplCalibrationOperation txt c s)"
proof (cases "splStopRequest s")
  case None
  let ?s = "s\<lparr>splGeneration := splGeneration s + 1, splAutomaticRunning := False, noiseDisabled := True, splNext := Suc (splNext s)\<rparr>"
  have "lock_core ?s = lock_core (s\<lparr>splNext := Suc (splNext s)\<rparr>)" by (simp add: lock_core_def)
  then have l: "locks_fine (c # cs) ?s" using locks_core [of ?s] tick_locks [OF assms] by blast
  define op where "op = \<lparr>stopPhase = (case splStartRequest s of Some k \<Rightarrow> StopInterrupt (splNext s) k None | None \<Rightarrow> StopLast (splNext s) None),
    stopText = txt, stopCaller = c, stopJoined = []\<rparr>"
  have e: "stopSplCalibrationOperation txt c s = ?s\<lparr>splStopRequest := Some op\<rparr>"
    using None by (cases "splStartRequest s") (simp_all add: stopSplCalibrationOperation_def stop_sends_def op_def)
  have "start_known k ?s" if "splStartRequest s = Some k" for k
    using l that by (simp add: locks_fine_def awaited_start_def)
  then have "locks_fine cs (?s\<lparr>splStopRequest := Some op\<rparr>)"
    using None by (intro keep_stop [OF l]) (simp_all add: op_def split: option.splits)
  then show ?thesis unfolding e by (simp add: button_fine_def)
next
  case (Some op)
  show ?thesis
  proof (cases "\<exists>i m. stopPhase op = StopCheck i m")
    case True
    then show ?thesis
      using Some caller_locks [OF assms stop_button [OF Some]] by (auto simp: stopSplCalibrationOperation_def)
  next
    case False
    let ?op = "op\<lparr>stopJoined := stopJoined op @ [c]\<rparr>"
    have e: "stopSplCalibrationOperation txt c s = s\<lparr>splStopRequest := Some ?op\<rparr>"
      using Some False by (cases "stopPhase op") (auto simp: stopSplCalibrationOperation_def)
    have "locks_fine cs (s\<lparr>splStopRequest := Some ?op\<rparr>)"
      using False by (intro stop_moves [OF assms Some]) auto
    then show ?thesis unfolding e by (simp add: button_fine_def)
  qed
qed

lemma stop_over_locks:
  assumes "locks_fine cs s" "splStopRequest s = Some op"
  shows "locks_fine (stopJoined op @ cs) (stop_over op failure s) \<and> button_fine (stop_over op failure s)"
proof -
  have "locks_fine (stopCaller op # stopJoined op @ cs) (resetSplCalibrationNoiseButton (s\<lparr>splStopRequest := None\<rparr>))"
    using release_stop [OF assms] locks_core [OF texts_lock(7) [of "s\<lparr>splStopRequest := None\<rparr>"]] by simp
  then show ?thesis unfolding stop_over_def by (rule caller_locks) (rule reset_button)
qed

lemma stop_settled_locks:
  assumes "locks_fine [] s" "splStopRequest s = Some op"
  shows "locks_fine [] (spl_stop_settled op failure s) \<and> button_fine (spl_stop_settled op failure s)"
proof (cases failure)
  case None
  let ?s = "(if stopText op \<noteq> [] then setSplCalibrationStatus (stopText op) else id) (setSplCalibrationActionLine []
    (s\<lparr>splNoiseActive := False, splStopFailed := False, splRestorePending := JNull\<rparr>))"
  have e: "lock_core ?s = lock_core s" by (simp add: lock_core_def setSplCalibrationStatus_def setSplCalibrationActionLine_def)
  have l: "locks_fine [] ?s" using locks_core [OF e] assms(1) by simp
  have "splStopRequest ?s = Some op" using e assms(2) by (simp add: lock_core_def)
  from stop_over_locks [OF l this, of None] have "locks_fine (stopJoined op) (stop_over op None ?s)" "button_fine (stop_over op None ?s)"
    by simp_all
  from callers_locks [OF this, of None] show ?thesis using None by (simp add: spl_stop_settled_def)
next
  case (Some m)
  let ?s = "s\<lparr>splStopFailed := True\<rparr>" and ?op = "op\<lparr>stopJoined := []\<rparr>"
  have l: "locks_fine [] ?s" using locks_core [of ?s s] assms(1) by (simp add: lock_core_def)
  have "locks_fine (stopJoined op) (stop_sends (\<lambda>i. StopCheck i m) ?op ?s)"
    by (rule stop_sends_locks [OF l, of op]) (simp_all add: assms(2))
  moreover have "button_fine (stop_sends (\<lambda>i. StopCheck i m) ?op ?s)" by (rule stop_button) (simp add: stop_sends_def)
  ultimately show ?thesis using callers_locks [of "stopJoined op" _ "Some m"] Some by (simp add: spl_stop_settled_def)
qed

lemma stop_checked_locks:
  assumes "locks_fine [] s" "splStopRequest s = Some op" "stopPhase op = StopCheck i m"
  shows "locks_fine [] (stop_checked op m reply s) \<and> button_fine (stop_checked op m reply s)"
proof -
  define s1 where "s1 = (case reply of Inr (True, data) \<Rightarrow>
      if \<not> truthy (jget data ''operation_active'') \<and> truthy (jget data ''restore_pending'')
      then applySplCalibrationServerState data s else s | _ \<Rightarrow> s)"
  define s2 where "s2 = (if splStopFailed s1 then setSplCalibrationActionLine ''Cleanup pending. Retry stop.'' s1
      else setSplCalibrationRestoreActionLine s1)"
  have "lock_core s1 = lock_core s" by (simp add: s1_def split: sum.split prod.split bool.split)
  then have e: "lock_core s2 = lock_core s" by (simp add: s2_def)
  have l: "locks_fine [] s2" using locks_core [OF e] assms(1) by simp
  have o2: "splStopRequest s2 = Some op" using e assms(2) by (simp add: lock_core_def)
  have "stopJoined op = []" using assms by (auto simp: locks_fine_def check_alone_def)
  moreover have "stop_checked op m reply s = stop_over op (Some m) s2" by (simp only: stop_checked_def Let_def s1_def s2_def)
  ultimately show ?thesis using stop_over_locks [OF l o2, of "Some m"] by simp
qed

lemma stop_answered_locks:
  assumes "locks_fine [] s" "splStopRequest s = Some op"
  shows "locks_fine [] (stop_answered op reply s) \<and> button_fine (stop_answered op reply s)"
proof (cases "stopPhase op")
  case (StopInterrupt i k f)
  show ?thesis
  proof (cases f)
    case None
    have "locks_fine [] (s\<lparr>splStopRequest := Some (op\<lparr>stopPhase := StopAwaits k\<rparr>)\<rparr>)"
      by (rule stop_moves [OF assms]) (simp_all add: StopInterrupt None)
    then show ?thesis using StopInterrupt None by (simp add: stop_answered_def button_fine_def)
  next
    case (Some failure)
    have "locks_fine [] (stop_sends (\<lambda>i. StopLast i failure) op s)"
      by (rule stop_sends_locks [OF assms]) simp_all
    then show ?thesis using StopInterrupt Some by (simp add: stop_answered_def button_fine_def stop_sends_def)
  qed
next
  case (StopAwaits k)
  then show ?thesis using assms stop_button by (simp add: stop_answered_def)
next
  case (StopLast i failure)
  then show ?thesis using stop_settled_locks [OF assms] by (simp add: stop_answered_def)
next
  case (StopCheck i m)
  then show ?thesis using stop_checked_locks [OF assms StopCheck] by (simp add: stop_answered_def)
qed

subsection \<open>A task settles\<close>

lemma done_tasks [simp]: "x \<in> set (splTasks (spl_done i s)) \<longleftrightarrow> x \<in> set (splTasks s) \<and> fst x \<noteq> i"
  by (simp add: spl_done_def)

lemma done_fresh: "tasks_fresh s \<Longrightarrow> tasks_fresh (spl_done i s)"
  by (simp add: tasks_fresh_def spl_done_def distinct_map_filter)

lemma spl_done_frames:
  "check_alone (spl_done i s) = check_alone s" "save_locks (spl_done i s) = save_locks s"
  "awaited_start k (spl_done i s) = awaited_start k s"
  by (simp_all add: check_alone_def save_locks_def awaited_start_def spl_done_def)

lemma the_task:
  assumes "tasks_fresh s" "map_of (splTasks s) i = Some t" "x \<in> set (splTasks s)" "fst x = i"
  shows "x = (i, t)"
proof -
  have "map_of (splTasks s) (fst x) = Some (snd x)" using assms(1,3) by (intro map_of_is_SomeI) (simp_all add: tasks_fresh_def)
  then show ?thesis using assms(2,4) by (cases x) simp
qed

lemma known_done:
  assumes "tasks_fresh s" "map_of (splTasks s) i = Some t" "start_known k s" "k \<noteq> i \<or> \<not> is_start t"
  shows "start_known k (spl_done i s)"
proof -
  obtain u where u: "(k, u) \<in> set (splTasks s)" "is_start u" using assms(3) by (auto simp: start_known_def)
  have "k \<noteq> i" using the_task [OF assms(1,2) u(1)] u(2) assms(4) by auto
  then show ?thesis using u by (auto simp: start_known_def)
qed

fun saver :: "spl_task \<Rightarrow> stop_caller list" where
  "saver (Apply c g r) = [BySave c 0 ([], [])]" | "saver (EffectsRead c g) = [BySave c 0 ([], [])]" | "saver t = []"

lemma pending_done:
  assumes "tasks_fresh s" "map_of (splTasks s) i = Some t" "spl_save_pending j [] s"
  shows "spl_save_pending j (saver t) (spl_done i s)"
proof (cases "applying_as j (splTasks s)")
  case True
  then obtain x where x: "x \<in> set (splTasks s)" "applies_as j (snd x)" by (auto simp: applying_as_def)
  show ?thesis
  proof (cases "fst x = i")
    case True
    then have "applies_as j t" using the_task [OF assms(1,2) x(1)] x(2) by simp
    then have "\<exists>c \<in> set (saver t). saves_as j c" by (cases t) auto
    then show ?thesis by (simp add: spl_save_pending_def)
  next
    case False
    then have "applying_as j (splTasks (spl_done i s))" using x unfolding applying_as_def by (intro bexI [of _ x]) simp_all
    then show ?thesis by (simp add: spl_save_pending_def)
  qed
next
  case False
  then show ?thesis using assms(3) by (auto simp: spl_save_pending_def)
qed

lemma done_locks:
  assumes "locks_fine [] s" "map_of (splTasks s) i = Some t" "\<not> is_start t"
  shows "locks_fine (saver t) (spl_done i s)"
proof -
  have f: "tasks_fresh s" using assms(1) by (simp add: locks_fine_def)
  show ?thesis using assms(1) done_fresh [OF f, of i] pending_done [OF f assms(2)] known_done [OF f assms(2)] assms(3)
    unfolding locks_fine_def spl_done_frames by simp
qed

lemma done_button:
  assumes "tasks_fresh s" "map_of (splTasks s) i = Some t" "button_fine s" "is_toggle t \<longrightarrow> gen_of t \<noteq> splGeneration s"
  shows "button_fine (spl_done i s)"
proof -
  have "current_toggle (spl_done i s)" if ct: "current_toggle s"
  proof -
    obtain x where x: "x \<in> set (splTasks s)" "is_toggle (snd x)" "gen_of (snd x) = splGeneration s"
      using ct by (auto simp: current_toggle_def)
    have "fst x = i \<Longrightarrow> snd x = t" using the_task [OF assms(1,2) x(1)] by simp
    then have "fst x \<noteq> i" using x(2,3) assms(4) by auto
    then show ?thesis using x unfolding current_toggle_def by (intro bexI [of _ x]) simp_all
  qed
  then show ?thesis using assms(3) by (auto simp: button_fine_def spl_done_def)
qed

text \<open>The shapes a stop takes when a start settles.\<close>

lemma start_settled_cases:
  fixes k s
  defines "s1 \<equiv> (if splStartRequest s = Some k then s\<lparr>splStartRequest := None\<rparr> else s)"
  obtains (same) "start_settled_stop k f s = s1" "\<And>op. splStopRequest s = Some op \<Longrightarrow> waiting_start (stopPhase op) \<noteq> Some k"
  | (known) op i where "splStopRequest s = Some op" "stopPhase op = StopInterrupt i k None"
      "start_settled_stop k f s = s1\<lparr>splStopRequest := Some (op\<lparr>stopPhase := StopInterrupt i k (Some f)\<rparr>)\<rparr>"
  | (last) op where "splStopRequest s = Some op" "stopPhase op = StopAwaits k"
      "start_settled_stop k f s = stop_sends (\<lambda>i. StopLast i f) op s1"
proof -
  have st: "splStopRequest s1 = splStopRequest s" by (simp add: s1_def)
  have e: "start_settled_stop k f s = (case splStopRequest s of None \<Rightarrow> s1
      | Some op \<Rightarrow> (case stopPhase op of
             StopInterrupt i j None \<Rightarrow>
               if j = k then s1\<lparr>splStopRequest := Some (op\<lparr>stopPhase := StopInterrupt i j (Some f)\<rparr>)\<rparr> else s1
           | StopAwaits j \<Rightarrow> if j = k then stop_sends (\<lambda>i. StopLast i f) op s1 else s1
           | _ \<Rightarrow> s1))"
    unfolding start_settled_stop_def Let_def s1_def [symmetric] st ..
  show thesis
  proof (cases "\<exists>op. splStopRequest s = Some op \<and> waiting_start (stopPhase op) = Some k")
    case True
    then obtain op where op: "splStopRequest s = Some op" "waiting_start (stopPhase op) = Some k" by blast
    from op(2) have "stopPhase op = StopAwaits k \<or> (\<exists>i. stopPhase op = StopInterrupt i k None)"
      by (cases "stopPhase op" rule: waiting_start.cases) simp_all
    then show thesis
    proof
      assume a: "stopPhase op = StopAwaits k"
      have "start_settled_stop k f s = stop_sends (\<lambda>i. StopLast i f) op s1" unfolding e op(1) using a by simp
      with op(1) a show thesis by (rule last)
    next
      assume "\<exists>i. stopPhase op = StopInterrupt i k None"
      then obtain i where i: "stopPhase op = StopInterrupt i k None" by blast
      have "start_settled_stop k f s = s1\<lparr>splStopRequest := Some (op\<lparr>stopPhase := StopInterrupt i k (Some f)\<rparr>)\<rparr>"
        unfolding e op(1) using i by simp
      with op(1) i show thesis by (rule known)
    qed
  next
    case False
    then have n: "\<And>op. splStopRequest s = Some op \<Longrightarrow> waiting_start (stopPhase op) \<noteq> Some k" by blast
    have "start_settled_stop k f s = s1" unfolding e using n by (fastforce split: option.split stop_phase.split)
    then show thesis using n by (rule same)
  qed
qed

lemma start_settled_locks:
  assumes "locks_fine [] s" "map_of (splTasks s) k = Some t" "is_start t"
  shows "locks_fine [] (start_settled_stop k f (spl_done k s))"
proof -
  define d where "d = spl_done k s"
  define d1 where "d1 = (if splStartRequest d = Some k then d\<lparr>splStartRequest := None\<rparr> else d)"
  have fresh: "tasks_fresh s" using assms(1) by (simp add: locks_fine_def)
  have same: "splTasks d1 = splTasks d" "splNext d1 = splNext d" "splStopRequest d1 = splStopRequest s"
    "splApplyController d1 = splApplyController s" "save_locks d1 = save_locks s" "check_alone d1 = check_alone s"
    by (simp_all add: d1_def d_def save_locks_def check_alone_def spl_done_def)
  have tf: "tasks_fresh d1" using done_fresh [OF fresh, of k] by (simp add: tasks_fresh_def same d_def [symmetric])
  have "saver t = []" using assms(3) by (cases t) simp_all
  then have pend: "spl_save_pending i [] d1" if "splApplyController s = Some i" for i
    using pending_done [OF fresh assms(2), of i] that assms(1) by (simp add: locks_fine_def spl_save_pending_def same d_def)
  have known: "start_known j d1" if "j \<noteq> k" "awaited_start j s" for j
    using known_done [OF fresh assms(2), of j] that assms(1) by (simp add: locks_fine_def start_known_def same d_def)
  have gone: "splStartRequest d1 \<noteq> Some k" by (simp add: d1_def)
  have from_s: "splStartRequest d1 = Some j \<Longrightarrow> splStartRequest s = Some j" for j
    by (simp add: d1_def d_def split: if_splits)
  have bare: "locks_fine (stopCaller op # stopJoined op) (d1\<lparr>splStopRequest := None\<rparr>)" if op: "splStopRequest s = Some op" for op
  proof -
    have "spl_save_pending i (stopCaller op # stopJoined op) (d1\<lparr>splStopRequest := None\<rparr>)" if "splApplyController s = Some i" for i
      using pending_stop [of d1 op i "[]"] pend [OF that] op same(3) by simp
    moreover have "start_known j (d1\<lparr>splStopRequest := None\<rparr>)" if "awaited_start j (d1\<lparr>splStopRequest := None\<rparr>)" for j
    proof -
      have j: "splStartRequest d1 = Some j" using that by (simp add: awaited_start_def)
      then have "start_known j d1" using gone from_s by (intro known) (auto simp: awaited_start_def)
      then show ?thesis by (simp add: start_known_def)
    qed
    ultimately show ?thesis using tf same assms(1)
      by (simp add: locks_fine_def tasks_fresh_def check_alone_def save_locks_def)
  qed
  from start_settled_cases [of k f d] have "locks_fine [] (start_settled_stop k f d)"
  proof cases
    case same': same
    have st: "splStopRequest d = splStopRequest s" by (simp add: d_def)
    have "start_known j d1" if "awaited_start j d1" for j
    proof (rule known)
      show "j \<noteq> k" using that gone same'(2) unfolding awaited_start_def same(3) st by auto
      show "awaited_start j s" using that from_s unfolding awaited_start_def same(3) by auto
    qed
    then have "locks_fine [] d1" using tf pend same assms(1) by (simp add: locks_fine_def)
    then show ?thesis unfolding same'(1) d1_def .
  next
    case (known op i)
    then have op: "splStopRequest s = Some op" by (simp add: d_def)
    have "locks_fine [] ((d1\<lparr>splStopRequest := None\<rparr>)\<lparr>splStopRequest := Some (op\<lparr>stopPhase := StopInterrupt i k (Some f)\<rparr>)\<rparr>)"
      by (rule keep_stop [OF bare [OF op]]) simp_all
    then show ?thesis unfolding known(3) d1_def by simp
  next
    case (last op)
    then have op: "splStopRequest s = Some op" by (simp add: d_def)
    have "locks_fine [] ((d1\<lparr>splStopRequest := None\<rparr>)\<lparr>splStopRequest := Some (op\<lparr>stopPhase := StopLast (splNext d1) f\<rparr>)\<rparr>)"
      by (rule keep_stop [OF bare [OF op]]) simp_all
    then have "locks_fine [] (d1\<lparr>splStopRequest := Some (op\<lparr>stopPhase := StopLast (splNext d1) f\<rparr>)\<rparr>)" by simp
    from tick_locks [OF this] show ?thesis unfolding last(3) d1_def [symmetric] by (simp add: stop_sends_def)
  qed
  then show ?thesis by (simp only: d_def)
qed

lemma start_settled_button:
  assumes "button_fine s"
  shows "button_fine (start_settled_stop k f s)"
proof -
  have "noiseDisabled (start_settled_stop k f s) = noiseDisabled s" "splApplying (start_settled_stop k f s) = splApplying s"
    "current_toggle (start_settled_stop k f s) = current_toggle s"
    "splStopRequest (start_settled_stop k f s) = None \<longleftrightarrow> splStopRequest s = None"
    by (cases rule: start_settled_cases [of k f s]; simp add: current_toggle_def stop_sends_def)+
  then show ?thesis using assms by (simp add: button_fine_def)
qed

subsection \<open>Clicks and answers\<close>

lemma locks_texts:
  assumes "lock_core s' = lock_core s" "locks_fine cs s"
  shows "locks_fine cs s'"
  using locks_core [OF assms(1)] assms(2) by blast

lemma finally_locks:
  assumes "lock_core s' = lock_core s" "locks_fine [] s" "gen = splGeneration s'"
  shows "locks_fine [] (toggle_finally gen s') \<and> button_fine (toggle_finally gen s')"
proof -
  have "lock_core (toggle_finally gen s') = lock_core s"
    using assms(1) by (simp add: toggle_finally_def lock_core_def resetSplCalibrationNoiseButton_def)
  then show ?thesis using locks_texts assms(2,3) reset_button by (simp add: toggle_finally_def)
qed

lemma start_failed_locks:
  assumes "locks_fine [] s" "gen = splGeneration s"
  shows "locks_fine [] (spl_start_failed gen m s) \<and> button_fine (spl_start_failed gen m s)"
proof -
  have "locks_fine [] (s\<lparr>splStopFailed := True\<rparr>)" by (rule locks_texts [OF _ assms(1)]) (simp add: lock_core_def)
  from wait_locks [OF this] show ?thesis using assms(2)
    by (simp add: spl_start_failed_def button_fine_def current_toggle_def)
qed

lemma texts_generation [simp]:
  "splGeneration (remember_if_named v s) = splGeneration s" "splGeneration (applySplCalibrationServerState v s) = splGeneration s"
  by (simp_all add: text_defs)

lemma noise_settled_locks:
  assumes "locks_fine [] s" "gen \<noteq> splGeneration s \<Longrightarrow> button_fine s"
  shows "locks_fine [] (noise_settled gen reply s) \<and> button_fine (noise_settled gen reply s)"
proof (cases "gen = splGeneration s")
  case True
  let ?s = "\<lambda>data. setSplCalibrationActionLine ''Noise playing. Read the C/Slow meter after about 1 s, average over about 3 s.''
                 ((remember_if_named data s)\<lparr>splNoiseActive := True, noiseText := ''Stop noise''\<rparr>)"
  have "lock_core (?s data) = lock_core s" for data
    using texts_lock(4) [of data s] by (simp add: lock_core_def setSplCalibrationActionLine_def)
  from finally_locks [OF this assms(1)]
  have "locks_fine [] (toggle_finally gen (?s data)) \<and> button_fine (toggle_finally gen (?s data))" for data using True by simp
  then show ?thesis using start_failed_locks [OF assms(1) True] True by (simp add: noise_settled_def split: sum.split)
qed (use assms in \<open>simp add: noise_settled_def\<close>)

lemma automatic_settled_locks:
  assumes "locks_fine [] s" "gen \<noteq> splGeneration s \<Longrightarrow> button_fine s"
  shows "locks_fine [] (automatic_settled gen reply s) \<and> button_fine (automatic_settled gen reply s)"
proof (cases "gen = splGeneration s")
  case True
  let ?s = "\<lambda>data t. setSplCalibrationActionLine [] ((remember_if_named data s)
                      \<lparr>splMeasured := t, splNoiseActive := False, noiseText := ''Start noise''\<rparr>)"
  have "lock_core (?s data t) = lock_core s" for data t
    using texts_lock(4) [of data s] by (simp add: lock_core_def setSplCalibrationActionLine_def)
  then have "lock_core (setSplCalibrationStatus m (?s data t)) = lock_core s" for data t m by simp
  from finally_locks [OF this assms(1)]
  have "locks_fine [] (toggle_finally gen (setSplCalibrationStatus m (?s data t)))
      \<and> button_fine (toggle_finally gen (setSplCalibrationStatus m (?s data t)))" for data t m using True by simp
  then show ?thesis using start_failed_locks [OF assms(1) True] True by (simp add: automatic_settled_def Let_def split: sum.split)
qed (use assms in \<open>simp add: automatic_settled_def\<close>)

lemma start_checked_locks:
  assumes "locks_fine [] s" "gen \<noteq> splGeneration s \<Longrightarrow> button_fine s"
  shows "locks_fine [] (start_checked gen m reply s) \<and> button_fine (start_checked gen m reply s)"
proof (cases "gen = splGeneration s")
  case True
  define s1 where "s1 = (case reply of Inr (True, data) \<Rightarrow> if nullish data then s else applySplCalibrationServerState data s | _ \<Rightarrow> s)"
  have c: "lock_core s1 = lock_core s" "splGeneration s1 = splGeneration s"
    by (simp_all add: s1_def split: sum.split prod.split bool.split)
  have "start_checked gen m reply s = toggle_finally gen (setSplCalibrationStatus m (setSplCalibrationRestoreActionLine s1))"
    using True by (simp add: start_checked_def s1_def)
  then show ?thesis using finally_locks [of "setSplCalibrationStatus m (setSplCalibrationRestoreActionLine s1)" s gen] assms(1) True c by simp
qed (use assms in \<open>simp add: start_checked_def\<close>)

lemma open_read_locks:
  assumes "locks_fine [] s" "button_fine s"
  shows "locks_fine [] (open_read gen reply s) \<and> button_fine (open_read gen reply s)"
proof -
  define shown where "shown data = setSplCalibrationRestoreActionLine ((resetSplCalibrationNoiseButton
     ((rememberSplCalibrationOutput (jget data ''output_profile'') (applySplCalibrationServerState data s))
       \<lparr>splAutomaticAvailable := truthy (jpath data [''automatic'', ''available''])\<rparr>))
     \<lparr>splModeText := splCalibrationModeLabel data\<rparr>)" for data
  have "lock_core (shown data) = lock_core s" for data
    unfolding shown_def by (simp add: lock_core_def text_defs resetSplCalibrationNoiseButton_def)
  then have l: "locks_fine [] (shown data)" for data using locks_texts assms(1) by blast
  have b: "button_fine (shown data)" for data
    by (simp add: shown_def button_fine_def text_defs resetSplCalibrationNoiseButton_def)
  show ?thesis unfolding open_read_def shown_def [symmetric] Let_def
    using assms l b by (simp add: status_locks split: sum.split prod.split)
qed

lemma save_applied_locks:
  assumes "locks_fine [BySave c 0 ([], [])] s" "button_fine s"
  shows "locks_fine [] (save_applied c gen measured reply s) \<and> button_fine (save_applied c gen measured reply s)"
proof -
  define ready where "ready = setSplCalibrationActionLine [] (s\<lparr>splNoiseActive := False, noiseText := ''Start noise''\<rparr>)"
  have c: "lock_core ready = lock_core s" by (simp add: ready_def lock_core_def setSplCalibrationActionLine_def)
  have l: "locks_fine [BySave c 0 ([], [])] ready" using locks_texts [OF c assms(1)] .
  have b: "button_fine ready" using button_core [OF c] assms(2) by (simp add: ready_def)
  have w: "locks_fine [] (spl_wait (EffectsRead c g) (setSplCalibrationStatus m ready))" for g m
    by (rule wait_absorbs [where q = "([], [])" and r = 0 and i = c]) (use l in \<open>simp_all add: status_locks\<close>)
  have wb: "button_fine (spl_wait t (setSplCalibrationStatus m ready))" for t m
    by (rule wait_button) (use b in \<open>simp add: status_locks\<close>)
  note ends = save_over [OF assms] save_over [OF l b] save_finally_locks(2) [OF assms] save_failed_locks(2) [OF assms]
    save_failed_locks(2) [OF l b] w wb
  show ?thesis unfolding save_applied_def ready_def [symmetric] Let_def
    using ends by (simp split: sum.split prod.split)
qed

lemma effects_read_locks:
  assumes "locks_fine [BySave c 0 ([], [])] s" "button_fine s"
  shows "locks_fine [] (effects_read c gen reply s) \<and> button_fine (effects_read c gen reply s)"
  using save_over [OF assms] save_finally_locks(2) [OF assms] save_failed_locks(2) [OF assms]
  by (simp add: effects_read_def split: sum.split)

definition page_fine :: "spl_page \<Rightarrow> bool" where
  "page_fine s = (locks_fine [] s \<and> button_fine s)"

lemma task_settled_page:
  assumes "page_fine s" "map_of (splTasks s) i = Some t"
  shows "page_fine (task_settled i t reply s)"
proof -
  have l: "locks_fine [] s" and b: "button_fine s" using assms(1) by (simp_all add: page_fine_def)
  have f: "tasks_fresh s" using l by (simp add: locks_fine_def)
  note db = done_button [OF f assms(2) b] and dl = done_locks [OF l assms(2)]
  have sl: "is_start t \<Longrightarrow> locks_fine [] (start_settled_stop i (failure_of reply) (spl_done i s))"
    using start_settled_locks [OF l assms(2)] .
  have sb: "gen_of t \<noteq> splGeneration s \<Longrightarrow> button_fine (start_settled_stop i (failure_of reply) (spl_done i s))"
    using db start_settled_button by blast
  have g: "splGeneration (start_settled_stop i (failure_of reply) (spl_done i s)) = splGeneration s"
    by (cases rule: start_settled_cases [of i "failure_of reply" "spl_done i s"]) (simp_all add: stop_sends_def)
  show ?thesis
  proof (cases t)
    case (OpenRead gen)
    then show ?thesis using open_read_locks dl db by (simp add: task_settled_def page_fine_def)
  next
    case (Countdown gen n)
    then show ?thesis using l b by (simp add: task_settled_def page_fine_def)
  next
    case (AutoStart gen)
    then show ?thesis using automatic_settled_locks sl sb g by (simp add: task_settled_def page_fine_def)
  next
    case (NoiseStart gen)
    then show ?thesis using noise_settled_locks sl sb g by (simp add: task_settled_def page_fine_def)
  next
    case (StartCheck gen m)
    then show ?thesis using start_checked_locks [of "spl_done i s"] dl db by (simp add: task_settled_def page_fine_def)
  next
    case (Apply c gen r)
    then show ?thesis using save_applied_locks dl db by (simp add: task_settled_def page_fine_def)
  next
    case (EffectsRead c gen)
    then show ?thesis using effects_read_locks dl db by (simp add: task_settled_def page_fine_def)
  qed
qed

lemma start_waits_locks:
  assumes "locks_fine [] s" "is_start t"
  shows "locks_fine [] ((spl_wait t s)\<lparr>splStartRequest := Some (splNext s)\<rparr>)"
proof -
  let ?s = "(spl_wait t s)\<lparr>splStartRequest := Some (splNext s)\<rparr>"
  have w: "locks_fine [] (spl_wait t s)" using assms(1) by (rule wait_locks)
  have "start_known k ?s" if "awaited_start k ?s" for k
  proof (cases "k = splNext s")
    case True
    then show ?thesis using assms(2) by (auto simp: start_known_def)
  next
    case False
    then have "awaited_start k (spl_wait t s)" using that by (simp add: awaited_start_def)
    then show ?thesis using w by (simp add: locks_fine_def start_known_def)
  qed
  moreover have "spl_save_pending i [] ?s = spl_save_pending i [] (spl_wait t s)" for i by (simp add: spl_save_pending_def)
  ultimately show ?thesis using w by (simp add: locks_fine_def tasks_fresh_def check_alone_def save_locks_def)
qed

lemma noise_starts_page:
  assumes "locks_fine [] s" "gen = splGeneration s"
  shows "page_fine (noise_starts gen s)"
proof -
  have c: "lock_core (noise_starts gen s) = lock_core ((spl_wait t s)\<lparr>splStartRequest := Some (splNext s)\<rparr>)"
    and g: "splGeneration (noise_starts gen s) = splGeneration s"
    if "t = (if splAutomaticAvailable s then AutoStart gen else NoiseStart gen)" for t
    using that by (simp_all add: noise_starts_def Let_def lock_core_def spl_wait_def setSplCalibrationActionLine_def)
  define t where "t = (if splAutomaticAvailable s then AutoStart gen else NoiseStart gen)"
  have "is_start t" by (simp add: t_def)
  then have l: "locks_fine [] (noise_starts gen s)" using locks_texts [OF c [OF t_def] start_waits_locks [OF assms(1)]] by blast
  have "splTasks (noise_starts gen s) = (splNext s, t) # splTasks s"
    using c [OF t_def] by (simp add: lock_core_def)
  then have "current_toggle (noise_starts gen s)" using g [OF t_def] assms(2) by (simp add: current_toggle_def t_def)
  then show ?thesis using l by (simp add: page_fine_def button_fine_def)
qed

lemma countdown_page:
  assumes "page_fine s" "map_of (splTasks s) i = Some (Countdown gen n)"
  shows "page_fine (countdown_ticked gen n (spl_done i s))"
proof -
  have l: "locks_fine [] s" and b: "button_fine s" using assms(1) by (simp_all add: page_fine_def)
  have f: "tasks_fresh s" using l by (simp add: locks_fine_def)
  have d: "locks_fine [] (spl_done i s)" using done_locks [OF l assms(2)] by simp
  show ?thesis
  proof (cases "gen = splGeneration s")
    case False
    then show ?thesis using d done_button [OF f assms(2) b] by (simp add: countdown_ticked_def page_fine_def)
  next
    case True
    have "locks_fine [] ((spl_done i s)\<lparr>noiseText := x\<rparr>)" for x by (rule locks_texts [OF _ d]) (simp add: lock_core_def)
    then have "locks_fine [] (spl_wait t ((spl_done i s)\<lparr>noiseText := x\<rparr>))" for t x by (rule wait_locks)
    then show ?thesis using True noise_starts_page [OF d, of gen]
      by (simp add: countdown_ticked_def page_fine_def button_fine_def current_toggle_def)
  qed
qed

lemma stop_click_page:
  assumes "locks_fine [] s" "\<And>i. \<not> saves_as i c"
  shows "page_fine (stopSplCalibrationOperation txt c s)"
proof -
  have "spl_save_pending i [c] s" if "spl_save_pending i [] s" for i using that by (auto simp: spl_save_pending_def)
  then have "locks_fine [c] s" using assms(1) by (simp add: locks_fine_def)
  from stop_call_locks [OF this] show ?thesis by (simp add: page_fine_def)
qed

lemma toggle_page:
  assumes "page_fine s"
  shows "page_fine (toggleSplCalibrationNoise s)"
proof -
  have l: "locks_fine [] s" using assms by (simp add: page_fine_def)
  have "locks_fine [] (setSplCalibrationStatus [] (s\<lparr>splGeneration := splGeneration s + 1, noiseDisabled := True, noiseText := x\<rparr>))" for x
    by (rule locks_texts [OF _ l]) (simp add: lock_core_def setSplCalibrationStatus_def)
  from wait_locks [OF this, of "Countdown (splGeneration s + 1) 3"] show ?thesis
    using assms stop_click_page [OF l, of ByNoise]
    by (simp add: toggleSplCalibrationNoise_def) (simp add: page_fine_def button_fine_def current_toggle_def)
qed

lemma close_page:
  assumes "page_fine s"
  shows "page_fine (closeSplCalibration s)"
proof -
  let ?s = "s\<lparr>splApplyController := None, splApplying := False, saveDisabled := False\<rparr>"
  have "locks_fine [] s" using assms by (simp add: page_fine_def)
  then have "locks_fine [] ?s" by (simp add: locks_fine_def tasks_fresh_def check_alone_def save_locks_def awaited_start_def start_known_def)
  then show ?thesis unfolding closeSplCalibration_def by (rule stop_click_page) simp
qed

lemma save_page:
  assumes "page_fine s"
  shows "page_fine (saveSplCalibration s)"
proof -
  have l: "locks_fine [] s" using assms by (simp add: page_fine_def)
  let ?s = "\<lambda>n. s\<lparr>splApplying := True, splApplyController := Some n, splNext := Suc n\<rparr>"
  define s1 where "s1 = (resetSplCalibrationNoiseButton (?s (splNext s)))\<lparr>saveDisabled := True\<rparr>"
  have tick: "locks_fine [] (s\<lparr>splNext := Suc (splNext s)\<rparr>)" using tick_locks [OF l] .
  have "locks_fine [BySave (splNext s) r q] s1" for r q
    using tick by (simp add: s1_def resetSplCalibrationNoiseButton_def locks_fine_def tasks_fresh_def check_alone_def save_locks_def
        awaited_start_def start_known_def spl_save_pending_def)
  from stop_call_locks [OF this] have "page_fine (stopSplCalibrationOperation [] (BySave (splNext s) r q) s1)" for r q
    by (simp add: page_fine_def)
  moreover have "page_fine (setSplCalibrationStatus m s)" for m using assms by (simp add: page_fine_def status_locks)
  ultimately show ?thesis unfolding saveSplCalibration_def using assms
    by (simp add: s1_def split: jsnum.split option.split)
qed

lemma open_page:
  assumes "page_fine s"
  shows "page_fine (openSplCalibration s)"
proof -
  let ?s = "setSplCalibrationStatus [] (s\<lparr>splOutputProfile := None, splOpen := True\<rparr>)"
  have c: "lock_core ?s = lock_core s" "noiseDisabled ?s = noiseDisabled s" "splGeneration ?s = splGeneration s"
    by (simp_all add: lock_core_def setSplCalibrationStatus_def)
  have "locks_fine [] ?s" "button_fine ?s" using locks_core [OF c(1)] button_core [OF c] assms by (simp_all add: page_fine_def)
  then show ?thesis using wait_locks wait_button by (simp add: openSplCalibration_def page_fine_def)
qed

lemma answered_page:
  assumes "page_fine s"
  shows "page_fine (spl_settled i reply s)"
  using assms task_settled_page stop_answered_locks
  by (auto simp: spl_settled_def page_fine_def split: option.split)

lemma spl_step_page:
  assumes "page_fine s"
  shows "page_fine (spl_step e s)"
proof (cases e)
  case (MeasuredTyped t)
  have c: "lock_core (s\<lparr>splMeasured := t\<rparr>) = lock_core s" by (simp add: lock_core_def)
  show ?thesis using assms locks_core [OF c] button_core [OF c] MeasuredTyped by (simp add: page_fine_def)
next
  case (SecondPassed i)
  then show ?thesis using assms countdown_page by (auto split: option.split spl_task.split)
qed (use assms open_page close_page toggle_page save_page answered_page in simp_all)

lemma init_page: "page_fine init_spl"
  by (simp add: page_fine_def locks_defs button_fine_def init_spl_def)

lemma run_page: "page_fine s \<Longrightarrow> page_fine (run_events spl_step es s)"
  by (induction es arbitrary: s) (simp_all add: spl_step_page)

subsection \<open>Work\<close>

fun task_work :: "spl_task \<Rightarrow> nat" where
  "task_work (Countdown g n) = n + 3" | "task_work (AutoStart g) = 2" | "task_work (NoiseStart g) = 2"
| "task_work (Apply c g r) = 2" | "task_work t = 1"

fun phase_work :: "stop_phase \<Rightarrow> nat" where
  "phase_work (StopInterrupt i k None) = 4" | "phase_work (StopInterrupt i k (Some f)) = 3" | "phase_work (StopAwaits k) = 3"
| "phase_work (StopLast i f) = 2" | "phase_work (StopCheck i m) = 1"

fun caller_work :: "stop_caller \<Rightarrow> nat" where
  "caller_work (BySave i r q) = 2" | "caller_work c = 0"

abbreviation callers_work :: "stop_caller list \<Rightarrow> nat" where
  "callers_work cs \<equiv> sum_list (List.map caller_work cs)"

definition tasks_work :: "(nat \<times> spl_task) list \<Rightarrow> nat" where
  "tasks_work ts = sum_list (List.map (\<lambda>x. task_work (snd x)) ts)"

definition stop_work :: "stop_op option \<Rightarrow> nat" where
  "stop_work r = (case r of None \<Rightarrow> 0
     | Some op \<Rightarrow> phase_work (stopPhase op) + caller_work (stopCaller op) + callers_work (stopJoined op))"

definition spl_work :: "spl_page \<Rightarrow> nat" where
  "spl_work s = tasks_work (splTasks s) + stop_work (splStopRequest s)"

fun spl_awaits :: "spl_event \<Rightarrow> spl_page \<Rightarrow> bool" where
  "spl_awaits (SplSettled i w) s = (case map_of (splTasks s) i of
       Some (Countdown g n) \<Rightarrow> False
     | Some t \<Rightarrow> True
     | None \<Rightarrow> (case splStopRequest s of None \<Rightarrow> False | Some op \<Rightarrow> stop_request (stopPhase op) = Some i))"
| "spl_awaits (SecondPassed i) s = (case map_of (splTasks s) i of Some (Countdown g n) \<Rightarrow> True | _ \<Rightarrow> False)"
| "spl_awaits e s = False"

lemma work_core:
  assumes "lock_core s' = lock_core s"
  shows "spl_work s' = spl_work s"
  using assms by (simp add: lock_core_def spl_work_def)

lemma wait_work [simp]: "spl_work (spl_wait t s) = task_work t + spl_work s"
  by (simp add: spl_work_def tasks_work_def)

lemma tasks_work_filter: "tasks_work (filter P ts) \<le> tasks_work ts"
  by (induction ts) (auto simp: tasks_work_def)

lemma done_work:
  assumes "map_of (splTasks s) i = Some t"
  shows "spl_work (spl_done i s) + task_work t \<le> spl_work s"
proof -
  have "tasks_work (filter (\<lambda>x. fst x \<noteq> i) ts) + task_work t \<le> tasks_work ts" if "map_of ts i = Some t" for ts
    using that
  proof (induction ts)
    case (Cons x ts)
    then show ?case
      using tasks_work_filter [of "\<lambda>x. fst x \<noteq> i" ts] by (cases x) (auto simp: tasks_work_def split: if_splits)
  qed simp
  from this [OF assms] show ?thesis by (simp add: spl_work_def spl_done_def)
qed

lemma reset_work [simp]: "spl_work (resetSplCalibrationNoiseButton s) = spl_work s" "spl_work (setSplCalibrationStatus m s) = spl_work s"
  "spl_work (setSplCalibrationActionLine m s) = spl_work s" "spl_work (setSplCalibrationRestoreActionLine s) = spl_work s"
  "spl_work (applySplCalibrationServerState v s) = spl_work s" "spl_work (remember_if_named v s) = spl_work s"
  by (rule work_core, simp)+

lemma save_finally_work [simp]: "spl_work (spl_save_finally i s) = spl_work s" "spl_work (spl_save_failed i g m s) = spl_work s"
proof -
  show e: "spl_work (spl_save_finally i s) = spl_work s" for s
    by (simp add: spl_save_finally_def spl_work_def resetSplCalibrationNoiseButton_def)
  show "spl_work (spl_save_failed i g m s) = spl_work s" unfolding spl_save_failed_def e by simp
qed

lemma open_work [simp]: "spl_work (s\<lparr>splOpen := b\<rparr>) = spl_work s"
  by (simp add: spl_work_def)

lemma caller_works: "spl_work (caller_continues f c s) \<le> spl_work s + caller_work c"
  by (cases c) (auto simp: caller_continues_def save_stopped_def split: option.split)

lemma failed_caller_works: "spl_work (caller_continues (Some m) c s) = spl_work s"
  by (cases c) (simp_all add: caller_continues_def save_stopped_def)

lemma callers_bounded: "spl_work (fold (caller_continues f) cs s) \<le> spl_work s + callers_work cs"
proof (induction cs arbitrary: s)
  case (Cons c cs)
  show ?case using Cons.IH [of "caller_continues f c s"] caller_works [of f c s] by simp
qed simp

lemma failed_callers_work: "spl_work (fold (caller_continues (Some m)) cs s) = spl_work s"
  by (induction cs arbitrary: s) (simp_all add: failed_caller_works)

lemma stop_over_work:
  assumes "splStopRequest s = Some op"
  shows "spl_work (stop_over op f s) + phase_work (stopPhase op) + callers_work (stopJoined op) \<le> spl_work s"
  using caller_works [of f "stopCaller op" "resetSplCalibrationNoiseButton (s\<lparr>splStopRequest := None\<rparr>)"] assms
  by (simp add: stop_over_def) (simp add: spl_work_def stop_work_def)

lemma sends_work [simp]:
  "spl_work (stop_sends phase op s) = tasks_work (splTasks s) + phase_work (phase (splNext s)) + caller_work (stopCaller op)
     + callers_work (stopJoined op)"
  by (simp add: stop_sends_def spl_work_def stop_work_def)

lemma stop_settled_work:
  assumes "splStopRequest s = Some op" "phase_work (stopPhase op) = 2"
  shows "spl_work (spl_stop_settled op f s) < spl_work s"
proof (cases f)
  case None
  let ?s = "(if stopText op \<noteq> [] then setSplCalibrationStatus (stopText op) else id) (setSplCalibrationActionLine []
    (s\<lparr>splNoiseActive := False, splStopFailed := False, splRestorePending := JNull\<rparr>))"
  have c: "lock_core ?s = lock_core s" by (simp add: lock_core_def setSplCalibrationStatus_def setSplCalibrationActionLine_def)
  then have "splStopRequest ?s = Some op" using assms(1) by (simp add: lock_core_def)
  from stop_over_work [OF this, of None]
  have "spl_work (stop_over op None ?s) + callers_work (stopJoined op) < spl_work s" using work_core [OF c] assms(2) by simp
  then show ?thesis
    using callers_bounded [of None "stopJoined op" "stop_over op None ?s"] None by (simp add: spl_stop_settled_def)
next
  case (Some m)
  have "spl_work (spl_stop_settled op f s) = tasks_work (splTasks s) + 1 + caller_work (stopCaller op)"
    using Some by (simp add: spl_stop_settled_def failed_callers_work)
  then show ?thesis using assms by (simp add: spl_work_def stop_work_def)
qed

lemma stop_checked_work:
  assumes "splStopRequest s = Some op" "phase_work (stopPhase op) = 1"
  shows "spl_work (stop_checked op m reply s) < spl_work s"
proof -
  define s1 where "s1 = (case reply of Inr (True, data) \<Rightarrow>
      if \<not> truthy (jget data ''operation_active'') \<and> truthy (jget data ''restore_pending'')
      then applySplCalibrationServerState data s else s | _ \<Rightarrow> s)"
  define s2 where "s2 = (if splStopFailed s1 then setSplCalibrationActionLine ''Cleanup pending. Retry stop.'' s1
      else setSplCalibrationRestoreActionLine s1)"
  have "lock_core s1 = lock_core s" by (simp add: s1_def split: sum.split prod.split bool.split)
  then have c: "lock_core s2 = lock_core s" by (simp add: s2_def)
  have o2: "splStopRequest s2 = Some op" using c assms(1) by (simp add: lock_core_def)
  have "stop_checked op m reply s = stop_over op (Some m) s2" by (simp only: stop_checked_def Let_def s1_def s2_def)
  then show ?thesis using stop_over_work [OF o2, of "Some m"] work_core [OF c] assms(2) by simp
qed

lemma stop_answered_work:
  assumes "splStopRequest s = Some op" "stop_request (stopPhase op) = Some i"
  shows "spl_work (stop_answered op reply s) < spl_work s"
proof (cases "stopPhase op")
  case (StopInterrupt j k f)
  have "spl_work s = tasks_work (splTasks s) + phase_work (StopInterrupt j k f) + caller_work (stopCaller op) + callers_work (stopJoined op)"
    using assms(1) StopInterrupt by (simp add: spl_work_def stop_work_def)
  then show ?thesis using StopInterrupt
    by (cases f) (simp_all add: stop_answered_def, simp add: spl_work_def stop_work_def)
next
  case (StopAwaits k)
  then show ?thesis using assms(2) by (simp add: stop_request_def)
next
  case (StopLast j f)
  then show ?thesis using stop_settled_work [OF assms(1)] by (simp add: stop_answered_def)
next
  case (StopCheck j m)
  then show ?thesis using stop_checked_work [OF assms(1)] by (simp add: stop_answered_def)
qed

lemma start_settled_work: "spl_work (start_settled_stop k f s) \<le> spl_work s"
  by (cases rule: start_settled_cases [of k f s]) (auto simp: spl_work_def stop_work_def stop_sends_def)

lemma finally_work [simp]: "spl_work (toggle_finally g s) = spl_work s" "spl_work (spl_start_failed g m s) = spl_work s + 1"
  by (rule work_core, simp add: toggle_finally_def lock_core_def resetSplCalibrationNoiseButton_def)
    (simp add: spl_start_failed_def, simp add: spl_work_def)

lemma toggle_settled_work:
  "spl_work (noise_settled g reply s) \<le> spl_work s + 1" "spl_work (automatic_settled g reply s) \<le> spl_work s + 1"
  "spl_work (start_checked g m reply s) = spl_work s"
proof -
  have u: "spl_work (x\<lparr>splNoiseActive := a\<rparr>) = spl_work x" "spl_work (x\<lparr>noiseText := t\<rparr>) = spl_work x"
    "spl_work (x\<lparr>splMeasured := d\<rparr>) = spl_work x" for x a t d
    by (simp_all add: spl_work_def)
  show "spl_work (noise_settled g reply s) \<le> spl_work s + 1" by (simp add: noise_settled_def u split: sum.split prod.split)
  show "spl_work (automatic_settled g reply s) \<le> spl_work s + 1"
    by (simp add: automatic_settled_def Let_def u split: sum.split prod.split)
  show "spl_work (start_checked g m reply s) = spl_work s"
    by (simp add: start_checked_def split: sum.split prod.split bool.split)
qed

lemma open_read_work: "spl_work (open_read g reply s) = spl_work s"
proof -
  have "spl_work (setSplCalibrationRestoreActionLine ((resetSplCalibrationNoiseButton
     ((rememberSplCalibrationOutput (jget data ''output_profile'') (applySplCalibrationServerState data s))
       \<lparr>splAutomaticAvailable := truthy (jpath data [''automatic'', ''available''])\<rparr>))
     \<lparr>splModeText := splCalibrationModeLabel data\<rparr>)) = spl_work s" for data
    by (rule work_core) (simp add: lock_core_def text_defs resetSplCalibrationNoiseButton_def)
  then show ?thesis unfolding open_read_def Let_def by (simp split: sum.split prod.split)
qed

lemma save_settled_work:
  "spl_work (save_applied c g r reply s) \<le> spl_work s + 1" "spl_work (effects_read c g reply s) = spl_work s"
proof -
  have u: "spl_work (x\<lparr>splNoiseActive := a\<rparr>) = spl_work x" "spl_work (x\<lparr>noiseText := t\<rparr>) = spl_work x" for x a t
    by (simp_all add: spl_work_def)
  show "spl_work (save_applied c g r reply s) \<le> spl_work s + 1"
    by (simp add: save_applied_def Let_def u split: sum.split prod.split)
  show "spl_work (effects_read c g reply s) = spl_work s" by (simp add: effects_read_def split: sum.split)
qed

lemma task_settled_work:
  assumes "map_of (splTasks s) i = Some t" "\<nexists>g n. t = Countdown g n"
  shows "spl_work (task_settled i t reply s) < spl_work s"
proof -
  define d where "d = spl_done i s"
  define r where "r = start_settled_stop i (failure_of reply) d"
  have d: "spl_work d + task_work t \<le> spl_work s" using done_work [OF assms(1)] by (simp only: d_def)
  have r: "spl_work r \<le> spl_work d" unfolding r_def by (rule start_settled_work)
  have e: "task_settled i t reply s = (case t of
        OpenRead gen \<Rightarrow> open_read gen reply d | Countdown gen n \<Rightarrow> s
      | AutoStart gen \<Rightarrow> automatic_settled gen reply r | NoiseStart gen \<Rightarrow> noise_settled gen reply r
      | StartCheck gen m \<Rightarrow> start_checked gen m reply d | Apply c gen measured \<Rightarrow> save_applied c gen measured reply d
      | EffectsRead c gen \<Rightarrow> effects_read c gen reply d)"
    by (simp only: task_settled_def d_def r_def)
  show ?thesis
  proof (cases t)
    case (AutoStart g)
    then show ?thesis using d r toggle_settled_work(2) [of g reply r] unfolding e by simp
  next
    case (NoiseStart g)
    then show ?thesis using d r toggle_settled_work(1) [of g reply r] unfolding e by simp
  next
    case (Apply c g m)
    then show ?thesis using d save_settled_work(1) [of c g m reply d] unfolding e by simp
  qed (use assms(2) d in \<open>simp_all add: task_settled_def d_def [symmetric] open_read_work toggle_settled_work(3) save_settled_work(2)\<close>)
qed

lemma countdown_work:
  assumes "map_of (splTasks s) i = Some (Countdown g n)"
  shows "spl_work (countdown_ticked g n (spl_done i s)) < spl_work s"
proof -
  have "spl_work (noise_starts g x) = spl_work x + 2" for x
    by (simp add: noise_starts_def Let_def) (simp add: spl_work_def setSplCalibrationActionLine_def)
  moreover have "spl_work (x\<lparr>noiseText := t\<rparr>) = spl_work x" for x t by (simp add: spl_work_def)
  ultimately show ?thesis using done_work [OF assms] by (auto simp: countdown_ticked_def)
qed

interpretation panel: draining spl_work spl_awaits spl_step
proof
  fix e s
  assume a: "spl_awaits e s"
  show "spl_work (spl_step e s) < spl_work s"
  proof (cases e)
    case (SecondPassed i)
    then show ?thesis using a countdown_work by (auto split: option.splits spl_task.splits)
  next
    case (SplSettled i w)
    show ?thesis
    proof (cases "map_of (splTasks s) i")
      case None
      then show ?thesis using a SplSettled stop_answered_work by (auto simp: spl_settled_def split: option.splits)
    next
      case (Some t)
      then have "\<nexists>g n. t = Countdown g n" using a SplSettled by auto
      then show ?thesis using Some SplSettled task_settled_work by (simp add: spl_settled_def)
    qed
  qed (use a in simp_all)
qed

lemma rest_unlocked:
  assumes "\<forall>e. \<not> spl_awaits e s" "page_fine s"
  shows "splTasks s = [] \<and> splStopRequest s = None \<and> splStartRequest s = None \<and> \<not> splApplying s \<and> \<not> noiseDisabled s \<and> \<not> saveDisabled s"
proof -
  have l: "locks_fine [] s" and b: "button_fine s" using assms(2) by (simp_all add: page_fine_def)
  have tasks: "splTasks s = []"
  proof (cases "splTasks s")
    case (Cons x ts)
    obtain i t where x: "x = (i, t)" by (cases x)
    then have m: "map_of (splTasks s) i = Some t" using Cons by simp
    have "\<not> spl_awaits (SplSettled i TimedOut) s" "\<not> spl_awaits (SecondPassed i) s" using assms(1) by blast+
    then show ?thesis using m by (cases t) simp_all
  qed
  then have unknown: "\<not> start_known k s" for k by (simp add: start_known_def)
  have start: "splStartRequest s = None"
    using l unknown by (cases "splStartRequest s") (auto simp: locks_fine_def awaited_start_def)
  have stop: "splStopRequest s = None"
  proof (cases "splStopRequest s")
    case (Some op)
    have "stop_request (stopPhase op) \<noteq> Some i" for i
      using assms(1) [rule_format, of "SplSettled i TimedOut"] Some tasks by auto
    then obtain k where "stopPhase op = StopAwaits k" by (cases "stopPhase op") (auto simp: stop_request_def)
    then have "awaited_start k s" using Some by (simp add: awaited_start_def)
    then show ?thesis using l unknown by (simp add: locks_fine_def)
  qed
  have "\<not> spl_save_pending i [] s" for i using tasks stop by (simp add: spl_save_pending_def applying_as_def)
  then have "splApplyController s = None" using l by (cases "splApplyController s") (auto simp: locks_fine_def)
  then have "\<not> splApplying s \<and> \<not> saveDisabled s" using l by (simp add: locks_fine_def save_locks_def)
  then show ?thesis using tasks start stop b by (simp add: button_fine_def current_toggle_def)
qed

end
