(* ===== verification/Spl_Claims.thy ===== *)
theory Spl_Claims
  imports Spl_Locks
begin

section \<open>What the SPL calibration panel promises\<close>

text \<open>
  From the invariant of \<open>Spl_Safety\<close>: noise that plays is always shown, awaited or being stopped, and
  never behind a closed panel. From \<open>Spl_Locks\<close>: the panel never waits for ever, and never locked.
\<close>

subsection \<open>Noise is never forgotten\<close>

text \<open>C12: Calibration noise never plays unnoticed. Let the backend handle the panel's requests in any order,
  answer them late, refuse them or not answer at all (a request that times out counts as settled), as long as
  a success is only reported for what was done. Whenever noise plays, the panel is open, and either a start
  request still awaits its answer, or a stop is in progress, or the panel itself shows that something is
  left to stop: noise, a failed stop, or a restore that is pending. When none of these holds, the
  backend is silent; a closed panel in particular.\<close>

theorem noise_never_unnoticed:
  assumes "honest_world es init_world" "w = run_events world_step es init_world"
  shows "playing w \<longrightarrow> splOpen (splPage w)
    \<and> (splStartRequest (splPage w) \<noteq> None \<or> splStopRequest (splPage w) \<noteq> None \<or> splNoiseActive (splPage w)
       \<or> splStopFailed (splPage w) \<or> truthy (splRestorePending (splPage w)))"
proof -
  have "world_fine w" unfolding assms(2) by (rule world_run_fine [OF init_world_fine assms(1)])
  then show ?thesis by (auto simp: world_fine_def fine_def noticed_def shows_noise_def)
qed

definition ok_body :: "(string \<times> jsval) list \<Rightarrow> spl_wire" where
  "ok_body ps = Body 200 (Inr (JObj ps))"

text \<open>A start whose answer is lost, a read that fails, a stop the backend carries out but whose answer is lost.\<close>

definition lost_answers :: "world_event list" where
  "lost_answers = [OnPage SplOpened, Served 0 False, OnPage (SplSettled 0 (ok_body [])), OnPage NoiseClicked,
     OnPage (SecondPassed 1), OnPage (SecondPassed 2), OnPage (SecondPassed 3), Served 4 True,
     OnPage (SplSettled 4 TimedOut), OnPage (SplSettled 5 TimedOut)]"

theorem noise_never_unnoticed_witness:
  "playing (run_events world_step lost_answers init_world)
   \<and> splStopFailed (splPage (run_events world_step lost_answers init_world))
   \<and> noiseText (splPage (run_events world_step lost_answers init_world)) = ''Retry stop''"
proof -
  have h: "honest_world lost_answers init_world" and p: "playing (run_events world_step lost_answers init_world)"
    and rest: "splStartRequest (splPage (run_events world_step lost_answers init_world)) = None"
    "splStopRequest (splPage (run_events world_step lost_answers init_world)) = None"
    "\<not> splNoiseActive (splPage (run_events world_step lost_answers init_world))"
    "\<not> truthy (splRestorePending (splPage (run_events world_step lost_answers init_world)))"
    "noiseText (splPage (run_events world_step lost_answers init_world)) = ''Retry stop''"
    by code_simp+
  then show ?thesis using noise_never_unnoticed [OF h refl] by simp
qed

subsection \<open>The panel comes to rest unlocked\<close>

text \<open>C13: The SPL panel never stays locked. Take any state the panel reaches by clicks, answers and timers. From then
  on let only what it awaits happen: its requests settle, in any order and in any way, its countdown ticks. There
  are at most as many such events as the measure of work says before nothing is awaited any more, and then no stop, start or save is
  in progress and both the noise button and the save button can be clicked.\<close>

theorem spl_panel_never_stays_locked:
  assumes "s = run_events spl_step es init_spl" "all_awaited spl_awaits spl_step as s" "r = run_events spl_step as s"
  shows "length as \<le> spl_work s
    \<and> ((\<forall>e. \<not> spl_awaits e r) \<longrightarrow> splTasks r = [] \<and> splStopRequest r = None \<and> splStartRequest r = None
         \<and> \<not> splApplying r \<and> \<not> noiseDisabled r \<and> \<not> saveDisabled r)"
proof (intro conjI impI)
  show "length as \<le> spl_work s" using panel.drains [OF assms(2)] by simp
next
  assume "\<forall>e. \<not> spl_awaits e r"
  moreover have "page_fine r" unfolding assms(1,3) by (intro run_page init_page)
  ultimately show "splTasks r = []" "splStopRequest r = None" "splStartRequest r = None" "\<not> splApplying r" "\<not> noiseDisabled r"
    "\<not> saveDisabled r" using rest_unlocked by blast+
qed

text \<open>A save that stops the noise first, applies, and fails to reload the effects.\<close>

definition profile_answer :: spl_wire where
  "profile_answer = ok_body [(''output_profile'', JObj [(''id'', JStr ''dac'')])]"

definition clicked_save :: "spl_event list" where
  "clicked_save = [SplOpened, SplSettled 0 profile_answer, MeasuredTyped ''75'', SaveClicked]"

definition save_answers :: "spl_event list" where
  "save_answers = [SplSettled 2 (ok_body []), SplSettled 3 (ok_body []), SplSettled 4 TimedOut]"

theorem spl_panel_never_stays_locked_witness:
  "saveDisabled (run_events spl_step clicked_save init_spl) \<and> noiseDisabled (run_events spl_step clicked_save init_spl)
   \<and> length save_answers \<le> spl_work (run_events spl_step clicked_save init_spl)
   \<and> \<not> saveDisabled (run_events spl_step save_answers (run_events spl_step clicked_save init_spl))"
proof -
  have a: "all_awaited spl_awaits spl_step save_answers (run_events spl_step clicked_save init_spl)"
    and l: "saveDisabled (run_events spl_step clicked_save init_spl)" "noiseDisabled (run_events spl_step clicked_save init_spl)"
    and r: "splTasks (run_events spl_step save_answers (run_events spl_step clicked_save init_spl)) = []"
      "splStopRequest (run_events spl_step save_answers (run_events spl_step clicked_save init_spl)) = None"
    by code_simp+
  have "\<not> spl_awaits e (run_events spl_step save_answers (run_events spl_step clicked_save init_spl))" for e
    by (cases e) (simp_all add: r)
  then show ?thesis using spl_panel_never_stays_locked [OF refl a refl] l by simp
qed

end
