(* ===== verification/Level_Match.thy ===== *)
theory Level_Match
  imports Auto_Sub_Result Draining
begin

section \<open>Level Matching\<close>

text \<open>
  static/measurement_level_match.js: the panel measures the speakers of a bank one after the other, applies
  the trims the backend computes, or resets them. A run is a start request, polls of its job and the
  apply request; a generation separates it from runs that were cancelled, a serial separates the newest
  read of the stored levels from older ones.
\<close>

subsection \<open>What surrounds the panel\<close>

text \<open>The selected measurement area, the output mode, the measurement setup, and whether another measurement runs.\<close>

record lm_area =
  areaBank :: string
  areaGroup :: "string option"
  areaAvailable :: bool

record lm_env =
  envArea :: "lm_area option"
  envMode :: jsval
  envOther :: bool
  envInput :: bool

definition selected_area :: "lm_env \<Rightarrow> lm_area option" where
  "selected_area env = (case envArea env of None \<Rightarrow> None | Some a \<Rightarrow> if areaAvailable a then Some a else None)"

text \<open>
  The answers: a request is rejected with a message or answered with \<open>ok\<close> and a body (\<open>{}\<close> when it does not
  parse), a mutation resolves with whether it was applied, a sleep or a catalog read is over.
\<close>

datatype lm_answer = Reply "string + bool \<times> jsval" | Mutated "string + bool" | Elapsed

definition detail_or :: "jsval \<Rightarrow> string \<Rightarrow> string" where
  "detail_or data fallback = (if nullish data then null_read_error data ''detail''
     else case jget data ''detail'' of JStr m \<Rightarrow> m | _ \<Rightarrow> fallback)"

subsection \<open>State\<close>

text \<open>
  \<open>LmStart\<close>, \<open>LmPoll\<close>, \<open>LmSleep\<close> and \<open>LmApply\<close> are the stages of a run with its token, \<open>LmLate\<close> the cancellation of a
  job whose start was answered too late; \<open>LmCancel\<close> says whether the panel closes afterwards.
\<close>

datatype lm_task =
    LmCatalog
  | LmRefresh nat lm_area jsval
  | LmStart nat
  | LmPoll nat string
  | LmSleep nat string
  | LmApply nat
  | LmLate nat string
  | LmReset
  | LmZero
  | LmCancel bool string

record level_page =
  lmEnv :: lm_env
  lmBusy :: bool
  lmStarting :: bool
  lmResetting :: bool
  lmJobId :: string
  lmGeneration :: nat
  lmLastStatus :: jsval
  lmRefreshSerial :: nat
  lmOpen :: bool
  lmAction :: string
  lmStatus :: string
  lmRows :: "(jsval \<times> bool \<times> string) list"
  lmStartText :: string
  lmStartDisabled :: bool
  lmResetDisabled :: bool
  lmTasks :: "(nat \<times> lm_task) list"
  lmNext :: nat

definition init_level :: "lm_env \<Rightarrow> level_page" where
  "init_level env = \<lparr>lmEnv = env, lmBusy = False, lmStarting = False, lmResetting = False, lmJobId = [], lmGeneration = 0,
     lmLastStatus = JNull, lmRefreshSerial = 0, lmOpen = False, lmAction = [], lmStatus = [], lmRows = [],
     lmStartText = ''Match levels'', lmStartDisabled = False, lmResetDisabled = False, lmTasks = [], lmNext = 0\<rparr>"

definition lm_wait :: "lm_task \<Rightarrow> level_page \<Rightarrow> level_page" where
  "lm_wait t s = s\<lparr>lmTasks := (lmNext s, t) # lmTasks s, lmNext := lmNext s + 1\<rparr>"

definition lm_done :: "nat \<Rightarrow> level_page \<Rightarrow> level_page" where
  "lm_done i s = s\<lparr>lmTasks := filter (\<lambda>x. fst x \<noteq> i) (lmTasks s)\<rparr>"

subsection \<open>Texts\<close>

definition set_action :: "string \<Rightarrow> level_page \<Rightarrow> level_page" where
  "set_action t s = s\<lparr>lmAction := t\<rparr>"

definition set_status :: "string \<Rightarrow> level_page \<Rightarrow> level_page" where
  "set_status t s = s\<lparr>lmStatus := t\<rparr>"

definition formatTrim :: "jsval \<Rightarrow> string" where
  "formatTrim v = (case v of
     JNum (Fin r) \<Rightarrow> (case js_round (Fin (r * 10)) of Fin n \<Rightarrow> if n = 0 then ''0.0 dB'' else to_fixed 1 (n / 10) @ '' dB'' | _ \<Rightarrow> em_dash)
   | _ \<Rightarrow> em_dash)"

text \<open>A row of the table: its role, whether it is outdated, its trim.\<close>

definition result_row :: "jsval \<Rightarrow> jsval \<times> bool \<times> string" where
  "result_row row = (jget row ''role'', \<not> truthy (jget row ''valid''),
     if truthy (jget row ''valid'') then formatTrim (jget row ''trim_db'') else em_dash)"

definition renderResults :: "jsval \<Rightarrow> level_page \<Rightarrow> level_page" where
  "renderResults data s = s\<lparr>lmRows := List.map result_row (arr_items (jget data ''entries''))\<rparr>"

definition lm_waiting :: "level_page \<Rightarrow> bool" where
  "lm_waiting s = (truthy (jget (lmLastStatus s) ''requires_reference'') \<and> \<not> truthy (jget (lmLastStatus s) ''reference_ready''))"

definition units_line :: "jsval \<Rightarrow> string" where
  "units_line data = (case arr_items (jget data ''units'') of [] \<Rightarrow> []
     | us \<Rightarrow> ''Measures '' @ join_with '' and '' (List.map (\<lambda>v. if nullish v then [] else to_str v) us) @ '' one after the other.'')"

definition renderControls :: "level_page \<Rightarrow> level_page" where
  "renderControls s =
     (let measuring = lmBusy s; blocked = (\<not> measuring \<and> envOther (lmEnv s)); none = (selected_area (lmEnv s) = None);
          s1 = s\<lparr>lmStartText := (if measuring then ''Cancel'' else ''Match levels''),
                 lmStartDisabled := (\<not> measuring \<and> (none \<or> lm_waiting s \<or> blocked \<or> lmResetting s \<or> lmStarting s)),
                 lmResetDisabled := (measuring \<or> lmStarting s \<or> lmResetting s \<or> blocked \<or> none)\<rparr>
      in if measuring then s1
         else set_action
           (if none then ''Select a speaker bank for level matching.''
            else if lm_waiting s then ''Measure Front L/R first to set the level reference.''
            else if blocked then ''Another measurement is running.''
            else units_line (lmLastStatus s)) s1)"

text \<open>\<open>replace('  ', ' ')\<close>: the first double space.\<close>

fun first_double_space :: "string \<Rightarrow> string" where
  "first_double_space (a # b # r) = (if a = CHR 0x20 \<and> b = CHR 0x20 then b # r else a # first_double_space (b # r))"
| "first_double_space r = r"

definition progressText :: "jsval \<Rightarrow> string" where
  "progressText job =
     (let progress = js_or (jget job ''progress'') (JObj []); label = str_or_empty (jget progress ''label'')
      in if \<not> truthy (jget progress ''total'') then ''Starting'' @ ellipsis
         else first_double_space (''Measuring '' @ label @ '' ('' @ to_str (jget progress ''step'') @ '' of ''
           @ to_str (jget progress ''total'') @ '')'' @ ellipsis))"

subsection \<open>The stored levels\<close>

definition refresh_levels :: "level_page \<Rightarrow> level_page" where
  "refresh_levels s0 =
     (let s = renderControls (s0\<lparr>lmRefreshSerial := lmRefreshSerial s0 + 1\<rparr>) in
      case selected_area (lmEnv s0) of
        None \<Rightarrow> renderControls (renderResults JNull (s\<lparr>lmLastStatus := JNull\<rparr>))
      | Some area \<Rightarrow> lm_wait (LmRefresh (lmRefreshSerial s) area (envMode (lmEnv s0))) s)"

definition refresh_current :: "nat \<Rightarrow> lm_area \<Rightarrow> jsval \<Rightarrow> level_page \<Rightarrow> bool" where
  "refresh_current serial area mode s =
     (serial = lmRefreshSerial s \<and> js_seq mode (envMode (lmEnv s))
      \<and> (case selected_area (lmEnv s) of None \<Rightarrow> False | Some a \<Rightarrow> areaBank a = areaBank area \<and> areaGroup a = areaGroup area))"

definition refresh_failed :: "string \<Rightarrow> level_page \<Rightarrow> level_page" where
  "refresh_failed m s = renderControls (set_status m (renderResults JNull (s\<lparr>lmLastStatus := JNull\<rparr>)))"

definition levels_read :: "nat \<Rightarrow> lm_area \<Rightarrow> jsval \<Rightarrow> string + bool \<times> jsval \<Rightarrow> level_page \<Rightarrow> level_page" where
  "levels_read serial area mode reply s =
     (if \<not> refresh_current serial area mode s then s
      else case reply of
        Inl m \<Rightarrow> refresh_failed m s
      | Inr (good, data) \<Rightarrow>
          if \<not> good then refresh_failed (detail_or data ''Level Matching is unavailable'') s
          else renderControls (renderResults data (s\<lparr>lmLastStatus := data\<rparr>)))"

subsection \<open>A run\<close>

definition lm_finally :: "nat \<Rightarrow> level_page \<Rightarrow> level_page" where
  "lm_finally token s0 =
     (let s = s0\<lparr>lmStarting := False\<rparr> in
      if token = lmGeneration s then refresh_levels (s\<lparr>lmBusy := False, lmJobId := []\<rparr>) else renderControls s)"

definition lm_failed :: "nat \<Rightarrow> string \<Rightarrow> level_page \<Rightarrow> level_page" where
  "lm_failed token m s = lm_finally token (if token = lmGeneration s then set_status m s else s)"

definition startLevelMatch :: "level_page \<Rightarrow> level_page" where
  "startLevelMatch s =
     (if selected_area (lmEnv s) = None \<or> lmBusy s \<or> lmStarting s then s
      else let s1 = renderControls (set_status [] (s\<lparr>lmGeneration := lmGeneration s + 1, lmBusy := True, lmStarting := True\<rparr>))
      in if envInput (lmEnv s) then lm_wait (LmStart (lmGeneration s1)) s1
         else lm_failed (lmGeneration s1) ''Select a measurement input first'' s1)"

text \<open>The head of the polling loop.\<close>

definition poll_again :: "nat \<Rightarrow> string \<Rightarrow> level_page \<Rightarrow> level_page" where
  "poll_again token job s = (if token = lmGeneration s then lm_wait (LmPoll token job) s else lm_finally token s)"

definition level_started :: "nat \<Rightarrow> string + bool \<times> jsval \<Rightarrow> level_page \<Rightarrow> level_page" where
  "level_started token reply s =
     (case reply of
        Inl m \<Rightarrow> lm_failed token m s
      | Inr (good, data) \<Rightarrow>
          if \<not> good then lm_failed token (detail_or data ''Failed to start Level Matching'') s
          else if nullish data then lm_failed token (null_read_error data ''job'') s
          else let job = str_or_empty (jpath data [''job'', ''id'']) in
          if token \<noteq> lmGeneration s
          then (if job \<noteq> [] then lm_wait (LmLate token job) s else lm_finally token s)
          else poll_again token job (set_action (progressText (jget data ''job'')) (s\<lparr>lmStarting := False, lmJobId := job\<rparr>)))"

definition level_over :: "nat \<Rightarrow> jsval \<Rightarrow> level_page \<Rightarrow> level_page" where
  "level_over token job s =
     (if js_seq (jget job ''status'') (JStr ''cancelled'')
      then lm_finally token (set_status ''Level Matching cancelled. Nothing was changed.'' s)
      else if \<not> js_seq (jget job ''status'') (JStr ''completed'')
      then lm_failed token (to_str (js_or (jget job ''error'') (JStr ''Level Matching failed''))) s
      else let s1 = set_action (''Applying'' @ ellipsis) s in
        if nullish (jget job ''result'') then lm_failed token (null_read_error (jget job ''result'') ''mode'') s1
        else lm_wait (LmApply token) s1)"

definition level_polled :: "nat \<Rightarrow> string \<Rightarrow> string + bool \<times> jsval \<Rightarrow> level_page \<Rightarrow> level_page" where
  "level_polled token job reply s =
     (case reply of
        Inl m \<Rightarrow> lm_failed token m s
      | Inr (good, data) \<Rightarrow>
          if token \<noteq> lmGeneration s then lm_finally token s
          else if \<not> good then lm_failed token (detail_or data ''Level Matching job lost'') s
          else if nullish data then lm_failed token (null_read_error data ''job'') s
          else let j = js_or (jget data ''job'') (JObj []) in
            if \<not> js_seq (jget j ''status'') (JStr ''running'') then level_over token j s
            else lm_wait (LmSleep token job) (set_action (progressText j) s))"

definition level_applied :: "nat \<Rightarrow> string + bool \<Rightarrow> level_page \<Rightarrow> level_page" where
  "level_applied token r s =
     (case r of
        Inl m \<Rightarrow> lm_failed token m s
      | Inr applied \<Rightarrow> if token \<noteq> lmGeneration s then lm_finally token s
          else lm_finally token (set_status (if applied then ''Level Calibration applied. Re-measuring overwrites it.''
            else ''The measurement finished but the levels could not be applied.'') s))"

subsection \<open>Reset\<close>

definition reset_finally :: "level_page \<Rightarrow> level_page" where
  "reset_finally s = refresh_levels (s\<lparr>lmResetting := False\<rparr>)"

definition resetLevelMatch :: "level_page \<Rightarrow> level_page" where
  "resetLevelMatch s =
     (if selected_area (lmEnv s) = None \<or> lmBusy s \<or> lmResetting s then s
      else lm_wait LmReset (renderControls (set_status [] (s\<lparr>lmResetting := True\<rparr>))))"

definition reset_answered :: "string + bool \<times> jsval \<Rightarrow> level_page \<Rightarrow> level_page" where
  "reset_answered reply s =
     (case reply of
        Inl m \<Rightarrow> reset_finally (set_status m s)
      | Inr (good, data) \<Rightarrow>
          if \<not> good then reset_finally (set_status (detail_or data ''Failed to reset Level Matching'') s)
          else if nullish data then reset_finally (set_status (null_read_error data ''mode'') s)
          else lm_wait LmZero s)"

definition reset_applied :: "string + bool \<Rightarrow> level_page \<Rightarrow> level_page" where
  "reset_applied r s = reset_finally (set_status (case r of Inl m \<Rightarrow> m
     | Inr applied \<Rightarrow> if applied then ''Level Calibration reset to 0 dB.''
         else ''The stored levels were cleared but 0 dB could not be applied. Press Reset again.'') s)"

subsection \<open>Cancelling, opening, closing\<close>

definition panel_closes :: "bool \<Rightarrow> level_page \<Rightarrow> level_page" where
  "panel_closes closing s = (if closing then s\<lparr>lmOpen := False\<rparr> else s)"

definition cancelLevelMatch :: "bool \<Rightarrow> level_page \<Rightarrow> level_page" where
  "cancelLevelMatch closing s =
     (if \<not> lmBusy s then panel_closes closing s
      else let job = lmJobId s;
        s1 = renderControls (set_action (''Cancelling'' @ ellipsis)
          (s\<lparr>lmGeneration := lmGeneration s + 1, lmBusy := False, lmJobId := []\<rparr>))
      in if job \<noteq> [] then lm_wait (LmCancel closing job) s1 else panel_closes closing s1)"

definition level_cancel_answered :: "bool \<Rightarrow> string + bool \<times> jsval \<Rightarrow> level_page \<Rightarrow> level_page" where
  "level_cancel_answered closing reply s = panel_closes closing
     (case reply of Inl m \<Rightarrow> set_status m s
      | Inr (good, data) \<Rightarrow> if good then s else set_status ''Level Matching could not be cancelled'' s)"

definition openLevelMatch :: "level_page \<Rightarrow> level_page" where
  "openLevelMatch s = lm_wait LmCatalog (set_status [] s)"

definition closeLevelMatch :: "level_page \<Rightarrow> level_page" where
  "closeLevelMatch s = cancelLevelMatch True (s\<lparr>lmRefreshSerial := lmRefreshSerial s + 1\<rparr>)"

subsection \<open>Events\<close>

datatype lm_event = LmOpened | LmClosed | LmStartClicked | LmResetClicked | LmAnswered nat lm_answer | LmEnvironment lm_env

definition lm_answered :: "lm_task \<Rightarrow> lm_answer \<Rightarrow> level_page \<Rightarrow> level_page option" where
  "lm_answered t a s =
     (case (t, a) of
        (LmCatalog, Elapsed) \<Rightarrow> Some (refresh_levels (s\<lparr>lmOpen := True\<rparr>))
      | (LmRefresh serial area mode, Reply r) \<Rightarrow> Some (levels_read serial area mode r s)
      | (LmStart token, Reply r) \<Rightarrow> Some (level_started token r s)
      | (LmPoll token job, Reply r) \<Rightarrow> Some (level_polled token job r s)
      | (LmSleep token job, Elapsed) \<Rightarrow> Some (poll_again token job s)
      | (LmApply token, Mutated r) \<Rightarrow> Some (level_applied token r s)
      | (LmLate token job, Reply r) \<Rightarrow> Some (lm_finally token s)
      | (LmReset, Reply r) \<Rightarrow> Some (reset_answered r s)
      | (LmZero, Mutated r) \<Rightarrow> Some (reset_applied r s)
      | (LmCancel closing job, Reply r) \<Rightarrow> Some (level_cancel_answered closing r s)
      | _ \<Rightarrow> None)"

fun lm_step :: "lm_event \<Rightarrow> level_page \<Rightarrow> level_page" where
  "lm_step LmOpened s = openLevelMatch s"
| "lm_step LmClosed s = (if lmOpen s then closeLevelMatch s else s)"
| "lm_step LmStartClicked s =
     (if lmOpen s \<and> \<not> lmStartDisabled s then (if lmBusy s then cancelLevelMatch False s else startLevelMatch s) else s)"
| "lm_step LmResetClicked s = (if lmOpen s \<and> \<not> lmResetDisabled s then resetLevelMatch s else s)"
| "lm_step (LmAnswered i a) s =
     (case map_of (lmTasks s) i of None \<Rightarrow> s
      | Some t \<Rightarrow> (case lm_answered t a (lm_done i s) of None \<Rightarrow> s | Some s1 \<Rightarrow> s1))"
| "lm_step (LmEnvironment env) s = s\<lparr>lmEnv := env\<rparr>"

end
