(* ===== verification/Level_Claims.thy ===== *)
theory Level_Claims
  imports Level_Match
begin

section \<open>What Level Matching promises\<close>

text \<open>
  The invariant ties the flags of the panel to the stages that wait: a busy panel has one stage of its
  run, a resetting one has one stage of the reset, and a start that is not over has its request. From it, and
  from the growth of the generation: what a cancellation means for its run.
\<close>

subsection \<open>Waiting stages\<close>

fun run_token :: "lm_task \<Rightarrow> nat option" where
  "run_token (LmStart t) = Some t" | "run_token (LmPoll t j) = Some t" | "run_token (LmSleep t j) = Some t"
| "run_token (LmApply t) = Some t" | "run_token (LmLate t j) = Some t" | "run_token x = None"

fun resets :: "lm_task \<Rightarrow> bool" where
  "resets LmReset = True" | "resets LmZero = True" | "resets x = False"

fun holds_start :: "lm_task \<Rightarrow> bool" where
  "holds_start (LmStart t) = True" | "holds_start (LmLate t j) = True" | "holds_start x = False"

fun level_stage_fits :: "string \<Rightarrow> nat \<Rightarrow> lm_task \<Rightarrow> bool" where
  "level_stage_fits job g (LmStart t) = (t = g \<longrightarrow> job = [])"
| "level_stage_fits job g (LmPoll t j) = (t = g \<longrightarrow> job = j)"
| "level_stage_fits job g (LmSleep t j) = (t = g \<longrightarrow> job = j)"
| "level_stage_fits job g (LmLate t j) = (t < g)"
| "level_stage_fits job g x = True"

definition waiting_count :: "(lm_task \<Rightarrow> bool) \<Rightarrow> level_page \<Rightarrow> nat" where
  "waiting_count P s = length (filter (\<lambda>x. P (snd x)) (lmTasks s))"

abbreviation of_run :: "nat \<Rightarrow> lm_task \<Rightarrow> bool" where
  "of_run g x \<equiv> run_token x = Some g"

text \<open>
  While a stage continues it is no longer waiting: \<open>k\<close> stages of the current run and \<open>r\<close> of the reset are at work,
  and with \<open>e\<close> the start may be over.
\<close>

definition lm_inv :: "nat \<Rightarrow> nat \<Rightarrow> bool \<Rightarrow> level_page \<Rightarrow> bool" where
  "lm_inv k r e s = (distinct (List.map fst (lmTasks s)) \<and> (\<forall>x \<in> set (lmTasks s). fst x < lmNext s)
     \<and> (\<forall>x \<in> set (lmTasks s). \<forall>t. run_token (snd x) = Some t \<longrightarrow> t \<le> lmGeneration s)
     \<and> (\<forall>x \<in> set (lmTasks s). level_stage_fits (lmJobId s) (lmGeneration s) (snd x))
     \<and> (\<not> lmBusy s \<longrightarrow> lmJobId s = [])
     \<and> waiting_count (of_run (lmGeneration s)) s + k = of_bool (lmBusy s)
     \<and> waiting_count resets s + r = of_bool (lmResetting s)
     \<and> (lmStarting s \<longrightarrow> e \<or> (\<exists>x \<in> set (lmTasks s). holds_start (snd x))))"

definition lm_core where
  "lm_core s = (lmTasks s, lmNext s, lmGeneration s, lmJobId s, lmBusy s, lmResetting s, lmStarting s)"

lemma level_inv_core: "lm_core s' = lm_core s \<Longrightarrow> lm_inv k r e s' = lm_inv k r e s"
  by (simp add: lm_core_def lm_inv_def waiting_count_def)

lemma level_texts_core [simp]:
  "lm_core (set_action t s) = lm_core s" "lm_core (set_status t s) = lm_core s" "lm_core (renderResults v s) = lm_core s"
  "lm_core (panel_closes c s) = lm_core s"
  by (simp_all add: lm_core_def set_action_def set_status_def renderResults_def panel_closes_def)

lemma controls_core [simp]: "lm_core (renderControls s) = lm_core s"
  by (simp add: renderControls_def Let_def) (simp add: lm_core_def)

lemma inv_texts [simp]:
  "lm_inv k r e (set_action t s) = lm_inv k r e s" "lm_inv k r e (set_status t s) = lm_inv k r e s"
  "lm_inv k r e (renderResults v s) = lm_inv k r e s" "lm_inv k r e (renderControls s) = lm_inv k r e s"
  "lm_inv k r e (panel_closes c s) = lm_inv k r e s"
  by (rule level_inv_core, simp)+

lemma gen_core: "lm_core s' = lm_core s \<Longrightarrow> lmGeneration s' = lmGeneration s"
  by (simp add: lm_core_def)

lemma gen_texts [simp]:
  "lmGeneration (set_action t s) = lmGeneration s" "lmGeneration (set_status t s) = lmGeneration s"
  "lmGeneration (renderResults v s) = lmGeneration s" "lmGeneration (renderControls s) = lmGeneration s"
  "lmGeneration (panel_closes c s) = lmGeneration s"
  by (rule gen_core, simp)+

lemma inv_fields [simp]:
  "lm_inv k r e (s\<lparr>lmLastStatus := v\<rparr>) = lm_inv k r e s" "lm_inv k r e (s\<lparr>lmRefreshSerial := n\<rparr>) = lm_inv k r e s"
  "lm_inv k r e (s\<lparr>lmOpen := b\<rparr>) = lm_inv k r e s" "lm_inv k r e (s\<lparr>lmEnv := v'\<rparr>) = lm_inv k r e s"
  by (simp_all add: lm_inv_def waiting_count_def)

subsection \<open>Waiting and being answered\<close>

lemma wait_inv:
  assumes "lm_inv (k + of_bool (of_run (lmGeneration s) t)) (r + of_bool (resets t)) (e \<or> holds_start t) s"
    "\<And>n. run_token t = Some n \<Longrightarrow> n \<le> lmGeneration s" "level_stage_fits (lmJobId s) (lmGeneration s) t"
  shows "lm_inv k r e (lm_wait t s)"
proof -
  have same: "lmTasks (lm_wait t s) = (lmNext s, t) # lmTasks s" "lmNext (lm_wait t s) = Suc (lmNext s)"
    "lmGeneration (lm_wait t s) = lmGeneration s" "lmJobId (lm_wait t s) = lmJobId s" "lmBusy (lm_wait t s) = lmBusy s"
    "lmResetting (lm_wait t s) = lmResetting s" "lmStarting (lm_wait t s) = lmStarting s"
    by (simp_all add: lm_wait_def)
  have count: "waiting_count P (lm_wait t s) = of_bool (P t) + waiting_count P s" for P by (simp add: waiting_count_def same)
  have new: "lmNext s \<notin> fst ` set (lmTasks s)" using assms(1) by (auto simp: lm_inv_def)
  have start: "lmStarting s \<longrightarrow> e \<or> (\<exists>x \<in> set ((lmNext s, t) # lmTasks s). holds_start (snd x))"
    using assms(1) unfolding lm_inv_def by auto
  have old: "\<forall>x \<in> set (lmTasks s). fst x < Suc (lmNext s)" using assms(1) unfolding lm_inv_def by (simp add: less_SucI)
  show ?thesis
    using assms new start old unfolding lm_inv_def same count [of "of_run (lmGeneration s)"] count [of resets]
    by (simp add: add.assoc add.left_commute)
qed

lemma wait_plain: "lm_inv k r e s \<Longrightarrow> run_token t = None \<Longrightarrow> \<not> resets t \<Longrightarrow> \<not> holds_start t \<Longrightarrow> lm_inv k r e (lm_wait t s)"
  by (rule wait_inv) (cases t; simp)+

lemma count_done:
  "map_of ts i = Some t \<Longrightarrow> distinct (List.map fst ts) \<Longrightarrow>
     length (filter (\<lambda>x. P (snd x)) (filter (\<lambda>x. fst x \<noteq> i) ts)) + of_bool (P t) = length (filter (\<lambda>x. P (snd x)) ts)"
proof (induction ts)
  case (Cons x ts)
  have gone: "filter (\<lambda>y. fst y \<noteq> i) ts = ts" if "i \<notin> fst ` set ts" using that by (induction ts) auto
  show ?case using Cons gone by (cases x) (auto simp del: filter_filter split: if_splits)
qed simp

lemma done_inv:
  assumes "lm_inv 0 0 False s" "map_of (lmTasks s) i = Some t"
  shows "lm_inv (of_bool (of_run (lmGeneration s) t)) (of_bool (resets t)) (holds_start t) (lm_done i s)"
proof -
  have d: "distinct (List.map fst (lmTasks s))" using assms(1) by (simp add: lm_inv_def)
  have "x = (i, t)" if "x \<in> set (lmTasks s)" "fst x = i" for x
    using map_of_is_SomeI [OF d, of i "snd x"] that assms(2) by (cases x) auto
  then have start: "lmStarting s \<Longrightarrow> holds_start t \<or> (\<exists>x \<in> set (lmTasks (lm_done i s)). holds_start (snd x))"
    using assms(1) by (fastforce simp: lm_inv_def lm_done_def)
  have c: "waiting_count P (lm_done i s) + of_bool (P t) = waiting_count P s" for P
    using count_done [OF assms(2) d, of P] by (simp add: waiting_count_def lm_done_def del: filter_filter)
  have sub: "set (lmTasks (lm_done i s)) \<subseteq> set (lmTasks s)" and dist: "distinct (List.map fst (lmTasks (lm_done i s)))"
    using d by (auto simp: lm_done_def distinct_map_filter)
  have same: "lmNext (lm_done i s) = lmNext s" "lmGeneration (lm_done i s) = lmGeneration s" "lmJobId (lm_done i s) = lmJobId s"
    "lmBusy (lm_done i s) = lmBusy s" "lmResetting (lm_done i s) = lmResetting s" "lmStarting (lm_done i s) = lmStarting s"
    by (simp_all add: lm_done_def)
  have counts: "waiting_count (of_run (lmGeneration s)) s = of_bool (lmBusy s)" "waiting_count resets s = of_bool (lmResetting s)"
    using assms(1) by (simp_all add: lm_inv_def)
  have all: "\<forall>x \<in> set (lmTasks (lm_done i s)). Q x" if "\<forall>x \<in> set (lmTasks s). Q x" for Q using that sub by blast
  have old: "\<forall>x \<in> set (lmTasks s). fst x < lmNext s" "\<forall>x \<in> set (lmTasks s). \<forall>t. run_token (snd x) = Some t \<longrightarrow> t \<le> lmGeneration s"
    "\<forall>x \<in> set (lmTasks s). level_stage_fits (lmJobId s) (lmGeneration s) (snd x)" "\<not> lmBusy s \<longrightarrow> lmJobId s = []"
    using assms(1) by (simp_all add: lm_inv_def)
  show ?thesis unfolding lm_inv_def same c [of "of_run (lmGeneration s)"] c [of resets] counts using dist all [OF old(1)] all [OF old(2)] all [OF old(3)] old(4) start by simp
qed

lemma done_task:
  assumes "lm_inv 0 0 False s" "map_of (lmTasks s) i = Some t"
  shows "run_token t = Some n \<Longrightarrow> n \<le> lmGeneration s" "level_stage_fits (lmJobId s) (lmGeneration s) t"
  using assms map_of_SomeD [OF assms(2)] by (fastforce simp: lm_inv_def)+

lemma inv_weaken: "lm_inv k r e s \<Longrightarrow> lm_inv k r True s"
  by (simp add: lm_inv_def)

subsection \<open>The operations\<close>

lemma refresh_inv: "lm_inv k r e s \<Longrightarrow> lm_inv k r e (refresh_levels s)"
  by (auto simp: refresh_levels_def Let_def intro!: wait_plain split: option.split)

lemma read_inv: "lm_inv k r e s \<Longrightarrow> lm_inv k r e (levels_read serial area mode reply s)"
  by (simp add: levels_read_def refresh_failed_def split: sum.split prod.split)

abbreviation at_work :: "nat \<Rightarrow> level_page \<Rightarrow> nat" where
  "at_work token s \<equiv> of_bool (token = lmGeneration s)"

lemma no_stage_fits: "level_stage_fits job g t \<Longrightarrow> run_token t \<noteq> Some g \<Longrightarrow> level_stage_fits job' g t"
  by (cases t) auto

lemma no_run_left:
  assumes "lm_inv 1 r e s"
  shows "lmBusy s" "\<forall>x \<in> set (lmTasks s). run_token (snd x) \<noteq> Some (lmGeneration s)"
proof -
  have c: "waiting_count (of_run (lmGeneration s)) s + 1 = of_bool (lmBusy s)" using assms by (simp add: lm_inv_def)
  then show "lmBusy s" by (cases "lmBusy s") simp_all
  then have "waiting_count (of_run (lmGeneration s)) s = 0" using c by simp
  then show "\<forall>x \<in> set (lmTasks s). run_token (snd x) \<noteq> Some (lmGeneration s)"
    by (simp add: waiting_count_def filter_empty_conv)
qed

lemma finally_inv:
  assumes "lm_inv (at_work token s) r e s"
  shows "lm_inv 0 r False (lm_finally token s)"
proof (cases "token = lmGeneration s")
  case True
  let ?s = "s\<lparr>lmStarting := False, lmBusy := False, lmJobId := []\<rparr>"
  have i: "lm_inv 1 r e s" using assms True by simp
  have "waiting_count (of_run (lmGeneration s)) s = 0" using no_run_left(2) [OF i] by (simp add: waiting_count_def filter_empty_conv)
  moreover have "\<forall>x \<in> set (lmTasks s). level_stage_fits [] (lmGeneration s) (snd x)"
    using no_run_left(2) [OF i] i no_stage_fits unfolding lm_inv_def by blast
  ultimately have "lm_inv 0 r False ?s" using i by (simp add: lm_inv_def waiting_count_def)
  then show ?thesis using True by (simp add: lm_finally_def refresh_inv)
next
  case False
  then have "lm_inv 0 r False (s\<lparr>lmStarting := False\<rparr>)" using assms by (simp add: lm_inv_def waiting_count_def)
  then show ?thesis using False by (simp add: lm_finally_def)
qed

lemma failed_inv: "lm_inv (at_work token s) r e s \<Longrightarrow> lm_inv 0 r False (lm_failed token m s)"
  using finally_inv [of token s r e] finally_inv [of token "set_status m s" r e]
  by (cases "token = lmGeneration s") (simp_all add: lm_failed_def)

lemma level_poll_inv:
  assumes "lm_inv (at_work token s) r False s" "token = lmGeneration s \<Longrightarrow> lmJobId s = job"
  shows "lm_inv 0 r False (poll_again token job s)"
proof (cases "token = lmGeneration s")
  case True
  then have "lm_inv 0 r False (lm_wait (LmPoll token job) s)" using assms by (intro wait_inv) simp_all
  then show ?thesis using True by (simp add: poll_again_def)
qed (use finally_inv [OF assms(1)] in \<open>simp add: poll_again_def\<close>)

lemma current_start:
  assumes "lm_inv 1 r True s"
  shows "lm_inv 1 r False (s\<lparr>lmStarting := False, lmJobId := job\<rparr>)"
proof -
  have "\<forall>x \<in> set (lmTasks s). level_stage_fits job (lmGeneration s) (snd x)"
    using no_run_left(2) [OF assms] assms no_stage_fits unfolding lm_inv_def by blast
  then show ?thesis using assms no_run_left(1) [OF assms] by (simp add: lm_inv_def waiting_count_def)
qed

lemma started_inv:
  assumes "lm_inv (at_work token s) r True s" "token \<le> lmGeneration s"
  shows "lm_inv 0 r False (level_started token reply s)"
proof -
  let ?job = "\<lambda>data. str_or_empty (jpath data [''job'', ''id''])"
  have late: "lm_inv 0 r False (lm_wait (LmLate token j) s)" if "token \<noteq> lmGeneration s" for j
    using assms that by (intro wait_inv) (simp_all add: lm_inv_def)
  have live: "lm_inv 0 r False (poll_again token j (set_action t (s\<lparr>lmStarting := False, lmJobId := j\<rparr>)))"
    if "token = lmGeneration s" for j t
  proof (rule level_poll_inv)
    show "lm_inv (at_work token (set_action t (s\<lparr>lmStarting := False, lmJobId := j\<rparr>))) r False
        (set_action t (s\<lparr>lmStarting := False, lmJobId := j\<rparr>))"
      using current_start [of r s j] assms(1) that by simp
  qed (simp add: set_action_def)
  show ?thesis using late live finally_inv [OF assms(1)] failed_inv [OF assms(1)]
    by (simp add: level_started_def Let_def split: sum.split prod.split)
qed

lemma polled_inv:
  assumes "lm_inv (at_work token s) r False s" "token = lmGeneration s \<Longrightarrow> lmJobId s = job" "token \<le> lmGeneration s"
  shows "lm_inv 0 r False (level_polled token job reply s)"
proof -
  have job: "lmJobId (set_action t s) = lmJobId s" for t by (simp add: set_action_def)
  have sleep: "lm_inv 0 r False (lm_wait (LmSleep token job) (set_action t s))" if "token = lmGeneration s" for t
    using assms that by (intro wait_inv) (simp_all add: job)
  have applying: "lm_inv 0 r False (lm_wait (LmApply token) (set_action t s))" if "token = lmGeneration s" for t
    using assms that by (intro wait_inv) simp_all
  have ends: "lm_inv 0 r False (lm_finally token (set_status m s))" "lm_inv 0 r False (lm_failed token m s)"
    "lm_inv 0 r False (lm_failed token m (set_action t s))" for m t
    using assms(1) finally_inv [of token "set_status m s" r False] failed_inv [OF assms(1)] failed_inv [of token "set_action t s" r False]
    by (cases "token = lmGeneration s"; simp)+
  have over: "lm_inv 0 r False (level_over token j s)" if "token = lmGeneration s" for j
    unfolding level_over_def Let_def using ends applying [OF that] by simp
  show ?thesis
  proof (cases "token = lmGeneration s")
    case True
    show ?thesis unfolding level_polled_def Let_def using True sleep [OF True] over [OF True] ends
      by (simp split: sum.split prod.split del: True)
  next
    case False
    then show ?thesis using ends finally_inv [OF assms(1)] by (simp add: level_polled_def split: sum.split prod.split)
  qed
qed

lemma applied_inv: "lm_inv (at_work token s) r e s \<Longrightarrow> lm_inv 0 r False (level_applied token a s)"
  using finally_inv [of token s r e] finally_inv [of token "set_status m s" r e for m] failed_inv [of token s r e]
  by (cases "token = lmGeneration s") (simp_all add: level_applied_def split: sum.split)

lemma reset_finally_inv:
  assumes "lm_inv k 1 e s"
  shows "lm_inv k 0 e (reset_finally s)"
proof -
  have "waiting_count resets s + 1 = of_bool (lmResetting s)" using assms by (simp add: lm_inv_def)
  then have "waiting_count resets s = 0" by (cases "lmResetting s") simp_all
  then have "lm_inv k 0 e (s\<lparr>lmResetting := False\<rparr>)" using assms by (simp add: lm_inv_def waiting_count_def)
  then show ?thesis by (simp add: reset_finally_def refresh_inv)
qed

lemma reset_answered_inv: "lm_inv k 1 e s \<Longrightarrow> lm_inv k 0 e (reset_answered reply s)" "lm_inv k 1 e s \<Longrightarrow> lm_inv k 0 e (reset_applied a s)"
  by (auto simp: reset_answered_def reset_applied_def intro!: reset_finally_inv wait_inv split: sum.split)

lemma level_cancel_inv:
  assumes "lm_inv 0 r e s"
  shows "lm_inv 0 r e (cancelLevelMatch closing s)"
proof (cases "lmBusy s")
  case True
  let ?s = "s\<lparr>lmGeneration := lmGeneration s + 1, lmBusy := False, lmJobId := []\<rparr>"
  have old: "\<forall>x \<in> set (lmTasks s). \<forall>t. run_token (snd x) = Some t \<longrightarrow> t \<le> lmGeneration s"
    and fits: "\<forall>x \<in> set (lmTasks s). level_stage_fits (lmJobId s) (lmGeneration s) (snd x)" using assms by (simp_all add: lm_inv_def)
  have "waiting_count (of_run (Suc (lmGeneration s))) s = 0"
    using old by (fastforce simp: waiting_count_def filter_empty_conv)
  moreover have "level_stage_fits [] (Suc (lmGeneration s)) (snd x)" if "x \<in> set (lmTasks s)" for x
    using old fits that by (cases "snd x") (auto dest!: bspec)
  moreover have "\<forall>x \<in> set (lmTasks s). \<forall>t. run_token (snd x) = Some t \<longrightarrow> t \<le> Suc (lmGeneration s)" using old by fastforce
  ultimately have "lm_inv 0 r e ?s" using assms by (simp add: lm_inv_def waiting_count_def)
  then show ?thesis using True by (auto simp: cancelLevelMatch_def Let_def intro!: wait_plain)
qed (use assms in \<open>simp add: cancelLevelMatch_def\<close>)

lemma start_inv:
  assumes "lm_inv 0 r False s"
  shows "lm_inv 0 r False (startLevelMatch s)"
proof (cases "selected_area (lmEnv s) = None \<or> lmBusy s \<or> lmStarting s")
  case False
  let ?s = "s\<lparr>lmGeneration := lmGeneration s + 1, lmBusy := True, lmStarting := True\<rparr>"
  have old: "\<forall>x \<in> set (lmTasks s). \<forall>t. run_token (snd x) = Some t \<longrightarrow> t \<le> lmGeneration s"
    and fits: "\<forall>x \<in> set (lmTasks s). level_stage_fits (lmJobId s) (lmGeneration s) (snd x)" using assms by (simp_all add: lm_inv_def)
  have "waiting_count (of_run (Suc (lmGeneration s))) s = 0"
    using old by (fastforce simp: waiting_count_def filter_empty_conv)
  moreover have "level_stage_fits (lmJobId s) (Suc (lmGeneration s)) (snd x)" if "x \<in> set (lmTasks s)" for x
    using old fits that by (cases "snd x") (auto dest!: bspec)
  moreover have "\<forall>x \<in> set (lmTasks s). \<forall>t. run_token (snd x) = Some t \<longrightarrow> t \<le> Suc (lmGeneration s)" using old by fastforce
  ultimately have i: "lm_inv 1 r True ?s" using assms False by (simp add: lm_inv_def waiting_count_def)
  define s1 where "s1 = renderControls (set_status [] ?s)"
  have c: "lm_core s1 = lm_core ?s" by (simp add: s1_def)
  have i1: "lm_inv 1 r True s1" using i level_inv_core [OF c] by simp
  have g: "lmGeneration s1 = Suc (lmGeneration s)" "lmJobId s1 = []" using c assms False by (simp_all add: lm_core_def lm_inv_def)
  have "lm_inv 0 r False (lm_wait (LmStart (Suc (lmGeneration s))) s1)"
    using i1 g by (intro wait_inv) simp_all
  moreover have "lm_inv 0 r False (lm_failed (Suc (lmGeneration s)) m s1)" for m
    using i1 g by (intro failed_inv [where e = True]) simp
  ultimately show ?thesis using False g unfolding startLevelMatch_def Let_def s1_def [symmetric] by auto
qed (use assms in \<open>simp add: startLevelMatch_def\<close>)

subsection \<open>Events\<close>

lemma answered_inv:
  assumes "lm_inv 0 0 False s" "map_of (lmTasks s) i = Some t" "lm_answered t a (lm_done i s) = Some s1"
  shows "lm_inv 0 0 False s1"
proof -
  let ?d = "lm_done i s"
  have d: "lm_inv (of_bool (of_run (lmGeneration s) t)) (of_bool (resets t)) (holds_start t) ?d" using done_inv [OF assms(1,2)] .
  have same: "lmGeneration ?d = lmGeneration s" "lmJobId ?d = lmJobId s" by (simp_all add: lm_done_def)
  note old = done_task [OF assms(1,2)]
  show ?thesis
  proof (cases t)
    case LmCatalog
    then show ?thesis using assms(3) d refresh_inv [of 0 0 False "?d\<lparr>lmOpen := True\<rparr>"] by (cases a) (simp_all add: lm_answered_def)
  next
    case (LmRefresh serial area mode)
    then show ?thesis using assms(3) d read_inv by (cases a) (auto simp: lm_answered_def)
  next
    case (LmStart token)
    then show ?thesis using assms(3) d old(1) started_inv [of token ?d 0] same by (cases a) (auto simp: lm_answered_def)
  next
    case (LmPoll token job)
    then show ?thesis using assms(3) d old polled_inv [of token ?d 0] same by (cases a) (auto simp: lm_answered_def)
  next
    case (LmSleep token job)
    then show ?thesis using assms(3) d old level_poll_inv [of token ?d 0] same by (cases a) (auto simp: lm_answered_def)
  next
    case (LmApply token)
    then show ?thesis using assms(3) d applied_inv [of token ?d 0] same by (cases a) (auto simp: lm_answered_def)
  next
    case (LmLate token job)
    then show ?thesis using assms(3) d finally_inv [of token ?d 0] same by (cases a) (auto simp: lm_answered_def)
  next
    case LmReset
    then show ?thesis using assms(3) d reset_answered_inv by (cases a) (auto simp: lm_answered_def)
  next
    case LmZero
    then show ?thesis using assms(3) d reset_answered_inv by (cases a) (auto simp: lm_answered_def)
  next
    case (LmCancel closing job)
    then show ?thesis using assms(3) d by (cases a) (auto simp: lm_answered_def level_cancel_answered_def split: sum.splits if_splits)
  qed
qed

lemma reset_click_inv: "lm_inv 0 0 False s \<Longrightarrow> lm_inv 0 0 False (resetLevelMatch s)"
proof -
  assume i: "lm_inv 0 0 False s"
  have "lm_inv 0 0 False (lm_wait LmReset (renderControls (set_status [] (s\<lparr>lmResetting := True\<rparr>))))" if "\<not> lmResetting s"
  proof -
    have "lm_inv 0 1 False (s\<lparr>lmResetting := True\<rparr>)" using i that by (simp add: lm_inv_def waiting_count_def)
    then show ?thesis by (intro wait_inv) simp_all
  qed
  then show ?thesis using i by (simp add: resetLevelMatch_def)
qed

lemma lm_step_inv: "lm_inv 0 0 False s \<Longrightarrow> lm_inv 0 0 False (lm_step e s)"
proof (cases e)
  case (LmAnswered i a)
  assume "lm_inv 0 0 False s"
  then show ?thesis using LmAnswered answered_inv by (auto split: option.split)
qed (auto simp: openLevelMatch_def closeLevelMatch_def wait_plain level_cancel_inv start_inv reset_click_inv)

definition level_start :: "level_page \<Rightarrow> bool" where
  "level_start s = (\<exists>env. s = init_level env)"

definition level_rel :: "level_page \<Rightarrow> level_page \<Rightarrow> bool" where
  "level_rel s t = (\<exists>e. t = lm_step e s)"

interpretation level: inductive_invariant level_start level_rel "lm_inv 0 0 False"
proof
  show "lm_inv 0 0 False s" if "level_start s" for s
    using that by (auto simp: level_start_def lm_inv_def init_level_def waiting_count_def)
  show "lm_inv 0 0 False t" if "lm_inv 0 0 False s" "level_rel s t" for s t
    using that by (auto simp: level_rel_def lm_step_inv)
qed

lemma level_reachable: "reachable level_start level_rel (run_events lm_step es (init_level env))"
proof (rule reachable_run_events)
  show "level_rel s (lm_step e s)" for e s by (auto simp: level_rel_def)
  show "reachable level_start level_rel (init_level env)" by (rule reachable_start) (auto simp: level_start_def)
qed

subsection \<open>A flag belongs to a waiting stage\<close>

definition waits :: "level_page \<Rightarrow> lm_task \<Rightarrow> bool" where
  "waits s t = list_ex (\<lambda>x. snd x = t) (lmTasks s)"

text \<open>C17: No flag of the Level Matching panel outlives the work it stands for. In every reachable state the panel is busy
  exactly when one stage of the current run waits (its start, a poll, a sleep or the apply request), and then
  the job it would cancel is the one that stage watches; it is resetting exactly when one stage of a reset
  waits; and while the start button is held back, a start request or the cancellation it led to is still
  to be answered. (The last is no equivalence: the end of a superseded run lifts the hold of a newer
  start, as the lemma superseded_run_lifts_the_hold shows.)\<close>

theorem level_flags_belong_to_work:
  assumes "s = run_events lm_step es (init_level env)"
  shows "waiting_count (of_run (lmGeneration s)) s = of_bool (lmBusy s)
    \<and> waiting_count resets s = of_bool (lmResetting s)
    \<and> (\<forall>t j. t = lmGeneration s \<and> (waits s (LmPoll t j) \<or> waits s (LmSleep t j)) \<longrightarrow> lmJobId s = j)
    \<and> (lmStarting s \<longrightarrow> (\<exists>t. waits s (LmStart t) \<or> (\<exists>j. waits s (LmLate t j))))"
proof (intro conjI allI impI)
  have i: "lm_inv 0 0 False s" unfolding assms by (rule level.always [OF level_reachable])
  then show "waiting_count (of_run (lmGeneration s)) s = of_bool (lmBusy s)" "waiting_count resets s = of_bool (lmResetting s)"
    by (simp_all add: lm_inv_def)
  show "lmJobId s = j" if "t = lmGeneration s \<and> (waits s (LmPoll t j) \<or> waits s (LmSleep t j))" for t j
    using i that by (fastforce simp: lm_inv_def waits_def list_ex_iff)
  show "\<exists>t. waits s (LmStart t) \<or> (\<exists>j. waits s (LmLate t j))" if starting: "lmStarting s"
  proof -
    obtain x where x: "x \<in> set (lmTasks s)" "holds_start (snd x)" using i starting unfolding lm_inv_def by blast
    then show ?thesis by (cases "snd x") (auto simp: waits_def list_ex_iff)
  qed
qed

subsection \<open>A cancelled run applies nothing\<close>

lemma gen_finally [simp]: "lmGeneration (lm_finally t s) = lmGeneration s"
  by (simp add: lm_finally_def refresh_levels_def lm_wait_def Let_def split: option.split)

lemma gen_failed [simp]: "lmGeneration (lm_failed t m s) = lmGeneration s"
  by (simp add: lm_failed_def)

lemma gen_simple [simp]:
  "lmGeneration (lm_wait t s) = lmGeneration s" "lmGeneration (lm_done i s) = lmGeneration s"
  "lmGeneration (refresh_levels s) = lmGeneration s" "lmGeneration (poll_again k j s) = lmGeneration s"
  "lmGeneration (reset_finally s) = lmGeneration s"
  by (simp_all add: lm_wait_def lm_done_def refresh_levels_def poll_again_def reset_finally_def Let_def split: option.split)

lemma gen_answers [simp]:
  "lmGeneration (levels_read serial area mode r s) = lmGeneration s" "lmGeneration (level_started k r s) = lmGeneration s"
  "lmGeneration (level_polled k job r s) = lmGeneration s" "lmGeneration (level_applied k b s) = lmGeneration s"
  "lmGeneration (reset_answered r s) = lmGeneration s" "lmGeneration (reset_applied b s) = lmGeneration s"
  "lmGeneration (level_cancel_answered c r s) = lmGeneration s"
proof -
  show "lmGeneration (levels_read serial area mode r s) = lmGeneration s"
    by (simp add: levels_read_def refresh_failed_def split: sum.split prod.split)
  show "lmGeneration (level_started k r s) = lmGeneration s" by (simp add: level_started_def Let_def split: sum.split prod.split)
  show "lmGeneration (level_polled k job r s) = lmGeneration s"
    by (simp add: level_polled_def level_over_def Let_def split: sum.split prod.split)
  show "lmGeneration (level_applied k b s) = lmGeneration s" by (simp add: level_applied_def split: sum.split)
  show "lmGeneration (reset_answered r s) = lmGeneration s" by (simp add: reset_answered_def split: sum.split prod.split)
  show "lmGeneration (reset_applied b s) = lmGeneration s" by (simp add: reset_applied_def)
  show "lmGeneration (level_cancel_answered c r s) = lmGeneration s"
    by (simp add: level_cancel_answered_def split: sum.split prod.split)
qed

lemma gen_answered: "lm_answered t a s = Some s1 \<Longrightarrow> lmGeneration s1 = lmGeneration s"
  by (cases t; cases a) (auto simp: lm_answered_def)

lemma level_gen_step: "lmGeneration s \<le> lmGeneration (lm_step e s)"
proof (cases e)
  case (LmAnswered i a)
  then show ?thesis using gen_answered [of _ a "lm_done i s"] by (auto split: option.split)
qed (simp_all add: openLevelMatch_def closeLevelMatch_def cancelLevelMatch_def startLevelMatch_def resetLevelMatch_def Let_def)

interpretation level_runs: token_guard lmGeneration lm_step
  by unfold_locales (rule level_gen_step)

lemma waits_wait: "waits (lm_wait u s) t \<longleftrightarrow> u = t \<or> waits s t"
  by (simp add: waits_def lm_wait_def)

lemma waits_core: "lm_core s' = lm_core s \<Longrightarrow> waits s' t = waits s t"
  by (simp add: waits_def lm_core_def)

lemma waits_texts [simp]:
  "waits (set_action m s) t = waits s t" "waits (set_status m s) t = waits s t" "waits (renderResults v s) t = waits s t"
  "waits (renderControls s) t = waits s t" "waits (panel_closes c s) t = waits s t"
  by (rule waits_core, simp)+

lemma waits_fields [simp]:
  "waits (s\<lparr>lmLastStatus := v\<rparr>) t = waits s t" "waits (s\<lparr>lmRefreshSerial := n\<rparr>) t = waits s t"
  "waits (s\<lparr>lmOpen := b\<rparr>) t = waits s t" "waits (s\<lparr>lmEnv := w\<rparr>) t = waits s t" "waits (s\<lparr>lmStarting := b\<rparr>) t = waits s t"
  "waits (s\<lparr>lmBusy := b\<rparr>) t = waits s t" "waits (s\<lparr>lmJobId := j\<rparr>) t = waits s t" "waits (s\<lparr>lmResetting := b\<rparr>) t = waits s t"
  "waits (s\<lparr>lmGeneration := g\<rparr>) t = waits s t"
  by (simp_all add: waits_def)

lemma apply_refresh [simp]: "waits (refresh_levels s) (LmApply t) = waits s (LmApply t)"
  by (simp add: refresh_levels_def Let_def waits_wait split: option.split)

lemma apply_finally [simp]: "waits (lm_finally k s) (LmApply t) = waits s (LmApply t)" "waits (lm_failed k m s) (LmApply t) = waits s (LmApply t)"
proof -
  show e: "waits (lm_finally k s) (LmApply t) = waits s (LmApply t)" for s by (simp add: lm_finally_def Let_def)
  show "waits (lm_failed k m s) (LmApply t) = waits s (LmApply t)" by (simp add: lm_failed_def e)
qed

lemma apply_done: "waits (lm_done i s) t \<Longrightarrow> waits s t"
proof -
  assume "waits (lm_done i s) t"
  then obtain a where "(a, t) \<in> set (lmTasks s)" by (auto simp: waits_def lm_done_def list_ex_iff)
  then show ?thesis unfolding waits_def list_ex_iff by (intro bexI [of _ "(a, t)"]) simp_all
qed

lemma apply_frames [simp]:
  "waits (levels_read serial area mode r s) (LmApply t) = waits s (LmApply t)"
  "waits (poll_again k job s) (LmApply t) = waits s (LmApply t)"
  "waits (level_started k r s) (LmApply t) = waits s (LmApply t)"
  "waits (level_applied k b s) (LmApply t) = waits s (LmApply t)"
  "waits (reset_finally s) (LmApply t) = waits s (LmApply t)"
  "waits (reset_answered r s) (LmApply t) = waits s (LmApply t)"
  "waits (reset_applied b s) (LmApply t) = waits s (LmApply t)"
  "waits (level_cancel_answered c r s) (LmApply t) = waits s (LmApply t)"
proof -
  show poll: "waits (poll_again k job s) (LmApply t) = waits s (LmApply t)" for k job s by (simp add: poll_again_def waits_wait)
  show fin: "waits (reset_finally s) (LmApply t) = waits s (LmApply t)" for s by (simp add: reset_finally_def)
  show "waits (levels_read serial area mode r s) (LmApply t) = waits s (LmApply t)"
    by (simp add: levels_read_def refresh_failed_def split: sum.split prod.split)
  show "waits (level_started k r s) (LmApply t) = waits s (LmApply t)"
    by (simp add: level_started_def Let_def waits_wait poll split: sum.split prod.split)
  show "waits (level_applied k b s) (LmApply t) = waits s (LmApply t)" by (simp add: level_applied_def split: sum.split)
  show "waits (reset_answered r s) (LmApply t) = waits s (LmApply t)"
    by (simp add: reset_answered_def waits_wait fin split: sum.split prod.split)
  show "waits (reset_applied b s) (LmApply t) = waits s (LmApply t)" by (simp add: reset_applied_def fin)
  show "waits (level_cancel_answered c r s) (LmApply t) = waits s (LmApply t)"
    by (simp add: level_cancel_answered_def split: sum.split prod.split)
qed

lemma apply_polled: "waits (level_polled k job r s) (LmApply t) \<Longrightarrow> t \<noteq> lmGeneration s \<Longrightarrow> waits s (LmApply t)"
  by (simp add: level_polled_def level_over_def Let_def waits_wait split: sum.splits prod.splits if_splits)

lemma apply_only_current:
  assumes "waits (lm_step e s) (LmApply t)" "t \<noteq> lmGeneration s"
  shows "waits s (LmApply t)"
proof (cases e)
  case (LmAnswered i a)
  have "waits (lm_done i s) (LmApply t)" if a: "lm_answered u a (lm_done i s) = Some s1" and w: "waits s1 (LmApply t)" for u s1
  proof (cases u)
    case (LmPoll k job)
    then show ?thesis using a w assms(2) apply_polled by (cases a) (auto simp: lm_answered_def)
  qed (use a w in \<open>cases a; auto simp: lm_answered_def\<close>)+
  note here = this
  show ?thesis
  proof (cases "\<exists>u s1. map_of (lmTasks s) i = Some u \<and> lm_answered u a (lm_done i s) = Some s1")
    case True
    then obtain u s1 where u: "map_of (lmTasks s) i = Some u" "lm_answered u a (lm_done i s) = Some s1" by blast
    then have "waits s1 (LmApply t)" using assms(1) LmAnswered by simp
    then show ?thesis using here u(2) apply_done by blast
  next
    case False
    then show ?thesis using assms(1) LmAnswered by (auto split: option.splits)
  qed
qed (use assms in \<open>auto simp: openLevelMatch_def closeLevelMatch_def cancelLevelMatch_def startLevelMatch_def resetLevelMatch_def
    Let_def waits_wait split: if_splits\<close>)

lemma never_applied:
  assumes "\<not> waits s (LmApply t)" "t < lmGeneration s"
  shows "\<not> waits (run_events lm_step es s) (LmApply t)"
  using assms
proof (induction es arbitrary: s)
  case (Cons e es)
  then have "\<not> waits (lm_step e s) (LmApply t)" using apply_only_current [of e s t] by auto
  then show ?case using Cons.IH [of "lm_step e s"] Cons.prems(2) level_gen_step [of s e] by simp
qed simp

text \<open>C16: A cancelled Level Matching run applies nothing and leaves no job behind. Cancel a busy panel before its run has begun
  to apply, and let anything happen afterwards: no apply request of that run is ever sent. When the job was
  known, its cancellation is requested at once; when the start request is still unanswered, the answer that
  brings the job also sends its cancellation.\<close>

theorem cancelled_level_match_applies_nothing:
  assumes "s = run_events lm_step es (init_level env)" "lmBusy s" "\<not> waits s (LmApply (lmGeneration s))"
    "t = cancelLevelMatch closing s" "u = run_events lm_step fs t"
  shows "\<not> waits u (LmApply (lmGeneration s))
    \<and> (lmJobId s \<noteq> [] \<longrightarrow> waits t (LmCancel closing (lmJobId s)))
    \<and> (\<forall>i data. map_of (lmTasks u) i = Some (LmStart (lmGeneration s)) \<and> str_or_empty (jpath data [''job'', ''id'']) \<noteq> [] \<longrightarrow>
         waits (lm_step (LmAnswered i (Reply (Inr (True, data)))) u) (LmLate (lmGeneration s) (str_or_empty (jpath data [''job'', ''id'']))))"
proof (intro conjI allI impI)
  have g: "lmGeneration s < lmGeneration t" using assms(2,4) by (simp add: cancelLevelMatch_def Let_def)
  have "\<not> waits t (LmApply (lmGeneration s))" using assms(2,3,4) by (simp add: cancelLevelMatch_def Let_def waits_wait)
  then show "\<not> waits u (LmApply (lmGeneration s))" unfolding assms(5) by (rule never_applied [OF _ g])
  show "waits t (LmCancel closing (lmJobId s))" if "lmJobId s \<noteq> []"
    using assms(2,4) that by (simp add: cancelLevelMatch_def Let_def waits_wait)
  fix i data
  assume a: "map_of (lmTasks u) i = Some (LmStart (lmGeneration s)) \<and> str_or_empty (jpath data [''job'', ''id'']) \<noteq> []"
  have "lmGeneration s \<noteq> lmGeneration u" using level_runs.stale_for_ever [OF g, of fs] assms(5) by simp
  moreover have "\<not> nullish data" using a by (auto simp: nullish_def jpath_def jget_primitive)
  ultimately show "waits (lm_step (LmAnswered i (Reply (Inr (True, data)))) u)
      (LmLate (lmGeneration s) (str_or_empty (jpath data [''job'', ''id''])))"
    using a by (simp add: lm_answered_def level_started_def Let_def waits_wait)
qed

text \<open>A run that is cancelled while its start request is in flight, and one that is cancelled while it measures.\<close>

definition level_env :: lm_env where
  "level_env = \<lparr>envArea = Some \<lparr>areaBank = ''front'', areaGroup = None, areaAvailable = True\<rparr>, envMode = JStr ''stereo'',
     envOther = False, envInput = True\<rparr>"

definition empty_reply :: lm_answer where
  "empty_reply = Reply (Inr (True, JObj []))"

definition job_reply :: lm_answer where
  "job_reply = Reply (Inr (True, JObj [(''job'', JObj [(''id'', JStr ''lm1''), (''status'', JStr ''running'')])]))"

definition level_opened :: "lm_event list" where
  "level_opened = [LmOpened, LmAnswered 0 Elapsed, LmAnswered 1 empty_reply, LmStartClicked]"

theorem level_flags_belong_to_work_witness:
  "lmBusy (run_events lm_step (level_opened @ [LmAnswered 2 job_reply]) (init_level level_env))
   \<and> lmJobId (run_events lm_step (level_opened @ [LmAnswered 2 job_reply]) (init_level level_env)) = ''lm1''
   \<and> waiting_count (of_run 1) (run_events lm_step (level_opened @ [LmAnswered 2 job_reply]) (init_level level_env)) = 1"
proof -
  let ?s = "run_events lm_step (level_opened @ [LmAnswered 2 job_reply]) (init_level level_env)"
  have f: "lmBusy ?s" "lmGeneration ?s = 1" "waits ?s (LmPoll 1 ''lm1'')" by code_simp+
  with level_flags_belong_to_work [OF refl, of "level_opened @ [LmAnswered 2 job_reply]" level_env] show ?thesis by simp
qed

theorem cancelled_level_match_applies_nothing_witness:
  "waits (lm_step (LmAnswered 2 job_reply) (lm_step LmStartClicked (run_events lm_step level_opened (init_level level_env))))
     (LmLate 1 ''lm1'')"
proof -
  let ?s = "run_events lm_step level_opened (init_level level_env)"
  have b: "lmBusy ?s" "\<not> waits ?s (LmApply (lmGeneration ?s))" and g: "lmGeneration ?s = 1"
    and c: "lm_step LmStartClicked ?s = cancelLevelMatch False ?s"
    and i: "map_of (lmTasks (cancelLevelMatch False ?s)) 2 = Some (LmStart 1)"
    by code_simp+
  define data where "data = JObj [(''job'', JObj [(''id'', JStr ''lm1''), (''status'', JStr ''running'')])]"
  have d: "str_or_empty (jpath data [''job'', ''id'']) = ''lm1''" unfolding data_def by code_simp
  have j: "job_reply = Reply (Inr (True, data))" by (simp add: job_reply_def data_def)
  note late = cancelled_level_match_applies_nothing [OF refl b refl refl, where closing = False and fs = "[]", THEN conjunct2, THEN conjunct2,
    rule_format, of 2 data]
  show ?thesis using late i d unfolding c j g by simp
qed

text \<open>
  A run waits for its poll, is cancelled and followed by a new start; the late answer to the poll ends
  the old run, whose end lifts the hold while the start of the new run is still to be answered.
\<close>

lemma superseded_run_lifts_the_hold:
  defines "s \<equiv> run_events lm_step (level_opened @ [LmAnswered 2 job_reply, LmStartClicked, LmStartClicked, LmAnswered 3 job_reply])
     (init_level level_env)"
  shows "waits s (LmStart (lmGeneration s)) \<and> lmBusy s \<and> \<not> lmStarting s"
  unfolding s_def by code_simp

end
