(* ===== verification/Polarity_Check.thy ===== *)
theory Polarity_Check
  imports Level_Match
begin

section \<open>Polarity Check\<close>

text \<open>
  static/measurement_polarity_check.js: the panel measures the speakers of a bank and shows a verdict per
  speaker and one line about the wiring. A check is a start request and the polls of its job; a cancellation
  is only a request, the check ends when a poll says so. Requests, answers and the measurement setup
  are those of \<open>Level_Match\<close>; \<open>roleLabel\<close>, which belongs to the output helpers, is a parameter.
\<close>

subsection \<open>Verdicts\<close>

definition REASON_TEXT :: "string \<Rightarrow> string option" where
  "REASON_TEXT = map_of [(''no_arrival'', ''No sweep heard''), (''no_signal'', ''No sweep heard''), (''weak_signal'', ''Too quiet''),
     (''unclear_phase'', ''No clear peak''), (''dsp_filter_in_band'', ''Filter in band''), (''dsp_unknown'', ''DSP not checkable'')]"

definition VERDICT_TEXT :: "string \<Rightarrow> string option" where
  "VERDICT_TEXT = map_of [(''correct'', ''Correct''), (''reversed'', ''Reversed''), (''inconclusive'', ''Inconclusive'')]"

definition unheard :: string where
  "unheard = ''The sweep did not reach the microphone. Check the amplifier, the speaker and the microphone, then repeat.''"

definition REASON_HINT :: "string \<Rightarrow> string option" where
  "REASON_HINT = map_of [(''no_arrival'', unheard), (''no_signal'', unheard),
     (''weak_signal'', ''The sweep was too quiet to judge. Raise the volume and repeat.''),
     (''unclear_phase'', ''The direct sound has no clear polarity, as when a crossover or panel rotates its phase.'')]"

text \<open>A table read by a property name: the key as a string.\<close>

definition table_at :: "(string \<Rightarrow> string option) \<Rightarrow> jsval \<Rightarrow> string option" where
  "table_at t k = t (to_str k)"

definition rowLabel :: "(jsval \<Rightarrow> jsval \<Rightarrow> string) \<Rightarrow> jsval \<Rightarrow> jsval \<Rightarrow> string" where
  "rowLabel roleLabel row mode = (case arr_items (jget row ''roles'') of
     [role] \<Rightarrow> roleLabel role mode
   | _ \<Rightarrow> capitalize (str_or_empty (jget row ''label'')) @ '' (all ways)'')"

definition reasonHint :: "jsval \<Rightarrow> string option" where
  "reasonHint row =
     (let stage = trim (str_or_empty (jpath row [''guard'', ''stage'']));
          named = (stage \<noteq> [] \<and> \<not> starts_with ''DSP path'' stage);
          reason = jget row ''reason''
      in if js_seq reason (JStr ''dsp_filter_in_band'')
         then Some ((if named then ''The '' @ stage else ''A filter'')
           @ '' rotates the phase of the measured range, so the wiring cannot be read from the polarity. Switch it off, or select Direct for Global, to check the wiring.'')
         else if js_seq reason (JStr ''dsp_unknown'')
         then (if stage = ''DSP path changed''
               then Some ''The DSP settings changed during the check, so the polarity cannot be judged. Repeat the check.''
               else if \<not> named
               then Some ''The DSP path of this speaker could not be checked for phase effects. Select Direct for Global and repeat the check.''
               else Some (''The '' @ stage
                 @ '' may rotate the phase of the measured range, so the polarity cannot be judged. Switch it off, or select Direct for Global, to check the wiring.''))
         else table_at REASON_HINT reason)"

definition verdict_is :: "string \<Rightarrow> jsval \<Rightarrow> bool" where
  "verdict_is v row = js_seq (jget row ''verdict'') (JStr v)"

definition or_text :: "string option \<Rightarrow> string \<Rightarrow> string" where
  "or_text v d = (case v of Some t \<Rightarrow> if t \<noteq> [] then t else d | None \<Rightarrow> d)"

definition verdictText :: "jsval \<Rightarrow> string" where
  "verdictText row =
     (if verdict_is ''inconclusive'' row then or_text (table_at REASON_TEXT (jget row ''reason'')) ''Inconclusive''
      else or_text (table_at VERDICT_TEXT (jget row ''verdict'')) ''Inconclusive'')"

definition all_reversed_text :: string where
  "all_reversed_text = ''All checked speakers read reversed. An inverted microphone or input does that too: check a speaker you know is correct, such as the Front pair, to tell.''"

definition reversed_hint :: string where
  "reversed_hint = ''A reversed speaker plays its first pulse inverted. Swap its + and '' @ [CHR 0xE2, CHR 0x88, CHR 0x92]
     @ '' wires or invert its output polarity, then check again.''"

definition all_correct_text :: string where
  "all_correct_text = ''All checked speakers have correct polarity.''"

definition add_hint :: "jsval \<Rightarrow> string list \<Rightarrow> string list" where
  "add_hint row hints = (case reasonHint row of
     Some hint \<Rightarrow> if hint \<noteq> [] \<and> hint \<notin> set hints then hints @ [hint] else hints | None \<Rightarrow> hints)"

definition summarize :: "jsval \<Rightarrow> string" where
  "summarize result =
     (let rows = arr_items (jget result ''rows'') in
      if truthy (jget result ''all_reversed'') then all_reversed_text
      else let hints = fold add_hint (filter (verdict_is ''inconclusive'') rows) [];
               hints = (if list_ex (verdict_is ''reversed'') rows then reversed_hint # hints else hints)
           in if hints = [] then all_correct_text else join_with '' '' hints)"

subsection \<open>State\<close>

datatype pc_task = PcCatalog | PcRefresh lm_area | PcStart nat lm_area | PcPoll nat string lm_area | PcSleep nat string lm_area | PcCancel bool

record polarity_page =
  pcEnv :: lm_env
  pcSupported :: jsval
  pcBusy :: bool
  pcJobId :: string
  pcGeneration :: nat
  pcLastStatus :: jsval
  pcOpen :: bool
  pcAction :: string
  pcStatus :: string
  pcRows :: "(string \<times> bool \<times> string) list"
  pcStartText :: string
  pcStartDisabled :: bool
  pcTasks :: "(nat \<times> pc_task) list"
  pcNext :: nat

definition init_polarity :: "lm_env \<Rightarrow> jsval \<Rightarrow> polarity_page" where
  "init_polarity env spd = \<lparr>pcEnv = env, pcSupported = spd, pcBusy = False, pcJobId = [], pcGeneration = 0, pcLastStatus = JNull, pcOpen = False,
     pcAction = [], pcStatus = [], pcRows = [], pcStartText = ''Check polarity'', pcStartDisabled = False, pcTasks = [], pcNext = 0\<rparr>"

definition pc_wait :: "pc_task \<Rightarrow> polarity_page \<Rightarrow> polarity_page" where
  "pc_wait t s = s\<lparr>pcTasks := (pcNext s, t) # pcTasks s, pcNext := pcNext s + 1\<rparr>"

definition pc_done :: "nat \<Rightarrow> polarity_page \<Rightarrow> polarity_page" where
  "pc_done i s = s\<lparr>pcTasks := filter (\<lambda>x. fst x \<noteq> i) (pcTasks s)\<rparr>"

definition pc_action :: "string \<Rightarrow> polarity_page \<Rightarrow> polarity_page" where
  "pc_action t s = s\<lparr>pcAction := t\<rparr>"

definition pc_status :: "string \<Rightarrow> polarity_page \<Rightarrow> polarity_page" where
  "pc_status t s = s\<lparr>pcStatus := t\<rparr>"

text \<open>\<open>polarity_supported\<close>, where the area does not say, follows from its bank.\<close>

definition supported_area :: "polarity_page \<Rightarrow> lm_area option" where
  "supported_area s = (case envArea (pcEnv s) of None \<Rightarrow> None
     | Some a \<Rightarrow>
         (let named = (areaBank a \<notin> {''global'', ''all''} \<and> \<not> starts_with ''sub'' (areaBank a));
              supported = (if nullish (pcSupported s) then named else truthy (pcSupported s))
          in if areaAvailable a \<and> supported then Some a else None))"

subsection \<open>Rendering\<close>

definition polarity_row :: "(jsval \<Rightarrow> jsval \<Rightarrow> string) \<Rightarrow> jsval \<Rightarrow> jsval \<Rightarrow> string \<times> bool \<times> string" where
  "polarity_row roleLabel mode row = (rowLabel roleLabel row mode, truthy (jget row ''inverted''), verdictText row)"

definition polarity_results :: "(jsval \<Rightarrow> jsval \<Rightarrow> string) \<Rightarrow> jsval \<Rightarrow> lm_area option \<Rightarrow> polarity_page \<Rightarrow> polarity_page" where
  "polarity_results roleLabel job area s =
     (let shown = (truthy job \<and> js_seq (jget job ''status'') (JStr ''completed'')
            \<and> (case area of None \<Rightarrow> jget job ''bank_id'' = JUndef | Some a \<Rightarrow> js_seq (jget job ''bank_id'') (JStr (areaBank a))));
          result = (if shown then jget job ''result'' else JNull)
      in s\<lparr>pcRows := List.map (polarity_row roleLabel (jget result ''mode'')) (arr_items (jget result ''rows''))\<rparr>)"

definition pc_controls :: "polarity_page \<Rightarrow> polarity_page" where
  "pc_controls s =
     (let measuring = pcBusy s; blocked = (\<not> measuring \<and> envOther (pcEnv s)); none = (supported_area s = None);
          s1 = s\<lparr>pcStartText := (if measuring then ''Cancel'' else ''Check polarity''),
                 pcStartDisabled := (\<not> measuring \<and> (none \<or> blocked))\<rparr>
      in if measuring then s1
         else pc_action
           (if none then ''Select a speaker bank to check polarity.''
            else if blocked then ''Another measurement is running.''
            else units_line (pcLastStatus s)) s1)"

subsection \<open>Operations\<close>

definition pc_refresh :: "polarity_page \<Rightarrow> polarity_page" where
  "pc_refresh s0 =
     (let s = pc_controls s0 in
      case supported_area s0 of
        None \<Rightarrow> pc_controls ((s\<lparr>pcLastStatus := JNull, pcRows := []\<rparr>))
      | Some area \<Rightarrow> pc_wait (PcRefresh area) s)"

definition pc_read :: "(jsval \<Rightarrow> jsval \<Rightarrow> string) \<Rightarrow> lm_area \<Rightarrow> string + bool \<times> jsval \<Rightarrow> polarity_page \<Rightarrow> polarity_page" where
  "pc_read roleLabel area reply s =
     (let failed = (\<lambda>m s. pc_controls (pc_status m (s\<lparr>pcLastStatus := JNull, pcRows := []\<rparr>))) in
      case reply of
        Inl m \<Rightarrow> failed m s
      | Inr (good, data) \<Rightarrow>
          if \<not> good then failed (detail_or data ''Polarity Check is unavailable'') s
          else if nullish data then failed (null_read_error data ''job'') s
          else pc_controls (polarity_results roleLabel (jget data ''job'') (Some area) (s\<lparr>pcLastStatus := data\<rparr>)))"

definition pc_finally :: "nat \<Rightarrow> polarity_page \<Rightarrow> polarity_page" where
  "pc_finally token s = (if token = pcGeneration s then pc_controls (s\<lparr>pcBusy := False, pcJobId := []\<rparr>) else s)"

definition pc_failed :: "nat \<Rightarrow> string \<Rightarrow> polarity_page \<Rightarrow> polarity_page" where
  "pc_failed token m s = pc_finally token (pc_status m s)"

definition startPolarityCheck :: "polarity_page \<Rightarrow> polarity_page" where
  "startPolarityCheck s =
     (case supported_area s of None \<Rightarrow> s
      | Some area \<Rightarrow>
          if pcBusy s then s
          else let s1 = pc_controls ((pc_status [] (s\<lparr>pcGeneration := pcGeneration s + 1, pcBusy := True\<rparr>))\<lparr>pcRows := []\<rparr>)
          in if envInput (pcEnv s) then pc_wait (PcStart (pcGeneration s1) area) s1
             else pc_failed (pcGeneration s1) ''Select a measurement input first'' s1)"

definition pc_poll :: "nat \<Rightarrow> string \<Rightarrow> lm_area \<Rightarrow> polarity_page \<Rightarrow> polarity_page" where
  "pc_poll token job area s = (if token = pcGeneration s then pc_wait (PcPoll token job area) s else pc_finally token s)"

definition pc_started :: "nat \<Rightarrow> lm_area \<Rightarrow> string + bool \<times> jsval \<Rightarrow> polarity_page \<Rightarrow> polarity_page" where
  "pc_started token area reply s =
     (case reply of
        Inl m \<Rightarrow> pc_failed token m s
      | Inr (good, data) \<Rightarrow>
          if \<not> good then pc_failed token (detail_or data ''Failed to start Polarity Check'') s
          else if nullish data then pc_failed token (null_read_error data ''job'') s
          else let job = str_or_empty (jpath data [''job'', ''id'']) in
            pc_poll token job area (pc_action (progressText (jget data ''job'')) (s\<lparr>pcJobId := job\<rparr>)))"

definition pc_over :: "(jsval \<Rightarrow> jsval \<Rightarrow> string) \<Rightarrow> nat \<Rightarrow> lm_area \<Rightarrow> jsval \<Rightarrow> polarity_page \<Rightarrow> polarity_page" where
  "pc_over roleLabel token area job s =
     (if js_seq (jget job ''status'') (JStr ''cancelled'') then pc_finally token (pc_status ''Polarity Check cancelled.'' s)
      else if \<not> js_seq (jget job ''status'') (JStr ''completed'')
      then pc_failed token (to_str (js_or (jget job ''error'') (JStr ''Polarity Check failed''))) s
      else pc_finally token (pc_status (summarize (jget job ''result'')) (polarity_results roleLabel job (Some area) s)))"

definition pc_polled :: "(jsval \<Rightarrow> jsval \<Rightarrow> string) \<Rightarrow> nat \<Rightarrow> string \<Rightarrow> lm_area \<Rightarrow> string + bool \<times> jsval \<Rightarrow> polarity_page \<Rightarrow> polarity_page" where
  "pc_polled roleLabel token job area reply s =
     (case reply of
        Inl m \<Rightarrow> pc_failed token m s
      | Inr (good, data) \<Rightarrow>
          if \<not> good then pc_failed token (detail_or data ''Polarity Check job lost'') s
          else if nullish data then pc_failed token (null_read_error data ''job'') s
          else let j = js_or (jget data ''job'') (JObj []) in
            if \<not> js_seq (jget j ''status'') (JStr ''running'') then pc_over roleLabel token area j s
            else pc_wait (PcSleep token job area) (pc_action (progressText j) s))"

definition pc_closes :: "bool \<Rightarrow> polarity_page \<Rightarrow> polarity_page" where
  "pc_closes closing s = (if closing then s\<lparr>pcOpen := False\<rparr> else s)"

definition cancelPolarityCheck :: "bool \<Rightarrow> polarity_page \<Rightarrow> polarity_page" where
  "cancelPolarityCheck closing s =
     (if \<not> pcBusy s \<or> pcJobId s = [] then pc_closes closing s
      else pc_wait (PcCancel closing) (pc_action (''Cancelling'' @ ellipsis) s))"

definition pc_cancel_answered :: "bool \<Rightarrow> string + bool \<times> jsval \<Rightarrow> polarity_page \<Rightarrow> polarity_page" where
  "pc_cancel_answered closing reply s = pc_closes closing (case reply of Inl m \<Rightarrow> pc_status m s | Inr _ \<Rightarrow> s)"

definition openPolarityCheck :: "polarity_page \<Rightarrow> polarity_page" where
  "openPolarityCheck s = pc_wait PcCatalog (pc_status [] s)"

definition closePolarityCheck :: "polarity_page \<Rightarrow> polarity_page" where
  "closePolarityCheck s = cancelPolarityCheck True s"

subsection \<open>Events\<close>

datatype pc_event = PcOpened | PcClosed | PcStartClicked | PcAnswered nat lm_answer | PcEnvironment lm_env jsval

definition pc_answered :: "(jsval \<Rightarrow> jsval \<Rightarrow> string) \<Rightarrow> pc_task \<Rightarrow> lm_answer \<Rightarrow> polarity_page \<Rightarrow> polarity_page option" where
  "pc_answered roleLabel t a s =
     (case (t, a) of
        (PcCatalog, Elapsed) \<Rightarrow> Some (pc_refresh (s\<lparr>pcOpen := True\<rparr>))
      | (PcRefresh area, Reply r) \<Rightarrow> Some (pc_read roleLabel area r s)
      | (PcStart token area, Reply r) \<Rightarrow> Some (pc_started token area r s)
      | (PcPoll token job area, Reply r) \<Rightarrow> Some (pc_polled roleLabel token job area r s)
      | (PcSleep token job area, Elapsed) \<Rightarrow> Some (pc_poll token job area s)
      | (PcCancel closing, Reply r) \<Rightarrow> Some (pc_cancel_answered closing r s)
      | _ \<Rightarrow> None)"

fun pc_step :: "(jsval \<Rightarrow> jsval \<Rightarrow> string) \<Rightarrow> pc_event \<Rightarrow> polarity_page \<Rightarrow> polarity_page" where
  "pc_step rl PcOpened s = openPolarityCheck s"
| "pc_step rl PcClosed s = (if pcOpen s then closePolarityCheck s else s)"
| "pc_step rl PcStartClicked s =
     (if pcOpen s \<and> \<not> pcStartDisabled s then (if pcBusy s then cancelPolarityCheck False s else startPolarityCheck s) else s)"
| "pc_step rl (PcAnswered i a) s =
     (case map_of (pcTasks s) i of None \<Rightarrow> s
      | Some t \<Rightarrow> (case pc_answered rl t a (pc_done i s) of None \<Rightarrow> s | Some s1 \<Rightarrow> s1))"
| "pc_step rl (PcEnvironment env spd) s = s\<lparr>pcEnv := env, pcSupported := spd\<rparr>"

subsection \<open>The summary says what was found\<close>

definition known_reason :: "jsval \<Rightarrow> bool" where
  "known_reason row = (jget row ''reason'' \<in> JStr ` {''no_arrival'', ''no_signal'', ''weak_signal'', ''unclear_phase'',
     ''dsp_filter_in_band'', ''dsp_unknown''})"

lemma known_hint: "known_reason row \<Longrightarrow> \<exists>h. reasonHint row = Some h \<and> h \<noteq> []"
  by (auto simp: known_reason_def reasonHint_def table_at_def REASON_HINT_def unheard_def js_seq_def Let_def)

lemma hints_kept: "\<exists>more. fold add_hint rows hints = hints @ more"
proof (induction rows arbitrary: hints)
  case (Cons row rows)
  have "\<exists>more. add_hint row hints = hints @ more" by (auto simp: add_hint_def split: option.split)
  then show ?case using Cons.IH [of "add_hint row hints"] by auto
qed simp

lemma hint_taken: "reasonHint row = Some h \<Longrightarrow> h \<noteq> [] \<Longrightarrow> h \<in> set (add_hint row hints)"
  by (simp add: add_hint_def)

lemma hints_complete: "row \<in> set rows \<Longrightarrow> reasonHint row = Some h \<Longrightarrow> h \<noteq> [] \<Longrightarrow> h \<in> set (fold add_hint rows hints)"
proof (induction rows arbitrary: hints)
  case (Cons r rows)
  then show ?case using hint_taken [of row h hints] hints_kept [of rows "add_hint row hints"] by fastforce
qed simp

lemma hints_from_rows:
  "h \<in> set (fold add_hint rows hints) \<Longrightarrow> h \<in> set hints \<or> (\<exists>row \<in> set rows. reasonHint row = Some h \<and> h \<noteq> [])"
proof (induction rows arbitrary: hints)
  case (Cons row rows)
  have "h \<in> set (add_hint row hints) \<Longrightarrow> h \<in> set hints \<or> (reasonHint row = Some h \<and> h \<noteq> [])"
    by (auto simp: add_hint_def split: option.splits if_splits)
  then show ?case using Cons.IH [of "add_hint row hints"] Cons.prems by auto
qed simp

lemma hints_distinct: "distinct hints \<Longrightarrow> distinct (fold add_hint rows hints)"
  by (induction rows arbitrary: hints) (auto simp: add_hint_def split: option.split)

lemma hint_head: "reasonHint row = Some h \<Longrightarrow> \<exists>r. h = CHR 0x54 # r \<or> h = CHR 0x41 # CHR 0x20 # r"
  by (auto simp: reasonHint_def table_at_def REASON_HINT_def unheard_def Let_def split: if_splits)

definition hint_lines :: "jsval \<Rightarrow> string list" where
  "hint_lines result = (let rows = arr_items (jget result ''rows'') in
     (if list_ex (verdict_is ''reversed'') rows then [reversed_hint] else []) @ fold add_hint (filter (verdict_is ''inconclusive'') rows) [])"

text \<open>C18: The line under a polarity check says what was found. It reports correct polarity only when no checked
  speaker was reversed and none was left undecided, given that every undecided speaker has one of the six
  reasons the panel knows. Otherwise, unless all speakers read reversed, it lists every reason once: the
  advice for reversed speakers first, then exactly the hints of the undecided ones.\<close>

theorem polarity_summary_is_honest:
  assumes "\<forall>row \<in> set (arr_items (jget result ''rows'')). verdict_is ''inconclusive'' row \<longrightarrow> known_reason row"
    and "\<not> truthy (jget result ''all_reversed'')"
  shows "(summarize result = all_correct_text \<longleftrightarrow>
      \<not> list_ex (\<lambda>row. verdict_is ''reversed'' row \<or> verdict_is ''inconclusive'' row) (arr_items (jget result ''rows'')))
    \<and> (hint_lines result \<noteq> [] \<longrightarrow> summarize result = join_with '' '' (hint_lines result))
    \<and> set (fold add_hint (filter (verdict_is ''inconclusive'') (arr_items (jget result ''rows''))) [])
        = {h. \<exists>row \<in> set (arr_items (jget result ''rows'')). verdict_is ''inconclusive'' row \<and> reasonHint row = Some h}
    \<and> distinct (fold add_hint (filter (verdict_is ''inconclusive'') (arr_items (jget result ''rows''))) [])"
proof -
  let ?rows = "arr_items (jget result ''rows'')"
  let ?hints = "fold add_hint (filter (verdict_is ''inconclusive'') ?rows) []"
  have hinted: "\<exists>h. reasonHint row = Some h \<and> h \<noteq> []" if "row \<in> set ?rows" "verdict_is ''inconclusive'' row" for row
    using known_hint assms(1) that by blast
  have all: "set ?hints = {h. \<exists>row \<in> set ?rows. verdict_is ''inconclusive'' row \<and> reasonHint row = Some h}"
  proof (rule set_eqI)
    fix h
    show "h \<in> set ?hints \<longleftrightarrow> h \<in> {h. \<exists>row \<in> set ?rows. verdict_is ''inconclusive'' row \<and> reasonHint row = Some h}"
    proof
      assume "h \<in> set ?hints"
      from hints_from_rows [OF this] show "h \<in> {h. \<exists>row \<in> set ?rows. verdict_is ''inconclusive'' row \<and> reasonHint row = Some h}"
        by auto
    next
      assume "h \<in> {h. \<exists>row \<in> set ?rows. verdict_is ''inconclusive'' row \<and> reasonHint row = Some h}"
      then obtain row where row: "row \<in> set ?rows" "verdict_is ''inconclusive'' row" "reasonHint row = Some h" by blast
      have "h \<noteq> []" using hinted [OF row(1,2)] row(3) by simp
      then show "h \<in> set ?hints" using row by (intro hints_complete) simp_all
    qed
  qed
  have form: "summarize result = (if hint_lines result = [] then all_correct_text else join_with '' '' (hint_lines result))"
    using assms(2) by (simp add: summarize_def hint_lines_def Let_def)
  have none: "hint_lines result = [] \<longleftrightarrow> \<not> list_ex (\<lambda>row. verdict_is ''reversed'' row \<or> verdict_is ''inconclusive'' row) ?rows"
  proof -
    have "?hints = [] \<longleftrightarrow> \<not> (\<exists>row \<in> set ?rows. verdict_is ''inconclusive'' row)"
    proof
      assume e: "?hints = []"
      show "\<not> (\<exists>row \<in> set ?rows. verdict_is ''inconclusive'' row)"
      proof
        assume "\<exists>row \<in> set ?rows. verdict_is ''inconclusive'' row"
        then obtain row h where "row \<in> set ?rows" "verdict_is ''inconclusive'' row" "reasonHint row = Some h" using hinted by blast
        then have "h \<in> set ?hints" unfolding all by blast
        then show False using e by simp
      qed
    next
      assume "\<not> (\<exists>row \<in> set ?rows. verdict_is ''inconclusive'' row)"
      then have "filter (verdict_is ''inconclusive'') ?rows = []" by (simp add: filter_empty_conv)
      then show "?hints = []" by simp
    qed
    then show ?thesis by (auto simp: hint_lines_def Let_def list_ex_iff)
  qed
  have "join_with '' '' (hint_lines result) \<noteq> all_correct_text" if ne: "hint_lines result \<noteq> []"
  proof -
    obtain h hs where h: "hint_lines result = h # hs" using ne by (cases "hint_lines result") auto
    have "h = reversed_hint \<or> (\<exists>row. reasonHint row = Some h)"
    proof -
      have "h \<in> set (hint_lines result)" using h by simp
      then show ?thesis using all by (auto simp: hint_lines_def Let_def split: if_splits)
    qed
    then obtain r where r: "h = CHR 0x54 # r \<or> h = CHR 0x41 # CHR 0x20 # r" using hint_head by (auto simp: reversed_hint_def)
    obtain r' where "join_with '' '' (h # hs) = h @ r'" by (cases hs) auto
    then show ?thesis using r h by (auto simp: all_correct_text_def)
  qed
  then show ?thesis using form none all hints_distinct [of "[]"] by auto
qed

text \<open>An undecided speaker with a reason the panel does not know is passed over.\<close>

lemma unknown_reason_reads_as_correct:
  "summarize (JObj [(''rows'', JArr [JObj [(''verdict'', JStr ''inconclusive''), (''reason'', JStr ''noise'')]])]) = all_correct_text"
  by code_simp

definition mixed_result :: jsval where
  "mixed_result = JObj [(''rows'', JArr [JObj [(''verdict'', JStr ''correct'')], JObj [(''verdict'', JStr ''inconclusive''), (''reason'', JStr ''weak_signal'')],
     JObj [(''verdict'', JStr ''reversed'')], JObj [(''verdict'', JStr ''inconclusive''), (''reason'', JStr ''weak_signal'')]])]"

theorem polarity_summary_is_honest_witness:
  "summarize mixed_result = reversed_hint @ '' The sweep was too quiet to judge. Raise the volume and repeat.''
   \<and> summarize mixed_result \<noteq> all_correct_text"
proof -
  have known: "known_reason (JObj [(''verdict'', JStr ''inconclusive''), (''reason'', JStr ''weak_signal'')])"
    by (simp add: known_reason_def jget_JObj)
  have rows: "arr_items (jget mixed_result ''rows'') = [JObj [(''verdict'', JStr ''correct'')],
      JObj [(''verdict'', JStr ''inconclusive''), (''reason'', JStr ''weak_signal'')], JObj [(''verdict'', JStr ''reversed'')],
      JObj [(''verdict'', JStr ''inconclusive''), (''reason'', JStr ''weak_signal'')]]"
    by (simp add: mixed_result_def jget_JObj)
  have not_all: "\<not> truthy (jget mixed_result ''all_reversed'')" by code_simp
  have lines: "hint_lines mixed_result = [reversed_hint, ''The sweep was too quiet to judge. Raise the volume and repeat.'']" by code_simp
  have join_two: "join_with '' '' [reversed_hint, ''The sweep was too quiet to judge. Raise the volume and repeat.'']
      = reversed_hint @ '' The sweep was too quiet to judge. Raise the volume and repeat.''"
    by simp
  have undecided: "list_ex (\<lambda>row. verdict_is ''reversed'' row \<or> verdict_is ''inconclusive'' row) (arr_items (jget mixed_result ''rows''))"
    by code_simp
  have "\<forall>row \<in> set (arr_items (jget mixed_result ''rows'')). verdict_is ''inconclusive'' row \<longrightarrow> known_reason row"
    unfolding rows using known by (simp add: verdict_is_def jget_JObj js_seq_def)
  note honest = polarity_summary_is_honest [OF this not_all]
  have "hint_lines mixed_result \<noteq> []" unfolding lines by simp
  then have "summarize mixed_result = join_with '' '' (hint_lines mixed_result)" using honest by blast
  moreover have "summarize mixed_result \<noteq> all_correct_text" using honest undecided by blast
  ultimately show ?thesis unfolding lines join_two by blast
qed

end
