(* ===== verification/Modal_Stack.thy ===== *)
theory Modal_Stack
  imports Interfaces "HOL-Library.Sublist"
begin

section \<open>The stack of dialogs\<close>

text \<open>
  static/modal.js, the shared manager of every dialog: which dialog is on top, what behind it is inert, and
  where the focus goes. An element is its path in the document tree (the indices of its ancestors among
  their siblings), so containment is the prefix order. While dialogs are open the page may change its
  attributes and rebuild any part of it that holds none of the elements the manager remembers.
\<close>

subsection \<open>The document\<close>

text \<open>
  What the code reads of an element: its tag and attributes, whether it is an \<open>HTMLElement\<close>, whether it is laid
  out (\<open>offsetParent\<close>), whether the browser lets it take the focus as long as it is not inert.
\<close>

record element_info =
  elTag :: string
  elAttrs :: "(string \<times> string) list"
  elHtml :: bool
  elLaidOut :: bool
  elTakesFocus :: bool

datatype dom = Dom (dom_info: element_info) (dom_kids: "dom list")

type_synonym elem = "nat list"

fun node_at :: "elem \<Rightarrow> dom \<Rightarrow> dom option" where
  "node_at [] d = Some d"
| "node_at (i # p) (Dom ei ks) = (if i < length ks then node_at p (ks ! i) else None)"

definition children :: "dom \<Rightarrow> elem \<Rightarrow> elem list" where
  "children d p = (case node_at p d of None \<Rightarrow> [] | Some n \<Rightarrow> List.map (\<lambda>j. p @ [j]) [0..<length (dom_kids n)])"

definition attr :: "string \<Rightarrow> element_info \<Rightarrow> string option" where
  "attr a ei = map_of (elAttrs ei) a"

text \<open>The descendants in document order.\<close>

fun below :: "elem \<Rightarrow> dom \<Rightarrow> (elem \<times> element_info) list" and
    below_from :: "elem \<Rightarrow> nat \<Rightarrow> dom list \<Rightarrow> (elem \<times> element_info) list" where
  "below p (Dom ei ks) = below_from p 0 ks"
| "below_from p j [] = []"
| "below_from p j (k # ks) = (p @ [j], dom_info k) # below (p @ [j]) k @ below_from p (Suc j) ks"

definition query :: "dom \<Rightarrow> elem \<Rightarrow> (elem \<times> element_info) list" where
  "query d r = (case node_at r d of None \<Rightarrow> [] | Some n \<Rightarrow> below r n)"

subsection \<open>State\<close>

record modal_entry =
  entryRoot :: elem
  entryDialog :: elem
  entryOpener :: "elem option"
  entryInitialFocus :: "elem option"
  entrySiblingRoots :: "elem option list"
  entryEscapes :: bool
  entryCollapses :: bool

record modal_page =
  pageDom :: dom
  activeElement :: "elem option"
  inertElements :: "elem set"
  modalStack :: "modal_entry list"
  managedInertElements :: "elem set"

definition init_modals :: "dom \<Rightarrow> elem option \<Rightarrow> elem set \<Rightarrow> modal_page" where
  "init_modals d a base = \<lparr>pageDom = d, activeElement = a, inertElements = base, modalStack = [], managedInertElements = {}\<rparr>"

text \<open>An element is blocked when it or an ancestor is inert; then it cannot take the focus.\<close>

definition blocked :: "modal_page \<Rightarrow> elem \<Rightarrow> bool" where
  "blocked s x = list_ex (\<lambda>p. p \<in> inertElements s) (prefixes x)"

definition can_focus :: "modal_page \<Rightarrow> elem \<Rightarrow> bool" where
  "can_focus s x = (case node_at x (pageDom s) of None \<Rightarrow> False | Some n \<Rightarrow> elTakesFocus (dom_info n) \<and> \<not> blocked s x)"

definition focusElement :: "elem option \<Rightarrow> modal_page \<Rightarrow> bool \<times> modal_page" where
  "focusElement e s = (case e of None \<Rightarrow> (False, s)
     | Some x \<Rightarrow> if can_focus s x then (True, s\<lparr>activeElement := Some x\<rparr>) else (activeElement s = Some x, s))"

subsection \<open>Focusable elements\<close>

definition in_closed_details :: "dom \<Rightarrow> elem \<Rightarrow> bool" where
  "in_closed_details d x = list_ex (\<lambda>p. case node_at p d of None \<Rightarrow> False
     | Some n \<Rightarrow> elTag (dom_info n) = ''DETAILS'' \<and> attr ''open'' (dom_info n) = None) (prefixes x)"

definition isVisible :: "modal_page \<Rightarrow> elem \<Rightarrow> element_info \<Rightarrow> bool" where
  "isVisible s x ei =
     (\<not> (in_closed_details (pageDom s) x \<and> elTag ei \<noteq> ''SUMMARY'')
      \<and> attr ''hidden'' ei = None \<and> attr ''aria-hidden'' ei \<noteq> Some ''true''
      \<and> (elLaidOut ei \<or> activeElement s = Some x))"

definition matches_selector :: "element_info \<Rightarrow> bool" where
  "matches_selector ei =
     (let enabled = (attr ''disabled'' ei = None) in
       elTag ei = ''A'' \<and> attr ''href'' ei \<noteq> None
     \<or> elTag ei = ''AREA'' \<and> attr ''href'' ei \<noteq> None
     \<or> elTag ei = ''BUTTON'' \<and> enabled
     \<or> elTag ei = ''INPUT'' \<and> enabled \<and> attr ''type'' ei \<noteq> Some ''hidden''
     \<or> elTag ei = ''SELECT'' \<and> enabled
     \<or> elTag ei = ''TEXTAREA'' \<and> enabled
     \<or> elTag ei = ''SUMMARY''
     \<or> attr ''tabindex'' ei \<noteq> None \<and> attr ''tabindex'' ei \<noteq> Some ''-1'')"

definition getFocusableElements :: "modal_page \<Rightarrow> elem \<Rightarrow> elem list" where
  "getFocusableElements s r =
     List.map fst (filter (\<lambda>(x, ei). matches_selector ei \<and> isVisible s x ei) (query (pageDom s) r))"

subsection \<open>The inert background\<close>

definition clearManagedInert :: "modal_page \<Rightarrow> modal_page" where
  "clearManagedInert s = s\<lparr>inertElements := inertElements s - managedInertElements s, managedInertElements := {}\<rparr>"

definition containsProtectedRoot :: "elem \<Rightarrow> elem list \<Rightarrow> bool" where
  "containsProtectedRoot x roots = list_ex (\<lambda>r. prefix x r) roots"

definition make_inert :: "elem list \<Rightarrow> elem \<Rightarrow> elem \<Rightarrow> modal_page \<Rightarrow> modal_page" where
  "make_inert roots node sibling s =
     (if sibling = node \<or> containsProtectedRoot sibling roots then s
      else case node_at sibling (pageDom s) of None \<Rightarrow> s
        | Some n \<Rightarrow> if \<not> elHtml (dom_info n) \<or> sibling \<in> inertElements s then s
            else s\<lparr>inertElements := insert sibling (inertElements s), managedInertElements := insert sibling (managedInertElements s)\<rparr>)"

text \<open>The walk from a protected root to the top of the document.\<close>

function inert_around :: "elem list \<Rightarrow> elem \<Rightarrow> modal_page \<Rightarrow> modal_page" where
  "inert_around roots node s =
     (if node = [] then s
      else inert_around roots (butlast node) (fold (make_inert roots node) (children (pageDom s) (butlast node)) s))"
  by pat_completeness auto
termination by (relation "measure (\<lambda>(roots, node, s). length node)") auto

declare inert_around.simps [simp del]

definition protected_roots :: "modal_entry \<Rightarrow> elem list" where
  "protected_roots e = entryRoot e # List.map_filter id (entrySiblingRoots e)"

definition applyBackgroundInert :: "modal_entry option \<Rightarrow> modal_page \<Rightarrow> modal_page" where
  "applyBackgroundInert e s = (case e of None \<Rightarrow> clearManagedInert s
     | Some entry \<Rightarrow> fold (inert_around (protected_roots entry)) (protected_roots entry) (clearManagedInert s))"

subsection \<open>Opening and closing\<close>

definition last_entry :: "'a list \<Rightarrow> 'a option" where
  "last_entry xs = (if xs = [] then None else Some (last xs))"

definition first_entry :: "'a list \<Rightarrow> 'a option" where
  "first_entry xs = (case xs of [] \<Rightarrow> None | x # _ \<Rightarrow> Some x)"

definition focusInitial :: "modal_entry \<Rightarrow> modal_page \<Rightarrow> modal_page" where
  "focusInitial e s =
     (let focusables = getFocusableElements s (entryRoot e);
          wanted = (case entryInitialFocus e of None \<Rightarrow> None
            | Some x \<Rightarrow> (case node_at x (pageDom s) of None \<Rightarrow> None
                | Some n \<Rightarrow> if isVisible s x (dom_info n) then Some x else None));
          (done1, s1) = focusElement wanted s
      in if done1 then s1
         else (let (done2, s2) = focusElement (first_entry focusables) s1
               in if done2 then s2 else snd (focusElement (Some (entryDialog e)) s2)))"

record modal_options =
  optDialog :: "elem option"
  optOpener :: "elem option"
  optInitialFocus :: "elem option"
  optSiblingRoots :: "elem option list"
  optEscapes :: bool
  optCollapses :: bool

definition is_dialog :: "element_info \<Rightarrow> bool" where
  "is_dialog ei = (attr ''role'' ei = Some ''dialog'')"

definition default_dialog :: "dom \<Rightarrow> elem \<Rightarrow> elem" where
  "default_dialog d r =
     (case node_at r d of None \<Rightarrow> r
      | Some n \<Rightarrow> if is_dialog (dom_info n) then r
          else (case filter (\<lambda>x. is_dialog (snd x)) (query d r) of [] \<Rightarrow> r | x # _ \<Rightarrow> fst x))"

definition default_opener :: "modal_page \<Rightarrow> elem option" where
  "default_opener s = (case activeElement s of None \<Rightarrow> None
     | Some a \<Rightarrow> (case node_at a (pageDom s) of None \<Rightarrow> None | Some n \<Rightarrow> if elHtml (dom_info n) then Some a else None))"

definition new_entry :: "elem \<Rightarrow> modal_options \<Rightarrow> modal_page \<Rightarrow> modal_entry" where
  "new_entry r opts s =
     \<lparr>entryRoot = r,
      entryDialog = (case optDialog opts of Some x \<Rightarrow> x | None \<Rightarrow> default_dialog (pageDom s) r),
      entryOpener = (case optOpener opts of Some x \<Rightarrow> Some x | None \<Rightarrow> default_opener s),
      entryInitialFocus = optInitialFocus opts, entrySiblingRoots = optSiblingRoots opts,
      entryEscapes = optEscapes opts, entryCollapses = optCollapses opts\<rparr>"

definition without_root :: "elem \<Rightarrow> modal_entry list \<Rightarrow> modal_entry list" where
  "without_root r st = (case List.extract (\<lambda>e. entryRoot e = r) st of None \<Rightarrow> st | Some (xs, e, ys) \<Rightarrow> xs @ ys)"

definition put_on_top :: "modal_entry \<Rightarrow> modal_page \<Rightarrow> modal_page" where
  "put_on_top e s = focusInitial e (applyBackgroundInert (Some e) (s\<lparr>modalStack := modalStack s @ [e]\<rparr>))"

definition modal_open :: "elem \<Rightarrow> modal_options \<Rightarrow> modal_page \<Rightarrow> modal_page" where
  "modal_open r opts s =
     (case List.find (\<lambda>e. entryRoot e = r) (modalStack s) of
        Some existing \<Rightarrow> put_on_top existing (s\<lparr>modalStack := without_root r (modalStack s)\<rparr>)
      | None \<Rightarrow> put_on_top (new_entry r opts s) s)"

definition modal_close :: "elem \<Rightarrow> modal_page \<Rightarrow> modal_page" where
  "modal_close r s =
     (case List.find (\<lambda>e. entryRoot e = r) (modalStack s) of
        None \<Rightarrow> s
      | Some entry \<Rightarrow>
          (let wasTop = (entryRoot (last (modalStack s)) = r);
               rest = without_root r (modalStack s);
               s1 = applyBackgroundInert (last_entry rest) (s\<lparr>modalStack := rest\<rparr>)
           in if \<not> wasTop then s1
              else case last_entry rest of
                None \<Rightarrow> snd (focusElement (entryOpener entry) s1)
              | Some replacement \<Rightarrow>
                  (case entryOpener entry of
                     Some x \<Rightarrow> if prefix (entryRoot replacement) x then snd (focusElement (Some x) s1) else focusInitial replacement s1
                   | None \<Rightarrow> focusInitial replacement s1)))"

definition isOpen :: "elem \<Rightarrow> modal_page \<Rightarrow> bool" where
  "isOpen r s = list_ex (\<lambda>e. entryRoot e = r) (modalStack s)"

definition topRoot :: "modal_page \<Rightarrow> elem option" where
  "topRoot s = (case last_entry (modalStack s) of None \<Rightarrow> None | Some e \<Rightarrow> Some (entryRoot e))"

definition depth :: "modal_page \<Rightarrow> nat" where
  "depth s = length (modalStack s)"

text \<open>The handler that is called, if any: the entry's escape path, or its step back to the main view.\<close>

definition closeTop :: "modal_page \<Rightarrow> elem option" where
  "closeTop s = (case last_entry (modalStack s) of None \<Rightarrow> None | Some e \<Rightarrow> if entryEscapes e then Some (entryRoot e) else None)"

definition collapseTop :: "modal_page \<Rightarrow> elem option" where
  "collapseTop s = (case last_entry (modalStack s) of None \<Rightarrow> None | Some e \<Rightarrow> if entryCollapses e then Some (entryRoot e) else None)"

subsection \<open>Keys\<close>

datatype key = Escape | Tab bool | OtherKey

text \<open>What becomes of a key: the browser acts on it, it is consumed, or the top entry's escape handler runs.\<close>

datatype key_result = Default | Consumed | EscapeCalled elem

definition tab_to :: "elem option \<Rightarrow> modal_page \<Rightarrow> key_result \<times> modal_page" where
  "tab_to x s = (Consumed, snd (focusElement x s))"

definition keydown :: "key \<Rightarrow> modal_page \<Rightarrow> key_result \<times> modal_page" where
  "keydown k s =
     (case last_entry (modalStack s) of
        None \<Rightarrow> (Default, s)
      | Some entry \<Rightarrow>
          (case k of
             OtherKey \<Rightarrow> (Default, s)
           | Escape \<Rightarrow> if entryEscapes entry then (EscapeCalled (entryRoot entry), s) else (Default, s)
           | Tab shift \<Rightarrow>
               (let focusables = getFocusableElements s (entryRoot entry) in
                if focusables = [] then tab_to (Some (entryDialog entry)) s
                else let inside = (case activeElement s of None \<Rightarrow> False | Some a \<Rightarrow> prefix (entryRoot entry) a)
                in if \<not> inside then tab_to (Some (if shift then last focusables else hd focusables)) s
                else if shift \<and> activeElement s = Some (hd focusables) then tab_to (Some (last focusables)) s
                else if \<not> shift \<and> activeElement s = Some (last focusables) then tab_to (Some (hd focusables)) s
                else (Default, s))))"

subsection \<open>Events\<close>

text \<open>
  The page changes the document at any time: attributes and layout anywhere, and any part of the tree may
  be rebuilt that holds none of the elements the manager or the browser remembers (the roots, dialogs,
  openers and first focuses of the stack, the focused element, the inert ones). Such elements keep
  their place: none of their ancestors gets or loses a child. And the browser or the page moves the focus to an element that can take
  it, or takes it away (then the body has it, which is no element of interest).
\<close>

definition same_kids :: "dom \<Rightarrow> dom \<Rightarrow> elem \<Rightarrow> bool" where
  "same_kids d d' q = (case (node_at q d, node_at q d') of
     (Some n, Some n') \<Rightarrow> List.map (\<lambda>k. elHtml (dom_info k)) (dom_kids n) = List.map (\<lambda>k. elHtml (dom_info k)) (dom_kids n')
   | (None, None) \<Rightarrow> True | _ \<Rightarrow> False)"

definition place_kept :: "dom \<Rightarrow> dom \<Rightarrow> elem \<Rightarrow> bool" where
  "place_kept d d' p = list_all (\<lambda>q. q = p \<or> same_kids d d' q) (prefixes p)"

definition entry_elements :: "modal_entry \<Rightarrow> elem list" where
  "entry_elements e = protected_roots e @ entryDialog e # List.map_filter id [entryOpener e, entryInitialFocus e]"

definition page_kept :: "modal_page \<Rightarrow> dom \<Rightarrow> bool" where
  "page_kept s d =
     (list_all (place_kept (pageDom s) d) (concat (List.map entry_elements (modalStack s)) @ List.map_filter id [activeElement s])
      \<and> (\<forall>p \<in> inertElements s. place_kept (pageDom s) d p))"

datatype modal_event = Opened elem modal_options | ModalClosed elem | KeyPressed key | PageChanged dom | FocusMoved elem | FocusLost

fun modal_step :: "modal_event \<Rightarrow> modal_page \<Rightarrow> modal_page" where
  "modal_step (Opened r opts) s = modal_open r opts s"
| "modal_step (ModalClosed r) s = modal_close r s"
| "modal_step (KeyPressed k) s = snd (keydown k s)"
| "modal_step (PageChanged d) s = (if page_kept s d then s\<lparr>pageDom := d\<rparr> else s)"
| "modal_step (FocusMoved x) s = (if can_focus s x then s\<lparr>activeElement := Some x\<rparr> else s)"
| "modal_step FocusLost s = s\<lparr>activeElement := None\<rparr>"

end
