(* ===== verification/Modal_Claims.thy ===== *)
theory Modal_Claims
  imports Modal_Stack
begin

section \<open>What the dialog manager promises\<close>

text \<open>
  While a dialog is open, exactly the elements outside it (and its sibling roots) are blocked; what was inert
  before stays so, and is all that is inert once no dialog is open. Dialogs opened and closed in
  nested order leave no trace, the focus included.
\<close>

subsection \<open>Which elements the walk marks\<close>

definition html_at :: "dom \<Rightarrow> elem \<Rightarrow> bool" where
  "html_at d x = (case node_at x d of None \<Rightarrow> False | Some n \<Rightarrow> elHtml (dom_info n))"

text \<open>The elements beside the path to a protected root.\<close>

definition behind :: "dom \<Rightarrow> elem list \<Rightarrow> elem set" where
  "behind d roots = {m. m \<noteq> [] \<and> html_at d m \<and> \<not> containsProtectedRoot m roots
     \<and> (\<exists>r \<in> set roots. strict_prefix (butlast m) r)}"

definition beside :: "dom \<Rightarrow> elem list \<Rightarrow> elem \<Rightarrow> elem set" where
  "beside d roots node = {m. m \<noteq> [] \<and> html_at d m \<and> \<not> containsProtectedRoot m roots
     \<and> (\<exists>q. prefix q node \<and> q \<noteq> [] \<and> butlast q = butlast m \<and> m \<noteq> q)}"

text \<open>\<open>marked A s t\<close>: from \<open>s\<close> to \<open>t\<close> exactly the elements of \<open>A\<close> became inert, the new ones managed.\<close>

definition marked :: "elem set \<Rightarrow> modal_page \<Rightarrow> modal_page \<Rightarrow> bool" where
  "marked A s t = (t = s\<lparr>inertElements := inertElements s \<union> A, managedInertElements := managedInertElements s \<union> (A - inertElements s)\<rparr>)"

lemma marked_none: "marked {} s s"
  by (simp add: marked_def)

lemma marked_trans: "marked A s t \<Longrightarrow> marked B t u \<Longrightarrow> marked (A \<union> B) s u"
  by (auto simp: marked_def intro!: modal_page.equality)

lemma marked_dom: "marked A s t \<Longrightarrow> pageDom t = pageDom s"
  by (simp add: marked_def)

lemma make_inert_marked:
  "marked (if sibling \<noteq> node \<and> \<not> containsProtectedRoot sibling roots \<and> html_at (pageDom s) sibling then {sibling} else {}) s
     (make_inert roots node sibling s)"
  by (auto simp: make_inert_def marked_def html_at_def insert_absorb intro!: modal_page.equality split: option.split)

lemma fold_marked:
  assumes "\<And>x t. x \<in> set xs \<Longrightarrow> pageDom t = d \<Longrightarrow> marked (A x) t (f x t)" "pageDom s = d"
  shows "marked (\<Union>x \<in> set xs. A x) s (fold f xs s)"
  using assms
proof (induction xs arbitrary: s)
  case Nil
  show ?case by (simp add: marked_none)
next
  case (Cons x xs)
  have x: "marked (A x) s (f x s)" using Cons.prems by simp
  have "marked (\<Union>x \<in> set xs. A x) (f x s) (fold f xs (f x s))"
    using Cons.prems marked_dom [OF x] by (intro Cons.IH) auto
  from marked_trans [OF x this] show ?case by simp
qed

lemma html_node: "html_at d m \<Longrightarrow> \<exists>n. node_at m d = Some n"
  by (auto simp: html_at_def split: option.splits)

lemma node_at_append: "node_at (p @ q) d = (case node_at p d of None \<Rightarrow> None | Some n \<Rightarrow> node_at q n)"
  by (induction p d rule: node_at.induct) auto

lemma children_iff: "m \<in> set (children d p) \<longleftrightarrow> m \<noteq> [] \<and> butlast m = p \<and> node_at m d \<noteq> None"
proof (cases m rule: rev_cases)
  case (snoc ini i)
  have kid: "(\<exists>y. node_at [i] k = Some y) \<longleftrightarrow> i < length (dom_kids k)" for k by (cases k) simp
  have "p @ [i] \<in> set (children d q) \<longleftrightarrow> p = q \<and> (\<exists>k. node_at p d = Some k \<and> i < length (dom_kids k))" for p q
    by (cases "node_at q d") (auto simp: children_def)
  then show ?thesis using snoc by (auto simp: node_at_append kid split: option.splits)
qed (auto simp: children_def split: option.split)

lemma siblings_marked:
  assumes "node \<noteq> []" "pageDom s = d"
  shows "marked {m. m \<noteq> [] \<and> html_at d m \<and> \<not> containsProtectedRoot m roots \<and> butlast m = butlast node \<and> m \<noteq> node} s
     (fold (make_inert roots node) (children d (butlast node)) s)"
proof -
  define A where "A m = (if m \<noteq> node \<and> \<not> containsProtectedRoot m roots \<and> html_at d m then {m} else {})" for m
  have A: "x \<in> A m \<longleftrightarrow> x = m \<and> m \<noteq> node \<and> \<not> containsProtectedRoot m roots \<and> html_at d m" for x m by (simp add: A_def)
  have "marked (\<Union>m \<in> set (children d (butlast node)). A m) s (fold (make_inert roots node) (children d (butlast node)) s)"
  proof (rule fold_marked [where d = d])
    fix x and t :: modal_page
    assume "pageDom t = d"
    then show "marked (A x) t (make_inert roots node x t)" using make_inert_marked [of x node roots t] unfolding A_def by (simp only:)
  qed (rule assms(2))
  moreover have "(\<Union>m \<in> set (children d (butlast node)). A m)
      = {m. m \<noteq> [] \<and> html_at d m \<and> \<not> containsProtectedRoot m roots \<and> butlast m = butlast node \<and> m \<noteq> node}"
    using html_node [of d] by (auto simp: A children_iff)
  ultimately show ?thesis by simp
qed

lemma beside_step:
  assumes "node \<noteq> []"
  shows "beside d roots node = {m. m \<noteq> [] \<and> html_at d m \<and> \<not> containsProtectedRoot m roots \<and> butlast m = butlast node \<and> m \<noteq> node}
     \<union> beside d roots (butlast node)"
proof -
  have "prefix q node \<longleftrightarrow> q = node \<or> prefix q (butlast node)" for q
    using assms by (cases node rule: rev_cases) auto
  then have "(\<exists>q. prefix q node \<and> q \<noteq> [] \<and> butlast q = butlast m \<and> m \<noteq> q) \<longleftrightarrow>
      butlast m = butlast node \<and> m \<noteq> node \<or> (\<exists>q. prefix q (butlast node) \<and> q \<noteq> [] \<and> butlast q = butlast m \<and> m \<noteq> q)" for m
    using assms by metis
  then show ?thesis unfolding beside_def by blast
qed

lemma inert_around_marked: "pageDom s = d \<Longrightarrow> marked (beside d roots node) s (inert_around roots node s)"
proof (induction roots node s rule: inert_around.induct)
  case (1 roots node s)
  show ?case
  proof (cases "node = []")
    case True
    then have "beside d roots node = {}" by (auto simp: beside_def)
    moreover have "inert_around roots node s = s" by (subst inert_around.simps) (simp add: True)
    ultimately show ?thesis by (simp add: marked_none)
  next
    case False
    let ?t = "fold (make_inert roots node) (children (pageDom s) (butlast node)) s"
    have s: "marked {m. m \<noteq> [] \<and> html_at d m \<and> \<not> containsProtectedRoot m roots \<and> butlast m = butlast node \<and> m \<noteq> node} s ?t"
      using siblings_marked [OF False "1.prems"] "1.prems" by simp
    have "marked (beside d roots (butlast node)) ?t (inert_around roots (butlast node) ?t)"
      using "1.IH" [OF False] marked_dom [OF s] "1.prems" by simp
    from marked_trans [OF s this] show ?thesis
      using False unfolding beside_step [OF False] by (simp add: inert_around.simps [of roots node])
  qed
qed

lemma beside_root:
  assumes "r \<in> set roots"
  shows "beside d roots r = {m. m \<noteq> [] \<and> html_at d m \<and> \<not> containsProtectedRoot m roots \<and> strict_prefix (butlast m) r}"
proof -
  have "(\<exists>q. prefix q r \<and> q \<noteq> [] \<and> butlast q = butlast m \<and> m \<noteq> q) \<longleftrightarrow> strict_prefix (butlast m) r"
    if m: "m \<noteq> []" "\<not> containsProtectedRoot m roots" for m
  proof
    assume "\<exists>q. prefix q r \<and> q \<noteq> [] \<and> butlast q = butlast m \<and> m \<noteq> q"
    then obtain q where q: "prefix q r" "q \<noteq> []" "butlast q = butlast m" by blast
    have "strict_prefix (butlast q) q" using q(2) by (metis append_butlast_last_id strict_prefixI')
    then show "strict_prefix (butlast m) r" using q(1,3) by (metis prefix_order.less_le_trans)
  next
    assume "strict_prefix (butlast m) r"
    then obtain i zs where r: "r = butlast m @ i # zs" by (auto elim: strict_prefixE')
    have "prefix (butlast m @ [i]) r" by (simp add: r)
    moreover have "m \<noteq> butlast m @ [i]" using m(2) assms calculation by (auto simp: containsProtectedRoot_def list_ex_iff)
    ultimately show "\<exists>q. prefix q r \<and> q \<noteq> [] \<and> butlast q = butlast m \<and> m \<noteq> q"
      by (intro exI [of _ "butlast m @ [i]"]) simp
  qed
  then show ?thesis unfolding beside_def by blast
qed

lemma applied_background:
  "applyBackgroundInert (Some e) s = s
     \<lparr>inertElements := (inertElements s - managedInertElements s) \<union> behind (pageDom s) (protected_roots e),
      managedInertElements := behind (pageDom s) (protected_roots e) - (inertElements s - managedInertElements s)\<rparr>"
proof -
  let ?R = "protected_roots e" and ?s = "clearManagedInert s"
  have d: "pageDom ?s = pageDom s" by (simp add: clearManagedInert_def)
  have "marked (\<Union>r \<in> set ?R. beside (pageDom s) ?R r) ?s (fold (inert_around ?R) ?R ?s)"
    using inert_around_marked d by (intro fold_marked [where d = "pageDom s"])
  moreover have "(\<Union>r \<in> set ?R. beside (pageDom s) ?R r) = behind (pageDom s) ?R"
    by (auto simp: beside_root behind_def)
  ultimately show ?thesis
    by (simp add: applyBackgroundInert_def marked_def) (simp add: clearManagedInert_def)
qed

subsection \<open>The invariant\<close>

text \<open>What the top of a stack makes inert, beside what the page itself keeps inert (\<open>base\<close>).\<close>

definition stack_background :: "dom \<Rightarrow> modal_entry list \<Rightarrow> elem set" where
  "stack_background d st = (case last_entry st of None \<Rightarrow> {} | Some e \<Rightarrow> behind d (protected_roots e))"

definition modal_fine :: "elem set \<Rightarrow> modal_page \<Rightarrow> bool" where
  "modal_fine base s = (inertElements s = base \<union> stack_background (pageDom s) (modalStack s)
     \<and> managedInertElements s = stack_background (pageDom s) (modalStack s) - base
     \<and> distinct (List.map entryRoot (modalStack s)))"

definition inert_parts where
  "inert_parts s = (pageDom s, modalStack s, inertElements s, managedInertElements s)"

lemma fine_parts: "inert_parts s' = inert_parts s \<Longrightarrow> modal_fine base s' = modal_fine base s"
  by (simp add: inert_parts_def modal_fine_def)

lemma focus_parts [simp]: "inert_parts (snd (focusElement x s)) = inert_parts s"
  by (simp add: focusElement_def inert_parts_def split: option.split)

lemma initial_parts [simp]: "inert_parts (focusInitial e s) = inert_parts s"
proof -
  have "focusElement x s = (b, s') \<Longrightarrow> inert_parts s' = inert_parts s" for x b and s' s :: modal_page
    using focus_parts [of x s] by simp
  then show ?thesis unfolding focusInitial_def Let_def by (auto split: prod.split)
qed

lemma applied_fine:
  assumes "inertElements s - managedInertElements s = base" "distinct (List.map entryRoot (modalStack s))"
  shows "modal_fine base (applyBackgroundInert (last_entry (modalStack s)) s)"
    "applyBackgroundInert (last_entry (modalStack s)) s = s
       \<lparr>inertElements := base \<union> stack_background (pageDom s) (modalStack s),
        managedInertElements := stack_background (pageDom s) (modalStack s) - base\<rparr>"
proof -
  show e: "applyBackgroundInert (last_entry (modalStack s)) s = s
       \<lparr>inertElements := base \<union> stack_background (pageDom s) (modalStack s),
        managedInertElements := stack_background (pageDom s) (modalStack s) - base\<rparr>"
  proof (cases "last_entry (modalStack s)")
    case None
    then show ?thesis using assms(1) by (simp add: applyBackgroundInert_def clearManagedInert_def stack_background_def)
  next
    case (Some x)
    then show ?thesis using assms(1) by (simp add: applied_background stack_background_def)
  qed
  show "modal_fine base (applyBackgroundInert (last_entry (modalStack s)) s)"
    unfolding e using assms(2) by (simp add: modal_fine_def)
qed

lemma fine_base: "modal_fine base s \<Longrightarrow> inertElements s - managedInertElements s = base"
  by (auto simp: modal_fine_def)

lemma put_on_top_form:
  "put_on_top e s = focusInitial e (applyBackgroundInert (last_entry (modalStack s @ [e])) (s\<lparr>modalStack := modalStack s @ [e]\<rparr>))"
  by (simp add: put_on_top_def last_entry_def)

lemma put_on_top_fine:
  assumes "inertElements s - managedInertElements s = base" "distinct (List.map entryRoot (modalStack s @ [e]))"
  shows "modal_fine base (put_on_top e s)"
  unfolding put_on_top_form using applied_fine(1) [of "s\<lparr>modalStack := modalStack s @ [e]\<rparr>" base] assms fine_parts [OF initial_parts]
  by simp

lemma without_root_cases:
  assumes "List.find (\<lambda>e. entryRoot e = r) st = Some e"
  obtains xs ys where "st = xs @ e # ys" "entryRoot e = r" "without_root r st = xs @ ys" "\<forall>x \<in> set xs. entryRoot x \<noteq> r"
proof -
  have "\<exists>xs ys. st = xs @ e # ys \<and> entryRoot e = r \<and> without_root r st = xs @ ys \<and> (\<forall>x \<in> set xs. entryRoot x \<noteq> r)"
    using assms
  proof (induction st)
    case (Cons x st)
    show ?case
    proof (cases "entryRoot x = r")
      case True
      then show ?thesis using Cons.prems by (intro exI [of _ "[]"] exI [of _ st]) (simp add: without_root_def extract_Cons_code)
    next
      case False
      then obtain xs ys where "st = xs @ e # ys" "entryRoot e = r" "without_root r st = xs @ ys" "\<forall>x \<in> set xs. entryRoot x \<noteq> r"
        using Cons by auto
      then show ?thesis using False
        by (intro exI [of _ "x # xs"] exI [of _ ys]) (auto simp: without_root_def extract_Cons_code split: option.splits)
    qed
  qed simp
  with that show thesis by blast
qed

text \<open>What the walk marks depends on the children of the ancestors of the roots alone.\<close>

lemma same_kids_html: "same_kids d d' q \<Longrightarrow> html_at d' (q @ [i]) = html_at d (q @ [i])"
proof -
  assume k: "same_kids d d' q"
  have kid: "html_at d (q @ [i]) = (case node_at q d of None \<Rightarrow> False
      | Some n \<Rightarrow> i < length (dom_kids n) \<and> elHtml (dom_info (dom_kids n ! i)))" for d
  proof (cases "node_at q d")
    case (Some n)
    then show ?thesis by (cases n) (simp add: html_at_def node_at_append)
  qed (simp add: html_at_def node_at_append)
  have kids: "length xs = length ys \<and> (i < length xs \<longrightarrow> elHtml (dom_info (xs ! i)) = elHtml (dom_info (ys ! i)))"
    if "List.map (\<lambda>k. elHtml (dom_info k)) xs = List.map (\<lambda>k. elHtml (dom_info k)) ys" for xs ys
    using that by (metis length_map nth_map)
  show ?thesis
  proof (cases "node_at q d")
    case None
    then show ?thesis using k by (cases "node_at q d'") (simp_all add: kid same_kids_def)
  next
    case (Some n)
    then obtain n' where n': "node_at q d' = Some n'" using k by (cases "node_at q d'") (simp_all add: same_kids_def)
    with Some k have "List.map (\<lambda>k. elHtml (dom_info k)) (dom_kids n) = List.map (\<lambda>k. elHtml (dom_info k)) (dom_kids n')"
      by (simp add: same_kids_def)
    from kids [OF this] show ?thesis by (auto simp: kid Some n')
  qed
qed

lemma place_kept_html: "place_kept d d' r \<Longrightarrow> m \<noteq> [] \<Longrightarrow> strict_prefix (butlast m) r \<Longrightarrow> html_at d' m = html_at d m"
proof -
  assume k: "place_kept d d' r" and m: "m \<noteq> []" "strict_prefix (butlast m) r"
  then have "same_kids d d' (butlast m)" by (auto simp: place_kept_def list_all_iff strict_prefix_def)
  from same_kids_html [OF this, of "last m"] show ?thesis using m(1) by simp
qed

lemma kept_background:
  assumes "page_kept s d" "set st \<subseteq> set (modalStack s)"
  shows "stack_background d st = stack_background (pageDom s) st"
proof (cases "last_entry st")
  case (Some e)
  then have "e \<in> set (modalStack s)" using assms(2) by (auto simp: last_entry_def split: if_splits)
  then have "place_kept (pageDom s) d r" if "r \<in> set (protected_roots e)" for r
    using assms(1) that by (auto simp: page_kept_def list_all_iff entry_elements_def)
  then have "behind d (protected_roots e) = behind (pageDom s) (protected_roots e)"
    unfolding behind_def using place_kept_html by blast
  then show ?thesis by (simp add: stack_background_def Some)
qed (simp add: stack_background_def)

lemma close_parts:
  assumes "List.find (\<lambda>e. entryRoot e = r) (modalStack s) = Some e"
  shows "inert_parts (modal_close r s) = inert_parts (applyBackgroundInert (last_entry (without_root r (modalStack s)))
     (s\<lparr>modalStack := without_root r (modalStack s)\<rparr>))"
  by (simp add: modal_close_def assms Let_def split: option.split)

lemma modal_step_fine:
  assumes "modal_fine base s"
  shows "modal_fine base (modal_step ev s)"
proof (cases ev)
  case (Opened r opts)
  show ?thesis
  proof (cases "List.find (\<lambda>e. entryRoot e = r) (modalStack s)")
    case None
    then have "r \<notin> entryRoot ` set (modalStack s)" by (auto simp: find_None_iff)
    then have "modal_fine base (put_on_top (new_entry r opts s) s)"
      using assms fine_base [OF assms] by (intro put_on_top_fine) (auto simp: modal_fine_def new_entry_def)
    then show ?thesis using Opened None by (simp add: modal_open_def)
  next
    case (Some e)
    obtain xs ys where parts: "modalStack s = xs @ e # ys" "without_root r (modalStack s) = xs @ ys"
      using without_root_cases [OF Some] by metis
    have "distinct (List.map entryRoot (modalStack s))" using assms by (simp add: modal_fine_def)
    then have "modal_fine base (put_on_top e (s\<lparr>modalStack := without_root r (modalStack s)\<rparr>))"
      using fine_base [OF assms] parts by (intro put_on_top_fine) auto
    then show ?thesis using Opened Some by (simp add: modal_open_def)
  qed
next
  case (ModalClosed r)
  show ?thesis
  proof (cases "List.find (\<lambda>e. entryRoot e = r) (modalStack s)")
    case None
    then show ?thesis using assms ModalClosed by (simp add: modal_close_def)
  next
    case (Some e)
    obtain xs ys where parts: "modalStack s = xs @ e # ys" "without_root r (modalStack s) = xs @ ys"
      using without_root_cases [OF Some] by metis
    have "distinct (List.map entryRoot (modalStack s))" using assms by (simp add: modal_fine_def)
    then have "modal_fine base (applyBackgroundInert (last_entry (xs @ ys)) (s\<lparr>modalStack := xs @ ys\<rparr>))"
      using applied_fine(1) [of "s\<lparr>modalStack := xs @ ys\<rparr>" base] fine_base [OF assms] parts by simp
    then show ?thesis unfolding ModalClosed modal_step.simps fine_parts [OF close_parts [OF Some]] parts(2) .
  qed
next
  case (KeyPressed k)
  have "inert_parts (snd (keydown k s)) = inert_parts s"
    by (simp add: keydown_def tab_to_def Let_def split: option.split key.split)
  from fine_parts [OF this] show ?thesis using KeyPressed assms by simp
next
  case (PageChanged d)
  then show ?thesis using assms kept_background [of s d "modalStack s"] by (simp add: modal_fine_def)
next
  case (FocusMoved x)
  then show ?thesis using assms fine_parts [of "s\<lparr>activeElement := Some x\<rparr>" s] by (simp add: inert_parts_def)
next
  case FocusLost
  then show ?thesis using assms fine_parts [of "s\<lparr>activeElement := None\<rparr>" s] by (simp add: inert_parts_def)
qed

lemma init_modal_fine: "modal_fine base (init_modals d a base)"
  by (simp add: modal_fine_def init_modals_def stack_background_def last_entry_def)

lemma modal_run_fine: "modal_fine base s \<Longrightarrow> modal_fine base (run_events modal_step es s)"
  by (induction es arbitrary: s) (simp_all add: modal_step_fine)

subsection \<open>What is blocked\<close>

text \<open>An HTML element inside HTML elements, as every control of the page is; an inline drawing is not.\<close>

definition html_line :: "dom \<Rightarrow> elem \<Rightarrow> bool" where
  "html_line d x = list_all (html_at d) (prefixes x)"

lemma node_at_prefix:
  assumes "node_at x d \<noteq> None" "prefix p x"
  shows "node_at p d \<noteq> None"
proof -
  obtain q where "x = p @ q" using assms(2) by (auto simp: prefix_def)
  then show ?thesis using assms(1) by (auto simp: node_at_append split: option.splits)
qed

definition roots_apart :: "elem list \<Rightarrow> bool" where
  "roots_apart roots = list_all (\<lambda>r. list_all (\<lambda>q. \<not> strict_prefix r q) roots) roots"

lemma background_blocks:
  assumes "roots_apart roots" "roots \<noteq> []"
  shows "\<exists>p. prefix p x \<and> p \<in> behind d roots \<Longrightarrow> \<not> (\<exists>r \<in> set roots. prefix r x \<or> prefix x r)"
    and "html_line d x \<Longrightarrow> \<not> (\<exists>r \<in> set roots. prefix r x \<or> prefix x r) \<Longrightarrow> \<exists>p. prefix p x \<and> p \<in> behind d roots"
proof -
  assume "\<exists>p. prefix p x \<and> p \<in> behind d roots"
  then obtain m r' where m: "prefix m x" "\<not> containsProtectedRoot m roots" "m \<noteq> []" and r': "r' \<in> set roots" "strict_prefix (butlast m) r'"
    by (auto simp: behind_def)
  show "\<not> (\<exists>r \<in> set roots. prefix r x \<or> prefix x r)"
  proof (rule notI, elim bexE disjE)
    fix r
    assume r: "r \<in> set roots" "prefix r x"
    have not_in: "\<not> prefix m r" using m(2) r(1) by (auto simp: containsProtectedRoot_def list_ex_iff)
    then have "strict_prefix r m" using prefix_same_cases [OF m(1) r(2)] by (auto simp: strict_prefix_def)
    then have "prefix r (butlast m)" using m(3) by (cases m rule: rev_cases) (auto simp: strict_prefix_def)
    then have "strict_prefix r r'" using r'(2) by (metis prefix_order.le_less_trans)
    then show False using assms(1) r(1) r'(1) by (auto simp: roots_apart_def list_all_iff)
  next
    fix r
    assume r: "r \<in> set roots" "prefix x r"
    then show False using m(1,2) prefix_order.trans by (auto simp: containsProtectedRoot_def list_ex_iff)
  qed
next
  assume html: "html_line d x" and outside: "\<not> (\<exists>r \<in> set roots. prefix r x \<or> prefix x r)"
  let ?P = "\<lambda>n. n \<le> length x \<and> \<not> containsProtectedRoot (take n x) roots"
  define n where "n = (LEAST n. ?P n)"
  have "?P (length x)" using outside by (auto simp: containsProtectedRoot_def list_ex_iff)
  then have n: "?P n" and least: "\<And>k. k < n \<Longrightarrow> \<not> ?P k" unfolding n_def by (metis (mono_tags, lifting) LeastI, metis not_less_Least)
  have pos: "n \<noteq> 0"
  proof
    assume "n = 0"
    then show False using n assms(2) by (cases roots) (simp_all add: containsProtectedRoot_def)
  qed
  then have "containsProtectedRoot (take (n - 1) x) roots" using least [of "n - 1"] n by auto
  then obtain r where r: "r \<in> set roots" "prefix (take (n - 1) x) r" by (auto simp: containsProtectedRoot_def list_ex_iff)
  have b: "butlast (take n x) = take (n - 1) x" using n by (simp add: butlast_take)
  have "take (n - 1) x \<noteq> r" using outside r(1) take_is_prefix by metis
  then have "strict_prefix (butlast (take n x)) r" using r(2) b by (simp add: strict_prefix_def)
  moreover have "html_at d (take n x)" using html take_is_prefix [of n x] by (simp add: html_line_def list_all_iff)
  moreover have "take n x \<noteq> []" using n pos by auto
  ultimately have "take n x \<in> behind d roots" using n r(1) unfolding behind_def by blast
  then show "\<exists>p. prefix p x \<and> p \<in> behind d roots" using take_is_prefix by blast
qed

definition base_blocks :: "elem set \<Rightarrow> elem \<Rightarrow> bool" where
  "base_blocks base x = list_ex (\<lambda>p. p \<in> base) (prefixes x)"

lemma base_blocks_iff: "base_blocks base x \<longleftrightarrow> (\<exists>p. prefix p x \<and> p \<in> base)"
  by (auto simp: base_blocks_def list_ex_iff)

lemma blocked_iff: "blocked s x \<longleftrightarrow> (\<exists>p. prefix p x \<and> p \<in> inertElements s)"
  by (auto simp: blocked_def list_ex_iff)

definition outside :: "elem list \<Rightarrow> elem \<Rightarrow> bool" where
  "outside roots x = list_all (\<lambda>r. \<not> prefix r x \<and> \<not> prefix x r) roots"

lemma outside_iff: "outside roots x \<longleftrightarrow> \<not> (\<exists>r \<in> set roots. prefix r x \<or> prefix x r)"
  by (auto simp: outside_def list_all_iff)

lemma fine_blocked:
  assumes "modal_fine base s" "last_entry (modalStack s) = Some e" "roots_apart (protected_roots e)"
  shows "blocked s x \<Longrightarrow> base_blocks base x \<or> outside (protected_roots e) x"
    and "prefix p x \<Longrightarrow> html_line (pageDom s) p \<Longrightarrow> outside (protected_roots e) p \<Longrightarrow> blocked s x"
    and "base_blocks base x \<Longrightarrow> blocked s x"
proof -
  have i: "inertElements s = base \<union> behind (pageDom s) (protected_roots e)"
    using assms(1,2) by (simp add: modal_fine_def stack_background_def)
  have "protected_roots e \<noteq> []" by (simp add: protected_roots_def)
  note b = background_blocks [OF assms(3) this]
  show "blocked s x \<Longrightarrow> base_blocks base x \<or> outside (protected_roots e) x"
    using b(1) [of x "pageDom s"] unfolding blocked_iff i base_blocks_iff outside_iff by blast
  show "prefix p x \<Longrightarrow> html_line (pageDom s) p \<Longrightarrow> outside (protected_roots e) p \<Longrightarrow> blocked s x"
    using b(2) [of "pageDom s" p] prefix_order.trans unfolding blocked_iff i outside_iff by blast
  show "base_blocks base x \<Longrightarrow> blocked s x" unfolding blocked_iff i base_blocks_iff by blast
qed

text \<open>C14: Only the top dialog is live. Open, close and reopen dialogs in any order, with any keys and moves of
  the focus in between, while the page changes its attributes and rebuilds any of its parts that hold
  none of the elements the manager remembers. With no dialog open, exactly what the page itself keeps
  inert is inert. With a dialog open whose roots (its own and its sibling roots) do not lie inside each
  other, an HTML element within HTML elements is blocked exactly when the page itself keeps it inert or
  when it is outside the top dialog: neither in one of its roots nor an ancestor of one. Other elements,
  as the parts of the inline drawings, are blocked with the HTML element around them that is outside,
  and never inside a root.\<close>

theorem only_the_top_dialog_is_live:
  assumes "s = run_events modal_step es (init_modals d a base)"
  shows "case last_entry (modalStack s) of
      None \<Rightarrow> inertElements s = base \<and> (blocked s x \<longleftrightarrow> base_blocks base x)
    | Some e \<Rightarrow> roots_apart (protected_roots e) \<longrightarrow>
        (html_line (pageDom s) x \<longrightarrow> (blocked s x \<longleftrightarrow> base_blocks base x \<or> outside (protected_roots e) x))
        \<and> (\<forall>p. prefix p x \<and> html_line (pageDom s) p \<and> outside (protected_roots e) p \<longrightarrow> blocked s x)
        \<and> (blocked s x \<longrightarrow> base_blocks base x \<or> outside (protected_roots e) x)"
proof -
  have f: "modal_fine base s" unfolding assms(1) by (rule modal_run_fine [OF init_modal_fine])
  show ?thesis
  proof (cases "last_entry (modalStack s)")
    case None
    then have "inertElements s = base" using f by (simp add: modal_fine_def stack_background_def)
    then show ?thesis using None by (simp add: blocked_iff base_blocks_iff)
  next
    case (Some e)
    have "roots_apart (protected_roots e) \<Longrightarrow>
        (html_line (pageDom s) x \<longrightarrow> (blocked s x \<longleftrightarrow> base_blocks base x \<or> outside (protected_roots e) x))
        \<and> (\<forall>p. prefix p x \<and> html_line (pageDom s) p \<and> outside (protected_roots e) p \<longrightarrow> blocked s x)
        \<and> (blocked s x \<longrightarrow> base_blocks base x \<or> outside (protected_roots e) x)"
      using fine_blocked [OF f Some] prefix_order.refl by blast
    then show ?thesis using Some by simp
  qed
qed

text \<open>A page with two panels and a footer; the second panel opens over the first.\<close>

definition info :: "string \<Rightarrow> bool \<Rightarrow> element_info" where
  "info tag f = \<lparr>elTag = tag, elAttrs = [], elHtml = True, elLaidOut = True, elTakesFocus = f\<rparr>"

definition button :: dom where
  "button = Dom (info ''BUTTON'' True) []"

definition two_panels :: dom where
  "two_panels = Dom (info ''BODY'' False)
     [Dom (info ''DIV'' True) [button, button], Dom (info ''DIV'' True) [button], Dom (info ''FOOTER'' False) [button]]"

definition plain_options :: modal_options where
  "plain_options = \<lparr>optDialog = None, optOpener = None, optInitialFocus = None, optSiblingRoots = [], optEscapes = True,
     optCollapses = False\<rparr>"

text \<open>The same page with an icon in the second button of the first panel, and a list of rows beside the footer.\<close>

definition with_icon :: "dom list \<Rightarrow> dom" where
  "with_icon rows = Dom (info ''BODY'' False)
     [Dom (info ''DIV'' True) [button, Dom (info ''BUTTON'' True) [Dom ((info ''svg'' False)\<lparr>elHtml := False\<rparr>) []]],
      Dom (info ''DIV'' True) [button], Dom (info ''FOOTER'' False) [button], Dom (info ''MAIN'' False) rows]"

definition panel_over_panel :: "modal_event list" where
  "panel_over_panel = [Opened [0] plain_options, PageChanged (with_icon [button]), Opened [1] plain_options]"

theorem only_the_top_dialog_is_live_witness:
  "let s = run_events modal_step panel_over_panel (init_modals (with_icon []) (Some [2, 0]) {}) in
     blocked s [0, 1] \<and> blocked s [0, 1, 0] \<and> \<not> html_line (pageDom s) [0, 1, 0] \<and> blocked s [3, 0] \<and> \<not> blocked s [1, 0]"
proof -
  define s where "s = run_events modal_step panel_over_panel (init_modals (with_icon []) (Some [2, 0]) {})"
  have "last_entry (modalStack s) = Some \<lparr>entryRoot = [1], entryDialog = [1], entryOpener = Some [0, 0], entryInitialFocus = None,
      entrySiblingRoots = [], entryEscapes = True, entryCollapses = False\<rparr>" (is "_ = Some ?e")
    and "pageDom s = with_icon [button]"
    and html: "html_line (with_icon [button]) [0, 1]" "\<not> html_line (with_icon [button]) [0, 1, 0]" "html_line (with_icon [button]) [1, 0]"
      "html_line (with_icon [button]) [3, 0]"
    unfolding s_def by code_simp+
  note parts = this
  have e: "protected_roots ?e = [[1]]" by (simp add: protected_roots_def)
  have r: "roots_apart [[1]]" by (simp add: roots_apart_def)
  note live = only_the_top_dialog_is_live [OF s_def, unfolded parts(1,2) option.case e]
  have "blocked s [0, 1]" "blocked s [3, 0]" "\<not> blocked s [1, 0]"
    using live [of "[0, 1]"] live [of "[3, 0]"] live [of "[1, 0]"] r html by (simp_all add: outside_def base_blocks_def)
  moreover have "blocked s [0, 1, 0]"
    using live [of "[0, 1, 0]"] r html(1) by (auto simp: outside_def intro: exI [of _ "[0, 1]"])
  ultimately show ?thesis using html(2) parts(2) by (simp add: Let_def flip: s_def)
qed

subsection \<open>Nested dialogs leave no trace\<close>

text \<open>What happens from the opening of a dialog to its closing: other dialogs, each closed before it,
  and between them keys, moves of the focus and changes of the page.\<close>

datatype session = Session elem modal_options "happening list"
  and happening = Dialog session | Meanwhile modal_event

fun session_events :: "session \<Rightarrow> modal_event list"
  and happening_events :: "happening \<Rightarrow> modal_event list" where
  "session_events (Session r opts hs) = Opened r opts # concat (List.map happening_events hs) @ [ModalClosed r]"
| "happening_events (Dialog x) = session_events x"
| "happening_events (Meanwhile ev) = [ev]"

fun beside_dialogs :: "modal_event \<Rightarrow> bool" where
  "beside_dialogs (Opened r opts) = False"
| "beside_dialogs (ModalClosed r) = False"
| "beside_dialogs ev = True"

definition takes_focus :: "dom \<Rightarrow> elem set \<Rightarrow> elem \<Rightarrow> bool" where
  "takes_focus d base x = (case node_at x d of None \<Rightarrow> False | Some n \<Rightarrow> elTakesFocus (dom_info n) \<and> \<not> base_blocks base x)"

text \<open>The dialog is not open yet, has an opener, which is inside the top dialog if there is one, and when it is closed
  that opener can still take the focus; and so for each dialog within.\<close>

definition opener_fits :: "elem option \<Rightarrow> modal_page \<Rightarrow> bool" where
  "opener_fits o' s = (case o' of None \<Rightarrow> False
     | Some x \<Rightarrow> (case last_entry (modalStack s) of None \<Rightarrow> True
         | Some e \<Rightarrow> prefix (entryRoot e) x \<and> roots_apart (protected_roots e)))"

fun session_ok :: "elem set \<Rightarrow> modal_page \<Rightarrow> session \<Rightarrow> bool"
  and happenings_ok :: "elem set \<Rightarrow> modal_page \<Rightarrow> happening list \<Rightarrow> bool" where
  "session_ok base s (Session r opts hs) =
     (r \<notin> set (List.map entryRoot (modalStack s)) \<and> opener_fits (entryOpener (new_entry r opts s)) s
      \<and> takes_focus (pageDom (run_events modal_step (concat (List.map happening_events hs)) (modal_open r opts s))) base
          (the (entryOpener (new_entry r opts s)))
      \<and> happenings_ok base (modal_open r opts s) hs)"
| "happenings_ok base s [] = True"
| "happenings_ok base s (Dialog x # hs) =
     (session_ok base s x \<and> happenings_ok base (run_events modal_step (session_events x) s) hs)"
| "happenings_ok base s (Meanwhile ev # hs) = (beside_dialogs ev \<and> happenings_ok base (modal_step ev s) hs)"

lemma run_append: "run_events step (es @ fs) s = run_events step fs (run_events step es s)"
  by (simp add: run_events_def)

lemma inside_focus:
  assumes "modal_fine base s" "case last_entry (modalStack s) of None \<Rightarrow> True | Some e \<Rightarrow> prefix (entryRoot e) x \<and> roots_apart (protected_roots e)"
    "takes_focus (pageDom s) base x"
  shows "can_focus s x"
proof -
  have "\<not> blocked s x"
  proof (cases "last_entry (modalStack s)")
    case None
    then have "inertElements s = base" using assms(1) by (simp add: modal_fine_def stack_background_def)
    then show ?thesis using assms(3) by (auto simp: takes_focus_def blocked_iff base_blocks_iff split: option.splits)
  next
    case (Some e)
    then have e: "prefix (entryRoot e) x" "roots_apart (protected_roots e)" using assms(2) by simp_all
    then have "\<not> outside (protected_roots e) x" by (simp add: outside_def protected_roots_def)
    moreover have "\<not> base_blocks base x" using assms(3) by (auto simp: takes_focus_def split: option.splits)
    ultimately show ?thesis using fine_blocked(1) [OF assms(1) Some e(2), of x] by blast
  qed
  then show ?thesis using assms(3) by (auto simp: can_focus_def takes_focus_def split: option.splits)
qed

text \<open>What a session keeps while it lasts: the stack below it and all that the stack makes inert.\<close>

definition holds_stack :: "elem set \<Rightarrow> modal_page \<Rightarrow> modal_page \<Rightarrow> bool" where
  "holds_stack base s u = (modal_fine base u \<and> modalStack u = modalStack s
     \<and> (\<forall>st. set st \<subseteq> set (modalStack s) \<longrightarrow> stack_background (pageDom u) st = stack_background (pageDom s) st))"

lemma holds_refl: "modal_fine base s \<Longrightarrow> holds_stack base s s"
  by (simp add: holds_stack_def)

lemma holds_trans: "holds_stack base s t \<Longrightarrow> holds_stack base t u \<Longrightarrow> holds_stack base s u"
  by (simp add: holds_stack_def)

lemma holds_beside:
  assumes "modal_fine base s" "beside_dialogs ev"
  shows "holds_stack base s (modal_step ev s)"
proof -
  have key: "inert_parts (snd (keydown k s)) = inert_parts s" for k
    by (simp add: keydown_def tab_to_def Let_def split: option.split key.split)
  have "modalStack (modal_step ev s) = modalStack s"
    using assms(2) key by (cases ev) (simp_all add: inert_parts_def)
  moreover have "stack_background (pageDom (modal_step ev s)) st = stack_background (pageDom s) st" if "set st \<subseteq> set (modalStack s)" for st
  proof (cases ev)
    case (PageChanged d)
    then show ?thesis using kept_background [OF _ that, of d] by simp
  qed (use assms(2) key in \<open>simp_all add: inert_parts_def\<close>)
  ultimately show ?thesis using modal_step_fine [OF assms(1)] by (simp add: holds_stack_def)
qed

lemma opened_stack:
  assumes "r \<notin> set (List.map entryRoot (modalStack s))"
  shows "modalStack (modal_open r opts s) = modalStack s @ [new_entry r opts s]" "pageDom (modal_open r opts s) = pageDom s"
proof -
  have "List.find (\<lambda>e. entryRoot e = r) (modalStack s) = None" using assms by (auto simp: find_None_iff)
  then have "modal_open r opts s = put_on_top (new_entry r opts s) s" by (simp add: modal_open_def)
  moreover have "inert_parts (put_on_top e s) = inert_parts (applyBackgroundInert (Some e) (s\<lparr>modalStack := modalStack s @ [e]\<rparr>))" for e
    by (simp add: put_on_top_def)
  ultimately show "modalStack (modal_open r opts s) = modalStack s @ [new_entry r opts s]" "pageDom (modal_open r opts s) = pageDom s"
    by (simp_all add: inert_parts_def applied_background)
qed

lemma close_returns:
  assumes "modal_fine base s" "modal_fine base u" "r \<notin> set (List.map entryRoot (modalStack s))"
    "modalStack u = modalStack s @ [e]" "entryRoot e = r" "entryOpener e = Some x" "opener_fits (Some x) s"
    "takes_focus (pageDom u) base x" "stack_background (pageDom u) (modalStack s) = stack_background (pageDom s) (modalStack s)"
  shows "modal_close r u = s\<lparr>pageDom := pageDom u, activeElement := Some x\<rparr>"
proof -
  have others: "\<forall>y \<in> set (modalStack s). entryRoot y \<noteq> r" using assms(3) by auto
  have find: "List.find (\<lambda>e. entryRoot e = r) (xs @ [y]) = Some y" if "\<forall>y \<in> set xs. entryRoot y \<noteq> r" "entryRoot y = r" for xs y
    using that by (induction xs) auto
  have f: "List.find (\<lambda>e. entryRoot e = r) (modalStack u) = Some e" using find [OF others assms(5)] by (simp add: assms(4))
  have w: "without_root r (modalStack u) = modalStack s"
    using others assms(5) by (simp add: assms(4) without_root_def extract_Some_iff [THEN iffD2])
  let ?t = "applyBackgroundInert (last_entry (modalStack s)) (u\<lparr>modalStack := modalStack s\<rparr>)"
  have dist: "distinct (List.map entryRoot (modalStack s))" using assms(1) by (simp add: modal_fine_def)
  have t: "?t = u\<lparr>modalStack := modalStack s, inertElements := inertElements s, managedInertElements := managedInertElements s\<rparr>"
    using applied_fine(2) [of "u\<lparr>modalStack := modalStack s\<rparr>" base] fine_base [OF assms(2)] dist assms(1,9)
    by (simp add: modal_fine_def)
  have "modal_fine base ?t"
    using applied_fine(1) [of "u\<lparr>modalStack := modalStack s\<rparr>" base] fine_base [OF assms(2)] dist by simp
  then have "can_focus ?t x" using assms(7,8) by (intro inside_focus [of base]) (simp_all add: t opener_fits_def)
  then have "snd (focusElement (Some x) ?t) = ?t\<lparr>activeElement := Some x\<rparr>" by (simp add: focusElement_def)
  moreover have "?t\<lparr>activeElement := Some x\<rparr> = s\<lparr>pageDom := pageDom u, activeElement := Some x\<rparr>" by (simp add: t)
  moreover have "modal_close r u = snd (focusElement (Some x) ?t)"
    unfolding modal_close_def f option.case Let_def w using assms(4-7)
    by (simp add: opener_fits_def split: option.splits)
  ultimately show ?thesis by simp
qed

lemma sessions_return:
  "modal_fine base s \<Longrightarrow> session_ok base s x \<Longrightarrow> holds_stack base s (run_events modal_step (session_events x) s)
     \<and> (case x of Session r opts hs \<Rightarrow> run_events modal_step (session_events x) s
        = s\<lparr>pageDom := pageDom (run_events modal_step (session_events x) s), activeElement := entryOpener (new_entry r opts s)\<rparr>)"
  "modal_fine base s \<Longrightarrow> happenings_ok base s hs \<Longrightarrow>
     holds_stack base s (run_events modal_step (concat (List.map happening_events hs)) s)"
proof (induction base s x and base s hs rule: session_ok_happenings_ok.induct)
  case (1 base s r opts hs)
  let ?t = "modal_open r opts s"
  let ?u = "run_events modal_step (concat (List.map happening_events hs)) ?t"
  have new: "r \<notin> set (List.map entryRoot (modalStack s))" using "1.prems"(2) by simp
  obtain y where y: "entryOpener (new_entry r opts s) = Some y" "opener_fits (Some y) s"
    using "1.prems"(2) by (auto simp: opener_fits_def split: option.splits)
  have "modal_fine base ?t" using modal_step_fine [OF "1.prems"(1), of "Opened r opts"] by simp
  then have u: "holds_stack base ?t ?u" using "1.prems"(2) by (intro "1.IH") simp_all
  have st: "modalStack ?u = modalStack s @ [new_entry r opts s]" using u opened_stack [OF new] by (simp add: holds_stack_def)
  have bg: "stack_background (pageDom ?u) xs = stack_background (pageDom s) xs" if "set xs \<subseteq> set (modalStack s)" for xs
    using u that opened_stack [OF new] by (auto simp: holds_stack_def)
  have "modal_close r ?u = s\<lparr>pageDom := pageDom ?u, activeElement := Some y\<rparr>"
    using "1.prems" u y st bg [OF order_refl]
    by (intro close_returns [OF "1.prems"(1) _ new, where e = "new_entry r opts s" and x = y])
      (simp_all add: holds_stack_def new_entry_def)
  moreover have "run_events modal_step (session_events (Session r opts hs)) s = modal_close r ?u" by (simp add: run_append)
  moreover have "modal_fine base (modal_close r ?u)"
    using u modal_step_fine [of base ?u "ModalClosed r"] by (simp add: holds_stack_def)
  ultimately show ?case using y(1) bg by (simp add: holds_stack_def)
next
  case (2 base s)
  then show ?case by (simp add: holds_refl)
next
  case (3 base s x hs)
  have x: "holds_stack base s (run_events modal_step (session_events x) s)" using 3 by simp
  then have "modal_fine base (run_events modal_step (session_events x) s)" by (simp add: holds_stack_def)
  then show ?case using 3 holds_trans [OF x] by (simp add: run_append)
next
  case (4 base s ev hs)
  have e: "holds_stack base s (modal_step ev s)" using 4 holds_beside by simp
  then have "modal_fine base (modal_step ev s)" by (simp add: holds_stack_def)
  then show ?case using 4 holds_trans [OF e] by simp
qed

text \<open>C15: A dialog that is opened and closed leaves no trace, whatever happens meanwhile: other dialogs may
  be opened and closed within it, each before it, in any depth, and in between come keys, moves of the focus
  and changes of the page (of its attributes, and of any parts that hold none of the elements the manager
  remembers). When it is closed the stack, the inert elements and the managed ones are those of the moment it
  was opened, and the focus is on its opener: the element named by the caller, otherwise the one that had the
  focus. So a dialog that names no opener restores the whole state but for what the page changed itself.
  Each dialog must be new on the stack and have an opener; the opener must lie in the top dialog if there
  is one, whose roots do not lie inside each other, and must still be able to take the focus in the
  end.\<close>

theorem nested_dialogs_leave_no_trace:
  assumes "s = run_events modal_step es (init_modals d a0 base)" "session_ok base s (Session r opts hs)"
    "t = run_events modal_step (session_events (Session r opts hs)) s"
  shows "modalStack t = modalStack s \<and> inertElements t = inertElements s \<and> managedInertElements t = managedInertElements s
    \<and> activeElement t = (case optOpener opts of Some x \<Rightarrow> Some x | None \<Rightarrow> activeElement s)
    \<and> (optOpener opts = None \<longrightarrow> t = s\<lparr>pageDom := pageDom t\<rparr>)"
proof -
  have f: "modal_fine base s" unfolding assms(1) by (rule modal_run_fine [OF init_modal_fine])
  have t: "t = s\<lparr>pageDom := pageDom t, activeElement := entryOpener (new_entry r opts s)\<rparr>"
    using sessions_return(1) [OF f assms(2)] assms(3) by simp
  have "entryOpener (new_entry r opts s) = (case optOpener opts of Some x \<Rightarrow> Some x | None \<Rightarrow> activeElement s)"
    using assms(2) by (auto simp: opener_fits_def new_entry_def default_opener_def split: option.splits if_splits)
  moreover have "modalStack t = modalStack s" "inertElements t = inertElements s" "managedInertElements t = managedInertElements s"
    "activeElement t = entryOpener (new_entry r opts s)"
    by (subst t, simp)+
  moreover have "t = s\<lparr>pageDom := pageDom t\<rparr>" if "entryOpener (new_entry r opts s) = activeElement s"
    using t that by (cases s) simp
  ultimately show ?thesis by auto
qed

definition named_opener :: "elem \<Rightarrow> modal_options" where
  "named_opener x = plain_options\<lparr>optOpener := Some x\<rparr>"

definition nested_visit :: session where
  "nested_visit = Session [0] plain_options
     [Meanwhile (PageChanged (with_icon [button])), Dialog (Session [1] (named_opener [0, 1]) [Meanwhile (KeyPressed (Tab False))]),
      Meanwhile (PageChanged (with_icon [])), Dialog (Session [1] plain_options [])]"

theorem nested_dialogs_leave_no_trace_witness:
  "run_events modal_step (session_events nested_visit) (init_modals (with_icon []) (Some [2, 0]) {})
     = init_modals (with_icon []) (Some [2, 0]) {}
   \<and> depth (run_events modal_step (take 3 (session_events nested_visit)) (init_modals (with_icon []) (Some [2, 0]) {})) = 2
   \<and> activeElement (run_events modal_step (take 5 (session_events nested_visit)) (init_modals (with_icon []) (Some [2, 0]) {})) = Some [0, 1]"
proof -
  let ?s = "init_modals (with_icon []) (Some [2, 0]) {}"
  have s: "?s = run_events modal_step [] (init_modals (with_icon []) (Some [2, 0]) {})" by simp
  have ok: "session_ok {} ?s nested_visit"
    and p: "pageDom (run_events modal_step (session_events nested_visit) ?s) = pageDom ?s"
    and d: "depth (run_events modal_step (take 3 (session_events nested_visit)) ?s) = 2"
    and f: "activeElement (run_events modal_step (take 5 (session_events nested_visit)) ?s) = Some [0, 1]"
    by code_simp+
  have v: "nested_visit = Session [0] plain_options
     [Meanwhile (PageChanged (with_icon [button])), Dialog (Session [1] (named_opener [0, 1]) [Meanwhile (KeyPressed (Tab False))]),
      Meanwhile (PageChanged (with_icon [])), Dialog (Session [1] plain_options [])]"
    by (rule nested_visit_def)
  have "run_events modal_step (session_events nested_visit) ?s = ?s"
    using nested_dialogs_leave_no_trace [OF s ok [unfolded v] refl] p unfolding v by (simp add: plain_options_def)
  with d f show ?thesis by simp
qed

end
