(* ===== verification/Saved_Actions.thy ===== *)
theory Saved_Actions
  imports Measurement_Job Draining
begin

section \<open>Saved measurements\<close>

text \<open>
  static/measurement_saved_actions.js beside the measurement job: saving what was measured, deleting and
  merging saved measurements, with the read of the list they end with (\<open>fetchMeasurements\<close> of static/app.js)
  and the checkboxes of static/measurement_saved_ui.js. All of them share the measurement state with the job, which
  goes on while a request waits. A call that waits is a task; \<open>saveInFlight\<close> is their common lock. Entries
  and traces are objects, as every flow stores them, and the current entry is in its normal form. Of a list that is read, the setup and the calibration
  files are left out.
\<close>

subsection \<open>State\<close>

text \<open>How a request settles: with an error, or with a status, a text and what parsing the text gives.\<close>

datatype saved_reply = SvLost string | SvReply nat string "string + jsval"

fun reply_ok :: "saved_reply \<Rightarrow> bool" where
  "reply_ok (SvLost m) = False"
| "reply_ok (SvReply st t b) = (200 \<le> st \<and> st \<le> 299)"

fun body_or_empty :: "saved_reply \<Rightarrow> jsval" where
  "body_or_empty (SvReply st t (Inr v)) = v"
| "body_or_empty r = JObj []"

text \<open>What is left to do once the list has been read: nothing for a read of its own, or the end of an action.\<close>

datatype after_list = Alone | AfterSave | AfterDelete | AfterMerge string string

text \<open>
  A waiting call: the payload being saved, the id being deleted, the entry being deleted with those after it, the
  name of a merge, a read of the list.
\<close>

datatype saved_task =
    SavingEntries jsval
  | DeletingOne string
  | DeletingNext jsval "jsval list"
  | MergingInto string
  | ReadingList after_list

datatype saved_request = PostSave jsval | DeleteOf string | PostMerge string "string list" | GetList

record saved_page =
  jobs :: job_page
  saveInFlight :: bool
  listLoading :: bool
  savedList :: "jsval list"
  visibilityById :: jsval
  measurementsLoadErrorText :: string
  savedTasks :: "saved_task list"
  savedRequests :: "saved_request list"

definition init_saved :: saved_page where
  "init_saved = \<lparr>jobs = init_job_page, saveInFlight = False, listLoading = False, savedList = [], visibilityById = JObj [],
     measurementsLoadErrorText = [], savedTasks = [], savedRequests = []\<rparr>"

definition on_m :: "(meas \<Rightarrow> meas) \<Rightarrow> saved_page \<Rightarrow> saved_page" where
  "on_m f s = s\<lparr>jobs := on_meas f (jobs s)\<rparr>"

abbreviation run_state :: "saved_page \<Rightarrow> meas" where
  "run_state s \<equiv> meas (jobs s)"

definition show_status :: "string \<Rightarrow> saved_page \<Rightarrow> saved_page" where
  "show_status t = on_m (\<lambda>m. m\<lparr>statusText := t\<rparr>)"

definition saved_toast :: "string \<Rightarrow> string \<Rightarrow> saved_page \<Rightarrow> saved_page" where
  "saved_toast t kind s = s\<lparr>jobs := job_toast t kind (jobs s)\<rparr>"

definition send_saved :: "saved_request \<Rightarrow> saved_task \<Rightarrow> saved_page \<Rightarrow> saved_page" where
  "send_saved r t s = s\<lparr>savedTasks := savedTasks s @ [t], savedRequests := r # savedRequests s\<rparr>"

text \<open>The lock is taken with the text of the action, before its first request.\<close>

definition claim_lock :: "string \<Rightarrow> saved_page \<Rightarrow> saved_page" where
  "claim_lock t s = show_status t (s\<lparr>saveInFlight := True\<rparr>)"

definition release_lock :: "saved_page \<Rightarrow> saved_page" where
  "release_lock s = s\<lparr>saveInFlight := False\<rparr>"

subsection \<open>The list\<close>

definition visible :: "string \<Rightarrow> bool \<Rightarrow> saved_page \<Rightarrow> saved_page" where
  "visible i b s = s\<lparr>visibilityById := jput i (JBool b) (visibilityById s)\<rparr>"

definition review_hidden :: "string \<Rightarrow> saved_page \<Rightarrow> saved_page" where
  "review_hidden i = on_m (\<lambda>m. m\<lparr>reviewVisibilityById := jput i (JBool False) (reviewVisibilityById m)\<rparr>)"

definition forget :: "string \<Rightarrow> saved_page \<Rightarrow> saved_page" where
  "forget i s = on_m (\<lambda>m. m\<lparr>reviewVisibilityById := jdel i (reviewVisibilityById m)\<rparr>)
     (s\<lparr>visibilityById := jdel i (visibilityById s)\<rparr>)"

definition normalizeMeasurementReviewVisibility :: "jsval list \<Rightarrow> jsval \<Rightarrow> jsval" where
  "normalizeMeasurementReviewVisibility ms previous =
     fold (\<lambda>m next. jput (entry_id m) (case jget previous (entry_id m) of JBool b \<Rightarrow> JBool b | _ \<Rightarrow> JBool False) next)
       ms (JObj [])"

definition getSavedListMeasurements :: "saved_page \<Rightarrow> jsval list" where
  "getSavedListMeasurements s =
     filter (\<lambda>e. \<not> js_seq (jget e ''id'') (jget (currentMeasurement (run_state s)) ''id'')) (savedList s)"

definition getVisibleMeasurementEntries :: "saved_page \<Rightarrow> jsval list" where
  "getVisibleMeasurementEntries s =
     filter (\<lambda>e. truthy (jget (visibilityById s) (entry_id e))) (getSavedListMeasurements s)"

definition fetchMeasurements :: "after_list \<Rightarrow> saved_page \<Rightarrow> saved_page" where
  "fetchMeasurements k s = send_saved GetList (ReadingList k) (s\<lparr>listLoading := True\<rparr>)"

definition normalized_entries :: "jsval list \<Rightarrow> jsval list" where
  "normalized_entries es = List.map (\<lambda>(i, e). normalizeMeasurementEntry e i) (List.enumerate 0 es)"

definition list_failed :: "string \<Rightarrow> saved_page \<Rightarrow> saved_page" where
  "list_failed message s =
     (let t = or_default message ''Failed to load measurements''
      in saved_toast ''Measurements could not be loaded'' ''error'' (show_status t (s\<lparr>measurementsLoadErrorText := t\<rparr>)))"

definition list_read :: "jsval \<Rightarrow> saved_page \<Rightarrow> saved_page" where
  "list_read data s =
     (let es = normalized_entries (arr_items (jget data ''measurements''));
          s1 = s\<lparr>savedList := es, visibilityById := normalizeMeasurementVisibility es (visibilityById s)\<rparr>;
          s2 = on_m (\<lambda>m. m\<lparr>reviewVisibilityById := normalizeMeasurementReviewVisibility es (reviewVisibilityById m)\<rparr>) s1
      in if statusText (run_state s2) = measurementsLoadErrorText s2 then show_status [] s2 else s2)"

text \<open>A read of the list up to its end; it never fails towards its caller.\<close>

definition list_answered :: "saved_reply \<Rightarrow> saved_page \<Rightarrow> saved_page" where
  "list_answered r s =
     (case r of
        SvLost m \<Rightarrow> list_failed m s
      | SvReply st t body \<Rightarrow>
          if \<not> reply_ok r then list_failed ''Failed to fetch measurements'' s
          else (case body of
                  Inl m \<Rightarrow> list_failed m s
                | Inr data \<Rightarrow> if nullish data then list_failed (null_read_error data ''measurements'') s else list_read data s))
     \<lparr>listLoading := False\<rparr>"

text \<open>The caller goes on.\<close>

definition after_read :: "after_list \<Rightarrow> saved_page \<Rightarrow> saved_page" where
  "after_read k s =
     (case k of
        Alone \<Rightarrow> s
      | AfterSave \<Rightarrow> release_lock (saved_toast ''Measurement saved'' ''success'' s)
      | AfterDelete \<Rightarrow> release_lock s
      | AfterMerge i name \<Rightarrow> release_lock (saved_toast (''Created merged measurement: '' @ name) ''success''
                              (if i \<noteq> [] then visible i True s else s)))"

text \<open>The \<open>catch\<close> block of an action.\<close>

definition report_failure :: "string \<Rightarrow> string \<Rightarrow> saved_page \<Rightarrow> saved_page" where
  "report_failure message fallback s =
     (let t = or_default message fallback in saved_toast t ''error'' (show_status t s))"

text \<open>The message an action fails with on a reply, if it fails; \<open>data.detail\<close> of a missing body fails by itself.\<close>

definition refusal :: "saved_reply \<Rightarrow> string \<Rightarrow> string option" where
  "refusal r fallback =
     (case r of
        SvLost m \<Rightarrow> Some m
      | SvReply st t b \<Rightarrow> if reply_ok r then None else Some (command_error (body_or_empty r) fallback))"

subsection \<open>Saving\<close>

definition is_right :: "jsval \<Rightarrow> bool" where
  "is_right v = (lower_case (str_or_empty v) = ''right'')"

text \<open>\<open>traceLabel.replace(/^AutoSub\\s+/, '')\<close>.\<close>

definition without_prefix :: "string \<Rightarrow> string" where
  "without_prefix label =
     (if starts_with label ''AutoSub'' \<and> (case drop 7 label of c # t \<Rightarrow> is_space c | [] \<Rightarrow> False)
      then trim_start (drop 7 label) else label)"

definition auto_sub_item :: "string \<Rightarrow> jsval \<Rightarrow> jsval \<Rightarrow> jsval" where
  "auto_sub_item baseName m tr =
     (let ch = (if is_right (js_or (jget tr ''role'') (jget tr ''channel'')) then ''right'' else ''left'');
          suffix = without_prefix (to_str (js_or (js_or (jget tr ''label'') (jget m ''name'')) (JStr ''AutoSub'')))
      in JObj [(''id'', JStr (to_str (jget m ''id'') @ ''-'' @ ch)),
               (''name'', JStr (if suffix \<noteq> [] then baseName @ '' '' @ suffix else baseName)),
               (''channel'', JStr ch),
               (''traces'', JArr [jput ''channel'' (JStr ch) tr]),
               (''measurement_kind'', js_or (jget m ''measurement_kind'') (JStr ''auto_sub'')),
               (''autosub_meta'', js_or (jget m ''autosub_meta'') JNull)])"

definition takeSuffix :: "string \<Rightarrow> string option" where
  "takeSuffix = map_of [(''before'', ''Before''), (''after'', ''After'')]"

definition repeat_suffix :: "jsval \<Rightarrow> string" where
  "repeat_suffix item =
     (case takeSuffix (to_str (jpath item [''speaker_align_take'', ''take''])) of
        Some t \<Rightarrow> t
      | None \<Rightarrow> to_str (js_or (jget item ''save_suffix'') (JStr (if is_right (jget item ''channel'') then ''R'' else ''L''))))"

definition repeat_item :: "string \<Rightarrow> jsval \<Rightarrow> jsval" where
  "repeat_item baseName m =
     jdel ''save_suffix'' (jput ''name'' (JStr (baseName @ '' '' @ mid_dot @ '' '' @ repeat_suffix m)) (clone m))"

definition base_name :: "meas \<Rightarrow> string \<Rightarrow> string" where
  "base_name m fallback = or_default (trim (currentMeasurementName m)) fallback"

definition single_name :: "meas \<Rightarrow> jsval" where
  "single_name m =
     (let cur = currentMeasurement m;
          typed = trim (or_default (currentMeasurementName m) (str_or_empty (jget cur ''name'')))
      in if typed \<noteq> [] then JStr typed else js_or (jget cur ''name'') (JStr ''Measurement''))"

text \<open>What a save takes: the Auto Sub measurements, else the pending pair or series, else the current measurement. (A
  success clears the others with them: \<open>clear_measured\<close>.)\<close>

definition saved_sources :: "meas \<Rightarrow> jsval list" where
  "saved_sources m =
     (if autoSubMeasurements m \<noteq> [] then autoSubMeasurements m
      else if pendingRepeatMeasurements m \<noteq> [] then pendingRepeatMeasurements m
      else if truthy (currentMeasurement m) then [currentMeasurement m] else [])"

definition save_payload :: "meas \<Rightarrow> jsval" where
  "save_payload m =
     (if autoSubMeasurements m \<noteq> []
      then JObj [(''measurements'', JArr (List.concat (List.map
             (\<lambda>e. List.map (auto_sub_item (base_name m ''AutoSub'') e) (arr_items (jget e ''traces'')))
             (autoSubMeasurements m))))]
      else if pendingRepeatMeasurements m \<noteq> []
      then JObj [(''measurements'', JArr (List.map (repeat_item (base_name m ''L/R Repeat'')) (pendingRepeatMeasurements m)))]
      else jput ''name'' (single_name m) (clone (currentMeasurement m)))"

definition can_save :: "meas \<Rightarrow> bool" where
  "can_save m = (autoSubMeasurements m \<noteq> [] \<or> truthy (currentMeasurement m) \<and> \<not> currentMeasurementSaved m)"

definition saveCurrentMeasurement :: "saved_page \<Rightarrow> saved_page" where
  "saveCurrentMeasurement s =
     (if \<not> can_save (run_state s) \<or> saveInFlight s then s
      else let payload = save_payload (run_state s)
           in send_saved (PostSave payload) (SavingEntries payload)
                (claim_lock (''Saving current measurement'' @ ellipsis) s))"

definition clear_measured :: "meas \<Rightarrow> meas" where
  "clear_measured m = m\<lparr>currentMeasurement := JNull, pendingRepeatMeasurements := [], autoSubMeasurements := [],
     currentMeasurementSaved := False, currentMeasurementName := [], statusText := ''Measurement saved.''\<rparr>"

definition saved_entries :: "jsval \<Rightarrow> jsval \<Rightarrow> jsval list" where
  "saved_entries payload data =
     (case jget data ''measurements'' of
        JArr es \<Rightarrow> normalized_entries es
      | _ \<Rightarrow> [normalizeMeasurementEntry (js_or (jget data ''measurement'') payload) 0])"

definition saving_failed :: "string \<Rightarrow> saved_page \<Rightarrow> saved_page" where
  "saving_failed message s = release_lock (report_failure message ''Failed to save measurement'' s)"

definition save_answered :: "jsval \<Rightarrow> saved_reply \<Rightarrow> saved_page \<Rightarrow> saved_page" where
  "save_answered payload r s =
     (case refusal r ''Failed to save measurement'' of
        Some message \<Rightarrow> saving_failed message s
      | None \<Rightarrow>
          (let data = body_or_empty r in
           if nullish data then saving_failed (null_read_error data ''measurements'') s
           else fetchMeasurements AfterSave (on_m clear_measured
                  (fold (\<lambda>e t. review_hidden (entry_id e) (visible (entry_id e) True t)) (saved_entries payload data) s))))"

subsection \<open>Deleting\<close>

definition deleteMeasurement :: "string \<Rightarrow> bool \<Rightarrow> saved_page \<Rightarrow> saved_page" where
  "deleteMeasurement i confirmed s =
     (if i = [] \<or> saveInFlight s \<or> startInFlight (run_state s) \<or> \<not> confirmed then s
      else send_saved (DeleteOf i) (DeletingOne i) (claim_lock (''Deleting saved measurement'' @ ellipsis) s))"

definition deleted_all :: "saved_page \<Rightarrow> saved_page" where
  "deleted_all s = fetchMeasurements AfterDelete (show_status ''Saved runs updated.'' s)"

definition delete_answered :: "string \<Rightarrow> saved_reply \<Rightarrow> saved_page \<Rightarrow> saved_page" where
  "delete_answered i r s =
     (case refusal r ''Failed to delete measurement'' of
        Some message \<Rightarrow> release_lock (report_failure message ''Failed to delete measurement'' s)
      | None \<Rightarrow> deleted_all (forget i s))"

definition delete_next :: "jsval list \<Rightarrow> saved_page \<Rightarrow> saved_page" where
  "delete_next es s =
     (case es of [] \<Rightarrow> deleted_all s | e # rest \<Rightarrow> send_saved (DeleteOf (entry_id e)) (DeletingNext e rest) s)"

definition deleteSelectedMeasurements :: "bool \<Rightarrow> saved_page \<Rightarrow> saved_page" where
  "deleteSelectedMeasurements confirmed s =
     (let es = getVisibleMeasurementEntries s in
      if saveInFlight s \<or> startInFlight (run_state s) then s
      else if es = [] then saved_toast ''No saved measurements selected'' ''warning'' s
      else if \<not> confirmed then s
      else delete_next es (claim_lock
             (''Deleting '' @ (if length es = 1 then ''saved measurement'' else ''saved measurements'') @ ellipsis) s))"

definition delete_next_answered :: "jsval \<Rightarrow> jsval list \<Rightarrow> saved_reply \<Rightarrow> saved_page \<Rightarrow> saved_page" where
  "delete_next_answered e rest r s =
     (case refusal r (''Failed to delete '' @ to_str (jget e ''name'')) of
        Some message \<Rightarrow> fetchMeasurements AfterDelete (report_failure message ''Failed to delete selected measurements'' s)
      | None \<Rightarrow> delete_next rest (forget (entry_id e) s))"

subsection \<open>Merging\<close>

text \<open>The argument is the answer to the prompt.\<close>

definition mergeSelectedMeasurements :: "string option \<Rightarrow> saved_page \<Rightarrow> saved_page" where
  "mergeSelectedMeasurements requestedName s =
     (let es = getVisibleMeasurementEntries s in
      if saveInFlight s \<or> startInFlight (run_state s) then s
      else if length es < 2 then saved_toast ''Select at least two saved measurements to merge'' ''warning'' s
      else case requestedName of
        None \<Rightarrow> s
      | Some n \<Rightarrow>
          (let name = or_default (trim n) (''Merged '' @ nat_str (length es) @ '' measurements'')
           in send_saved (PostMerge name (List.map entry_id es)) (MergingInto name)
                (claim_lock (''Merging '' @ nat_str (length es) @ '' saved measurements'' @ ellipsis) s)))"

definition reply_text :: "saved_reply \<Rightarrow> string" where
  "reply_text r = (case r of SvLost m \<Rightarrow> [] | SvReply st t b \<Rightarrow> t)"

definition merge_failed :: "string \<Rightarrow> saved_page \<Rightarrow> saved_page" where
  "merge_failed message s = release_lock (report_failure message ''Failed to merge selected measurements'' s)"

definition merge_answered :: "string \<Rightarrow> saved_reply \<Rightarrow> saved_page \<Rightarrow> saved_page" where
  "merge_answered name r s =
     (case refusal r (or_default (trim (reply_text r)) ''Failed to merge selected measurements'') of
        Some message \<Rightarrow> merge_failed message s
      | None \<Rightarrow>
          (let data = body_or_empty r in
           if nullish data then merge_failed (null_read_error data ''measurement'') s
           else let merged = normalizeMeasurementEntry (js_or (jget data ''measurement'') (JObj [])) 0;
                    i = entry_id merged
                in fetchMeasurements (AfterMerge i (or_default (to_str (jget merged ''name'')) name))
                     (show_status ''Merged measurement saved.''
                       (if i \<noteq> [] then review_hidden i (visible i True s) else s))))"

subsection \<open>Steps\<close>

definition saved_continues :: "saved_task \<Rightarrow> saved_reply \<Rightarrow> saved_page \<Rightarrow> saved_page" where
  "saved_continues t r s =
     (case t of
        SavingEntries payload \<Rightarrow> save_answered payload r s
      | DeletingOne i \<Rightarrow> delete_answered i r s
      | DeletingNext e rest \<Rightarrow> delete_next_answered e rest r s
      | MergingInto name \<Rightarrow> merge_answered name r s
      | ReadingList k \<Rightarrow> after_read k (list_answered r s))"

definition saved_answered :: "nat \<Rightarrow> saved_reply \<Rightarrow> saved_page \<Rightarrow> saved_page" where
  "saved_answered n r s =
     (if n < length (savedTasks s)
      then saved_continues (savedTasks s ! n) r (s\<lparr>savedTasks := take n (savedTasks s) @ drop (Suc n) (savedTasks s)\<rparr>)
      else s)"

definition select_all :: "bool \<Rightarrow> saved_page \<Rightarrow> saved_page" where
  "select_all b s = fold (\<lambda>e. visible (entry_id e) b) (getSavedListMeasurements s) s"

text \<open>
  The clicks, the answer to the request of the task at a position, the checkboxes, a read of the list by another
  part of the page, and what the job does.
\<close>

datatype saved_event =
    SaveClicked
  | DeleteCalled string bool
  | DeleteSelectedClicked bool
  | MergeClicked "string option"
  | SavedAnswered nat saved_reply
  | VisibilityToggled string bool
  | AllToggled bool
  | ListWanted
  | JobEvent job_event

fun saved_step :: "(jsval \<Rightarrow> string + string) \<Rightarrow> saved_event \<Rightarrow> saved_page \<Rightarrow> saved_page" where
  "saved_step timing SaveClicked s = saveCurrentMeasurement s"
| "saved_step timing (DeleteCalled i b) s = deleteMeasurement i b s"
| "saved_step timing (DeleteSelectedClicked b) s = deleteSelectedMeasurements b s"
| "saved_step timing (MergeClicked n) s = mergeSelectedMeasurements n s"
| "saved_step timing (SavedAnswered n r) s = saved_answered n r s"
| "saved_step timing (VisibilityToggled i b) s = visible i b s"
| "saved_step timing (AllToggled b) s = select_all b s"
| "saved_step timing ListWanted s = fetchMeasurements Alone s"
| "saved_step timing (JobEvent e) s = s\<lparr>jobs := job_step timing e (jobs s)\<rparr>"

end
