(* ===== verification/Saved_Results.thy ===== *)
theory Saved_Results
  imports Saved_Actions Measurement_Claims
begin

section \<open>Measured results between two runs\<close>

text \<open>
  What the job does to the results it keeps: a started run gives up a pending pair, which the current
  measurement is the first of, a finished run puts its own in place, and nothing else changes them.
\<close>

subsection \<open>Steps that leave the results alone\<close>

definition same_results :: "meas \<Rightarrow> meas \<Rightarrow> bool" where
  "same_results m m' = (currentMeasurement m' = currentMeasurement m \<and> autoSubMeasurements m' = autoSubMeasurements m
     \<and> pendingRepeatMeasurements m' = pendingRepeatMeasurements m \<and> jobGeneration m' = jobGeneration m)"

lemma same_results_refl [simp]: "same_results m m"
  by (simp add: same_results_def)

lemma same_results_trans: "same_results a b \<Longrightarrow> same_results b c \<Longrightarrow> same_results a c"
  by (simp add: same_results_def)

lemma same_results_helpers [simp]:
  "same_results a (m\<lparr>statusText := t\<rparr>) = same_results a m"
  "same_results a (m\<lparr>startInFlight := b\<rparr>) = same_results a m"
  "same_results a (m\<lparr>activeJobId := t\<rparr>) = same_results a m"
  "same_results a (m\<lparr>activeMeasurementKind := t\<rparr>) = same_results a m"
  "same_results a (m\<lparr>repeatJobActive := b\<rparr>) = same_results a m"
  "same_results a (m\<lparr>cancelRequested := b\<rparr>) = same_results a m"
  "same_results a (m\<lparr>reviewVisibilityById := v\<rparr>) = same_results a m"
  "same_results a (clearSweepProgress m) = same_results a m"
  "same_results a (setSweepProgress t m) = same_results a m"
  "same_results a (setProgress t m) = same_results a m"
  "same_results a (settle_flags m) = same_results a m"
  "same_results a (clear_job m) = same_results a m"
  "same_results a (finishSweep t m) = same_results a m"
  "same_results a (show_progress job m) = same_results a m"
  "same_results a (take_job k job m) = same_results a m"
  by (simp_all add: same_results_def meas_defs settle_flags_def show_progress_def take_job_def Let_def)

text \<open>A call goes on: it ends or waits again, past its start, and the results stay.\<close>

definition goes_on :: "job_kind \<Rightarrow> nat \<Rightarrow> nat \<Rightarrow> job_page \<Rightarrow> job_page \<Rightarrow> bool" where
  "goes_on k g i s t = (same_results (meas s) (meas t)
     \<and> (tasks t = others i (tasks s) \<or> (\<exists>st. st \<noteq> Flushing \<and> tasks t = (i, Start k g st) # others i (tasks s))))"

lemma goes_on_ends:
  assumes "same_results (meas s) (meas t)" "tasks t = tasks s"
  shows "goes_on k g i s (start_finally g' i t)" "goes_on k g i s (start_failed k' g' i m t)"
    "goes_on k g i s (poll_interrupted g' i p m t)"
  using assms by (auto simp: goes_on_def start_finally_def start_failed_def poll_interrupted_def others_def)

lemma goes_on_wait:
  "same_results (meas s) (meas t) \<Longrightarrow> tasks t = tasks s \<Longrightarrow> st \<noteq> Flushing \<Longrightarrow> goes_on k g i s (wait i (Start k g st) t)"
  by (auto simp: goes_on_def others_def)

lemma goes_on_polls:
  assumes "same_results (meas s) (meas t)" "tasks t = tasks s"
  shows "goes_on k g i s (poll_enter k g i p t)" "goes_on k g i s (poll_error k g i p m t)"
    "goes_on k g i s (job_read k g i p job t)" "goes_on k g i s (after_cancel k g i t)"
  using assms by (auto simp: poll_enter_def poll_error_def job_read_def after_cancel_def pollMeasurementJob_def Let_def
      intro!: goes_on_ends goes_on_wait)

lemma cancel_answered_results: "same_results (meas s) (meas (cancel_answered c r s))"
  by (simp add: cancel_answered_def cancel_refused_def cancel_ends_def Let_def split: response.split)

text \<open>The answer that shows the result of a run.\<close>

definition shows_result :: "job_event \<Rightarrow> job_page \<Rightarrow> bool" where
  "shows_result e s =
     (case e of
        Answered i Over \<Rightarrow> (case map_of (tasks s) i of Some (Start k g (Snapshot p (Succeeded job))) \<Rightarrow> True | _ \<Rightarrow> False)
      | _ \<Rightarrow> False)"

lemma start_goes_on:
  assumes "awaits (Start k g st) a" "st \<noteq> Flushing" "\<And>p job. st \<noteq> Snapshot p (Succeeded job)"
  shows "goes_on k g i s (start_continues timing k g i st a s)"
proof (cases st)
  case Flushing
  then show ?thesis using assms by simp
next
  case Starting
  have "goes_on k g i s (job_started k g i job s)" for job
    by (simp add: job_started_def Let_def goes_on_polls goes_on_wait)
  then show ?thesis
    using Starting assms by (auto simp: awaits_def start_continues_def start_settled_def Let_def
        intro!: goes_on_ends split: job_answer.splits response.split)
next
  case (CancelFirst c)
  have "goes_on k g i s (after_cancel k g i (cancel_answered c r s))" for r
    by (rule goes_on_polls) (simp_all add: cancel_answered_tasks cancel_answered_results)
  then show ?thesis
    using CancelFirst assms by (auto simp: awaits_def start_continues_def split: job_answer.splits)
next
  case (PollFetch p)
  then show ?thesis
    using assms by (auto simp: awaits_def start_continues_def poll_settled_def Let_def
        intro!: goes_on_ends goes_on_polls split: job_answer.splits response.split)
next
  case (PollSleep p)
  then show ?thesis
    using assms by (auto simp: awaits_def start_continues_def poll_slept_def intro!: goes_on_polls
        split: job_answer.splits)
next
  case (Snapshot p q)
  then show ?thesis
    using assms by (auto simp: awaits_def start_continues_def snapshot_done_def
        intro!: goes_on_ends split: job_answer.splits job_outcome.split)
qed

subsection \<open>The invariant\<close>

text \<open>
  The first of a pending pair is the current measurement. A run that is past its flush keeps no pair, and the
  runs that wait are of different generations.
\<close>

definition paired :: "meas \<Rightarrow> bool" where
  "paired m = (pendingRepeatMeasurements m \<noteq> [] \<longrightarrow> hd (pendingRepeatMeasurements m) = currentMeasurement m)"

definition run_gens :: "job_page \<Rightarrow> bool" where
  "run_gens s = (\<forall>i k g st. (i, Start k g st) \<in> set (tasks s) \<longrightarrow> g \<le> jobGeneration (meas s)
     \<and> (g = jobGeneration (meas s) \<and> st \<noteq> Flushing \<longrightarrow> pendingRepeatMeasurements (meas s) = [])
     \<and> (\<forall>j k' st'. (j, Start k' g st') \<in> set (tasks s) \<longrightarrow> j = i))"

definition results_inv :: "job_page \<Rightarrow> bool" where
  "results_inv s = (paired (meas s) \<and> run_gens s)"

lemma run_gensD:
  "run_gens s \<Longrightarrow> (i, Start k g st) \<in> set (tasks s) \<Longrightarrow> g \<le> jobGeneration (meas s)"
  "run_gens s \<Longrightarrow> (i, Start k g st) \<in> set (tasks s) \<Longrightarrow> (j, Start k' g st') \<in> set (tasks s) \<Longrightarrow> j = i"
  "run_gens s \<Longrightarrow> (i, Start k g st) \<in> set (tasks s) \<Longrightarrow> g = jobGeneration (meas s) \<Longrightarrow> st \<noteq> Flushing
    \<Longrightarrow> pendingRepeatMeasurements (meas s) = []"
  unfolding run_gens_def by blast+

lemma paired_same: "same_results m m' \<Longrightarrow> paired m' = paired m"
  by (simp add: same_results_def paired_def)

lemma run_gens_fewer:
  assumes "run_gens s" "\<And>i k g st. (i, Start k g st) \<in> set (tasks t) \<Longrightarrow> (i, Start k g st) \<in> set (tasks s)"
    and "same_results (meas s) (meas t)"
  shows "run_gens t"
  using assms unfolding run_gens_def same_results_def by metis

lemma goes_on_inv:
  assumes inv: "results_inv s" and i: "(i, Start k g st) \<in> set (tasks s)" and st: "st \<noteq> Flushing" and on: "goes_on k g i s t"
  shows "results_inv t"
proof -
  have gens: "run_gens s" using inv by (simp add: results_inv_def)
  have same: "same_results (meas s) (meas t)" using on by (simp add: goes_on_def)
  have rest: "set (others i (tasks s)) \<subseteq> set (tasks s)" by (auto simp: others_def)
  have "run_gens t"
  proof (cases "tasks t = others i (tasks s)")
    case True
    then show ?thesis using run_gens_fewer [OF gens _ same] rest by auto
  next
    case False
    then obtain st' where t: "st' \<noteq> Flushing" "tasks t = (i, Start k g st') # others i (tasks s)"
      using on by (auto simp: goes_on_def)
    have gen: "jobGeneration (meas t) = jobGeneration (meas s)"
      "pendingRepeatMeasurements (meas t) = pendingRepeatMeasurements (meas s)"
      using same by (simp_all add: same_results_def)
    have member: "(j, x) \<in> set (tasks t) \<longleftrightarrow> (j = i \<and> x = Start k g st') \<or> (j \<noteq> i \<and> (j, x) \<in> set (tasks s))" for j x
      by (auto simp: t(2) others_def)
    show ?thesis
      unfolding run_gens_def gen member
      using run_gensD [OF gens] i st by (metis job_task.inject(1))
  qed
  then show ?thesis using inv paired_same [OF same] by (simp add: results_inv_def)
qed

lemma fewer_inv:
  assumes "results_inv s" "\<And>i k g st. (i, Start k g st) \<in> set (tasks t) \<Longrightarrow> (i, Start k g st) \<in> set (tasks s)"
    and "same_results (meas s) (meas t)"
  shows "results_inv t"
  using assms run_gens_fewer [of s t] paired_same [of "meas s" "meas t"] by (simp add: results_inv_def)

lemma flush_done_results:
  assumes inv: "results_inv s" and i: "(i, Start k g Flushing) \<in> set (tasks s)"
  shows "results_inv (flush_done k g i f s)"
proof (cases f)
  case None
  let ?t = "wait i (Start k g Starting) (on_meas (before_request k) s)"
  have gens: "run_gens s" using inv by (simp add: results_inv_def)
  have m: "pendingRepeatMeasurements (meas ?t) = []" "jobGeneration (meas ?t) = jobGeneration (meas s)"
    by (simp_all add: before_request_def meas_defs Let_def split: job_kind.split)
  have member: "(j, x) \<in> set (tasks ?t) \<longleftrightarrow> (j = i \<and> x = Start k g Starting) \<or> (j \<noteq> i \<and> (j, x) \<in> set (tasks s))" for j x
    by auto
  have "run_gens ?t"
    unfolding run_gens_def m member using run_gensD(1,2) [OF gens] i by (metis job_task.inject(1))
  then show ?thesis using None m by (simp add: flush_done_def results_inv_def paired_def)
next
  case (Some message)
  have "same_results (meas s) (meas (start_failed k g i message s))" "tasks (start_failed k g i message s) = others i (tasks s)"
    by (simp_all add: start_failed_def start_finally_def others_def)
  then show ?thesis
    using Some inv by (auto simp: flush_done_def others_def intro: fewer_inv [OF inv])
qed

lemma show_success_paired: "paired (meas s) \<Longrightarrow> pendingRepeatMeasurements (meas s) = []
    \<Longrightarrow> paired (meas (show_success timing p job s))"
proof -
  have reviews: "currentMeasurement (fold show_review es m) = currentMeasurement m"
    "pendingRepeatMeasurements (fold show_review es m) = pendingRepeatMeasurements m" for es m
    by (induction es arbitrary: m) (simp_all add: show_review_def)
  have pair: "paired (show_repeat job m)" for m
    by (simp add: show_repeat_def paired_def Let_def reviews split: list.split)
  assume "paired (meas s)" "pendingRepeatMeasurements (meas s) = []"
  then show ?thesis
    using pair by (simp add: show_success_def show_single_def show_review_def paired_def Let_def split: sum.split)
qed

lemma snapshot_success_results:
  assumes inv: "results_inv s" and i: "(i, Start k g (Snapshot p (Succeeded job))) \<in> set (tasks s)"
  shows "results_inv (snapshot_done timing k g i p (Succeeded job) s)"
proof (cases "jobGeneration (meas s) = g")
  case False
  then have "goes_on k g i s (snapshot_done timing k g i p (Succeeded job) s)"
    by (simp add: snapshot_done_def goes_on_ends)
  then show ?thesis using goes_on_inv [OF inv i] by simp
next
  case g: True
  let ?u = "show_success timing p job s"
  have gens: "run_gens s" and pair: "paired (meas s)" using inv by (simp_all add: results_inv_def)
  have "paired (meas ?u)"
    by (rule show_success_paired [OF pair]) (use run_gensD(3) [OF gens i] g in simp)
  then have paired_u: "paired (meas (start_finally g i ?u))"
    using paired_same [of "meas ?u" "meas (start_finally g i ?u)"] by (simp add: start_finally_def)
  have ts: "tasks (start_finally g i ?u) = others i (tasks s)"
    by (simp add: start_finally_def show_success_frame others_def)
  have gen: "jobGeneration (meas (start_finally g i ?u)) = g" using g by simp
  have other: "(j, Start k' g st) \<notin> set (others i (tasks s))" for j k' st
    using run_gensD(2) [OF gens i] by (auto simp: others_def)
  have "run_gens (start_finally g i ?u)"
    unfolding run_gens_def ts gen using other run_gensD(1,2) [OF gens] g by (auto simp: others_def)
  then show ?thesis using paired_u g by (simp add: snapshot_done_def results_inv_def)
qed

lemma claim_start_results:
  "currentMeasurement (claim_start k m) = currentMeasurement m" "autoSubMeasurements (claim_start k m) = autoSubMeasurements m"
  "pendingRepeatMeasurements (claim_start k m) = pendingRepeatMeasurements m" "jobGeneration (claim_start k m) = jobGeneration m + 1"
  by (simp_all add: claim_start_def Let_def split: job_kind.split)

lemma start_run_frame:
  "pendingRepeatMeasurements (meas (start_run ctx k s)) = pendingRepeatMeasurements (meas s)"
  "currentMeasurement (meas (start_run ctx k s)) = currentMeasurement (meas s)"
  "autoSubMeasurements (meas (start_run ctx k s)) = autoSubMeasurements (meas s)"
  "jobGeneration (meas (start_run ctx k s)) = jobGeneration (meas s) + 1"
  by (simp_all add: start_run_def start_body_def start_finally_def no_input_def settle_flags_def Let_def meas_defs
      claim_start_results)

lemma start_run_results:
  assumes inv: "results_inv s"
  shows "results_inv (start_run ctx k s)"
proof -
  let ?t = "start_run ctx k s" and ?i = "task_id s" and ?g = "jobGeneration (meas s) + 1"
  have gens: "run_gens s" using inv by (simp add: results_inv_def)
  have ts: "tasks ?t = others ?i (tasks s) \<or> tasks ?t = (?i, Start k ?g Flushing) # others ?i (tasks s)"
    by (simp add: start_run_def start_body_def start_finally_def no_input_def others_def Let_def claim_start_results)
  have "run_gens ?t"
    unfolding run_gens_def start_run_frame
  proof (intro allI impI)
    fix i k' g st
    assume i: "(i, Start k' g st) \<in> set (tasks ?t)"
    have le: "g' \<le> jobGeneration (meas s)" if "(j, Start l g' st') \<in> set (others ?i (tasks s))" for j l g' st'
      using that run_gensD(1) [OF gens] by (auto simp: others_def)
    show "g \<le> ?g \<and> (g = ?g \<and> st \<noteq> Flushing \<longrightarrow> pendingRepeatMeasurements (meas s) = [])
      \<and> (\<forall>j l st'. (j, Start l g st') \<in> set (tasks ?t) \<longrightarrow> j = i)"
      using ts i le run_gensD(2) [OF gens] by (fastforce simp: others_def)
  qed
  then show ?thesis using inv by (simp add: results_inv_def paired_def start_run_frame)
qed

lemma cancelling_results:
  "results_inv s \<Longrightarrow> results_inv (cancelMeasurement s)"
  "results_inv s \<Longrightarrow> results_inv (requestMeasurementCancellation s)"
proof -
  have same: "same_results (meas s) (meas (cancelMeasurement s))" "same_results (meas s) (meas (requestMeasurementCancellation s))"
    by (simp_all add: cancelMeasurement_def requestMeasurementCancellation_def)
  have starts: "(i, Start k g st) \<in> set (tasks (cancelMeasurement s)) \<Longrightarrow> (i, Start k g st) \<in> set (tasks s)"
    "(i, Start k g st) \<in> set (tasks (requestMeasurementCancellation s)) \<Longrightarrow> (i, Start k g st) \<in> set (tasks s)" for i k g st
    by (auto simp: cancelMeasurement_def requestMeasurementCancellation_def split: if_splits)
  show "results_inv s \<Longrightarrow> results_inv (cancelMeasurement s)" "results_inv s \<Longrightarrow> results_inv (requestMeasurementCancellation s)"
    using fewer_inv same starts by blast+
qed

lemma task_answered_results:
  assumes inv: "results_inv s"
  shows "results_inv (task_answered timing i a s)"
proof (cases "map_of (tasks s) i")
  case None
  then show ?thesis using inv by (simp add: task_answered_def)
next
  case (Some t)
  then have i: "(i, t) \<in> set (tasks s)" by (rule map_of_SomeD)
  show ?thesis
  proof (cases "awaits t a")
    case False
    then show ?thesis using not_awaited [OF Some] inv by simp
  next
    case True
    show ?thesis
    proof (cases t)
      case (Cancel c)
      have "results_inv (cancel_answered c r (job_done i s))" for r
      proof (rule fewer_inv [OF inv])
        show "same_results (meas s) (meas (cancel_answered c r (job_done i s)))"
          using cancel_answered_results [of "job_done i s" c r] by simp
      qed (auto simp: cancel_answered_tasks)
      then show ?thesis using Some Cancel inv by (simp add: task_answered_def split: job_answer.split)
    next
      case (Start k g st)
      have step: "task_answered timing i a s = start_continues timing k g i st a s"
        using Some Start by (simp add: task_answered_def)
      consider "st = Flushing" | p job where "st = Snapshot p (Succeeded job)"
        | "st \<noteq> Flushing" "\<And>p job. st \<noteq> Snapshot p (Succeeded job)" by blast
      then show ?thesis
      proof cases
        case 1
        then show ?thesis
          using step flush_done_results [OF inv] i Start inv by (simp add: start_continues_def split: job_answer.split)
      next
        case 2
        then show ?thesis
          using step snapshot_success_results [OF inv] i Start inv by (simp add: start_continues_def split: job_answer.split)
      next
        case 3
        then show ?thesis
          using step start_goes_on [OF True [unfolded Start]] goes_on_inv [OF inv] i Start by simp
      qed
    qed
  qed
qed

lemma job_step_results:
  assumes inv: "results_inv s"
  shows "results_inv (job_step timing e s)"
proof -
  have status: "results_inv (on_meas (\<lambda>m. m\<lparr>statusText := a\<rparr>) s)" for a
    by (rule fewer_inv [OF inv]) simp_all
  have toast: "results_inv t \<Longrightarrow> results_inv (job_toast a b t)" for a b t
    by (rule fewer_inv [of t]) simp_all
  have name: "results_inv (name_typed n s)" for n
    by (rule fewer_inv [OF inv]) (simp_all add: name_typed_def same_results_def)
  show ?thesis
    using inv start_run_results [OF inv] cancelling_results [OF inv] task_answered_results [OF inv] status toast name
    by (cases e) (simp_all add: sweep_toggle_clicked_def sweep_start_clicked_def startMeasurement_def no_input_def
        repeat_clicked_def startLrRepeat_def)
qed

end
