(* ===== verification/Saved_Claims.thy ===== *)
theory Saved_Claims
  imports Saved_Results
begin

section \<open>What saving, deleting and merging promise\<close>

text \<open>
  One action at a time holds the lock, and the answers to its requests free it. Saving gives up only what it
  sent, as long as no result arrives while its request waits; deleting a selection stops at the first
  refusal and says so.
\<close>

subsection \<open>Frames\<close>

lemma saved_frames [simp]:
  "savedTasks (on_m f s) = savedTasks s" "savedTasks (saved_toast t kd s) = savedTasks s"
  "savedTasks (release_lock s) = savedTasks s" "savedTasks (visible i b s) = savedTasks s"
  "saveInFlight (on_m f s) = saveInFlight s" "saveInFlight (saved_toast t kd s) = saveInFlight s"
  "saveInFlight (release_lock s) = False" "saveInFlight (visible i b s) = saveInFlight s"
  "jobs (on_m f s) = on_meas f (jobs s)" "jobs (saved_toast t kd s) = job_toast t kd (jobs s)"
  "jobs (release_lock s) = jobs s" "jobs (visible i b s) = jobs s"
  "savedRequests (on_m f s) = savedRequests s" "savedRequests (saved_toast t kd s) = savedRequests s"
  "savedRequests (release_lock s) = savedRequests s" "savedRequests (visible i b s) = savedRequests s"
  "visibilityById (on_m f s) = visibilityById s" "visibilityById (saved_toast t kd s) = visibilityById s"
  "visibilityById (release_lock s) = visibilityById s"
  by (simp_all add: on_m_def saved_toast_def release_lock_def visible_def)

lemma claim_frames [simp]:
  "savedTasks (claim_lock t s) = savedTasks s" "saveInFlight (claim_lock t s)"
  "savedRequests (claim_lock t s) = savedRequests s" "visibilityById (claim_lock t s) = visibilityById s"
  "savedTasks (send_saved r x s) = savedTasks s @ [x]" "saveInFlight (send_saved r x s) = saveInFlight s"
  "savedRequests (send_saved r x s) = r # savedRequests s" "visibilityById (send_saved r x s) = visibilityById s"
  "jobs (send_saved r x s) = jobs s"
  "savedTasks (fetchMeasurements k s) = savedTasks s @ [ReadingList k]"
  "saveInFlight (fetchMeasurements k s) = saveInFlight s" "jobs (fetchMeasurements k s) = jobs s"
  "savedRequests (fetchMeasurements k s) = GetList # savedRequests s"
  "visibilityById (fetchMeasurements k s) = visibilityById s"
  by (simp_all add: claim_lock_def show_status_def send_saved_def fetchMeasurements_def)

lemma forget_frames [simp]:
  "savedTasks (forget i s) = savedTasks s" "saveInFlight (forget i s) = saveInFlight s"
  "savedRequests (forget i s) = savedRequests s" "visibilityById (forget i s) = jdel i (visibilityById s)"
  by (simp_all add: forget_def on_m_def)

lemma status_frames [simp]:
  "savedTasks (show_status t s) = savedTasks s" "saveInFlight (show_status t s) = saveInFlight s"
  "savedTasks (report_failure m f s) = savedTasks s" "saveInFlight (report_failure m f s) = saveInFlight s"
  "savedRequests (show_status t s) = savedRequests s" "savedRequests (report_failure m f s) = savedRequests s"
  "visibilityById (show_status t s) = visibilityById s" "visibilityById (report_failure m f s) = visibilityById s"
  "savedTasks (review_hidden i s) = savedTasks s" "saveInFlight (review_hidden i s) = saveInFlight s"
  by (simp_all add: show_status_def report_failure_def review_hidden_def Let_def)

lemma shown_entries_frames [simp]:
  "savedTasks (fold (\<lambda>e t. review_hidden (entry_id e) (visible (entry_id e) True t)) es s) = savedTasks s"
  "saveInFlight (fold (\<lambda>e t. review_hidden (entry_id e) (visible (entry_id e) True t)) es s) = saveInFlight s"
  "savedTasks (fold (\<lambda>e. visible (entry_id e) b) es s) = savedTasks s"
  "saveInFlight (fold (\<lambda>e. visible (entry_id e) b) es s) = saveInFlight s"
  "jobs (fold (\<lambda>e. visible (entry_id e) b) es s) = jobs s"
  by (induction es arbitrary: s) simp_all

lemma list_answered_frames [simp]:
  "savedTasks (list_answered r s) = savedTasks s" "saveInFlight (list_answered r s) = saveInFlight s"
  by (simp_all add: list_answered_def list_failed_def list_read_def Let_def split: saved_reply.split sum.split)

lemma refusal_None [simp]: "refusal r f = None \<longleftrightarrow> reply_ok r"
  by (cases r) (simp_all add: refusal_def)

subsection \<open>The lock\<close>

definition holds_lock :: "saved_task \<Rightarrow> bool" where
  "holds_lock t = (t \<noteq> ReadingList Alone)"

definition holders :: "saved_page \<Rightarrow> nat" where
  "holders s = length (filter holds_lock (savedTasks s))"

definition lock_inv :: "saved_page \<Rightarrow> bool" where
  "lock_inv s = (holders s = of_bool (saveInFlight s))"

lemma delete_next_frames:
  "saveInFlight (delete_next es s) = saveInFlight s" "holders (delete_next es s) = holders s + 1"
  by (simp_all add: delete_next_def deleted_all_def holders_def holds_lock_def split: list.split)

lemma continues_lock:
  assumes "holders s = 0" "saveInFlight s" "holds_lock t"
  shows "lock_inv (saved_continues t r s)"
proof (cases t)
  case (DeletingNext e rest)
  have "holders (forget i s) = holders s" for i by (simp add: holders_def)
  with DeletingNext assms show ?thesis
    by (auto simp: saved_continues_def delete_next_answered_def delete_next_frames lock_inv_def split: option.split)
      (simp add: holders_def holds_lock_def)
next
  case (ReadingList k)
  with assms show ?thesis
    by (auto simp: saved_continues_def after_read_def lock_inv_def holders_def holds_lock_def split: after_list.split)
qed (use assms in \<open>auto simp: saved_continues_def save_answered_def delete_answered_def merge_answered_def saving_failed_def
      merge_failed_def deleted_all_def lock_inv_def holders_def holds_lock_def Let_def split: option.split\<close>)

definition without_task :: "nat \<Rightarrow> saved_page \<Rightarrow> saved_page" where
  "without_task n s = s\<lparr>savedTasks := take n (savedTasks s) @ drop (Suc n) (savedTasks s)\<rparr>"

lemma without_task_frames [simp]:
  "saveInFlight (without_task n s) = saveInFlight s" "jobs (without_task n s) = jobs s"
  "savedTasks (without_task n s) = take n (savedTasks s) @ drop (Suc n) (savedTasks s)"
  by (simp_all add: without_task_def)

lemma saved_answered_eq:
  "n < length (savedTasks s) \<Longrightarrow> saved_answered n r s = saved_continues (savedTasks s ! n) r (without_task n s)"
  by (simp add: saved_answered_def without_task_def)

lemma split_at: "n < length ts \<Longrightarrow> ts = take n ts @ ts ! n # drop (Suc n) ts"
  by (rule id_take_nth_drop)

lemma holders_without:
  assumes n: "n < length (savedTasks s)"
  shows "holders s = holders (without_task n s) + of_bool (holds_lock (savedTasks s ! n))"
proof -
  have "length (filter holds_lock (savedTasks s))
      = length (filter holds_lock (take n (savedTasks s) @ savedTasks s ! n # drop (Suc n) (savedTasks s)))"
    using split_at [OF n] by (rule arg_cong)
  then show ?thesis by (simp add: holders_def)
qed

lemma saved_answered_lock:
  assumes inv: "lock_inv s"
  shows "lock_inv (saved_answered n r s)"
proof (cases "n < length (savedTasks s)")
  case n: True
  show ?thesis
  proof (cases "holds_lock (savedTasks s ! n)")
    case True
    then have "holders (without_task n s) = 0 \<and> saveInFlight s"
      using inv holders_without [OF n] by (cases "saveInFlight s") (simp_all add: lock_inv_def)
    then show ?thesis using continues_lock [OF _ _ True] by (simp add: saved_answered_eq [OF n])
  next
    case False
    then have "savedTasks s ! n = ReadingList Alone" by (simp add: holds_lock_def)
    moreover have "holders (without_task n s) = holders s" using holders_without [OF n] False by simp
    ultimately show ?thesis
      using inv by (simp add: saved_answered_eq [OF n] saved_continues_def after_read_def lock_inv_def holders_def)
  qed
qed (simp add: saved_answered_def inv)

lemma lock_toast: "lock_inv (saved_toast t kd s) = lock_inv s"
  by (simp add: lock_inv_def holders_def)

lemma saved_step_lock:
  assumes inv: "lock_inv s"
  shows "lock_inv (saved_step timing e s)"
proof -
  have free: "holders s = 0" if "\<not> saveInFlight s" using inv that by (simp add: lock_inv_def)
  have del: "lock_inv (delete_next es (claim_lock t s))" if "\<not> saveInFlight s" for es t
    using free [OF that] by (simp add: lock_inv_def delete_next_frames) (simp add: holders_def)
  show ?thesis
  proof (cases e)
    case (SavedAnswered n r)
    then show ?thesis using saved_answered_lock [OF inv] by simp
  next
    case (DeleteSelectedClicked b)
    then show ?thesis
      using inv del by (auto simp: deleteSelectedMeasurements_def Let_def lock_toast)
  qed (use inv free in \<open>auto simp: saveCurrentMeasurement_def deleteMeasurement_def mergeSelectedMeasurements_def
        select_all_def lock_inv_def holders_def holds_lock_def Let_def split: option.split\<close>)
qed


subsection \<open>The work of an action\<close>

fun task_cost :: "saved_task \<Rightarrow> nat" where
  "task_cost (SavingEntries p) = 2"
| "task_cost (DeletingOne i) = 2"
| "task_cost (DeletingNext e rest) = length rest + 2"
| "task_cost (MergingInto n) = 2"
| "task_cost (ReadingList k) = 1"

definition saved_cost :: "saved_page \<Rightarrow> nat" where
  "saved_cost s = sum_list (List.map task_cost (savedTasks s))"

definition saved_awaits :: "saved_event \<Rightarrow> saved_page \<Rightarrow> bool" where
  "saved_awaits e s = (case e of SavedAnswered n r \<Rightarrow> n < length (savedTasks s) | _ \<Rightarrow> False)"

lemma cost_frames [simp]:
  "saved_cost (fetchMeasurements k s) = saved_cost s + 1" "saved_cost (report_failure m f s) = saved_cost s"
  "saved_cost (release_lock s) = saved_cost s" "saved_cost (forget i s) = saved_cost s"
  "saved_cost (list_answered r s) = saved_cost s" "saved_cost (show_status m s) = saved_cost s"
  "saved_cost (after_read k s) = saved_cost s"
  "saved_cost (delete_next es s) = saved_cost s + (case es of [] \<Rightarrow> 1 | e # rest \<Rightarrow> length rest + 2)"
  by (simp_all add: saved_cost_def delete_next_def deleted_all_def after_read_def split: list.split after_list.split)

lemma continues_cost: "saved_cost (saved_continues t r s) < saved_cost s + task_cost t"
proof (cases t)
  case (SavingEntries p)
  then show ?thesis
    by (simp add: saved_continues_def save_answered_def saving_failed_def Let_def split: option.split) (simp add: saved_cost_def)
next
  case (DeletingOne i)
  then show ?thesis by (simp add: saved_continues_def delete_answered_def deleted_all_def split: option.split)
next
  case (DeletingNext e rest)
  then show ?thesis by (simp add: saved_continues_def delete_next_answered_def split: option.split list.split)
next
  case (MergingInto n)
  then show ?thesis
    by (simp add: saved_continues_def merge_answered_def merge_failed_def Let_def split: option.split) (simp add: saved_cost_def)
next
  case (ReadingList k)
  then show ?thesis by (simp add: saved_continues_def)
qed

lemma saved_answer_works:
  assumes "saved_awaits e s"
  shows "saved_cost (saved_step timing e s) < saved_cost s"
proof -
  obtain n r where e: "e = SavedAnswered n r" and n: "n < length (savedTasks s)"
    using assms by (auto simp: saved_awaits_def split: saved_event.splits)
  have "saved_cost s = sum_list (List.map task_cost (take n (savedTasks s) @ savedTasks s ! n # drop (Suc n) (savedTasks s)))"
    unfolding saved_cost_def by (rule arg_cong [OF split_at [OF n]])
  then have "saved_cost s = saved_cost (without_task n s) + task_cost (savedTasks s ! n)"
    by (simp add: saved_cost_def)
  then show ?thesis using continues_cost [of "savedTasks s ! n" r "without_task n s"] by (simp add: e saved_answered_eq [OF n])
qed

interpretation saved_work: draining saved_cost saved_awaits "saved_step timing" for timing
  by unfold_locales (rule saved_answer_works)

lemma saved_at_rest: "(\<forall>e. \<not> saved_awaits e s) \<longleftrightarrow> savedTasks s = []"
proof
  assume none: "\<forall>e. \<not> saved_awaits e s"
  then have "\<not> saved_awaits (SavedAnswered 0 (SvLost [])) s" by blast
  then show "savedTasks s = []" by (simp add: saved_awaits_def)
qed (simp add: saved_awaits_def split: saved_event.split)

subsection \<open>Every reachable page\<close>

text \<open>A page at rest, with any results of earlier runs: of a sweep, a pair or a series, Auto Sub, or several of them
  beside each other; a pair is shown by its first entry.\<close>

definition saved_start :: "saved_page \<Rightarrow> bool" where
  "saved_start s = (savedTasks s = [] \<and> \<not> saveInFlight s \<and> tasks (jobs s) = [] \<and> paired (run_state s))"

lemma saved_start_init: "saved_start init_saved"
  by (simp add: saved_start_def init_saved_def init_job_page_def init_meas_def paired_def)

definition saved_rel :: "(jsval \<Rightarrow> string + string) \<Rightarrow> saved_page \<Rightarrow> saved_page \<Rightarrow> bool" where
  "saved_rel timing s t = (\<exists>e. t = saved_step timing e s)"

text \<open>The other actions leave the results of the job alone.\<close>

definition keeps_job :: "saved_page \<Rightarrow> saved_page \<Rightarrow> bool" where
  "keeps_job s t = (same_results (run_state s) (run_state t) \<and> tasks (jobs t) = tasks (jobs s))"

lemma keeps_job_steps [simp]:
  "keeps_job s s" "keeps_job s (saved_toast t kd u) = keeps_job s u" "keeps_job s (release_lock u) = keeps_job s u"
  "keeps_job s (visible i b u) = keeps_job s u" "keeps_job s (show_status t u) = keeps_job s u" "keeps_job s (review_hidden i u) = keeps_job s u"
  "keeps_job s (fetchMeasurements k u) = keeps_job s u" "keeps_job s (send_saved q x u) = keeps_job s u"
  by (simp_all add: keeps_job_def show_status_def review_hidden_def)

lemma keeps_job_more [simp]:
  "keeps_job s (claim_lock t u) = keeps_job s u" "keeps_job s (forget i u) = keeps_job s u" "keeps_job s (report_failure m f u) = keeps_job s u"
  "keeps_job s (deleted_all u) = keeps_job s u" "keeps_job s (delete_next es u) = keeps_job s u"
  "keeps_job s (fold (\<lambda>e t. review_hidden (entry_id e) (visible (entry_id e) True t)) es u) = keeps_job s u"
  "keeps_job s (fold (\<lambda>e. visible (entry_id e) b) es u) = keeps_job s u"
proof -
  show "keeps_job s (claim_lock t u) = keeps_job s u" by (simp add: claim_lock_def) (simp add: keeps_job_def)
  show "keeps_job s (forget i u) = keeps_job s u" by (simp add: keeps_job_def forget_def)
  show "keeps_job s (report_failure m f u) = keeps_job s u" by (simp add: report_failure_def Let_def)
  show deleted: "keeps_job s (deleted_all u) = keeps_job s u" by (simp add: deleted_all_def)
  show "keeps_job s (delete_next es u) = keeps_job s u" by (simp add: delete_next_def deleted split: list.split)
  show "keeps_job s (fold (\<lambda>e t. review_hidden (entry_id e) (visible (entry_id e) True t)) es u) = keeps_job s u"
    by (induction es arbitrary: u) simp_all
  show "keeps_job s (fold (\<lambda>e. visible (entry_id e) b) es u) = keeps_job s u" by (induction es arbitrary: u) simp_all
qed

lemma keeps_job_list: "keeps_job s (list_answered r s)"
  by (simp add: list_answered_def list_failed_def list_read_def keeps_job_def show_status_def Let_def split: saved_reply.split sum.split)

lemma continues_quiet:
  assumes "\<And>p. t \<noteq> SavingEntries p"
  shows "keeps_job s (saved_continues t r s)"
proof (cases t)
  case (SavingEntries p)
  then show ?thesis using assms by blast
qed (use keeps_job_list [of s r] in \<open>simp_all add: saved_continues_def delete_answered_def delete_next_answered_def merge_answered_def merge_failed_def
      after_read_def Let_def split: option.split after_list.split\<close>)

definition cleared :: "saved_page \<Rightarrow> bool" where
  "cleared s = (currentMeasurement (run_state s) = JNull \<and> pendingRepeatMeasurements (run_state s) = []
     \<and> autoSubMeasurements (run_state s) = [])"

lemma save_answered_cases:
  "keeps_job s (save_answered p r s) \<and> \<not> (\<exists>x. SavingEntries x \<in> set (savedTasks (save_answered p r s)) - set (savedTasks s))
   \<or> cleared (save_answered p r s) \<and> tasks (jobs (save_answered p r s)) = tasks (jobs s)
     \<and> jobGeneration (run_state (save_answered p r s)) = jobGeneration (run_state s)
     \<and> savedTasks (save_answered p r s) = savedTasks s @ [ReadingList AfterSave]"
proof -
  let ?u = "fold (\<lambda>e t. review_hidden (entry_id e) (visible (entry_id e) True t)) (saved_entries p (body_or_empty r)) s"
  have u: "keeps_job s ?u" by simp
  then have "tasks (jobs ?u) = tasks (jobs s)" "jobGeneration (run_state ?u) = jobGeneration (run_state s)"
    by (simp_all add: keeps_job_def same_results_def)
  then show ?thesis
    by (simp add: save_answered_def saving_failed_def clear_measured_def cleared_def Let_def split: option.split)
qed

lemma keeps_job_results: "keeps_job s t \<Longrightarrow> results_inv (jobs s) \<Longrightarrow> results_inv (jobs t)"
  by (rule fewer_inv [of "jobs s"]) (simp_all add: keeps_job_def)

lemma cleared_results:
  assumes "results_inv (jobs s)" "cleared t" "tasks (jobs t) = tasks (jobs s)" "jobGeneration (run_state t) = jobGeneration (run_state s)"
  shows "results_inv (jobs t)"
  using assms unfolding results_inv_def run_gens_def paired_def cleared_def by simp

text \<open>What a step of the page is, apart from the job's own: no change to the job, or the end of a save.\<close>

lemma own_step_cases:
  assumes "\<And>x. e \<noteq> JobEvent x"
  shows "keeps_job s (saved_step timing e s)
    \<or> (\<exists>n r p. e = SavedAnswered n r \<and> n < length (savedTasks s) \<and> savedTasks s ! n = SavingEntries p
        \<and> saved_step timing e s = save_answered p r (without_task n s))"
proof (cases e)
  case (SavedAnswered n r)
  show ?thesis
  proof (cases "n < length (savedTasks s)")
    case True
    have base: "keeps_job s (without_task n s)" by (simp add: keeps_job_def)
    show ?thesis
    proof (cases "\<exists>p. savedTasks s ! n = SavingEntries p")
      case True
      then show ?thesis using SavedAnswered \<open>n < _\<close> by (auto simp: saved_answered_eq saved_continues_def)
    next
      case False
      then have "keeps_job (without_task n s) (saved_continues (savedTasks s ! n) r (without_task n s))"
        by (intro continues_quiet) auto
      then have "keeps_job s (saved_answered n r s)"
        by (simp add: saved_answered_eq [OF \<open>n < _\<close>] keeps_job_def)
      then show ?thesis using SavedAnswered by simp
    qed
  qed (simp add: SavedAnswered saved_answered_def)
qed (use assms in \<open>simp_all add: saveCurrentMeasurement_def deleteMeasurement_def deleteSelectedMeasurements_def
      mergeSelectedMeasurements_def select_all_def Let_def split: option.split\<close>)

lemma saved_step_results:
  assumes inv: "results_inv (jobs s)"
  shows "results_inv (jobs (saved_step timing e s))"
proof (cases "\<exists>x. e = JobEvent x")
  case True
  then show ?thesis using job_step_results [OF inv] by auto
next
  case False
  then consider "keeps_job s (saved_step timing e s)"
    | n r p where "saved_step timing e s = save_answered p r (without_task n s)"
    using own_step_cases [of e s timing] by blast
  then show ?thesis
  proof cases
    case 1
    then show ?thesis using keeps_job_results inv by blast
  next
    case 2
    then show ?thesis
      using save_answered_cases [of "without_task n s" p r] keeps_job_results [of "without_task n s"] cleared_results [of "without_task n s"] inv
      by auto
  qed
qed

definition saved_inv :: "saved_page \<Rightarrow> bool" where
  "saved_inv s = (results_inv (jobs s) \<and> lock_inv s)"

interpretation saved_pages: inductive_invariant saved_start "saved_rel timing" saved_inv for timing
proof
  show "saved_inv s" if "saved_start s" for s
    using that by (simp add: saved_start_def saved_inv_def results_inv_def run_gens_def lock_inv_def holders_def)
  show "saved_inv t" if "saved_inv s" "saved_rel timing s t" for s t
    using that saved_step_results saved_step_lock by (auto simp: saved_rel_def saved_inv_def)
qed

text \<open>Saving, deleting and merging exclude each other: the common lock is held exactly while one task of an action
  waits, and by one only. Whatever the answers are, answers alone bring all waiting tasks to rest, within a
  bound that counts two answers per action and one more per further entry of a selection, and at rest the
  lock is free.\<close>

theorem saved_lock_is_always_freed:
  assumes "reachable saved_start (saved_rel timing) s"
  shows "length (filter holds_lock (savedTasks s)) = of_bool (saveInFlight s)
    \<and> (\<exists>es. all_awaited saved_awaits (saved_step timing) es s \<and> savedTasks (run_events (saved_step timing) es s) = []
        \<and> \<not> saveInFlight (run_events (saved_step timing) es s))
    \<and> (\<forall>es. all_awaited saved_awaits (saved_step timing) es s \<longrightarrow> length es \<le> sum_list (List.map task_cost (savedTasks s)))"
proof (intro conjI)
  have inv: "saved_inv s" by (rule saved_pages.always [OF assms])
  then show "length (filter holds_lock (savedTasks s)) = of_bool (saveInFlight s)"
    by (simp add: saved_inv_def lock_inv_def holders_def)
  obtain es where es: "all_awaited saved_awaits (saved_step timing) es s"
    and rest: "savedTasks (run_events (saved_step timing) es s) = []"
    using saved_work.comes_to_rest [of timing s] by (auto simp: saved_at_rest)
  have "reachable saved_start (saved_rel timing) (run_events (saved_step timing) es s)"
    by (rule reachable_run_events [OF _ assms]) (auto simp: saved_rel_def)
  then have "lock_inv (run_events (saved_step timing) es s)" using saved_pages.always by (auto simp: saved_inv_def)
  then have "\<not> saveInFlight (run_events (saved_step timing) es s)" using rest by (simp add: lock_inv_def holders_def)
  with es rest show "\<exists>es. all_awaited saved_awaits (saved_step timing) es s \<and> savedTasks (run_events (saved_step timing) es s) = []
      \<and> \<not> saveInFlight (run_events (saved_step timing) es s)" by blast
  show "\<forall>es. all_awaited saved_awaits (saved_step timing) es s \<longrightarrow> length es \<le> sum_list (List.map task_cost (savedTasks s))"
    using saved_work.drains [of timing _ s] by (auto simp: saved_cost_def dest: add_leD1)
qed

end
