(* ===== verification/Saved_Outcomes.thy ===== *)
theory Saved_Outcomes
  imports Saved_Claims
begin

section \<open>What is saved and what is deleted\<close>

text \<open>
  A save sends every entry it later gives up, as itself or trace by trace; a deleted selection is worked off in
  its order up to the first refusal.
\<close>

subsection \<open>The payload\<close>







subsection \<open>Saving\<close>























text \<open>A sweep that ends with a measurement of a given id.\<close>

definition measured_body :: "string \<Rightarrow> jsval option" where
  "measured_body i = Some (JObj [(''job'', JObj [(''id'', JStr ''j1''), (''status'', JStr ''completed''),
     (''result'', JObj [(''measurement'', JObj [(''id'', JStr i)])])])])"

definition whole_sweep :: "nat \<Rightarrow> string \<Rightarrow> saved_event list" where
  "whole_sweep task i = List.map JobEvent [SweepStartClicked at_desk, Answered task (FlushEnded None),
     Answered task (Responded (Http 200 (job_body ''queued''))), Answered task (Responded (Http 200 (measured_body i))),
     Answered task Over]"

abbreviation saved_after :: "saved_event list \<Rightarrow> saved_page" where
  "saved_after es \<equiv> run_events (saved_step no_timing) es init_saved"




definition traced :: "string \<Rightarrow> jsval" where
  "traced i = JObj [(''id'', JStr i), (''traces'', JArr [JObj [(''role'', JStr ''right''), (''label'', JStr ''AutoSub Baseline'')]])]"

text \<open>A page with the results of an Auto Sub run, beside a sweep that was not saved before.\<close>

definition beside_auto_sub :: saved_page where
  "beside_auto_sub = init_saved\<lparr>jobs := (jobs init_saved)\<lparr>meas := init_meas
     \<lparr>autoSubMeasurements := [traced ''before'', traced ''after''], currentMeasurement := JObj [(''id'', JStr ''m1'')]\<rparr>\<rparr>\<rparr>"



text \<open>The sweep beside the Auto Sub results is cleared with them and was not sent.\<close>

lemma hidden_result_is_given_up:
  "let s = run_events (saved_step no_timing) [SaveClicked, SavedAnswered 0 (SvReply 200 [] (Inr (JObj [])))] beside_auto_sub
   in currentMeasurement (run_state s) = JNull
     \<and> List.concat (List.map (\<lambda>q. case q of PostSave p \<Rightarrow> List.map entry_id (arr_items (jget p ''measurements'')) | _ \<Rightarrow> []) (savedRequests s))
       = [''before-right'', ''after-right'']"
  by code_simp

text \<open>A result that arrives while the save waits is cleared with what was saved: it was never sent.\<close>

definition late_result :: "saved_event list" where
  "late_result = whole_sweep 0 ''m1'' @ SaveClicked # whole_sweep 1 ''m2''"

lemma late_result_is_given_up:
  "entry_id (currentMeasurement (run_state (saved_after late_result))) = ''m2''"
  "currentMeasurement (run_state (saved_after (late_result @ [SavedAnswered 0 (SvReply 200 [] (Inr (JObj [])))]))) = JNull"
  "List.map (\<lambda>q. case q of PostSave p \<Rightarrow> entry_id p | _ \<Rightarrow> [])
     (savedRequests (saved_after (late_result @ [SavedAnswered 0 (SvReply 200 [] (Inr (JObj [])))]))) = [[], ''m1'']"
  by code_simp+

subsection \<open>Deleting a selection\<close>

lemma without_last: "savedTasks s = ts @ [x] \<Longrightarrow> without_task (length ts) s = s\<lparr>savedTasks := ts\<rparr>"
  by (simp add: without_task_def)

lemma answered_last:
  "savedTasks s = ts @ [x] \<Longrightarrow> saved_answered (length ts) r s = saved_continues x r (s\<lparr>savedTasks := ts\<rparr>)"
  using saved_answered_eq [of "length ts" s r] without_last [of s ts x] by simp

definition refusal_text :: "jsval \<Rightarrow> saved_reply \<Rightarrow> string" where
  "refusal_text e r = or_default (the (refusal r (''Failed to delete '' @ to_str (jget e ''name''))))
     ''Failed to delete selected measurements''"

text \<open>The replies to a selection: all agree, or all but the last.\<close>

definition delete_replies :: "jsval list \<Rightarrow> saved_reply list \<Rightarrow> bool" where
  "delete_replies es rs = (rs \<noteq> [] \<and> length rs \<le> length es \<and> list_all reply_ok (butlast rs)
     \<and> (reply_ok (last rs) \<longrightarrow> length rs = length es))"

lemma status_of_status [simp]: "statusText (run_state (show_status t s)) = t"
  by (simp add: show_status_def)

lemma deletes:
  assumes "delete_replies es rs" "savedTasks s = ts"
  shows "savedTasks (run_events (saved_step timing) (List.map (SavedAnswered (length ts)) rs) (delete_next es s)) = ts @ [ReadingList AfterDelete]
    \<and> savedRequests (run_events (saved_step timing) (List.map (SavedAnswered (length ts)) rs) (delete_next es s))
        = GetList # rev (List.map (\<lambda>e. DeleteOf (entry_id e)) (take (length rs) es)) @ savedRequests s
    \<and> visibilityById (run_events (saved_step timing) (List.map (SavedAnswered (length ts)) rs) (delete_next es s))
        = fold (\<lambda>e. jdel (entry_id e)) (take (length (filter reply_ok rs)) es) (visibilityById s)
    \<and> statusText (run_state (run_events (saved_step timing) (List.map (SavedAnswered (length ts)) rs) (delete_next es s)))
        = (if reply_ok (last rs) then ''Saved runs updated.'' else refusal_text (es ! (length rs - 1)) (last rs))"
  using assms
proof (induction rs arbitrary: es s)
  case (Cons r rs)
  obtain e rest where es: "es = e # rest" using Cons.prems(1) by (cases es) (simp_all add: delete_replies_def)
  let ?s = "delete_next es s"
  have tasks: "savedTasks ?s = ts @ [DeletingNext e rest]" using Cons.prems(2) by (simp add: es delete_next_def)
  have step: "saved_step timing (SavedAnswered (length ts) r) ?s = delete_next_answered e rest r (?s\<lparr>savedTasks := ts\<rparr>)"
    using answered_last [OF tasks] by (simp add: saved_continues_def)
  show ?case
  proof (cases "reply_ok r")
    case False
    then have rs: "rs = []" using Cons.prems(1) by (cases rs) (simp_all add: delete_replies_def)
    obtain m where m: "refusal r (''Failed to delete '' @ to_str (jget e ''name'')) = Some m"
      using False refusal_None by blast
    let ?u = "report_failure m ''Failed to delete selected measurements'' (?s\<lparr>savedTasks := ts\<rparr>)"
    have next_state: "saved_step timing (SavedAnswered (length ts) r) ?s = fetchMeasurements AfterDelete ?u"
      by (simp only: step delete_next_answered_def m option.case)
    have words: "refusal_text e r = or_default m ''Failed to delete selected measurements''"
      unfolding refusal_text_def m by simp
    have u: "savedTasks ?u = ts" "savedRequests ?u = DeleteOf (entry_id e) # savedRequests s"
      "visibilityById ?u = visibilityById s" "statusText (run_state ?u) = refusal_text e r"
      by (simp_all add: es delete_next_def report_failure_def words Let_def)
    show ?thesis
      unfolding rs list.map run_events_simps next_state using False u by (simp add: es)
  next
    case True
    let ?u = "forget (entry_id e) (?s\<lparr>savedTasks := ts\<rparr>)"
    have next_state: "saved_step timing (SavedAnswered (length ts) r) ?s = delete_next rest ?u"
      by (simp only: step delete_next_answered_def refusal_None [THEN iffD2, OF True] option.case)
    have u: "savedTasks ?u = ts" "savedRequests ?u = DeleteOf (entry_id e) # savedRequests s"
      "visibilityById ?u = jdel (entry_id e) (visibilityById s)"
      by (simp_all add: es delete_next_def)
    show ?thesis
    proof (cases rs)
      case Nil
      then have "rest = []" using Cons.prems(1) True by (simp add: delete_replies_def es)
      then show ?thesis
        unfolding Nil list.map run_events_simps next_state using True u by (simp add: es delete_next_def deleted_all_def)
    next
      case (Cons r' rs')
      have "delete_replies rest rs" using Cons.prems(1) True Cons by (simp add: delete_replies_def es)
      note ih = Cons.IH [OF this u(1)]
      show ?thesis
        unfolding list.map run_events_simps next_state using ih True Cons u by (simp add: es)
    qed
  qed
qed (simp add: delete_replies_def)


text \<open>C20: Deleting the selection works through it in its order, one request at a time, until the backend refuses one. The
  requests are exactly the deletions up to that one, each entry once, and then a read of the list; exactly the entries
  whose deletion was confirmed are forgotten; the status line names the refusal, or says that all went well.
  Whatever the read answers, the lock is free then, and a list it returns is the one shown.\<close>

theorem deleting_stops_at_the_first_refusal:
  assumes "\<not> saveInFlight s" and "\<not> startInFlight (run_state s)"
    and "delete_replies (getVisibleMeasurementEntries s) rs"
    and "t = run_events (saved_step timing) (DeleteSelectedClicked True # List.map (SavedAnswered (length (savedTasks s))) rs) s"
  shows "savedRequests t = GetList # rev (List.map (\<lambda>e. DeleteOf (entry_id e)) (take (length rs) (getVisibleMeasurementEntries s)))
        @ savedRequests s
    \<and> visibilityById t = fold (\<lambda>e. jdel (entry_id e))
        (take (length (filter reply_ok rs)) (getVisibleMeasurementEntries s)) (visibilityById s)
    \<and> statusText (run_state t) = (if reply_ok (last rs) then ''Saved runs updated.''
        else refusal_text (getVisibleMeasurementEntries s ! (length rs - 1)) (last rs))
    \<and> savedTasks t = savedTasks s @ [ReadingList AfterDelete]
    \<and> (\<forall>r. \<not> saveInFlight (saved_answered (length (savedTasks s)) r t) \<and> savedTasks (saved_answered (length (savedTasks s)) r t) = savedTasks s)
    \<and> (\<forall>tx data. \<not> nullish data \<longrightarrow>
         savedList (saved_answered (length (savedTasks s)) (SvReply 200 tx (Inr data)) t)
           = normalized_entries (arr_items (jget data ''measurements'')))"
proof -
  let ?es = "getVisibleMeasurementEntries s" and ?k = "length (savedTasks s)"
  let ?c = "claim_lock (''Deleting '' @ (if length ?es = 1 then ''saved measurement'' else ''saved measurements'') @ ellipsis) s"
  have "?es \<noteq> []" using assms(3) by (auto simp: delete_replies_def)
  then have "deleteSelectedMeasurements True s = delete_next ?es ?c"
    using assms(1,2) by (simp add: deleteSelectedMeasurements_def Let_def)
  then have t: "t = run_events (saved_step timing) (List.map (SavedAnswered ?k) rs) (delete_next ?es ?c)"
    using assms(4) by (simp del: list.map)
  have c: "savedTasks ?c = savedTasks s" "savedRequests ?c = savedRequests s" "visibilityById ?c = visibilityById s" by simp_all
  note worked = deletes [OF assms(3) c(1), where timing = timing, folded t, unfolded c]
  from worked have tasks: "savedTasks t = savedTasks s @ [ReadingList AfterDelete]" by blast
  have read: "saved_answered ?k r t = release_lock (list_answered r (t\<lparr>savedTasks := savedTasks s\<rparr>))" for r
    using answered_last [OF tasks] by (simp add: saved_continues_def after_read_def)
  have free: "\<not> saveInFlight (saved_answered ?k r t)" "savedTasks (saved_answered ?k r t) = savedTasks s" for r
    unfolding read by simp_all
  have listed: "savedList (saved_answered ?k (SvReply 200 tx (Inr data)) t) = normalized_entries (arr_items (jget data ''measurements''))"
    if "\<not> nullish data" for tx data
    unfolding read using that by (simp add: list_answered_def list_read_def show_status_def on_m_def release_lock_def Let_def)
  show ?thesis using worked free listed by blast
qed

text \<open>Three entries are selected, the second deletion is refused.\<close>

definition listed_three :: "saved_event list" where
  "listed_three = [ListWanted, SavedAnswered 0 (SvReply 200 [] (Inr (JObj [(''measurements'',
     JArr [JObj [(''id'', JStr ''a'')], JObj [(''id'', JStr ''b'')], JObj [(''id'', JStr ''c'')]])]))), AllToggled True]"

definition one_refused :: "saved_reply list" where
  "one_refused = [SvReply 200 [] (Inr JNull), SvReply 500 [] (Inr (JObj [(''detail'', JStr ''locked'')]))]"

theorem deleting_stops_at_the_first_refusal_witness:
  "savedRequests (saved_after (listed_three @ DeleteSelectedClicked True # List.map (SavedAnswered 0) one_refused))
     = [GetList, DeleteOf ''b'', DeleteOf ''a'', GetList]
   \<and> statusText (run_state (saved_after (listed_three @ DeleteSelectedClicked True # List.map (SavedAnswered 0) one_refused))) = ''locked''"
proof -
  let ?s = "saved_after listed_three"
  have s: "\<not> saveInFlight ?s" "\<not> startInFlight (run_state ?s)" "savedTasks ?s = []" "savedRequests ?s = [GetList]"
    and replies: "delete_replies (getVisibleMeasurementEntries ?s) one_refused"
    and ids: "List.map (\<lambda>e. DeleteOf (entry_id e)) (take (length one_refused) (getVisibleMeasurementEntries ?s)) = [DeleteOf ''a'', DeleteOf ''b'']"
    and last: "\<not> reply_ok (last one_refused)"
    and words: "refusal_text (getVisibleMeasurementEntries ?s ! (length one_refused - 1)) (last one_refused) = ''locked''"
    by code_simp+
  let ?t = "saved_after (listed_three @ DeleteSelectedClicked True # List.map (SavedAnswered 0) one_refused)"
  have t: "?t = run_events (saved_step no_timing) (DeleteSelectedClicked True # List.map (SavedAnswered (length (savedTasks ?s))) one_refused) ?s"
    unfolding s(3) by (simp add: run_events_def)
  show ?thesis
    using deleting_stops_at_the_first_refusal [OF s(1,2) replies t] unfolding ids s(4) words using last by simp
qed

end
