(* ===== verification/Spec2Isabelle.thy ===== *)
theory Spec2Isabelle
  imports Footer_Claims Volume_Claims Ws_Claims
    Crossover_Values Output_Claims Output_Control_Claims Av_Sync_Claims Freshness_Claims
    Measurement_Claims Hybrid_Wizard_Claims Align_Claims Spl_Claims
    Level_Claims Polarity_Check Modal_Claims Saved_Outcomes
begin

text \<open>
  Verification of the FXRoute browser frontend (the JavaScript under src/static).

  FXRoute is an audio player and DSP system for a small computer. A Python backend drives playback
  and the audio engine; the frontend is a set of modules that share one state object, talk to the
  backend over HTTP and receive its state over a WebSocket. Its core logic, and the subject of this
  development, is what keeps one page consistent while many requests, pushes, polls and timers
  overlap: who owns the shared footer, which response may still be committed, which poll runs, which
  catalog revision is current. The backend is not modelled: a response, a push and the moment it
  arrives are inputs of every model.

  \<^bold>\<open>Values.\<close> \<open>JS_Values\<close> holds the JavaScript values the sources use: numbers are exact rationals with
  \<open>NaN\<close> and the infinities, objects are ordered association lists, strings are UTF-8 bytes; reading a
  property of \<open>null\<close> is an explicit error value wherever the source can meet it. \<open>Interfaces\<close> holds
  runs, reachable states and the locales the components interpret on their own definitions:
  \<open>inductive_invariant\<close>, \<open>token_guard\<close>, \<open>clamping\<close>; \<open>provider_poller\<close> is in \<open>Footer_Polls\<close>, and
  \<open>draining\<close>, for components whose answers use up their work, in \<open>Draining\<close>.

  \<^bold>\<open>The player page\<close> (static/playback_core.js, playback_ui.js, streaming_runtime.js and the parts of app.js
  that own the playback state):
  \<^item> \<open>Player_State\<close>: the module variables, the shared state, live timers and requests in flight.
  \<^item> \<open>Remote_Volume\<close>, \<open>Volume\<close>: the volume slider, its debounce and its single sender.
  \<^item> \<open>Footer\<close>, \<open>Footer_Props\<close>, \<open>Footer_Polls\<close>, \<open>Footer_Claims\<close>: ownership of the footer, its rule list,
    the polls that follow it, and what both promise.
  \<^item> \<open>Cues\<close>: when the start of a track is announced. \<open>Playback_Merge\<close>: numbered pushes and snapshots.
  \<^item> \<open>Streaming_Runtime\<close>, \<open>Streaming_Props\<close>: the Spotify and Qobuz states, their polls and commands.
  \<^item> \<open>Playback_Actions\<close>, \<open>Play_Actions\<close>: transport, queue commands and the ways to start playback.
  \<^item> \<open>Player_Machine\<close>: all of these as one step function over the page's events. \<open>Player_Frame\<close>,
    \<open>Player_Quiet\<close>, \<open>Player_Inv\<close>, \<open>Player_Safety\<close>, \<open>Player_Tokens\<close>: its invariant, the locks and timers
    that are never lost, the tokens that make superseded responses inert. \<open>Volume_Claims\<close>: what becomes of a
    volume that waits, event by event; only a refused request drops it, and says so.
  \<^item> \<open>Ws_Connection\<close>, \<open>Ws_Safety\<close>, \<open>Ws_Claims\<close>: the WebSocket of app.js around the page (connect, watchdog,
    backoff, offline indicator, visibility); a lost server is noticed, a stale socket is deaf, and the page
    never stays offline with nothing scheduled.

  \<^bold>\<open>The output system\<close> (static/output_state.js, output_system_controller.js, crossover.js, av_sync.js):
  \<^item> \<open>Output_Roles\<close>, \<open>Output_Catalog\<close>, \<open>Output_Presets\<close>: the pure helpers over the catalog;
    \<open>Output_Claims\<close>: the Easy view, measurement areas, presets of a bank, merged overviews.
  \<^item> \<open>Crossover\<close>, \<open>Crossover_Props\<close>, \<open>Crossover_Values\<close>: the crossover tile, its pairs, values and clamps.
  \<^item> \<open>Output_Control\<close>, \<open>Output_Control_Props\<close>, \<open>Output_Control_Claims\<close>: catalog reads and revisioned
    mutations with their conflict retry, one stage of a call per awaited request.
  \<^item> \<open>Av_Sync\<close>, \<open>Av_Sync_Claims\<close>: the polling panel that edits and saves the delay target.

  \<^bold>\<open>Measurements\<close> (static/measurement_capture.js, measurement_job.js, parts of measurement_ui.js):
  \<^item> \<open>Measurement_Entry\<close>: the normal form of a result.
  \<^item> \<open>Measurement_Job\<close>: the start, the polls, the cancellation and the end of a sweep or an L/R repeat.
    \<open>Measurement_Safety\<close> and \<open>Measurement_Steps\<close> keep its invariant, \<open>Measurement_Claims\<close> derives that
    no run is left stuck, that superseded runs are inert and that every call ends. The first needs
    the backend to answer a poll with the job that was asked for, a named hypothesis on the events.

  \<^bold>\<open>Saved measurements\<close> (static/measurement_saved_actions.js, with \<open>fetchMeasurements\<close> of app.js): \<open>Saved_Actions\<close>
  puts saving, deleting and merging beside the job machine, on the same measurement state; every awaited request
  is a task, and a job step may come between any two. \<open>Saved_Results\<close> follows the results through the job
  (when they change, and that a pair belongs to its first entry), \<open>Saved_Claims\<close> is the common lock and
  its release, \<open>Saved_Outcomes\<close> what a save sends and gives up and where a deletion stops. Two lemmas there show
  what a save loses: a result that arrives while it waits, and one hidden behind Auto Sub measurements.

  \<^bold>\<open>Measurement procedures\<close> (static/measurement_flows.js, hybrid_measurement.js, speaker_align.js):
  \<^item> \<open>Hybrid_Scope\<close>, \<open>Hybrid_Claims\<close>: the scopes and capture sequences of the Advanced measurement.
    \<open>Hybrid_Wizard\<close>: its dialog as one machine over clicks, answers and pushes of a new output system;
    building a profile from captures is a parameter (\<open>modeller\<close>), since its numbers are not modelled.
    \<open>Hybrid_Runs\<close>, \<open>Hybrid_Machine\<close> keep the invariant, \<open>Hybrid_Wizard_Claims\<close> states what a finished,
    a failed and a cancelled run leave behind, and bounds the answers of a run by 726 per step (360 polls,
    each a sleep and a request, and the requests around them).
  \<^item> \<open>Auto_Sub_Result\<close>, \<open>Speaker_Align\<close>: the progress and outcome texts, the request of an alignment, and
    the timing lanes of its takes.
  \<^item> \<open>Align_Flows\<close>: the Auto Sub run, its recovery after a reload, and the Speaker Align run, with
    their cancellations. \<open>Align_Inv\<close>: at most one run, holding its flags exactly while its call waits;
    \<open>Align_Marks\<close>: the part of this that also the closing of the Advanced dialog cannot break.
    \<open>Align_Claims\<close>: one procedure at a time, every run ends (7207 answers: 3600 sleeps of half a second
    in half an hour, a request each, and 7 around them; a hypothesis says that no sleep ends early), and
    no alignment job is left running unasked. Closing the idle Advanced dialog beside a recovered Auto Sub
    run leaves its mark behind; the lemma \<open>closing_advanced_strands_auto_sub\<close> shows it.

  \<^bold>\<open>Calibration\<close> (static/measurement_spl_calibration.js): \<open>Spl_Calibration\<close> is the SPL panel, with its countdown,
  its noise or automatic measurement, the one stop operation that later callers join, save and close. A
  request that times out after 45 seconds settles as \<open>TimedOut\<close>. \<open>Spl_Safety\<close> sets the part of the backend beside
  it that plays the noise, which may handle requests in any order or not at all, and derives that noise
  is never forgotten; the hypotheses are that a success is only reported for what was done, and that a
  request which settled otherwise is not handled later. \<open>Spl_Locks\<close> holds the invariant of the panel's locks
  and the measure of its work, \<open>Spl_Claims\<close> the two results.

  \<^bold>\<open>Level Matching and Polarity Check\<close> (static/measurement_level_match.js, measurement_polarity_check.js):
  \<open>Level_Match\<close> is the run that measures and applies the trims of a bank, the reset of the trims and the
  reads of the stored levels, each an awaited stage; \<open>Level_Claims\<close> ties every flag of the panel to the stage
  that waits and shows that a cancelled run applies nothing. \<open>Polarity_Check\<close> is the run of the other panel
  and its result text: the summary tells wrong speakers from good ones as long as every undecided row has
  a reason the panel has a hint for, a hypothesis without which it does not.

  \<^bold>\<open>The page itself\<close> (static/frontend_freshness.js): \<open>Frontend_Freshness\<close>, \<open>Freshness_Scan\<close>,
  \<open>Freshness_Claims\<close>: versions of the served assets, and the idle reload of a stale page.

  \<^bold>\<open>The dialogs\<close> (static/modal.js): \<open>Modal_Stack\<close> is the manager all dialogs share: its stack, the elements it
  makes inert, initial focus, the tab cycle and the return of the focus. An element is its path in the
  document tree. Between any two calls the focus moves and the page changes: its attributes and layout
  anywhere, and any part of the tree that holds none of the elements the manager or the browser remembers
  (an opener that the page removes while its dialog is open is outside the model). \<open>Modal_Claims\<close>: the marks
  are exactly what is outside the top dialog, and a dialog that is closed leaves no trace.

  \<^bold>\<open>Conventions.\<close> A synchronous handler is one function on the state record. An \<open>await\<close> splits a function:
  the part before it registers the request, the part after it is the step that takes the response, so
  every interleaving of responses, timers and user input is a sequence of events. Timers carry fresh
  handles and fire in any order the clock allows. Every function is total and executable; loops are
  structural recursions or have a measure, and the only bound of the models is the length of a decimal
  expansion (17 digits), which covers every number the sources format.

  \<^bold>\<open>Not modelled.\<close> The Python backend, the native programs and the installers (other languages, or beyond
  the page); DOM rendering and canvas painting of the library, streaming, radio, settings, measurement
  and output panels, whose decisions that matter are in the modules above; the demo mode and the
  generated copies under demo; the numerical parts of the measurements (measurement_dsp.js,
  measurement_peq_auto.js, autosub_target.js, the profile building of hybrid_measurement.js), which rest on
  floating point; microphone calibration files and the setup guide,
  which are requests and form fields around the modules above; \<open>compactPresetName\<close>, which counts UTF-16
  units where strings here are bytes.
\<close>

end
